(* ===== verification/Prelude.thy ===== *)
theory Prelude
  imports Main "HOL-Library.Word" "HOL-Library.Mapping" "HOL-Library.Extended_Nat"
begin

text \<open>
  Shared vocabulary of the development: names for the machine integers of the C++
  sources, facts about saturating and wrapping 64-bit arithmetic, facts about strictly
  sorted queues, and the two interfaces that several components provide:

  \<^item> \<open>invariant_machine\<close>: a component whose operations keep an invariant as long as a
    finite resource (a 64-bit sequence counter, say) is not exhausted;
  \<^item> \<open>snapshot_store\<close>: a component with \<open>snapshot() const\<close> and
    \<open>bool restore(const Snapshot &)\<close>, as the save-state code of the runtime uses it.
\<close>

section \<open>Machine integers\<close>

type_synonym u8 = "8 word"
type_synonym u16 = "16 word"
type_synonym u32 = "32 word"
type_synonym u64 = "64 word"

text \<open>\<open>std::numeric_limits<uint64_t>::max()\<close> and its 32-bit sibling are all-ones words.\<close>

abbreviation u64_max :: u64 where "u64_max \<equiv> - 1"
abbreviation u32_max :: u32 where "u32_max \<equiv> - 1"

named_theorems word_facts \<open>saturating, wrapping and comparison facts on machine words\<close>

lemma unat_u64_max [simp]: "unat u64_max = 18446744073709551615"
  by (simp add: unsigned_minus_1_eq_mask mask_eq_exp_minus_1)

lemma unat_u32_max [simp]: "unat u32_max = 4294967295"
  by (simp add: unsigned_minus_1_eq_mask mask_eq_exp_minus_1)

lemma unat_u64_less: "unat (x :: u64) < 2 ^ 64"
  using unsigned_less [of x] by simp

lemma unat_u64_le: "unat (x :: u64) \<le> 2 ^ 64 - 1"
  using unat_u64_less [of x] by linarith

lemma unat_u32_less: "unat (x :: u32) < 2 ^ 32"
  using unsigned_less [of x] by simp

lemma u64_le_max [simp]: "x \<le> u64_max"
  by (rule max_word_max)

lemma unat_sub_le: "y \<le> x \<Longrightarrow> unat (x - y) = unat x - unat (y :: 'a::len word)"
  by (simp add: unat_sub)

lemma unat_add_no_overflow:
  "unat x + unat y < 2 ^ LENGTH('a) \<Longrightarrow> unat (x + y) = unat x + unat (y :: 'a::len word)"
  by (simp add: unat_word_ariths)

lemma unat_mult_no_overflow:
  "unat x * unat y < 2 ^ LENGTH('a) \<Longrightarrow> unat (x * y) = unat x * unat (y :: 'a::len word)"
  by (simp add: unat_word_ariths)

lemma unat_succ: "x + 1 \<noteq> 0 \<Longrightarrow> unat (x + 1) = Suc (unat (x :: 'a::len word))"
  using unatSuc [of x] by (simp add: add.commute)

lemma unat_succ_u64: "x \<noteq> u64_max \<Longrightarrow> unat (x + 1) = Suc (unat x)"
  by (rule unat_succ) (metis eq_neg_iff_add_eq_0)

lemma unat_of_nat_u64: "k < 2 ^ 64 \<Longrightarrow> unat (of_nat k :: u64) = k"
  by (simp add: unsigned_of_nat take_bit_nat_eq_self_iff)

lemma unat_add_of_nat_u64: "unat (x :: u64) + k < 2 ^ 64 \<Longrightarrow> unat (x + of_nat k) = unat x + k"
  by (subst unat_add_no_overflow) (simp_all add: unat_of_nat_u64)

lemma unat_widen: "LENGTH('a) \<le> LENGTH('b) \<Longrightarrow> unat (ucast (x :: 'a::len word) :: 'b::len word) = unat x"
  by (simp add: unsigned_ucast_eq take_bit_nat_eq_self unsigned_less order_less_le_trans [OF unsigned_less])

lemma word_zero_iff_unat: "(x :: 'a::len word) = 0 \<longleftrightarrow> unat x = 0"
  by (simp add: unat_eq_0)

text \<open>The saturating sum every timing component writes out with a guard.\<close>

definition sat_add64 :: "u64 \<Rightarrow> u64 \<Rightarrow> u64" where
  "sat_add64 x y = (if y > u64_max - x then u64_max else x + y)"

lemma unat_sat_add64 [word_facts]:
  "unat (sat_add64 x y) = min (unat x + unat y) (2 ^ 64 - 1)"
proof -
  have m: "unat (u64_max - x) = 2 ^ 64 - 1 - unat x"
    using unat_sub_le [of x u64_max] by simp
  show ?thesis
  proof (cases "y > u64_max - x")
    case True
    then have "unat y > 2 ^ 64 - 1 - unat x" by (simp add: word_less_nat_alt m)
    with True show ?thesis by (simp add: sat_add64_def)
  next
    case False
    then have "unat y \<le> 2 ^ 64 - 1 - unat x" by (simp add: word_less_nat_alt m not_less)
    then have le: "unat x + unat y \<le> 2 ^ 64 - 1" using unat_u64_le [of x] by linarith
    then have "unat (x + y) = unat x + unat y"
      by (intro unat_add_no_overflow) simp
    with False le show ?thesis by (simp add: sat_add64_def)
  qed
qed

lemma sat_add64_ge: "x \<le> sat_add64 x y"
  using unat_u64_le [of x] by (simp add: word_le_nat_alt unat_sat_add64)

text \<open>The saturating product, as the counter bank computes it.\<close>

definition sat_mul64 :: "u64 \<Rightarrow> u64 \<Rightarrow> u64" where
  "sat_mul64 x y = (if x \<noteq> 0 \<and> y > u64_max div x then u64_max else x * y)"

lemma unat_sat_mul64 [word_facts]:
  "unat (sat_mul64 x y) = min (unat x * unat y) (2 ^ 64 - 1)"
proof (cases "x \<noteq> 0 \<and> y > u64_max div x")
  case True
  then have pos: "unat x > 0" and gt: "unat y > (2 ^ 64 - 1) div unat x"
    by (auto simp: word_less_nat_alt unat_div_distrib unat_gt_0)
  have "unat x * unat y \<ge> 2 ^ 64 - 1"
  proof -
    from gt have "unat y \<ge> (2 ^ 64 - 1) div unat x + 1" by linarith
    then have "unat x * unat y \<ge> unat x * ((2 ^ 64 - 1) div unat x + 1)"
      by (rule mult_le_mono2)
    moreover have "unat x * ((2 ^ 64 - 1) div unat x + 1) \<ge> 2 ^ 64 - 1"
      using pos by (metis Suc_eq_plus1 dividend_less_times_div less_imp_le_nat
          mult_Suc_right add.commute mult.commute)
    ultimately show ?thesis by linarith
  qed
  with True show ?thesis by (simp add: sat_mul64_def)
next
  case False
  have "unat x * unat y \<le> 2 ^ 64 - 1"
  proof (cases "x = 0")
    case True
    then show ?thesis by simp
  next
    case nz: False
    with False have "unat y \<le> (2 ^ 64 - 1) div unat x"
      by (simp add: word_less_nat_alt unat_div_distrib not_less)
    then have "unat x * unat y \<le> unat x * ((2 ^ 64 - 1) div unat x)" by simp
    also have "\<dots> \<le> 2 ^ 64 - 1" by (rule times_div_less_eq_dividend)
    finally show ?thesis .
  qed
  moreover from this have "unat (x * y) = unat x * unat y"
    by (intro unat_mult_no_overflow) simp
  ultimately show ?thesis
    using False unfolding sat_mul64_def by (simp only: if_False)
qed

section \<open>Sorted queues\<close>

text \<open>
  Two lists sorted by the same injective key with the same elements are equal: this is
  what makes a queue rebuilt from sequence numbers the queue that was saved.
\<close>

lemma sorted_wrt_key_distinct:
  "sorted_wrt (\<lambda>a b. (f a :: 'k::linorder) < f b) xs \<Longrightarrow> distinct xs"
  by (induction xs) auto

lemma sorted_wrt_key_unique:
  assumes "sorted_wrt (\<lambda>a b. (f a :: 'k::linorder) < f b) xs"
    and "sorted_wrt (\<lambda>a b. f a < f b) ys"
    and "set xs = set ys"
  shows "xs = ys"
  using assms
proof (induction xs arbitrary: ys)
  case Nil
  then show ?case by simp
next
  case (Cons x xs)
  then obtain y ys' where ys: "ys = y # ys'" by (cases ys) auto
  have xy: "x = y"
  proof (rule ccontr)
    assume "x \<noteq> y"
    with Cons.prems ys have "x \<in> set ys'" and "y \<in> set xs" by auto
    with Cons.prems ys have "f y < f x" and "f x < f y" by auto
    then show False by simp
  qed
  have "x \<notin> set xs" and "y \<notin> set ys'" using Cons.prems ys by auto
  with Cons.prems ys xy have "set xs = set ys'" by auto
  with Cons ys xy show ?case by auto
qed

lemma sorted_wrt_filter: "sorted_wrt P xs \<Longrightarrow> sorted_wrt P (filter Q xs)"
  by (induction xs) auto

lemma sorted_wrt_remove1: "sorted_wrt P xs \<Longrightarrow> sorted_wrt P (remove1 x xs)"
  by (induction xs) (auto dest: notin_set_remove1 in_set_remove1 set_remove1_subset [THEN subsetD])

lemma sorted_wrt_cong_set:
  "(\<And>a b. a \<in> set xs \<Longrightarrow> b \<in> set xs \<Longrightarrow> P a b = Q a b) \<Longrightarrow> sorted_wrt P xs = sorted_wrt Q xs"
  by (induction xs) auto

section \<open>Interfaces\<close>

text \<open>
  An \<open>invariant_machine\<close> is a component seen through its mutating operations. The
  \<open>capacity\<close> is the number of operations the state still admits before a counter of
  fixed width is exhausted; it is infinite for a component without one.
\<close>

locale invariant_machine =
  fixes init :: 's
    and step :: "'op \<Rightarrow> 's \<Rightarrow> 's"
    and inv :: "'s \<Rightarrow> bool"
    and capacity :: "'s \<Rightarrow> enat"
  assumes inv_init: "inv init"
    and inv_step: "inv s \<Longrightarrow> 0 < capacity s \<Longrightarrow> inv (step p s)"
    and capacity_step: "inv s \<Longrightarrow> 0 < capacity s \<Longrightarrow> capacity s \<le> eSuc (capacity (step p s))"
begin

lemma inv_run:
  assumes "inv s" and "enat (length ops) \<le> capacity s"
  shows "inv (fold step ops s)"
  using assms
proof (induction ops arbitrary: s)
  case Nil
  then show ?case by simp
next
  case (Cons p ops)
  then have pos: "0 < capacity s" by (cases "capacity s") (auto simp: zero_enat_def)
  have "enat (Suc (length ops)) \<le> eSuc (capacity (step p s))"
    using Cons.prems capacity_step [OF Cons.prems(1) pos] by (simp add: order_trans)
  then have "enat (length ops) \<le> capacity (step p s)"
    by (cases "capacity (step p s)") (auto simp: eSuc_enat)
  with Cons.IH [OF inv_step [OF Cons.prems(1) pos]] show ?case by simp
qed

lemma inv_run_init: "enat (length ops) \<le> capacity init \<Longrightarrow> inv (fold step ops init)"
  by (rule inv_run [OF inv_init])

lemma inv_every_prefix:
  assumes "enat (length ops) \<le> capacity init"
  shows "inv (fold step (take n ops) init)"
proof (rule inv_run_init)
  have "enat (length (take n ops)) \<le> enat (length ops)" by simp
  then show "enat (length (take n ops)) \<le> capacity init" using assms by (rule order_trans)
qed

end

text \<open>
  A \<open>snapshot_store\<close> saves and restores its state. \<open>restore\<close> returns the flag the code
  returns together with the state it leaves behind; \<open>shaped\<close> says that the lists standing for
  fixed-size arrays have their declared lengths, and \<open>view\<close> is the part of the state a
  snapshot is meant to carry.
\<close>

locale snapshot_store =
  fixes snapshot :: "'s \<Rightarrow> 'd"
    and restore :: "'d \<Rightarrow> 's \<Rightarrow> bool \<times> 's"
    and shaped :: "'d \<Rightarrow> bool"
    and inv :: "'s \<Rightarrow> bool"
    and view :: "'s \<Rightarrow> 'v"
  assumes snapshot_shaped: "inv s \<Longrightarrow> shaped (snapshot s)"
    and restore_accepts: "inv s \<Longrightarrow> fst (restore (snapshot s) t)"
    and restore_view: "inv s \<Longrightarrow> view (snd (restore (snapshot s) t)) = view s"
    and restore_rejects: "\<not> fst (restore d t) \<Longrightarrow> snd (restore d t) = t"
    and restore_sound: "shaped d \<Longrightarrow> fst (restore d t) \<Longrightarrow> inv (snd (restore d t))"
    and snapshot_of_view: "view s = view t \<Longrightarrow> snapshot s = snapshot t"
begin

lemma resave: "inv s \<Longrightarrow> snapshot (snd (restore (snapshot s) t)) = snapshot s"
  by (rule snapshot_of_view) (rule restore_view)

lemma restore_keeps_inv: "shaped d \<Longrightarrow> inv t \<Longrightarrow> inv (snd (restore d t))"
  using restore_rejects restore_sound by (cases "fst (restore d t)") auto

text \<open>Saving, loading, saving and loading again changes nothing the snapshot carries.\<close>

lemma roundtrip:
  assumes "inv s"
  shows "fst (restore (snapshot s) t)
       \<and> view (snd (restore (snapshot s) t)) = view s
       \<and> inv (snd (restore (snapshot s) t))
       \<and> snapshot (snd (restore (snapshot s) t)) = snapshot s"
  using assms by (simp add: restore_accepts restore_view resave
      restore_sound [OF snapshot_shaped restore_accepts])

end

end
