(* ===== verification/EeTiming.thy ===== *)
theory EeTiming
  imports Prelude
begin

text \<open>
  \<open>ps2xRuntime/include/runtime/ee_timing.h\<close>: the emulated Emotion Engine timeline. A tick
  is the scheduler unit, one EE cycle is eight ticks; \<open>EeTick\<close> (a point) and
  \<open>EeTickDelta\<close> (a distance) are distinct types over \<open>uint64_t\<close>, and every sum saturates.
  The lemmas show that conversions are exact below the saturation bound, that rounding
  brackets the input and that the timeline only moves forward.
\<close>

section \<open>Constants and the two tick types\<close>

definition kEeTicksPerCycle :: u64 where "kEeTicksPerCycle = 8"
definition kEeCyclesPerIopCycle :: u64 where "kEeCyclesPerIopCycle = 8"

datatype ee_tick_delta = EeTickDelta (delta_raw: u64)
datatype ee_tick = EeTick (tick_raw: u64)

text \<open>The friend comparison operators of the two classes are the order of the raw values.\<close>

instantiation ee_tick_delta :: linorder
begin

definition less_eq_ee_tick_delta :: "ee_tick_delta \<Rightarrow> ee_tick_delta \<Rightarrow> bool" where
  "less_eq_ee_tick_delta a b = (delta_raw a \<le> delta_raw b)"

definition less_ee_tick_delta :: "ee_tick_delta \<Rightarrow> ee_tick_delta \<Rightarrow> bool" where
  "less_ee_tick_delta a b = (delta_raw a < delta_raw b)"

instance
  by standard (auto simp: less_eq_ee_tick_delta_def less_ee_tick_delta_def
      intro: ee_tick_delta.expand)

end

instantiation ee_tick :: linorder
begin

definition less_eq_ee_tick :: "ee_tick \<Rightarrow> ee_tick \<Rightarrow> bool" where
  "less_eq_ee_tick a b = (tick_raw a \<le> tick_raw b)"

definition less_ee_tick :: "ee_tick \<Rightarrow> ee_tick \<Rightarrow> bool" where
  "less_ee_tick a b = (tick_raw a < tick_raw b)"

instance
  by standard (auto simp: less_eq_ee_tick_def less_ee_tick_def intro: ee_tick.expand)

end

lemmas tick_order = less_eq_ee_tick_def less_ee_tick_def
  less_eq_ee_tick_delta_def less_ee_tick_delta_def

section \<open>Conversions\<close>

definition eeTickDeltaFromRaw :: "u64 \<Rightarrow> ee_tick_delta" where
  "eeTickDeltaFromRaw ticks = EeTickDelta ticks"

definition eeTickFromRaw :: "u64 \<Rightarrow> ee_tick" where
  "eeTickFromRaw tick = EeTick tick"

definition cyclesToTickDelta :: "u64 \<Rightarrow> u64 \<Rightarrow> ee_tick_delta" where
  "cyclesToTickDelta cycles ticksPerCycle =
     (if ticksPerCycle \<noteq> 0 \<and> cycles > u64_max div ticksPerCycle
      then EeTickDelta u64_max
      else EeTickDelta (cycles * ticksPerCycle))"

definition eeCyclesToTicks :: "u64 \<Rightarrow> ee_tick_delta" where
  "eeCyclesToTicks cycles = cyclesToTickDelta cycles kEeTicksPerCycle"

definition eeTicksToCyclesFloor :: "ee_tick_delta \<Rightarrow> u64" where
  "eeTicksToCyclesFloor ticks = delta_raw ticks div kEeTicksPerCycle"

definition eeTickToCyclesFloor :: "ee_tick \<Rightarrow> u64" where
  "eeTickToCyclesFloor tick = tick_raw tick div kEeTicksPerCycle"

definition eeTicksToCyclesCeil :: "ee_tick_delta \<Rightarrow> u64" where
  "eeTicksToCyclesCeil ticks =
     delta_raw ticks div kEeTicksPerCycle
     + (if delta_raw ticks mod kEeTicksPerCycle \<noteq> 0 then 1 else 0)"

definition vuCyclesToEeTicks :: "u64 \<Rightarrow> ee_tick_delta" where
  "vuCyclesToEeTicks cycles = eeCyclesToTicks cycles"

definition eeTicksToVuCyclesFloor :: "ee_tick_delta \<Rightarrow> u64" where
  "eeTicksToVuCyclesFloor ticks = eeTicksToCyclesFloor ticks"

definition iopCyclesToEeTicks :: "u64 \<Rightarrow> ee_tick_delta" where
  "iopCyclesToEeTicks cycles =
     cyclesToTickDelta cycles (kEeCyclesPerIopCycle * kEeTicksPerCycle)"

definition eeTicksToIopCyclesFloor :: "ee_tick_delta \<Rightarrow> u64" where
  "eeTicksToIopCyclesFloor ticks =
     delta_raw ticks div (kEeCyclesPerIopCycle * kEeTicksPerCycle)"

definition saturatingAdd :: "ee_tick \<Rightarrow> ee_tick_delta \<Rightarrow> ee_tick" where
  "saturatingAdd tick delta =
     (if delta_raw delta > u64_max - tick_raw tick
      then EeTick u64_max
      else EeTick (tick_raw tick + delta_raw delta))"

definition elapsedEeTicks :: "ee_tick \<Rightarrow> ee_tick \<Rightarrow> ee_tick_delta" where
  "elapsedEeTicks earlier later =
     EeTickDelta (if later \<ge> earlier then tick_raw later - tick_raw earlier else 0)"

section \<open>The timeline\<close>

record ee_timeline =
  tl_now :: ee_tick

definition timeline_advance :: "ee_timeline \<Rightarrow> ee_tick_delta \<Rightarrow> ee_timeline \<times> ee_tick" where
  "timeline_advance t elapsed =
     (let now' = saturatingAdd (tl_now t) elapsed
      in (t\<lparr>tl_now := now'\<rparr>, now'))"

definition timeline_reset :: "ee_timeline \<Rightarrow> ee_timeline" where
  "timeline_reset t = t\<lparr>tl_now := EeTick 0\<rparr>"

definition timeline_restore :: "ee_timeline \<Rightarrow> ee_tick \<Rightarrow> ee_timeline" where
  "timeline_restore t now = t\<lparr>tl_now := now\<rparr>"

section \<open>Lemmas\<close>

lemma cyclesToTickDelta_sat:
  "cyclesToTickDelta cycles n = EeTickDelta (sat_mul64 n cycles)"
  by (simp add: cyclesToTickDelta_def sat_mul64_def mult.commute)

lemma saturatingAdd_sat: "saturatingAdd t d = EeTick (sat_add64 (tick_raw t) (delta_raw d))"
  by (simp add: saturatingAdd_def sat_add64_def)

lemma unat_saturatingAdd [word_facts]:
  "unat (tick_raw (saturatingAdd t d)) = min (unat (tick_raw t) + unat (delta_raw d)) (2 ^ 64 - 1)"
  by (simp add: saturatingAdd_sat unat_sat_add64)

lemma saturatingAdd_ge: "t \<le> saturatingAdd t d"
  by (simp add: saturatingAdd_sat tick_order sat_add64_ge)

lemma elapsed_pos_iff: "delta_raw (elapsedEeTicks a b) \<noteq> 0 \<longleftrightarrow> a < b"
  by (auto simp: elapsedEeTicks_def tick_order)

lemma elapsed_refl [simp]: "elapsedEeTicks t t = EeTickDelta 0"
  by (simp add: elapsedEeTicks_def)

lemma unat_eeCyclesToTicks:
  "unat (delta_raw (eeCyclesToTicks cycles)) = min (unat cycles * 8) (2 ^ 64 - 1)"
  by (simp add: eeCyclesToTicks_def cyclesToTickDelta_sat unat_sat_mul64
      kEeTicksPerCycle_def mult.commute)

lemma unat_iopCyclesToEeTicks:
  "unat (delta_raw (iopCyclesToEeTicks cycles)) = min (unat cycles * 64) (2 ^ 64 - 1)"
  by (simp add: iopCyclesToEeTicks_def cyclesToTickDelta_sat unat_sat_mul64
      kEeTicksPerCycle_def kEeCyclesPerIopCycle_def mult.commute)

lemma unat_eeTicksToCyclesFloor:
  "unat (eeTicksToCyclesFloor t) = unat (delta_raw t) div 8"
  by (simp add: eeTicksToCyclesFloor_def kEeTicksPerCycle_def unat_div_distrib)

lemma unat_eeTicksToIopCyclesFloor:
  "unat (eeTicksToIopCyclesFloor t) = unat (delta_raw t) div 64"
  by (simp add: eeTicksToIopCyclesFloor_def kEeTicksPerCycle_def kEeCyclesPerIopCycle_def
      unat_div_distrib)

lemma div8_round_up:
  assumes "0 < n mod (8::nat)"
  shows "Suc (n div 8) = (n + 7) div 8"
proof -
  have "n + 7 = (n mod 8 - 1) + 8 * Suc (n div 8)" using assms by simp
  then have "(n + 7) div 8 = (n mod 8 - 1) div 8 + Suc (n div 8)" by simp
  then show ?thesis by simp
qed

lemma unat_eeTicksToCyclesCeil:
  "unat (eeTicksToCyclesCeil t) = (unat (delta_raw t) + 7) div 8"
proof -
  let ?r = "unat (delta_raw t)"
  have m: "delta_raw t mod 8 = 0 \<longleftrightarrow> ?r mod 8 = 0"
    by (simp add: word_unat_eq_iff unat_mod_distrib)
  have small: "?r div 8 + 1 < 2 ^ 64" using unat_u64_less [of "delta_raw t"] by simp
  then have up: "unat (delta_raw t div 8 + 1) = ?r div 8 + 1"
    by (subst unat_add_no_overflow) (simp_all add: unat_div_distrib)
  show ?thesis
    by (auto simp: eeTicksToCyclesCeil_def kEeTicksPerCycle_def m up unat_div_distrib div8_round_up)
qed

lemmas unat_conversions = unat_eeCyclesToTicks unat_iopCyclesToEeTicks
  unat_eeTicksToCyclesFloor unat_eeTicksToIopCyclesFloor unat_eeTicksToCyclesCeil
  eeTicksToVuCyclesFloor_def vuCyclesToEeTicks_def

text \<open>
  Converting cycles to ticks and back is exact below the saturation bound, for EE,
  VU and IOP cycles alike; and a tick distance always lies between its floor and its
  ceiling in cycles, which differ by at most one.
\<close>

theorem cycle_tick_roundtrip:
  "(unat cycles * 64 < 2 ^ 64 \<longrightarrow>
      eeTicksToCyclesFloor (eeCyclesToTicks cycles) = cycles
    \<and> eeTicksToCyclesCeil (eeCyclesToTicks cycles) = cycles
    \<and> eeTicksToVuCyclesFloor (vuCyclesToEeTicks cycles) = cycles
    \<and> eeTicksToIopCyclesFloor (iopCyclesToEeTicks cycles) = cycles)
   \<and> unat (eeTicksToCyclesFloor t) * 8 \<le> unat (delta_raw t)
   \<and> unat (delta_raw t) \<le> unat (eeTicksToCyclesCeil t) * 8
   \<and> unat (eeTicksToCyclesCeil t) \<le> Suc (unat (eeTicksToCyclesFloor t))"
proof (intro conjI impI)
  assume "unat cycles * 64 < 2 ^ 64"
  then have b: "unat cycles \<le> 288230376151711743" by simp
  then have m: "min (unat cycles * 8) (2 ^ 64 - 1) = unat cycles * 8"
    "min (unat cycles * 64) (2 ^ 64 - 1) = unat cycles * 64" by simp_all
  show "eeTicksToCyclesFloor (eeCyclesToTicks cycles) = cycles"
    and "eeTicksToVuCyclesFloor (vuCyclesToEeTicks cycles) = cycles"
    and "eeTicksToIopCyclesFloor (iopCyclesToEeTicks cycles) = cycles"
    by (simp_all only: word_unat_eq_iff unat_conversions m)
  show "eeTicksToCyclesCeil (eeCyclesToTicks cycles) = cycles"
    by (simp only: word_unat_eq_iff unat_conversions m)
qed (simp_all add: unat_conversions)

theorem cycle_tick_roundtrip_witness:
  "eeTicksToCyclesFloor (eeCyclesToTicks 4915200) = 4915200
   \<and> eeTicksToIopCyclesFloor (iopCyclesToEeTicks 4915200) = 4915200"
  using cycle_tick_roundtrip [of 4915200 "EeTickDelta 0"] by simp

end
