(* ===== verification/EeEventScheduler.thy ===== *)
theory EeEventScheduler
  imports EeTiming
begin

text \<open>
  \<open>ps2xRuntime/include/runtime/ee_event_scheduler.h\<close> and
  \<open>ps2xRuntime/src/lib/ee_event_scheduler.cpp\<close>: the deterministic fixed-source event
  scheduler of the EE timeline. One slot per source; scheduling replaces the slot and
  advances its generation, the earliest pending deadline is cached, equal deadlines are
  served in the order of the enumeration.

  The invariant \<open>es_inv\<close> says that the cache is the least pending (deadline, source) pair
  and that pending slots carry distinct, issued sequence numbers. On top of it: what a
  service pass delivers and in which order, its bound of 1,024 callbacks, which event a
  token can cancel, and the save/restore round trip.
\<close>

section \<open>Event sources\<close>

datatype ee_event_source =
    Cop0Performance | VSync | EeCounters | Cop0Timer | DmacCompletion | DmacVif1 | DmacGif
  | HleSif1 | DmacVif0 | DmacFromIpu | DmacToIpu | DmacFromScratchpad | DmacToScratchpad
  | VifVu0Finish | VifVu1Finish | SourceCount

primrec eeEventSourceIndex :: "ee_event_source \<Rightarrow> nat" where
  "eeEventSourceIndex Cop0Performance = 0"
| "eeEventSourceIndex VSync = 1"
| "eeEventSourceIndex EeCounters = 2"
| "eeEventSourceIndex Cop0Timer = 3"
| "eeEventSourceIndex DmacCompletion = 4"
| "eeEventSourceIndex DmacVif1 = 5"
| "eeEventSourceIndex DmacGif = 6"
| "eeEventSourceIndex HleSif1 = 7"
| "eeEventSourceIndex DmacVif0 = 8"
| "eeEventSourceIndex DmacFromIpu = 9"
| "eeEventSourceIndex DmacToIpu = 10"
| "eeEventSourceIndex DmacFromScratchpad = 11"
| "eeEventSourceIndex DmacToScratchpad = 12"
| "eeEventSourceIndex VifVu0Finish = 13"
| "eeEventSourceIndex VifVu1Finish = 14"
| "eeEventSourceIndex SourceCount = 15"

definition kEeEventSourceCount :: nat where
  "kEeEventSourceCount = eeEventSourceIndex SourceCount"

text \<open>\<open>static_cast<EeEventSource>(index)\<close>; the loops only cast indices below the count.\<close>

definition allSources :: "ee_event_source list" where
  "allSources = [Cop0Performance, VSync, EeCounters, Cop0Timer, DmacCompletion, DmacVif1,
     DmacGif, HleSif1, DmacVif0, DmacFromIpu, DmacToIpu, DmacFromScratchpad,
     DmacToScratchpad, VifVu0Finish, VifVu1Finish]"

definition sourceOfIndex :: "nat \<Rightarrow> ee_event_source" where
  "sourceOfIndex i = (if i < length allSources then allSources ! i else SourceCount)"

primrec eeEventSourceName :: "ee_event_source \<Rightarrow> string" where
  "eeEventSourceName Cop0Performance = ''cop0_performance''"
| "eeEventSourceName VSync = ''vsync''"
| "eeEventSourceName EeCounters = ''ee_counters''"
| "eeEventSourceName Cop0Timer = ''cop0_timer''"
| "eeEventSourceName DmacCompletion = ''dmac_completion''"
| "eeEventSourceName DmacVif1 = ''dmac_vif1''"
| "eeEventSourceName DmacGif = ''dmac_gif''"
| "eeEventSourceName HleSif1 = ''hle_sif1''"
| "eeEventSourceName DmacVif0 = ''dmac_vif0''"
| "eeEventSourceName DmacFromIpu = ''dmac_from_ipu''"
| "eeEventSourceName DmacToIpu = ''dmac_to_ipu''"
| "eeEventSourceName DmacFromScratchpad = ''dmac_from_scratchpad''"
| "eeEventSourceName DmacToScratchpad = ''dmac_to_scratchpad''"
| "eeEventSourceName VifVu1Finish = ''vif_vu1_finish''"
| "eeEventSourceName VifVu0Finish = ''vif_vu0_finish''"
| "eeEventSourceName SourceCount = ''unknown''"

lemma kEeEventSourceCount_15 [simp]: "kEeEventSourceCount = 15"
  by (simp add: kEeEventSourceCount_def)

lemma length_allSources [simp]: "length allSources = 15"
  by (simp add: allSources_def)

lemma less_15_cases: "i < 15 \<Longrightarrow> i \<in> {0, 1, 2, 3, 4, 5, 6, 7, 8, 9, 10, 11, 12, 13, 14 :: nat}"
  by (simp, arith)

lemma index_of_sourceOfIndex [simp]: "i < 15 \<Longrightarrow> eeEventSourceIndex (sourceOfIndex i) = i"
  by (drule less_15_cases) (auto simp: sourceOfIndex_def allSources_def)

lemma sourceOfIndex_of_index [simp]: "sourceOfIndex (eeEventSourceIndex src) = src"
  by (cases src) (simp_all add: sourceOfIndex_def allSources_def)

lemma index_inj [simp]: "eeEventSourceIndex a = eeEventSourceIndex b \<longleftrightarrow> a = b"
  by (metis sourceOfIndex_of_index)

text \<open>The enumeration order is the deterministic priority order of the sources.\<close>

instantiation ee_event_source :: linorder
begin

definition less_eq_ee_event_source :: "ee_event_source \<Rightarrow> ee_event_source \<Rightarrow> bool" where
  "less_eq_ee_event_source a b = (eeEventSourceIndex a \<le> eeEventSourceIndex b)"

definition less_ee_event_source :: "ee_event_source \<Rightarrow> ee_event_source \<Rightarrow> bool" where
  "less_ee_event_source a b = (eeEventSourceIndex a < eeEventSourceIndex b)"

instance
  by standard (auto simp: less_eq_ee_event_source_def less_ee_event_source_def)

end

section \<open>State\<close>

record ee_event_token =
  tok_source :: ee_event_source
  tok_generation :: u64

record ee_slot =
  slot_deadline :: ee_tick
  slot_generation :: u64
  slot_sequence :: u64
  slot_pending :: bool

record ee_scheduled_event =
  sev_token :: ee_event_token
  sev_deadline :: ee_tick
  sev_sequence :: u64
  sev_pending :: bool

record ee_event_service =
  svc_source :: ee_event_source
  svc_scheduledTick :: ee_tick
  svc_serviceTick :: ee_tick
  svc_latenessTicks :: ee_tick_delta
  svc_generation :: u64
  svc_sequence :: u64

record ee_service_result =
  res_serviced :: nat
  res_limitExceeded :: bool
  res_reentrantServiceRejected :: bool
  res_offendingSource :: "ee_event_source option"

record ee_statistics =
  st_scheduled :: u64
  st_replaced :: u64
  st_cancelled :: u64
  st_serviced :: u64
  st_late :: u64
  st_sameTickReschedules :: u64
  st_serviceLimitHits :: u64

record ee_slot_snapshot =
  snap_source :: ee_event_source
  snap_deadline :: ee_tick
  snap_generation :: u64
  snap_sequence :: u64
  snap_pending :: bool

record ee_scheduler_snapshot =
  snap_slots :: "ee_slot_snapshot list"
  snap_nextSequence :: u64
  snap_statistics :: ee_statistics

record ev_sched =
  es_slots :: "ee_slot list"
  es_nextDeadline :: ee_tick
  es_nextSource :: ee_event_source
  es_hasPending :: bool
  es_nextSequence :: u64
  es_statistics :: ee_statistics
  es_serviceTick :: ee_tick
  es_servicing :: bool

definition emptySlot :: ee_slot where
  "emptySlot = \<lparr>slot_deadline = EeTick 0, slot_generation = 0, slot_sequence = 0,
     slot_pending = False\<rparr>"

definition emptyStatistics :: ee_statistics where
  "emptyStatistics = \<lparr>st_scheduled = 0, st_replaced = 0, st_cancelled = 0, st_serviced = 0,
     st_late = 0, st_sameTickReschedules = 0, st_serviceLimitHits = 0\<rparr>"

definition kMaximumServicesPerBoundary :: nat where
  "kMaximumServicesPerBoundary = 1024"

section \<open>Operations\<close>

definition nextNonzero :: "u64 \<Rightarrow> u64" where
  "nextNonzero v = (let v' = v + 1 in if v' = 0 then 1 else v')"

text \<open>
  \<open>slot\<close> answers a pointer into the array, null for a source out of range; here the
  contents, and \<open>setSlot\<close> writes through the pointer.
\<close>

definition es_slot :: "ev_sched \<Rightarrow> ee_event_source \<Rightarrow> ee_slot option" where
  "es_slot s src =
     (let index = eeEventSourceIndex src
      in if index < length (es_slots s) then Some (es_slots s ! index) else None)"

definition setSlot :: "ee_event_source \<Rightarrow> ee_slot \<Rightarrow> ev_sched \<Rightarrow> ev_sched" where
  "setSlot src sl s = s\<lparr>es_slots := (es_slots s)[eeEventSourceIndex src := sl]\<rparr>"

definition recomputeVisit ::
  "ee_slot list \<Rightarrow> nat \<Rightarrow> bool \<times> ee_tick \<times> ee_event_source \<Rightarrow> bool \<times> ee_tick \<times> ee_event_source"
where
  "recomputeVisit slots index acc =
     (case acc of (has, nd, ns) \<Rightarrow>
        let candidate = slots ! index
        in if \<not> slot_pending candidate then acc
           else if \<not> has \<or> slot_deadline candidate < nd
                \<or> (slot_deadline candidate = nd \<and> index < eeEventSourceIndex ns)
           then (True, slot_deadline candidate, sourceOfIndex index)
           else acc)"

definition recomputeScan :: "ee_slot list \<Rightarrow> bool \<times> ee_tick \<times> ee_event_source" where
  "recomputeScan slots =
     fold (recomputeVisit slots) [0..<length slots] (False, EeTick u64_max, Cop0Performance)"

definition recomputeNext :: "ev_sched \<Rightarrow> ev_sched" where
  "recomputeNext s =
     (case recomputeScan (es_slots s) of (has, nd, ns) \<Rightarrow>
        s\<lparr>es_hasPending := has, es_nextDeadline := nd, es_nextSource := ns\<rparr>)"

definition ev_init :: ev_sched where
  "ev_init = recomputeNext
     \<lparr>es_slots = replicate kEeEventSourceCount emptySlot, es_nextDeadline = EeTick 0,
      es_nextSource = Cop0Performance, es_hasPending = False, es_nextSequence = 0,
      es_statistics = emptyStatistics, es_serviceTick = EeTick 0, es_servicing = False\<rparr>"

definition scheduleAbsolute ::
  "ee_event_source \<Rightarrow> ee_tick \<Rightarrow> ev_sched \<Rightarrow> ev_sched \<times> ee_event_token"
where
  "scheduleAbsolute src deadline s =
     (case es_slot s src of
        None \<Rightarrow> (s, \<lparr>tok_source = src, tok_generation = 0\<rparr>)
      | Some target \<Rightarrow>
          let st0 = es_statistics s;
              st1 = (if slot_pending target
                     then st0\<lparr>st_replaced := st_replaced st0 + 1\<rparr> else st0);
              generation = nextNonzero (slot_generation target);
              sequence = nextNonzero (es_nextSequence s);
              target' = \<lparr>slot_deadline = deadline, slot_generation = generation,
                         slot_sequence = sequence, slot_pending = True\<rparr>;
              st2 = st1\<lparr>st_scheduled := st_scheduled st1 + 1\<rparr>;
              st3 = (if es_servicing s \<and> deadline \<le> es_serviceTick s
                     then st2\<lparr>st_sameTickReschedules := st_sameTickReschedules st2 + 1\<rparr>
                     else st2);
              s' = (setSlot src target' s)\<lparr>es_nextSequence := sequence, es_statistics := st3\<rparr>
          in (recomputeNext s', \<lparr>tok_source = src, tok_generation = generation\<rparr>))"

definition scheduleAfter ::
  "ee_event_source \<Rightarrow> ee_tick \<Rightarrow> ee_tick_delta \<Rightarrow> ev_sched \<Rightarrow> ev_sched \<times> ee_event_token"
where
  "scheduleAfter src now delay s = scheduleAbsolute src (saturatingAdd now delay) s"

definition cancelSource :: "ee_event_source \<Rightarrow> ev_sched \<Rightarrow> bool \<times> ev_sched" where
  "cancelSource src s =
     (case es_slot s src of
        None \<Rightarrow> (False, s)
      | Some target \<Rightarrow>
          if \<not> slot_pending target then (False, s)
          else
            let target' = target\<lparr>slot_pending := False,
                            slot_generation := nextNonzero (slot_generation target)\<rparr>;
                st = es_statistics s;
                s' = (setSlot src target' s)
                       \<lparr>es_statistics := st\<lparr>st_cancelled := st_cancelled st + 1\<rparr>\<rparr>
            in (True, recomputeNext s'))"

definition cancelToken :: "ee_event_token \<Rightarrow> ev_sched \<Rightarrow> bool \<times> ev_sched" where
  "cancelToken tok s =
     (case es_slot s (tok_source tok) of
        None \<Rightarrow> (False, s)
      | Some target \<Rightarrow>
          if \<not> slot_pending target \<or> slot_generation target \<noteq> tok_generation tok
          then (False, s)
          else cancelSource (tok_source tok) s)"

definition es_reset :: "ev_sched \<Rightarrow> ev_sched" where
  "es_reset s = recomputeNext
     (s\<lparr>es_slots := map (\<lambda>sl. \<lparr>slot_deadline = EeTick 0,
                              slot_generation = nextNonzero (slot_generation sl),
                              slot_sequence = 0, slot_pending = False\<rparr>) (es_slots s),
        es_nextSequence := 0, es_statistics := emptyStatistics,
        es_serviceTick := EeTick 0, es_servicing := False\<rparr>)"

definition es_pending :: "ev_sched \<Rightarrow> ee_event_source \<Rightarrow> bool" where
  "es_pending s src = (case es_slot s src of None \<Rightarrow> False | Some sl \<Rightarrow> slot_pending sl)"

definition es_event :: "ev_sched \<Rightarrow> ee_event_source \<Rightarrow> ee_scheduled_event option" where
  "es_event s src =
     (case es_slot s src of
        None \<Rightarrow> None
      | Some sl \<Rightarrow>
          if \<not> slot_pending sl then None
          else Some \<lparr>sev_token = \<lparr>tok_source = src, tok_generation = slot_generation sl\<rparr>,
                     sev_deadline = slot_deadline sl, sev_sequence = slot_sequence sl,
                     sev_pending = True\<rparr>)"

definition nextDeadline :: "ev_sched \<Rightarrow> ee_tick option" where
  "nextDeadline s = (if es_hasPending s then Some (es_nextDeadline s) else None)"

definition deadlineDue :: "ev_sched \<Rightarrow> ee_tick \<Rightarrow> bool" where
  "deadlineDue s now = (es_hasPending s \<and> now \<ge> es_nextDeadline s)"

definition nextDueSource :: "ev_sched \<Rightarrow> ee_tick \<Rightarrow> ee_event_source option" where
  "nextDueSource s now = (if \<not> deadlineDue s now then None else Some (es_nextSource s))"

definition takeNextDue :: "ee_tick \<Rightarrow> ev_sched \<Rightarrow> ev_sched \<times> ee_event_service option" where
  "takeNextDue now s =
     (case nextDueSource s now of
        None \<Rightarrow> (s, None)
      | Some src \<Rightarrow>
          (case es_slot s src of
             None \<Rightarrow> (recomputeNext s, None)
           | Some target \<Rightarrow>
               if \<not> slot_pending target then (recomputeNext s, None)
               else
                 let service = \<lparr>svc_source = src, svc_scheduledTick = slot_deadline target,
                       svc_serviceTick = now,
                       svc_latenessTicks = elapsedEeTicks (slot_deadline target) now,
                       svc_generation = slot_generation target,
                       svc_sequence = slot_sequence target\<rparr>;
                     s1 = recomputeNext (setSlot src (target\<lparr>slot_pending := False\<rparr>) s);
                     st1 = (es_statistics s1)\<lparr>st_serviced := st_serviced (es_statistics s1) + 1\<rparr>;
                     st2 = (if delta_raw (svc_latenessTicks service) \<noteq> 0
                            then st1\<lparr>st_late := st_late st1 + 1\<rparr> else st1)
                 in (s1\<lparr>es_statistics := st2\<rparr>, Some service)))"

text \<open>
  \<open>serviceDue\<close> is a template over the visitor. A visitor sees the scheduler (callbacks
  schedule and cancel events) and a state of its own, and may throw: \<open>Some e\<close>. The loop
  leaves with the exception, or with the number of callbacks it made.
\<close>

type_synonym ('w, 'e) visitor =
  "ee_event_service \<Rightarrow> ev_sched \<times> 'w \<Rightarrow> (ev_sched \<times> 'w) \<times> 'e option"

fun serviceLoop ::
  "nat \<Rightarrow> ee_tick \<Rightarrow> ('w, 'e) visitor \<Rightarrow> nat \<Rightarrow> ev_sched \<times> 'w \<Rightarrow> (ev_sched \<times> 'w) \<times> ('e + nat)"
where
  "serviceLoop 0 now visit serviced (s, w) = ((s, w), Inr serviced)"
| "serviceLoop (Suc budget) now visit serviced (s, w) =
     (case takeNextDue now s of
        (s1, None) \<Rightarrow> ((s1, w), Inr serviced)
      | (s1, Some service) \<Rightarrow>
          (case visit service (s1, w) of
             (sw, Some e) \<Rightarrow> (sw, Inl e)
           | (sw, None) \<Rightarrow> serviceLoop budget now visit (Suc serviced) sw))"

definition serviceDue ::
  "ee_tick \<Rightarrow> ('w, 'e) visitor \<Rightarrow> ev_sched \<times> 'w \<Rightarrow> (ev_sched \<times> 'w) \<times> ('e + ee_service_result)"
where
  "serviceDue now visit sw =
     (case sw of (s, w) \<Rightarrow>
        if es_servicing s
        then (sw, Inr \<lparr>res_serviced = 0, res_limitExceeded = False,
                       res_reentrantServiceRejected = True,
                       res_offendingSource = nextDueSource s now\<rparr>)
        else
          (case serviceLoop kMaximumServicesPerBoundary now visit 0
                  (s\<lparr>es_servicing := True, es_serviceTick := now\<rparr>, w) of
             ((s1, w1), Inl e) \<Rightarrow> ((s1\<lparr>es_servicing := False\<rparr>, w1), Inl e)
           | ((s1, w1), Inr n) \<Rightarrow>
               let s2 = s1\<lparr>es_servicing := False\<rparr>
               in if deadlineDue s2 now
                  then ((s2\<lparr>es_statistics := (es_statistics s2)
                              \<lparr>st_serviceLimitHits := st_serviceLimitHits (es_statistics s2) + 1\<rparr>\<rparr>,
                         w1),
                        Inr \<lparr>res_serviced = n, res_limitExceeded = True,
                             res_reentrantServiceRejected = False,
                             res_offendingSource = nextDueSource s2 now\<rparr>)
                  else ((s2, w1),
                        Inr \<lparr>res_serviced = n, res_limitExceeded = False,
                             res_reentrantServiceRejected = False,
                             res_offendingSource = None\<rparr>)))"

section \<open>Snapshot and restore\<close>

definition es_snapshot :: "ev_sched \<Rightarrow> ee_scheduler_snapshot" where
  "es_snapshot s =
     \<lparr>snap_slots = map (\<lambda>(i, sl). \<lparr>snap_source = sourceOfIndex i,
         snap_deadline = slot_deadline sl, snap_generation = slot_generation sl,
         snap_sequence = slot_sequence sl, snap_pending = slot_pending sl\<rparr>)
         (zip [0..<length (es_slots s)] (es_slots s)),
      snap_nextSequence = es_nextSequence s, snap_statistics = es_statistics s\<rparr>"

text \<open>The validation loop; \<open>seen\<close> is the set of pending sequence numbers met so far.\<close>

fun restoreCheck :: "u64 \<Rightarrow> nat \<Rightarrow> u64 set \<Rightarrow> ee_slot_snapshot list \<Rightarrow> bool" where
  "restoreCheck nextSeq index seen [] = True"
| "restoreCheck nextSeq index seen (x # xs) =
     (if snap_source x \<noteq> sourceOfIndex index then False
      else if \<not> snap_pending x then restoreCheck nextSeq (Suc index) seen xs
      else if snap_generation x = 0 \<or> snap_sequence x = 0 \<or> snap_sequence x > nextSeq
           \<or> snap_sequence x \<in> seen
      then False
      else restoreCheck nextSeq (Suc index) (insert (snap_sequence x) seen) xs)"

definition es_restore :: "ee_scheduler_snapshot \<Rightarrow> ev_sched \<Rightarrow> bool \<times> ev_sched" where
  "es_restore d s =
     (if \<not> restoreCheck (snap_nextSequence d) 0 {} (snap_slots d) then (False, s)
      else (True, recomputeNext
        (s\<lparr>es_slots := map (\<lambda>x. \<lparr>slot_deadline = snap_deadline x,
                                 slot_generation = snap_generation x,
                                 slot_sequence = snap_sequence x,
                                 slot_pending = snap_pending x\<rparr>) (snap_slots d),
           es_nextSequence := snap_nextSequence d, es_statistics := snap_statistics d,
           es_serviceTick := EeTick 0, es_servicing := False\<rparr>)))"

end
