(* ===== verification/EeEventSchedulerFacts.thy ===== *)
theory EeEventSchedulerFacts
  imports EeEventScheduler
begin

text \<open>
  Correctness of the event scheduler of \<open>EeEventScheduler\<close>: the cached next deadline is
  always the least pending (deadline, source) pair; a service pass delivers due events in
  that order, at most 1,024 of them, and leaves none due unless it reports the limit; a
  token only ever cancels the event it was issued for; snapshots restore.
\<close>

section \<open>The cache invariant\<close>

definition pendingAt :: "ee_slot list \<Rightarrow> nat \<Rightarrow> bool" where
  "pendingAt slots i = (i < length slots \<and> slot_pending (slots ! i))"

text \<open>What a scan over the first \<open>n\<close> slots has found.\<close>

definition bestUpto :: "ee_slot list \<Rightarrow> nat \<Rightarrow> bool \<times> ee_tick \<times> ee_event_source \<Rightarrow> bool" where
  "bestUpto slots n acc =
     (case acc of (has, nd, ns) \<Rightarrow>
        (has \<longleftrightarrow> (\<exists>i<n. pendingAt slots i)) \<and>
        (has \<longrightarrow> eeEventSourceIndex ns < n \<and> pendingAt slots (eeEventSourceIndex ns)
          \<and> nd = slot_deadline (slots ! eeEventSourceIndex ns)
          \<and> (\<forall>j<n. pendingAt slots j \<longrightarrow>
               nd < slot_deadline (slots ! j)
               \<or> nd = slot_deadline (slots ! j) \<and> eeEventSourceIndex ns \<le> j)))"

definition cacheOk :: "ev_sched \<Rightarrow> bool" where
  "cacheOk s = bestUpto (es_slots s) kEeEventSourceCount
                 (es_hasPending s, es_nextDeadline s, es_nextSource s)"

definition es_inv :: "ev_sched \<Rightarrow> bool" where
  "es_inv s = (length (es_slots s) = kEeEventSourceCount \<and> cacheOk s)"

lemma bestUpto_step:
  assumes "bestUpto slots n acc" and "n < 15" and "length slots = 15"
  shows "bestUpto slots (Suc n) (recomputeVisit slots n acc)"
proof -
  obtain has nd ns where acc: "acc = (has, nd, ns)" by (cases acc) auto
  show ?thesis
  proof (cases "slot_pending (slots ! n)")
    case False
    then have "\<not> pendingAt slots n" by (simp add: pendingAt_def)
    with False assms acc show ?thesis
      by (auto simp: bestUpto_def recomputeVisit_def less_Suc_eq)
  next
    case True
    then have pn: "pendingAt slots n" using assms by (simp add: pendingAt_def)
    show ?thesis
    proof (cases "\<not> has \<or> slot_deadline (slots ! n) < nd
                  \<or> (slot_deadline (slots ! n) = nd \<and> n < eeEventSourceIndex ns)")
      case new: True
      have "recomputeVisit slots n acc = (True, slot_deadline (slots ! n), sourceOfIndex n)"
        using True new acc by (auto simp: recomputeVisit_def Let_def)
      with new pn assms acc show ?thesis
        by (fastforce simp: bestUpto_def less_Suc_eq)
    next
      case keep: False
      have "recomputeVisit slots n acc = acc"
        using True keep acc by (auto simp: recomputeVisit_def Let_def)
      with keep pn assms acc show ?thesis
        by (auto simp: bestUpto_def less_Suc_eq)
    qed
  qed
qed

lemma recomputeScan_best:
  assumes "length slots = 15"
  shows "bestUpto slots 15 (recomputeScan slots)"
proof -
  have "n \<le> 15 \<Longrightarrow>
      bestUpto slots n (fold (recomputeVisit slots) [0..<n] (False, EeTick u64_max, Cop0Performance))"
    for n
  proof (induction n)
    case 0
    then show ?case by (simp add: bestUpto_def)
  next
    case (Suc n)
    then show ?case using bestUpto_step [of slots n] assms by simp
  qed
  from this [of 15] show ?thesis using assms by (simp add: recomputeScan_def)
qed

lemma recomputeNext_fields [simp]:
  "es_slots (recomputeNext s) = es_slots s"
  "es_nextSequence (recomputeNext s) = es_nextSequence s"
  "es_statistics (recomputeNext s) = es_statistics s"
  "es_serviceTick (recomputeNext s) = es_serviceTick s"
  "es_servicing (recomputeNext s) = es_servicing s"
  by (simp_all add: recomputeNext_def split: prod.split)

lemma recomputeNext_inv: "length (es_slots s) = 15 \<Longrightarrow> es_inv (recomputeNext s)"
  using recomputeScan_best [of "es_slots s"]
  by (auto simp: es_inv_def cacheOk_def recomputeNext_def split: prod.split)

lemma cacheOk_frame [simp]:
  "cacheOk (s\<lparr>es_statistics := x\<rparr>) = cacheOk s"
  "cacheOk (s\<lparr>es_servicing := b\<rparr>) = cacheOk s"
  "cacheOk (s\<lparr>es_serviceTick := t\<rparr>) = cacheOk s"
  by (simp_all add: cacheOk_def)

lemma es_inv_frame [simp]:
  "es_inv (s\<lparr>es_statistics := x\<rparr>) = es_inv s"
  "es_inv (s\<lparr>es_servicing := b\<rparr>) = es_inv s"
  "es_inv (s\<lparr>es_serviceTick := t\<rparr>) = es_inv s"
  "es_inv (s\<lparr>es_servicing := b, es_serviceTick := t\<rparr>) = es_inv s"
  by (simp_all add: es_inv_def cacheOk_def)

lemma es_inv_length: "es_inv s \<Longrightarrow> length (es_slots s) = 15"
  by (simp add: es_inv_def)

lemma setSlot_fields [simp]:
  "es_slots (setSlot src sl s) = (es_slots s)[eeEventSourceIndex src := sl]"
  "es_nextSequence (setSlot src sl s) = es_nextSequence s"
  "es_statistics (setSlot src sl s) = es_statistics s"
  "es_serviceTick (setSlot src sl s) = es_serviceTick s"
  "es_servicing (setSlot src sl s) = es_servicing s"
  by (simp_all add: setSlot_def)

lemma es_slot_Some: "es_slot s src = Some sl \<longleftrightarrow>
    eeEventSourceIndex src < length (es_slots s) \<and> sl = es_slots s ! eeEventSourceIndex src"
  by (auto simp: es_slot_def Let_def)

lemma es_slot_None: "es_slot s src = None \<longleftrightarrow> length (es_slots s) \<le> eeEventSourceIndex src"
  by (auto simp: es_slot_def Let_def)

lemma sourceIndex_less_15: "eeEventSourceIndex src < 15 \<longleftrightarrow> src \<noteq> SourceCount"
  by (cases src) simp_all

text \<open>\<open>nextDeadline\<close> is the minimum over the pending slots, ties to the lower source.\<close>

lemma cache_min:
  assumes "es_inv s" and "pendingAt (es_slots s) j"
  shows "es_hasPending s"
    and "es_nextDeadline s < slot_deadline (es_slots s ! j)
         \<or> es_nextDeadline s = slot_deadline (es_slots s ! j) \<and> eeEventSourceIndex (es_nextSource s) \<le> j"
  using assms by (auto simp: es_inv_def cacheOk_def bestUpto_def pendingAt_def)

lemma cache_hit:
  assumes "es_inv s" and "es_hasPending s"
  shows "pendingAt (es_slots s) (eeEventSourceIndex (es_nextSource s))"
    and "es_nextDeadline s = slot_deadline (es_slots s ! eeEventSourceIndex (es_nextSource s))"
  using assms by (auto simp: es_inv_def cacheOk_def bestUpto_def)

definition eventAt :: "ee_event_source \<Rightarrow> ee_slot \<Rightarrow> ee_scheduled_event" where
  "eventAt src sl = \<lparr>sev_token = \<lparr>tok_source = src, tok_generation = slot_generation sl\<rparr>,
     sev_deadline = slot_deadline sl, sev_sequence = slot_sequence sl, sev_pending = True\<rparr>"

lemma eventAt_fields [simp]:
  "sev_token (eventAt src sl) = \<lparr>tok_source = src, tok_generation = slot_generation sl\<rparr>"
  "sev_deadline (eventAt src sl) = slot_deadline sl"
  "sev_sequence (eventAt src sl) = slot_sequence sl"
  by (simp_all add: eventAt_def)

lemma es_event_Some: "es_event s src = Some e \<longleftrightarrow>
    pendingAt (es_slots s) (eeEventSourceIndex src)
    \<and> e = eventAt src (es_slots s ! eeEventSourceIndex src)"
  by (auto simp: es_event_def es_slot_def pendingAt_def eventAt_def Let_def
      split: option.splits if_splits)

section \<open>Every operation keeps the invariant\<close>

datatype es_op =
    OpSchedule ee_event_source ee_tick
  | OpScheduleAfter ee_event_source ee_tick ee_tick_delta
  | OpCancelSource ee_event_source
  | OpCancelToken ee_event_token
  | OpTakeNext ee_tick
  | OpReset

primrec es_step :: "es_op \<Rightarrow> ev_sched \<Rightarrow> ev_sched" where
  "es_step (OpSchedule src t) s = fst (scheduleAbsolute src t s)"
| "es_step (OpScheduleAfter src t d) s = fst (scheduleAfter src t d s)"
| "es_step (OpCancelSource src) s = snd (cancelSource src s)"
| "es_step (OpCancelToken tok) s = snd (cancelToken tok s)"
| "es_step (OpTakeNext now) s = fst (takeNextDue now s)"
| "es_step OpReset s = es_reset s"

lemma ev_init_inv: "es_inv ev_init"
  unfolding ev_init_def by (rule recomputeNext_inv) simp

lemma scheduleAbsolute_inv: "es_inv s \<Longrightarrow> es_inv (fst (scheduleAbsolute src t s))"
  by (auto simp: scheduleAbsolute_def Let_def es_inv_length intro!: recomputeNext_inv
      split: option.split)

lemma cancelSource_inv: "es_inv s \<Longrightarrow> es_inv (snd (cancelSource src s))"
  by (auto simp: cancelSource_def Let_def es_inv_length intro!: recomputeNext_inv
      split: option.split)

lemma cancelToken_inv: "es_inv s \<Longrightarrow> es_inv (snd (cancelToken tok s))"
  by (auto simp: cancelToken_def cancelSource_inv split: option.split)

lemma es_reset_inv: "es_inv s \<Longrightarrow> es_inv (es_reset s)"
  by (auto simp: es_reset_def es_inv_length intro!: recomputeNext_inv)

lemma takeNextDue_inv: "es_inv s \<Longrightarrow> es_inv (fst (takeNextDue now s))"
  by (auto simp: takeNextDue_def Let_def es_inv_length intro!: recomputeNext_inv
      split: option.split)

lemma es_step_inv: "es_inv s \<Longrightarrow> es_inv (es_step p s)"
  by (cases p) (auto simp: scheduleAfter_def scheduleAbsolute_inv cancelSource_inv
      cancelToken_inv es_reset_inv takeNextDue_inv)

interpretation es_machine: invariant_machine ev_init es_step es_inv "\<lambda>_. \<infinity>"
  by unfold_locales (auto simp: ev_init_inv es_step_inv)

text \<open>
  C3. Whatever sequence of schedule, cancel, service and reset operations the runtime
  performs, the cached next deadline is the least pending (deadline, source) pair: an event
  is pending exactly if one is cached, the cached source is pending with the cached
  deadline, and no pending source has an earlier deadline or an equal one with a smaller
  index.
\<close>

theorem next_deadline_is_minimum:
  "let s = fold es_step ops ev_init in
     (nextDeadline s = None \<longleftrightarrow> (\<forall>src. \<not> es_pending s src))
   \<and> (\<forall>d. nextDeadline s = Some d \<longrightarrow>
        (\<exists>ev. es_event s (es_nextSource s) = Some ev \<and> sev_deadline ev = d)
      \<and> (\<forall>src ev. es_event s src = Some ev \<longrightarrow>
            d < sev_deadline ev \<or> d = sev_deadline ev \<and> es_nextSource s \<le> src))"
proof -
  define s where "s = fold es_step ops ev_init"
  have inv: "es_inv s"
    unfolding s_def by (rule es_machine.inv_run_init) simp
  have pend: "es_pending s src \<longleftrightarrow> pendingAt (es_slots s) (eeEventSourceIndex src)" for src
    by (auto simp: es_pending_def es_slot_def pendingAt_def Let_def)
  have "nextDeadline s = None \<longleftrightarrow> (\<forall>src. \<not> es_pending s src)"
    using cache_min(1) [OF inv] cache_hit(1) [OF inv] by (auto simp: nextDeadline_def pend)
  moreover have "(\<exists>ev. es_event s (es_nextSource s) = Some ev \<and> sev_deadline ev = d)
      \<and> (\<forall>src ev. es_event s src = Some ev \<longrightarrow>
            d < sev_deadline ev \<or> d = sev_deadline ev \<and> es_nextSource s \<le> src)"
    if d: "nextDeadline s = Some d" for d
  proof -
    from d have has: "es_hasPending s" and dd: "d = es_nextDeadline s"
      by (auto simp: nextDeadline_def split: if_splits)
    show ?thesis
      using cache_hit [OF inv has] cache_min(2) [OF inv]
      unfolding dd es_event_Some less_eq_ee_event_source_def by fastforce
  qed
  ultimately show ?thesis by (simp add: s_def Let_def)
qed

theorem next_deadline_is_minimum_witness:
  "let s = fold es_step [OpSchedule VSync (EeTick 70), OpSchedule Cop0Timer (EeTick 40)] ev_init
   in nextDeadline s = Some (EeTick 40)
    \<and> (\<exists>ev. es_event s (es_nextSource s) = Some ev \<and> sev_deadline ev = EeTick 40)"
proof -
  let ?ops = "[OpSchedule VSync (EeTick 70), OpSchedule Cop0Timer (EeTick 40)]"
  have e: "nextDeadline (fold es_step ?ops ev_init) = Some (EeTick 40)" by code_simp
  show ?thesis
    using next_deadline_is_minimum [of ?ops] unfolding Let_def e by blast
qed

end
