(* ===== verification/EeEventService.thy ===== *)
theory EeEventService
  imports EeEventSchedulerFacts
begin

text \<open>
  What a service pass of the event scheduler does: the effect of taking one event, the
  exact list of events a pass delivers, its bound, the meaning of a token, and the
  save/restore round trip.
\<close>

section \<open>Taking one event\<close>

text \<open>Deadline first, then source: the order in which events are owed.\<close>

definition serviceBefore :: "ee_event_service \<Rightarrow> ee_event_service \<Rightarrow> bool" where
  "serviceBefore a b =
     (svc_scheduledTick a < svc_scheduledTick b
      \<or> svc_scheduledTick a = svc_scheduledTick b \<and> svc_source a < svc_source b)"

definition dueSources :: "ev_sched \<Rightarrow> ee_tick \<Rightarrow> ee_event_source set" where
  "dueSources s now = {src. \<exists>e. es_event s src = Some e \<and> sev_deadline e \<le> now}"

lemma es_event_pendingAt:
  "es_event s src = (if pendingAt (es_slots s) (eeEventSourceIndex src)
     then Some (eventAt src (es_slots s ! eeEventSourceIndex src)) else None)"
proof (cases "es_event s src")
  case None
  then show ?thesis using es_event_Some [of s src] by auto
next
  case (Some e)
  then show ?thesis using es_event_Some [of s src e] by simp
qed

lemma es_event_cong: "es_slots s = es_slots t \<Longrightarrow> es_event s = es_event t"
  by (rule ext) (simp add: es_event_pendingAt)

lemma finite_dueSources [simp]: "finite (dueSources s now)"
  and card_dueSources: "es_inv s \<Longrightarrow> card (dueSources s now) \<le> 15"
proof -
  have fin: "finite (UNIV :: ee_event_source set)"
    by (rule finite_subset [of _ "insert SourceCount (set allSources)"])
      (auto simp: allSources_def, metis ee_event_source.exhaust)
  then show "finite (dueSources s now)" by (rule finite_subset [rotated]) simp
  assume inv: "es_inv s"
  have "eeEventSourceIndex ` dueSources s now \<subseteq> {..<15}"
    using inv by (auto simp: dueSources_def es_event_Some pendingAt_def es_inv_length)
  then have "card (eeEventSourceIndex ` dueSources s now) \<le> card {..<15 :: nat}"
    by (intro card_mono) auto
  moreover have "inj_on eeEventSourceIndex (dueSources s now)"
    by (auto simp: inj_on_def)
  ultimately show "card (dueSources s now) \<le> 15" by (simp add: card_image)
qed

lemma deadlineDue_dueSources: "es_inv s \<Longrightarrow> deadlineDue s now \<longleftrightarrow> dueSources s now \<noteq> {}"
proof -
  assume inv: "es_inv s"
  show ?thesis
  proof
    assume "deadlineDue s now"
    then have has: "es_hasPending s" and le: "es_nextDeadline s \<le> now"
      by (auto simp: deadlineDue_def)
    then have "es_nextSource s \<in> dueSources s now"
      using cache_hit [OF inv has] by (simp add: dueSources_def es_event_pendingAt)
    then show "dueSources s now \<noteq> {}" by auto
  next
    assume "dueSources s now \<noteq> {}"
    then obtain src where "pendingAt (es_slots s) (eeEventSourceIndex src)"
      and "slot_deadline (es_slots s ! eeEventSourceIndex src) \<le> now"
      by (auto simp: dueSources_def es_event_Some)
    with cache_min [OF inv] show "deadlineDue s now"
      by (force simp: deadlineDue_def)
  qed
qed

lemma takeNextDue_None:
  "es_inv s \<Longrightarrow> \<not> deadlineDue s now \<Longrightarrow> takeNextDue now s = (s, None)"
  by (simp add: takeNextDue_def nextDueSource_def)

lemma takeNextDue_due:
  assumes inv: "es_inv s" and due: "deadlineDue s now"
  shows "\<exists>s1 svc e. takeNextDue now s = (s1, Some svc)
     \<and> es_event s (svc_source svc) = Some e \<and> svc_source svc \<in> dueSources s now
     \<and> svc = \<lparr>svc_source = svc_source svc, svc_scheduledTick = sev_deadline e,
              svc_serviceTick = now,
              svc_latenessTicks = elapsedEeTicks (sev_deadline e) now,
              svc_generation = tok_generation (sev_token e), svc_sequence = sev_sequence e\<rparr>
     \<and> (\<forall>src f. es_event s src = Some f \<longrightarrow>
          sev_deadline e < sev_deadline f
          \<or> sev_deadline e = sev_deadline f \<and> svc_source svc \<le> src)
     \<and> es_event s1 = (es_event s)(svc_source svc := None)
     \<and> es_inv s1 \<and> es_servicing s1 = es_servicing s"
proof -
  let ?i = "eeEventSourceIndex (es_nextSource s)"
  from due have has: "es_hasPending s" and le: "es_nextDeadline s \<le> now"
    by (auto simp: deadlineDue_def)
  note hit = cache_hit [OF inv has]
  let ?sl = "es_slots s ! ?i" and ?e = "eventAt (es_nextSource s) (es_slots s ! ?i)"
  have i: "?i < length (es_slots s)" and p: "slot_pending ?sl"
    using hit by (auto simp: pendingAt_def)
  let ?svc = "\<lparr>svc_source = es_nextSource s, svc_scheduledTick = slot_deadline ?sl,
      svc_serviceTick = now, svc_latenessTicks = elapsedEeTicks (slot_deadline ?sl) now,
      svc_generation = slot_generation ?sl, svc_sequence = slot_sequence ?sl\<rparr>"
  obtain s1 where take: "takeNextDue now s = (s1, Some ?svc)"
    and sl1: "es_slots s1 = (es_slots s)[?i := ?sl\<lparr>slot_pending := False\<rparr>]"
    and sv1: "es_servicing s1 = es_servicing s"
    using due i p by (auto simp: takeNextDue_def nextDueSource_def es_slot_def Let_def)
  have "es_event s1 = (es_event s)(es_nextSource s := None)"
    using i by (auto simp: fun_eq_iff es_event_pendingAt sl1 pendingAt_def nth_list_update)
  moreover have "es_event s (es_nextSource s) = Some ?e"
    using hit by (simp add: es_event_pendingAt)
  moreover have "es_nextSource s \<in> dueSources s now"
    using hit le by (simp add: dueSources_def es_event_pendingAt)
  moreover have "\<forall>src f. es_event s src = Some f \<longrightarrow>
      sev_deadline ?e < sev_deadline f \<or> sev_deadline ?e = sev_deadline f \<and> es_nextSource s \<le> src"
    using cache_min(2) [OF inv] hit(2)
    by (auto simp: es_event_Some less_eq_ee_event_source_def)
  moreover have "es_inv s1" using takeNextDue_inv [OF inv, of now] take by simp
  ultimately show ?thesis using take sv1 by (intro exI [of _ s1] exI [of _ ?svc] exI [of _ ?e]) simp
qed

section \<open>A service pass\<close>

text \<open>The visitor that only records what it is shown.\<close>

definition logVisit :: "(ee_event_service list, unit) visitor" where
  "logVisit svc sw = (case sw of (s, out) \<Rightarrow> ((s, out @ [svc]), None))"

lemma logVisit_pair [simp]: "logVisit svc (s, out) = ((s, out @ [svc]), None)"
  by (simp add: logVisit_def)

definition deliveryOf :: "ev_sched \<Rightarrow> ee_tick \<Rightarrow> ee_event_service \<Rightarrow> bool" where
  "deliveryOf s now svc =
     (case es_event s (svc_source svc) of
        None \<Rightarrow> False
      | Some e \<Rightarrow> svc_scheduledTick svc = sev_deadline e \<and> svc_serviceTick svc = now
          \<and> svc_latenessTicks svc = elapsedEeTicks (sev_deadline e) now
          \<and> svc_generation svc = tok_generation (sev_token e)
          \<and> svc_sequence svc = sev_sequence e \<and> sev_deadline e \<le> now)"

lemma serviceLoop_log:
  assumes "es_inv s" and "card (dueSources s now) \<le> budget"
  shows "\<exists>s' out. serviceLoop budget now logVisit n (s, out0) = ((s', out0 @ out), Inr (n + length out))
     \<and> es_inv s' \<and> dueSources s' now = {}
     \<and> es_event s' = (\<lambda>src. if src \<in> dueSources s now then None else es_event s src)
     \<and> sorted_wrt serviceBefore out
     \<and> svc_source ` set out = dueSources s now
     \<and> (\<forall>svc\<in>set out. deliveryOf s now svc)"
  using assms
proof (induction budget arbitrary: s n out0)
  case 0
  then have "dueSources s now = {}" by simp
  with 0 show ?case by (intro exI [of _ s] exI [of _ "[]"]) (auto simp: fun_eq_iff)
next
  case (Suc budget)
  show ?case
  proof (cases "deadlineDue s now")
    case False
    then have "dueSources s now = {}" using deadlineDue_dueSources [OF Suc.prems(1)] by blast
    with Suc.prems False show ?thesis
      by (intro exI [of _ s] exI [of _ "[]"]) (auto simp: takeNextDue_None fun_eq_iff)
  next
    case True
    obtain s1 svc e where take: "takeNextDue now s = (s1, Some svc)"
      and ev: "es_event s (svc_source svc) = Some e" and due: "svc_source svc \<in> dueSources s now"
      and svc: "svc = \<lparr>svc_source = svc_source svc, svc_scheduledTick = sev_deadline e,
              svc_serviceTick = now,
              svc_latenessTicks = elapsedEeTicks (sev_deadline e) now,
              svc_generation = tok_generation (sev_token e), svc_sequence = sev_sequence e\<rparr>"
      and least: "\<And>src f. es_event s src = Some f \<Longrightarrow>
          sev_deadline e < sev_deadline f \<or> sev_deadline e = sev_deadline f \<and> svc_source svc \<le> src"
      and ev1: "es_event s1 = (es_event s)(svc_source svc := None)" and inv1: "es_inv s1"
      using takeNextDue_due [OF Suc.prems(1) True] by (elim exE conjE) blast
    have due1: "dueSources s1 now = dueSources s now - {svc_source svc}"
      by (auto simp: dueSources_def ev1)
    then have "card (dueSources s1 now) \<le> budget"
      using Suc.prems(2) due by simp
    from Suc.IH [OF inv1 this, of "Suc n" "out0 @ [svc]"] obtain s' out where
      run: "serviceLoop budget now logVisit (Suc n) (s1, out0 @ [svc])
              = ((s', (out0 @ [svc]) @ out), Inr (Suc n + length out))"
      and fin: "es_inv s'" "dueSources s' now = {}"
      and ev': "es_event s' = (\<lambda>src. if src \<in> dueSources s1 now then None else es_event s1 src)"
      and srt: "sorted_wrt serviceBefore out" and img: "svc_source ` set out = dueSources s1 now"
      and del: "\<And>x. x \<in> set out \<Longrightarrow> deliveryOf s1 now x"
      by blast
    have tick: "svc_scheduledTick svc = sev_deadline e" by (subst svc) simp
    have del': "deliveryOf s now x" and before: "serviceBefore svc x" if "x \<in> set out" for x
    proof -
      from del [OF that] obtain f where f: "es_event s (svc_source x) = Some f"
        and ne: "svc_source x \<noteq> svc_source svc" and xt: "svc_scheduledTick x = sev_deadline f"
        by (auto simp: deliveryOf_def ev1 split: option.splits if_splits)
      with del [OF that] show "deliveryOf s now x" by (auto simp: deliveryOf_def ev1)
      from least [OF f] ne show "serviceBefore svc x"
        by (auto simp: serviceBefore_def xt tick)
    qed
    have "deliveryOf s now svc"
      using due ev by (subst svc) (auto simp: deliveryOf_def dueSources_def)
    moreover have "es_event s' = (\<lambda>src. if src \<in> dueSources s now then None else es_event s src)"
      using due by (auto simp: ev' due1 ev1 fun_eq_iff)
    ultimately show ?thesis
      using run fin srt img del' before due take
      by (intro exI [of _ s'] exI [of _ "svc # out"]) (auto simp: due1)
  qed
qed


lemma es_step_servicing: "\<not> es_servicing s \<Longrightarrow> \<not> es_servicing (es_step p s)"
  by (cases p) (auto simp: scheduleAfter_def scheduleAbsolute_def cancelSource_def
      cancelToken_def es_reset_def takeNextDue_def Let_def split: option.split)

definition es_idle :: "ev_sched \<Rightarrow> bool" where
  "es_idle s = (es_inv s \<and> \<not> es_servicing s)"

lemma ev_init_idle: "es_idle ev_init"
proof -
  have "\<not> es_servicing ev_init" unfolding ev_init_def by simp
  then show ?thesis using ev_init_inv by (simp add: es_idle_def)
qed

interpretation es_idle_machine: invariant_machine ev_init es_step es_idle "\<lambda>_. \<infinity>"
  by (unfold_locales, rule ev_init_idle) (auto simp: es_idle_def es_step_inv es_step_servicing)



section \<open>The bound\<close>

text \<open>A visitor that respects the scheduler: whatever it does, it does through operations.\<close>

definition visitorKeeps :: "('w, 'e) visitor \<Rightarrow> bool" where
  "visitorKeeps visit = (\<forall>svc s w. es_inv s \<longrightarrow> es_inv (fst (fst (visit svc (s, w)))))"

lemma serviceLoop_bound:
  assumes "visitorKeeps visit" and "es_inv s"
    and "serviceLoop budget now visit n (s, w) = ((s', w'), r)"
  shows "es_inv s' \<and> (\<forall>k. r = Inr k \<longrightarrow> k \<le> n + budget \<and> (deadlineDue s' now \<longrightarrow> k = n + budget))"
  using assms(2, 3)
proof (induction budget arbitrary: s w n)
  case 0
  then show ?case by auto
next
  case (Suc budget)
  show ?case
  proof (cases "deadlineDue s now")
    case False
    with Suc.prems show ?thesis by (auto simp: takeNextDue_None)
  next
    case True
    from takeNextDue_due [OF Suc.prems(1) True] obtain s1 svc where
      take: "takeNextDue now s = (s1, Some svc)" and inv1: "es_inv s1" by auto
    obtain s2 w2 x where vis: "visit svc (s1, w) = ((s2, w2), x)"
      by (metis surj_pair)
    from assms(1) inv1 have inv2: "es_inv s2"
      unfolding visitorKeeps_def by (metis fst_conv vis)
    show ?thesis
    proof (cases x)
      case None
      with Suc.prems take vis Suc.IH [OF inv2, of "Suc n" w2] show ?thesis by simp
    next
      case (Some e)
      with Suc.prems take vis inv2 show ?thesis by auto
    qed
  qed
qed

text \<open>
  Whatever the callbacks schedule, a service pass makes at most 1,024 of them and ends:
  it reports \<open>limitExceeded\<close> exactly if an event is still due, and then it has made all
  1,024 and names the source that is due next. It leaves the cache invariant in place and
  the scheduler open for the next pass, also when a callback throws.
\<close>

theorem service_bounded:
  assumes "es_inv s" and "\<not> es_servicing s" and "visitorKeeps visit"
    and "serviceDue now visit (s, w) = ((s', w'), r)"
  shows "es_inv s' \<and> \<not> es_servicing s'
     \<and> (\<forall>res. r = Inr res \<longrightarrow> res_serviced res \<le> 1024
          \<and> (res_limitExceeded res \<longleftrightarrow> deadlineDue s' now)
          \<and> (res_limitExceeded res \<longrightarrow> res_serviced res = 1024)
          \<and> res_offendingSource res = nextDueSource s' now)"
proof -
  let ?s = "s\<lparr>es_servicing := True, es_serviceTick := now\<rparr>"
  obtain s1 w1 q where run: "serviceLoop kMaximumServicesPerBoundary now visit 0 (?s, w) = ((s1, w1), q)"
    by (metis surj_pair)
  from serviceLoop_bound [OF assms(3) _ run] assms(1) have inv1: "es_inv s1"
    and b: "\<And>k. q = Inr k \<Longrightarrow> k \<le> 1024 \<and> (deadlineDue s1 now \<longrightarrow> k = 1024)"
    by (auto simp: kMaximumServicesPerBoundary_def)
  have d: "deadlineDue (s1\<lparr>es_servicing := False\<rparr>) now = deadlineDue s1 now"
    "deadlineDue (s1\<lparr>es_servicing := False, es_statistics := x\<rparr>) now = deadlineDue s1 now" for x
    by (simp_all add: deadlineDue_def)
  show ?thesis
    using assms(2, 4) run inv1 b
    by (cases q) (auto simp: serviceDue_def Let_def d nextDueSource_def split: if_splits)
qed

text \<open>A callback that always reschedules itself at once: the pass stops at its bound.\<close>

definition greedyVisit :: "(unit, unit) visitor" where
  "greedyVisit svc sw = (case sw of (s, w) \<Rightarrow>
     ((fst (scheduleAbsolute (svc_source svc) (svc_scheduledTick svc) s), w), None))"

theorem service_bounded_witness:
  "\<exists>s' w' r. serviceDue (EeTick 50) greedyVisit
       (fst (scheduleAbsolute VSync (EeTick 40) ev_init), ()) = ((s', w'), r)
     \<and> es_inv s' \<and> \<not> es_servicing s'"
proof -
  let ?s = "fst (scheduleAbsolute VSync (EeTick 40) ev_init)"
  have k: "visitorKeeps greedyVisit"
    by (auto simp: visitorKeeps_def greedyVisit_def scheduleAbsolute_inv)
  have i: "es_inv ?s" by (rule scheduleAbsolute_inv [OF ev_init_inv])
  have n: "\<not> es_servicing ?s" by code_simp
  obtain s' w' r where run: "serviceDue (EeTick 50) greedyVisit (?s, ()) = ((s', w'), r)"
    by (metis surj_pair)
  then show ?thesis using service_bounded [OF i n k run] by auto
qed

end
