(* ===== verification/EeEventTokens.thy ===== *)
theory EeEventTokens
  imports EeEventService
begin

text \<open>
  Tokens and snapshots of the event scheduler. A slot's generation runs through all
  nonzero 64-bit values before it repeats, so within 2^64 - 1 operations a token names one
  scheduling; sequence numbers of pending events stay distinct and issued, which is what
  \<open>restore\<close> checks.
\<close>

section \<open>Generations\<close>

lemma nextNonzero_neq_0 [simp]: "nextNonzero v \<noteq> 0"
  by (simp add: nextNonzero_def Let_def)

lemma unat_nextNonzero:
  "v \<noteq> 0 \<Longrightarrow> unat (nextNonzero v) - 1 = (unat v - 1 + 1) mod (2 ^ 64 - 1)"
  for v :: u64
proof -
  assume v: "v \<noteq> 0"
  then have pos: "0 < unat v" by (simp add: unat_gt_0)
  show ?thesis
  proof (cases "v + 1 = 0")
    case True
    then have v1: "v = - 1" by (simp add: eq_neg_iff_add_eq_0)
    then have "nextNonzero v = 1" by (simp add: nextNonzero_def)
    then show ?thesis by (simp add: v1)
  next
    case False
    then have "unat (v + 1) = Suc (unat v)" by (rule unat_succ)
    moreover have "unat (v + 1) < 2 ^ 64" by (rule unat_u64_less)
    ultimately show ?thesis using pos False by (simp add: nextNonzero_def Let_def)
  qed
qed

lemma nextNonzero_funpow:
  "v \<noteq> 0 \<Longrightarrow> (nextNonzero ^^ k) v \<noteq> 0
     \<and> unat ((nextNonzero ^^ k) v) - 1 = (unat v - 1 + k) mod (2 ^ 64 - 1)"
proof (induction k)
  case 0
  then show ?case using unat_u64_less [of v] by simp
next
  case (Suc k)
  then show ?case
    using unat_nextNonzero [of "(nextNonzero ^^ k) v"] by (simp add: mod_Suc_eq)
qed

lemma nextNonzero_period:
  assumes "v \<noteq> 0" and "k < 2 ^ 64 - 1" and "(nextNonzero ^^ k) v = v"
  shows "k = 0"
proof -
  let ?a = "unat v - 1" and ?m = "2 ^ 64 - 1 :: nat"
  have a: "?a < ?m" using unat_u64_less [of v] assms(1) by (simp add: unat_gt_0)
  have eq: "(?a + k) mod ?m = ?a" using nextNonzero_funpow [OF assms(1), of k] assms(3) by simp
  show ?thesis
  proof (cases "?a + k < ?m")
    case True
    with eq show ?thesis by simp
  next
    case False
    then have "(?a + k) mod ?m = ?a + k - ?m"
      using a assms(2) by (simp add: mod_if)
    with eq a assms(2) False show ?thesis by linarith
  qed
qed

section \<open>What an operation does to one slot\<close>

lemma slot_step:
  assumes "es_inv s" and "i < 15"
  shows "slot_generation (es_slots (es_step p s) ! i) = nextNonzero (slot_generation (es_slots s ! i))
     \<or> es_slots (es_step p s) ! i = es_slots s ! i
     \<or> es_slots (es_step p s) ! i = (es_slots s ! i)\<lparr>slot_pending := False\<rparr>"
  using assms
  by (cases p) (auto simp: scheduleAfter_def scheduleAbsolute_def cancelSource_def cancelToken_def
      es_reset_def takeNextDue_def es_slot_def nth_list_update es_inv_length Let_def
      split: option.split)

lemma slot_run:
  assumes "es_inv s" and "i < 15"
  shows "\<exists>k\<le>length ops. slot_generation (es_slots (fold es_step ops s) ! i)
            = (nextNonzero ^^ k) (slot_generation (es_slots s ! i))
     \<and> (k = 0 \<longrightarrow> es_slots (fold es_step ops s) ! i
            \<in> {es_slots s ! i, (es_slots s ! i)\<lparr>slot_pending := False\<rparr>})"
  using assms
proof (induction ops rule: rev_induct)
  case Nil
  then show ?case by simp
next
  case (snoc p ops)
  let ?t = "fold es_step ops s"
  from snoc obtain k where k: "k \<le> length ops"
    and g: "slot_generation (es_slots ?t ! i) = (nextNonzero ^^ k) (slot_generation (es_slots s ! i))"
    and z: "k = 0 \<Longrightarrow> es_slots ?t ! i \<in> {es_slots s ! i, (es_slots s ! i)\<lparr>slot_pending := False\<rparr>}"
    by blast
  have "es_inv ?t" by (rule es_machine.inv_run [OF snoc.prems(1)]) simp
  from slot_step [OF this snoc.prems(2), of p] show ?case
  proof (elim disjE)
    assume "slot_generation (es_slots (es_step p ?t) ! i) = nextNonzero (slot_generation (es_slots ?t ! i))"
    with k g show ?thesis by (intro exI [of _ "Suc k"]) simp
  qed (use k g z in \<open>auto intro!: exI [of _ k]\<close>)
qed

text \<open>
  C27. A token cancels the event it was issued for and no other: if, after any further
  operations (fewer than 2^64 - 1), \<open>cancel(token)\<close> answers true, then the source still
  holds that very event, unserviced and with its deadline and sequence number, and
  cancelling removes it and nothing else; and right after scheduling it does answer true.
\<close>

theorem token_names_one_event:
  assumes "es_inv s" and "src \<noteq> SourceCount"
    and "scheduleAbsolute src deadline s = (s1, tok)"
    and "length ops < 2 ^ 64 - 1" and "s2 = fold es_step ops s1"
  shows "fst (cancelToken tok s1)
     \<and> (fst (cancelToken tok s2) \<longrightarrow>
          (\<exists>e. es_event s2 src = Some e \<and> es_event s1 src = Some e
             \<and> sev_deadline e = deadline \<and> sev_token e = tok)
        \<and> es_event (snd (cancelToken tok s2)) = (es_event s2)(src := None))"
proof -
  let ?i = "eeEventSourceIndex src"
  have i: "?i < 15" using assms(2) by (simp add: sourceIndex_less_15)
  have inv1: "es_inv s1" using scheduleAbsolute_inv [OF assms(1)] assms(3) by (metis fst_conv)
  have inv2: "es_inv s2" unfolding assms(5) by (rule es_machine.inv_run [OF inv1]) simp
  note len = es_inv_length [OF assms(1)] es_inv_length [OF inv1] es_inv_length [OF inv2]
  let ?a = "es_slots s1 ! ?i" and ?b = "es_slots s2 ! ?i"
  have a: "slot_pending ?a" "slot_deadline ?a = deadline" "slot_generation ?a \<noteq> 0"
    and tok: "tok = \<lparr>tok_source = src, tok_generation = slot_generation ?a\<rparr>"
    using assms(3) i len(1) by (auto simp: scheduleAbsolute_def es_slot_def Let_def)
  have now: "fst (cancelToken tok s1)"
    using a i len(2) by (simp add: cancelToken_def cancelSource_def es_slot_def tok Let_def)
  have "(\<exists>e. es_event s2 src = Some e \<and> es_event s1 src = Some e
             \<and> sev_deadline e = deadline \<and> sev_token e = tok)
        \<and> es_event (snd (cancelToken tok s2)) = (es_event s2)(src := None)"
    if c: "fst (cancelToken tok s2)"
  proof -
    from c i len(3) have b: "slot_pending ?b" "slot_generation ?b = slot_generation ?a"
      by (auto simp: cancelToken_def es_slot_def tok Let_def split: if_splits)
    from slot_run [OF inv1 i, of ops] obtain k where "k \<le> length ops"
      "slot_generation ?b = (nextNonzero ^^ k) (slot_generation ?a)"
      and z: "k = 0 \<Longrightarrow> ?b \<in> {?a, ?a\<lparr>slot_pending := False\<rparr>}"
      unfolding assms(5) by blast
    with b nextNonzero_period [OF a(3), of k] assms(4) have "k = 0" by simp
    with z b(1) have same: "?b = ?a" by auto
    have "es_event (snd (cancelToken tok s2)) = (es_event s2)(src := None)"
      using b i len(3)
      by (auto simp: fun_eq_iff cancelToken_def cancelSource_def es_slot_def tok Let_def
          es_event_pendingAt pendingAt_def nth_list_update)
    then show ?thesis using same a tok i len by (simp add: es_event_pendingAt pendingAt_def)
  qed
  with now show ?thesis by blast
qed

theorem token_names_one_event_witness:
  "fst (cancelToken \<lparr>tok_source = DmacGif, tok_generation = 1\<rparr>
     (fst (scheduleAbsolute DmacGif (EeTick 9) ev_init)))"
proof -
  have e: "scheduleAbsolute DmacGif (EeTick 9) ev_init
      = (fst (scheduleAbsolute DmacGif (EeTick 9) ev_init), \<lparr>tok_source = DmacGif, tok_generation = 1\<rparr>)"
    by code_simp
  show ?thesis using token_names_one_event [OF ev_init_inv _ e _ refl, of "[]"] by simp
qed

section \<open>Sequence numbers and snapshots\<close>

definition seqOk :: "ev_sched \<Rightarrow> bool" where
  "seqOk s =
     ((\<forall>i. pendingAt (es_slots s) i \<longrightarrow>
          slot_generation (es_slots s ! i) \<noteq> 0 \<and> slot_sequence (es_slots s ! i) \<noteq> 0
          \<and> slot_sequence (es_slots s ! i) \<le> es_nextSequence s)
      \<and> (\<forall>i j. pendingAt (es_slots s) i \<longrightarrow> pendingAt (es_slots s) j \<longrightarrow>
          slot_sequence (es_slots s ! i) = slot_sequence (es_slots s ! j) \<longrightarrow> i = j))"

definition es_wf :: "ev_sched \<Rightarrow> bool" where
  "es_wf s = (es_inv s \<and> seqOk s)"

definition es_capacity :: "ev_sched \<Rightarrow> enat" where
  "es_capacity s = enat (2 ^ 64 - 1 - unat (es_nextSequence s))"

lemma seqOk_clear:
  assumes "seqOk s" and "es_nextSequence t = es_nextSequence s"
    and "length (es_slots t) = length (es_slots s)"
    and "\<And>i. pendingAt (es_slots t) i \<Longrightarrow> es_slots t ! i = es_slots s ! i"
  shows "seqOk t"
  using assms unfolding seqOk_def pendingAt_def by metis

lemma seqOk_put:
  assumes ok: "seqOk s" and i: "i < length (es_slots s)"
    and sl: "slot_generation sl \<noteq> 0" "slot_sequence sl = es_nextSequence s + 1"
    and room: "es_nextSequence s \<noteq> - 1"
    and t: "es_slots t = (es_slots s)[i := sl]" "es_nextSequence t = es_nextSequence s + 1"
  shows "seqOk t"
proof -
  have nz: "es_nextSequence s + 1 \<noteq> 0" using room by (simp add: eq_neg_iff_add_eq_0 [symmetric])
  then have lt: "es_nextSequence s < es_nextSequence s + 1"
    by (simp add: word_less_nat_alt unat_succ)
  have old: "slot_sequence (es_slots s ! j) < es_nextSequence s + 1" if "pendingAt (es_slots s) j" for j
    using ok that lt by (auto simp: seqOk_def intro: le_less_trans)
  have pend: "pendingAt (es_slots t) j \<Longrightarrow> j = i \<or> pendingAt (es_slots s) j \<and> es_slots t ! j = es_slots s ! j"
    for j by (auto simp: pendingAt_def t)
  have new: "es_slots t ! i = sl" using i by (simp add: t)
  show ?thesis
    unfolding seqOk_def
  proof (intro conjI allI impI)
    fix j assume "pendingAt (es_slots t) j"
    with pend [OF this] ok old nz sl new show "slot_generation (es_slots t ! j) \<noteq> 0"
      and "slot_sequence (es_slots t ! j) \<noteq> 0" and "slot_sequence (es_slots t ! j) \<le> es_nextSequence t"
      by (auto simp: seqOk_def t(2) intro: less_imp_le)
  next
    fix j k assume "pendingAt (es_slots t) j" "pendingAt (es_slots t) k"
      and "slot_sequence (es_slots t ! j) = slot_sequence (es_slots t ! k)"
    with pend [of j] pend [of k] ok old [of j] old [of k] sl new show "j = k"
      unfolding seqOk_def by (metis less_irrefl)
  qed
qed

lemma seqOk_recomputeNext [simp]: "seqOk (recomputeNext s) = seqOk s"
  by (simp add: seqOk_def)

lemma nextNonzero_room: "v \<noteq> - 1 \<Longrightarrow> nextNonzero v = v + 1"
  by (simp add: nextNonzero_def Let_def eq_neg_iff_add_eq_0 [symmetric])

lemma es_capacity_pos: "es_capacity s \<noteq> 0 \<longleftrightarrow> es_nextSequence s \<noteq> - 1"
proof -
  have "unat (es_nextSequence s) = 2 ^ 64 - 1 \<longleftrightarrow> es_nextSequence s = - 1"
    by (simp add: word_unat_eq_iff)
  then show ?thesis using unat_u64_less [of "es_nextSequence s"]
    by (auto simp: es_capacity_def zero_enat_def)
qed

lemma scheduleAbsolute_seqOk:
  assumes "seqOk s" and "es_nextSequence s \<noteq> - 1"
  shows "seqOk (fst (scheduleAbsolute src t s))"
proof (cases "es_slot s src")
  case None
  then show ?thesis using assms by (simp add: scheduleAbsolute_def)
next
  case (Some target)
  then have i: "eeEventSourceIndex src < length (es_slots s)" by (simp add: es_slot_Some)
  show ?thesis
    using Some assms(2)
    by (auto simp: scheduleAbsolute_def Let_def nextNonzero_room
        intro!: seqOk_put [OF assms(1) i _ _ assms(2)])
qed

lemma es_step_seqOk:
  assumes "es_inv s" and "seqOk s" and "es_nextSequence s \<noteq> - 1"
  shows "seqOk (es_step p s)"
proof (cases p)
  case (OpCancelSource src)
  have "seqOk (snd (cancelSource src s))"
    by (rule seqOk_clear [OF assms(2)])
      (auto simp: cancelSource_def es_slot_def Let_def pendingAt_def nth_list_update
        split: option.splits if_splits)
  then show ?thesis using OpCancelSource by simp
next
  case (OpCancelToken tok)
  have "seqOk (snd (cancelToken tok s))"
    by (rule seqOk_clear [OF assms(2)])
      (auto simp: cancelToken_def cancelSource_def es_slot_def Let_def pendingAt_def nth_list_update
        split: option.splits if_splits)
  then show ?thesis using OpCancelToken by simp
next
  case (OpTakeNext now)
  have "seqOk (fst (takeNextDue now s))"
    by (rule seqOk_clear [OF assms(2)])
      (auto simp: takeNextDue_def es_slot_def Let_def pendingAt_def nth_list_update
        split: option.splits if_splits)
  then show ?thesis using OpTakeNext by simp
qed (use assms in \<open>simp_all add: scheduleAfter_def scheduleAbsolute_seqOk\<close>,
     simp add: seqOk_def es_reset_def pendingAt_def cong: conj_cong)

lemma es_step_nextSequence:
  assumes "es_nextSequence s \<noteq> - 1"
  shows "es_nextSequence (es_step p s) \<in> {0, es_nextSequence s, es_nextSequence s + 1}"
  using assms
  by (cases p) (auto simp: scheduleAfter_def scheduleAbsolute_def cancelSource_def cancelToken_def
      es_reset_def takeNextDue_def nextNonzero_room Let_def split: option.split)

lemma es_capacity_step:
  assumes room: "es_nextSequence s \<noteq> - 1"
  shows "es_capacity s \<le> eSuc (es_capacity (es_step p s))"
proof -
  from room have "unat (es_nextSequence s + 1) = Suc (unat (es_nextSequence s))"
    by (intro unat_succ) (simp add: eq_neg_iff_add_eq_0 [symmetric])
  with es_step_nextSequence [OF room, of p] show ?thesis
    by (auto simp: es_capacity_def eSuc_enat)
qed

lemma ev_init_wf: "es_wf ev_init"
proof -
  have "seqOk ev_init"
    unfolding ev_init_def by (simp add: seqOk_def pendingAt_def emptySlot_def cong: conj_cong)
  then show ?thesis using ev_init_inv by (simp add: es_wf_def)
qed

interpretation es_wf_machine: invariant_machine ev_init es_step es_wf es_capacity
  by (unfold_locales, rule ev_init_wf)
    (auto simp: es_wf_def es_step_inv es_step_seqOk es_capacity_pos es_capacity_step)

text \<open>What \<open>restore\<close> checks, without the loop.\<close>

lemma restoreCheck_iff:
  "restoreCheck n idx seen xs \<longleftrightarrow>
     (\<forall>j<length xs. snap_source (xs ! j) = sourceOfIndex (idx + j))
   \<and> (\<forall>x\<in>set xs. snap_pending x \<longrightarrow> snap_generation x \<noteq> 0 \<and> snap_sequence x \<noteq> 0
        \<and> snap_sequence x \<le> n \<and> snap_sequence x \<notin> seen)
   \<and> distinct (map snap_sequence (filter snap_pending xs))"
proof (induction xs arbitrary: idx seen)
  case Nil
  then show ?case by simp
next
  case (Cons x xs)
  have "(\<forall>j<length (x # xs). snap_source ((x # xs) ! j) = sourceOfIndex (idx + j)) \<longleftrightarrow>
      snap_source x = sourceOfIndex idx \<and> (\<forall>j<length xs. snap_source (xs ! j) = sourceOfIndex (Suc idx + j))"
    by (auto simp: All_less_Suc2)
  then show ?case by (auto simp: Cons.IH image_iff)
qed

text \<open>A \<open>Snapshot\<close> holds a \<open>std::array\<close> of fifteen slots.\<close>

definition es_shaped :: "ee_scheduler_snapshot \<Rightarrow> bool" where
  "es_shaped d = (length (snap_slots d) = kEeEventSourceCount)"

definition es_view :: "ev_sched \<Rightarrow> ee_slot list \<times> u64 \<times> ee_statistics" where
  "es_view s = (es_slots s, es_nextSequence s, es_statistics s)"

definition slotOfSnap :: "ee_slot_snapshot \<Rightarrow> ee_slot" where
  "slotOfSnap x = \<lparr>slot_deadline = snap_deadline x, slot_generation = snap_generation x,
     slot_sequence = snap_sequence x, slot_pending = snap_pending x\<rparr>"

lemma slotOfSnap_fields [simp]:
  "slot_generation (slotOfSnap x) = snap_generation x"
  "slot_sequence (slotOfSnap x) = snap_sequence x"
  "slot_pending (slotOfSnap x) = snap_pending x"
  by (simp_all add: slotOfSnap_def)

lemma distinct_pending_iff:
  "distinct (map snap_sequence (filter snap_pending xs)) \<longleftrightarrow>
     (\<forall>i<length xs. \<forall>j<length xs. snap_pending (xs ! i) \<longrightarrow> snap_pending (xs ! j) \<longrightarrow>
        snap_sequence (xs ! i) = snap_sequence (xs ! j) \<longrightarrow> i = j)"
proof (induction xs)
  case Nil
  then show ?case by simp
next
  case (Cons x xs)
  show ?case
    by (auto simp: Cons.IH All_less_Suc2 in_set_conv_nth image_iff)
qed

lemma restore_accepted:
  assumes "restoreCheck (snap_nextSequence d) 0 {} (snap_slots d)"
    and "es_slots s = map slotOfSnap (snap_slots d)" and "es_nextSequence s = snap_nextSequence d"
  shows "seqOk s"
  using assms unfolding restoreCheck_iff distinct_pending_iff seqOk_def
  by (auto simp: pendingAt_def)

lemma es_snapshot_slots:
  "length (es_slots s) = 15 \<Longrightarrow> i < 15 \<Longrightarrow> snap_slots (es_snapshot s) ! i =
     \<lparr>snap_source = sourceOfIndex i, snap_deadline = slot_deadline (es_slots s ! i),
      snap_generation = slot_generation (es_slots s ! i),
      snap_sequence = slot_sequence (es_slots s ! i), snap_pending = slot_pending (es_slots s ! i)\<rparr>"
  by (simp add: es_snapshot_def)

lemma slotOfSnap_snapshot: "map slotOfSnap (snap_slots (es_snapshot s)) = es_slots s"
  by (rule nth_equalityI) (simp_all add: es_snapshot_def slotOfSnap_def)

lemma snapshot_accepted:
  assumes "es_wf s"
  shows "restoreCheck (es_nextSequence s) 0 {} (snap_slots (es_snapshot s))"
proof -
  have len: "length (es_slots s) = 15" using assms by (simp add: es_wf_def es_inv_length)
  have n: "length (snap_slots (es_snapshot s)) = 15" using len by (simp add: es_snapshot_def)
  have ok: "seqOk s" using assms by (simp add: es_wf_def)
  have g: "snap_pending x \<longrightarrow> snap_generation x \<noteq> 0 \<and> snap_sequence x \<noteq> 0
        \<and> snap_sequence x \<le> es_nextSequence s \<and> snap_sequence x \<notin> {}"
    if x: "x \<in> set (snap_slots (es_snapshot s))" for x
  proof -
    from x n obtain i where i: "i < 15" "x = snap_slots (es_snapshot s) ! i"
      by (auto simp: in_set_conv_nth)
    then show ?thesis using ok len by (auto simp: es_snapshot_slots seqOk_def pendingAt_def)
  qed
  moreover have "distinct (map snap_sequence (filter snap_pending (snap_slots (es_snapshot s))))"
    unfolding distinct_pending_iff n using ok len
    by (auto simp: es_snapshot_slots seqOk_def pendingAt_def)
  moreover have "\<forall>j<length (snap_slots (es_snapshot s)).
      snap_source (snap_slots (es_snapshot s) ! j) = sourceOfIndex (0 + j)"
    using len by (simp add: n es_snapshot_slots)
  ultimately show ?thesis unfolding restoreCheck_iff by blast
qed

lemma es_restore_accept:
  "fst (es_restore d t) \<longleftrightarrow> restoreCheck (snap_nextSequence d) 0 {} (snap_slots d)"
  by (simp add: es_restore_def)

lemma es_restore_state:
  assumes "fst (es_restore d t)"
  shows "es_slots (snd (es_restore d t)) = map slotOfSnap (snap_slots d)"
    and "es_nextSequence (snd (es_restore d t)) = snap_nextSequence d"
    and "es_statistics (snd (es_restore d t)) = snap_statistics d"
  using assms by (simp_all add: es_restore_def slotOfSnap_def split: if_splits)

lemma es_restore_inv: "es_shaped d \<Longrightarrow> fst (es_restore d t) \<Longrightarrow> es_inv (snd (es_restore d t))"
  by (auto simp: es_restore_def es_shaped_def intro!: recomputeNext_inv split: if_splits)

interpretation es_store: snapshot_store es_snapshot es_restore es_shaped es_wf es_view
proof unfold_locales
  fix s t d
  show "es_wf s \<Longrightarrow> es_shaped (es_snapshot s)"
    by (simp add: es_shaped_def es_snapshot_def es_wf_def es_inv_length)
  show acc: "es_wf s \<Longrightarrow> fst (es_restore (es_snapshot s) t)"
    using snapshot_accepted [of s] by (simp add: es_restore_accept) (simp add: es_snapshot_def)
  show "es_wf s \<Longrightarrow> es_view (snd (es_restore (es_snapshot s) t)) = es_view s"
    using es_restore_state [OF acc] by (simp add: es_view_def slotOfSnap_snapshot) (simp add: es_snapshot_def)
  show "\<not> fst (es_restore d t) \<Longrightarrow> snd (es_restore d t) = t"
    by (auto simp: es_restore_def split: if_splits)
  show "es_shaped d \<Longrightarrow> fst (es_restore d t) \<Longrightarrow> es_wf (snd (es_restore d t))"
    unfolding es_wf_def using es_restore_inv restore_accepted [of d "snd (es_restore d t)"]
      es_restore_state [of d t] es_restore_accept [of d t] by blast
  show "es_view s = es_view t \<Longrightarrow> es_snapshot s = es_snapshot t"
    by (simp add: es_view_def es_snapshot_def)
qed

lemma nextDeadline_slots:
  assumes "es_inv s" and "es_inv t" and "es_slots s = es_slots t"
  shows "nextDeadline s = nextDeadline t"
proof -
  have has: "es_hasPending s \<longleftrightarrow> es_hasPending t"
    using assms by (simp add: es_inv_def cacheOk_def bestUpto_def)
  have "es_nextDeadline s = es_nextDeadline t" if "es_hasPending s"
  proof (rule antisym)
    from that has have h: "es_hasPending s" "es_hasPending t" by auto
    show "es_nextDeadline s \<le> es_nextDeadline t"
      using cache_min(2) [OF assms(1)] cache_hit [OF assms(2) h(2)] assms(3) by fastforce
    show "es_nextDeadline t \<le> es_nextDeadline s"
      using cache_min(2) [OF assms(2)] cache_hit [OF assms(1) h(1)] assms(3) by fastforce
  qed
  with has show ?thesis by (simp add: nextDeadline_def)
qed

text \<open>
  After any history of fewer than 2^64 - 1 operations the scheduler's snapshot is
  accepted by \<open>restore\<close> on any scheduler; it restores every slot, the sequence counter, the
  statistics and the next deadline, yields a well-formed scheduler and snapshots to the
  same value again.
\<close>

theorem scheduler_snapshot_roundtrip:
  assumes "length ops < 2 ^ 64 - 1" and "s = fold es_step ops ev_init"
  shows "fst (es_restore (es_snapshot s) t)
     \<and> es_view (snd (es_restore (es_snapshot s) t)) = es_view s
     \<and> es_wf (snd (es_restore (es_snapshot s) t))
     \<and> es_snapshot (snd (es_restore (es_snapshot s) t)) = es_snapshot s
     \<and> nextDeadline (snd (es_restore (es_snapshot s) t)) = nextDeadline s"
proof -
  have "es_nextSequence ev_init = 0" by (simp add: ev_init_def)
  then have "enat (length ops) \<le> es_capacity ev_init"
    using assms(1) by (simp add: es_capacity_def)
  then have wf: "es_wf s" unfolding assms(2) by (rule es_wf_machine.inv_run_init)
  from es_store.roundtrip [OF wf, of t] show ?thesis
    using nextDeadline_slots [of "snd (es_restore (es_snapshot s) t)" s] wf
    by (simp add: es_wf_def es_view_def)
qed

theorem scheduler_snapshot_roundtrip_witness:
  "fst (es_restore (es_snapshot (fold es_step [OpSchedule VSync (EeTick 40)] ev_init)) ev_init)"
  using scheduler_snapshot_roundtrip [OF _ refl, of "[OpSchedule VSync (EeTick 40)]" ev_init]
  by simp

end
