(* ===== verification/DeadlineDevice.thy ===== *)
theory DeadlineDevice
  imports Prelude
begin

text \<open>
  The contract between a lazily updated device and the event scheduler. The runtime does
  not step the COP0 timer or the performance counters cycle by cycle: it asks the device
  for the cycle of its next event, schedules it, and catches the device up when the event
  is served or a register is read. \<open>advance c s\<close> catches up to cycle \<open>c\<close> and answers
  whether the event is raised; \<open>upcoming s\<close> is the announced cycle, \<open>clock s\<close> the cycle the
  device has been advanced to, \<open>horizon\<close> the first cycle at which its arithmetic saturates.
\<close>

text \<open>Catching up at a list of cycles, collecting whether any of them raised the event.\<close>

primrec pollAll :: "(u64 \<Rightarrow> 's \<Rightarrow> 's \<times> bool) \<Rightarrow> u64 list \<Rightarrow> 's \<Rightarrow> 's \<times> bool" where
  "pollAll advance [] s = (s, False)"
| "pollAll advance (c # cs) s =
     (case advance c s of (s', r) \<Rightarrow>
        (case pollAll advance cs s' of (s'', r') \<Rightarrow> (s'', r \<or> r')))"

locale deadline_device =
  fixes advance :: "u64 \<Rightarrow> 's \<Rightarrow> 's \<times> bool"
    and upcoming :: "'s \<Rightarrow> u64 option"
    and clock :: "'s \<Rightarrow> u64"
    and ok :: "'s \<Rightarrow> bool"
    and horizon :: u64
  assumes raised_iff: "ok s \<Longrightarrow> clock s \<le> c \<Longrightarrow> c < horizon \<Longrightarrow>
      snd (advance c s) \<longleftrightarrow> (\<exists>d. upcoming s = Some d \<and> d \<le> c)"
    and advance_clock: "ok s \<Longrightarrow> clock s \<le> c \<Longrightarrow> c < horizon \<Longrightarrow> clock (fst (advance c s)) = c"
    and advance_ok: "ok s \<Longrightarrow> clock s \<le> c \<Longrightarrow> c < horizon \<Longrightarrow> ok (fst (advance c s))"
    and advance_again: "ok s \<Longrightarrow> clock s \<le> a \<Longrightarrow> a \<le> b \<Longrightarrow> b < horizon \<Longrightarrow>
      fst (advance b (fst (advance a s))) = fst (advance b s)"
    and raised_again: "ok s \<Longrightarrow> clock s \<le> a \<Longrightarrow> a \<le> b \<Longrightarrow> b < horizon \<Longrightarrow>
      snd (advance b s) \<longleftrightarrow> snd (advance a s) \<or> snd (advance b (fst (advance a s)))"
begin

lemma nothing_before:
  "ok s \<Longrightarrow> clock s \<le> c \<Longrightarrow> c < horizon \<Longrightarrow> upcoming s = Some d \<Longrightarrow> c < d \<Longrightarrow> \<not> snd (advance c s)"
  by (simp add: raised_iff)

lemma fires_at:
  "ok s \<Longrightarrow> clock s \<le> d \<Longrightarrow> d < horizon \<Longrightarrow> upcoming s = Some d \<Longrightarrow> snd (advance d s)"
  by (auto simp: raised_iff)

text \<open>Extra polls between now and the cycle of interest change nothing.\<close>

lemma polls_last:
  "ok s \<Longrightarrow> sorted (clock s # cs @ [c]) \<Longrightarrow> c < horizon \<Longrightarrow> pollAll advance (cs @ [c]) s = advance c s"
proof (induction cs arbitrary: s)
  case Nil
  then show ?case by (simp split: prod.split)
next
  case (Cons a cs)
  then have a: "clock s \<le> a" "a \<le> c" "a < horizon" by auto
  let ?t = "fst (advance a s)"
  have t: "ok ?t" "clock ?t = a"
    using advance_ok [OF Cons.prems(1) a(1, 3)] advance_clock [OF Cons.prems(1) a(1, 3)] by auto
  with Cons have "pollAll advance (cs @ [c]) ?t = advance c ?t" by simp
  then have "pollAll advance ((a # cs) @ [c]) s
      = (fst (advance c ?t), snd (advance a s) \<or> snd (advance c ?t))"
    by (simp add: split_beta)
  also have "\<dots> = advance c s"
    using advance_again [OF Cons.prems(1) a(1, 2) Cons.prems(3)]
      raised_again [OF Cons.prems(1) a(1, 2) Cons.prems(3)] by (simp add: prod_eq_iff)
  finally show ?case .
qed

text \<open>What the scheduler relies on: no poll before the announced cycle, the one at it does.\<close>

lemma announced_exactly:
  assumes "ok s" and "upcoming s = Some d" and "d < horizon"
    and "sorted (clock s # cs @ [d])" and "\<And>c. c \<in> set cs \<Longrightarrow> c < d"
  shows "\<not> snd (pollAll advance cs s)" and "pollAll advance (cs @ [d]) s = advance d s"
    and "snd (advance d s)"
proof -
  have d: "clock s \<le> d" using assms(4) by auto
  show "pollAll advance (cs @ [d]) s = advance d s"
    by (rule polls_last [OF assms(1, 4, 3)])
  show "snd (advance d s)" by (rule fires_at [OF assms(1) d assms(3, 2)])
  show "\<not> snd (pollAll advance cs s)"
  proof (cases cs rule: rev_cases)
    case Nil
    then show ?thesis by simp
  next
    case (snoc as a)
    then have a: "a < d" "clock s \<le> a" "sorted (clock s # as @ [a])"
      using assms(4, 5) by (auto simp: sorted_append)
    then have h: "a < horizon" using assms(3) by auto
    from polls_last [OF assms(1) a(3) h] have "pollAll advance cs s = advance a s"
      by (simp add: snoc)
    then show ?thesis using nothing_before [OF assms(1) a(2) h assms(2) a(1)] by simp
  qed
qed

end

end
