(* ===== verification/Cop0Timing.thy ===== *)
theory Cop0Timing
  imports DeadlineDevice
begin

unbundle bit_operations_syntax

text \<open>
  \<open>ps2xRuntime/include/runtime/cop0_timing.h\<close> and \<open>ps2xRuntime/src/lib/cop0_timing.cpp\<close>: the
  R5900 Count/Compare timer and the two performance counters of COP0 register 25. Both are
  updated lazily from an EE cycle count. \<open>std::array<_, 2>\<close> members are lists; \<open>c0_shaped\<close> says
  they have two elements, which every operation keeps.
\<close>

section \<open>State\<close>

record cop0_advance =
  adv_timerRaised :: bool
  adv_performanceOverflowMask :: u8

definition noAdvance :: cop0_advance where
  "noAdvance = \<lparr>adv_timerRaised = False, adv_performanceOverflowMask = 0\<rparr>"

definition mergeAdvance :: "cop0_advance \<Rightarrow> cop0_advance \<Rightarrow> cop0_advance" where
  "mergeAdvance a other =
     \<lparr>adv_timerRaised = (adv_timerRaised a \<or> adv_timerRaised other),
      adv_performanceOverflowMask =
        adv_performanceOverflowMask a OR adv_performanceOverflowMask other\<rparr>"

record cop0_events =
  ev_lowOrderBranchIssued :: u32
  ev_singleInstructionIssued :: u32
  ev_dualInstructionIssued :: u32
  ev_branchIssued :: u32
  ev_branchMispredicted :: u32
  ev_instructionCompleted :: u32
  ev_nonBdsInstructionCompleted :: u32
  ev_cop2InstructionCompleted :: u32
  ev_cop1InstructionCompleted :: u32
  ev_loadCompleted :: u32
  ev_storeCompleted :: u32

record cop0_snapshot =
  cs_count :: u32
  cs_compare :: u32
  cs_pccr :: u32
  cs_pcr :: "u32 list"
  cs_lastCountCycle :: u64
  cs_lastPerformanceCycle :: "u64 list"
  cs_timerArmed :: bool
  cs_timerPending :: bool

record cop0_timing =
  c0_count :: u32
  c0_compare :: u32
  c0_pccr :: u32
  c0_pcr :: "u32 list"
  c0_lastCountCycle :: u64
  c0_lastPerformanceCycle :: "u64 list"
  c0_timerArmed :: bool
  c0_timerPending :: bool

definition c0_init :: cop0_timing where
  "c0_init = \<lparr>c0_count = 0, c0_compare = 0, c0_pccr = 0, c0_pcr = [0, 0],
     c0_lastCountCycle = 0, c0_lastPerformanceCycle = [0, 0], c0_timerArmed = False,
     c0_timerPending = False\<rparr>"

definition kStatusExl :: u32 where "kStatusExl = push_bit 1 1"
definition kStatusErl :: u32 where "kStatusErl = push_bit 2 1"
definition kPccrCounterEnable :: u32 where "kPccrCounterEnable = push_bit 31 1"
definition kPccrWritableMask :: u32 where "kPccrWritableMask = 0x800ffbfe"
definition kPcrOverflow :: u32 where "kPcrOverflow = push_bit 31 1"
definition kCounterModulus :: u64 where "kCounterModulus = push_bit 32 1"
definition kPerformanceCounterModulus :: u64 where "kPerformanceCounterModulus = push_bit 31 1"

section \<open>The Count/Compare timer\<close>

definition cop0_reset :: "u64 \<Rightarrow> u32 \<Rightarrow> u32 \<Rightarrow> u32 \<Rightarrow> u32 \<Rightarrow> u32 \<Rightarrow> cop0_timing \<Rightarrow> cop0_timing" where
  "cop0_reset currentCycle count compare pccr pcr0 pcr1 s =
     s\<lparr>c0_count := count, c0_compare := compare, c0_pccr := pccr AND kPccrWritableMask,
       c0_pcr := [pcr0, pcr1], c0_lastCountCycle := currentCycle,
       c0_lastPerformanceCycle := [currentCycle, currentCycle],
       c0_timerArmed := False, c0_timerPending := False\<rparr>"

text \<open>Cycles to the next match: zero apart means a full turn of the 32-bit counter.\<close>

definition timerDistance :: "cop0_timing \<Rightarrow> u64" where
  "timerDistance s =
     (let modularDistance = c0_compare s - c0_count s
      in if modularDistance \<noteq> 0 then ucast modularDistance else kCounterModulus)"

definition synchronizeCount :: "u64 \<Rightarrow> bool \<Rightarrow> cop0_timing \<Rightarrow> cop0_timing \<times> cop0_advance" where
  "synchronizeCount currentCycle minimumIncrement s =
     (let elapsed0 = (if currentCycle \<ge> c0_lastCountCycle s
                      then currentCycle - c0_lastCountCycle s else 0);
          elapsed = (if minimumIncrement \<and> elapsed0 = 0 then 1 else elapsed0);
          raised = (elapsed \<noteq> 0 \<and> c0_timerArmed s \<and> \<not> c0_timerPending s
                    \<and> elapsed \<ge> timerDistance s)
      in (s\<lparr>c0_timerPending := (if raised then True else c0_timerPending s),
            c0_count := c0_count s + ucast elapsed,
            c0_lastCountCycle := currentCycle\<rparr>,
          noAdvance\<lparr>adv_timerRaised := raised\<rparr>))"

text \<open>The out-parameter \<open>advance\<close> may be null; a result is merged into it when it is not.\<close>

definition mergeInto :: "cop0_advance option \<Rightarrow> cop0_advance \<Rightarrow> cop0_advance option" where
  "mergeInto advance result = map_option (\<lambda>a. mergeAdvance a result) advance"

definition readCount ::
  "u64 \<Rightarrow> cop0_advance option \<Rightarrow> cop0_timing \<Rightarrow> cop0_timing \<times> u32 \<times> cop0_advance option"
where
  "readCount currentCycle advance s =
     (case synchronizeCount currentCycle True s of
        (s', result) \<Rightarrow> (s', c0_count s', mergeInto advance result))"

definition writeCount :: "u32 \<Rightarrow> u64 \<Rightarrow> cop0_timing \<Rightarrow> cop0_timing" where
  "writeCount v currentCycle s = s\<lparr>c0_count := v, c0_lastCountCycle := currentCycle\<rparr>"

definition writeCompare :: "u32 \<Rightarrow> u64 \<Rightarrow> cop0_timing \<Rightarrow> cop0_timing" where
  "writeCompare v currentCycle s =
     (fst (synchronizeCount currentCycle False s))
       \<lparr>c0_compare := v, c0_timerArmed := True, c0_timerPending := False\<rparr>"

definition nextTimerCycle :: "cop0_timing \<Rightarrow> u64 option" where
  "nextTimerCycle s =
     (if \<not> c0_timerArmed s \<or> c0_timerPending s then None
      else Some (sat_add64 (c0_lastCountCycle s) (timerDistance s)))"

section \<open>Performance counters\<close>

definition performanceCounterEnabled :: "u32 \<Rightarrow> nat \<Rightarrow> u32 \<Rightarrow> bool" where
  "performanceCounterEnabled pccr counter status =
     (let base = (if counter = 0 then 0 else 10);
          mode = (if status AND kStatusExl \<noteq> 0 then 1 else 2 + (drop_bit 3 status AND 3))
      in pccr AND push_bit (base + unat mode) 1 \<noteq> 0)"

definition supportedPerformanceEvent :: "nat \<Rightarrow> u32 \<Rightarrow> bool" where
  "supportedPerformanceEvent counter event =
     (if event = 0 then counter = 1
      else event = 1 \<or> event = 2 \<or> event = 3 \<or> event = 12 \<or> event = 13 \<or> event = 14
        \<or> event = 15)"

definition performanceEventOccurrences :: "nat \<Rightarrow> u32 \<Rightarrow> cop0_events \<Rightarrow> u32" where
  "performanceEventOccurrences counter event events =
     (if \<not> supportedPerformanceEvent counter event \<or> event = 1 then 0
      else if event = 0 then ev_lowOrderBranchIssued events
      else if event = 2 then
        (if counter = 0 then ev_singleInstructionIssued events else ev_dualInstructionIssued events)
      else if event = 3 then
        (if counter = 0 then ev_branchIssued events else ev_branchMispredicted events)
      else if event = 12 then ev_instructionCompleted events
      else if event = 13 then ev_nonBdsInstructionCompleted events
      else if event = 14 then
        (if counter = 0 then ev_cop2InstructionCompleted events
         else ev_cop1InstructionCompleted events)
      else if event = 15 then
        (if counter = 0 then ev_loadCompleted events else ev_storeCompleted events)
      else 0)"

definition performanceEvent :: "u32 \<Rightarrow> nat \<Rightarrow> u32" where
  "performanceEvent pccr counter =
     (let shift = (if counter = 0 then 5 else 15) in drop_bit shift pccr AND 0x1f)"

definition incrementPerformanceCounter ::
  "nat \<Rightarrow> u64 \<Rightarrow> cop0_timing \<Rightarrow> cop0_timing \<times> cop0_advance"
where
  "incrementPerformanceCounter counter increment s =
     (if counter \<ge> length (c0_pcr s) \<or> increment = 0 then (s, noAdvance)
      else
        let pcr = c0_pcr s ! counter;
            alreadyOverflowed = (pcr AND kPcrOverflow \<noteq> 0);
            v = ucast (pcr AND NOT kPcrOverflow) + increment;
            overflowed = (v \<ge> kPerformanceCounterModulus)
        in (s\<lparr>c0_pcr := (c0_pcr s)[counter :=
                 ucast (v mod kPerformanceCounterModulus)
                 OR (if alreadyOverflowed \<or> overflowed then kPcrOverflow else 0)]\<rparr>,
            noAdvance\<lparr>adv_performanceOverflowMask :=
                 (if \<not> alreadyOverflowed \<and> overflowed then push_bit counter 1 else 0)\<rparr>))"

definition synchronizePerformanceStep ::
  "u64 \<Rightarrow> u32 \<Rightarrow> bool \<Rightarrow> nat \<Rightarrow> cop0_timing \<times> cop0_advance \<Rightarrow> cop0_timing \<times> cop0_advance"
where
  "synchronizePerformanceStep currentCycle status minimumIncrement counter sr =
     (case sr of (s, result) \<Rightarrow>
        let lastCycle = c0_lastPerformanceCycle s ! counter;
            elapsed0 = (if currentCycle \<ge> lastCycle then currentCycle - lastCycle else 0);
            canCount = (status AND kStatusErl = 0 \<and> c0_pccr s AND kPccrCounterEnable \<noteq> 0
                        \<and> performanceCounterEnabled (c0_pccr s) counter status
                        \<and> performanceEvent (c0_pccr s) counter = 1);
            elapsed = (if canCount \<and> minimumIncrement \<and> elapsed0 = 0 then 1 else elapsed0);
            (s1, result1) =
              (if canCount \<and> elapsed \<noteq> 0
               then (case incrementPerformanceCounter counter elapsed s of
                       (t, r) \<Rightarrow> (t, mergeAdvance result r))
               else (s, result))
        in (s1\<lparr>c0_lastPerformanceCycle := (c0_lastPerformanceCycle s1)[counter := currentCycle]\<rparr>,
            result1))"

definition synchronizePerformance ::
  "u64 \<Rightarrow> u32 \<Rightarrow> bool \<Rightarrow> cop0_timing \<Rightarrow> cop0_timing \<times> cop0_advance"
where
  "synchronizePerformance currentCycle status minimumIncrement s =
     fold (synchronizePerformanceStep currentCycle status minimumIncrement)
       [0..<length (c0_pcr s)] (s, noAdvance)"

definition recordPerformanceStep ::
  "u32 \<Rightarrow> cop0_events \<Rightarrow> nat \<Rightarrow> cop0_timing \<times> cop0_advance \<Rightarrow> cop0_timing \<times> cop0_advance"
where
  "recordPerformanceStep status events counter sr =
     (case sr of (s, result) \<Rightarrow>
        if \<not> performanceCounterEnabled (c0_pccr s) counter status then sr
        else
          let event = performanceEvent (c0_pccr s) counter;
              occurrences = performanceEventOccurrences counter event events
          in if occurrences \<noteq> 0
             then (case incrementPerformanceCounter counter (ucast occurrences) s of
                     (t, r) \<Rightarrow> (t, mergeAdvance result r))
             else sr)"

definition recordPerformanceEvents ::
  "u32 \<Rightarrow> cop0_events \<Rightarrow> cop0_timing \<Rightarrow> cop0_timing \<times> cop0_advance"
where
  "recordPerformanceEvents status events s =
     (if status AND kStatusErl \<noteq> 0 \<or> c0_pccr s AND kPccrCounterEnable = 0 then (s, noAdvance)
      else fold (recordPerformanceStep status events) [0..<length (c0_pcr s)] (s, noAdvance))"

definition readPerformance ::
  "u32 \<Rightarrow> u64 \<Rightarrow> u32 \<Rightarrow> cop0_advance option \<Rightarrow> cop0_timing
    \<Rightarrow> cop0_timing \<times> u32 \<times> cop0_advance option"
where
  "readPerformance selector0 currentCycle status advance s =
     (let selector = selector0 AND 0x3f
      in if selector AND 1 = 0 then (s, c0_pccr s, advance)
         else case synchronizePerformance currentCycle status True s of
                (s', result) \<Rightarrow>
                  (s', c0_pcr s' ! (if selector AND 2 \<noteq> 0 then 1 else 0), mergeInto advance result))"

definition writePerformance ::
  "u32 \<Rightarrow> u32 \<Rightarrow> u64 \<Rightarrow> u32 \<Rightarrow> cop0_advance option \<Rightarrow> cop0_timing
    \<Rightarrow> cop0_timing \<times> bool \<times> cop0_advance option"
where
  "writePerformance selector0 v currentCycle status advance s =
     (let selector = selector0 AND 0x3f
      in if selector AND 1 = 0
         then (if selector AND 0x3e \<noteq> 0 then (s, False, advance)
               else case synchronizePerformance currentCycle status True s of
                      (s', result) \<Rightarrow>
                        (s'\<lparr>c0_pccr := v AND kPccrWritableMask\<rparr>, True, mergeInto advance result))
         else let counter = (if selector AND 2 \<noteq> 0 then 1 else 0)
              in (s\<lparr>c0_pcr := (c0_pcr s)[counter := v],
                    c0_lastPerformanceCycle := (c0_lastPerformanceCycle s)[counter := currentCycle]\<rparr>,
                  True, advance))"

definition nextPerformanceStep ::
  "u32 \<Rightarrow> cop0_timing \<Rightarrow> nat \<Rightarrow> u64 option \<Rightarrow> u64 option"
where
  "nextPerformanceStep status s counter result =
     (if \<not> performanceCounterEnabled (c0_pccr s) counter status
         \<or> performanceEvent (c0_pccr s) counter \<noteq> 1
      then result
      else
        let distance = kPerformanceCounterModulus - ucast (c0_pcr s ! counter AND NOT kPcrOverflow);
            deadline = sat_add64 (c0_lastPerformanceCycle s ! counter) distance
        in case result of
             None \<Rightarrow> Some deadline
           | Some best \<Rightarrow> if deadline < best then Some deadline else Some best)"

definition nextPerformanceEventCycle :: "u64 \<Rightarrow> u32 \<Rightarrow> cop0_timing \<Rightarrow> u64 option" where
  "nextPerformanceEventCycle currentCycle status s =
     (if status AND kStatusErl \<noteq> 0 \<or> c0_pccr s AND kPccrCounterEnable = 0 then None
      else if c0_pcr s ! 0 AND kPcrOverflow \<noteq> 0 \<or> c0_pcr s ! 1 AND kPcrOverflow \<noteq> 0
      then Some currentCycle
      else fold (nextPerformanceStep status s) [0..<length (c0_pcr s)] None)"

definition performanceExceptionPending :: "u32 \<Rightarrow> cop0_timing \<Rightarrow> bool" where
  "performanceExceptionPending status s =
     (status AND kStatusErl = 0 \<and> c0_pccr s AND kPccrCounterEnable \<noteq> 0
      \<and> (c0_pcr s ! 0 OR c0_pcr s ! 1) AND kPcrOverflow \<noteq> 0)"

definition cop0_snapshot_of :: "cop0_timing \<Rightarrow> cop0_snapshot" where
  "cop0_snapshot_of s =
     \<lparr>cs_count = c0_count s, cs_compare = c0_compare s, cs_pccr = c0_pccr s, cs_pcr = c0_pcr s,
      cs_lastCountCycle = c0_lastCountCycle s,
      cs_lastPerformanceCycle = c0_lastPerformanceCycle s,
      cs_timerArmed = c0_timerArmed s, cs_timerPending = c0_timerPending s\<rparr>"

definition cop0_restore :: "cop0_snapshot \<Rightarrow> cop0_timing \<Rightarrow> cop0_timing" where
  "cop0_restore d s =
     s\<lparr>c0_count := cs_count d, c0_compare := cs_compare d, c0_pccr := cs_pccr d,
       c0_pcr := cs_pcr d, c0_lastCountCycle := cs_lastCountCycle d,
       c0_lastPerformanceCycle := cs_lastPerformanceCycle d,
       c0_timerArmed := cs_timerArmed d, c0_timerPending := cs_timerPending d\<rparr>"

end
