(* ===== verification/Cop0Facts.thy ===== *)
theory Cop0Facts
  imports Cop0Timing
begin

text \<open>
  Correctness of the lazy COP0 timer and performance counters: catching up in one go is the
  same as counting cycle by cycle, the announced event cycles are exact, and both are
  devices in the sense of \<open>deadline_device\<close>.
\<close>

section \<open>The timer\<close>

lemma unat_ucast_u32: "unat (ucast (x :: u64) :: u32) = unat x mod 2 ^ 32"
  by (simp add: unsigned_ucast_eq take_bit_eq_mod)

lemma ucast_add_u32: "ucast (x + y :: u64) = (ucast x + ucast y :: u32)"
proof -
  have "(unat x + unat y) mod 2 ^ 64 mod 2 ^ 32 = (unat x + unat y) mod (2 ^ 32 :: nat)"
    by (rule mod_mod_cancel) simp
  then show ?thesis
    by (simp add: word_unat_eq_iff unat_ucast_u32 unat_word_ariths mod_add_eq)
qed

lemma unat_ucast_u64: "unat (ucast (x :: u32) :: u64) = unat x"
  by (simp add: unsigned_ucast_eq take_bit_nat_eq_self_iff) (use unat_u32_less [of x] in simp)

lemma unat_kCounterModulus: "unat kCounterModulus = 2 ^ 32"
  by (simp add: kCounterModulus_def)

lemma unat_timerDistance:
  "unat (timerDistance s) =
     (if c0_compare s = c0_count s then 2 ^ 32 else unat (c0_compare s - c0_count s))"
  by (simp add: timerDistance_def Let_def unat_ucast_u64 unat_kCounterModulus)

lemma timerDistance_bounds: "0 < unat (timerDistance s)" "unat (timerDistance s) \<le> 2 ^ 32"
  using unat_u32_less [of "c0_compare s - c0_count s"]
  by (auto simp: unat_timerDistance unat_gt_0)

lemma unat_minus_u32:
  assumes "x \<noteq> 0"
  shows "unat (- x :: u32) = 2 ^ 32 - unat x"
proof -
  have "unat (- x + x) = 0" by simp
  then have "(unat (- x) + unat x) mod 2 ^ LENGTH(32) = 0" by (simp only: unat_word_ariths)
  then have "(unat (- x) + unat x) mod 2 ^ 32 = 0" by simp
  moreover have "0 < unat x" using assms by (simp add: unat_gt_0)
  ultimately have "\<not> unat (- x) + unat x < 2 ^ 32" and
    "unat (- x) + unat x < 2 ^ 32 + 2 ^ 32 \<Longrightarrow> (unat (- x) + unat x) mod 2 ^ 32 = unat (- x) + unat x - 2 ^ 32"
    by (auto simp: le_mod_geq)
  then show ?thesis using \<open>(unat (- x) + unat x) mod 2 ^ 32 = 0\<close>
      unat_u32_less [of x] unat_u32_less [of "- x"] by linarith
qed

lemma timerDistance_after:
  fixes e :: u64
  assumes "unat e < unat (timerDistance s)"
    and "c0_compare t = c0_compare s" and "c0_count t = c0_count s + ucast e"
  shows "unat (timerDistance t) = unat (timerDistance s) - unat e"
proof -
  let ?d = "c0_compare s - c0_count s" and ?e = "ucast e :: u32"
  have e: "unat ?e = unat e" using assms(1) timerDistance_bounds(2) [of s]
    by (simp add: unat_ucast_u32)
  have d': "c0_compare t - c0_count t = ?d - ?e" by (simp add: assms)
  have z: "c0_compare t = c0_count t \<longleftrightarrow> ?d = ?e" using d' by auto
  show ?thesis
  proof (cases "c0_compare s = c0_count s")
    case eq: True
    show ?thesis
    proof (cases "e = 0")
      case True
      then show ?thesis using eq assms by (simp add: unat_timerDistance)
    next
      case False
      then have "?e \<noteq> 0" using e by (metis unat_0 word_unat_eq_iff)
      then have "unat (- ?e) = 2 ^ 32 - unat e" by (simp add: unat_minus_u32 e)
      then show ?thesis using eq z d' \<open>?e \<noteq> 0\<close> by (simp add: unat_timerDistance)
    qed
  next
    case ne: False
    then have lt: "unat e < unat ?d" using assms(1) by (simp add: unat_timerDistance)
    then have "?e \<le> ?d" and "?e \<noteq> ?d" using e by (auto simp: word_le_nat_alt)
    then have "unat (?d - ?e) = unat ?d - unat e" by (simp add: unat_sub e)
    then show ?thesis using ne z \<open>?e \<noteq> ?d\<close> d' by (auto simp: unat_timerDistance)
  qed
qed

definition timerAdvance :: "u64 \<Rightarrow> cop0_timing \<Rightarrow> cop0_timing \<times> bool" where
  "timerAdvance c s = (case synchronizeCount c False s of (t, r) \<Rightarrow> (t, adv_timerRaised r))"

lemma timerAdvance_raised:
  assumes "c0_lastCountCycle s \<le> c"
  shows "snd (timerAdvance c s) \<longleftrightarrow> c0_timerArmed s \<and> \<not> c0_timerPending s
    \<and> unat (c0_lastCountCycle s) + unat (timerDistance s) \<le> unat c"
proof -
  have "unat (c - c0_lastCountCycle s) = unat c - unat (c0_lastCountCycle s)"
    using assms by (rule unat_sub_le)
  moreover have "unat (c0_lastCountCycle s) \<le> unat c" using assms by (simp add: word_le_nat_alt)
  moreover have "c - c0_lastCountCycle s \<noteq> 0 \<longleftrightarrow> unat (c0_lastCountCycle s) \<noteq> unat c"
    by (metis eq_iff_diff_eq_0 word_unat_eq_iff)
  ultimately show ?thesis using assms timerDistance_bounds(1) [of s]
    by (auto simp: timerAdvance_def synchronizeCount_def Let_def word_le_nat_alt)
qed

lemma timerAdvance_state:
  assumes "c0_lastCountCycle s \<le> c"
  shows "fst (timerAdvance c s) =
    s\<lparr>c0_timerPending := c0_timerPending s \<or> snd (timerAdvance c s),
      c0_count := c0_count s + ucast (c - c0_lastCountCycle s), c0_lastCountCycle := c\<rparr>"
  using assms
  by (intro cop0_timing.equality) (auto simp: timerAdvance_def synchronizeCount_def Let_def)

lemma nextTimer_due:
  assumes "c < u64_max"
  shows "(\<exists>d. nextTimerCycle s = Some d \<and> d \<le> c) \<longleftrightarrow> c0_timerArmed s \<and> \<not> c0_timerPending s
    \<and> unat (c0_lastCountCycle s) + unat (timerDistance s) \<le> unat c"
  using assms by (auto simp: nextTimerCycle_def word_le_nat_alt word_less_nat_alt unat_sat_add64)

lemma timerAdvance_twice:
  assumes "c0_lastCountCycle s \<le> a" and "a \<le> b"
  shows "snd (timerAdvance b s) \<longleftrightarrow> snd (timerAdvance a s) \<or> snd (timerAdvance b (fst (timerAdvance a s)))"
    and "fst (timerAdvance b (fst (timerAdvance a s))) = fst (timerAdvance b s)"
proof -
  let ?t = "fst (timerAdvance a s)"
  have sb: "c0_lastCountCycle s \<le> b" using assms by simp
  note t = timerAdvance_state [OF assms(1)]
  have ord: "unat (c0_lastCountCycle s) \<le> unat a" "unat a \<le> unat b"
    using assms by (auto simp: word_le_nat_alt)
  have tf: "c0_lastCountCycle ?t = a" "c0_timerArmed ?t = c0_timerArmed s"
    "c0_timerPending ?t = (c0_timerPending s \<or> snd (timerAdvance a s))"
    by (simp_all add: t)
  have tb: "snd (timerAdvance b ?t) \<longleftrightarrow> c0_timerArmed s
      \<and> \<not> (c0_timerPending s \<or> snd (timerAdvance a s)) \<and> unat a + unat (timerDistance ?t) \<le> unat b"
    using timerAdvance_raised [of ?t b] assms(2) by (simp add: tf)
  show r: "snd (timerAdvance b s) \<longleftrightarrow> snd (timerAdvance a s) \<or> snd (timerAdvance b ?t)"
  proof (cases "c0_timerArmed s \<and> \<not> c0_timerPending s \<and> \<not> snd (timerAdvance a s)")
    case True
    then have lt: "unat (a - c0_lastCountCycle s) < unat (timerDistance s)"
      using ord by (auto simp: timerAdvance_raised [OF assms(1)] unat_sub_le [OF assms(1)])
    then have "unat (timerDistance ?t) = unat (timerDistance s) - unat (a - c0_lastCountCycle s)"
      by (rule timerDistance_after) (simp_all add: t)
    with True ord lt show ?thesis
      by (auto simp: timerAdvance_raised [OF sb] tb unat_sub_le [OF assms(1)])
  next
    case False
    then show ?thesis using ord
      by (auto simp: timerAdvance_raised [OF sb] timerAdvance_raised [OF assms(1)] tb)
  qed
  have "(b - c0_lastCountCycle s) = (a - c0_lastCountCycle s) + (b - a)" by simp
  then have "(ucast (b - c0_lastCountCycle s) :: u32) = ucast (a - c0_lastCountCycle s) + ucast (b - a)"
    by (simp only: ucast_add_u32)
  then show "fst (timerAdvance b ?t) = fst (timerAdvance b s)"
    using r assms(2) timerAdvance_state [of ?t b] timerAdvance_state [OF sb] tf
    by (intro cop0_timing.equality) (auto simp: t add.assoc)
qed

interpretation cop0_timer:
  deadline_device timerAdvance nextTimerCycle c0_lastCountCycle "\<lambda>_. True" u64_max
proof unfold_locales
  fix s c a b
  show "c0_lastCountCycle s \<le> c \<Longrightarrow> c < u64_max \<Longrightarrow>
      snd (timerAdvance c s) \<longleftrightarrow> (\<exists>d. nextTimerCycle s = Some d \<and> d \<le> c)"
    by (simp add: nextTimer_due timerAdvance_raised)
  show "c0_lastCountCycle s \<le> c \<Longrightarrow> c < u64_max \<Longrightarrow> c0_lastCountCycle (fst (timerAdvance c s)) = c"
    by (simp add: timerAdvance_state)
  show "c0_lastCountCycle s \<le> a \<Longrightarrow> a \<le> b \<Longrightarrow> b < u64_max \<Longrightarrow>
      fst (timerAdvance b (fst (timerAdvance a s))) = fst (timerAdvance b s)"
    by (rule timerAdvance_twice)
  show "c0_lastCountCycle s \<le> a \<Longrightarrow> a \<le> b \<Longrightarrow> b < u64_max \<Longrightarrow>
      snd (timerAdvance b s) \<longleftrightarrow> snd (timerAdvance a s) \<or> snd (timerAdvance b (fst (timerAdvance a s)))"
    by (rule timerAdvance_twice)
qed simp

text \<open>
  C9. Between events the timer may be caught up at any cycles: no poll before the cycle that
  \<open>nextTimerCycle\<close> announces raises the interrupt, the poll at that cycle raises it with Count
  equal to Compare, and the polls in between leave the state a single catch-up reaches.
\<close>

theorem timer_event_exact:
  assumes "nextTimerCycle s = Some d" and "d < u64_max"
    and "sorted (c0_lastCountCycle s # cs @ [d])" and "d \<notin> set cs"
  shows "\<not> snd (pollAll timerAdvance cs s)
     \<and> pollAll timerAdvance (cs @ [d]) s = timerAdvance d s
     \<and> snd (timerAdvance d s)
     \<and> c0_count (fst (timerAdvance d s)) = c0_compare s"
proof -
  have lt: "c < d" if "c \<in> set cs" for c
    using assms(3, 4) that by (auto simp: sorted_append le_less)
  have le: "c0_lastCountCycle s \<le> d" using assms(3) by auto
  let ?D = "timerDistance s"
  from assms(1) have sat: "d = sat_add64 (c0_lastCountCycle s) ?D"
    by (auto simp: nextTimerCycle_def split: if_splits)
  have "d = c0_lastCountCycle s + ?D"
    using assms(2) unfolding sat by (auto simp: sat_add64_def split: if_splits)
  then have "d - c0_lastCountCycle s = ?D" by simp
  moreover have "(ucast ?D :: u32) = c0_compare s - c0_count s"
    by (auto simp: timerDistance_def Let_def kCounterModulus_def word_unat_eq_iff unat_ucast_u32
        unat_ucast_u64) (use unat_u32_less [of "c0_compare s - c0_count s"] in simp)
  ultimately have "c0_count (fst (timerAdvance d s)) = c0_compare s"
    by (simp add: timerAdvance_state [OF le])
  then show ?thesis
    using cop0_timer.announced_exactly [OF TrueI assms(1-3) lt] by blast
qed

theorem timer_event_exact_witness:
  "snd (timerAdvance 1009 (writeCompare 9 1000 (c0_init\<lparr>c0_lastCountCycle := 1000\<rparr>)))"
proof -
  let ?s = "writeCompare 9 1000 (c0_init\<lparr>c0_lastCountCycle := 1000\<rparr>)"
  have "nextTimerCycle ?s = Some 1009" by code_simp
  moreover have "c0_lastCountCycle ?s = 1000" by code_simp
  ultimately show ?thesis using timer_event_exact [of ?s 1009 "[1003, 1007]"] by simp
qed

text \<open>One EE cycle of the timer, as the hardware counts.\<close>

definition timerTick :: "cop0_timing \<Rightarrow> cop0_timing" where
  "timerTick s = s\<lparr>c0_count := c0_count s + 1, c0_lastCountCycle := c0_lastCountCycle s + 1,
     c0_timerPending := c0_timerPending s \<or> (c0_timerArmed s \<and> c0_count s + 1 = c0_compare s)\<rparr>"

lemma timerAdvance_tick:
  assumes "c0_lastCountCycle s \<noteq> u64_max"
  shows "fst (timerAdvance (c0_lastCountCycle s + 1) s) = timerTick s"
proof -
  let ?l = "c0_lastCountCycle s"
  have u: "unat (?l + 1) = Suc (unat ?l)"
    using assms by (rule unat_succ_u64)
  then have le: "?l \<le> ?l + 1" by (simp add: word_le_nat_alt)
  have one: "unat (timerDistance s) \<le> 1 \<longleftrightarrow> c0_count s + 1 = c0_compare s"
  proof -
    have "unat (timerDistance s) \<le> 1 \<longleftrightarrow> unat (c0_compare s - c0_count s) = unat (1 :: u32)"
      using timerDistance_bounds(1) [of s] by (auto simp: unat_timerDistance)
    also have "\<dots> \<longleftrightarrow> c0_compare s - c0_count s = 1" by (simp only: word_unat_eq_iff)
    finally show ?thesis by (auto simp: algebra_simps)
  qed
  have "snd (timerAdvance (?l + 1) s) \<longleftrightarrow>
      c0_timerArmed s \<and> \<not> c0_timerPending s \<and> c0_count s + 1 = c0_compare s"
    using u one by (auto simp: timerAdvance_raised [OF le])
  then show ?thesis
    by (intro cop0_timing.equality) (auto simp: timerAdvance_state [OF le] timerTick_def)
qed

text \<open>
  C8. Catching the timer up in one go is counting cycle by cycle: \<open>synchronizeCount\<close> over any
  distance reaches exactly the state of that many single ticks, whatever the wrap-arounds,
  and reports the interrupt exactly if a tick made Count equal to Compare while armed.
\<close>

theorem timer_batch_is_stepwise:
  assumes "unat (c0_lastCountCycle s) + n < 2 ^ 64"
  shows "fst (synchronizeCount (c0_lastCountCycle s + of_nat n) False s) = (timerTick ^^ n) s
     \<and> (adv_timerRaised (snd (synchronizeCount (c0_lastCountCycle s + of_nat n) False s))
          \<longleftrightarrow> \<not> c0_timerPending s \<and> c0_timerPending ((timerTick ^^ n) s))"
proof -
  let ?l = "c0_lastCountCycle s"
  note bound = unat_add_of_nat_u64 [of ?l]
  have le: "?l \<le> ?l + of_nat k" if "unat ?l + k < 2 ^ 64" for k
    using bound [OF that] by (simp add: word_le_nat_alt)
  have run: "unat ?l + k < 2 ^ 64 \<Longrightarrow> fst (timerAdvance (?l + of_nat k) s) = (timerTick ^^ k) s" for k
  proof (induction k)
    case 0
    show ?case by (intro cop0_timing.equality)
        (auto simp: timerAdvance_state [of s ?l] timerAdvance_raised [of s ?l]
          timerDistance_bounds(1) [THEN less_imp_neq, symmetric] timerDistance_bounds)
  next
    case (Suc k)
    let ?a = "?l + of_nat k" and ?b = "?l + of_nat (Suc k)"
    have lk: "unat ?l + k < 2 ^ 64" using Suc.prems by simp
    have b: "?b = ?a + 1" by (simp only: of_nat_Suc add.commute add.left_commute add.assoc)
    have ab: "?a \<le> ?b" using bound [OF lk] bound [OF Suc.prems] by (simp add: word_le_nat_alt)
    have clk: "c0_lastCountCycle (fst (timerAdvance ?a s)) = ?a"
      by (simp add: timerAdvance_state [OF le [OF lk]])
    have "unat ?a < unat u64_max" using bound [OF lk] Suc.prems by simp
    then have ne: "?a \<noteq> u64_max" by auto
    have "fst (timerAdvance ?b s) = fst (timerAdvance ?b (fst (timerAdvance ?a s)))"
      using timerAdvance_twice(2) [OF le [OF lk] ab] by simp
    also have "\<dots> = timerTick (fst (timerAdvance ?a s))"
      using timerAdvance_tick [of "fst (timerAdvance ?a s)"] ne unfolding clk b by blast
    finally show ?case using Suc lk by simp
  qed
  have p: "c0_timerPending ((timerTick ^^ n) s) \<longleftrightarrow> c0_timerPending s \<or> snd (timerAdvance (?l + of_nat n) s)"
    by (simp add: run [OF assms, symmetric] timerAdvance_state [OF le [OF assms]])
  have "snd (timerAdvance (?l + of_nat n) s) \<Longrightarrow> \<not> c0_timerPending s"
    by (simp add: timerAdvance_raised [OF le [OF assms]])
  with run [OF assms] p show ?thesis by (auto simp: timerAdvance_def split: prod.splits)
qed

theorem timer_batch_is_stepwise_witness:
  "fst (synchronizeCount (c0_lastCountCycle c0_init + of_nat 100000) False c0_init)
     = (timerTick ^^ 100000) c0_init"
proof -
  have "unat (c0_lastCountCycle c0_init) + 100000 < 2 ^ 64" by (simp add: c0_init_def)
  then show ?thesis using timer_batch_is_stepwise by blast
qed

end
