(* ===== verification/Cop0Perf.thy ===== *)
theory Cop0Perf
  imports Cop0Facts
begin

unbundle bit_operations_syntax

text \<open>
  The two performance counters as a \<open>deadline_device\<close>: bit 31 of a counter is a sticky
  overflow flag over a 31-bit count. Increments add up exactly, the announced overflow
  cycle is exact, and no counter is fed by both the cycle clock and event reports.
\<close>

section \<open>A counter as a 31-bit count and a flag\<close>

definition lowOf :: "u32 \<Rightarrow> nat" where "lowOf p = unat p mod 2 ^ 31"
definition ovfOf :: "u32 \<Rightarrow> bool" where "ovfOf p = (2 ^ 31 \<le> unat p)"

lemma counter_cases: "unat p = lowOf p + (if ovfOf p then 2 ^ 31 else 0)"
  using unat_u32_less [of p] by (auto simp: lowOf_def ovfOf_def le_mod_geq)

lemma counter_eqI: "lowOf p = lowOf q \<Longrightarrow> ovfOf p = ovfOf q \<Longrightarrow> p = q"
  using counter_cases [of p] counter_cases [of q] by (simp add: word_unat_eq_iff)

lemma lowOf_less: "lowOf p < 2 ^ 31"
  by (simp add: lowOf_def)

lemma bit_kPcrOverflow: "bit kPcrOverflow n \<longleftrightarrow> n = 31"
  unfolding kPcrOverflow_def push_bit_of_1 by (auto simp only: bit_exp_iff) simp_all

lemma overflow_flag: "p AND kPcrOverflow \<noteq> 0 \<longleftrightarrow> ovfOf p"
proof -
  have "p AND kPcrOverflow \<noteq> 0 \<longleftrightarrow> bit p 31"
    by (simp add: kPcrOverflow_def bit_iff_and_push_bit_not_eq_0)
  also have "\<dots> \<longleftrightarrow> odd (unat p div 2 ^ 31)"
  proof -
    have "bit p 31 \<longleftrightarrow> bit (unat p) 31" by (simp add: bit_unsigned_iff)
    then show ?thesis by (simp only: bit_iff_odd)
  qed
  also have "\<dots> \<longleftrightarrow> ovfOf p"
    using unat_u32_less [of p] by (cases "ovfOf p") (auto simp: ovfOf_def div_if)
  finally show ?thesis .
qed

lemma unat_low: "unat (p AND NOT kPcrOverflow) = lowOf p"
proof -
  have "p AND NOT kPcrOverflow = take_bit 31 p"
    by (rule bit_eqI) (auto simp: bit_kPcrOverflow bit_simps)
  then show ?thesis by (simp add: lowOf_def unsigned_take_bit_eq take_bit_eq_mod unat_mod_distrib)
qed

lemma unat_kPerformanceCounterModulus: "unat kPerformanceCounterModulus = 2 ^ 31"
  by (simp add: kPerformanceCounterModulus_def)

text \<open>What one increment stores.\<close>

definition bumped :: "u32 \<Rightarrow> u64 \<Rightarrow> u32" where
  "bumped p n =
     (let v = ucast (p AND NOT kPcrOverflow) + n
      in ucast (v mod kPerformanceCounterModulus)
         OR (if p AND kPcrOverflow \<noteq> 0 \<or> v \<ge> kPerformanceCounterModulus then kPcrOverflow else 0))"

lemma or_overflow:
  assumes "unat (q :: u32) < 2 ^ 31"
  shows "lowOf (q OR kPcrOverflow) = unat q" and "ovfOf (q OR kPcrOverflow)"
proof -
  have nb: "\<not> bit q 31" using overflow_flag [of q] assms
    by (simp add: kPcrOverflow_def bit_iff_and_push_bit_not_eq_0 ovfOf_def)
  show "ovfOf (q OR kPcrOverflow)"
    unfolding overflow_flag [symmetric]
    by (simp add: kPcrOverflow_def bit_iff_and_push_bit_not_eq_0 [symmetric])
  have "(q OR kPcrOverflow) AND NOT kPcrOverflow = q"
    by (rule bit_eqI) (use nb in \<open>auto simp: bit_kPcrOverflow bit_simps\<close>)
  then show "lowOf (q OR kPcrOverflow) = unat q" by (metis unat_low)
qed

lemma bumped_parts:
  assumes "lowOf p + unat n < 2 ^ 64"
  shows "lowOf (bumped p n) = (lowOf p + unat n) mod 2 ^ 31"
    and "ovfOf (bumped p n) \<longleftrightarrow> ovfOf p \<or> 2 ^ 31 \<le> lowOf p + unat n"
proof -
  let ?v = "ucast (p AND NOT kPcrOverflow) + n :: u64"
  have v: "unat ?v = lowOf p + unat n"
    using assms by (subst unat_add_no_overflow) (simp_all add: unat_ucast_u64 unat_low)
  let ?q = "ucast (?v mod kPerformanceCounterModulus) :: u32"
  have q: "unat ?q = (lowOf p + unat n) mod 2 ^ 31"
    by (simp add: unat_ucast_u32 unat_mod_distrib unat_kPerformanceCounterModulus v)
  then have small: "unat ?q < 2 ^ 31" by simp
  have ge: "?v \<ge> kPerformanceCounterModulus \<longleftrightarrow> 2 ^ 31 \<le> lowOf p + unat n"
    by (simp add: word_le_nat_alt unat_kPerformanceCounterModulus v)
  have b: "bumped p n = (if ovfOf p \<or> 2 ^ 31 \<le> lowOf p + unat n then ?q OR kPcrOverflow else ?q)"
    unfolding bumped_def Let_def overflow_flag ge by simp
  show "lowOf (bumped p n) = (lowOf p + unat n) mod 2 ^ 31"
    using or_overflow(1) [OF small] q unfolding b by (simp add: lowOf_def [of ?q])
  show "ovfOf (bumped p n) \<longleftrightarrow> ovfOf p \<or> 2 ^ 31 \<le> lowOf p + unat n"
    using or_overflow(2) [OF small] small unfolding b by (simp add: ovfOf_def [of ?q])
qed

lemma bumped_0 [simp]: "bumped p 0 = p"
  using lowOf_less [of p] by (intro counter_eqI) (simp_all add: bumped_parts)

lemma bumped_twice:
  assumes "lowOf p + unat m + unat n < 2 ^ 64"
  shows "bumped (bumped p m) n = bumped p (m + n)"
proof -
  have mn: "unat (m + n) = unat m + unat n" using assms by (intro unat_add_no_overflow) simp
  have m: "lowOf p + unat m < 2 ^ 64" and mn': "lowOf p + unat (m + n) < 2 ^ 64"
    using assms by (simp_all add: mn)
  have lowm: "lowOf (bumped p m) = (lowOf p + unat m) mod 2 ^ 31" by (rule bumped_parts [OF m])
  then have le: "lowOf (bumped p m) \<le> lowOf p + unat m" by simp
  then have n: "lowOf (bumped p m) + unat n < 2 ^ 64" using assms by linarith
  show ?thesis
  proof (rule counter_eqI)
    show "lowOf (bumped (bumped p m) n) = lowOf (bumped p (m + n))"
      unfolding bumped_parts [OF n] bumped_parts [OF mn'] lowm mn by (simp add: mod_add_left_eq add.assoc)
    show "ovfOf (bumped (bumped p m) n) = ovfOf (bumped p (m + n))"
      unfolding bumped_parts [OF n] bumped_parts [OF mn'] bumped_parts [OF m] lowm mn
      by (cases "2 ^ 31 \<le> lowOf p + unat m") auto
  qed
qed

section \<open>Catching up both counters\<close>

definition c0_shaped :: "cop0_timing \<Rightarrow> bool" where
  "c0_shaped s = (length (c0_pcr s) = 2 \<and> length (c0_lastPerformanceCycle s) = 2)"

definition clocked :: "u32 \<Rightarrow> cop0_timing \<Rightarrow> nat \<Rightarrow> bool" where
  "clocked status s counter =
     (status AND kStatusErl = 0 \<and> c0_pccr s AND kPccrCounterEnable \<noteq> 0
      \<and> performanceCounterEnabled (c0_pccr s) counter status
      \<and> performanceEvent (c0_pccr s) counter = 1)"

definition caughtUp :: "u32 \<Rightarrow> u64 \<Rightarrow> cop0_timing \<Rightarrow> nat \<Rightarrow> u32" where
  "caughtUp status c s counter =
     (if clocked status s counter
      then bumped (c0_pcr s ! counter) (c - c0_lastPerformanceCycle s ! counter)
      else c0_pcr s ! counter)"

lemma incrementPerformanceCounter_bumped:
  "counter < length (c0_pcr s) \<Longrightarrow> n \<noteq> 0 \<Longrightarrow>
     fst (incrementPerformanceCounter counter n s)
       = s\<lparr>c0_pcr := (c0_pcr s)[counter := bumped (c0_pcr s ! counter) n]\<rparr>"
  by (simp add: incrementPerformanceCounter_def bumped_def Let_def)

lemma two_list: "length xs = 2 \<Longrightarrow> xs = [xs ! 0, xs ! 1]"
  by (cases xs; cases "tl xs") auto

lemma syncStep_state:
  assumes "counter < length (c0_pcr s)" and "c0_lastPerformanceCycle s ! counter \<le> c"
  shows "fst (synchronizePerformanceStep c status False counter (s, r)) =
     s\<lparr>c0_pcr := (c0_pcr s)[counter := caughtUp status c s counter],
       c0_lastPerformanceCycle := (c0_lastPerformanceCycle s)[counter := c]\<rparr>"
proof (cases "clocked status s counter \<and> c \<noteq> c0_lastPerformanceCycle s ! counter")
  case True
  then have "c - c0_lastPerformanceCycle s ! counter \<noteq> 0" by simp
  with True assms show ?thesis
    using incrementPerformanceCounter_bumped [OF assms(1), of "c - c0_lastPerformanceCycle s ! counter"]
    by (auto simp: synchronizePerformanceStep_def caughtUp_def clocked_def Let_def split: prod.splits)
next
  case False
  then have "caughtUp status c s counter = c0_pcr s ! counter"
    by (auto simp: caughtUp_def)
  with False assms show ?thesis
    by (auto simp: synchronizePerformanceStep_def clocked_def Let_def intro!: cop0_timing.equality)
qed

definition perfClock :: "cop0_timing \<Rightarrow> u64" where
  "perfClock s = max (c0_lastPerformanceCycle s ! 0) (c0_lastPerformanceCycle s ! 1)"

lemma upt_0_2: "[0..<2] = [0, 1 :: nat]"
  by (simp add: upt_rec)

lemma sync_state:
  assumes "c0_shaped s" and "perfClock s \<le> c"
  shows "fst (synchronizePerformance c status False s) =
     s\<lparr>c0_pcr := [caughtUp status c s 0, caughtUp status c s 1], c0_lastPerformanceCycle := [c, c]\<rparr>"
proof -
  obtain p0 p1 where p: "c0_pcr s = [p0, p1]"
    using assms(1) two_list [of "c0_pcr s"] unfolding c0_shaped_def by metis
  obtain l0 l1 where l: "c0_lastPerformanceCycle s = [l0, l1]"
    using assms(1) two_list [of "c0_lastPerformanceCycle s"] unfolding c0_shaped_def by metis
  let ?x = "synchronizePerformanceStep c status False 0 (s, noAdvance)"
  have x: "fst ?x = s\<lparr>c0_pcr := [caughtUp status c s 0, p1], c0_lastPerformanceCycle := [c, l1]\<rparr>"
    using syncStep_state [of 0 s c status noAdvance] assms(2) by (simp add: p l perfClock_def)
  obtain y r where y: "?x = (y, r)" by (cases ?x) auto
  have "fst (synchronizePerformanceStep c status False 1 (y, r)) =
      y\<lparr>c0_pcr := (c0_pcr y)[1 := caughtUp status c y 1],
        c0_lastPerformanceCycle := (c0_lastPerformanceCycle y)[1 := c]\<rparr>"
    by (rule syncStep_state) (use x y assms(2) in \<open>auto simp: l perfClock_def\<close>)
  moreover have "caughtUp status c y 1 = caughtUp status c s 1"
    using x y by (auto simp: caughtUp_def clocked_def p l)
  ultimately show ?thesis
    using x y by (simp add: synchronizePerformance_def p upt_0_2)
qed

section \<open>The announced cycle\<close>

definition perfHorizon :: u64 where
  "perfHorizon = 0xffffffff80000000"

lemma unat_perfHorizon: "unat perfHorizon = 2 ^ 64 - 2 ^ 31"
  by (simp add: perfHorizon_def)

definition perfAdvance :: "u32 \<Rightarrow> u64 \<Rightarrow> cop0_timing \<Rightarrow> cop0_timing \<times> bool" where
  "perfAdvance status c s =
     (let t = fst (synchronizePerformance c status False s)
      in (t, performanceExceptionPending status t))"

definition perfOn :: "u32 \<Rightarrow> cop0_timing \<Rightarrow> bool" where
  "perfOn status s = (status AND kStatusErl = 0 \<and> c0_pccr s AND kPccrCounterEnable \<noteq> 0)"

lemma pending_iff:
  "performanceExceptionPending status s \<longleftrightarrow>
     perfOn status s \<and> (ovfOf (c0_pcr s ! 0) \<or> ovfOf (c0_pcr s ! 1))"
proof -
  have "(p OR q) AND kPcrOverflow \<noteq> 0 \<longleftrightarrow> ovfOf p \<or> ovfOf q" for p q :: u32
    unfolding overflow_flag [symmetric] kPcrOverflow_def
    by (simp only: bit_iff_and_push_bit_not_eq_0 [symmetric] bit_or_iff)
  then show ?thesis by (auto simp: performanceExceptionPending_def perfOn_def)
qed

text \<open>The first cycle at which a counter fed by the clock overflows.\<close>

definition overflowsBy :: "u32 \<Rightarrow> u64 \<Rightarrow> cop0_timing \<Rightarrow> nat \<Rightarrow> bool" where
  "overflowsBy status c s i = (clocked status s i
     \<and> unat (c0_lastPerformanceCycle s ! i) + 2 ^ 31 \<le> unat c + lowOf (c0_pcr s ! i))"

lemma caughtUp_bound:
  assumes "c < perfHorizon" and "l \<le> c"
  shows "lowOf p + unat (c - l) < 2 ^ 64"
  using assms lowOf_less [of p]
  by (simp add: word_less_nat_alt unat_perfHorizon unat_sub_le)

lemma caughtUp_ovf:
  assumes "c < perfHorizon" and "c0_lastPerformanceCycle s ! i \<le> c"
  shows "ovfOf (caughtUp status c s i) \<longleftrightarrow> ovfOf (c0_pcr s ! i) \<or> overflowsBy status c s i"
proof (cases "clocked status s i")
  case True
  let ?l = "c0_lastPerformanceCycle s ! i" and ?p = "c0_pcr s ! i"
  have "unat (c - ?l) = unat c - unat ?l" and "unat ?l \<le> unat c"
    using assms(2) by (simp_all add: unat_sub_le word_le_nat_alt)
  then have "2 ^ 31 \<le> lowOf ?p + unat (c - ?l) \<longleftrightarrow> unat ?l + 2 ^ 31 \<le> unat c + lowOf ?p"
    by linarith
  then show ?thesis
    using True bumped_parts(2) [OF caughtUp_bound [OF assms]]
    by (simp only: caughtUp_def overflowsBy_def if_True simp_thms)
qed (simp add: caughtUp_def overflowsBy_def)

lemma perfClock_le:
  "perfClock s \<le> c \<Longrightarrow> c0_lastPerformanceCycle s ! 0 \<le> c"
  "perfClock s \<le> c \<Longrightarrow> c0_lastPerformanceCycle s ! 1 \<le> c"
  by (auto simp: perfClock_def)

lemma perf_raised:
  assumes "c0_shaped s" and "perfClock s \<le> c" and "c < perfHorizon"
  shows "snd (perfAdvance status c s) \<longleftrightarrow> perfOn status s
    \<and> (ovfOf (c0_pcr s ! 0) \<or> ovfOf (c0_pcr s ! 1)
       \<or> overflowsBy status c s 0 \<or> overflowsBy status c s 1)"
  using caughtUp_ovf [OF assms(3) perfClock_le(1) [OF assms(2)]]
    caughtUp_ovf [OF assms(3) perfClock_le(2) [OF assms(2)]]
  by (auto simp: perfAdvance_def sync_state [OF assms(1, 2)] pending_iff perfOn_def Let_def)

definition counterDeadline :: "cop0_timing \<Rightarrow> nat \<Rightarrow> u64" where
  "counterDeadline s i = sat_add64 (c0_lastPerformanceCycle s ! i)
     (kPerformanceCounterModulus - ucast (c0_pcr s ! i AND NOT kPcrOverflow))"

lemma unat_counterDeadline:
  "unat (counterDeadline s i) =
     min (unat (c0_lastPerformanceCycle s ! i) + (2 ^ 31 - lowOf (c0_pcr s ! i))) (2 ^ 64 - 1)"
proof -
  have "ucast (c0_pcr s ! i AND NOT kPcrOverflow) \<le> kPerformanceCounterModulus"
    using lowOf_less [of "c0_pcr s ! i"]
    by (simp add: word_le_nat_alt unat_ucast_u64 unat_low unat_kPerformanceCounterModulus)
  then show ?thesis
    by (simp add: counterDeadline_def unat_sat_add64 unat_sub_le unat_ucast_u64 unat_low
        unat_kPerformanceCounterModulus)
qed

lemma counterDeadline_due:
  assumes "c < perfHorizon" and "clocked status s i"
  shows "counterDeadline s i \<le> c \<longleftrightarrow> overflowsBy status c s i"
  using assms lowOf_less [of "c0_pcr s ! i"]
  by (auto simp: word_le_nat_alt word_less_nat_alt unat_counterDeadline unat_perfHorizon overflowsBy_def)

lemma nextPerformanceStep_clocked:
  assumes "perfOn status s"
  shows "nextPerformanceStep status s i result =
    (if clocked status s i
     then Some (case result of None \<Rightarrow> counterDeadline s i | Some b \<Rightarrow> min b (counterDeadline s i))
     else result)"
  using assms
  by (auto simp: nextPerformanceStep_def clocked_def perfOn_def counterDeadline_def Let_def min_def
      split: option.split)

lemma nextPerformance_due:
  assumes "c0_shaped s" and "perfClock s \<le> c" and "c < perfHorizon"
  shows "(\<exists>d. nextPerformanceEventCycle (perfClock s) status s = Some d \<and> d \<le> c) \<longleftrightarrow>
    perfOn status s \<and> (ovfOf (c0_pcr s ! 0) \<or> ovfOf (c0_pcr s ! 1)
       \<or> overflowsBy status c s 0 \<or> overflowsBy status c s 1)"
proof (cases "perfOn status s \<and> \<not> (ovfOf (c0_pcr s ! 0) \<or> ovfOf (c0_pcr s ! 1))")
  case False
  then show ?thesis using assms(2)
    unfolding nextPerformanceEventCycle_def overflow_flag by (auto simp: perfOn_def)
next
  case True
  then have on: "perfOn status s" by simp
  have len: "length (c0_pcr s) = 2" using assms(1) by (simp add: c0_shaped_def)
  have "nextPerformanceEventCycle (perfClock s) status s =
      nextPerformanceStep status s 1 (nextPerformanceStep status s 0 None)"
    using True unfolding nextPerformanceEventCycle_def overflow_flag
    by (simp add: perfOn_def len upt_0_2)
  then show ?thesis
    using True counterDeadline_due [OF assms(3), of status s]
    by (auto simp: nextPerformanceStep_clocked [OF on] overflowsBy_def min_le_iff_disj)
qed

lemma perfClock_after:
  "c0_shaped s \<Longrightarrow> perfClock s \<le> c \<Longrightarrow> perfClock (fst (perfAdvance status c s)) = c"
  "c0_shaped s \<Longrightarrow> perfClock s \<le> c \<Longrightarrow> c0_shaped (fst (perfAdvance status c s))"
  by (simp_all add: perfAdvance_def sync_state Let_def perfClock_def c0_shaped_def)

lemma caughtUp_twice:
  assumes "c0_shaped s" and "perfClock s \<le> a" and "a \<le> b" and "b < perfHorizon" and "i = 0 \<or> i = 1"
  shows "caughtUp status b (fst (perfAdvance status a s)) i = caughtUp status b s i"
proof -
  let ?l = "c0_lastPerformanceCycle s ! i" and ?p = "c0_pcr s ! i"
  have l: "?l \<le> a" using assms(2, 5) perfClock_le by auto
  then have "unat ?l \<le> unat a" "unat a \<le> unat b" using assms(3) by (auto simp: word_le_nat_alt)
  then have "lowOf ?p + unat (a - ?l) + unat (b - a) < 2 ^ 64"
    using lowOf_less [of ?p] assms(4)
    by (simp add: unat_sub_le l assms(3) word_less_nat_alt unat_perfHorizon)
  from bumped_twice [OF this] have "bumped (bumped ?p (a - ?l)) (b - a) = bumped ?p (b - ?l)"
    by simp
  then show ?thesis using assms(5)
    by (auto simp: caughtUp_def clocked_def perfAdvance_def sync_state [OF assms(1, 2)] Let_def)
qed

lemma perfAdvance_twice:
  assumes "c0_shaped s" and "perfClock s \<le> a" and "a \<le> b" and "b < perfHorizon"
  shows "fst (perfAdvance status b (fst (perfAdvance status a s))) = fst (perfAdvance status b s)"
proof -
  let ?t = "fst (perfAdvance status a s)"
  have "perfClock ?t \<le> b" "c0_shaped ?t" "perfClock s \<le> b"
    using perfClock_after [OF assms(1, 2)] assms(2, 3) by auto
  then show ?thesis
    using caughtUp_twice [OF assms, of 0] caughtUp_twice [OF assms, of 1] assms(1, 2)
    by (simp add: perfAdvance_def Let_def sync_state)
qed

interpretation cop0_perf: deadline_device "perfAdvance status"
  "\<lambda>s. nextPerformanceEventCycle (perfClock s) status s" perfClock c0_shaped perfHorizon
  for status
proof unfold_locales
  fix s c a b
  assume ok: "c0_shaped s"
  show "perfClock s \<le> c \<Longrightarrow> c < perfHorizon \<Longrightarrow> snd (perfAdvance status c s) \<longleftrightarrow>
      (\<exists>d. nextPerformanceEventCycle (perfClock s) status s = Some d \<and> d \<le> c)"
    by (simp add: nextPerformance_due perf_raised ok)
  show "perfClock s \<le> c \<Longrightarrow> c < perfHorizon \<Longrightarrow> perfClock (fst (perfAdvance status c s)) = c"
    "perfClock s \<le> c \<Longrightarrow> c < perfHorizon \<Longrightarrow> c0_shaped (fst (perfAdvance status c s))"
    by (simp_all add: perfClock_after ok)
  assume ab: "perfClock s \<le> a" "a \<le> b" "b < perfHorizon"
  note twice = perfAdvance_twice [OF ok ab]
  show "fst (perfAdvance status b (fst (perfAdvance status a s))) = fst (perfAdvance status b s)"
    by (rule twice)
  have le: "perfClock s \<le> b" "a < perfHorizon" using ab by auto
  have "overflowsBy status a s i \<Longrightarrow> overflowsBy status b s i" for i
    using ab(2) by (auto simp: overflowsBy_def word_le_nat_alt)
  then have "snd (perfAdvance status a s) \<Longrightarrow> snd (perfAdvance status b s)"
    by (auto simp: perf_raised [OF ok ab(1) le(2)] perf_raised [OF ok le(1) ab(3)])
  moreover have "snd (perfAdvance status b (fst (perfAdvance status a s))) = snd (perfAdvance status b s)"
    using twice unfolding perfAdvance_def Let_def by simp
  ultimately show "snd (perfAdvance status b s) \<longleftrightarrow>
      snd (perfAdvance status a s) \<or> snd (perfAdvance status b (fst (perfAdvance status a s)))"
    by blast
qed

text \<open>
  C30. The performance counters raise their exception at exactly the cycle announced by
  \<open>nextPerformanceEventCycle\<close>: none of the catch-ups before it leaves an exception pending,
  the one at it does, and the intermediate ones do not change the outcome.
\<close>

theorem performance_event_exact:
  assumes "c0_shaped s" and "nextPerformanceEventCycle (perfClock s) status s = Some d"
    and "d < perfHorizon" and "sorted (perfClock s # cs @ [d])" and "d \<notin> set cs"
  shows "\<not> snd (pollAll (perfAdvance status) cs s)
     \<and> pollAll (perfAdvance status) (cs @ [d]) s = perfAdvance status d s
     \<and> performanceExceptionPending status (fst (synchronizePerformance d status False s))"
proof -
  have lt: "c < d" if "c \<in> set cs" for c
    using assms(4, 5) that by (auto simp: sorted_append le_less)
  show ?thesis
    using cop0_perf.announced_exactly [OF assms(1-4) lt] by (simp add: perfAdvance_def Let_def)
qed

theorem performance_event_exact_witness:
  "performanceExceptionPending 0x10 (fst (synchronizePerformance 48 0x10 False
     (cop0_reset 32 0 0 0x80000030 0x7ffffff0 0 c0_init)))"
proof -
  let ?s = "cop0_reset 32 0 0 0x80000030 0x7ffffff0 0 c0_init"
  have "c0_shaped ?s" by code_simp
  moreover have "nextPerformanceEventCycle (perfClock ?s) 0x10 ?s = Some 48" by code_simp
  moreover have "perfClock ?s = 32" by code_simp
  moreover have "48 < perfHorizon" by code_simp
  ultimately show ?thesis using performance_event_exact [of ?s "0x10" 48 "[40]"] by simp
qed

section \<open>Every count is counted once\<close>

lemma increment_other:
  "i \<noteq> counter \<Longrightarrow> c0_pcr (fst (incrementPerformanceCounter counter n s)) ! i = c0_pcr s ! i"
  "c0_pccr (fst (incrementPerformanceCounter counter n s)) = c0_pccr s"
  "length (c0_pcr (fst (incrementPerformanceCounter counter n s))) = length (c0_pcr s)"
  by (simp_all add: incrementPerformanceCounter_def Let_def)

lemma recordStep_other:
  assumes "i \<noteq> counter \<or> performanceEvent (c0_pccr s) i = 1"
  shows "c0_pcr (fst (recordPerformanceStep status events counter (s, r))) ! i = c0_pcr s ! i
     \<and> c0_pccr (fst (recordPerformanceStep status events counter (s, r))) = c0_pccr s"
proof -
  let ?n = "performanceEventOccurrences counter (performanceEvent (c0_pccr s) counter) events"
  have step: "fst (recordPerformanceStep status events counter (s, r)) =
      (if performanceCounterEnabled (c0_pccr s) counter status \<and> ?n \<noteq> 0
       then fst (incrementPerformanceCounter counter (ucast ?n) s) else s)"
    by (simp add: recordPerformanceStep_def Let_def split_beta)
  have "?n \<noteq> 0 \<Longrightarrow> i \<noteq> counter"
    using assms by (auto simp: performanceEventOccurrences_def)
  then show ?thesis unfolding step by (simp add: increment_other)
qed

text \<open>
  No count is taken twice: a counter fed by the cycle clock (event 1) is never changed
  by \<open>recordPerformanceEvents\<close>, and a counter selecting any other event is never changed by
  \<open>synchronizePerformance\<close>; with ERL set or counting disabled neither changes any counter.
\<close>

theorem performance_sources_disjoint:
  assumes "c0_shaped s" and "perfClock s \<le> c" and "i < 2"
  shows "(performanceEvent (c0_pccr s) i = 1 \<longrightarrow>
            c0_pcr (fst (recordPerformanceEvents status events s)) ! i = c0_pcr s ! i)
     \<and> (performanceEvent (c0_pccr s) i \<noteq> 1 \<longrightarrow>
            c0_pcr (fst (synchronizePerformance c status False s)) ! i = c0_pcr s ! i)
     \<and> (\<not> perfOn status s \<longrightarrow>
            c0_pcr (fst (recordPerformanceEvents status events s)) = c0_pcr s
          \<and> c0_pcr (fst (synchronizePerformance c status False s)) = c0_pcr s)"
proof (intro conjI impI)
  assume e: "performanceEvent (c0_pccr s) i = 1"
  obtain s1 r1 where s1: "recordPerformanceStep status events 0 (s, noAdvance) = (s1, r1)"
    by (metis surj_pair)
  have len: "length (c0_pcr s) = 2" using assms(1) by (simp add: c0_shaped_def)
  from recordStep_other [of i 0 s status events noAdvance] e s1
  have a: "c0_pcr s1 ! i = c0_pcr s ! i" "c0_pccr s1 = c0_pccr s" by auto
  then have "c0_pcr (fst (recordPerformanceStep status events 1 (s1, r1))) ! i = c0_pcr s1 ! i"
    using e recordStep_other [of i 1 s1 status events r1] by simp
  with a s1 show "c0_pcr (fst (recordPerformanceEvents status events s)) ! i = c0_pcr s ! i"
    by (simp add: recordPerformanceEvents_def len upt_0_2)
next
  assume "performanceEvent (c0_pccr s) i \<noteq> 1"
  then show "c0_pcr (fst (synchronizePerformance c status False s)) ! i = c0_pcr s ! i"
    using assms(3) by (auto simp: sync_state [OF assms(1, 2)] caughtUp_def clocked_def less_2_cases_iff)
next
  assume off: "\<not> perfOn status s"
  then show "c0_pcr (fst (recordPerformanceEvents status events s)) = c0_pcr s"
    by (auto simp: recordPerformanceEvents_def perfOn_def)
  show "c0_pcr (fst (synchronizePerformance c status False s)) = c0_pcr s"
    using off assms(1) two_list [of "c0_pcr s"]
    by (auto simp: sync_state [OF assms(1, 2)] caughtUp_def clocked_def perfOn_def c0_shaped_def)
qed

theorem performance_sources_disjoint_witness:
  "\<forall>events. c0_pcr (fst (recordPerformanceEvents 0x10 events (cop0_reset 32 0 0 0x80000030 7 0 c0_init))) ! 0
     = c0_pcr (cop0_reset 32 0 0 0x80000030 7 0 c0_init) ! 0"
proof -
  let ?s = "cop0_reset 32 0 0 0x80000030 7 0 c0_init"
  have "c0_shaped ?s" "perfClock ?s \<le> 40" "performanceEvent (c0_pccr ?s) 0 = 1" by code_simp+
  then show ?thesis using performance_sources_disjoint [of ?s 40 0 "0x10"] by simp
qed

end
