(* ===== verification/EeThreadScheduler.thy ===== *)
theory EeThreadScheduler
  imports EeTiming "HOL-Library.AList_Mapping"
begin

text \<open>
  \<open>ps2xRuntime/include/runtime/ee_thread_scheduler.h\<close> and
  \<open>ps2xRuntime/src/lib/ee_thread_scheduler.cpp\<close>: the guest-thread scheduler of the EE kernel.
  Thread records live in a map by id; 128 ready queues and one wait queue per wait object
  hold (id, generation) handles; queue positions are also recorded as sequence numbers in
  the thread records, from which \<open>restore\<close> rebuilds the queues.

  A C++ pointer into the map is a lookup; a write through it is \<open>putThread\<close>. Operations take
  the scheduler last and answer the new scheduler with the value the code returns.
\<close>

section \<open>Enumerations and small records\<close>

definition kEeThreadPriorityCount :: int where "kEeThreadPriorityCount = 128"

datatype thread_state = Dormant | Ready | Running | Waiting | Suspended | WaitSuspended

datatype wait_kind = WkNone | WkSleep | WkSemaphore | WkEventFlag | WkHleSemaphore

datatype wait_key = WaitKey (wk_kind: wait_kind) (wk_objectId: int)

primrec waitKindIndex :: "wait_kind \<Rightarrow> nat" where
  "waitKindIndex WkNone = 0"
| "waitKindIndex WkSleep = 1"
| "waitKindIndex WkSemaphore = 2"
| "waitKindIndex WkEventFlag = 3"
| "waitKindIndex WkHleSemaphore = 4"

definition noWait :: wait_key where "noWait = WaitKey WkNone 0"

definition wait_valid :: "wait_key \<Rightarrow> bool" where
  "wait_valid w =
     (case wk_kind w of
        WkSleep \<Rightarrow> wk_objectId w = 0
      | WkSemaphore \<Rightarrow> wk_objectId w \<ge> 0
      | WkEventFlag \<Rightarrow> wk_objectId w \<ge> 0
      | WkHleSemaphore \<Rightarrow> wk_objectId w \<ge> 0
      | WkNone \<Rightarrow> False)"

lemma waitKindIndex_inj [simp]: "waitKindIndex a = waitKindIndex b \<longleftrightarrow> a = b"
  by (cases a; cases b) simp_all

text \<open>\<open>operator<\<close> on wait keys: \<open>std::tie\<close> of kind and object id.\<close>

definition waitKeyLess :: "wait_key \<Rightarrow> wait_key \<Rightarrow> bool" where
  "waitKeyLess a b =
     (waitKindIndex (wk_kind a) < waitKindIndex (wk_kind b)
      \<or> waitKindIndex (wk_kind a) = waitKindIndex (wk_kind b) \<and> wk_objectId a < wk_objectId b)"

instantiation wait_key :: linorder
begin

definition less_wait_key :: "wait_key \<Rightarrow> wait_key \<Rightarrow> bool" where
  "less_wait_key a b = waitKeyLess a b"

definition less_eq_wait_key :: "wait_key \<Rightarrow> wait_key \<Rightarrow> bool" where
  "less_eq_wait_key a b = (a < b \<or> a = b)"

instance
proof
  fix x y z :: wait_key
  show "x < y \<longleftrightarrow> x \<le> y \<and> \<not> y \<le> x"
    by (cases x; cases y) (auto simp: less_eq_wait_key_def less_wait_key_def waitKeyLess_def)
  show "x \<le> x" by (simp add: less_eq_wait_key_def)
  show "x \<le> y \<Longrightarrow> y \<le> z \<Longrightarrow> x \<le> z"
    by (cases x; cases y; cases z) (auto simp: less_eq_wait_key_def less_wait_key_def waitKeyLess_def)
  show "x \<le> y \<Longrightarrow> y \<le> x \<Longrightarrow> x = y"
    by (cases x; cases y) (auto simp: less_eq_wait_key_def less_wait_key_def waitKeyLess_def)
  show "x \<le> y \<or> y \<le> x"
    by (cases x; cases y) (auto simp: less_eq_wait_key_def less_wait_key_def waitKeyLess_def)
qed

end

datatype wait_completion = WcNone | WcSatisfied | WcReleased | WcObjectDeleted | WcTimedOut

datatype transition_reason =
    TrThreadAdded | TrRunningThreadAdded | TrStarted | TrSelected | TrYielded | TrBlocked
  | TrWakeupConsumed | TrWaitSatisfied | TrWakeupCounted | TrWakeupsCancelled | TrWaitReleased
  | TrWaitObjectDeleted | TrWaitTimedOut | TrWaitCompletionConsumed | TrFinished | TrSuspended
  | TrResumed | TrTerminated | TrExited | TrDeleted | TrPriorityChanged | TrReadyQueueRotated
  | TrRescheduled

primrec eeSchedulerTransitionReasonName :: "transition_reason \<Rightarrow> string" where
  "eeSchedulerTransitionReasonName TrThreadAdded = ''thread_added''"
| "eeSchedulerTransitionReasonName TrRunningThreadAdded = ''running_thread_added''"
| "eeSchedulerTransitionReasonName TrStarted = ''started''"
| "eeSchedulerTransitionReasonName TrSelected = ''selected''"
| "eeSchedulerTransitionReasonName TrYielded = ''yielded''"
| "eeSchedulerTransitionReasonName TrBlocked = ''blocked''"
| "eeSchedulerTransitionReasonName TrWakeupConsumed = ''wakeup_consumed''"
| "eeSchedulerTransitionReasonName TrWaitSatisfied = ''wait_satisfied''"
| "eeSchedulerTransitionReasonName TrWakeupCounted = ''wakeup_counted''"
| "eeSchedulerTransitionReasonName TrWakeupsCancelled = ''wakeups_cancelled''"
| "eeSchedulerTransitionReasonName TrWaitReleased = ''wait_released''"
| "eeSchedulerTransitionReasonName TrWaitObjectDeleted = ''wait_object_deleted''"
| "eeSchedulerTransitionReasonName TrWaitTimedOut = ''wait_timed_out''"
| "eeSchedulerTransitionReasonName TrWaitCompletionConsumed = ''wait_completion_consumed''"
| "eeSchedulerTransitionReasonName TrFinished = ''finished''"
| "eeSchedulerTransitionReasonName TrSuspended = ''suspended''"
| "eeSchedulerTransitionReasonName TrResumed = ''resumed''"
| "eeSchedulerTransitionReasonName TrTerminated = ''terminated''"
| "eeSchedulerTransitionReasonName TrExited = ''exited''"
| "eeSchedulerTransitionReasonName TrDeleted = ''deleted''"
| "eeSchedulerTransitionReasonName TrPriorityChanged = ''priority_changed''"
| "eeSchedulerTransitionReasonName TrReadyQueueRotated = ''ready_queue_rotated''"
| "eeSchedulerTransitionReasonName TrRescheduled = ''rescheduled''"

lemma eeSchedulerTransitionReasonName_inj:
  "eeSchedulerTransitionReasonName a = eeSchedulerTransitionReasonName b \<longleftrightarrow> a = b"
  by (cases a; cases b; simp)

record completed_wait =
  cw_wait :: wait_key
  cw_completion :: wait_completion

definition noCompleted :: completed_wait where
  "noCompleted = \<lparr>cw_wait = noWait, cw_completion = WcNone\<rparr>"

definition completed_valid :: "completed_wait \<Rightarrow> bool" where
  "completed_valid c = (wait_valid (cw_wait c) \<and> cw_completion c \<noteq> WcNone)"

datatype thread_handle = Handle (h_id: int) (h_generation: u32)

definition handle_valid :: "thread_handle \<Rightarrow> bool" where
  "handle_valid h = (h_id h > 0 \<and> h_generation h \<noteq> 0)"

record thread_record =
  tr_generation :: u32
  tr_priority :: int
  tr_state :: thread_state
  tr_wait :: wait_key
  tr_completedWait :: completed_wait
  tr_retainCompletedWaitReason :: bool
  tr_wakeupCount :: u32
  tr_suspendCount :: u32
  tr_queueSequence :: u64

record thread_snapshot =
  tsn_id :: int
  tsn_generation :: u32
  tsn_priority :: int
  tsn_state :: thread_state
  tsn_wait :: wait_key
  tsn_completedWait :: completed_wait
  tsn_retainCompletedWaitReason :: bool
  tsn_wakeupCount :: u32
  tsn_suspendCount :: u32
  tsn_queueSequence :: u64

record scheduler_snapshot =
  ssn_threads :: "thread_snapshot list"
  ssn_currentThreadId :: "int option"
  ssn_nextQueueSequence :: u64
  ssn_canonicalTick :: ee_tick

record transition_trace =
  tt_tick :: ee_tick
  tt_sequence :: u64
  tt_reason :: transition_reason
  tt_oldThreadId :: "int option"
  tt_newThreadId :: "int option"
  tt_threadId :: int
  tt_generation :: u32
  tt_priority :: int
  tt_state :: thread_state
  tt_wait :: wait_key
  tt_queueSequence :: u64

datatype exit_reason = ExYielded | ExBlocked | ExPreempted | ExFinished | ExException | ExStopRequested

datatype reschedule_policy = RpNone | RpHigherPriorityOnly | RpEqualOrHigherPriority

datatype transition_kind = OltNone | OltRotateReadyQueue

record owner_local_transition =
  ol_kind :: transition_kind
  ol_originatingThread :: thread_handle
  ol_priority :: int
  ol_reschedulePolicy :: reschedule_policy

datatype sleep_disposition = SdInvalidCurrentThread | SdWakeupConsumed | SdBlocked

record sleep_result =
  sr_disposition :: sleep_disposition
  sr_selectedThreadId :: "int option"

datatype wake_result = WrInvalidHandle | WrDormant | WrWokeSleeper | WrWakeupCounted | WrWakeupCountOverflow

text \<open>\<open>std::exception_ptr\<close> is an optional value of any type.\<close>

record 'e run_result =
  rr_reason :: exit_reason
  rr_elapsedTicks :: u64
  rr_wait :: wait_key
  rr_failure :: "'e option"
  rr_ownerLocalTransition :: owner_local_transition

record 'e dispatch_result =
  di_resumedThreadId :: int
  di_result :: "'e run_result"
  di_selectedThreadId :: "int option"

record scheduler =
  ts_threads :: "(int, thread_record) mapping"
  ts_readyQueues :: "thread_handle list list"
  ts_waitQueues :: "(wait_key, thread_handle list) mapping"
  ts_current :: "int option"
  ts_nextQueueSequence :: u64
  ts_tracingEnabled :: bool
  ts_traceCapacity :: nat
  ts_trace :: "transition_trace list"
  ts_nextTraceSequence :: u64
  ts_droppedTraceCount :: u64
  ts_canonicalTick :: ee_tick

definition kDefaultTraceCapacity :: nat where "kDefaultTraceCapacity = 4096"

definition ts_init :: scheduler where
  "ts_init = \<lparr>ts_threads = Mapping.empty,
     ts_readyQueues = replicate (nat kEeThreadPriorityCount) [],
     ts_waitQueues = Mapping.empty, ts_current = None, ts_nextQueueSequence = 1,
     ts_tracingEnabled = False, ts_traceCapacity = kDefaultTraceCapacity, ts_trace = [],
     ts_nextTraceSequence = 1, ts_droppedTraceCount = 0, ts_canonicalTick = EeTick 0\<rparr>"

section \<open>The exit protocol of the execution backend\<close>

definition noTransition :: owner_local_transition where
  "noTransition = \<lparr>ol_kind = OltNone, ol_originatingThread = Handle 0 0, ol_priority = 0,
     ol_reschedulePolicy = RpNone\<rparr>"

definition transition_pending :: "owner_local_transition \<Rightarrow> bool" where
  "transition_pending t = (ol_kind t \<noteq> OltNone)"

definition structurallyValid :: "owner_local_transition \<Rightarrow> bool" where
  "structurallyValid t =
     (case ol_kind t of
        OltNone \<Rightarrow> ol_originatingThread t = Handle 0 0 \<and> ol_priority t = 0
          \<and> ol_reschedulePolicy t = RpNone
      | OltRotateReadyQueue \<Rightarrow> handle_valid (ol_originatingThread t) \<and> ol_priority t \<ge> 0
          \<and> ol_priority t < kEeThreadPriorityCount
          \<and> (ol_reschedulePolicy t = RpNone \<or> ol_reschedulePolicy t = RpEqualOrHigherPriority))"

definition eeSchedulerRunResultValid :: "'e run_result \<Rightarrow> bool" where
  "eeSchedulerRunResultValid result =
     (let emptyWait = (rr_wait result = noWait);
          shape = (case rr_reason result of
              ExYielded \<Rightarrow> emptyWait \<and> rr_failure result = None
            | ExPreempted \<Rightarrow> emptyWait \<and> rr_failure result = None
            | ExStopRequested \<Rightarrow> emptyWait \<and> rr_failure result = None
            | ExFinished \<Rightarrow> emptyWait \<and> rr_failure result = None
            | ExBlocked \<Rightarrow> wait_valid (rr_wait result) \<and> rr_failure result = None
            | ExException \<Rightarrow> emptyWait \<and> rr_failure result \<noteq> None);
          transition = rr_ownerLocalTransition result
      in if \<not> shape then False
         else if \<not> structurallyValid transition then False
         else \<not> transition_pending transition \<or> rr_reason result = ExPreempted)"

section \<open>Tracing and the canonical tick\<close>

definition clearTransitionTrace :: "scheduler \<Rightarrow> scheduler" where
  "clearTransitionTrace s = s\<lparr>ts_trace := [], ts_nextTraceSequence := 1, ts_droppedTraceCount := 0\<rparr>"

definition enableTransitionTracing :: "nat \<Rightarrow> scheduler \<Rightarrow> scheduler" where
  "enableTransitionTracing capacity s =
     clearTransitionTrace (s\<lparr>ts_tracingEnabled := (capacity \<noteq> 0), ts_traceCapacity := capacity\<rparr>)"

definition disableTransitionTracing :: "scheduler \<Rightarrow> scheduler" where
  "disableTransitionTracing s = s\<lparr>ts_tracingEnabled := False\<rparr>"

definition publishCanonicalTick :: "ee_tick \<Rightarrow> scheduler \<Rightarrow> scheduler" where
  "publishCanonicalTick tick s =
     (if tick \<ge> ts_canonicalTick s then s\<lparr>ts_canonicalTick := tick\<rparr> else s)"

definition recordTransition ::
  "transition_reason \<Rightarrow> int option \<Rightarrow> int \<Rightarrow> wait_key \<Rightarrow> scheduler \<Rightarrow> scheduler"
where
  "recordTransition reason oldThreadId threadId wait0 s =
     (if \<not> ts_tracingEnabled s \<or> ts_traceCapacity s = 0 then s
      else case Mapping.lookup (ts_threads s) threadId of
        None \<Rightarrow> s
      | Some r \<Rightarrow>
          let wait = (if wait_valid wait0 then wait0
                      else if \<not> wait_valid (tr_wait r) \<and> completed_valid (tr_completedWait r)
                      then cw_wait (tr_completedWait r) else tr_wait r);
              trace = \<lparr>tt_tick = ts_canonicalTick s, tt_sequence = ts_nextTraceSequence s,
                 tt_reason = reason, tt_oldThreadId = oldThreadId, tt_newThreadId = ts_current s,
                 tt_threadId = threadId, tt_generation = tr_generation r,
                 tt_priority = tr_priority r, tt_state = tr_state r, tt_wait = wait,
                 tt_queueSequence = tr_queueSequence r\<rparr>;
              full = (length (ts_trace s) = ts_traceCapacity s)
          in s\<lparr>ts_nextTraceSequence := ts_nextTraceSequence s + 1,
               ts_droppedTraceCount := (if full then ts_droppedTraceCount s + 1
                                        else ts_droppedTraceCount s),
               ts_trace := (if full then tl (ts_trace s) else ts_trace s) @ [trace]\<rparr>)"

definition transitionReasonForWaitCompletion :: "wait_completion \<Rightarrow> transition_reason" where
  "transitionReasonForWaitCompletion c =
     (case c of
        WcSatisfied \<Rightarrow> TrWaitSatisfied
      | WcReleased \<Rightarrow> TrWaitReleased
      | WcObjectDeleted \<Rightarrow> TrWaitObjectDeleted
      | WcTimedOut \<Rightarrow> TrWaitTimedOut
      | WcNone \<Rightarrow> TrWaitReleased)"

section \<open>Threads and queues\<close>

definition validThreadId :: "int \<Rightarrow> bool" where "validThreadId threadId = (threadId > 0)"

definition validPriority :: "int \<Rightarrow> bool" where
  "validPriority priority = (priority \<ge> 0 \<and> priority < kEeThreadPriorityCount)"

definition putThread :: "int \<Rightarrow> thread_record \<Rightarrow> scheduler \<Rightarrow> scheduler" where
  "putThread threadId r s = s\<lparr>ts_threads := Mapping.update threadId r (ts_threads s)\<rparr>"

definition findIn :: "(int, thread_record) mapping \<Rightarrow> thread_handle \<Rightarrow> thread_record option" where
  "findIn threads handle =
     (if \<not> handle_valid handle then None
      else case Mapping.lookup threads (h_id handle) of
        None \<Rightarrow> None
      | Some r \<Rightarrow> if tr_generation r \<noteq> h_generation handle then None else Some r)"

definition findThread :: "thread_handle \<Rightarrow> scheduler \<Rightarrow> thread_record option" where
  "findThread handle s = findIn (ts_threads s) handle"

definition threadHandle :: "int \<Rightarrow> scheduler \<Rightarrow> thread_handle option" where
  "threadHandle threadId s =
     map_option (\<lambda>r. Handle threadId (tr_generation r)) (Mapping.lookup (ts_threads s) threadId)"

definition snapshotOf :: "int \<Rightarrow> thread_record \<Rightarrow> thread_snapshot" where
  "snapshotOf threadId r =
     \<lparr>tsn_id = threadId, tsn_generation = tr_generation r, tsn_priority = tr_priority r,
      tsn_state = tr_state r, tsn_wait = tr_wait r, tsn_completedWait = tr_completedWait r,
      tsn_retainCompletedWaitReason = tr_retainCompletedWaitReason r,
      tsn_wakeupCount = tr_wakeupCount r, tsn_suspendCount = tr_suspendCount r,
      tsn_queueSequence = tr_queueSequence r\<rparr>"

definition threadInfo :: "int \<Rightarrow> scheduler \<Rightarrow> thread_snapshot option" where
  "threadInfo threadId s = map_option (snapshotOf threadId) (Mapping.lookup (ts_threads s) threadId)"

definition addDormantThread :: "int \<Rightarrow> u32 \<Rightarrow> int \<Rightarrow> scheduler \<Rightarrow> scheduler \<times> bool" where
  "addDormantThread threadId generation priority s =
     (if \<not> validThreadId threadId \<or> generation = 0 \<or> \<not> validPriority priority then (s, False)
      else case Mapping.lookup (ts_threads s) threadId of
        Some r \<Rightarrow> (s, False)
      | None \<Rightarrow>
          (recordTransition TrThreadAdded (ts_current s) threadId noWait
             (putThread threadId
                \<lparr>tr_generation = generation, tr_priority = priority, tr_state = Dormant,
                 tr_wait = noWait, tr_completedWait = noCompleted,
                 tr_retainCompletedWaitReason = False, tr_wakeupCount = 0,
                 tr_suspendCount = 0, tr_queueSequence = 0\<rparr> s), True))"

definition addRunningThread :: "int \<Rightarrow> u32 \<Rightarrow> int \<Rightarrow> scheduler \<Rightarrow> scheduler \<times> bool" where
  "addRunningThread threadId generation priority s =
     (if ts_current s \<noteq> None then (s, False)
      else case addDormantThread threadId generation priority s of
        (s1, False) \<Rightarrow> (s1, False)
      | (s1, True) \<Rightarrow>
          (case Mapping.lookup (ts_threads s1) threadId of
             None \<Rightarrow> (s1, False)
           | Some r \<Rightarrow>
               (recordTransition TrRunningThreadAdded (ts_current s) threadId noWait
                  ((putThread threadId (r\<lparr>tr_state := Running\<rparr>) s1)\<lparr>ts_current := Some threadId\<rparr>),
                True)))"

definition enqueueReady :: "int \<Rightarrow> thread_record \<Rightarrow> scheduler \<Rightarrow> scheduler" where
  "enqueueReady threadId r s =
     (let r' = r\<lparr>tr_state := Ready, tr_wait := noWait, tr_queueSequence := ts_nextQueueSequence s\<rparr>;
          p = nat (tr_priority r)
      in (putThread threadId r' s)
           \<lparr>ts_nextQueueSequence := ts_nextQueueSequence s + 1,
            ts_readyQueues := (ts_readyQueues s)
              [p := ts_readyQueues s ! p @ [Handle threadId (tr_generation r)]]\<rparr>)"

definition startThreadHandle :: "thread_handle \<Rightarrow> scheduler \<Rightarrow> scheduler \<times> bool" where
  "startThreadHandle handle s =
     (case findThread handle s of
        None \<Rightarrow> (s, False)
      | Some r \<Rightarrow>
          if tr_state r \<noteq> Dormant then (s, False)
          else (recordTransition TrStarted (ts_current s) (h_id handle) noWait
                  (enqueueReady (h_id handle) r s), True))"

definition startThread :: "int \<Rightarrow> scheduler \<Rightarrow> scheduler \<times> bool" where
  "startThread threadId s =
     (case threadHandle threadId s of
        None \<Rightarrow> (s, False)
      | Some handle \<Rightarrow> startThreadHandle handle s)"

text \<open>The inner and the outer loop of \<open>takeNextReady\<close>: stale handles are dropped on the way.\<close>

fun scanQueue ::
  "(int, thread_record) mapping \<Rightarrow> thread_handle list
    \<Rightarrow> (thread_handle \<times> thread_record) option \<times> thread_handle list"
where
  "scanQueue threads [] = (None, [])"
| "scanQueue threads (handle # queue) =
     (case findIn threads handle of
        None \<Rightarrow> scanQueue threads queue
      | Some r \<Rightarrow> if tr_state r \<noteq> Ready then scanQueue threads queue else (Some (handle, r), queue))"

fun scanQueues ::
  "(int, thread_record) mapping \<Rightarrow> thread_handle list list
    \<Rightarrow> (thread_handle \<times> thread_record) option \<times> thread_handle list list"
where
  "scanQueues threads [] = (None, [])"
| "scanQueues threads (queue # queues) =
     (case scanQueue threads queue of
        (Some hit, queue') \<Rightarrow> (Some hit, queue' # queues)
      | (None, queue') \<Rightarrow>
          (case scanQueues threads queues of (hit, queues') \<Rightarrow> (hit, queue' # queues')))"

definition takeNextReady :: "scheduler \<Rightarrow> scheduler \<times> int option" where
  "takeNextReady s =
     (case scanQueues (ts_threads s) (ts_readyQueues s) of
        (None, queues) \<Rightarrow> (s\<lparr>ts_readyQueues := queues\<rparr>, None)
      | (Some (handle, r), queues) \<Rightarrow>
          ((putThread (h_id handle)
              (r\<lparr>tr_state := Running, tr_retainCompletedWaitReason := False, tr_queueSequence := 0\<rparr>)
              (s\<lparr>ts_readyQueues := queues\<rparr>))\<lparr>ts_current := Some (h_id handle)\<rparr>,
           Some (h_id handle)))"

definition selectNextThread :: "scheduler \<Rightarrow> scheduler \<times> int option" where
  "selectNextThread s =
     (if ts_current s \<noteq> None then (s, ts_current s)
      else case takeNextReady s of
        (s1, None) \<Rightarrow> (s1, None)
      | (s1, Some sel) \<Rightarrow> (recordTransition TrSelected None sel noWait s1, Some sel))"

text \<open>The running thread's record, as the handlers look it up before they act on it.\<close>

definition currentRunning :: "scheduler \<Rightarrow> (int \<times> thread_record) option" where
  "currentRunning s =
     (case ts_current s of
        None \<Rightarrow> None
      | Some threadId \<Rightarrow>
          (case Mapping.lookup (ts_threads s) threadId of
             None \<Rightarrow> None
           | Some r \<Rightarrow> if tr_state r \<noteq> Running then None else Some (threadId, r)))"

definition yieldCurrentThread :: "scheduler \<Rightarrow> scheduler \<times> int option" where
  "yieldCurrentThread s =
     (if ts_current s = None then selectNextThread s
      else case currentRunning s of
        None \<Rightarrow> (s, None)
      | Some (threadId, r) \<Rightarrow>
          (case takeNextReady (enqueueReady threadId r (s\<lparr>ts_current := None\<rparr>)) of
             (s1, sel) \<Rightarrow> (recordTransition TrYielded (ts_current s) threadId noWait s1, sel)))"

definition enqueueWait :: "wait_key \<Rightarrow> thread_handle \<Rightarrow> scheduler \<Rightarrow> scheduler" where
  "enqueueWait wait handle s =
     s\<lparr>ts_waitQueues := Mapping.update wait
         (Mapping.lookup_default [] (ts_waitQueues s) wait @ [handle]) (ts_waitQueues s)\<rparr>"

definition blockCurrentThread :: "wait_key \<Rightarrow> scheduler \<Rightarrow> scheduler \<times> int option" where
  "blockCurrentThread wait s =
     (if ts_current s = None \<or> \<not> wait_valid wait then (s, None)
      else case currentRunning s of
        None \<Rightarrow> (s, None)
      | Some (threadId, r) \<Rightarrow>
          if completed_valid (tr_completedWait r)
             \<or> (wk_kind wait = WkSleep \<and> tr_wakeupCount r \<noteq> 0)
          then (s, None)
          else
            let r' = r\<lparr>tr_state := Waiting, tr_wait := wait,
                       tr_queueSequence := ts_nextQueueSequence s\<rparr>;
                s1 = (enqueueWait wait (Handle threadId (tr_generation r))
                        ((putThread threadId r' s)
                           \<lparr>ts_nextQueueSequence := ts_nextQueueSequence s + 1\<rparr>))
                       \<lparr>ts_current := None\<rparr>
            in case takeNextReady s1 of
                 (s2, sel) \<Rightarrow>
                   (recordTransition TrBlocked (ts_current s) threadId wait s2, sel))"

definition sleepKey :: wait_key where "sleepKey = WaitKey WkSleep 0"

definition sleepCurrentThread :: "scheduler \<Rightarrow> scheduler \<times> sleep_result" where
  "sleepCurrentThread s =
     (case currentRunning s of
        None \<Rightarrow> (s, \<lparr>sr_disposition = SdInvalidCurrentThread, sr_selectedThreadId = None\<rparr>)
      | Some (threadId, r) \<Rightarrow>
          if completed_valid (tr_completedWait r)
          then (s, \<lparr>sr_disposition = SdInvalidCurrentThread, sr_selectedThreadId = None\<rparr>)
          else if tr_wakeupCount r \<noteq> 0
          then (recordTransition TrWakeupConsumed (ts_current s) threadId sleepKey
                  (putThread threadId (r\<lparr>tr_wakeupCount := tr_wakeupCount r - 1\<rparr>) s),
                \<lparr>sr_disposition = SdWakeupConsumed, sr_selectedThreadId = Some threadId\<rparr>)
          else case blockCurrentThread sleepKey s of
                 (s1, sel) \<Rightarrow> (s1, \<lparr>sr_disposition = SdBlocked, sr_selectedThreadId = sel\<rparr>))"

text \<open>
  The tail shared by \<open>wakeOne\<close> and \<open>releaseWaitThread\<close>: the wait is over, the thread becomes
  ready or, while a suspension is outstanding, suspended.
\<close>

definition completeWait ::
  "int \<Rightarrow> thread_record \<Rightarrow> wait_key \<Rightarrow> wait_completion \<Rightarrow> bool \<Rightarrow> scheduler \<Rightarrow> scheduler"
where
  "completeWait threadId r wait completion retain s =
     (let r1 = r\<lparr>tr_wait := noWait,
                 tr_completedWait := \<lparr>cw_wait = wait, cw_completion = completion\<rparr>,
                 tr_retainCompletedWaitReason := retain\<rparr>
      in if tr_suspendCount r1 \<noteq> 0
         then putThread threadId (r1\<lparr>tr_state := Suspended, tr_queueSequence := 0\<rparr>) s
         else enqueueReady threadId r1 s)"

definition dropFront :: "wait_key \<Rightarrow> thread_handle list \<Rightarrow> scheduler \<Rightarrow> scheduler" where
  "dropFront wait rest s =
     s\<lparr>ts_waitQueues := (if rest = [] then Mapping.delete wait (ts_waitQueues s)
                        else Mapping.update wait rest (ts_waitQueues s))\<rparr>"

definition wakeOne :: "wait_key \<Rightarrow> scheduler \<Rightarrow> scheduler \<times> int option" where
  "wakeOne wait s =
     (if \<not> wait_valid wait then (s, None)
      else case Mapping.lookup (ts_waitQueues s) wait of
        None \<Rightarrow> (s, None)
      | Some [] \<Rightarrow> (s, None)
      | Some (handle # rest) \<Rightarrow>
          let s1 = dropFront wait rest s
          in case findThread handle s1 of
               None \<Rightarrow> (s1, None)
             | Some r \<Rightarrow>
                 if (tr_state r \<noteq> Waiting \<and> tr_state r \<noteq> WaitSuspended) \<or> tr_wait r \<noteq> wait
                 then (s1, None)
                 else (recordTransition TrWaitSatisfied (ts_current s) (h_id handle) wait
                         (completeWait (h_id handle) r wait WcSatisfied False s1),
                       Some (h_id handle)))"

definition removeReady :: "thread_handle \<Rightarrow> int \<Rightarrow> scheduler \<Rightarrow> scheduler \<times> bool" where
  "removeReady handle priority s =
     (if \<not> validPriority priority then (s, False)
      else
        let p = nat priority; queue = ts_readyQueues s ! p
        in if handle \<notin> set queue then (s, False)
           else (s\<lparr>ts_readyQueues := (ts_readyQueues s)[p := remove1 handle queue]\<rparr>, True))"

definition removeWait :: "thread_handle \<Rightarrow> wait_key \<Rightarrow> scheduler \<Rightarrow> scheduler \<times> bool" where
  "removeWait handle wait s =
     (case Mapping.lookup (ts_waitQueues s) wait of
        None \<Rightarrow> (s, False)
      | Some queue \<Rightarrow>
          if handle \<notin> set queue then (s, False)
          else (dropFront wait (remove1 handle queue) s, True))"

definition releaseWaitThread ::
  "thread_handle \<Rightarrow> wait_completion \<Rightarrow> bool \<Rightarrow> scheduler \<Rightarrow> scheduler \<times> bool"
where
  "releaseWaitThread handle completion retainReasonForStatus s =
     (case findThread handle s of
        None \<Rightarrow> (s, False)
      | Some r \<Rightarrow>
          if completion = WcNone \<or> (tr_state r \<noteq> Waiting \<and> tr_state r \<noteq> WaitSuspended)
             \<or> \<not> wait_valid (tr_wait r)
          then (s, False)
          else case removeWait handle (tr_wait r) s of
            (s1, False) \<Rightarrow> (s1, False)
          | (s1, True) \<Rightarrow>
              (recordTransition (transitionReasonForWaitCompletion completion) (ts_current s)
                 (h_id handle) (tr_wait r)
                 (completeWait (h_id handle) r (tr_wait r) completion retainReasonForStatus s1),
               True))"

definition wakeThread :: "thread_handle \<Rightarrow> scheduler \<Rightarrow> scheduler \<times> wake_result" where
  "wakeThread handle s =
     (case findThread handle s of
        None \<Rightarrow> (s, WrInvalidHandle)
      | Some r \<Rightarrow>
          if tr_state r = Dormant then (s, WrDormant)
          else if (tr_state r = Waiting \<or> tr_state r = WaitSuspended) \<and> tr_wait r = sleepKey
          then (case releaseWaitThread handle WcSatisfied False s of
                  (s1, False) \<Rightarrow> (s1, WrInvalidHandle)
                | (s1, True) \<Rightarrow> (s1, WrWokeSleeper))
          else if tr_wakeupCount r = u32_max then (s, WrWakeupCountOverflow)
          else (recordTransition TrWakeupCounted (ts_current s) (h_id handle) sleepKey
                  (putThread (h_id handle) (r\<lparr>tr_wakeupCount := tr_wakeupCount r + 1\<rparr>) s),
                WrWakeupCounted))"

definition cancelWakeups :: "thread_handle \<Rightarrow> scheduler \<Rightarrow> scheduler \<times> u32 option" where
  "cancelWakeups handle s =
     (case findThread handle s of
        None \<Rightarrow> (s, None)
      | Some r \<Rightarrow>
          (recordTransition TrWakeupsCancelled (ts_current s) (h_id handle) sleepKey
             (putThread (h_id handle) (r\<lparr>tr_wakeupCount := 0\<rparr>) s), Some (tr_wakeupCount r)))"

definition consumeWaitCompletion :: "thread_handle \<Rightarrow> scheduler \<Rightarrow> scheduler \<times> completed_wait option" where
  "consumeWaitCompletion handle s =
     (case findThread handle s of
        None \<Rightarrow> (s, None)
      | Some r \<Rightarrow>
          if tr_state r \<noteq> Running \<or> \<not> completed_valid (tr_completedWait r) then (s, None)
          else (recordTransition TrWaitCompletionConsumed (ts_current s) (h_id handle)
                  (cw_wait (tr_completedWait r))
                  (putThread (h_id handle)
                     (r\<lparr>tr_completedWait := noCompleted, tr_retainCompletedWaitReason := False\<rparr>) s),
                Some (tr_completedWait r)))"

definition madeDormant :: "thread_record \<Rightarrow> thread_record" where
  "madeDormant r = r\<lparr>tr_state := Dormant, tr_wait := noWait, tr_completedWait := noCompleted,
     tr_retainCompletedWaitReason := False, tr_wakeupCount := 0, tr_suspendCount := 0,
     tr_queueSequence := 0\<rparr>"

definition retireCurrentThread :: "scheduler \<Rightarrow> scheduler \<times> bool" where
  "retireCurrentThread s =
     (case currentRunning s of
        None \<Rightarrow> (s, False)
      | Some (threadId, r) \<Rightarrow> ((putThread threadId (madeDormant r) s)\<lparr>ts_current := None\<rparr>, True))"

definition finishCurrentThread :: "scheduler \<Rightarrow> scheduler \<times> int option" where
  "finishCurrentThread s =
     (let threadId = (case ts_current s of None \<Rightarrow> 0 | Some t \<Rightarrow> t)
      in case retireCurrentThread s of
           (s1, False) \<Rightarrow> (s1, None)
         | (s1, True) \<Rightarrow>
             (case takeNextReady s1 of
                (s2, sel) \<Rightarrow> (recordTransition TrFinished (ts_current s) threadId noWait s2, sel)))"

definition exitCurrentThread :: "scheduler \<Rightarrow> scheduler \<times> bool" where
  "exitCurrentThread s =
     (let threadId = (case ts_current s of None \<Rightarrow> 0 | Some t \<Rightarrow> t)
      in case retireCurrentThread s of
           (s1, False) \<Rightarrow> (s1, False)
         | (s1, True) \<Rightarrow>
             (recordTransition TrExited (ts_current s) threadId noWait (fst (takeNextReady s1)), True))"

text \<open>
  The \<open>switch\<close> of \<open>suspendThread\<close>: the updated record, the scheduler with the thread taken out
  of its ready queue or off the processor, and whether a replacement is to be selected;
  \<open>None\<close> is the early \<open>return false\<close>.
\<close>

definition suspendFrom ::
  "thread_handle \<Rightarrow> thread_record \<Rightarrow> scheduler \<Rightarrow> (scheduler \<times> thread_record \<times> bool) option"
where
  "suspendFrom handle r s =
     (case tr_state r of
        Running \<Rightarrow>
          if ts_current s \<noteq> Some (h_id handle) then None
          else Some (s\<lparr>ts_current := None\<rparr>, r\<lparr>tr_state := Suspended\<rparr>, True)
      | Ready \<Rightarrow>
          (case removeReady handle (tr_priority r) s of
             (s1, False) \<Rightarrow> None
           | (s1, True) \<Rightarrow> Some (s1, r\<lparr>tr_state := Suspended, tr_queueSequence := 0\<rparr>, False))
      | Waiting \<Rightarrow> Some (s, r\<lparr>tr_state := WaitSuspended\<rparr>, False)
      | Suspended \<Rightarrow> Some (s, r, False)
      | WaitSuspended \<Rightarrow> Some (s, r, False)
      | Dormant \<Rightarrow> None)"

definition suspendThread :: "thread_handle \<Rightarrow> scheduler \<Rightarrow> scheduler \<times> bool" where
  "suspendThread handle s =
     (case findThread handle s of
        None \<Rightarrow> (s, False)
      | Some r \<Rightarrow>
          if tr_state r = Dormant \<or> tr_suspendCount r = u32_max then (s, False)
          else case suspendFrom handle r s of
            None \<Rightarrow> (s, False)
          | Some (s1, r1, selectReplacement) \<Rightarrow>
              let s2 = putThread (h_id handle) (r1\<lparr>tr_suspendCount := tr_suspendCount r1 + 1\<rparr>) s1;
                  s3 = (if selectReplacement then fst (takeNextReady s2) else s2)
              in (recordTransition TrSuspended (ts_current s) (h_id handle) noWait s3, True))"

definition resumeThread :: "thread_handle \<Rightarrow> scheduler \<Rightarrow> scheduler \<times> bool" where
  "resumeThread handle s =
     (case findThread handle s of
        None \<Rightarrow> (s, False)
      | Some r \<Rightarrow>
          if tr_suspendCount r = 0 \<or> (tr_state r \<noteq> Suspended \<and> tr_state r \<noteq> WaitSuspended)
          then (s, False)
          else
            let r1 = r\<lparr>tr_suspendCount := tr_suspendCount r - 1\<rparr>;
                s1 = (if tr_suspendCount r1 \<noteq> 0 then putThread (h_id handle) r1 s
                      else if tr_state r1 = WaitSuspended
                      then putThread (h_id handle) (r1\<lparr>tr_state := Waiting\<rparr>) s
                      else enqueueReady (h_id handle) r1 s)
            in (recordTransition TrResumed (ts_current s) (h_id handle) noWait s1, True))"

definition detachForTermination ::
  "thread_handle \<Rightarrow> thread_record \<Rightarrow> scheduler \<Rightarrow> scheduler option"
where
  "detachForTermination handle r s =
     (case tr_state r of
        Running \<Rightarrow>
          if ts_current s \<noteq> Some (h_id handle) then None else Some (s\<lparr>ts_current := None\<rparr>)
      | Ready \<Rightarrow>
          (case removeReady handle (tr_priority r) s of
             (s1, False) \<Rightarrow> None | (s1, True) \<Rightarrow> Some s1)
      | Waiting \<Rightarrow>
          (case removeWait handle (tr_wait r) s of (s1, False) \<Rightarrow> None | (s1, True) \<Rightarrow> Some s1)
      | WaitSuspended \<Rightarrow>
          (case removeWait handle (tr_wait r) s of (s1, False) \<Rightarrow> None | (s1, True) \<Rightarrow> Some s1)
      | Suspended \<Rightarrow> Some s
      | Dormant \<Rightarrow> None)"

definition terminateThread :: "thread_handle \<Rightarrow> scheduler \<Rightarrow> scheduler \<times> bool" where
  "terminateThread handle s =
     (case findThread handle s of
        None \<Rightarrow> (s, False)
      | Some r \<Rightarrow>
          if tr_state r = Dormant then (s, False)
          else case detachForTermination handle r s of
            None \<Rightarrow> (s, False)
          | Some s1 \<Rightarrow>
              let s2 = putThread (h_id handle) (madeDormant r) s1;
                  s3 = (if ts_current s2 = None then fst (takeNextReady s2) else s2)
              in (recordTransition TrTerminated (ts_current s) (h_id handle) (tr_wait r) s3, True))"

definition deleteThread :: "thread_handle \<Rightarrow> scheduler \<Rightarrow> scheduler \<times> bool" where
  "deleteThread handle s =
     (case findThread handle s of
        None \<Rightarrow> (s, False)
      | Some r \<Rightarrow>
          if tr_state r \<noteq> Dormant then (s, False)
          else
            let s1 = recordTransition TrDeleted (ts_current s) (h_id handle) noWait s
            in (s1\<lparr>ts_threads := Mapping.delete (h_id handle) (ts_threads s1)\<rparr>, True))"

definition changeThreadPriority :: "thread_handle \<Rightarrow> int \<Rightarrow> scheduler \<Rightarrow> scheduler \<times> int option" where
  "changeThreadPriority handle priority s =
     (case findThread handle s of
        None \<Rightarrow> (s, None)
      | Some r \<Rightarrow>
          if \<not> validPriority priority \<or> tr_state r = Dormant then (s, None)
          else if tr_priority r = priority then (s, Some priority)
          else
            let previous = tr_priority r; r1 = r\<lparr>tr_priority := priority\<rparr>;
                finish = (\<lambda>s2. (recordTransition TrPriorityChanged (ts_current s) (h_id handle) noWait s2,
                                Some previous))
            in if tr_state r = Ready
               then (case removeReady handle previous s of
                       (s1, False) \<Rightarrow> (s1, None)
                     | (s1, True) \<Rightarrow> finish (enqueueReady (h_id handle) r1 s1))
               else finish (putThread (h_id handle) r1 s))"

definition rotateReadyQueue :: "int \<Rightarrow> scheduler \<Rightarrow> scheduler \<times> bool" where
  "rotateReadyQueue priority s =
     (if \<not> validPriority priority then (s, False)
      else case ts_readyQueues s ! nat priority of
        handle # second # rest \<Rightarrow>
          (case findThread handle s of
             None \<Rightarrow> (s, False)
           | Some r \<Rightarrow>
               if tr_state r \<noteq> Ready \<or> tr_priority r \<noteq> priority then (s, False)
               else
                 let s1 = (putThread (h_id handle)
                             (r\<lparr>tr_queueSequence := ts_nextQueueSequence s\<rparr>) s)
                       \<lparr>ts_nextQueueSequence := ts_nextQueueSequence s + 1,
                        ts_readyQueues := (ts_readyQueues s)
                          [nat priority := (second # rest) @ [handle]]\<rparr>
                 in (recordTransition TrReadyQueueRotated (ts_current s) (h_id handle) noWait s1, True))
      | _ \<Rightarrow> (s, True))"

fun firstNonEmpty :: "nat \<Rightarrow> thread_handle list list \<Rightarrow> int option" where
  "firstNonEmpty priority [] = None"
| "firstNonEmpty priority (queue # queues) =
     (if queue \<noteq> [] then Some (int priority) else firstNonEmpty (Suc priority) queues)"

definition highestReadyPriority :: "scheduler \<Rightarrow> int option" where
  "highestReadyPriority s = firstNonEmpty 0 (ts_readyQueues s)"

definition reschedule :: "reschedule_policy \<Rightarrow> scheduler \<Rightarrow> scheduler \<times> int option" where
  "reschedule policy s =
     (let publish = (\<lambda>(s1, sel). case sel of
             None \<Rightarrow> (s1, None)
           | Some t \<Rightarrow> (recordTransition TrRescheduled (ts_current s) t noWait s1, Some t))
      in if ts_current s = None then publish (takeNextReady s)
         else case currentRunning s of
           None \<Rightarrow> (s, None)
         | Some (threadId, r) \<Rightarrow>
             (case highestReadyPriority s of
                None \<Rightarrow> (s, Some threadId)
              | Some readyPriority \<Rightarrow>
                  if policy = RpNone then (s, Some threadId)
                  else if \<not> (readyPriority < tr_priority r
                           \<or> policy = RpEqualOrHigherPriority \<and> readyPriority = tr_priority r)
                  then (s, Some threadId)
                  else publish (takeNextReady
                         (enqueueReady threadId r (s\<lparr>ts_current := None\<rparr>)))))"

text \<open>
  The backend is an interface (\<open>IEeSchedulerExecutionBackend\<close>): any function of the thread and
  its budget that may also have called scheduler operations before it returns.
\<close>

type_synonym 'e backend = "int \<Rightarrow> u64 \<Rightarrow> scheduler \<Rightarrow> scheduler \<times> 'e run_result"

datatype dispatch_error = InvalidExitProtocol

definition dispatchOne ::
  "'e backend \<Rightarrow> u64 \<Rightarrow> scheduler \<Rightarrow> scheduler \<times> (dispatch_error + 'e dispatch_result option)"
where
  "dispatchOne backend tickBudget s =
     (case selectNextThread s of
        (s1, None) \<Rightarrow> (s1, Inr None)
      | (s1, Some sel) \<Rightarrow>
          (case backend sel tickBudget s1 of
             (s2, result) \<Rightarrow>
               if \<not> eeSchedulerRunResultValid result then (s2, Inl InvalidExitProtocol)
               else
                 (case (case rr_reason result of
                          ExYielded \<Rightarrow> yieldCurrentThread s2
                        | ExBlocked \<Rightarrow> blockCurrentThread (rr_wait result) s2
                        | ExFinished \<Rightarrow> finishCurrentThread s2
                        | ExException \<Rightarrow> finishCurrentThread s2
                        | ExPreempted \<Rightarrow> (s2, ts_current s2)
                        | ExStopRequested \<Rightarrow> (s2, ts_current s2)) of
                    (s3, next) \<Rightarrow>
                      (s3, Inr (Some \<lparr>di_resumedThreadId = sel, di_result = result,
                                      di_selectedThreadId = next\<rparr>)))))"

section \<open>Queries\<close>

definition readyOrder :: "int \<Rightarrow> scheduler \<Rightarrow> int list" where
  "readyOrder priority s =
     (if \<not> validPriority priority then [] else map h_id (ts_readyQueues s ! nat priority))"

definition waitOrder :: "wait_key \<Rightarrow> scheduler \<Rightarrow> int list" where
  "waitOrder wait s =
     (case Mapping.lookup (ts_waitQueues s) wait of None \<Rightarrow> [] | Some queue \<Rightarrow> map h_id queue)"

definition threadCount :: "scheduler \<Rightarrow> nat" where
  "threadCount s = Mapping.size (ts_threads s)"

section \<open>Validation, snapshot and restore\<close>

definition readyHandleOk :: "scheduler \<Rightarrow> nat \<Rightarrow> thread_handle \<Rightarrow> bool" where
  "readyHandleOk s p handle =
     (case Mapping.lookup (ts_threads s) (h_id handle) of
        None \<Rightarrow> False
      | Some r \<Rightarrow> tr_generation r = h_generation handle \<and> tr_state r = Ready
          \<and> tr_priority r = int p)"

definition waitHandleOk :: "scheduler \<Rightarrow> wait_key \<Rightarrow> thread_handle \<Rightarrow> bool" where
  "waitHandleOk s wait handle =
     (case Mapping.lookup (ts_threads s) (h_id handle) of
        None \<Rightarrow> False
      | Some r \<Rightarrow> tr_generation r = h_generation handle
          \<and> (tr_state r = Waiting \<or> tr_state r = WaitSuspended) \<and> tr_wait r = wait)"

definition readyMembership :: "scheduler \<Rightarrow> int \<Rightarrow> nat" where
  "readyMembership s threadId = length (filter (\<lambda>h. h_id h = threadId) (concat (ts_readyQueues s)))"

definition waitMembership :: "scheduler \<Rightarrow> int \<Rightarrow> nat" where
  "waitMembership s threadId = length (filter (\<lambda>h. h_id h = threadId)
     (concat (map (Mapping.lookup_default [] (ts_waitQueues s))
        (Mapping.ordered_keys (ts_waitQueues s)))))"

definition threadValid :: "scheduler \<Rightarrow> int \<Rightarrow> thread_record \<Rightarrow> bool" where
  "threadValid s threadId r =
     (let readyCount = readyMembership s threadId; waitCount = waitMembership s threadId;
          noCompletedWait = (cw_completion (tr_completedWait r) = WcNone)
      in \<not> (noCompletedWait = wait_valid (cw_wait (tr_completedWait r))
            \<or> tr_retainCompletedWaitReason r \<and> noCompletedWait)
       \<and> (case tr_state r of
            Dormant \<Rightarrow> readyCount = 0 \<and> waitCount = 0 \<and> \<not> wait_valid (tr_wait r) \<and> noCompletedWait
              \<and> \<not> tr_retainCompletedWaitReason r \<and> tr_wakeupCount r = 0 \<and> tr_suspendCount r = 0
              \<and> tr_queueSequence r = 0
          | Ready \<Rightarrow> readyCount = 1 \<and> waitCount = 0 \<and> \<not> wait_valid (tr_wait r)
              \<and> tr_suspendCount r = 0 \<and> tr_queueSequence r \<noteq> 0
          | Running \<Rightarrow> ts_current s = Some threadId \<and> readyCount = 0 \<and> waitCount = 0
              \<and> \<not> wait_valid (tr_wait r) \<and> \<not> tr_retainCompletedWaitReason r
              \<and> tr_suspendCount r = 0 \<and> tr_queueSequence r = 0
          | Waiting \<Rightarrow> readyCount = 0 \<and> waitCount = 1 \<and> wait_valid (tr_wait r) \<and> noCompletedWait
              \<and> \<not> tr_retainCompletedWaitReason r
              \<and> \<not> (wk_kind (tr_wait r) = WkSleep \<and> tr_wakeupCount r \<noteq> 0)
              \<and> tr_suspendCount r = 0 \<and> tr_queueSequence r \<noteq> 0
          | Suspended \<Rightarrow> readyCount = 0 \<and> waitCount = 0 \<and> \<not> wait_valid (tr_wait r)
              \<and> tr_suspendCount r \<noteq> 0 \<and> tr_queueSequence r = 0
          | WaitSuspended \<Rightarrow> readyCount = 0 \<and> waitCount = 1 \<and> wait_valid (tr_wait r) \<and> noCompletedWait
              \<and> \<not> tr_retainCompletedWaitReason r
              \<and> \<not> (wk_kind (tr_wait r) = WkSleep \<and> tr_wakeupCount r \<noteq> 0)
              \<and> tr_suspendCount r \<noteq> 0 \<and> tr_queueSequence r \<noteq> 0))"

definition runningCount :: "scheduler \<Rightarrow> nat" where
  "runningCount s = length (filter
     (\<lambda>t. case Mapping.lookup (ts_threads s) t of None \<Rightarrow> False | Some r \<Rightarrow> tr_state r = Running)
     (Mapping.ordered_keys (ts_threads s)))"

definition validate :: "scheduler \<Rightarrow> bool" where
  "validate s =
     ((\<forall>p\<in>{0..<length (ts_readyQueues s)}. \<forall>h\<in>set (ts_readyQueues s ! p). readyHandleOk s p h)
      \<and> (\<forall>wait\<in>set (Mapping.ordered_keys (ts_waitQueues s)). wait_valid wait
           \<and> Mapping.lookup_default [] (ts_waitQueues s) wait \<noteq> []
           \<and> (\<forall>h\<in>set (Mapping.lookup_default [] (ts_waitQueues s) wait). waitHandleOk s wait h))
      \<and> (\<forall>t\<in>set (Mapping.ordered_keys (ts_threads s)).
           case Mapping.lookup (ts_threads s) t of None \<Rightarrow> True | Some r \<Rightarrow> threadValid s t r)
      \<and> runningCount s = (if ts_current s \<noteq> None then 1 else 0))"

definition ts_snapshot :: "scheduler \<Rightarrow> scheduler_snapshot" where
  "ts_snapshot s =
     \<lparr>ssn_threads = map (\<lambda>t. snapshotOf t (the (Mapping.lookup (ts_threads s) t)))
        (Mapping.ordered_keys (ts_threads s)),
      ssn_currentThreadId = ts_current s, ssn_nextQueueSequence = ts_nextQueueSequence s,
      ssn_canonicalTick = ts_canonicalTick s\<rparr>"

definition recordOf :: "thread_snapshot \<Rightarrow> thread_record" where
  "recordOf source =
     \<lparr>tr_generation = tsn_generation source, tr_priority = tsn_priority source,
      tr_state = tsn_state source, tr_wait = tsn_wait source,
      tr_completedWait = tsn_completedWait source,
      tr_retainCompletedWaitReason = tsn_retainCompletedWaitReason source,
      tr_wakeupCount = tsn_wakeupCount source, tr_suspendCount = tsn_suspendCount source,
      tr_queueSequence = tsn_queueSequence source\<rparr>"

fun restoreThreads ::
  "thread_snapshot list \<Rightarrow> (int, thread_record) mapping \<Rightarrow> (int, thread_record) mapping option"
where
  "restoreThreads [] threads = Some threads"
| "restoreThreads (source # rest) threads =
     (if \<not> validThreadId (tsn_id source) \<or> tsn_generation source = 0
         \<or> \<not> validPriority (tsn_priority source)
         \<or> Mapping.lookup threads (tsn_id source) \<noteq> None
      then None
      else restoreThreads rest (Mapping.update (tsn_id source) (recordOf source) threads))"

fun restoreQueues :: "u64 \<Rightarrow> thread_snapshot list \<Rightarrow> scheduler \<Rightarrow> scheduler option" where
  "restoreQueues previous [] s = Some s"
| "restoreQueues previous (source # rest) s =
     (if tsn_queueSequence source = previous then None
      else
        let handle = Handle (tsn_id source) (tsn_generation source)
        in case tsn_state source of
             Ready \<Rightarrow>
               let p = nat (tsn_priority source)
               in restoreQueues (tsn_queueSequence source) rest
                    (s\<lparr>ts_readyQueues := (ts_readyQueues s)[p := ts_readyQueues s ! p @ [handle]]\<rparr>)
           | Waiting \<Rightarrow>
               restoreQueues (tsn_queueSequence source) rest (enqueueWait (tsn_wait source) handle s)
           | WaitSuspended \<Rightarrow>
               restoreQueues (tsn_queueSequence source) rest (enqueueWait (tsn_wait source) handle s)
           | _ \<Rightarrow> None)"

definition queuedOf :: "thread_snapshot list \<Rightarrow> thread_snapshot list" where
  "queuedOf sources = filter (\<lambda>x. tsn_queueSequence x \<noteq> 0) sources"

definition maximumQueueSequence :: "thread_snapshot list \<Rightarrow> u64" where
  "maximumQueueSequence sources = foldl (\<lambda>m x. max m (tsn_queueSequence x)) 0 (queuedOf sources)"

definition restoreCandidate :: "scheduler_snapshot \<Rightarrow> scheduler option" where
  "restoreCandidate d =
     (case restoreThreads (ssn_threads d) Mapping.empty of
        None \<Rightarrow> None
      | Some threads \<Rightarrow>
          if ssn_nextQueueSequence d = 0
             \<or> ssn_nextQueueSequence d \<le> maximumQueueSequence (ssn_threads d)
          then None
          else case restoreQueues 0 (sort_key tsn_queueSequence (queuedOf (ssn_threads d)))
                   (ts_init\<lparr>ts_nextQueueSequence := ssn_nextQueueSequence d,
                            ts_canonicalTick := ssn_canonicalTick d,
                            ts_current := ssn_currentThreadId d, ts_threads := threads\<rparr>) of
            None \<Rightarrow> None
          | Some candidate \<Rightarrow> if \<not> validate candidate then None else Some candidate)"

definition ts_restore :: "scheduler_snapshot \<Rightarrow> scheduler \<Rightarrow> bool \<times> scheduler" where
  "ts_restore d s =
     (case restoreCandidate d of None \<Rightarrow> (False, s) | Some candidate \<Rightarrow> (True, candidate))"

end
