(* ===== verification/EeThreadInv.thy ===== *)
theory EeThreadInv
  imports EeThreadScheduler
begin

text \<open>
  The invariant of the thread scheduler. It is stated over the map of threads, the queues
  seen as a function of their place, the selected thread and the next sequence number: a
  queue holds exactly the handles of the threads whose record puts them there, in the order
  of their sequence numbers. Every operation is a composition of the five changes below:
  taking a thread out, putting one back idle, at the end of a queue or on the processor, and
  changing a record in place.
\<close>

section \<open>Places and the core invariant\<close>

datatype place = RQ nat | WQ wait_key

definition placeOf :: "thread_record \<Rightarrow> place option" where
  "placeOf r =
     (case tr_state r of
        Ready \<Rightarrow> Some (RQ (nat (tr_priority r)))
      | Waiting \<Rightarrow> Some (WQ (tr_wait r))
      | WaitSuspended \<Rightarrow> Some (WQ (tr_wait r))
      | _ \<Rightarrow> None)"

text \<open>What every state demands of the other fields of a record.\<close>

definition thread_ok :: "thread_record \<Rightarrow> bool" where
  "thread_ok r =
     (let noCompletedWait = (cw_completion (tr_completedWait r) = WcNone)
      in tr_generation r \<noteq> 0 \<and> validPriority (tr_priority r)
       \<and> (noCompletedWait \<noteq> wait_valid (cw_wait (tr_completedWait r)))
       \<and> (tr_retainCompletedWaitReason r \<longrightarrow> \<not> noCompletedWait)
       \<and> (tr_queueSequence r \<noteq> 0 \<longleftrightarrow> placeOf r \<noteq> None)
       \<and> (case tr_state r of
            Dormant \<Rightarrow> \<not> wait_valid (tr_wait r) \<and> noCompletedWait \<and> tr_wakeupCount r = 0
              \<and> tr_suspendCount r = 0
          | Ready \<Rightarrow> \<not> wait_valid (tr_wait r) \<and> tr_suspendCount r = 0
          | Running \<Rightarrow> \<not> wait_valid (tr_wait r) \<and> \<not> tr_retainCompletedWaitReason r
              \<and> tr_suspendCount r = 0
          | Waiting \<Rightarrow> wait_valid (tr_wait r) \<and> noCompletedWait
              \<and> (wk_kind (tr_wait r) = WkSleep \<longrightarrow> tr_wakeupCount r = 0)
              \<and> tr_suspendCount r = 0
          | Suspended \<Rightarrow> \<not> wait_valid (tr_wait r) \<and> tr_suspendCount r \<noteq> 0
          | WaitSuspended \<Rightarrow> wait_valid (tr_wait r) \<and> noCompletedWait
              \<and> (wk_kind (tr_wait r) = WkSleep \<longrightarrow> tr_wakeupCount r = 0)
              \<and> tr_suspendCount r \<noteq> 0))"

definition handleOf :: "int \<Rightarrow> thread_record \<Rightarrow> thread_handle" where
  "handleOf threadId r = Handle threadId (tr_generation r)"

definition seqOf :: "(int \<Rightarrow> thread_record option) \<Rightarrow> thread_handle \<Rightarrow> u64" where
  "seqOf th h = (case th (h_id h) of None \<Rightarrow> 0 | Some r \<Rightarrow> tr_queueSequence r)"

definition holds :: "(int \<Rightarrow> thread_record option) \<Rightarrow> place \<Rightarrow> thread_handle set" where
  "holds th pl = {h. \<exists>r. th (h_id h) = Some r \<and> h = handleOf (h_id h) r \<and> placeOf r = Some pl}"

definition W ::
  "(int \<Rightarrow> thread_record option) \<Rightarrow> (place \<Rightarrow> thread_handle list) \<Rightarrow> int option \<Rightarrow> u64 \<Rightarrow> bool"
where
  "W th qs cur nx =
     (finite (dom th) \<and> nx \<noteq> 0
      \<and> (\<forall>i r. th i = Some r \<longrightarrow> 0 < i \<and> thread_ok r \<and> tr_queueSequence r < nx
            \<and> (tr_state r = Running \<longleftrightarrow> cur = Some i))
      \<and> (\<forall>i. cur = Some i \<longrightarrow> i \<in> dom th)
      \<and> (\<forall>i r j q. th i = Some r \<longrightarrow> th j = Some q \<longrightarrow> tr_queueSequence r \<noteq> 0 \<longrightarrow>
            tr_queueSequence r = tr_queueSequence q \<longrightarrow> i = j)
      \<and> (\<forall>pl. set (qs pl) = holds th pl
            \<and> sorted_wrt (\<lambda>a b. seqOf th a < seqOf th b) (qs pl)))"

lemma W_D:
  assumes "W th qs cur nx"
  shows "finite (dom th)" "nx \<noteq> 0"
    and "\<And>i r. th i = Some r \<Longrightarrow> 0 < i"
    and "\<And>i r. th i = Some r \<Longrightarrow> thread_ok r"
    and "\<And>i r. th i = Some r \<Longrightarrow> tr_queueSequence r < nx"
    and "\<And>i r. th i = Some r \<Longrightarrow> tr_state r = Running \<longleftrightarrow> cur = Some i"
    and "\<And>i. cur = Some i \<Longrightarrow> \<exists>r. th i = Some r \<and> tr_state r = Running"
    and "\<And>i r j q. th i = Some r \<Longrightarrow> th j = Some q \<Longrightarrow> tr_queueSequence r \<noteq> 0 \<Longrightarrow>
            tr_queueSequence r = tr_queueSequence q \<Longrightarrow> i = j"
    and "\<And>pl. set (qs pl) = holds th pl"
    and "\<And>pl. sorted_wrt (\<lambda>a b. seqOf th a < seqOf th b) (qs pl)"
  using assms unfolding W_def by (blast, blast, blast, blast, blast, blast, (metis domD), blast, blast, blast)

lemma seqOf_upd: "h_id h \<noteq> i \<Longrightarrow> seqOf (th(i := x)) h = seqOf th h"
  by (simp add: seqOf_def)

lemma holds_upd_None: "holds (th(i := None)) pl = {h \<in> holds th pl. h_id h \<noteq> i}"
  by (auto simp: holds_def)

lemma holds_upd_Some:
  "holds (th(i := Some r)) pl =
     {h \<in> holds th pl. h_id h \<noteq> i} \<union> (if placeOf r = Some pl then {handleOf i r} else {})"
  by (auto simp: holds_def handleOf_def)

lemma holds_id: "th i = Some r \<Longrightarrow> h \<in> holds th pl \<Longrightarrow> h_id h = i \<longleftrightarrow> h = handleOf i r"
  by (auto simp: holds_def handleOf_def)

lemma holds_place: "th i = Some r \<Longrightarrow> handleOf i r \<in> holds th pl \<longleftrightarrow> placeOf r = Some pl"
  by (auto simp: holds_def handleOf_def)

text \<open>The place function with one handle taken out of the queue its record names.\<close>

definition takenOut ::
  "(place \<Rightarrow> thread_handle list) \<Rightarrow> int \<Rightarrow> thread_record \<Rightarrow> place \<Rightarrow> thread_handle list"
where
  "takenOut qs i r pl = (if placeOf r = Some pl then remove1 (handleOf i r) (qs pl) else qs pl)"

lemma W_remove:
  assumes W: "W th qs cur nx" and i: "th i = Some r"
  shows "W (th(i := None)) (takenOut qs i r) (if cur = Some i then None else cur) nx"
proof -
  note D = W_D [OF W]
  have dist: "distinct (qs pl)" for pl using D(10) [of pl] by (rule sorted_wrt_key_distinct)
  have set: "set (takenOut qs i r pl) = holds (th(i := None)) pl" for pl
  proof -
    have "set (takenOut qs i r pl) = {h \<in> set (qs pl). h \<noteq> handleOf i r}"
      using D(9) [of pl] holds_place [of th i r pl, OF i] dist by (auto simp: takenOut_def)
    then show ?thesis using D(9) [of pl] holds_id [of th i r _ pl, OF i] by (auto simp: holds_upd_None)
  qed
  have "sorted_wrt (\<lambda>a b. seqOf (th(i := None)) a < seqOf (th(i := None)) b) (takenOut qs i r pl)" for pl
  proof -
    have "sorted_wrt (\<lambda>a b. seqOf th a < seqOf th b) (takenOut qs i r pl)"
      using D(10) [of pl] sorted_wrt_remove1 by (auto simp: takenOut_def)
    then show ?thesis
      by (subst sorted_wrt_cong_set [of _ _ "\<lambda>a b. seqOf th a < seqOf th b"])
        (auto simp: set holds_upd_None seqOf_upd)
  qed
  moreover have "finite (dom (th(i := None)))" using D(1) by simp
  moreover have "tr_state q = Running \<longleftrightarrow> (if cur = Some i then None else cur) = Some j"
    if "j \<noteq> i" "th j = Some q" for j q
    using D(6) [OF that(2)] that(1) by auto
  moreover have "(if cur = Some i then None else cur) = Some j \<Longrightarrow> j \<in> dom (th(i := None))" for j
    using D(7) [of j] by (auto split: if_splits)
  ultimately show ?thesis
    using D(2-5) D(8) set unfolding W_def by (auto split: if_splits)
qed

lemma W_put:
  assumes W: "W th qs cur nx" and i: "th i = None" "0 < i"
    and r: "thread_ok r" "placeOf r = None" "tr_state r \<noteq> Running"
  shows "W (th(i := Some r)) qs cur nx"
proof -
  note D = W_D [OF W]
  have seq: "tr_queueSequence r = 0" using r(1, 2) by (auto simp: thread_ok_def Let_def)
  have ne: "h \<in> holds th pl \<Longrightarrow> h_id h \<noteq> i" for h pl using i(1) by (auto simp: holds_def)
  have cur: "cur \<noteq> Some i" using D(7) [of i] i(1) by auto
  have "holds (th(i := Some r)) pl = holds th pl" for pl
    using r(2) ne by (auto simp: holds_upd_Some)
  moreover have "sorted_wrt (\<lambda>a b. seqOf (th(i := Some r)) a < seqOf (th(i := Some r)) b) (qs pl)" for pl
    using D(10) [of pl]
    by (subst sorted_wrt_cong_set [of _ _ "\<lambda>a b. seqOf th a < seqOf th b"])
      (use ne D(9) in \<open>auto simp: seqOf_upd\<close>)
  moreover have "0 < nx" using D(2) by (simp add: word_gt_0)
  ultimately show ?thesis
    using D(1-8) D(9) cur seq i(2) r(1, 3) unfolding W_def by (auto split: if_splits)
qed

lemma W_enqueue:
  assumes W: "W th qs cur nx" and i: "th i = None" "0 < i"
    and r: "thread_ok r" "placeOf r = Some pl" "tr_queueSequence r = nx" and nx: "nx + 1 \<noteq> 0"
  shows "W (th(i := Some r)) (qs(pl := qs pl @ [handleOf i r])) cur (nx + 1)"
proof -
  note D = W_D [OF W]
  let ?th = "th(i := Some r)"
  have lt: "nx < nx + 1" using nx by (simp add: word_less_nat_alt unat_succ)
  have ne: "h \<in> holds th p \<Longrightarrow> h_id h \<noteq> i" for h p using i(1) by (auto simp: holds_def)
  have cur: "cur \<noteq> Some i" using D(7) [of i] i(1) by auto
  have st: "tr_state r \<noteq> Running" using r(2) by (auto simp: placeOf_def)
  have old: "seqOf ?th h = seqOf th h" "seqOf th h < nx" if "h \<in> holds th p" for h p
    using ne [OF that] that D(5) by (auto simp: seqOf_upd seqOf_def holds_def)
  have new: "seqOf ?th (handleOf i r) = nx" using r(3) by (simp add: seqOf_def handleOf_def)
  have sorted_old: "sorted_wrt (\<lambda>a b. seqOf ?th a < seqOf ?th b) (qs p)" for p
    using D(10) [of p]
    by (subst sorted_wrt_cong_set [of _ _ "\<lambda>a b. seqOf th a < seqOf th b"])
      (use old D(9) in auto)
  let ?qs = "qs(pl := qs pl @ [handleOf i r])"
  have q: "set (?qs p) = holds ?th p" for p
    using r(2) ne D(9) [of p] by (auto simp: holds_upd_Some)
  moreover have "sorted_wrt (\<lambda>a b. seqOf ?th a < seqOf ?th b) (?qs p)" for p
    using sorted_old [of p] old [of _ pl] new D(9) [of pl] by (auto simp: sorted_wrt_append)
  moreover have "tr_queueSequence q < nx + 1" if "th j = Some q" for j q
    using D(5) [OF that] lt by simp
  moreover have "tr_queueSequence q \<noteq> tr_queueSequence r" if "th j = Some q" for j q
    using D(5) [OF that] r(3) by auto
  ultimately show ?thesis
    using D(1) D(3, 4) D(6-8) cur i(2) r(1, 3) st nx lt unfolding W_def
    by (auto split: if_splits dest!: sym [of "tr_queueSequence r"])
qed

lemma W_run:
  assumes W: "W th qs None nx" and i: "th i = None" "0 < i"
    and r: "thread_ok r" "tr_state r = Running"
  shows "W (th(i := Some r)) qs (Some i) nx"
proof -
  note D = W_D [OF W]
  have pl: "placeOf r = None" using r(2) by (simp add: placeOf_def)
  have seq: "tr_queueSequence r = 0" using r(1) pl by (auto simp: thread_ok_def Let_def)
  have ne: "h \<in> holds th pl \<Longrightarrow> h_id h \<noteq> i" for h pl using i(1) by (auto simp: holds_def)
  have "holds (th(i := Some r)) p = holds th p" for p
    using pl ne by (auto simp: holds_upd_Some)
  moreover have "sorted_wrt (\<lambda>a b. seqOf (th(i := Some r)) a < seqOf (th(i := Some r)) b) (qs p)" for p
    using D(10) [of p]
    by (subst sorted_wrt_cong_set [of _ _ "\<lambda>a b. seqOf th a < seqOf th b"])
      (use ne D(9) in \<open>auto simp: seqOf_upd\<close>)
  moreover have "tr_state q \<noteq> Running" if "th j = Some q" for j q using D(6) [OF that] by simp
  moreover have "0 < nx" using D(2) by (simp add: word_gt_0)
  ultimately show ?thesis
    using D(1-5) D(8, 9) seq i(2) r unfolding W_def by (auto split: if_splits)
qed

lemma W_modify:
  assumes W: "W th qs cur nx" and i: "th i = Some r"
    and r: "thread_ok r'" "placeOf r' = placeOf r" "tr_generation r' = tr_generation r"
      "tr_queueSequence r' = tr_queueSequence r"
      "tr_state r' = Running \<longleftrightarrow> tr_state r = Running"
  shows "W (th(i := Some r')) qs cur nx"
proof -
  note D = W_D [OF W]
  have H: "holds (th(i := Some r')) pl = holds th pl" for pl
    using r(2, 3) i by (auto simp: holds_def handleOf_def)
  have S: "seqOf (th(i := Some r')) = seqOf th"
    using r(4) i by (auto simp: seqOf_def fun_eq_iff)
  have fin: "finite (dom (th(i := Some r')))" using D(1) by simp
  have inj: "tr_queueSequence q = tr_queueSequence p \<longrightarrow> tr_queueSequence q \<noteq> 0 \<longrightarrow> j = k"
    if "(th(i := Some r')) j = Some q" "(th(i := Some r')) k = Some p" for j k p q
    using that D(8) i r(4) by (auto split: if_splits)
  have each: "0 < j \<and> thread_ok q \<and> tr_queueSequence q < nx \<and> (tr_state q = Running \<longleftrightarrow> cur = Some j)"
    if "(th(i := Some r')) j = Some q" for j q
    using that D(3-6) [of j] i r by (auto split: if_splits)
  have cur: "cur = Some j \<Longrightarrow> j \<in> dom (th(i := Some r'))" for j
    using D(7) [of j] by auto
  show ?thesis
    unfolding W_def H S using fin inj each cur D(2, 9, 10) by blast
qed

section \<open>The invariant of a scheduler state\<close>

abbreviation thr :: "scheduler \<Rightarrow> int \<Rightarrow> thread_record option" where
  "thr s \<equiv> Mapping.lookup (ts_threads s)"

definition queueAt :: "scheduler \<Rightarrow> place \<Rightarrow> thread_handle list" where
  "queueAt s pl =
     (case pl of
        RQ p \<Rightarrow> if p < length (ts_readyQueues s) then ts_readyQueues s ! p else []
      | WQ w \<Rightarrow> Mapping.lookup_default [] (ts_waitQueues s) w)"

definition repOk :: "scheduler \<Rightarrow> bool" where
  "repOk s = (length (ts_readyQueues s) = 128 \<and> finite (Mapping.keys (ts_waitQueues s))
     \<and> (\<forall>w. Mapping.lookup (ts_waitQueues s) w \<noteq> Some []))"

definition ts_wf :: "scheduler \<Rightarrow> bool" where
  "ts_wf s = (repOk s \<and> W (thr s) (queueAt s) (ts_current s) (ts_nextQueueSequence s))"

lemma kEeThreadPriorityCount_nat: "validPriority p \<Longrightarrow> nat p < 128 \<and> int (nat p) = p"
  by (simp add: validPriority_def kEeThreadPriorityCount_def nat_less_iff)

lemma lookup_delete': "Mapping.lookup (Mapping.delete k m) k' = (if k = k' then None else Mapping.lookup m k')"
  by (cases "k = k'") simp_all

lemma lookup_default_update: "Mapping.lookup_default d (Mapping.update k v m) = (Mapping.lookup_default d m)(k := v)"
  by (auto simp: fun_eq_iff Mapping.lookup_default_def lookup_update')

lemma lookup_default_delete: "Mapping.lookup_default d (Mapping.delete k m) = (Mapping.lookup_default d m)(k := d)"
  by (auto simp: fun_eq_iff Mapping.lookup_default_def lookup_delete')

lemma thr_put: "thr (putThread i r s) = (thr s)(i := Some r)"
  by (auto simp: putThread_def fun_eq_iff lookup_update')

lemma putThread_fields [simp]:
  "ts_readyQueues (putThread i r s) = ts_readyQueues s"
  "ts_waitQueues (putThread i r s) = ts_waitQueues s"
  "ts_current (putThread i r s) = ts_current s"
  "ts_nextQueueSequence (putThread i r s) = ts_nextQueueSequence s"
  "ts_canonicalTick (putThread i r s) = ts_canonicalTick s"
  by (simp_all add: putThread_def)

lemma recordTransition_fields [simp]:
  "ts_threads (recordTransition a b c d s) = ts_threads s"
  "ts_readyQueues (recordTransition a b c d s) = ts_readyQueues s"
  "ts_waitQueues (recordTransition a b c d s) = ts_waitQueues s"
  "ts_current (recordTransition a b c d s) = ts_current s"
  "ts_nextQueueSequence (recordTransition a b c d s) = ts_nextQueueSequence s"
  "ts_canonicalTick (recordTransition a b c d s) = ts_canonicalTick s"
  by (simp_all add: recordTransition_def Let_def split: option.split)

text \<open>The invariant only reads five fields.\<close>

lemma ts_wf_cong:
  assumes "ts_threads s = ts_threads t" "ts_readyQueues s = ts_readyQueues t"
    "ts_waitQueues s = ts_waitQueues t" "ts_current s = ts_current t"
    "ts_nextQueueSequence s = ts_nextQueueSequence t"
  shows "ts_wf s = ts_wf t"
proof -
  have "queueAt s = queueAt t" by (simp add: fun_eq_iff queueAt_def assms split: place.split)
  then show ?thesis by (simp add: ts_wf_def repOk_def assms)
qed

lemma ts_wf_record [simp]: "ts_wf (recordTransition a b c d s) = ts_wf s"
  by (rule ts_wf_cong) simp_all

lemma queueAt_ready:
  "p < length (ts_readyQueues s) \<Longrightarrow> ts_readyQueues t = (ts_readyQueues s)[p := q] \<Longrightarrow>
    ts_waitQueues t = ts_waitQueues s \<Longrightarrow> queueAt t = (queueAt s)(RQ p := q)"
  by (auto simp: fun_eq_iff queueAt_def nth_list_update split: place.split)

lemma queueAt_wait:
  "ts_readyQueues t = ts_readyQueues s \<Longrightarrow> ts_waitQueues t = Mapping.update w q (ts_waitQueues s) \<Longrightarrow>
    queueAt t = (queueAt s)(WQ w := q)"
  by (auto simp: fun_eq_iff queueAt_def lookup_default_update split: place.split)

lemma queueAt_same:
  "ts_readyQueues t = ts_readyQueues s \<Longrightarrow> ts_waitQueues t = ts_waitQueues s \<Longrightarrow> queueAt t = queueAt s"
  by (auto simp: fun_eq_iff queueAt_def split: place.split)

lemma queueAt_dropFront: "queueAt (dropFront w rest s) = (queueAt s)(WQ w := rest)"
  by (auto simp: fun_eq_iff queueAt_def dropFront_def lookup_default_update lookup_default_delete
      split: place.split)

lemma dropFront_fields [simp]:
  "ts_threads (dropFront w rest s) = ts_threads s"
  "ts_readyQueues (dropFront w rest s) = ts_readyQueues s"
  "ts_current (dropFront w rest s) = ts_current s"
  "ts_nextQueueSequence (dropFront w rest s) = ts_nextQueueSequence s"
  "ts_canonicalTick (dropFront w rest s) = ts_canonicalTick s"
  by (simp_all add: dropFront_def)

lemma repOk_dropFront: "repOk s \<Longrightarrow> repOk (dropFront w rest s)"
  by (auto simp: repOk_def dropFront_def lookup_update' lookup_delete')

lemma ts_wfD: "ts_wf s \<Longrightarrow> W (thr s) (queueAt s) (ts_current s) (ts_nextQueueSequence s)"
  by (simp add: ts_wf_def)

lemma ts_wfI:
  "repOk s \<Longrightarrow> W th qs cur nx \<Longrightarrow> thr s = th \<Longrightarrow> queueAt s = qs \<Longrightarrow> ts_current s = cur \<Longrightarrow>
    ts_nextQueueSequence s = nx \<Longrightarrow> ts_wf s"
  by (simp add: ts_wf_def)

lemma findThread_Some:
  "findThread h s = Some r \<longleftrightarrow> handle_valid h \<and> thr s (h_id h) = Some r \<and> h = handleOf (h_id h) r"
  by (cases h) (auto simp: findThread_def findIn_def handleOf_def split: option.split)

end
