(* ===== verification/EeThreadOps.thy ===== *)
theory EeThreadOps
  imports EeThreadInv
begin

text \<open>
  Every operation of the thread scheduler keeps \<open>ts_wf\<close>. \<open>ts_out i s\<close> is the state in the
  middle of an operation: thread \<open>i\<close> is in no queue and not on the processor, everything else
  is consistent. The operations detach a thread into such a state and put it back.
\<close>

named_theorems out_intros \<open>putting a detached thread back\<close>

section \<open>Detached threads\<close>

definition ts_out :: "int \<Rightarrow> scheduler \<Rightarrow> bool" where
  "ts_out i s = (repOk s \<and> 0 < i
     \<and> W ((thr s)(i := None)) (queueAt s) (ts_current s) (ts_nextQueueSequence s))"

definition room :: "scheduler \<Rightarrow> bool" where
  "room s = (ts_nextQueueSequence s + 1 \<noteq> 0)"

lemma takenOut_idle: "placeOf r = None \<Longrightarrow> takenOut qs i r = qs"
  by (simp add: takenOut_def fun_eq_iff)

lemma takenOut_at: "placeOf r = Some pl \<Longrightarrow> takenOut qs i r = qs(pl := remove1 (handleOf i r) (qs pl))"
  by (auto simp: takenOut_def fun_eq_iff)

lemma out_current:
  assumes "ts_wf s" and "ts_current s = Some i"
  shows "ts_out i (s\<lparr>ts_current := None\<rparr>)"
proof -
  note W = ts_wfD [OF assms(1)]
  from W_D(7) [OF W assms(2)] obtain r where r: "thr s i = Some r" "tr_state r = Running" by auto
  have "placeOf r = None" using r(2) by (simp add: placeOf_def)
  then show ?thesis
    using W_remove [OF W r(1)] W_D(3) [OF W r(1)] assms queueAt_same [of "s\<lparr>ts_current := None\<rparr>" s]
    by (auto simp: ts_out_def takenOut_idle ts_wf_def repOk_def)
qed

lemma out_idle:
  assumes "ts_wf s" and "thr s i = Some r" and "placeOf r = None" and "tr_state r \<noteq> Running"
  shows "ts_out i s"
proof -
  note W = ts_wfD [OF assms(1)]
  have "ts_current s \<noteq> Some i" using W_D(6) [OF W assms(2)] assms(4) by simp
  then show ?thesis
    using W_remove [OF W assms(2)] W_D(3) [OF W assms(2)] assms
    by (auto simp: ts_out_def takenOut_idle ts_wf_def)
qed

lemma out_new: "ts_wf s \<Longrightarrow> thr s i = None \<Longrightarrow> 0 < i \<Longrightarrow> ts_out i s"
  by (auto simp: ts_out_def ts_wf_def fun_upd_idem)

lemma queueAt_RQ: "p < length (ts_readyQueues s) \<Longrightarrow> queueAt s (RQ p) = ts_readyQueues s ! p"
  by (simp add: queueAt_def)

lemma out_ready:
  assumes "ts_wf s" and "thr s i = Some r" and "tr_state r = Ready"
  shows "\<exists>s1. removeReady (handleOf i r) (tr_priority r) s = (s1, True) \<and> ts_out i s1
     \<and> ts_threads s1 = ts_threads s \<and> ts_nextQueueSequence s1 = ts_nextQueueSequence s
     \<and> ts_current s1 = ts_current s \<and> ts_canonicalTick s1 = ts_canonicalTick s
     \<and> ts_waitQueues s1 = ts_waitQueues s
     \<and> queueAt s1 = takenOut (queueAt s) i r"
proof -
  note W = ts_wfD [OF assms(1)]
  have pr: "validPriority (tr_priority r)" using W_D(4) [OF W assms(2)]
    by (simp add: thread_ok_def Let_def)
  let ?p = "nat (tr_priority r)" and ?h = "handleOf i r"
  have len: "length (ts_readyQueues s) = 128" using assms(1) by (simp add: ts_wf_def repOk_def)
  have p: "?p < length (ts_readyQueues s)" using kEeThreadPriorityCount_nat [OF pr] len by simp
  have pl: "placeOf r = Some (RQ ?p)" using assms(3) by (simp add: placeOf_def)
  have mem: "?h \<in> set (ts_readyQueues s ! ?p)"
    using W_D(9) [OF W, of "RQ ?p"] holds_place [of "thr s" i r "RQ ?p", OF assms(2)] pl
    by (simp add: queueAt_RQ [OF p])
  let ?s1 = "s\<lparr>ts_readyQueues := (ts_readyQueues s)[?p := remove1 ?h (ts_readyQueues s ! ?p)]\<rparr>"
  have "removeReady ?h (tr_priority r) s = (?s1, True)"
    using pr mem by (simp add: removeReady_def Let_def)
  moreover have q: "queueAt ?s1 = takenOut (queueAt s) i r"
    by (simp add: takenOut_at [OF pl] queueAt_ready [OF p, of ?s1] queueAt_RQ [OF p])
  moreover have "ts_current s \<noteq> Some i" using W_D(6) [OF W assms(2)] assms(3) by simp
  then have "ts_out i ?s1"
    using W_remove [OF W assms(2)] W_D(3) [OF W assms(2)] assms(1) q
    by (simp add: ts_out_def ts_wf_def repOk_def)
  ultimately show ?thesis by (intro exI [of _ ?s1]) simp
qed

lemma out_wait:
  assumes "ts_wf s" and "thr s i = Some r" and "tr_state r = Waiting \<or> tr_state r = WaitSuspended"
  shows "\<exists>s1. removeWait (handleOf i r) (tr_wait r) s = (s1, True) \<and> ts_out i s1
     \<and> ts_threads s1 = ts_threads s \<and> ts_nextQueueSequence s1 = ts_nextQueueSequence s
     \<and> ts_current s1 = ts_current s \<and> ts_canonicalTick s1 = ts_canonicalTick s
     \<and> ts_readyQueues s1 = ts_readyQueues s
     \<and> queueAt s1 = takenOut (queueAt s) i r"
proof -
  note W = ts_wfD [OF assms(1)]
  let ?w = "tr_wait r" and ?h = "handleOf i r"
  have pl: "placeOf r = Some (WQ ?w)" using assms(3) by (auto simp: placeOf_def)
  have mem: "?h \<in> set (queueAt s (WQ ?w))"
    using W_D(9) [OF W, of "WQ ?w"] holds_place [of "thr s" i r "WQ ?w", OF assms(2)] pl by simp
  then obtain q where q: "Mapping.lookup (ts_waitQueues s) ?w = Some q" and mq: "?h \<in> set q"
    and qa: "queueAt s (WQ ?w) = q"
    by (cases "Mapping.lookup (ts_waitQueues s) ?w") (auto simp: queueAt_def Mapping.lookup_default_def)
  let ?s1 = "dropFront ?w (remove1 ?h q) s"
  have "removeWait ?h ?w s = (?s1, True)" using q mq by (simp add: removeWait_def)
  moreover have qs: "queueAt ?s1 = takenOut (queueAt s) i r"
    by (simp add: queueAt_dropFront takenOut_at [OF pl] qa)
  moreover have "ts_current s \<noteq> Some i" using W_D(6) [OF W assms(2)] assms(3) by auto
  then have "ts_out i ?s1"
    using W_remove [OF W assms(2)] W_D(3) [OF W assms(2)] assms(1) qs repOk_dropFront
    by (auto simp: ts_out_def ts_wf_def)
  ultimately show ?thesis by (intro exI [of _ ?s1]) simp
qed

lemma queueAt_put [simp]: "queueAt (putThread i r s) = queueAt s"
  by (rule queueAt_same) simp_all

lemma repOk_put [simp]: "repOk (putThread i r s) = repOk s"
  by (simp add: repOk_def)

lemma out_put [out_intros]:
  assumes "ts_out i s" and "thread_ok r" and "placeOf r = None" and "tr_state r \<noteq> Running"
  shows "ts_wf (putThread i r s)"
  using assms W_put [of "(thr s)(i := None)" "queueAt s" "ts_current s" "ts_nextQueueSequence s" i r]
  by (simp add: ts_out_def ts_wf_def thr_put)

definition readied :: "u64 \<Rightarrow> thread_record \<Rightarrow> thread_record" where
  "readied nx r = r\<lparr>tr_state := Ready, tr_wait := noWait, tr_queueSequence := nx\<rparr>"

lemma enqueueReady_fields:
  "thr (enqueueReady i r s) = (thr s)(i := Some (readied (ts_nextQueueSequence s) r))"
  "ts_current (enqueueReady i r s) = ts_current s"
  "ts_nextQueueSequence (enqueueReady i r s) = ts_nextQueueSequence s + 1"
  "ts_waitQueues (enqueueReady i r s) = ts_waitQueues s"
  "ts_canonicalTick (enqueueReady i r s) = ts_canonicalTick s"
  "repOk s \<Longrightarrow> repOk (enqueueReady i r s)"
  by (auto simp: enqueueReady_def Let_def readied_def putThread_def fun_eq_iff lookup_update' repOk_def)

lemma queueAt_enqueueReady:
  assumes "repOk s" and "validPriority (tr_priority r)"
  shows "queueAt (enqueueReady i r s) = (queueAt s)
     (RQ (nat (tr_priority r)) := queueAt s (RQ (nat (tr_priority r))) @ [handleOf i r])"
proof -
  have p: "nat (tr_priority r) < length (ts_readyQueues s)"
    using assms kEeThreadPriorityCount_nat by (simp add: repOk_def)
  show ?thesis
    unfolding queueAt_RQ [OF p]
    by (rule queueAt_ready [OF p]) (simp_all add: enqueueReady_def Let_def handleOf_def)
qed

lemma out_enqueue [out_intros]:
  assumes "ts_out i s" and "room s" and "thread_ok (readied (ts_nextQueueSequence s) r)"
  shows "ts_wf (enqueueReady i r s)"
proof -
  let ?r = "readied (ts_nextQueueSequence s) r" and ?p = "nat (tr_priority r)"
  have pr: "validPriority (tr_priority r)"
    using assms(3) by (simp add: thread_ok_def Let_def readied_def)
  have rep: "repOk s" using assms(1) by (simp add: ts_out_def)
  have pl: "placeOf ?r = Some (RQ ?p)" by (simp add: placeOf_def readied_def)
  have h: "handleOf i ?r = handleOf i r" by (simp add: handleOf_def readied_def)
  have "W ((thr s)(i := Some ?r)) ((queueAt s)(RQ ?p := queueAt s (RQ ?p) @ [handleOf i r]))
      (ts_current s) (ts_nextQueueSequence s + 1)"
    using W_enqueue [of "(thr s)(i := None)" "queueAt s" "ts_current s" "ts_nextQueueSequence s" i ?r, OF _ _ _ assms(3) pl]
      assms(1, 2) by (simp add: ts_out_def room_def h) (simp add: readied_def)
  then show ?thesis
    by (simp add: ts_wf_def enqueueReady_fields rep queueAt_enqueueReady [OF rep pr])
qed

section \<open>Selecting the next thread\<close>

definition running :: "thread_record \<Rightarrow> thread_record" where
  "running r = r\<lparr>tr_state := Running, tr_retainCompletedWaitReason := False, tr_queueSequence := 0\<rparr>"

lemma scanQueue_fresh:
  "(\<And>h. h \<in> set q \<Longrightarrow> \<exists>r. findIn th h = Some r \<and> tr_state r = Ready) \<Longrightarrow>
    scanQueue th q = (case q of [] \<Rightarrow> (None, []) | h # q' \<Rightarrow> (Some (h, the (findIn th h)), q'))"
proof (cases q)
  case (Cons h q')
  assume "\<And>h. h \<in> set q \<Longrightarrow> \<exists>r. findIn th h = Some r \<and> tr_state r = Ready"
  from this [of h] Cons show ?thesis by auto
qed simp

lemma scanQueues_fresh:
  assumes "\<And>q h. q \<in> set qs \<Longrightarrow> h \<in> set q \<Longrightarrow> \<exists>r. findIn th h = Some r \<and> tr_state r = Ready"
  shows "(\<forall>q\<in>set qs. q = []) \<and> scanQueues th qs = (None, qs)
    \<or> (\<exists>p h q r. p < length qs \<and> (\<forall>i<p. qs ! i = []) \<and> qs ! p = h # q \<and> findIn th h = Some r
         \<and> scanQueues th qs = (Some (h, r), qs[p := q]))"
  using assms
proof (induction qs)
  case Nil
  then show ?case by simp
next
  case (Cons q qs)
  have fresh: "scanQueue th q = (case q of [] \<Rightarrow> (None, []) | h # q' \<Rightarrow> (Some (h, the (findIn th h)), q'))"
    by (rule scanQueue_fresh) (use Cons.prems in auto)
  show ?case
  proof (cases q)
    case (Cons h q')
    moreover obtain r where "findIn th h = Some r" using Cons.prems [of q h] Cons by auto
    ultimately show ?thesis using fresh
      by (intro disjI2 exI [of _ 0] exI [of _ h] exI [of _ q'] exI [of _ r]) simp
  next
    case Nil
    from Cons.IH Cons.prems have "(\<forall>q\<in>set qs. q = []) \<and> scanQueues th qs = (None, qs)
      \<or> (\<exists>p h q r. p < length qs \<and> (\<forall>i<p. qs ! i = []) \<and> qs ! p = h # q \<and> findIn th h = Some r
           \<and> scanQueues th qs = (Some (h, r), qs[p := q]))" by auto
    then show ?thesis
    proof (elim disjE exE conjE)
      fix p h q' r
      assume "p < length qs" "\<forall>i<p. qs ! i = []" "qs ! p = h # q'" "findIn th h = Some r"
        "scanQueues th qs = (Some (h, r), qs[p := q'])"
      then show ?thesis using fresh Nil
        by (intro disjI2 exI [of _ "Suc p"] exI [of _ h] exI [of _ q'] exI [of _ r])
          (auto simp: less_Suc_eq_0_disj)
    qed (use fresh Nil in simp)
  qed
qed

lemma ready_handle:
  assumes "ts_wf s" and "p < 128" and "h \<in> set (ts_readyQueues s ! p)"
  shows "\<exists>r. thr s (h_id h) = Some r \<and> h = handleOf (h_id h) r \<and> tr_state r = Ready
     \<and> nat (tr_priority r) = p \<and> findIn (ts_threads s) h = Some r"
proof -
  note W = ts_wfD [OF assms(1)]
  have "h \<in> holds (thr s) (RQ p)"
    using W_D(9) [OF W, of "RQ p"] assms by (simp add: queueAt_def ts_wf_def repOk_def)
  then obtain r where r: "thr s (h_id h) = Some r" "h = handleOf (h_id h) r" "placeOf r = Some (RQ p)"
    by (auto simp: holds_def)
  moreover have "tr_generation r \<noteq> 0" using W_D(4) [OF W r(1)] by (simp add: thread_ok_def Let_def)
  then have "findIn (ts_threads s) h = Some r"
    using r W_D(3) [OF W r(1)] findThread_Some [of h s r]
    by (cases h) (simp add: findThread_def handle_valid_def handleOf_def)
  ultimately show ?thesis by (auto simp: placeOf_def split: thread_state.splits)
qed

lemma ready_queued:
  assumes "ts_wf s" and "thr s i = Some r" and "tr_state r = Ready"
  shows "handleOf i r \<in> set (ts_readyQueues s ! nat (tr_priority r))" and "nat (tr_priority r) < 128"
    and "int (nat (tr_priority r)) = tr_priority r"
proof -
  note W = ts_wfD [OF assms(1)]
  have pr: "validPriority (tr_priority r)" using W_D(4) [OF W assms(2)]
    by (simp add: thread_ok_def Let_def)
  then show p: "nat (tr_priority r) < 128" and "int (nat (tr_priority r)) = tr_priority r"
    using kEeThreadPriorityCount_nat by auto
  have "placeOf r = Some (RQ (nat (tr_priority r)))" using assms(3) by (simp add: placeOf_def)
  then have "handleOf i r \<in> set (queueAt s (RQ (nat (tr_priority r))))"
    using W_D(9) [OF W] holds_place [of "thr s" i r, OF assms(2)] by simp
  then show "handleOf i r \<in> set (ts_readyQueues s ! nat (tr_priority r))"
    using assms(1) p by (simp add: queueAt_def ts_wf_def repOk_def)
qed

text \<open>The queue position of a ready thread: priority first, then the sequence number.\<close>

definition urgency :: "thread_record \<Rightarrow> int \<times> u64" where
  "urgency r = (tr_priority r, tr_queueSequence r)"

definition noMoreUrgentThan :: "thread_record \<Rightarrow> thread_record \<Rightarrow> bool" where
  "noMoreUrgentThan r q = (tr_priority r < tr_priority q
     \<or> tr_priority r = tr_priority q \<and> tr_queueSequence r \<le> tr_queueSequence q)"

lemma takeNextReady_spec:
  assumes wf: "ts_wf s"
  shows "(\<forall>i r. thr s i = Some r \<longrightarrow> tr_state r \<noteq> Ready) \<and> takeNextReady s = (s, None)
     \<and> (\<forall>q\<in>set (ts_readyQueues s). q = [])
    \<or> (\<exists>i r s'. takeNextReady s = (s', Some i) \<and> thr s i = Some r \<and> tr_state r = Ready
         \<and> (\<forall>j q. thr s j = Some q \<longrightarrow> tr_state q = Ready \<longrightarrow> noMoreUrgentThan r q)
         \<and> thr s' = (thr s)(i := Some (running r)) \<and> queueAt s' = takenOut (queueAt s) i r
         \<and> ts_current s' = Some i \<and> ts_nextQueueSequence s' = ts_nextQueueSequence s
         \<and> ts_waitQueues s' = ts_waitQueues s \<and> ts_canonicalTick s' = ts_canonicalTick s \<and> repOk s')"
proof -
  note W = ts_wfD [OF wf]
  let ?rq = "ts_readyQueues s"
  have len: "length ?rq = 128" using wf by (simp add: ts_wf_def repOk_def)
  have fresh: "\<exists>r. findIn (ts_threads s) h = Some r \<and> tr_state r = Ready"
    if "q \<in> set ?rq" "h \<in> set q" for q h
    using that ready_handle [OF wf] len by (auto simp: in_set_conv_nth)
  have "(\<forall>q\<in>set ?rq. q = []) \<and> scanQueues (ts_threads s) ?rq = (None, ?rq)
    \<or> (\<exists>p h q r. p < length ?rq \<and> (\<forall>i<p. ?rq ! i = []) \<and> ?rq ! p = h # q
         \<and> findIn (ts_threads s) h = Some r \<and> scanQueues (ts_threads s) ?rq = (Some (h, r), ?rq[p := q]))"
    by (rule scanQueues_fresh) (rule fresh)
  then show ?thesis
  proof (elim disjE exE conjE)
    assume e: "\<forall>q\<in>set ?rq. q = []" and sc: "scanQueues (ts_threads s) ?rq = (None, ?rq)"
    have "tr_state r \<noteq> Ready" if "thr s i = Some r" for i r
    proof
      assume "tr_state r = Ready"
      from ready_queued [OF wf that this] e len show False
        by (metis empty_iff list.set(1) nth_mem)
    qed
    then show ?thesis using sc e by (auto simp: takeNextReady_def)
  next
    fix p h q r
    assume p: "p < length ?rq" and before: "\<forall>i<p. ?rq ! i = []" and at: "?rq ! p = h # q"
      and f: "findIn (ts_threads s) h = Some r"
      and sc: "scanQueues (ts_threads s) ?rq = (Some (h, r), ?rq[p := q])"
    from ready_handle [OF wf _, of p h] p len at f have
      r: "thr s (h_id h) = Some r" "h = handleOf (h_id h) r" "tr_state r = Ready" "nat (tr_priority r) = p"
      by auto
    let ?i = "h_id h"
    have pl: "placeOf r = Some (RQ p)" using r by (simp add: placeOf_def)
    let ?s' = "(putThread ?i (running r) (s\<lparr>ts_readyQueues := ?rq[p := q]\<rparr>))\<lparr>ts_current := Some ?i\<rparr>"
    have tk: "takeNextReady s = (?s', Some ?i)"
      using sc by (simp add: takeNextReady_def running_def)
    have qa: "queueAt s (RQ p) = h # q" using p at by (simp add: queueAt_def)
    have qs: "queueAt ?s' = takenOut (queueAt s) ?i r"
      using r(2) qa
      by (subst queueAt_ready [OF p, of ?s' q]) (simp_all add: takenOut_at [OF pl])
    have least: "noMoreUrgentThan r x" if x: "thr s j = Some x" "tr_state x = Ready" for j x
    proof -
      let ?px = "nat (tr_priority x)"
      note rx = ready_queued [OF wf x] and rr = ready_queued [OF wf r(1, 3)]
      have "\<not> ?px < p" using before rx(1) by auto
      moreover have "tr_queueSequence r \<le> tr_queueSequence x" if same: "?px = p"
      proof -
        have "handleOf j x = h \<or> handleOf j x \<in> set q" using rx(1) same at by auto
        moreover have "sorted_wrt (\<lambda>a b. seqOf (thr s) a < seqOf (thr s) b) (h # q)"
          using W_D(10) [OF W, of "RQ p"] qa by simp
        moreover have "seqOf (thr s) (handleOf j x) = tr_queueSequence x"
          using x(1) by (simp add: seqOf_def handleOf_def)
        moreover have "seqOf (thr s) h = tr_queueSequence r" using r(1) by (simp add: seqOf_def)
        ultimately show ?thesis by (auto intro: less_imp_le)
      qed
      moreover have "tr_priority x = int ?px" using rx(3) by (rule sym)
      moreover have "tr_priority r = int p" using rr(3) unfolding r(4) by (rule sym)
      ultimately show ?thesis
        by (cases "p < ?px") (simp_all only: noMoreUrgentThan_def, simp_all add: zless_nat_eq_int_zless)
    qed
    have "thr ?s' = (thr s)(?i := Some (running r))"
      by (simp add: putThread_def fun_eq_iff lookup_update')
    moreover have "repOk ?s'" using wf by (simp add: ts_wf_def repOk_def)
    ultimately show ?thesis
      using tk r qs least
      by (intro disjI2 exI [of _ ?i] exI [of _ r] exI [of _ ?s']) simp
  qed
qed

lemma running_ok: "thread_ok r \<Longrightarrow> tr_state r = Ready \<Longrightarrow> thread_ok (running r) \<and> tr_state (running r) = Running"
  by (auto simp: thread_ok_def running_def placeOf_def Let_def)

lemma takeNextReady_wf [out_intros]:
  assumes wf: "ts_wf s" and cur: "ts_current s = None"
  shows "ts_wf (fst (takeNextReady s))"
  using takeNextReady_spec [OF wf]
proof (elim disjE exE conjE)
  fix i r s'
  assume tk: "takeNextReady s = (s', Some i)" and r: "thr s i = Some r" "tr_state r = Ready"
    and s': "thr s' = (thr s)(i := Some (running r))" "queueAt s' = takenOut (queueAt s) i r"
      "ts_current s' = Some i" "ts_nextQueueSequence s' = ts_nextQueueSequence s" "repOk s'"
  note W = ts_wfD [OF wf]
  have "W ((thr s)(i := None)) (takenOut (queueAt s) i r) None (ts_nextQueueSequence s)"
    using W_remove [OF W r(1)] cur by simp
  from W_run [OF this, of i "running r"] W_D(3, 4) [OF W r(1)] running_ok [of r] r(2)
  have "W ((thr s)(i := Some (running r))) (takenOut (queueAt s) i r) (Some i) (ts_nextQueueSequence s)"
    by simp
  then show ?thesis using s' tk by (simp add: ts_wf_def)
qed (simp add: wf)

lemma takeNextReady_current:
  assumes "ts_wf s" and "ts_current s = None"
  shows "ts_current (fst (takeNextReady s)) = snd (takeNextReady s)"
  using takeNextReady_spec [OF assms(1)] assms(2) by auto

end
