(* ===== verification/EeThreadSteps.thy ===== *)
theory EeThreadSteps
  imports EeThreadOps
begin

text \<open>
  Each operation of the thread scheduler keeps \<open>ts_wf\<close>: a thread leaves its place with one
  of the \<open>out_*\<close> lemmas and is put back with one of \<open>out_intros\<close>, or its record changes in
  place.
\<close>

section \<open>Changing a record in place\<close>

lemma wf_modify:
  assumes "ts_wf s" and "thr s i = Some r" and "thread_ok r'"
    and "placeOf r' = placeOf r" "tr_generation r' = tr_generation r"
      "tr_queueSequence r' = tr_queueSequence r"
      "tr_state r' = Running \<longleftrightarrow> tr_state r = Running"
  shows "ts_wf (putThread i r' s)"
  using W_modify [OF ts_wfD [OF assms(1)] assms(2-7)] assms(1)
  by (simp add: ts_wf_def thr_put)

lemma thr_ok: "ts_wf s \<Longrightarrow> thr s i = Some r \<Longrightarrow> thread_ok r \<and> 0 < i"
  using W_D(3, 4) [OF ts_wfD] by blast

lemma current_running:
  "ts_wf s \<Longrightarrow> thr s i = Some r \<Longrightarrow> tr_state r = Running \<longleftrightarrow> ts_current s = Some i"
  using W_D(6) [OF ts_wfD] by blast

lemma currentRunning_Some:
  assumes "ts_wf s"
  shows "currentRunning s = Some (i, r) \<longleftrightarrow> ts_current s = Some i \<and> thr s i = Some r"
  using current_running [OF assms] by (auto simp: currentRunning_def split: option.splits)

lemma currentRunning_None:
  assumes "ts_wf s"
  shows "currentRunning s = None \<longleftrightarrow> ts_current s = None"
  using W_D(7) [OF ts_wfD [OF assms]]
  by (auto simp: currentRunning_def split: option.splits)

text \<open>Which idle or ready records a consistent record can turn into.\<close>

lemma readied_ok:
  assumes "thread_ok r" and "nx \<noteq> 0" and "tr_suspendCount r = 0"
  shows "thread_ok (readied nx r)"
  using assms by (auto simp: thread_ok_def readied_def Let_def placeOf_def noWait_def wait_valid_def)

lemma madeDormant_ok:
  "thread_ok r \<Longrightarrow> thread_ok (madeDormant r)" "placeOf (madeDormant r) = None"
  "tr_state (madeDormant r) = Dormant"
  by (auto simp: thread_ok_def madeDormant_def Let_def placeOf_def noWait_def wait_valid_def noCompleted_def)

lemma thread_ok_cases:
  assumes "thread_ok r"
  shows "tr_state r = Ready \<or> tr_state r = Running \<or> tr_state r = Dormant \<or> tr_state r = Waiting
      \<Longrightarrow> tr_suspendCount r = 0"
    and "tr_state r = Suspended \<or> tr_state r = WaitSuspended \<Longrightarrow> tr_suspendCount r \<noteq> 0"
    and "tr_state r = Waiting \<or> tr_state r = WaitSuspended \<Longrightarrow> wait_valid (tr_wait r)"
    and "validPriority (tr_priority r)" "tr_generation r \<noteq> 0"
  using assms by (auto simp: thread_ok_def Let_def)

lemma ts_nx: "ts_wf s \<Longrightarrow> ts_nextQueueSequence s \<noteq> 0"
  using W_D(2) [OF ts_wfD] .

lemma ts_out_nx: "ts_out i s \<Longrightarrow> ts_nextQueueSequence s \<noteq> 0"
  using W_D(2) by (auto simp: ts_out_def)

section \<open>The operations\<close>

lemma ts_init_wf: "ts_wf ts_init"
proof -
  have "queueAt ts_init pl = []" for pl
    by (cases pl) (simp_all add: queueAt_def ts_init_def kEeThreadPriorityCount_def Mapping.lookup_default_def)
  moreover have "thr ts_init = (\<lambda>_. None)" "ts_current ts_init = None" "ts_nextQueueSequence ts_init = 1"
    "repOk ts_init"
    by (simp_all add: ts_init_def fun_eq_iff repOk_def kEeThreadPriorityCount_def)
  ultimately show ?thesis by (auto simp: ts_wf_def W_def holds_def)
qed

lemma addDormantThread_wf: "ts_wf s \<Longrightarrow> ts_wf (fst (addDormantThread i g p s))"
  by (auto simp: addDormantThread_def validThreadId_def thread_ok_def placeOf_def Let_def
      noWait_def noCompleted_def wait_valid_def intro!: out_put out_new split: option.split)

lemma addDormantThread_fields:
  "ts_current (fst (addDormantThread i g p s)) = ts_current s"
  "snd (addDormantThread i g p s) \<Longrightarrow> \<exists>r. thr (fst (addDormantThread i g p s)) i = Some r
     \<and> tr_state r = Dormant \<and> tr_queueSequence r = 0"
  by (auto simp: addDormantThread_def thr_put split: option.splits if_splits)

lemma out_run:
  assumes "ts_out i s" and "ts_current s = None" and "thread_ok r" and "tr_state r = Running"
  shows "ts_wf ((putThread i r s)\<lparr>ts_current := Some i\<rparr>)"
proof -
  have q: "queueAt ((putThread i r s)\<lparr>ts_current := Some i\<rparr>) = queueAt s"
    by (rule queueAt_same) simp_all
  show ?thesis
    using assms W_run [of "(thr s)(i := None)" "queueAt s" "ts_nextQueueSequence s" i r]
    by (simp add: ts_out_def ts_wf_def q repOk_def thr_put)
qed

lemma addRunningThread_wf: "ts_wf s \<Longrightarrow> ts_wf (fst (addRunningThread i g p s))"
proof (cases "ts_current s = None")
  case True
  assume wf: "ts_wf s"
  obtain s1 b where add: "addDormantThread i g p s = (s1, b)" by (metis surj_pair)
  have wf1: "ts_wf s1" using addDormantThread_wf [OF wf, of i g p] add by simp
  have cur: "ts_current s1 = None" using addDormantThread_fields(1) [of i g p s] add True by simp
  show ?thesis
  proof (cases b)
    case False
    then show ?thesis using add True wf1 by (simp add: addRunningThread_def)
  next
    case b: True
    then obtain r where r: "thr s1 i = Some r" "tr_state r = Dormant" "tr_queueSequence r = 0"
      using addDormantThread_fields(2) [of i g p s] add by auto
    have ok: "thread_ok r" using thr_ok [OF wf1 r(1)] by simp
    have out: "ts_out i s1" by (rule out_idle [OF wf1 r(1)]) (simp_all add: placeOf_def r(2))
    have "thread_ok (r\<lparr>tr_state := Running\<rparr>)"
      using ok r(2) by (auto simp: thread_ok_def Let_def placeOf_def)
    then show ?thesis
      using add b r(1) True out_run [OF out cur] by (simp add: addRunningThread_def)
  qed
qed (simp add: addRunningThread_def)

lemma startThreadHandle_wf:
  assumes wf: "ts_wf s" and "room s"
  shows "ts_wf (fst (startThreadHandle h s))"
proof (cases "findThread h s")
  case (Some r)
  then have r: "thr s (h_id h) = Some r" by (simp add: findThread_Some)
  show ?thesis
  proof (cases "tr_state r = Dormant")
    case True
    have ok: "thread_ok r" using thr_ok [OF wf r] by simp
    have "ts_out (h_id h) s" by (rule out_idle [OF wf r]) (simp_all add: placeOf_def True)
    moreover have "thread_ok (readied (ts_nextQueueSequence s) r)"
      by (rule readied_ok [OF ok ts_nx [OF wf]]) (use thread_ok_cases(1) [OF ok] True in simp)
    ultimately show ?thesis using assms(2) Some True
      by (simp add: startThreadHandle_def out_enqueue)
  qed (simp add: startThreadHandle_def Some wf)
qed (simp add: startThreadHandle_def wf)

lemma startThread_wf: "ts_wf s \<Longrightarrow> room s \<Longrightarrow> ts_wf (fst (startThread i s))"
  by (auto simp: startThread_def startThreadHandle_wf split: option.split)

lemma selectNextThread_wf: "ts_wf s \<Longrightarrow> ts_wf (fst (selectNextThread s))"
  using takeNextReady_wf [of s] by (auto simp: selectNextThread_def split: prod.splits option.splits)

lemma requeue_current:
  assumes wf: "ts_wf s" and "room s" and "ts_current s = Some i" and r: "thr s i = Some r"
  shows "ts_wf (enqueueReady i r (s\<lparr>ts_current := None\<rparr>))"
proof -
  have ok: "thread_ok r" using thr_ok [OF wf r] by simp
  have st: "tr_state r = Running" using current_running [OF wf r] assms(3) by simp
  let ?s = "s\<lparr>ts_current := None\<rparr>"
  have "ts_out i ?s" by (rule out_current [OF wf assms(3)])
  moreover have "thread_ok (readied (ts_nextQueueSequence ?s) r)"
    by (rule readied_ok [OF ok]) (use ts_nx [OF wf] thread_ok_cases(1) [OF ok] st in simp_all)
  ultimately show ?thesis using assms(2) by (intro out_enqueue) (simp_all add: room_def)
qed

lemma yieldCurrentThread_wf:
  assumes wf: "ts_wf s" and "room s"
  shows "ts_wf (fst (yieldCurrentThread s))"
proof (cases "ts_current s")
  case None
  then show ?thesis using selectNextThread_wf [OF wf] by (simp add: yieldCurrentThread_def)
next
  case (Some i)
  then obtain r where r: "thr s i = Some r" using W_D(7) [OF ts_wfD [OF wf]] by blast
  then have "currentRunning s = Some (i, r)" using Some currentRunning_Some [OF wf] by simp
  then show ?thesis
    using Some takeNextReady_wf [OF requeue_current [OF wf assms(2) Some r]]
    by (simp add: yieldCurrentThread_def enqueueReady_fields split_beta)
qed

lemma blocked_wf:
  assumes wf: "ts_wf s" and "room s" and cur: "ts_current s = Some i" and r: "thr s i = Some r"
    and wait: "wait_valid w" "\<not> completed_valid (tr_completedWait r)"
      "wk_kind w = WkSleep \<longrightarrow> tr_wakeupCount r = 0"
  shows "ts_wf ((enqueueWait w (Handle i (tr_generation r))
      ((putThread i (r\<lparr>tr_state := Waiting, tr_wait := w, tr_queueSequence := ts_nextQueueSequence s\<rparr>) s)
         \<lparr>ts_nextQueueSequence := ts_nextQueueSequence s + 1\<rparr>))\<lparr>ts_current := None\<rparr>)"
    (is "ts_wf ?t")
proof -
  let ?r = "r\<lparr>tr_state := Waiting, tr_wait := w, tr_queueSequence := ts_nextQueueSequence s\<rparr>"
  have st: "tr_state r = Running" using current_running [OF wf r] cur by simp
  have ok: "thread_ok r" and i: "0 < i" using thr_ok [OF wf r] by auto
  have ok': "thread_ok ?r"
    using ok st wait ts_nx [OF wf]
    by (auto simp: thread_ok_def Let_def placeOf_def completed_valid_def)
  have pl: "placeOf ?r = Some (WQ w)" by (simp add: placeOf_def)
  have h: "handleOf i ?r = Handle i (tr_generation r)" by (simp add: handleOf_def)
  have out: "ts_out i (s\<lparr>ts_current := None\<rparr>)" by (rule out_current [OF wf cur])
  have q0: "queueAt (s\<lparr>ts_current := None\<rparr>) = queueAt s" by (rule queueAt_same) simp_all
  have "W ((thr s)(i := Some ?r)) ((queueAt s)(WQ w := queueAt s (WQ w) @ [Handle i (tr_generation r)]))
      None (ts_nextQueueSequence s + 1)"
    using W_enqueue [of "(thr s)(i := None)" "queueAt s" None "ts_nextQueueSequence s" i ?r, OF _ _ i ok' pl]
      out assms(2) q0 by (simp add: ts_out_def room_def h)
  moreover have "queueAt ?t = (queueAt s)(WQ w := queueAt s (WQ w) @ [Handle i (tr_generation r)])"
    by (rule queueAt_wait) (simp_all add: enqueueWait_def queueAt_def)
  moreover have "thr ?t = (thr s)(i := Some ?r)"
    by (auto simp: enqueueWait_def putThread_def fun_eq_iff lookup_update')
  moreover have "repOk ?t" using wf
    by (auto simp: ts_wf_def repOk_def enqueueWait_def lookup_update')
  ultimately show ?thesis by (simp add: ts_wf_def) (simp add: enqueueWait_def)
qed

lemma blockCurrentThread_wf:
  assumes wf: "ts_wf s" and rm: "room s"
  shows "ts_wf (fst (blockCurrentThread w s))"
proof (cases "ts_current s = None \<or> \<not> wait_valid w")
  case True
  then show ?thesis using wf by (auto simp: blockCurrentThread_def)
next
  case False
  then obtain i where cur: "ts_current s = Some i" and w: "wait_valid w" by auto
  obtain r where r: "thr s i = Some r" using W_D(7) [OF ts_wfD [OF wf] cur] by blast
  have cr: "currentRunning s = Some (i, r)" using cur r currentRunning_Some [OF wf] by simp
  show ?thesis
  proof (cases "completed_valid (tr_completedWait r) \<or> (wk_kind w = WkSleep \<and> tr_wakeupCount r \<noteq> 0)")
    case True
    then show ?thesis using wf cr cur w by (simp add: blockCurrentThread_def)
  next
    case ok: False
    from takeNextReady_wf [OF blocked_wf [OF wf rm cur r w]] ok show ?thesis
      using cr cur w by (auto simp: blockCurrentThread_def Let_def split_beta)
  qed
qed

lemma sleepCurrentThread_wf:
  assumes wf: "ts_wf s" and rm: "room s"
  shows "ts_wf (fst (sleepCurrentThread s))"
proof (cases "currentRunning s")
  case (Some ir)
  then obtain i r where ir: "currentRunning s = Some (i, r)" by (cases ir) auto
  then have r: "thr s i = Some r" and cur: "ts_current s = Some i"
    using currentRunning_Some [OF wf] by auto
  have st: "tr_state r = Running" using current_running [OF wf r] cur by simp
  have ok: "thread_ok r" using thr_ok [OF wf r] by simp
  have "ts_wf (putThread i (r\<lparr>tr_wakeupCount := tr_wakeupCount r - 1\<rparr>) s)"
    by (rule wf_modify [OF wf r]) (use ok st in \<open>auto simp: thread_ok_def Let_def placeOf_def\<close>)
  then show ?thesis
    using blockCurrentThread_wf [OF wf rm, of sleepKey] wf ir
    by (auto simp: sleepCurrentThread_def split: prod.split)
qed (simp add: sleepCurrentThread_def wf)

end
