(* ===== verification/EeThreadSteps2.thy ===== *)
theory EeThreadSteps2
  imports EeThreadSteps
begin

text \<open>
  The remaining operations of the thread scheduler: ending waits, suspension, termination,
  priorities, rotation, rescheduling and dispatch; then all operations as one machine.
\<close>

section \<open>Ending a wait\<close>

lemma findThread_D:
  assumes "ts_wf s" and "findThread h s = Some r"
  shows "thr s (h_id h) = Some r" "h = handleOf (h_id h) r" "thread_ok r" "0 < h_id h"
  using assms thr_ok [OF assms(1)] by (auto simp: findThread_Some)

lemma findThread_cong: "ts_threads s = ts_threads t \<Longrightarrow> findThread h s = findThread h t"
  by (simp add: findThread_def)

lemma wait_head:
  assumes wf: "ts_wf s" and q: "Mapping.lookup (ts_waitQueues s) w = Some (h # rest)"
  shows "\<exists>r. thr s (h_id h) = Some r \<and> h = handleOf (h_id h) r \<and> findThread h s = Some r
     \<and> (tr_state r = Waiting \<or> tr_state r = WaitSuspended) \<and> tr_wait r = w
     \<and> removeWait h w s = (dropFront w rest s, True)"
proof -
  have "h \<in> holds (thr s) (WQ w)"
    using W_D(9) [OF ts_wfD [OF wf], of "WQ w"] q by (auto simp: queueAt_def Mapping.lookup_default_def)
  then obtain r where r: "thr s (h_id h) = Some r" "h = handleOf (h_id h) r" "placeOf r = Some (WQ w)"
    by (auto simp: holds_def)
  have "findThread h s = Some r"
    using thr_ok [OF wf r(1)] r(1, 2)
    by (cases h) (simp add: findThread_Some handle_valid_def handleOf_def thread_ok_cases(5))
  then show ?thesis
    using r q by (auto simp: placeOf_def removeWait_def split: thread_state.splits)
qed

lemma completeWait_wf:
  assumes out: "ts_out i s" and rm: "room s" and ok: "thread_ok r"
    and st: "tr_state r = Waiting \<or> tr_state r = WaitSuspended"
    and c: "c \<noteq> WcNone" and w: "wait_valid w"
  shows "ts_wf (completeWait i r w c retain s)"
proof -
  let ?r = "r\<lparr>tr_wait := noWait, tr_completedWait := \<lparr>cw_wait = w, cw_completion = c\<rparr>,
              tr_retainCompletedWaitReason := retain\<rparr>"
  show ?thesis
  proof (cases "tr_suspendCount r = 0")
    case True
    have "thread_ok (readied (ts_nextQueueSequence s) ?r)"
      using ok st c w True ts_out_nx [OF out]
      by (auto simp: thread_ok_def readied_def Let_def placeOf_def noWait_def wait_valid_def)
    then show ?thesis using True out_enqueue [OF out rm] by (simp add: completeWait_def Let_def)
  next
    case False
    have "ts_wf (putThread i (?r\<lparr>tr_state := Suspended, tr_queueSequence := 0\<rparr>) s)"
      by (rule out_put [OF out])
        (use ok st c w False in
          \<open>auto simp: thread_ok_def Let_def placeOf_def noWait_def wait_valid_def\<close>)
    then show ?thesis using False by (simp add: completeWait_def Let_def)
  qed
qed

lemma wakeOne_wf:
  assumes wf: "ts_wf s" and rm: "room s"
  shows "ts_wf (fst (wakeOne w s))"
proof (cases "wait_valid w \<and> (\<exists>h rest. Mapping.lookup (ts_waitQueues s) w = Some (h # rest))")
  case True
  then obtain h rest where w: "wait_valid w" and q: "Mapping.lookup (ts_waitQueues s) w = Some (h # rest)"
    by blast
  from wait_head [OF wf q] obtain r where r: "thr s (h_id h) = Some r" "h = handleOf (h_id h) r"
    "findThread h s = Some r" "tr_state r = Waiting \<or> tr_state r = WaitSuspended" "tr_wait r = w"
    and rw: "removeWait h w s = (dropFront w rest s, True)" by blast
  let ?s = "dropFront w rest s"
  from out_wait [OF wf r(1, 4)] have out: "ts_out (h_id h) ?s"
    using rw r(2, 5) by auto
  have f: "findThread h ?s = Some r" using r(3) by (simp add: findThread_def)
  have "ts_wf (completeWait (h_id h) r w WcSatisfied False ?s)"
    by (rule completeWait_wf [OF out _ _ r(4) _ w])
      (use rm thr_ok [OF wf r(1)] in \<open>simp_all add: room_def\<close>)
  then show ?thesis using w q f r(4, 5) by (auto simp: wakeOne_def Let_def)
next
  case False
  then show ?thesis using wf by (auto simp: wakeOne_def split: option.split list.split)
qed

lemma releaseWaitThread_wf:
  assumes wf: "ts_wf s" and rm: "room s"
  shows "ts_wf (fst (releaseWaitThread h c retain s))"
proof (cases "findThread h s")
  case (Some r)
  note f = findThread_D [OF wf Some]
  show ?thesis
  proof (cases "c = WcNone \<or> (tr_state r \<noteq> Waiting \<and> tr_state r \<noteq> WaitSuspended) \<or> \<not> wait_valid (tr_wait r)")
    case True
    then show ?thesis using Some wf by (auto simp: releaseWaitThread_def)
  next
    case False
    then have st: "tr_state r = Waiting \<or> tr_state r = WaitSuspended" by blast
    from out_wait [OF wf f(1) st] obtain s1 where rw: "removeWait h (tr_wait r) s = (s1, True)"
      and out: "ts_out (h_id h) s1" and nx: "ts_nextQueueSequence s1 = ts_nextQueueSequence s"
      using f(2) by auto
    have "ts_wf (completeWait (h_id h) r (tr_wait r) c retain s1)"
      by (rule completeWait_wf [OF out _ f(3) st]) (use False rm nx in \<open>auto simp: room_def\<close>)
    then show ?thesis using Some False rw by (auto simp: releaseWaitThread_def)
  qed
qed (simp add: releaseWaitThread_def wf)

lemma sleep_only: "wait_valid w \<Longrightarrow> wk_kind w = WkSleep \<Longrightarrow> w = sleepKey"
  by (cases w) (simp add: wait_valid_def sleepKey_def)

lemma wakeThread_wf:
  assumes wf: "ts_wf s" and rm: "room s"
  shows "ts_wf (fst (wakeThread h s))"
proof (cases "findThread h s")
  case (Some r)
  note f = findThread_D [OF wf Some]
  have put: "ts_wf (putThread (h_id h) (r\<lparr>tr_wakeupCount := tr_wakeupCount r + 1\<rparr>) s)"
    if "tr_state r \<noteq> Dormant" "\<not> ((tr_state r = Waiting \<or> tr_state r = WaitSuspended) \<and> tr_wait r = sleepKey)"
    using f(3) that sleep_only [of "tr_wait r"]
    by (intro wf_modify [OF wf f(1)]; cases "tr_state r") (auto simp: thread_ok_def Let_def placeOf_def)
  then show ?thesis
    using releaseWaitThread_wf [OF wf rm, of h WcSatisfied False] Some wf
    by (auto simp: wakeThread_def split_beta split: bool.split)
qed (simp add: wakeThread_def wf)

lemma cancelWakeups_wf: "ts_wf s \<Longrightarrow> ts_wf (fst (cancelWakeups h s))"
proof -
  assume wf: "ts_wf s"
  show ?thesis
  proof (cases "findThread h s")
    case (Some r)
    note f = findThread_D [OF wf Some]
    have "ts_wf (putThread (h_id h) (r\<lparr>tr_wakeupCount := 0\<rparr>) s)"
      by (rule wf_modify [OF wf f(1)])
        (use f(3) in \<open>auto simp: thread_ok_def Let_def placeOf_def split: thread_state.splits\<close>)
    then show ?thesis using Some by (simp add: cancelWakeups_def)
  qed (simp add: cancelWakeups_def wf)
qed

lemma consumeWaitCompletion_wf: "ts_wf s \<Longrightarrow> ts_wf (fst (consumeWaitCompletion h s))"
proof -
  assume wf: "ts_wf s"
  show ?thesis
  proof (cases "findThread h s")
    case (Some r)
    note f = findThread_D [OF wf Some]
    have "ts_wf (putThread (h_id h)
        (r\<lparr>tr_completedWait := noCompleted, tr_retainCompletedWaitReason := False\<rparr>) s)"
      if "tr_state r = Running"
      by (rule wf_modify [OF wf f(1)])
        (use f(3) that in \<open>auto simp: thread_ok_def Let_def placeOf_def noCompleted_def noWait_def wait_valid_def\<close>)
    then show ?thesis using Some wf by (simp add: consumeWaitCompletion_def)
  qed (simp add: consumeWaitCompletion_def wf)
qed

section \<open>Leaving the processor\<close>

lemma retireCurrentThread_wf:
  assumes wf: "ts_wf s"
  shows "ts_wf (fst (retireCurrentThread s))"
    and "snd (retireCurrentThread s) \<Longrightarrow> ts_current (fst (retireCurrentThread s)) = None"
proof -
  have "ts_wf (fst (retireCurrentThread s))
     \<and> (snd (retireCurrentThread s) \<longrightarrow> ts_current (fst (retireCurrentThread s)) = None)"
  proof (cases "currentRunning s")
    case (Some ir)
    then obtain i r where ir: "currentRunning s = Some (i, r)" by (cases ir) auto
    then have r: "thr s i = Some r" and cur: "ts_current s = Some i"
      using currentRunning_Some [OF wf] by auto
    have ok: "thread_ok r" using thr_ok [OF wf r] by simp
    have "ts_wf (putThread i (madeDormant r) (s\<lparr>ts_current := None\<rparr>))"
      by (rule out_put [OF out_current [OF wf cur]]) (simp_all add: madeDormant_ok ok)
    moreover have "(putThread i (madeDormant r) s)\<lparr>ts_current := None\<rparr>
        = putThread i (madeDormant r) (s\<lparr>ts_current := None\<rparr>)"
      by (simp add: putThread_def)
    ultimately show ?thesis using ir by (simp add: retireCurrentThread_def)
  qed (simp add: retireCurrentThread_def wf)
  then show "ts_wf (fst (retireCurrentThread s))"
    and "snd (retireCurrentThread s) \<Longrightarrow> ts_current (fst (retireCurrentThread s)) = None" by auto
qed

lemma finishCurrentThread_wf: "ts_wf s \<Longrightarrow> ts_wf (fst (finishCurrentThread s))"
  using retireCurrentThread_wf [of s] takeNextReady_wf [of "fst (retireCurrentThread s)"]
  by (cases "retireCurrentThread s") (auto simp: finishCurrentThread_def Let_def split_beta split: bool.split)

lemma exitCurrentThread_wf: "ts_wf s \<Longrightarrow> ts_wf (fst (exitCurrentThread s))"
  using retireCurrentThread_wf [of s] takeNextReady_wf [of "fst (retireCurrentThread s)"]
  by (cases "retireCurrentThread s") (auto simp: exitCurrentThread_def Let_def split_beta split: bool.split)

section \<open>Suspension\<close>

definition suspended :: "thread_record \<Rightarrow> thread_record" where
  "suspended r = r\<lparr>tr_state := Suspended, tr_queueSequence := 0,
     tr_suspendCount := tr_suspendCount r + 1\<rparr>"

lemma count_up: "n \<noteq> u32_max \<Longrightarrow> n + 1 \<noteq> (0 :: u32)"
  by (metis eq_neg_iff_add_eq_0)

lemma suspended_ok:
  assumes "thread_ok r" and "tr_state r = Running \<or> tr_state r = Ready" and "tr_suspendCount r \<noteq> u32_max"
  shows "thread_ok (suspended r)" "placeOf (suspended r) = None" "tr_state (suspended r) \<noteq> Running"
  using assms count_up [of "tr_suspendCount r"]
  by (auto simp: thread_ok_def suspended_def Let_def placeOf_def)

lemma seq_running: "thread_ok r \<Longrightarrow> tr_state r = Running \<Longrightarrow> tr_queueSequence r = 0"
  by (simp add: thread_ok_def Let_def placeOf_def)

lemma suspendThread_wf:
  assumes wf: "ts_wf s"
  shows "ts_wf (fst (suspendThread h s))"
proof (cases "findThread h s")
  case (Some r)
  note f = findThread_D [OF wf Some]
  show ?thesis
  proof (cases "tr_state r = Dormant \<or> tr_suspendCount r = u32_max")
    case True
    then show ?thesis using Some wf by (auto simp: suspendThread_def)
  next
    case False
    then have max: "tr_suspendCount r \<noteq> u32_max" by simp
    note go = suspendThread_def Some suspendFrom_def
    show ?thesis
    proof (cases "tr_state r")
      case Dormant
      then show ?thesis using False by simp
    next
      case Ready
      from out_ready [OF wf f(1) Ready] f(2) obtain s1 where
        rr: "removeReady h (tr_priority r) s = (s1, True)" and out: "ts_out (h_id h) s1" by auto
      have "ts_wf (putThread (h_id h) (suspended r) s1)"
        by (rule out_put [OF out suspended_ok]) (use f(3) Ready max in simp_all)
      then show ?thesis using False Ready rr by (simp add: go suspended_def Let_def)
    next
      case Running
      then have cur: "ts_current s = Some (h_id h)" using current_running [OF wf f(1)] by simp
      have "ts_wf (putThread (h_id h) (suspended r) (s\<lparr>ts_current := None\<rparr>))"
        by (rule out_put [OF out_current [OF wf cur] suspended_ok]) (use f(3) Running max in simp_all)
      from takeNextReady_wf [OF this] have
        "ts_wf (fst (takeNextReady (putThread (h_id h) (suspended r) (s\<lparr>ts_current := None\<rparr>))))" by simp
      moreover have "suspended r = r\<lparr>tr_state := Suspended, tr_suspendCount := tr_suspendCount r + 1\<rparr>"
        using seq_running [OF f(3) Running] by (simp add: suspended_def)
      ultimately show ?thesis using False Running cur by (simp add: go Let_def)
    next
      case Waiting
      have "ts_wf (putThread (h_id h)
          (r\<lparr>tr_state := WaitSuspended, tr_suspendCount := tr_suspendCount r + 1\<rparr>) s)"
        by (rule wf_modify [OF wf f(1)])
          (use f(3) Waiting count_up [OF max] in \<open>auto simp: thread_ok_def Let_def placeOf_def\<close>)
      then show ?thesis using False Waiting by (simp add: go Let_def)
    next
      case Suspended
      have "ts_wf (putThread (h_id h) (r\<lparr>tr_suspendCount := tr_suspendCount r + 1\<rparr>) s)"
        by (rule wf_modify [OF wf f(1)])
          (use f(3) Suspended count_up [OF max] in \<open>auto simp: thread_ok_def Let_def placeOf_def\<close>)
      then show ?thesis using False Suspended by (simp add: go Let_def)
    next
      case WaitSuspended
      have "ts_wf (putThread (h_id h) (r\<lparr>tr_suspendCount := tr_suspendCount r + 1\<rparr>) s)"
        by (rule wf_modify [OF wf f(1)])
          (use f(3) WaitSuspended count_up [OF max] in \<open>auto simp: thread_ok_def Let_def placeOf_def\<close>)
      then show ?thesis using False WaitSuspended by (simp add: go Let_def)
    qed
  qed
qed (simp add: suspendThread_def wf)

lemma resumeThread_wf:
  assumes wf: "ts_wf s" and rm: "room s"
  shows "ts_wf (fst (resumeThread h s))"
proof (cases "findThread h s")
  case (Some r)
  note f = findThread_D [OF wf Some]
  let ?r = "r\<lparr>tr_suspendCount := tr_suspendCount r - 1\<rparr>"
  show ?thesis
  proof (cases "tr_suspendCount r = 0 \<or> (tr_state r \<noteq> Suspended \<and> tr_state r \<noteq> WaitSuspended)")
    case True
    then show ?thesis using Some wf by (auto simp: resumeThread_def)
  next
    case False
    then have st: "tr_state r = Suspended \<or> tr_state r = WaitSuspended" by blast
    show ?thesis
    proof (cases "tr_suspendCount r - 1 = 0")
      case more: False
      have "ts_wf (putThread (h_id h) ?r s)"
        by (rule wf_modify [OF wf f(1)])
          (use f(3) st more in \<open>auto simp: thread_ok_def Let_def placeOf_def\<close>)
      then show ?thesis using Some False more by (auto simp: resumeThread_def Let_def)
    next
      case zero: True
      show ?thesis
      proof (cases "tr_state r = WaitSuspended")
        case True
        have "ts_wf (putThread (h_id h) (?r\<lparr>tr_state := Waiting\<rparr>) s)"
          by (rule wf_modify [OF wf f(1)])
            (use f(3) True zero in \<open>auto simp: thread_ok_def Let_def placeOf_def\<close>)
        then show ?thesis using Some False zero True by (simp add: resumeThread_def Let_def)
      next
        case sus: False
        then have s: "tr_state r = Suspended" using st by simp
        have "ts_out (h_id h) s" by (rule out_idle [OF wf f(1)]) (simp_all add: placeOf_def s)
        moreover have "thread_ok (readied (ts_nextQueueSequence s) ?r)"
          using f(3) s zero ts_nx [OF wf]
          by (auto simp: thread_ok_def readied_def Let_def placeOf_def noWait_def wait_valid_def)
        ultimately have "ts_wf (enqueueReady (h_id h) ?r s)" using rm by (intro out_enqueue)
        then show ?thesis using Some False zero sus by (simp add: resumeThread_def Let_def)
      qed
    qed
  qed
qed (simp add: resumeThread_def wf)

section \<open>Termination and deletion\<close>

lemma detachForTermination_out:
  assumes wf: "ts_wf s" and f: "findThread h s = Some r" and st: "tr_state r \<noteq> Dormant"
  shows "\<exists>s1. detachForTermination h r s = Some s1 \<and> ts_out (h_id h) s1"
proof -
  note f = findThread_D [OF wf f]
  show ?thesis
  proof (cases "tr_state r")
    case Ready
    from out_ready [OF wf f(1) Ready] f(2) show ?thesis by (auto simp: detachForTermination_def Ready)
  next
    case Running
    then have cur: "ts_current s = Some (h_id h)" using current_running [OF wf f(1)] by simp
    show ?thesis using out_current [OF wf cur] cur by (simp add: detachForTermination_def Running)
  next
    case Waiting
    from out_wait [OF wf f(1)] f(2) show ?thesis by (auto simp: detachForTermination_def Waiting)
  next
    case WaitSuspended
    from out_wait [OF wf f(1)] f(2) show ?thesis by (auto simp: detachForTermination_def WaitSuspended)
  next
    case Suspended
    have "ts_out (h_id h) s" by (rule out_idle [OF wf f(1)]) (simp_all add: placeOf_def Suspended)
    then show ?thesis by (simp add: detachForTermination_def Suspended)
  qed (use st in simp)
qed

lemma terminateThread_wf:
  assumes wf: "ts_wf s"
  shows "ts_wf (fst (terminateThread h s))"
proof (cases "findThread h s")
  case (Some r)
  note f = findThread_D [OF wf Some]
  show ?thesis
  proof (cases "tr_state r = Dormant")
    case False
    from detachForTermination_out [OF wf Some False] obtain s1 where
      d: "detachForTermination h r s = Some s1" and out: "ts_out (h_id h) s1" by blast
    have "ts_wf (putThread (h_id h) (madeDormant r) s1)"
      by (rule out_put [OF out]) (simp_all add: madeDormant_ok f(3))
    then show ?thesis
      using takeNextReady_wf [of "putThread (h_id h) (madeDormant r) s1"] Some False d
      by (simp add: terminateThread_def Let_def)
  qed (use Some wf in \<open>simp add: terminateThread_def\<close>)
qed (simp add: terminateThread_def wf)

lemma deleteThread_wf:
  assumes wf: "ts_wf s"
  shows "ts_wf (fst (deleteThread h s))"
proof (cases "findThread h s")
  case (Some r)
  note f = findThread_D [OF wf Some]
  let ?s = "recordTransition TrDeleted (ts_current s) (h_id h) noWait s"
  show ?thesis
  proof (cases "tr_state r = Dormant")
    case True
    have "ts_out (h_id h) s" by (rule out_idle [OF wf f(1)]) (simp_all add: placeOf_def True)
    moreover have "thr (?s\<lparr>ts_threads := Mapping.delete (h_id h) (ts_threads ?s)\<rparr>) = (thr s)(h_id h := None)"
      by (simp add: fun_eq_iff lookup_delete')
    moreover have "queueAt (?s\<lparr>ts_threads := Mapping.delete (h_id h) (ts_threads ?s)\<rparr>) = queueAt s"
      by (rule queueAt_same) simp_all
    ultimately show ?thesis using Some True
      by (simp add: deleteThread_def Let_def ts_wf_def ts_out_def repOk_def)
  qed (use Some wf in \<open>simp add: deleteThread_def\<close>)
qed (simp add: deleteThread_def wf)

section \<open>Priorities, rotation, rescheduling\<close>

lemma changeThreadPriority_wf:
  assumes wf: "ts_wf s" and rm: "room s"
  shows "ts_wf (fst (changeThreadPriority h p s))"
proof (cases "findThread h s")
  case (Some r)
  note f = findThread_D [OF wf Some]
  let ?r = "r\<lparr>tr_priority := p\<rparr>"
  show ?thesis
  proof (cases "\<not> validPriority p \<or> tr_state r = Dormant \<or> tr_priority r = p")
    case True
    then show ?thesis using Some wf by (auto simp: changeThreadPriority_def)
  next
    case False
    then have p: "validPriority p" by simp
    show ?thesis
    proof (cases "tr_state r = Ready")
      case ready: True
      from out_ready [OF wf f(1) ready] f(2) obtain s1 where
        rr: "removeReady h (tr_priority r) s = (s1, True)" and out: "ts_out (h_id h) s1"
        and nx: "ts_nextQueueSequence s1 = ts_nextQueueSequence s" by auto
      have "thread_ok (readied (ts_nextQueueSequence s1) ?r)"
        using f(3) ready p ts_out_nx [OF out]
        by (auto simp: thread_ok_def readied_def Let_def placeOf_def noWait_def wait_valid_def)
      then have "ts_wf (enqueueReady (h_id h) ?r s1)"
        using rm nx by (intro out_enqueue [OF out]) (simp_all add: room_def)
      then show ?thesis using Some False ready rr by (simp add: changeThreadPriority_def Let_def)
    next
      case other: False
      have "ts_wf (putThread (h_id h) ?r s)"
        by (rule wf_modify [OF wf f(1)])
          (use f(3) other p in \<open>auto simp: thread_ok_def Let_def placeOf_def split: thread_state.splits\<close>)
      then show ?thesis using Some False other by (simp add: changeThreadPriority_def Let_def)
    qed
  qed
qed (simp add: changeThreadPriority_def wf)

text \<open>Rotating a queue is taking its head out and enqueueing it again.\<close>

lemma rotate_is_requeue:
  assumes wf: "ts_wf s" and p: "validPriority p"
    and q: "ts_readyQueues s ! nat p = h # g # rest" and f: "findThread h s = Some r"
    and r: "tr_state r = Ready" "tr_priority r = p"
  shows "(putThread (h_id h) (r\<lparr>tr_queueSequence := ts_nextQueueSequence s\<rparr>) s)
       \<lparr>ts_nextQueueSequence := ts_nextQueueSequence s + 1,
        ts_readyQueues := (ts_readyQueues s)[nat p := (g # rest) @ [h]]\<rparr>
     = (let s1 = fst (removeReady h p s) in
        (putThread (h_id h) (r\<lparr>tr_queueSequence := ts_nextQueueSequence s1\<rparr>) s1)
          \<lparr>ts_nextQueueSequence := ts_nextQueueSequence s1 + 1,
           ts_readyQueues := (ts_readyQueues s1)[nat p := ts_readyQueues s1 ! nat p @ [h]]\<rparr>)"
proof -
  have "nat p < length (ts_readyQueues s)"
    using wf p kEeThreadPriorityCount_nat by (simp add: ts_wf_def repOk_def)
  then show ?thesis using p q by (simp add: removeReady_def Let_def putThread_def)
qed

lemma rotateReadyQueue_wf:
  assumes wf: "ts_wf s" and rm: "room s"
  shows "ts_wf (fst (rotateReadyQueue p s))"
proof (cases "validPriority p \<and> (\<exists>h g rest r. ts_readyQueues s ! nat p = h # g # rest
    \<and> findThread h s = Some r \<and> tr_state r = Ready \<and> tr_priority r = p)")
  case True
  then obtain h g rest r where p: "validPriority p" and q: "ts_readyQueues s ! nat p = h # g # rest"
    and Some: "findThread h s = Some r" and r: "tr_state r = Ready" "tr_priority r = p" by blast
  note f = findThread_D [OF wf Some]
  from out_ready [OF wf f(1) r(1)] f(2) r(2) obtain s1 where
    rr: "removeReady h p s = (s1, True)" and out: "ts_out (h_id h) s1"
    and nx: "ts_nextQueueSequence s1 = ts_nextQueueSequence s" and th: "ts_threads s1 = ts_threads s"
    and cur: "ts_current s1 = ts_current s" by auto
  let ?nx = "ts_nextQueueSequence s1" and ?r = "r\<lparr>tr_queueSequence := ts_nextQueueSequence s1\<rparr>"
  let ?t = "(putThread (h_id h) ?r s1)\<lparr>ts_nextQueueSequence := ?nx + 1,
      ts_readyQueues := (ts_readyQueues s1)[nat p := ts_readyQueues s1 ! nat p @ [h]]\<rparr>"
  have len: "nat p < length (ts_readyQueues s1)"
    using out kEeThreadPriorityCount_nat [OF p] by (simp add: ts_out_def repOk_def)
  have ok: "thread_ok ?r" using f(3) r(1) ts_out_nx [OF out]
    by (auto simp: thread_ok_def Let_def placeOf_def)
  have pl: "placeOf ?r = Some (RQ (nat p))" using r by (simp add: placeOf_def)
  have h: "handleOf (h_id h) (r\<lparr>tr_queueSequence := n\<rparr>) = h" for n
    using f(2) by (simp add: handleOf_def)
  have "W ((thr s1)(h_id h := Some ?r)) ((queueAt s1)(RQ (nat p) := queueAt s1 (RQ (nat p)) @ [h]))
      (ts_current s1) (?nx + 1)"
    using W_enqueue [of "(thr s1)(h_id h := None)" "queueAt s1" "ts_current s1" ?nx "h_id h" ?r, OF _ _ _ ok pl]
      out rm nx by (simp add: ts_out_def room_def h)
  moreover have "queueAt ?t = (queueAt s1)(RQ (nat p) := queueAt s1 (RQ (nat p)) @ [h])"
    unfolding queueAt_RQ [OF len] by (rule queueAt_ready [OF len]) simp_all
  moreover have "repOk ?t" using out by (simp add: ts_out_def repOk_def)
  ultimately have "ts_wf ?t" by (simp add: ts_wf_def thr_put)
  moreover have "fst (rotateReadyQueue p s) = recordTransition TrReadyQueueRotated (ts_current s) (h_id h) noWait ?t"
    using p q Some r rotate_is_requeue [OF wf p q Some r] rr nx
    by (simp add: rotateReadyQueue_def Let_def)
  ultimately show ?thesis by simp
next
  case False
  then show ?thesis using wf
    by (auto simp: rotateReadyQueue_def split: list.split option.split)
qed

lemma reschedule_wf:
  assumes wf: "ts_wf s" and rm: "room s"
  shows "ts_wf (fst (reschedule pol s))"
proof (cases "ts_current s")
  case None
  then show ?thesis using takeNextReady_wf [OF wf None]
    by (auto simp: reschedule_def Let_def split_beta split: option.split)
next
  case (Some i)
  then obtain r where r: "thr s i = Some r" using W_D(7) [OF ts_wfD [OF wf]] by blast
  then have "currentRunning s = Some (i, r)" using Some currentRunning_Some [OF wf] by simp
  then show ?thesis
    using Some wf takeNextReady_wf [OF requeue_current [OF wf rm Some r]]
    by (auto simp: reschedule_def Let_def enqueueReady_fields split_beta split: option.split)
qed

end
