(* ===== verification/EeThreadMachine.thy ===== *)
theory EeThreadMachine
  imports EeThreadSteps2
begin

text \<open>
  All operations of the thread scheduler as one machine, its invariant over runs, and the
  source's own consistency check \<open>validate\<close>, which the invariant implies.
\<close>

section \<open>The machine\<close>

datatype ts_op =
    OpAddDormant int u32 int | OpAddRunning int u32 int | OpStart int | OpStartHandle thread_handle
  | OpSelect | OpYield | OpBlock wait_key | OpSleep | OpWakeOne wait_key | OpWake thread_handle
  | OpCancelWakeups thread_handle | OpRelease thread_handle wait_completion bool
  | OpConsume thread_handle | OpFinish | OpSuspend thread_handle | OpResume thread_handle
  | OpTerminate thread_handle | OpExit | OpDelete thread_handle | OpPriority thread_handle int
  | OpRotate int | OpReschedule reschedule_policy | OpTick ee_tick | OpTrace nat | OpUntrace
  | OpClearTrace

primrec ts_step :: "ts_op \<Rightarrow> scheduler \<Rightarrow> scheduler" where
  "ts_step (OpAddDormant i g p) s = fst (addDormantThread i g p s)"
| "ts_step (OpAddRunning i g p) s = fst (addRunningThread i g p s)"
| "ts_step (OpStart i) s = fst (startThread i s)"
| "ts_step (OpStartHandle h) s = fst (startThreadHandle h s)"
| "ts_step OpSelect s = fst (selectNextThread s)"
| "ts_step OpYield s = fst (yieldCurrentThread s)"
| "ts_step (OpBlock w) s = fst (blockCurrentThread w s)"
| "ts_step OpSleep s = fst (sleepCurrentThread s)"
| "ts_step (OpWakeOne w) s = fst (wakeOne w s)"
| "ts_step (OpWake h) s = fst (wakeThread h s)"
| "ts_step (OpCancelWakeups h) s = fst (cancelWakeups h s)"
| "ts_step (OpRelease h c b) s = fst (releaseWaitThread h c b s)"
| "ts_step (OpConsume h) s = fst (consumeWaitCompletion h s)"
| "ts_step OpFinish s = fst (finishCurrentThread s)"
| "ts_step (OpSuspend h) s = fst (suspendThread h s)"
| "ts_step (OpResume h) s = fst (resumeThread h s)"
| "ts_step (OpTerminate h) s = fst (terminateThread h s)"
| "ts_step OpExit s = fst (exitCurrentThread s)"
| "ts_step (OpDelete h) s = fst (deleteThread h s)"
| "ts_step (OpPriority h p) s = fst (changeThreadPriority h p s)"
| "ts_step (OpRotate p) s = fst (rotateReadyQueue p s)"
| "ts_step (OpReschedule pol) s = fst (reschedule pol s)"
| "ts_step (OpTick t) s = publishCanonicalTick t s"
| "ts_step (OpTrace n) s = enableTransitionTracing n s"
| "ts_step OpUntrace s = disableTransitionTracing s"
| "ts_step OpClearTrace s = clearTransitionTrace s"

lemma trace_ops_wf:
  "ts_wf (publishCanonicalTick t s) = ts_wf s"
  "ts_wf (enableTransitionTracing n s) = ts_wf s"
  "ts_wf (disableTransitionTracing s) = ts_wf s"
  "ts_wf (clearTransitionTrace s) = ts_wf s"
  by (rule ts_wf_cong; simp add: publishCanonicalTick_def enableTransitionTracing_def
      disableTransitionTracing_def clearTransitionTrace_def)+

lemma ts_step_wf: "ts_wf s \<Longrightarrow> room s \<Longrightarrow> ts_wf (ts_step p s)"
  by (cases p) (simp_all add: addDormantThread_wf addRunningThread_wf startThread_wf
      startThreadHandle_wf selectNextThread_wf yieldCurrentThread_wf blockCurrentThread_wf
      sleepCurrentThread_wf wakeOne_wf wakeThread_wf cancelWakeups_wf releaseWaitThread_wf
      consumeWaitCompletion_wf finishCurrentThread_wf suspendThread_wf resumeThread_wf
      terminateThread_wf exitCurrentThread_wf deleteThread_wf changeThreadPriority_wf
      rotateReadyQueue_wf reschedule_wf trace_ops_wf)

section \<open>Sequence numbers are spent one at a time\<close>

definition spends :: "scheduler \<Rightarrow> scheduler \<Rightarrow> bool" where
  "spends s t = (ts_nextQueueSequence t = ts_nextQueueSequence s
     \<or> ts_nextQueueSequence t = ts_nextQueueSequence s + 1)"

lemma nx_takeNextReady [simp]: "ts_nextQueueSequence (fst (takeNextReady s)) = ts_nextQueueSequence s"
  by (auto simp: takeNextReady_def split: prod.split option.split)

lemma nx_enqueueReady [simp]: "ts_nextQueueSequence (enqueueReady i r s) = ts_nextQueueSequence s + 1"
  by (simp add: enqueueReady_def Let_def)

lemma nx_removeReady [simp]: "ts_nextQueueSequence (fst (removeReady h p s)) = ts_nextQueueSequence s"
  by (simp add: removeReady_def Let_def)

lemma nx_removeWait [simp]: "ts_nextQueueSequence (fst (removeWait h w s)) = ts_nextQueueSequence s"
  by (simp add: removeWait_def split: option.split)

lemma nx_enqueueWait [simp]: "ts_nextQueueSequence (enqueueWait w h s) = ts_nextQueueSequence s"
  by (simp add: enqueueWait_def)

lemma spends_completeWait: "spends s (completeWait i r w c b s)"
  by (simp add: spends_def completeWait_def Let_def)

lemma spends_block: "spends s (fst (blockCurrentThread w s))"
  by (auto simp: spends_def blockCurrentThread_def Let_def split_beta split: option.split)

lemma spends_release: "spends s (fst (releaseWaitThread h c b s))"
proof -
  have "spends s (completeWait i r w c b (fst (removeWait h w s)))" for i r w
    using spends_completeWait [of "fst (removeWait h w s)" i r w c b] by (simp add: spends_def)
  then show ?thesis
    by (auto simp: releaseWaitThread_def spends_def split_beta split: option.split bool.split)
qed

lemma spends_wakeOne: "spends s (fst (wakeOne w s))"
proof -
  have "spends s (completeWait i r w c b (dropFront w rest s))" for i r c b rest
    using spends_completeWait [of "dropFront w rest s" i r w c b] by (simp add: spends_def)
  then show ?thesis
    by (auto simp: wakeOne_def spends_def Let_def split: option.split list.split)
qed

lemma spends_start: "spends s (fst (startThreadHandle h s))"
  by (auto simp: spends_def startThreadHandle_def split: option.split)

lemma nx_retire [simp]: "ts_nextQueueSequence (fst (retireCurrentThread s)) = ts_nextQueueSequence s"
  by (auto simp: retireCurrentThread_def split: option.split)

lemma spends_suspend: "ts_nextQueueSequence (fst (suspendThread h s)) = ts_nextQueueSequence s"
proof -
  have "suspendFrom h r s = Some (s1, r1, b) \<Longrightarrow> ts_nextQueueSequence s1 = ts_nextQueueSequence s" for r s1 r1 b
    using nx_removeReady [of h "tr_priority r" s]
    by (auto simp: suspendFrom_def split_beta split: thread_state.splits if_splits bool.splits)
  then show ?thesis
    by (auto simp: suspendThread_def Let_def split: option.split)
qed

lemma spends_terminate: "ts_nextQueueSequence (fst (terminateThread h s)) = ts_nextQueueSequence s"
proof -
  have "detachForTermination h r s = Some s1 \<Longrightarrow> ts_nextQueueSequence s1 = ts_nextQueueSequence s" for r s1
    using nx_removeReady [of h "tr_priority r" s] nx_removeWait [of h "tr_wait r" s]
    by (auto simp: detachForTermination_def split_beta split: thread_state.splits if_splits bool.splits)
  then show ?thesis
    by (auto simp: terminateThread_def Let_def split: option.split)
qed

lemma spends_priority: "spends s (fst (changeThreadPriority h p s))"
  by (auto simp: spends_def changeThreadPriority_def Let_def split_beta split: option.split bool.split)

lemma spends_addDormant: "ts_nextQueueSequence (fst (addDormantThread i g p s)) = ts_nextQueueSequence s"
  by (simp add: addDormantThread_def split: option.split)

lemma spends_select: "ts_nextQueueSequence (fst (selectNextThread s)) = ts_nextQueueSequence s"
  by (auto simp: selectNextThread_def split_beta split: option.split)

lemma spends_yield: "spends s (fst (yieldCurrentThread s))"
  by (auto simp: spends_def yieldCurrentThread_def spends_select split_beta split: option.split)

lemma spends_sleep: "spends s (fst (sleepCurrentThread s))"
  using spends_block [of s sleepKey]
  by (auto simp: spends_def sleepCurrentThread_def split_beta split: option.split)

lemma spends_addRunning: "ts_nextQueueSequence (fst (addRunningThread i g p s)) = ts_nextQueueSequence s"
  using spends_addDormant [of i g p s]
  by (auto simp: addRunningThread_def split_beta split: option.split bool.split)

lemma spends_wake: "spends s (fst (wakeThread h s))"
  using spends_release [of s h WcSatisfied False]
  by (auto simp: spends_def wakeThread_def split_beta split: option.split bool.split)

lemma spends_rest:
  "spends s (fst (startThread i s))"
  "spends s (fst (cancelWakeups h s))" "spends s (fst (consumeWaitCompletion h s))"
  "spends s (fst (finishCurrentThread s))" "spends s (fst (exitCurrentThread s))"
  "spends s (fst (resumeThread h s))" "spends s (fst (deleteThread h s))"
  "spends s (fst (rotateReadyQueue p s))" "spends s (fst (reschedule pol s))"
  "spends s (publishCanonicalTick t s)" "spends s (enableTransitionTracing n s)"
  "spends s (disableTransitionTracing s)" "spends s (clearTransitionTrace s)"
  using spends_start
  by (auto simp: spends_def startThread_def cancelWakeups_def consumeWaitCompletion_def
      finishCurrentThread_def exitCurrentThread_def resumeThread_def deleteThread_def
      rotateReadyQueue_def reschedule_def publishCanonicalTick_def enableTransitionTracing_def
      disableTransitionTracing_def clearTransitionTrace_def Let_def split_beta
      split: option.split bool.split list.split)

lemma ts_step_spends: "spends s (ts_step p s)"
  using spends_addDormant spends_select spends_addRunning spends_suspend spends_terminate
  by (cases p) (simp_all add: spends_rest spends_block spends_release spends_wakeOne spends_start
      spends_priority spends_yield spends_sleep spends_wake, simp_all add: spends_def)

definition ts_capacity :: "scheduler \<Rightarrow> enat" where
  "ts_capacity s = enat (2 ^ 64 - 1 - unat (ts_nextQueueSequence s))"

lemma room_iff: "room s \<longleftrightarrow> ts_nextQueueSequence s \<noteq> u64_max"
  by (simp add: room_def) (metis eq_neg_iff_add_eq_0)

lemma ts_capacity_pos: "ts_capacity s \<noteq> 0 \<longleftrightarrow> room s"
proof -
  have "unat (ts_nextQueueSequence s) = 2 ^ 64 - 1 \<longleftrightarrow> ts_nextQueueSequence s = - 1"
    by (simp add: word_unat_eq_iff)
  then show ?thesis using unat_u64_less [of "ts_nextQueueSequence s"]
    by (auto simp: ts_capacity_def room_iff zero_enat_def)
qed

lemma ts_capacity_step: "room s \<Longrightarrow> ts_capacity s \<le> eSuc (ts_capacity (ts_step p s))"
  using ts_step_spends [of s p] unat_succ_u64 [of "ts_nextQueueSequence s"]
  by (auto simp: spends_def ts_capacity_def eSuc_enat room_iff)

interpretation ts_machine: invariant_machine ts_init ts_step ts_wf ts_capacity
  by (unfold_locales, rule ts_init_wf) (auto simp: ts_step_wf ts_capacity_pos ts_capacity_step)

lemma run_wf:
  assumes "length ops < 2 ^ 64 - 1"
  shows "ts_wf (fold ts_step ops ts_init)"
proof (rule ts_machine.inv_run_init)
  have "ts_capacity ts_init = enat (2 ^ 64 - 2)" by (simp add: ts_capacity_def ts_init_def)
  then show "enat (length ops) \<le> ts_capacity ts_init" using assms by simp
qed

end
