(* ===== verification/EeThreadProps.thy ===== *)
theory EeThreadProps
  imports EeThreadMachine
begin

text \<open>
  The properties of the thread scheduler over arbitrary histories: its own \<open>validate\<close> never
  fails, selection and rescheduling choose the most urgent thread, stale handles are inert,
  waits are FIFO, and a sleeping thread never misses a wakeup.
\<close>

section \<open>The invariant implies the source's consistency check\<close>

lemma sum_list_indicator:
  "distinct xs \<Longrightarrow> sum_list (map (\<lambda>x. if x = a then 1 else 0) xs) = (if a \<in> set xs then 1 else 0 :: nat)"
  by (induction xs) auto

lemma length_filter_concat:
  "length (filter P (concat (map f xs))) = sum_list (map (\<lambda>x. length (filter P (f x))) xs)"
  by (induction xs) auto

lemma count_in_queue:
  assumes W: "W th qs cur nx" and t: "th t = Some r"
  shows "length (filter (\<lambda>h. h_id h = t) (qs pl)) = (if placeOf r = Some pl then 1 else 0)"
proof -
  have "distinct (qs pl)" using W_D(10) [OF W] by (rule sorted_wrt_key_distinct)
  then have "length (filter (\<lambda>h. h_id h = t) (qs pl)) = card {h \<in> set (qs pl). h_id h = t}"
    by (metis distinct_card distinct_filter set_filter)
  also have "{h \<in> set (qs pl). h_id h = t} = (if placeOf r = Some pl then {handleOf t r} else {})"
    using holds_id [of th t r _ pl, OF t] holds_place [of th t r pl, OF t] W_D(9) [OF W, of pl] by auto
  finally show ?thesis by simp
qed

lemma readyMembership_wf:
  assumes wf: "ts_wf s" and t: "thr s t = Some r"
  shows "readyMembership s t = (if tr_state r = Ready then 1 else 0)"
proof -
  note W = ts_wfD [OF wf]
  have len: "length (ts_readyQueues s) = 128" using wf by (simp add: ts_wf_def repOk_def)
  have q: "ts_readyQueues s = map (\<lambda>p. queueAt s (RQ p)) [0..<128]"
    by (rule nth_equalityI) (simp_all add: len queueAt_def)
  have "readyMembership s t = sum_list (map (\<lambda>p. if placeOf r = Some (RQ p) then 1 else 0) [0..<128])"
    unfolding readyMembership_def by (subst q, subst length_filter_concat)
      (simp add: count_in_queue [OF W t])
  also have "\<dots> = (if tr_state r = Ready then 1 else 0)"
  proof (cases "tr_state r = Ready")
    case True
    then have "nat (tr_priority r) < 128" using ready_queued(2) [OF wf t] by simp
    with True show ?thesis
      using sum_list_indicator [of "[0..<128]" "nat (tr_priority r)"]
      by (simp add: placeOf_def eq_commute [of "nat (tr_priority r)"])
  next
    case False
    then have "placeOf r \<noteq> Some (RQ p)" for p by (auto simp: placeOf_def split: thread_state.splits)
    with False show ?thesis by simp
  qed
  finally show ?thesis .
qed

lemma waitMembership_wf:
  assumes wf: "ts_wf s" and t: "thr s t = Some r"
  shows "waitMembership s t = (if tr_state r = Waiting \<or> tr_state r = WaitSuspended then 1 else 0)"
proof -
  note W = ts_wfD [OF wf]
  let ?ks = "Mapping.ordered_keys (ts_waitQueues s)"
  have fin: "finite (Mapping.keys (ts_waitQueues s))" using wf by (simp add: ts_wf_def repOk_def)
  have q: "Mapping.lookup_default [] (ts_waitQueues s) = (\<lambda>w. queueAt s (WQ w))"
    by (simp add: fun_eq_iff queueAt_def)
  have "waitMembership s t = sum_list (map (\<lambda>w. if placeOf r = Some (WQ w) then 1 else 0) ?ks)"
    unfolding waitMembership_def q length_filter_concat count_in_queue [OF W t] ..
  also have "\<dots> = (if tr_state r = Waiting \<or> tr_state r = WaitSuspended then 1 else 0)"
  proof (cases "tr_state r = Waiting \<or> tr_state r = WaitSuspended")
    case True
    then have pl: "placeOf r = Some (WQ (tr_wait r))" by (auto simp: placeOf_def)
    have "queueAt s (WQ (tr_wait r)) \<noteq> []"
      using W_D(9) [OF W] holds_place [of "thr s" t r, OF t] pl by (metis empty_iff empty_set)
    then have "tr_wait r \<in> Mapping.keys (ts_waitQueues s)"
      by (auto simp: queueAt_def Mapping.lookup_default_def keys_is_none_rep split: option.splits)
    then show ?thesis
      using True pl sum_list_indicator [of ?ks "tr_wait r"] fin
      by (simp add: eq_commute [of "tr_wait r"])
  next
    case False
    then have "placeOf r \<noteq> Some (WQ w)" for w by (auto simp: placeOf_def split: thread_state.splits)
    with False show ?thesis by simp
  qed
  finally show ?thesis .
qed

lemma threadValid_wf:
  assumes wf: "ts_wf s" and t: "thr s t = Some r"
  shows "threadValid s t r"
proof -
  have ok: "thread_ok r" using thr_ok [OF wf t] by simp
  show ?thesis
    using ok current_running [OF wf t]
    unfolding threadValid_def readyMembership_wf [OF wf t] waitMembership_wf [OF wf t] thread_ok_def Let_def
    by (cases "tr_state r") (auto simp: placeOf_def)
qed

lemma thr_keys: "t \<in> Mapping.keys (ts_threads s) \<longleftrightarrow> thr s t \<noteq> None"
  by (simp add: keys_is_none_rep Option.is_none_def)

lemma keys_dom: "Mapping.keys (ts_threads s) = dom (thr s)"
  by (auto simp: thr_keys)

lemma runningCount_wf:
  assumes wf: "ts_wf s"
  shows "runningCount s = (if ts_current s \<noteq> None then 1 else 0)"
proof -
  note W = ts_wfD [OF wf]
  let ?ks = "Mapping.ordered_keys (ts_threads s)"
  let ?run = "\<lambda>t. case thr s t of None \<Rightarrow> False | Some r \<Rightarrow> tr_state r = Running"
  have fin: "finite (Mapping.keys (ts_threads s))" using W_D(1) [OF W] by (simp add: keys_dom)
  have run: "?run t \<longleftrightarrow> ts_current s = Some t" for t
    using W_D(6, 7) [OF W] by (auto split: option.split)
  have "runningCount s = card {t \<in> Mapping.keys (ts_threads s). ts_current s = Some t}"
    unfolding runningCount_def run
    using fin by (metis distinct_card distinct_filter distinct_ordered_keys set_filter set_ordered_keys)
  also have "{t \<in> Mapping.keys (ts_threads s). ts_current s = Some t} = set_option (ts_current s)"
    using W_D(7) [OF W] by (auto simp: thr_keys)
  finally show ?thesis by (cases "ts_current s") simp_all
qed

lemma placeOf_WQ:
  "placeOf r = Some (WQ w) \<longleftrightarrow> (tr_state r = Waiting \<or> tr_state r = WaitSuspended) \<and> tr_wait r = w"
  by (cases "tr_state r") (auto simp: placeOf_def)

lemma wf_validate:
  assumes wf: "ts_wf s"
  shows "validate s"
  unfolding validate_def
proof (intro conjI ballI)
  note W = ts_wfD [OF wf]
  have len: "length (ts_readyQueues s) = 128" using wf by (simp add: ts_wf_def repOk_def)
  have fin: "finite (Mapping.keys (ts_waitQueues s))" using wf by (simp add: ts_wf_def repOk_def)
  {
    fix p h assume p: "p \<in> {0..<length (ts_readyQueues s)}" and h: "h \<in> set (ts_readyQueues s ! p)"
    then obtain r where "thr s (h_id h) = Some r" "h = handleOf (h_id h) r" "tr_state r = Ready"
      "nat (tr_priority r) = p"
      using ready_handle [OF wf _ h] len by auto
    then show "readyHandleOk s p h"
      using ready_queued(3) [OF wf] by (cases h) (auto simp: readyHandleOk_def handleOf_def)
  next
    fix w assume "w \<in> set (Mapping.ordered_keys (ts_waitQueues s))"
    then obtain q where q: "Mapping.lookup (ts_waitQueues s) w = Some q"
      using fin by (auto simp: keys_is_none_rep Option.is_none_def)
    moreover have "q \<noteq> []" using q wf by (auto simp: ts_wf_def repOk_def)
    ultimately have ld: "Mapping.lookup_default [] (ts_waitQueues s) w = q" "q \<noteq> []"
      by (simp_all add: Mapping.lookup_default_def)
    have h: "\<exists>r. thr s (h_id h) = Some r \<and> h = handleOf (h_id h) r \<and> placeOf r = Some (WQ w)"
      if "h \<in> set q" for h
      using W_D(9) [OF W, of "WQ w"] that ld(1) by (auto simp: queueAt_def holds_def)
    from ld(2) obtain h0 where "h0 \<in> set q" by (cases q) auto
    from h [OF this] obtain r where r: "thr s (h_id h0) = Some r" "placeOf r = Some (WQ w)" by blast
    from thr_ok [OF wf r(1)] r(2) show "wait_valid w"
      by (auto simp: placeOf_WQ thread_ok_cases(3))
    show "Mapping.lookup_default [] (ts_waitQueues s) w \<noteq> []" using ld by simp
    fix h' assume "h' \<in> set (Mapping.lookup_default [] (ts_waitQueues s) w)"
    then have "h' \<in> set q" by (simp add: ld(1))
    from h [OF this] show "waitHandleOk s w h'"
      by (cases h') (auto simp: waitHandleOk_def handleOf_def placeOf_WQ)
  next
    fix t show "case thr s t of None \<Rightarrow> True | Some r \<Rightarrow> threadValid s t r"
      by (simp add: threadValid_wf [OF wf] split: option.split)
  }
  show "runningCount s = (if ts_current s \<noteq> None then 1 else 0)" by (rule runningCount_wf [OF wf])
qed

text \<open>
  C1. Whatever sequence of fewer than 2^64 - 1 scheduler operations the kernel performs -
  adding, starting, yielding, blocking, waking, suspending, terminating, deleting,
  reprioritising, rotating, rescheduling - the scheduler's own \<open>validate\<close> accepts the state
  after each of them, and after it at most one thread is running, the selected one.
\<close>

theorem scheduler_always_validates:
  assumes "length ops < 2 ^ 64 - 1"
  shows "validate (fold ts_step (take n ops) ts_init)
     \<and> runningCount (fold ts_step (take n ops) ts_init) \<le> 1
     \<and> (\<forall>t r. thr (fold ts_step (take n ops) ts_init) t = Some r \<longrightarrow>
          (tr_state r = Running \<longleftrightarrow> ts_current (fold ts_step (take n ops) ts_init) = Some t))"
proof -
  have "length (take n ops) < 2 ^ 64 - 1" using assms by simp
  then have wf: "ts_wf (fold ts_step (take n ops) ts_init)" by (rule run_wf)
  then show ?thesis
    using wf_validate [OF wf] runningCount_wf [OF wf] current_running [OF wf] by simp
qed

theorem scheduler_always_validates_witness:
  "validate (fold ts_step [OpAddRunning 1 7 10, OpAddDormant 2 7 10, OpStart 2, OpYield] ts_init)"
  using scheduler_always_validates
    [of "[OpAddRunning 1 7 10, OpAddDormant 2 7 10, OpStart 2, OpYield]" 4] by simp

section \<open>Selection\<close>

text \<open>
  When nothing is running, \<open>takeNextReady\<close> selects the most urgent ready thread: the one of
  least priority number, among equals the one queued first; it answers none exactly if no
  thread is ready. Only the selected thread changes, from ready to running.
\<close>

theorem select_most_urgent:
  assumes "ts_wf s" and "ts_current s = None"
  shows "(case snd (takeNextReady s) of
            None \<Rightarrow> (\<forall>t r. thr s t = Some r \<longrightarrow> tr_state r \<noteq> Ready) \<and> fst (takeNextReady s) = s
          | Some i \<Rightarrow> (\<exists>r. thr s i = Some r \<and> tr_state r = Ready
              \<and> (\<forall>j q. thr s j = Some q \<longrightarrow> tr_state q = Ready \<longrightarrow> noMoreUrgentThan r q)
              \<and> thr (fst (takeNextReady s)) = (thr s)(i := Some (running r))
              \<and> ts_current (fst (takeNextReady s)) = Some i))"
  using takeNextReady_spec [OF assms(1)] by (auto split: option.split)

theorem select_most_urgent_witness:
  "case snd (takeNextReady (fold ts_step [OpAddDormant 3 1 20, OpAddDormant 2 1 10, OpStart 3, OpStart 2] ts_init)) of
     None \<Rightarrow> False | Some i \<Rightarrow> i = 2"
proof -
  let ?s = "fold ts_step [OpAddDormant 3 1 20, OpAddDormant 2 1 10, OpStart 3, OpStart 2] ts_init"
  have wf: "ts_wf ?s" by (rule run_wf) simp
  have cur: "ts_current ?s = None" by code_simp
  have sel: "snd (takeNextReady ?s) = Some 2" by code_simp
  show ?thesis using select_most_urgent [OF wf cur] unfolding sel by simp
qed

lemma firstNonEmpty_Some:
  "firstNonEmpty k qs = Some p \<longleftrightarrow>
     (\<exists>i<length qs. qs ! i \<noteq> [] \<and> (\<forall>j<i. qs ! j = []) \<and> p = int (k + i))"
proof (induction qs arbitrary: k)
  case Nil
  then show ?case by simp
next
  case (Cons q qs)
  show ?case
  proof (cases "q = []")
    case True
    then show ?thesis
      by (simp add: Cons.IH Ex_less_Suc2 All_less_Suc2) (auto simp: less_Suc_eq_0_disj)
  next
    case False
    then show ?thesis by (force simp: less_Suc_eq_0_disj)
  qed
qed

lemma firstNonEmpty_None: "firstNonEmpty k qs = None \<longleftrightarrow> (\<forall>q\<in>set qs. q = [])"
  by (induction qs arbitrary: k) auto

lemma select_most_urgent_aux:
  assumes "ts_wf s" and "snd (takeNextReady s) = None"
  shows "\<forall>t r. thr (fst (takeNextReady s)) t = Some r \<longrightarrow> tr_state r \<noteq> Ready"
  using takeNextReady_spec [OF assms(1)] assms(2) by auto

lemma highestReadyPriority_least:
  assumes wf: "ts_wf s"
  shows "(case highestReadyPriority s of
      None \<Rightarrow> \<forall>t r. thr s t = Some r \<longrightarrow> tr_state r \<noteq> Ready
    | Some p \<Rightarrow> (\<exists>t r. thr s t = Some r \<and> tr_state r = Ready \<and> tr_priority r = p)
        \<and> (\<forall>t r. thr s t = Some r \<longrightarrow> tr_state r = Ready \<longrightarrow> p \<le> tr_priority r))"
proof (cases "highestReadyPriority s")
  case None
  then have "\<forall>q\<in>set (ts_readyQueues s). q = []"
    by (simp add: highestReadyPriority_def firstNonEmpty_None)
  moreover have "length (ts_readyQueues s) = 128" using wf by (simp add: ts_wf_def repOk_def)
  ultimately have "tr_state r \<noteq> Ready" if "thr s t = Some r" for t r
    using ready_queued(1, 2) [OF wf that] by (metis empty_iff list.set(1) nth_mem)
  then show ?thesis using None by simp
next
  case (Some p)
  then obtain i where i: "i < length (ts_readyQueues s)" "ts_readyQueues s ! i \<noteq> []"
    "\<forall>j<i. ts_readyQueues s ! j = []" and p: "p = int i"
    unfolding highestReadyPriority_def firstNonEmpty_Some by auto
  have len: "length (ts_readyQueues s) = 128" using wf by (simp add: ts_wf_def repOk_def)
  obtain h where h: "h \<in> set (ts_readyQueues s ! i)" using i(2) by (cases "ts_readyQueues s ! i") auto
  from ready_handle [OF wf _ h] i(1) len obtain r where
    r: "thr s (h_id h) = Some r" "tr_state r = Ready" "nat (tr_priority r) = i" by auto
  have "tr_priority r = p" using ready_queued(3) [OF wf r(1, 2)] r(3) p by simp
  moreover have "p \<le> tr_priority q" if q: "thr s t = Some q" "tr_state q = Ready" for t q
  proof -
    have "\<not> nat (tr_priority q) < i" using ready_queued(1) [OF wf q] i(3) by auto
    then have "int i \<le> int (nat (tr_priority q))" by (simp only: of_nat_le_iff not_less)
    then show ?thesis unfolding p ready_queued(3) [OF wf q] .
  qed
  ultimately show ?thesis using Some r by auto
qed

section \<open>Rescheduling\<close>

lemma running_priority [simp]: "tr_priority (running r) = tr_priority r"
  by (simp add: running_def)

lemma noMore_le: "noMoreUrgentThan r q \<Longrightarrow> tr_priority r \<le> tr_priority q"
  by (auto simp: noMoreUrgentThan_def)

lemma taken_least:
  assumes wf: "ts_wf s" and tk: "takeNextReady s = (s', Some i)"
    and r: "thr s' i = Some r" and q: "thr s' j = Some q" "tr_state q = Ready"
  shows "tr_priority r \<le> tr_priority q"
proof -
  from takeNextReady_spec [OF wf] tk obtain r0 where r0: "thr s i = Some r0"
    and least: "\<And>j q. thr s j = Some q \<Longrightarrow> tr_state q = Ready \<Longrightarrow> noMoreUrgentThan r0 q"
    and th: "thr s' = (thr s)(i := Some (running r0))" by auto
  have j: "thr s j = Some q" using q th by (auto simp: running_def split: if_splits)
  have "r = running r0" using r th by simp
  then have "tr_priority r = tr_priority r0" by simp
  then show ?thesis using noMore_le [OF least [OF j q(2)]] by simp
qed

lemma selected_least:
  assumes wf: "ts_wf s" and t: "thr s t = Some x0" "tr_state x0 = Ready"
    and tk: "takeNextReady s = (s', sel)"
  shows "\<exists>u q. sel = Some u \<and> thr s' u = Some q
     \<and> (\<forall>j x. thr s j = Some x \<longrightarrow> tr_state x = Ready \<longrightarrow> tr_priority q \<le> tr_priority x)"
proof -
  from takeNextReady_spec [OF wf] t tk obtain i r where "sel = Some i" "thr s' i = Some (running r)"
    and least: "\<And>j q. thr s j = Some q \<Longrightarrow> tr_state q = Ready \<Longrightarrow> noMoreUrgentThan r q" by auto
  then show ?thesis using noMore_le [OF least] by auto
qed

text \<open>
  C31. Rescheduling leaves the right thread on the processor: the answer is the selected
  thread, none only if no thread is ready; unless the policy is \<open>None\<close> no ready thread is more
  urgent than it; under \<open>HigherPriorityOnly\<close> a running thread only ever loses the processor
  to one of strictly lower priority number, and under \<open>None\<close> it keeps it.
\<close>

theorem reschedule_selects:
  assumes wf: "ts_wf s" and rm: "room s" and res: "reschedule pol s = (s', sel)"
  shows "sel = ts_current s'
     \<and> (sel = None \<longrightarrow> (\<forall>t r. thr s' t = Some r \<longrightarrow> tr_state r \<noteq> Ready))
     \<and> (pol \<noteq> RpNone \<longrightarrow> (\<forall>t r j q. ts_current s' = Some t \<longrightarrow> thr s' t = Some r \<longrightarrow>
          thr s' j = Some q \<longrightarrow> tr_state q = Ready \<longrightarrow> tr_priority r \<le> tr_priority q))
     \<and> (\<forall>t r. ts_current s = Some t \<longrightarrow> thr s t = Some r \<longrightarrow>
          (pol = RpNone \<longrightarrow> s' = s)
        \<and> (pol = RpHigherPriorityOnly \<longrightarrow> sel \<noteq> Some t \<longrightarrow>
             (\<exists>u q. sel = Some u \<and> thr s' u = Some q \<and> tr_priority q < tr_priority r)))"
proof (cases "ts_current s")
  case None
  obtain s1 sel1 where tk: "takeNextReady s = (s1, sel1)" by (metis surj_pair)
  have s': "sel = sel1" "thr s' = thr s1" "ts_current s' = ts_current s1"
    using res None tk by (auto simp: reschedule_def Let_def split: option.splits)
  have cur: "ts_current s1 = sel1" using takeNextReady_current [OF wf None] tk by simp
  have "sel1 = None \<Longrightarrow> \<forall>t r. thr s1 t = Some r \<longrightarrow> tr_state r \<noteq> Ready"
    using select_most_urgent_aux [OF wf] tk by simp
  moreover have "tr_priority r \<le> tr_priority q"
    if "sel1 = Some t" "thr s1 t = Some r" "thr s1 j = Some q" "tr_state q = Ready" for t r j q
    using taken_least [OF wf, of s1 t r j q] tk that by simp
  ultimately show ?thesis using None cur unfolding s' by auto
next
  case (Some i)
  then obtain r where r: "thr s i = Some r" using W_D(7) [OF ts_wfD [OF wf]] by blast
  have cr: "currentRunning s = Some (i, r)" using Some r currentRunning_Some [OF wf] by simp
  note hrp = highestReadyPriority_least [OF wf]
  show ?thesis
  proof (cases "highestReadyPriority s")
    case None
    then have "s' = s" "sel = Some i" using res Some cr by (auto simp: reschedule_def)
    then show ?thesis using hrp None Some r by auto
  next
    case (Some p)
    note p = this
    show ?thesis
    proof (cases "pol \<noteq> RpNone \<and> (p < tr_priority r \<or> pol = RpEqualOrHigherPriority \<and> p = tr_priority r)")
      case False
      then have "s' = s" "sel = Some i" using res \<open>ts_current s = Some i\<close> cr p
        by (auto simp: reschedule_def split: if_splits)
      moreover have "pol \<noteq> RpNone \<Longrightarrow> tr_priority r \<le> p" using False by auto
      ultimately show ?thesis using hrp p r \<open>ts_current s = Some i\<close> by fastforce
    next
      case True
      let ?s1 = "enqueueReady i r (s\<lparr>ts_current := None\<rparr>)"
      have wf1: "ts_wf ?s1" by (rule requeue_current [OF wf rm \<open>ts_current s = Some i\<close> r])
      have th1: "thr ?s1 = (thr s)(i := Some (readied (ts_nextQueueSequence s) r))"
        by (simp add: enqueueReady_fields)
      have c1: "ts_current ?s1 = None" by (simp add: enqueueReady_fields)
      obtain s2 sel2 where tk: "takeNextReady ?s1 = (s2, sel2)" by (metis surj_pair)
      have s': "sel = sel2" "thr s' = thr s2" "ts_current s' = ts_current s2"
        using res True p cr tk \<open>ts_current s = Some i\<close>
        by (auto simp: reschedule_def Let_def split: option.splits)
      have cur: "ts_current s2 = sel2" using takeNextReady_current [OF wf1 c1] tk by simp
      have "\<exists>u q. sel2 = Some u \<and> thr s2 u = Some q
          \<and> (\<forall>j x. thr ?s1 j = Some x \<longrightarrow> tr_state x = Ready \<longrightarrow> tr_priority q \<le> tr_priority x)"
        by (rule selected_least [OF wf1 _ _ tk, of i "readied (ts_nextQueueSequence s) r"])
          (simp_all add: th1 readied_def)
      then obtain u q where u: "sel2 = Some u" "thr s2 u = Some q"
        and least: "\<And>j x. thr ?s1 j = Some x \<Longrightarrow> tr_state x = Ready \<Longrightarrow> tr_priority q \<le> tr_priority x"
        by blast
      have "tr_priority q \<le> p"
      proof -
        from hrp p obtain t x where x: "thr s t = Some x" "tr_state x = Ready" "tr_priority x = p" by auto
        have "t \<noteq> i" using x current_running [OF wf r] \<open>ts_current s = Some i\<close> r by auto
        then show ?thesis using least [of t x] x th1 by simp
      qed
      moreover have "pol = RpHigherPriorityOnly \<Longrightarrow> p < tr_priority r" using True by auto
      moreover have "tr_priority y \<le> tr_priority x"
        if "thr s2 u = Some y" "thr s2 j = Some x" "tr_state x = Ready" for j x y
        using taken_least [OF wf1, of s2 u y j x] tk u that by simp
      ultimately have
        "pol = RpHigherPriorityOnly \<Longrightarrow> tr_priority q < tr_priority r"
        "\<forall>t y j x. ts_current s2 = Some t \<longrightarrow> thr s2 t = Some y \<longrightarrow> thr s2 j = Some x \<longrightarrow>
           tr_state x = Ready \<longrightarrow> tr_priority y \<le> tr_priority x"
        using u cur by auto
      then show ?thesis using u r True \<open>ts_current s = Some i\<close> cur unfolding s' by simp
    qed
  qed
qed

theorem reschedule_selects_witness:
  "snd (reschedule RpHigherPriorityOnly
     (fold ts_step [OpAddRunning 1 1 20, OpAddDormant 2 1 10, OpStart 2] ts_init)) = Some 2
   \<and> ts_current (fst (reschedule RpHigherPriorityOnly
     (fold ts_step [OpAddRunning 1 1 20, OpAddDormant 2 1 10, OpStart 2] ts_init))) = Some 2"
proof -
  let ?s = "fold ts_step [OpAddRunning 1 1 20, OpAddDormant 2 1 10, OpStart 2] ts_init"
  have wf: "ts_wf ?s" by (rule run_wf) simp
  have rm: "room ?s" by code_simp
  have sel: "snd (reschedule RpHigherPriorityOnly ?s) = Some 2" by code_simp
  from reschedule_selects [OF wf rm, of RpHigherPriorityOnly "fst (reschedule RpHigherPriorityOnly ?s)"
      "snd (reschedule RpHigherPriorityOnly ?s)"] sel
  show ?thesis by simp
qed

end
