(* ===== verification/EeThreadSnapshot.thy ===== *)
theory EeThreadSnapshot
  imports EeThreadProps
begin

text \<open>
  Saving and restoring the thread scheduler. The queues are not part of a snapshot: restore
  rebuilds them from the sequence numbers in the thread records. Restoring what was saved
  gives back the same threads, queues and selection, and whatever restore accepts satisfies
  the full invariant of the scheduler.
\<close>

section \<open>Rebuilding the thread map\<close>

definition sourceOk :: "thread_snapshot \<Rightarrow> bool" where
  "sourceOk x = (validThreadId (tsn_id x) \<and> tsn_generation x \<noteq> 0 \<and> validPriority (tsn_priority x))"

definition threadsOf :: "thread_snapshot list \<Rightarrow> (int, thread_record) mapping \<Rightarrow> (int, thread_record) mapping" where
  "threadsOf xs m = fold (\<lambda>x. Mapping.update (tsn_id x) (recordOf x)) xs m"

lemma restoreThreads_iff:
  "restoreThreads xs m = Some th \<longleftrightarrow>
     (\<forall>x\<in>set xs. sourceOk x \<and> Mapping.lookup m (tsn_id x) = None)
     \<and> distinct (map tsn_id xs) \<and> th = threadsOf xs m"
  by (induction xs arbitrary: m)
    (auto simp: sourceOk_def threadsOf_def lookup_update' split: if_splits)

lemma lookup_threadsOf:
  "distinct (map tsn_id xs) \<Longrightarrow> (\<And>x. x \<in> set xs \<Longrightarrow> Mapping.lookup m (tsn_id x) = None) \<Longrightarrow>
     Mapping.lookup (threadsOf xs m) t = Some r \<longleftrightarrow>
       (\<exists>x\<in>set xs. tsn_id x = t \<and> r = recordOf x) \<or> Mapping.lookup m t = Some r"
proof (induction xs arbitrary: m)
  case Nil
  then show ?case by (simp add: threadsOf_def)
next
  case (Cons x xs)
  have "Mapping.lookup (threadsOf xs (Mapping.update (tsn_id x) (recordOf x) m)) t = Some r \<longleftrightarrow>
      (\<exists>y\<in>set xs. tsn_id y = t \<and> r = recordOf y)
      \<or> Mapping.lookup (Mapping.update (tsn_id x) (recordOf x) m) t = Some r"
    by (rule Cons.IH) (use Cons.prems in \<open>auto simp: lookup_update'\<close>)
  then show ?case using Cons.prems(2) [of x]
    by (auto simp: threadsOf_def lookup_update' split: if_splits)
qed

lemma recordOf_fields [simp]:
  "tr_queueSequence (recordOf x) = tsn_queueSequence x"
  "tr_generation (recordOf x) = tsn_generation x"
  "tr_priority (recordOf x) = tsn_priority x"
  "tr_state (recordOf x) = tsn_state x"
  "recordOf (snapshotOf t r) = r"
  "tsn_id (snapshotOf t r) = t"
  "tsn_queueSequence (snapshotOf t r) = tr_queueSequence r"
  by (simp_all add: recordOf_def snapshotOf_def)

section \<open>Rebuilding the queues\<close>

definition sourceHandle :: "thread_snapshot \<Rightarrow> thread_handle" where
  "sourceHandle x = Handle (tsn_id x) (tsn_generation x)"

definition sourcePlace :: "thread_snapshot \<Rightarrow> place option" where
  "sourcePlace x = placeOf (recordOf x)"

lemma source_snapshot [simp]:
  "sourceHandle (snapshotOf t r) = handleOf t r" "sourcePlace (snapshotOf t r) = placeOf r"
  by (simp_all add: sourceHandle_def sourcePlace_def handleOf_def) (simp add: snapshotOf_def)

definition pushSource :: "thread_snapshot \<Rightarrow> scheduler \<Rightarrow> scheduler" where
  "pushSource x s =
     (case sourcePlace x of
        Some (RQ p) \<Rightarrow> s\<lparr>ts_readyQueues := (ts_readyQueues s)[p := ts_readyQueues s ! p @ [sourceHandle x]]\<rparr>
      | Some (WQ w) \<Rightarrow> enqueueWait w (sourceHandle x) s
      | None \<Rightarrow> s)"

lemma restoreQueues_Cons:
  "restoreQueues prev (x # xs) s =
     (if tsn_queueSequence x = prev \<or> sourcePlace x = None then None
      else restoreQueues (tsn_queueSequence x) xs (pushSource x s))"
  by (cases "tsn_state x")
    (auto simp: sourcePlace_def pushSource_def placeOf_def sourceHandle_def recordOf_def Let_def)

lemma restoreQueues_pushed:
  "restoreQueues prev xs s = Some c \<Longrightarrow> c = fold pushSource xs s \<and> (\<forall>x\<in>set xs. sourcePlace x \<noteq> None)"
  by (induction xs arbitrary: prev s) (auto simp: restoreQueues_Cons split: if_splits simp del: restoreQueues.simps(2))

lemma restoreQueues_strict:
  "restoreQueues prev xs s = Some c \<Longrightarrow> sorted (map tsn_queueSequence xs) \<Longrightarrow>
     (\<And>x. x \<in> set xs \<Longrightarrow> prev \<le> tsn_queueSequence x) \<Longrightarrow>
     sorted_wrt (\<lambda>a b. tsn_queueSequence a < tsn_queueSequence b) xs
     \<and> (\<forall>x\<in>set xs. prev < tsn_queueSequence x)"
proof (induction xs arbitrary: prev s)
  case Nil
  then show ?case by simp
next
  case (Cons x xs)
  from Cons.prems(1) have ne: "tsn_queueSequence x \<noteq> prev"
    and rest: "restoreQueues (tsn_queueSequence x) xs (pushSource x s) = Some c"
    by (auto simp: restoreQueues_Cons split: if_splits simp del: restoreQueues.simps(2))
  have lt: "prev < tsn_queueSequence x" using Cons.prems(3) [of x] ne by (simp add: le_less)
  from Cons.IH [OF rest] Cons.prems(2) lt show ?case by (auto intro: less_trans)
qed

lemma restoreQueues_accepts:
  "sorted_wrt (\<lambda>a b. tsn_queueSequence a < tsn_queueSequence b) xs \<Longrightarrow>
     (\<And>x. x \<in> set xs \<Longrightarrow> prev < tsn_queueSequence x \<and> sourcePlace x \<noteq> None) \<Longrightarrow>
     restoreQueues prev xs s = Some (fold pushSource xs s)"
proof (induction xs arbitrary: prev s)
  case Nil
  then show ?case by simp
next
  case (Cons x xs)
  then have "prev < tsn_queueSequence x" "sourcePlace x \<noteq> None" by auto
  moreover from this(1) have "tsn_queueSequence x \<noteq> prev" by simp
  ultimately show ?case using Cons
    by (simp add: restoreQueues_Cons del: restoreQueues.simps(2))
qed

lemma pushSource_fields [simp]:
  "ts_threads (pushSource x s) = ts_threads s" "ts_current (pushSource x s) = ts_current s"
  "ts_nextQueueSequence (pushSource x s) = ts_nextQueueSequence s"
  "ts_canonicalTick (pushSource x s) = ts_canonicalTick s"
  by (auto simp: pushSource_def enqueueWait_def split: option.split place.split)

lemma pushAll_fields [simp]:
  "ts_threads (fold pushSource xs s) = ts_threads s" "ts_current (fold pushSource xs s) = ts_current s"
  "ts_nextQueueSequence (fold pushSource xs s) = ts_nextQueueSequence s"
  "ts_canonicalTick (fold pushSource xs s) = ts_canonicalTick s"
  by (induction xs arbitrary: s) simp_all

lemma pushSource_repOk: "repOk s \<Longrightarrow> repOk (pushSource x s)"
  by (auto simp: repOk_def pushSource_def enqueueWait_def lookup_update' split: option.split place.split)

lemma queueAt_pushSource:
  assumes rep: "repOk s" and pr: "validPriority (tsn_priority x)"
  shows "queueAt (pushSource x s) pl = queueAt s pl @ (if sourcePlace x = Some pl then [sourceHandle x] else [])"
proof (cases "sourcePlace x")
  case None
  then show ?thesis by (simp add: pushSource_def)
next
  case (Some q)
  show ?thesis
  proof (cases q)
    case (RQ p)
    have "nat (tsn_priority x) < 128" using kEeThreadPriorityCount_nat [OF pr] by simp
    then have p: "p < length (ts_readyQueues s)"
      using rep Some RQ by (auto simp: repOk_def sourcePlace_def placeOf_def split: thread_state.splits)
    let ?t = "s\<lparr>ts_readyQueues := (ts_readyQueues s)[p := ts_readyQueues s ! p @ [sourceHandle x]]\<rparr>"
    have "queueAt ?t = (queueAt s)(RQ p := queueAt s (RQ p) @ [sourceHandle x])"
      unfolding queueAt_RQ [OF p] by (rule queueAt_ready [OF p]) simp_all
    then show ?thesis using Some RQ by (simp add: pushSource_def)
  next
    case (WQ w)
    have "queueAt (enqueueWait w (sourceHandle x) s) = (queueAt s)(WQ w := queueAt s (WQ w) @ [sourceHandle x])"
      by (rule queueAt_wait) (simp_all add: enqueueWait_def queueAt_def)
    then show ?thesis using Some WQ by (simp add: pushSource_def)
  qed
qed

lemma queueAt_pushAll:
  "repOk s \<Longrightarrow> (\<And>x. x \<in> set xs \<Longrightarrow> validPriority (tsn_priority x)) \<Longrightarrow>
     repOk (fold pushSource xs s)
     \<and> queueAt (fold pushSource xs s) pl
        = queueAt s pl @ map sourceHandle (filter (\<lambda>x. sourcePlace x = Some pl) xs)"
  by (induction xs arbitrary: s) (simp_all add: pushSource_repOk queueAt_pushSource)

section \<open>What restore accepts is consistent\<close>

lemma maximumQueueSequence_ge:
  assumes "x \<in> set xs"
  shows "tsn_queueSequence x \<le> maximumQueueSequence xs"
proof (cases "tsn_queueSequence x = 0")
  case False
  have aux: "m \<le> foldl (\<lambda>m x. max m (tsn_queueSequence x)) m ys
    \<and> (\<forall>y\<in>set ys. tsn_queueSequence y \<le> foldl (\<lambda>m x. max m (tsn_queueSequence x)) m ys)" for m ys
    by (induction ys arbitrary: m) (auto intro: order_trans simp: max_def split: if_splits, (meson order_trans linear)+)
  from False assms have "x \<in> set (queuedOf xs)" by (simp add: queuedOf_def)
  then show ?thesis using aux [of 0 "queuedOf xs"] by (simp add: maximumQueueSequence_def)
qed simp

definition restoreBase :: "scheduler_snapshot \<Rightarrow> (int, thread_record) mapping \<Rightarrow> scheduler" where
  "restoreBase d threads = ts_init\<lparr>ts_nextQueueSequence := ssn_nextQueueSequence d,
     ts_canonicalTick := ssn_canonicalTick d, ts_current := ssn_currentThreadId d,
     ts_threads := threads\<rparr>"

lemma restoreBase_empty: "repOk (restoreBase d th)" "queueAt (restoreBase d th) pl = []"
  by (cases pl; simp add: restoreBase_def ts_init_def repOk_def queueAt_def
      kEeThreadPriorityCount_def Mapping.lookup_default_def)+

abbreviation orderedSources :: "scheduler_snapshot \<Rightarrow> thread_snapshot list" where
  "orderedSources d \<equiv> sort_key tsn_queueSequence (queuedOf (ssn_threads d))"

lemma restoreCandidate_Some:
  "restoreCandidate d = Some c \<longleftrightarrow>
     (\<forall>x\<in>set (ssn_threads d). sourceOk x) \<and> distinct (map tsn_id (ssn_threads d))
   \<and> ssn_nextQueueSequence d \<noteq> 0
   \<and> maximumQueueSequence (ssn_threads d) < ssn_nextQueueSequence d
   \<and> restoreQueues 0 (orderedSources d) (restoreBase d (threadsOf (ssn_threads d) Mapping.empty)) = Some c
   \<and> validate c"
proof (cases "restoreThreads (ssn_threads d) Mapping.empty")
  case None
  then have "\<not> ((\<forall>x\<in>set (ssn_threads d). sourceOk x) \<and> distinct (map tsn_id (ssn_threads d)))"
    using restoreThreads_iff [of "ssn_threads d" Mapping.empty "threadsOf (ssn_threads d) Mapping.empty"]
    by simp
  then show ?thesis using None by (auto simp: restoreCandidate_def)
next
  case (Some th)
  then show ?thesis
    using restoreThreads_iff [of "ssn_threads d" Mapping.empty th]
    by (auto simp: restoreCandidate_def restoreBase_def not_le split: option.splits if_splits)
qed

lemma threadValid_ok:
  assumes "threadValid s t r" and "tr_generation r \<noteq> 0" and "validPriority (tr_priority r)"
  shows "thread_ok r" and "tr_state r = Running \<Longrightarrow> ts_current s = Some t"
  using assms unfolding threadValid_def thread_ok_def Let_def
  by (cases "tr_state r"; auto simp: placeOf_def)+

lemma validate_running:
  assumes v: "validate s" and fin: "finite (Mapping.keys (ts_threads s))"
  shows "thr s t = Some r \<Longrightarrow> threadValid s t r"
    and "ts_current s = Some i \<Longrightarrow> \<exists>t r. thr s t = Some r \<and> tr_state r = Running"
proof -
  show "thr s t = Some r \<Longrightarrow> threadValid s t r"
    using v fin thr_keys [of t s] unfolding validate_def by force
  assume "ts_current s = Some i"
  then have "runningCount s = 1" using v by (simp add: validate_def)
  then have "filter (\<lambda>t. case thr s t of None \<Rightarrow> False | Some r \<Rightarrow> tr_state r = Running)
      (Mapping.ordered_keys (ts_threads s)) \<noteq> []"
    unfolding runningCount_def by (metis length_0_conv zero_neq_one)
  then show "\<exists>t r. thr s t = Some r \<and> tr_state r = Running"
    by (auto simp: filter_empty_conv split: option.splits)
qed

lemma restored_wf:
  assumes "restoreCandidate d = Some c"
  shows "ts_wf c"
proof -
  let ?xs = "ssn_threads d" and ?ys = "orderedSources d"
  let ?th = "threadsOf ?xs Mapping.empty" and ?nx = "ssn_nextQueueSequence d"
  from assms have src: "\<And>x. x \<in> set ?xs \<Longrightarrow> sourceOk x" and ids: "distinct (map tsn_id ?xs)"
    and nx: "?nx \<noteq> 0" "maximumQueueSequence ?xs < ?nx"
    and rq: "restoreQueues 0 ?ys (restoreBase d ?th) = Some c" and v: "validate c"
    by (auto simp: restoreCandidate_Some)
  have c: "c = fold pushSource ?ys (restoreBase d ?th)" using restoreQueues_pushed [OF rq] by simp
  have th: "thr c t = Some r \<longleftrightarrow> (\<exists>x\<in>set ?xs. tsn_id x = t \<and> r = recordOf x)" for t r
    using lookup_threadsOf [OF ids, of Mapping.empty t r] by (simp add: c restoreBase_def)
  have thf: "thr c (tsn_id x) = Some (recordOf x)" if "x \<in> set ?xs" for x using th that by blast
  have fields: "ts_current c = ssn_currentThreadId d" "ts_nextQueueSequence c = ?nx"
    by (simp_all add: c restoreBase_def)
  have ys: "set ?ys = {x \<in> set ?xs. tsn_queueSequence x \<noteq> 0}" by (auto simp: queuedOf_def)
  have strict: "sorted_wrt (\<lambda>a b. tsn_queueSequence a < tsn_queueSequence b) ?ys"
    using restoreQueues_strict [OF rq] by simp
  have "dom (thr c) = tsn_id ` set ?xs" using th by (auto simp: dom_def)
  then have fin: "finite (dom (thr c))" "finite (Mapping.keys (ts_threads c))"
    by (simp_all add: keys_dom)
  have ok: "thread_ok r \<and> 0 < t \<and> (tr_state r = Running \<longrightarrow> ts_current c = Some t)" if t: "thr c t = Some r" for t r
  proof -
    from t th obtain x where "x \<in> set ?xs" "tsn_id x = t" "r = recordOf x" by auto
    then have "0 < t" "tr_generation r \<noteq> 0" "validPriority (tr_priority r)"
      using src [of x] by (auto simp: sourceOk_def validThreadId_def)
    then show ?thesis using threadValid_ok [OF validate_running(1) [OF v fin(2) t]] by simp
  qed
  have cur: "\<exists>r. thr c i = Some r \<and> tr_state r = Running" if i: "ts_current c = Some i" for i
    using validate_running(2) [OF v fin(2) i] ok i by force
  have seq: "tsn_queueSequence x < ?nx" if "x \<in> set ?xs" for x
    using maximumQueueSequence_ge [OF that] nx(2) by (rule le_less_trans)
  have rep: "repOk c \<and> queueAt c pl = map sourceHandle (filter (\<lambda>x. sourcePlace x = Some pl) ?ys)" for pl
    using queueAt_pushAll [of "restoreBase d ?th" ?ys pl] src ys restoreBase_empty
    by (auto simp: c sourceOk_def)
  have sq: "seqOf (thr c) (sourceHandle x) = tsn_queueSequence x" if "x \<in> set ?ys" for x
    using thf that ys by (auto simp: seqOf_def sourceHandle_def)
  have qset: "set (queueAt c pl) = holds (thr c) pl" for pl
  proof
    show "set (queueAt c pl) \<subseteq> holds (thr c) pl"
      using rep thf ys by (auto simp: holds_def sourceHandle_def handleOf_def sourcePlace_def)
    show "holds (thr c) pl \<subseteq> set (queueAt c pl)"
    proof
      fix h assume "h \<in> holds (thr c) pl"
      then obtain r where r: "thr c (h_id h) = Some r" "h = handleOf (h_id h) r" "placeOf r = Some pl"
        by (auto simp: holds_def)
      then obtain x where x: "x \<in> set ?xs" "tsn_id x = h_id h" "r = recordOf x" using th by auto
      have "tsn_queueSequence x \<noteq> 0" using ok [OF r(1)] r(3) x by (simp add: thread_ok_def Let_def)
      then have "x \<in> set ?ys" using x ys by simp
      moreover have "h = sourceHandle x" using r(2) x by (simp add: sourceHandle_def handleOf_def)
      ultimately show "h \<in> set (queueAt c pl)" using rep r(3) x by (auto simp: sourcePlace_def)
    qed
  qed
  have qsorted: "sorted_wrt (\<lambda>a b. seqOf (thr c) a < seqOf (thr c) b) (queueAt c pl)" for pl
  proof -
    let ?zs = "filter (\<lambda>x. sourcePlace x = Some pl) ?ys"
    have "sorted_wrt (\<lambda>a b. tsn_queueSequence a < tsn_queueSequence b) ?zs"
      by (rule sorted_wrt_filter [OF strict])
    then have "sorted_wrt (\<lambda>a b. seqOf (thr c) (sourceHandle a) < seqOf (thr c) (sourceHandle b)) ?zs"
      by (subst sorted_wrt_cong_set [of _ _ "\<lambda>a b. tsn_queueSequence a < tsn_queueSequence b"])
        (auto simp: sq)
    then show ?thesis using rep by (simp add: sorted_wrt_map)
  qed
  have inj: "t = u" if "thr c t = Some r" "thr c u = Some q" "tr_queueSequence r \<noteq> 0"
    "tr_queueSequence r = tr_queueSequence q" for t u r q
  proof -
    from that th obtain x y where x: "x \<in> set ?xs" "tsn_id x = t" "r = recordOf x"
      and y: "y \<in> set ?xs" "tsn_id y = u" "q = recordOf y" by metis
    then have "x \<in> set ?ys" "y \<in> set ?ys" "tsn_queueSequence x = tsn_queueSequence y"
      using that ys by auto
    moreover have "sorted_wrt (<) (map tsn_queueSequence ?ys)"
      using strict by (simp add: sorted_wrt_map)
    then have "distinct (map tsn_queueSequence ?ys)" by (simp only: strict_sorted_iff)
    ultimately have "x = y" by (metis (no_types) distinct_map inj_onD)
    then show ?thesis using x y by simp
  qed
  have lt: "thr c t = Some r \<Longrightarrow> tr_queueSequence r < ?nx" for t r using th seq by auto
  have run: "tr_state r = Running \<longleftrightarrow> ts_current c = Some t" if "thr c t = Some r" for t r
    using ok [OF that] cur [of t] that by auto
  have dom: "ts_current c = Some i \<Longrightarrow> i \<in> dom (thr c)" for i using cur by auto
  have "W (thr c) (queueAt c) (ts_current c) ?nx"
    unfolding W_def using fin(1) nx(1) ok run dom lt qset qsorted inj by blast
  then show ?thesis using rep by (simp add: ts_wf_def fields)
qed

section \<open>What was saved is restored\<close>

definition ts_view :: "scheduler \<Rightarrow> (int, thread_record) mapping \<times> thread_handle list list
    \<times> (wait_key, thread_handle list) mapping \<times> int option \<times> u64 \<times> ee_tick" where
  "ts_view s = (ts_threads s, ts_readyQueues s, ts_waitQueues s, ts_current s,
     ts_nextQueueSequence s, ts_canonicalTick s)"

lemma same_queues:
  assumes "repOk s" and "repOk t" and eq: "\<And>pl. queueAt s pl = queueAt t pl"
  shows "ts_readyQueues s = ts_readyQueues t" and "ts_waitQueues s = ts_waitQueues t"
proof -
  have len: "length (ts_readyQueues s) = 128" "length (ts_readyQueues t) = 128"
    using assms(1, 2) by (auto simp: repOk_def)
  show "ts_readyQueues s = ts_readyQueues t"
  proof (rule nth_equalityI)
    show "ts_readyQueues s ! p = ts_readyQueues t ! p" if "p < length (ts_readyQueues s)" for p
      using eq [of "RQ p"] that len by (simp add: queueAt_def)
  qed (simp add: len)
  have "Mapping.lookup (ts_waitQueues s) w = Mapping.lookup (ts_waitQueues t) w" for w
    using eq [of "WQ w"] assms(1, 2)
    by (cases "Mapping.lookup (ts_waitQueues s) w"; cases "Mapping.lookup (ts_waitQueues t) w")
      (auto simp: queueAt_def Mapping.lookup_default_def repOk_def)
  then show "ts_waitQueues s = ts_waitQueues t" by (rule mapping_eqI)
qed

lemma snapshot_threads:
  assumes wf: "ts_wf s"
  shows "map tsn_id (ssn_threads (ts_snapshot s)) = Mapping.ordered_keys (ts_threads s)"
    and "x \<in> set (ssn_threads (ts_snapshot s)) \<longleftrightarrow>
      (\<exists>t r. thr s t = Some r \<and> x = snapshotOf t r)"
proof -
  have fin: "finite (Mapping.keys (ts_threads s))"
    using W_D(1) [OF ts_wfD [OF wf]] by (simp add: keys_dom)
  show "map tsn_id (ssn_threads (ts_snapshot s)) = Mapping.ordered_keys (ts_threads s)"
    by (simp add: ts_snapshot_def o_def)
  show "x \<in> set (ssn_threads (ts_snapshot s)) \<longleftrightarrow> (\<exists>t r. thr s t = Some r \<and> x = snapshotOf t r)"
  proof -
    have "x \<in> set (ssn_threads (ts_snapshot s)) \<longleftrightarrow> (\<exists>t\<in>dom (thr s). x = snapshotOf t (the (thr s t)))"
      using fin by (auto simp: ts_snapshot_def keys_dom)
    then show ?thesis by (force simp: dom_def)
  qed
qed

lemma snapshot_candidate:
  assumes wf: "ts_wf s"
  shows "\<exists>c. restoreCandidate (ts_snapshot s) = Some c \<and> ts_view c = ts_view s"
proof -
  note W = ts_wfD [OF wf]
  let ?d = "ts_snapshot s" and ?xs = "ssn_threads (ts_snapshot s)" and ?ys = "orderedSources (ts_snapshot s)"
  let ?th = "threadsOf ?xs Mapping.empty"
  have x: "x \<in> set ?xs \<longleftrightarrow> (\<exists>t r. thr s t = Some r \<and> x = snapshotOf t r)" for x
    by (rule snapshot_threads [OF wf])
  have ids: "distinct (map tsn_id ?xs)" by (simp add: snapshot_threads(1) [OF wf])
  have src: "sourceOk x" if xx: "x \<in> set ?xs" for x
  proof -
    from xx x obtain t r where "thr s t = Some r" "x = snapshotOf t r" by blast
    then show ?thesis using thr_ok [OF wf] thread_ok_cases
      by (auto simp: sourceOk_def snapshotOf_def validThreadId_def)
  qed
  have th: "?th = ts_threads s"
  proof (rule mapping_eqI)
    fix t
    have "Mapping.lookup ?th t = Some r \<longleftrightarrow> thr s t = Some r" for r
    proof -
      have "thr s t = Some r \<Longrightarrow> snapshotOf t r \<in> set ?xs" using x by blast
      then have "thr s t = Some r \<Longrightarrow> \<exists>x\<in>set ?xs. tsn_id x = t \<and> r = recordOf x" by force
      then show ?thesis using lookup_threadsOf [OF ids, of Mapping.empty t r] x by auto
    qed
    then show "Mapping.lookup ?th t = thr s t" by (metis not_None_eq)
  qed
  have d: "ssn_nextQueueSequence ?d = ts_nextQueueSequence s" "ssn_currentThreadId ?d = ts_current s"
    "ssn_canonicalTick ?d = ts_canonicalTick s" by (simp_all add: ts_snapshot_def)
  have ys: "y \<in> set ?ys \<longleftrightarrow> y \<in> set ?xs \<and> tsn_queueSequence y \<noteq> 0" for y by (auto simp: queuedOf_def)
  have dist: "distinct (map tsn_queueSequence ?ys)"
  proof -
    have "inj_on tsn_queueSequence (set ?ys)"
    proof (rule inj_onI)
      fix a b assume a: "a \<in> set ?ys" and b: "b \<in> set ?ys" and eq: "tsn_queueSequence a = tsn_queueSequence b"
      from a ys x obtain t r where r: "thr s t = Some r" "a = snapshotOf t r" "tsn_queueSequence a \<noteq> 0" by blast
      from b ys x obtain u q where q: "thr s u = Some q" "b = snapshotOf u q" by blast
      have "t = u" by (rule W_D(8) [OF W r(1) q(1)]) (use r q eq in simp_all)
      then show "a = b" using r q by simp
    qed
    moreover have "distinct ?ys" using ids by (simp add: queuedOf_def distinct_map)
    ultimately show ?thesis by (simp only: distinct_map)
  qed
  then have "sorted_wrt (<) (map tsn_queueSequence ?ys)" by (simp add: strict_sorted_iff)
  then have strict: "sorted_wrt (\<lambda>a b. tsn_queueSequence a < tsn_queueSequence b) ?ys"
    by (simp only: sorted_wrt_map)
  have place: "0 < tsn_queueSequence y \<and> sourcePlace y \<noteq> None" if y: "y \<in> set ?ys" for y
  proof -
    from y ys x obtain t r where r: "thr s t = Some r" "y = snapshotOf t r" "tsn_queueSequence y \<noteq> 0" by blast
    then show ?thesis using thr_ok [OF wf r(1)]
      by (auto simp: sourcePlace_def thread_ok_def Let_def word_gt_0)
  qed
  let ?b = "restoreBase ?d ?th"
  let ?c = "fold pushSource ?ys ?b"
  have rq: "restoreQueues 0 ?ys ?b = Some ?c"
    by (rule restoreQueues_accepts [OF strict place])
  have max: "maximumQueueSequence ?xs < ts_nextQueueSequence s"
  proof -
    have "\<forall>y\<in>set ys. tsn_queueSequence y < nx \<Longrightarrow> m < nx \<Longrightarrow>
        foldl (\<lambda>m x. max m (tsn_queueSequence x)) m ys < nx" for ys m and nx :: u64
      by (induction ys arbitrary: m) auto
    moreover have "\<forall>y\<in>set (queuedOf ?xs). tsn_queueSequence y < ts_nextQueueSequence s"
      using W_D(5) [OF W] x by (auto simp: queuedOf_def)
    moreover have "0 < ts_nextQueueSequence s" using ts_nx [OF wf] by (simp add: word_gt_0)
    ultimately show ?thesis by (simp add: maximumQueueSequence_def)
  qed
  have rep: "repOk ?c" and q: "queueAt ?c pl = map sourceHandle (filter (\<lambda>x. sourcePlace x = Some pl) ?ys)" for pl
    using queueAt_pushAll [of ?b ?ys pl] src ys restoreBase_empty by (auto simp: sourceOk_def)
  have "queueAt ?c pl = queueAt s pl" for pl
  proof (rule sorted_wrt_key_unique [where f = "seqOf (thr s)"])
    have sq: "seqOf (thr s) (sourceHandle y) = tsn_queueSequence y" if "y \<in> set ?ys" for y
      using that ys x by (auto simp: seqOf_def sourceHandle_def snapshotOf_def)
    have "sorted_wrt (\<lambda>a b. seqOf (thr s) (sourceHandle a) < seqOf (thr s) (sourceHandle b))
        (filter (\<lambda>x. sourcePlace x = Some pl) ?ys)"
      using sorted_wrt_filter [OF strict, of "\<lambda>x. sourcePlace x = Some pl"]
      by (subst sorted_wrt_cong_set [of _ _ "\<lambda>a b. tsn_queueSequence a < tsn_queueSequence b"])
        (auto simp: sq)
    then show "sorted_wrt (\<lambda>a b. seqOf (thr s) a < seqOf (thr s) b) (queueAt ?c pl)"
      by (simp add: q sorted_wrt_map)
    show "sorted_wrt (\<lambda>a b. seqOf (thr s) a < seqOf (thr s) b) (queueAt s pl)" by (rule W_D(10) [OF W])
    show "set (queueAt ?c pl) = set (queueAt s pl)"
      unfolding q W_D(9) [OF W]
    proof (intro equalityI subsetI)
      fix h assume "h \<in> set (map sourceHandle (filter (\<lambda>x. sourcePlace x = Some pl) ?ys))"
      then show "h \<in> holds (thr s) pl" using ys x
        by (auto simp: holds_def handleOf_def)
    next
      fix h assume "h \<in> holds (thr s) pl"
      then obtain r where r: "thr s (h_id h) = Some r" "h = handleOf (h_id h) r" "placeOf r = Some pl"
        by (auto simp: holds_def)
      let ?y = "snapshotOf (h_id h) r"
      have "tr_queueSequence r \<noteq> 0" using thr_ok [OF wf r(1)] r(3) by (simp add: thread_ok_def Let_def)
      then have "?y \<in> set ?ys" using ys x r(1) by auto
      moreover have "sourceHandle ?y = h" using r(2) by (simp add: sourceHandle_def handleOf_def snapshotOf_def)
      moreover have "sourcePlace ?y = Some pl" using r(3) by (simp add: sourcePlace_def)
      ultimately show "h \<in> set (map sourceHandle (filter (\<lambda>x. sourcePlace x = Some pl) ?ys))" by force
    qed
  qed
  moreover have "repOk s" using wf by (simp add: ts_wf_def)
  ultimately have same: "ts_readyQueues ?c = ts_readyQueues s" "ts_waitQueues ?c = ts_waitQueues s"
    using same_queues [OF rep] by auto
  have f: "ts_threads ?c = ts_threads s" "ts_current ?c = ts_current s"
    "ts_nextQueueSequence ?c = ts_nextQueueSequence s" "ts_canonicalTick ?c = ts_canonicalTick s"
    by (simp_all add: restoreBase_def th d)
  have "ts_wf ?c" using wf by (subst ts_wf_cong [OF f(1) same f(2, 3)])
  then have "restoreCandidate ?d = Some ?c"
    using src ids ts_nx [OF wf] max rq wf_validate by (simp add: restoreCandidate_Some d)
  then show ?thesis by (intro exI [of _ ?c]) (simp add: ts_view_def same, simp add: restoreBase_def th d)
qed

interpretation ts_store: snapshot_store ts_snapshot ts_restore "\<lambda>_. True" ts_wf ts_view
proof unfold_locales
  fix s t d
  show "ts_wf s \<Longrightarrow> fst (ts_restore (ts_snapshot s) t)"
    and "ts_wf s \<Longrightarrow> ts_view (snd (ts_restore (ts_snapshot s) t)) = ts_view s"
    using snapshot_candidate [of s] by (auto simp: ts_restore_def)
  show "\<not> fst (ts_restore d t) \<Longrightarrow> snd (ts_restore d t) = t"
    by (auto simp: ts_restore_def split: option.splits)
  show "fst (ts_restore d t) \<Longrightarrow> ts_wf (snd (ts_restore d t))"
    using restored_wf by (auto simp: ts_restore_def split: option.splits)
  show "ts_view s = ts_view t \<Longrightarrow> ts_snapshot s = ts_snapshot t"
    by (simp add: ts_view_def ts_snapshot_def)
qed simp

text \<open>
  C35. Saving and restoring loses nothing: after any history, \<open>restore\<close> accepts the snapshot
  on any scheduler and gives back every thread, every ready and wait queue in order, the
  selected thread, the sequence counter and the tick; saving again gives the same snapshot.
\<close>

theorem thread_snapshot_roundtrip:
  assumes "length ops < 2 ^ 64 - 1" and "s = fold ts_step ops ts_init"
  shows "fst (ts_restore (ts_snapshot s) t)
     \<and> ts_view (snd (ts_restore (ts_snapshot s) t)) = ts_view s
     \<and> ts_wf (snd (ts_restore (ts_snapshot s) t))
     \<and> ts_snapshot (snd (ts_restore (ts_snapshot s) t)) = ts_snapshot s"
  using ts_store.roundtrip [OF run_wf [OF assms(1)], of t] unfolding assms(2) .

theorem thread_snapshot_roundtrip_witness:
  "fst (ts_restore (ts_snapshot (fold ts_step [OpAddRunning 1 7 10, OpBlock (WaitKey WkSemaphore 3)] ts_init)) ts_init)"
  using thread_snapshot_roundtrip [OF _ refl, of "[OpAddRunning 1 7 10, OpBlock (WaitKey WkSemaphore 3)]" ts_init]
  by simp

text \<open>
  C36. \<open>restore\<close> cannot corrupt the scheduler: whatever snapshot it is given, it either
  refuses and leaves the scheduler exactly as it was, or installs a state that satisfies the
  full invariant (in particular \<open>validate\<close>), from which every further history stays valid.
\<close>

theorem restore_sound:
  "(fst (ts_restore d s) \<longrightarrow> ts_wf (snd (ts_restore d s)) \<and> validate (snd (ts_restore d s)))
   \<and> (\<not> fst (ts_restore d s) \<longrightarrow> snd (ts_restore d s) = s)"
  using ts_store.restore_sound [of d s] ts_store.restore_rejects [of d s] wf_validate by simp

theorem restore_sound_witness:
  "(let d = \<lparr>ssn_threads = [\<lparr>tsn_id = 1, tsn_generation = 1, tsn_priority = 5, tsn_state = Ready,
       tsn_wait = noWait, tsn_completedWait = noCompleted, tsn_retainCompletedWaitReason = False,
       tsn_wakeupCount = 0, tsn_suspendCount = 0, tsn_queueSequence = 4\<rparr>],
       ssn_currentThreadId = None, ssn_nextQueueSequence = 4, ssn_canonicalTick = EeTick 0\<rparr>
    in snd (ts_restore d ts_init) = ts_init)"
proof -
  let ?d = "\<lparr>ssn_threads = [\<lparr>tsn_id = 1, tsn_generation = 1, tsn_priority = 5, tsn_state = Ready,
       tsn_wait = noWait, tsn_completedWait = noCompleted, tsn_retainCompletedWaitReason = False,
       tsn_wakeupCount = 0, tsn_suspendCount = 0, tsn_queueSequence = 4\<rparr>],
       ssn_currentThreadId = None, ssn_nextQueueSequence = 4, ssn_canonicalTick = EeTick 0\<rparr>"
  have "\<not> fst (ts_restore ?d ts_init)" by code_simp
  then show ?thesis using restore_sound [of ?d ts_init] by (simp add: Let_def)
qed

end
