(* ===== verification/EeThreadWaits.thy ===== *)
theory EeThreadWaits
  imports EeThreadProps
begin

text \<open>
  Waiting, waking, suspending and dispatching: wait queues are first-in first-out, wakeups
  are neither lost nor duplicated, suspension is transparent to a waiting thread, a stale
  handle can do nothing, and a dispatch runs exactly the selected thread.
\<close>

section \<open>Wait queues are FIFO\<close>

lemma waitOrder_queueAt: "waitOrder w s = map h_id (queueAt s (WQ w))"
  by (simp add: waitOrder_def queueAt_def Mapping.lookup_default_def split: option.split)

lemma waitOrder_cong: "ts_waitQueues s = ts_waitQueues t \<Longrightarrow> waitOrder w s = waitOrder w t"
  by (simp add: waitOrder_def)

lemma takeNextReady_waits [simp]: "ts_waitQueues (fst (takeNextReady s)) = ts_waitQueues s"
  by (auto simp: takeNextReady_def split: prod.split option.split)

lemma completeWait_effect:
  "ts_waitQueues (completeWait i r w c b s) = ts_waitQueues s"
  "\<exists>r'. thr (completeWait i r w c b s) = (thr s)(i := Some r')
     \<and> tr_completedWait r' = \<lparr>cw_wait = w, cw_completion = c\<rparr>
     \<and> tr_state r' = (if tr_suspendCount r = 0 then Ready else Suspended)
     \<and> tr_wakeupCount r' = tr_wakeupCount r \<and> tr_suspendCount r' = tr_suspendCount r"
  by (simp_all add: completeWait_def Let_def enqueueReady_fields thr_put)
    (auto simp: readied_def)

text \<open>
  Waiters are served in the order they arrived: an accepted block appends the running
  thread to the queue of its wait object and to no other; a wake takes exactly the first
  waiter, marks its wait satisfied and makes it ready (suspended, while a suspension is
  outstanding), and leaves every other thread and every other wait queue alone.
\<close>

theorem wait_fifo:
  assumes wf: "ts_wf s" and w: "wait_valid w"
  shows "(\<forall>t r. ts_current s = Some t \<longrightarrow> thr s t = Some r \<longrightarrow>
            \<not> completed_valid (tr_completedWait r) \<longrightarrow> (wk_kind w = WkSleep \<longrightarrow> tr_wakeupCount r = 0) \<longrightarrow>
            waitOrder w (fst (blockCurrentThread w s)) = waitOrder w s @ [t]
          \<and> (\<forall>v. v \<noteq> w \<longrightarrow> waitOrder v (fst (blockCurrentThread w s)) = waitOrder v s))
     \<and> (case waitOrder w s of
          [] \<Rightarrow> wakeOne w s = (s, None)
        | t # rest \<Rightarrow> snd (wakeOne w s) = Some t
            \<and> waitOrder w (fst (wakeOne w s)) = rest
            \<and> (\<forall>v. v \<noteq> w \<longrightarrow> waitOrder v (fst (wakeOne w s)) = waitOrder v s)
            \<and> (\<exists>r r'. thr s t = Some r \<and> thr (fst (wakeOne w s)) = (thr s)(t := Some r')
                 \<and> tr_completedWait r' = \<lparr>cw_wait = w, cw_completion = WcSatisfied\<rparr>
                 \<and> tr_state r' = (if tr_suspendCount r = 0 then Ready else Suspended)))"
proof (intro conjI allI impI)
  fix t r
  assume cur: "ts_current s = Some t" and r: "thr s t = Some r"
    and ok: "\<not> completed_valid (tr_completedWait r)" "wk_kind w = WkSleep \<longrightarrow> tr_wakeupCount r = 0"
  have cr: "currentRunning s = Some (t, r)" using cur r currentRunning_Some [OF wf] by simp
  have q: "ts_waitQueues (fst (blockCurrentThread w s)) =
      ts_waitQueues (enqueueWait w (Handle t (tr_generation r)) s)"
    using cur w cr ok by (auto simp: blockCurrentThread_def Let_def split_beta enqueueWait_def)
  show "waitOrder w (fst (blockCurrentThread w s)) = waitOrder w s @ [t]"
    unfolding waitOrder_cong [OF q]
    by (simp add: waitOrder_queueAt enqueueWait_def queueAt_def lookup_default_update)
  fix v assume "v \<noteq> w"
  then show "waitOrder v (fst (blockCurrentThread w s)) = waitOrder v s"
    unfolding waitOrder_cong [OF q]
    by (simp add: waitOrder_queueAt enqueueWait_def queueAt_def lookup_default_update)
next
  show "case waitOrder w s of
          [] \<Rightarrow> wakeOne w s = (s, None)
        | t # rest \<Rightarrow> snd (wakeOne w s) = Some t
            \<and> waitOrder w (fst (wakeOne w s)) = rest
            \<and> (\<forall>v. v \<noteq> w \<longrightarrow> waitOrder v (fst (wakeOne w s)) = waitOrder v s)
            \<and> (\<exists>r r'. thr s t = Some r \<and> thr (fst (wakeOne w s)) = (thr s)(t := Some r')
                 \<and> tr_completedWait r' = \<lparr>cw_wait = w, cw_completion = WcSatisfied\<rparr>
                 \<and> tr_state r' = (if tr_suspendCount r = 0 then Ready else Suspended))"
  proof (cases "Mapping.lookup (ts_waitQueues s) w")
    case None
    then show ?thesis by (simp add: waitOrder_def wakeOne_def w)
  next
    case (Some q)
    then obtain h rest where q: "Mapping.lookup (ts_waitQueues s) w = Some (h # rest)"
      using wf by (cases q) (auto simp: ts_wf_def repOk_def)
    from wait_head [OF wf q] obtain r where r: "thr s (h_id h) = Some r" "findThread h s = Some r"
      "tr_state r = Waiting \<or> tr_state r = WaitSuspended" "tr_wait r = w" by blast
    let ?s = "dropFront w rest s"
    have "findThread h ?s = Some r" using r(2) by (simp add: findThread_def)
    then have wk: "wakeOne w s = (recordTransition TrWaitSatisfied (ts_current s) (h_id h) w
        (completeWait (h_id h) r w WcSatisfied False ?s), Some (h_id h))"
      using w q r(3, 4) by (auto simp: wakeOne_def Let_def)
    have wq: "ts_waitQueues (fst (wakeOne w s)) = ts_waitQueues ?s"
      by (simp add: wk completeWait_effect)
    have "waitOrder w (fst (wakeOne w s)) = map h_id rest"
      "v \<noteq> w \<Longrightarrow> waitOrder v (fst (wakeOne w s)) = waitOrder v s" for v
      unfolding waitOrder_cong [OF wq] by (simp_all add: waitOrder_queueAt queueAt_dropFront)
    moreover have "waitOrder w s = h_id h # map h_id rest" using q by (simp add: waitOrder_def)
    moreover have "\<exists>r'. thr (fst (wakeOne w s)) = (thr s)(h_id h := Some r')
        \<and> tr_completedWait r' = \<lparr>cw_wait = w, cw_completion = WcSatisfied\<rparr>
        \<and> tr_state r' = (if tr_suspendCount r = 0 then Ready else Suspended)"
      using completeWait_effect(2) [of "h_id h" r w WcSatisfied False ?s] by (auto simp: wk)
    ultimately show ?thesis using r(1) by (simp add: wk)
  qed
qed

theorem wait_fifo_witness:
  "snd (wakeOne (WaitKey WkSemaphore 3) (fold ts_step [OpAddRunning 1 7 10, OpAddDormant 2 7 10, OpStart 2,
     OpBlock (WaitKey WkSemaphore 3), OpBlock (WaitKey WkSemaphore 3)] ts_init)) = Some 1"
proof -
  let ?s = "fold ts_step [OpAddRunning 1 7 10, OpAddDormant 2 7 10, OpStart 2,
     OpBlock (WaitKey WkSemaphore 3), OpBlock (WaitKey WkSemaphore 3)] ts_init"
  have wf: "ts_wf ?s" by (rule run_wf) simp
  have v: "wait_valid (WaitKey WkSemaphore 3)" by (simp add: wait_valid_def)
  have "waitOrder (WaitKey WkSemaphore 3) ?s = [1, 2]" by code_simp
  then show ?thesis using wait_fifo [OF wf v] by simp
qed

section \<open>Wakeups\<close>

lemma releaseWaitThread_effect:
  assumes wf: "ts_wf s" and f: "findThread h s = Some r"
    and st: "tr_state r = Waiting \<or> tr_state r = WaitSuspended" and c: "c \<noteq> WcNone"
  shows "snd (releaseWaitThread h c b s)
     \<and> (\<exists>r'. thr (fst (releaseWaitThread h c b s)) = (thr s)(h_id h := Some r')
          \<and> tr_completedWait r' = \<lparr>cw_wait = tr_wait r, cw_completion = c\<rparr>
          \<and> tr_state r' = (if tr_suspendCount r = 0 then Ready else Suspended)
          \<and> tr_wakeupCount r' = tr_wakeupCount r \<and> tr_suspendCount r' = tr_suspendCount r)"
proof -
  note f' = findThread_D [OF wf f]
  have v: "wait_valid (tr_wait r)" using thread_ok_cases(3) [OF f'(3)] st by blast
  from out_wait [OF wf f'(1) st] obtain s1 where rw: "removeWait h (tr_wait r) s = (s1, True)"
    and th: "ts_threads s1 = ts_threads s" using f'(2) by auto
  have "releaseWaitThread h c b s = (recordTransition (transitionReasonForWaitCompletion c) (ts_current s)
      (h_id h) (tr_wait r) (completeWait (h_id h) r (tr_wait r) c b s1), True)"
    using f st c v rw by (auto simp: releaseWaitThread_def)
  then show ?thesis using completeWait_effect(2) [of "h_id h" r "tr_wait r" c b s1] th by auto
qed

text \<open>
  No wakeup is lost and none is duplicated: waking a live thread either ends its sleep
  (and a sleeper has no stored wakeups) or adds exactly one to its wakeup count; a running
  thread with a stored wakeup that goes to sleep consumes one and keeps running.
\<close>

theorem wakeup_not_lost:
  assumes wf: "ts_wf s" and f: "findThread h s = Some r" and live: "tr_state r \<noteq> Dormant"
    and room: "tr_wakeupCount r \<noteq> u32_max"
  shows "(\<exists>r'. thr (fst (wakeThread h s)) = (thr s)(h_id h := Some r')
       \<and> (if (tr_state r = Waiting \<or> tr_state r = WaitSuspended) \<and> tr_wait r = sleepKey
          then snd (wakeThread h s) = WrWokeSleeper \<and> tr_wakeupCount r = 0 \<and> tr_wakeupCount r' = 0
             \<and> tr_state r' = (if tr_suspendCount r = 0 then Ready else Suspended)
             \<and> tr_completedWait r' = \<lparr>cw_wait = sleepKey, cw_completion = WcSatisfied\<rparr>
          else snd (wakeThread h s) = WrWakeupCounted \<and> tr_state r' = tr_state r
             \<and> unat (tr_wakeupCount r') = unat (tr_wakeupCount r) + 1))
     \<and> (ts_current s = Some (h_id h) \<longrightarrow> \<not> completed_valid (tr_completedWait r) \<longrightarrow>
          sr_disposition (snd (sleepCurrentThread (fst (wakeThread h s)))) = SdWakeupConsumed
        \<and> thr (fst (sleepCurrentThread (fst (wakeThread h s)))) = thr s
        \<and> ts_current (fst (sleepCurrentThread (fst (wakeThread h s)))) = Some (h_id h))"
proof (cases "(tr_state r = Waiting \<or> tr_state r = WaitSuspended) \<and> tr_wait r = sleepKey")
  case True
  note f' = findThread_D [OF wf f]
  have z: "tr_wakeupCount r = 0" using f'(3) True by (auto simp: thread_ok_def Let_def sleepKey_def)
  have nr: "ts_current s \<noteq> Some (h_id h)" using current_running [OF wf f'(1)] True by auto
  from releaseWaitThread_effect [OF wf f, of WcSatisfied False] True obtain s1 r' where
    rel: "releaseWaitThread h WcSatisfied False s = (s1, True)" "thr s1 = (thr s)(h_id h := Some r')"
      "tr_completedWait r' = \<lparr>cw_wait = tr_wait r, cw_completion = WcSatisfied\<rparr>"
      "tr_state r' = (if tr_suspendCount r = 0 then Ready else Suspended)"
      "tr_wakeupCount r' = tr_wakeupCount r"
    by (cases "releaseWaitThread h WcSatisfied False s") auto
  have "wakeThread h s = (s1, WrWokeSleeper)"
    using f True rel(1) by (auto simp: wakeThread_def)
  then show ?thesis using rel z nr True by (intro conjI exI [of _ r']) auto
next
  case False
  note f' = findThread_D [OF wf f]
  let ?r = "r\<lparr>tr_wakeupCount := tr_wakeupCount r + 1\<rparr>"
  have wk: "wakeThread h s = (recordTransition TrWakeupCounted (ts_current s) (h_id h) sleepKey
      (putThread (h_id h) ?r s), WrWakeupCounted)"
    using f live False room by (auto simp: wakeThread_def)
  have nz: "tr_wakeupCount r + 1 \<noteq> 0" by (rule count_up [OF room])
  have th: "thr (fst (wakeThread h s)) = (thr s)(h_id h := Some ?r)" by (simp add: wk thr_put)
  have sleep: "sr_disposition (snd (sleepCurrentThread (fst (wakeThread h s)))) = SdWakeupConsumed
      \<and> thr (fst (sleepCurrentThread (fst (wakeThread h s)))) = thr s
      \<and> ts_current (fst (sleepCurrentThread (fst (wakeThread h s)))) = Some (h_id h)"
    if cur: "ts_current s = Some (h_id h)" and nc: "\<not> completed_valid (tr_completedWait r)"
  proof -
    have st: "tr_state r = Running" using current_running [OF wf f'(1)] cur by simp
    have cr: "currentRunning (fst (wakeThread h s)) = Some (h_id h, ?r)"
      using cur st th by (simp add: currentRunning_def wk)
    have "?r\<lparr>tr_wakeupCount := tr_wakeupCount ?r - 1\<rparr> = r" by simp
    then show ?thesis
      using cur nc nz f'(1) th unfolding sleepCurrentThread_def cr
      by (simp add: thr_put fun_upd_idem) (simp add: wk)
  qed
  show ?thesis
    using False th sleep unat_succ [OF nz] by (intro conjI exI [of _ ?r]) (auto simp: wk)
qed

theorem wakeup_not_lost_witness:
  "sr_disposition (snd (sleepCurrentThread (fst (wakeThread (Handle 1 7)
     (fold ts_step [OpAddRunning 1 7 10] ts_init))))) = SdWakeupConsumed"
proof -
  let ?s = "fold ts_step [OpAddRunning 1 7 10] ts_init"
  have wf: "ts_wf ?s" by (rule run_wf) simp
  obtain r where r: "findThread (Handle 1 7) ?s = Some r" "tr_state r = Running"
    "tr_wakeupCount r = 0" "tr_completedWait r = noCompleted"
    by (cases "findThread (Handle 1 7) ?s")
      (simp_all add: addRunningThread_def addDormantThread_def ts_init_def validThreadId_def
        validPriority_def kEeThreadPriorityCount_def findThread_def findIn_def handle_valid_def
        recordTransition_def putThread_def)
  have "ts_current ?s = Some 1" by code_simp
  then show ?thesis
    using wakeup_not_lost [OF wf r(1)] r(2-4) by (simp add: completed_valid_def noCompleted_def)
qed

section \<open>Suspension\<close>

lemma suspend_resume_counted:
  assumes wf: "ts_wf s" and f: "findThread h s = Some r" and room: "tr_suspendCount r \<noteq> u32_max"
    and st: "tr_state r = Suspended \<or> tr_state r = WaitSuspended"
  shows "let s' = fst (resumeThread h (fst (suspendThread h s))) in
     snd (suspendThread h s) \<and> snd (resumeThread h (fst (suspendThread h s)))
   \<and> ts_current s' = ts_current s \<and> thr s' = thr s \<and> queueAt s' = queueAt s
   \<and> ts_nextQueueSequence s' = ts_nextQueueSequence s"
proof -
  note f' = findThread_D [OF wf f]
  have hv: "handle_valid h" using f by (simp add: findThread_Some)
  have nz: "tr_suspendCount r \<noteq> 0" using thread_ok_cases(2) [OF f'(3)] st by simp
  let ?r1 = "r\<lparr>tr_suspendCount := tr_suspendCount r + 1\<rparr>"
  let ?u = "recordTransition TrSuspended (ts_current s) (h_id h) noWait (putThread (h_id h) ?r1 s)"
  have sus: "suspendThread h s = (?u, True)"
    using f st room by (auto simp: suspendThread_def suspendFrom_def Let_def)
  have fu: "findThread h ?u = Some ?r1"
    using hv f'(2) by (simp add: findThread_Some handleOf_def thr_put)
  have "?r1\<lparr>tr_suspendCount := tr_suspendCount ?r1 - 1\<rparr> = r" by simp
  then have res: "resumeThread h ?u = (recordTransition TrResumed (ts_current ?u) (h_id h) noWait
      (putThread (h_id h) r ?u), True)"
    using st nz count_up [OF room] by (auto simp: resumeThread_def fu Let_def)
  show ?thesis
    using sus res f'(1) queueAt_same [of "fst (resumeThread h ?u)" s]
    by (simp add: Let_def thr_put fun_upd_idem)
qed

text \<open>
  Suspending and resuming is transparent to a thread that waits or is already
  suspended: threads, queues, selection and sequence counter are as before, its place in
  the wait queue included. A ready thread goes to the back of its own ready queue and
  nothing else changes.
\<close>

theorem suspend_resume:
  assumes wf: "ts_wf s" and f: "findThread h s = Some r" and room: "tr_suspendCount r \<noteq> u32_max"
    and st: "tr_state r \<noteq> Dormant" "tr_state r \<noteq> Running"
  shows "let s' = fst (resumeThread h (fst (suspendThread h s))) in
     snd (suspendThread h s) \<and> snd (resumeThread h (fst (suspendThread h s)))
   \<and> ts_current s' = ts_current s
   \<and> (if tr_state r = Ready
      then thr s' = (thr s)(h_id h := Some (readied (ts_nextQueueSequence s) r))
         \<and> queueAt s' = (queueAt s)(RQ (nat (tr_priority r)) :=
             remove1 h (queueAt s (RQ (nat (tr_priority r)))) @ [h])
      else thr s' = thr s \<and> queueAt s' = queueAt s
         \<and> ts_nextQueueSequence s' = ts_nextQueueSequence s)"
proof -
  note f' = findThread_D [OF wf f]
  have ok: "thread_ok r" by (rule f'(3))
  have hv: "handle_valid h" using f by (simp add: findThread_Some)
  have nz: "tr_suspendCount r + 1 \<noteq> 0" by (rule count_up [OF room])
  have find: "findThread h t = Some q" if "thr t (h_id h) = Some q" "tr_generation q = tr_generation r" for t q
    using that hv f'(2) by (simp add: findThread_Some handleOf_def)
  show ?thesis
  proof (cases "tr_state r")
    case Ready
    from out_ready [OF wf f'(1) Ready] f'(2) obtain s1 where
      rr: "removeReady h (tr_priority r) s = (s1, True)" "ts_out (h_id h) s1" "ts_threads s1 = ts_threads s"
        "ts_nextQueueSequence s1 = ts_nextQueueSequence s" "ts_current s1 = ts_current s"
        "queueAt s1 = takenOut (queueAt s) (h_id h) r" by auto
    let ?p = "nat (tr_priority r)"
    have c0: "tr_suspendCount r = 0" using thread_ok_cases(1) [OF ok] Ready by simp
    let ?r1 = "r\<lparr>tr_state := Suspended, tr_queueSequence := 0, tr_suspendCount := 1\<rparr>"
    let ?t = "putThread (h_id h) ?r1 s1"
    have sus: "suspendThread h s = (recordTransition TrSuspended (ts_current s) (h_id h) noWait ?t, True)"
      using f Ready room rr(1) c0 by (simp add: suspendThread_def suspendFrom_def Let_def)
    let ?u = "recordTransition TrSuspended (ts_current s) (h_id h) noWait ?t"
    have fu: "findThread h ?u = Some ?r1" by (rule find) (simp_all add: thr_put)
    let ?r2 = "?r1\<lparr>tr_suspendCount := 0\<rparr>"
    have res: "resumeThread h ?u = (recordTransition TrResumed (ts_current ?u) (h_id h) noWait
        (enqueueReady (h_id h) ?r2 ?u), True)"
      by (simp add: resumeThread_def fu Let_def)
    have rep: "repOk ?u" using rr(2) by (simp add: ts_out_def repOk_def)
    have pr: "validPriority (tr_priority ?r2)" using thread_ok_cases(4) [OF ok] by simp
    have "queueAt ?u = queueAt s1" by (rule queueAt_same) simp_all
    then have "queueAt (enqueueReady (h_id h) ?r2 ?u) = (queueAt s)(RQ ?p := remove1 h (queueAt s (RQ ?p)) @ [h])"
      using queueAt_enqueueReady [OF rep pr, of "h_id h"] rr(6) takenOut_at [of r "RQ ?p"] f'(2) Ready
      by (simp add: placeOf_def handleOf_def)
    moreover have "readied (ts_nextQueueSequence s) ?r2 = readied (ts_nextQueueSequence s) r"
      using c0 by (simp add: readied_def)
    ultimately show ?thesis
      using sus res Ready rr(3-5) queueAt_same [of "fst (resumeThread h ?u)" "enqueueReady (h_id h) ?r2 ?u"]
      by (simp add: Let_def enqueueReady_fields thr_put)
  next
    case Waiting
    have c0: "tr_suspendCount r = 0" using thread_ok_cases(1) [OF ok] Waiting by simp
    let ?r1 = "r\<lparr>tr_state := WaitSuspended, tr_suspendCount := 1\<rparr>"
    let ?u = "recordTransition TrSuspended (ts_current s) (h_id h) noWait (putThread (h_id h) ?r1 s)"
    have sus: "suspendThread h s = (?u, True)"
      using f Waiting room c0 by (simp add: suspendThread_def suspendFrom_def Let_def)
    have fu: "findThread h ?u = Some ?r1" by (rule find) (simp_all add: thr_put)
    have "?r1\<lparr>tr_suspendCount := 0, tr_state := Waiting\<rparr> = r" using Waiting c0 by simp
    then have res: "resumeThread h ?u = (recordTransition TrResumed (ts_current ?u) (h_id h) noWait
        (putThread (h_id h) r ?u), True)"
      by (simp add: resumeThread_def fu Let_def)
    show ?thesis
      using sus res Waiting f'(1) queueAt_same [of "fst (resumeThread h ?u)" s]
      by (simp add: Let_def thr_put fun_upd_idem)
  next
    case Suspended
    then show ?thesis using suspend_resume_counted [OF wf f room] by simp
  next
    case WaitSuspended
    then show ?thesis using suspend_resume_counted [OF wf f room] by simp
  qed (use st in simp_all)
qed

theorem suspend_resume_witness:
  "let s = fold ts_step [OpAddRunning 1 7 10, OpAddDormant 2 7 10, OpStart 2] ts_init
   in snd (suspendThread (Handle 2 7) s) \<and> snd (resumeThread (Handle 2 7) (fst (suspendThread (Handle 2 7) s)))"
proof -
  let ?s = "fold ts_step [OpAddRunning 1 7 10, OpAddDormant 2 7 10, OpStart 2] ts_init"
  have wf: "ts_wf ?s" by (rule run_wf) simp
  have some: "findThread (Handle 2 7) ?s \<noteq> None" by code_simp
  then obtain r where r: "findThread (Handle 2 7) ?s = Some r" by blast
  have "map_option tr_state (findThread (Handle 2 7) ?s) = Some Ready" by code_simp
  moreover have "map_option tr_suspendCount (findThread (Handle 2 7) ?s) = Some 0" by code_simp
  ultimately have "tr_state r = Ready" "tr_suspendCount r = 0" using r by simp_all
  then show ?thesis
    using suspend_resume [OF wf r] by (simp add: Let_def del: fold_simps ts_step.simps List.fold.simps)
qed

end
