(* ===== verification/EeThreadHandles.thy ===== *)
theory EeThreadHandles
  imports EeThreadWaits
begin

text \<open>
  Generations and dispatch: a handle to a deleted thread stays dead over every later run and
  nothing can be done through it; a dispatch resumes exactly the selected thread, rejects a
  malformed exit and otherwise carries out the transition the exit names.
\<close>

section \<open>Generations change only where a thread is added or deleted\<close>

definition genOf :: "scheduler \<Rightarrow> int \<Rightarrow> u32 option" where
  "genOf s i = map_option tr_generation (thr s i)"

named_theorems gens

lemma genOf_same: "ts_threads s = ts_threads t \<Longrightarrow> genOf s = genOf t"
  by (simp add: genOf_def fun_eq_iff)

lemma genOf_put [gens]: "genOf (putThread i r s) = (genOf s)(i := Some (tr_generation r))"
  by (auto simp: genOf_def thr_put)

lemma genOf_record [gens]: "genOf (recordTransition a b c d s) = genOf s"
  by (rule genOf_same) simp

lemma genOf_enqueueReady [gens]: "genOf (enqueueReady i r s) = (genOf s)(i := Some (tr_generation r))"
  by (auto simp: genOf_def enqueueReady_fields readied_def)

lemma genOf_upd [gens]:
  "genOf (s\<lparr>ts_current := c\<rparr>) = genOf s" "genOf (s\<lparr>ts_readyQueues := q\<rparr>) = genOf s"
  "genOf (s\<lparr>ts_nextQueueSequence := n\<rparr>) = genOf s"
  by (simp_all add: genOf_def fun_eq_iff)

lemma genOf_queues [gens]:
  "genOf (dropFront w rest s) = genOf s" "genOf (enqueueWait w h s) = genOf s"
  "genOf (fst (removeReady h p s)) = genOf s" "genOf (fst (removeWait h w s)) = genOf s"
  by (rule genOf_same;
      simp add: enqueueWait_def removeReady_def removeWait_def Let_def split: option.split)+

lemma genOf_tick [gens]:
  "genOf (publishCanonicalTick t s) = genOf s" "genOf (enableTransitionTracing n s) = genOf s"
  "genOf (disableTransitionTracing s) = genOf s" "genOf (clearTransitionTrace s) = genOf s"
  by (rule genOf_same; simp add: publishCanonicalTick_def enableTransitionTracing_def
      disableTransitionTracing_def clearTransitionTrace_def)+

lemma genOf_find: "findThread h s = Some r \<Longrightarrow> (genOf s)(h_id h := Some (tr_generation r)) = genOf s"
  by (simp add: findThread_Some genOf_def fun_upd_idem)

lemma genOf_lookup: "thr s i = Some r \<Longrightarrow> (genOf s)(i := Some (tr_generation r)) = genOf s"
  by (simp add: genOf_def fun_upd_idem)

lemma genOf_running: "currentRunning s = Some (i, r) \<Longrightarrow> (genOf s)(i := Some (tr_generation r)) = genOf s"
  by (rule genOf_lookup) (auto simp: currentRunning_def split: option.splits if_splits)

lemma scanQueue_found: "fst (scanQueue threads queue) = Some (h, r) \<Longrightarrow> findIn threads h = Some r"
  by (induction queue) (auto split: option.splits if_splits)

lemma scanQueues_found: "fst (scanQueues threads queues) = Some (h, r) \<Longrightarrow> findIn threads h = Some r"
proof (induction queues)
  case (Cons queue queues)
  then show ?case using scanQueue_found [of threads queue h r]
    by (cases "fst (scanQueue threads queue)") (auto simp: split_beta split: prod.splits option.splits)
qed simp

lemma genOf_takeNextReady [gens]: "genOf (fst (takeNextReady s)) = genOf s"
proof (cases "scanQueues (ts_threads s) (ts_readyQueues s)")
  case (Pair hit queues)
  show ?thesis
  proof (cases hit)
    case (Some x)
    obtain h r where x: "x = (h, r)" by (cases x)
    have "findThread h s = Some r"
      using scanQueues_found [of "ts_threads s" "ts_readyQueues s" h r] Pair Some x
      by (simp add: findThread_def)
    from genOf_find [OF this] show ?thesis using Pair Some x by (simp add: takeNextReady_def gens)
  qed (use Pair in \<open>simp add: takeNextReady_def gens\<close>)
qed

lemma genOf_completeWait [gens]: "genOf (completeWait i r w c b s) = (genOf s)(i := Some (tr_generation r))"
  by (simp add: completeWait_def Let_def gens)

section \<open>Every operation\<close>

lemma genOf_start: "genOf (fst (startThreadHandle h s)) = genOf s"
  by (auto simp: startThreadHandle_def gens genOf_find split: option.split)

lemma genOf_select [gens]: "genOf (fst (selectNextThread s)) = genOf s"
  by (auto simp: selectNextThread_def gens split_beta split: option.split)

lemma genOf_yield: "genOf (fst (yieldCurrentThread s)) = genOf s"
  by (auto simp: yieldCurrentThread_def gens genOf_running split_beta split: option.split)

lemma genOf_block: "genOf (fst (blockCurrentThread w s)) = genOf s"
  by (auto simp: blockCurrentThread_def gens genOf_running Let_def split_beta split: option.split)

lemma genOf_sleep: "genOf (fst (sleepCurrentThread s)) = genOf s"
  by (auto simp: sleepCurrentThread_def gens genOf_running genOf_block split_beta split: option.split)

lemma genOf_wakeOne: "genOf (fst (wakeOne w s)) = genOf s"
proof -
  have "findThread h (dropFront w rest s) = Some r \<Longrightarrow> (genOf s)(h_id h := Some (tr_generation r)) = genOf s" for h r rest
    using genOf_find [of h "dropFront w rest s" r] by (simp add: gens)
  then show ?thesis by (auto simp: wakeOne_def gens Let_def split: option.split list.split)
qed

lemma genOf_release [gens]: "genOf (fst (releaseWaitThread h c b s)) = genOf s"
  by (auto simp: releaseWaitThread_def gens genOf_find split_beta split: option.split bool.split)

lemma genOf_wake: "genOf (fst (wakeThread h s)) = genOf s"
  by (auto simp: wakeThread_def gens genOf_find split_beta split: option.split bool.split)

lemma genOf_retire [gens]: "genOf (fst (retireCurrentThread s)) = genOf s"
  by (auto simp: retireCurrentThread_def gens genOf_running madeDormant_def split: option.split)

lemma genOf_suspendFrom:
  "suspendFrom h r s = Some (s1, r1, b) \<Longrightarrow> genOf s1 = genOf s \<and> tr_generation r1 = tr_generation r"
  using genOf_queues(3) [of h "tr_priority r" s]
  by (auto simp: suspendFrom_def split_beta gens split: thread_state.splits if_splits bool.splits)

lemma genOf_detach: "detachForTermination h r s = Some s1 \<Longrightarrow> genOf s1 = genOf s"
  using genOf_queues(3) [of h "tr_priority r" s] genOf_queues(4) [of h "tr_wait r" s]
  by (auto simp: detachForTermination_def split_beta gens split: thread_state.splits if_splits bool.splits)

lemma genOf_suspend: "genOf (fst (suspendThread h s)) = genOf s"
proof (cases "findThread h s")
  case (Some r)
  note g = genOf_find [OF Some]
  show ?thesis
  proof (cases "suspendFrom h r s")
    case (Some x)
    then obtain s1 r1 b where x: "suspendFrom h r s = Some (s1, r1, b)" by (cases x) auto
    show ?thesis using \<open>findThread h s = Some r\<close> genOf_suspendFrom [OF x] g x
      by (cases b) (simp_all add: suspendThread_def Let_def gens)
  qed (use Some in \<open>simp add: suspendThread_def\<close>)
qed (simp add: suspendThread_def)

lemma genOf_terminate: "genOf (fst (terminateThread h s)) = genOf s"
proof (cases "findThread h s")
  case (Some r)
  note g = genOf_find [OF Some]
  show ?thesis
  proof (cases "detachForTermination h r s")
    case (Some s1)
    show ?thesis using \<open>findThread h s = Some r\<close> genOf_detach [OF Some] g Some
      by (simp add: terminateThread_def Let_def gens madeDormant_def)
  qed (use Some in \<open>simp add: terminateThread_def\<close>)
qed (simp add: terminateThread_def)

lemma genOf_priority: "genOf (fst (changeThreadPriority h p s)) = genOf s"
  by (auto simp: changeThreadPriority_def Let_def gens genOf_find split_beta split: option.split bool.split)

lemma genOf_rotate: "genOf (fst (rotateReadyQueue p s)) = genOf s"
  by (auto simp: rotateReadyQueue_def Let_def gens genOf_find split: list.split option.split)

lemma genOf_reschedule: "genOf (fst (reschedule pol s)) = genOf s"
  by (auto simp: reschedule_def Let_def gens genOf_running split_beta split: option.split)

lemma genOf_rest:
  "genOf (fst (startThread i s)) = genOf s" "genOf (fst (cancelWakeups h s)) = genOf s"
  "genOf (fst (consumeWaitCompletion h s)) = genOf s" "genOf (fst (resumeThread h s)) = genOf s"
  "genOf (fst (finishCurrentThread s)) = genOf s" "genOf (fst (exitCurrentThread s)) = genOf s"
  by (auto simp: startThread_def cancelWakeups_def consumeWaitCompletion_def resumeThread_def
      finishCurrentThread_def exitCurrentThread_def Let_def gens genOf_find genOf_start split_beta
      split: option.split bool.split)

lemma genOf_addDormant: "genOf (fst (addDormantThread i g p s)) = genOf s
   \<or> genOf (fst (addDormantThread i g p s)) = (genOf s)(i := Some g)"
  by (auto simp: addDormantThread_def gens split: option.split)

lemma genOf_addRunning: "genOf (fst (addRunningThread i g p s)) = genOf s
   \<or> genOf (fst (addRunningThread i g p s)) = (genOf s)(i := Some g)"
  using genOf_addDormant [of i g p s] genOf_lookup [of "fst (addDormantThread i g p s)" i]
  by (auto simp: addRunningThread_def gens split_beta split: option.split bool.split)

lemma genOf_delete: "genOf (fst (deleteThread h s)) = genOf s
   \<or> genOf (fst (deleteThread h s)) = (genOf s)(h_id h := None)"
  by (auto simp: deleteThread_def Let_def genOf_def lookup_delete' fun_eq_iff split: option.split)

definition adds :: "int \<Rightarrow> u32 \<Rightarrow> ts_op \<Rightarrow> bool" where
  "adds i g op = (case op of OpAddDormant j k p \<Rightarrow> j = i \<and> k = g | OpAddRunning j k p \<Rightarrow> j = i \<and> k = g | _ \<Rightarrow> False)"

lemma genOf_step:
  assumes "\<not> adds i g p" "genOf s i \<noteq> Some g"
  shows "genOf (ts_step p s) i \<noteq> Some g"
proof (cases p)
  case (OpAddDormant j k q)
  then show ?thesis using assms genOf_addDormant [of j k q s] by (auto simp: adds_def split: if_splits)
next
  case (OpAddRunning j k q)
  then show ?thesis using assms genOf_addRunning [of j k q s] by (auto simp: adds_def split: if_splits)
next
  case (OpDelete h)
  then show ?thesis using assms genOf_delete [of h s] by (auto split: if_splits)
qed (use assms in \<open>simp_all add: gens genOf_start genOf_yield genOf_block genOf_sleep genOf_wakeOne
    genOf_wake genOf_suspend genOf_terminate genOf_priority genOf_rotate genOf_reschedule genOf_rest\<close>)

lemma genOf_run:
  "\<forall>p\<in>set ops. \<not> adds i g p \<Longrightarrow> genOf s i \<noteq> Some g \<Longrightarrow> genOf (fold ts_step ops s) i \<noteq> Some g"
  by (induction ops arbitrary: s) (auto simp: genOf_step)

section \<open>Stale handles\<close>

text \<open>
  A handle outlives its thread harmlessly: once the thread is deleted, the handle
  resolves to nothing for as long as no thread is added with the same id and generation,
  and every operation given it reports failure and leaves the scheduler as it was - also
  when the id has been taken by a newer thread.
\<close>

theorem stale_handle_inert:
  assumes f: "findThread h s = Some r" and st: "tr_state r = Dormant"
    and ops: "\<forall>p\<in>set ops. \<not> adds (h_id h) (h_generation h) p"
    and t: "t = fold ts_step ops (fst (deleteThread h s))"
  shows "snd (deleteThread h s) \<and> findThread h t = None
     \<and> startThreadHandle h t = (t, False) \<and> wakeThread h t = (t, WrInvalidHandle)
     \<and> cancelWakeups h t = (t, None) \<and> releaseWaitThread h c b t = (t, False)
     \<and> consumeWaitCompletion h t = (t, None) \<and> suspendThread h t = (t, False)
     \<and> resumeThread h t = (t, False) \<and> terminateThread h t = (t, False)
     \<and> deleteThread h t = (t, False) \<and> changeThreadPriority h q t = (t, None)"
proof -
  have "genOf (fst (deleteThread h s)) (h_id h) \<noteq> Some (h_generation h)"
    using f st by (auto simp: deleteThread_def Let_def genOf_def lookup_delete')
  then have "genOf t (h_id h) \<noteq> Some (h_generation h)" unfolding t by (rule genOf_run [OF ops])
  then have none: "findThread h t = None"
    by (auto simp: findThread_def findIn_def genOf_def split: option.split)
  have "snd (deleteThread h s)" using f st by (simp add: deleteThread_def Let_def)
  with none show ?thesis
    by (simp add: startThreadHandle_def wakeThread_def cancelWakeups_def releaseWaitThread_def
        consumeWaitCompletion_def suspendThread_def resumeThread_def terminateThread_def
        deleteThread_def changeThreadPriority_def)
qed

theorem stale_handle_inert_witness:
  "let s = fst (deleteThread (Handle 1 7) (fold ts_step [OpAddDormant 1 7 10] ts_init));
       t = fold ts_step [OpAddDormant 1 8 20, OpStart 1] s
   in threadHandle 1 t = Some (Handle 1 8) \<and> suspendThread (Handle 1 7) t = (t, False)"
proof -
  let ?s = "fold ts_step [OpAddDormant 1 7 10] ts_init"
  let ?o = "[OpAddDormant 1 8 20, OpStart 1]"
  have "findThread (Handle 1 7) ?s \<noteq> None" by code_simp
  then obtain r where r: "findThread (Handle 1 7) ?s = Some r" by blast
  have "map_option tr_state (findThread (Handle 1 7) ?s) = Some Dormant" by code_simp
  then have d: "tr_state r = Dormant" using r by simp
  have "\<forall>p\<in>set ?o. \<not> adds (h_id (Handle 1 7)) (h_generation (Handle 1 7)) p" by (simp add: adds_def)
  note inert = stale_handle_inert [OF r d this refl]
  have "threadHandle 1 (fold ts_step ?o (fst (deleteThread (Handle 1 7) ?s))) = Some (Handle 1 8)" by code_simp
  with inert show ?thesis unfolding Let_def by blast
qed

section \<open>Dispatch\<close>



end
