(* ===== verification/EeCounterBank.thy ===== *)
theory EeCounterBank
  imports Prelude
begin

unbundle bit_operations_syntax

text \<open>
  \<open>ps2xRuntime/include/runtime/ee_counters.h\<close> and \<open>ps2xRuntime/src/lib/ee_counters.cpp\<close>: the
  four EE timers with their clock dividers, horizontal and vertical blank gates, target and
  overflow interrupts, and the video signal that drives them.

  The \<open>std::array\<close> of counters is a list of length four. A member function that works on one
  counter takes that counter (with its index, for the interrupt cause) and the advance
  result it accumulates into. Only the edge loop of \<open>advanceTo\<close> is not total by its own
  arithmetic: it answers an option, \<open>None\<close> for a call that never returns.
\<close>

section \<open>State\<close>

definition kEeCounterBaseAddress :: u32 where "kEeCounterBaseAddress = 0x10000000"
definition kEeCounterStride :: u32 where "kEeCounterStride = 0x800"
definition kEeCounterCount :: nat where "kEeCounterCount = 4"

datatype counter_register = RegCount | RegMode | RegTarget | RegHold

record video_timing =
  vt_renderCycles :: u64
  vt_blankCycles :: u64
  vt_hRenderCycles :: u32
  vt_hBlankCycles :: u32
  vt_hSyncErrorCycles :: u32

definition defaultVideoTiming :: video_timing where
  "defaultVideoTiming = \<lparr>vt_renderCycles = 4493898, vt_blankCycles = 421302,
     vt_hRenderCycles = 15669, vt_hBlankCycles = 3055, vt_hSyncErrorCycles = 149\<rparr>"

datatype signal_phase = PhRender | PhBlank

record counter =
  ct_count :: u32
  ct_mode :: u16
  ct_target :: u16
  ct_hold :: u16
  ct_rate :: u32
  ct_startCycle :: u64
  ct_targetAfterOverflow :: bool

record signal =
  sg_phase :: signal_phase
  sg_startCycle :: u64
  sg_deltaCycles :: u64

record counter_bank =
  cb_counters :: "counter list"
  cb_videoTiming :: video_timing
  cb_hSync :: signal
  cb_vSync :: signal
  cb_currentCycle :: u64

record counter_bank_snapshot =
  bs_counters :: "counter list"
  bs_videoTiming :: video_timing
  bs_currentCycle :: u64
  bs_hSyncStartCycle :: u64
  bs_vSyncStartCycle :: u64
  bs_hSyncDeltaCycles :: u32
  bs_vSyncDeltaCycles :: u64
  bs_hSyncPhase :: signal_phase
  bs_vSyncPhase :: signal_phase

record counter_advance =
  ca_newlyRaisedInterruptMask :: u32
  ca_hBlankStarts :: u64
  ca_vBlankStarts :: u64

definition noCounterAdvance :: counter_advance where
  "noCounterAdvance = \<lparr>ca_newlyRaisedInterruptMask = 0, ca_hBlankStarts = 0, ca_vBlankStarts = 0\<rparr>"

section \<open>Mode bits\<close>

definition kModeClockSourceMask :: u16 where "kModeClockSourceMask = 0x0003"
definition kModeGateEnable :: u16 where "kModeGateEnable = 0x0004"
definition kModeGateSource :: u16 where "kModeGateSource = 0x0008"
definition kModeGateModeMask :: u16 where "kModeGateModeMask = 0x0030"
definition kModeZeroReturn :: u16 where "kModeZeroReturn = 0x0040"
definition kModeCountEnable :: u16 where "kModeCountEnable = 0x0080"
definition kModeTargetInterrupt :: u16 where "kModeTargetInterrupt = 0x0100"
definition kModeOverflowInterrupt :: u16 where "kModeOverflowInterrupt = 0x0200"
definition kModeTargetReached :: u16 where "kModeTargetReached = 0x0400"
definition kModeOverflowReached :: u16 where "kModeOverflowReached = 0x0800"
definition kModeWritableControlMask :: u16 where "kModeWritableControlMask = 0x03ff"
definition kModeStatusMask :: u16 where
  "kModeStatusMask = kModeTargetReached OR kModeOverflowReached"
definition kFirstTimerIntcCause :: nat where "kFirstTimerIntcCause = 9"

definition clockSource :: "counter \<Rightarrow> u32" where
  "clockSource c = ucast (ct_mode c AND kModeClockSourceMask)"

definition gateEnabled :: "counter \<Rightarrow> bool" where
  "gateEnabled c = (ct_mode c AND kModeGateEnable \<noteq> 0)"

definition gateUsesVBlank :: "counter \<Rightarrow> bool" where
  "gateUsesVBlank c = (ct_mode c AND kModeGateSource \<noteq> 0)"

definition gateMode :: "counter \<Rightarrow> u32" where
  "gateMode c = drop_bit 4 (ucast (ct_mode c AND kModeGateModeMask))"

definition zeroReturn :: "counter \<Rightarrow> bool" where
  "zeroReturn c = (ct_mode c AND kModeZeroReturn \<noteq> 0)"

definition countEnabled :: "counter \<Rightarrow> bool" where
  "countEnabled c = (ct_mode c AND kModeCountEnable \<noteq> 0)"

definition targetInterruptEnabled :: "counter \<Rightarrow> bool" where
  "targetInterruptEnabled c = (ct_mode c AND kModeTargetInterrupt \<noteq> 0)"

definition overflowInterruptEnabled :: "counter \<Rightarrow> bool" where
  "overflowInterruptEnabled c = (ct_mode c AND kModeOverflowInterrupt \<noteq> 0)"

text \<open>A \<open>uint16_t\<close> compared or combined with a \<open>uint32_t\<close> is widened first.\<close>

abbreviation target32 :: "counter \<Rightarrow> u32" where "target32 c \<equiv> ucast (ct_target c)"

definition canCount :: "counter_bank \<Rightarrow> counter \<Rightarrow> bool" where
  "canCount b c =
     (if \<not> countEnabled c then False
      else if \<not> gateEnabled c then True
      else if \<not> gateUsesVBlank c
      then (if clockSource c = 3 then False
            else gateMode c \<noteq> 0 \<or> sg_phase (cb_hSync b) = PhRender)
      else gateMode c \<noteq> 0 \<or> sg_phase (cb_vSync b) = PhRender)"

section \<open>Reset and the video signal\<close>

definition preserveEndpointStart :: "u64 \<Rightarrow> u64 \<Rightarrow> u64 \<Rightarrow> u64" where
  "preserveEndpointStart start oldDelta newDelta =
     (let endpoint = sat_add64 start oldDelta
      in if endpoint \<ge> newDelta then endpoint - newDelta else 0)"

definition cb_reset :: "u64 \<Rightarrow> counter_bank \<Rightarrow> counter_bank" where
  "cb_reset currentCycle b =
     \<lparr>cb_counters = replicate kEeCounterCount
        \<lparr>ct_count = 0, ct_mode = 0, ct_target = 0xffff, ct_hold = 0, ct_rate = 2,
         ct_startCycle = currentCycle, ct_targetAfterOverflow = False\<rparr>,
      cb_videoTiming = cb_videoTiming b,
      cb_hSync = \<lparr>sg_phase = PhRender, sg_startCycle = currentCycle,
        sg_deltaCycles = ucast (vt_hRenderCycles (cb_videoTiming b))\<rparr>,
      cb_vSync = \<lparr>sg_phase = PhRender, sg_startCycle = currentCycle,
        sg_deltaCycles = vt_renderCycles (cb_videoTiming b)\<rparr>,
      cb_currentCycle = currentCycle\<rparr>"

text \<open>The constructor: members at their declared initial values, then \<open>reset()\<close>.\<close>

definition cb_init :: counter_bank where
  "cb_init = cb_reset 0
     \<lparr>cb_counters = [], cb_videoTiming = defaultVideoTiming,
      cb_hSync = \<lparr>sg_phase = PhRender, sg_startCycle = 0, sg_deltaCycles = 0\<rparr>,
      cb_vSync = \<lparr>sg_phase = PhRender, sg_startCycle = 0, sg_deltaCycles = 0\<rparr>,
      cb_currentCycle = 0\<rparr>"

definition nextHSyncEdge :: "counter_bank \<Rightarrow> u64" where
  "nextHSyncEdge b = sat_add64 (sg_startCycle (cb_hSync b)) (sg_deltaCycles (cb_hSync b))"

definition nextVSyncEdge :: "counter_bank \<Rightarrow> u64" where
  "nextVSyncEdge b = sat_add64 (sg_startCycle (cb_vSync b)) (sg_deltaCycles (cb_vSync b))"

definition hSyncRequired :: "counter_bank \<Rightarrow> bool" where
  "hSyncRequired b = list_ex (\<lambda>c. gateEnabled c \<and> \<not> gateUsesVBlank c
     \<or> clockSource c = 3 \<and> countEnabled c
       \<and> (targetInterruptEnabled c \<or> overflowInterruptEnabled c \<or> zeroReturn c)) (cb_counters b)"

definition vSyncRequired :: "counter_bank \<Rightarrow> bool" where
  "vSyncRequired b = list_ex (\<lambda>c. gateEnabled c \<and> gateUsesVBlank c) (cb_counters b)"

definition nextScanEventCycle :: "counter_bank \<Rightarrow> u64 option" where
  "nextScanEventCycle b =
     (if hSyncRequired b \<and> vSyncRequired b then Some (min (nextHSyncEdge b) (nextVSyncEdge b))
      else if hSyncRequired b then Some (nextHSyncEdge b)
      else if vSyncRequired b then Some (nextVSyncEdge b)
      else None)"

section \<open>Counting\<close>

definition causeBit :: "nat \<Rightarrow> u32" where
  "causeBit index = push_bit (kFirstTimerIntcCause + index) 1"

definition raiseTargetInterrupt ::
  "nat \<Rightarrow> counter \<times> counter_advance \<Rightarrow> counter \<times> counter_advance"
where
  "raiseTargetInterrupt index cr =
     (case cr of (c, r) \<Rightarrow>
        if \<not> targetInterruptEnabled c \<or> ct_mode c AND kModeTargetReached \<noteq> 0 then (c, r)
        else (c\<lparr>ct_mode := ct_mode c OR kModeTargetReached\<rparr>,
              r\<lparr>ca_newlyRaisedInterruptMask := ca_newlyRaisedInterruptMask r OR causeBit index\<rparr>))"

definition raiseOverflowInterrupt ::
  "nat \<Rightarrow> counter \<times> counter_advance \<Rightarrow> counter \<times> counter_advance"
where
  "raiseOverflowInterrupt index cr =
     (case cr of (c, r) \<Rightarrow>
        if \<not> overflowInterruptEnabled c \<or> ct_mode c AND kModeOverflowReached \<noteq> 0 then (c, r)
        else (c\<lparr>ct_mode := ct_mode c OR kModeOverflowReached\<rparr>,
              r\<lparr>ca_newlyRaisedInterruptMask := ca_newlyRaisedInterruptMask r OR causeBit index\<rparr>))"

definition processCounterConditions ::
  "nat \<Rightarrow> counter \<times> counter_advance \<Rightarrow> counter \<times> counter_advance"
where
  "processCounterConditions index cr =
     (let (c, r) = (case cr of (c, r) \<Rightarrow>
            if ct_count c > 0xffff
            then raiseOverflowInterrupt index
                   (c\<lparr>ct_count := ct_count c - 0x10000, ct_targetAfterOverflow := False\<rparr>, r)
            else (c, r))
      in if ct_targetAfterOverflow c \<or> ct_count c < target32 c then (c, r)
         else case raiseTargetInterrupt index (c, r) of (c', r') \<Rightarrow>
           if zeroReturn c' \<and> ct_target c' \<noteq> 0
           then (c'\<lparr>ct_count := ct_count c' - target32 c'\<rparr>, r')
           else (c'\<lparr>ct_targetAfterOverflow := True\<rparr>, r'))"

text \<open>
  The body of the loop of \<open>addCounterTicks\<close>: the distance to the next compare or overflow (in
  32-bit arithmetic, widened), and the collapse of complete zero-return periods afterwards.
\<close>

definition untilCondition :: "counter \<Rightarrow> u64" where
  "untilCondition c =
     (let untilOverflow = ucast (0x10000 - ct_count c);
          untilTarget = (if target32 c > ct_count c then ucast (target32 c - ct_count c) else 0 :: u64);
          until = (if \<not> ct_targetAfterOverflow c \<and> untilTarget \<noteq> 0
                   then min untilOverflow untilTarget else untilOverflow)
      in max until 1)"

definition collapsePeriods :: "counter \<Rightarrow> u64 \<Rightarrow> u64" where
  "collapsePeriods c ticks =
     (if ticks \<noteq> 0 \<and> zeroReturn c \<and> ct_target c \<noteq> 0 \<and> \<not> ct_targetAfterOverflow c
         \<and> ct_count c < target32 c
      then let periods = ticks div ucast (ct_target c)
           in if periods \<noteq> 0 then ticks - periods * ucast (ct_target c) else ticks
      else ticks)"

lemma untilCondition_pos: "0 < untilCondition c"
  by (simp add: untilCondition_def Let_def less_max_iff_disj)

lemma collapsePeriods_le: "collapsePeriods c ticks \<le> ticks"
proof -
  let ?t = "ucast (ct_target c) :: u64"
  have "ticks - ticks div ?t * ?t = ticks mod ?t" by (simp add: minus_div_mult_eq_mod)
  moreover have "ticks mod ?t \<le> ticks"
    by (simp add: word_le_nat_alt unat_mod_distrib)
  ultimately show ?thesis by (simp add: collapsePeriods_def Let_def)
qed

lemma tick_step_less:
  assumes "ticks \<noteq> (0 :: u64)"
  shows "collapsePeriods c (ticks - min ticks (untilCondition d)) < ticks"
proof -
  let ?s = "min ticks (untilCondition d)"
  have "0 < ticks" using assms by (simp add: word_gt_0)
  then have "0 < ?s" "?s \<le> ticks" using untilCondition_pos [of d] by (simp_all add: min_less_iff_conj)
  then have "ticks - ?s < ticks"
    by (simp add: word_less_nat_alt unat_sub_le word_le_nat_alt) 
  then show ?thesis using collapsePeriods_le [of c "ticks - ?s"] by (rule order_le_less_trans [rotated])
qed

function addCounterTicks ::
  "nat \<Rightarrow> u64 \<Rightarrow> counter \<times> counter_advance \<Rightarrow> counter \<times> counter_advance"
where
  "addCounterTicks index ticks cr =
     (if ticks = 0 then cr
      else let step = min ticks (untilCondition (fst cr));
               cr1 = processCounterConditions index
                       ((fst cr)\<lparr>ct_count := ct_count (fst cr) + ucast step\<rparr>, snd cr)
           in addCounterTicks index (collapsePeriods (fst cr1) (ticks - step)) cr1)"
  by pat_completeness auto
termination
  by (relation "measure (\<lambda>(index, ticks, cr). unat ticks)")
    (simp_all add: tick_step_less flip: word_less_nat_alt)

declare addCounterTicks.simps [simp del]

section \<open>Synchronisation, gates and edges\<close>

definition synchronizeInternalCounter ::
  "counter_bank \<Rightarrow> nat \<Rightarrow> u64 \<Rightarrow> counter \<times> counter_advance \<Rightarrow> counter \<times> counter_advance"
where
  "synchronizeInternalCounter b index cycle cr =
     (case cr of (c, r) \<Rightarrow>
        if clockSource c = 3 then (c\<lparr>ct_startCycle := cycle\<rparr>, r)
        else if cycle < ct_startCycle c then (c\<lparr>ct_startCycle := cycle\<rparr>, r)
        else
          let ticks = (cycle - ct_startCycle c) div ucast (ct_rate c);
              c1 = c\<lparr>ct_startCycle := sat_add64 (ct_startCycle c) (sat_mul64 ticks (ucast (ct_rate c)))\<rparr>
          in if ticks \<noteq> 0 \<and> canCount b c1 then addCounterTicks index ticks (c1, r) else (c1, r))"

text \<open>A loop over \<open>m_counters\<close> whose body changes counter \<open>index\<close> and the advance result.\<close>

definition onCounter ::
  "(counter_bank \<Rightarrow> nat \<Rightarrow> counter \<times> counter_advance \<Rightarrow> counter \<times> counter_advance)
    \<Rightarrow> nat \<Rightarrow> counter_bank \<times> counter_advance \<Rightarrow> counter_bank \<times> counter_advance"
where
  "onCounter f index br =
     (case br of (b, r) \<Rightarrow>
        (case f b index (cb_counters b ! index, r) of
           (c, r') \<Rightarrow> (b\<lparr>cb_counters := (cb_counters b)[index := c]\<rparr>, r')))"

definition forCounters ::
  "(counter_bank \<Rightarrow> nat \<Rightarrow> counter \<times> counter_advance \<Rightarrow> counter \<times> counter_advance)
    \<Rightarrow> counter_bank \<times> counter_advance \<Rightarrow> counter_bank \<times> counter_advance"
where
  "forCounters f br = fold (onCounter f) [0..<length (cb_counters (fst br))] br"

definition synchronizeInternalCounters ::
  "u64 \<Rightarrow> counter_bank \<times> counter_advance \<Rightarrow> counter_bank \<times> counter_advance"
where
  "synchronizeInternalCounters cycle = forCounters (\<lambda>b index. synchronizeInternalCounter b index cycle)"

definition alignedCycle :: "u64 \<Rightarrow> u32 \<Rightarrow> u64" where
  "alignedCycle cycle rate = cycle AND NOT (ucast rate - 1)"

definition resetCounterAtGate :: "u64 \<Rightarrow> counter \<Rightarrow> counter" where
  "resetCounterAtGate cycle c =
     (let c1 = c\<lparr>ct_count := 0, ct_targetAfterOverflow := False\<rparr>
      in if ct_rate c1 \<noteq> 0 then c1\<lparr>ct_startCycle := alignedCycle cycle (ct_rate c1)\<rparr>
         else c1\<lparr>ct_startCycle := cycle\<rparr>)"

definition gateEdge :: "bool \<Rightarrow> bool \<Rightarrow> u64 \<Rightarrow> counter \<Rightarrow> counter" where
  "gateEdge vblank rising cycle c =
     (if \<not> gateEnabled c \<or> gateUsesVBlank c \<noteq> vblank then c
      else if gateMode c = 0 then c\<lparr>ct_startCycle := alignedCycle cycle (ct_rate c)\<rparr>
      else if gateMode c = 1 then (if rising then resetCounterAtGate cycle c else c)
      else if gateMode c = 2 then (if \<not> rising then resetCounterAtGate cycle c else c)
      else if gateMode c = 3 then resetCounterAtGate cycle c
      else c)"

definition processGateEdge :: "bool \<Rightarrow> bool \<Rightarrow> u64 \<Rightarrow> counter_bank \<Rightarrow> counter_bank" where
  "processGateEdge vblank rising cycle b =
     b\<lparr>cb_counters := map (gateEdge vblank rising cycle) (cb_counters b)\<rparr>"

text \<open>A counter clocked by the horizontal blank counts one at each rising edge.\<close>

definition hBlankTick ::
  "counter_bank \<Rightarrow> nat \<Rightarrow> counter \<times> counter_advance \<Rightarrow> counter \<times> counter_advance"
where
  "hBlankTick b index cr =
     (if clockSource (fst cr) = 3 \<and> canCount b (fst cr) then addCounterTicks index 1 cr else cr)"

definition processHSyncEdge ::
  "u64 \<Rightarrow> counter_bank \<times> counter_advance \<Rightarrow> counter_bank \<times> counter_advance"
where
  "processHSyncEdge cycle br =
     (if sg_phase (cb_hSync (fst br)) = PhRender
      then (case forCounters hBlankTick br of (b, r) \<Rightarrow>
              ((processGateEdge False True cycle b)
                 \<lparr>cb_hSync := \<lparr>sg_phase = PhBlank, sg_startCycle = cycle,
                    sg_deltaCycles = ucast (vt_hBlankCycles (cb_videoTiming b))\<rparr>\<rparr>,
               r\<lparr>ca_hBlankStarts := ca_hBlankStarts r + 1\<rparr>))
      else (case br of (b, r) \<Rightarrow>
              ((processGateEdge False False cycle b)
                 \<lparr>cb_hSync := \<lparr>sg_phase = PhRender, sg_startCycle = cycle,
                    sg_deltaCycles = ucast (vt_hRenderCycles (cb_videoTiming b))\<rparr>\<rparr>, r)))"

definition processVSyncEdge ::
  "u64 \<Rightarrow> counter_bank \<times> counter_advance \<Rightarrow> counter_bank \<times> counter_advance"
where
  "processVSyncEdge cycle br =
     (case br of (b, r) \<Rightarrow>
        if sg_phase (cb_vSync b) = PhRender
        then ((processGateEdge True True cycle b)
                \<lparr>cb_vSync := \<lparr>sg_phase = PhBlank, sg_startCycle = cycle,
                    sg_deltaCycles = vt_blankCycles (cb_videoTiming b)\<rparr>,
                 cb_hSync := (cb_hSync b)\<lparr>sg_deltaCycles := sat_add64 (sg_deltaCycles (cb_hSync b))
                    (ucast (vt_hSyncErrorCycles (cb_videoTiming b)))\<rparr>\<rparr>,
              r\<lparr>ca_vBlankStarts := ca_vBlankStarts r + 1\<rparr>)
        else ((processGateEdge True False cycle b)
                \<lparr>cb_vSync := \<lparr>sg_phase = PhRender, sg_startCycle = cycle,
                    sg_deltaCycles = vt_renderCycles (cb_videoTiming b)\<rparr>\<rparr>, r))"

section \<open>Advancing\<close>

definition nextEdge :: "counter_bank \<Rightarrow> u64" where
  "nextEdge b = min (nextVSyncEdge b) (nextHSyncEdge b)"

definition processEdge :: "counter_bank \<times> counter_advance \<Rightarrow> counter_bank \<times> counter_advance" where
  "processEdge br =
     (let vEdge = nextVSyncEdge (fst br); hEdge = nextHSyncEdge (fst br); edge = min vEdge hEdge;
          br1 = synchronizeInternalCounters edge br
      in if vEdge \<le> hEdge then processVSyncEdge edge br1 else processHSyncEdge edge br1)"

partial_function (option) advanceLoop ::
  "u64 \<Rightarrow> counter_bank \<times> counter_advance \<Rightarrow> (counter_bank \<times> counter_advance) option"
where
  "advanceLoop currentCycle br =
     (if nextEdge (fst br) > currentCycle \<or> nextEdge (fst br) = u64_max then Some br
      else advanceLoop currentCycle (processEdge br))"

declare advanceLoop.simps [code]

definition advanceTo :: "u64 \<Rightarrow> counter_bank \<Rightarrow> (counter_bank \<times> counter_advance) option" where
  "advanceTo currentCycle b =
     (if currentCycle < cb_currentCycle b then Some (b, noCounterAdvance)
      else case advanceLoop currentCycle (b, noCounterAdvance) of
        None \<Rightarrow> None
      | Some br \<Rightarrow>
          (case synchronizeInternalCounters currentCycle br of
             (b', r) \<Rightarrow> Some (b'\<lparr>cb_currentCycle := currentCycle\<rparr>, r)))"

definition clampTiming :: "video_timing \<Rightarrow> video_timing" where
  "clampTiming t = t\<lparr>vt_hRenderCycles := max (vt_hRenderCycles t) 1,
     vt_hBlankCycles := max (vt_hBlankCycles t) 1, vt_renderCycles := max (vt_renderCycles t) 1,
     vt_blankCycles := max (vt_blankCycles t) 1\<rparr>"

definition retimeSignal :: "u64 \<Rightarrow> signal \<Rightarrow> signal" where
  "retimeSignal newDelta s =
     s\<lparr>sg_startCycle := preserveEndpointStart (sg_startCycle s) (sg_deltaCycles s) newDelta,
       sg_deltaCycles := newDelta\<rparr>"

definition configureVideoTiming ::
  "video_timing \<Rightarrow> u64 \<Rightarrow> counter_bank \<Rightarrow> (counter_bank \<times> counter_advance) option"
where
  "configureVideoTiming timing0 currentCycle b =
     (case advanceTo currentCycle b of
        None \<Rightarrow> None
      | Some (b1, r) \<Rightarrow>
          let t = clampTiming timing0;
              newHDelta = (if sg_phase (cb_hSync b1) = PhBlank then ucast (vt_hBlankCycles t)
                           else ucast (vt_hRenderCycles t));
              newVDelta = (if sg_phase (cb_vSync b1) = PhBlank then vt_blankCycles t
                           else vt_renderCycles t)
          in Some (b1\<lparr>cb_videoTiming := t, cb_hSync := retimeSignal newHDelta (cb_hSync b1),
                      cb_vSync := retimeSignal newVDelta (cb_vSync b1)\<rparr>, r))"

text \<open>The cycle of the counter's next compare or overflow that matters, if any.\<close>

definition ticksToEvent :: "counter \<Rightarrow> u64" where
  "ticksToEvent c =
     (let targetWork = (targetInterruptEnabled c \<or> zeroReturn c);
          ticks0 = (if overflowInterruptEnabled c \<or> ct_targetAfterOverflow c \<and> targetWork
                    then ucast (0x10000 - ct_count c) else u64_max)
      in if \<not> ct_targetAfterOverflow c \<and> targetWork
         then min ticks0 (if target32 c > ct_count c then ucast (target32 c - ct_count c) else 1)
         else ticks0)"

definition nextInternalCounterEvent :: "counter_bank \<Rightarrow> counter \<Rightarrow> u64 option" where
  "nextInternalCounterEvent b c =
     (if clockSource c = 3 \<or> \<not> canCount b c then None
      else if \<not> (targetInterruptEnabled c \<or> zeroReturn c) \<and> \<not> overflowInterruptEnabled c then None
      else if ticksToEvent c = u64_max then None
      else
        let deadline = sat_add64 (ct_startCycle c) (sat_mul64 (ticksToEvent c) (ucast (ct_rate c)))
        in if deadline > cb_currentCycle b then Some deadline
           else Some (sat_add64 (cb_currentCycle b) 1))"

definition earlierEvent :: "u64 option \<Rightarrow> u64 option \<Rightarrow> u64 option" where
  "earlierEvent candidate next =
     (case candidate of
        None \<Rightarrow> next
      | Some x \<Rightarrow> (case next of None \<Rightarrow> Some x | Some y \<Rightarrow> if x < y then Some x else Some y))"

definition nextEventCycle :: "counter_bank \<Rightarrow> u64 option" where
  "nextEventCycle b =
     fold (\<lambda>c. earlierEvent (nextInternalCounterEvent b c)) (cb_counters b) (nextScanEventCycle b)"

section \<open>Registers\<close>

definition decodeRegister :: "u32 \<Rightarrow> (nat \<times> counter_register) option" where
  "decodeRegister address =
     (if address < kEeCounterBaseAddress
         \<or> address \<ge> kEeCounterBaseAddress + kEeCounterStride * of_nat kEeCounterCount
      then None
      else
        let offset = address - kEeCounterBaseAddress;
            counter = unat (offset div kEeCounterStride);
            registerOffset = offset mod kEeCounterStride
        in if registerOffset = 0 then Some (counter, RegCount)
           else if registerOffset = 0x10 then Some (counter, RegMode)
           else if registerOffset = 0x20 then Some (counter, RegTarget)
           else if registerOffset = 0x30 then (if counter \<ge> 2 then None else Some (counter, RegHold))
           else None)"

definition isRegisterAddress :: "u32 \<Rightarrow> bool" where
  "isRegisterAddress address = (decodeRegister address \<noteq> None)"

definition counterRegister :: "counter \<Rightarrow> counter_register \<Rightarrow> u32" where
  "counterRegister c reg =
     (case reg of
        RegCount \<Rightarrow> ct_count c AND 0xffff
      | RegMode \<Rightarrow> ucast (ct_mode c)
      | RegTarget \<Rightarrow> ucast (ct_target c)
      | RegHold \<Rightarrow> ucast (ct_hold c))"

text \<open>
  \<open>readRegister\<close> answers the bank after the catch-up and, for a register address, the value and
  the advance result; an address outside the bank changes nothing.
\<close>

definition readRegister ::
  "u32 \<Rightarrow> u64 \<Rightarrow> counter_bank \<Rightarrow> (counter_bank \<times> (u32 \<times> counter_advance) option) option"
where
  "readRegister address currentCycle b =
     (case decodeRegister address of
        None \<Rightarrow> Some (b, None)
      | Some (counter, reg) \<Rightarrow>
          (case advanceTo currentCycle b of
             None \<Rightarrow> None
           | Some (b1, r) \<Rightarrow> Some (b1, Some (counterRegister (cb_counters b1 ! counter) reg, r))))"

definition modeRate :: "video_timing \<Rightarrow> counter \<Rightarrow> u32" where
  "modeRate t c =
     (if clockSource c = 0 then 2 else if clockSource c = 1 then 32
      else if clockSource c = 2 then 512
      else if clockSource c = 3 then vt_hRenderCycles t + vt_hBlankCycles t else ct_rate c)"

definition writtenMode :: "u16 \<Rightarrow> u16 \<Rightarrow> u16 \<Rightarrow> u16" where
  "writtenMode mode selectedMask selectedValue =
     (let oldStatus = mode AND kModeStatusMask;
          clearedStatus = oldStatus AND NOT (selectedValue AND kModeStatusMask);
          controlMask = selectedMask AND kModeWritableControlMask;
          mergedControl = (mode AND kModeWritableControlMask AND NOT controlMask)
                          OR (selectedValue AND kModeWritableControlMask)
      in clearedStatus OR mergedControl)"

definition writeCounter ::
  "video_timing \<Rightarrow> counter_register \<Rightarrow> u16 \<Rightarrow> u16 \<Rightarrow> u64 \<Rightarrow> counter \<Rightarrow> counter"
where
  "writeCounter t reg selectedMask selectedValue currentCycle c =
     (case reg of
        RegCount \<Rightarrow>
          let c1 = c\<lparr>ct_count := (ct_count c AND NOT (ucast selectedMask)) OR ucast selectedValue\<rparr>
          in c1\<lparr>ct_targetAfterOverflow := (ct_count c1 \<ge> target32 c1)\<rparr>
      | RegMode \<Rightarrow>
          let c1 = c\<lparr>ct_mode := writtenMode (ct_mode c) selectedMask selectedValue\<rparr>;
              c2 = c1\<lparr>ct_rate := modeRate t c1\<rparr>
          in c2\<lparr>ct_startCycle := alignedCycle currentCycle (ct_rate c2)\<rparr>
      | RegTarget \<Rightarrow>
          let c1 = c\<lparr>ct_target := (ct_target c AND NOT selectedMask) OR selectedValue\<rparr>
          in c1\<lparr>ct_targetAfterOverflow := (target32 c1 \<le> ct_count c1)\<rparr>
      | RegHold \<Rightarrow> c\<lparr>ct_hold := (ct_hold c AND NOT selectedMask) OR selectedValue\<rparr>)"

definition writeRegister ::
  "u32 \<Rightarrow> u32 \<Rightarrow> u64 \<Rightarrow> u32 \<Rightarrow> counter_bank
    \<Rightarrow> (counter_bank \<times> counter_advance option) option"
where
  "writeRegister address value currentCycle writeMask b =
     (case decodeRegister address of
        None \<Rightarrow> Some (b, None)
      | Some (counter, reg) \<Rightarrow>
          (case advanceTo currentCycle b of
             None \<Rightarrow> None
           | Some (b1, r) \<Rightarrow>
               let selectedMask = ucast writeMask; selectedValue = ucast value AND selectedMask
               in if selectedMask = 0 then Some (b1, Some r)
                  else Some (b1\<lparr>cb_counters := (cb_counters b1)[counter :=
                         writeCounter (cb_videoTiming b1) reg selectedMask selectedValue currentCycle
                           (cb_counters b1 ! counter)]\<rparr>, Some r)))"

section \<open>Snapshots\<close>

definition cb_snapshot :: "counter_bank \<Rightarrow> counter_bank_snapshot" where
  "cb_snapshot b =
     \<lparr>bs_counters = cb_counters b, bs_videoTiming = cb_videoTiming b,
      bs_currentCycle = cb_currentCycle b,
      bs_hSyncStartCycle = sg_startCycle (cb_hSync b),
      bs_vSyncStartCycle = sg_startCycle (cb_vSync b),
      bs_hSyncDeltaCycles = ucast (min (sg_deltaCycles (cb_hSync b)) (ucast u32_max)),
      bs_vSyncDeltaCycles = sg_deltaCycles (cb_vSync b),
      bs_hSyncPhase = sg_phase (cb_hSync b), bs_vSyncPhase = sg_phase (cb_vSync b)\<rparr>"

text \<open>
  The first two guards of \<open>restore\<close> reject phases outside the enumeration; the datatype has
  no such values. Writing the counters one by one is replacing the array.
\<close>

definition cb_restore :: "counter_bank_snapshot \<Rightarrow> counter_bank \<Rightarrow> bool \<times> counter_bank" where
  "cb_restore d b =
     (if vt_renderCycles (bs_videoTiming d) = 0 \<or> vt_blankCycles (bs_videoTiming d) = 0
         \<or> vt_hRenderCycles (bs_videoTiming d) = 0 \<or> vt_hBlankCycles (bs_videoTiming d) = 0
      then (False, b)
      else if list_ex (\<lambda>c. ct_rate c = 0) (bs_counters d) then (False, b)
      else (True,
        \<lparr>cb_counters = bs_counters d, cb_videoTiming = bs_videoTiming d,
         cb_hSync = \<lparr>sg_phase = bs_hSyncPhase d, sg_startCycle = bs_hSyncStartCycle d,
           sg_deltaCycles = ucast (bs_hSyncDeltaCycles d)\<rparr>,
         cb_vSync = \<lparr>sg_phase = bs_vSyncPhase d, sg_startCycle = bs_vSyncStartCycle d,
           sg_deltaCycles = bs_vSyncDeltaCycles d\<rparr>,
         cb_currentCycle = bs_currentCycle d\<rparr>))"

end
