(* ===== verification/EeCounterTicks.thy ===== *)
theory EeCounterTicks
  imports EeCounterBank
begin

text \<open>
  Counting many ticks at once: \<open>addCounterTicks\<close> jumps from compare to compare and collapses
  whole zero-return periods. Here it is compared with counting one tick at a time, in
  general and at the one point where the two differ.
\<close>

section \<open>Mode bits\<close>

named_theorems mode_bits

lemmas mode_consts = kModeClockSourceMask_def kModeGateEnable_def kModeGateSource_def
  kModeGateModeMask_def kModeZeroReturn_def kModeCountEnable_def kModeTargetInterrupt_def
  kModeOverflowInterrupt_def kModeTargetReached_def kModeOverflowReached_def
  kModeWritableControlMask_def kModeStatusMask_def

lemma raised_bits [mode_bits]:
  "(m OR kModeTargetReached) AND kModeClockSourceMask = m AND kModeClockSourceMask"
  "(m OR kModeTargetReached) AND kModeGateEnable = m AND kModeGateEnable"
  "(m OR kModeTargetReached) AND kModeGateSource = m AND kModeGateSource"
  "(m OR kModeTargetReached) AND kModeGateModeMask = m AND kModeGateModeMask"
  "(m OR kModeTargetReached) AND kModeZeroReturn = m AND kModeZeroReturn"
  "(m OR kModeTargetReached) AND kModeCountEnable = m AND kModeCountEnable"
  "(m OR kModeTargetReached) AND kModeTargetInterrupt = m AND kModeTargetInterrupt"
  "(m OR kModeTargetReached) AND kModeOverflowInterrupt = m AND kModeOverflowInterrupt"
  "(m OR kModeTargetReached) AND kModeOverflowReached = m AND kModeOverflowReached"
  "(m OR kModeOverflowReached) AND kModeClockSourceMask = m AND kModeClockSourceMask"
  "(m OR kModeOverflowReached) AND kModeGateEnable = m AND kModeGateEnable"
  "(m OR kModeOverflowReached) AND kModeGateSource = m AND kModeGateSource"
  "(m OR kModeOverflowReached) AND kModeGateModeMask = m AND kModeGateModeMask"
  "(m OR kModeOverflowReached) AND kModeZeroReturn = m AND kModeZeroReturn"
  "(m OR kModeOverflowReached) AND kModeCountEnable = m AND kModeCountEnable"
  "(m OR kModeOverflowReached) AND kModeTargetInterrupt = m AND kModeTargetInterrupt"
  "(m OR kModeOverflowReached) AND kModeOverflowInterrupt = m AND kModeOverflowInterrupt"
  "(m OR kModeOverflowReached) AND kModeTargetReached = m AND kModeTargetReached"
  by (simp_all add: mode_consts bit.conj_disj_distrib2)

lemma raised_sets [mode_bits]:
  "(m OR kModeTargetReached) AND kModeTargetReached \<noteq> 0"
  "(m OR kModeOverflowReached) AND kModeOverflowReached \<noteq> 0"
  by (simp_all add: mode_consts bit.conj_disj_distrib2)

lemma reached_nonzero [simp]: "kModeTargetReached \<noteq> 0" "kModeOverflowReached \<noteq> 0"
  by (simp_all add: mode_consts)

lemmas mode_queries = clockSource_def gateEnabled_def gateUsesVBlank_def gateMode_def
  zeroReturn_def countEnabled_def targetInterruptEnabled_def overflowInterruptEnabled_def

definition targetReached :: "counter \<Rightarrow> bool" where
  "targetReached c = (ct_mode c AND kModeTargetReached \<noteq> 0)"

definition overflowReached :: "counter \<Rightarrow> bool" where
  "overflowReached c = (ct_mode c AND kModeOverflowReached \<noteq> 0)"

lemma query_upd [simp]:
  "zeroReturn (c\<lparr>ct_count := n\<rparr>) = zeroReturn c"
  "zeroReturn (c\<lparr>ct_targetAfterOverflow := t\<rparr>) = zeroReturn c"
  "targetInterruptEnabled (c\<lparr>ct_count := n\<rparr>) = targetInterruptEnabled c"
  "targetInterruptEnabled (c\<lparr>ct_targetAfterOverflow := t\<rparr>) = targetInterruptEnabled c"
  "overflowInterruptEnabled (c\<lparr>ct_count := n\<rparr>) = overflowInterruptEnabled c"
  "overflowInterruptEnabled (c\<lparr>ct_targetAfterOverflow := t\<rparr>) = overflowInterruptEnabled c"
  by (simp_all add: mode_queries)

text \<open>Two counters configured alike: everything but count, latches, compare state and start.\<close>

definition sameSetup :: "counter \<Rightarrow> counter \<Rightarrow> bool" where
  "sameSetup c d = (clockSource c = clockSource d \<and> gateEnabled c = gateEnabled d
     \<and> gateUsesVBlank c = gateUsesVBlank d \<and> gateMode c = gateMode d \<and> zeroReturn c = zeroReturn d
     \<and> countEnabled c = countEnabled d \<and> targetInterruptEnabled c = targetInterruptEnabled d
     \<and> overflowInterruptEnabled c = overflowInterruptEnabled d \<and> ct_target c = ct_target d
     \<and> ct_rate c = ct_rate d)"

lemma sameSetup_refl [simp]: "sameSetup c c"
  by (simp add: sameSetup_def)

lemma sameSetup_sym: "sameSetup c d \<Longrightarrow> sameSetup d c"
  by (simp add: sameSetup_def)

lemma sameSetup_trans: "sameSetup c d \<Longrightarrow> sameSetup d e \<Longrightarrow> sameSetup c e"
  by (simp add: sameSetup_def)

lemma sameSetup_canCount: "sameSetup c d \<Longrightarrow> canCount b c = canCount b d"
  by (simp add: sameSetup_def canCount_def)

lemma setup_upd [simp]:
  "sameSetup (c\<lparr>ct_count := n\<rparr>) d = sameSetup c d"
  "sameSetup (c\<lparr>ct_startCycle := s\<rparr>) d = sameSetup c d"
  "sameSetup (c\<lparr>ct_targetAfterOverflow := t\<rparr>) d = sameSetup c d"
  "sameSetup d (c\<lparr>ct_count := n\<rparr>) = sameSetup d c"
  "sameSetup d (c\<lparr>ct_startCycle := s\<rparr>) = sameSetup d c"
  "sameSetup d (c\<lparr>ct_targetAfterOverflow := t\<rparr>) = sameSetup d c"
  by (simp_all add: sameSetup_def mode_queries)

lemma raise_setup:
  "sameSetup (fst (raiseTargetInterrupt i cr)) (fst cr)"
  "sameSetup (fst (raiseOverflowInterrupt i cr)) (fst cr)"
  by (simp_all add: raiseTargetInterrupt_def raiseOverflowInterrupt_def sameSetup_def
      mode_queries mode_bits split_beta)

lemma raise_fields [simp]:
  "ct_count (fst (raiseTargetInterrupt i cr)) = ct_count (fst cr)"
  "ct_target (fst (raiseTargetInterrupt i cr)) = ct_target (fst cr)"
  "ct_startCycle (fst (raiseTargetInterrupt i cr)) = ct_startCycle (fst cr)"
  "ct_targetAfterOverflow (fst (raiseTargetInterrupt i cr)) = ct_targetAfterOverflow (fst cr)"
  "zeroReturn (fst (raiseTargetInterrupt i cr)) = zeroReturn (fst cr)"
  "ct_count (fst (raiseOverflowInterrupt i cr)) = ct_count (fst cr)"
  "ct_target (fst (raiseOverflowInterrupt i cr)) = ct_target (fst cr)"
  "ct_startCycle (fst (raiseOverflowInterrupt i cr)) = ct_startCycle (fst cr)"
  "ct_targetAfterOverflow (fst (raiseOverflowInterrupt i cr)) = ct_targetAfterOverflow (fst cr)"
  "zeroReturn (fst (raiseOverflowInterrupt i cr)) = zeroReturn (fst cr)"
  by (simp_all add: raiseTargetInterrupt_def raiseOverflowInterrupt_def mode_queries mode_bits split_beta)

text \<open>The two latches are independent, and setting one twice is setting it once.\<close>

lemma raise_idle:
  "\<not> targetInterruptEnabled c \<or> targetReached c \<Longrightarrow> raiseTargetInterrupt i (c, r) = (c, r)"
  "\<not> overflowInterruptEnabled c \<or> overflowReached c \<Longrightarrow> raiseOverflowInterrupt i (c, r) = (c, r)"
  by (auto simp: raiseTargetInterrupt_def raiseOverflowInterrupt_def targetReached_def overflowReached_def)

lemma raise_latches:
  "targetInterruptEnabled (fst cr) \<Longrightarrow> targetReached (fst (raiseTargetInterrupt i cr))"
  "targetReached (fst cr) \<Longrightarrow> targetReached (fst (raiseTargetInterrupt i cr))"
  "targetReached (fst (raiseOverflowInterrupt i cr)) = targetReached (fst cr)"
  by (auto simp: raiseTargetInterrupt_def raiseOverflowInterrupt_def targetReached_def mode_bits split_beta)

lemma raise_twice: "raiseTargetInterrupt i (raiseTargetInterrupt i cr) = raiseTargetInterrupt i cr"
  by (cases cr) (auto simp: raiseTargetInterrupt_def targetInterruptEnabled_def mode_bits)

lemma raise_commute:
  "raiseTargetInterrupt i (raiseOverflowInterrupt i cr) = raiseOverflowInterrupt i (raiseTargetInterrupt i cr)"
  by (cases cr) (auto simp: raiseTargetInterrupt_def raiseOverflowInterrupt_def
      targetInterruptEnabled_def overflowInterruptEnabled_def mode_bits
      or.commute [of kModeTargetReached] or.left_commute or.assoc)

lemma raise_count:
  "raiseTargetInterrupt i (c\<lparr>ct_count := n\<rparr>, r) =
     ((fst (raiseTargetInterrupt i (c, r)))\<lparr>ct_count := n\<rparr>, snd (raiseTargetInterrupt i (c, r)))"
  "raiseOverflowInterrupt i (c\<lparr>ct_count := n\<rparr>, r) =
     ((fst (raiseOverflowInterrupt i (c, r)))\<lparr>ct_count := n\<rparr>, snd (raiseOverflowInterrupt i (c, r)))"
  "raiseTargetInterrupt i (c\<lparr>ct_targetAfterOverflow := t\<rparr>, r) =
     ((fst (raiseTargetInterrupt i (c, r)))\<lparr>ct_targetAfterOverflow := t\<rparr>, snd (raiseTargetInterrupt i (c, r)))"
  "raiseOverflowInterrupt i (c\<lparr>ct_targetAfterOverflow := t\<rparr>, r) =
     ((fst (raiseOverflowInterrupt i (c, r)))\<lparr>ct_targetAfterOverflow := t\<rparr>, snd (raiseOverflowInterrupt i (c, r)))"
  by (simp_all add: raiseTargetInterrupt_def raiseOverflowInterrupt_def mode_queries)

section \<open>One tick at a time\<close>

definition tick :: "nat \<Rightarrow> counter \<times> counter_advance \<Rightarrow> counter \<times> counter_advance" where
  "tick i cr = processCounterConditions i ((fst cr)\<lparr>ct_count := ct_count (fst cr) + 1\<rparr>, snd cr)"

definition bump :: "nat \<Rightarrow> counter \<Rightarrow> counter" where
  "bump k c = c\<lparr>ct_count := ct_count c + of_nat k\<rparr>"

definition counter_ok :: "counter \<Rightarrow> bool" where
  "counter_ok c = (ct_count c \<le> 0xffff
     \<and> (ct_targetAfterOverflow c \<or> ct_count c < target32 c \<or> ct_target c = 0 \<and> ct_count c = 0))"

lemma unat_target [simp]: "unat (target32 c) = unat (ct_target c)"
  by (simp add: unat_widen)

lemma target_zero [simp]: "target32 c = 0 \<longleftrightarrow> ct_target c = 0"
  by (simp add: word_zero_iff_unat)

lemma target_le: "unat (ct_target c) \<le> 65535"
proof -
  have "unat (ct_target c) < 2 ^ LENGTH(16)" by (rule unsigned_less)
  then show ?thesis by simp
qed

lemma count_less: "x < target32 c \<longleftrightarrow> unat x < unat (ct_target c)"
  by (simp add: word_less_nat_alt)

lemma count_le: "ct_count c \<le> 0xffff \<longleftrightarrow> unat (ct_count c) \<le> 65535"
  by (simp add: word_le_nat_alt)

lemma unat_add_of_nat_u32: "unat (x :: u32) + k < 2 ^ 32 \<Longrightarrow> unat (x + of_nat k) = unat x + k"
proof -
  assume a: "unat x + k < 2 ^ 32"
  then have "unat (of_nat k :: u32) = k" by (simp add: unsigned_of_nat take_bit_nat_eq_self)
  then show ?thesis using a by (subst unat_add_no_overflow) simp_all
qed

lemma bump_simps [simp]:
  "ct_target (bump k c) = ct_target c" "ct_targetAfterOverflow (bump k c) = ct_targetAfterOverflow c"
  "zeroReturn (bump k c) = zeroReturn c" "bump 0 c = c" "bump j (bump k c) = bump (k + j) c"
  by (simp_all add: bump_def zeroReturn_def add.assoc)

lemma bump_count: "unat (ct_count c) \<le> 65535 \<Longrightarrow> k \<le> 65536 \<Longrightarrow> unat (ct_count (bump k c)) = unat (ct_count c) + k"
  by (simp add: bump_def unat_add_of_nat_u32)

lemma tick_bump: "tick i (c, r) = processCounterConditions i (bump 1 c, r)"
  by (simp add: tick_def bump_def)

lemma process_idle:
  assumes "ct_count c \<le> 0xffff" "ct_targetAfterOverflow c \<or> ct_count c < target32 c"
  shows "processCounterConditions i (c, r) = (c, r)"
  using assms by (auto simp: processCounterConditions_def Let_def not_less)

lemma idle_ticks:
  assumes "unat (ct_count c) + k \<le> 65535"
    and "ct_targetAfterOverflow c \<or> unat (ct_count c) + k < unat (ct_target c)"
  shows "(tick i ^^ k) (c, r) = (bump k c, r)"
  using assms
proof (induction k)
  case (Suc k)
  then have "(tick i ^^ k) (c, r) = (bump k c, r)" by auto
  moreover have "processCounterConditions i (bump (Suc k) c, r) = (bump (Suc k) c, r)"
    using Suc.prems by (intro process_idle) (auto simp: count_le count_less bump_count)
  ultimately show ?case by (simp add: tick_bump)
qed simp

lemma unat_untilCondition:
  assumes "counter_ok c"
  shows "unat (untilCondition c) =
    (if \<not> ct_targetAfterOverflow c \<and> unat (ct_count c) < unat (ct_target c)
     then unat (ct_target c) - unat (ct_count c) else 65536 - unat (ct_count c))"
proof -
  have n: "unat (ct_count c) \<le> 65535" using assms by (simp add: counter_ok_def count_le)
  have o': "unat (ucast (0x10000 - ct_count c) :: u64) = 65536 - unat (ct_count c)"
    using n by (simp add: unat_widen unat_sub_le word_le_nat_alt)
  have t': "unat (ucast (target32 c - ct_count c) :: u64) = unat (ct_target c) - unat (ct_count c)"
    if "unat (ct_count c) < unat (ct_target c)"
    using that by (simp add: unat_widen unat_sub_le word_le_nat_alt)
  have mx: "unat (max a 1) = max (unat a) 1" and mn: "unat (min a b) = min (unat a) (unat b)" for a b :: u64
    by (auto simp: max_def min_def word_le_nat_alt)
  have nz: "(a :: u64) = 0 \<longleftrightarrow> unat a = 0" for a by (simp add: unat_eq_0)
  show ?thesis
    using n target_le [of c] by (auto simp: untilCondition_def Let_def mx mn nz o' t' count_less)
qed

lemma overflow_at_zero_target:
  assumes "ct_target d = 0"
  shows "processCounterConditions i (d\<lparr>ct_count := 0x10000\<rparr>, r) =
    (let cr = raiseTargetInterrupt i (raiseOverflowInterrupt i
         (d\<lparr>ct_count := 0, ct_targetAfterOverflow := False\<rparr>, r))
     in ((fst cr)\<lparr>ct_targetAfterOverflow := True\<rparr>, snd cr))"
proof -
  obtain c r' where o': "raiseOverflowInterrupt i (d\<lparr>ct_count := 0, ct_targetAfterOverflow := False\<rparr>, r) = (c, r')"
    by (cases "raiseOverflowInterrupt i (d\<lparr>ct_count := 0, ct_targetAfterOverflow := False\<rparr>, r)")
  note f = raise_fields(6-10) [of i "(d\<lparr>ct_count := 0, ct_targetAfterOverflow := False\<rparr>, r)", unfolded o']
  obtain c2 r2 where t': "raiseTargetInterrupt i (c, r') = (c2, r2)" by (cases "raiseTargetInterrupt i (c, r')")
  note g = raise_fields(1-5) [of i "(c, r')", unfolded t']
  show ?thesis using assms o' f t' g by (simp add: processCounterConditions_def Let_def word_less_nat_alt)
qed

text \<open>A jump to the next condition is that many single ticks.\<close>

lemma jump_is_ticks:
  assumes ok: "counter_ok c" and k: "0 < k" "k \<le> unat (untilCondition c)"
  shows "processCounterConditions i (bump k c, r) = (tick i ^^ k) (c, r)"
proof (cases "ct_targetAfterOverflow c \<or> unat (ct_count c) < unat (ct_target c)")
  case True
  have n: "unat (ct_count c) \<le> 65535" using ok by (simp add: counter_ok_def count_le)
  obtain j where j: "k = Suc j" using k(1) by (cases k) auto
  have "(tick i ^^ j) (c, r) = (bump j c, r)"
    using True k(2) n target_le [of c] unfolding unat_untilCondition [OF ok] j
    by (intro idle_ticks) (auto split: if_splits)
  then show ?thesis by (simp add: j tick_bump)
next
  case False
  then have z: "ct_target c = 0" "ct_count c = 0" "\<not> ct_targetAfterOverflow c"
    using ok by (auto simp: counter_ok_def count_less)
  have k': "k \<le> 65536" using k(2) z unfolding unat_untilCondition [OF ok] by simp
  obtain c1 r1 where cr1: "raiseTargetInterrupt i (c, r) = (c1, r1)" by (cases "raiseTargetInterrupt i (c, r)")
  note c1 = raise_fields(1-5) [of i "(c, r)", unfolded cr1 fst_conv]
  obtain j where j: "k = Suc j" using k(1) by (cases k) auto
  have first: "tick i (c, r) = (c1\<lparr>ct_count := 1, ct_targetAfterOverflow := True\<rparr>, r1)"
    using z c1 cr1 by (simp add: tick_def processCounterConditions_def Let_def raise_count)
  show ?thesis
  proof (cases "k = 65536")
    case False
    have "processCounterConditions i (bump k c, r)
        = (c1\<lparr>ct_count := of_nat k, ct_targetAfterOverflow := True\<rparr>, r1)"
      using z c1 cr1 False k' bump_count [of c k]
      by (simp add: processCounterConditions_def Let_def raise_count bump_def word_less_nat_alt)
    moreover have "(tick i ^^ j) (c1\<lparr>ct_count := 1, ct_targetAfterOverflow := True\<rparr>, r1)
        = (bump j (c1\<lparr>ct_count := 1, ct_targetAfterOverflow := True\<rparr>), r1)"
      using False k' j by (intro idle_ticks) auto
    ultimately show ?thesis using first by (simp add: j funpow_swap1 bump_def add.commute)
  next
    case True
    then have j': "j = Suc 65534" using j by simp
    let ?d = "c1\<lparr>ct_count := 1, ct_targetAfterOverflow := True\<rparr>"
    have "(tick i ^^ 65534) (?d, r1) = (bump 65534 ?d, r1)" by (rule idle_ticks) auto
    then have "(tick i ^^ Suc (Suc 65534)) (c, r) = tick i (bump 65534 ?d, r1)"
      by (simp only: funpow.simps(2) o_apply funpow_swap1 [of "tick i" 65534 "(c, r)"] first)
    then have "(tick i ^^ k) (c, r) = tick i (bump 65534 ?d, r1)" using j j' by (simp only:)
    also have "\<dots> = processCounterConditions i ((c1\<lparr>ct_targetAfterOverflow := True\<rparr>)\<lparr>ct_count := 0x10000\<rparr>, r1)"
      by (simp add: tick_bump bump_def)
    also have "\<dots> = processCounterConditions i (c\<lparr>ct_count := 0x10000\<rparr>, r)"
    proof -
      let ?x = "(c\<lparr>ct_count := 0, ct_targetAfterOverflow := False\<rparr>, r)"
      have "raiseTargetInterrupt i ?x = (c1\<lparr>ct_count := 0, ct_targetAfterOverflow := False\<rparr>, r1)"
        using raise_count(3) [of i False "c\<lparr>ct_count := 0\<rparr>" r] raise_count(1) [of i 0 c r] cr1
        by simp
      moreover have "raiseTargetInterrupt i (raiseOverflowInterrupt i (raiseTargetInterrupt i ?x)) =
          raiseTargetInterrupt i (raiseOverflowInterrupt i ?x)"
        by (simp only: raise_commute raise_twice)
      ultimately show ?thesis
        using z c1 by (simp only: overflow_at_zero_target counter.simps counter.select_convs Let_def)
          (simp add: overflow_at_zero_target Let_def)
    qed
    also have "\<dots> = processCounterConditions i (bump k c, r)"
      using z True by (simp add: bump_def)
    finally show ?thesis by simp
  qed
qed

lemma process_eq:
  "processCounterConditions i (c, r) =
     (let x = (if ct_count c > 0xffff
               then raiseOverflowInterrupt i (c\<lparr>ct_count := ct_count c - 0x10000, ct_targetAfterOverflow := False\<rparr>, r)
               else (c, r));
          y = raiseTargetInterrupt i x
      in if ct_targetAfterOverflow (fst x) \<or> ct_count (fst x) < target32 (fst x) then x
         else (if zeroReturn (fst x) \<and> ct_target (fst x) \<noteq> 0
               then (fst y)\<lparr>ct_count := ct_count (fst x) - target32 (fst x)\<rparr>
               else (fst y)\<lparr>ct_targetAfterOverflow := True\<rparr>, snd y))"
  by (simp add: processCounterConditions_def Let_def split_beta)

lemma process_setup: "sameSetup (fst (processCounterConditions i (c, r))) c"
proof -
  have "sameSetup (fst (raiseTargetInterrupt i (raiseOverflowInterrupt i (c\<lparr>ct_count := n, ct_targetAfterOverflow := t\<rparr>, r)))) c"
    for n t
    using raise_setup(1) [of i "raiseOverflowInterrupt i (c\<lparr>ct_count := n, ct_targetAfterOverflow := t\<rparr>, r)"]
      raise_setup(2) [of i "(c\<lparr>ct_count := n, ct_targetAfterOverflow := t\<rparr>, r)"]
    by (auto intro: sameSetup_trans)
  moreover have "sameSetup (fst (raiseOverflowInterrupt i (c\<lparr>ct_count := n, ct_targetAfterOverflow := t\<rparr>, r))) c"
    for n t using raise_setup(2) [of i "(c\<lparr>ct_count := n, ct_targetAfterOverflow := t\<rparr>, r)"] by simp
  ultimately show ?thesis
    using raise_setup(1) [of i "(c, r)"] by (simp add: process_eq Let_def)
qed

lemma sub_10000: "unat n \<le> 65536 \<Longrightarrow> n > 0xffff \<Longrightarrow> n = (0x10000 :: u32)"
  by (simp add: word_less_nat_alt word_unat_eq_iff)

lemma process_ok:
  assumes n: "unat (ct_count c) \<le> 65536"
    and t: "ct_targetAfterOverflow c \<or> ct_target c = 0 \<or> unat (ct_count c) \<le> unat (ct_target c)"
  shows "counter_ok (fst (processCounterConditions i (c, r)))"
proof (cases "ct_count c > 0xffff")
  case True
  then have "ct_count c = 0x10000" by (rule sub_10000 [OF n])
  then show ?thesis
    by (simp add: process_eq Let_def counter_ok_def word_gt_0)
next
  case False
  then have "unat (ct_count c) \<le> 65535" by (simp add: not_less count_le)
  moreover have "ct_count c - target32 c = 0"
    if "\<not> ct_targetAfterOverflow c" "\<not> ct_count c < target32 c" "ct_target c \<noteq> 0"
  proof -
    have "unat (ct_count c) = unat (ct_target c)" using that t by (simp add: count_less)
    then have "ct_count c = target32 c" by (simp add: word_unat_eq_iff)
    then show ?thesis by simp
  qed
  ultimately show ?thesis using False
    by (auto simp: process_eq Let_def counter_ok_def count_le word_gt_0)
qed

lemma bump_ok:
  assumes ok: "counter_ok c" and k: "0 < k" "k \<le> unat (untilCondition c)"
  shows "counter_ok (fst (processCounterConditions i (bump k c, r)))"
proof (rule process_ok)
  have n: "unat (ct_count c) \<le> 65535" using ok by (simp add: counter_ok_def count_le)
  have k': "k \<le> 65536 - unat (ct_count c)"
    using k(2) target_le [of c] unfolding unat_untilCondition [OF ok] by (auto split: if_splits)
  then have b: "unat (ct_count (bump k c)) = unat (ct_count c) + k" using n by (intro bump_count) auto
  show "unat (ct_count (bump k c)) \<le> 65536" using k' n b by simp
  show "ct_targetAfterOverflow (bump k c) \<or> ct_target (bump k c) = 0
      \<or> unat (ct_count (bump k c)) \<le> unat (ct_target (bump k c))"
    using ok k(2) b unfolding unat_untilCondition [OF ok]
    by (auto simp: counter_ok_def count_less split: if_splits)
qed

lemma until_pos: "0 < unat (untilCondition c)"
  using untilCondition_pos [of c] by (simp add: word_less_nat_alt)

lemma tick_ok: "counter_ok c \<Longrightarrow> counter_ok (fst (tick i (c, r)))"
  unfolding tick_bump using until_pos [of c] by (intro bump_ok) simp_all

text \<open>The configuration in which a jump over the overflow cannot lose a target match.\<close>

definition latchSafe :: "counter \<Rightarrow> bool" where
  "latchSafe c = (zeroReturn c \<and> ct_target c \<noteq> 0 \<and> ct_targetAfterOverflow c
     \<and> targetInterruptEnabled c \<longrightarrow> targetReached c)"

lemma targetReached_upd [simp]:
  "targetReached (c\<lparr>ct_count := n\<rparr>) = targetReached c"
  "targetReached (c\<lparr>ct_targetAfterOverflow := t\<rparr>) = targetReached c"
  by (simp_all add: targetReached_def)

lemma process_reached: "targetReached c \<Longrightarrow> targetReached (fst (processCounterConditions i (c, r)))"
  by (auto simp: process_eq Let_def raise_latches)

lemma process_latchSafe:
  assumes "latchSafe c"
  shows "latchSafe (fst (processCounterConditions i (c, r)))"
proof -
  have s: "sameSetup (fst (processCounterConditions i (c, r))) c" by (rule process_setup)
  have tao: "ct_targetAfterOverflow (fst (processCounterConditions i (c, r))) \<Longrightarrow> zeroReturn c
      \<Longrightarrow> ct_target c \<noteq> 0 \<Longrightarrow> ct_targetAfterOverflow c"
    by (auto simp: process_eq Let_def split: if_splits)
  show ?thesis using assms s tao process_reached [of c i r]
    by (auto simp: latchSafe_def sameSetup_def)
qed

text \<open>A whole zero-return period of ticks changes nothing once the target match is latched.\<close>

lemma period_idle:
  assumes ok: "counter_ok c" and z: "zeroReturn c" "ct_target c \<noteq> 0" "\<not> ct_targetAfterOverflow c"
    and l: "targetInterruptEnabled c \<longrightarrow> targetReached c"
  shows "(tick i ^^ unat (ct_target c)) (c, r) = (c, r)"
proof -
  let ?n = "unat (ct_count c)" and ?t = "unat (ct_target c)"
  have lt: "?n < ?t" using ok z by (auto simp: counter_ok_def count_less word_gt_0 unat_gt_0)
  have t: "?t \<le> 65535" by (rule target_le)
  let ?c0 = "c\<lparr>ct_count := 0\<rparr>"
  have "(tick i ^^ (?t - ?n)) (c, r) = processCounterConditions i (bump (?t - ?n) c, r)"
    using lt z by (intro jump_is_ticks [symmetric] ok) (simp_all add: unat_untilCondition [OF ok])
  also have "ct_count (bump (?t - ?n) c) = target32 c"
    using lt t by (simp add: word_unat_eq_iff bump_count)
  then have "bump (?t - ?n) c = c\<lparr>ct_count := target32 c\<rparr>" by (simp add: bump_def)
  also have "processCounterConditions i (c\<lparr>ct_count := target32 c\<rparr>, r) = (?c0, r)"
  proof -
    have "raiseTargetInterrupt i (c\<lparr>ct_count := target32 c\<rparr>, r) = (c\<lparr>ct_count := target32 c\<rparr>, r)"
      using l by (intro raise_idle(1)) (auto simp: mode_queries)
    moreover have "\<not> target32 c > 0xffff" using t by (simp add: word_less_nat_alt)
    moreover have "zeroReturn (c\<lparr>ct_count := target32 c\<rparr>)" using z(1) by (simp add: zeroReturn_def)
    ultimately show ?thesis using z by (simp add: process_eq Let_def)
  qed
  finally have first: "(tick i ^^ (?t - ?n)) (c, r) = (?c0, r)" .
  have "(tick i ^^ ?n) (?c0, r) = (bump ?n ?c0, r)" using lt t by (intro idle_ticks) simp_all
  then have "(tick i ^^ ?n) (?c0, r) = (c, r)" by (simp add: bump_def)
  then have "(tick i ^^ (?n + (?t - ?n))) (c, r) = (c, r)" by (simp only: funpow_add o_apply first)
  then show ?thesis using lt by simp
qed

lemma periods_idle:
  assumes "counter_ok c" "zeroReturn c" "ct_target c \<noteq> 0" "\<not> ct_targetAfterOverflow c"
    and "targetInterruptEnabled c \<longrightarrow> targetReached c"
  shows "(tick i ^^ (k * unat (ct_target c))) (c, r) = (c, r)"
  using period_idle [OF assms] by (induction k) (simp_all add: funpow_add)

section \<open>Many ticks at once\<close>

lemma unat_min: "unat (min a b) = min (unat a) (unat (b :: 'a::len word))"
  by (auto simp: min_def word_le_nat_alt)

lemma addCounterTicks_step:
  assumes ok: "counter_ok c" and n: "n \<noteq> 0"
    and k: "k = min (unat n) (unat (untilCondition c))"
    and p: "processCounterConditions i (bump k c, r) = (c1, r1)"
  shows "addCounterTicks i n (c, r) = addCounterTicks i (collapsePeriods c1 (n - of_nat k)) (c1, r1)"
    and "unat (n - of_nat k) = unat n - k" and "0 < k"
proof -
  let ?s = "min n (untilCondition c)"
  have s: "unat ?s = k" by (simp add: unat_min k)
  then have sk: "?s = of_nat k" by (simp flip: s)
  have "(ucast ?s :: u32) = of_nat k" by (simp flip: s)
  then have b: "c\<lparr>ct_count := ct_count c + ucast ?s\<rparr> = bump k c" by (simp add: bump_def)
  show "addCounterTicks i n (c, r) = addCounterTicks i (collapsePeriods c1 (n - of_nat k)) (c1, r1)"
    by (subst addCounterTicks.simps) (simp only: n if_False Let_def fst_conv snd_conv b p, simp only: sk)
  have "?s \<le> n" by (rule min.cobounded1)
  then show "unat (n - of_nat k) = unat n - k" using unat_sub_le [of ?s n] s sk by simp
  show "0 < k" using n until_pos [of c] by (simp add: k word_zero_iff_unat)
qed

lemma addCounterTicks_0 [simp]: "addCounterTicks i 0 cr = cr"
  by (subst addCounterTicks.simps) simp

lemma collapsePeriods_0 [simp]: "collapsePeriods c 0 = 0"
  by (simp add: collapsePeriods_def)

lemma unat_collapse:
  "\<exists>k. unat n = k * unat (ct_target c) + unat (collapsePeriods c n)"
  "zeroReturn c \<Longrightarrow> ct_target c \<noteq> 0 \<Longrightarrow> \<not> ct_targetAfterOverflow c \<Longrightarrow> ct_count c < target32 c
     \<Longrightarrow> unat (collapsePeriods c n) = unat n mod unat (ct_target c)"
proof -
  let ?t = "ucast (ct_target c) :: u64"
  have t: "unat ?t = unat (ct_target c)" by (simp add: unat_widen)
  have m: "n - n div ?t * ?t = n mod ?t" by (simp add: minus_div_mult_eq_mod)
  have d: "unat (n mod ?t) = unat n mod unat (ct_target c)" by (simp add: unat_mod_distrib t)
  have z: "n div ?t = 0 \<Longrightarrow> n mod ?t = n" by (metis add_0 div_mult_mod_eq mult_zero_left)
  have c: "collapsePeriods c n = n \<or> collapsePeriods c n = n mod ?t"
    by (auto simp: collapsePeriods_def Let_def m)
  have e: "unat n = unat n div unat (ct_target c) * unat (ct_target c) + unat n mod unat (ct_target c)"
    by simp
  from c show "\<exists>k. unat n = k * unat (ct_target c) + unat (collapsePeriods c n)"
  proof
    assume "collapsePeriods c n = n"
    then show ?thesis by (intro exI [of _ 0]) simp
  next
    assume "collapsePeriods c n = n mod ?t"
    then show ?thesis using e d by (intro exI [of _ "unat n div unat (ct_target c)"]) simp
  qed
  assume "zeroReturn c" "ct_target c \<noteq> 0" "\<not> ct_targetAfterOverflow c" "ct_count c < target32 c"
  then show "unat (collapsePeriods c n) = unat n mod unat (ct_target c)"
    using z d by (auto simp: collapsePeriods_def Let_def m)
qed

lemma collapse_active:
  "collapsePeriods c n \<noteq> n \<Longrightarrow> zeroReturn c \<and> ct_target c \<noteq> 0 \<and> \<not> ct_targetAfterOverflow c"
  by (simp add: collapsePeriods_def split: if_splits)

text \<open>After a completed jump the collapse is taken only with the target match latched.\<close>

lemma jump_latched:
  assumes ok: "counter_ok c" and safe: "latchSafe c" and k: "k = unat (untilCondition c)"
    and p: "processCounterConditions i (bump k c, r) = (c1, r1)"
    and z: "zeroReturn c1" "ct_target c1 \<noteq> 0" "\<not> ct_targetAfterOverflow c1"
  shows "targetInterruptEnabled c1 \<longrightarrow> targetReached c1"
proof -
  have s: "sameSetup c1 c" using process_setup [of i "bump k c" r] p by (simp add: bump_def)
  then have zc: "zeroReturn c" "ct_target c \<noteq> 0" using z by (simp_all add: sameSetup_def)
  show ?thesis
  proof (cases "ct_targetAfterOverflow c")
    case True
    then have "targetInterruptEnabled c \<longrightarrow> targetReached (bump k c)"
      using safe zc by (simp add: latchSafe_def bump_def)
    then show ?thesis using process_reached [of "bump k c" i r] p s by (auto simp: sameSetup_def)
  next
    case False
    let ?n = "unat (ct_count c)" and ?t = "unat (ct_target c)"
    have lt: "?n < ?t" using ok zc False by (auto simp: counter_ok_def count_less word_gt_0 unat_gt_0)
    then have k': "k = ?t - ?n" using False unat_untilCondition [OF ok] by (simp add: k)
    have n: "unat (ct_count (bump k c)) = ?t" using lt k' target_le [of c] by (simp add: bump_count)
    then have "\<not> ct_count (bump k c) > 0xffff" "\<not> ct_count (bump k c) < target32 c"
      using target_le [of c] by (simp_all add: word_less_nat_alt)
    then have "targetReached c1" if "targetInterruptEnabled c"
      using p raise_latches(1) [of "(bump k c, r)" i] that False
      by (auto simp: process_eq Let_def bump_def split: if_splits)
    then show ?thesis using s by (auto simp: sameSetup_def)
  qed
qed

lemma batch_is_ticks:
  "counter_ok c \<Longrightarrow> latchSafe c \<Longrightarrow> addCounterTicks i n (c, r) = (tick i ^^ unat n) (c, r)"
proof (induction "unat n" arbitrary: n c r rule: less_induct)
  case less
  show ?case
  proof (cases "n = 0")
    case False
    define k where "k = min (unat n) (unat (untilCondition c))"
    obtain c1 r1 where p: "processCounterConditions i (bump k c, r) = (c1, r1)"
      by (cases "processCounterConditions i (bump k c, r)")
    note st = addCounterTicks_step [OF less.prems(1) False k_def p]
    let ?n1 = "n - of_nat k" and ?m = "collapsePeriods c1 (n - of_nat k)"
    have ku: "k \<le> unat (untilCondition c)" "k \<le> unat n" by (simp_all add: k_def)
    have ok1: "counter_ok c1" using bump_ok [OF less.prems(1) st(3) ku(1), of i r] p by simp
    have safe1: "latchSafe c1"
      using process_latchSafe [of "bump k c" i r] less.prems(2) p by (simp add: latchSafe_def bump_def)
    have first: "(tick i ^^ k) (c, r) = (c1, r1)"
      using jump_is_ticks [OF less.prems(1) st(3) ku(1), of i r] p by simp
    have m: "unat ?m < unat n"
      using collapsePeriods_le [of c1 ?n1] st(2, 3) ku(2) by (simp add: word_le_nat_alt)
    have "addCounterTicks i n (c, r) = (tick i ^^ unat ?m) (c1, r1)"
      using st(1) less.hyps [OF m ok1 safe1] by simp
    also have "\<dots> = (tick i ^^ unat ?n1) (c1, r1)"
    proof (cases "?m = ?n1")
      case False
      note z = collapse_active [OF False]
      have "?n1 \<noteq> 0" using False by auto
      then have "k = unat (untilCondition c)" using st(2) by (auto simp: k_def word_zero_iff_unat)
      then have l: "targetInterruptEnabled c1 \<longrightarrow> targetReached c1"
        using jump_latched [OF less.prems _ p] z by blast
      obtain j where "unat ?n1 = unat ?m + j * unat (ct_target c1)"
        using unat_collapse(1) [of ?n1 c1] by (auto simp: add.commute)
      then show ?thesis using periods_idle [OF ok1 _ _ _ l, of j i r1] z by (simp add: funpow_add)
    qed simp
    also have "\<dots> = (tick i ^^ (unat ?n1 + k)) (c, r)" by (simp add: funpow_add first)
    also have "unat ?n1 + k = unat n" using st(2) ku(2) by simp
    finally show ?thesis .
  qed simp
qed

end
