(* ===== verification/EeCounterBatch.thy ===== *)
theory EeCounterBatch
  imports EeCounterTicks
begin

text \<open>
  The two facts about counting in bulk: it is counting one by one wherever no unlatched
  target match can hide behind an overflow, and it loses that match where one can.
\<close>

section \<open>Counting in bulk is counting one by one\<close>

text \<open>
  C10. Adding n ticks to a counter at once leaves the counter and the raised interrupts of n
  single ticks, for a counter below its overflow, unless the counter is in zero-return mode
  with an enabled, unlatched target interrupt and its compare parked until the overflow.
\<close>

theorem counter_batch_is_stepwise:
  assumes "counter_ok c" and "latchSafe c"
  shows "addCounterTicks i n (c, r) = (tick i ^^ unat n) (c, r)
     \<and> counter_ok (fst (addCounterTicks i n (c, r)))"
proof -
  have "counter_ok (fst ((tick i ^^ k) (c, r)))" for k
  proof (induction k)
    case (Suc k)
    then show ?case using tick_ok [of "fst ((tick i ^^ k) (c, r))" i "snd ((tick i ^^ k) (c, r))"] by simp
  qed (use assms in simp)
  with batch_is_ticks [OF assms] show ?thesis by simp
qed

definition sampleCounter :: "u32 \<Rightarrow> u16 \<Rightarrow> u16 \<Rightarrow> bool \<Rightarrow> counter" where
  "sampleCounter n mode target after =
     \<lparr>ct_count = n, ct_mode = mode, ct_target = target, ct_hold = 0, ct_rate = 2,
      ct_startCycle = 0, ct_targetAfterOverflow = after\<rparr>"

theorem counter_batch_is_stepwise_witness:
  "addCounterTicks 1 25 (sampleCounter 3 0x1C0 10 False, noCounterAdvance)
     = (tick 1 ^^ 25) (sampleCounter 3 0x1C0 10 False, noCounterAdvance)"
  using counter_batch_is_stepwise [of "sampleCounter 3 0x1C0 10 False" 1 25 noCounterAdvance]
  by (simp add: counter_ok_def latchSafe_def sampleCounter_def)

section \<open>The lost match\<close>

lemma overflow_jump:
  assumes ok: "counter_ok c" and z: "ct_target c \<noteq> 0" "ct_targetAfterOverflow c"
  shows "\<exists>c1 r1. processCounterConditions i (bump (65536 - unat (ct_count c)) c, r) = (c1, r1)
     \<and> sameSetup c1 c \<and> targetReached c1 = targetReached c
     \<and> ct_count c1 = 0 \<and> \<not> ct_targetAfterOverflow c1"
proof -
  have n: "unat (ct_count c) \<le> 65535" using ok by (simp add: counter_ok_def count_le)
  then have "unat (ct_count (bump (65536 - unat (ct_count c)) c)) = 65536" by (simp add: bump_count)
  then have b: "bump (65536 - unat (ct_count c)) c = c\<lparr>ct_count := 0x10000\<rparr>"
    by (simp add: bump_def word_unat_eq_iff)
  let ?x = "(c\<lparr>ct_count := 0, ct_targetAfterOverflow := False\<rparr>, r)"
  have "processCounterConditions i (c\<lparr>ct_count := 0x10000\<rparr>, r) = raiseOverflowInterrupt i ?x"
    using z(1) by (simp add: process_eq Let_def word_less_nat_alt word_zero_iff_unat)
  then show ?thesis
    using raise_setup(2) [of i ?x] raise_latches(3) [of i ?x] unfolding b
    by (cases "raiseOverflowInterrupt i ?x") (use raise_fields(6,9) [of i ?x] in simp)
qed

text \<open>
  C38. In the excluded configuration a bulk advance across the overflow drops the target
  interrupt: after at least one full period past the overflow the single ticks have latched
  the match, the bulk advance has not, whatever the number of ticks.
\<close>

theorem counter_collapse_loses_match:
  assumes ok: "counter_ok c" and z: "zeroReturn c" "ct_target c \<noteq> 0" "ct_targetAfterOverflow c"
    and t: "targetInterruptEnabled c" "\<not> targetReached c"
    and n: "unat n \<ge> 65536 - unat (ct_count c) + unat (ct_target c)"
  shows "\<not> targetReached (fst (addCounterTicks i n (c, r)))
     \<and> targetReached (fst ((tick i ^^ unat n) (c, r)))"
proof -
  let ?k = "65536 - unat (ct_count c)" and ?t = "unat (ct_target c)"
  from overflow_jump [OF ok z(2, 3), of i r] obtain c1 r1 where
    p: "processCounterConditions i (bump ?k c, r) = (c1, r1)" and s: "sameSetup c1 c"
    and c1: "targetReached c1 = targetReached c" "ct_count c1 = 0" "\<not> ct_targetAfterOverflow c1"
    by blast
  have cnt: "unat (ct_count c) \<le> 65535" using ok by (simp add: counter_ok_def count_le)
  have ku: "unat (untilCondition c) = ?k" using z(3) unat_untilCondition [OF ok] by simp
  have k: "?k = min (unat n) (unat (untilCondition c))" using n by (simp add: ku)
  have n0: "n \<noteq> 0" using n cnt by (auto simp: word_zero_iff_unat)
  note st = addCounterTicks_step [OF ok n0 k p]
  have tz: "ct_target c1 = ct_target c" "zeroReturn c1" "targetInterruptEnabled c1"
    using s z t by (simp_all add: sameSetup_def)
  have ok1: "counter_ok c1" using c1 z(2) tz by (simp add: counter_ok_def word_gt_0)
  let ?m = "collapsePeriods c1 (n - of_nat ?k)"
  have m: "unat ?m < ?t"
    using unat_collapse(2) [of c1 "n - of_nat ?k"] tz z(2) c1 by (simp add: word_gt_0 unat_gt_0)
  have "addCounterTicks i ?m (c1, r1) = (bump (unat ?m) c1, r1)"
  proof (cases "?m = 0")
    case False
    have mk: "unat ?m = min (unat ?m) (unat (untilCondition c1))"
      using m c1 tz z(2) unat_untilCondition [OF ok1] by (simp add: unat_gt_0)
    have idle: "processCounterConditions i (bump (unat ?m) c1, r1) = (bump (unat ?m) c1, r1)"
      using m c1 tz target_le [of c] by (intro process_idle) (auto simp: count_le count_less bump_count)
    have "?m - of_nat (unat ?m) = 0" by simp
    then show ?thesis using addCounterTicks_step(1) [OF ok1 False mk idle] by simp
  qed simp
  then have batch: "\<not> targetReached (fst (addCounterTicks i n (c, r)))"
    using st(1) c1 t by (simp add: bump_def)
  have "(tick i ^^ ?k) (c, r) = (c1, r1)" using jump_is_ticks [OF ok st(3), of i r] p ku by simp
  moreover have "(tick i ^^ ?t) (c1, r1) = processCounterConditions i (bump ?t c1, r1)"
    using unat_untilCondition [OF ok1] c1 tz z(2)
    by (intro jump_is_ticks [symmetric] ok1) (simp_all add: unat_gt_0)
  moreover have "targetReached (fst (processCounterConditions i (bump ?t c1, r1)))"
  proof -
    have b: "ct_count (bump ?t c1) = target32 c1"
      using c1 tz target_le [of c] by (simp add: word_unat_eq_iff bump_count)
    have "\<not> target32 c1 > 0xffff" using target_le [of c1] by (simp add: word_less_nat_alt)
    then show ?thesis using raise_latches(1) [of "(bump ?t c1, r1)" i] tz c1 b z(2)
      by (simp add: process_eq Let_def) (simp add: bump_def)
  qed
  ultimately have hit: "targetReached (fst ((tick i ^^ (?t + ?k)) (c, r)))"
    by (simp only: funpow_add o_apply)
  have keep: "targetReached (fst ((tick i ^^ j) x))" if "targetReached (fst x)" for j and x :: "counter \<times> counter_advance"
  proof (induction j)
    case (Suc j)
    then show ?case using process_reached by (simp add: tick_def)
  qed (use that in simp)
  obtain m j where m: "m = ?t + ?k" and j: "unat n = j + m"
    using n by (metis add.commute le_Suc_ex)
  have "targetReached (fst ((tick i ^^ (j + m)) (c, r)))"
    unfolding funpow_add o_apply by (rule keep) (use hit in \<open>simp only: m\<close>)
  with batch show ?thesis unfolding j by blast
qed

theorem counter_collapse_loses_match_witness:
  "targetReached (fst ((tick 1 ^^ 12) (sampleCounter 0xFFFE 0x1C0 10 True, noCounterAdvance)))
   \<and> \<not> targetReached (fst (addCounterTicks 1 12 (sampleCounter 0xFFFE 0x1C0 10 True, noCounterAdvance)))"
  using counter_collapse_loses_match [of "sampleCounter 0xFFFE 0x1C0 10 True" 12 1 noCounterAdvance]
  by (simp add: counter_ok_def targetReached_def sampleCounter_def mode_queries mode_consts)

end
