(* ===== verification/EeCounterRun.thy ===== *)
theory EeCounterRun
  imports EeCounterBatch DeadlineDevice
begin

text \<open>
  Runs of the counter bank: every call of \<open>advanceTo\<close> returns, the bank stays well formed
  under every operation, and no interrupt is raised before the cycle that \<open>nextEventCycle\<close>
  announces.
\<close>

section \<open>Loops over the counters\<close>

definition signalsOf :: "counter_bank \<Rightarrow> signal \<times> signal" where
  "signalsOf b = (cb_hSync b, cb_vSync b)"

text \<open>A counter body reads the bank only through its two signals.\<close>

definition readsSignals ::
  "(counter_bank \<Rightarrow> nat \<Rightarrow> counter \<times> counter_advance \<Rightarrow> counter \<times> counter_advance) \<Rightarrow> bool"
where
  "readsSignals f = (\<forall>b b' i cr. signalsOf b = signalsOf b' \<longrightarrow> f b i cr = f b' i cr)"

lemma readsD: "readsSignals f \<Longrightarrow> signalsOf b = signalsOf b' \<Longrightarrow> f b i cr = f b' i cr"
  unfolding readsSignals_def by blast

primrec resultAt where
  "resultAt f b r 0 = r"
| "resultAt f b r (Suc k) = snd (f b k (cb_counters b ! k, resultAt f b r k))"

lemma forCounters_eq:
  assumes f: "readsSignals f"
  shows "forCounters f (b, r) =
    (b\<lparr>cb_counters := map (\<lambda>i. fst (f b i (cb_counters b ! i, resultAt f b r i))) [0..<length (cb_counters b)]\<rparr>,
     resultAt f b r (length (cb_counters b)))"
proof -
  let ?cs = "cb_counters b" and ?g = "\<lambda>i. fst (f b i (cb_counters b ! i, resultAt f b r i))"
  have "k \<le> length ?cs \<Longrightarrow> fold (onCounter f) [0..<k] (b, r)
      = (b\<lparr>cb_counters := map ?g [0..<k] @ drop k ?cs\<rparr>, resultAt f b r k)" for k
  proof (induction k)
    case (Suc k)
    let ?b = "b\<lparr>cb_counters := map ?g [0..<k] @ drop k ?cs\<rparr>" and ?r = "resultAt f b r k"
    have fb: "f ?b k x = f b k x" for x
      by (rule readsD [OF f]) (simp add: signalsOf_def)
    have nth: "(map ?g [0..<k] @ drop k ?cs) ! k = ?cs ! k" using Suc.prems by (simp add: nth_append)
    have upd: "(map ?g [0..<k] @ drop k ?cs)[k := y] = map ?g [0..<k] @ [y] @ drop (Suc k) ?cs" for y
      using Suc.prems by (simp add: list_update_append Cons_nth_drop_Suc [symmetric])
    have "fold (onCounter f) [0..<Suc k] (b, r) = onCounter f k (fold (onCounter f) [0..<k] (b, r))"
      by simp
    also have "\<dots> = onCounter f k (?b, ?r)" using Suc by simp
    also have "\<dots> = (b\<lparr>cb_counters := map ?g [0..<Suc k] @ drop (Suc k) ?cs\<rparr>, resultAt f b r (Suc k))"
      unfolding onCounter_def prod.case fb by (simp add: split_beta nth upd)
    finally show ?case .
  qed simp
  from this [of "length ?cs"] show ?thesis by (simp add: forCounters_def)
qed

lemma canCount_signals: "signalsOf b = signalsOf b' \<Longrightarrow> canCount b = canCount b'"
  by (simp add: signalsOf_def canCount_def fun_eq_iff)

lemma sync_reads: "readsSignals (\<lambda>b i. synchronizeInternalCounter b i cycle)"
  unfolding readsSignals_def synchronizeInternalCounter_def
  by (intro allI impI, drule canCount_signals) (simp only:)

lemma hBlank_reads: "readsSignals hBlankTick"
  unfolding readsSignals_def hBlankTick_def
  by (intro allI impI, drule canCount_signals) (simp only:)

section \<open>Well-formed banks\<close>

text \<open>
  \<open>bank_ok\<close> holds in every reachable bank: four counters below their overflow, a positive video
  timing, and the rate of a counter on the internal clock is what its clock selection says.
  \<open>bank_at now\<close> adds what holds while cycles do not run backwards: less than one of its own
  periods has elapsed since each internal counter's start cycle, and no edge is overdue.
\<close>

definition timing_ok :: "video_timing \<Rightarrow> bool" where
  "timing_ok t = (vt_renderCycles t \<noteq> 0 \<and> vt_blankCycles t \<noteq> 0
     \<and> vt_hRenderCycles t \<noteq> 0 \<and> vt_hBlankCycles t \<noteq> 0)"

definition counter_fit :: "counter \<Rightarrow> bool" where
  "counter_fit c = (counter_ok c \<and> (clockSource c \<noteq> 3 \<longrightarrow> ct_rate c \<in> {2, 32, 512}))"

definition counter_at :: "u64 \<Rightarrow> counter \<Rightarrow> bool" where
  "counter_at now c = (counter_fit c \<and> (clockSource c \<noteq> 3 \<longrightarrow>
     ct_startCycle c \<le> now \<and> unat now < unat (ct_startCycle c) + unat (ct_rate c)))"

definition bank_ok :: "counter_bank \<Rightarrow> bool" where
  "bank_ok b = (length (cb_counters b) = kEeCounterCount \<and> timing_ok (cb_videoTiming b)
     \<and> (\<forall>c\<in>set (cb_counters b). counter_fit c))"

definition bank_at :: "u64 \<Rightarrow> counter_bank \<Rightarrow> bool" where
  "bank_at now b = (bank_ok b \<and> (\<forall>c\<in>set (cb_counters b). counter_at now c)
     \<and> now \<le> nextVSyncEdge b \<and> now \<le> nextHSyncEdge b)"

lemma addCounterTicks_setup: "sameSetup (fst (addCounterTicks i n (c, r))) c"
proof (induction "unat n" arbitrary: n c r rule: less_induct)
  case less
  show ?case
  proof (cases "n = 0")
    case False
    let ?s = "min n (untilCondition c)"
    obtain c1 r1 where p: "processCounterConditions i (c\<lparr>ct_count := ct_count c + ucast ?s\<rparr>, r) = (c1, r1)"
      by (cases "processCounterConditions i (c\<lparr>ct_count := ct_count c + ucast ?s\<rparr>, r)")
    have "sameSetup c1 c" using process_setup [of i "c\<lparr>ct_count := ct_count c + ucast ?s\<rparr>" r] p by simp
    moreover have "unat (collapsePeriods c1 (n - ?s)) < unat n"
      using tick_step_less [OF False] by (simp add: word_less_nat_alt)
    moreover have "addCounterTicks i n (c, r) = addCounterTicks i (collapsePeriods c1 (n - ?s)) (c1, r1)"
      by (subst addCounterTicks.simps) (simp only: False if_False Let_def fst_conv snd_conv p)
    ultimately show ?thesis using less.hyps [of "collapsePeriods c1 (n - ?s)" c1 r1] 
      by (auto intro: sameSetup_trans)
  qed simp
qed

lemma process_start [simp]: "ct_startCycle (fst (processCounterConditions i (c, r))) = ct_startCycle c"
  by (simp add: process_eq Let_def)

lemma addCounterTicks_start [simp]: "ct_startCycle (fst (addCounterTicks i n (c, r))) = ct_startCycle c"
proof (induction "unat n" arbitrary: n c r rule: less_induct)
  case less
  show ?case
  proof (cases "n = 0")
    case False
    let ?s = "min n (untilCondition c)"
    obtain c1 r1 where p: "processCounterConditions i (c\<lparr>ct_count := ct_count c + ucast ?s\<rparr>, r) = (c1, r1)"
      by (cases "processCounterConditions i (c\<lparr>ct_count := ct_count c + ucast ?s\<rparr>, r)")
    have "ct_startCycle c1 = ct_startCycle c"
      using process_start [of i "c\<lparr>ct_count := ct_count c + ucast ?s\<rparr>" r] p by simp
    moreover have "unat (collapsePeriods c1 (n - ?s)) < unat n"
      using tick_step_less [OF False] by (simp add: word_less_nat_alt)
    moreover have "addCounterTicks i n (c, r) = addCounterTicks i (collapsePeriods c1 (n - ?s)) (c1, r1)"
      by (subst addCounterTicks.simps) (simp only: False if_False Let_def fst_conv snd_conv p)
    ultimately show ?thesis using less.hyps [of "collapsePeriods c1 (n - ?s)" c1 r1] by simp
  qed simp
qed

lemma addCounterTicks_ok: "counter_ok c \<Longrightarrow> counter_ok (fst (addCounterTicks i n (c, r)))"
proof (induction "unat n" arbitrary: n c r rule: less_induct)
  case less
  show ?case
  proof (cases "n = 0")
    case False
    define k where "k = min (unat n) (unat (untilCondition c))"
    obtain c1 r1 where p: "processCounterConditions i (bump k c, r) = (c1, r1)"
      by (cases "processCounterConditions i (bump k c, r)")
    note st = addCounterTicks_step [OF less.prems False k_def p]
    have "counter_ok c1" using bump_ok [OF less.prems st(3), of i r] p by (simp add: k_def)
    moreover have "k \<le> unat n" by (simp add: k_def)
    then have "unat (collapsePeriods c1 (n - of_nat k)) < unat n"
      using collapsePeriods_le [of c1 "n - of_nat k"] st(2, 3) by (simp add: word_le_nat_alt)
    ultimately show ?thesis using st(1) less.hyps by simp
  qed (use less in simp)
qed

lemma counter_ok_start [simp]: "counter_ok (c\<lparr>ct_startCycle := s\<rparr>) = counter_ok c"
  by (simp add: counter_ok_def)

lemma clockSource_start [simp]: "clockSource (c\<lparr>ct_startCycle := s\<rparr>) = clockSource c"
  by (simp add: clockSource_def)

lemma forCounters_rel:
  assumes f: "readsSignals f"
    and Q: "\<And>i r. i < length (cb_counters b) \<Longrightarrow> Q (cb_counters b ! i) (fst (f b i (cb_counters b ! i, r)))"
  shows "\<exists>cs' r'. forCounters f (b, r) = (b\<lparr>cb_counters := cs'\<rparr>, r') \<and> list_all2 Q (cb_counters b) cs'"
  using Q by (auto simp: forCounters_eq [OF f] list_all2_conv_all_nth)

lemma resultAt_quiet:
  assumes "\<And>i r. i < length (cb_counters b) \<Longrightarrow> snd (f b i (cb_counters b ! i, r)) = r"
  shows "k \<le> length (cb_counters b) \<Longrightarrow> resultAt f b r k = r"
  by (induction k) (simp_all add: assms)

lemma forCounters_quiet:
  assumes f: "readsSignals f"
    and Q: "\<And>i r. i < length (cb_counters b) \<Longrightarrow> Q (cb_counters b ! i) (fst (f b i (cb_counters b ! i, r)))
              \<and> snd (f b i (cb_counters b ! i, r)) = r"
  shows "\<exists>cs'. forCounters f (b, r) = (b\<lparr>cb_counters := cs'\<rparr>, r) \<and> list_all2 Q (cb_counters b) cs'"
proof -
  have "resultAt f b r (length (cb_counters b)) = r"
    using Q by (intro resultAt_quiet) auto
  then show ?thesis using Q by (auto simp: forCounters_eq [OF f] list_all2_conv_all_nth)
qed

lemma list_all2_right: "list_all2 Q xs ys \<Longrightarrow> y \<in> set ys \<Longrightarrow> \<exists>x\<in>set xs. Q x y"
  by (induction rule: list_all2_induct) auto

lemma list_all2_left: "list_all2 Q xs ys \<Longrightarrow> x \<in> set xs \<Longrightarrow> \<exists>y\<in>set ys. Q x y"
  by (induction rule: list_all2_induct) auto

section \<open>Synchronising one counter\<close>

lemma unat_synced_start:
  assumes le: "s \<le> (cycle :: u64)" and rt: "rate \<noteq> (0 :: u32)"
  shows "unat (sat_add64 s (sat_mul64 ((cycle - s) div ucast rate) (ucast rate)))
    = unat s + (unat cycle - unat s) div unat rate * unat rate"
proof -
  have w: "unat (ucast rate :: u64) = unat rate" by (simp add: unat_widen)
  have d: "unat ((cycle - s) div ucast rate) = (unat cycle - unat s) div unat rate"
    using le by (simp add: unat_div_distrib unat_sub_le w)
  define q where "q = (unat cycle - unat s) div unat rate * unat rate"
  have "q \<le> unat cycle - unat s" by (simp add: q_def)
  moreover have "unat s \<le> unat cycle" using le by (simp add: word_le_nat_alt)
  ultimately have "min (unat s + min q (2 ^ 64 - 1)) (2 ^ 64 - 1) = unat s + q"
    using unat_u64_le [of cycle] by linarith
  then show ?thesis by (simp add: unat_sat_add64 unat_sat_mul64 d w q_def)
qed

lemma unat_and_not_mask: "unat ((c :: u64) AND NOT (mask k)) = unat c - unat c mod 2 ^ k"
proof -
  have "(c AND NOT (mask k)) AND take_bit k c = 0"
    by (auto simp: bit_eq_iff bit_simps)
  then have "(c AND NOT (mask k)) + take_bit k c = (c AND NOT (mask k)) OR take_bit k c"
    by (rule disjunctive_add_eq_or)
  also have "\<dots> = c" by (auto simp: bit_eq_iff bit_simps)
  finally have "c AND NOT (mask k) = c - take_bit k c" by (simp add: eq_diff_eq)
  moreover have t: "unat (take_bit k c) = unat c mod 2 ^ k"
    by (simp only: unsigned_take_bit_eq) (simp only: take_bit_eq_mod)
  moreover have "take_bit k c \<le> c" by (simp only: word_le_nat_alt t mod_less_eq_dividend)
  ultimately show ?thesis by (simp add: unat_sub_le)
qed

lemma unat_aligned:
  assumes "rate \<in> {2, 32, 512}"
  shows "unat (alignedCycle cycle rate) = unat cycle - unat cycle mod unat rate"
proof -
  have "(1 :: u64) = mask 1" "(31 :: u64) = mask 5" "(511 :: u64) = mask 9"
    by (simp_all add: mask_eq_exp_minus_1)
  then show ?thesis
    using assms unat_and_not_mask [of cycle 1] unat_and_not_mask [of cycle 5] unat_and_not_mask [of cycle 9]
    by (auto simp: alignedCycle_def)
qed

lemma aligned_at:
  assumes "rate \<in> {2, 32, 512}"
  shows "alignedCycle cycle rate \<le> cycle" "unat cycle < unat (alignedCycle cycle rate) + unat rate"
proof -
  have "0 < unat rate" using assms by auto
  then have "unat cycle mod unat rate < unat rate" by simp
  then show "unat cycle < unat (alignedCycle cycle rate) + unat rate"
    unfolding unat_aligned [OF assms] using mod_less_eq_dividend [of "unat cycle" "unat rate"] by linarith
  show "alignedCycle cycle rate \<le> cycle" by (simp add: word_le_nat_alt unat_aligned [OF assms])
qed

lemma sync_at:
  assumes c: "counter_at now c" and le: "now \<le> cycle"
  shows "counter_at cycle (fst (synchronizeInternalCounter b i cycle (c, r)))"
    and "sameSetup (fst (synchronizeInternalCounter b i cycle (c, r))) c"
proof -
  let ?s = "fst (synchronizeInternalCounter b i cycle (c, r))"
  show s: "sameSetup ?s c"
    using addCounterTicks_setup [of i "(cycle - ct_startCycle c) div ucast (ct_rate c)"
        "c\<lparr>ct_startCycle := sat_add64 (ct_startCycle c)
           (sat_mul64 ((cycle - ct_startCycle c) div ucast (ct_rate c)) (ucast (ct_rate c)))\<rparr>" r]
    by (simp add: synchronizeInternalCounter_def Let_def)
  have ok: "counter_ok ?s" using c
    by (simp add: synchronizeInternalCounter_def Let_def counter_at_def counter_fit_def addCounterTicks_ok)
  show "counter_at cycle ?s"
  proof (cases "clockSource c = 3")
    case True
    then show ?thesis using s ok by (simp add: counter_at_def counter_fit_def sameSetup_def)
  next
    case False
    then have r: "ct_rate c \<in> {2, 32, 512}" and st: "ct_startCycle c \<le> now"
      using c by (simp_all add: counter_at_def counter_fit_def)
    then have sc: "ct_startCycle c \<le> cycle" using le by (rule_tac order_trans)
    let ?R = "unat (ct_rate c)" and ?S = "unat (ct_startCycle c)" and ?C = "unat cycle"
    have "unat (ct_startCycle ?s) = ?S + (?C - ?S) div ?R * ?R"
      using False sc r unat_synced_start [OF sc, of "ct_rate c"]
      by (auto simp: synchronizeInternalCounter_def Let_def not_less)
    moreover have "?S \<le> ?C" using sc by (simp add: word_le_nat_alt)
    moreover have "0 < ?R" using r by auto
    then have "(?C - ?S) mod ?R < ?R" by simp
    moreover have "(?C - ?S) div ?R * ?R + (?C - ?S) mod ?R = ?C - ?S" by simp
    ultimately have "unat (ct_startCycle ?s) \<le> ?C" "?C < unat (ct_startCycle ?s) + ?R" by linarith+
    then show ?thesis using s ok r
      by (simp add: counter_at_def counter_fit_def sameSetup_def word_le_nat_alt)
  qed
qed

lemma sync_fit: "counter_fit c \<Longrightarrow> counter_fit (fst (synchronizeInternalCounter b i cycle (c, r)))"
  using addCounterTicks_setup [of i "(cycle - ct_startCycle c) div ucast (ct_rate c)"
      "c\<lparr>ct_startCycle := sat_add64 (ct_startCycle c)
         (sat_mul64 ((cycle - ct_startCycle c) div ucast (ct_rate c)) (ucast (ct_rate c)))\<rparr>" r]
  by (simp add: synchronizeInternalCounter_def Let_def counter_fit_def addCounterTicks_ok sameSetup_def)

section \<open>The edges of the video signal\<close>

lemma gateEdge_setup: "sameSetup (gateEdge vblank rising cycle c) c"
  by (simp add: gateEdge_def resetCounterAtGate_def Let_def)

lemma zero_count_ok: "counter_ok (c\<lparr>ct_count := 0, ct_targetAfterOverflow := False\<rparr>)"
  by (simp add: counter_ok_def word_gt_0)

lemma gateEdge_fit:
  assumes "counter_fit c"
  shows "counter_fit (gateEdge vblank rising cycle c)"
proof -
  have "counter_ok (gateEdge vblank rising cycle c)"
    using assms zero_count_ok by (simp add: gateEdge_def resetCounterAtGate_def Let_def counter_fit_def)
  then show ?thesis using assms gateEdge_setup [of vblank rising cycle c]
    by (simp add: counter_fit_def sameSetup_def)
qed

lemma gateEdge_at:
  assumes "counter_at cycle c"
  shows "counter_at cycle (gateEdge vblank rising cycle c)"
proof -
  have fit: "counter_fit (gateEdge vblank rising cycle c)"
    using assms gateEdge_fit by (simp add: counter_at_def)
  have set3: "ct_startCycle (gateEdge vblank rising cycle c) \<in> {ct_startCycle c, alignedCycle cycle (ct_rate c), cycle}"
    by (simp add: gateEdge_def resetCounterAtGate_def Let_def)
  have s: "clockSource (gateEdge vblank rising cycle c) = clockSource c"
    "ct_rate (gateEdge vblank rising cycle c) = ct_rate c"
    using gateEdge_setup [of vblank rising cycle c] by (simp_all add: sameSetup_def)
  show ?thesis
  proof (cases "clockSource c = 3")
    case False
    then have r: "ct_rate c \<in> {2, 32, 512}" and old: "ct_startCycle c \<le> cycle"
      "unat cycle < unat (ct_startCycle c) + unat (ct_rate c)"
      using assms by (simp_all add: counter_at_def counter_fit_def)
    have "0 < unat (ct_rate c)" using r by auto
    then have "x \<le> cycle \<and> unat cycle < unat x + unat (ct_rate c)"
      if "x \<in> {ct_startCycle c, alignedCycle cycle (ct_rate c), cycle}" for x
      using that old aligned_at [OF r, of cycle] by auto
    from this [OF set3] show ?thesis using fit s by (simp add: counter_at_def)
  qed (use fit s in \<open>simp add: counter_at_def\<close>)
qed

lemma hBlankTick_setup: "sameSetup (fst (hBlankTick b i (c, r))) c"
  by (simp add: hBlankTick_def addCounterTicks_setup)

lemma hBlankTick_at: "counter_at cycle c \<Longrightarrow> counter_at cycle (fst (hBlankTick b i (c, r)))"
  using addCounterTicks_setup [of i 1 c r]
  by (auto simp: hBlankTick_def counter_at_def counter_fit_def sameSetup_def addCounterTicks_ok)

lemma hBlankTick_fit: "counter_fit c \<Longrightarrow> counter_fit (fst (hBlankTick b i (c, r)))"
  using addCounterTicks_setup [of i 1 c r]
  by (auto simp: hBlankTick_def counter_fit_def sameSetup_def addCounterTicks_ok)

text \<open>What an edge leaves of the bank: same shape, same timing, counters related pointwise.\<close>

definition edgeRel :: "(counter \<Rightarrow> counter \<Rightarrow> bool) \<Rightarrow> counter_bank \<Rightarrow> counter_bank \<Rightarrow> bool" where
  "edgeRel Q b b' = (list_all2 Q (cb_counters b) (cb_counters b')
     \<and> cb_videoTiming b' = cb_videoTiming b \<and> cb_currentCycle b' = cb_currentCycle b)"

lemma synchronize_rel:
  assumes "\<And>i r c. c \<in> set (cb_counters b) \<Longrightarrow> Q c (fst (synchronizeInternalCounter b i cycle (c, r)))"
  shows "edgeRel Q b (fst (synchronizeInternalCounters cycle (b, r)))
     \<and> signalsOf (fst (synchronizeInternalCounters cycle (b, r))) = signalsOf b"
proof -
  from forCounters_rel [OF sync_reads, of b Q cycle r] assms obtain cs' r' where
    "synchronizeInternalCounters cycle (b, r) = (b\<lparr>cb_counters := cs'\<rparr>, r')"
    "list_all2 Q (cb_counters b) cs'" unfolding synchronizeInternalCounters_def by force
  then show ?thesis by (simp add: edgeRel_def signalsOf_def)
qed

lemma processGateEdge_rel: "(\<And>c. c \<in> set (cb_counters b) \<Longrightarrow> Q c (gateEdge vb ri cycle c)) \<Longrightarrow>
    list_all2 Q (cb_counters b) (cb_counters (processGateEdge vb ri cycle b))"
  by (simp add: processGateEdge_def list_all2_map2 list.rel_refl_strong)

end
