(* ===== verification/EeCounterAdvance.thy ===== *)
theory EeCounterAdvance
  imports EeCounterRun
begin

text \<open>
  \<open>advanceTo\<close> returns: every edge it processes moves an edge of the video signal forward. The
  bank's invariants over every operation, on an option machine whose \<open>None\<close> is a call that
  does not return.
\<close>

section \<open>One edge\<close>

lemma sat_add_mono: "a \<le> b \<Longrightarrow> sat_add64 s a \<le> sat_add64 s b"
  by (simp add: word_le_nat_alt unat_sat_add64)

lemma sat_add_pos:
  assumes "x \<noteq> 0" and "s \<noteq> u64_max"
  shows "s < sat_add64 s x"
proof -
  have "0 < unat x" using assms(1) by (simp add: unat_gt_0)
  moreover have "s < u64_max" using assms(2) by (simp add: less_le)
  then have "unat s < 2 ^ 64 - 1" by (simp add: word_less_nat_alt)
  ultimately show ?thesis by (simp add: word_less_nat_alt unat_sat_add64)
qed

lemma synchronize_all:
  assumes "\<And>i r c. c \<in> set (cb_counters b) \<Longrightarrow> P (fst (synchronizeInternalCounter b i cycle (c, r)))"
  shows "\<exists>cs' r'. synchronizeInternalCounters cycle (b, r) = (b\<lparr>cb_counters := cs'\<rparr>, r')
     \<and> length cs' = length (cb_counters b) \<and> (\<forall>c\<in>set cs'. P c)"
  using forCounters_rel [OF sync_reads, of b "\<lambda>_. P" cycle r] assms list_all2_right
  unfolding synchronizeInternalCounters_def by (metis list_all2_lengthD nth_mem)

lemma hBlank_all:
  assumes "\<And>i r c. c \<in> set (cb_counters b) \<Longrightarrow> P (fst (hBlankTick b i (c, r)))"
  shows "\<exists>cs' r'. forCounters hBlankTick (b, r) = (b\<lparr>cb_counters := cs'\<rparr>, r')
     \<and> length cs' = length (cb_counters b) \<and> (\<forall>c\<in>set cs'. P c)"
  using forCounters_rel [OF hBlank_reads, of b "\<lambda>_. P" r] assms list_all2_right
  by (metis list_all2_lengthD nth_mem)

text \<open>A property of counters that neither a gate edge nor a horizontal blank destroys.\<close>

definition edgeStable :: "u64 \<Rightarrow> (counter \<Rightarrow> bool) \<Rightarrow> bool" where
  "edgeStable cycle P = (\<forall>c. P c \<longrightarrow> (\<forall>vb ri. P (gateEdge vb ri cycle c))
     \<and> (\<forall>b i r. P (fst (hBlankTick b i (c, r)))))"

lemma edgeStable_fit: "edgeStable cycle counter_fit"
  by (simp add: edgeStable_def gateEdge_fit hBlankTick_fit)

lemma edgeStable_at: "edgeStable cycle (counter_at cycle)"
  by (simp add: edgeStable_def gateEdge_at hBlankTick_at)

text \<open>
  Counters keep \<open>P\<close>, both edges stay where they are or move later, and the edge that was
  served moves past the served cycle.
\<close>

definition edgeStep :: "u64 \<Rightarrow> (counter \<Rightarrow> bool) \<Rightarrow> counter_bank \<Rightarrow> counter_bank \<Rightarrow> bool" where
  "edgeStep cycle P b b' = (length (cb_counters b') = length (cb_counters b)
     \<and> cb_videoTiming b' = cb_videoTiming b \<and> cb_currentCycle b' = cb_currentCycle b
     \<and> (\<forall>c\<in>set (cb_counters b'). P c)
     \<and> (cycle < nextVSyncEdge b' \<and> nextHSyncEdge b \<le> nextHSyncEdge b'
        \<or> cycle < nextHSyncEdge b' \<and> nextVSyncEdge b' = nextVSyncEdge b))"

lemma processVSyncEdge_step:
  assumes t: "timing_ok (cb_videoTiming b)" and nz: "cycle \<noteq> u64_max"
    and P: "\<forall>c\<in>set (cb_counters b). P c" and st: "edgeStable cycle P"
  shows "edgeStep cycle P b (fst (processVSyncEdge cycle (b, r)))
     \<and> cycle < nextVSyncEdge (fst (processVSyncEdge cycle (b, r)))
     \<and> nextHSyncEdge b \<le> nextHSyncEdge (fst (processVSyncEdge cycle (b, r)))"
  using t P st sat_add_pos [OF _ nz] sat_add_mono [OF sat_add64_ge]
  by (auto simp: edgeStep_def processVSyncEdge_def processGateEdge_def nextVSyncEdge_def
      nextHSyncEdge_def timing_ok_def edgeStable_def)

lemma ucast_u32_zero: "(ucast (x :: u32) :: u64) = 0 \<longleftrightarrow> x = 0"
  by (simp add: word_zero_iff_unat unat_widen)

lemma processHSyncEdge_step:
  assumes t: "timing_ok (cb_videoTiming b)" and nz: "cycle \<noteq> u64_max"
    and P: "\<forall>c\<in>set (cb_counters b). P c" and st: "edgeStable cycle P"
  shows "edgeStep cycle P b (fst (processHSyncEdge cycle (b, r)))
     \<and> cycle < nextHSyncEdge (fst (processHSyncEdge cycle (b, r)))
     \<and> nextVSyncEdge (fst (processHSyncEdge cycle (b, r))) = nextVSyncEdge b"
proof -
  from hBlank_all [of b P r] P st obtain cs' r' where
    h: "forCounters hBlankTick (b, r) = (b\<lparr>cb_counters := cs'\<rparr>, r')"
      "length cs' = length (cb_counters b)" "\<forall>c\<in>set cs'. P c" by (auto simp: edgeStable_def)
  show ?thesis
  proof (cases "sg_phase (cb_hSync b)")
    case PhRender
    then show ?thesis using t st h sat_add_pos [OF _ nz, of "ucast (vt_hBlankCycles (cb_videoTiming b))"]
      by (auto simp: edgeStep_def processHSyncEdge_def processGateEdge_def nextVSyncEdge_def
          nextHSyncEdge_def timing_ok_def edgeStable_def ucast_u32_zero)
  next
    case PhBlank
    then show ?thesis using t P st sat_add_pos [OF _ nz, of "ucast (vt_hRenderCycles (cb_videoTiming b))"]
      by (auto simp: edgeStep_def processHSyncEdge_def processGateEdge_def nextVSyncEdge_def
          nextHSyncEdge_def timing_ok_def edgeStable_def ucast_u32_zero)
  qed
qed

lemma nextEdges_counters [simp]:
  "nextVSyncEdge (b\<lparr>cb_counters := cs\<rparr>) = nextVSyncEdge b"
  "nextHSyncEdge (b\<lparr>cb_counters := cs\<rparr>) = nextHSyncEdge b"
  by (simp_all add: nextVSyncEdge_def nextHSyncEdge_def)

lemma processEdge_step:
  assumes t: "timing_ok (cb_videoTiming b)" and nz: "nextEdge b \<noteq> u64_max"
    and P: "\<And>i r c. c \<in> set (cb_counters b) \<Longrightarrow> P (fst (synchronizeInternalCounter b i (nextEdge b) (c, r)))"
    and st: "edgeStable (nextEdge b) P"
  shows "edgeStep (nextEdge b) P b (fst (processEdge (b, r)))
     \<and> (nextVSyncEdge b < nextVSyncEdge (fst (processEdge (b, r)))
          \<and> nextHSyncEdge b \<le> nextHSyncEdge (fst (processEdge (b, r)))
        \<or> nextHSyncEdge b < nextHSyncEdge (fst (processEdge (b, r)))
          \<and> nextVSyncEdge (fst (processEdge (b, r))) = nextVSyncEdge b)"
proof -
  from synchronize_all [of b P "nextEdge b" r] P obtain cs' r' where
    s: "synchronizeInternalCounters (nextEdge b) (b, r) = (b\<lparr>cb_counters := cs'\<rparr>, r')"
      "length cs' = length (cb_counters b)" "\<forall>c\<in>set cs'. P c" by blast
  let ?b = "b\<lparr>cb_counters := cs'\<rparr>"
  have e: "min (nextVSyncEdge b) (nextHSyncEdge b) = nextEdge b" by (simp add: nextEdge_def)
  have rel: "edgeStep (nextEdge b) P ?b b' \<Longrightarrow> edgeStep (nextEdge b) P b b'" for b'
    using s(2) by (simp add: edgeStep_def)
  show ?thesis
  proof (cases "nextVSyncEdge b \<le> nextHSyncEdge b")
    case True
    then have "processEdge (b, r) = processVSyncEdge (nextEdge b) (?b, r')" "nextEdge b = nextVSyncEdge b"
      by (simp_all add: processEdge_def Let_def e s(1)) (simp add: nextEdge_def)
    then show ?thesis
      using processVSyncEdge_step [of ?b "nextEdge b" P r'] t nz s(3) st rel by simp
  next
    case False
    then have "processEdge (b, r) = processHSyncEdge (nextEdge b) (?b, r')" "nextEdge b = nextHSyncEdge b"
      by (simp_all add: processEdge_def Let_def e s(1)) (simp add: nextEdge_def)
    then show ?thesis
      using processHSyncEdge_step [of ?b "nextEdge b" P r'] t nz s(3) st rel by simp
  qed
qed

section \<open>The loop ends\<close>

text \<open>What every edge below the requested cycle keeps, the loop keeps; and the loop ends.\<close>

definition edgeDistance :: "counter_bank \<Rightarrow> nat" where
  "edgeDistance b = (2 ^ 64 - unat (nextVSyncEdge b)) + (2 ^ 64 - unat (nextHSyncEdge b))"

lemma advanceLoop_ends:
  assumes step: "\<And>b r. I b r \<Longrightarrow> nextEdge b \<le> cycle \<Longrightarrow> nextEdge b \<noteq> u64_max
      \<Longrightarrow> I (fst (processEdge (b, r))) (snd (processEdge (b, r)))
        \<and> edgeDistance (fst (processEdge (b, r))) < edgeDistance b"
  shows "I b r \<Longrightarrow> \<exists>b' r'. advanceLoop cycle (b, r) = Some (b', r') \<and> I b' r'
           \<and> (cycle < nextEdge b' \<or> nextEdge b' = u64_max)"
proof (induction "edgeDistance b" arbitrary: b r rule: less_induct)
  case less
  show ?case
  proof (cases "cycle < nextEdge b \<or> nextEdge b = u64_max")
    case True
    then show ?thesis using less.prems by (simp add: advanceLoop.simps)
  next
    case False
    let ?p = "processEdge (b, r)"
    have "I (fst ?p) (snd ?p)" "edgeDistance (fst ?p) < edgeDistance b"
      using step [OF less.prems] False by (simp_all add: not_less)
    from less.hyps [OF this(2, 1)] show ?thesis
      using False by (subst advanceLoop.simps) simp
  qed
qed

lemma edgeDistance_less:
  assumes "a < a' \<and> h \<le> h' \<or> h < h' \<and> a' = (a :: u64)"
  shows "(2 ^ 64 - unat a') + (2 ^ 64 - unat h') < (2 ^ 64 - unat a) + (2 ^ 64 - unat (h :: u64))"
  using assms unat_u64_less [of a'] unat_u64_less [of h']
  by (auto simp: word_less_nat_alt word_le_nat_alt)

lemma advance_after_loop:
  assumes "cb_currentCycle b \<le> c" and "advanceLoop c (b, noCounterAdvance) = Some (b1, r1)"
  shows "advanceTo c b = Some ((fst (synchronizeInternalCounters c (b1, r1)))\<lparr>cb_currentCycle := c\<rparr>,
     snd (synchronizeInternalCounters c (b1, r1)))"
  using assms by (simp add: advanceTo_def split_beta)

lemma bank_ok_edge:
  assumes "bank_ok b" "nextEdge b \<noteq> u64_max"
  shows "bank_ok (fst (processEdge (b, r))) \<and> edgeDistance (fst (processEdge (b, r))) < edgeDistance b
     \<and> cb_currentCycle (fst (processEdge (b, r))) = cb_currentCycle b"
proof -
  have "timing_ok (cb_videoTiming b)" using assms(1) by (simp add: bank_ok_def)
  note st = processEdge_step [OF this assms(2) _ edgeStable_fit, of r]
  have fit: "counter_fit (fst (synchronizeInternalCounter b i (nextEdge b) (c, r)))"
    if "c \<in> set (cb_counters b)" for i r c
    using that assms(1) by (simp add: bank_ok_def sync_fit)
  from st [OF fit] have "edgeDistance (fst (processEdge (b, r))) < edgeDistance b"
    unfolding edgeDistance_def by (intro edgeDistance_less) simp
  then show ?thesis using st [OF fit] assms(1) by (simp add: bank_ok_def edgeStep_def)
qed

lemma bank_at_edge:
  assumes at: "bank_at now b" and nz: "nextEdge b \<noteq> u64_max"
  shows "bank_at (nextEdge b) (fst (processEdge (b, r)))"
proof -
  have e: "now \<le> nextEdge b" "nextEdge b \<le> nextVSyncEdge b" "nextEdge b \<le> nextHSyncEdge b"
    using at by (simp_all add: bank_at_def nextEdge_def)
  have t: "timing_ok (cb_videoTiming b)" using at by (simp add: bank_at_def bank_ok_def)
  have P: "counter_at (nextEdge b) (fst (synchronizeInternalCounter b i (nextEdge b) (c, r)))"
    if "c \<in> set (cb_counters b)" for i r c
    using at that e(1) by (intro sync_at(1)) (auto simp: bank_at_def)
  have st: "edgeStep (nextEdge b) (counter_at (nextEdge b)) b (fst (processEdge (b, r)))"
    using processEdge_step [OF t nz P edgeStable_at] by blast
  have ok: "bank_ok (fst (processEdge (b, r)))"
    using bank_ok_edge [of b r] at nz by (simp add: bank_at_def)
  show ?thesis using st ok e unfolding bank_at_def edgeStep_def by auto
qed

lemma synchronize_ok: "bank_ok b \<Longrightarrow> bank_ok (fst (synchronizeInternalCounters c (b, r)))
    \<and> cb_currentCycle (fst (synchronizeInternalCounters c (b, r))) = cb_currentCycle b"
  using synchronize_all [of b counter_fit c r] by (auto simp: bank_ok_def sync_fit)

lemma bank_current [simp]:
  "bank_ok (b\<lparr>cb_currentCycle := c\<rparr>) = bank_ok b" "bank_at n (b\<lparr>cb_currentCycle := c\<rparr>) = bank_at n b"
  by (simp_all add: bank_ok_def bank_at_def nextVSyncEdge_def nextHSyncEdge_def)

lemma advance_ok:
  assumes ok: "bank_ok b"
  shows "\<exists>b' r. advanceTo c b = Some (b', r) \<and> bank_ok b'
     \<and> cb_currentCycle b' = max c (cb_currentCycle b)"
proof (cases "c < cb_currentCycle b")
  case True
  then show ?thesis using ok by (simp add: advanceTo_def max_absorb2)
next
  case False
  let ?I = "\<lambda>b' (r :: counter_advance). bank_ok b'"
  from advanceLoop_ends [of ?I c b noCounterAdvance] bank_ok_edge ok obtain b1 r1 where
    l: "advanceLoop c (b, noCounterAdvance) = Some (b1, r1)" "bank_ok b1" by blast
  from False advance_after_loop [OF _ l(1)] synchronize_ok [OF l(2), of c r1] show ?thesis
    by (auto simp: not_less max_def)
qed

lemma advance_at:
  assumes at: "bank_at (cb_currentCycle b) b" and le: "cb_currentCycle b \<le> c"
    and ad: "advanceTo c b = Some (b', r)"
  shows "bank_at c b' \<and> cb_currentCycle b' = c"
proof -
  let ?I = "\<lambda>b' (r :: counter_advance). bank_ok b' \<and> (\<exists>now\<le>c. bank_at now b')"
  have ok: "bank_ok b" using at by (simp add: bank_at_def)
  have step: "?I (fst (processEdge (b, r))) (snd (processEdge (b, r)))
      \<and> edgeDistance (fst (processEdge (b, r))) < edgeDistance b"
    if "?I b r" "nextEdge b \<le> c" "nextEdge b \<noteq> u64_max" for b r
    using that bank_ok_edge [of b r] bank_at_edge [of _ b r] by blast
  from advanceLoop_ends [of ?I c b noCounterAdvance, OF step] at le ok obtain b1 r1 now where
    l: "advanceLoop c (b, noCounterAdvance) = Some (b1, r1)" "bank_ok b1" "now \<le> c" "bank_at now b1"
      "c < nextEdge b1 \<or> nextEdge b1 = u64_max" by blast
  have "c \<le> nextEdge b1" using l(5) by auto
  then have e: "c \<le> nextVSyncEdge b1" "c \<le> nextHSyncEdge b1" by (simp_all add: nextEdge_def)
  have "counter_at c (fst (synchronizeInternalCounter b1 i c (x, r)))" if "x \<in> set (cb_counters b1)" for i r x
    using l(3, 4) that by (intro sync_at(1)) (auto simp: bank_at_def)
  then obtain cs' r' where s: "synchronizeInternalCounters c (b1, r1) = (b1\<lparr>cb_counters := cs'\<rparr>, r')"
      "length cs' = length (cb_counters b1)" "\<forall>x\<in>set cs'. counter_at c x"
    using synchronize_all [of b1 "counter_at c" c r1] by blast
  have "b' = (b1\<lparr>cb_counters := cs'\<rparr>)\<lparr>cb_currentCycle := c\<rparr>"
    using ad advance_after_loop [OF le l(1)] s(1) by simp
  moreover have "bank_at c (b1\<lparr>cb_counters := cs'\<rparr>)"
    using l(2) s(2, 3) e by (simp add: bank_at_def bank_ok_def counter_at_def)
  ultimately show ?thesis by simp
qed

section \<open>Every operation\<close>

lemma decode_counter_less: "decodeRegister a = Some (k, reg) \<Longrightarrow> k < kEeCounterCount"
proof -
  assume d: "decodeRegister a = Some (k, reg)"
  let ?o = "a - kEeCounterBaseAddress"
  have r: "kEeCounterBaseAddress \<le> a" "a < 0x10002000" and k: "k = unat (?o div kEeCounterStride)"
    using d by (auto simp: decodeRegister_def Let_def kEeCounterBaseAddress_def kEeCounterStride_def
        kEeCounterCount_def not_less not_le split: if_splits)
  have "unat ?o = unat a - unat kEeCounterBaseAddress" using r(1) by (rule unat_sub_le)
  moreover have "unat a < 0x10002000" using r(2) by (simp add: word_less_nat_alt)
  ultimately have "unat ?o < 0x2000" by (simp add: kEeCounterBaseAddress_def)
  then show ?thesis by (simp add: k unat_div_distrib kEeCounterStride_def kEeCounterCount_def)
qed

lemma u32_le_ffff: "(x :: u32) \<le> 0xffff \<longleftrightarrow> take_bit 16 x = x"
proof -
  have "unat (take_bit 16 x) = unat x mod 2 ^ 16"
    by (simp only: unsigned_take_bit_eq) (simp only: take_bit_eq_mod)
  then show ?thesis by (auto simp: word_unat_eq_iff word_le_nat_alt)
qed

lemma written_count_small:
  assumes "(n :: u32) \<le> 0xffff"
  shows "(n AND NOT (ucast (m :: u16))) OR ucast (v :: u16) \<le> 0xffff"
proof -
  have v: "bit (ucast v :: u32) k \<Longrightarrow> k < 16" for k
    by (auto simp: bit_simps dest: bit_imp_le_length)
  have n: "bit n k \<Longrightarrow> k < 16" for k
    using assms unfolding u32_le_ffff by (metis bit_take_bit_iff)
  show ?thesis unfolding u32_le_ffff
    by (rule bit_eqI) (auto simp: bit_take_bit_iff bit_or_iff bit_and_iff dest: v n)
qed

lemma clockSource_cases: "clockSource c \<in> {0, 1, 2, 3}"
proof -
  have "ct_mode c AND kModeClockSourceMask = take_bit 2 (ct_mode c)"
    by (simp add: kModeClockSourceMask_def take_bit_eq_mask mask_eq_exp_minus_1)
  moreover have "unat (take_bit 2 (ct_mode c)) = unat (ct_mode c) mod 2 ^ 2"
    by (simp only: unsigned_take_bit_eq) (simp only: take_bit_eq_mod)
  ultimately have "unat (clockSource c) < 4" by (simp add: clockSource_def unat_widen)
  then show ?thesis by (auto simp: word_unat_eq_iff)
qed

lemma modeRate_internal: "clockSource c \<noteq> 3 \<Longrightarrow> modeRate t c \<in> {2, 32, 512}"
  using clockSource_cases [of c] by (auto simp: modeRate_def)

lemma modeRate_clock [simp]: "clockSource (c\<lparr>ct_rate := x\<rparr>) = clockSource c"
  by (simp add: clockSource_def)

lemma writeCounter_ok:
  assumes "counter_ok c"
  shows "counter_ok (writeCounter t reg m v cycle c)"
  using assms written_count_small [of "ct_count c" m v]
  by (cases reg) (auto simp: writeCounter_def Let_def counter_ok_def not_le word_gt_0)

lemma writeCounter_other:
  assumes "reg \<noteq> RegMode"
  shows "clockSource (writeCounter t reg m v cycle c) = clockSource c"
    "ct_rate (writeCounter t reg m v cycle c) = ct_rate c"
    "ct_startCycle (writeCounter t reg m v cycle c) = ct_startCycle c"
  using assms by (cases reg; simp add: writeCounter_def Let_def clockSource_def)+

lemma writeCounter_mode:
  "clockSource (writeCounter t RegMode m v cycle c) \<noteq> 3 \<Longrightarrow>
     ct_rate (writeCounter t RegMode m v cycle c) \<in> {2, 32, 512}"
  "ct_startCycle (writeCounter t RegMode m v cycle c)
     = alignedCycle cycle (ct_rate (writeCounter t RegMode m v cycle c))"
  using modeRate_internal [of "c\<lparr>ct_mode := writtenMode (ct_mode c) m v\<rparr>" t]
  by (simp_all add: writeCounter_def Let_def)

lemma writeCounter_fit: "counter_fit c \<Longrightarrow> counter_fit (writeCounter t reg m v cycle c)"
  using writeCounter_ok [of c t reg m v cycle] writeCounter_other [of reg t m v cycle c]
    writeCounter_mode(1) [of t m v cycle c]
  by (cases "reg = RegMode") (auto simp: counter_fit_def)

lemma writeCounter_at: "counter_at cycle c \<Longrightarrow> counter_at cycle (writeCounter t reg m v cycle c)"
  using writeCounter_fit [of c t reg m v cycle] writeCounter_other [of reg t m v cycle c]
    writeCounter_mode [of t m v cycle c]
    aligned_at [of "ct_rate (writeCounter t RegMode m v cycle c)" cycle]
  by (cases "reg = RegMode") (simp_all add: counter_at_def)

end
