(* ===== verification/EeCounterProps.thy ===== *)
theory EeCounterProps
  imports EeCounterAdvance
begin

text \<open>
  The promises of the counter bank to the runtime: calls return and keep the bank well
  formed, and no interrupt is raised before the cycle the bank announces.
\<close>

section \<open>All operations as one machine\<close>

datatype cb_op = CbReset u64 | CbTiming video_timing u64 | CbAdvance u64 | CbRead u32 u64
  | CbWrite u32 u32 u64 u32

definition cb_run1 :: "cb_op \<Rightarrow> counter_bank \<Rightarrow> counter_bank option" where
  "cb_run1 op b =
     (case op of
        CbReset c \<Rightarrow> Some (cb_reset c b)
      | CbTiming t c \<Rightarrow> map_option fst (configureVideoTiming t c b)
      | CbAdvance c \<Rightarrow> map_option fst (advanceTo c b)
      | CbRead a c \<Rightarrow> map_option fst (readRegister a c b)
      | CbWrite a v c m \<Rightarrow> map_option fst (writeRegister a v c m b))"

definition cb_step :: "cb_op \<Rightarrow> counter_bank option \<Rightarrow> counter_bank option" where
  "cb_step op x = (case x of None \<Rightarrow> None | Some b \<Rightarrow> cb_run1 op b)"

definition cb_inv :: "counter_bank option \<Rightarrow> bool" where
  "cb_inv x = (case x of None \<Rightarrow> False | Some b \<Rightarrow> bank_ok b)"

lemma max_1_nonzero: "max (x :: 'a::len word) 1 \<noteq> 0"
proof -
  have "0 < max x 1" by (simp add: less_max_iff_disj)
  then show ?thesis by simp
qed

lemma clampTiming_ok: "timing_ok (clampTiming t)"
  by (simp add: timing_ok_def clampTiming_def max_1_nonzero)

lemma reset_ok: "timing_ok (cb_videoTiming b) \<Longrightarrow> bank_ok (cb_reset c b)"
  by (auto simp: bank_ok_def cb_reset_def counter_fit_def counter_ok_def word_less_nat_alt)

lemma init_ok: "bank_ok cb_init"
  unfolding cb_init_def by (rule reset_ok) (simp add: timing_ok_def defaultVideoTiming_def)

lemma configure_ok: "bank_ok b \<Longrightarrow> \<exists>b' r. configureVideoTiming t c b = Some (b', r) \<and> bank_ok b'"
  using advance_ok [of b c] clampTiming_ok [of t]
  by (auto simp: configureVideoTiming_def Let_def bank_ok_def)

lemma read_ok: "bank_ok b \<Longrightarrow> \<exists>b' x. readRegister a c b = Some (b', x) \<and> bank_ok b'"
  using advance_ok [of b c] by (auto simp: readRegister_def split: option.split)

lemma put_counter_ok:
  assumes "bank_ok b" "k < kEeCounterCount" "counter_fit (f (cb_counters b ! k))"
  shows "bank_ok (b\<lparr>cb_counters := (cb_counters b)[k := f (cb_counters b ! k)]\<rparr>)"
  using assms by (auto simp: bank_ok_def dest!: subsetD [OF set_update_subset_insert])

lemma write_ok: "bank_ok b \<Longrightarrow> \<exists>b' x. writeRegister a v c m b = Some (b', x) \<and> bank_ok b'"
proof (cases "decodeRegister a")
  case (Some p)
  obtain k reg where p: "p = (k, reg)" by (cases p)
  assume "bank_ok b"
  from advance_ok [OF this, of c] obtain b1 r where
    ad: "advanceTo c b = Some (b1, r)" "bank_ok b1" by blast
  have k: "k < kEeCounterCount" using Some p decode_counter_less by simp
  have "counter_fit (cb_counters b1 ! k)" using ad(2) k by (simp add: bank_ok_def)
  then have "bank_ok (b1\<lparr>cb_counters := (cb_counters b1)[k :=
      writeCounter (cb_videoTiming b1) reg x y c (cb_counters b1 ! k)]\<rparr>)" for x y
    using put_counter_ok [OF ad(2) k, of "writeCounter (cb_videoTiming b1) reg x y c"]
    by (simp add: writeCounter_fit)
  then show ?thesis using Some p ad by (simp add: writeRegister_def Let_def)
qed (simp add: writeRegister_def)

lemma cb_run1_ok:
  assumes ok: "bank_ok b"
  shows "\<exists>b'. cb_run1 p b = Some b' \<and> bank_ok b'"
proof (cases p)
  case (CbReset c)
  have "timing_ok (cb_videoTiming b)" using ok by (simp add: bank_ok_def)
  from reset_ok [OF this] show ?thesis using CbReset by (simp add: cb_run1_def)
next
  case (CbTiming t c)
  then show ?thesis using configure_ok [OF ok, of t c] by (auto simp: cb_run1_def)
next
  case (CbAdvance c)
  then show ?thesis using advance_ok [OF ok, of c] by (auto simp: cb_run1_def)
next
  case (CbRead a c)
  then show ?thesis using read_ok [OF ok, of a c] by (auto simp: cb_run1_def)
next
  case (CbWrite a v c m)
  then show ?thesis using write_ok [OF ok, of a v c m] by (auto simp: cb_run1_def)
qed

lemma cb_step_inv: "cb_inv x \<Longrightarrow> cb_inv (cb_step p x)"
proof (cases x)
  case (Some b)
  assume "cb_inv x"
  then have "bank_ok b" using Some by (simp add: cb_inv_def)
  from cb_run1_ok [OF this, of p] show ?thesis using Some by (auto simp: cb_inv_def cb_step_def)
qed (simp add: cb_inv_def)

interpretation cb_machine: invariant_machine "Some cb_init" cb_step cb_inv "\<lambda>_. \<infinity>"
  by unfold_locales (simp_all add: cb_step_inv, simp add: cb_inv_def init_ok)


section \<open>Nothing before the announced cycle\<close>

definition timed :: "counter \<Rightarrow> bool" where
  "timed c = (targetInterruptEnabled c \<or> zeroReturn c)"

lemma unat_ticksToEvent:
  assumes "counter_ok c"
  shows "unat (ticksToEvent c) =
    (let base = (if overflowInterruptEnabled c \<or> ct_targetAfterOverflow c \<and> timed c
                 then 65536 - unat (ct_count c) else 2 ^ 64 - 1)
     in if \<not> ct_targetAfterOverflow c \<and> timed c
        then min base (if unat (ct_count c) < unat (ct_target c)
                       then unat (ct_target c) - unat (ct_count c) else 1)
        else base)"
proof -
  have n: "unat (ct_count c) \<le> 65535" using assms by (simp add: counter_ok_def count_le)
  have o': "unat (ucast (0x10000 - ct_count c) :: u64) = 65536 - unat (ct_count c)"
    using n by (simp add: unat_widen unat_sub_le word_le_nat_alt)
  have t': "unat (ucast (target32 c - ct_count c) :: u64) = unat (ct_target c) - unat (ct_count c)"
    if "unat (ct_count c) < unat (ct_target c)"
    using that by (simp add: unat_widen unat_sub_le word_le_nat_alt)
  show ?thesis
    by (auto simp: ticksToEvent_def Let_def timed_def unat_min o' t' count_less)
qed

lemma silent_process:
  "\<not> targetInterruptEnabled c \<Longrightarrow> \<not> overflowInterruptEnabled c \<Longrightarrow>
     snd (processCounterConditions i (c, r)) = r"
  by (simp add: process_eq Let_def raise_idle)

lemma silent_ticks:
  "\<not> targetInterruptEnabled c \<Longrightarrow> \<not> overflowInterruptEnabled c \<Longrightarrow>
     snd (addCounterTicks i n (c, r)) = r"
proof (induction "unat n" arbitrary: n c r rule: less_induct)
  case less
  show ?case
  proof (cases "n = 0")
    case False
    let ?s = "min n (untilCondition c)"
    let ?c = "c\<lparr>ct_count := ct_count c + ucast ?s\<rparr>"
    obtain c1 r1 where p: "processCounterConditions i (?c, r) = (c1, r1)"
      by (cases "processCounterConditions i (?c, r)")
    have "r1 = r" using silent_process [of ?c i r] less.prems p by simp
    moreover have "sameSetup c1 c" using process_setup [of i ?c r] p by simp
    moreover have "unat (collapsePeriods c1 (n - ?s)) < unat n"
      using tick_step_less [OF False] by (simp add: word_less_nat_alt)
    moreover have "addCounterTicks i n (c, r) = addCounterTicks i (collapsePeriods c1 (n - ?s)) (c1, r1)"
      by (subst addCounterTicks.simps) (simp only: False if_False Let_def fst_conv snd_conv p)
    ultimately show ?thesis
      using less.hyps [of "collapsePeriods c1 (n - ?s)" c1 r1] less.prems by (simp add: sameSetup_def)
  qed simp
qed

text \<open>Without a target match of its own, a counter only reaches its overflow.\<close>

lemma untimed_ticks:
  assumes "counter_ok c" "\<not> timed c" "unat (ct_count c) + k \<le> 65535"
  shows "snd ((tick i ^^ k) (c, r)) = r \<and> sameSetup (fst ((tick i ^^ k) (c, r))) c
     \<and> unat (ct_count (fst ((tick i ^^ k) (c, r)))) = unat (ct_count c) + k"
  using assms(3)
proof (induction k)
  case (Suc k)
  obtain d r' where d: "(tick i ^^ k) (c, r) = (d, r')" by (cases "(tick i ^^ k) (c, r)")
  have d': "r' = r" "sameSetup d c" "unat (ct_count d) = unat (ct_count c) + k"
    using Suc d by simp_all
  have un: "\<not> targetInterruptEnabled d" "\<not> zeroReturn d"
    using d'(2) assms(2) by (simp_all add: timed_def sameSetup_def)
  have n: "unat (ct_count (bump 1 d)) = unat (ct_count c) + Suc k"
    using d'(3) Suc.prems by (simp add: bump_count)
  then have "\<not> ct_count (bump 1 d) > 0xffff" using Suc.prems by (simp add: word_less_nat_alt)
  then have "processCounterConditions i (bump 1 d, r) = (bump 1 d, r)
      \<or> processCounterConditions i (bump 1 d, r) = ((bump 1 d)\<lparr>ct_targetAfterOverflow := True\<rparr>, r)"
    using un by (simp add: process_eq Let_def raise_idle bump_def)
  then show ?case using d d' n by (auto simp: tick_bump bump_def)
qed simp

lemma quiet_ticks:
  assumes ok: "counter_ok c" and m: "unat m < unat (ticksToEvent c)"
  shows "snd (addCounterTicks i m (c, r)) = r
     \<and> unat (ticksToEvent c) - unat m \<le> unat (ticksToEvent (fst (addCounterTicks i m (c, r))))"
proof (cases "m = 0")
  case nz: False
  then have m0: "0 < unat m" by (simp add: unat_gt_0)
  have n: "unat (ct_count c) \<le> 65535" using ok by (simp add: counter_ok_def count_le)
  show ?thesis
  proof (cases "timed c")
    case True
    have idle: "unat (ct_count c) + unat m \<le> 65535"
        "ct_targetAfterOverflow c \<or> unat (ct_count c) + unat m < unat (ct_target c)"
      using m m0 n True target_le [of c] unfolding unat_ticksToEvent [OF ok]
      by (auto simp: Let_def split: if_splits)
    then have mk: "unat m = min (unat m) (unat (untilCondition c))"
      unfolding unat_untilCondition [OF ok] by auto
    have bc: "unat (ct_count (bump (unat m) c)) = unat (ct_count c) + unat m"
      using idle(1) n by (intro bump_count) simp_all
    have p: "processCounterConditions i (bump (unat m) c, r) = (bump (unat m) c, r)"
      using idle bc by (intro process_idle) (auto simp: count_le count_less)
    have res: "addCounterTicks i m (c, r) = (bump (unat m) c, r)"
      using addCounterTicks_step(1) [OF ok nz mk p] by simp
    have ok': "counter_ok (bump (unat m) c)"
      using idle bc by (auto simp: counter_ok_def count_le count_less)
    have s: "timed (bump (unat m) c) = timed c" "overflowInterruptEnabled (bump (unat m) c) = overflowInterruptEnabled c"
      by (simp_all add: timed_def bump_def)
    show ?thesis using m idle bc True unfolding res fst_conv snd_conv unat_ticksToEvent [OF ok] unat_ticksToEvent [OF ok']
      by (auto simp: Let_def s)
  next
    case False
    then have un: "\<not> targetInterruptEnabled c" "\<not> zeroReturn c" by (simp_all add: timed_def)
    have s: "sameSetup (fst (addCounterTicks i m (c, r))) c" by (rule addCounterTicks_setup)
    have ok': "counter_ok (fst (addCounterTicks i m (c, r)))" by (rule addCounterTicks_ok [OF ok])
    have un': "\<not> timed (fst (addCounterTicks i m (c, r)))"
      using s un by (simp add: timed_def sameSetup_def)
    show ?thesis
    proof (cases "overflowInterruptEnabled c")
      case True
      then have le: "unat (ct_count c) + unat m \<le> 65535"
        using m False n unfolding unat_ticksToEvent [OF ok] by simp
      have b: "addCounterTicks i m (c, r) = (tick i ^^ unat m) (c, r)"
        by (rule batch_is_ticks [OF ok]) (simp add: latchSafe_def un)
      note u = untimed_ticks [OF ok False le, of i r, folded b]
      have "overflowInterruptEnabled (fst (addCounterTicks i m (c, r)))"
        using s True by (simp add: sameSetup_def)
      then show ?thesis using u un' False True le
        unfolding unat_ticksToEvent [OF ok] unat_ticksToEvent [OF ok'] by simp
    next
      case o': False
      then have "\<not> overflowInterruptEnabled (fst (addCounterTicks i m (c, r)))"
        using s by (simp add: sameSetup_def)
      then show ?thesis using silent_ticks [OF un(1) o'] un' False o'
        unfolding unat_ticksToEvent [OF ok] unat_ticksToEvent [OF ok'] by simp
    qed
  qed
qed simp

text \<open>The cycle, not cut off at 64 bits, at which an internally clocked counter has its event.\<close>

definition dueCycle :: "counter \<Rightarrow> nat" where
  "dueCycle c = unat (ct_startCycle c) + unat (ticksToEvent c) * unat (ct_rate c)"

definition counterQuiet :: "u64 \<Rightarrow> counter_bank \<Rightarrow> counter \<Rightarrow> bool" where
  "counterQuiet cyc b c = (clockSource c \<noteq> 3 \<and> canCount b c \<longrightarrow> unat cyc < dueCycle c)"

definition bankQuiet :: "u64 \<Rightarrow> counter_bank \<Rightarrow> bool" where
  "bankQuiet cyc b = ((hSyncRequired b \<longrightarrow> cyc < nextHSyncEdge b) \<and> (vSyncRequired b \<longrightarrow> cyc < nextVSyncEdge b)
     \<and> (\<forall>c\<in>set (cb_counters b). counterQuiet cyc b c))"

lemma ticksToEvent_start [simp]: "ticksToEvent (c\<lparr>ct_startCycle := s\<rparr>) = ticksToEvent c"
  by (simp add: ticksToEvent_def Let_def targetInterruptEnabled_def overflowInterruptEnabled_def zeroReturn_def)

lemma sync_quiet:
  assumes at: "counter_at now c" and le: "now \<le> e" "e \<le> cyc" and q: "counterQuiet cyc b c"
  shows "snd (synchronizeInternalCounter b i e (c, r)) = r
     \<and> counterQuiet cyc b (fst (synchronizeInternalCounter b i e (c, r)))"
proof -
  let ?res = "synchronizeInternalCounter b i e (c, r)"
  have s: "sameSetup (fst ?res) c" by (rule sync_at(2) [OF at le(1)])
  show ?thesis
  proof (cases "clockSource c = 3 \<or> \<not> canCount b c")
    case True
    moreover have "canCount b (c\<lparr>ct_startCycle := x\<rparr>) = canCount b c" for x
      by (rule sameSetup_canCount) simp
    moreover have "clockSource (fst ?res) = clockSource c" "canCount b (fst ?res) = canCount b c"
      using s sameSetup_canCount [OF s] by (simp_all add: sameSetup_def)
    ultimately show ?thesis
      by (auto simp: counterQuiet_def) (auto simp: synchronizeInternalCounter_def Let_def)
  next
    case False
    then have r: "ct_rate c \<in> {2, 32, 512}" and st: "ct_startCycle c \<le> now" and ok: "counter_ok c"
      using at by (simp_all add: counter_at_def counter_fit_def)
    have sc: "ct_startCycle c \<le> e" using st le(1) by simp
    let ?R = "unat (ct_rate c)" and ?S = "unat (ct_startCycle c)" and ?E = "unat e"
    let ?t = "(e - ct_startCycle c) div ucast (ct_rate c)"
    let ?c = "c\<lparr>ct_startCycle := sat_add64 (ct_startCycle c) (sat_mul64 ?t (ucast (ct_rate c)))\<rparr>"
    have R: "0 < ?R" using r by auto
    have t: "unat ?t = (?E - ?S) div ?R"
      using sc by (simp add: unat_div_distrib unat_sub_le unat_widen)
    have S': "unat (ct_startCycle ?c) = ?S + unat ?t * ?R"
      unfolding t using unat_synced_start [OF sc, of "ct_rate c"] r by auto
    have res: "?res = (if ?t \<noteq> 0 then addCounterTicks i ?t (?c, r) else (?c, r))"
      using False sc sameSetup_canCount [of ?c c b]
      by (simp add: synchronizeInternalCounter_def Let_def not_less [symmetric])
    have "?E < ?S + unat (ticksToEvent c) * ?R"
      using q False le(2) by (simp add: counterQuiet_def dueCycle_def word_le_nat_alt)
    then have "?E - ?S < unat (ticksToEvent c) * ?R"
      using sc R by (simp add: word_le_nat_alt)
    then have tk: "unat ?t < unat (ticksToEvent c)" unfolding t by (simp add: less_mult_imp_div_less)
    have tk': "unat ?t < unat (ticksToEvent ?c)" using tk by simp
    have qt: "snd ?res = r \<and> unat (ticksToEvent c) - unat ?t \<le> unat (ticksToEvent (fst ?res))
        \<and> ct_startCycle (fst ?res) = ct_startCycle ?c"
      using quiet_ticks [of ?c ?t i r] tk' ok unfolding res by simp
    have "(unat (ticksToEvent c) - unat ?t) * ?R \<le> unat (ticksToEvent (fst ?res)) * ?R"
      using qt by (intro mult_le_mono1) simp
    moreover have "(unat (ticksToEvent c) - unat ?t) * ?R + unat ?t * ?R = unat (ticksToEvent c) * ?R"
      using tk by (simp flip: add_mult_distrib)
    moreover have d: "dueCycle (fst ?res) = ?S + unat ?t * ?R + unat (ticksToEvent (fst ?res)) * ?R"
      using qt S' s by (simp add: dueCycle_def sameSetup_def)
    ultimately have "dueCycle c \<le> dueCycle (fst ?res)"
      unfolding d dueCycle_def by linarith
    moreover have "unat cyc < dueCycle c" using q False by (simp add: counterQuiet_def)
    ultimately show ?thesis using qt by (simp add: counterQuiet_def)
  qed
qed

lemma required_setup:
  assumes "list_all2 (\<lambda>c d. sameSetup d c) (cb_counters b) cs"
  shows "hSyncRequired (b\<lparr>cb_counters := cs\<rparr>) = hSyncRequired b"
    "vSyncRequired (b\<lparr>cb_counters := cs\<rparr>) = vSyncRequired b"
proof -
  have "list_ex P cs = list_ex P xs" if "list_all2 (\<lambda>c d. P d = P c) xs cs" for P and xs :: "counter list"
    using that by (induction rule: list_all2_induct) auto
  moreover have "list_all2 (\<lambda>c d. P d = P c) (cb_counters b) cs"
    if "\<And>c d. sameSetup d c \<Longrightarrow> P d = P c" for P :: "counter \<Rightarrow> bool"
    using assms that by (rule list_all2_mono)
  ultimately have eq: "list_ex P cs = list_ex P (cb_counters b)"
    if "\<And>c d. sameSetup d c \<Longrightarrow> P d = P c" for P
    using that by blast
  show "hSyncRequired (b\<lparr>cb_counters := cs\<rparr>) = hSyncRequired b"
    unfolding hSyncRequired_def by (simp, rule eq) (simp add: sameSetup_def)
  show "vSyncRequired (b\<lparr>cb_counters := cs\<rparr>) = vSyncRequired b"
    unfolding vSyncRequired_def by (simp, rule eq) (simp add: sameSetup_def)
qed

lemma canCount_upd [simp]: "canCount (b\<lparr>cb_counters := cs\<rparr>) = canCount b"
  by (rule canCount_signals) (simp add: signalsOf_def)

lemma synchronize_quiet:
  assumes at: "bank_at now b" and le: "now \<le> e" "e \<le> cyc" and q: "bankQuiet cyc b"
  shows "\<exists>cs. synchronizeInternalCounters e (b, r) = (b\<lparr>cb_counters := cs\<rparr>, r)
     \<and> bankQuiet cyc (b\<lparr>cb_counters := cs\<rparr>)"
proof -
  let ?Q = "\<lambda>c d. sameSetup d c \<and> counterQuiet cyc b d"
  have step: "?Q (cb_counters b ! i) (fst (synchronizeInternalCounter b i e (cb_counters b ! i, r)))
      \<and> snd (synchronizeInternalCounter b i e (cb_counters b ! i, r)) = r"
    if "i < length (cb_counters b)" for i r
  proof -
    have "counter_at now (cb_counters b ! i)" "counterQuiet cyc b (cb_counters b ! i)"
      using at q that by (simp_all add: bank_at_def bankQuiet_def)
    then show ?thesis using sync_quiet [OF _ le] sync_at(2) [OF _ le(1)] by blast
  qed
  from forCounters_quiet [OF sync_reads, of b ?Q e r] step obtain cs where
    cs: "synchronizeInternalCounters e (b, r) = (b\<lparr>cb_counters := cs\<rparr>, r)"
      "list_all2 ?Q (cb_counters b) cs" unfolding synchronizeInternalCounters_def by blast
  have rel: "list_all2 (\<lambda>c d. sameSetup d c) (cb_counters b) cs"
    using cs(2) by (rule list_all2_mono) simp
  have "\<forall>d\<in>set cs. counterQuiet cyc b d" using list_all2_right [OF cs(2)] by blast
  then have "bankQuiet cyc (b\<lparr>cb_counters := cs\<rparr>)"
    using q required_setup [OF rel] by (simp add: bankQuiet_def counterQuiet_def)
  with cs(1) show ?thesis by blast
qed

lemma gateEdge_other: "\<not> (gateEnabled c \<and> gateUsesVBlank c = vb) \<Longrightarrow> gateEdge vb ri cycle c = c"
  by (auto simp: gateEdge_def)

lemma gate_idle:
  "\<not> vSyncRequired b \<Longrightarrow> processGateEdge True ri cycle b = b"
  "\<not> hSyncRequired b \<Longrightarrow> processGateEdge False ri cycle b = b"
  by (simp_all add: processGateEdge_def vSyncRequired_def hSyncRequired_def list_ex_iff map_idI gateEdge_other)

lemma required_signals [simp]:
  "hSyncRequired (b\<lparr>cb_hSync := x\<rparr>) = hSyncRequired b" "vSyncRequired (b\<lparr>cb_hSync := x\<rparr>) = vSyncRequired b"
  "hSyncRequired (b\<lparr>cb_vSync := y\<rparr>) = hSyncRequired b" "vSyncRequired (b\<lparr>cb_vSync := y\<rparr>) = vSyncRequired b"
  by (simp_all add: hSyncRequired_def vSyncRequired_def)

text \<open>A counter that is not gated by a signal does not see that signal change phase.\<close>

lemma canCount_vSync: "\<not> (gateEnabled c \<and> gateUsesVBlank c) \<Longrightarrow>
    canCount (b\<lparr>cb_vSync := y\<rparr>) c = canCount b c"
  by (auto simp: canCount_def)

lemma canCount_hSync: "\<not> (gateEnabled c \<and> \<not> gateUsesVBlank c) \<Longrightarrow>
    canCount (b\<lparr>cb_hSync := x\<rparr>) c = canCount b c"
  by (auto simp: canCount_def)

lemma canCount_phase: "sg_phase x = sg_phase (cb_hSync b) \<Longrightarrow> canCount (b\<lparr>cb_hSync := x\<rparr>) = canCount b"
  by (simp add: canCount_def fun_eq_iff)

lemma vSync_quiet:
  assumes nr: "\<not> vSyncRequired b" and q: "bankQuiet cyc b"
  shows "bankQuiet cyc (fst (processVSyncEdge e (b, r)))
     \<and> ca_newlyRaisedInterruptMask (snd (processVSyncEdge e (b, r))) = ca_newlyRaisedInterruptMask r"
proof -
  have "\<not> (gateEnabled c \<and> gateUsesVBlank c)" if "c \<in> set (cb_counters b)" for c
    using nr that by (auto simp: vSyncRequired_def list_ex_iff)
  then have can: "canCount (b\<lparr>cb_vSync := y, cb_hSync := x\<rparr>) c = canCount b c"
    if "c \<in> set (cb_counters b)" "sg_phase x = sg_phase (cb_hSync b)" for c x y
    using that by (simp add: canCount_vSync canCount_phase)
  have h: "hSyncRequired b \<longrightarrow> cyc < nextHSyncEdge b" using q by (simp add: bankQuiet_def)
  have edge: "cyc < sat_add64 (sg_startCycle (cb_hSync b)) (sat_add64 (sg_deltaCycles (cb_hSync b)) z)"
    if "hSyncRequired b" for z
    using h that sat_add_mono [OF sat_add64_ge] unfolding nextHSyncEdge_def by (blast intro: less_le_trans)
  have "bankQuiet cyc (b\<lparr>cb_vSync := y, cb_hSync := (cb_hSync b)\<lparr>sg_deltaCycles := sat_add64 (sg_deltaCycles (cb_hSync b)) z\<rparr>\<rparr>)"
    and "bankQuiet cyc (b\<lparr>cb_vSync := y\<rparr>)" for y z
    using q nr edge [of z] can [of _ "(cb_hSync b)\<lparr>sg_deltaCycles := sat_add64 (sg_deltaCycles (cb_hSync b)) z\<rparr>"]
      can [of _ "cb_hSync b"] h
    by (auto simp: bankQuiet_def counterQuiet_def nextHSyncEdge_def)
  then show ?thesis using gate_idle(1) [OF nr] by (simp add: processVSyncEdge_def)
qed

lemma hBlankTick_quiet:
  assumes nr: "\<not> hSyncRequired b" and c: "c \<in> set (cb_counters b)"
  shows "snd (hBlankTick b i (c, r)) = r"
    and "clockSource c \<noteq> 3 \<Longrightarrow> fst (hBlankTick b i (c, r)) = c"
proof -
  have "\<not> targetInterruptEnabled c \<and> \<not> overflowInterruptEnabled c" if "clockSource c = 3" "canCount b c"
    using nr c that by (auto simp: hSyncRequired_def list_ex_iff canCount_def split: if_splits)
  then show "snd (hBlankTick b i (c, r)) = r" using silent_ticks by (auto simp: hBlankTick_def)
  show "clockSource c \<noteq> 3 \<Longrightarrow> fst (hBlankTick b i (c, r)) = c" by (simp add: hBlankTick_def)
qed

lemma hSync_quiet:
  assumes nr: "\<not> hSyncRequired b" and q: "bankQuiet cyc b"
  shows "bankQuiet cyc (fst (processHSyncEdge e (b, r)))
     \<and> ca_newlyRaisedInterruptMask (snd (processHSyncEdge e (b, r))) = ca_newlyRaisedInterruptMask r"
proof -
  let ?Q = "\<lambda>c d. sameSetup d c \<and> (clockSource c \<noteq> 3 \<longrightarrow> d = c)"
  have "?Q (cb_counters b ! i) (fst (hBlankTick b i (cb_counters b ! i, r)))
      \<and> snd (hBlankTick b i (cb_counters b ! i, r)) = r"
    if "i < length (cb_counters b)" for i r
    using hBlankTick_quiet [OF nr, of "cb_counters b ! i" i r] hBlankTick_setup that by auto
  from forCounters_quiet [OF hBlank_reads, of b ?Q r] this obtain cs where
    cs: "forCounters hBlankTick (b, r) = (b\<lparr>cb_counters := cs\<rparr>, r)" "list_all2 ?Q (cb_counters b) cs"
    by blast
  have rel: "list_all2 (\<lambda>c d. sameSetup d c) (cb_counters b) cs"
    using cs(2) by (rule list_all2_mono) simp
  have cases: "counterQuiet cyc b d" if "d \<in> set cs" for d
  proof -
    from list_all2_right [OF cs(2) that] obtain c where "c \<in> set (cb_counters b)" "?Q c d" by blast
    then show ?thesis using q by (cases "clockSource c = 3") (auto simp: bankQuiet_def counterQuiet_def sameSetup_def)
  qed
  have other: "\<not> (gateEnabled c \<and> \<not> gateUsesVBlank c)" if "c \<in> set xs" "\<not> hSyncRequired (b\<lparr>cb_counters := xs\<rparr>)" for c xs
    using that by (auto simp: hSyncRequired_def list_ex_iff)
  have bq: "bankQuiet cyc ((b\<lparr>cb_counters := xs\<rparr>)\<lparr>cb_hSync := x\<rparr>)"
    if "\<forall>c\<in>set xs. counterQuiet cyc b c" "\<not> hSyncRequired (b\<lparr>cb_counters := xs\<rparr>)"
      "vSyncRequired (b\<lparr>cb_counters := xs\<rparr>) = vSyncRequired b" for xs x
  proof -
    have can: "canCount ((b\<lparr>cb_counters := xs\<rparr>)\<lparr>cb_hSync := x\<rparr>) c = canCount b c" if "c \<in> set xs" for c
      using canCount_hSync [OF other [OF that \<open>\<not> hSyncRequired (b\<lparr>cb_counters := xs\<rparr>)\<close>],
          of x "b\<lparr>cb_counters := xs\<rparr>"] by simp
    have "nextVSyncEdge ((b\<lparr>cb_counters := xs\<rparr>)\<lparr>cb_hSync := x\<rparr>) = nextVSyncEdge b"
      by (simp add: nextVSyncEdge_def)
    moreover have "vSyncRequired b \<longrightarrow> cyc < nextVSyncEdge b" using q by (simp add: bankQuiet_def)
    moreover have "\<not> hSyncRequired ((b\<lparr>cb_counters := xs\<rparr>)\<lparr>cb_hSync := x\<rparr>)"
      "vSyncRequired ((b\<lparr>cb_counters := xs\<rparr>)\<lparr>cb_hSync := x\<rparr>) = vSyncRequired b"
      by (simp_all only: required_signals that not_False_eq_True)
    ultimately show ?thesis using that(1) can unfolding bankQuiet_def counterQuiet_def by simp
  qed
  have nr': "\<not> hSyncRequired (b\<lparr>cb_counters := cs\<rparr>)" using nr required_setup [OF rel] by simp
  show ?thesis
  proof (cases "sg_phase (cb_hSync b)")
    case PhRender
    have "bankQuiet cyc ((b\<lparr>cb_counters := cs\<rparr>)\<lparr>cb_hSync := x\<rparr>)" for x
      using cases nr' required_setup(2) [OF rel] by (intro bq) simp_all
    then show ?thesis using PhRender cs(1) gate_idle(2) [OF nr'] by (simp add: processHSyncEdge_def)
  next
    case PhBlank
    have "bankQuiet cyc ((b\<lparr>cb_counters := cb_counters b\<rparr>)\<lparr>cb_hSync := x\<rparr>)" for x
      using q nr by (intro bq) (simp_all add: bankQuiet_def)
    then show ?thesis using PhBlank gate_idle(2) [OF nr] by (simp add: processHSyncEdge_def)
  qed
qed

lemma edge_quiet:
  assumes at: "bank_at now b" and le: "nextEdge b \<le> cyc" and q: "bankQuiet cyc b"
  shows "bankQuiet cyc (fst (processEdge (b, r)))
     \<and> ca_newlyRaisedInterruptMask (snd (processEdge (b, r))) = ca_newlyRaisedInterruptMask r"
proof -
  have now: "now \<le> nextEdge b" using at by (simp add: bank_at_def nextEdge_def)
  from synchronize_quiet [OF at now le q, of r] obtain cs where
    s: "synchronizeInternalCounters (nextEdge b) (b, r) = (b\<lparr>cb_counters := cs\<rparr>, r)"
      "bankQuiet cyc (b\<lparr>cb_counters := cs\<rparr>)" by blast
  have e: "min (nextVSyncEdge b) (nextHSyncEdge b) = nextEdge b" by (simp add: nextEdge_def)
  show ?thesis
  proof (cases "nextVSyncEdge b \<le> nextHSyncEdge b")
    case True
    then have "\<not> vSyncRequired (b\<lparr>cb_counters := cs\<rparr>)"
      using s(2) le by (auto simp: bankQuiet_def nextEdge_def)
    from vSync_quiet [OF this s(2)] show ?thesis using True by (simp add: processEdge_def Let_def e s(1))
  next
    case False
    then have "\<not> hSyncRequired (b\<lparr>cb_counters := cs\<rparr>)"
      using s(2) le by (auto simp: bankQuiet_def nextEdge_def)
    from hSync_quiet [OF this s(2)] show ?thesis using False by (simp add: processEdge_def Let_def e s(1))
  qed
qed

lemma fold_earlier:
  assumes "\<And>d. fold (\<lambda>c. earlierEvent (f c)) cs init = Some d \<Longrightarrow> x < d"
  shows "(\<forall>d. init = Some d \<longrightarrow> x < d) \<and> (\<forall>c\<in>set cs. \<forall>d. f c = Some d \<longrightarrow> x < (d :: u64))"
  using assms
proof (induction cs arbitrary: init)
  case (Cons c cs)
  have "(\<forall>d. earlierEvent (f c) init = Some d \<longrightarrow> x < d) \<and> (\<forall>c\<in>set cs. \<forall>d. f c = Some d \<longrightarrow> x < d)"
    using Cons.prems by (intro Cons.IH) simp
  then show ?case by (auto simp: earlierEvent_def split: option.splits if_splits)
qed simp

lemma scan_required:
  assumes "\<And>d. nextScanEventCycle b = Some d \<Longrightarrow> x < d"
  shows "(hSyncRequired b \<longrightarrow> x < nextHSyncEdge b) \<and> (vSyncRequired b \<longrightarrow> x < nextVSyncEdge b)"
  using assms by (cases "hSyncRequired b"; cases "vSyncRequired b") (simp_all add: nextScanEventCycle_def)

lemma announced_quiet:
  assumes at: "bank_at (cb_currentCycle b) b" and le: "cb_currentCycle b \<le> cyc"
    and before: "\<And>d. nextEventCycle b = Some d \<Longrightarrow> cyc < d"
  shows "bankQuiet cyc b"
proof -
  from fold_earlier [of "nextInternalCounterEvent b" "cb_counters b" "nextScanEventCycle b" cyc] before
  have sc: "\<And>d. nextScanEventCycle b = Some d \<Longrightarrow> cyc < d"
    and ev: "\<And>c d. c \<in> set (cb_counters b) \<Longrightarrow> nextInternalCounterEvent b c = Some d \<Longrightarrow> cyc < d"
    by (auto simp: nextEventCycle_def)
  have "counterQuiet cyc b c" if c: "c \<in> set (cb_counters b)" for c
  proof -
    have "unat cyc < dueCycle c" if src: "clockSource c \<noteq> 3" "canCount b c"
    proof -
      have at': "counter_at (cb_currentCycle b) c" using at c by (simp add: bank_at_def)
      then have ok: "counter_ok c" and r: "ct_rate c \<in> {2, 32, 512}"
        and near: "unat (cb_currentCycle b) < unat (ct_startCycle c) + unat (ct_rate c)"
        using src by (simp_all add: counter_at_def counter_fit_def)
      let ?D = "unat (ticksToEvent c)" and ?R = "unat (ct_rate c)" and ?S = "unat (ct_startCycle c)"
      let ?dl = "sat_add64 (ct_startCycle c) (sat_mul64 (ticksToEvent c) (ucast (ct_rate c)))"
      have dl: "unat ?dl = min (dueCycle c) (2 ^ 64 - 1)"
        by (simp add: unat_sat_add64 unat_sat_mul64 unat_widen dueCycle_def)
      have n: "unat (ct_count c) \<le> 65535" using ok by (simp add: counter_ok_def count_le)
      have D1: "1 \<le> ?D" using n unfolding unat_ticksToEvent [OF ok] by (auto simp: Let_def)
      have R2: "2 \<le> ?R" using r by auto
      show ?thesis
      proof (cases "ticksToEvent c = u64_max
          \<or> \<not> (targetInterruptEnabled c \<or> zeroReturn c) \<and> \<not> overflowInterruptEnabled c")
        case True
        then have "?D = 2 ^ 64 - 1"
        proof
          assume "\<not> (targetInterruptEnabled c \<or> zeroReturn c) \<and> \<not> overflowInterruptEnabled c"
          then show ?thesis unfolding unat_ticksToEvent [OF ok] by (simp add: timed_def)
        qed simp
        then have "2 ^ 64 - 1 < dueCycle c" using R2 by (simp add: dueCycle_def)
        then show ?thesis using unat_u64_le [of cyc] by linarith
      next
        case False
        then have ni: "nextInternalCounterEvent b c
            = (if ?dl > cb_currentCycle b then Some ?dl else Some (sat_add64 (cb_currentCycle b) 1))"
          using src by (simp add: nextInternalCounterEvent_def Let_def)
        show ?thesis
        proof (cases "?dl > cb_currentCycle b")
          case True
          then have "cyc < ?dl" using ev [OF c] ni by simp
          then show ?thesis using dl by (simp add: word_less_nat_alt)
        next
          case late: False
          have "1 * ?R \<le> ?D * ?R" using D1 by (rule mult_le_mono1)
          then have "unat (cb_currentCycle b) < dueCycle c" using near unfolding dueCycle_def by linarith
          then have "unat (cb_currentCycle b) = 2 ^ 64 - 1"
            using late dl unat_u64_le [of "cb_currentCycle b"] by (simp add: word_less_nat_alt)
          moreover have "cyc < sat_add64 (cb_currentCycle b) 1" using ev [OF c] ni late by simp
          ultimately show ?thesis using le by (simp add: word_less_nat_alt word_le_nat_alt unat_sat_add64)
        qed
      qed
    qed
    then show ?thesis by (simp add: counterQuiet_def)
  qed
  then show ?thesis using scan_required [OF sc] by (simp add: bankQuiet_def)
qed

text \<open>
  C12. No interrupt is missed or early: catching a bank up to any cycle before the one
  \<open>nextEventCycle\<close> announces (or to any cycle at all, when it announces none) raises no
  timer interrupt, however many video edges and register polls lie in between; and the bank
  is then as well synchronised as before, so the statement applies again.
\<close>

theorem counter_no_missed_interrupt:
  assumes at: "bank_at (cb_currentCycle b) b" and le: "cb_currentCycle b \<le> c"
    and before: "\<And>d. nextEventCycle b = Some d \<Longrightarrow> c < d"
    and ad: "advanceTo c b = Some (b', r)"
  shows "ca_newlyRaisedInterruptMask r = 0 \<and> bank_at (cb_currentCycle b') b' \<and> cb_currentCycle b' = c"
proof -
  let ?I = "\<lambda>b' r. bank_ok b' \<and> (\<exists>now\<le>c. bank_at now b') \<and> bankQuiet c b'
      \<and> ca_newlyRaisedInterruptMask r = 0"
  have step: "?I (fst (processEdge (b, r))) (snd (processEdge (b, r)))
      \<and> edgeDistance (fst (processEdge (b, r))) < edgeDistance b"
    if "?I b r" "nextEdge b \<le> c" "nextEdge b \<noteq> u64_max" for b r
    using that bank_ok_edge [of b r] bank_at_edge [of _ b r] edge_quiet [of _ b c r] by metis
  have "?I b noCounterAdvance"
    using at le announced_quiet [OF at le before] by (auto simp: bank_at_def noCounterAdvance_def)
  from advanceLoop_ends [of ?I c b noCounterAdvance, OF step this] obtain b1 r1 now where
    l: "advanceLoop c (b, noCounterAdvance) = Some (b1, r1)" "now \<le> c" "bank_at now b1" "bankQuiet c b1"
      "ca_newlyRaisedInterruptMask r1 = 0" by blast
  from synchronize_quiet [OF l(3, 2) order_refl l(4), of r1] obtain cs where
    "synchronizeInternalCounters c (b1, r1) = (b1\<lparr>cb_counters := cs\<rparr>, r1)" by blast
  then have "r = r1" using ad advance_after_loop [OF le l(1)] by simp
  then show ?thesis using l(5) advance_at [OF at le ad] by simp
qed

theorem counter_no_missed_interrupt_witness:
  "\<exists>b r. advanceTo 199 (the (fold cb_step [CbWrite 0x10000020 100 0 u32_max, CbWrite 0x10000010 0x180 0 u32_max]
      (Some cb_init))) = Some (b, r) \<and> ca_newlyRaisedInterruptMask r = 0 \<and> nextEventCycle b = Some 200"
proof -
  let ?b = "the (fold cb_step [CbWrite 0x10000020 100 0 u32_max, CbWrite 0x10000010 0x180 0 u32_max] (Some cb_init))"
  have at: "bank_at (cb_currentCycle ?b) ?b" by code_simp
  have ev: "nextEventCycle ?b = Some 200" by code_simp
  have cur: "cb_currentCycle ?b \<le> 199" by code_simp
  have "map_option (nextEventCycle \<circ> fst) (advanceTo 199 ?b) = Some (Some 200)" by code_simp
  then obtain b r where ad: "advanceTo 199 ?b = Some (b, r)" "nextEventCycle b = Some 200" by auto
  have "ca_newlyRaisedInterruptMask r = 0"
    using counter_no_missed_interrupt [OF at cur _ ad(1)] ev by simp
  with ad show ?thesis by blast
qed

end
