(* ===== verification/EeCounterRegisters.thy ===== *)
theory EeCounterRegisters
  imports EeCounterProps
begin

text \<open>
  The register file of the counter bank and its snapshots: a register reads back what was
  written, status bits are cleared by writing ones, and a restored bank is the saved one.
\<close>

section \<open>Reading back a write\<close>

lemma advance_edge:
  assumes ok: "bank_ok b" and le: "cb_currentCycle b \<le> c" and ad: "advanceTo c b = Some (b', r)"
  shows "c < nextEdge b' \<or> nextEdge b' = u64_max"
proof -
  let ?I = "\<lambda>b' (r :: counter_advance). bank_ok b'"
  from advanceLoop_ends [of ?I c b noCounterAdvance] bank_ok_edge ok obtain b1 r1 where
    l: "advanceLoop c (b, noCounterAdvance) = Some (b1, r1)" "bank_ok b1"
      "c < nextEdge b1 \<or> nextEdge b1 = u64_max" by blast
  from synchronize_all [of b1 counter_fit c r1] l(2) obtain cs' r' where
    "synchronizeInternalCounters c (b1, r1) = (b1\<lparr>cb_counters := cs'\<rparr>, r')"
    by (auto simp: bank_ok_def sync_fit)
  then have "b' = (b1\<lparr>cb_counters := cs'\<rparr>)\<lparr>cb_currentCycle := c\<rparr>"
    using ad advance_after_loop [OF le l(1)] by simp
  then have "nextEdge b' = nextEdge b1"
    by (simp add: nextEdge_def nextVSyncEdge_def nextHSyncEdge_def)
  then show ?thesis using l(3) by simp
qed

text \<open>Polling again at the same cycle changes no register and raises nothing.\<close>

lemma sync_again:
  assumes at: "counter_at c x"
  shows "counterRegister (fst (synchronizeInternalCounter b i c (x, r))) reg = counterRegister x reg
     \<and> snd (synchronizeInternalCounter b i c (x, r)) = r"
proof (cases "clockSource x = 3")
  case True
  then show ?thesis by (simp add: synchronizeInternalCounter_def counterRegister_def split: counter_register.split)
next
  case False
  then have st: "ct_startCycle x \<le> c" "unat c < unat (ct_startCycle x) + unat (ct_rate x)"
    using at by (simp_all add: counter_at_def)
  then have "unat ((c - ct_startCycle x) div ucast (ct_rate x)) = 0"
    by (simp add: unat_div_distrib unat_sub_le unat_widen word_le_nat_alt)
  then have "(c - ct_startCycle x) div ucast (ct_rate x) = 0" by (simp only: unat_eq_0)
  then show ?thesis using False st(1)
    by (simp add: synchronizeInternalCounter_def not_less [symmetric] counterRegister_def
        split: counter_register.split)
qed

lemma advance_again:
  assumes at: "bank_at c b" and cur: "cb_currentCycle b = c"
    and e: "c < nextEdge b \<or> nextEdge b = u64_max"
  shows "\<exists>b'. advanceTo c b = Some (b', noCounterAdvance)
     \<and> (\<forall>k<kEeCounterCount. \<forall>reg. counterRegister (cb_counters b' ! k) reg = counterRegister (cb_counters b ! k) reg)"
proof -
  have loop: "advanceLoop c (b, noCounterAdvance) = Some (b, noCounterAdvance)"
    using e by (subst advanceLoop.simps) simp
  let ?Q = "\<lambda>x y. \<forall>reg. counterRegister y reg = counterRegister x reg"
  have "?Q (cb_counters b ! i) (fst (synchronizeInternalCounter b i c (cb_counters b ! i, r)))
      \<and> snd (synchronizeInternalCounter b i c (cb_counters b ! i, r)) = r"
    if "i < length (cb_counters b)" for i r
    using at that sync_again [of c "cb_counters b ! i" b i r] by (auto simp: bank_at_def)
  from forCounters_quiet [OF sync_reads, of b ?Q c noCounterAdvance] this obtain cs where
    cs: "synchronizeInternalCounters c (b, noCounterAdvance) = (b\<lparr>cb_counters := cs\<rparr>, noCounterAdvance)"
      "list_all2 ?Q (cb_counters b) cs" unfolding synchronizeInternalCounters_def by blast
  have len: "length (cb_counters b) = kEeCounterCount" using at by (simp add: bank_at_def bank_ok_def)
  have "\<forall>k<kEeCounterCount. ?Q (cb_counters b ! k) (cs ! k)"
    using cs(2) len by (simp add: list_all2_conv_all_nth)
  then show ?thesis using advance_after_loop [OF _ loop] cs(1) cur by simp
qed

lemma put_counter_at:
  assumes "bank_at c b" "k < kEeCounterCount" "counter_at c x"
  shows "bank_at c (b\<lparr>cb_counters := (cb_counters b)[k := x]\<rparr>)"
  using assms by (auto simp: bank_at_def bank_ok_def counter_at_def
      dest!: subsetD [OF set_update_subset_insert])

definition readBack :: "counter_register \<Rightarrow> u32 \<Rightarrow> u32 \<Rightarrow> u32" where
  "readBack reg old v =
     (if reg = RegMode then (old AND 0x0c00 AND NOT v) OR (v AND 0x03ff) else v AND 0xffff)"

lemma low16: "ucast (ucast v :: u16) = (v AND 0xffff :: u32)"
proof -
  have "(0xffff :: u32) = mask 16" by (simp add: mask_eq_exp_minus_1)
  then have "v AND 0xffff = take_bit 16 v" by (simp only: take_bit_eq_mask)
  then show ?thesis by (auto simp: bit_eq_iff bit_simps)
qed

lemma full_mask [simp]: "(ucast u32_max :: u16) = - 1"
  by (auto simp: bit_eq_iff bit_simps)

lemma masked_write:
  fixes m a d :: u16 and v :: u32
  shows "(ucast ((m AND a AND NOT (ucast v AND a)) OR (ucast v AND d)) :: u32)
    = (ucast m AND ucast a AND NOT v) OR (v AND ucast d)"
  by (auto simp: bit_eq_iff bit_simps dest: bit_imp_le_length)

lemma written_mode:
  "(ucast (writtenMode m (- 1) (ucast (v :: u32))) :: u32) = ((ucast m) AND 0x0c00 AND NOT v) OR (v AND 0x03ff)"
proof -
  have "writtenMode m (- 1) (ucast v) =
      (m AND 0x0c00 AND NOT (ucast v AND 0x0c00)) OR (ucast v AND 0x03ff)"
    by (simp add: writtenMode_def Let_def mode_consts and.assoc)
  then show ?thesis using masked_write [of m "0x0c00" v "0x03ff"] by simp
qed

lemma low_count:
  assumes "(n :: u32) \<le> 0xffff"
  shows "n AND NOT (ucast (- 1 :: u16)) = 0"
proof -
  have n: "bit n k \<Longrightarrow> k < 16" for k
    using assms unfolding u32_le_ffff by (metis bit_take_bit_iff)
  then show ?thesis by (auto simp: bit_eq_iff bit_simps)
qed

lemma written_register:
  assumes "counter_ok x"
  shows "counterRegister (writeCounter t reg (- 1) (ucast (v :: u32)) c x) reg
     = readBack reg (counterRegister x reg) v"
proof (cases reg)
  case RegCount
  have "ct_count x AND NOT (ucast (- 1 :: u16)) = 0"
    using assms low_count [of "ct_count x"] by (simp add: counter_ok_def)
  then show ?thesis using RegCount
    by (simp add: counterRegister_def writeCounter_def Let_def readBack_def low16 and.assoc)
qed (simp_all add: counterRegister_def writeCounter_def Let_def readBack_def low16 written_mode)

text \<open>
  A full-width write to a counter register, read back at the same cycle, gives: for
  count, target and hold the low half of the value; for mode the written control bits and
  the status bits that were set and not written as one. Nothing is raised by the read, and
  no other register of the bank changes.
\<close>

theorem counter_read_after_write:
  assumes at: "bank_at (cb_currentCycle b) b" and le: "cb_currentCycle b \<le> c"
    and dec: "decodeRegister a = Some (k, reg)"
    and before: "readRegister a c b = Some (b0, Some (old, r0))"
    and wr: "writeRegister a v c u32_max b = Some (b1, Some r1)"
  shows "\<exists>b2. readRegister a c b1 = Some (b2, Some (readBack reg old v, noCounterAdvance))
     \<and> (\<forall>j<kEeCounterCount. \<forall>reg'. j \<noteq> k \<longrightarrow>
          counterRegister (cb_counters b2 ! j) reg' = counterRegister (cb_counters b0 ! j) reg')"
proof -
  have ok: "bank_ok b" using at by (simp add: bank_at_def)
  from advance_ok [OF ok, of c] obtain bs rs where ad: "advanceTo c b = Some (bs, rs)" by blast
  note bs = advance_at [OF at le ad] and e = advance_edge [OF ok le ad]
  have k: "k < kEeCounterCount" by (rule decode_counter_less [OF dec])
  let ?x = "cb_counters bs ! k"
  let ?y = "writeCounter (cb_videoTiming bs) reg (- 1) (ucast v) c ?x"
  have len: "length (cb_counters bs) = kEeCounterCount" using bs by (simp add: bank_at_def bank_ok_def)
  have x: "counter_at c ?x" using bs k len by (simp add: bank_at_def)
  have b0: "b0 = bs" "old = counterRegister ?x reg" using before dec ad by (auto simp: readRegister_def)
  have b1: "b1 = bs\<lparr>cb_counters := (cb_counters bs)[k := ?y]\<rparr>"
    using wr dec ad by (simp add: writeRegister_def Let_def)
  have at1: "bank_at c b1" unfolding b1 using bs k writeCounter_at [OF x] by (intro put_counter_at) simp_all
  have e1: "c < nextEdge b1 \<or> nextEdge b1 = u64_max" and cur: "cb_currentCycle b1 = c"
    using e bs by (simp_all add: b1 nextEdge_def)
  from advance_again [OF at1 cur e1] obtain b2 where
    b2: "advanceTo c b1 = Some (b2, noCounterAdvance)"
      "\<forall>k<kEeCounterCount. \<forall>reg. counterRegister (cb_counters b2 ! k) reg = counterRegister (cb_counters b1 ! k) reg"
    by blast
  have "counterRegister (cb_counters b2 ! k) reg = readBack reg old v"
    using b2(2) k len x b0 written_register [of ?x "cb_videoTiming bs" reg v c]
    by (simp add: b1 counter_at_def counter_fit_def)
  then show ?thesis using dec b2 by (simp add: readRegister_def b0 b1)
qed

theorem counter_read_after_write_witness:
  "\<exists>b1 b2 r. writeRegister 0x10000810 0xC83 500 u32_max (cb_reset 0 cb_init) = Some (b1, Some r)
     \<and> readRegister 0x10000810 500 b1 = Some (b2, Some (0x83, noCounterAdvance))"
proof -
  let ?b = "cb_reset 0 cb_init"
  have at: "bank_at (cb_currentCycle ?b) ?b" by code_simp
  have le: "cb_currentCycle ?b \<le> 500" by code_simp
  have dec: "decodeRegister 0x10000810 = Some (1, RegMode)" by code_simp
  have "map_option (map_option fst \<circ> snd) (readRegister 0x10000810 500 ?b) = Some (Some 0)" by code_simp
  then obtain b0 r0 where rd: "readRegister 0x10000810 500 ?b = Some (b0, Some (0, r0))" by auto
  from write_ok [of ?b "0x10000810" "0xC83" 500 u32_max] obtain b1 x where
    wr: "writeRegister 0x10000810 0xC83 500 u32_max ?b = Some (b1, x)" using at by (auto simp: bank_at_def)
  obtain r1 where "x = Some r1" using wr dec by (auto simp: writeRegister_def Let_def split: option.splits)
  note rb = counter_read_after_write [OF at le dec rd wr [unfolded this]]
  have "readBack RegMode 0 0xC83 = 0x83" by code_simp
  then show ?thesis using rb wr \<open>x = Some r1\<close> by auto
qed

section \<open>Snapshots\<close>

text \<open>
  What the snapshot format can carry: a positive rate in every counter (the code stores the
  sum of two line durations, which can wrap to zero) and a line duration of 32 bits (the
  code widens it by one error term per frame and clamps it when saving).
\<close>

definition bankStorable :: "counter_bank \<Rightarrow> bool" where
  "bankStorable b = (length (cb_counters b) = kEeCounterCount \<and> timing_ok (cb_videoTiming b)
     \<and> (\<forall>c\<in>set (cb_counters b). ct_rate c \<noteq> 0) \<and> sg_deltaCycles (cb_hSync b) \<le> ucast u32_max)"

definition bankShaped :: "counter_bank_snapshot \<Rightarrow> bool" where
  "bankShaped d = (length (bs_counters d) = kEeCounterCount)"

lemma narrow_widen:
  assumes "(x :: u64) \<le> ucast u32_max"
  shows "(ucast (ucast x :: u32) :: u64) = x"
proof -
  have "unat x \<le> 4294967295" using assms by (simp add: word_le_nat_alt unat_widen)
  then have "unat (take_bit 32 x) = unat x"
    by (simp only: unsigned_take_bit_eq) (simp add: take_bit_nat_eq_self)
  then show ?thesis by (simp add: word_unat_eq_iff unat_widen unsigned_ucast_eq take_bit_nat_eq_self unsigned_take_bit_eq)
qed

lemma widened_le: "(ucast (x :: u32) :: u64) \<le> ucast u32_max"
  using unat_u32_less [of x] by (simp add: word_le_nat_alt unat_widen)

interpretation cb_store: snapshot_store cb_snapshot cb_restore bankShaped bankStorable "\<lambda>b. b"
proof unfold_locales
  fix b t assume "bankStorable b"
  then show "fst (cb_restore (cb_snapshot b) t)" "snd (cb_restore (cb_snapshot b) t) = b"
    by (auto simp: cb_restore_def cb_snapshot_def bankStorable_def timing_ok_def list_ex_iff
        min_absorb1 narrow_widen)
qed (auto simp: bankShaped_def bankStorable_def cb_snapshot_def cb_restore_def timing_ok_def
    list_ex_iff widened_le split: if_splits)

text \<open>
  Saving and restoring the counter bank is lossless: a snapshot is accepted whatever
  bank it is restored into and gives back the saved bank, saving again gives the same
  snapshot; a refused snapshot leaves the bank as it was.
\<close>

theorem counter_snapshot_roundtrip:
  assumes "bankStorable b"
  shows "cb_restore (cb_snapshot b) t = (True, b)
     \<and> cb_snapshot (snd (cb_restore (cb_snapshot b) t)) = cb_snapshot b
     \<and> (\<forall>d. \<not> fst (cb_restore d t) \<longrightarrow> snd (cb_restore d t) = t)"
  using cb_store.roundtrip [OF assms, of t] cb_store.restore_rejects [of _ t]
  by (simp add: prod_eq_iff)

theorem counter_snapshot_roundtrip_witness:
  "cb_restore (cb_snapshot cb_init) (cb_reset 77 cb_init) = (True, cb_init)"
proof -
  have "bankStorable cb_init" by code_simp
  from counter_snapshot_roundtrip [OF this, of "cb_reset 77 cb_init"] show ?thesis by simp
qed

end
