(* ===== verification/SpscQueue.thy ===== *)
theory SpscQueue
  imports Prelude
begin

text \<open>
  \<open>ps2xRuntime/include/runtime/ps2_spsc_queue.h\<close>: the bounded single-producer,
  single-consumer ring that carries work between the runtime's threads.

  First the member functions as a caller on one thread sees them; then the two threads as
  a step relation in which every access to a cursor and every access to a slot is a step of
  its own. The cursors are single-writer atomics published with release and read with
  acquire, so the model interleaves their accesses; \<open>size_t\<close> values stay below the vector's
  length and are natural numbers, the constructor's overflow check being written out.
\<close>

section \<open>The queue\<close>

datatype spsc_error = ZeroCapacity | CapacityTooLarge | OccupiedSlot | EmptyPublishedSlot

record 'a spsc =
  sq_slots :: "'a option list"
  sq_capacity :: nat
  sq_producer :: nat
  sq_consumer :: nat

definition sizeMax :: nat where "sizeMax = 18446744073709551615"

definition storageCapacity :: "nat \<Rightarrow> spsc_error + nat" where
  "storageCapacity capacity =
     (if capacity = 0 then Inl ZeroCapacity
      else if capacity = sizeMax then Inl CapacityTooLarge
      else Inr (capacity + 1))"

definition sq_new :: "nat \<Rightarrow> spsc_error + 'a spsc" where
  "sq_new capacity =
     (case storageCapacity capacity of
        Inl e \<Rightarrow> Inl e
      | Inr n \<Rightarrow> Inr \<lparr>sq_slots = replicate n None, sq_capacity = capacity,
                      sq_producer = 0, sq_consumer = 0\<rparr>)"

definition sq_advance :: "'a spsc \<Rightarrow> nat \<Rightarrow> nat" where
  "sq_advance q position = (if position + 1 = length (sq_slots q) then 0 else position + 1)"

definition sq_empty :: "'a spsc \<Rightarrow> bool" where
  "sq_empty q = (sq_consumer q = sq_producer q)"

definition sq_full :: "'a spsc \<Rightarrow> bool" where
  "sq_full q = (sq_advance q (sq_producer q) = sq_consumer q)"

definition sq_size :: "'a spsc \<Rightarrow> nat" where
  "sq_size q =
     (if sq_producer q \<ge> sq_consumer q then sq_producer q - sq_consumer q
      else length (sq_slots q) - sq_consumer q + sq_producer q)"

definition tryEmplace :: "'a \<Rightarrow> 'a spsc \<Rightarrow> spsc_error + ('a spsc \<times> bool)" where
  "tryEmplace v q =
     (let producer = sq_producer q; next = sq_advance q producer
      in if next = sq_consumer q then Inr (q, False)
         else if sq_slots q ! producer \<noteq> None then Inl OccupiedSlot
         else Inr (q\<lparr>sq_slots := (sq_slots q)[producer := Some v], sq_producer := next\<rparr>, True))"

definition tryPop :: "'a spsc \<Rightarrow> spsc_error + ('a spsc \<times> 'a option)" where
  "tryPop q =
     (let consumer = sq_consumer q
      in if consumer = sq_producer q then Inr (q, None)
         else case sq_slots q ! consumer of
           None \<Rightarrow> Inl EmptyPublishedSlot
         | Some v \<Rightarrow> Inr (q\<lparr>sq_slots := (sq_slots q)[consumer := None],
                           sq_consumer := sq_advance q consumer\<rparr>, Some v))"

section \<open>The two threads\<close>

text \<open>
  Where the producer stands in \<open>tryEmplace\<close>: before the call, with its cursor and the next
  position read, past the test for space, with the slot filled. The consumer likewise.
\<close>

datatype 'a producer_pc = PIdle | PCursor 'a nat nat | PSpace 'a nat nat | PFilled 'a nat

datatype 'a consumer_pc = CIdle | CCursor nat | CEntry nat | CTaken 'a nat

record 'a spsc_run =
  run_queue :: "'a spsc"
  run_producer :: "'a producer_pc"
  run_consumer :: "'a consumer_pc"

datatype 'a spsc_event = Internal | Pushed 'a | PushRefused | Popped 'a | PopRefused | Failed spsc_error

inductive spsc_step :: "'a spsc_run \<Rightarrow> 'a spsc_event \<Rightarrow> 'a spsc_run \<Rightarrow> bool" where
  push_call: "run_producer s = PIdle \<Longrightarrow>
    spsc_step s Internal (s\<lparr>run_producer := PCursor v (sq_producer (run_queue s))
       (sq_advance (run_queue s) (sq_producer (run_queue s)))\<rparr>)"
| push_full: "run_producer s = PCursor v p n \<Longrightarrow> n = sq_consumer (run_queue s) \<Longrightarrow>
    spsc_step s PushRefused (s\<lparr>run_producer := PIdle\<rparr>)"
| push_space: "run_producer s = PCursor v p n \<Longrightarrow> n \<noteq> sq_consumer (run_queue s) \<Longrightarrow>
    spsc_step s Internal (s\<lparr>run_producer := PSpace v p n\<rparr>)"
| push_occupied: "run_producer s = PSpace v p n \<Longrightarrow> sq_slots (run_queue s) ! p \<noteq> None \<Longrightarrow>
    spsc_step s (Failed OccupiedSlot) (s\<lparr>run_producer := PIdle\<rparr>)"
| push_fill: "run_producer s = PSpace v p n \<Longrightarrow> sq_slots (run_queue s) ! p = None \<Longrightarrow>
    spsc_step s Internal (s\<lparr>run_queue := (run_queue s)\<lparr>sq_slots := (sq_slots (run_queue s))[p := Some v]\<rparr>,
       run_producer := PFilled v n\<rparr>)"
| push_publish: "run_producer s = PFilled v n \<Longrightarrow>
    spsc_step s (Pushed v) (s\<lparr>run_queue := (run_queue s)\<lparr>sq_producer := n\<rparr>, run_producer := PIdle\<rparr>)"
| pop_call: "run_consumer s = CIdle \<Longrightarrow>
    spsc_step s Internal (s\<lparr>run_consumer := CCursor (sq_consumer (run_queue s))\<rparr>)"
| pop_empty: "run_consumer s = CCursor c \<Longrightarrow> c = sq_producer (run_queue s) \<Longrightarrow>
    spsc_step s PopRefused (s\<lparr>run_consumer := CIdle\<rparr>)"
| pop_entry: "run_consumer s = CCursor c \<Longrightarrow> c \<noteq> sq_producer (run_queue s) \<Longrightarrow>
    spsc_step s Internal (s\<lparr>run_consumer := CEntry c\<rparr>)"
| pop_hole: "run_consumer s = CEntry c \<Longrightarrow> sq_slots (run_queue s) ! c = None \<Longrightarrow>
    spsc_step s (Failed EmptyPublishedSlot) (s\<lparr>run_consumer := CIdle\<rparr>)"
| pop_take: "run_consumer s = CEntry c \<Longrightarrow> sq_slots (run_queue s) ! c = Some v \<Longrightarrow>
    spsc_step s Internal (s\<lparr>run_queue := (run_queue s)\<lparr>sq_slots := (sq_slots (run_queue s))[c := None]\<rparr>,
       run_consumer := CTaken v c\<rparr>)"
| pop_release: "run_consumer s = CTaken v c \<Longrightarrow>
    spsc_step s (Popped v) (s\<lparr>run_queue := (run_queue s)\<lparr>sq_consumer := sq_advance (run_queue s) c\<rparr>,
       run_consumer := CIdle\<rparr>)"

inductive_cases spsc_stepE: "spsc_step s e s'"

definition sq_start :: "'a spsc \<Rightarrow> 'a spsc_run" where
  "sq_start q = \<lparr>run_queue = q, run_producer = PIdle, run_consumer = CIdle\<rparr>"

section \<open>What it promises: a bounded FIFO\<close>

inductive fifo_step :: "nat \<Rightarrow> 'a list \<Rightarrow> 'a spsc_event \<Rightarrow> 'a list \<Rightarrow> bool" for cap where
  fifo_internal: "fifo_step cap q Internal q"
| fifo_push: "length q < cap \<Longrightarrow> fifo_step cap q (Pushed v) (q @ [v])"
| fifo_full: "length q = cap \<Longrightarrow> fifo_step cap q PushRefused q"
| fifo_pop: "fifo_step cap (v # q) (Popped v) q"
| fifo_empty: "fifo_step cap [] PopRefused []"

inductive_simps fifo_step_simps [simp]:
  "fifo_step cap q Internal q'" "fifo_step cap q (Pushed v) q'" "fifo_step cap q PushRefused q'"
  "fifo_step cap q (Popped v) q'" "fifo_step cap q PopRefused q'" "fifo_step cap q (Failed e) q'"

section \<open>The ring, rotated to its consumer\<close>

lemma offset_eq:
  assumes "i < n" "j < (n :: nat)"
  shows "(c + i) mod n = (c + j) mod n \<longleftrightarrow> i = j"
proof -
  have "x = y" if "(c + x) mod n = (c + y) mod n" "x \<le> y" "y < n" for x y
  proof -
    have "(c + y) mod n = (c + x) mod n" "c + x \<le> c + y" using that by simp_all
    then have "n dvd (c + y) - (c + x)" using mod_eq_dvd_iff_nat by blast
    then have "n dvd y - x" by simp
    then show ?thesis using that by (auto dest: dvd_imp_le)
  qed
  then show ?thesis using assms by (metis linorder_le_cases)
qed

lemma rotate_update:
  assumes "j < length xs"
  shows "rotate c (xs[(c + j) mod length xs := x]) = (rotate c xs)[j := x]"
proof (rule nth_equalityI)
  fix i assume "i < length (rotate c (xs[(c + j) mod length xs := x]))"
  then have i: "i < length xs" by simp
  then have "(c + j) mod length xs = (c + i) mod length xs \<longleftrightarrow> j = i" using assms by (intro offset_eq)
  moreover have "(c + j) mod length xs < length xs" using i by (intro mod_less_divisor) linarith
  ultimately show "rotate c (xs[(c + j) mod length xs := x]) ! i = (rotate c xs)[j := x] ! i"
    using i assms by (simp add: nth_rotate nth_list_update)
qed simp

lemma rotate_at: "j < length xs \<Longrightarrow> xs ! ((c + j) mod length xs) = rotate c xs ! j"
  by (simp add: nth_rotate)

lemma advance_mod: "p < length (sq_slots q) \<Longrightarrow> sq_advance q p = (p + 1) mod length (sq_slots q)"
  by (auto simp: sq_advance_def)

lemma rotate_advance: "c < length (sq_slots q) \<Longrightarrow> rotate (sq_advance q c) xs = rotate1 (rotate c xs)"
  if "length xs = length (sq_slots q)"
  using that by (metis advance_mod Suc_eq_plus1 rotate_Suc rotate_conv_mod)

text \<open>
  What the slots hold, from the consumer's position on: the published values (the first
  already moved out, when the consumer is past taking it), then free slots (the first
  already filled, when the producer is past filling it).
\<close>

definition publishedSlots :: "'a consumer_pc \<Rightarrow> 'a list \<Rightarrow> 'a option list" where
  "publishedSlots cpc q = (case cpc of CTaken v c \<Rightarrow> None # map Some (tl q) | _ \<Rightarrow> map Some q)"

definition freeSlots :: "'a producer_pc \<Rightarrow> nat \<Rightarrow> 'a option list" where
  "freeSlots ppc k = (case ppc of PFilled v m \<Rightarrow> Some v # replicate (k - 1) None | _ \<Rightarrow> replicate k None)"

fun producer_ok :: "nat \<Rightarrow> (nat \<Rightarrow> nat) \<Rightarrow> bool \<Rightarrow> 'a producer_pc \<Rightarrow> bool" where
  "producer_ok here adv room PIdle = True"
| "producer_ok here adv room (PCursor v p m) = (p = here \<and> m = adv p)"
| "producer_ok here adv room (PSpace v p m) = (p = here \<and> m = adv p \<and> room)"
| "producer_ok here adv room (PFilled v m) = (m = adv here \<and> room)"

fun consumer_ok :: "nat \<Rightarrow> 'a list \<Rightarrow> 'a consumer_pc \<Rightarrow> bool" where
  "consumer_ok here q CIdle = True"
| "consumer_ok here q (CCursor c) = (c = here)"
| "consumer_ok here q (CEntry c) = (c = here \<and> q \<noteq> [])"
| "consumer_ok here q (CTaken v c) = (c = here \<and> (\<exists>q'. q = v # q'))"

lemma producer_ok_mono: "producer_ok here adv room pc \<Longrightarrow> (room \<Longrightarrow> room') \<Longrightarrow> producer_ok here adv room' pc"
  by (cases pc) auto

lemma consumer_ok_snoc: "consumer_ok here q pc \<Longrightarrow> consumer_ok here (q @ [v]) pc"
  by (cases pc) auto

lemma sq_advance_update [simp]:
  "sq_advance (r\<lparr>sq_consumer := x\<rparr>) = sq_advance r" "sq_advance (r\<lparr>sq_producer := x\<rparr>) = sq_advance r"
  "sq_advance (r\<lparr>sq_slots := (sq_slots r)[i := y]\<rparr>) = sq_advance r"
  by (simp_all add: sq_advance_def fun_eq_iff)

definition ring_inv :: "'a list \<Rightarrow> 'a spsc_run \<Rightarrow> bool" where
  "ring_inv q s =
     (let r = run_queue s; n = length (sq_slots r)
      in n = sq_capacity r + 1 \<and> sq_consumer r < n \<and> length q < n
       \<and> sq_producer r = (sq_consumer r + length q) mod n
       \<and> rotate (sq_consumer r) (sq_slots r)
           = publishedSlots (run_consumer s) q @ freeSlots (run_producer s) (n - length q)
       \<and> producer_ok (sq_producer r) (sq_advance r) (length q < sq_capacity r) (run_producer s)
       \<and> consumer_ok (sq_consumer r) q (run_consumer s))"

lemma slots_lengths:
  "q \<noteq> [] \<Longrightarrow> length (publishedSlots cpc q) = length q"
  "(\<And>v c. cpc \<noteq> CTaken v c) \<Longrightarrow> length (publishedSlots cpc q) = length q"
  "0 < k \<Longrightarrow> length (freeSlots ppc k) = k"
  by (auto simp: publishedSlots_def freeSlots_def split: consumer_pc.split producer_pc.split)

text \<open>The tests of the code, in terms of the abstract queue.\<close>

lemma full_test:
  assumes "ring_inv q s"
  shows "sq_advance (run_queue s) (sq_producer (run_queue s)) = sq_consumer (run_queue s)
     \<longleftrightarrow> length q = sq_capacity (run_queue s)"
proof -
  let ?r = "run_queue s" and ?n = "length (sq_slots (run_queue s))"
  have i: "?n = sq_capacity ?r + 1" "sq_consumer ?r < ?n" "length q < ?n"
    "sq_producer ?r = (sq_consumer ?r + length q) mod ?n" using assms by (simp_all add: ring_inv_def Let_def)
  have "sq_producer ?r < ?n" unfolding i(4) using i(2) by (intro mod_less_divisor) linarith
  then have "sq_advance ?r (sq_producer ?r) = (sq_producer ?r + 1) mod ?n" by (rule advance_mod)
  also have "\<dots> = (sq_consumer ?r + (length q + 1)) mod ?n"
    unfolding i(4) by (simp only: mod_add_left_eq add.assoc)
  finally have "sq_advance ?r (sq_producer ?r) = (sq_consumer ?r + (length q + 1)) mod ?n" .
  moreover have "sq_consumer ?r = (sq_consumer ?r + 0) mod ?n" "(sq_consumer ?r + ?n) mod ?n = sq_consumer ?r"
    using i(2) by (simp_all only: add_0_right mod_add_self2 mod_less)
  ultimately show ?thesis
    using i offset_eq [of "length q + 1" ?n 0 "sq_consumer ?r"]
    by (cases "length q + 1 = ?n") (metis diff_add_inverse2, force)
qed

lemma empty_test:
  assumes "ring_inv q s"
  shows "sq_consumer (run_queue s) = sq_producer (run_queue s) \<longleftrightarrow> q = []"
proof -
  let ?r = "run_queue s" and ?n = "length (sq_slots (run_queue s))"
  have i: "sq_consumer ?r < ?n" "length q < ?n" "sq_producer ?r = (sq_consumer ?r + length q) mod ?n"
    using assms by (simp_all add: ring_inv_def Let_def)
  have "sq_consumer ?r = (sq_consumer ?r + 0) mod ?n" using i by simp
  then show ?thesis using i offset_eq [of 0 ?n "length q" "sq_consumer ?r"] by (metis length_0_conv gr_implies_not0 neq0_conv)
qed

lemma producer_slot:
  assumes inv: "ring_inv q s" and nf: "\<And>v m. run_producer s \<noteq> PFilled v m"
  shows "sq_slots (run_queue s) ! sq_producer (run_queue s) = None"
    and "rotate (sq_consumer (run_queue s)) ((sq_slots (run_queue s))[sq_producer (run_queue s) := Some v])
      = publishedSlots (run_consumer s) q @ freeSlots (PFilled v m) (length (sq_slots (run_queue s)) - length q)"
proof -
  let ?r = "run_queue s" and ?n = "length (sq_slots (run_queue s))"
  have i: "length q < ?n" "sq_producer ?r = (sq_consumer ?r + length q) mod ?n"
    and rot: "rotate (sq_consumer ?r) (sq_slots ?r)
      = publishedSlots (run_consumer s) q @ freeSlots (run_producer s) (?n - length q)"
    and ct: "\<And>v c. run_consumer s = CTaken v c \<Longrightarrow> q \<noteq> []"
    using inv by (auto simp: ring_inv_def Let_def)
  have len: "length (publishedSlots (run_consumer s) q) = length q"
    using ct by (cases "run_consumer s") (auto simp: publishedSlots_def)
  obtain k where k: "?n - length q = Suc k" using i(1) by (metis Suc_diff_Suc)
  have f: "freeSlots (run_producer s) (?n - length q) = None # replicate k None"
    using nf by (auto simp: freeSlots_def k split: producer_pc.split)
  show "sq_slots ?r ! sq_producer ?r = None"
    unfolding i(2) rotate_at [OF i(1)] rot f by (simp add: nth_append len)
  show "rotate (sq_consumer ?r) ((sq_slots ?r)[sq_producer ?r := Some v])
      = publishedSlots (run_consumer s) q @ freeSlots (PFilled v m) (?n - length q)"
    unfolding i(2) rotate_update [OF i(1)] rot f by (simp add: list_update_append len freeSlots_def k)
qed

lemma consumer_slot:
  assumes inv: "ring_inv q s" and nt: "\<And>v c. run_consumer s \<noteq> CTaken v c" and q: "q = v # q'"
  shows "sq_slots (run_queue s) ! sq_consumer (run_queue s) = Some v"
    and "rotate (sq_consumer (run_queue s)) ((sq_slots (run_queue s))[sq_consumer (run_queue s) := None])
      = publishedSlots (CTaken v c) q @ freeSlots (run_producer s) (length (sq_slots (run_queue s)) - length q)"
proof -
  let ?r = "run_queue s" and ?n = "length (sq_slots (run_queue s))"
  have i: "0 < ?n" "sq_consumer ?r = (sq_consumer ?r + 0) mod ?n"
    and rot: "rotate (sq_consumer ?r) (sq_slots ?r)
      = publishedSlots (run_consumer s) q @ freeSlots (run_producer s) (?n - length q)"
    using inv by (auto simp: ring_inv_def Let_def)
  have f: "publishedSlots (run_consumer s) q = Some v # map Some q'"
    using nt by (auto simp: publishedSlots_def q split: consumer_pc.split)
  have "sq_slots ?r ! sq_consumer ?r = rotate (sq_consumer ?r) (sq_slots ?r) ! 0"
    using rotate_at [OF i(1), of "sq_consumer ?r"] i(2) by simp
  then show "sq_slots ?r ! sq_consumer ?r = Some v" by (simp add: rot f)
  have "rotate (sq_consumer ?r) ((sq_slots ?r)[sq_consumer ?r := None])
      = (rotate (sq_consumer ?r) (sq_slots ?r))[0 := None]"
    using rotate_update [OF i(1), of "sq_consumer ?r"] i(2) by simp
  then show "rotate (sq_consumer ?r) ((sq_slots ?r)[sq_consumer ?r := None])
      = publishedSlots (CTaken v c) q @ freeSlots (run_producer s) (?n - length q)"
    unfolding rot f by (simp add: publishedSlots_def q)
qed

section \<open>Simulation\<close>

lemma ring_producer:
  assumes "ring_inv q s"
  shows "run_producer s = PCursor v p m \<Longrightarrow> p = sq_producer (run_queue s) \<and> m = sq_advance (run_queue s) p"
    and "run_producer s = PSpace v p m \<Longrightarrow> p = sq_producer (run_queue s) \<and> m = sq_advance (run_queue s) p
          \<and> length q < sq_capacity (run_queue s)"
    and "run_producer s = PFilled v m \<Longrightarrow> m = sq_advance (run_queue s) (sq_producer (run_queue s))
          \<and> length q < sq_capacity (run_queue s)"
  using assms by (simp_all add: ring_inv_def Let_def)

lemma ring_consumer:
  assumes "ring_inv q s"
  shows "run_consumer s = CCursor c \<Longrightarrow> c = sq_consumer (run_queue s)"
    and "run_consumer s = CEntry c \<Longrightarrow> c = sq_consumer (run_queue s) \<and> q \<noteq> []"
    and "run_consumer s = CTaken v c \<Longrightarrow> c = sq_consumer (run_queue s) \<and> (\<exists>q'. q = v # q')"
  using assms by (simp_all add: ring_inv_def Let_def)

lemma ring_capacity:
  assumes "ring_inv q s"
  shows "length (sq_slots (run_queue s)) = sq_capacity (run_queue s) + 1"
    "length q \<le> sq_capacity (run_queue s)" "sq_consumer (run_queue s) < length (sq_slots (run_queue s))"
  using assms by (simp_all add: ring_inv_def Let_def)

text \<open>Program counters that do not concern the slots may change freely.\<close>

lemma ring_inv_producer:
  assumes inv: "ring_inv q s" and nf: "\<And>v m. run_producer s \<noteq> PFilled v m" "\<And>v m. pc \<noteq> PFilled v m"
    and pc: "producer_ok (sq_producer (run_queue s)) (sq_advance (run_queue s)) (length q < sq_capacity (run_queue s)) pc"
  shows "ring_inv q (s\<lparr>run_producer := pc\<rparr>)"
proof -
  have "freeSlots pc k = freeSlots (run_producer s) k" for k
    using nf by (simp add: freeSlots_def split: producer_pc.split)
  then show ?thesis using inv pc by (simp add: ring_inv_def Let_def)
qed

lemma ring_inv_consumer:
  assumes inv: "ring_inv q s" and nt: "\<And>v c. run_consumer s \<noteq> CTaken v c" "\<And>v c. pc \<noteq> CTaken v c"
    and pc: "consumer_ok (sq_consumer (run_queue s)) q pc"
  shows "ring_inv q (s\<lparr>run_consumer := pc\<rparr>)"
proof -
  have "publishedSlots pc q = publishedSlots (run_consumer s) q"
    using nt by (simp add: publishedSlots_def split: consumer_pc.split)
  then show ?thesis using inv pc by (auto simp: ring_inv_def Let_def)
qed

lemma publish_step:
  assumes inv: "ring_inv q s" and pc: "run_producer s = PFilled v m"
  shows "ring_inv (q @ [v]) (s\<lparr>run_queue := (run_queue s)\<lparr>sq_producer := m\<rparr>, run_producer := PIdle\<rparr>)"
proof -
  let ?r = "run_queue s" and ?n = "length (sq_slots (run_queue s))"
  have i: "length q + 1 < ?n" "sq_consumer ?r < ?n" "?n = sq_capacity ?r + 1"
    "sq_producer ?r = (sq_consumer ?r + length q) mod ?n" and m: "m = sq_advance ?r (sq_producer ?r)"
    and rot: "rotate (sq_consumer ?r) (sq_slots ?r)
      = publishedSlots (run_consumer s) q @ Some v # replicate (?n - length q - 1) None"
    using inv pc by (simp_all add: ring_inv_def Let_def freeSlots_def)
  have "sq_producer ?r < ?n" unfolding i(4) using i(2) by (intro mod_less_divisor) linarith
  then have "m = (sq_producer ?r + 1) mod ?n" unfolding m by (rule advance_mod)
  also have "\<dots> = (sq_consumer ?r + (length q + 1)) mod ?n"
    unfolding i(4) by (simp only: mod_add_left_eq add.assoc)
  finally have mn: "m = (sq_consumer ?r + length (q @ [v])) mod ?n" by simp
  have q: "publishedSlots (run_consumer s) (q @ [v]) = publishedSlots (run_consumer s) q @ [Some v]"
    using inv by (auto simp: publishedSlots_def ring_inv_def Let_def split: consumer_pc.splits)
  have "consumer_ok (sq_consumer ?r) (q @ [v]) (run_consumer s)"
    using inv by (intro consumer_ok_snoc) (simp add: ring_inv_def Let_def)
  then show ?thesis using i mn rot q by (simp add: ring_inv_def Let_def freeSlots_def)
qed

lemma release_step:
  assumes inv: "ring_inv q s" and pc: "run_consumer s = CTaken v c"
  shows "\<exists>q'. q = v # q' \<and> ring_inv q' (s\<lparr>run_queue := (run_queue s)\<lparr>sq_consumer := sq_advance (run_queue s) c\<rparr>,
       run_consumer := CIdle\<rparr>)"
proof -
  let ?r = "run_queue s" and ?n = "length (sq_slots (run_queue s))"
  obtain q' where q: "q = v # q'" and c: "c = sq_consumer ?r" using ring_consumer(3) [OF inv pc] by blast
  have i: "length q < ?n" "sq_consumer ?r < ?n" "?n = sq_capacity ?r + 1"
    "sq_producer ?r = (sq_consumer ?r + length q) mod ?n"
    and rot: "rotate (sq_consumer ?r) (sq_slots ?r)
      = (None # map Some q') @ freeSlots (run_producer s) (?n - length q)"
    using inv pc by (simp_all add: ring_inv_def Let_def publishedSlots_def q)
  have adv: "sq_advance ?r c = (sq_consumer ?r + 1) mod ?n" unfolding c by (rule advance_mod) (rule i(2))
  have lt: "sq_advance ?r c < ?n" unfolding adv using i(2) by (intro mod_less_divisor) linarith
  have "rotate (sq_advance ?r c) (sq_slots ?r) = rotate1 (rotate (sq_consumer ?r) (sq_slots ?r))"
    unfolding adv by (metis Suc_eq_plus1 rotate_Suc rotate_conv_mod)
  also have "\<dots> = map Some q' @ (freeSlots (run_producer s) (?n - length q) @ [None])"
    by (simp add: rot)
  also have "freeSlots (run_producer s) (?n - length q) @ [None] = freeSlots (run_producer s) (?n - length q')"
  proof -
    have "?n - length q' = Suc (?n - length q)" "0 < ?n - length q" using i(1) q by simp_all
    then show ?thesis by (cases "?n - length q")
        (auto simp: freeSlots_def replicate_append_same split: producer_pc.split)
  qed
  finally have rot': "rotate (sq_advance ?r c) (sq_slots ?r)
      = publishedSlots CIdle q' @ freeSlots (run_producer s) (?n - length q')" by (simp add: publishedSlots_def)
  have p: "sq_producer ?r = (sq_advance ?r c + length q') mod ?n"
    unfolding i(4) adv by (simp add: q mod_add_left_eq)
  have "producer_ok (sq_producer ?r) (sq_advance ?r) (length q' < sq_capacity ?r) (run_producer s)"
    by (rule producer_ok_mono [of _ _ "length q < sq_capacity ?r"]) (use inv q in \<open>auto simp: ring_inv_def Let_def\<close>)
  moreover have "length q' < ?n" using i(1) q by simp
  ultimately show ?thesis using q lt i(3) p rot' by (simp add: ring_inv_def Let_def)
qed

lemma ring_step:
  assumes inv: "ring_inv q s" and st: "spsc_step s e s'"
  shows "\<exists>q'. ring_inv q' s' \<and> fifo_step (sq_capacity (run_queue s)) q e q'
     \<and> sq_capacity (run_queue s') = sq_capacity (run_queue s)"
  using st
proof cases
  case (push_call v)
  then show ?thesis using ring_inv_producer [OF inv] by (intro exI [of _ q]) simp
next
  case (push_full v p n)
  then have "length q = sq_capacity (run_queue s)"
    using full_test [OF inv] ring_producer(1) [OF inv] by metis
  then show ?thesis using push_full ring_inv_producer [OF inv, of PIdle] by (intro exI [of _ q]) simp
next
  case (push_space v p n)
  note pm = ring_producer(1) [OF inv push_space(3)]
  then have "length q \<noteq> sq_capacity (run_queue s)" using push_space(4) full_test [OF inv] by simp
  then have "length q < sq_capacity (run_queue s)" using ring_capacity(2) [OF inv] by simp
  then show ?thesis using push_space pm ring_inv_producer [OF inv, of "PSpace v p n"]
    by (intro exI [of _ q]) simp
next
  case (push_occupied v p n)
  then show ?thesis using ring_producer(2) [OF inv push_occupied(3)] producer_slot(1) [OF inv] by simp
next
  case (push_fill v p n)
  note pm = ring_producer(2) [OF inv push_fill(3)]
  have "rotate (sq_consumer (run_queue s)) ((sq_slots (run_queue s))[p := Some v])
      = publishedSlots (run_consumer s) q @ freeSlots (PFilled v n) (length (sq_slots (run_queue s)) - length q)"
    using pm producer_slot(2) [OF inv, of v n] push_fill(3) by simp
  then have "ring_inv q s'" using push_fill(2) pm inv unfolding ring_inv_def Let_def by simp
  then show ?thesis using push_fill by (intro exI [of _ q]) simp
next
  case (push_publish v n)
  then show ?thesis using publish_step [OF inv push_publish(3)] ring_producer(3) [OF inv push_publish(3)]
    by (intro exI [of _ "q @ [v]"]) simp
next
  case pop_call
  then show ?thesis using ring_inv_consumer [OF inv] by (intro exI [of _ q]) simp
next
  case (pop_empty c)
  then have "q = []" using empty_test [OF inv] ring_consumer(1) [OF inv] by metis
  then show ?thesis using pop_empty ring_inv_consumer [OF inv, of CIdle] by (intro exI [of _ q]) simp
next
  case (pop_entry c)
  then have "c = sq_consumer (run_queue s)" "q \<noteq> []"
    using empty_test [OF inv] ring_consumer(1) [OF inv] by metis+
  then show ?thesis using pop_entry ring_inv_consumer [OF inv, of "CEntry c"] by (intro exI [of _ q]) simp
next
  case (pop_hole c)
  note cq = ring_consumer(2) [OF inv pop_hole(3)]
  then obtain x q' where "q = x # q'" by (cases q) auto
  from consumer_slot(1) [OF inv _ this] show ?thesis using pop_hole cq by simp
next
  case (pop_take c v)
  note cq = ring_consumer(2) [OF inv pop_take(3)]
  then obtain x q' where q: "q = x # q'" by (cases q) auto
  have nt: "run_consumer s \<noteq> CTaken w d" for w d using pop_take by simp
  note cs = consumer_slot [OF inv nt q]
  have xv: "x = v" using cs(1) pop_take(4) cq by simp
  have "rotate (sq_consumer (run_queue s)) ((sq_slots (run_queue s))[c := None])
      = publishedSlots (CTaken v c) q @ freeSlots (run_producer s) (length (sq_slots (run_queue s)) - length q)"
    using cs(2) [of c] cq xv by simp
  then have "ring_inv q s'" using pop_take(2) cq q xv inv by (auto simp: ring_inv_def Let_def)
  then show ?thesis using pop_take by (intro exI [of _ q]) simp
next
  case (pop_release v c)
  then show ?thesis using release_step [OF inv pop_release(3)] by auto
qed


section \<open>Runs of the two threads\<close>

inductive spsc_trace :: "'a spsc_run \<Rightarrow> 'a spsc_event list \<Rightarrow> 'a spsc_run \<Rightarrow> bool" where
  spsc_done: "spsc_trace s [] s"
| spsc_more: "spsc_step s e s' \<Longrightarrow> spsc_trace s' es s'' \<Longrightarrow> spsc_trace s (e # es) s''"

inductive fifo_trace :: "nat \<Rightarrow> 'a list \<Rightarrow> 'a spsc_event list \<Rightarrow> 'a list \<Rightarrow> bool" for cap where
  fifo_done: "fifo_trace cap q [] q"
| fifo_more: "fifo_step cap q e q' \<Longrightarrow> fifo_trace cap q' es q'' \<Longrightarrow> fifo_trace cap q (e # es) q''"

fun pushedValues :: "'a spsc_event list \<Rightarrow> 'a list" where
  "pushedValues [] = []"
| "pushedValues (Pushed v # es) = v # pushedValues es"
| "pushedValues (_ # es) = pushedValues es"

fun poppedValues :: "'a spsc_event list \<Rightarrow> 'a list" where
  "poppedValues [] = []"
| "poppedValues (Popped v # es) = v # poppedValues es"
| "poppedValues (_ # es) = poppedValues es"

lemma ring_trace:
  assumes "spsc_trace s es s'" and "ring_inv q s"
  shows "\<exists>q'. ring_inv q' s' \<and> fifo_trace (sq_capacity (run_queue s)) q es q'
     \<and> sq_capacity (run_queue s') = sq_capacity (run_queue s)"
  using assms
proof (induction arbitrary: q rule: spsc_trace.induct)
  case (spsc_done s)
  then show ?case using fifo_done by blast
next
  case (spsc_more s e s' es s'')
  obtain q' where q': "ring_inv q' s'" "fifo_step (sq_capacity (run_queue s)) q e q'"
    "sq_capacity (run_queue s') = sq_capacity (run_queue s)"
    using ring_step [OF spsc_more.prems spsc_more.hyps(1)] by blast
  obtain q'' where "ring_inv q'' s''" "fifo_trace (sq_capacity (run_queue s')) q' es q''"
    "sq_capacity (run_queue s'') = sq_capacity (run_queue s')"
    using spsc_more.IH [OF q'(1)] by blast
  then show ?case using q' fifo_more by (metis (no_types))
qed

lemma fifo_order: "fifo_trace cap q es q' \<Longrightarrow> q @ pushedValues es = poppedValues es @ q'"
proof (induction rule: fifo_trace.induct)
  case (fifo_more q e q' es q'')
  then show ?case by (cases e) (auto simp: append_assoc)
qed simp

lemma fifo_bounded: "fifo_trace cap q es q' \<Longrightarrow> length q \<le> cap \<Longrightarrow> length q' \<le> cap"
proof (induction rule: fifo_trace.induct)
  case (fifo_more q e q' es q'')
  then show ?case by (cases e) auto
qed simp

lemma fifo_never_fails: "fifo_trace cap q es q' \<Longrightarrow> Failed e \<notin> set es"
proof (induction rule: fifo_trace.induct)
  case (fifo_more q d q' es q'')
  then show ?case by (cases d) auto
qed simp

lemma sq_new_ring:
  assumes "sq_new cap = Inr q"
  shows "ring_inv [] (sq_start q)" "sq_capacity q = cap" "cap \<noteq> 0"
  using assms by (auto simp: sq_new_def storageCapacity_def sq_start_def ring_inv_def publishedSlots_def
      freeSlots_def rotate_def split: if_splits)

section \<open>Whole calls\<close>

text \<open>
  A call made while the other thread rests is its steps one after the other; the queue then
  is the list of values the consumer has yet to take.
\<close>

definition sq_contents :: "'a spsc \<Rightarrow> 'a list" where
  "sq_contents q = map the (take (sq_size q) (rotate (sq_consumer q) (sq_slots q)))"

definition sq_valid :: "'a spsc \<Rightarrow> bool" where
  "sq_valid q = ring_inv (sq_contents q) (sq_start q)"

lemma ring_size:
  assumes "ring_inv buf s"
  shows "sq_size (run_queue s) = length buf"
proof -
  let ?r = "run_queue s" and ?n = "length (sq_slots (run_queue s))"
  have i: "sq_consumer ?r < ?n" "length buf < ?n" "sq_producer ?r = (sq_consumer ?r + length buf) mod ?n"
    using assms by (simp_all add: ring_inv_def Let_def)
  show ?thesis
  proof (cases "sq_consumer ?r + length buf < ?n")
    case True
    then show ?thesis using i by (simp add: sq_size_def)
  next
    case False
    then have "sq_producer ?r = sq_consumer ?r + length buf - ?n"
      using i by (simp add: le_mod_geq)
    then have "\<not> sq_consumer ?r \<le> sq_producer ?r" "?n - sq_consumer ?r + sq_producer ?r = length buf"
      using i(1,2) False by linarith+
    then show ?thesis by (simp add: sq_size_def)
  qed
qed

lemma ring_contents:
  assumes "ring_inv buf (sq_start q)"
  shows "sq_contents q = buf" "sq_valid q"
proof -
  have "sq_size q = length buf" using ring_size [OF assms] by (simp add: sq_start_def)
  moreover have "rotate (sq_consumer q) (sq_slots q) = map Some buf @ replicate (length (sq_slots q) - length buf) None"
    using assms by (simp add: ring_inv_def sq_start_def publishedSlots_def freeSlots_def Let_def)
  ultimately show c: "sq_contents q = buf" by (simp add: sq_contents_def comp_def)
  show "sq_valid q" using assms c by (simp add: sq_valid_def)
qed


text \<open>Each outcome of a call is the run of its steps.\<close>

fun emplace_events :: "'a \<Rightarrow> spsc_error + bool \<Rightarrow> 'a spsc_event list" where
  "emplace_events v (Inr True) = [Internal, Internal, Internal, Pushed v]"
| "emplace_events v (Inr False) = [Internal, PushRefused]"
| "emplace_events v (Inl e) = [Internal, Internal, Failed e]"

fun pop_events :: "spsc_error + 'a option \<Rightarrow> 'a spsc_event list" where
  "pop_events (Inr (Some v)) = [Internal, Internal, Internal, Popped v]"
| "pop_events (Inr None) = [Internal, PopRefused]"
| "pop_events (Inl e) = [Internal, Internal, Failed e]"

lemma spsc_trace_append: "spsc_trace s es s' \<Longrightarrow> spsc_trace s' es' s'' \<Longrightarrow> spsc_trace s (es @ es') s''"
  by (induction rule: spsc_trace.induct) (auto intro: spsc_more)

lemma tryEmplace_steps:
  "case tryEmplace v q of
     Inl e \<Rightarrow> spsc_trace (sq_start q) (emplace_events v (Inl e)) (sq_start q)
   | Inr (q', b) \<Rightarrow> spsc_trace (sq_start q) (emplace_events v (Inr b)) (sq_start q')"
proof -
  let ?p = "sq_producer q" let ?n = "sq_advance q ?p" let ?s = "sq_start q"
  let ?s1 = "?s\<lparr>run_producer := PCursor v ?p ?n\<rparr>" and ?s2 = "?s\<lparr>run_producer := PSpace v ?p ?n\<rparr>"
  have call: "spsc_step ?s Internal ?s1" using push_call [of ?s v] by (simp add: sq_start_def)
  show ?thesis
  proof (cases "?n = sq_consumer q")
    case True
    have "spsc_step ?s1 PushRefused ?s" using push_full [of ?s1 v ?p ?n] True by (simp add: sq_start_def)
    then show ?thesis using True call by (auto simp: tryEmplace_def Let_def intro: spsc_trace.intros)
  next
    case False
    have space: "spsc_step ?s1 Internal ?s2" using push_space [of ?s1 v ?p ?n] False by (simp add: sq_start_def)
    show ?thesis
    proof (cases "sq_slots q ! ?p = None")
      case True
      let ?q3 = "q\<lparr>sq_slots := (sq_slots q)[?p := Some v]\<rparr>"
      let ?s3 = "\<lparr>run_queue = ?q3, run_producer = PFilled v ?n, run_consumer = CIdle\<rparr>"
      have fill: "spsc_step ?s2 Internal ?s3" using push_fill [of ?s2 v ?p ?n] True by (simp add: sq_start_def)
      have "spsc_step ?s3 (Pushed v) (sq_start (?q3\<lparr>sq_producer := ?n\<rparr>))"
        using push_publish [of ?s3 v ?n] by (simp add: sq_start_def)
      then show ?thesis using False True call space fill
        by (auto simp: tryEmplace_def Let_def intro!: spsc_trace.intros)
    next
      case occ: False
      have "spsc_step ?s2 (Failed OccupiedSlot) ?s" using push_occupied [of ?s2 v ?p ?n] occ by (simp add: sq_start_def)
      then show ?thesis using False occ call space by (auto simp: tryEmplace_def Let_def intro: spsc_trace.intros)
    qed
  qed
qed

lemma tryPop_steps:
  "case tryPop q of
     Inl e \<Rightarrow> spsc_trace (sq_start q) (pop_events (Inl e)) (sq_start q)
   | Inr (q', r) \<Rightarrow> spsc_trace (sq_start q) (pop_events (Inr r)) (sq_start q')"
proof -
  let ?c = "sq_consumer q" let ?s = "sq_start q"
  let ?s1 = "?s\<lparr>run_consumer := CCursor ?c\<rparr>" and ?s2 = "?s\<lparr>run_consumer := CEntry ?c\<rparr>"
  have call: "spsc_step ?s Internal ?s1" using pop_call [of ?s] by (simp add: sq_start_def)
  show ?thesis
  proof (cases "?c = sq_producer q")
    case True
    have "spsc_step ?s1 PopRefused ?s" using pop_empty [of ?s1 ?c] True by (simp add: sq_start_def)
    then show ?thesis using True call by (auto simp: tryPop_def Let_def intro: spsc_trace.intros)
  next
    case False
    have entry: "spsc_step ?s1 Internal ?s2" using pop_entry [of ?s1 ?c] False by (simp add: sq_start_def)
    show ?thesis
    proof (cases "sq_slots q ! ?c")
      case None
      have "spsc_step ?s2 (Failed EmptyPublishedSlot) ?s" using pop_hole [of ?s2 ?c] None by (simp add: sq_start_def)
      then show ?thesis using False None call entry by (auto simp: tryPop_def Let_def intro: spsc_trace.intros)
    next
      case (Some v)
      let ?q3 = "q\<lparr>sq_slots := (sq_slots q)[?c := None]\<rparr>"
      let ?s3 = "\<lparr>run_queue = ?q3, run_producer = PIdle, run_consumer = CTaken v ?c\<rparr>"
      have take: "spsc_step ?s2 Internal ?s3" using pop_take [of ?s2 ?c v] Some by (simp add: sq_start_def)
      have "spsc_step ?s3 (Popped v) (sq_start (?q3\<lparr>sq_consumer := sq_advance q ?c\<rparr>))"
        using pop_release [of ?s3 v ?c] by (simp add: sq_start_def)
      then show ?thesis using False Some call entry take
        by (auto simp: tryPop_def Let_def intro!: spsc_trace.intros)
    qed
  qed
qed

end
