(* ===== verification/SpscQueueProps.thy ===== *)
theory SpscQueueProps
  imports SpscQueue
begin

text \<open>
  The ring of \<open>ps2_spsc_queue.h\<close> refines a bounded FIFO: for every interleaving of the two
  threads' steps, and call by call for a single owner. The second is stated as an interface
  of its own, with the ring as the provider.
\<close>

section \<open>The interface of a bounded FIFO\<close>

datatype 'a queue_op = TryPush 'a | TryPop

datatype 'a queue_result = PushResult bool | PopResult "'a option"

primrec list_queue_run :: "nat \<Rightarrow> 'a queue_op list \<Rightarrow> 'a list \<Rightarrow> 'a list \<times> 'a queue_result list" where
  "list_queue_run cap [] buf = (buf, [])"
| "list_queue_run cap (p # ps) buf =
     (case p of
        TryPush v \<Rightarrow>
          (let ok = length buf < cap; (buf', rs) = list_queue_run cap ps (if ok then buf @ [v] else buf)
           in (buf', PushResult ok # rs))
      | TryPop \<Rightarrow>
          (let (buf', rs) = list_queue_run cap ps (tl buf)
           in (buf', PopResult (if buf = [] then None else Some (hd buf)) # rs)))"

primrec queue_run ::
  "('a \<Rightarrow> 'q \<Rightarrow> 'e + ('q \<times> bool)) \<Rightarrow> ('q \<Rightarrow> 'e + ('q \<times> 'a option)) \<Rightarrow>
   'a queue_op list \<Rightarrow> 'q \<Rightarrow> 'e + ('q \<times> 'a queue_result list)" where
  "queue_run push pop [] q = Inr (q, [])"
| "queue_run push pop (p # ps) q =
     (case (case p of
              TryPush v \<Rightarrow> map_sum id (map_prod id PushResult) (push v q)
            | TryPop \<Rightarrow> map_sum id (map_prod id PopResult) (pop q)) of
        Inl e \<Rightarrow> Inl e
      | Inr (q', r) \<Rightarrow> map_sum id (map_prod id ((#) r)) (queue_run push pop ps q'))"

locale bounded_fifo =
  fixes push :: "'a \<Rightarrow> 'q \<Rightarrow> 'e + ('q \<times> bool)"
    and pop :: "'q \<Rightarrow> 'e + ('q \<times> 'a option)"
    and contents :: "'q \<Rightarrow> 'a list"
    and cap :: "'q \<Rightarrow> nat"
    and valid :: "'q \<Rightarrow> bool"
  assumes push_law: "valid q \<Longrightarrow> \<exists>q'. push v q = Inr (q', length (contents q) < cap q)
      \<and> valid q' \<and> cap q' = cap q
      \<and> contents q' = (if length (contents q) < cap q then contents q @ [v] else contents q)"
    and pop_law: "valid q \<Longrightarrow> \<exists>q'. pop q = Inr (q', if contents q = [] then None else Some (hd (contents q)))
      \<and> valid q' \<and> cap q' = cap q \<and> contents q' = tl (contents q)"
begin

lemma run_is_list_run:
  assumes "valid q"
  shows "\<exists>q'. queue_run push pop ps q = Inr (q', snd (list_queue_run (cap q) ps (contents q)))
    \<and> valid q' \<and> cap q' = cap q \<and> contents q' = fst (list_queue_run (cap q) ps (contents q))"
  using assms
proof (induction ps arbitrary: q)
  case Nil
  then show ?case by simp
next
  case (Cons p ps)
  show ?case
  proof (cases p)
    case (TryPush v)
    obtain q1 where q1: "push v q = Inr (q1, length (contents q) < cap q)" "valid q1" "cap q1 = cap q"
      "contents q1 = (if length (contents q) < cap q then contents q @ [v] else contents q)"
      using push_law [OF Cons.prems] by blast
    show ?thesis using Cons.IH [OF q1(2)] unfolding q1(3,4)
      by (auto simp: TryPush q1(1) Let_def split_beta)
  next
    case TryPop
    obtain q1 where q1: "pop q = Inr (q1, if contents q = [] then None else Some (hd (contents q)))"
      "valid q1" "cap q1 = cap q" "contents q1 = tl (contents q)"
      using pop_law [OF Cons.prems] by blast
    show ?thesis using Cons.IH [OF q1(2)] unfolding q1(3,4)
      by (auto simp: TryPop q1(1) Let_def split_beta)
  qed
qed

end

section \<open>The ring provides it\<close>

lemma sq_valid_trace:
  assumes "sq_valid q" and "spsc_trace (sq_start q) es (sq_start q')"
  shows "fifo_trace (sq_capacity q) (sq_contents q) es (sq_contents q') \<and> sq_valid q' \<and> sq_capacity q' = sq_capacity q"
proof -
  have "ring_inv (sq_contents q) (sq_start q)" using assms(1) by (simp only: sq_valid_def)
  from ring_trace [OF assms(2) this] obtain buf where buf: "ring_inv buf (sq_start q')"
    "fifo_trace (sq_capacity q) (sq_contents q) es buf" "sq_capacity q' = sq_capacity q"
    by (auto simp: sq_start_def)
  show ?thesis unfolding ring_contents(1) [OF buf(1)] using buf(2,3) ring_contents(2) [OF buf(1)] by blast
qed

inductive_cases fifo_trace_consE: "fifo_trace cap q (e # es) q'"
inductive_cases fifo_trace_nilE: "fifo_trace cap q [] q'"

lemma fifo_trace_simps:
  "fifo_trace cap q [] q' \<longleftrightarrow> q' = q"
  "fifo_trace cap q (e # es) q' \<longleftrightarrow> (\<exists>q1. fifo_step cap q e q1 \<and> fifo_trace cap q1 es q')"
  by (auto intro: fifo_trace.intros elim: fifo_trace_consE fifo_trace_nilE)

interpretation spsc_fifo: bounded_fifo tryEmplace tryPop sq_contents sq_capacity sq_valid
proof unfold_locales
  fix q :: "'a spsc" and v assume ok: "sq_valid q"
  show "\<exists>q'. tryEmplace v q = Inr (q', length (sq_contents q) < sq_capacity q) \<and> sq_valid q'
      \<and> sq_capacity q' = sq_capacity q
      \<and> sq_contents q' = (if length (sq_contents q) < sq_capacity q then sq_contents q @ [v] else sq_contents q)"
  proof (cases "tryEmplace v q")
    case (Inl e)
    then have "spsc_trace (sq_start q) (emplace_events v (Inl e)) (sq_start q)"
      using tryEmplace_steps [where v = v and q = q] by simp
    from sq_valid_trace [OF ok this] show ?thesis by (simp add: fifo_trace_simps)
  next
    case (Inr r)
    obtain q' b where r: "r = (q', b)" by fastforce
    then have "spsc_trace (sq_start q) (emplace_events v (Inr b)) (sq_start q')"
      using tryEmplace_steps [where v = v and q = q] Inr by simp
    from sq_valid_trace [OF ok this] show ?thesis using Inr r
      by (cases b) (simp_all add: fifo_trace_simps)
  qed
next
  fix q :: "'a spsc" assume ok: "sq_valid q"
  show "\<exists>q'. tryPop q = Inr (q', if sq_contents q = [] then None else Some (hd (sq_contents q))) \<and> sq_valid q'
      \<and> sq_capacity q' = sq_capacity q \<and> sq_contents q' = tl (sq_contents q)"
  proof (cases "tryPop q")
    case (Inl e)
    then have "spsc_trace (sq_start q) (pop_events (Inl e)) (sq_start q)"
      using tryPop_steps [of q] by simp
    from sq_valid_trace [OF ok this] show ?thesis by (simp add: fifo_trace_simps)
  next
    case (Inr r)
    obtain q' b where r: "r = (q', b)" by fastforce
    then have "spsc_trace (sq_start q) (pop_events (Inr b)) (sq_start q')"
      using tryPop_steps [of q] Inr by simp
    from sq_valid_trace [OF ok this] show ?thesis using Inr r
      by (cases b) (auto simp: fifo_trace_simps)
  qed
qed

lemma sq_new_one: "sq_new 1 = Inr \<lparr>sq_slots = [None, None], sq_capacity = 1, sq_producer = 0, sq_consumer = 0\<rparr>"
  by (simp add: sq_new_def storageCapacity_def sizeMax_def numeral_2_eq_2)

lemma sq_new_valid: "sq_new cap = Inr q \<Longrightarrow> sq_valid q \<and> sq_contents q = [] \<and> sq_capacity q = cap"
  using sq_new_ring ring_contents by blast

section \<open>Properties\<close>

text \<open>
  C5. For every capacity the constructor accepts and every interleaving of the producer's and
  the consumer's accesses to cursors and slots, the calls' outcomes form a run of a FIFO list
  of at most \<open>capacity\<close> values: a push is refused exactly at capacity, a pop exactly when the
  list is empty, values come out in the order they went in, none lost or duplicated, and
  neither thread ever reaches an occupied slot or an empty published one.
\<close>

theorem spsc_refines_fifo:
  assumes "sq_new cap = Inr q" and "spsc_trace (sq_start q) es s"
  shows "\<exists>buf. fifo_trace cap [] es buf \<and> pushedValues es = poppedValues es @ buf
    \<and> length buf \<le> cap \<and> sq_size (run_queue s) = length buf \<and> (\<forall>e. Failed e \<notin> set es)"
proof -
  note new = sq_new_ring [OF assms(1)]
  obtain buf where "ring_inv buf s" and tr: "fifo_trace cap [] es buf"
    using ring_trace [OF assms(2) new(1)] new(2) by (auto simp: sq_start_def)
  then show ?thesis
    using fifo_order [OF tr] fifo_bounded [OF tr] fifo_never_fails [OF tr] ring_size [of buf s] by auto
qed

lemma spsc_refines_fifo_witness:
  "\<exists>(q :: nat spsc) (s :: nat spsc_run) buf. sq_new 1 = Inr q
     \<and> fifo_trace 1 [] [Internal, Internal, Internal, Pushed (7 :: nat), Internal, Internal, Internal, Popped 7] buf
     \<and> sq_size (run_queue s) = length buf"
proof -
  define q :: "nat spsc" where "q = \<lparr>sq_slots = [None, None], sq_capacity = 1, sq_producer = 0, sq_consumer = 0\<rparr>"
  have q: "sq_new 1 = Inr q" unfolding q_def by (rule sq_new_one)
  define q1 where "q1 = q\<lparr>sq_slots := [Some 7, None], sq_producer := 1\<rparr>"
  have "tryEmplace 7 q = Inr (q1, True)"
    by (simp add: q_def q1_def tryEmplace_def sq_advance_def)
  then have s1: "spsc_trace (sq_start q) (emplace_events 7 (Inr True)) (sq_start q1)"
    using tryEmplace_steps [where v = 7 and q = q] by simp
  have "\<exists>q2. tryPop q1 = Inr (q2, Some 7)" by (simp add: q_def q1_def tryPop_def)
  then obtain q2 where "spsc_trace (sq_start q1) (pop_events (Inr (Some 7))) (sq_start q2)"
    using tryPop_steps [of q1] by force
  then have "spsc_trace (sq_start q) [Internal, Internal, Internal, Pushed 7, Internal, Internal, Internal, Popped 7]
     (sq_start q2)" using spsc_trace_append [OF s1] by simp
  from spsc_refines_fifo [OF q this] show ?thesis using q by blast
qed

text \<open>
  Called from one place, the queue is observationally the bounded list: any sequence of
  \<open>tryEmplace\<close> and \<open>tryPop\<close> calls on a fresh queue never throws and returns, call by call,
  what the list returns, and the values left in the ring are the list.
\<close>

theorem spsc_calls_are_list_queue:
  assumes "sq_new cap = Inr q"
  shows "\<exists>q'. queue_run tryEmplace tryPop ps q = Inr (q', snd (list_queue_run cap ps []))
    \<and> sq_contents q' = fst (list_queue_run cap ps [])"
  using spsc_fifo.run_is_list_run [of q ps] sq_new_valid [OF assms] by auto

lemma spsc_calls_are_list_queue_witness:
  "\<exists>q q'. sq_new 1 = Inr q \<and> queue_run tryEmplace tryPop [TryPush (5 :: nat), TryPush 6, TryPop, TryPop] q
     = Inr (q', [PushResult True, PushResult False, PopResult (Some 5), PopResult None])"
proof -
  define q :: "nat spsc" where "q = \<lparr>sq_slots = [None, None], sq_capacity = 1, sq_producer = 0, sq_consumer = 0\<rparr>"
  have q: "sq_new 1 = Inr q" unfolding q_def by (rule sq_new_one)
  show ?thesis using spsc_calls_are_list_queue [OF q, of "[TryPush 5, TryPush 6, TryPop, TryPop]"] q by auto
qed

end
