(* ===== verification/GifArbiter.thy ===== *)
theory GifArbiter
  imports Prelude
begin

text \<open>
  \<open>ps2xRuntime/include/runtime/ps2_gif_arbiter.h\<close> and \<open>src/lib/ps2_gif_arbiter.cpp\<close>: the three
  GIF paths' byte streams, the framing of GIF packets out of them, PATH1 reservations and the
  hand-over of framed packets in arbitration order.

  A vector's spare capacity is not part of the model: \<open>recycleDrainBatch\<close> clears the vectors it
  takes back before it stores them, and \<open>submit\<close> clears the one it reuses, so both touch
  capacities only. Sizes are natural numbers: no stream exceeds 64 MiB and no tag 8 MiB, which
  is far from the range of \<open>size_t\<close>.
\<close>

unbundle bit_operations_syntax

section \<open>Data\<close>

datatype GifPathId = Path1 | Path2 | Path3

fun pathIndex :: "GifPathId \<Rightarrow> nat" where
  "pathIndex Path1 = 1"
| "pathIndex Path2 = 2"
| "pathIndex Path3 = 3"

definition pathPriority :: "GifPathId \<Rightarrow> nat" where
  "pathPriority p = pathIndex p"

record gif_packet =
  gp_pathId :: GifPathId
  gp_path2DirectHl :: bool
  gp_path3Image :: bool
  gp_offset :: nat
  gp_size :: nat

record path_stream =
  ps_data :: "u8 list"
  ps_packetStart :: nat
  ps_parseOffset :: nat
  ps_path2DirectHl :: bool
  ps_packetContainsImage :: bool

definition emptyStream :: path_stream where
  "emptyStream = \<lparr>ps_data = [], ps_packetStart = 0, ps_parseOffset = 0,
     ps_path2DirectHl = False, ps_packetContainsImage = False\<rparr>"

record drain_packet =
  dp_pathId :: GifPathId
  dp_path2DirectHl :: bool
  dp_path3Image :: bool
  dp_storageIndex :: nat
  dp_offset :: nat
  dp_size :: nat

record drain_batch =
  db_storage :: "u8 list list"
  db_packets :: "drain_packet list"

record gif_arbiter =
  ga_processFn :: bool
  ga_processBatchFn :: bool
  ga_beginDrainFn :: bool
  ga_endDrainFn :: bool
  ga_queue :: "gif_packet list"
  ga_streams :: "path_stream list"
  ga_reservations :: "u64 list"
  ga_nextToken :: u64

definition ga_new :: gif_arbiter where
  "ga_new = \<lparr>ga_processFn = False, ga_processBatchFn = False, ga_beginDrainFn = False, ga_endDrainFn = False,
     ga_queue = [], ga_streams = replicate 4 emptyStream, ga_reservations = [], ga_nextToken = 1\<rparr>"

definition setProcessPacketFn :: "bool \<Rightarrow> gif_arbiter \<Rightarrow> gif_arbiter" where
  "setProcessPacketFn fn a =
     (let b = a\<lparr>ga_processFn := fn\<rparr> in if fn then b\<lparr>ga_processBatchFn := False\<rparr> else b)"

definition setProcessBatchFn :: "bool \<Rightarrow> gif_arbiter \<Rightarrow> gif_arbiter" where
  "setProcessBatchFn fn a =
     (let b = a\<lparr>ga_processBatchFn := fn\<rparr> in if fn then b\<lparr>ga_processFn := False\<rparr> else b)"

definition setDrainCallbacks :: "bool \<Rightarrow> bool \<Rightarrow> gif_arbiter \<Rightarrow> gif_arbiter" where
  "setDrainCallbacks beginFn endFn a = a\<lparr>ga_beginDrainFn := beginFn, ga_endDrainFn := endFn\<rparr>"

section \<open>GIF tags\<close>

definition kMaxBufferedGifPathBytes :: nat where
  "kMaxBufferedGifPathBytes = 64 * 1024 * 1024"

definition le64 :: "u8 list \<Rightarrow> u64" where
  "le64 bs = foldr (\<lambda>b acc. push_bit 8 acc OR ucast b) (take 8 bs) 0"

definition gifTagSize :: "u8 list \<Rightarrow> (nat \<times> bool \<times> bool) option" where
  "gifTagSize bytes =
     (if length bytes < 16 then None
      else let tagLo = le64 bytes;
               nloop = unat (tagLo AND 0x7FFF);
               flg = unat (drop_bit 58 tagLo AND 0x3);
               nreg0 = unat (drop_bit 60 tagLo AND 0xF);
               nreg = (if nreg0 = 0 then 16 else nreg0);
               payloadBytes =
                 (if flg = 0 then nloop * nreg * 16
                  else if flg = 1 then (nloop * nreg * 8 + 15) div 16 * 16
                  else nloop * 16);
               totalBytes = 16 + payloadBytes
           in if totalBytes > kMaxBufferedGifPathBytes then None
              else Some (totalBytes, bit tagLo 15, flg = 2 \<or> flg = 3))"

lemma gifTagSize_ge: "gifTagSize bs = Some (n, e, i) \<Longrightarrow> 16 \<le> n"
  by (auto simp: gifTagSize_def Let_def split: if_splits)

section \<open>Submission\<close>

definition dropIncompletePacket :: "path_stream \<Rightarrow> path_stream" where
  "dropIncompletePacket s =
     s\<lparr>ps_data := take (ps_packetStart s) (ps_data s), ps_parseOffset := ps_packetStart s,
       ps_path2DirectHl := False, ps_packetContainsImage := False\<rparr>"

definition framedPacket :: "GifPathId \<Rightarrow> path_stream \<Rightarrow> gif_packet" where
  "framedPacket pathId s =
     \<lparr>gp_pathId = pathId,
      gp_path2DirectHl = (pathId = Path2 \<and> ps_path2DirectHl s),
      gp_path3Image = (pathId = Path3 \<and> ps_packetContainsImage s),
      gp_offset = ps_packetStart s,
      gp_size = ps_parseOffset s - ps_packetStart s\<rparr>"

datatype gif_drop = StreamTooLarge GifPathId | MalformedTag GifPathId

text \<open>The loop over the complete tags of a stream; the code's local \<open>offset\<close> is \<open>parseOffset\<close>.\<close>

function parseTags :: "GifPathId \<Rightarrow> bool \<Rightarrow> path_stream \<Rightarrow> gif_packet list
    \<Rightarrow> path_stream \<times> gif_packet list \<times> gif_drop option" where
  "parseTags pathId directHl s queue =
     (if ps_parseOffset s + 16 \<le> length (ps_data s)
      then case gifTagSize (drop (ps_parseOffset s) (ps_data s)) of
             None \<Rightarrow> (dropIncompletePacket s, queue, Some (MalformedTag pathId))
           | Some (tagBytes, eop, img) \<Rightarrow>
               if tagBytes > length (ps_data s) - ps_parseOffset s then (s, queue, None)
               else let s1 = s\<lparr>ps_packetContainsImage := ps_packetContainsImage s \<or> img,
                               ps_parseOffset := ps_parseOffset s + tagBytes\<rparr>
                    in if \<not> eop then parseTags pathId directHl s1 queue
                       else parseTags pathId directHl
                              (s1\<lparr>ps_packetStart := ps_parseOffset s1, ps_packetContainsImage := False,
                                  ps_path2DirectHl :=
                                    (if ps_parseOffset s1 < length (ps_data s1) then directHl else False)\<rparr>)
                              (queue @ [framedPacket pathId s1])
      else (s, queue, None))"
  by pat_completeness auto
termination
proof (relation "measure (\<lambda>(_, _, s, _). length (ps_data s) - ps_parseOffset s)", goal_cases)
  case 1
  then show ?case by simp
next
  case (2 pathId directHl s queue z tagBytes y eop img x)
  then show ?case using gifTagSize_ge [of _ tagBytes eop img] by fastforce
next
  case (3 pathId directHl s queue z tagBytes y eop img x)
  then show ?case using gifTagSize_ge [of _ tagBytes eop img] by fastforce
qed

declare parseTags.simps [simp del]

definition gif_submit :: "GifPathId \<Rightarrow> u8 list \<Rightarrow> bool \<Rightarrow> gif_arbiter \<Rightarrow> gif_arbiter \<times> gif_drop option" where
  "gif_submit pathId bytes directHl a =
     (if bytes = [] then (a, None)
      else if pathIndex pathId \<ge> length (ga_streams a) then (a, None)
      else let i = pathIndex pathId;
               s0 = ga_streams a ! i;
               s = s0\<lparr>ps_path2DirectHl :=
                        (if ps_packetStart s0 = length (ps_data s0) then directHl
                         else ps_path2DirectHl s0 \<or> directHl)\<rparr>
           in if length bytes > kMaxBufferedGifPathBytes
                 \<or> length (ps_data s) > kMaxBufferedGifPathBytes - length bytes
              then (a\<lparr>ga_streams := (ga_streams a)[i := dropIncompletePacket s]\<rparr>, Some (StreamTooLarge pathId))
              else let (s', queue, d) = parseTags pathId directHl
                         (s\<lparr>ps_data := ps_data s @ bytes\<rparr>) (ga_queue a)
                   in (a\<lparr>ga_streams := (ga_streams a)[i := s'], ga_queue := queue\<rparr>, d))"

section \<open>Reservations, reset and the queries\<close>

datatype gif_error = ReservationTokenExhausted

definition reservePath1 :: "gif_arbiter \<Rightarrow> gif_error + (gif_arbiter \<times> u64)" where
  "reservePath1 a =
     (if ga_nextToken a = 0 \<or> ga_nextToken a = u64_max then Inl ReservationTokenExhausted
      else Inr (a\<lparr>ga_nextToken := ga_nextToken a + 1,
                  ga_reservations := ga_reservations a @ [ga_nextToken a]\<rparr>, ga_nextToken a))"

definition releasePath1 :: "u64 \<Rightarrow> gif_arbiter \<Rightarrow> gif_arbiter \<times> bool" where
  "releasePath1 token a =
     (if token = 0 then (a, False)
      else if token \<notin> set (ga_reservations a) then (a, False)
      else (a\<lparr>ga_reservations := remove1 token (ga_reservations a)\<rparr>, True))"

definition pendingPath1Reservations :: "gif_arbiter \<Rightarrow> nat" where
  "pendingPath1Reservations a = length (ga_reservations a)"

definition gif_reset :: "gif_arbiter \<Rightarrow> gif_arbiter" where
  "gif_reset a = a\<lparr>ga_queue := [], ga_streams := replicate (length (ga_streams a)) emptyStream, ga_reservations := []\<rparr>"

definition gif_empty :: "gif_arbiter \<Rightarrow> bool" where
  "gif_empty a =
     (if ga_reservations a \<noteq> [] then False
      else if ga_queue a \<noteq> [] then False
      else list_all (\<lambda>s. ps_data s = []) (ga_streams a))"

definition canAcceptPath2 :: "bool \<Rightarrow> gif_arbiter \<Rightarrow> bool" where
  "canAcceptPath2 directHl a =
     (if ga_reservations a \<noteq> [] then False
      else if \<not> directHl then True
      else \<not> list_ex (\<lambda>p. gp_pathId p = Path3 \<and> gp_path3Image p) (ga_queue a))"

section \<open>Arbitration order\<close>

definition packetBefore :: "gif_packet \<Rightarrow> gif_packet \<Rightarrow> bool" where
  "packetBefore a b =
     (if (gp_path2DirectHl a \<noteq> gp_path2DirectHl b \<or> gp_path3Image a \<noteq> gp_path3Image b)
         \<and> gp_path3Image a \<and> gp_path2DirectHl b then True
      else if (gp_path2DirectHl a \<noteq> gp_path2DirectHl b \<or> gp_path3Image a \<noteq> gp_path3Image b)
         \<and> gp_path2DirectHl a \<and> gp_path3Image b then False
      else pathPriority (gp_pathId a) < pathPriority (gp_pathId b))"

text \<open>
  \<open>std::stable_sort\<close>. The library requires a strict weak order on the elements and leaves the
  behaviour undefined otherwise: \<open>None\<close>. For a strict weak order the stably sorted list is
  unique, so any algorithm gives the list that insertion gives.
\<close>

definition strictWeakOrder :: "('a \<Rightarrow> 'a \<Rightarrow> bool) \<Rightarrow> 'a list \<Rightarrow> bool" where
  "strictWeakOrder before xs =
     list_all (\<lambda>x. \<not> before x x \<and> list_all (\<lambda>y. list_all (\<lambda>z.
       (before x y \<and> before y z \<longrightarrow> before x z)
       \<and> (\<not> before x y \<and> \<not> before y x \<and> \<not> before y z \<and> \<not> before z y \<longrightarrow> \<not> before x z \<and> \<not> before z x)) xs) xs) xs"

primrec insertStable :: "('a \<Rightarrow> 'a \<Rightarrow> bool) \<Rightarrow> 'a \<Rightarrow> 'a list \<Rightarrow> 'a list" where
  "insertStable before x [] = [x]"
| "insertStable before x (y # ys) = (if before y x then y # insertStable before x ys else x # y # ys)"

definition stableSort :: "('a \<Rightarrow> 'a \<Rightarrow> bool) \<Rightarrow> 'a list \<Rightarrow> 'a list option" where
  "stableSort before xs = (if strictWeakOrder before xs then Some (foldr (insertStable before) xs []) else None)"

section \<open>Draining\<close>

definition packetBytes :: "drain_batch \<Rightarrow> drain_packet \<Rightarrow> u8 list" where
  "packetBytes batch p =
     (if dp_storageIndex p \<ge> length (db_storage batch) then []
      else let bytes = db_storage batch ! dp_storageIndex p
           in if dp_offset p > length bytes \<or> dp_size p > length bytes - dp_offset p then []
              else take (dp_size p) (drop (dp_offset p) bytes))"

definition emptyBatch :: drain_batch where
  "emptyBatch = \<lparr>db_storage = replicate 4 [], db_packets = []\<rparr>"

definition consumedByPath :: "gif_packet list \<Rightarrow> nat \<Rightarrow> nat" where
  "consumedByPath queue i =
     fold (\<lambda>p m. if pathIndex (gp_pathId p) = i then max m (gp_offset p + gp_size p) else m) queue 0"

text \<open>One stream gives up its complete prefix: what stays, and what the batch owns.\<close>

definition takePrefix :: "nat \<Rightarrow> path_stream \<Rightarrow> path_stream \<times> u8 list" where
  "takePrefix consumed s =
     (if consumed = 0 \<or> consumed > length (ps_data s) then (s, [])
      else let s1 = s\<lparr>ps_data := drop consumed (ps_data s), ps_packetStart := 0,
                      ps_parseOffset := ps_parseOffset s - consumed\<rparr>
           in (if ps_data s1 = [] then s1\<lparr>ps_path2DirectHl := False, ps_packetContainsImage := False\<rparr> else s1,
               take consumed (ps_data s)))"

definition ownedBy :: "u8 list list \<Rightarrow> gif_packet \<Rightarrow> bool" where
  "ownedBy storage p =
     (let bytes = storage ! pathIndex (gp_pathId p)
      in gp_size p \<noteq> 0 \<and> gp_offset p \<le> length bytes \<and> gp_size p \<le> length bytes - gp_offset p)"

definition ownedPacket :: "gif_packet \<Rightarrow> drain_packet" where
  "ownedPacket p =
     \<lparr>dp_pathId = gp_pathId p, dp_path2DirectHl = gp_path2DirectHl p, dp_path3Image = gp_path3Image p,
      dp_storageIndex = pathIndex (gp_pathId p), dp_offset = gp_offset p, dp_size = gp_size p\<rparr>"

definition takeDrainBatch :: "gif_arbiter \<Rightarrow> (gif_arbiter \<times> drain_batch) option" where
  "takeDrainBatch a =
     (if ga_queue a = [] \<or> ga_reservations a \<noteq> [] then Some (a, emptyBatch)
      else case stableSort packetBefore (ga_queue a) of
             None \<Rightarrow> None
           | Some queue \<Rightarrow>
               let taken = map (\<lambda>i. takePrefix (consumedByPath queue i) (ga_streams a ! i))
                             [0..<length (ga_streams a)];
                   storage = map snd taken
               in Some (a\<lparr>ga_streams := map fst taken, ga_queue := []\<rparr>,
                        \<lparr>db_storage = storage, db_packets = map ownedPacket (filter (ownedBy storage) queue)\<rparr>))"

text \<open>What \<open>drain\<close> hands to the installed callbacks, in order.\<close>

datatype gif_call = BeginDrain | ProcessPacket "u8 list" | EndDrain | ProcessBatch drain_batch

definition gif_drain :: "gif_arbiter \<Rightarrow> (gif_arbiter \<times> gif_call list) option" where
  "gif_drain a =
     (if (\<not> ga_processFn a \<and> \<not> ga_processBatchFn a) \<or> ga_queue a = [] \<or> ga_reservations a \<noteq> []
      then Some (a, [])
      else case takeDrainBatch a of
             None \<Rightarrow> None
           | Some (a', batch) \<Rightarrow>
               if db_packets batch = [] then Some (a', [])
               else if ga_processBatchFn a then Some (a', [ProcessBatch batch])
               else Some (a',
                 (if ga_beginDrainFn a then [BeginDrain] else [])
                 @ map ProcessPacket (filter (\<lambda>bs. bs \<noteq> []) (map (packetBytes batch) (db_packets batch)))
                 @ (if ga_endDrainFn a then [EndDrain] else [])))"

end
