(* ===== verification/GifArbiterFacts.thy ===== *)
theory GifArbiterFacts
  imports GifArbiter "HOL-Library.Multiset"
begin

text \<open>
  The invariant of the GIF arbiter: on each path the queued packets tile the framed prefix of
  the path's stream. What framing and draining do to it, and that framing does not depend on
  how the bytes were cut into submissions.
\<close>

section \<open>Packets tile the stream\<close>

fun tiles :: "nat \<Rightarrow> gif_packet list \<Rightarrow> nat \<Rightarrow> bool" where
  "tiles a [] b = (a = b)"
| "tiles a (p # ps) b = (gp_offset p = a \<and> 0 < gp_size p \<and> tiles (a + gp_size p) ps b)"

lemma tiles_append: "tiles a (ps @ qs) c \<longleftrightarrow> (\<exists>b. tiles a ps b \<and> tiles b qs c)"
  by (induction ps arbitrary: a) auto

lemma tiles_le: "tiles a ps b \<Longrightarrow> a \<le> b"
  by (induction ps arbitrary: a) force+

lemma tiles_within: "tiles a ps b \<Longrightarrow> p \<in> set ps \<Longrightarrow> a \<le> gp_offset p \<and> gp_offset p + gp_size p \<le> b \<and> 0 < gp_size p"
proof (induction ps arbitrary: a)
  case (Cons q ps)
  then show ?case using tiles_le [of "a + gp_size q" ps b] by fastforce
qed simp

text \<open>Reading the tiles one after the other reads the prefix.\<close>

lemma tiles_concat:
  "tiles a ps b \<Longrightarrow> b \<le> length bytes \<Longrightarrow>
   concat (map (\<lambda>p. take (gp_size p) (drop (gp_offset p) bytes)) ps) = take (b - a) (drop a bytes)"
proof (induction ps arbitrary: a)
  case (Cons p ps)
  then have IH: "concat (map (\<lambda>p. take (gp_size p) (drop (gp_offset p) bytes)) ps)
      = take (b - (a + gp_size p)) (drop (a + gp_size p) bytes)" by simp
  have "a + gp_size p \<le> b" using Cons.prems tiles_le by auto
  then have "b - a = gp_size p + (b - (a + gp_size p))" by simp
  then have "take (b - a) (drop a bytes)
      = take (gp_size p) (drop a bytes) @ take (b - (a + gp_size p)) (drop (gp_size p) (drop a bytes))"
    by (metis take_add)
  then show ?case using Cons.prems(1) IH by (simp add: add.commute)
qed simp

abbreviation ofPath :: "GifPathId \<Rightarrow> gif_packet list \<Rightarrow> gif_packet list" where
  "ofPath pathId queue \<equiv> filter (\<lambda>p. gp_pathId p = pathId) queue"

definition stream_ok :: "gif_packet list \<Rightarrow> path_stream \<Rightarrow> bool" where
  "stream_ok ps s \<longleftrightarrow> tiles 0 ps (ps_packetStart s) \<and> ps_packetStart s \<le> ps_parseOffset s
     \<and> ps_parseOffset s \<le> length (ps_data s) \<and> length (ps_data s) \<le> kMaxBufferedGifPathBytes"

definition flags_ok :: "gif_packet \<Rightarrow> bool" where
  "flags_ok p \<longleftrightarrow> (gp_path2DirectHl p \<longrightarrow> gp_pathId p = Path2) \<and> (gp_path3Image p \<longrightarrow> gp_pathId p = Path3)"

abbreviation gif_stream :: "gif_arbiter \<Rightarrow> GifPathId \<Rightarrow> path_stream" where
  "gif_stream a pathId \<equiv> ga_streams a ! pathIndex pathId"

definition gif_inv :: "gif_arbiter \<Rightarrow> bool" where
  "gif_inv a \<longleftrightarrow> length (ga_streams a) = 4 \<and> (\<forall>p \<in> set (ga_queue a). flags_ok p)
     \<and> (\<forall>pathId. stream_ok (ofPath pathId (ga_queue a)) (gif_stream a pathId))"

lemma pathIndex_less [simp]: "pathIndex p < 4"
  by (cases p) simp_all

lemma pathIndex_not_ge [simp]: "\<not> 4 \<le> pathIndex p"
  by (simp add: not_le)

lemma pathIndex_eq [simp]: "pathIndex p = pathIndex q \<longleftrightarrow> p = q"
  by (cases p; cases q) simp_all

lemma gif_inv_new: "gif_inv ga_new"
  by (simp add: gif_inv_def ga_new_def stream_ok_def emptyStream_def)

lemma gif_inv_reset: "gif_inv a \<Longrightarrow> gif_inv (gif_reset a)"
  by (simp add: gif_inv_def gif_reset_def stream_ok_def emptyStream_def)

section \<open>Framing\<close>

lemma stream_ok_drop: "stream_ok ps s \<Longrightarrow> stream_ok ps (dropIncompletePacket s)"
  by (simp add: stream_ok_def dropIncompletePacket_def)

lemma framed_flags: "flags_ok (framedPacket pathId s)" "gp_pathId (framedPacket pathId s) = pathId"
  by (simp_all add: flags_ok_def framedPacket_def)

text \<open>The three ways a turn of the loop goes, as one case rule for the proofs below.\<close>

lemma parseTags_rest:
  "\<not> ps_parseOffset s + 16 \<le> length (ps_data s) \<Longrightarrow> parseTags pathId d s q = (s, q, None)"
  by (simp add: parseTags.simps)

lemma parseTags_malformed:
  "ps_parseOffset s + 16 \<le> length (ps_data s) \<Longrightarrow> gifTagSize (drop (ps_parseOffset s) (ps_data s)) = None \<Longrightarrow>
   parseTags pathId d s q = (dropIncompletePacket s, q, Some (MalformedTag pathId))"
  by (simp add: parseTags.simps)

lemma parseTags_wait:
  "ps_parseOffset s + 16 \<le> length (ps_data s) \<Longrightarrow>
   gifTagSize (drop (ps_parseOffset s) (ps_data s)) = Some (n, e, i) \<Longrightarrow>
   n > length (ps_data s) - ps_parseOffset s \<Longrightarrow> parseTags pathId d s q = (s, q, None)"
  by (simp add: parseTags.simps)

definition afterTag :: "nat \<Rightarrow> bool \<Rightarrow> path_stream \<Rightarrow> path_stream" where
  "afterTag n i s = s\<lparr>ps_packetContainsImage := ps_packetContainsImage s \<or> i, ps_parseOffset := ps_parseOffset s + n\<rparr>"

definition afterPacket :: "bool \<Rightarrow> path_stream \<Rightarrow> path_stream" where
  "afterPacket d s = s\<lparr>ps_packetStart := ps_parseOffset s, ps_packetContainsImage := False,
     ps_path2DirectHl := (if ps_parseOffset s < length (ps_data s) then d else False)\<rparr>"

lemma parseTags_more:
  "ps_parseOffset s + 16 \<le> length (ps_data s) \<Longrightarrow>
   gifTagSize (drop (ps_parseOffset s) (ps_data s)) = Some (n, e, i) \<Longrightarrow>
   n \<le> length (ps_data s) - ps_parseOffset s \<Longrightarrow>
   parseTags pathId d s q =
     (if e then parseTags pathId d (afterPacket d (afterTag n i s)) (q @ [framedPacket pathId (afterTag n i s)])
      else parseTags pathId d (afterTag n i s) q)"
  by (subst parseTags.simps) (simp add: Let_def afterTag_def afterPacket_def)

lemma parseTags_cases [case_names rest malformed wait more]:
  assumes "\<not> ps_parseOffset s + 16 \<le> length (ps_data s) \<Longrightarrow> P"
    and "ps_parseOffset s + 16 \<le> length (ps_data s) \<Longrightarrow> gifTagSize (drop (ps_parseOffset s) (ps_data s)) = None \<Longrightarrow> P"
    and "\<And>n e i. ps_parseOffset s + 16 \<le> length (ps_data s) \<Longrightarrow>
      gifTagSize (drop (ps_parseOffset s) (ps_data s)) = Some (n, e, i) \<Longrightarrow>
      n > length (ps_data s) - ps_parseOffset s \<Longrightarrow> P"
    and "\<And>n e i. ps_parseOffset s + 16 \<le> length (ps_data s) \<Longrightarrow>
      gifTagSize (drop (ps_parseOffset s) (ps_data s)) = Some (n, e, i) \<Longrightarrow>
      n \<le> length (ps_data s) - ps_parseOffset s \<Longrightarrow> 16 \<le> n \<Longrightarrow> P"
  shows P
  using assms gifTagSize_ge by (cases "gifTagSize (drop (ps_parseOffset s) (ps_data s))") (fastforce simp: not_le)+

text \<open>An induction over the loop with the two ways it goes on.\<close>

lemma parseTags_induct [case_names step]:
  assumes "\<And>s q. (\<And>s' q'. length (ps_data s') = length (ps_data s) \<Longrightarrow> ps_parseOffset s < ps_parseOffset s' \<Longrightarrow>
      ps_parseOffset s' \<le> length (ps_data s) \<Longrightarrow> P s' q') \<Longrightarrow> P s q"
  shows "P s q"
proof (induction "length (ps_data s) - ps_parseOffset s" arbitrary: s q rule: less_induct)
  case less
  show ?case by (rule assms) (use less in auto)
qed

lemma afterTag_sel [simp]:
  "ps_data (afterTag n i s) = ps_data s" "ps_parseOffset (afterTag n i s) = ps_parseOffset s + n"
  "ps_packetStart (afterTag n i s) = ps_packetStart s" "ps_path2DirectHl (afterTag n i s) = ps_path2DirectHl s"
  by (simp_all add: afterTag_def)

lemma afterPacket_sel [simp]:
  "ps_data (afterPacket d s) = ps_data s" "ps_parseOffset (afterPacket d s) = ps_parseOffset s"
  "ps_packetStart (afterPacket d s) = ps_parseOffset s"
  by (simp_all add: afterPacket_def)

lemma stream_ok_afterTag:
  "stream_ok ps s \<Longrightarrow> n \<le> length (ps_data s) - ps_parseOffset s \<Longrightarrow> stream_ok ps (afterTag n i s)"
  by (auto simp: stream_ok_def)

lemma stream_ok_afterPacket:
  "stream_ok ps s \<Longrightarrow> ps_packetStart s < ps_parseOffset s \<Longrightarrow>
   stream_ok (ps @ [framedPacket pathId s]) (afterPacket d s)"
  by (auto simp: stream_ok_def tiles_append framedPacket_def)

lemma parseTags_inv:
  "parseTags pathId d s q = (s', q', r) \<Longrightarrow> stream_ok (ofPath pathId q) s \<Longrightarrow> (\<forall>p \<in> set q. flags_ok p) \<Longrightarrow>
   stream_ok (ofPath pathId q') s' \<and> (\<forall>p \<in> set q'. flags_ok p)
   \<and> (\<forall>other. other \<noteq> pathId \<longrightarrow> ofPath other q' = ofPath other q)
   \<and> ps_data s' = (if r = None then ps_data s else take (ps_packetStart s') (ps_data s))"
proof (induction s q arbitrary: s' q' r rule: parseTags_induct)
  case (step s q)
  have ps: "ps_packetStart s \<le> ps_parseOffset s" using step.prems(2) by (simp add: stream_ok_def)
  show ?case
  proof (cases s rule: parseTags_cases)
    case rest
    then show ?thesis using step.prems by (simp add: parseTags_rest)
  next
    case malformed
    then show ?thesis using step.prems
      by (auto simp: parseTags_malformed stream_ok_drop) (simp add: dropIncompletePacket_def)
  next
    case (wait n e i)
    then show ?thesis using step.prems by (simp add: parseTags_wait)
  next
    case (more n e i)
    note ok = stream_ok_afterTag [OF step.prems(2) more(3), of i]
    note go = step.prems(1) [unfolded parseTags_more [OF more(1-3)]]
    show ?thesis
    proof (cases e)
      case False
      have "stream_ok (ofPath pathId q') s' \<and> (\<forall>p \<in> set q'. flags_ok p)
         \<and> (\<forall>other. other \<noteq> pathId \<longrightarrow> ofPath other q' = ofPath other q)
         \<and> ps_data s' = (if r = None then ps_data (afterTag n i s) else take (ps_packetStart s') (ps_data (afterTag n i s)))"
        by (rule step.IH) (use go False ok more step.prems(3) in auto)
      then show ?thesis by simp
    next
      case True
      let ?s = "afterTag n i s" and ?p = "framedPacket pathId (afterTag n i s)"
      have "stream_ok (ofPath pathId q @ [?p]) (afterPacket d ?s)"
        by (rule stream_ok_afterPacket [OF ok]) (use ps more(4) in simp)
      then have ok': "stream_ok (ofPath pathId (q @ [?p])) (afterPacket d ?s)" by (simp add: framed_flags)
      have "stream_ok (ofPath pathId q') s' \<and> (\<forall>p \<in> set q'. flags_ok p)
         \<and> (\<forall>other. other \<noteq> pathId \<longrightarrow> ofPath other q' = ofPath other (q @ [?p]))
         \<and> ps_data s' = (if r = None then ps_data (afterPacket d ?s) else take (ps_packetStart s') (ps_data (afterPacket d ?s)))"
        by (rule step.IH) (use go True ok' more step.prems(3) framed_flags in auto)
      then show ?thesis by (simp add: framed_flags)
    qed
  qed
qed


text \<open>What a submission does to the state, on every branch.\<close>

definition opened :: "bool \<Rightarrow> path_stream \<Rightarrow> path_stream" where
  "opened d s = s\<lparr>ps_path2DirectHl :=
     (if ps_packetStart s = length (ps_data s) then d else ps_path2DirectHl s \<or> d)\<rparr>"

definition tooLarge :: "u8 list \<Rightarrow> path_stream \<Rightarrow> bool" where
  "tooLarge bytes s \<longleftrightarrow> length bytes > kMaxBufferedGifPathBytes
     \<or> length (ps_data s) > kMaxBufferedGifPathBytes - length bytes"

lemma opened_sel [simp]:
  "ps_data (opened d s) = ps_data s" "ps_packetStart (opened d s) = ps_packetStart s"
  "ps_parseOffset (opened d s) = ps_parseOffset s"
  by (simp_all add: opened_def)

lemma tooLarge_opened [simp]: "tooLarge bytes (opened d s) = tooLarge bytes s"
  by (simp add: tooLarge_def)

lemma submit_unfold:
  assumes "length (ga_streams a) = 4" "bytes \<noteq> []"
  shows "gif_submit pathId bytes d a =
     (let s = opened d (gif_stream a pathId)
      in if tooLarge bytes s
         then (a\<lparr>ga_streams := (ga_streams a)[pathIndex pathId := dropIncompletePacket s]\<rparr>, Some (StreamTooLarge pathId))
         else let (s', queue, r) = parseTags pathId d (s\<lparr>ps_data := ps_data s @ bytes\<rparr>) (ga_queue a)
              in (a\<lparr>ga_streams := (ga_streams a)[pathIndex pathId := s'], ga_queue := queue\<rparr>, r))"
  using assms by (simp add: gif_submit_def opened_def tooLarge_def Let_def)

lemma gif_inv_submit:
  assumes inv: "gif_inv a" and sub: "gif_submit pathId bytes d a = (a', r)"
  shows "gif_inv a'"
    and "ps_data (gif_stream a' pathId)
      = (if r = None then ps_data (gif_stream a pathId) @ bytes
         else take (ps_packetStart (gif_stream a' pathId)) (ps_data (gif_stream a pathId) @ bytes))"
    and "other \<noteq> pathId \<Longrightarrow> gif_stream a' other = gif_stream a other"
proof -
  have four: "length (ga_streams a) = 4" and fl: "\<forall>p \<in> set (ga_queue a). flags_ok p"
    and ok: "\<And>p. stream_ok (ofPath p (ga_queue a)) (gif_stream a p)"
    using inv by (simp_all add: gif_inv_def)
  let ?s = "gif_stream a pathId" and ?i = "pathIndex pathId"
  have "gif_inv a' \<and> ps_data (gif_stream a' pathId)
      = (if r = None then ps_data ?s @ bytes else take (ps_packetStart (gif_stream a' pathId)) (ps_data ?s @ bytes))
      \<and> (\<forall>other. other \<noteq> pathId \<longrightarrow> gif_stream a' other = gif_stream a other)"
  proof (cases "bytes = []")
    case True
    then show ?thesis using inv sub by (simp add: gif_submit_def)
  next
    case False
    note sub' = sub [unfolded submit_unfold [OF four False]]
    have ok0: "stream_ok (ofPath pathId (ga_queue a)) (opened d ?s)" using ok [of pathId] by (simp add: stream_ok_def)
    show ?thesis
    proof (cases "tooLarge bytes ?s")
      case True
      then have a': "a' = a\<lparr>ga_streams := (ga_streams a)[?i := dropIncompletePacket (opened d ?s)]\<rparr>" and r: "r = Some (StreamTooLarge pathId)"
        using sub' by simp_all
      have dk: "ps_packetStart (dropIncompletePacket (opened d ?s)) = ps_packetStart ?s"
        "ps_data (dropIncompletePacket (opened d ?s)) = take (ps_packetStart ?s) (ps_data ?s)"
        by (simp_all add: dropIncompletePacket_def)
      have "ps_packetStart ?s \<le> length (ps_data ?s)" using ok [of pathId] by (simp add: stream_ok_def)
      then show ?thesis using inv stream_ok_drop [OF ok0] dk four
        by (auto simp: a' r gif_inv_def nth_list_update)
    next
      case fits: False
      obtain s' q' where pt: "parseTags pathId d ((opened d ?s)\<lparr>ps_data := ps_data ?s @ bytes\<rparr>) (ga_queue a) = (s', q', r)"
        and a': "a' = a\<lparr>ga_streams := (ga_streams a)[?i := s'], ga_queue := q'\<rparr>"
        using sub' fits by (auto simp: Let_def split: prod.splits)
      have "stream_ok (ofPath pathId (ga_queue a)) ((opened d ?s)\<lparr>ps_data := ps_data ?s @ bytes\<rparr>)"
        using ok0 fits by (auto simp: stream_ok_def tooLarge_def)
      note res = parseTags_inv [OF pt this fl]
      then show ?thesis using ok four by (auto simp: a' gif_inv_def nth_list_update)
    qed
  qed
  then show "gif_inv a'" and "ps_data (gif_stream a' pathId)
      = (if r = None then ps_data ?s @ bytes else take (ps_packetStart (gif_stream a' pathId)) (ps_data ?s @ bytes))"
    and "other \<noteq> pathId \<Longrightarrow> gif_stream a' other = gif_stream a other" by blast+
qed

section \<open>Framing does not see the cuts\<close>

lemma le64_append: "8 \<le> length bs \<Longrightarrow> le64 (bs @ cs) = le64 bs"
  by (simp add: le64_def)

lemma gifTagSize_append: "16 \<le> length bs \<Longrightarrow> gifTagSize (bs @ cs) = gifTagSize bs"
  by (simp add: gifTagSize_def le64_append)

definition extended :: "bool \<Rightarrow> u8 list \<Rightarrow> path_stream \<Rightarrow> path_stream" where
  "extended d bytes s = (opened d s)\<lparr>ps_data := ps_data s @ bytes\<rparr>"

lemma extended_sel [simp]:
  "ps_data (extended d bytes s) = ps_data s @ bytes" "ps_packetStart (extended d bytes s) = ps_packetStart s"
  "ps_parseOffset (extended d bytes s) = ps_parseOffset s"
  by (simp_all add: extended_def)

lemma parseTags_extended:
  "parseTags pathId d s q = (s', q', None) \<Longrightarrow> ps_packetStart s \<le> ps_parseOffset s \<Longrightarrow>
   (d \<longrightarrow> ps_path2DirectHl s \<or> ps_packetStart s = length (ps_data s)) \<Longrightarrow> bytes \<noteq> [] \<Longrightarrow>
   parseTags pathId d (extended d bytes s) q = parseTags pathId d (extended d bytes s') q'"
proof (induction s q arbitrary: s' q' rule: parseTags_induct)
  case (step s q)
  show ?case
  proof (cases s rule: parseTags_cases)
    case rest
    then show ?thesis using step.prems(1) by (simp add: parseTags_rest)
  next
    case malformed
    then show ?thesis using step.prems(1) by (simp add: parseTags_malformed)
  next
    case (wait n e i)
    then show ?thesis using step.prems(1) by (simp add: parseTags_wait)
  next
    case (more n e i)
    note go = step.prems(1) [unfolded parseTags_more [OF more(1-3)]]
    have tag: "gifTagSize (drop (ps_parseOffset (extended d bytes s)) (ps_data (extended d bytes s))) = Some (n, e, i)"
      using more(1,2) gifTagSize_append [of "drop (ps_parseOffset s) (ps_data s)" bytes] by simp
    have "parseTags pathId d (extended d bytes s) q =
     (if e then parseTags pathId d (afterPacket d (afterTag n i (extended d bytes s))) (q @ [framedPacket pathId (afterTag n i (extended d bytes s))])
      else parseTags pathId d (afterTag n i (extended d bytes s)) q)"
      by (rule parseTags_more [OF _ tag]) (use more in auto)
    moreover have hl: "ps_path2DirectHl (extended d bytes s) = ps_path2DirectHl s"
      using more(1) step.prems(2,3) by (auto simp: extended_def opened_def)
    moreover have "afterTag n i (extended d bytes s) = extended d bytes (afterTag n i s)"
      using more(1) step.prems(2) by (simp add: afterTag_def extended_def opened_def)
    moreover have "framedPacket pathId (extended d bytes (afterTag n i s)) = framedPacket pathId (afterTag n i s)"
      using hl more(1) step.prems(2) by (simp add: framedPacket_def afterTag_def extended_def opened_def)
    moreover have "afterPacket d (extended d bytes (afterTag n i s)) = extended d bytes (afterPacket d (afterTag n i s))"
      using more step.prems(4) by (auto simp: afterTag_def afterPacket_def extended_def opened_def)
    ultimately have ext: "parseTags pathId d (extended d bytes s) q =
     (if e then parseTags pathId d (extended d bytes (afterPacket d (afterTag n i s))) (q @ [framedPacket pathId (afterTag n i s)])
      else parseTags pathId d (extended d bytes (afterTag n i s)) q)" by simp
    show ?thesis
    proof (cases e)
      case False
      have "parseTags pathId d (extended d bytes (afterTag n i s)) q = parseTags pathId d (extended d bytes s') q'"
        by (rule step.IH) (use go False more step.prems in auto)
      then show ?thesis using ext False by simp
    next
      case True
      have "parseTags pathId d (extended d bytes (afterPacket d (afterTag n i s))) (q @ [framedPacket pathId (afterTag n i s)])
        = parseTags pathId d (extended d bytes s') q'"
        by (rule step.IH) (use go True more step.prems(4) in \<open>auto simp: afterPacket_def\<close>)
      then show ?thesis using ext True by simp
    qed
  qed
qed


lemma submit_twice:
  assumes inv: "gif_inv a" and ne: "xs \<noteq> []" "ys \<noteq> []"
    and s1: "gif_submit pathId xs d a = (a1, None)"
    and s2: "gif_submit pathId ys d a1 = (a2, r)" "r \<noteq> Some (StreamTooLarge pathId)"
  shows "gif_submit pathId (xs @ ys) d a = (a2, r)"
proof -
  let ?s = "gif_stream a pathId" and ?i = "pathIndex pathId"
  have four: "length (ga_streams a) = 4" using inv by (simp add: gif_inv_def)
  have ps: "ps_packetStart ?s \<le> ps_parseOffset ?s" "ps_parseOffset ?s \<le> length (ps_data ?s)"
    using inv by (simp_all add: gif_inv_def stream_ok_def)
  note u1 = s1 [unfolded submit_unfold [OF four ne(1)]]
  have fits1: "\<not> tooLarge xs ?s" using u1 by (auto simp: Let_def)
  obtain s' q' where p1: "parseTags pathId d (extended d xs ?s) (ga_queue a) = (s', q', None)"
    and a1: "a1 = a\<lparr>ga_streams := (ga_streams a)[?i := s'], ga_queue := q'\<rparr>"
    using u1 fits1 by (auto simp: Let_def extended_def split: prod.splits)
  have st1: "gif_stream a1 pathId = s'" and four1: "length (ga_streams a1) = 4" using four by (simp_all add: a1)
  have data1: "ps_data s' = ps_data ?s @ xs" using gif_inv_submit(2) [OF inv s1] st1 by simp
  note u2 = s2(1) [unfolded submit_unfold [OF four1 ne(2)] st1]
  have fits2: "\<not> tooLarge ys s'" using u2 s2(2) by (auto simp: Let_def)
  obtain s'' q'' where p2: "parseTags pathId d (extended d ys s') q' = (s'', q'', r)"
    and a2: "a2 = a1\<lparr>ga_streams := (ga_streams a1)[?i := s''], ga_queue := q''\<rparr>"
    using u2 fits2 by (auto simp: Let_def extended_def a1 split: prod.splits)
  have fits: "\<not> tooLarge (xs @ ys) ?s" using fits1 fits2 data1 by (auto simp: tooLarge_def)
  have ext: "extended d ys (extended d xs ?s) = extended d (xs @ ys) ?s"
    using ps ne(1) by (simp add: extended_def opened_def)
  have "d \<longrightarrow> ps_path2DirectHl (extended d xs ?s) \<or> ps_packetStart (extended d xs ?s) = length (ps_data (extended d xs ?s))"
    by (simp add: extended_def opened_def)
  from parseTags_extended [OF p1 _ this ne(2)] have "parseTags pathId d (extended d (xs @ ys) ?s) (ga_queue a) = (s'', q'', r)"
    using ps ext p2 by simp
  then show ?thesis using submit_unfold [OF four, of "xs @ ys" pathId d] fits ne a1 a2
    by (simp add: Let_def extended_def)
qed

lemma submit_inv_run:
  "gif_inv a \<Longrightarrow> gif_submit pathId bytes d a = (a', r) \<Longrightarrow> gif_inv a'"
  by (rule gif_inv_submit(1))

section \<open>The stable sort\<close>

lemma mset_insertStable [simp]: "mset (insertStable before x ys) = add_mset x (mset ys)"
  by (induction ys) auto

lemma mset_insertions [simp]: "mset (foldr (insertStable before) xs []) = mset xs"
  by (induction xs) auto

lemma set_insertions [simp]: "set (foldr (insertStable before) xs []) = set xs"
  using mset_insertions by (metis set_mset_mset)

lemma filter_insertStable:
  "(\<And>y. y \<in> set ys \<Longrightarrow> Q y \<Longrightarrow> Q x \<Longrightarrow> \<not> before y x) \<Longrightarrow>
   filter Q (insertStable before x ys) = (if Q x then x # filter Q ys else filter Q ys)"
  by (induction ys) auto

lemma filter_insertions:
  "(\<And>x y. x \<in> set xs \<Longrightarrow> y \<in> set xs \<Longrightarrow> Q x \<Longrightarrow> Q y \<Longrightarrow> \<not> before y x) \<Longrightarrow>
   filter Q (foldr (insertStable before) xs []) = filter Q xs"
proof (induction xs)
  case (Cons x xs)
  have "filter Q (insertStable before x (foldr (insertStable before) xs []))
      = (if Q x then x # filter Q (foldr (insertStable before) xs []) else filter Q (foldr (insertStable before) xs []))"
    by (rule filter_insertStable) (use Cons.prems in simp)
  moreover have "filter Q (foldr (insertStable before) xs []) = filter Q xs"
    by (rule Cons.IH) (use Cons.prems in simp)
  ultimately show ?case by simp
qed simp

lemma strictWeakOrder_ball:
  "strictWeakOrder before xs \<longleftrightarrow> (\<forall>x \<in> set xs. \<not> before x x \<and> (\<forall>y \<in> set xs. \<forall>z \<in> set xs.
     (before x y \<and> before y z \<longrightarrow> before x z)
     \<and> (\<not> before x y \<and> \<not> before y x \<and> \<not> before y z \<and> \<not> before z y \<longrightarrow> \<not> before x z \<and> \<not> before z x)))"
  by (simp add: strictWeakOrder_def list_all_iff)

lemma notBefore_trans:
  assumes "strictWeakOrder before xs" "x \<in> set xs" "y \<in> set xs" "z \<in> set xs"
    "\<not> before y x" "\<not> before z y"
  shows "\<not> before z x"
  using assms unfolding strictWeakOrder_ball by metis

lemma sorted_insertStable:
  assumes swo: "strictWeakOrder before zs" and sub: "x \<in> set zs" "set ys \<subseteq> set zs"
    and sorted: "sorted_wrt (\<lambda>a b. \<not> before b a) ys"
  shows "sorted_wrt (\<lambda>a b. \<not> before b a) (insertStable before x ys)"
  using sub(2) sorted
proof (induction ys)
  case (Cons y ys)
  show ?case
  proof (cases "before y x")
    case True
    then have "\<not> before x y" using swo sub(1) Cons.prems(1) unfolding strictWeakOrder_ball by (metis list.set_intros(1) subsetD)
    moreover have "set (insertStable before x ys) = insert x (set ys)" using mset_insertStable by (metis set_mset_add_mset_insert set_mset_mset)
    ultimately show ?thesis using Cons True by auto
  next
    case False
    then have "\<not> before z x" if "z \<in> set ys" for z
      using notBefore_trans [OF swo sub(1), of y z] that Cons.prems by auto
    then show ?thesis using False Cons.prems by auto
  qed
qed simp

lemma sorted_insertions:
  assumes "strictWeakOrder before zs" "set xs \<subseteq> set zs"
  shows "sorted_wrt (\<lambda>a b. \<not> before b a) (foldr (insertStable before) xs [])"
  using assms(2) by (induction xs) (auto intro!: sorted_insertStable [OF assms(1)])

lemma stableSort_sorted:
  "stableSort before xs = Some ys \<Longrightarrow> mset ys = mset xs \<and> sorted_wrt (\<lambda>a b. \<not> before b a) ys"
  using sorted_insertions [of before xs xs] by (auto simp: stableSort_def split: if_splits)

lemma stableSort_filter:
  assumes "stableSort before xs = Some ys"
    and "\<And>x y. x \<in> set xs \<Longrightarrow> y \<in> set xs \<Longrightarrow> Q x \<Longrightarrow> Q y \<Longrightarrow> \<not> before y x"
  shows "filter Q ys = filter Q xs"
  using assms(1) filter_insertions [OF assms(2)] by (auto simp: stableSort_def split: if_splits)

lemma packetBefore_path:
  "flags_ok p \<Longrightarrow> flags_ok q \<Longrightarrow> gp_pathId p = gp_pathId q \<Longrightarrow> \<not> packetBefore p q"
  by (cases "gp_pathId q") (auto simp: packetBefore_def flags_ok_def)


section \<open>Draining\<close>

lemma consumed_filter:
  "consumedByPath queue (pathIndex pathId) = fold (\<lambda>p m. max m (gp_offset p + gp_size p)) (ofPath pathId queue) 0"
proof -
  have "fold (\<lambda>p m. if pathIndex (gp_pathId p) = pathIndex pathId then max m (gp_offset p + gp_size p) else m) queue k
      = fold (\<lambda>p m. max m (gp_offset p + gp_size p)) (ofPath pathId queue) k" for k
    by (induction queue arbitrary: k) auto
  then show ?thesis by (simp add: consumedByPath_def)
qed

lemma tiles_consumed:
  "tiles a ps b \<Longrightarrow> m \<le> a \<Longrightarrow> fold (\<lambda>p m. max m (gp_offset p + gp_size p)) ps m = (if ps = [] then m else b)"
proof (induction ps arbitrary: a m)
  case (Cons p ps)
  have "fold (\<lambda>p m. max m (gp_offset p + gp_size p)) ps (a + gp_size p) = (if ps = [] then a + gp_size p else b)"
    by (rule Cons.IH [of "a + gp_size p"]) (use Cons.prems in simp_all)
  moreover have "max m (gp_offset p + gp_size p) = a + gp_size p" using Cons.prems by auto
  ultimately show ?case using Cons.prems by (cases ps) auto
qed simp

lemma consumed_start: "tiles 0 (ofPath pathId queue) b \<Longrightarrow> consumedByPath queue (pathIndex pathId) = b"
  using tiles_consumed [of 0 "ofPath pathId queue" b 0] by (cases "ofPath pathId queue") (simp_all add: consumed_filter)

lemma takePrefix_start:
  assumes "ps_packetStart s \<le> ps_parseOffset s" "ps_parseOffset s \<le> length (ps_data s)"
    "length (ps_data s) \<le> kMaxBufferedGifPathBytes"
  shows "snd (takePrefix (ps_packetStart s) s) = take (ps_packetStart s) (ps_data s)"
    and "ps_data (fst (takePrefix (ps_packetStart s) s)) = drop (ps_packetStart s) (ps_data s)"
    and "stream_ok [] (fst (takePrefix (ps_packetStart s) s))"
  using assms by (auto simp: takePrefix_def Let_def stream_ok_def)

lemma drainable_take:
  assumes inv: "gif_inv a" and some: "ga_queue a \<noteq> []" "ga_reservations a = []"
    and take: "takeDrainBatch a = Some (a', b)"
  shows "\<exists>q. stableSort packetBefore (ga_queue a) = Some q \<and> db_packets b = map ownedPacket q
    \<and> gif_inv a' \<and> ga_queue a' = [] \<and> ga_reservations a' = []
    \<and> (\<forall>p. ps_data (gif_stream a p) = concat (map (packetBytes b) (filter (\<lambda>k. dp_pathId k = p) (db_packets b)))
             @ ps_data (gif_stream a' p))
    \<and> (\<forall>k \<in> set q. 0 < gp_size k \<and> packetBytes b (ownedPacket k) \<noteq> []
         \<and> packetBytes b (ownedPacket k) = take (gp_size k) (drop (gp_offset k) (ps_data (gif_stream a (gp_pathId k)))))"
proof -
  obtain q where q: "stableSort packetBefore (ga_queue a) = Some q"
    using take some by (auto simp: takeDrainBatch_def split: option.splits)
  have four: "length (ga_streams a) = 4" and fl: "\<forall>p \<in> set (ga_queue a). flags_ok p"
    and ok: "\<And>p. stream_ok (ofPath p (ga_queue a)) (gif_stream a p)"
    using inv by (simp_all add: gif_inv_def)
  have path: "ofPath p q = ofPath p (ga_queue a)" for p
    by (rule stableSort_filter [OF q]) (use fl packetBefore_path in auto)
  have tl: "tiles 0 (ofPath p q) (ps_packetStart (gif_stream a p))" for p
    using ok [of p] by (simp add: stream_ok_def path)
  define pre where "pre = (\<lambda>i. takePrefix (consumedByPath q i) (ga_streams a ! i))"
  have pre: "pre (pathIndex p) = takePrefix (ps_packetStart (gif_stream a p)) (gif_stream a p)" for p
    using consumed_start [OF tl] by (simp add: pre_def)
  let ?st = "map snd (map pre [0..<4])"
  have at: "map g (map pre [0..<4]) ! pathIndex p = g (pre (pathIndex p))" for g :: "path_stream \<times> u8 list \<Rightarrow> 'x" and p
    by (simp add: nth_map)
  have a': "a' = a\<lparr>ga_streams := map fst (map pre [0..<4]), ga_queue := []\<rparr>"
    and b: "b = \<lparr>db_storage = ?st, db_packets = map ownedPacket (filter (ownedBy ?st) q)\<rparr>"
    using take some q four by (simp_all add: takeDrainBatch_def Let_def pre_def)
  have bounds: "ps_packetStart (gif_stream a p) \<le> ps_parseOffset (gif_stream a p)"
    "ps_parseOffset (gif_stream a p) \<le> length (ps_data (gif_stream a p))"
    "length (ps_data (gif_stream a p)) \<le> kMaxBufferedGifPathBytes" for p
    using ok [of p] by (simp_all add: stream_ok_def)
  have stor: "?st ! pathIndex p = take (ps_packetStart (gif_stream a p)) (ps_data (gif_stream a p))" for p
    unfolding at pre by (rule takePrefix_start(1) [OF bounds])
  have rest: "ps_data (gif_stream a' p) = drop (ps_packetStart (gif_stream a p)) (ps_data (gif_stream a p))" for p
    using takePrefix_start(2) [OF bounds] by (simp add: a' at pre)
  have len: "length (?st ! pathIndex p) = ps_packetStart (gif_stream a p)" for p
    using stor [of p] bounds [of p] by simp
  have inside: "0 < gp_size k \<and> gp_offset k + gp_size k \<le> ps_packetStart (gif_stream a (gp_pathId k))" if "k \<in> set q" for k
    using tiles_within [OF tl [of "gp_pathId k"], of k] that by simp
  have owned: "filter (ownedBy ?st) q = q"
    unfolding filter_id_conv ownedBy_def Let_def len using inside by force
  have bytes: "packetBytes b (ownedPacket k) = take (gp_size k) (drop (gp_offset k) (?st ! pathIndex (gp_pathId k)))"
    if "k \<in> set q" for k
    using inside [OF that] len [of "gp_pathId k"]
    by (auto simp: packetBytes_def b ownedPacket_def Let_def simp del: map_map)
  have cat: "concat (map (packetBytes b) (filter (\<lambda>k. dp_pathId k = p) (db_packets b))) = ?st ! pathIndex p" for p
  proof -
    have "filter (\<lambda>k. dp_pathId k = p) (db_packets b) = map ownedPacket (ofPath p q)"
      by (simp add: b owned filter_map comp_def ownedPacket_def del: map_map)
    then have "map (packetBytes b) (filter (\<lambda>k. dp_pathId k = p) (db_packets b))
        = map (\<lambda>k. take (gp_size k) (drop (gp_offset k) (?st ! pathIndex p))) (ofPath p q)"
      using bytes by simp
    then show ?thesis using tiles_concat [OF tl [of p], of "?st ! pathIndex p"] len [of p] by (simp del: map_map)
  qed
  have inv': "gif_inv a'"
    using takePrefix_start(3) [OF bounds] by (simp add: gif_inv_def a' at pre del: map_map)
  have "0 < gp_size k \<and> packetBytes b (ownedPacket k) \<noteq> []
      \<and> packetBytes b (ownedPacket k) = take (gp_size k) (drop (gp_offset k) (ps_data (gif_stream a (gp_pathId k))))"
    if k: "k \<in> set q" for k
  proof -
    let ?s = "gif_stream a (gp_pathId k)"
    have "gp_size k \<le> ps_packetStart ?s - gp_offset k" "gp_offset k < length (ps_data ?s)" "0 < gp_size k"
      using inside [OF k] bounds [of "gp_pathId k"] by linarith+
    moreover have "packetBytes b (ownedPacket k) = take (gp_size k) (drop (gp_offset k) (take (ps_packetStart ?s) (ps_data ?s)))"
      unfolding bytes [OF k] stor ..
    ultimately show ?thesis by (simp add: drop_take min_absorb1)
  qed
  then have "\<forall>k \<in> set q. 0 < gp_size k \<and> packetBytes b (ownedPacket k) \<noteq> []
      \<and> packetBytes b (ownedPacket k) = take (gp_size k) (drop (gp_offset k) (ps_data (gif_stream a (gp_pathId k))))"
    by blast
  moreover have "db_packets b = map ownedPacket q" by (simp add: b owned del: map_map)
  moreover have "ga_queue a' = []" "ga_reservations a' = []" using some(2) by (simp_all add: a')
  moreover have "\<forall>p. ps_data (gif_stream a p) = concat (map (packetBytes b) (filter (\<lambda>k. dp_pathId k = p) (db_packets b)))
             @ ps_data (gif_stream a' p)"
    unfolding cat stor rest by simp
  ultimately show ?thesis using q inv' by blast
qed

end
