(* ===== verification/GifArbiterProps.thy ===== *)
theory GifArbiterProps
  imports GifArbiterFacts
begin

text \<open>
  Properties of the GIF arbiter over whole histories: what is drained is what was submitted,
  framing is independent of the cuts, packets leave in arbitration order, reservation tokens
  are never confused across resets, and the queue contents the sort has no answer for.
\<close>

section \<open>Histories\<close>

datatype gif_op = SubmitOp GifPathId "u8 list" bool | ReserveOp | ReleaseOp u64 | TakeOp | ResetOp

text \<open>
  The log beside the arbiter: per path the bytes taken in since the last reset (a dropped
  packet's bytes are struck out, back to the end of the last framed packet) and the bytes
  handed out in batches, the tokens issued, and whether every sort so far was defined.
\<close>

record gif_log =
  gl_accepted :: "GifPathId \<Rightarrow> u8 list"
  gl_drained :: "GifPathId \<Rightarrow> u8 list"
  gl_issued :: "u64 list"
  gl_defined :: bool

definition newLog :: gif_log where
  "newLog = \<lparr>gl_accepted = (\<lambda>_. []), gl_drained = (\<lambda>_. []), gl_issued = [], gl_defined = True\<rparr>"

definition batchBytes :: "drain_batch \<Rightarrow> GifPathId \<Rightarrow> u8 list" where
  "batchBytes b p = concat (map (packetBytes b) (filter (\<lambda>k. dp_pathId k = p) (db_packets b)))"

fun gif_step :: "gif_op \<Rightarrow> gif_arbiter \<times> gif_log \<Rightarrow> gif_arbiter \<times> gif_log" where
  "gif_step (SubmitOp p bytes d) (a, l) =
     (let (a', r) = gif_submit p bytes d a;
          seen = gl_accepted l p @ bytes;
          kept = (case r of None \<Rightarrow> seen
                  | Some _ \<Rightarrow> take (length (gl_drained l p) + ps_packetStart (gif_stream a' p)) seen)
      in (a', l\<lparr>gl_accepted := (gl_accepted l)(p := kept)\<rparr>))"
| "gif_step ReserveOp (a, l) =
     (case reservePath1 a of Inl _ \<Rightarrow> (a, l) | Inr (a', t) \<Rightarrow> (a', l\<lparr>gl_issued := gl_issued l @ [t]\<rparr>))"
| "gif_step (ReleaseOp t) (a, l) = (fst (releasePath1 t a), l)"
| "gif_step TakeOp (a, l) =
     (case takeDrainBatch a of
        None \<Rightarrow> (a, l\<lparr>gl_defined := False\<rparr>)
      | Some (a', b) \<Rightarrow> (a', l\<lparr>gl_drained := (\<lambda>p. gl_drained l p @ batchBytes b p)\<rparr>))"
| "gif_step ResetOp (a, l) = (gif_reset a, l\<lparr>gl_accepted := (\<lambda>_. []), gl_drained := (\<lambda>_. [])\<rparr>)"

definition log_ok :: "gif_arbiter \<times> gif_log \<Rightarrow> bool" where
  "log_ok = (\<lambda>(a, l). gif_inv a
     \<and> (\<forall>p. gl_accepted l p = gl_drained l p @ ps_data (gif_stream a p)))"

lemma log_ok_submit:
  assumes "log_ok (a, l)"
  shows "log_ok (gif_step (SubmitOp p bytes d) (a, l))"
proof -
  obtain a' r where sub: "gif_submit p bytes d a = (a', r)" by fastforce
  have inv: "gif_inv a" and acc: "\<And>p. gl_accepted l p = gl_drained l p @ ps_data (gif_stream a p)"
    using assms by (simp_all add: log_ok_def)
  note res = gif_inv_submit [OF inv sub]
  show ?thesis using res acc
    by (auto simp: log_ok_def sub Let_def split: option.split)
qed

lemma take_nothing:
  "ga_queue a = [] \<or> ga_reservations a \<noteq> [] \<Longrightarrow> takeDrainBatch a = Some (a, emptyBatch)"
  by (auto simp: takeDrainBatch_def)

lemma log_ok_take:
  assumes "log_ok (a, l)"
  shows "log_ok (gif_step TakeOp (a, l))"
proof (cases "takeDrainBatch a")
  case None
  then show ?thesis using assms by (simp add: log_ok_def)
next
  case (Some r)
  obtain a' b where r: "takeDrainBatch a = Some (a', b)" using Some by (cases r) simp
  have inv: "gif_inv a" and acc: "\<And>p. gl_accepted l p = gl_drained l p @ ps_data (gif_stream a p)"
    using assms by (simp_all add: log_ok_def)
  show ?thesis
  proof (cases "ga_queue a = [] \<or> ga_reservations a \<noteq> []")
    case True
    then show ?thesis using take_nothing [OF True] assms
      by (simp add: log_ok_def batchBytes_def emptyBatch_def)
  next
    case False
    then have "ga_queue a \<noteq> []" "ga_reservations a = []" by simp_all
    from drainable_take [OF inv this r] show ?thesis using acc r
      by (auto simp: log_ok_def batchBytes_def)
  qed
qed

lemma log_ok_step: "log_ok s \<Longrightarrow> log_ok (gif_step op s)"
proof (cases s)
  case (Pair a l)
  assume ok: "log_ok s"
  show ?thesis
  proof (cases op)
    case (SubmitOp p bytes d)
    then show ?thesis using log_ok_submit ok Pair by blast
  next
    case TakeOp
    then show ?thesis using log_ok_take ok Pair by blast
  next
    case ReserveOp
    then show ?thesis using ok Pair by (auto simp: log_ok_def gif_inv_def reservePath1_def)
  next
    case (ReleaseOp t)
    then show ?thesis using ok Pair by (auto simp: log_ok_def gif_inv_def releasePath1_def)
  next
    case ResetOp
    then show ?thesis using ok Pair gif_inv_reset [of a]
      by (auto simp: log_ok_def gif_inv_def) (simp add: gif_reset_def emptyStream_def)
  qed
qed

interpretation gif_machine: invariant_machine "(ga_new, newLog)" gif_step log_ok "\<lambda>_. \<infinity>"
proof unfold_locales
  show "log_ok (ga_new, newLog)"
    using gif_inv_new by (simp add: log_ok_def newLog_def) (simp add: ga_new_def emptyStream_def)
qed (simp_all add: log_ok_step)

section \<open>Tokens\<close>

definition tokens_ok :: "u64 \<Rightarrow> gif_arbiter \<times> gif_log \<Rightarrow> bool" where
  "tokens_ok from = (\<lambda>(a, l). from \<le> ga_nextToken a \<and> (\<forall>t \<in> set (ga_reservations a). from \<le> t)
     \<and> distinct (gl_issued l) \<and> (\<forall>t \<in> set (gl_issued l). t < ga_nextToken a))"

lemma next_token_less: "(x :: u64) \<noteq> u64_max \<Longrightarrow> x < x + 1"
  by (simp add: word_less_nat_alt unat_succ_u64)

lemma tokens_ok_step: "tokens_ok from s \<Longrightarrow> tokens_ok from (gif_step op s)"
proof (cases s)
  case (Pair a l)
  assume ok: "tokens_ok from s"
  show ?thesis
  proof (cases op)
    case (SubmitOp p bytes d)
    then show ?thesis using ok Pair
      by (auto simp: tokens_ok_def gif_submit_def Let_def split: prod.splits option.splits if_splits)
  next
    case TakeOp
    then show ?thesis using ok Pair
      by (auto simp: tokens_ok_def takeDrainBatch_def Let_def split: option.splits if_splits)
  next
    case ReserveOp
    show ?thesis
    proof (cases "ga_nextToken a = 0 \<or> ga_nextToken a = u64_max")
      case True
      then show ?thesis using ReserveOp ok Pair by (auto simp: reservePath1_def)
    next
      case False
      then have "ga_nextToken a < ga_nextToken a + 1" by (simp add: next_token_less)
      then show ?thesis using False ReserveOp ok Pair
        by (auto simp: tokens_ok_def reservePath1_def intro: order_trans order_less_trans order_less_imp_le)
    qed
  next
    case (ReleaseOp t)
    then show ?thesis using ok Pair by (auto simp: tokens_ok_def releasePath1_def dest: notin_set_remove1 in_set_remove1 set_remove1_subset [THEN subsetD])
  next
    case ResetOp
    then show ?thesis using ok Pair by (auto simp: tokens_ok_def gif_reset_def)
  qed
qed

lemma tokens_ok_run: "tokens_ok from s \<Longrightarrow> tokens_ok from (fold gif_step ops s)"
  by (induction ops arbitrary: s) (simp_all add: tokens_ok_step)

section \<open>Properties\<close>


primrec submitAll :: "GifPathId \<Rightarrow> bool \<Rightarrow> u8 list list \<Rightarrow> gif_arbiter \<Rightarrow> gif_arbiter option" where
  "submitAll p d [] a = Some a"
| "submitAll p d (bytes # rest) a =
     (case gif_submit p bytes d a of (a', None) \<Rightarrow> submitAll p d rest a' | (_, Some _) \<Rightarrow> None)"

lemma submitAll_concat:
  assumes "gif_inv a" "[] \<notin> set pieces" "pieces \<noteq> []" "submitAll p d pieces a = Some a'"
  shows "gif_submit p (concat pieces) d a = (a', None)"
  using assms
proof (induction pieces arbitrary: a)
  case (Cons bytes rest)
  obtain a1 where s1: "gif_submit p bytes d a = (a1, None)" and r1: "submitAll p d rest a1 = Some a'"
    using Cons.prems(4) by (auto split: prod.splits option.splits)
  show ?case
  proof (cases "rest = []")
    case True
    then show ?thesis using s1 r1 by simp
  next
    case False
    have "gif_submit p (concat rest) d a1 = (a', None)"
      by (rule Cons.IH) (use submit_inv_run [OF Cons.prems(1) s1] Cons.prems(2) False r1 in auto)
    moreover have "concat rest \<noteq> []" using False Cons.prems(2) by (cases rest) auto
    ultimately show ?thesis using submit_twice [OF Cons.prems(1) _ _ s1, of "concat rest" a' None] Cons.prems(2) by auto
  qed
qed simp

text \<open>
  C29. Framing does not depend on how the guest's DMA cut the stream: submitting the pieces
  one after the other, none of them dropped, leaves the arbiter, packets, flags and offsets
  included, as submitting their concatenation does.
\<close>

theorem gif_framing_ignores_cuts:
  assumes "[] \<notin> set pieces" and "pieces \<noteq> []"
    and "submitAll p d pieces (fst (fold gif_step ops (ga_new, newLog))) = Some a'"
  shows "gif_submit p (concat pieces) d (fst (fold gif_step ops (ga_new, newLog))) = (a', None)"
proof -
  have "log_ok (fold gif_step ops (ga_new, newLog))" by (rule gif_machine.inv_run_init) simp
  then have "gif_inv (fst (fold gif_step ops (ga_new, newLog)))" by (simp add: log_ok_def split_beta)
  from submitAll_concat [OF this assms] show ?thesis .
qed

lemma gif_inv_reached: "gif_inv (fst (fold gif_step ops (ga_new, newLog)))"
proof -
  have "log_ok (fold gif_step ops (ga_new, newLog))" by (rule gif_machine.inv_run_init) simp
  then show ?thesis by (simp add: log_ok_def split_beta)
qed


abbreviation gif_reached :: "gif_op list \<Rightarrow> gif_arbiter" where
  "gif_reached ops \<equiv> fst (fold gif_step ops (ga_new, newLog))"

lemma filter_map_nonempty: "(\<And>x. x \<in> set xs \<Longrightarrow> f x \<noteq> []) \<Longrightarrow> filter (\<lambda>b. b \<noteq> []) (map f xs) = map f xs"
  by (simp add: filter_id_conv)

definition with_callbacks :: "gif_arbiter \<Rightarrow> gif_arbiter" where
  "with_callbacks a = setDrainCallbacks True True (setProcessPacketFn True a)"

lemma with_callbacks_sel [simp]:
  "ga_queue (with_callbacks a) = ga_queue a" "ga_reservations (with_callbacks a) = ga_reservations a"
  "ga_streams (with_callbacks a) = ga_streams a" "ga_processFn (with_callbacks a)"
  "\<not> ga_processBatchFn (with_callbacks a)" "ga_beginDrainFn (with_callbacks a)" "ga_endDrainFn (with_callbacks a)"
  by (simp_all add: with_callbacks_def setDrainCallbacks_def setProcessPacketFn_def)

abbreviation streamBytes :: "gif_arbiter \<Rightarrow> gif_packet \<Rightarrow> u8 list" where
  "streamBytes a k \<equiv> take (gp_size k) (drop (gp_offset k) (ps_data (gif_stream a (gp_pathId k))))"

lemma drain_calls:
  assumes inv: "gif_inv a" and ne: "ga_queue a \<noteq> []" "ga_reservations a = []"
    and swo: "strictWeakOrder packetBefore (ga_queue a)"
  shows "\<exists>q a'. gif_drain (with_callbacks a)
        = Some (a', [BeginDrain] @ map (\<lambda>k. ProcessPacket (streamBytes a k)) q @ [EndDrain])
      \<and> mset q = mset (ga_queue a) \<and> sorted_wrt (\<lambda>x y. \<not> packetBefore y x) q
      \<and> (\<forall>p. ofPath p q = ofPath p (ga_queue a)) \<and> ga_queue a' = []"
proof -
  let ?a0 = "with_callbacks a"
  obtain q where sort: "stableSort packetBefore (ga_queue a) = Some q"
    using swo by (simp add: stableSort_def)
  then obtain a' b where take: "takeDrainBatch ?a0 = Some (a', b)"
    using ne by (simp add: takeDrainBatch_def Let_def)
  have inv0: "gif_inv ?a0" and ne0: "ga_queue ?a0 \<noteq> []" "ga_reservations ?a0 = []"
    using inv ne by (simp_all add: gif_inv_def)
  obtain q' where q': "stableSort packetBefore (ga_queue ?a0) = Some q'" and pk: "db_packets b = map ownedPacket q'"
    and e: "ga_queue a' = []"
    and bytes: "\<forall>k \<in> set q'. 0 < gp_size k \<and> packetBytes b (ownedPacket k) \<noteq> []
         \<and> packetBytes b (ownedPacket k) = streamBytes ?a0 k"
    using drainable_take [OF inv0 ne0 take] by blast
  have q: "q' = q" using q' sort by simp
  have ms: "mset q = mset (ga_queue a)" and so: "sorted_wrt (\<lambda>x y. \<not> packetBefore y x) q"
    using stableSort_sorted [OF sort] by blast+
  have nq: "q \<noteq> []" using ms ne(1) by auto
  have st: "\<And>k. k \<in> set q \<Longrightarrow> packetBytes b (ownedPacket k) = streamBytes a k" using bytes by (simp add: q)
  have "filter (\<lambda>bs. bs \<noteq> []) (map (packetBytes b) (db_packets b)) = map (packetBytes b) (db_packets b)"
    by (rule filter_map_nonempty) (use bytes pk in auto)
  also have "\<dots> = map (streamBytes a) q" using st by (simp add: pk q)
  finally have "gif_drain ?a0 = Some (a', [BeginDrain] @ map ProcessPacket (map (streamBytes a) q) @ [EndDrain])"
    using ne take pk nq by (simp add: gif_drain_def q)
  moreover have "ofPath p q = ofPath p (ga_queue a)" for p
    by (rule stableSort_filter [OF sort]) (use inv packetBefore_path in \<open>auto simp: gif_inv_def\<close>)
  ultimately show ?thesis using ms so e by (auto simp: comp_def)
qed

text \<open>
  With no reservation outstanding, a drain hands every queued packet to the callback
  exactly once, between the begin and end callbacks, with exactly its bytes of the stream; by
  priority of path, except that a PATH3 IMAGE packet precedes DIRECTHL ones, and in order of
  arrival on each path. While a reservation is outstanding it does nothing.
\<close>

theorem gif_drain_order:
  assumes "ga_queue (gif_reached ops) \<noteq> []" and "strictWeakOrder packetBefore (ga_queue (gif_reached ops))"
  shows "let a = gif_reached ops in
    if ga_reservations a \<noteq> [] then gif_drain (with_callbacks a) = Some (with_callbacks a, [])
    else \<exists>q a'. gif_drain (with_callbacks a)
           = Some (a', [BeginDrain] @ map (\<lambda>k. ProcessPacket (streamBytes a k)) q @ [EndDrain])
         \<and> mset q = mset (ga_queue a) \<and> sorted_wrt (\<lambda>x y. \<not> packetBefore y x) q
         \<and> (\<forall>p. ofPath p q = ofPath p (ga_queue a)) \<and> ga_queue a' = []"
proof (cases "ga_reservations (gif_reached ops) = []")
  case True
  then show ?thesis using drain_calls [OF gif_inv_reached assms(1) True assms(2)] by (simp only: Let_def simp_thms if_False)
next
  case False
  then show ?thesis by (simp add: gif_drain_def Let_def)
qed

definition packetRank :: "bool \<Rightarrow> gif_packet \<Rightarrow> nat" where
  "packetRank directHlLast p =
     (if directHlLast \<and> gp_path2DirectHl p then 4 else pathPriority (gp_pathId p))"

lemma ranked_strictWeakOrder:
  assumes "\<And>x y. x \<in> set xs \<Longrightarrow> y \<in> set xs \<Longrightarrow> before x y \<longleftrightarrow> (f x :: nat) < f y"
  shows "strictWeakOrder before xs"
  using assms unfolding strictWeakOrder_ball by (auto simp: not_less)

definition sortConflict :: "gif_packet list \<Rightarrow> bool" where
  "sortConflict q = (list_ex gp_path2DirectHl q \<and> list_ex gp_path3Image q
     \<and> list_ex (\<lambda>p. gp_pathId p \<noteq> Path1 \<and> \<not> gp_path2DirectHl p \<and> \<not> gp_path3Image p) q)"

lemma strictWeakOrder_iff:
  assumes fl: "\<forall>p \<in> set q. flags_ok p"
  shows "strictWeakOrder packetBefore q \<longleftrightarrow> \<not> sortConflict q"
proof
  assume swo: "strictWeakOrder packetBefore q"
  show "\<not> sortConflict q"
  proof
    assume "sortConflict q"
    then obtain h i z where m: "h \<in> set q" "i \<in> set q" "z \<in> set q"
      and k: "gp_path2DirectHl h" "gp_path3Image i" "gp_pathId z \<noteq> Path1" "\<not> gp_path2DirectHl z" "\<not> gp_path3Image z"
      by (auto simp: sortConflict_def list_ex_iff)
    have hi: "gp_pathId h = Path2" "gp_pathId i = Path3" "\<not> gp_path3Image h" "\<not> gp_path2DirectHl i"
      using fl m k by (auto simp: flags_ok_def)
    have ih: "packetBefore i h" "\<not> packetBefore h i" using k hi by (simp_all add: packetBefore_def)
    show False
    proof (cases "gp_pathId z")
      case Path1
      then show ?thesis using k by simp
    next
      case Path2
      then have "packetBefore z i" "\<not> packetBefore z h" "\<not> packetBefore h z"
        using k hi by (simp_all add: packetBefore_def pathPriority_def)
      then show ?thesis using swo m ih unfolding strictWeakOrder_ball by blast
    next
      case Path3
      then have "packetBefore h z" "\<not> packetBefore i z" "\<not> packetBefore z i"
        using k hi by (simp_all add: packetBefore_def pathPriority_def)
      then show ?thesis using swo m ih unfolding strictWeakOrder_ball by blast
    qed
  qed
next
  assume nc: "\<not> sortConflict q"
  show "strictWeakOrder packetBefore q"
  proof (rule ranked_strictWeakOrder [where f = "packetRank (list_ex gp_path3Image q)"])
    fix x y assume m: "x \<in> set q" "y \<in> set q"
    have fx: "flags_ok x" and fy: "flags_ok y" using fl m by auto
    have img: "gp_path3Image x \<Longrightarrow> list_ex gp_path3Image q" "gp_path3Image y \<Longrightarrow> list_ex gp_path3Image q"
      using m by (auto simp: list_ex_iff)
    have nc': "gp_path2DirectHl h \<Longrightarrow> list_ex gp_path3Image q \<Longrightarrow> gp_pathId z \<noteq> Path1 \<Longrightarrow>
      gp_path2DirectHl z \<or> gp_path3Image z" if "h \<in> set q" "z \<in> set q" for h z
      using nc that by (auto simp: sortConflict_def list_ex_iff)
    show "packetBefore x y \<longleftrightarrow> packetRank (list_ex gp_path3Image q) x < packetRank (list_ex gp_path3Image q) y"
      using fx fy img nc' [OF m] nc' [OF m(2,1)]
      by (cases "gp_pathId x"; cases "gp_pathId y"; cases "list_ex gp_path3Image q")
        (auto simp: packetBefore_def packetRank_def flags_ok_def pathPriority_def)
  qed
qed

text \<open>
  C39. A batch can be taken except in one situation, which the comparator has no answer for:
  a DIRECTHL packet and a PATH3 IMAGE packet queued together with another PATH2 or PATH3
  packet. There it is not a strict weak order and \<open>std::stable_sort\<close>'s precondition fails.
\<close>

theorem gif_batch_undefined_iff:
  "takeDrainBatch (gif_reached ops) = None
   \<longleftrightarrow> ga_reservations (gif_reached ops) = [] \<and> sortConflict (ga_queue (gif_reached ops))"
proof -
  have fl: "\<forall>p \<in> set (ga_queue (gif_reached ops)). flags_ok p" using gif_inv_reached by (simp add: gif_inv_def)
  have "\<not> sortConflict []" by (simp add: sortConflict_def)
  then show ?thesis
    using strictWeakOrder_iff [OF fl] by (auto simp: takeDrainBatch_def stableSort_def Let_def)
qed

section \<open>Concrete histories\<close>

text \<open>Tags without payload that end a packet: PACKED, and IMAGE.\<close>

definition emptyTag :: "u8 list" where
  "emptyTag = [0, 0x80, 0, 0, 0, 0, 0, 0] @ replicate 8 0"

definition imageTag :: "u8 list" where
  "imageTag = [0, 0x80, 0, 0, 0, 0, 0, 8] @ replicate 8 0"

lemma emptyTag_size: "gifTagSize emptyTag = Some (16, True, False)" "length emptyTag = 16"
proof -
  have "le64 emptyTag = 0x8000" by (simp add: le64_def emptyTag_def)
  then show "gifTagSize emptyTag = Some (16, True, False)"
    by (simp add: gifTagSize_def emptyTag_def kMaxBufferedGifPathBytes_def)
qed (simp add: emptyTag_def)

lemma imageTag_size: "gifTagSize imageTag = Some (16, True, True)" "length imageTag = 16"
proof -
  have "le64 imageTag = 0x0800000000008000" by (simp add: le64_def imageTag_def push_bit_eq_mult)
  then show "gifTagSize imageTag = Some (16, True, True)"
    by (simp add: gifTagSize_def imageTag_def kMaxBufferedGifPathBytes_def)
qed (simp add: imageTag_def)

definition framedUpTo :: "u8 list \<Rightarrow> path_stream" where
  "framedUpTo bytes = \<lparr>ps_data = bytes, ps_packetStart = length bytes, ps_parseOffset = length bytes,
     ps_path2DirectHl = False, ps_packetContainsImage = False\<rparr>"

lemma framedUpTo_nil: "emptyStream = framedUpTo []"
  by (simp add: emptyStream_def framedUpTo_def)

text \<open>Submitting a whole such packet to a stream without a remainder.\<close>

lemma submit_tag:
  assumes "length (ga_streams a) = 4" "gif_stream a p = framedUpTo bytes"
    and tag: "gifTagSize tag = Some (16, True, i)" "length tag = 16" and "length bytes \<le> 1000"
  shows "gif_submit p tag d a =
    (a\<lparr>ga_streams := (ga_streams a)[pathIndex p := framedUpTo (bytes @ tag)],
       ga_queue := ga_queue a @ [\<lparr>gp_pathId = p, gp_path2DirectHl = (p = Path2 \<and> d), gp_path3Image = (p = Path3 \<and> i),
         gp_offset = length bytes, gp_size = 16\<rparr>]\<rparr>, None)"
proof -
  have "\<not> tooLarge tag (framedUpTo bytes)" using assms by (simp add: tooLarge_def kMaxBufferedGifPathBytes_def framedUpTo_def)
  moreover have "tag \<noteq> []" using tag(2) by auto
  moreover have "parseTags p d ((opened d (framedUpTo bytes))\<lparr>ps_data := bytes @ tag\<rparr>) q
      = (framedUpTo (bytes @ tag), q @ [\<lparr>gp_pathId = p, gp_path2DirectHl = (p = Path2 \<and> d), gp_path3Image = (p = Path3 \<and> i),
         gp_offset = length bytes, gp_size = 16\<rparr>], None)" for q
    using tag by (subst parseTags.simps, subst parseTags.simps)
      (simp add: framedUpTo_def opened_def framedPacket_def)
  ultimately show ?thesis using assms submit_unfold [of a tag p d] by (simp add: Let_def framedUpTo_def)
qed

lemmas tag_history = gif_step.simps Let_def submit_tag [OF _ _ emptyTag_size] submit_tag [OF _ _ imageTag_size] emptyTag_size imageTag_size ga_new_def framedUpTo_nil newLog_def
  reservePath1_def gif_reset_def

lemma gif_framing_ignores_cuts_witness:
  "\<exists>a'. submitAll Path3 False [take 8 emptyTag, drop 8 emptyTag] ga_new = Some a'
     \<and> gif_submit Path3 emptyTag False ga_new = (a', None)"
proof -
  let ?ps = "[take 8 emptyTag, drop 8 emptyTag]"
  have ne: "[] \<notin> set ?ps" "?ps \<noteq> []" by (simp_all add: emptyTag_def)
  let ?half = "ga_new\<lparr>ga_streams := (ga_streams ga_new)[3 := emptyStream\<lparr>ps_data := take 8 emptyTag\<rparr>]\<rparr>"
  have four: "length (ga_streams ga_new) = 4" "length (ga_streams ?half) = 4" by (simp_all add: ga_new_def)
  have st: "gif_stream ga_new Path3 = emptyStream" "gif_stream ?half Path3 = emptyStream\<lparr>ps_data := take 8 emptyTag\<rparr>"
    by (simp_all add: ga_new_def)
  have "take 8 emptyTag \<noteq> []" "drop 8 emptyTag \<noteq> []" by (simp_all add: emptyTag_def)
  note u = submit_unfold [OF four(1) this(1), of Path3 False, unfolded st] submit_unfold [OF four(2) this(2), of Path3 False, unfolded st]
  have one: "gif_submit Path3 (take 8 emptyTag) False ga_new = (?half, None)"
    unfolding u by (simp add: Let_def tooLarge_def kMaxBufferedGifPathBytes_def parseTags_rest emptyTag_size
        opened_def emptyStream_def ga_new_def)
  have "parseTags Path3 False (emptyStream\<lparr>ps_data := emptyTag\<rparr>) [] = (s, q, r) \<Longrightarrow> r = None" for s q r
    by (subst (asm) parseTags.simps, subst (asm) parseTags.simps)
      (simp add: emptyStream_def emptyTag_size)
  then have "\<exists>a'. gif_submit Path3 (drop 8 emptyTag) False ?half = (a', None)"
    unfolding u by (auto simp: Let_def tooLarge_def kMaxBufferedGifPathBytes_def emptyTag_size
        opened_def emptyStream_def ga_new_def split: prod.split)
  then obtain a' where a': "submitAll Path3 False ?ps (gif_reached []) = Some a'" using one by auto
  from gif_framing_ignores_cuts [OF ne a'] show ?thesis using a' by auto
qed

lemma gif_drain_order_witness:
  "\<exists>q a'. gif_drain (with_callbacks (gif_reached [SubmitOp Path3 emptyTag False, SubmitOp Path1 imageTag False]))
     = Some (a', [BeginDrain] @ map (\<lambda>k. ProcessPacket
         (streamBytes (gif_reached [SubmitOp Path3 emptyTag False, SubmitOp Path1 imageTag False]) k)) q @ [EndDrain])
   \<and> map gp_pathId q = [Path1, Path3]"
proof -
  let ?ops = "[SubmitOp Path3 emptyTag False, SubmitOp Path1 imageTag False]"
  define k1 k3 where "k1 = \<lparr>gp_pathId = Path1, gp_path2DirectHl = False, gp_path3Image = False, gp_offset = 0, gp_size = 16\<rparr>"
    and "k3 = \<lparr>gp_pathId = Path3, gp_path2DirectHl = False, gp_path3Image = False, gp_offset = 0, gp_size = 16\<rparr>"
  have st: "ga_queue (gif_reached ?ops) = [k3, k1]" "ga_reservations (gif_reached ?ops) = []"
    by (simp_all add: tag_history k1_def k3_def)
  have swo: "strictWeakOrder packetBefore (ga_queue (gif_reached ?ops))"
    unfolding st strictWeakOrder_ball by (simp add: k1_def k3_def packetBefore_def pathPriority_def)
  have ne: "ga_queue (gif_reached ?ops) \<noteq> []" unfolding st by simp
  from gif_drain_order [OF ne swo] obtain q a' where
    d: "gif_drain (with_callbacks (gif_reached ?ops)) = Some (a', [BeginDrain] @ map (\<lambda>k. ProcessPacket (streamBytes (gif_reached ?ops) k)) q @ [EndDrain])"
    and m: "mset q = mset [k3, k1]" and s: "sorted_wrt (\<lambda>x y. \<not> packetBefore y x) q"
    unfolding st Let_def by (simp only: simp_thms if_False) blast
  have "length q = 2" using m by (metis size_mset length_Cons list.size(3) numeral_2_eq_2)
  then obtain x y where q: "q = [x, y]" by (metis (no_types) length_0_conv length_Suc_conv numeral_2_eq_2)
  have "packetBefore k1 k3" "k1 \<noteq> k3" by (simp_all add: packetBefore_def k1_def k3_def pathPriority_def)
  then have "x = k1 \<and> y = k3" using m s unfolding q by (auto simp: add_eq_conv_ex)
  then have "map gp_pathId q = [Path1, Path3]" by (simp add: q k1_def k3_def)
  with d show ?thesis by (intro exI conjI)
qed

text \<open>Every one of these submissions is one \<open>canAcceptPath2\<close> lets through.\<close>

lemma gif_batch_undefined_iff_witness:
  "canAcceptPath2 True ga_new \<and> canAcceptPath2 False (gif_reached [SubmitOp Path2 emptyTag True])
   \<and> takeDrainBatch (gif_reached [SubmitOp Path2 emptyTag True, SubmitOp Path2 emptyTag False,
        SubmitOp Path3 imageTag False]) = None"
proof -
  have "canAcceptPath2 True ga_new" "canAcceptPath2 False (gif_reached [SubmitOp Path2 emptyTag True])"
    by (simp_all add: tag_history canAcceptPath2_def)
  moreover have "ga_reservations (gif_reached [SubmitOp Path2 emptyTag True, SubmitOp Path2 emptyTag False,
        SubmitOp Path3 imageTag False]) = [] \<and> sortConflict (ga_queue (gif_reached [SubmitOp Path2 emptyTag True,
        SubmitOp Path2 emptyTag False, SubmitOp Path3 imageTag False]))"
    by (simp add: tag_history sortConflict_def)
  ultimately show ?thesis using gif_batch_undefined_iff by blast
qed

text \<open>
  Reservation tokens are unique for the arbiter's lifetime, resets included, and a token
  issued before a reset is refused by every later release, which then changes nothing.
\<close>

theorem gif_stale_token_refused:
  "distinct (gl_issued (snd (fold gif_step (before @ ResetOp # after) (ga_new, newLog))))
   \<and> (\<forall>t \<in> set (gl_issued (snd (fold gif_step before (ga_new, newLog)))).
        releasePath1 t (gif_reached (before @ ResetOp # after)) = (gif_reached (before @ ResetOp # after), False))"
proof -
  have new: "tokens_ok 0 (ga_new, newLog)" by (simp add: tokens_ok_def ga_new_def newLog_def)
  obtain a l where mid: "fold gif_step before (ga_new, newLog) = (a, l)" by fastforce
  have ok: "tokens_ok 0 (a, l)" using tokens_ok_run [OF new, of before] by (simp add: mid)
  then have "tokens_ok (ga_nextToken a) (gif_step ResetOp (a, l))" by (simp add: tokens_ok_def gif_reset_def)
  then have "tokens_ok (ga_nextToken a) (fold gif_step (before @ ResetOp # after) (ga_new, newLog))"
    using tokens_ok_run by (simp add: mid)
  then have fin: "distinct (gl_issued (snd (fold gif_step (before @ ResetOp # after) (ga_new, newLog))))"
    "\<forall>t \<in> set (ga_reservations (gif_reached (before @ ResetOp # after))). ga_nextToken a \<le> t"
    by (auto simp only: tokens_ok_def split_beta)
  moreover have "\<forall>t \<in> set (gl_issued l). t < ga_nextToken a" using ok by (simp add: tokens_ok_def)
  ultimately have "t \<notin> set (ga_reservations (gif_reached (before @ ResetOp # after)))" if "t \<in> set (gl_issued l)" for t
    using that by (meson not_le)
  then show ?thesis using fin(1) unfolding mid snd_conv releasePath1_def by simp
qed

lemma gif_stale_token_refused_witness:
  "releasePath1 1 (gif_reached ([ReserveOp] @ ResetOp # [ReserveOp]))
   = (gif_reached ([ReserveOp] @ ResetOp # [ReserveOp]), False)"
proof -
  have "1 \<in> set (gl_issued (snd (fold gif_step [ReserveOp] (ga_new, newLog))))" by (simp add: tag_history)
  then show ?thesis using gif_stale_token_refused [of "[ReserveOp]" "[ReserveOp]"] by blast
qed

end
