(* ===== verification/EeSchedulerExecutor.thy ===== *)
theory EeSchedulerExecutor
  imports EeThreadMachine EeTiming
begin

text \<open>
  \<open>ps2xRuntime/include/runtime/ee_scheduler_executor.h\<close> and
  \<open>src/lib/ee_scheduler_executor.cpp\<close>: one boundary of guest execution, which advances the
  timeline, commits the exiting context, reschedules, and lets the pending external
  consequences happen one at a time in stage order, rescheduling after each.

  The hooks are an interface the runtime implements elsewhere: a record of functions on a
  state of any type. A hook may throw; what it has done to its own state and to the scheduler
  by then stays done, as in the code. A debug request another thread makes while a boundary
  runs is one of the \<open>arrivals\<close> that land before the boundary's debug control.
\<close>

section \<open>Stages, results, statistics\<close>

datatype consequence_stage = AsynchronousWake | WaitTimeout | HardwareEvent | InterruptCause

definition consequenceStages :: "consequence_stage list" where
  "consequenceStages = [AsynchronousWake, WaitTimeout, HardwareEvent, InterruptCause]"

definition kEeSchedulerConsequenceStageCount :: nat where
  "kEeSchedulerConsequenceStageCount = length consequenceStages"

primrec stageIndex :: "consequence_stage \<Rightarrow> nat" where
  "stageIndex AsynchronousWake = 0"
| "stageIndex WaitTimeout = 1"
| "stageIndex HardwareEvent = 2"
| "stageIndex InterruptCause = 3"

primrec stageName :: "consequence_stage \<Rightarrow> string" where
  "stageName AsynchronousWake = ''asynchronous_wake''"
| "stageName WaitTimeout = ''wait_timeout''"
| "stageName HardwareEvent = ''hardware_event''"
| "stageName InterruptCause = ''interrupt_cause''"

datatype disposition = ResumeGuest | Paused | StopRequested

record boundary_input =
  bi_priorThreadId :: "int option"
  bi_elapsed :: ee_tick_delta
  bi_initialPolicy :: reschedule_policy
  bi_ownerLocalTransition :: owner_local_transition

record boundary_result =
  br_tick :: ee_tick
  br_selectedThreadId :: "int option"
  br_ownerLocalTransitionsApplied :: nat
  br_consequencesProcessed :: nat
  br_contextPublications :: nat
  br_limitExceeded :: bool
  br_reentrantBoundaryRejected :: bool
  br_disposition :: disposition
  br_offendingStage :: "consequence_stage option"
  br_stageCounts :: "nat list"

definition noResult :: boundary_result where
  "noResult = \<lparr>br_tick = EeTick 0, br_selectedThreadId = None, br_ownerLocalTransitionsApplied = 0,
     br_consequencesProcessed = 0, br_contextPublications = 0, br_limitExceeded = False,
     br_reentrantBoundaryRejected = False, br_disposition = ResumeGuest, br_offendingStage = None,
     br_stageCounts = replicate kEeSchedulerConsequenceStageCount 0\<rparr>"

record executor_statistics =
  xs_boundaries :: u64
  xs_ownerLocalTransitionsApplied :: u64
  xs_consequences :: u64
  xs_contextPublications :: u64
  xs_consequenceLimitHits :: u64
  xs_reentrantBoundaryRejects :: u64
  xs_pausedBoundaries :: u64
  xs_stoppedBoundaries :: u64
  xs_completedDebugSteps :: u64

definition noStatistics :: executor_statistics where
  "noStatistics = \<lparr>xs_boundaries = 0, xs_ownerLocalTransitionsApplied = 0, xs_consequences = 0,
     xs_contextPublications = 0, xs_consequenceLimitHits = 0, xs_reentrantBoundaryRejects = 0,
     xs_pausedBoundaries = 0, xs_stoppedBoundaries = 0, xs_completedDebugSteps = 0\<rparr>"

section \<open>The executor and its hooks\<close>

record executor =
  ex_timeline :: ee_timeline
  ex_statistics :: executor_statistics
  ex_processingBoundary :: bool
  ex_debugPauseRequested :: bool
  ex_debugStopRequested :: bool
  ex_debugStepBoundariesRemaining :: u64
  ex_ownerThreadId :: "nat option"

definition executor_new :: executor where
  "executor_new = \<lparr>ex_timeline = \<lparr>tl_now = EeTick 0\<rparr>, ex_statistics = noStatistics,
     ex_processingBoundary = False, ex_debugPauseRequested = False, ex_debugStopRequested = False,
     ex_debugStepBoundariesRemaining = 0, ex_ownerThreadId = None\<rparr>"

text \<open>A hook that throws returns the exception; \<open>hasImmediateConsequence\<close> is a const query.\<close>

record ('h, 'e) executor_hooks =
  hk_commitPriorContext :: "int option \<Rightarrow> ee_tick_delta \<Rightarrow> ee_tick \<Rightarrow> 'h \<Rightarrow> 'h \<times> 'e option"
  hk_publishSelectedContext :: "int option \<Rightarrow> ee_tick \<Rightarrow> 'h \<Rightarrow> 'h \<times> 'e option"
  hk_hasImmediateConsequence :: "consequence_stage \<Rightarrow> ee_tick \<Rightarrow> 'h \<Rightarrow> bool"
  hk_applyNextConsequence ::
    "consequence_stage \<Rightarrow> ee_tick \<Rightarrow> scheduler \<Rightarrow> 'h \<Rightarrow> 'h \<times> scheduler \<times> ('e + reschedule_policy)"

datatype 'e boundary_error =
    NotOwnerThread | InvalidTransition | PolicyNotSuppressed | TransitionOwnerMismatch | StaleOriginHandle
  | RotationLostOrigin | RotationViolated | EmptyTransition | SelectionLost | HookThrew 'e

type_synonym 'h hook_world = "'h \<times> scheduler"

section \<open>Steps of a boundary\<close>

definition requireOwner :: "nat \<Rightarrow> executor \<Rightarrow> executor option" where
  "requireOwner current x =
     (case ex_ownerThreadId x of
        None \<Rightarrow> Some (x\<lparr>ex_ownerThreadId := Some current\<rparr>)
      | Some owner \<Rightarrow> if owner \<noteq> current then None else Some x)"

definition validateOwnerLocalTransition :: "scheduler \<Rightarrow> boundary_input \<Rightarrow> 'e boundary_error option" where
  "validateOwnerLocalTransition s input =
     (let t = bi_ownerLocalTransition input; origin = ol_originatingThread t
      in if \<not> structurallyValid t then Some InvalidTransition
         else if \<not> transition_pending t then None
         else if bi_initialPolicy input \<noteq> RpNone then Some PolicyNotSuppressed
         else if bi_priorThreadId input \<noteq> Some (h_id origin) \<or> ts_current s \<noteq> bi_priorThreadId input
         then Some TransitionOwnerMismatch
         else if threadHandle (h_id origin) s \<noteq> Some origin then Some StaleOriginHandle
         else None)"

definition applyOwnerLocalTransition ::
  "owner_local_transition \<Rightarrow> scheduler \<Rightarrow> scheduler \<times> ('e boundary_error + int option)" where
  "applyOwnerLocalTransition t s =
     (case (case ol_kind t of
              OltNone \<Rightarrow> (s, Some EmptyTransition)
            | OltRotateReadyQueue \<Rightarrow>
                (case threadInfo (h_id (ol_originatingThread t)) s of
                   None \<Rightarrow> (s, Some RotationLostOrigin)
                 | Some origin \<Rightarrow>
                     if tsn_generation origin \<noteq> h_generation (ol_originatingThread t) then (s, Some RotationLostOrigin)
                     else if tsn_priority origin = ol_priority t then (s, None)
                     else case rotateReadyQueue (ol_priority t) s of
                            (s1, ok) \<Rightarrow> (s1, if ok then None else Some RotationViolated))) of
        (s1, Some e) \<Rightarrow> (s1, Inl e)
      | (s1, None) \<Rightarrow>
          (case reschedule (ol_reschedulePolicy t) s1 of
             (s2, None) \<Rightarrow> (s2, Inl SelectionLost)
           | (s2, Some selected) \<Rightarrow> (s2, Inr (Some selected))))"

definition nextImmediateStage :: "('h, 'e) executor_hooks \<Rightarrow> ee_tick \<Rightarrow> 'h \<Rightarrow> consequence_stage option" where
  "nextImmediateStage hooks now h = find (\<lambda>stage. hk_hasImmediateConsequence hooks stage now h) consequenceStages"

definition kMaximumConsequencesPerBoundary :: nat where
  "kMaximumConsequencesPerBoundary = 1024"

text \<open>
  The consequence loop; the first argument is the number of turns the limit still allows,
  \<open>kMaximumConsequencesPerBoundary - consequencesProcessed\<close>.
\<close>

definition publishIfChanged ::
  "('h, 'e) executor_hooks \<Rightarrow> int option \<Rightarrow> 'h \<Rightarrow> boundary_result \<Rightarrow> 'h \<times> boundary_result \<times> 'e option" where
  "publishIfChanged hooks selectionBefore h r =
     (if selectionBefore \<noteq> br_selectedThreadId r
      then case hk_publishSelectedContext hooks (br_selectedThreadId r) (br_tick r) h of
             (h1, Some e) \<Rightarrow> (h1, r, Some e)
           | (h1, None) \<Rightarrow> (h1, r\<lparr>br_contextPublications := br_contextPublications r + 1\<rparr>, None)
      else (h, r, None))"

primrec consequenceLoop ::
  "nat \<Rightarrow> ('h, 'e) executor_hooks \<Rightarrow> 'h hook_world \<Rightarrow> boundary_result
    \<Rightarrow> 'h hook_world \<times> ('e boundary_error + boundary_result)" where
  "consequenceLoop 0 hooks w r = (w, Inr r)"
| "consequenceLoop (Suc turns) hooks w r =
     (case nextImmediateStage hooks (br_tick r) (fst w) of
        None \<Rightarrow> (w, Inr r)
      | Some stage \<Rightarrow>
          (case hk_applyNextConsequence hooks stage (br_tick r) (snd w) (fst w) of
             (h1, s1, Inl e) \<Rightarrow> ((h1, s1), Inl (HookThrew e))
           | (h1, s1, Inr consequencePolicy) \<Rightarrow>
               (case reschedule consequencePolicy s1 of
                  (s2, selected) \<Rightarrow>
                    (let i = stageIndex stage;
                         r1 = r\<lparr>br_consequencesProcessed := br_consequencesProcessed r + 1,
                                br_stageCounts := (br_stageCounts r)[i := br_stageCounts r ! i + 1],
                                br_selectedThreadId := selected\<rparr>
                     in case publishIfChanged hooks (ts_current (snd w)) h1 r1 of
                          (h2, r2, Some e) \<Rightarrow> ((h2, s2), Inl (HookThrew e))
                        | (h2, r2, None) \<Rightarrow> consequenceLoop turns hooks (h2, s2) r2))))"

definition applyDebugControl :: "bool \<Rightarrow> executor \<Rightarrow> boundary_result \<Rightarrow> executor \<times> boundary_result" where
  "applyDebugControl diagnostics x r =
     (let st = ex_statistics x in
      if ex_debugStopRequested x
      then (x\<lparr>ex_statistics := st\<lparr>xs_stoppedBoundaries := xs_stoppedBoundaries st + 1\<rparr>\<rparr>,
            r\<lparr>br_disposition := StopRequested\<rparr>)
      else if \<not> diagnostics then (x, r)
      else if ex_debugPauseRequested x
      then (x\<lparr>ex_statistics := st\<lparr>xs_pausedBoundaries := xs_pausedBoundaries st + 1\<rparr>\<rparr>,
            r\<lparr>br_disposition := Paused\<rparr>)
      else let remaining = ex_debugStepBoundariesRemaining x
           in if remaining = 0 then (x, r)
              else let x1 = x\<lparr>ex_debugStepBoundariesRemaining := remaining - 1\<rparr>
                   in if remaining = 1
                      then (x1\<lparr>ex_debugPauseRequested := True,
                               ex_statistics := st\<lparr>xs_pausedBoundaries := xs_pausedBoundaries st + 1,
                                                  xs_completedDebugSteps := xs_completedDebugSteps st + 1\<rparr>\<rparr>,
                            r\<lparr>br_disposition := Paused\<rparr>)
                      else (x1, r))"

section \<open>Debug requests\<close>

definition debugRequestPause :: "executor \<Rightarrow> executor \<times> bool" where
  "debugRequestPause x =
     (x\<lparr>ex_debugStepBoundariesRemaining := 0, ex_debugPauseRequested := True\<rparr>, \<not> ex_debugPauseRequested x)"

definition debugResume :: "executor \<Rightarrow> executor" where
  "debugResume x = x\<lparr>ex_debugStepBoundariesRemaining := 0, ex_debugPauseRequested := False\<rparr>"

definition debugRequestStop :: "executor \<Rightarrow> executor" where
  "debugRequestStop x = x\<lparr>ex_debugStopRequested := True\<rparr>"

definition debugStepBoundaries :: "u64 \<Rightarrow> executor \<Rightarrow> executor \<times> bool" where
  "debugStepBoundaries count x =
     (if count = 0 \<or> ex_debugStopRequested x then (x, False)
      else (x\<lparr>ex_debugStepBoundariesRemaining := count, ex_debugPauseRequested := False\<rparr>, True))"

datatype debug_request = RequestPause | RequestResume | RequestStop | RequestSteps u64

primrec debugRequest :: "debug_request \<Rightarrow> executor \<Rightarrow> executor" where
  "debugRequest RequestPause x = fst (debugRequestPause x)"
| "debugRequest RequestResume x = debugResume x"
| "debugRequest RequestStop x = debugRequestStop x"
| "debugRequest (RequestSteps n) x = fst (debugStepBoundaries n x)"

definition executor_now :: "executor \<Rightarrow> ee_tick" where
  "executor_now x = tl_now (ex_timeline x)"

definition executor_reset :: "executor \<Rightarrow> executor" where
  "executor_reset x =
     (if ex_processingBoundary x then x
      else x\<lparr>ex_timeline := timeline_reset (ex_timeline x), ex_statistics := noStatistics,
             ex_debugStepBoundariesRemaining := 0, ex_debugPauseRequested := False,
             ex_debugStopRequested := False, ex_ownerThreadId := None\<rparr>)"

section \<open>The boundary\<close>

text \<open>The body of the \<open>try\<close> block from the timeline's advance to the last consequence.\<close>

definition selectContext ::
  "boundary_input \<Rightarrow> boundary_result \<Rightarrow> scheduler \<Rightarrow> scheduler \<times> ('e boundary_error + boundary_result)" where
  "selectContext input r s =
     (if transition_pending (bi_ownerLocalTransition input)
      then case applyOwnerLocalTransition (bi_ownerLocalTransition input) s of
             (s1, Inl e) \<Rightarrow> (s1, Inl e)
           | (s1, Inr selected) \<Rightarrow>
               (s1, Inr (r\<lparr>br_selectedThreadId := selected, br_ownerLocalTransitionsApplied := 1\<rparr>))
      else case reschedule (bi_initialPolicy input) s of
             (s1, selected) \<Rightarrow> (s1, Inr (r\<lparr>br_selectedThreadId := selected\<rparr>)))"

definition commitAndSelect ::
  "('h, 'e) executor_hooks \<Rightarrow> boundary_input \<Rightarrow> ee_tick \<Rightarrow> boundary_result \<Rightarrow> 'h hook_world
    \<Rightarrow> 'h hook_world \<times> ('e boundary_error + boundary_result)" where
  "commitAndSelect hooks input tick r w =
     (let s = publishCanonicalTick tick (snd w)
      in case hk_commitPriorContext hooks (bi_priorThreadId input) (bi_elapsed input) tick (fst w) of
           (h1, Some e) \<Rightarrow> ((h1, s), Inl (HookThrew e))
         | (h1, None) \<Rightarrow>
             (case selectContext input (r\<lparr>br_tick := tick\<rparr>) s of
                (s1, Inl e) \<Rightarrow> ((h1, s1), Inl e)
              | (s1, Inr r1) \<Rightarrow>
                  (case hk_publishSelectedContext hooks (br_selectedThreadId r1) tick h1 of
                     (h2, Some e) \<Rightarrow> ((h2, s1), Inl (HookThrew e))
                   | (h2, None) \<Rightarrow>
                       ((h2, s1), Inr (r1\<lparr>br_contextPublications := br_contextPublications r1 + 1\<rparr>)))))"

definition checkLimit :: "('h, 'e) executor_hooks \<Rightarrow> 'h \<Rightarrow> boundary_result \<Rightarrow> boundary_result" where
  "checkLimit hooks h r =
     (if br_consequencesProcessed r = kMaximumConsequencesPerBoundary
      then let stage = nextImmediateStage hooks (br_tick r) h
           in r\<lparr>br_offendingStage := stage, br_limitExceeded := (stage \<noteq> None)\<rparr>
      else r)"

definition countBoundary :: "boundary_result \<Rightarrow> executor \<Rightarrow> executor" where
  "countBoundary r x =
     (let st = ex_statistics x
      in x\<lparr>ex_statistics := st\<lparr>
             xs_boundaries := xs_boundaries st + 1,
             xs_ownerLocalTransitionsApplied := xs_ownerLocalTransitionsApplied st + of_nat (br_ownerLocalTransitionsApplied r),
             xs_consequences := xs_consequences st + of_nat (br_consequencesProcessed r),
             xs_contextPublications := xs_contextPublications st + of_nat (br_contextPublications r),
             xs_consequenceLimitHits := xs_consequenceLimitHits st + (if br_limitExceeded r then 1 else 0)\<rparr>\<rparr>)"

definition processBoundary ::
  "bool \<Rightarrow> nat \<Rightarrow> debug_request list \<Rightarrow> ('h, 'e) executor_hooks \<Rightarrow> boundary_input
    \<Rightarrow> executor \<times> 'h hook_world \<Rightarrow> (executor \<times> 'h hook_world) \<times> ('e boundary_error + boundary_result)" where
  "processBoundary diagnostics current arrivals hooks input xw =
     (case xw of (x0, w) \<Rightarrow>
        (case requireOwner current x0 of
           None \<Rightarrow> ((x0, w), Inl NotOwnerThread)
         | Some x \<Rightarrow>
             (let r0 = noResult\<lparr>br_tick := tl_now (ex_timeline x), br_selectedThreadId := ts_current (snd w)\<rparr>;
                  st = ex_statistics x
              in if ex_processingBoundary x
                 then ((x\<lparr>ex_statistics := st\<lparr>xs_reentrantBoundaryRejects := xs_reentrantBoundaryRejects st + 1\<rparr>\<rparr>, w),
                       Inr (r0\<lparr>br_reentrantBoundaryRejected := True\<rparr>))
                 else case validateOwnerLocalTransition (snd w) input of
                        Some e \<Rightarrow> ((x, w), Inl e)
                      | None \<Rightarrow>
                          (case timeline_advance (ex_timeline x) (bi_elapsed input) of
                             (timeline, tick) \<Rightarrow>
                               (let x1 = x\<lparr>ex_timeline := timeline\<rparr>
                                in case commitAndSelect hooks input tick r0 w of
                                     (w1, Inl e) \<Rightarrow> ((x1, w1), Inl e)
                                   | (w1, Inr r1) \<Rightarrow>
                                       (case consequenceLoop kMaximumConsequencesPerBoundary hooks w1 r1 of
                                          (w2, Inl e) \<Rightarrow> ((x1, w2), Inl e)
                                        | (w2, Inr r2) \<Rightarrow>
                                            (case applyDebugControl diagnostics (fold debugRequest arrivals x1)
                                                    (checkLimit hooks (fst w2) r2) of
                                               (x2, r3) \<Rightarrow> ((countBoundary r3 x2, w2), Inr r3))))))))"

text \<open>The compatibility overload, for boundaries without an owner-local transition.\<close>

definition processBoundaryPlain ::
  "bool \<Rightarrow> nat \<Rightarrow> debug_request list \<Rightarrow> ('h, 'e) executor_hooks \<Rightarrow> int option \<Rightarrow> ee_tick_delta \<Rightarrow> reschedule_policy
    \<Rightarrow> executor \<times> 'h hook_world \<Rightarrow> (executor \<times> 'h hook_world) \<times> ('e boundary_error + boundary_result)" where
  "processBoundaryPlain diagnostics current arrivals hooks priorThreadId elapsed initialPolicy =
     processBoundary diagnostics current arrivals hooks
       \<lparr>bi_priorThreadId = priorThreadId, bi_elapsed = elapsed, bi_initialPolicy = initialPolicy,
        bi_ownerLocalTransition = noTransition\<rparr>"

end
