(* ===== verification/EeExecutorFacts.thy ===== *)
theory EeExecutorFacts
  imports EeSchedulerExecutor
begin

text \<open>
  Facts about one executor boundary: case rules for its phases, what the counters of the result
  add up to, and what it does to the thread scheduler under hooks that use its operations.
\<close>

section \<open>The loop\<close>

lemma publishIfChanged_fields:
  "publishIfChanged hooks b h r = (h', r', e) \<Longrightarrow>
   br_consequencesProcessed r' = br_consequencesProcessed r \<and> br_stageCounts r' = br_stageCounts r
   \<and> br_tick r' = br_tick r \<and> br_selectedThreadId r' = br_selectedThreadId r
   \<and> br_limitExceeded r' = br_limitExceeded r \<and> br_offendingStage r' = br_offendingStage r
   \<and> br_reentrantBoundaryRejected r' = br_reentrantBoundaryRejected r
   \<and> br_disposition r' = br_disposition r
   \<and> br_contextPublications r \<le> br_contextPublications r'
   \<and> br_contextPublications r' \<le> br_contextPublications r + 1"
  by (auto simp: publishIfChanged_def split: if_splits prod.splits option.splits)

lemma stageIndex_less: "stageIndex st < kEeSchedulerConsequenceStageCount"
  by (cases st) (simp_all add: kEeSchedulerConsequenceStageCount_def consequenceStages_def)

lemma sum_list_increment: "i < length (xs :: nat list) \<Longrightarrow> sum_list (xs[i := xs ! i + 1]) = sum_list xs + 1"
  by (induction xs arbitrary: i) (auto split: nat.split simp: less_Suc_eq_0_disj)

text \<open>One turn, as the premises a later proof needs.\<close>

lemma consequenceLoop_cases [consumes 1, case_names quiet threw failed turn]:
  assumes "consequenceLoop (Suc turns) hooks w r = (w', res)"
    and "nextImmediateStage hooks (br_tick r) (fst w) = None \<Longrightarrow> w' = w \<Longrightarrow> res = Inr r \<Longrightarrow> P"
    and "\<And>stage h1 s1 e. nextImmediateStage hooks (br_tick r) (fst w) = Some stage \<Longrightarrow>
      hk_applyNextConsequence hooks stage (br_tick r) (snd w) (fst w) = (h1, s1, Inl e) \<Longrightarrow>
      w' = (h1, s1) \<Longrightarrow> res = Inl (HookThrew e) \<Longrightarrow> P"
    and "\<And>stage h1 s1 pol s2 sel h2 r1 r2 e. nextImmediateStage hooks (br_tick r) (fst w) = Some stage \<Longrightarrow>
      hk_applyNextConsequence hooks stage (br_tick r) (snd w) (fst w) = (h1, s1, Inr pol) \<Longrightarrow>
      reschedule pol s1 = (s2, sel) \<Longrightarrow> publishIfChanged hooks (ts_current (snd w)) h1 r1 = (h2, r2, Some e) \<Longrightarrow>
      w' = (h2, s2) \<Longrightarrow> res = Inl (HookThrew e) \<Longrightarrow> P"
    and "\<And>stage h1 s1 pol s2 sel h2 r1 r2. nextImmediateStage hooks (br_tick r) (fst w) = Some stage \<Longrightarrow>
      hk_applyNextConsequence hooks stage (br_tick r) (snd w) (fst w) = (h1, s1, Inr pol) \<Longrightarrow>
      reschedule pol s1 = (s2, sel) \<Longrightarrow>
      r1 = r\<lparr>br_consequencesProcessed := br_consequencesProcessed r + 1,
         br_stageCounts := (br_stageCounts r)[stageIndex stage := br_stageCounts r ! stageIndex stage + 1],
         br_selectedThreadId := sel\<rparr> \<Longrightarrow>
      publishIfChanged hooks (ts_current (snd w)) h1 r1 = (h2, r2, None) \<Longrightarrow>
      consequenceLoop turns hooks (h2, s2) r2 = (w', res) \<Longrightarrow> P"
  shows P
proof (cases "nextImmediateStage hooks (br_tick r) (fst w)")
  case None
  then have "(w', res) = (w, Inr r)" unfolding assms(1) [symmetric] by simp
  then show ?thesis using assms(2) [OF None] by blast
next
  case (Some stage)
  obtain h1 s1 out where ap: "hk_applyNextConsequence hooks stage (br_tick r) (snd w) (fst w) = (h1, s1, out)"
    by (metis surj_pair)
  show ?thesis
  proof (cases out)
    case (Inl e)
    then have "(w', res) = ((h1, s1), Inl (HookThrew e))" unfolding assms(1) [symmetric] using Some ap by simp
    then show ?thesis using assms(3) [OF Some ap [unfolded Inl]] by blast
  next
    case (Inr pol)
    obtain s2 sel where rs: "reschedule pol s1 = (s2, sel)" by fastforce
    define r1 where "r1 = r\<lparr>br_consequencesProcessed := br_consequencesProcessed r + 1,
         br_stageCounts := (br_stageCounts r)[stageIndex stage := br_stageCounts r ! stageIndex stage + 1],
         br_selectedThreadId := sel\<rparr>"
    obtain h2 r2 oe where pb: "publishIfChanged hooks (ts_current (snd w)) h1 r1 = (h2, r2, oe)" by (metis surj_pair)
    have go: "(w', res) =
       (case oe of Some e \<Rightarrow> ((h2, s2), Inl (HookThrew e)) | None \<Rightarrow> consequenceLoop turns hooks (h2, s2) r2)"
      unfolding assms(1) [symmetric] using Some ap Inr rs pb by (simp add: Let_def r1_def split: option.split)
    show ?thesis
    proof (cases oe)
      case None
      have "consequenceLoop turns hooks (h2, s2) r2 = (w', res)" using go by (simp add: None)
      with pb show ?thesis unfolding None by (rule assms(5) [OF Some ap [unfolded Inr] rs r1_def])
    next
      case threw: (Some e)
      have "w' = (h2, s2)" "res = Inl (HookThrew e)" using go by (simp_all add: threw)
      with pb show ?thesis unfolding threw by (rule assms(4) [OF Some ap [unfolded Inr] rs])
    qed
  qed
qed

lemma loop_counts:
  "consequenceLoop turns hooks w r = (w', Inr r') \<Longrightarrow> length (br_stageCounts r) = kEeSchedulerConsequenceStageCount \<Longrightarrow>
   br_tick r' = br_tick r \<and> br_reentrantBoundaryRejected r' = br_reentrantBoundaryRejected r
   \<and> br_disposition r' = br_disposition r
   \<and> br_limitExceeded r' = br_limitExceeded r \<and> br_offendingStage r' = br_offendingStage r
   \<and> br_consequencesProcessed r' \<le> br_consequencesProcessed r + turns
   \<and> sum_list (br_stageCounts r') + br_consequencesProcessed r = sum_list (br_stageCounts r) + br_consequencesProcessed r'
   \<and> br_contextPublications r' + br_consequencesProcessed r \<le> br_contextPublications r + br_consequencesProcessed r'
   \<and> (br_consequencesProcessed r' < br_consequencesProcessed r + turns \<longrightarrow>
        nextImmediateStage hooks (br_tick r') (fst w') = None)"
proof (induction turns arbitrary: w r)
  case 0
  then show ?case by simp
next
  case (Suc turns)
  from Suc.prems(1) show ?case
  proof (cases rule: consequenceLoop_cases)
    case (turn stage h1 s1 pol s2 sel h2 r1 r2)
    note f = publishIfChanged_fields [OF turn(5)]
    have "length (br_stageCounts r2) = kEeSchedulerConsequenceStageCount" using f turn(4) Suc.prems(2) by simp
    note ih = Suc.IH [OF turn(6) this]
    have s: "sum_list (br_stageCounts r2) = sum_list (br_stageCounts r) + 1"
      using f turn(4) sum_list_increment [of "stageIndex stage" "br_stageCounts r"] stageIndex_less Suc.prems(2) by simp
    show ?thesis using ih f turn(4) s by auto
  qed simp_all
qed


section \<open>A whole boundary\<close>

definition startResult :: "executor \<Rightarrow> scheduler \<Rightarrow> boundary_result" where
  "startResult x s = noResult\<lparr>br_tick := tl_now (ex_timeline x), br_selectedThreadId := ts_current s\<rparr>"

definition boundaryTick :: "executor \<Rightarrow> boundary_input \<Rightarrow> ee_tick" where
  "boundaryTick x input = saturatingAdd (executor_now x) (bi_elapsed input)"

lemma boundary_ok:
  assumes "processBoundary d cur arrivals hooks input (x0, w) = ((x', w'), Inr r)"
    and "\<not> br_reentrantBoundaryRejected r"
  obtains x w1 r1 r2 x2 where "requireOwner cur x0 = Some x" "\<not> ex_processingBoundary x"
    "(validateOwnerLocalTransition (snd w) input :: 'e boundary_error option) = None"
    "commitAndSelect (hooks :: ('h, 'e) executor_hooks) input (boundaryTick x input) (startResult x (snd w)) w = (w1, Inr r1)"
    "consequenceLoop kMaximumConsequencesPerBoundary hooks w1 r1 = (w', Inr r2)"
    "applyDebugControl d (fold debugRequest arrivals (x\<lparr>ex_timeline := \<lparr>tl_now = boundaryTick x input\<rparr>\<rparr>))
       (checkLimit hooks (fst w') r2) = (x2, r)"
    "x' = countBoundary r x2"
proof -
  obtain x where x: "requireOwner cur x0 = Some x"
    using assms(1) by (cases "requireOwner cur x0") (auto simp: processBoundary_def)
  have np: "\<not> ex_processingBoundary x"
    using assms x by (auto simp: processBoundary_def Let_def split: if_splits)
  have tl: "timeline_advance (ex_timeline x) (bi_elapsed input) = (\<lparr>tl_now = boundaryTick x input\<rparr>, boundaryTick x input)"
    by (simp add: timeline_advance_def boundaryTick_def executor_now_def Let_def)
  have va: "(validateOwnerLocalTransition (snd w) input :: 'e boundary_error option) = None"
    using assms(1) x np by (auto simp: processBoundary_def Let_def split: option.splits)
  note go = assms(1) [unfolded processBoundary_def, simplified x np va tl Let_def option.case prod.case if_False,
      folded startResult_def]
  obtain w1 o1 where c: "commitAndSelect hooks input (boundaryTick x input) (startResult x (snd w)) w = (w1, o1)" by fastforce
  obtain r1 where o1: "o1 = Inr r1" using go c by (cases o1) auto
  obtain w2 o2 where l: "consequenceLoop kMaximumConsequencesPerBoundary hooks w1 r1 = (w2, o2)" by fastforce
  obtain r2 where o2: "o2 = Inr r2" using go c o1 l by (cases o2) auto
  obtain x2 r3 where dbg: "applyDebugControl d (fold debugRequest arrivals (x\<lparr>ex_timeline := \<lparr>tl_now = boundaryTick x input\<rparr>\<rparr>))
       (checkLimit hooks (fst w2) r2) = (x2, r3)" by fastforce
  have fin: "w2 = w'" "r3 = r" "x' = countBoundary r x2" using go c o1 l o2 dbg by auto
  show thesis by (rule that [OF x np va c [unfolded o1] l [unfolded o2 fin] dbg [unfolded fin(1,2)] fin(3)])
qed

lemma commit_fields:
  assumes "commitAndSelect hooks input tick r w = (w1, Inr r1)"
  shows "br_tick r1 = tick \<and> br_consequencesProcessed r1 = br_consequencesProcessed r \<and> br_stageCounts r1 = br_stageCounts r
    \<and> br_contextPublications r1 = br_contextPublications r + 1 \<and> br_limitExceeded r1 = br_limitExceeded r
    \<and> br_reentrantBoundaryRejected r1 = br_reentrantBoundaryRejected r
    \<and> br_offendingStage r1 = br_offendingStage r \<and> br_disposition r1 = br_disposition r"
  using assms by (auto simp: commitAndSelect_def selectContext_def Let_def split: prod.splits option.splits sum.splits if_splits)

lemma debug_fields:
  "applyDebugControl d x r = (x', r') \<Longrightarrow> r'\<lparr>br_disposition := disp\<rparr> = r\<lparr>br_disposition := disp\<rparr>"
  by (auto simp: applyDebugControl_def Let_def split: if_splits)

lemma debug_sel:
  assumes "applyDebugControl d x r = (x', r')"
  shows "br_tick r' = br_tick r" "br_selectedThreadId r' = br_selectedThreadId r"
    "br_consequencesProcessed r' = br_consequencesProcessed r" "br_stageCounts r' = br_stageCounts r"
    "br_contextPublications r' = br_contextPublications r" "br_limitExceeded r' = br_limitExceeded r"
    "br_offendingStage r' = br_offendingStage r" "br_reentrantBoundaryRejected r' = br_reentrantBoundaryRejected r"
  using assms by (auto simp: applyDebugControl_def Let_def split: if_splits)

lemma checkLimit_sel [simp]:
  "br_tick (checkLimit hooks h r) = br_tick r" "br_selectedThreadId (checkLimit hooks h r) = br_selectedThreadId r"
  "br_consequencesProcessed (checkLimit hooks h r) = br_consequencesProcessed r"
  "br_stageCounts (checkLimit hooks h r) = br_stageCounts r"
  "br_contextPublications (checkLimit hooks h r) = br_contextPublications r"
  "br_disposition (checkLimit hooks h r) = br_disposition r"
  "br_reentrantBoundaryRejected (checkLimit hooks h r) = br_reentrantBoundaryRejected r"
  by (simp_all add: checkLimit_def Let_def)

lemma start_sel [simp]:
  "br_consequencesProcessed (startResult x s) = 0" "br_contextPublications (startResult x s) = 0"
  "br_stageCounts (startResult x s) = replicate kEeSchedulerConsequenceStageCount 0"
  "\<not> br_limitExceeded (startResult x s)" "br_offendingStage (startResult x s) = None"
  "br_disposition (startResult x s) = ResumeGuest" "\<not> br_reentrantBoundaryRejected (startResult x s)"
  by (simp_all add: startResult_def noResult_def)

lemma stage_in_order: "stage \<in> set consequenceStages"
  by (cases stage) (simp_all add: consequenceStages_def)

lemma nothing_pending: "nextImmediateStage hooks now h = None \<longleftrightarrow> (\<forall>stage. \<not> hk_hasImmediateConsequence hooks stage now h)"
  using stage_in_order by (auto simp: nextImmediateStage_def find_None_iff)

lemma pending_first:
  assumes "nextImmediateStage hooks now h = Some stage"
  shows "hk_hasImmediateConsequence hooks stage now h
   \<and> (\<forall>other. stageIndex other < stageIndex stage \<longrightarrow> \<not> hk_hasImmediateConsequence hooks other now h)"
proof -
  have "\<not> hk_hasImmediateConsequence hooks other now h" if "stageIndex other < stageIndex stage" for other
    using assms that by (cases other; cases stage)
      (auto simp: nextImmediateStage_def consequenceStages_def split: if_splits)
  then show ?thesis using assms by (auto simp: nextImmediateStage_def find_Some_iff)
qed

section \<open>What the backend is told\<close>

text \<open>Any hooks, with the calls made on them recorded beside their state.\<close>

datatype hook_call =
    CommitCall "int option" ee_tick_delta ee_tick
  | PublishCall "int option" ee_tick
  | ApplyCall consequence_stage ee_tick

definition traced :: "('h, 'e) executor_hooks \<Rightarrow> ('h \<times> hook_call list, 'e) executor_hooks" where
  "traced hooks = \<lparr>
     hk_commitPriorContext = (\<lambda>prior elapsed now (h, calls).
       case hk_commitPriorContext hooks prior elapsed now h of
         (h', e) \<Rightarrow> ((h', calls @ [CommitCall prior elapsed now]), e)),
     hk_publishSelectedContext = (\<lambda>selected now (h, calls).
       case hk_publishSelectedContext hooks selected now h of
         (h', e) \<Rightarrow> ((h', calls @ [PublishCall selected now]), e)),
     hk_hasImmediateConsequence = (\<lambda>stage now (h, calls). hk_hasImmediateConsequence hooks stage now h),
     hk_applyNextConsequence = (\<lambda>stage now s (h, calls).
       case hk_applyNextConsequence hooks stage now s h of
         (h', out) \<Rightarrow> ((h', calls @ [ApplyCall stage now]), out))\<rparr>"

fun publishedLast :: "hook_call list \<Rightarrow> int option \<Rightarrow> int option" where
  "publishedLast [] p = p"
| "publishedLast (PublishCall q now # calls) p = publishedLast calls q"
| "publishedLast (CommitCall _ _ _ # calls) p = publishedLast calls p"
| "publishedLast (ApplyCall _ _ # calls) p = publishedLast calls p"

lemma publishedLast_append: "publishedLast (xs @ ys) p = publishedLast ys (publishedLast xs p)"
  by (induction xs p rule: publishedLast.induct) simp_all

fun isPublish :: "hook_call \<Rightarrow> bool" where
  "isPublish (PublishCall _ _) = True"
| "isPublish _ = False"

fun isApply :: "hook_call \<Rightarrow> bool" where
  "isApply (ApplyCall _ _) = True"
| "isApply _ = False"

fun callTick :: "hook_call \<Rightarrow> ee_tick" where
  "callTick (CommitCall _ _ now) = now"
| "callTick (PublishCall _ now) = now"
| "callTick (ApplyCall _ now) = now"

section \<open>The scheduler under a boundary\<close>

text \<open>
  Hooks that touch the scheduler only through its operations, at most \<open>k\<close> of them per
  consequence: what the interface's comment asks of an implementation.
\<close>

definition useOperations :: "nat \<Rightarrow> ('h, 'e) executor_hooks \<Rightarrow> bool" where
  "useOperations k hooks \<longleftrightarrow> (\<forall>stage now s h h' s' out.
     hk_applyNextConsequence hooks stage now s h = (h', s', out) \<longrightarrow>
     (\<exists>ops. length ops \<le> k \<and> s' = fold ts_step ops s))"

definition roomFor :: "nat \<Rightarrow> scheduler \<Rightarrow> bool" where
  "roomFor n s \<longleftrightarrow> ts_wf s \<and> enat n \<le> ts_capacity s"

lemma roomFor_room: "roomFor (Suc n) s \<Longrightarrow> room s"
proof -
  assume "roomFor (Suc n) s"
  then have "ts_capacity s \<noteq> 0" by (cases "ts_capacity s") (auto simp: roomFor_def zero_enat_def)
  then show "room s" using ts_capacity_pos by blast
qed

lemma roomFor_step: "roomFor (Suc n) s \<Longrightarrow> roomFor n (ts_step p s)"
proof -
  assume a: "roomFor (Suc n) s"
  then have wf: "ts_wf s" and c: "enat (Suc n) \<le> ts_capacity s" by (simp_all add: roomFor_def)
  note rm = roomFor_room [OF a]
  have "enat (Suc n) \<le> eSuc (ts_capacity (ts_step p s))" using c ts_capacity_step [OF rm] by (rule order_trans)
  then show ?thesis using ts_step_wf [OF wf rm]
    by (cases "ts_capacity (ts_step p s)") (auto simp: roomFor_def eSuc_enat)
qed

lemma roomFor_mono: "roomFor n s \<Longrightarrow> m \<le> n \<Longrightarrow> roomFor m s"
  by (auto simp: roomFor_def intro: order_trans [rotated])

lemma roomFor_run: "roomFor (length ops + n) s \<Longrightarrow> roomFor n (fold ts_step ops s)"
  by (induction ops arbitrary: s) (auto dest: roomFor_step)

lemma reschedule_current:
  assumes "roomFor (Suc n) s" and "reschedule pol s = (s', sel)"
  shows "roomFor n s' \<and> sel = ts_current s'"
proof -
  have s': "s' = ts_step (OpReschedule pol) s" using assms(2) by simp
  have wf: "ts_wf s" using assms(1) by (simp add: roomFor_def)
  note rm = roomFor_room [OF assms(1)]
  have "sel = ts_current s'"
  proof (cases "ts_current s")
    case None
    then show ?thesis using assms(2) takeNextReady_current [OF wf None]
      by (auto simp: reschedule_def Let_def split_beta split: option.splits)
  next
    case (Some i)
    then obtain r where r: "thr s i = Some r" using W_D(7) [OF ts_wfD [OF wf]] by blast
    then have cr: "currentRunning s = Some (i, r)" using Some currentRunning_Some [OF wf] by simp
    note q = requeue_current [OF wf rm Some r]
    have "ts_current (enqueueReady i r (s\<lparr>ts_current := None\<rparr>)) = None" by (simp add: enqueueReady_fields)
    note tk = takeNextReady_current [OF q this]
    show ?thesis using assms(2) Some cr tk
      by (auto simp: reschedule_def Let_def split_beta split: option.splits if_splits)
  qed
  then show ?thesis using roomFor_step [OF assms(1), of "OpReschedule pol"] s' by blast
qed


lemma useOperationsD:
  "useOperations k hooks \<Longrightarrow> hk_applyNextConsequence hooks stage now s h = (h', s', out) \<Longrightarrow>
   roomFor (k + n) s \<Longrightarrow> roomFor n s'"
proof -
  assume "useOperations k hooks" "hk_applyNextConsequence hooks stage now s h = (h', s', out)" and r: "roomFor (k + n) s"
  then obtain ops where "length ops \<le> k" "s' = fold ts_step ops s" unfolding useOperations_def by blast
  then show ?thesis using roomFor_run [of ops n s] roomFor_mono [OF r, of "length ops + n"] by simp
qed

lemma loop_scheduler:
  "useOperations k hooks \<Longrightarrow> roomFor (turns * Suc k) (snd w) \<Longrightarrow> br_selectedThreadId r = ts_current (snd w) \<Longrightarrow>
   consequenceLoop turns hooks w r = (w', res) \<Longrightarrow>
   ts_wf (snd w') \<and> (\<forall>r'. res = Inr r' \<longrightarrow> br_selectedThreadId r' = ts_current (snd w'))"
proof (induction turns arbitrary: w r)
  case 0
  then show ?case by (auto simp: roomFor_def)
next
  case (Suc turns)
  have rm: "roomFor (k + Suc (turns * Suc k)) (snd w)" using Suc.prems(2) by (simp add: algebra_simps)
  from Suc.prems(4) show ?case
  proof (cases rule: consequenceLoop_cases)
    case quiet
    then show ?thesis using Suc.prems by (simp add: roomFor_def)
  next
    case (threw stage h1 s1 e)
    then show ?thesis using useOperationsD [OF Suc.prems(1) threw(2) rm] by (simp add: roomFor_def)
  next
    case (failed stage h1 s1 pol s2 sel h2 r1 r2 e)
    note s1 = useOperationsD [OF Suc.prems(1) failed(2) rm]
    then show ?thesis using reschedule_current [OF s1 failed(3)] failed by (simp add: roomFor_def)
  next
    case (turn stage h1 s1 pol s2 sel h2 r1 r2)
    note s1 = useOperationsD [OF Suc.prems(1) turn(2) rm]
    note s2 = reschedule_current [OF s1 turn(3)]
    have "br_selectedThreadId r2 = ts_current (snd (h2, s2))"
      using publishIfChanged_fields [OF turn(5)] turn(4) s2 by simp
    from Suc.IH [OF Suc.prems(1) _ this turn(6)] show ?thesis using s2 by simp
  qed
qed

lemma rotate_reschedule_commit:
  assumes r: "roomFor (Suc (Suc n)) s" and ap: "applyOwnerLocalTransition t s = (s', out)"
  shows "roomFor n s' \<and> (\<forall>sel. out = Inr sel \<longrightarrow> sel = ts_current s')"
proof -
  have r0: "roomFor n s" and r1: "roomFor (Suc n) s" using roomFor_mono [OF r] by simp_all
  have rot: "roomFor (Suc n) (fst (rotateReadyQueue p s))" for p using roomFor_step [OF r, of "OpRotate p"] by simp
  have res: "roomFor n (fst (reschedule pol s1))" "snd (reschedule pol s1) = ts_current (fst (reschedule pol s1))"
    if "roomFor (Suc n) s1" for s1 pol
    using reschedule_current [OF that, of pol "fst (reschedule pol s1)" "snd (reschedule pol s1)"] by simp_all
  show ?thesis using ap r0 roomFor_mono [OF rot, of n] res(1) [OF r1] res(1) [OF rot] res(2) [OF r1] res(2) [OF rot]
    unfolding applyOwnerLocalTransition_def
    by (auto simp: split_beta split: transition_kind.splits option.splits if_splits)
qed

lemma select_scheduler:
  assumes "roomFor (Suc (Suc n)) s" and "selectContext input r s = (s', out)"
  shows "roomFor n s' \<and> (\<forall>r1. out = Inr r1 \<longrightarrow> br_selectedThreadId r1 = ts_current s')"
proof (cases "transition_pending (bi_ownerLocalTransition input)")
  case True
  then show ?thesis using assms rotate_reschedule_commit [OF assms(1)]
    by (auto simp: selectContext_def split: prod.splits sum.splits)
next
  case False
  have "roomFor (Suc n) s" using roomFor_mono [OF assms(1)] by simp
  from reschedule_current [OF this] show ?thesis using assms(2) False
    by (auto simp: selectContext_def split: prod.splits)
qed

lemma commit_cases [consumes 1, case_names threw rejected failed finished]:
  fixes hooks :: "('h, 'e) executor_hooks"
  assumes "commitAndSelect hooks input tick r w = (w1, out)"
    and "\<And>h1 e. hk_commitPriorContext hooks (bi_priorThreadId input) (bi_elapsed input) tick (fst w) = (h1, Some e) \<Longrightarrow>
      w1 = (h1, publishCanonicalTick tick (snd w)) \<Longrightarrow> out = Inl (HookThrew e) \<Longrightarrow> P"
    and "\<And>h1 s1 e. hk_commitPriorContext hooks (bi_priorThreadId input) (bi_elapsed input) tick (fst w) = (h1, None) \<Longrightarrow>
      selectContext input (r\<lparr>br_tick := tick\<rparr>) (publishCanonicalTick tick (snd w)) = (s1, Inl e) \<Longrightarrow>
      w1 = (h1, s1) \<Longrightarrow> out = Inl e \<Longrightarrow> P"
    and "\<And>h1 s1 r1 h2 e. hk_commitPriorContext hooks (bi_priorThreadId input) (bi_elapsed input) tick (fst w) = (h1, None) \<Longrightarrow>
      selectContext input (r\<lparr>br_tick := tick\<rparr>) (publishCanonicalTick tick (snd w)) = (s1, Inr r1 :: 'e boundary_error + boundary_result) \<Longrightarrow>
      hk_publishSelectedContext hooks (br_selectedThreadId r1) tick h1 = (h2, Some e) \<Longrightarrow>
      w1 = (h2, s1) \<Longrightarrow> out = Inl (HookThrew e) \<Longrightarrow> P"
    and "\<And>h1 s1 r1 h2. hk_commitPriorContext hooks (bi_priorThreadId input) (bi_elapsed input) tick (fst w) = (h1, None) \<Longrightarrow>
      selectContext input (r\<lparr>br_tick := tick\<rparr>) (publishCanonicalTick tick (snd w)) = (s1, Inr r1 :: 'e boundary_error + boundary_result) \<Longrightarrow>
      hk_publishSelectedContext hooks (br_selectedThreadId r1) tick h1 = (h2, None) \<Longrightarrow>
      w1 = (h2, s1) \<Longrightarrow> out = Inr (r1\<lparr>br_contextPublications := br_contextPublications r1 + 1\<rparr>) \<Longrightarrow> P"
  shows P
proof -
  obtain h1 e1 where c: "hk_commitPriorContext hooks (bi_priorThreadId input) (bi_elapsed input) tick (fst w) = (h1, e1)"
    by fastforce
  obtain s1 o1 where s: "selectContext input (r\<lparr>br_tick := tick\<rparr>) (publishCanonicalTick tick (snd w))
      = (s1, o1 :: 'e boundary_error + boundary_result)" by fastforce
  note go = assms(1) [symmetric, unfolded commitAndSelect_def Let_def c prod.case]
  show ?thesis
  proof (cases e1)
    case (Some e)
    then show ?thesis using go assms(2) [of h1 e] c by simp
  next
    case None
    note go = go [unfolded None option.case s prod.case]
    show ?thesis
    proof (cases o1)
      case (Inl e)
      have "w1 = (h1, s1)" "out = Inl e" using go by (simp_all add: Inl)
      then show ?thesis using assms(3) [OF c [unfolded None] s [unfolded Inl]] by blast
    next
      case (Inr r1)
      obtain h2 e2 where p: "hk_publishSelectedContext hooks (br_selectedThreadId r1) tick h1 = (h2, e2)" by fastforce
      note go = go [unfolded Inr sum.case p prod.case]
      show ?thesis
      proof (cases e2)
        case threw: (Some e)
        have "w1 = (h2, s1)" "out = Inl (HookThrew e)" using go by (simp_all add: threw)
        then show ?thesis using assms(4) [OF c [unfolded None] s [unfolded Inr] p [unfolded threw]] by blast
      next
        case ok: None
        have "w1 = (h2, s1)" "out = Inr (r1\<lparr>br_contextPublications := br_contextPublications r1 + 1\<rparr>)"
          using go by (simp_all add: ok)
        then show ?thesis using assms(5) [OF c [unfolded None] s [unfolded Inr] p [unfolded ok]] by blast
      qed
    qed
  qed
qed

lemma roomFor_tick [simp]: "roomFor n (publishCanonicalTick tick s) = roomFor n s"
  by (simp add: roomFor_def trace_ops_wf ts_capacity_def) (simp add: publishCanonicalTick_def)

lemma commit_scheduler:
  assumes r: "roomFor (Suc (Suc n)) (snd w)" and c: "commitAndSelect hooks input tick r0 w = (w1, out)"
  shows "roomFor n (snd w1) \<and> (\<forall>r1. out = Inr r1 \<longrightarrow> br_selectedThreadId r1 = ts_current (snd w1))"
proof -
  have s: "roomFor (Suc (Suc n)) (publishCanonicalTick tick (snd w))" using r by simp
  note sel = select_scheduler [OF s]
  from c show ?thesis
  proof (cases rule: commit_cases)
    case (threw h1 e)
    then show ?thesis using roomFor_mono [OF r, of n] by simp
  next
    case (rejected h1 s1 e)
    then show ?thesis using sel [OF rejected(2)] by simp
  next
    case (failed h1 s1 r1 h2 e)
    then show ?thesis using sel [OF failed(2)] by simp
  next
    case (finished h1 s1 r1 h2)
    then show ?thesis using sel [OF finished(2)] by simp
  qed
qed

lemma debug_timeline: "ex_timeline (debugRequest q x) = ex_timeline x"
  by (cases q) (simp_all add: debugRequestPause_def debugResume_def debugRequestStop_def debugStepBoundaries_def)

lemma debug_timelines: "ex_timeline (fold debugRequest qs x) = ex_timeline x"
  by (induction qs arbitrary: x) (simp_all add: debug_timeline)

lemma control_timeline: "applyDebugControl d x r = (x', r') \<Longrightarrow> ex_timeline x' = ex_timeline x"
  by (auto simp: applyDebugControl_def Let_def split: if_splits)

lemma owner_timeline: "requireOwner cur x = Some y \<Longrightarrow> ex_timeline y = ex_timeline x"
  by (auto simp: requireOwner_def split: option.splits if_splits)

text \<open>The state a boundary leaves, however it ends, in terms of its phases.\<close>

lemma boundary_states [consumes 1, case_names untouched committed looped]:
  fixes hooks :: "('h, 'e) executor_hooks"
  assumes "processBoundary d cur arrivals hooks input (x, w) = ((x', w'), out)"
    and "w' = w \<Longrightarrow> (\<forall>r. out = Inr r \<longrightarrow> br_selectedThreadId r = ts_current (snd w)) \<Longrightarrow> P"
    and "\<And>r0 tick e. commitAndSelect hooks input tick r0 w = (w', Inl e) \<Longrightarrow> out = Inl e \<Longrightarrow> P"
    and "\<And>r0 tick w1 r1 o1. commitAndSelect hooks input tick r0 w = (w1, Inr r1) \<Longrightarrow>
      consequenceLoop kMaximumConsequencesPerBoundary hooks w1 r1 = (w', o1) \<Longrightarrow>
      (\<forall>r. out = Inr r \<longrightarrow> (\<exists>r2. o1 = Inr r2 \<and> br_selectedThreadId r = br_selectedThreadId r2)) \<Longrightarrow> P"
  shows P
proof (cases "requireOwner cur x")
  case None
  then have "w' = w" "out = Inl NotOwnerThread" using assms(1) by (simp_all add: processBoundary_def)
  then show ?thesis using assms(2) by blast
next
  case (Some y)
  note go = assms(1) [symmetric, unfolded processBoundary_def prod.case Some option.case Let_def]
  show ?thesis
  proof (cases "ex_processingBoundary y")
    case True
    then have "w' = w" "\<forall>r. out = Inr r \<longrightarrow> br_selectedThreadId r = ts_current (snd w)"
      using go by (simp_all add: noResult_def)
    then show ?thesis by (rule assms(2))
  next
    case np: False
    note go = go [unfolded if_not_P [OF np]]
    show ?thesis
    proof (cases "validateOwnerLocalTransition (snd w) input :: 'e boundary_error option")
      case (Some e)
      then have "w' = w" "\<forall>r. out = Inr r \<longrightarrow> br_selectedThreadId r = ts_current (snd w)" using go by simp_all
      then show ?thesis by (rule assms(2))
    next
      case va: None
      let ?r0 = "startResult y (snd w)" and ?t = "boundaryTick y input"
      have tl: "timeline_advance (ex_timeline y) (bi_elapsed input) = (\<lparr>tl_now = ?t\<rparr>, ?t)"
        by (simp add: timeline_advance_def boundaryTick_def executor_now_def Let_def)
      obtain w1 o1 where c: "commitAndSelect hooks input ?t ?r0 w = (w1, o1)" by fastforce
      note go = go [folded startResult_def, unfolded va option.case tl prod.case c]
      show ?thesis
      proof (cases o1)
        case (Inl e)
        have "w' = w1" "out = Inl e" using go by (simp_all add: Inl)
        then show ?thesis using assms(3) [OF c [unfolded Inl \<open>w' = w1\<close> [symmetric]]] by blast
      next
        case (Inr r1)
        obtain w2 o2 where l: "consequenceLoop kMaximumConsequencesPerBoundary hooks w1 r1 = (w2, o2)" by fastforce
        note go = go [unfolded Inr sum.case l prod.case]
        show ?thesis
        proof (cases o2)
          case (Inl e)
          then have "w' = w2" "out = Inl e" using go by simp_all
          note l' = l [folded \<open>w' = w2\<close>]
          show ?thesis by (rule assms(4) [OF c [unfolded Inr] l']) (simp add: \<open>out = Inl e\<close>)
        next
          case ok: (Inr r2)
          obtain x2 r3 where dbg: "applyDebugControl d (fold debugRequest arrivals (y\<lparr>ex_timeline := \<lparr>tl_now = ?t\<rparr>\<rparr>))
             (checkLimit hooks (fst w2) r2) = (x2, r3)" by fastforce
          have w2: "w' = w2" and out: "out = Inr r3" using go dbg by (simp_all add: ok)
          have "br_selectedThreadId r3 = br_selectedThreadId r2" using debug_sel(2) [OF dbg] by simp
          note sel = this and l' = l [folded w2]
          show ?thesis by (rule assms(4) [OF c [unfolded Inr] l']) (simp add: ok out sel)
        qed
      qed
    qed
  qed
qed


section \<open>The recorded calls\<close>

lemma traced_sel [simp]:
  "hk_commitPriorContext (traced hooks) prior elapsed now (h, calls)
     = ((fst (hk_commitPriorContext hooks prior elapsed now h), calls @ [CommitCall prior elapsed now]),
        snd (hk_commitPriorContext hooks prior elapsed now h))"
  "hk_publishSelectedContext (traced hooks) selected now (h, calls)
     = ((fst (hk_publishSelectedContext hooks selected now h), calls @ [PublishCall selected now]),
        snd (hk_publishSelectedContext hooks selected now h))"
  "hk_hasImmediateConsequence (traced hooks) stage now (h, calls) = hk_hasImmediateConsequence hooks stage now h"
  "hk_applyNextConsequence (traced hooks) stage now s (h, calls)
     = ((fst (hk_applyNextConsequence hooks stage now s h), calls @ [ApplyCall stage now]),
        snd (hk_applyNextConsequence hooks stage now s h))"
  by (simp_all add: traced_def split_beta)

lemma traced_useOperations: "useOperations k hooks \<Longrightarrow> useOperations k (traced hooks)"
  unfolding useOperations_def by (auto simp: split_paired_all) (metis prod.collapse)

text \<open>The calls of a boundary after the commit: none commits, the last publication counts.\<close>

definition callsOk :: "hook_call list \<Rightarrow> ee_tick \<Rightarrow> nat \<Rightarrow> nat \<Rightarrow> bool" where
  "callsOk new now applied published \<longleftrightarrow> (\<forall>c \<in> set new. callTick c = now \<and> (isApply c \<or> isPublish c))
     \<and> length (filter isApply new) = applied \<and> length (filter isPublish new) = published"

lemma callsOk_append:
  "callsOk xs now m n \<Longrightarrow> callsOk ys now k l \<Longrightarrow> callsOk (xs @ ys) now (m + k) (n + l)"
  by (auto simp: callsOk_def)

lemma publishIfChanged_calls:
  assumes "publishIfChanged (traced hooks) before (h, calls) r = ((h', calls'), r', None)"
  shows "\<exists>new. calls' = calls @ new \<and> callsOk new (br_tick r) 0 (br_contextPublications r' - br_contextPublications r)
    \<and> publishedLast new before = br_selectedThreadId r"
proof (cases "before \<noteq> br_selectedThreadId r")
  case True
  then have "calls' = calls @ [PublishCall (br_selectedThreadId r) (br_tick r)]"
    "br_contextPublications r' = br_contextPublications r + 1"
    using assms by (auto simp: publishIfChanged_def split: prod.splits option.splits)
  then show ?thesis by (auto simp: callsOk_def)
next
  case False
  then have "calls' = calls" "r' = r" using assms by (auto simp: publishIfChanged_def)
  then show ?thesis using False by (auto simp: callsOk_def)
qed

lemma loop_calls:
  "useOperations k hooks \<Longrightarrow> roomFor (turns * Suc k) s \<Longrightarrow> br_selectedThreadId r = ts_current s \<Longrightarrow>
   consequenceLoop turns (traced hooks) ((h, calls), s) r = (((h', calls'), s'), Inr r') \<Longrightarrow>
   \<exists>new. calls' = calls @ new
     \<and> callsOk new (br_tick r) (br_consequencesProcessed r' - br_consequencesProcessed r)
          (br_contextPublications r' - br_contextPublications r)
     \<and> publishedLast new (ts_current s) = br_selectedThreadId r'
     \<and> br_consequencesProcessed r \<le> br_consequencesProcessed r' \<and> br_contextPublications r \<le> br_contextPublications r'"
proof (induction turns arbitrary: h calls s r)
  case 0
  then show ?case by (auto simp: callsOk_def)
next
  case (Suc turns)
  have rm: "roomFor (k + Suc (turns * Suc k)) s" using Suc.prems(2) by (simp add: algebra_simps)
  from Suc.prems(4) show ?case
  proof (cases rule: consequenceLoop_cases)
    case quiet
    then show ?thesis using Suc.prems(3) by (auto simp: callsOk_def)
  next
    case (turn stage hc1 s1 pol s2 sel hc2 r1 r2)
    obtain h1 calls1 where hc1: "hc1 = (h1, calls1)" by fastforce
    obtain h2 calls2 where hc2: "hc2 = (h2, calls2)" by fastforce
    have c1: "calls1 = calls @ [ApplyCall stage (br_tick r)]"
      and ap: "hk_applyNextConsequence hooks stage (br_tick r) s h = (h1, s1, Inr pol)"
      using turn(2) by (auto simp: hc1 prod_eq_iff)
    note s1 = useOperationsD [OF Suc.prems(1) ap rm]
    note s2 = reschedule_current [OF s1 turn(3)]
    note f = publishIfChanged_fields [OF turn(5)]
    obtain n1 where n1: "calls2 = calls1 @ n1"
      "callsOk n1 (br_tick r1) 0 (br_contextPublications r2 - br_contextPublications r1)"
      "publishedLast n1 (ts_current s) = br_selectedThreadId r1"
      using publishIfChanged_calls [OF turn(5) [unfolded hc1 hc2, simplified]] by blast
    have sel2: "br_selectedThreadId r2 = ts_current s2" using f turn(4) s2 by simp
    obtain n2 where n2: "calls' = calls2 @ n2"
      "callsOk n2 (br_tick r2) (br_consequencesProcessed r' - br_consequencesProcessed r2)
          (br_contextPublications r' - br_contextPublications r2)"
      "publishedLast n2 (ts_current s2) = br_selectedThreadId r'"
      "br_consequencesProcessed r2 \<le> br_consequencesProcessed r'" "br_contextPublications r2 \<le> br_contextPublications r'"
      using Suc.IH [OF Suc.prems(1) _ sel2 turn(6) [unfolded hc2]] s2 by blast
    have a0: "callsOk [ApplyCall stage (br_tick r)] (br_tick r) 1 0" by (simp add: callsOk_def)
    have "callsOk (([ApplyCall stage (br_tick r)] @ n1) @ n2) (br_tick r)
        ((1 + 0) + (br_consequencesProcessed r' - br_consequencesProcessed r2))
        ((0 + (br_contextPublications r2 - br_contextPublications r1)) + (br_contextPublications r' - br_contextPublications r2))"
      using n1(2) n2(2) f turn(4) by (intro callsOk_append a0) simp_all
    moreover have "(1 + 0) + (br_consequencesProcessed r' - br_consequencesProcessed r2)
        = br_consequencesProcessed r' - br_consequencesProcessed r" using f turn(4) n2(4) by simp
    moreover have "(0 + (br_contextPublications r2 - br_contextPublications r1)) + (br_contextPublications r' - br_contextPublications r2)
        = br_contextPublications r' - br_contextPublications r" using f turn(4) n2(5) by simp
    ultimately have ok: "callsOk (([ApplyCall stage (br_tick r)] @ n1) @ n2) (br_tick r)
        (br_consequencesProcessed r' - br_consequencesProcessed r) (br_contextPublications r' - br_contextPublications r)"
      by (simp only:)
    have "calls' = calls @ (([ApplyCall stage (br_tick r)] @ n1) @ n2)" using c1 n1(1) n2(1) by simp
    moreover have "publishedLast (([ApplyCall stage (br_tick r)] @ n1) @ n2) (ts_current s) = br_selectedThreadId r'"
      using n1(3) n2(3) f turn(4) sel2 by (simp add: publishedLast_append)
    ultimately show ?thesis using ok f turn(4) n2(4,5) by (intro exI [of _ "([ApplyCall stage (br_tick r)] @ n1) @ n2"]) auto
  qed simp_all
qed

end
