(* ===== verification/EeExecutorProps.thy ===== *)
theory EeExecutorProps
  imports EeExecutorFacts EeThreadProps
begin

text \<open>
  Properties of an executor boundary: it ends with nothing pending unless the limit is hit and
  reported, the backend's last published context is the selected one, the thread scheduler
  stays consistent under any hooks that use its operations, and a debug step request runs
  exactly the boundaries asked for.
\<close>




text \<open>
  C6. The composition keeps the thread scheduler consistent: whatever hooks that use at most \<open>k\<close>
  scheduler operations per consequence do, and whatever they throw, the scheduler passes its
  own \<open>validate\<close> after the boundary, and a boundary that returns reports the thread the
  scheduler has current.
\<close>

theorem executor_keeps_scheduler:
  assumes "useOperations k hooks" and "roomFor (1024 * Suc k + 2) s"
    and "processBoundary d cur arrivals hooks input (x, h, s) = ((x', h', s'), out)"
  shows "validate s' \<and> (\<forall>r. out = Inr r \<longrightarrow> br_selectedThreadId r = ts_current s')"
proof -
  have room: "roomFor (Suc (Suc (kMaximumConsequencesPerBoundary * Suc k))) (snd (h, s))"
    using assms(2) by (simp add: kMaximumConsequencesPerBoundary_def)
  have "ts_wf s' \<and> (\<forall>r. out = Inr r \<longrightarrow> br_selectedThreadId r = ts_current s')"
    using assms(3)
  proof (cases rule: boundary_states)
    case untouched
    then show ?thesis using assms(2) by (simp add: roomFor_def)
  next
    case (committed r0 tick e)
    then show ?thesis using commit_scheduler [OF room committed(1)] by (simp add: roomFor_def)
  next
    case (looped r0 tick w1 r1 o1)
    note c = commit_scheduler [OF room looped(1)]
    then have "roomFor (kMaximumConsequencesPerBoundary * Suc k) (snd w1)"
      "br_selectedThreadId r1 = ts_current (snd w1)" by simp_all
    from loop_scheduler [OF assms(1) this looped(2)] looped(3) show ?thesis by auto
  qed
  then show ?thesis using wf_validate by blast
qed

text \<open>
  The backend is told the truth, in order: it is asked to commit the prior context once,
  first, with the elapsed ticks and the advanced time; every later call is a publication or a
  consequence at that same time; the first is a publication; as many consequences and
  publications are made as the result says; and the last publication is the selection the
  boundary returns, which is the scheduler's current thread.
\<close>

theorem boundary_publishes_selection:
  assumes "useOperations k hooks" and "roomFor (1024 * Suc k + 2) s"
    and "processBoundary d cur arrivals (traced hooks) input (x, (h, []), s) = ((x', (h', calls), s'), Inr r)"
    and "\<not> br_reentrantBoundaryRejected r"
  shows "br_tick r = saturatingAdd (executor_now x) (bi_elapsed input) \<and> executor_now x' = br_tick r
    \<and> (\<exists>first new. calls = CommitCall (bi_priorThreadId input) (bi_elapsed input) (br_tick r)
                            # PublishCall first (br_tick r) # new
         \<and> callsOk (PublishCall first (br_tick r) # new) (br_tick r) (br_consequencesProcessed r) (br_contextPublications r)
         \<and> publishedLast new first = br_selectedThreadId r)
    \<and> br_selectedThreadId r = ts_current s'"
proof -
  obtain y w1 r1 r2 x2 where
    y: "requireOwner cur x = Some y"
    and c: "commitAndSelect (traced hooks) input (boundaryTick y input) (startResult y s) ((h, []), s) = (w1, Inr r1)"
    and l: "consequenceLoop kMaximumConsequencesPerBoundary (traced hooks) w1 r1 = (((h', calls), s'), Inr r2)"
    and dbg: "applyDebugControl d (fold debugRequest arrivals (y\<lparr>ex_timeline := \<lparr>tl_now = boundaryTick y input\<rparr>\<rparr>))
       (checkLimit (traced hooks) (h', calls) r2) = (x2, r)"
    and x': "x' = countBoundary r x2"
    by (rule boundary_ok [OF assms(3,4), unfolded fst_conv snd_conv]) blast
  note f1 = commit_fields [OF c, simplified] and f3 = debug_sel [OF dbg, simplified]
  have lf: "br_tick r2 = br_tick r1" using loop_counts [OF l] f1 by simp
  have tick: "br_tick r = saturatingAdd (executor_now x) (bi_elapsed input)"
    using f1 f3 lf owner_timeline [OF y] by (simp add: boundaryTick_def executor_now_def)
  have "ex_timeline x' = \<lparr>tl_now = boundaryTick y input\<rparr>"
    using control_timeline [OF dbg] by (simp add: x' countBoundary_def Let_def debug_timelines)
  then have now: "executor_now x' = br_tick r" using f1 f3 lf by (simp add: executor_now_def)
  have room: "roomFor (Suc (Suc (kMaximumConsequencesPerBoundary * Suc k))) (snd ((h, [] :: hook_call list), s))"
    using assms(2) by (simp add: kMaximumConsequencesPerBoundary_def)
  obtain h1 calls1 s1 where w1: "w1 = ((h1, calls1), s1)" by (metis surj_pair)
  have sch: "roomFor (kMaximumConsequencesPerBoundary * Suc k) s1" "br_selectedThreadId r1 = ts_current s1"
    using commit_scheduler [OF room c] by (simp_all add: w1)
  have calls1: "calls1 = [CommitCall (bi_priorThreadId input) (bi_elapsed input) (br_tick r1),
      PublishCall (br_selectedThreadId r1) (br_tick r1)]"
    using c
  proof (cases rule: commit_cases)
    case (finished hc1 s1' r1' hc2)
    obtain g1 k1 where hc1: "hc1 = (g1, k1)" by fastforce
    have "k1 = [CommitCall (bi_priorThreadId input) (bi_elapsed input) (boundaryTick y input)]"
      using finished(1) by (simp add: hc1)
    moreover have "calls1 = k1 @ [PublishCall (br_selectedThreadId r1') (boundaryTick y input)]"
      using finished(3,4) w1 by (auto simp: hc1)
    ultimately show ?thesis using finished(5) f1 by simp
  qed simp_all
  obtain new where new: "calls = calls1 @ new"
    "callsOk new (br_tick r1) (br_consequencesProcessed r2 - br_consequencesProcessed r1)
       (br_contextPublications r2 - br_contextPublications r1)"
    "publishedLast new (ts_current s1) = br_selectedThreadId r2"
    "br_consequencesProcessed r1 \<le> br_consequencesProcessed r2" "br_contextPublications r1 \<le> br_contextPublications r2"
    using loop_calls [OF assms(1) sch l [unfolded w1]] by blast
  have p0: "callsOk [PublishCall (br_selectedThreadId r1) (br_tick r1)] (br_tick r1) 0 1" by (simp add: callsOk_def)
  have "callsOk (PublishCall (br_selectedThreadId r1) (br_tick r1) # new) (br_tick r1)
      (br_consequencesProcessed r2) (br_contextPublications r2)"
    using callsOk_append [OF p0 new(2)] new(4,5) f1 by simp
  moreover have "br_selectedThreadId r2 = ts_current s'"
    using loop_scheduler [OF traced_useOperations [OF assms(1)] _ _ l] sch by (simp add: w1)
  ultimately show ?thesis using tick now calls1 new(1,3) sch(2) f3 lf by auto
qed


section \<open>A scripted implementation of the hooks\<close>

text \<open>
  Hooks that play a script of consequences: each entry is pending at its stage until it is
  applied, and then performs at most \<open>k\<close> scheduler operations.
\<close>

type_synonym script = "(consequence_stage \<times> ts_op list \<times> reschedule_policy) list"

definition scripted :: "nat \<Rightarrow> (script, unit) executor_hooks" where
  "scripted k = \<lparr>
     hk_commitPriorContext = (\<lambda>_ _ _ h. (h, None)),
     hk_publishSelectedContext = (\<lambda>_ _ h. (h, None)),
     hk_hasImmediateConsequence = (\<lambda>stage _ h. case h of [] \<Rightarrow> False | (st, _) # _ \<Rightarrow> st = stage),
     hk_applyNextConsequence = (\<lambda>_ _ s h. case h of
         [] \<Rightarrow> (h, s, Inr RpNone)
       | (_, ops, pol) # rest \<Rightarrow> (rest, fold ts_step (take k ops) s, Inr pol))\<rparr>"

lemma scripted_useOperations: "useOperations k (scripted k)"
proof -
  have "\<exists>ops. length ops \<le> k \<and> s' = fold ts_step ops s"
    if "hk_applyNextConsequence (scripted k) stage now s h = (h', s', out)" for stage now s h h' s' out
  proof (cases h)
    case Nil
    then show ?thesis using that by (intro exI [of _ "[]"]) (simp add: scripted_def)
  next
    case (Cons e rest)
    then show ?thesis using that by (intro exI [of _ "take k (fst (snd e))"]) (auto simp: scripted_def split: prod.splits)
  qed
  then show ?thesis unfolding useOperations_def by blast
qed

text \<open>Thread 1 runs at priority 20; an event starts thread 2 at priority 10.\<close>

definition demoScheduler :: scheduler where
  "demoScheduler = fold ts_step [OpAddRunning 1 1 20, OpAddDormant 2 1 10] ts_init"

definition demoScript :: script where
  "demoScript = [(HardwareEvent, [OpStart 2], RpHigherPriorityOnly)]"

definition demoInput :: boundary_input where
  "demoInput = \<lparr>bi_priorThreadId = Some 1, bi_elapsed = EeTickDelta 80, bi_initialPolicy = RpHigherPriorityOnly,
     bi_ownerLocalTransition = noTransition\<rparr>"

lemma demo_room: "roomFor (1024 * Suc 1 + 2) demoScheduler"
proof -
  have "ts_wf demoScheduler" unfolding demoScheduler_def by (rule run_wf) simp
  moreover have "ts_nextQueueSequence demoScheduler = 1" by code_simp
  ultimately show ?thesis by (simp add: roomFor_def ts_capacity_def)
qed

lemma demo_result:
  "case processBoundary False 7 [] (scripted 1) demoInput (executor_new, demoScript, demoScheduler) of
     (_, Inr r) \<Rightarrow> br_selectedThreadId r = Some 2 \<and> br_consequencesProcessed r = 1 \<and> \<not> br_reentrantBoundaryRejected r
   | (_, Inl _) \<Rightarrow> False"
  by code_simp

section \<open>Debug stepping\<close>

text \<open>What one boundary does to the debug state when no request arrives during it.\<close>

definition debugState :: "executor \<Rightarrow> bool \<times> bool \<times> u64" where
  "debugState x = (ex_debugStopRequested x, ex_debugPauseRequested x, ex_debugStepBoundariesRemaining x)"

lemma boundary_debug:
  assumes "processBoundary True cur [] hooks input (x, w) = ((x', w'), Inr r)"
    and "\<not> br_reentrantBoundaryRejected r" and "\<not> ex_debugStopRequested x"
  shows "\<not> ex_debugStopRequested x' \<and>
    (if ex_debugPauseRequested x then br_disposition r = Paused \<and> ex_debugPauseRequested x'
     else if ex_debugStepBoundariesRemaining x = 0 then br_disposition r = ResumeGuest \<and> debugState x' = debugState x
     else if ex_debugStepBoundariesRemaining x = 1 then br_disposition r = Paused \<and> ex_debugPauseRequested x'
     else br_disposition r = ResumeGuest \<and> \<not> ex_debugPauseRequested x'
       \<and> ex_debugStepBoundariesRemaining x' = ex_debugStepBoundariesRemaining x - 1)"
proof -
  obtain y w1 r1 r2 x2 where
    y: "requireOwner cur x = Some y"
    and c: "commitAndSelect hooks input (boundaryTick y input) (startResult y (snd w)) w = (w1, Inr r1)"
    and l: "consequenceLoop kMaximumConsequencesPerBoundary hooks w1 r1 = (w', Inr r2)"
    and dbg: "applyDebugControl True (y\<lparr>ex_timeline := \<lparr>tl_now = boundaryTick y input\<rparr>\<rparr>)
       (checkLimit hooks (fst w') r2) = (x2, r)"
    and x': "x' = countBoundary r x2"
    by (rule boundary_ok [OF assms(1,2), unfolded fold.simps id_apply]) blast
  have ys: "debugState y = debugState x" using y by (auto simp: requireOwner_def debugState_def split: option.splits if_splits)
  have xs: "debugState x' = debugState x2" by (simp add: x' countBoundary_def Let_def debugState_def)
  have "br_disposition r2 = ResumeGuest" using commit_fields [OF c] loop_counts [OF l] by simp
  then show ?thesis using dbg ys xs assms(3)
    by (auto simp: applyDebugControl_def Let_def debugState_def split: if_splits)
qed

text \<open>Boundaries one after the other, each with its own input.\<close>

fun boundaries ::
  "nat \<Rightarrow> ('h, 'e) executor_hooks \<Rightarrow> boundary_input list \<Rightarrow> executor \<times> 'h hook_world
    \<Rightarrow> ('e boundary_error + boundary_result) list" where
  "boundaries cur hooks [] xw = []"
| "boundaries cur hooks (input # inputs) xw =
     (case processBoundary True cur [] hooks input xw of
        (xw', out) \<Rightarrow> out # boundaries cur hooks inputs xw')"

definition ranThrough :: "'e boundary_error + boundary_result \<Rightarrow> bool" where
  "ranThrough out = (case out of Inl _ \<Rightarrow> False | Inr r \<Rightarrow> \<not> br_reentrantBoundaryRejected r)"

definition outDisposition :: "'e boundary_error + boundary_result \<Rightarrow> disposition option" where
  "outDisposition out = (case out of Inl _ \<Rightarrow> None | Inr r \<Rightarrow> Some (br_disposition r))"

lemma outDisposition_Inr [simp]: "outDisposition (Inr r) = Some (br_disposition r)"
  by (simp add: outDisposition_def)

lemma boundaries_length [simp]: "length (boundaries cur hooks inputs xw) = length inputs"
  by (induction inputs arbitrary: xw) (simp_all add: split_beta)

lemma paused_boundaries:
  "\<not> ex_debugStopRequested x \<Longrightarrow> ex_debugPauseRequested x \<Longrightarrow>
   list_all ranThrough (boundaries cur hooks inputs (x, w)) \<Longrightarrow>
   map outDisposition (boundaries cur hooks inputs (x, w)) = replicate (length inputs) (Some Paused)"
proof (induction inputs arbitrary: x w)
  case (Cons input inputs)
  obtain x' w' out where pb: "processBoundary True cur [] hooks input (x, w) = ((x', w'), out)" by (metis surj_pair)
  then obtain r where r: "out = Inr r" "\<not> br_reentrantBoundaryRejected r"
    using Cons.prems(3) by (auto simp: ranThrough_def split: sum.splits)
  from boundary_debug [OF pb [unfolded r(1)] r(2) Cons.prems(1)] Cons.prems(2)
  have d: "br_disposition r = Paused" "ex_debugPauseRequested x'" "\<not> ex_debugStopRequested x'" by auto
  then show ?case using Cons.IH [of x' w'] Cons.prems(3) pb r by simp
qed simp

lemma stepping_boundaries:
  "\<not> ex_debugStopRequested x \<Longrightarrow> \<not> ex_debugPauseRequested x \<Longrightarrow> unat (ex_debugStepBoundariesRemaining x) = Suc n \<Longrightarrow>
   list_all ranThrough (boundaries cur hooks inputs (x, w)) \<Longrightarrow>
   map outDisposition (boundaries cur hooks inputs (x, w))
     = map (\<lambda>i. Some (if i < n then ResumeGuest else Paused)) [0..<length inputs]"
proof (induction inputs arbitrary: x w n)
  case (Cons input inputs)
  obtain x' w' out where pb: "processBoundary True cur [] hooks input (x, w) = ((x', w'), out)" by (metis surj_pair)
  then have ran: "ranThrough out" and rest: "list_all ranThrough (boundaries cur hooks inputs (x', w'))"
    using Cons.prems(4) by simp_all
  obtain r where r: "out = Inr r" "\<not> br_reentrantBoundaryRejected r"
    using ran by (auto simp: ranThrough_def split: sum.splits)
  note bd = boundary_debug [OF pb [unfolded r(1)] r(2) Cons.prems(1)]
  have nz: "ex_debugStepBoundariesRemaining x \<noteq> 0" using Cons.prems(3) by auto
  have head: "[0..<length (input # inputs)] = 0 # map Suc [0..<length inputs]"
    by (simp add: map_Suc_upt upt_conv_Cons del: upt_Suc)
  show ?case
  proof (cases n)
    case 0
    then have "ex_debugStepBoundariesRemaining x = 1" using Cons.prems(3) by (simp add: word_unat_eq_iff)
    then have "br_disposition r = Paused" "ex_debugPauseRequested x'" "\<not> ex_debugStopRequested x'"
      using bd Cons.prems(2) by auto
    then show ?thesis using paused_boundaries [of x' cur hooks inputs w'] rest pb r 0
      unfolding head by (simp add: comp_def map_replicate_const)
  next
    case (Suc m)
    then have n1: "ex_debugStepBoundariesRemaining x \<noteq> 1" using Cons.prems(3) by auto
    then have d: "br_disposition r = ResumeGuest" "\<not> ex_debugPauseRequested x'" "\<not> ex_debugStopRequested x'"
      "ex_debugStepBoundariesRemaining x' = ex_debugStepBoundariesRemaining x - 1"
      using bd nz Cons.prems(2) by auto
    have "unat (ex_debugStepBoundariesRemaining x') = Suc m"
      using nz Cons.prems(3) Suc by (simp add: d(4) unat_minus_one)
    from Cons.IH [OF d(3,2) this rest] show ?thesis using pb r d(1) Suc
      unfolding head by (simp add: comp_def)
  qed
qed simp

text \<open>
  C37. A debug request for \<open>n\<close> boundaries is honoured exactly: with diagnostics built in and no
  further request, the next \<open>n - 1\<close> boundaries resume the guest, the \<open>n\<close>-th pauses it, and it
  stays paused.
\<close>

theorem debug_steps_exactly:
  assumes "debugStepBoundaries n x = (y, True)"
    and "list_all ranThrough (boundaries cur hooks inputs (y, w))"
  shows "map outDisposition (boundaries cur hooks inputs (y, w))
    = map (\<lambda>i. Some (if i + 1 < unat n then ResumeGuest else Paused)) [0..<length inputs]"
proof -
  have y: "y = x\<lparr>ex_debugStepBoundariesRemaining := n, ex_debugPauseRequested := False\<rparr>" "n \<noteq> 0" "\<not> ex_debugStopRequested x"
    using assms(1) by (auto simp: debugStepBoundaries_def split: if_splits)
  then obtain m where m: "unat n = Suc m" by (metis not0_implies_Suc unat_eq_zero)
  have "map outDisposition (boundaries cur hooks inputs (y, w))
     = map (\<lambda>i. Some (if i < m then ResumeGuest else Paused)) [0..<length inputs]"
    by (rule stepping_boundaries) (use y m assms(2) in simp_all)
  then show ?thesis by (simp add: m)
qed


section \<open>The demonstration boundary\<close>

lemma demo_runs:
  obtains x' h' s' r where
    "processBoundary False 7 [] (scripted 1) demoInput (executor_new, demoScript, demoScheduler) = ((x', h', s'), Inr r)"
    "br_selectedThreadId r = Some 2" "br_consequencesProcessed r = 1" "\<not> br_reentrantBoundaryRejected r"
  using demo_result by (auto split: prod.splits sum.splits)


lemma executor_keeps_scheduler_witness:
  "case processBoundary False 7 [] (scripted 1) demoInput (executor_new, demoScript, demoScheduler) of
     ((_, _, s'), Inr r) \<Rightarrow> validate s' \<and> ts_current s' = Some 2
   | _ \<Rightarrow> False"
proof -
  obtain x' h' s' r where
    pb: "processBoundary False 7 [] (scripted 1) demoInput (executor_new, demoScript, demoScheduler) = ((x', h', s'), Inr r)"
    and r: "br_selectedThreadId r = Some 2" by (rule demo_runs)
  show ?thesis unfolding pb prod.case sum.case
    using executor_keeps_scheduler [OF scripted_useOperations demo_room pb] r by simp
qed

lemma demo_traced:
  "case processBoundary False 7 [] (traced (scripted 1)) demoInput (executor_new, (demoScript, []), demoScheduler) of
     ((_, (_, calls), _), Inr r) \<Rightarrow> \<not> br_reentrantBoundaryRejected r
   | _ \<Rightarrow> False"
  by code_simp

lemma boundary_publishes_selection_witness:
  "case processBoundary False 7 [] (traced (scripted 1)) demoInput (executor_new, (demoScript, []), demoScheduler) of
     ((_, (_, calls), s'), Inr r) \<Rightarrow> publishedLast calls None = ts_current s' \<and> br_tick r = EeTick 80
   | _ \<Rightarrow> False"
proof -
  obtain x' h' calls s' r where
    pb: "processBoundary False 7 [] (traced (scripted 1)) demoInput (executor_new, (demoScript, []), demoScheduler)
       = ((x', (h', calls), s'), Inr r)"
    and r: "\<not> br_reentrantBoundaryRejected r"
    using demo_traced by (auto split: prod.splits sum.splits)
  from boundary_publishes_selection [OF scripted_useOperations demo_room pb r]
  have "publishedLast calls None = ts_current s'" "br_tick r = saturatingAdd (EeTick 0) (EeTickDelta 80)"
    by (auto simp: executor_now_def executor_new_def demoInput_def)
  moreover have "saturatingAdd (EeTick 0) (EeTickDelta 80) = EeTick 80" by code_simp
  ultimately show ?thesis unfolding pb prod.case sum.case by simp
qed

lemma demo_boundaries:
  "list_all ranThrough (boundaries 7 (scripted 1) (replicate 3 demoInput)
     (fst (debugStepBoundaries 2 executor_new), demoScript, demoScheduler))"
  by code_simp

lemma debug_steps_exactly_witness:
  "map outDisposition (boundaries 7 (scripted 1) (replicate 3 demoInput)
     (fst (debugStepBoundaries 2 executor_new), demoScript, demoScheduler))
   = [Some ResumeGuest, Some Paused, Some Paused]"
proof -
  have "debugStepBoundaries 2 executor_new = (fst (debugStepBoundaries 2 executor_new), True)"
    by (simp add: debugStepBoundaries_def executor_new_def)
  from debug_steps_exactly [OF this demo_boundaries] show ?thesis by (simp add: upt_conv_Cons)
qed

end
