(* ===== verification/R5900Opcodes.thy ===== *)
theory R5900Opcodes
  imports Prelude
begin

text \<open>
  \<open>ps2xRecomp/include/ps2recomp/instructions.h\<close>: the enumerators the decoder and the instruction
  models name, with the field extractors. An enumerator is the 32-bit value the code compares;
  \<open>opcode_values\<close> collects the equations.
\<close>

unbundle bit_operations_syntax

named_theorems opcode_values \<open>values of the instruction encodings\<close>

section \<open>MipsOpcodes\<close>

definition OPCODE_SPECIAL :: u32 where [opcode_values]: "OPCODE_SPECIAL = 0x00"
definition OPCODE_REGIMM :: u32 where [opcode_values]: "OPCODE_REGIMM = 0x01"
definition OPCODE_J :: u32 where [opcode_values]: "OPCODE_J = 0x02"
definition OPCODE_JAL :: u32 where [opcode_values]: "OPCODE_JAL = 0x03"
definition OPCODE_BEQ :: u32 where [opcode_values]: "OPCODE_BEQ = 0x04"
definition OPCODE_BNE :: u32 where [opcode_values]: "OPCODE_BNE = 0x05"
definition OPCODE_BLEZ :: u32 where [opcode_values]: "OPCODE_BLEZ = 0x06"
definition OPCODE_BGTZ :: u32 where [opcode_values]: "OPCODE_BGTZ = 0x07"
definition OPCODE_ADDI :: u32 where [opcode_values]: "OPCODE_ADDI = 0x08"
definition OPCODE_ADDIU :: u32 where [opcode_values]: "OPCODE_ADDIU = 0x09"
definition OPCODE_SLTI :: u32 where [opcode_values]: "OPCODE_SLTI = 0x0A"
definition OPCODE_SLTIU :: u32 where [opcode_values]: "OPCODE_SLTIU = 0x0B"
definition OPCODE_ANDI :: u32 where [opcode_values]: "OPCODE_ANDI = 0x0C"
definition OPCODE_ORI :: u32 where [opcode_values]: "OPCODE_ORI = 0x0D"
definition OPCODE_XORI :: u32 where [opcode_values]: "OPCODE_XORI = 0x0E"
definition OPCODE_LUI :: u32 where [opcode_values]: "OPCODE_LUI = 0x0F"
definition OPCODE_COP0 :: u32 where [opcode_values]: "OPCODE_COP0 = 0x10"
definition OPCODE_COP1 :: u32 where [opcode_values]: "OPCODE_COP1 = 0x11"
definition OPCODE_COP2 :: u32 where [opcode_values]: "OPCODE_COP2 = 0x12"
definition OPCODE_BEQL :: u32 where [opcode_values]: "OPCODE_BEQL = 0x14"
definition OPCODE_BNEL :: u32 where [opcode_values]: "OPCODE_BNEL = 0x15"
definition OPCODE_BLEZL :: u32 where [opcode_values]: "OPCODE_BLEZL = 0x16"
definition OPCODE_BGTZL :: u32 where [opcode_values]: "OPCODE_BGTZL = 0x17"
definition OPCODE_DADDI :: u32 where [opcode_values]: "OPCODE_DADDI = 0x18"
definition OPCODE_DADDIU :: u32 where [opcode_values]: "OPCODE_DADDIU = 0x19"
definition OPCODE_LDL :: u32 where [opcode_values]: "OPCODE_LDL = 0x1A"
definition OPCODE_LDR :: u32 where [opcode_values]: "OPCODE_LDR = 0x1B"
definition OPCODE_MMI :: u32 where [opcode_values]: "OPCODE_MMI = 0x1C"
definition OPCODE_LQ :: u32 where [opcode_values]: "OPCODE_LQ = 0x1E"
definition OPCODE_SQ :: u32 where [opcode_values]: "OPCODE_SQ = 0x1F"
definition OPCODE_LB :: u32 where [opcode_values]: "OPCODE_LB = 0x20"
definition OPCODE_LH :: u32 where [opcode_values]: "OPCODE_LH = 0x21"
definition OPCODE_LWL :: u32 where [opcode_values]: "OPCODE_LWL = 0x22"
definition OPCODE_LW :: u32 where [opcode_values]: "OPCODE_LW = 0x23"
definition OPCODE_LBU :: u32 where [opcode_values]: "OPCODE_LBU = 0x24"
definition OPCODE_LHU :: u32 where [opcode_values]: "OPCODE_LHU = 0x25"
definition OPCODE_LWR :: u32 where [opcode_values]: "OPCODE_LWR = 0x26"
definition OPCODE_LWU :: u32 where [opcode_values]: "OPCODE_LWU = 0x27"
definition OPCODE_SB :: u32 where [opcode_values]: "OPCODE_SB = 0x28"
definition OPCODE_SH :: u32 where [opcode_values]: "OPCODE_SH = 0x29"
definition OPCODE_SWL :: u32 where [opcode_values]: "OPCODE_SWL = 0x2A"
definition OPCODE_SW :: u32 where [opcode_values]: "OPCODE_SW = 0x2B"
definition OPCODE_SDL :: u32 where [opcode_values]: "OPCODE_SDL = 0x2C"
definition OPCODE_SDR :: u32 where [opcode_values]: "OPCODE_SDR = 0x2D"
definition OPCODE_SWR :: u32 where [opcode_values]: "OPCODE_SWR = 0x2E"
definition OPCODE_CACHE :: u32 where [opcode_values]: "OPCODE_CACHE = 0x2F"
definition OPCODE_LL :: u32 where [opcode_values]: "OPCODE_LL = 0x30"
definition OPCODE_LWC1 :: u32 where [opcode_values]: "OPCODE_LWC1 = 0x31"
definition OPCODE_LWC2 :: u32 where [opcode_values]: "OPCODE_LWC2 = 0x32"
definition OPCODE_PREF :: u32 where [opcode_values]: "OPCODE_PREF = 0x33"
definition OPCODE_LLD :: u32 where [opcode_values]: "OPCODE_LLD = 0x34"
definition OPCODE_LDC1 :: u32 where [opcode_values]: "OPCODE_LDC1 = 0x35"
definition OPCODE_LDC2 :: u32 where [opcode_values]: "OPCODE_LDC2 = 0x36"
definition OPCODE_LD :: u32 where [opcode_values]: "OPCODE_LD = 0x37"
definition OPCODE_SC :: u32 where [opcode_values]: "OPCODE_SC = 0x38"
definition OPCODE_SWC1 :: u32 where [opcode_values]: "OPCODE_SWC1 = 0x39"
definition OPCODE_SWC2 :: u32 where [opcode_values]: "OPCODE_SWC2 = 0x3A"
definition OPCODE_SCD :: u32 where [opcode_values]: "OPCODE_SCD = 0x3C"
definition OPCODE_SDC1 :: u32 where [opcode_values]: "OPCODE_SDC1 = 0x3D"
definition OPCODE_SDC2 :: u32 where [opcode_values]: "OPCODE_SDC2 = 0x3E"
definition OPCODE_SD :: u32 where [opcode_values]: "OPCODE_SD = 0x3F"
definition OPCODE_LQC2 :: u32 where [opcode_values]: "OPCODE_LQC2 = OPCODE_LDC2"
definition OPCODE_SQC2 :: u32 where [opcode_values]: "OPCODE_SQC2 = OPCODE_SDC2"

section \<open>SpecialFunctions\<close>

definition SPECIAL_SLL :: u32 where [opcode_values]: "SPECIAL_SLL = 0x00"
definition SPECIAL_SRL :: u32 where [opcode_values]: "SPECIAL_SRL = 0x02"
definition SPECIAL_SRA :: u32 where [opcode_values]: "SPECIAL_SRA = 0x03"
definition SPECIAL_SLLV :: u32 where [opcode_values]: "SPECIAL_SLLV = 0x04"
definition SPECIAL_SRLV :: u32 where [opcode_values]: "SPECIAL_SRLV = 0x06"
definition SPECIAL_SRAV :: u32 where [opcode_values]: "SPECIAL_SRAV = 0x07"
definition SPECIAL_JR :: u32 where [opcode_values]: "SPECIAL_JR = 0x08"
definition SPECIAL_JALR :: u32 where [opcode_values]: "SPECIAL_JALR = 0x09"
definition SPECIAL_MOVZ :: u32 where [opcode_values]: "SPECIAL_MOVZ = 0x0A"
definition SPECIAL_MOVN :: u32 where [opcode_values]: "SPECIAL_MOVN = 0x0B"
definition SPECIAL_SYSCALL :: u32 where [opcode_values]: "SPECIAL_SYSCALL = 0x0C"
definition SPECIAL_BREAK :: u32 where [opcode_values]: "SPECIAL_BREAK = 0x0D"
definition SPECIAL_SYNC :: u32 where [opcode_values]: "SPECIAL_SYNC = 0x0F"
definition SPECIAL_MFHI :: u32 where [opcode_values]: "SPECIAL_MFHI = 0x10"
definition SPECIAL_MTHI :: u32 where [opcode_values]: "SPECIAL_MTHI = 0x11"
definition SPECIAL_MFLO :: u32 where [opcode_values]: "SPECIAL_MFLO = 0x12"
definition SPECIAL_MTLO :: u32 where [opcode_values]: "SPECIAL_MTLO = 0x13"
definition SPECIAL_DSLLV :: u32 where [opcode_values]: "SPECIAL_DSLLV = 0x14"
definition SPECIAL_DSRLV :: u32 where [opcode_values]: "SPECIAL_DSRLV = 0x16"
definition SPECIAL_DSRAV :: u32 where [opcode_values]: "SPECIAL_DSRAV = 0x17"
definition SPECIAL_MULT :: u32 where [opcode_values]: "SPECIAL_MULT = 0x18"
definition SPECIAL_MULTU :: u32 where [opcode_values]: "SPECIAL_MULTU = 0x19"
definition SPECIAL_DIV :: u32 where [opcode_values]: "SPECIAL_DIV = 0x1A"
definition SPECIAL_DIVU :: u32 where [opcode_values]: "SPECIAL_DIVU = 0x1B"
definition SPECIAL_ADD :: u32 where [opcode_values]: "SPECIAL_ADD = 0x20"
definition SPECIAL_ADDU :: u32 where [opcode_values]: "SPECIAL_ADDU = 0x21"
definition SPECIAL_SUB :: u32 where [opcode_values]: "SPECIAL_SUB = 0x22"
definition SPECIAL_SUBU :: u32 where [opcode_values]: "SPECIAL_SUBU = 0x23"
definition SPECIAL_AND :: u32 where [opcode_values]: "SPECIAL_AND = 0x24"
definition SPECIAL_OR :: u32 where [opcode_values]: "SPECIAL_OR = 0x25"
definition SPECIAL_XOR :: u32 where [opcode_values]: "SPECIAL_XOR = 0x26"
definition SPECIAL_NOR :: u32 where [opcode_values]: "SPECIAL_NOR = 0x27"
definition SPECIAL_MFSA :: u32 where [opcode_values]: "SPECIAL_MFSA = 0x28"
definition SPECIAL_MTSA :: u32 where [opcode_values]: "SPECIAL_MTSA = 0x29"
definition SPECIAL_SLT :: u32 where [opcode_values]: "SPECIAL_SLT = 0x2A"
definition SPECIAL_SLTU :: u32 where [opcode_values]: "SPECIAL_SLTU = 0x2B"
definition SPECIAL_DADD :: u32 where [opcode_values]: "SPECIAL_DADD = 0x2C"
definition SPECIAL_DADDU :: u32 where [opcode_values]: "SPECIAL_DADDU = 0x2D"
definition SPECIAL_DSUB :: u32 where [opcode_values]: "SPECIAL_DSUB = 0x2E"
definition SPECIAL_DSUBU :: u32 where [opcode_values]: "SPECIAL_DSUBU = 0x2F"
definition SPECIAL_TGE :: u32 where [opcode_values]: "SPECIAL_TGE = 0x30"
definition SPECIAL_TGEU :: u32 where [opcode_values]: "SPECIAL_TGEU = 0x31"
definition SPECIAL_TLT :: u32 where [opcode_values]: "SPECIAL_TLT = 0x32"
definition SPECIAL_TLTU :: u32 where [opcode_values]: "SPECIAL_TLTU = 0x33"
definition SPECIAL_TEQ :: u32 where [opcode_values]: "SPECIAL_TEQ = 0x34"
definition SPECIAL_TNE :: u32 where [opcode_values]: "SPECIAL_TNE = 0x36"
definition SPECIAL_DSLL :: u32 where [opcode_values]: "SPECIAL_DSLL = 0x38"
definition SPECIAL_DSRL :: u32 where [opcode_values]: "SPECIAL_DSRL = 0x3A"
definition SPECIAL_DSRA :: u32 where [opcode_values]: "SPECIAL_DSRA = 0x3B"
definition SPECIAL_DSLL32 :: u32 where [opcode_values]: "SPECIAL_DSLL32 = 0x3C"
definition SPECIAL_DSRL32 :: u32 where [opcode_values]: "SPECIAL_DSRL32 = 0x3E"
definition SPECIAL_DSRA32 :: u32 where [opcode_values]: "SPECIAL_DSRA32 = 0x3F"

section \<open>RegimmFunctions\<close>

definition REGIMM_BLTZ :: u32 where [opcode_values]: "REGIMM_BLTZ = 0x00"
definition REGIMM_BGEZ :: u32 where [opcode_values]: "REGIMM_BGEZ = 0x01"
definition REGIMM_BLTZL :: u32 where [opcode_values]: "REGIMM_BLTZL = 0x02"
definition REGIMM_BGEZL :: u32 where [opcode_values]: "REGIMM_BGEZL = 0x03"
definition REGIMM_TGEI :: u32 where [opcode_values]: "REGIMM_TGEI = 0x08"
definition REGIMM_TGEIU :: u32 where [opcode_values]: "REGIMM_TGEIU = 0x09"
definition REGIMM_TLTI :: u32 where [opcode_values]: "REGIMM_TLTI = 0x0A"
definition REGIMM_TLTIU :: u32 where [opcode_values]: "REGIMM_TLTIU = 0x0B"
definition REGIMM_TEQI :: u32 where [opcode_values]: "REGIMM_TEQI = 0x0C"
definition REGIMM_TNEI :: u32 where [opcode_values]: "REGIMM_TNEI = 0x0E"
definition REGIMM_BLTZAL :: u32 where [opcode_values]: "REGIMM_BLTZAL = 0x10"
definition REGIMM_BGEZAL :: u32 where [opcode_values]: "REGIMM_BGEZAL = 0x11"
definition REGIMM_BLTZALL :: u32 where [opcode_values]: "REGIMM_BLTZALL = 0x12"
definition REGIMM_BGEZALL :: u32 where [opcode_values]: "REGIMM_BGEZALL = 0x13"
definition REGIMM_MTSAB :: u32 where [opcode_values]: "REGIMM_MTSAB = 0x18"
definition REGIMM_MTSAH :: u32 where [opcode_values]: "REGIMM_MTSAH = 0x19"

section \<open>MMIFunctions\<close>

definition MMI_MADD :: u32 where [opcode_values]: "MMI_MADD = 0x00"
definition MMI_MADDU :: u32 where [opcode_values]: "MMI_MADDU = 0x01"
definition MMI_MSUB :: u32 where [opcode_values]: "MMI_MSUB = 0x02"
definition MMI_MSUBU :: u32 where [opcode_values]: "MMI_MSUBU = 0x03"
definition MMI_PLZCW :: u32 where [opcode_values]: "MMI_PLZCW = 0x04"
definition MMI_MMI0 :: u32 where [opcode_values]: "MMI_MMI0 = 0x08"
definition MMI_MMI2 :: u32 where [opcode_values]: "MMI_MMI2 = 0x09"
definition MMI_MFHI1 :: u32 where [opcode_values]: "MMI_MFHI1 = 0x10"
definition MMI_MTHI1 :: u32 where [opcode_values]: "MMI_MTHI1 = 0x11"
definition MMI_MFLO1 :: u32 where [opcode_values]: "MMI_MFLO1 = 0x12"
definition MMI_MTLO1 :: u32 where [opcode_values]: "MMI_MTLO1 = 0x13"
definition MMI_MULT1 :: u32 where [opcode_values]: "MMI_MULT1 = 0x18"
definition MMI_MULTU1 :: u32 where [opcode_values]: "MMI_MULTU1 = 0x19"
definition MMI_DIV1 :: u32 where [opcode_values]: "MMI_DIV1 = 0x1A"
definition MMI_DIVU1 :: u32 where [opcode_values]: "MMI_DIVU1 = 0x1B"
definition MMI_MADD1 :: u32 where [opcode_values]: "MMI_MADD1 = 0x20"
definition MMI_MADDU1 :: u32 where [opcode_values]: "MMI_MADDU1 = 0x21"
definition MMI_MMI1 :: u32 where [opcode_values]: "MMI_MMI1 = 0x28"
definition MMI_MMI3 :: u32 where [opcode_values]: "MMI_MMI3 = 0x29"
definition MMI_PMFHL :: u32 where [opcode_values]: "MMI_PMFHL = 0x30"
definition MMI_PMTHL :: u32 where [opcode_values]: "MMI_PMTHL = 0x31"

section \<open>MMI1Functions\<close>

definition MMI1_QFSRV :: u32 where [opcode_values]: "MMI1_QFSRV = 0x1B"

section \<open>MMI2Functions\<close>

definition MMI2_PMADDW :: u32 where [opcode_values]: "MMI2_PMADDW = 0x00"
definition MMI2_PMSUBW :: u32 where [opcode_values]: "MMI2_PMSUBW = 0x04"
definition MMI2_PMFHI :: u32 where [opcode_values]: "MMI2_PMFHI = 0x08"
definition MMI2_PMFLO :: u32 where [opcode_values]: "MMI2_PMFLO = 0x09"
definition MMI2_PMULTW :: u32 where [opcode_values]: "MMI2_PMULTW = 0x0C"
definition MMI2_PDIVW :: u32 where [opcode_values]: "MMI2_PDIVW = 0x0D"
definition MMI2_PMADDH :: u32 where [opcode_values]: "MMI2_PMADDH = 0x14"
definition MMI2_PHMADH :: u32 where [opcode_values]: "MMI2_PHMADH = 0x15"
definition MMI2_PMSUBH :: u32 where [opcode_values]: "MMI2_PMSUBH = 0x18"
definition MMI2_PHMSBH :: u32 where [opcode_values]: "MMI2_PHMSBH = 0x19"
definition MMI2_PMULTH :: u32 where [opcode_values]: "MMI2_PMULTH = 0x1C"
definition MMI2_PDIVBW :: u32 where [opcode_values]: "MMI2_PDIVBW = 0x1D"

section \<open>MMI3Functions\<close>

definition MMI3_PMADDUW :: u32 where [opcode_values]: "MMI3_PMADDUW = 0x00"
definition MMI3_PMTHI :: u32 where [opcode_values]: "MMI3_PMTHI = 0x08"
definition MMI3_PMTLO :: u32 where [opcode_values]: "MMI3_PMTLO = 0x09"
definition MMI3_PMULTUW :: u32 where [opcode_values]: "MMI3_PMULTUW = 0x0C"
definition MMI3_PDIVUW :: u32 where [opcode_values]: "MMI3_PDIVUW = 0x0D"

section \<open>PMFHLFunctions\<close>

definition PMFHL_LW :: u32 where [opcode_values]: "PMFHL_LW = 0x00"
definition PMFHL_UW :: u32 where [opcode_values]: "PMFHL_UW = 0x01"
definition PMFHL_SLW :: u32 where [opcode_values]: "PMFHL_SLW = 0x02"
definition PMFHL_LH :: u32 where [opcode_values]: "PMFHL_LH = 0x03"
definition PMFHL_SH :: u32 where [opcode_values]: "PMFHL_SH = 0x04"

section \<open>COP0Format\<close>

definition COP0_MF :: u32 where [opcode_values]: "COP0_MF = 0x00"
definition COP0_BC :: u32 where [opcode_values]: "COP0_BC = 0x08"
definition COP0_CO :: u32 where [opcode_values]: "COP0_CO = 0x10"

section \<open>Cop0CoFunctions\<close>

definition COP0_CO_ERET :: u32 where [opcode_values]: "COP0_CO_ERET = 0x18"

section \<open>Cop1Format\<close>

definition COP1_MF :: u32 where [opcode_values]: "COP1_MF = 0x00"
definition COP1_CF :: u32 where [opcode_values]: "COP1_CF = 0x02"
definition COP1_MT :: u32 where [opcode_values]: "COP1_MT = 0x04"
definition COP1_CT :: u32 where [opcode_values]: "COP1_CT = 0x06"
definition COP1_BC :: u32 where [opcode_values]: "COP1_BC = 0x08"
definition COP1_L :: u32 where [opcode_values]: "COP1_L = 0x15"
definition COP1_S :: u32 where [opcode_values]: "COP1_S = 0x10"
definition COP1_W :: u32 where [opcode_values]: "COP1_W = 0x14"

section \<open>Cop1FunctionsS\<close>

definition COP1_S_MUL :: u32 where [opcode_values]: "COP1_S_MUL = 0x02"
definition COP1_S_DIV :: u32 where [opcode_values]: "COP1_S_DIV = 0x03"
definition COP1_S_SQRT :: u32 where [opcode_values]: "COP1_S_SQRT = 0x04"
definition COP1_S_RSQRT :: u32 where [opcode_values]: "COP1_S_RSQRT = 0x16"
definition COP1_S_MULA :: u32 where [opcode_values]: "COP1_S_MULA = 0x1A"
definition COP1_S_MADD :: u32 where [opcode_values]: "COP1_S_MADD = 0x1C"
definition COP1_S_MSUB :: u32 where [opcode_values]: "COP1_S_MSUB = 0x1D"
definition COP1_S_MADDA :: u32 where [opcode_values]: "COP1_S_MADDA = 0x1E"
definition COP1_S_MSUBA :: u32 where [opcode_values]: "COP1_S_MSUBA = 0x1F"
definition COP1_S_C_F :: u32 where [opcode_values]: "COP1_S_C_F = 0x30"

section \<open>Cop2Format\<close>

definition COP2_QMFC2 :: u32 where [opcode_values]: "COP2_QMFC2 = 0x01"
definition COP2_CFC2 :: u32 where [opcode_values]: "COP2_CFC2 = 0x02"
definition COP2_QMTC2 :: u32 where [opcode_values]: "COP2_QMTC2 = 0x05"
definition COP2_CTC2 :: u32 where [opcode_values]: "COP2_CTC2 = 0x06"
definition COP2_BC :: u32 where [opcode_values]: "COP2_BC = 0x08"
definition COP2_CO :: u32 where [opcode_values]: "COP2_CO = 0x10"

section \<open>VU0MacroSpecial1Functions\<close>

definition VU0_S1_VIADD :: u32 where [opcode_values]: "VU0_S1_VIADD = 0x30"
definition VU0_S1_VIADDI :: u32 where [opcode_values]: "VU0_S1_VIADDI = 0x32"
definition VU0_S1_VIOR :: u32 where [opcode_values]: "VU0_S1_VIOR = 0x35"
definition VU0_S1_VCALLMS :: u32 where [opcode_values]: "VU0_S1_VCALLMS = 0x38"
definition VU0_S1_VCALLMSR :: u32 where [opcode_values]: "VU0_S1_VCALLMSR = 0x39"

section \<open>VU0MacroSpecial2Functions\<close>

definition VU0_S2_VABS :: u32 where [opcode_values]: "VU0_S2_VABS = 0x1D"
definition VU0_S2_VCLIPw :: u32 where [opcode_values]: "VU0_S2_VCLIPw = 0x1F"
definition VU0_S2_VNOP :: u32 where [opcode_values]: "VU0_S2_VNOP = 0x2F"
definition VU0_S2_VMOVE :: u32 where [opcode_values]: "VU0_S2_VMOVE = 0x30"
definition VU0_S2_VMR32 :: u32 where [opcode_values]: "VU0_S2_VMR32 = 0x31"
definition VU0_S2_VDIV :: u32 where [opcode_values]: "VU0_S2_VDIV = 0x38"
definition VU0_S2_VSQRT :: u32 where [opcode_values]: "VU0_S2_VSQRT = 0x39"
definition VU0_S2_VRSQRT :: u32 where [opcode_values]: "VU0_S2_VRSQRT = 0x3A"
definition VU0_S2_VMTIR :: u32 where [opcode_values]: "VU0_S2_VMTIR = 0x3C"
definition VU0_S2_VMFIR :: u32 where [opcode_values]: "VU0_S2_VMFIR = 0x3D"
definition VU0_S2_VILWR :: u32 where [opcode_values]: "VU0_S2_VILWR = 0x3E"
definition VU0_S2_VISWR :: u32 where [opcode_values]: "VU0_S2_VISWR = 0x3F"
definition VU0_S2_VRNEXT :: u32 where [opcode_values]: "VU0_S2_VRNEXT = 0x40"
definition VU0_S2_VRGET :: u32 where [opcode_values]: "VU0_S2_VRGET = 0x41"
definition VU0_S2_VRINIT :: u32 where [opcode_values]: "VU0_S2_VRINIT = 0x42"
definition VU0_S2_VRXOR :: u32 where [opcode_values]: "VU0_S2_VRXOR = 0x43"

section \<open>Fields\<close>

definition OPCODE :: "u32 \<Rightarrow> u32" where "OPCODE inst = drop_bit 26 inst AND 0x3F"
definition RS :: "u32 \<Rightarrow> u32" where "RS inst = drop_bit 21 inst AND 0x1F"
definition RT :: "u32 \<Rightarrow> u32" where "RT inst = drop_bit 16 inst AND 0x1F"
definition RD :: "u32 \<Rightarrow> u32" where "RD inst = drop_bit 11 inst AND 0x1F"
definition SA :: "u32 \<Rightarrow> u32" where "SA inst = drop_bit 6 inst AND 0x1F"
definition FUNCTION :: "u32 \<Rightarrow> u32" where "FUNCTION inst = inst AND 0x3F"
definition IMMEDIATE :: "u32 \<Rightarrow> u32" where "IMMEDIATE inst = inst AND 0xFFFF"
definition SIMMEDIATE :: "u32 \<Rightarrow> u32" where "SIMMEDIATE inst = scast (ucast (inst AND 0xFFFF) :: u16)"
definition TARGET :: "u32 \<Rightarrow> u32" where "TARGET inst = inst AND 0x3FFFFFF"

definition eeCoprocessorForOpcode :: "u32 \<Rightarrow> int" where
  "eeCoprocessorForOpcode opcode =
     (if opcode \<in> {OPCODE_COP0, OPCODE_CACHE} then 0
      else if opcode \<in> {OPCODE_COP1, OPCODE_LWC1, OPCODE_SWC1} then 1
      else if opcode \<in> {OPCODE_COP2, OPCODE_LQC2, OPCODE_SQC2} then 2
      else - 1)"

end
