(* ===== verification/R5900Decoder.thy ===== *)
theory R5900Decoder
  imports R5900Opcodes
begin

text \<open>
  \<open>ps2xRecomp/include/ps2recomp/types.h\<close> and \<open>src/lib/r5900_decoder.cpp\<close>: the decoder of the static
  recompiler. It asks the rabbitizer library (not in the repository) for the descriptor of an
  encoding and refines it for the R5900. The library is a record of functions of address and
  encoding. Messages the decoder writes to \<open>std::cerr\<close> for unknown encodings are not modelled;
  case labels that only \<open>break\<close> leave no trace here.
\<close>

section \<open>Instructions\<close>

datatype Vu0SyncMode = Skip | Synchronize | Finish

record vector_info =
  vi_isVector :: bool
  vi_usesQReg :: bool
  vi_usesPReg :: bool
  vi_modifiesMAC :: bool
  vi_vectorField :: u32
  vi_fsf :: u32
  vi_ftf :: u32

record modification_info =
  mi_modifiesGPR :: bool
  mi_modifiesFPR :: bool
  mi_modifiesVFR :: bool
  mi_modifiesVIR :: bool
  mi_modifiesVIC :: bool
  mi_modifiesMemory :: bool
  mi_modifiesControl :: bool

text \<open>The 8-bit members hold values below 256 and are kept as 32-bit words.\<close>

record instruction =
  in_address :: u32
  in_opcode :: u32
  in_rs :: u32
  in_rt :: u32
  in_rd :: u32
  in_sa :: u32
  in_function :: u32
  in_immediate :: u32
  in_simmediate :: u32
  in_target :: u32
  in_raw :: u32
  in_isMMI :: bool
  in_isVU :: bool
  in_isBranch :: bool
  in_isJump :: bool
  in_isCall :: bool
  in_isReturn :: bool
  in_hasDelaySlot :: bool
  in_isMultimedia :: bool
  in_isStore :: bool
  in_isLoad :: bool
  in_gprReadMask :: u32
  in_gprWriteMask :: u32
  in_mmiType :: u32
  in_mmiFunction :: u32
  in_pmfhlVariation :: u32
  in_vuFunction :: u32
  in_isMmio :: bool
  in_mmioAddress :: u32
  in_disassembly :: string
  in_vu0SyncMode :: Vu0SyncMode
  in_vectorInfo :: vector_info
  in_modificationInfo :: modification_info

definition noModification :: modification_info where
  "noModification = \<lparr>mi_modifiesGPR = False, mi_modifiesFPR = False, mi_modifiesVFR = False,
     mi_modifiesVIR = False, mi_modifiesVIC = False, mi_modifiesMemory = False, mi_modifiesControl = False\<rparr>"

definition noVector :: vector_info where
  "noVector = \<lparr>vi_isVector = False, vi_usesQReg = False, vi_usesPReg = False, vi_modifiesMAC = False,
     vi_vectorField = 0, vi_fsf = 0, vi_ftf = 0\<rparr>"

definition newInstruction :: instruction where
  "newInstruction = \<lparr>in_address = 0, in_opcode = 0, in_rs = 0, in_rt = 0, in_rd = 0, in_sa = 0,
     in_function = 0, in_immediate = 0, in_simmediate = 0, in_target = 0, in_raw = 0,
     in_isMMI = False, in_isVU = False, in_isBranch = False, in_isJump = False, in_isCall = False,
     in_isReturn = False, in_hasDelaySlot = False, in_isMultimedia = False, in_isStore = False,
     in_isLoad = False, in_gprReadMask = 0, in_gprWriteMask = 0, in_mmiType = 0, in_mmiFunction = 0,
     in_pmfhlVariation = 0, in_vuFunction = 0, in_isMmio = False, in_mmioAddress = 0,
     in_disassembly = [], in_vu0SyncMode = Synchronize, in_vectorInfo = noVector,
     in_modificationInfo = noModification\<rparr>"

text \<open>\<open>inst.modificationInfo.modifiesX = b;\<close> and its siblings.\<close>

abbreviation setGPR :: "bool \<Rightarrow> instruction \<Rightarrow> instruction" where
  "setGPR b i \<equiv> i\<lparr>in_modificationInfo := (in_modificationInfo i)\<lparr>mi_modifiesGPR := b\<rparr>\<rparr>"

abbreviation setFPR :: "bool \<Rightarrow> instruction \<Rightarrow> instruction" where
  "setFPR b i \<equiv> i\<lparr>in_modificationInfo := (in_modificationInfo i)\<lparr>mi_modifiesFPR := b\<rparr>\<rparr>"

abbreviation setVFR :: "bool \<Rightarrow> instruction \<Rightarrow> instruction" where
  "setVFR b i \<equiv> i\<lparr>in_modificationInfo := (in_modificationInfo i)\<lparr>mi_modifiesVFR := b\<rparr>\<rparr>"

abbreviation setVIR :: "bool \<Rightarrow> instruction \<Rightarrow> instruction" where
  "setVIR b i \<equiv> i\<lparr>in_modificationInfo := (in_modificationInfo i)\<lparr>mi_modifiesVIR := b\<rparr>\<rparr>"

abbreviation setVIC :: "bool \<Rightarrow> instruction \<Rightarrow> instruction" where
  "setVIC b i \<equiv> i\<lparr>in_modificationInfo := (in_modificationInfo i)\<lparr>mi_modifiesVIC := b\<rparr>\<rparr>"

abbreviation setMemory :: "bool \<Rightarrow> instruction \<Rightarrow> instruction" where
  "setMemory b i \<equiv> i\<lparr>in_modificationInfo := (in_modificationInfo i)\<lparr>mi_modifiesMemory := b\<rparr>\<rparr>"

abbreviation setControl :: "bool \<Rightarrow> instruction \<Rightarrow> instruction" where
  "setControl b i \<equiv> i\<lparr>in_modificationInfo := (in_modificationInfo i)\<lparr>mi_modifiesControl := b\<rparr>\<rparr>"

section \<open>The rabbitizer library\<close>

record rabbitizer =
  rz_isBranch :: "u32 \<Rightarrow> u32 \<Rightarrow> bool"
  rz_isJump :: "u32 \<Rightarrow> u32 \<Rightarrow> bool"
  rz_isTrap :: "u32 \<Rightarrow> u32 \<Rightarrow> bool"
  rz_isFunctionCall :: "u32 \<Rightarrow> u32 \<Rightarrow> bool"
  rz_isReturn :: "u32 \<Rightarrow> u32 \<Rightarrow> bool"
  rz_isEret :: "u32 \<Rightarrow> u32 \<Rightarrow> bool"
  rz_hasDelaySlot :: "u32 \<Rightarrow> u32 \<Rightarrow> bool"
  rz_doesLoad :: "u32 \<Rightarrow> u32 \<Rightarrow> bool"
  rz_doesStore :: "u32 \<Rightarrow> u32 \<Rightarrow> bool"
  rz_doesLink :: "u32 \<Rightarrow> u32 \<Rightarrow> bool"
  rz_readsRs :: "u32 \<Rightarrow> u32 \<Rightarrow> bool"
  rz_readsRt :: "u32 \<Rightarrow> u32 \<Rightarrow> bool"
  rz_readsRd :: "u32 \<Rightarrow> u32 \<Rightarrow> bool"
  rz_modifiesRs :: "u32 \<Rightarrow> u32 \<Rightarrow> bool"
  rz_modifiesRt :: "u32 \<Rightarrow> u32 \<Rightarrow> bool"
  rz_modifiesRd :: "u32 \<Rightarrow> u32 \<Rightarrow> bool"
  rz_modifiesFs :: "u32 \<Rightarrow> u32 \<Rightarrow> bool"
  rz_modifiesFt :: "u32 \<Rightarrow> u32 \<Rightarrow> bool"
  rz_modifiesFd :: "u32 \<Rightarrow> u32 \<Rightarrow> bool"
  rz_modifiesHI :: "u32 \<Rightarrow> u32 \<Rightarrow> bool"
  rz_modifiesLO :: "u32 \<Rightarrow> u32 \<Rightarrow> bool"
  rz_disassembly :: "u32 \<Rightarrow> u32 \<Rightarrow> string"

definition disassembleInstruction :: "rabbitizer \<Rightarrow> instruction \<Rightarrow> string" where
  "disassembleInstruction rz i =
     (if in_disassembly i \<noteq> [] then in_disassembly i else rz_disassembly rz (in_address i) (in_raw i))"

section \<open>Refinements by group\<close>

definition decodeRType :: "instruction \<Rightarrow> instruction" where
  "decodeRType i = (if in_rd i \<noteq> 0 then setGPR True i else i)"

definition decodeIType :: "instruction \<Rightarrow> instruction" where
  "decodeIType i = (if \<not> in_isStore i \<and> \<not> in_isBranch i \<and> in_rt i \<noteq> 0 then setGPR True i else i)"

definition decodeJType :: "instruction \<Rightarrow> instruction" where
  "decodeJType i =
     (let j = setControl True (i\<lparr>in_isJump := True, in_hasDelaySlot := True\<rparr>)
      in if in_opcode j = OPCODE_JAL then setGPR True (j\<lparr>in_isCall := True\<rparr>) else j)"

definition decodeSpecial :: "instruction \<Rightarrow> instruction" where
  "decodeSpecial i0 =
     (let i = (if in_rd i0 \<noteq> 0 then setGPR True i0 else i0);
          f = in_function i
      in if f = SPECIAL_JR then
           (let j = setControl True (setGPR False (i\<lparr>in_isJump := True, in_hasDelaySlot := True\<rparr>))
            in if in_rs j = 31 then j\<lparr>in_isReturn := True\<rparr> else j)
         else if f = SPECIAL_JALR then
           setControl True (setGPR (in_rd i \<noteq> 0) (i\<lparr>in_isJump := True, in_isCall := True, in_hasDelaySlot := True\<rparr>))
         else if f \<in> {SPECIAL_SYSCALL, SPECIAL_BREAK} then setControl True (setGPR False i)
         else if f \<in> {SPECIAL_MFHI, SPECIAL_MFLO} then (if in_rd i = 0 then setGPR False i else i)
         else if f \<in> {SPECIAL_MTHI, SPECIAL_MTLO, SPECIAL_DIV, SPECIAL_DIVU} then setControl True (setGPR False i)
         else if f \<in> {SPECIAL_MULT, SPECIAL_MULTU} then setControl True (setGPR (in_rd i \<noteq> 0) i)
         else if f \<in> {SPECIAL_ADD, SPECIAL_ADDU, SPECIAL_SUB, SPECIAL_SUBU, SPECIAL_AND, SPECIAL_OR, SPECIAL_XOR,
             SPECIAL_NOR, SPECIAL_SLL, SPECIAL_SRL, SPECIAL_SRA, SPECIAL_SLLV, SPECIAL_SRLV, SPECIAL_SRAV,
             SPECIAL_DADD, SPECIAL_DADDU, SPECIAL_DSUB, SPECIAL_DSUBU, SPECIAL_DSLL, SPECIAL_DSRL, SPECIAL_DSRA,
             SPECIAL_DSLL32, SPECIAL_DSRL32, SPECIAL_DSRA32, SPECIAL_DSLLV, SPECIAL_DSRLV, SPECIAL_DSRAV,
             SPECIAL_MOVZ, SPECIAL_MOVN, SPECIAL_SLT, SPECIAL_SLTU, SPECIAL_MFSA}
         then (if in_rd i = 0 then setGPR False i else i)
         else if f \<in> {SPECIAL_TGE, SPECIAL_TGEU, SPECIAL_TLT, SPECIAL_TLTU, SPECIAL_TEQ, SPECIAL_TNE,
             SPECIAL_MTSA, SPECIAL_SYNC}
         then setControl True (setGPR False i)
         else i)"

definition decodeRegimm :: "instruction \<Rightarrow> instruction" where
  "decodeRegimm i =
     (let rt = in_rt i
      in if rt \<in> {REGIMM_BLTZ, REGIMM_BGEZ, REGIMM_BLTZL, REGIMM_BGEZL}
         then setControl True (i\<lparr>in_isBranch := True, in_hasDelaySlot := True\<rparr>)
         else if rt \<in> {REGIMM_BLTZAL, REGIMM_BGEZAL, REGIMM_BLTZALL, REGIMM_BGEZALL}
         then setControl True (setGPR True (i\<lparr>in_isBranch := True, in_isCall := True, in_hasDelaySlot := True\<rparr>))
         else if rt \<in> {REGIMM_TGEI, REGIMM_TGEIU, REGIMM_TLTI, REGIMM_TLTIU, REGIMM_TEQI, REGIMM_TNEI}
         then setControl True i
         else if rt \<in> {REGIMM_MTSAB, REGIMM_MTSAH} then setControl True (i\<lparr>in_isMultimedia := True\<rparr>)
         else i)"

definition decodeMMI0 :: "instruction \<Rightarrow> instruction" where
  "decodeMMI0 i = i\<lparr>in_mmiType := 0, in_mmiFunction := in_sa i\<rparr>"

definition decodeMMI1 :: "instruction \<Rightarrow> instruction" where
  "decodeMMI1 i =
     (let j = i\<lparr>in_mmiType := 1, in_mmiFunction := in_sa i\<rparr>
      in if in_sa j = MMI1_QFSRV then j\<lparr>in_isMultimedia := True\<rparr> else j)"

definition decodeMMI2 :: "instruction \<Rightarrow> instruction" where
  "decodeMMI2 i =
     (let j = i\<lparr>in_mmiType := 2, in_mmiFunction := in_sa i\<rparr>;
          k = (if in_sa j \<in> {MMI2_PMADDW, MMI2_PMSUBW, MMI2_PMULTW, MMI2_PDIVW, MMI2_PDIVBW, MMI2_PMADDH,
                  MMI2_PHMADH, MMI2_PMSUBH, MMI2_PHMSBH, MMI2_PMULTH} then setControl True j else j);
          sa = in_sa k
      in if sa \<in> {MMI2_PMADDW, MMI2_PMSUBW, MMI2_PMADDH, MMI2_PHMADH, MMI2_PMSUBH, MMI2_PHMSBH, MMI2_PMULTH}
         then k\<lparr>in_isMultimedia := True\<rparr>
         else if sa \<in> {MMI2_PMULTW, MMI2_PDIVW, MMI2_PDIVBW} then k\<lparr>in_isMultimedia := True\<rparr>
         else k)"

definition decodeMMI3 :: "instruction \<Rightarrow> instruction" where
  "decodeMMI3 i =
     (let j = i\<lparr>in_mmiType := 3, in_mmiFunction := in_sa i\<rparr>;
          sa = in_sa j
      in if sa = MMI3_PMADDUW then setControl True (j\<lparr>in_isMultimedia := True\<rparr>)
         else if sa = MMI3_PMTHI then setControl True (setGPR False (j\<lparr>in_mmiFunction := MMI3_PMTHI\<rparr>))
         else if sa = MMI3_PMTLO then setControl True (setGPR False (j\<lparr>in_mmiFunction := MMI3_PMTLO\<rparr>))
         else if sa \<in> {MMI3_PMULTUW, MMI3_PDIVUW} then setControl True (j\<lparr>in_isMultimedia := True\<rparr>)
         else j)"

definition decodePMFHL :: "instruction \<Rightarrow> instruction" where
  "decodePMFHL i =
     (if in_sa i \<in> {PMFHL_LW, PMFHL_UW, PMFHL_SLW, PMFHL_LH, PMFHL_SH}
      then i\<lparr>in_pmfhlVariation := in_sa i\<rparr> else i\<lparr>in_pmfhlVariation := 0xFF\<rparr>)"

definition decodeMMI :: "instruction \<Rightarrow> instruction" where
  "decodeMMI i0 =
     (let i = setGPR (in_rd i0 \<noteq> 0) (i0\<lparr>in_isMMI := True, in_isMultimedia := True\<rparr>);
          f = in_function i
      in if f = MMI_MMI0 then decodeMMI0 i
         else if f = MMI_MMI1 then decodeMMI1 i
         else if f = MMI_MMI2 then decodeMMI2 i
         else if f = MMI_MMI3 then decodeMMI3 i
         else if f \<in> {MMI_MFHI1, MMI_MFLO1}
         then setControl False (if in_rd i = 0 then setGPR False i else i)
         else if f \<in> {MMI_MTHI1, MMI_MTLO1} then setControl True (setGPR False i)
         else if f \<in> {MMI_MADD, MMI_MADDU, MMI_MSUB, MMI_MSUBU, MMI_MADD1, MMI_MADDU1, MMI_MULT1, MMI_MULTU1}
         then setControl True (setGPR (in_rd i \<noteq> 0) i)
         else if f \<in> {MMI_DIV1, MMI_DIVU1} then setControl True (setGPR False i)
         else if f \<in> {MMI_PMTHL, MMI3_PMTHI, MMI3_PMTLO} then setControl True (setGPR False i)
         else if f = MMI_PMFHL then decodePMFHL i
         else i)"

definition decodeCOP0 :: "instruction \<Rightarrow> instruction" where
  "decodeCOP0 i0 =
     (let i = setControl True i0; format = in_rs i
      in if format = COP0_MF \<and> in_rt i \<noteq> 0 then setGPR True i
         else if format = COP0_CO \<and> in_function i = COP0_CO_ERET
         then i\<lparr>in_isReturn := True, in_hasDelaySlot := False\<rparr>
         else if format = COP0_BC then i\<lparr>in_isBranch := True, in_hasDelaySlot := True\<rparr>
         else i)"

definition decodeCOP1 :: "instruction \<Rightarrow> instruction" where
  "decodeCOP1 i =
     (let format = in_rs i;
          j = (if format \<in> {COP1_MF, COP1_CF} then (if in_rt i \<noteq> 0 then setGPR True i else i)
               else if format = COP1_BC then setControl True (i\<lparr>in_isBranch := True, in_hasDelaySlot := True\<rparr>)
               else if format \<in> {COP1_S, COP1_W, COP1_L} then setFPR True i
               else i)
      in if format = COP1_CT \<or> format = COP1_S \<and> in_function j \<ge> COP1_S_C_F then setControl True j else j)"

definition special2Func :: "u32 \<Rightarrow> u32" where
  "special2Func raw = push_bit 2 (drop_bit 6 raw AND 0x1F) OR (raw AND 0x3)"

definition vuModifiesMAC :: "u32 \<Rightarrow> bool" where
  "vuModifiesMAC f \<longleftrightarrow> f \<le> 0x0f \<or> (f \<ge> 0x18 \<and> f \<le> 0x1c) \<or> f = 0x1e \<or> (f \<ge> 0x20 \<and> f \<le> 0x2a) \<or> (f \<ge> 0x2c \<and> f \<le> 0x2e)"

text \<open>The VU macro instructions, \<open>format\<close> from \<open>COP2_CO\<close> to \<open>COP2_CO + 15\<close>.\<close>

definition decodeVuMacro :: "instruction \<Rightarrow> instruction" where
  "decodeVuMacro i =
     (let special1Func = in_function i AND 0x3F;
          isSpecial2 = special1Func \<ge> 0x3C;
          vuFunc = (if isSpecial2 then special2Func (in_raw i) else special1Func);
          v0 = (in_vectorInfo i)\<lparr>vi_vectorField := drop_bit 21 (in_raw i) AND 0xF,
                                 vi_modifiesMAC := vuModifiesMAC vuFunc\<rparr>;
          v1 = (if vuFunc \<in> {VU0_S2_VDIV, VU0_S2_VRSQRT, VU0_S2_VMTIR, VU0_S2_VRINIT, VU0_S2_VRXOR}
                then v0\<lparr>vi_fsf := drop_bit 21 (in_raw i) AND 0x3\<rparr> else v0);
          v2 = (if vuFunc \<in> {VU0_S2_VDIV, VU0_S2_VSQRT, VU0_S2_VRSQRT}
                then v1\<lparr>vi_ftf := drop_bit 23 (in_raw i) AND 0x3\<rparr> else v1);
          j = setControl True (setVFR True (i\<lparr>in_vectorInfo := v2\<rparr>))
      in if isSpecial2 then
           (if vuFunc \<in> {VU0_S2_VDIV, VU0_S2_VSQRT, VU0_S2_VRSQRT}
            then j\<lparr>in_vectorInfo := (in_vectorInfo j)\<lparr>vi_usesQReg := True\<rparr>\<rparr>
            else if vuFunc = VU0_S2_VMTIR then setVIC True (setVFR False j)
            else if vuFunc = VU0_S2_VMFIR then setVIR False j
            else if vuFunc = VU0_S2_VILWR then setVIR True (setVFR False (j\<lparr>in_isLoad := True\<rparr>))
            else if vuFunc = VU0_S2_VISWR
            then setMemory True (setVIR False (setVFR False (j\<lparr>in_isStore := True\<rparr>)))
            else if vuFunc \<in> {VU0_S2_VRINIT, VU0_S2_VRXOR} then setVFR False j
            else if vuFunc = VU0_S2_VRGET then setControl False j
            else if vuFunc = VU0_S2_VRNEXT then setVFR False (setControl True j)
            else if vuFunc \<in> {VU0_S2_VABS, VU0_S2_VMOVE, VU0_S2_VMR32} then setControl False j
            else if vuFunc = VU0_S2_VNOP then setControl False (setVFR False j)
            else if vuFunc = VU0_S2_VCLIPw then setVFR False j
            else j)
         else
           (let k = (if vuFunc \<ge> VU0_S1_VIADD \<and> vuFunc \<le> VU0_S1_VIOR then setVIR True (setVFR False j) else j)
            in if vuFunc = VU0_S1_VIADDI then setVIR True (setVFR False k) else k))"

definition decodeCOP2 :: "instruction \<Rightarrow> instruction" where
  "decodeCOP2 i0 =
     (let i = i0\<lparr>in_isVU := True, in_isMultimedia := True\<rparr>; format = in_rs i
      in if format \<in> {COP2_QMFC2, COP2_CFC2} then (if in_rt i \<noteq> 0 then setGPR True i else i)
         else if format = COP2_QMTC2 then setVFR True i
         else if format = COP2_CTC2 then setControl True i
         else if format = COP2_BC then setControl True (i\<lparr>in_isBranch := True, in_hasDelaySlot := True\<rparr>)
         else if format \<ge> COP2_CO \<and> format \<le> COP2_CO + 15 then decodeVuMacro i
         else i)"

section \<open>Decoding one instruction\<close>

definition registerBit :: "u32 \<Rightarrow> u32" where
  "registerBit index = (if index = 0 then 0 else push_bit (unat index) 1)"

definition orIf :: "bool \<Rightarrow> u32 \<Rightarrow> u32 \<Rightarrow> u32" where
  "orIf b bits m = (if b then m OR bits else m)"

text \<open>The encoding's fields, with everything else reset.\<close>

definition decodeFields :: "u32 \<Rightarrow> u32 \<Rightarrow> instruction" where
  "decodeFields address raw = newInstruction\<lparr>
     in_address := address, in_raw := raw, in_opcode := OPCODE raw, in_rs := RS raw, in_rt := RT raw,
     in_rd := RD raw, in_sa := SA raw, in_function := FUNCTION raw, in_immediate := IMMEDIATE raw,
     in_simmediate := SIMMEDIATE raw, in_target := TARGET raw,
     in_vectorInfo := noVector\<lparr>vi_vectorField := 0xF\<rparr>\<rparr>"

text \<open>What the library's descriptor says of it.\<close>

definition decodeDescriptor :: "rabbitizer \<Rightarrow> instruction \<Rightarrow> instruction" where
  "decodeDescriptor rz i =
     (let q = (\<lambda>p. p rz (in_address i) (in_raw i));
          reads = orIf (q rz_readsRd) (registerBit (in_rd i))
                    (orIf (q rz_readsRt) (registerBit (in_rt i))
                      (orIf (q rz_readsRs) (registerBit (in_rs i)) (in_gprReadMask i)));
          writes0 = orIf (q rz_modifiesRd) (registerBit (in_rd i))
                     (orIf (q rz_modifiesRt) (registerBit (in_rt i))
                       (orIf (q rz_modifiesRs) (registerBit (in_rs i)) (in_gprWriteMask i)));
          writes = orIf (q rz_doesLink \<and> writes0 = 0) (registerBit 31) writes0
      in i\<lparr>in_isBranch := q rz_isBranch, in_isJump := q rz_isJump, in_isCall := q rz_isFunctionCall,
           in_isReturn := (q rz_isReturn \<or> q rz_isEret), in_hasDelaySlot := q rz_hasDelaySlot,
           in_isLoad := q rz_doesLoad, in_isStore := q rz_doesStore,
           in_gprReadMask := reads, in_gprWriteMask := writes,
           in_isMMI := (in_opcode i = OPCODE_MMI),
           in_isVU := (in_opcode i \<in> {OPCODE_COP2, OPCODE_LWC2, OPCODE_LDC2, OPCODE_SWC2, OPCODE_SDC2}),
           in_modificationInfo := (in_modificationInfo i)\<lparr>
             mi_modifiesGPR := (q rz_modifiesRs \<and> in_rs i \<noteq> 0 \<or> q rz_modifiesRt \<and> in_rt i \<noteq> 0
               \<or> q rz_modifiesRd \<and> in_rd i \<noteq> 0 \<or> q rz_doesLink),
             mi_modifiesFPR := (q rz_modifiesFs \<or> q rz_modifiesFt \<or> q rz_modifiesFd),
             mi_modifiesMemory := q rz_doesStore,
             mi_modifiesControl := (q rz_isBranch \<or> q rz_isJump \<or> q rz_isTrap \<or> q rz_modifiesHI \<or> q rz_modifiesLO)\<rparr>\<rparr>)"

definition decodeExceptions :: "rabbitizer \<Rightarrow> instruction \<Rightarrow> instruction" where
  "decodeExceptions rz i0 =
     (let i1 = (if rz_isEret rz (in_address i0) (in_raw i0)
                then setControl True (i0\<lparr>in_isReturn := True, in_hasDelaySlot := False\<rparr>) else i0);
          i2 = (if in_opcode i1 \<in> {OPCODE_LL, OPCODE_LLD, OPCODE_SC, OPCODE_SCD}
                then setControl True (setMemory False (setGPR False (i1\<lparr>in_isLoad := False, in_isStore := False\<rparr>)))
                else i1)
      in if in_opcode i2 = OPCODE_CACHE then setControl True (setMemory True i2) else i2)"

definition decodeGroups :: "instruction \<Rightarrow> instruction" where
  "decodeGroups i0 =
     (let i1 = (if in_opcode i0 = OPCODE_COP2 then decodeCOP2 i0
                else if in_opcode i0 \<in> {OPCODE_LWC2, OPCODE_LDC2} then setVFR True (i0\<lparr>in_isVU := True\<rparr>)
                else if in_opcode i0 \<in> {OPCODE_SWC2, OPCODE_SDC2} then setMemory True (i0\<lparr>in_isVU := True\<rparr>)
                else i0);
          i2 = (if in_opcode i1 \<in> {OPCODE_LQ, OPCODE_SQ} then i1\<lparr>in_isMultimedia := True\<rparr> else i1);
          i3 = (if in_opcode i2 = OPCODE_SPECIAL then decodeSpecial i2
                else if in_opcode i2 = OPCODE_MMI then decodeMMI i2 else i2)
      in if in_isMMI i3 \<or> in_isVU i3
         then i3\<lparr>in_isMultimedia := True, in_vectorInfo := (in_vectorInfo i3)\<lparr>vi_isVector := in_isVU i3\<rparr>\<rparr>
         else i3)"

definition decodeInstruction :: "rabbitizer \<Rightarrow> u32 \<Rightarrow> u32 \<Rightarrow> bool \<Rightarrow> instruction" where
  "decodeInstruction rz address raw includeDisassembly =
     (let i = decodeGroups (decodeExceptions rz (decodeDescriptor rz (decodeFields address raw)))
      in if includeDisassembly then i\<lparr>in_disassembly := rz_disassembly rz address raw\<rparr> else i)"

section \<open>Targets\<close>

definition getBranchTarget :: "instruction \<Rightarrow> u32" where
  "getBranchTarget i =
     (if \<not> in_isBranch i then 0
      else let offset = push_bit 2 (in_simmediate i) in in_address i + 4 + offset)"

definition getJumpTarget :: "instruction \<Rightarrow> u32" where
  "getJumpTarget i =
     (if \<not> in_isJump i then 0
      else if in_opcode i = OPCODE_SPECIAL \<and> (in_function i = SPECIAL_JR \<or> in_function i = SPECIAL_JALR) then 0
      else if in_opcode i = OPCODE_J \<or> in_opcode i = OPCODE_JAL
      then let pc_upper = (in_address i + 4) AND 0xF0000000 in pc_upper OR push_bit 2 (in_target i)
      else 0)"

end
