(* ===== verification/EeInstructionModels.thy ===== *)
theory EeInstructionModels
  imports R5900Decoder
begin

text \<open>
  What generated code charges and reports per instruction:
  \<open>ps2xRecomp/src/lib/ee_cycle_model.cpp\<close> (issue time in eighths of a cycle),
  \<open>ee_retirement_model.cpp\<close> (which instructions may retire in a batch) and
  \<open>ee_performance_model.cpp\<close> (issue pipes and completion events).
\<close>

section \<open>Cycles\<close>

definition kDefaultTicks :: u32 where "kDefaultTicks = 9"
definition kUnconditionalJumpTicks :: u32 where "kUnconditionalJumpTicks = 9"
definition kBranchTicks :: u32 where "kBranchTicks = 11"
definition kCoprocessorTicks :: u32 where "kCoprocessorTicks = 7"
definition kLoadStoreTicks :: u32 where "kLoadStoreTicks = 14"
definition kMultiplyTicks :: u32 where "kMultiplyTicks = 16"
definition kDivideTicks :: u32 where "kDivideTicks = 112"
definition kMmiDefaultTicks :: u32 where "kMmiDefaultTicks = 14"
definition kMmiMultiplyTicks :: u32 where "kMmiMultiplyTicks = 24"
definition kMmiDivideTicks :: u32 where "kMmiDivideTicks = 176"
definition kFpuMultiplyTicks :: u32 where "kFpuMultiplyTicks = 32"
definition kFpuDivideTicks :: u32 where "kFpuDivideTicks = 48"
definition kFpuReciprocalSqrtTicks :: u32 where "kFpuReciprocalSqrtTicks = 64"

lemmas tick_values = kDefaultTicks_def kUnconditionalJumpTicks_def kBranchTicks_def kCoprocessorTicks_def
  kLoadStoreTicks_def kMultiplyTicks_def kDivideTicks_def kMmiDefaultTicks_def kMmiMultiplyTicks_def
  kMmiDivideTicks_def kFpuMultiplyTicks_def kFpuDivideTicks_def kFpuReciprocalSqrtTicks_def

definition isLoadOrStoreOpcode :: "u32 \<Rightarrow> bool" where
  "isLoadOrStoreOpcode opcode \<longleftrightarrow> opcode \<in> {OPCODE_LDL, OPCODE_LDR, OPCODE_LQ, OPCODE_SQ, OPCODE_LB, OPCODE_LH,
     OPCODE_LWL, OPCODE_LW, OPCODE_LBU, OPCODE_LHU, OPCODE_LWR, OPCODE_LWU, OPCODE_SB, OPCODE_SH, OPCODE_SWL,
     OPCODE_SW, OPCODE_SDL, OPCODE_SDR, OPCODE_SWR, OPCODE_LWC1, OPCODE_LWC2, OPCODE_LDC1, OPCODE_LDC2, OPCODE_LD,
     OPCODE_SWC1, OPCODE_SWC2, OPCODE_SDC1, OPCODE_SDC2, OPCODE_SD}"

definition specialCycleTicks :: "instruction \<Rightarrow> u32" where
  "specialCycleTicks i =
     (let f = in_function i
      in if f \<in> {SPECIAL_JR, SPECIAL_JALR} then kUnconditionalJumpTicks
         else if f \<in> {SPECIAL_MULT, SPECIAL_MULTU} then kMultiplyTicks
         else if f \<in> {SPECIAL_DIV, SPECIAL_DIVU} then kDivideTicks
         else if f \<in> {SPECIAL_TGE, SPECIAL_TGEU, SPECIAL_TLT, SPECIAL_TLTU, SPECIAL_TEQ, SPECIAL_TNE} then kBranchTicks
         else kDefaultTicks)"

definition regimmCycleTicks :: "instruction \<Rightarrow> u32" where
  "regimmCycleTicks i =
     (if in_rt i \<in> {REGIMM_BLTZ, REGIMM_BGEZ, REGIMM_BLTZL, REGIMM_BGEZL, REGIMM_TGEI, REGIMM_TGEIU, REGIMM_TLTI,
        REGIMM_TLTIU, REGIMM_TEQI, REGIMM_TNEI, REGIMM_BLTZAL, REGIMM_BGEZAL, REGIMM_BLTZALL, REGIMM_BGEZALL}
      then kBranchTicks else kDefaultTicks)"

definition mmiCycleTicks :: "instruction \<Rightarrow> u32" where
  "mmiCycleTicks i =
     (let f = in_function i; g = in_mmiFunction i
      in if f \<in> {MMI_MADD, MMI_MADDU, MMI_MSUB, MMI_MSUBU, MMI_MULT1, MMI_MULTU1, MMI_MADD1, MMI_MADDU1}
         then kMultiplyTicks
         else if f \<in> {MMI_DIV1, MMI_DIVU1} then kDivideTicks
         else if f = MMI_MMI2 then
           (if g \<in> {MMI2_PMADDW, MMI2_PMSUBW, MMI2_PMFHI, MMI2_PMFLO, MMI2_PMULTW, MMI2_PMADDH, MMI2_PHMADH,
               MMI2_PMSUBH, MMI2_PHMSBH, MMI2_PMULTH} then kMmiMultiplyTicks
            else if g \<in> {MMI2_PDIVW, MMI2_PDIVBW} then kMmiDivideTicks
            else kMmiDefaultTicks)
         else if f = MMI_MMI3 then
           (if g \<in> {MMI3_PMADDUW, MMI3_PMULTUW} then kMmiMultiplyTicks
            else if g = MMI3_PDIVUW then kMmiDivideTicks
            else kMmiDefaultTicks)
         else kMmiDefaultTicks)"

definition cop1CycleTicks :: "instruction \<Rightarrow> u32" where
  "cop1CycleTicks i =
     (let rs = in_rs i; f = in_function i
      in if rs = COP1_BC then kBranchTicks
         else if rs \<noteq> COP1_MF \<and> rs \<noteq> COP1_CF \<and> rs \<noteq> COP1_MT \<and> rs \<noteq> COP1_CT \<and> rs \<noteq> COP1_S \<and> rs \<noteq> COP1_W
         then kDefaultTicks
         else if rs \<noteq> COP1_S then kCoprocessorTicks
         else if f \<in> {COP1_S_MUL, COP1_S_MULA, COP1_S_MADD, COP1_S_MSUB, COP1_S_MADDA, COP1_S_MSUBA}
         then kFpuMultiplyTicks
         else if f \<in> {COP1_S_DIV, COP1_S_SQRT} then kFpuDivideTicks
         else if f = COP1_S_RSQRT then kFpuReciprocalSqrtTicks
         else kCoprocessorTicks)"

definition eeInstructionCycleTicks :: "instruction \<Rightarrow> u32" where
  "eeInstructionCycleTicks i =
     (let opcode = in_opcode i
      in if isLoadOrStoreOpcode opcode then kLoadStoreTicks
         else if opcode = OPCODE_SPECIAL then specialCycleTicks i
         else if opcode = OPCODE_REGIMM then regimmCycleTicks i
         else if opcode \<in> {OPCODE_J, OPCODE_JAL} then kUnconditionalJumpTicks
         else if opcode \<in> {OPCODE_BEQ, OPCODE_BNE, OPCODE_BLEZ, OPCODE_BGTZ, OPCODE_BEQL, OPCODE_BNEL, OPCODE_BLEZL,
             OPCODE_BGTZL} then kBranchTicks
         else if opcode = OPCODE_COP0 then (if in_rs i = COP0_BC then kBranchTicks else kCoprocessorTicks)
         else if opcode = OPCODE_COP1 then cop1CycleTicks i
         else if opcode = OPCODE_COP2 then (if in_rs i = COP2_BC then kBranchTicks else kDefaultTicks)
         else if opcode = OPCODE_MMI then mmiCycleTicks i
         else kDefaultTicks)"

section \<open>Retirement\<close>

definition eeInstructionCanDeferRetirementMaterialization :: "instruction \<Rightarrow> bool" where
  "eeInstructionCanDeferRetirementMaterialization i \<longleftrightarrow>
     (in_isLoad i \<or> in_isStore i) \<and> \<not> in_hasDelaySlot i \<and> \<not> in_isBranch i \<and> \<not> in_isJump i \<and> \<not> in_isCall i
     \<and> \<not> in_isReturn i \<and> \<not> in_isMmio i \<and> \<not> in_isMMI i \<and> \<not> in_isVU i \<and> \<not> mi_modifiesControl (in_modificationInfo i)"

definition batchableSpecial :: "u32 set" where
  "batchableSpecial = {SPECIAL_SLL, SPECIAL_SRL, SPECIAL_SRA, SPECIAL_SLLV, SPECIAL_SRLV, SPECIAL_SRAV, SPECIAL_SYNC,
     SPECIAL_MFHI, SPECIAL_MTHI, SPECIAL_MFLO, SPECIAL_MTLO, SPECIAL_MULT, SPECIAL_MULTU, SPECIAL_DIV, SPECIAL_DIVU,
     SPECIAL_ADDU, SPECIAL_SUBU, SPECIAL_AND, SPECIAL_OR, SPECIAL_XOR, SPECIAL_NOR, SPECIAL_SLT, SPECIAL_SLTU,
     SPECIAL_MOVZ, SPECIAL_MOVN, SPECIAL_MFSA, SPECIAL_MTSA, SPECIAL_DADDU, SPECIAL_DSUBU, SPECIAL_DSLL, SPECIAL_DSRL,
     SPECIAL_DSRA, SPECIAL_DSLLV, SPECIAL_DSRLV, SPECIAL_DSRAV, SPECIAL_DSLL32, SPECIAL_DSRL32, SPECIAL_DSRA32}"

definition eeInstructionCanBatchRetirement :: "instruction \<Rightarrow> bool" where
  "eeInstructionCanBatchRetirement i \<longleftrightarrow>
     (if in_hasDelaySlot i \<or> in_isBranch i \<or> in_isJump i \<or> in_isCall i \<or> in_isReturn i \<or> in_isLoad i \<or> in_isStore i
         \<or> in_isMMI i \<or> in_isVU i \<or> in_isMmio i
      then False
      else if in_opcode i \<in> {OPCODE_ADDIU, OPCODE_SLTI, OPCODE_SLTIU, OPCODE_ANDI, OPCODE_ORI, OPCODE_XORI, OPCODE_LUI,
          OPCODE_DADDIU, OPCODE_PREF} then True
      else if in_opcode i = OPCODE_REGIMM then in_rt i = REGIMM_MTSAB \<or> in_rt i = REGIMM_MTSAH
      else if in_opcode i = OPCODE_SPECIAL then in_function i \<in> batchableSpecial
      else False)"

section \<open>Performance events\<close>

definition kIssuePipe0 :: u32 where "kIssuePipe0 = push_bit 0 1"
definition kIssuePipe1 :: u32 where "kIssuePipe1 = push_bit 1 1"
definition kIssueBranch :: u32 where "kIssueBranch = push_bit 0 1"
definition kIssueEret :: u32 where "kIssueEret = push_bit 1 1"
definition kInstructionCompleted :: u32 where "kInstructionCompleted = push_bit 0 1"
definition kNonBdsInstructionCompleted :: u32 where "kNonBdsInstructionCompleted = push_bit 1 1"
definition kCop2InstructionCompleted :: u32 where "kCop2InstructionCompleted = push_bit 2 1"
definition kCop1InstructionCompleted :: u32 where "kCop1InstructionCompleted = push_bit 3 1"
definition kLoadCompleted :: u32 where "kLoadCompleted = push_bit 4 1"
definition kStoreCompleted :: u32 where "kStoreCompleted = push_bit 5 1"

lemmas event_values = kIssuePipe0_def kIssuePipe1_def kIssueBranch_def kIssueEret_def kInstructionCompleted_def
  kNonBdsInstructionCompleted_def kCop2InstructionCompleted_def kCop1InstructionCompleted_def
  kLoadCompleted_def kStoreCompleted_def

definition isSpecialTrap :: "instruction \<Rightarrow> bool" where
  "isSpecialTrap i \<longleftrightarrow> in_opcode i = OPCODE_SPECIAL \<and> in_function i \<in> {SPECIAL_SYSCALL, SPECIAL_BREAK, SPECIAL_TGE,
     SPECIAL_TGEU, SPECIAL_TLT, SPECIAL_TLTU, SPECIAL_TEQ, SPECIAL_TNE}"

definition isRegimmTrap :: "instruction \<Rightarrow> bool" where
  "isRegimmTrap i \<longleftrightarrow> in_opcode i = OPCODE_REGIMM \<and> in_rt i \<in> {REGIMM_TGEI, REGIMM_TGEIU, REGIMM_TLTI, REGIMM_TLTIU,
     REGIMM_TEQI, REGIMM_TNEI}"

definition isCop1Instruction :: "instruction \<Rightarrow> bool" where
  "isCop1Instruction i \<longleftrightarrow> in_opcode i \<in> {OPCODE_COP1, OPCODE_LWC1, OPCODE_LDC1, OPCODE_SWC1, OPCODE_SDC1}"

definition isCop2Instruction :: "instruction \<Rightarrow> bool" where
  "isCop2Instruction i \<longleftrightarrow> in_opcode i \<in> {OPCODE_COP2, OPCODE_LWC2, OPCODE_LDC2, OPCODE_SWC2, OPCODE_SDC2}"

definition isEret :: "instruction \<Rightarrow> bool" where
  "isEret i \<longleftrightarrow> in_opcode i = OPCODE_COP0 \<and> in_rs i = COP0_CO \<and> in_function i = COP0_CO_ERET"

definition issuePipeMask :: "instruction \<Rightarrow> u32" where
  "issuePipeMask i =
     (let opcode = in_opcode i; f = in_function i
      in if in_hasDelaySlot i then kIssuePipe0 OR kIssuePipe1
         else if in_isLoad i \<or> in_isStore i \<or> opcode = OPCODE_CACHE \<or> opcode = OPCODE_PREF then kIssuePipe1
         else if opcode = OPCODE_COP0 then kIssuePipe1
         else if opcode = OPCODE_COP1
         then (if in_rs i = COP1_S \<or> in_rs i = COP1_W then kIssuePipe0 else kIssuePipe1)
         else if opcode = OPCODE_COP2 then (if in_rs i \<ge> COP2_CO then kIssuePipe0 else kIssuePipe1)
         else if opcode = OPCODE_MMI then
           (if f \<in> {MMI_PLZCW, MMI_MFHI1, MMI_MTHI1, MMI_MFLO1, MMI_MTLO1, MMI_MULT1, MMI_MULTU1, MMI_DIV1, MMI_DIVU1,
               MMI_MADD1, MMI_MADDU1} then kIssuePipe1 else kIssuePipe0)
         else if opcode = OPCODE_REGIMM \<and> (in_rt i = REGIMM_MTSAB \<or> in_rt i = REGIMM_MTSAH) then kIssuePipe0
         else if opcode = OPCODE_SPECIAL \<and> f = SPECIAL_SYNC then kIssuePipe1
         else if opcode = OPCODE_SPECIAL \<and> f \<in> {SPECIAL_MFSA, SPECIAL_MTSA, SPECIAL_MFHI, SPECIAL_MFLO, SPECIAL_MTHI,
             SPECIAL_MTLO, SPECIAL_MULT, SPECIAL_MULTU, SPECIAL_DIV, SPECIAL_DIVU} then kIssuePipe0
         else kIssuePipe0 OR kIssuePipe1)"

record performance_info =
  pf_issuePipeMask :: u32
  pf_issueFlags :: u32
  pf_completionEvents :: u32
  pf_completionBeforeEffect :: bool

definition eeInstructionPerformanceInfo :: "instruction \<Rightarrow> performance_info" where
  "eeInstructionPerformanceInfo i =
     \<lparr>pf_issuePipeMask = issuePipeMask i,
      pf_issueFlags = orIf (isEret i) kIssueEret (orIf (in_hasDelaySlot i) kIssueBranch 0),
      pf_completionEvents =
        orIf (in_isStore i) kStoreCompleted
         (orIf (in_isLoad i) kLoadCompleted
           (orIf (isCop1Instruction i) kCop1InstructionCompleted
             (orIf (isCop2Instruction i) kCop2InstructionCompleted
               (orIf (\<not> in_hasDelaySlot i) kNonBdsInstructionCompleted kInstructionCompleted)))),
      pf_completionBeforeEffect = (isSpecialTrap i \<or> isRegimmTrap i \<or> isEret i)\<rparr>"

end
