(* ===== verification/R5900Props.thy ===== *)
theory R5900Props
  imports EeInstructionModels
begin

text \<open>
  Properties of the recompiler's decoder and instruction models: a decoded instruction carries
  exactly its encoding, each field within the width the source stores it in; targets stay in
  range; an instruction that may retire in a batch has no effect a batch could misplace.
\<close>

section \<open>What the refinements keep\<close>

definition vectorInRange :: "vector_info \<Rightarrow> bool" where
  "vectorInRange v \<longleftrightarrow> vi_vectorField v < 16 \<and> vi_fsf v < 4 \<and> vi_ftf v < 4"

text \<open>An instruction that still carries the encoding \<open>raw\<close> read at \<open>address\<close>, with its small members in
  the range of their C types and register 0 in neither mask.\<close>

definition carries :: "u32 \<Rightarrow> u32 \<Rightarrow> instruction \<Rightarrow> bool" where
  "carries address raw i \<longleftrightarrow>
     in_address i = address \<and> in_raw i = raw \<and> in_opcode i = OPCODE raw \<and> in_rs i = RS raw
     \<and> in_rt i = RT raw \<and> in_rd i = RD raw \<and> in_sa i = SA raw \<and> in_function i = FUNCTION raw
     \<and> in_immediate i = IMMEDIATE raw \<and> in_simmediate i = SIMMEDIATE raw \<and> in_target i = TARGET raw
     \<and> \<not> bit (in_gprReadMask i) 0 \<and> \<not> bit (in_gprWriteMask i) 0
     \<and> in_mmiType i < 4 \<and> in_mmiFunction i < 32 \<and> in_pmfhlVariation i < 256 \<and> vectorInRange (in_vectorInfo i)"

named_theorems carries_intro \<open>the updates and control structure a refinement is made of\<close>

lemma carries_isMMI [carries_intro]: "carries a r i \<Longrightarrow> carries a r (i\<lparr>in_isMMI := b\<rparr>)"
  by (simp add: carries_def)

lemma carries_isVU [carries_intro]: "carries a r i \<Longrightarrow> carries a r (i\<lparr>in_isVU := b\<rparr>)"
  by (simp add: carries_def)

lemma carries_isBranch [carries_intro]: "carries a r i \<Longrightarrow> carries a r (i\<lparr>in_isBranch := b\<rparr>)"
  by (simp add: carries_def)

lemma carries_isJump [carries_intro]: "carries a r i \<Longrightarrow> carries a r (i\<lparr>in_isJump := b\<rparr>)"
  by (simp add: carries_def)

lemma carries_isCall [carries_intro]: "carries a r i \<Longrightarrow> carries a r (i\<lparr>in_isCall := b\<rparr>)"
  by (simp add: carries_def)

lemma carries_isReturn [carries_intro]: "carries a r i \<Longrightarrow> carries a r (i\<lparr>in_isReturn := b\<rparr>)"
  by (simp add: carries_def)

lemma carries_hasDelaySlot [carries_intro]: "carries a r i \<Longrightarrow> carries a r (i\<lparr>in_hasDelaySlot := b\<rparr>)"
  by (simp add: carries_def)

lemma carries_isMultimedia [carries_intro]: "carries a r i \<Longrightarrow> carries a r (i\<lparr>in_isMultimedia := b\<rparr>)"
  by (simp add: carries_def)

lemma carries_isStore [carries_intro]: "carries a r i \<Longrightarrow> carries a r (i\<lparr>in_isStore := b\<rparr>)"
  by (simp add: carries_def)

lemma carries_isLoad [carries_intro]: "carries a r i \<Longrightarrow> carries a r (i\<lparr>in_isLoad := b\<rparr>)"
  by (simp add: carries_def)

lemma carries_disassembly [carries_intro]: "carries a r i \<Longrightarrow> carries a r (i\<lparr>in_disassembly := s\<rparr>)"
  by (simp add: carries_def)

lemma carries_modificationInfo [carries_intro]: "carries a r i \<Longrightarrow> carries a r (i\<lparr>in_modificationInfo := mi\<rparr>)"
  by (simp add: carries_def)

lemma carries_mmi [carries_intro]:
  "carries a r i \<Longrightarrow> t < 4 \<Longrightarrow> f < 32 \<Longrightarrow> carries a r (i\<lparr>in_mmiType := t, in_mmiFunction := f\<rparr>)"
  by (simp add: carries_def)

lemma carries_mmiFunction [carries_intro]:
  "carries a r i \<Longrightarrow> f < 32 \<Longrightarrow> carries a r (i\<lparr>in_mmiFunction := f\<rparr>)"
  by (simp add: carries_def)

lemma carries_pmfhlVariation [carries_intro]:
  "carries a r i \<Longrightarrow> f < 256 \<Longrightarrow> carries a r (i\<lparr>in_pmfhlVariation := f\<rparr>)"
  by (simp add: carries_def)

lemma carries_vectorInfo [carries_intro]:
  "carries a r i \<Longrightarrow> vectorInRange v \<Longrightarrow> carries a r (i\<lparr>in_vectorInfo := v\<rparr>)"
  by (simp add: carries_def)

lemma carries_if [carries_intro]: "carries a r i \<Longrightarrow> carries a r j \<Longrightarrow> carries a r (if b then i else j)"
  by simp

lemma carries_let [carries_intro]:
  "carries a r i \<Longrightarrow> (\<And>j. carries a r j \<Longrightarrow> carries a r (f j)) \<Longrightarrow> carries a r (let j = i in f j)"
  by simp

lemma carries_let_word [carries_intro]: "(\<And>w. carries a r (f w)) \<Longrightarrow> carries a r (let w = (x :: u32) in f w)"
  by simp

lemma carries_let_bool [carries_intro]: "(\<And>w. carries a r (f w)) \<Longrightarrow> carries a r (let w = (x :: bool) in f w)"
  by simp

lemma carries_let_vector [carries_intro]:
  "vectorInRange v \<Longrightarrow> (\<And>w. vectorInRange w \<Longrightarrow> carries a r (f w)) \<Longrightarrow> carries a r (let w = v in f w)"
  by simp

lemma vector_if [carries_intro]: "vectorInRange v \<Longrightarrow> vectorInRange w \<Longrightarrow> vectorInRange (if b then v else w)"
  by simp

lemma vector_of_carried [carries_intro]: "carries a r i \<Longrightarrow> vectorInRange (in_vectorInfo i)"
  by (simp add: carries_def)

lemma vector_fields [carries_intro]:
  "vectorInRange v \<Longrightarrow> vectorInRange (v\<lparr>vi_usesQReg := b\<rparr>)"
  "vectorInRange v \<Longrightarrow> vectorInRange (v\<lparr>vi_isVector := b\<rparr>)"
  "vectorInRange v \<Longrightarrow> vectorInRange (v\<lparr>vi_vectorField := x AND 0xF, vi_modifiesMAC := b\<rparr>)"
  "vectorInRange v \<Longrightarrow> vectorInRange (v\<lparr>vi_fsf := x AND 0x3\<rparr>)"
  "vectorInRange v \<Longrightarrow> vectorInRange (v\<lparr>vi_ftf := x AND 0x3\<rparr>)"
  using word_and_le1 [of x "0xF :: u32"] word_and_le1 [of x "0x3 :: u32"]
  by (auto simp: vectorInRange_def intro: le_less_trans)

lemma carried_sa [carries_intro]: "carries a r i \<Longrightarrow> in_sa i < 32" "carries a r i \<Longrightarrow> in_sa i < 256"
  using word_and_le1 [of "drop_bit 6 r" "0x1F :: u32"]
  by (auto simp: carries_def SA_def intro: le_less_trans)

lemma small_mmi_words [carries_intro]:
  "(0 :: u32) < 4" "(1 :: u32) < 4" "(2 :: u32) < 4" "(3 :: u32) < 4" "(0xFF :: u32) < 256" "MMI3_PMTHI < 32"
  "MMI3_PMTLO < 32"
  by (simp_all add: opcode_values)

lemma carries_decodeSpecial [carries_intro]: "carries a r i \<Longrightarrow> carries a r (decodeSpecial i)"
  unfolding decodeSpecial_def by (assumption | intro carries_intro)+

lemma carries_decodeMMI [carries_intro]: "carries a r i \<Longrightarrow> carries a r (decodeMMI i)"
  unfolding decodeMMI_def decodeMMI0_def decodeMMI1_def decodeMMI2_def decodeMMI3_def decodePMFHL_def
  by (assumption | intro carries_intro)+

lemma carries_decodeVuMacro [carries_intro]: "carries a r i \<Longrightarrow> carries a r (decodeVuMacro i)"
  unfolding decodeVuMacro_def by (assumption | intro carries_intro)+

lemma carries_decodeCOP2 [carries_intro]: "carries a r i \<Longrightarrow> carries a r (decodeCOP2 i)"
  unfolding decodeCOP2_def by (assumption | intro carries_intro)+

lemma carries_decodeExceptions [carries_intro]: "carries a r i \<Longrightarrow> carries a r (decodeExceptions rz i)"
  unfolding decodeExceptions_def by (assumption | intro carries_intro)+

lemma carries_decodeGroups [carries_intro]: "carries a r i \<Longrightarrow> carries a r (decodeGroups i)"
  unfolding decodeGroups_def by (assumption | intro carries_intro)+

lemma carries_decodeFields [carries_intro]: "carries a r (decodeFields a r)"
  by (simp add: carries_def decodeFields_def newInstruction_def noVector_def vectorInRange_def)

lemma bit0_orIf: "\<not> bit m 0 \<Longrightarrow> \<not> bit (orIf b (registerBit n) m) 0"
  by (auto simp: orIf_def registerBit_def bit_simps unat_eq_0)

lemma carries_masks:
  "carries a r i \<Longrightarrow> \<not> bit x 0 \<Longrightarrow> \<not> bit y 0 \<Longrightarrow> carries a r (i\<lparr>in_isBranch := b1, in_isJump := b2, in_isCall := b3,
     in_isReturn := b4, in_hasDelaySlot := b5, in_isLoad := b6, in_isStore := b7, in_gprReadMask := x,
     in_gprWriteMask := y, in_isMMI := b8, in_isVU := b9, in_modificationInfo := mi\<rparr>)"
  by (simp add: carries_def)

lemma bit0_link: "\<not> bit m 0 \<Longrightarrow> \<not> bit (orIf b (registerBit 31) m) 0"
  by (rule bit0_orIf)

lemma carries_decodeDescriptor [carries_intro]: "carries a r i \<Longrightarrow> carries a r (decodeDescriptor rz i)"
  unfolding decodeDescriptor_def Let_def by (intro carries_masks bit0_orIf) (simp_all add: carries_def)

lemma carries_decodeInstruction: "carries a r (decodeInstruction rz a r dis)"
  unfolding decodeInstruction_def by (assumption | intro carries_intro)+

section \<open>Fields\<close>

lemma field_masks: "(0x3F :: u32) = mask 6" "(0x1F :: u32) = mask 5" "(0xFFFF :: u32) = mask 16" "(0x3FFFFFF :: u32) = mask 26"
  by (simp_all add: mask_eq_exp_minus_1)

lemma field_ranges:
  "OPCODE r < 64" "RS r < 32" "RT r < 32" "RD r < 32" "SA r < 32" "FUNCTION r < 64" "IMMEDIATE r < 65536" "TARGET r < 67108864"
  using word_and_le1 [of "drop_bit 26 r" "0x3F"] word_and_le1 [of "drop_bit 21 r" "0x1F"]
    word_and_le1 [of "drop_bit 16 r" "0x1F"] word_and_le1 [of "drop_bit 11 r" "0x1F"]
    word_and_le1 [of "drop_bit 6 r" "0x1F"] word_and_le1 [of r "0x3F"] word_and_le1 [of r "0xFFFF"]
    word_and_le1 [of r "0x3FFFFFF"]
  by (simp_all add: OPCODE_def RS_def RT_def RD_def SA_def FUNCTION_def IMMEDIATE_def TARGET_def le_less_trans)

lemma join_fields: "push_bit k (drop_bit k r AND mask j) OR (r AND mask k) = r AND mask (k + j)" for r :: u32
proof (rule bit_word_eqI)
  fix n
  assume "n < LENGTH(32)"
  then show "bit (push_bit k (drop_bit k r AND mask j) OR (r AND mask k)) n = bit (r AND mask (k + j)) n"
    by (cases "n < k") (auto simp: bit_simps not_less)
qed

lemma whole_word: "r AND mask 32 = r" for r :: u32
  by (rule bit_word_eqI) (simp add: bit_simps)

lemma register_form: "push_bit 26 (OPCODE r) OR push_bit 21 (RS r) OR push_bit 16 (RT r) OR push_bit 11 (RD r)
    OR push_bit 6 (SA r) OR FUNCTION r = r"
  unfolding OPCODE_def RS_def RT_def RD_def SA_def FUNCTION_def field_masks by (simp only: join_fields arith_simps whole_word)

lemma immediate_form: "push_bit 26 (OPCODE r) OR push_bit 21 (RS r) OR push_bit 16 (RT r) OR IMMEDIATE r = r"
  unfolding OPCODE_def RS_def RT_def IMMEDIATE_def field_masks by (simp only: join_fields arith_simps whole_word)

lemma jump_form: "push_bit 26 (OPCODE r) OR TARGET r = r"
  unfolding OPCODE_def TARGET_def field_masks by (simp only: join_fields arith_simps whole_word)

text \<open>
  C40. Decoding any encoding, whatever the instruction library says of it, gives an instruction whose
  opcode, register, shift, function, immediate and target fields fit the widths they are stored in and
  reassemble the encoding in each of the three instruction forms; the sign-extended immediate has the
  immediate's low half; register 0 is in neither register mask; and the vector and multimedia members
  are in range.
\<close>

theorem decode_keeps_encoding:
  "let i = decodeInstruction rz address raw dis
   in in_address i = address \<and> in_raw i = raw
      \<and> raw = push_bit 26 (in_opcode i) OR push_bit 21 (in_rs i) OR push_bit 16 (in_rt i) OR push_bit 11 (in_rd i)
          OR push_bit 6 (in_sa i) OR in_function i
      \<and> raw = push_bit 26 (in_opcode i) OR push_bit 21 (in_rs i) OR push_bit 16 (in_rt i) OR in_immediate i
      \<and> raw = push_bit 26 (in_opcode i) OR in_target i
      \<and> sint (in_simmediate i) = sint (ucast (in_immediate i) :: u16)
      \<and> in_opcode i < 64 \<and> in_rs i < 32 \<and> in_rt i < 32 \<and> in_rd i < 32 \<and> in_sa i < 32 \<and> in_function i < 64
      \<and> in_immediate i < 65536 \<and> in_target i < 67108864
      \<and> \<not> bit (in_gprReadMask i) 0 \<and> \<not> bit (in_gprWriteMask i) 0
      \<and> in_mmiType i < 4 \<and> in_mmiFunction i < 32 \<and> in_pmfhlVariation i < 256
      \<and> vi_vectorField (in_vectorInfo i) < 16 \<and> vi_fsf (in_vectorInfo i) < 4 \<and> vi_ftf (in_vectorInfo i) < 4"
proof -
  define i where "i = decodeInstruction rz address raw dis"
  have c: "carries address raw i"
    unfolding i_def by (rule carries_decodeInstruction)
  have s: "sint (SIMMEDIATE raw) = sint (ucast (IMMEDIATE raw) :: u16)"
    by (simp add: SIMMEDIATE_def IMMEDIATE_def sint_up_scast is_up)
  show ?thesis
    unfolding i_def [symmetric] Let_def
    using c s field_ranges [of raw] register_form [of raw] immediate_form [of raw] jump_form [of raw]
    by (simp add: carries_def vectorInRange_def)
qed

section \<open>Batched retirement\<close>

definition raisesException :: "instruction \<Rightarrow> bool" where
  "raisesException i \<longleftrightarrow> isSpecialTrap i \<or> isRegimmTrap i \<or> isEret i \<or> in_opcode i \<in> {OPCODE_ADDI, OPCODE_DADDI}
     \<or> in_opcode i = OPCODE_SPECIAL \<and> in_function i \<in> {SPECIAL_ADD, SPECIAL_SUB, SPECIAL_DADD, SPECIAL_DSUB}"

lemmas instruction_models = eeInstructionCanBatchRetirement_def eeInstructionCanDeferRetirementMaterialization_def
  eeInstructionPerformanceInfo_def isSpecialTrap_def isRegimmTrap_def isEret_def isCop1Instruction_def
  isCop2Instruction_def raisesException_def orIf_def event_values

lemma batch_no_control:
  assumes "eeInstructionCanBatchRetirement i"
  shows "\<not> in_hasDelaySlot i \<and> \<not> in_isBranch i \<and> \<not> in_isJump i \<and> \<not> in_isCall i \<and> \<not> in_isReturn i \<and> \<not> in_isLoad i
    \<and> \<not> in_isStore i \<and> \<not> in_isMMI i \<and> \<not> in_isVU i \<and> \<not> in_isMmio i"
  using assms unfolding eeInstructionCanBatchRetirement_def by (simp split: if_splits)

lemma batch_opcode:
  assumes "eeInstructionCanBatchRetirement i"
  obtains (immediate) "in_opcode i \<in> {OPCODE_ADDIU, OPCODE_SLTI, OPCODE_SLTIU, OPCODE_ANDI, OPCODE_ORI, OPCODE_XORI,
      OPCODE_LUI, OPCODE_DADDIU, OPCODE_PREF}"
    | (regimm) "in_opcode i = OPCODE_REGIMM" "in_rt i \<in> {REGIMM_MTSAB, REGIMM_MTSAH}"
    | (special) "in_opcode i = OPCODE_SPECIAL" "in_function i \<in> batchableSpecial"
  using assms unfolding eeInstructionCanBatchRetirement_def by (simp split: if_splits)

lemma batch_raises_nothing:
  assumes "eeInstructionCanBatchRetirement i"
  shows "\<not> raisesException i"
  using assms
proof (cases rule: batch_opcode)
  case immediate
  then show ?thesis by (auto simp: instruction_models opcode_values)
next
  case regimm
  then show ?thesis by (auto simp: instruction_models opcode_values)
next
  case special
  then show ?thesis by (auto simp: instruction_models opcode_values batchableSpecial_def)
qed

lemma batchable_neither:
  "batchableSpecial \<inter> {SPECIAL_JR, SPECIAL_JALR, SPECIAL_TGE, SPECIAL_TGEU, SPECIAL_TLT, SPECIAL_TLTU, SPECIAL_TEQ,
     SPECIAL_TNE} = {}"
  by (simp add: batchableSpecial_def opcode_values)

lemma batch_ticks:
  assumes "eeInstructionCanBatchRetirement i"
  shows "eeInstructionCycleTicks i \<in> {kDefaultTicks, kMultiplyTicks, kDivideTicks}"
  using assms
proof (cases rule: batch_opcode)
  case immediate
  then have "eeInstructionCycleTicks i = kDefaultTicks"
    by (elim insertE emptyE) (simp_all add: eeInstructionCycleTicks_def isLoadOrStoreOpcode_def opcode_values)
  then show ?thesis by simp
next
  case regimm
  then have "regimmCycleTicks i = kDefaultTicks"
    by (elim insertE emptyE) (simp_all add: regimmCycleTicks_def opcode_values)
  with regimm(1) show ?thesis
    by (simp add: eeInstructionCycleTicks_def isLoadOrStoreOpcode_def opcode_values)
next
  case special
  have "specialCycleTicks i \<in> {kDefaultTicks, kMultiplyTicks, kDivideTicks}"
    using batchable_neither special(2) by (auto simp: specialCycleTicks_def Let_def)
  with special(1) show ?thesis
    by (simp add: eeInstructionCycleTicks_def isLoadOrStoreOpcode_def opcode_values Let_def)
qed

lemma batch_completion:
  assumes "eeInstructionCanBatchRetirement i"
  shows "pf_completionEvents (eeInstructionPerformanceInfo i) = kInstructionCompleted OR kNonBdsInstructionCompleted"
    and "pf_issueFlags (eeInstructionPerformanceInfo i) = 0"
    and "\<not> pf_completionBeforeEffect (eeInstructionPerformanceInfo i)"
proof -
  have o: "\<not> isCop1Instruction i" "\<not> isCop2Instruction i"
    using assms by (cases rule: batch_opcode; auto simp: instruction_models opcode_values)+
  have r: "\<not> isSpecialTrap i" "\<not> isRegimmTrap i" "\<not> isEret i"
    using batch_raises_nothing [OF assms] by (simp_all add: raisesException_def)
  show "pf_completionEvents (eeInstructionPerformanceInfo i) = kInstructionCompleted OR kNonBdsInstructionCompleted"
    and "pf_issueFlags (eeInstructionPerformanceInfo i) = 0"
    and "\<not> pf_completionBeforeEffect (eeInstructionPerformanceInfo i)"
    using o r batch_no_control [OF assms]
    by (simp_all add: eeInstructionPerformanceInfo_def orIf_def event_values)
qed

text \<open>The store flag and the memory effect, which the refinements of the special group leave alone.\<close>

definition storeEffect :: "instruction \<Rightarrow> bool \<times> bool" where
  "storeEffect i = (in_isStore i, mi_modifiesMemory (in_modificationInfo i))"

named_theorems store_intro \<open>updates that leave the store flag and the memory effect alone\<close>

lemma store_updates [store_intro]:
  "storeEffect i = e \<Longrightarrow> storeEffect (i\<lparr>in_isJump := b, in_hasDelaySlot := b'\<rparr>) = e"
  "storeEffect i = e \<Longrightarrow> storeEffect (i\<lparr>in_isJump := b, in_isCall := b'', in_hasDelaySlot := b'\<rparr>) = e"
  "storeEffect i = e \<Longrightarrow> storeEffect (i\<lparr>in_isReturn := b\<rparr>) = e"
  "storeEffect i = e \<Longrightarrow> storeEffect (setGPR b i) = e"
  "storeEffect i = e \<Longrightarrow> storeEffect (setControl b i) = e"
  by (simp_all add: storeEffect_def)

lemma store_if [store_intro]: "storeEffect i = e \<Longrightarrow> storeEffect j = e \<Longrightarrow> storeEffect (if b then i else j) = e"
  by simp

lemma store_let [store_intro]:
  "storeEffect i = e \<Longrightarrow> (\<And>j. storeEffect j = e \<Longrightarrow> storeEffect (f j) = e) \<Longrightarrow> storeEffect (let j = i in f j) = e"
  by simp

lemma store_let_word [store_intro]: "(\<And>w. storeEffect (f w) = e) \<Longrightarrow> storeEffect (let w = (x :: u32) in f w) = e"
  by simp

lemma store_decodeSpecial: "storeEffect i = e \<Longrightarrow> storeEffect (decodeSpecial i) = e"
  unfolding decodeSpecial_def by (assumption | intro store_intro)+

lemma store_decodeDescriptor: "storeEffect (decodeDescriptor rz i) = (rz_doesStore rz (in_address i) (in_raw i), rz_doesStore rz (in_address i) (in_raw i))"
  by (simp add: storeEffect_def decodeDescriptor_def Let_def)

definition plainOpcode :: "u32 \<Rightarrow> bool" where
  "plainOpcode opcode \<longleftrightarrow> opcode \<in> {OPCODE_ADDIU, OPCODE_SLTI, OPCODE_SLTIU, OPCODE_ANDI, OPCODE_ORI, OPCODE_XORI,
      OPCODE_LUI, OPCODE_DADDIU, OPCODE_PREF, OPCODE_REGIMM, OPCODE_SPECIAL}"

lemma plain_not_group:
  assumes "plainOpcode opcode"
  shows "opcode \<notin> {OPCODE_COP2, OPCODE_LWC2, OPCODE_LDC2, OPCODE_SWC2, OPCODE_SDC2, OPCODE_LQ, OPCODE_SQ, OPCODE_MMI}"
    and "opcode \<notin> {OPCODE_LL, OPCODE_LLD, OPCODE_SC, OPCODE_SCD, OPCODE_CACHE}"
  using assms unfolding plainOpcode_def by (elim insertE emptyE; simp add: opcode_values)+

lemma plain_exceptions:
  assumes "plainOpcode (in_opcode i)"
  shows "storeEffect (decodeExceptions rz i) = storeEffect i"
proof -
  have "decodeExceptions rz i = (if rz_isEret rz (in_address i) (in_raw i)
      then setControl True (i\<lparr>in_isReturn := True, in_hasDelaySlot := False\<rparr>) else i)"
    using plain_not_group [OF assms] unfolding decodeExceptions_def Let_def by (simp split: if_split)
  then show ?thesis
    by (simp add: storeEffect_def)
qed

lemma plain_groups:
  assumes p: "plainOpcode (in_opcode i)"
  shows "storeEffect (decodeGroups i) = storeEffect i"
proof -
  define s where "s = (if in_opcode i = OPCODE_SPECIAL then decodeSpecial i else i)"
  have s: "storeEffect s = storeEffect i"
    unfolding s_def by (simp add: store_decodeSpecial)
  have "decodeGroups i = (if in_isMMI s \<or> in_isVU s
      then s\<lparr>in_isMultimedia := True, in_vectorInfo := (in_vectorInfo s)\<lparr>vi_isVector := in_isVU s\<rparr>\<rparr> else s)"
    using plain_not_group [OF p] unfolding decodeGroups_def Let_def s_def by (simp split: if_split)
  then show ?thesis
    using s by (simp add: storeEffect_def)
qed

lemma storeEffect_disassembly: "storeEffect (i\<lparr>in_disassembly := s\<rparr>) = storeEffect i"
  by (simp add: storeEffect_def)

lemma plain_store_effect:
  assumes "plainOpcode (OPCODE raw)"
  shows "storeEffect (decodeInstruction rz address raw dis) = (rz_doesStore rz address raw, rz_doesStore rz address raw)"
proof -
  define f where "f = decodeDescriptor rz (decodeFields address raw)"
  have c: "carries address raw (decodeFields address raw)" "carries address raw f"
    unfolding f_def by (intro carries_intro)+
  then have f: "storeEffect f = (rz_doesStore rz address raw, rz_doesStore rz address raw)" "plainOpcode (in_opcode f)"
    using assms by (simp_all add: f_def store_decodeDescriptor carries_def)
  have e: "plainOpcode (in_opcode (decodeExceptions rz f))"
    using carries_decodeExceptions [OF c(2), of rz] assms by (simp add: carries_def)
  have "storeEffect (decodeInstruction rz address raw dis) = storeEffect (decodeGroups (decodeExceptions rz f))"
    by (simp add: decodeInstruction_def Let_def storeEffect_disassembly flip: f_def)
  then show ?thesis
    using plain_groups [OF e] plain_exceptions [OF f(2), of rz] f(1) by simp
qed

lemma batch_plain: "eeInstructionCanBatchRetirement i \<Longrightarrow> plainOpcode (in_opcode i)"
  by (erule batch_opcode) (auto simp: plainOpcode_def)

text \<open>An instruction library that knows no special behaviour, and one that knows the branches and jumps.\<close>

definition quietLibrary :: rabbitizer where
  "quietLibrary = (let no = (\<lambda>_ _. False)
     in \<lparr>rz_isBranch = no, rz_isJump = no, rz_isTrap = no, rz_isFunctionCall = no, rz_isReturn = no, rz_isEret = no,
         rz_hasDelaySlot = no, rz_doesLoad = no, rz_doesStore = no, rz_doesLink = no, rz_readsRs = no, rz_readsRt = no,
         rz_readsRd = no, rz_modifiesRs = no, rz_modifiesRt = no, rz_modifiesRd = no, rz_modifiesFs = no,
         rz_modifiesFt = no, rz_modifiesFd = no, rz_modifiesHI = no, rz_modifiesLO = no, rz_disassembly = (\<lambda>_ _. [])\<rparr>)"

definition flowLibrary :: rabbitizer where
  "flowLibrary = quietLibrary\<lparr>rz_isBranch := (\<lambda>_ raw. OPCODE raw = OPCODE_BNE),
     rz_isJump := (\<lambda>_ raw. OPCODE raw = OPCODE_JAL), rz_isFunctionCall := (\<lambda>_ raw. OPCODE raw = OPCODE_JAL),
     rz_hasDelaySlot := (\<lambda>_ raw. OPCODE raw \<in> {OPCODE_BNE, OPCODE_JAL}), rz_doesLink := (\<lambda>_ raw. OPCODE raw = OPCODE_JAL),
     rz_readsRs := (\<lambda>_ raw. OPCODE raw = OPCODE_BNE), rz_readsRt := (\<lambda>_ raw. OPCODE raw = OPCODE_BNE)\<rparr>"

text \<open>
  Whatever the instruction library says, a decoded instruction that may retire in a batch cannot
  raise an exception (no trap, system call, break, exception return or overflowing arithmetic), writes
  no memory, has no branch or jump target, is never also one whose retirement may be deferred, charges
  the default, the multiply or the divide ticks, and reports exactly the completion of one instruction
  outside a delay slot, after its effect.
\<close>

theorem batched_instructions_are_quiet:
  assumes "eeInstructionCanBatchRetirement (decodeInstruction rz address raw dis)"
  shows "let i = decodeInstruction rz address raw dis
         in \<not> raisesException i \<and> \<not> mi_modifiesMemory (in_modificationInfo i)
            \<and> getBranchTarget i = 0 \<and> getJumpTarget i = 0
            \<and> \<not> eeInstructionCanDeferRetirementMaterialization i
            \<and> eeInstructionCycleTicks i \<in> {9, 16, 112}
            \<and> pf_completionEvents (eeInstructionPerformanceInfo i) = 3
            \<and> pf_issueFlags (eeInstructionPerformanceInfo i) = 0
            \<and> \<not> pf_completionBeforeEffect (eeInstructionPerformanceInfo i)"
proof -
  define i where "i = decodeInstruction rz address raw dis"
  have b: "eeInstructionCanBatchRetirement i"
    using assms by (simp add: i_def)
  have "plainOpcode (OPCODE raw)"
    using batch_plain [OF b] carries_decodeInstruction [of address raw rz dis] by (simp add: i_def carries_def)
  then have "storeEffect i = (in_isStore i, in_isStore i)"
    using plain_store_effect [of raw rz address dis] by (simp add: i_def storeEffect_def)
  then have m: "\<not> mi_modifiesMemory (in_modificationInfo i)"
    using batch_no_control [OF b] by (simp add: storeEffect_def)
  have "kInstructionCompleted OR kNonBdsInstructionCompleted = 3"
    by (simp add: event_values)
  then show ?thesis
    unfolding i_def [symmetric] Let_def
    using m batch_raises_nothing [OF b] batch_no_control [OF b] batch_ticks [OF b] batch_completion [OF b]
    by (simp add: tick_values getBranchTarget_def getJumpTarget_def eeInstructionCanDeferRetirementMaterialization_def)
qed

text \<open>\<open>addiu sp, sp, -16\<close>.\<close>

theorem batched_instructions_are_quiet_witness:
  "eeInstructionCanBatchRetirement (decodeInstruction quietLibrary 0x00100008 0x27BDFFF0 False)
   \<and> \<not> raisesException (decodeInstruction quietLibrary 0x00100008 0x27BDFFF0 False)"
proof -
  have b: "eeInstructionCanBatchRetirement (decodeInstruction quietLibrary 0x00100008 0x27BDFFF0 False)"
    by code_simp
  then show ?thesis
    using batched_instructions_are_quiet [OF b] by (simp add: Let_def)
qed

section \<open>Targets\<close>

lemma push_word_of_int: "push_bit 2 (word_of_int k :: u32) = word_of_int (4 * k)"
  by (simp add: push_bit_eq_mult)

lemma branch_arith: "uint (address + 4 + push_bit 2 (scast (x :: u16)) :: u32) = (uint address + 4 + 4 * sint x) mod 2 ^ 32"
proof -
  have s: "push_bit 2 (scast x :: u32) = word_of_int (4 * sint x)"
    unfolding scast_eq by (rule push_word_of_int)
  have "address + 4 + push_bit 2 (scast x) = word_of_int (uint address) + word_of_int 4 + (word_of_int (4 * sint x) :: u32)"
    unfolding s by simp
  also have "\<dots> = word_of_int (uint address + 4 + 4 * sint x)"
    by (simp only: of_int_add)
  finally show ?thesis
    by (simp only: uint_word_of_int) simp
qed

lemma upper_segment: "uint (w AND 0xF0000000 :: u32) = uint w div 2 ^ 28 * 2 ^ 28"
proof -
  have m: "(0xF0000000 :: u32) = NOT (mask 28)"
    by (simp add: mask_eq_exp_minus_1)
  have "(w AND 0xF0000000 :: u32) = push_bit 28 (drop_bit 28 w)"
    unfolding m by (rule bit_word_eqI) (auto simp: bit_simps)
  then have "uint (w AND 0xF0000000) = uint w div 2 ^ 28 * 2 ^ 28 mod 2 ^ 32"
    by (simp add: push_bit_eq_mult drop_bit_eq_div uint_word_ariths uint_div)
  also have "\<dots> = uint w div 2 ^ 28 * 2 ^ 28"
    using uint_lt2p [of w] by (intro mod_pos_pos_trivial) (simp_all add: pos_imp_zdiv_nonneg_iff)
  finally show ?thesis .
qed
lemma jump_arith: "uint ((w AND 0xF0000000) OR push_bit 2 (r AND 0x3FFFFFF) :: u32) = uint w div 2 ^ 28 * 2 ^ 28 + 4 * (uint r mod 2 ^ 26)"
proof -
  have m: "(0xF0000000 :: u32) = NOT (mask 28)" "(0x3FFFFFF :: u32) = mask 26"
    by (simp_all add: mask_eq_exp_minus_1)
  have u: "uint (w AND 0xF0000000) = uint w div 2 ^ 28 * 2 ^ 28"
    by (rule upper_segment)
  have l: "uint (push_bit 2 (r AND 0x3FFFFFF)) = 4 * (uint r mod 2 ^ 26)"
    unfolding m by (simp add: push_bit_eq_mult uint_word_ariths uint_mod take_bit_eq_mod flip: take_bit_eq_mask)
  have "(w AND 0xF0000000) OR push_bit 2 (r AND 0x3FFFFFF) = (w AND 0xF0000000) + push_bit 2 (r AND 0x3FFFFFF)"
    unfolding m by (rule disjunctive_add [symmetric]) (auto simp: bit_simps)
  moreover have "uint w div 2 ^ 28 * 2 ^ 28 + 4 * (uint r mod 2 ^ 26) < 2 ^ 32"
  proof -
    have "uint w div 2 ^ 28 < 16" "uint r mod 2 ^ 26 < 2 ^ 26"
      using uint_lt2p [of w] by simp_all
    then show ?thesis by simp
  qed
  ultimately show ?thesis
    using u l by (simp add: uint_plus_if')
qed
lemma aligned_offset: "a mod 4 = 0 \<Longrightarrow> (a + 4 + 4 * k) mod 2 ^ 32 mod 4 = 0" for a k :: int
proof -
  assume "a mod 4 = 0"
  then have "(a + 4 + 4 * k) mod 4 = 0" by presburger
  then show ?thesis by (simp add: mod_mod_cancel)
qed

lemma aligned_segment: "(n * 2 ^ 28 + 4 * k) mod 4 = 0" for n k :: int
proof -
  have "n * 2 ^ 28 + 4 * k = 4 * (n * 2 ^ 26 + k)" by simp
  then show ?thesis by simp
qed

lemma low_half: "(ucast (r AND 0xFFFF) :: u16) = ucast (r :: u32)"
  unfolding field_masks by (rule bit_word_eqI) (auto simp: bit_simps)

text \<open>
  At an aligned address, whatever the instruction library says: a decoded branch goes to the address
  after it plus four times its signed 16-bit immediate, modulo 2^32; a decoded J or JAL stays in the
  256 MiB segment of the address after it, at four times its 26-bit target; an instruction that is not a
  branch has branch target 0, and a register jump, or no jump, has jump target 0; every target is aligned.
\<close>

theorem targets_in_range:
  assumes aligned: "uint address mod 4 = 0"
  shows "let i = decodeInstruction rz address raw dis;
             direct = (in_isJump i \<and> (in_opcode i = OPCODE_J \<or> in_opcode i = OPCODE_JAL))
         in uint (getBranchTarget i) =
              (if in_isBranch i then (uint address + 4 + 4 * sint (ucast raw :: u16)) mod 2 ^ 32 else 0)
            \<and> uint (getJumpTarget i) =
              (if direct then uint (address + 4) div 2 ^ 28 * 2 ^ 28 + 4 * (uint raw mod 2 ^ 26) else 0)
            \<and> uint (getBranchTarget i) mod 4 = 0 \<and> uint (getJumpTarget i) mod 4 = 0"
proof -
  define i where "i = decodeInstruction rz address raw dis"
  define direct where "direct = (in_isJump i \<and> (in_opcode i = OPCODE_J \<or> in_opcode i = OPCODE_JAL))"
  have c: "carries address raw i"
    unfolding i_def by (rule carries_decodeInstruction)
  have "SIMMEDIATE raw = scast (ucast raw :: u16)"
    by (simp add: SIMMEDIATE_def low_half)
  then have b: "uint (getBranchTarget i) =
      (if in_isBranch i then (uint address + 4 + 4 * sint (ucast raw :: u16)) mod 2 ^ 32 else 0)"
    using c by (simp add: getBranchTarget_def carries_def branch_arith del: push_bit_of_1)
  have "getJumpTarget i = (if direct then ((address + 4) AND 0xF0000000) OR push_bit 2 (raw AND 0x3FFFFFF) else 0)"
    using c by (auto simp: getJumpTarget_def direct_def carries_def TARGET_def opcode_values)
  then have j: "uint (getJumpTarget i) =
      (if direct then uint (address + 4) div 2 ^ 28 * 2 ^ 28 + 4 * (uint raw mod 2 ^ 26) else 0)"
    by (simp only: jump_arith if_distrib [of uint] uint_0_eq)
  have "(uint address + 4 + 4 * sint (ucast raw :: u16)) mod 2 ^ 32 mod 4 = 0"
    using aligned by (rule aligned_offset)
  moreover have "(uint (address + 4) div 2 ^ 28 * 2 ^ 28 + 4 * (uint raw mod 2 ^ 26)) mod 4 = 0"
    by (rule aligned_segment)
  ultimately show ?thesis
    unfolding i_def [symmetric] Let_def direct_def [symmetric] using b j by simp
qed

text \<open>\<open>bne v0, zero, -2\<close> and \<open>jal 0x00200100\<close>.\<close>

theorem targets_in_range_witness:
  "getBranchTarget (decodeInstruction flowLibrary 0x00100008 0x1440FFFE False) = 0x00100004
   \<and> uint (getBranchTarget (decodeInstruction flowLibrary 0x00100008 0x1440FFFE False)) mod 4 = 0
   \<and> getJumpTarget (decodeInstruction flowLibrary 0x00100008 0x0C080040 False) = 0x00200100"
proof -
  have "uint (0x00100008 :: u32) mod 4 = 0"
    by simp
  from targets_in_range [OF this, of flowLibrary "0x1440FFFE" False]
  have "uint (getBranchTarget (decodeInstruction flowLibrary 0x00100008 0x1440FFFE False)) mod 4 = 0"
    by (simp add: Let_def)
  moreover have "getBranchTarget (decodeInstruction flowLibrary 0x00100008 0x1440FFFE False) = 0x00100004"
    by code_simp
  moreover have "getJumpTarget (decodeInstruction flowLibrary 0x00100008 0x0C080040 False) = 0x00200100"
    by code_simp
  ultimately show ?thesis by blast
qed

end
