(* ===== verification/Vu0SyncAnalyzer.thy ===== *)
theory Vu0SyncAnalyzer
  imports R5900Decoder
begin

text \<open>
  \<open>ps2xRecomp/src/lib/vu0_sync_analyzer.cpp\<close>: which COP2 operations of a function must first catch a
  running VU0 microprogram up with EE time. The plan is made per basic block; the vector of
  instructions is a list updated in place block by block. \<open>emittedSync\<close> is what the instruction
  translator (\<open>instruction_translator.cpp\<close>) makes of a planned instruction: no call to
  \<open>synchronizeVU0Microprogram\<close>, a call, or a call that also finishes the microprogram.
\<close>

section \<open>Classes of instructions\<close>

definition isCop2Transfer :: "instruction \<Rightarrow> bool" where
  "isCop2Transfer i \<longleftrightarrow> in_opcode i = OPCODE_COP2 \<and> in_rs i \<in> {COP2_QMFC2, COP2_CFC2, COP2_QMTC2, COP2_CTC2}"

definition isInterlockedTransfer :: "instruction \<Rightarrow> bool" where
  "isInterlockedTransfer i \<longleftrightarrow> isCop2Transfer i \<and> in_raw i AND 1 \<noteq> 0"

definition isVu0LoadStore :: "instruction \<Rightarrow> bool" where
  "isVu0LoadStore i \<longleftrightarrow> in_opcode i = OPCODE_LQC2 \<or> in_opcode i = OPCODE_SQC2"

definition isVu0MacroOperation :: "instruction \<Rightarrow> bool" where
  "isVu0MacroOperation i \<longleftrightarrow> in_opcode i = OPCODE_COP2 \<and> in_rs i \<ge> COP2_CO"

definition isVu0Call :: "instruction \<Rightarrow> bool" where
  "isVu0Call i = (if \<not> isVu0MacroOperation i then False else in_function i \<in> {VU0_S1_VCALLMS, VU0_S1_VCALLMSR})"

definition isNonInterlockedMove :: "instruction \<Rightarrow> bool" where
  "isNonInterlockedMove i \<longleftrightarrow> isCop2Transfer i \<and> \<not> isInterlockedTransfer i"

definition isLikelyHandshakeClear :: "instruction \<Rightarrow> bool" where
  "isLikelyHandshakeClear i \<longleftrightarrow> isNonInterlockedMove i \<and> in_rs i > COP2_CFC2 \<and> in_rt i = 0"

text \<open>The instructions from the next one to the end of the block.\<close>

primrec followingMacroNeedsFinish :: "instruction list \<Rightarrow> bool" where
  "followingMacroNeedsFinish [] = False"
| "followingMacroNeedsFinish (i # following) =
     (if isVu0Call i then False else if isVu0MacroOperation i then True else followingMacroNeedsFinish following)"

section \<open>Blocks\<close>

definition blockAddresses :: "instruction list \<Rightarrow> u32 set \<Rightarrow> u32 set" where
  "blockAddresses instructions entryPoints =
     fold (\<lambda>index starts.
         let i = instructions ! index;
             starts1 = (if in_hasDelaySlot i then insert (in_address i + 8) starts else starts)
         in if index \<noteq> 0 \<and> in_address i \<noteq> in_address (instructions ! (index - 1)) + 4
            then insert (in_address i) starts1 else starts1)
       [0..<length instructions] (insert (in_address (hd instructions)) entryPoints)"

definition findBlockStarts :: "instruction list \<Rightarrow> u32 set \<Rightarrow> nat list" where
  "findBlockStarts instructions entryPoints =
     (if instructions = [] then []
      else let starts = blockAddresses instructions entryPoints;
               result = filter (\<lambda>index. in_address (instructions ! index) \<in> starts) [0..<length instructions]
           in if result = [] \<or> hd result \<noteq> 0 then 0 # result else result)"

section \<open>The plan\<close>

text \<open>One turn of the loop over a block: \<open>(needsVu0Sync, needsVu0Finish)\<close> and the instruction.\<close>

definition planInstruction ::
  "bool \<Rightarrow> instruction list \<Rightarrow> bool \<times> bool \<Rightarrow> instruction \<Rightarrow> (bool \<times> bool) \<times> instruction" where
  "planInstruction blockInterlocked following needs i =
     (if in_isStore i \<and> in_opcode i \<noteq> OPCODE_SQC2 then ((True, True), i)
      else if isVu0Call i then ((True, True), i\<lparr>in_vu0SyncMode := Finish\<rparr>)
      else if isInterlockedTransfer i then ((True, True), i\<lparr>in_vu0SyncMode := Finish\<rparr>)
      else let loadStore = isVu0LoadStore i; move = isNonInterlockedMove i; likelyClear = isLikelyHandshakeClear i
           in if loadStore \<or> move then
                (if fst needs \<and> (loadStore \<or> move) \<or> likelyClear then
                   (if \<not> blockInterlocked \<and> followingMacroNeedsFinish following
                    then ((False, False), i\<lparr>in_vu0SyncMode := Finish\<rparr>)
                    else ((blockInterlocked \<or> move \<and> likelyClear, True), i\<lparr>in_vu0SyncMode := Synchronize\<rparr>))
                 else (needs, i\<lparr>in_vu0SyncMode := Skip\<rparr>))
              else if isVu0MacroOperation i then ((False, False), i\<lparr>in_vu0SyncMode := Finish\<rparr>)
              else if in_opcode i = OPCODE_COP2 then
                (if snd needs \<and> in_rs i \<ge> COP2_CO then ((False, False), i\<lparr>in_vu0SyncMode := Finish\<rparr>)
                 else if fst needs then ((blockInterlocked, snd needs), i\<lparr>in_vu0SyncMode := Synchronize\<rparr>)
                 else (needs, i\<lparr>in_vu0SyncMode := Skip\<rparr>))
              else (needs, i))"

primrec planBlock :: "bool \<Rightarrow> bool \<times> bool \<Rightarrow> instruction list \<Rightarrow> instruction list" where
  "planBlock blockInterlocked needs [] = []"
| "planBlock blockInterlocked needs (i # following) =
     (case planInstruction blockInterlocked following needs i of
        (needs', i') \<Rightarrow> i' # planBlock blockInterlocked needs' following)"

definition planRange :: "nat \<Rightarrow> nat \<Rightarrow> instruction list \<Rightarrow> instruction list" where
  "planRange first stop instructions =
     (let block = take (stop - first) (drop first instructions)
      in take first instructions @ planBlock (list_ex isInterlockedTransfer block) (True, True) block
           @ drop stop instructions)"

primrec planBlocks :: "nat list \<Rightarrow> instruction list \<Rightarrow> instruction list" where
  "planBlocks [] instructions = instructions"
| "planBlocks (first # starts) instructions =
     planBlocks starts
       (planRange first (case starts of [] \<Rightarrow> length instructions | next # _ \<Rightarrow> next) instructions)"

definition applyVu0SyncPlan :: "instruction list \<Rightarrow> u32 set \<Rightarrow> instruction list" where
  "applyVu0SyncPlan instructions entryPoints =
     (let reset = map (\<lambda>i. i\<lparr>in_vu0SyncMode := Synchronize\<rparr>) instructions
      in planBlocks (findBlockStarts reset entryPoints) reset)"

text \<open>The call the translator emits in front of the operation.\<close>

definition emittedSync :: "instruction \<Rightarrow> Vu0SyncMode" where
  "emittedSync i =
     (if in_opcode i = OPCODE_COP2 then
        (let transfer = in_rs i \<in> {COP2_QMFC2, COP2_CFC2, COP2_QMTC2, COP2_CTC2};
             interlocked = (in_rs i \<ge> COP2_CO \<or> transfer \<and> in_raw i AND 1 \<noteq> 0);
             finish = (interlocked \<or> in_vu0SyncMode i = Finish)
         in if \<not> finish \<and> in_vu0SyncMode i = Skip then Skip else if finish then Finish else Synchronize)
      else if in_opcode i \<in> {OPCODE_LDC2, OPCODE_SDC2} then in_vu0SyncMode i
      else Skip)"

end
