(* ===== verification/Vu0SyncProps.thy ===== *)
theory Vu0SyncProps
  imports Vu0SyncAnalyzer
begin

text \<open>
  The VU0 synchronization plan: the blocks tile the function, the loop over one block keeps the
  invariant that a dropped synchronization is backed by an earlier one, and the plan of a whole
  function may skip a synchronization only behind one in the same stretch of straight-line code.
\<close>

section \<open>One instruction, one block\<close>

text \<open>What makes the state of VU0 unknown again: a store that may start VU0 by DMA, a call of a
  microprogram, an interlocked transfer.\<close>

definition invalidatesVu0 :: "instruction \<Rightarrow> bool" where
  "invalidatesVu0 i \<longleftrightarrow> in_isStore i \<and> in_opcode i \<noteq> OPCODE_SQC2 \<or> isVu0Call i \<or> isInterlockedTransfer i"

definition accessesVu0 :: "instruction \<Rightarrow> bool" where
  "accessesVu0 i \<longleftrightarrow> in_opcode i = OPCODE_COP2 \<or> isVu0LoadStore i"

text \<open>An access the plan synchronizes, by finishing the microprogram where the block is interlocked.\<close>

definition backsSkip :: "bool \<Rightarrow> instruction \<Rightarrow> instruction \<Rightarrow> bool" where
  "backsSkip blockInterlocked i i' \<longleftrightarrow> accessesVu0 i \<and> \<not> invalidatesVu0 i \<and> in_vu0SyncMode i' \<noteq> Skip
     \<and> (blockInterlocked \<longrightarrow> in_vu0SyncMode i' = Finish)"

lemma access_kinds:
  "isVu0LoadStore i \<Longrightarrow> accessesVu0 i" "isNonInterlockedMove i \<Longrightarrow> accessesVu0 i"
  "isVu0MacroOperation i \<Longrightarrow> accessesVu0 i" "in_opcode i = OPCODE_COP2 \<Longrightarrow> accessesVu0 i"
  by (simp_all add: accessesVu0_def isNonInterlockedMove_def isCop2Transfer_def isVu0MacroOperation_def)

text \<open>The outcomes of one turn of the loop.\<close>

lemma planInstruction_cases:
  obtains (invalidates) m where "invalidatesVu0 i" "m = Finish \<or> m = in_vu0SyncMode i"
      "planInstruction bi following needs i = ((True, True), i\<lparr>in_vu0SyncMode := m\<rparr>)"
    | (finished) "\<not> invalidatesVu0 i" "accessesVu0 i"
      "planInstruction bi following needs i = ((False, False), i\<lparr>in_vu0SyncMode := Finish\<rparr>)"
    | (synchronized) c f where "\<not> invalidatesVu0 i" "accessesVu0 i"
      "planInstruction bi following needs i = ((bi \<or> c, f), i\<lparr>in_vu0SyncMode := Synchronize\<rparr>)"
    | (skipped) "\<not> invalidatesVu0 i" "\<not> fst needs"
      "planInstruction bi following needs i = (needs, i\<lparr>in_vu0SyncMode := Skip\<rparr>)"
    | (other) "\<not> invalidatesVu0 i" "planInstruction bi following needs i = (needs, i)"
proof (cases "invalidatesVu0 i")
  case True
  have "planInstruction bi following needs i = ((True, True), i\<lparr>in_vu0SyncMode := Finish\<rparr>)
      \<or> planInstruction bi following needs i = ((True, True), i\<lparr>in_vu0SyncMode := in_vu0SyncMode i\<rparr>)"
  proof (cases "in_isStore i \<and> in_opcode i \<noteq> OPCODE_SQC2")
    case True
    then show ?thesis by (simp add: planInstruction_def)
  next
    case False
    with \<open>invalidatesVu0 i\<close> have "isVu0Call i \<or> isInterlockedTransfer i"
      by (auto simp: invalidatesVu0_def)
    with False show ?thesis unfolding planInstruction_def by (simp only: if_False if_True) (metis (full_types))
  qed
  then show ?thesis
    using invalidates [of Finish] invalidates [of "in_vu0SyncMode i"] True by blast
next
  case False
  then have n: "\<not> (in_isStore i \<and> in_opcode i \<noteq> OPCODE_SQC2)" "\<not> isVu0Call i" "\<not> isInterlockedTransfer i"
    by (simp_all add: invalidatesVu0_def)
  consider (access) "isVu0LoadStore i \<or> isNonInterlockedMove i"
    | (macro) "\<not> (isVu0LoadStore i \<or> isNonInterlockedMove i)" "isVu0MacroOperation i"
    | (cop2) "\<not> (isVu0LoadStore i \<or> isNonInterlockedMove i)" "\<not> isVu0MacroOperation i" "in_opcode i = OPCODE_COP2"
    | (none) "\<not> (isVu0LoadStore i \<or> isNonInterlockedMove i)" "\<not> isVu0MacroOperation i" "in_opcode i \<noteq> OPCODE_COP2"
    by blast
  then show ?thesis
  proof cases
    case access
    then have a: "accessesVu0 i" by (auto intro: access_kinds)
    show ?thesis
    proof (cases "fst needs \<or> isLikelyHandshakeClear i")
      case True
      have "planInstruction bi following needs i = (if \<not> bi \<and> followingMacroNeedsFinish following
          then ((False, False), i\<lparr>in_vu0SyncMode := Finish\<rparr>)
          else ((bi \<or> isNonInterlockedMove i \<and> isLikelyHandshakeClear i, True), i\<lparr>in_vu0SyncMode := Synchronize\<rparr>))"
        unfolding planInstruction_def Let_def using access n True by (simp only: if_True if_False simp_thms)
      then show ?thesis
        using finished [OF False a]
          synchronized [OF False a, of "isNonInterlockedMove i \<and> isLikelyHandshakeClear i" True]
        by (metis (no_types))
    next
      case no: False
      have "planInstruction bi following needs i = (needs, i\<lparr>in_vu0SyncMode := Skip\<rparr>)"
        unfolding planInstruction_def Let_def using access n no by (simp only: de_Morgan_disj if_True if_False simp_thms)
      then show ?thesis
        using no by (intro skipped False) simp_all
    qed
  next
    case macro
    then show ?thesis
      using n by (intro finished False) (auto simp: planInstruction_def Let_def intro: access_kinds)
  next
    case cop2
    then have "\<not> in_rs i \<ge> COP2_CO" by (simp add: isVu0MacroOperation_def)
    then have p: "planInstruction bi following needs i =
        (if fst needs then ((bi \<or> False, snd needs), i\<lparr>in_vu0SyncMode := Synchronize\<rparr>)
         else (needs, i\<lparr>in_vu0SyncMode := Skip\<rparr>))"
      using cop2 n by (auto simp: planInstruction_def Let_def)
    show ?thesis
    proof (cases "fst needs")
      case True
      then show ?thesis
        using p cop2(3) by (intro synchronized [of False "snd needs"] False) (auto intro: access_kinds)
    next
      case no: False
      then show ?thesis using p by (intro skipped False) simp_all
    qed
  next
    case none
    then show ?thesis using n by (intro other False) (auto simp: planInstruction_def Let_def)
  qed
qed

lemma planInstruction_only_mode:
  "\<exists>m. snd (planInstruction bi following needs i) = i\<lparr>in_vu0SyncMode := m\<rparr>"
proof -
  have "i = i\<lparr>in_vu0SyncMode := in_vu0SyncMode i\<rparr>" by simp
  then show ?thesis
    by (cases rule: planInstruction_cases [of i bi following needs]) (metis snd_conv)+
qed

lemma planInstruction_skip:
  assumes "in_vu0SyncMode i = Synchronize" "in_vu0SyncMode (snd (planInstruction bi following needs i)) = Skip"
  shows "\<not> fst needs \<and> \<not> invalidatesVu0 i"
  using assms by (cases rule: planInstruction_cases [of i bi following needs]) auto

lemma planInstruction_settled:
  assumes "in_vu0SyncMode i = Synchronize" "\<not> fst (fst (planInstruction bi following needs i))"
  shows "\<not> fst needs \<and> \<not> invalidatesVu0 i \<or> backsSkip bi i (snd (planInstruction bi following needs i))"
  using assms by (cases rule: planInstruction_cases [of i bi following needs]) (auto simp: backsSkip_def)

lemma planInstruction_finishes:
  assumes "in_vu0SyncMode i = Synchronize" "isInterlockedTransfer i" "\<not> in_isStore i"
  shows "in_vu0SyncMode (snd (planInstruction bi following needs i)) = Finish"
  using assms unfolding planInstruction_def by simp

lemma length_planBlock [simp]: "length (planBlock bi needs is) = length is"
  by (induction "is" arbitrary: needs) (simp_all split: prod.split)

lemma planBlock_only_mode:
  "n < length is \<Longrightarrow> \<exists>m. planBlock bi needs is ! n = (is ! n)\<lparr>in_vu0SyncMode := m\<rparr>"
proof (induction "is" arbitrary: needs n)
  case (Cons i following)
  then show ?case
    using planInstruction_only_mode [of bi following needs i]
    by (cases n) (auto split: prod.split)
qed simp

text \<open>A skipped access has an earlier synchronized one in the block with nothing in between that would
  invalidate it, or the block was entered with no synchronization needed.\<close>

lemma planBlock_skip:
  assumes "\<forall>i\<in>set is. in_vu0SyncMode i = Synchronize" "n < length is"
    "in_vu0SyncMode (planBlock bi needs is ! n) = Skip"
  shows "\<not> fst needs \<and> (\<forall>k\<le>n. \<not> invalidatesVu0 (is ! k))
    \<or> (\<exists>m<n. backsSkip bi (is ! m) (planBlock bi needs is ! m) \<and> (\<forall>k. m < k \<and> k \<le> n \<longrightarrow> \<not> invalidatesVu0 (is ! k)))"
  using assms
proof (induction "is" arbitrary: needs n)
  case (Cons i following)
  obtain needs' i' where p: "planInstruction bi following needs i = (needs', i')" by fastforce
  have m: "in_vu0SyncMode i = Synchronize" using Cons.prems(1) by simp
  show ?case
  proof (cases n)
    case 0
    then show ?thesis using Cons.prems(3) planInstruction_skip [OF m, of bi following needs] p by simp
  next
    case (Suc l)
    have "in_vu0SyncMode (planBlock bi needs' following ! l) = Skip" "l < length following"
      using Cons.prems(2,3) Suc p by simp_all
    then consider (entered) "\<not> fst needs'" "\<forall>k\<le>l. \<not> invalidatesVu0 (following ! k)"
      | (backed) j where "j < l" "backsSkip bi (following ! j) (planBlock bi needs' following ! j)"
          "\<forall>k. j < k \<and> k \<le> l \<longrightarrow> \<not> invalidatesVu0 (following ! k)"
      using Cons.IH [of l needs'] Cons.prems(1) by auto
    then show ?thesis
    proof cases
      case entered
      have rest: "\<not> invalidatesVu0 ((i # following) ! k)" if "0 < k" "k \<le> Suc l" for k
        using entered(2) that by (cases k) auto
      consider "\<not> fst needs" "\<not> invalidatesVu0 i" | "backsSkip bi i i'"
        using planInstruction_settled [OF m, of bi following needs] entered(1) p by auto
      then show ?thesis
      proof cases
        case 1
        then have "\<not> invalidatesVu0 ((i # following) ! k)" if "k \<le> Suc l" for k
          using rest [of k] that by (cases "k = 0") auto
        with 1 Suc show ?thesis by blast
      next
        case 2
        then show ?thesis using rest Suc p by (intro disjI2 exI [of _ 0]) auto
      qed
    next
      case backed
      have "\<not> invalidatesVu0 ((i # following) ! k)" if "Suc j < k" "k \<le> Suc l" for k
        using backed(3) that by (cases k) auto
      then show ?thesis
        using backed(1,2) Suc p by (intro disjI2 exI [of _ "Suc j"]) auto
    qed
  qed
qed simp

section \<open>The blocks tile the function\<close>

lemma length_planRange [simp]:
  "first \<le> stop \<Longrightarrow> stop \<le> length is \<Longrightarrow> length (planRange first stop is) = length is"
  by (simp add: planRange_def Let_def)

lemma planRange_outside:
  "first \<le> stop \<Longrightarrow> stop \<le> length is \<Longrightarrow> n < length is \<Longrightarrow> n < first \<or> stop \<le> n
    \<Longrightarrow> planRange first stop is ! n = is ! n"
  by (auto simp: planRange_def Let_def nth_append)

definition blockSlice :: "nat \<Rightarrow> nat \<Rightarrow> instruction list \<Rightarrow> instruction list" where
  "blockSlice first stop is = take (stop - first) (drop first is)"

lemma planRange_inside:
  "stop \<le> length is \<Longrightarrow> first \<le> n \<Longrightarrow> n < stop
    \<Longrightarrow> planRange first stop is ! n
        = planBlock (list_ex isInterlockedTransfer (blockSlice first stop is)) (True, True) (blockSlice first stop is) ! (n - first)"
  by (auto simp: planRange_def Let_def nth_append blockSlice_def)

text \<open>The end of the block that starts the list.\<close>

definition blockEnd :: "nat \<Rightarrow> nat list \<Rightarrow> nat" where
  "blockEnd count starts = (case starts of [] \<Rightarrow> count | next # _ \<Rightarrow> next)"

lemma planBlocks_Cons: "planBlocks (first # starts) is = planBlocks starts (planRange first (blockEnd (length is) starts) is)"
  by (simp add: blockEnd_def)

lemma blockEnd_bounds:
  "sorted_wrt (<) (first # starts) \<Longrightarrow> \<forall>b\<in>set (first # starts). b < count
    \<Longrightarrow> first < blockEnd count starts \<and> blockEnd count starts \<le> count"
  by (cases starts) (auto simp: blockEnd_def less_imp_le)

lemma length_planBlocks:
  "sorted_wrt (<) starts \<Longrightarrow> \<forall>b\<in>set starts. b < length is \<Longrightarrow> length (planBlocks starts is) = length is"
proof (induction starts arbitrary: "is")
  case (Cons first starts)
  have l: "length (planRange first (blockEnd (length is) starts) is) = length is"
    using blockEnd_bounds [OF Cons.prems] by simp
  show ?case
    unfolding planBlocks_Cons using Cons.IH [of "planRange first (blockEnd (length is) starts) is"] Cons.prems l by simp
qed simp

lemma planBlocks_before:
  "sorted_wrt (<) starts \<Longrightarrow> \<forall>b\<in>set starts. b < length is \<and> n < b \<Longrightarrow> planBlocks starts is ! n = is ! n"
proof (induction starts arbitrary: "is")
  case (Cons first starts)
  have b: "first < blockEnd (length is) starts \<and> blockEnd (length is) starts \<le> length is"
    using Cons.prems by (intro blockEnd_bounds) auto
  then have l: "length (planRange first (blockEnd (length is) starts) is) = length is" by simp
  have "planBlocks starts (planRange first (blockEnd (length is) starts) is) ! n
      = planRange first (blockEnd (length is) starts) is ! n"
    using Cons.prems l by (intro Cons.IH) auto
  also have "\<dots> = is ! n"
    using b Cons.prems(2) by (intro planRange_outside) auto
  finally show ?case by (simp only: planBlocks_Cons)
qed simp

text \<open>An index at or after the first start lies in one block, and the block is planned from the
  instructions the function had.\<close>

lemma planBlocks_nth:
  assumes "sorted_wrt (<) (first # starts)" "\<forall>b\<in>set (first # starts). b < length is" "first \<le> n" "n < length is"
  shows "\<exists>b stop. b \<in> set (first # starts) \<and> b \<le> n \<and> n < stop \<and> stop \<le> length is
    \<and> (\<forall>s\<in>set (first # starts). s \<le> b \<or> stop \<le> s) \<and> (stop = length is \<or> stop \<in> set starts)
    \<and> (\<forall>k. b \<le> k \<and> k < stop \<longrightarrow> planBlocks (first # starts) is ! k = planRange b stop is ! k)"
  using assms
proof (induction starts arbitrary: first "is")
  case Nil
  then show ?case by (intro exI [of _ first] exI [of _ "length is"]) (auto simp: planBlocks_Cons blockEnd_def)
next
  case (Cons second starts)
  define js where "js = planRange first second is"
  have l: "length js = length is"
    using Cons.prems by (simp add: js_def less_imp_le)
  have p: "planBlocks (first # second # starts) is = planBlocks (second # starts) js"
    by (simp add: js_def)
  show ?case
  proof (cases "n < second")
    case True
    have k: "planBlocks (second # starts) js ! k = js ! k" if "k < second" for k
      using Cons.prems that l by (intro planBlocks_before) auto
    show ?thesis
      unfolding p using Cons.prems True k
      by (intro exI [of _ first] exI [of _ second]) (auto simp: js_def less_imp_le)
  next
    case False
    then obtain b stop where b: "b \<in> set (second # starts)" "b \<le> n" "n < stop" "stop \<le> length is"
        "\<forall>s\<in>set (second # starts). s \<le> b \<or> stop \<le> s" "stop = length is \<or> stop \<in> set starts"
        "\<forall>k. b \<le> k \<and> k < stop \<longrightarrow> planBlocks (second # starts) js ! k = planRange b stop js ! k"
      using Cons.IH [of second js] Cons.prems l by auto
    have sb: "second \<le> b" using b(1) Cons.prems(1) by auto
    have same: "js ! k = is ! k" if "second \<le> k" "k < length is" for k
      unfolding js_def using that Cons.prems by (intro planRange_outside) (auto simp: less_imp_le)
    have "blockSlice b stop js = blockSlice b stop is"
      unfolding blockSlice_def using sb l b(4) same by (intro nth_equalityI) auto
    then have "planRange b stop js ! k = planRange b stop is ! k" if "b \<le> k" "k < stop" for k
      using that b(4) l by (simp add: planRange_inside)
    then have "\<forall>k. b \<le> k \<and> k < stop \<longrightarrow> planBlocks (second # starts) js ! k = planRange b stop is ! k"
      using b(7) by simp
    moreover have "first < second" using Cons.prems(1) by simp
    ultimately show ?thesis
      unfolding p
    proof (intro exI conjI)
      show "b \<in> set (first # second # starts)" using b(1) by simp
      show "b \<le> n" "n < stop" "stop \<le> length is" by (fact b)+
      show "\<forall>s\<in>set (first # second # starts). s \<le> b \<or> stop \<le> s" using b(5) sb \<open>first < second\<close> by auto
      show "stop = length is \<or> stop \<in> set (second # starts)" using b(6) by auto
    qed
  qed
qed

section \<open>Block starts\<close>

text \<open>Control may enter here other than from the instruction before: an entry point, the continuation
  of a branch, a gap in the addresses.\<close>

definition blockBoundary :: "instruction list \<Rightarrow> u32 set \<Rightarrow> nat \<Rightarrow> bool" where
  "blockBoundary is entries k \<longleftrightarrow> in_address (is ! k) \<in> entries
     \<or> (\<exists>m<length is. in_hasDelaySlot (is ! m) \<and> in_address (is ! k) = in_address (is ! m) + 8)
     \<or> k \<noteq> 0 \<and> in_address (is ! k) \<noteq> in_address (is ! (k - 1)) + 4"

definition blockStep :: "instruction list \<Rightarrow> nat \<Rightarrow> u32 set \<Rightarrow> u32 set" where
  "blockStep is index starts =
     (let i = is ! index;
          starts1 = (if in_hasDelaySlot i then insert (in_address i + 8) starts else starts)
      in if index \<noteq> 0 \<and> in_address i \<noteq> in_address (is ! (index - 1)) + 4
         then insert (in_address i) starts1 else starts1)"

lemma blockAddresses_fold:
  "blockAddresses is entries = fold (blockStep is) [0..<length is] (insert (in_address (hd is)) entries)"
  by (simp add: blockAddresses_def blockStep_def [abs_def])

lemma fold_blockStep_mono: "a \<in> starts \<Longrightarrow> a \<in> fold (blockStep is) ns starts"
  by (induction ns arbitrary: starts) (simp_all add: blockStep_def Let_def)

lemma fold_blockStep_member:
  "m \<in> set ns \<Longrightarrow> a \<in> blockStep is m {} \<Longrightarrow> a \<in> fold (blockStep is) ns starts"
proof (induction ns arbitrary: starts)
  case (Cons n ns)
  show ?case
  proof (cases "m = n")
    case True
    with Cons.prems(2) have "a \<in> blockStep is n starts"
      by (auto simp: blockStep_def Let_def split: if_splits)
    then show ?thesis by (simp add: fold_blockStep_mono)
  next
    case False
    with Cons show ?thesis by simp
  qed
qed simp

lemma boundary_in_addresses:
  assumes "k < length is" "blockBoundary is entries k"
  shows "in_address (is ! k) \<in> blockAddresses is entries"
  using assms(2) unfolding blockBoundary_def
proof (elim disjE exE conjE)
  assume "in_address (is ! k) \<in> entries"
  then show ?thesis unfolding blockAddresses_fold by (intro fold_blockStep_mono) simp
next
  fix m
  assume "m < length is" "in_hasDelaySlot (is ! m)" "in_address (is ! k) = in_address (is ! m) + 8"
  then show ?thesis
    unfolding blockAddresses_fold by (intro fold_blockStep_member [of m]) (auto simp: blockStep_def Let_def)
next
  assume "k \<noteq> 0" "in_address (is ! k) \<noteq> in_address (is ! (k - 1)) + 4"
  with assms(1) show ?thesis
    unfolding blockAddresses_fold by (intro fold_blockStep_member [of k]) (auto simp: blockStep_def Let_def)
qed

lemma findBlockStarts_shape:
  assumes "is \<noteq> []"
  obtains starts where "findBlockStarts is entries = 0 # starts" "sorted_wrt (<) (0 # starts)"
    "\<forall>b\<in>set (0 # starts). b < length is"
    "\<And>k. k < length is \<Longrightarrow> blockBoundary is entries k \<Longrightarrow> k \<in> set (0 # starts)"
proof -
  define result where
    "result = filter (\<lambda>k. in_address (is ! k) \<in> blockAddresses is entries) [0..<length is]"
  have s: "sorted_wrt (<) result"
    unfolding result_def by (intro sorted_wrt_filter) simp
  have f: "findBlockStarts is entries = (if result = [] \<or> hd result \<noteq> 0 then 0 # result else result)"
    using assms by (simp add: findBlockStarts_def Let_def result_def)
  have m: "k \<in> set result" if "k < length is" "blockBoundary is entries k" for k
    using boundary_in_addresses [OF that] that(1) by (simp add: result_def)
  have l: "\<forall>b\<in>set result. b < length is"
    by (simp add: result_def)
  show ?thesis
  proof (cases result)
    case Nil
    then show ?thesis by (intro that [of "[]"]) (use f m assms in auto)
  next
    case (Cons r rs)
    show ?thesis
    proof (cases "r = 0")
      case True
      then show ?thesis using that [of rs] f s l m Cons by simp
    next
      case False
      then have "\<forall>b\<in>set result. 0 < b" using s Cons by auto
      then show ?thesis using that [of result] f s l m Cons False assms by auto
    qed
  qed
qed

lemma findBlockStarts_reset:
  "findBlockStarts (map (\<lambda>i. i\<lparr>in_vu0SyncMode := m\<rparr>) is) entries = findBlockStarts is entries"
proof (cases "is = []")
  case False
  have step: "n < length is \<Longrightarrow> blockStep (map (\<lambda>i. i\<lparr>in_vu0SyncMode := m\<rparr>) is) n = blockStep is n" for n
    by (rule ext) (simp add: blockStep_def Let_def)
  have "fold (blockStep (map (\<lambda>i. i\<lparr>in_vu0SyncMode := m\<rparr>) is)) [0..<length is] s = fold (blockStep is) [0..<length is] s" for s
    using step by (intro fold_cong) auto
  then have a: "blockAddresses (map (\<lambda>i. i\<lparr>in_vu0SyncMode := m\<rparr>) is) entries = blockAddresses is entries"
    using False by (simp add: blockAddresses_fold hd_map)
  have "filter (\<lambda>k. in_address (map (\<lambda>i. i\<lparr>in_vu0SyncMode := m\<rparr>) is ! k) \<in> blockAddresses is entries) [0..<length is]
      = filter (\<lambda>k. in_address (is ! k) \<in> blockAddresses is entries) [0..<length is]"
    by (rule filter_cong) simp_all
  then show ?thesis
    using False by (simp add: findBlockStarts_def a)
qed (simp add: findBlockStarts_def)

section \<open>The plan of a function\<close>

lemma emitted_skip: "accessesVu0 i \<Longrightarrow> emittedSync i = Skip \<Longrightarrow> in_vu0SyncMode i = Skip"
  by (auto simp: emittedSync_def accessesVu0_def isVu0LoadStore_def OPCODE_LQC2_def OPCODE_SQC2_def Let_def split: if_splits)

lemma emitted_at_least:
  assumes "accessesVu0 i"
  shows "in_vu0SyncMode i \<noteq> Skip \<Longrightarrow> emittedSync i \<noteq> Skip" and "in_vu0SyncMode i = Finish \<Longrightarrow> emittedSync i = Finish"
  using assms
  by (auto simp: emittedSync_def accessesVu0_def isVu0LoadStore_def OPCODE_LQC2_def OPCODE_SQC2_def Let_def)

lemma accessesVu0_mode [simp]: "accessesVu0 (i\<lparr>in_vu0SyncMode := m\<rparr>) = accessesVu0 i"
  by (simp add: accessesVu0_def isVu0LoadStore_def)

lemma invalidatesVu0_mode [simp]: "invalidatesVu0 (i\<lparr>in_vu0SyncMode := m\<rparr>) = invalidatesVu0 i"
  by (simp add: invalidatesVu0_def isVu0Call_def isVu0MacroOperation_def isInterlockedTransfer_def isCop2Transfer_def)

lemma isInterlockedTransfer_mode [simp]: "isInterlockedTransfer (i\<lparr>in_vu0SyncMode := m\<rparr>) = isInterlockedTransfer i"
  by (simp add: isInterlockedTransfer_def isCop2Transfer_def)

text \<open>Where the plan of instruction \<open>n\<close> comes from.\<close>

lemma plan_nth:
  assumes "n < length is"
  obtains b stop where "b \<le> n" "n < stop" "stop \<le> length is"
    "\<And>k. b < k \<Longrightarrow> k < stop \<Longrightarrow> k \<notin> set (findBlockStarts is entries)"
    "b \<in> set (findBlockStarts is entries)" "stop < length is \<Longrightarrow> stop \<in> set (findBlockStarts is entries)"
    "\<And>k. b \<le> k \<Longrightarrow> k < stop \<Longrightarrow> applyVu0SyncPlan is entries ! k
       = planBlock (list_ex isInterlockedTransfer (blockSlice b stop is)) (True, True)
           (map (\<lambda>i. i\<lparr>in_vu0SyncMode := Synchronize\<rparr>) (blockSlice b stop is)) ! (k - b)"
proof -
  define reset where "reset = map (\<lambda>i. i\<lparr>in_vu0SyncMode := Synchronize\<rparr>) is"
  have "is \<noteq> []" using assms by auto
  then obtain starts where st: "findBlockStarts is entries = 0 # starts" "sorted_wrt (<) (0 # starts)"
      "\<forall>b\<in>set (0 # starts). b < length reset"
    by (rule findBlockStarts_shape [of "is" entries]) (simp add: reset_def)
  then obtain b stop where b: "b \<in> set (0 # starts)" "b \<le> n" "n < stop" "stop \<le> length reset"
      "\<forall>s\<in>set (0 # starts). s \<le> b \<or> stop \<le> s" "stop = length reset \<or> stop \<in> set starts"
      "\<forall>k. b \<le> k \<and> k < stop \<longrightarrow> planBlocks (0 # starts) reset ! k = planRange b stop reset ! k"
    using planBlocks_nth [OF st(2,3), of n] assms by (auto simp: reset_def)
  have sl: "blockSlice b stop reset = map (\<lambda>i. i\<lparr>in_vu0SyncMode := Synchronize\<rparr>) (blockSlice b stop is)"
    by (simp add: blockSlice_def reset_def take_map drop_map)
  have ex: "list_ex isInterlockedTransfer (blockSlice b stop reset) = list_ex isInterlockedTransfer (blockSlice b stop is)"
    unfolding sl by (simp add: list_ex_iff)
  show ?thesis
  proof (rule that [of b stop])
    show "b \<le> n" "n < stop" "stop \<le> length is" "b \<in> set (findBlockStarts is entries)"
      using b st(1) by (simp_all add: reset_def)
    show "k \<notin> set (findBlockStarts is entries)" if "b < k" "k < stop" for k
      using b(5) that st(1) by (metis leD)
    show "stop \<in> set (findBlockStarts is entries)" if "stop < length is"
      using b(6) that st(1) by (auto simp: reset_def)
    show "applyVu0SyncPlan is entries ! k
       = planBlock (list_ex isInterlockedTransfer (blockSlice b stop is)) (True, True)
           (map (\<lambda>i. i\<lparr>in_vu0SyncMode := Synchronize\<rparr>) (blockSlice b stop is)) ! (k - b)" if "b \<le> k" "k < stop" for k
    proof -
      have "findBlockStarts reset entries = 0 # starts"
        unfolding reset_def findBlockStarts_reset by (rule st(1))
      then have "applyVu0SyncPlan is entries = planBlocks (0 # starts) reset"
        by (simp only: applyVu0SyncPlan_def Let_def flip: reset_def)
      then show ?thesis
        using b(4,7) that by (simp only: planRange_inside sl ex [unfolded sl])
    qed
  qed
qed

text \<open>
  C24. In the plan of a function, a COP2 access or a VU0 load or store that is emitted without a
  synchronization call has an earlier access that is emitted with one; between the two there is no
  entry point, no continuation of a branch and no gap, and nothing in between, the access included,
  invalidates VU0 (a store that may start a DMA, a call of a microprogram, an interlocked transfer).
  If the block of the skipped access has an interlocked transfer, that earlier call finishes the
  microprogram. Planning changes nothing but the modes.
\<close>

theorem skip_backed_by_sync:
  assumes n: "n < length is" and a: "accessesVu0 (is ! n)"
    and skip: "emittedSync (applyVu0SyncPlan is entries ! n) = Skip"
  shows "\<exists>m<n. accessesVu0 (is ! m) \<and> emittedSync (applyVu0SyncPlan is entries ! m) \<noteq> Skip \<and> \<not> invalidatesVu0 (is ! m)
      \<and> (\<forall>k. m < k \<and> k \<le> n \<longrightarrow> \<not> blockBoundary is entries k \<and> \<not> invalidatesVu0 (is ! k))
      \<and> ((\<exists>k<length is. isInterlockedTransfer (is ! k)
             \<and> (\<forall>s\<in>set (findBlockStarts is entries). \<not> (min k n < s \<and> s \<le> max k n)))
           \<longrightarrow> emittedSync (applyVu0SyncPlan is entries ! m) = Finish)
      \<and> applyVu0SyncPlan is entries ! n = (is ! n)\<lparr>in_vu0SyncMode := Skip\<rparr>"
proof -
  obtain b stop where b: "b \<le> n" "n < stop" "stop \<le> length is" "b \<in> set (findBlockStarts is entries)"
      "stop < length is \<Longrightarrow> stop \<in> set (findBlockStarts is entries)"
      "\<And>k. b < k \<Longrightarrow> k < stop \<Longrightarrow> k \<notin> set (findBlockStarts is entries)"
      "\<And>k. b \<le> k \<Longrightarrow> k < stop \<Longrightarrow> applyVu0SyncPlan is entries ! k
         = planBlock (list_ex isInterlockedTransfer (blockSlice b stop is)) (True, True)
             (map (\<lambda>i. i\<lparr>in_vu0SyncMode := Synchronize\<rparr>) (blockSlice b stop is)) ! (k - b)"
    using n by (rule plan_nth) blast
  define bi where "bi = list_ex isInterlockedTransfer (blockSlice b stop is)"
  define block where "block = map (\<lambda>i. i\<lparr>in_vu0SyncMode := Synchronize\<rparr>) (blockSlice b stop is)"
  have len: "length block = stop - b"
    using b(3) by (simp add: block_def blockSlice_def)
  have nth: "block ! k = (is ! (b + k))\<lparr>in_vu0SyncMode := Synchronize\<rparr>" if "k < stop - b" for k
    using that b(3) by (simp add: block_def blockSlice_def)
  have plan: "applyVu0SyncPlan is entries ! (b + k) = planBlock bi (True, True) block ! k" if "k < stop - b" for k
    using b(7) [of "b + k"] that by (simp add: bi_def block_def)
  have inb: "n - b < stop - b" "b + (n - b) = n"
    using b(1,2) by simp_all
  obtain mode where mode: "applyVu0SyncPlan is entries ! n = (is ! n)\<lparr>in_vu0SyncMode := mode\<rparr>"
    using planBlock_only_mode [of "n - b" block bi "(True, True)"] plan [of "n - b"] nth [of "n - b"] inb len by auto
  have "mode = Skip"
    using emitted_skip [of "applyVu0SyncPlan is entries ! n"] a skip mode by simp
  then obtain j where j: "j < n - b" "backsSkip bi (block ! j) (planBlock bi (True, True) block ! j)"
      "\<forall>k. j < k \<and> k \<le> n - b \<longrightarrow> \<not> invalidatesVu0 (block ! k)"
  proof -
    have "\<forall>i\<in>set block. in_vu0SyncMode i = Synchronize"
      by (simp add: block_def)
    moreover have "in_vu0SyncMode (planBlock bi (True, True) block ! (n - b)) = Skip"
    proof -
      have e: "applyVu0SyncPlan is entries ! n = planBlock bi (True, True) block ! (n - b)"
        using plan [OF inb(1)] inb(2) by simp
      show ?thesis
        unfolding e [symmetric] mode \<open>mode = Skip\<close> by simp
    qed
    ultimately show thesis
      using planBlock_skip [of block "n - b" bi "(True, True)"] inb(1) len that by auto
  qed
  define m where "m = b + j"
  have jb: "j < stop - b" using j(1) inb by simp
  obtain mm where mm: "applyVu0SyncPlan is entries ! m = (is ! m)\<lparr>in_vu0SyncMode := mm\<rparr>"
    using planBlock_only_mode [of j block bi "(True, True)"] plan [OF jb] nth [OF jb] jb len by (auto simp: m_def)
  have backed: "accessesVu0 (is ! m)" "\<not> invalidatesVu0 (is ! m)" "mm \<noteq> Skip" "bi \<longrightarrow> mm = Finish"
    using j(2) plan [OF jb] nth [OF jb] mm by (auto simp: backsSkip_def m_def)
  have quiet: "\<not> blockBoundary is entries k \<and> \<not> invalidatesVu0 (is ! k)" if "m < k" "k \<le> n" for k
  proof
    have "k \<notin> set (findBlockStarts is entries)"
      using b(6) [of k] that b(2) by (simp add: m_def)
    moreover have "is \<noteq> []" using n by auto
    ultimately show "\<not> blockBoundary is entries k"
      using that n by (metis findBlockStarts_shape le_less_trans)
    show "\<not> invalidatesVu0 (is ! k)"
    proof -
      have "j < k - b" "k - b \<le> n - b" "k - b < stop - b" "b + (k - b) = k"
        using that b(2) by (simp_all add: m_def)
      then show ?thesis using j(3) [rule_format, of "k - b"] nth [of "k - b"] by simp
    qed
  qed
  have "bi" if "k < length is" "isInterlockedTransfer (is ! k)"
      "\<forall>s\<in>set (findBlockStarts is entries). \<not> (min k n < s \<and> s \<le> max k n)" for k
  proof -
    have "b \<le> k" using that(3) b(1,4) by fastforce
    moreover have "k < stop"
      using that(1,3) b(2,5) by (metis (no_types) leI le_less_trans less_max_iff_disj max.cobounded1 min_less_iff_disj)
    ultimately have "k - b < length (blockSlice b stop is)" "blockSlice b stop is ! (k - b) = is ! k"
      using b(3) by (simp_all add: blockSlice_def)
    then show bi
      using that(2) unfolding bi_def list_ex_iff by (metis nth_mem)
  qed
  then show ?thesis
    using backed quiet mode \<open>mode = Skip\<close> mm j(1) emitted_at_least [of "applyVu0SyncPlan is entries ! m"] inb(2)
    by (intro exI [of _ m]) (auto simp: m_def)
qed

text \<open>An interlocked transfer, a macro operation that finishes the microprogram, and a plain transfer
  behind it: the last is skipped although its block is interlocked.\<close>

definition interlockedBlock :: "instruction list" where
  "interlockedBlock =
     [newInstruction\<lparr>in_address := 0x1000, in_raw := 1, in_opcode := OPCODE_COP2, in_rs := COP2_QMFC2, in_rt := 4\<rparr>,
      newInstruction\<lparr>in_address := 0x1004, in_opcode := OPCODE_COP2, in_rs := COP2_CO\<rparr>,
      newInstruction\<lparr>in_address := 0x1008, in_opcode := OPCODE_COP2, in_rs := COP2_QMTC2, in_rt := 5\<rparr>]"

theorem skip_backed_by_sync_witness:
  "emittedSync (applyVu0SyncPlan interlockedBlock {0x1000} ! 2) = Skip
   \<and> (\<exists>m<2. emittedSync (applyVu0SyncPlan interlockedBlock {0x1000} ! m) \<noteq> Skip
        \<and> \<not> invalidatesVu0 (interlockedBlock ! m))"
proof -
  have n: "2 < length interlockedBlock" by (simp add: interlockedBlock_def)
  have a: "accessesVu0 (interlockedBlock ! 2)" by code_simp
  have s: "emittedSync (applyVu0SyncPlan interlockedBlock {0x1000} ! 2) = Skip" by code_simp
  show ?thesis using skip_backed_by_sync [OF n a s] s by blast
qed

end
