(* ===== verification/GsMemory.thy ===== *)
theory GsMemory
  imports Prelude
begin

text \<open>
  \<open>ps2xRuntime/include/runtime/ps2_gs_memory.h\<close> and \<open>src/lib/ps2_gs_memory.cpp\<close>: where a pixel of a
  graphics-synthesizer buffer lies in the 4 MiB of local memory, and how it is read and written.
  A value the code computes in \<open>size_t\<close> and cuts to 32 bits is computed in 32 bits. The memory is a
  function from byte addresses; \<open>memcpy\<close> of an integer is little-endian, as on the hosts the program
  supports. A page lookup table is the function the array holds after \<open>InitLookupTables\<close>. Enum values
  that have no name take the paths of \<open>PsmMax\<close>.
\<close>

unbundle bit_operations_syntax

section \<open>Storage modes\<close>

datatype PixelStorageMode =
  C32 | C24 | C16 | C16S | P8 | P4 | P8H | P4HL | P4HH | Z32 | Z24 | Z16 | Z16S | PsmMax

definition MEMORY_SIZE :: u32 where "MEMORY_SIZE = 0x400000"
definition BLOCKS_PER_PAGE :: u32 where "BLOCKS_PER_PAGE = 32"

record extent_2d =
  ex_x :: u32
  ex_y :: u32

record pixel_address =
  pa_word_index :: u32
  pa_bit_shift :: u32
  pa_packed_bit_width :: u32

fun IsValidPsm :: "PixelStorageMode \<Rightarrow> bool" where
  "IsValidPsm PsmMax = False"
| "IsValidPsm _ = True"

fun UnpackedBitWidth :: "PixelStorageMode \<Rightarrow> u32" where
  "UnpackedBitWidth C16 = 16"
| "UnpackedBitWidth C16S = 16"
| "UnpackedBitWidth Z16 = 16"
| "UnpackedBitWidth Z16S = 16"
| "UnpackedBitWidth P8 = 8"
| "UnpackedBitWidth P4 = 4"
| "UnpackedBitWidth _ = 32"

fun BitsPerPixel :: "PixelStorageMode \<Rightarrow> u32" where
  "BitsPerPixel C24 = 24"
| "BitsPerPixel Z24 = 24"
| "BitsPerPixel C16 = 16"
| "BitsPerPixel C16S = 16"
| "BitsPerPixel Z16 = 16"
| "BitsPerPixel Z16S = 16"
| "BitsPerPixel P8 = 8"
| "BitsPerPixel P8H = 8"
| "BitsPerPixel P4 = 4"
| "BitsPerPixel P4HH = 4"
| "BitsPerPixel P4HL = 4"
| "BitsPerPixel _ = 32"

fun IsDepth :: "PixelStorageMode \<Rightarrow> bool" where
  "IsDepth Z16 = True"
| "IsDepth Z16S = True"
| "IsDepth Z24 = True"
| "IsDepth Z32 = True"
| "IsDepth _ = False"

definition IsColor :: "PixelStorageMode \<Rightarrow> bool" where
  "IsColor psm = (\<not> IsDepth psm)"

fun IsPaletted :: "PixelStorageMode \<Rightarrow> bool" where
  "IsPaletted P8 = True"
| "IsPaletted P8H = True"
| "IsPaletted P4 = True"
| "IsPaletted P4HL = True"
| "IsPaletted P4HH = True"
| "IsPaletted _ = False"

text \<open>\<open>sizeof(BitStorageHelper<BitsPerPixel(psm)>::Type)\<close>.\<close>

definition packedBytes :: "PixelStorageMode \<Rightarrow> nat" where
  "packedBytes psm =
     (if BitsPerPixel psm = 4 then 1 else if BitsPerPixel psm = 8 then 1
      else if BitsPerPixel psm = 16 then 2 else 4)"

section \<open>Extents\<close>

fun PageExtent :: "PixelStorageMode \<Rightarrow> extent_2d" where
  "PageExtent C16 = \<lparr>ex_x = 64, ex_y = 64\<rparr>"
| "PageExtent C16S = \<lparr>ex_x = 64, ex_y = 64\<rparr>"
| "PageExtent Z16 = \<lparr>ex_x = 64, ex_y = 64\<rparr>"
| "PageExtent Z16S = \<lparr>ex_x = 64, ex_y = 64\<rparr>"
| "PageExtent P8 = \<lparr>ex_x = 128, ex_y = 64\<rparr>"
| "PageExtent P4 = \<lparr>ex_x = 128, ex_y = 128\<rparr>"
| "PageExtent _ = \<lparr>ex_x = 64, ex_y = 32\<rparr>"

fun BlockExtent :: "PixelStorageMode \<Rightarrow> extent_2d" where
  "BlockExtent C16 = \<lparr>ex_x = 4, ex_y = 8\<rparr>"
| "BlockExtent C16S = \<lparr>ex_x = 4, ex_y = 8\<rparr>"
| "BlockExtent Z16 = \<lparr>ex_x = 4, ex_y = 8\<rparr>"
| "BlockExtent Z16S = \<lparr>ex_x = 4, ex_y = 8\<rparr>"
| "BlockExtent P4 = \<lparr>ex_x = 4, ex_y = 8\<rparr>"
| "BlockExtent PsmMax = \<lparr>ex_x = 0, ex_y = 0\<rparr>"
| "BlockExtent _ = \<lparr>ex_x = 8, ex_y = 4\<rparr>"

fun ColumnExtent :: "PixelStorageMode \<Rightarrow> extent_2d" where
  "ColumnExtent C16 = \<lparr>ex_x = 16, ex_y = 8\<rparr>"
| "ColumnExtent C16S = \<lparr>ex_x = 16, ex_y = 8\<rparr>"
| "ColumnExtent Z16 = \<lparr>ex_x = 16, ex_y = 8\<rparr>"
| "ColumnExtent Z16S = \<lparr>ex_x = 16, ex_y = 8\<rparr>"
| "ColumnExtent P8 = \<lparr>ex_x = 16, ex_y = 16\<rparr>"
| "ColumnExtent P4 = \<lparr>ex_x = 32, ex_y = 16\<rparr>"
| "ColumnExtent PsmMax = \<lparr>ex_x = 0, ex_y = 0\<rparr>"
| "ColumnExtent _ = \<lparr>ex_x = 8, ex_y = 8\<rparr>"

definition BlocksPerPage :: "PixelStorageMode \<Rightarrow> u32" where
  "BlocksPerPage psm = ex_x (BlockExtent psm) * ex_y (BlockExtent psm)"

definition PixelsPerBlock :: "PixelStorageMode \<Rightarrow> u32" where
  "PixelsPerBlock psm = ex_x (ColumnExtent psm) * ex_y (ColumnExtent psm)"

definition PixelsPerPage :: "PixelStorageMode \<Rightarrow> u32" where
  "PixelsPerPage psm = ex_x (PageExtent psm) * ex_y (PageExtent psm)"

fun BitOffset :: "PixelStorageMode \<Rightarrow> u32" where
  "BitOffset P8H = 24"
| "BitOffset P4HL = 24"
| "BitOffset P4HH = 28"
| "BitOffset _ = 0"

section \<open>Block and column tables\<close>

definition BlockTableC32 :: "nat list list" where
  "BlockTableC32 =
    [[0, 1, 4, 5, 16, 17, 20, 21],
     [2, 3, 6, 7, 18, 19, 22, 23],
     [8, 9, 12, 13, 24, 25, 28, 29],
     [10, 11, 14, 15, 26, 27, 30, 31]]"

definition BlockTableZ32 :: "nat list list" where
  "BlockTableZ32 =
    [[24, 25, 28, 29, 8, 9, 12, 13],
     [26, 27, 30, 31, 10, 11, 14, 15],
     [16, 17, 20, 21, 0, 1, 4, 5],
     [18, 19, 22, 23, 2, 3, 6, 7]]"

definition BlockTableC16 :: "nat list list" where
  "BlockTableC16 =
    [[0, 2, 8, 10],
     [1, 3, 9, 11],
     [4, 6, 12, 14],
     [5, 7, 13, 15],
     [16, 18, 24, 26],
     [17, 19, 25, 27],
     [20, 22, 28, 30],
     [21, 23, 29, 31]]"

definition BlockTableC16S :: "nat list list" where
  "BlockTableC16S =
    [[0, 2, 16, 18],
     [1, 3, 17, 19],
     [8, 10, 24, 26],
     [9, 11, 25, 27],
     [4, 6, 20, 22],
     [5, 7, 21, 23],
     [12, 14, 28, 30],
     [13, 15, 29, 31]]"

definition BlockTableZ16 :: "nat list list" where
  "BlockTableZ16 =
    [[24, 26, 16, 18],
     [25, 27, 17, 19],
     [28, 30, 20, 22],
     [29, 31, 21, 23],
     [8, 10, 0, 2],
     [9, 11, 1, 3],
     [12, 14, 4, 6],
     [13, 15, 5, 7]]"

definition BlockTableZ16S :: "nat list list" where
  "BlockTableZ16S =
    [[24, 26, 8, 10],
     [25, 27, 9, 11],
     [16, 18, 0, 2],
     [17, 19, 1, 3],
     [28, 30, 12, 14],
     [29, 31, 13, 15],
     [20, 22, 4, 6],
     [21, 23, 5, 7]]"

definition BlockTableP8 :: "nat list list" where
  "BlockTableP8 =
    [[0, 1, 4, 5, 16, 17, 20, 21],
     [2, 3, 6, 7, 18, 19, 22, 23],
     [8, 9, 12, 13, 24, 25, 28, 29],
     [10, 11, 14, 15, 26, 27, 30, 31]]"

definition BlockTableP4 :: "nat list list" where
  "BlockTableP4 =
    [[0, 2, 8, 10],
     [1, 3, 9, 11],
     [4, 6, 12, 14],
     [5, 7, 13, 15],
     [16, 18, 24, 26],
     [17, 19, 25, 27],
     [20, 22, 28, 30],
     [21, 23, 29, 31]]"

definition ColumnTable32 :: "nat list list" where
  "ColumnTable32 =
    [[0, 1, 4, 5, 8, 9, 12, 13],
     [2, 3, 6, 7, 10, 11, 14, 15],
     [16, 17, 20, 21, 24, 25, 28, 29],
     [18, 19, 22, 23, 26, 27, 30, 31],
     [32, 33, 36, 37, 40, 41, 44, 45],
     [34, 35, 38, 39, 42, 43, 46, 47],
     [48, 49, 52, 53, 56, 57, 60, 61],
     [50, 51, 54, 55, 58, 59, 62, 63]]"

definition ColumnTable16 :: "nat list list" where
  "ColumnTable16 =
    [[0, 2, 8, 10, 16, 18, 24, 26, 1, 3, 9, 11, 17, 19, 25, 27],
     [4, 6, 12, 14, 20, 22, 28, 30, 5, 7, 13, 15, 21, 23, 29, 31],
     [32, 34, 40, 42, 48, 50, 56, 58, 33, 35, 41, 43, 49, 51, 57, 59],
     [36, 38, 44, 46, 52, 54, 60, 62, 37, 39, 45, 47, 53, 55, 61, 63],
     [64, 66, 72, 74, 80, 82, 88, 90, 65, 67, 73, 75, 81, 83, 89, 91],
     [68, 70, 76, 78, 84, 86, 92, 94, 69, 71, 77, 79, 85, 87, 93, 95],
     [96, 98, 104, 106, 112, 114, 120, 122, 97, 99, 105, 107, 113, 115, 121, 123],
     [100, 102, 108, 110, 116, 118, 124, 126, 101, 103, 109, 111, 117, 119, 125, 127]]"

definition ColumnTable8 :: "nat list list" where
  "ColumnTable8 =
    [[0, 4, 16, 20, 32, 36, 48, 52, 2, 6, 18, 22, 34, 38, 50, 54],
     [8, 12, 24, 28, 40, 44, 56, 60, 10, 14, 26, 30, 42, 46, 58, 62],
     [33, 37, 49, 53, 1, 5, 17, 21, 35, 39, 51, 55, 3, 7, 19, 23],
     [41, 45, 57, 61, 9, 13, 25, 29, 43, 47, 59, 63, 11, 15, 27, 31],
     [96, 100, 112, 116, 64, 68, 80, 84, 98, 102, 114, 118, 66, 70, 82, 86],
     [104, 108, 120, 124, 72, 76, 88, 92, 106, 110, 122, 126, 74, 78, 90, 94],
     [65, 69, 81, 85, 97, 101, 113, 117, 67, 71, 83, 87, 99, 103, 115, 119],
     [73, 77, 89, 93, 105, 109, 121, 125, 75, 79, 91, 95, 107, 111, 123, 127],
     [128, 132, 144, 148, 160, 164, 176, 180, 130, 134, 146, 150, 162, 166, 178, 182],
     [136, 140, 152, 156, 168, 172, 184, 188, 138, 142, 154, 158, 170, 174, 186, 190],
     [161, 165, 177, 181, 129, 133, 145, 149, 163, 167, 179, 183, 131, 135, 147, 151],
     [169, 173, 185, 189, 137, 141, 153, 157, 171, 175, 187, 191, 139, 143, 155, 159],
     [224, 228, 240, 244, 192, 196, 208, 212, 226, 230, 242, 246, 194, 198, 210, 214],
     [232, 236, 248, 252, 200, 204, 216, 220, 234, 238, 250, 254, 202, 206, 218, 222],
     [193, 197, 209, 213, 225, 229, 241, 245, 195, 199, 211, 215, 227, 231, 243, 247],
     [201, 205, 217, 221, 233, 237, 249, 253, 203, 207, 219, 223, 235, 239, 251, 255]]"

definition ColumnTable4 :: "nat list list" where
  "ColumnTable4 =
    [[0, 8, 32, 40, 64, 72, 96, 104, 2, 10, 34, 42, 66, 74, 98, 106,
      4, 12, 36, 44, 68, 76, 100, 108, 6, 14, 38, 46, 70, 78, 102, 110],
     [16, 24, 48, 56, 80, 88, 112, 120, 18, 26, 50, 58, 82, 90, 114, 122,
      20, 28, 52, 60, 84, 92, 116, 124, 22, 30, 54, 62, 86, 94, 118, 126],
     [65, 73, 97, 105, 1, 9, 33, 41, 67, 75, 99, 107, 3, 11, 35, 43,
      69, 77, 101, 109, 5, 13, 37, 45, 71, 79, 103, 111, 7, 15, 39, 47],
     [81, 89, 113, 121, 17, 25, 49, 57, 83, 91, 115, 123, 19, 27, 51, 59,
      85, 93, 117, 125, 21, 29, 53, 61, 87, 95, 119, 127, 23, 31, 55, 63],
     [192, 200, 224, 232, 128, 136, 160, 168, 194, 202, 226, 234, 130, 138, 162, 170,
      196, 204, 228, 236, 132, 140, 164, 172, 198, 206, 230, 238, 134, 142, 166, 174],
     [208, 216, 240, 248, 144, 152, 176, 184, 210, 218, 242, 250, 146, 154, 178, 186,
      212, 220, 244, 252, 148, 156, 180, 188, 214, 222, 246, 254, 150, 158, 182, 190],
     [129, 137, 161, 169, 193, 201, 225, 233, 131, 139, 163, 171, 195, 203, 227, 235,
      133, 141, 165, 173, 197, 205, 229, 237, 135, 143, 167, 175, 199, 207, 231, 239],
     [145, 153, 177, 185, 209, 217, 241, 249, 147, 155, 179, 187, 211, 219, 243, 251,
      149, 157, 181, 189, 213, 221, 245, 253, 151, 159, 183, 191, 215, 223, 247, 255],
     [256, 264, 288, 296, 320, 328, 352, 360, 258, 266, 290, 298, 322, 330, 354, 362,
      260, 268, 292, 300, 324, 332, 356, 364, 262, 270, 294, 302, 326, 334, 358, 366],
     [272, 280, 304, 312, 336, 344, 368, 376, 274, 282, 306, 314, 338, 346, 370, 378,
      276, 284, 308, 316, 340, 348, 372, 380, 278, 286, 310, 318, 342, 350, 374, 382],
     [321, 329, 353, 361, 257, 265, 289, 297, 323, 331, 355, 363, 259, 267, 291, 299,
      325, 333, 357, 365, 261, 269, 293, 301, 327, 335, 359, 367, 263, 271, 295, 303],
     [337, 345, 369, 377, 273, 281, 305, 313, 339, 347, 371, 379, 275, 283, 307, 315,
      341, 349, 373, 381, 277, 285, 309, 317, 343, 351, 375, 383, 279, 287, 311, 319],
     [448, 456, 480, 488, 384, 392, 416, 424, 450, 458, 482, 490, 386, 394, 418, 426,
      452, 460, 484, 492, 388, 396, 420, 428, 454, 462, 486, 494, 390, 398, 422, 430],
     [464, 472, 496, 504, 400, 408, 432, 440, 466, 474, 498, 506, 402, 410, 434, 442,
      468, 476, 500, 508, 404, 412, 436, 444, 470, 478, 502, 510, 406, 414, 438, 446],
     [385, 393, 417, 425, 449, 457, 481, 489, 387, 395, 419, 427, 451, 459, 483, 491,
      389, 397, 421, 429, 453, 461, 485, 493, 391, 399, 423, 431, 455, 463, 487, 495],
     [401, 409, 433, 441, 465, 473, 497, 505, 403, 411, 435, 443, 467, 475, 499, 507,
      405, 413, 437, 445, 469, 477, 501, 509, 407, 415, 439, 447, 471, 479, 503, 511]]"

section \<open>Addresses\<close>

definition tableAt :: "nat list list \<Rightarrow> u32 \<Rightarrow> u32 \<Rightarrow> u32" where
  "tableAt table x y = of_nat (table ! unat y ! unat x)"

definition ColumnId :: "PixelStorageMode \<Rightarrow> nat list list \<Rightarrow> u32 \<Rightarrow> u32 \<Rightarrow> u32" where
  "ColumnId psm table x y =
     (let extent = ColumnExtent psm in tableAt table (x mod ex_x extent) (y mod ex_y extent))"

definition BlockId :: "PixelStorageMode \<Rightarrow> nat list list \<Rightarrow> u32 \<Rightarrow> u32 \<Rightarrow> u32" where
  "BlockId psm table x y =
     (let block_extent = BlockExtent psm; column_extent = ColumnExtent psm
      in tableAt table ((x div ex_x column_extent) mod ex_x block_extent)
           ((y div ex_y column_extent) mod ex_y block_extent))"

definition PageId :: "PixelStorageMode \<Rightarrow> u32 \<Rightarrow> u32 \<Rightarrow> u32 \<Rightarrow> u32 \<Rightarrow> u32" where
  "PageId psm base bw x y =
     (let page_extent = PageExtent psm;
          base_page = base div BlocksPerPage psm;
          row = (y div ex_y page_extent) * ((bw * 64) div ex_x page_extent);
          col = x div ex_x page_extent
      in base_page + row + col)"

type_synonym page_table = "u32 \<Rightarrow> u32 \<Rightarrow> u32 \<Rightarrow> u16"

text \<open>The entry of block \<open>block\<close>, row \<open>y\<close>, column \<open>x\<close>; an entry has 16 bits.\<close>

definition InitPageLookupTable :: "PixelStorageMode \<Rightarrow> nat list list \<Rightarrow> nat list list \<Rightarrow> page_table" where
  "InitPageLookupTable psm block_table column_table =
     (\<lambda>block y x. ucast ((block + BlockId psm block_table x y) * PixelsPerBlock psm + ColumnId psm column_table x y))"

definition Address :: "PixelStorageMode \<Rightarrow> page_table \<Rightarrow> u32 \<Rightarrow> u32 \<Rightarrow> u32 \<Rightarrow> u32 \<Rightarrow> u32" where
  "Address psm table block bw x y =
     (let page_extent = PageExtent psm; page = PageId psm block bw x y
      in page * PixelsPerPage psm
         + ucast (table (block mod BlocksPerPage psm) (y mod ex_y page_extent) (x mod ex_x page_extent)))"

section \<open>Reading and writing a pixel\<close>

type_synonym gs_memory = "nat \<Rightarrow> u8"

primrec loadLe :: "nat \<Rightarrow> gs_memory \<Rightarrow> nat \<Rightarrow> u32" where
  "loadLe 0 data a = 0"
| "loadLe (Suc n) data a = ucast (data a) OR push_bit 8 (loadLe n data (Suc a))"

primrec storeLe :: "nat \<Rightarrow> gs_memory \<Rightarrow> nat \<Rightarrow> u32 \<Rightarrow> gs_memory" where
  "storeLe 0 data a v = data"
| "storeLe (Suc n) data a v = storeLe n (data(a := ucast v)) (Suc a) (drop_bit 8 v)"

definition byteAddress :: "PixelStorageMode \<Rightarrow> u32 \<Rightarrow> nat" where
  "byteAddress psm bits = unat ((bits div 8) AND (MEMORY_SIZE - of_nat (packedBytes psm)))"

definition gs_Write ::
  "PixelStorageMode \<Rightarrow> page_table \<Rightarrow> gs_memory \<Rightarrow> u32 \<Rightarrow> u32 \<Rightarrow> u32 \<Rightarrow> u32 \<Rightarrow> u32 \<Rightarrow> gs_memory" where
  "gs_Write psm table data block bw x y v =
     (let pixel_addr = Address psm table block bw x y;
          bits = pixel_addr * UnpackedBitWidth psm + BitOffset psm;
          byte_addr = byteAddress psm bits;
          shift = unat (bits mod 8);
          n = packedBytes psm;
          packed = take_bit (8 * n) v;
          old = loadLe n data byte_addr
      in if psm \<in> {C32, Z32, C16, C16S, Z16, Z16S, P8, P8H} then storeLe n data byte_addr packed
         else if psm \<in> {C24, Z24} then
           storeLe n data byte_addr ((old AND 0xFF000000) OR (packed AND 0x00FFFFFF))
         else if psm \<in> {P4, P4HL, P4HH} then
           storeLe n data byte_addr ((old AND NOT (push_bit shift 0x0F)) OR push_bit shift (packed AND 0x0F))
         else data)"

definition gs_Read ::
  "PixelStorageMode \<Rightarrow> page_table \<Rightarrow> gs_memory \<Rightarrow> u32 \<Rightarrow> u32 \<Rightarrow> u32 \<Rightarrow> u32 \<Rightarrow> u32" where
  "gs_Read psm table data block bw x y =
     (let pixel_addr = Address psm table block bw x y;
          bits = pixel_addr * UnpackedBitWidth psm + BitOffset psm;
          byte_addr = byteAddress psm bits;
          shift = unat (bits mod 8);
          v = loadLe (packedBytes psm) data byte_addr
      in if psm \<in> {C32, Z32, C16, C16S, Z16, Z16S, P8, P8H} then v
         else if psm \<in> {C24, Z24} then v AND 0x00FFFFFF
         else if psm \<in> {P4, P4HL, P4HH} then drop_bit shift v AND 0x0F
         else 0xFFFF00FF)"

text \<open>The tables \<open>InitLookupTables\<close> fills, and the one each of \<open>WriteCT32\<close> to \<open>ReadP4HH\<close> passes on.\<close>

fun pageTable :: "PixelStorageMode \<Rightarrow> page_table" where
  "pageTable Z32 = InitPageLookupTable Z32 BlockTableZ32 ColumnTable32"
| "pageTable Z24 = InitPageLookupTable Z32 BlockTableZ32 ColumnTable32"
| "pageTable C16 = InitPageLookupTable C16 BlockTableC16 ColumnTable16"
| "pageTable C16S = InitPageLookupTable C16S BlockTableC16S ColumnTable16"
| "pageTable Z16 = InitPageLookupTable Z16 BlockTableZ16 ColumnTable16"
| "pageTable Z16S = InitPageLookupTable Z16S BlockTableZ16S ColumnTable16"
| "pageTable P8 = InitPageLookupTable P8 BlockTableP8 ColumnTable8"
| "pageTable P4 = InitPageLookupTable P4 BlockTableP4 ColumnTable4"
| "pageTable _ = InitPageLookupTable C32 BlockTableC32 ColumnTable32"

definition writePixel ::
  "PixelStorageMode \<Rightarrow> gs_memory \<Rightarrow> u32 \<Rightarrow> u32 \<Rightarrow> u32 \<Rightarrow> u32 \<Rightarrow> u32 \<Rightarrow> gs_memory" where
  "writePixel psm = gs_Write psm (pageTable psm)"

definition readPixel :: "PixelStorageMode \<Rightarrow> gs_memory \<Rightarrow> u32 \<Rightarrow> u32 \<Rightarrow> u32 \<Rightarrow> u32 \<Rightarrow> u32" where
  "readPixel psm = gs_Read psm (pageTable psm)"

section \<open>The compact address\<close>

definition ResolvePixelAddressImpl ::
  "PixelStorageMode \<Rightarrow> nat list list \<Rightarrow> nat list list \<Rightarrow> u32 \<Rightarrow> u32 \<Rightarrow> u32 \<Rightarrow> u32 \<Rightarrow> pixel_address" where
  "ResolvePixelAddressImpl psm blockTable columnTable bp bw x y =
     (let page = PageId psm bp bw x y;
          pixel = page * PixelsPerPage psm
            + (bp mod BlocksPerPage psm + BlockId psm blockTable x y) * PixelsPerBlock psm
            + ColumnId psm columnTable x y;
          bitAddress = pixel * UnpackedBitWidth psm + BitOffset psm
      in \<lparr>pa_word_index = (bitAddress div 32) AND (MEMORY_SIZE div 4 - 1),
          pa_bit_shift = bitAddress mod 32,
          pa_packed_bit_width = BitsPerPixel psm\<rparr>)"

fun ResolvePixelAddress :: "PixelStorageMode \<Rightarrow> u32 \<Rightarrow> u32 \<Rightarrow> u32 \<Rightarrow> u32 \<Rightarrow> pixel_address \<times> bool" where
  "ResolvePixelAddress C32 bp bw x y = (ResolvePixelAddressImpl C32 BlockTableC32 ColumnTable32 bp bw x y, True)"
| "ResolvePixelAddress C24 bp bw x y = (ResolvePixelAddressImpl C24 BlockTableC32 ColumnTable32 bp bw x y, True)"
| "ResolvePixelAddress C16 bp bw x y = (ResolvePixelAddressImpl C16 BlockTableC16 ColumnTable16 bp bw x y, True)"
| "ResolvePixelAddress C16S bp bw x y = (ResolvePixelAddressImpl C16S BlockTableC16S ColumnTable16 bp bw x y, True)"
| "ResolvePixelAddress P8 bp bw x y = (ResolvePixelAddressImpl P8 BlockTableP8 ColumnTable8 bp bw x y, True)"
| "ResolvePixelAddress P4 bp bw x y = (ResolvePixelAddressImpl P4 BlockTableP4 ColumnTable4 bp bw x y, True)"
| "ResolvePixelAddress P8H bp bw x y = (ResolvePixelAddressImpl P8H BlockTableC32 ColumnTable32 bp bw x y, True)"
| "ResolvePixelAddress P4HL bp bw x y = (ResolvePixelAddressImpl P4HL BlockTableC32 ColumnTable32 bp bw x y, True)"
| "ResolvePixelAddress P4HH bp bw x y = (ResolvePixelAddressImpl P4HH BlockTableC32 ColumnTable32 bp bw x y, True)"
| "ResolvePixelAddress Z32 bp bw x y = (ResolvePixelAddressImpl Z32 BlockTableZ32 ColumnTable32 bp bw x y, True)"
| "ResolvePixelAddress Z24 bp bw x y = (ResolvePixelAddressImpl Z24 BlockTableZ32 ColumnTable32 bp bw x y, True)"
| "ResolvePixelAddress Z16 bp bw x y = (ResolvePixelAddressImpl Z16 BlockTableZ16 ColumnTable16 bp bw x y, True)"
| "ResolvePixelAddress Z16S bp bw x y = (ResolvePixelAddressImpl Z16S BlockTableZ16S ColumnTable16 bp bw x y, True)"
| "ResolvePixelAddress PsmMax bp bw x y =
     (\<lparr>pa_word_index = 0, pa_bit_shift = 0, pa_packed_bit_width = 0\<rparr>, False)"

end
