(* ===== verification/GsMemoryFacts.thy ===== *)
theory GsMemoryFacts
  imports GsMemory "HOL-Library.Multiset"
begin

text \<open>
  Arithmetic of GS addresses over the naturals, and the packed 4-, 8-, 16-, 24- and 32-bit accesses
  as masked accesses to 32-bit storage words.
\<close>

section \<open>Bytes and storage words\<close>

lemma bit_loadLe: "n \<le> 4 \<Longrightarrow> bit (loadLe n data a) k \<longleftrightarrow> k < 8 * n \<and> bit (data (a + k div 8)) (k mod 8)"
proof (induction n arbitrary: a k)
  case (Suc n)
  show ?case
  proof (cases "k < 8")
    case True
    then show ?thesis using Suc.prems by (auto simp: bit_simps)
  next
    case False
    then have "k div 8 = Suc ((k - 8) div 8)" "k mod 8 = (k - 8) mod 8"
      by (simp_all add: le_div_geq le_mod_geq)
    moreover have "k < 8 * Suc n \<longleftrightarrow> k - 8 < 8 * n"
      using False by auto
    moreover have "\<not> bit (data a) k"
      using False bit_imp_le_length [of "data a" k] by auto
    moreover have "k - 8 < 8 * n \<Longrightarrow> k < 32"
      using Suc.prems by linarith
    ultimately show ?thesis
      using Suc.IH [of "Suc a" "k - 8"] Suc.prems False by (auto simp: bit_simps)
  qed
qed simp

lemma storeLe_byte:
  "storeLe n data a v b = (if a \<le> b \<and> b < a + n then ucast (drop_bit (8 * (b - a)) v) else data b)"
proof (induction n arbitrary: data a v b)
  case (Suc n)
  consider "b = a" | "b < a" | "a < b" by linarith
  then show ?case
  proof cases
    case 3
    then have "8 * (b - a) = 8 * (b - Suc a) + 8" by simp
    then show ?thesis using 3 by (simp add: Suc.IH drop_bit_drop_bit)
  qed (simp_all add: Suc.IH)
qed auto

definition storageWord :: "gs_memory \<Rightarrow> nat \<Rightarrow> u32" where
  "storageWord data w = loadLe 4 data (4 * w)"

lemma bit_storageWord: "bit (storageWord data w) k \<longleftrightarrow> k < 32 \<and> bit (data (4 * w + k div 8)) (k mod 8)"
  by (simp add: storageWord_def bit_loadLe)

text \<open>A packed load at byte \<open>4 w + s div 8\<close> reads the storage word from bit \<open>s\<close> rounded down to a byte.\<close>

lemma packed_load:
  assumes "s div 8 + n \<le> 4"
  shows "loadLe n data (4 * w + s div 8) = take_bit (8 * n) (drop_bit (8 * (s div 8)) (storageWord data w))"
proof (rule bit_word_eqI)
  fix k
  assume "k < LENGTH(32)"
  have "k < 8 * n \<Longrightarrow> 8 * (s div 8) + k < 32" using assms by linarith
  then show "bit (loadLe n data (4 * w + s div 8)) k
      = bit (take_bit (8 * n) (drop_bit (8 * (s div 8)) (storageWord data w))) k"
    using assms by (auto simp: bit_loadLe bit_storageWord bit_simps add.assoc)
qed

lemma byte_span: "m + 8 * d = s \<Longrightarrow> k < s + width \<Longrightarrow> m + width \<le> 8 * n \<Longrightarrow> k < 8 * (d + n)" for k :: nat
  by simp

lemma packed_store:
  assumes fits: "s div 8 + n \<le> 4" "s mod 8 + width \<le> 8 * n"
    and inside: "\<And>j. j < 8 * n \<Longrightarrow> bit p j = (if s mod 8 \<le> j \<and> j < s mod 8 + width then bit v (j - s mod 8)
        else bit (loadLe n data (4 * w + s div 8)) j)"
  shows "storageWord (storeLe n data (4 * w + s div 8) p) u
    = (if u = w then (storageWord data u AND NOT (push_bit s (mask width))) OR push_bit s (v AND mask width)
       else storageWord data u)"
proof (rule bit_word_eqI)
  fix k
  assume k: "k < LENGTH(32)"
  let ?a = "4 * w + s div 8" and ?b = "4 * u + k div 8"
  have kb: "k div 8 < 4" using k by simp
  show "bit (storageWord (storeLe n data ?a p) u) k = bit (if u = w
      then (storageWord data u AND NOT (push_bit s (mask width))) OR push_bit s (v AND mask width)
      else storageWord data u) k"
  proof (cases "u = w \<and> s div 8 \<le> k div 8 \<and> k div 8 < s div 8 + n")
    case True
    then obtain d where d: "k div 8 = s div 8 + d" using le_Suc_ex by blast
    define j where "j = 8 * d + k mod 8"
    have jd: "j = 8 * (k div 8 - s div 8) + k mod 8" by (simp add: j_def d)
    have "d < n" "k mod 8 < 8" using True d by simp_all
    moreover have "8 * (k div 8) + k mod 8 = k" by (rule mult_div_mod_eq)
    ultimately have j: "j < 8 * n" "j + 8 * (s div 8) = k"
      using d unfolding j_def by linarith+
    moreover have "s mod 8 + 8 * (s div 8) = s" by simp
    ultimately have js: "s mod 8 \<le> j \<longleftrightarrow> s \<le> k" "j < s mod 8 + width \<longleftrightarrow> k < s + width" "j - s mod 8 = k - s"
      by linarith+
    have "bit (storageWord (storeLe n data ?a p) u) k = bit p j"
    proof -
      have "storeLe n data ?a p ?b = ucast (drop_bit (8 * (k div 8 - s div 8)) p)"
        using True by (simp add: storeLe_byte)
      moreover have "bit (ucast x :: u8) (k mod 8) = bit x (k mod 8)" for x :: u32
        by (simp add: bit_ucast_iff)
      ultimately show ?thesis
        using True k by (simp add: bit_storageWord bit_drop_bit_eq jd add.commute)
    qed
    also have "\<dots> = (if s \<le> k \<and> k < s + width then bit v (k - s) else bit (storageWord data w) k)"
    proof -
      have "j div 8 + s div 8 = k div 8" "j mod 8 = k mod 8"
        by (simp_all add: j_def d)
      then have "bit (loadLe n data ?a) j = bit (storageWord data w) k"
        using fits(1) j(1) k by (simp add: bit_loadLe bit_storageWord ac_simps)
      then show ?thesis using inside [OF j(1)] js by auto
    qed
    finally show ?thesis
      using True k by (auto simp: bit_simps)
  next
    case False
    have same: "bit (storageWord (storeLe n data ?a p) u) k = bit (storageWord data u) k"
    proof -
      have "\<not> (?a \<le> ?b \<and> ?b < ?a + n)"
      proof
        assume "?a \<le> ?b \<and> ?b < ?a + n"
        moreover from this have "u = w" using kb fits(1) by linarith
        ultimately show False using False by simp
      qed
      then show ?thesis by (auto simp: bit_storageWord storeLe_byte)
    qed
    have "\<not> (s \<le> k \<and> k < s + width)" if "u = w"
    proof
      assume "s \<le> k \<and> k < s + width"
      then have ge: "s div 8 \<le> k div 8" and lt: "k < s + width" by (simp_all add: div_le_mono)
      have "s mod 8 + 8 * (s div 8) = s" by simp
      then have "k < 8 * (s div 8 + n)" using lt fits(2) by (rule byte_span)
      with ge have "s div 8 \<le> k div 8" "k < 8 * (s div 8 + n)" by simp_all
      then show False using False that by (simp add: less_mult_imp_div_less mult.commute)
    qed
    then show ?thesis using same k by (auto simp: bit_simps)
  qed
qed

section \<open>Shapes and tables\<close>

definition blockTableOf :: "PixelStorageMode \<Rightarrow> nat list list" where
  "blockTableOf psm =
     (if psm \<in> {Z32, Z24} then BlockTableZ32 else if psm = C16 then BlockTableC16 else if psm = C16S then BlockTableC16S
      else if psm = Z16 then BlockTableZ16 else if psm = Z16S then BlockTableZ16S else if psm = P8 then BlockTableP8
      else if psm = P4 then BlockTableP4 else BlockTableC32)"

definition columnTableOf :: "PixelStorageMode \<Rightarrow> nat list list" where
  "columnTableOf psm =
     (if psm \<in> {C16, C16S, Z16, Z16S} then ColumnTable16 else if psm = P8 then ColumnTable8
      else if psm = P4 then ColumnTable4 else ColumnTable32)"

lemmas gs_tables = BlockTableC32_def BlockTableZ32_def BlockTableC16_def BlockTableC16S_def BlockTableZ16_def
  BlockTableZ16S_def BlockTableP8_def BlockTableP4_def ColumnTable32_def ColumnTable16_def ColumnTable8_def
  ColumnTable4_def

lemmas gs_shapes = BlocksPerPage_def PixelsPerBlock_def PixelsPerPage_def

abbreviation "pX psm \<equiv> unat (ex_x (PageExtent psm))"
abbreviation "pY psm \<equiv> unat (ex_y (PageExtent psm))"
abbreviation "bX psm \<equiv> unat (ex_x (BlockExtent psm))"
abbreviation "bY psm \<equiv> unat (ex_y (BlockExtent psm))"
abbreviation "cX psm \<equiv> unat (ex_x (ColumnExtent psm))"
abbreviation "cY psm \<equiv> unat (ex_y (ColumnExtent psm))"
abbreviation "ppb psm \<equiv> cX psm * cY psm"

lemma shapes:
  assumes "IsValidPsm psm"
  shows "pX psm = cX psm * bX psm" "pY psm = cY psm * bY psm" "bX psm * bY psm = 32" "0 < cX psm" "0 < cY psm"
    "0 < bX psm" "0 < bY psm" "ppb psm \<le> 512"
    and "BlocksPerPage psm = 32" "PixelsPerBlock psm = of_nat (ppb psm)" "PixelsPerPage psm = of_nat (32 * ppb psm)"
  using assms by (cases psm; simp add: gs_shapes)+

definition tableShape :: "nat \<Rightarrow> nat \<Rightarrow> nat list list \<Rightarrow> bool" where
  "tableShape h w table \<longleftrightarrow> length table = h \<and> list_all (\<lambda>r. length r = w) table \<and> sort (concat table) = [0..<h * w]"

lemma sort_map_int: "sort (map int xs) = map int (sort xs)"
proof (rule properties_for_sort)
  show "mset (map int (sort xs)) = mset (map int xs)" by simp
  show "sorted (map int (sort xs))" by (simp add: sorted_map)
qed

lemma map_int_upt0: "map int [0..<n] = [0..int n - 1]"
  by (induction n) (simp_all add: upto_rec2)

text \<open>The entries of a table are compared as binary integers.\<close>

lemma tableShapeI:
  assumes "length table = h" "list_all (\<lambda>r. length r = w) table" "map int (concat table) = xs" "sort xs = [0..int (h * w) - 1]"
  shows "tableShape h w table"
proof -
  have "map int (sort (concat table)) = map int [0..<h * w]"
    using assms(3,4) by (simp add: map_int_upt0 flip: sort_map_int)
  then show ?thesis
    using assms(1,2) by (simp add: tableShape_def inj_map_eq_map)
qed

lemma tables_shape:
  "tableShape 4 8 BlockTableC32"
  "tableShape 4 8 BlockTableZ32"
  "tableShape 8 4 BlockTableC16"
  "tableShape 8 4 BlockTableC16S"
  "tableShape 8 4 BlockTableZ16"
  "tableShape 8 4 BlockTableZ16S"
  "tableShape 4 8 BlockTableP8"
  "tableShape 8 4 BlockTableP4"
  "tableShape 8 8 ColumnTable32"
  "tableShape 8 16 ColumnTable16"
  "tableShape 16 16 ColumnTable8"
  "tableShape 16 32 ColumnTable4"
  by ((rule tableShapeI, simp add: gs_tables, simp add: gs_tables,
        unfold gs_tables concat.simps append.simps list.map of_nat_numeral of_nat_0 of_nat_1 append_Nil2, rule refl,
        code_simp)+)

lemma shape_of_tables:
  assumes "IsValidPsm psm"
  shows "tableShape (bY psm) (bX psm) (blockTableOf psm)" and "tableShape (cY psm) (cX psm) (columnTableOf psm)"
  using assms tables_shape by (cases psm; simp add: blockTableOf_def columnTableOf_def)+

lemma table_bound:
  assumes "tableShape h w table" "y < h" "x < w"
  shows "table ! y ! x < h * w"
proof -
  have r: "table ! y \<in> set table" "length (table ! y) = w"
    using assms by (simp_all add: tableShape_def list_all_length)
  then have "table ! y ! x \<in> set (table ! y)" using assms(3) by simp
  then have "table ! y ! x \<in> set (concat table)" using r(1) by auto
  also have "set (concat table) = {0..<h * w}"
    using assms(1) unfolding tableShape_def by (metis set_sort set_upt)
  finally show ?thesis by simp
qed

lemma concat_nth:
  "list_all (\<lambda>r. length r = w) table \<Longrightarrow> y < length table \<Longrightarrow> x < w \<Longrightarrow> table ! y ! x = concat table ! (y * w + x)"
proof (induction table arbitrary: y)
  case (Cons r table)
  then show ?case by (cases y) (auto simp: nth_append algebra_simps)
qed simp

lemma length_concat_rows: "list_all (\<lambda>r. length r = w) table \<Longrightarrow> length (concat table) = length table * w"
  by (induction table) auto

text \<open>A table is a bijection, so equal entries have equal coordinates.\<close>

lemma table_injective:
  assumes "tableShape h w table" "y < h" "x < w" "y' < h" "x' < w" "table ! y ! x = table ! y' ! x'"
  shows "y = y' \<and> x = x'"
proof -
  have t: "list_all (\<lambda>r. length r = w) table" "length table = h"
    using assms(1) by (simp_all add: tableShape_def)
  have "distinct (concat table)"
    using assms(1) unfolding tableShape_def by (metis distinct_sort distinct_upt)
  moreover have "y * w + x < length (concat table)" "y' * w + x' < length (concat table)"
    using assms(2-5) t by (simp_all add: length_concat_rows) (metis add.commute mod_less nat_less_le less_le_trans Suc_leI mult_Suc mult_le_mono1 add_less_mono1)+
  ultimately have "y * w + x = y' * w + x'"
    using assms t by (simp add: concat_nth nth_eq_iff_index_eq)
  then have "(y * w + x) div w = (y' * w + x') div w" "(y * w + x) mod w = (y' * w + x') mod w" by simp_all
  then show ?thesis using assms(3,5) by simp
qed

section \<open>Pixel numbers\<close>

text \<open>The place of a pixel in its page, and its number in the memory, over the naturals.\<close>

definition localN :: "PixelStorageMode \<Rightarrow> nat \<Rightarrow> nat \<Rightarrow> nat" where
  "localN psm x y = blockTableOf psm ! (y div cY psm mod bY psm) ! (x div cX psm mod bX psm) * ppb psm
     + columnTableOf psm ! (y mod cY psm) ! (x mod cX psm)"

definition pagesPerRow :: "PixelStorageMode \<Rightarrow> u32 \<Rightarrow> nat" where
  "pagesPerRow psm bw = unat (bw * 64) div pX psm"

definition pixelN :: "PixelStorageMode \<Rightarrow> u32 \<Rightarrow> u32 \<Rightarrow> u32 \<Rightarrow> u32 \<Rightarrow> nat" where
  "pixelN psm bp bw x y =
     (unat bp + 32 * (unat y div pY psm * pagesPerRow psm bw + unat x div pX psm)) * ppb psm
     + localN psm (unat x) (unat y)"

lemma localN_bound:
  assumes "IsValidPsm psm"
  shows "localN psm x y < 32 * ppb psm"
proof -
  have "blockTableOf psm ! (y div cY psm mod bY psm) ! (x div cX psm mod bX psm) < bY psm * bX psm"
    using shape_of_tables [OF assms] shapes [OF assms] by (intro table_bound) auto
  then have b: "blockTableOf psm ! (y div cY psm mod bY psm) ! (x div cX psm mod bX psm) \<le> 31"
    using shapes(3) [OF assms] by (simp add: mult.commute)
  have "columnTableOf psm ! (y mod cY psm) ! (x mod cX psm) < cY psm * cX psm"
    using shape_of_tables [OF assms] shapes [OF assms] by (intro table_bound) auto
  moreover have "localN psm x y \<le> 31 * ppb psm + columnTableOf psm ! (y mod cY psm) ! (x mod cX psm)"
    unfolding localN_def using b by simp
  ultimately show ?thesis by (simp add: mult.commute)
qed

text \<open>Distinct places of a page have distinct local numbers.\<close>

lemma localN_injective:
  assumes v: "IsValidPsm psm" and r: "x < pX psm" "y < pY psm" "x' < pX psm" "y' < pY psm"
    and e: "localN psm x y = localN psm x' y'"
  shows "x = x' \<and> y = y'"
proof -
  note sh = shapes [OF v] and t = shape_of_tables [OF v]
  let ?b = "\<lambda>x y. blockTableOf psm ! (y div cY psm mod bY psm) ! (x div cX psm mod bX psm)"
  let ?c = "\<lambda>x y. columnTableOf psm ! (y mod cY psm) ! (x mod cX psm)"
  have "?c x y < cY psm * cX psm" "?c x' y' < cY psm * cX psm"
    using t sh by (intro table_bound; auto)+
  then have c: "?c x y < ppb psm" "?c x' y' < ppb psm" by (simp_all add: mult.commute)
  have p: "ppb psm \<noteq> 0" using sh(4,5) by simp
  have "localN psm x y div ppb psm = ?b x y" "localN psm x y mod ppb psm = ?c x y"
    "localN psm x' y' div ppb psm = ?b x' y'" "localN psm x' y' mod ppb psm = ?c x' y'"
    using c p unfolding localN_def by (simp_all add: div_mult_self3 del: mult_eq_0_iff mult_is_0)
  then have "?b x y = ?b x' y'" "?c x y = ?c x' y'" using e by simp_all
  then have b: "y div cY psm mod bY psm = y' div cY psm mod bY psm" "x div cX psm mod bX psm = x' div cX psm mod bX psm"
    and m: "y mod cY psm = y' mod cY psm" "x mod cX psm = x' mod cX psm"
    using table_injective [OF t(1), of "y div cY psm mod bY psm" "x div cX psm mod bX psm" "y' div cY psm mod bY psm" "x' div cX psm mod bX psm"]
      table_injective [OF t(2), of "y mod cY psm" "x mod cX psm" "y' mod cY psm" "x' mod cX psm"] sh(4-7) by simp_all
  have "x div cX psm < bX psm" "x' div cX psm < bX psm" "y div cY psm < bY psm" "y' div cY psm < bY psm"
    using r sh(1,2) by (simp_all add: less_mult_imp_div_less mult.commute)
  then have "x div cX psm = x' div cX psm" "y div cY psm = y' div cY psm" using b by simp_all
  then show ?thesis using m by (metis div_mult_mod_eq)
qed

section \<open>Addresses are numbers modulo $2^{32}$\<close>

lemma word_div_32: "(a :: u32) div 32 = of_nat (unat a div 32)" and word_mod_32: "a mod 32 = of_nat (unat a mod 32)"
  by (simp_all add: word_arith_nat_div word_arith_nat_mod)

lemma PageId_number:
  assumes "IsValidPsm psm"
  shows "PageId psm bp bw x y = of_nat (unat bp div 32 + (unat y div pY psm * pagesPerRow psm bw + unat x div pX psm))"
proof -
  have "PageId psm bp bw x y = bp div 32 + (y div ex_y (PageExtent psm)) * ((bw * 64) div ex_x (PageExtent psm))
      + x div ex_x (PageExtent psm)"
    by (simp only: PageId_def Let_def shapes(9) [OF assms])
  then show ?thesis
    by (simp add: word_div_32 word_arith_nat_div [of y] word_arith_nat_div [of x] word_arith_nat_div [of "bw * 64"]
        pagesPerRow_def)
qed

lemma tableAt_number: "tableAt table x y = of_nat (table ! unat y ! unat x)"
  by (simp add: tableAt_def)

lemma BlockId_number: "BlockId psm table x y
    = of_nat (table ! (unat y div cY psm mod bY psm) ! (unat x div cX psm mod bX psm))"
  by (simp add: BlockId_def Let_def tableAt_number unat_div unat_mod)

lemma ColumnId_number: "ColumnId psm table x y = of_nat (table ! (unat y mod cY psm) ! (unat x mod cX psm))"
  by (simp add: ColumnId_def Let_def tableAt_number unat_mod)

text \<open>The pixel number both address computations arrive at.\<close>

definition pixelW :: "PixelStorageMode \<Rightarrow> u32 \<Rightarrow> u32 \<Rightarrow> u32 \<Rightarrow> u32 \<Rightarrow> u32" where
  "pixelW psm bp bw x y = PageId psm bp bw x y * PixelsPerPage psm
     + (bp mod BlocksPerPage psm + BlockId psm (blockTableOf psm) x y) * PixelsPerBlock psm
     + ColumnId psm (columnTableOf psm) x y"

lemma pixel_sum: "(d + p) * (32 * q) + (m + t) * q + c = (32 * d + m + 32 * p) * q + (t * q + c)" for q :: nat
  by (simp add: algebra_simps)

lemma pixelW_number:
  assumes "IsValidPsm psm"
  shows "pixelW psm bp bw x y = of_nat (pixelN psm bp bw x y)"
proof -
  let ?p = "unat y div pY psm * pagesPerRow psm bw + unat x div pX psm"
  let ?b = "blockTableOf psm ! (unat y div cY psm mod bY psm) ! (unat x div cX psm mod bX psm)"
  let ?c = "columnTableOf psm ! (unat y mod cY psm) ! (unat x mod cX psm)"
  have "pixelW psm bp bw x y = of_nat (unat bp div 32 + ?p) * of_nat (32 * ppb psm)
      + (of_nat (unat bp mod 32) + of_nat ?b) * of_nat (ppb psm) + of_nat ?c"
    unfolding pixelW_def PageId_number [OF assms] shapes(9-11) [OF assms] BlockId_number ColumnId_number
    by (simp only: word_mod_32)
  also have "\<dots> = of_nat ((unat bp div 32 + ?p) * (32 * ppb psm) + (unat bp mod 32 + ?b) * ppb psm + ?c)"
    by (simp only: of_nat_add of_nat_mult)
  also have "(unat bp div 32 + ?p) * (32 * ppb psm) + (unat bp mod 32 + ?b) * ppb psm + ?c = pixelN psm bp bw x y"
    using pixel_sum [of "unat bp div 32" ?p "ppb psm" "unat bp mod 32" ?b ?c]
    unfolding pixelN_def localN_def by (simp only: mult_div_mod_eq)
  finally show ?thesis .
qed

lemma narrow_entry: "unat (w :: u32) < 65536 \<Longrightarrow> ucast (ucast w :: u16) = w"
  by (simp add: word_unat_eq_iff unsigned_ucast_eq take_bit_eq_mod unat_mod)

lemma pageTable_of:
  assumes "IsValidPsm psm"
  shows "pageTable psm = InitPageLookupTable psm (blockTableOf psm) (columnTableOf psm)"
  using assms
  by (cases psm) (simp_all add: blockTableOf_def columnTableOf_def InitPageLookupTable_def BlockId_def ColumnId_def gs_shapes)

lemma mod_of_div: "x mod (c * b) div c mod b = x div c mod b" "x mod (c * b) mod c = x mod c" for x :: nat
  by (cases "c = 0"; simp add: mod_mult2_eq)+

lemma BlockId_page:
  assumes "IsValidPsm psm"
  shows "BlockId psm table (x mod ex_x (PageExtent psm)) (y mod ex_y (PageExtent psm)) = BlockId psm table x y"
    and "ColumnId psm table (x mod ex_x (PageExtent psm)) (y mod ex_y (PageExtent psm)) = ColumnId psm table x y"
  unfolding BlockId_number ColumnId_number by (simp_all add: unat_mod shapes(1,2) [OF assms] mod_of_div)

lemma entry_bound:
  assumes v: "IsValidPsm psm"
  shows "unat ((bp mod BlocksPerPage psm + BlockId psm (blockTableOf psm) x y) * PixelsPerBlock psm
    + ColumnId psm (columnTableOf psm) x y) < 65536"
proof -
  let ?l = "localN psm (unat x) (unat y)"
  have "(bp mod BlocksPerPage psm + BlockId psm (blockTableOf psm) x y) * PixelsPerBlock psm + ColumnId psm (columnTableOf psm) x y
      = of_nat (unat bp mod 32 * ppb psm + ?l)"
    unfolding shapes(9,10) [OF v] BlockId_number ColumnId_number localN_def word_mod_32
    by (simp only: of_nat_add of_nat_mult distrib_right add.assoc)
  moreover have "unat bp mod 32 * ppb psm + ?l < 65536"
  proof -
    have "unat bp mod 32 \<le> 31" using mod_less_divisor [of 32 "unat bp"] by linarith
    then have "unat bp mod 32 * ppb psm \<le> 31 * 512"
      using shapes(8) [OF v] by (rule mult_le_mono)
    moreover have "?l < 32 * 512"
      using localN_bound [OF v, of "unat x" "unat y"] shapes(8) [OF v] by linarith
    ultimately show ?thesis by linarith
  qed
  ultimately show ?thesis by (simp add: unat_of_nat del: of_nat_add of_nat_mult)
qed

lemma Address_pixel:
  assumes v: "IsValidPsm psm"
  shows "Address psm (pageTable psm) bp bw x y = pixelW psm bp bw x y"
  unfolding Address_def pixelW_def pageTable_of [OF v] InitPageLookupTable_def Let_def BlockId_page [OF v]
  by (simp only: narrow_entry [OF entry_bound [OF v]] add.assoc)

text \<open>The bit address of a pixel.\<close>

definition bitN :: "PixelStorageMode \<Rightarrow> u32 \<Rightarrow> u32 \<Rightarrow> u32 \<Rightarrow> u32 \<Rightarrow> nat" where
  "bitN psm bp bw x y = (pixelN psm bp bw x y * unat (UnpackedBitWidth psm) + unat (BitOffset psm)) mod 2 ^ 32"

lemma bit_address:
  assumes "IsValidPsm psm"
  shows "unat (pixelW psm bp bw x y * UnpackedBitWidth psm + BitOffset psm) = bitN psm bp bw x y"
proof -
  have "pixelW psm bp bw x y * UnpackedBitWidth psm + BitOffset psm
      = of_nat (pixelN psm bp bw x y * unat (UnpackedBitWidth psm) + unat (BitOffset psm))"
    by (simp add: pixelW_number [OF assms])
  then show ?thesis by (simp only: unat_of_nat bitN_def) simp
qed

text \<open>Where in its storage word a pixel lies.\<close>

definition shiftN :: "PixelStorageMode \<Rightarrow> u32 \<Rightarrow> u32 \<Rightarrow> u32 \<Rightarrow> u32 \<Rightarrow> nat" where
  "shiftN psm bp bw x y = bitN psm bp bw x y mod 32"

definition wordN :: "PixelStorageMode \<Rightarrow> u32 \<Rightarrow> u32 \<Rightarrow> u32 \<Rightarrow> u32 \<Rightarrow> nat" where
  "wordN psm bp bw x y = bitN psm bp bw x y div 32 mod 2 ^ 20"

lemma shiftN_pixel: "shiftN psm bp bw x y
    = (pixelN psm bp bw x y * unat (UnpackedBitWidth psm) + unat (BitOffset psm)) mod 32"
  by (simp add: shiftN_def bitN_def mod_mod_cancel)

lemma unat_numeral_32: "unat (32 :: u32) = 32" by simp

lemma shift_values:
  assumes "IsValidPsm psm"
  shows "UnpackedBitWidth psm = 32 \<Longrightarrow> shiftN psm bp bw x y = unat (BitOffset psm)"
    and "UnpackedBitWidth psm = 16 \<Longrightarrow> shiftN psm bp bw x y = 16 * (pixelN psm bp bw x y mod 2)"
    and "UnpackedBitWidth psm = 8 \<Longrightarrow> shiftN psm bp bw x y = 8 * (pixelN psm bp bw x y mod 4)"
    and "UnpackedBitWidth psm = 4 \<Longrightarrow> shiftN psm bp bw x y = 4 * (pixelN psm bp bw x y mod 8)"
proof -
  let ?p = "pixelN psm bp bw x y"
  have m: "(?p * 16) mod 32 = 16 * (?p mod 2)" "(?p * 8) mod 32 = 8 * (?p mod 4)" "(?p * 4) mod 32 = 4 * (?p mod 8)"
    using mod_mult_mult2 [of ?p 16 2] mod_mult_mult2 [of ?p 8 4] mod_mult_mult2 [of ?p 4 8] by simp_all
  have o: "UnpackedBitWidth psm \<noteq> 32 \<Longrightarrow> BitOffset psm = 0" "unat (BitOffset psm) < 32"
    using assms by (cases psm; simp)+
  have word: "(?p * 32 + unat (BitOffset psm)) mod 32 = unat (BitOffset psm)"
    using o(2) by simp
  show "UnpackedBitWidth psm = 32 \<Longrightarrow> shiftN psm bp bw x y = unat (BitOffset psm)"
    by (simp only: shiftN_pixel unat_numeral_32 word)
  show "UnpackedBitWidth psm = 16 \<Longrightarrow> shiftN psm bp bw x y = 16 * (?p mod 2)"
    "UnpackedBitWidth psm = 8 \<Longrightarrow> shiftN psm bp bw x y = 8 * (?p mod 4)"
    "UnpackedBitWidth psm = 4 \<Longrightarrow> shiftN psm bp bw x y = 4 * (?p mod 8)"
    using o(1) by (simp_all add: shiftN_pixel m)
qed

lemma and_high_mask: "a AND push_bit k (mask m) = push_bit k (take_bit m (drop_bit k a))" for a :: u32
  by (rule bit_word_eqI) (auto simp: bit_simps)

lemma unat_high_mask: "k + m < 32 \<Longrightarrow> unat (a AND push_bit k (mask m)) = 2 ^ k * (unat a div 2 ^ k mod 2 ^ m)" for a :: u32
proof -
  assume km: "k + m < 32"
  have "unat a div 2 ^ k mod 2 ^ m < 2 ^ m" by simp
  then have "2 ^ k * (unat a div 2 ^ k mod 2 ^ m) < 2 ^ k * (2 ^ m :: nat)" by simp
  also have "(2 :: nat) ^ k * 2 ^ m \<le> 2 ^ 32" using km power_increasing [of "k + m" 32 "2 :: nat"] by (simp only: power_add)
  finally have l: "2 ^ k * (unat a div 2 ^ k mod 2 ^ m) < (2 :: nat) ^ 32" .
  have "unat (push_bit k (take_bit m (drop_bit k a))) = take_bit 32 (push_bit k (take_bit m (drop_bit k (unat a))))"
  proof -
    have "unat a < 2 ^ 32" using unsigned_less [of a] by simp
    then have "take_bit 32 (unat a) = unat a" by (rule take_bit_nat_eq_self)
    then show ?thesis by (simp add: unsigned_push_bit_eq unsigned_take_bit_eq unsigned_drop_bit_eq)
  qed
  also have "\<dots> = 2 ^ k * (unat a div 2 ^ k mod 2 ^ m)"
    using l by (simp add: push_bit_eq_mult take_bit_eq_mod drop_bit_eq_div mult.commute)
  finally show ?thesis by (simp only: and_high_mask)
qed

lemma byte_split_1: "B div 8 mod 4194304 = 4 * (B div 32 mod 1048576) + B mod 32 div 8" for B :: nat
  using mod_mult2_eq [of "B div 8" 4 1048576] mod_mult2_eq [of B 8 4] by (simp flip: div_mult2_eq)

lemma byte_split_2: "2 * (B div 8 div 2 mod 2097152) = 4 * (B div 32 mod 1048576) + 2 * (B mod 32 div 16)" for B :: nat
  using mod_mult2_eq [of "B div 16" 2 1048576] mod_mult2_eq [of B 16 2] by (simp flip: div_mult2_eq)

lemma byte_split_4: "4 * (B div 8 div 4 mod 1048576) = 4 * (B div 32 mod 1048576)" for B :: nat
  by (simp flip: div_mult2_eq)

lemma byteAddress_number:
  assumes v: "IsValidPsm psm"
  shows "byteAddress psm (pixelW psm bp bw x y * UnpackedBitWidth psm + BitOffset psm)
    = 4 * wordN psm bp bw x y + shiftN psm bp bw x y div 8"
proof -
  let ?b = "pixelW psm bp bw x y * UnpackedBitWidth psm + BitOffset psm" and ?B = "bitN psm bp bw x y"
  have B: "unat (?b div 8) = ?B div 8" by (simp add: unat_div bit_address [OF v])
  have m: "MEMORY_SIZE - of_nat 1 = mask 22" "MEMORY_SIZE - of_nat 2 = push_bit 1 (mask 21)"
    "MEMORY_SIZE - of_nat 4 = push_bit 2 (mask 20)"
    by (simp_all add: MEMORY_SIZE_def mask_eq_exp_minus_1)
  consider "packedBytes psm = 1" | "packedBytes psm = 2" "UnpackedBitWidth psm = 16"
    | "packedBytes psm = 4" "UnpackedBitWidth psm = 32" "BitOffset psm = 0"
    using v by (cases psm) (simp_all add: packedBytes_def)
  then show ?thesis
  proof cases
    case 1
    then have "byteAddress psm ?b = unat (?b div 8 AND mask 22)"
      by (simp only: byteAddress_def m)
    also have "\<dots> = ?B div 8 mod 4194304" using unat_high_mask [of 0 22 "?b div 8"] by (simp add: B)
    finally show ?thesis by (simp add: byte_split_1 wordN_def shiftN_def)
  next
    case 2
    then have "byteAddress psm ?b = unat (?b div 8 AND push_bit 1 (mask 21))"
      by (simp only: byteAddress_def m)
    also have "\<dots> = 2 ^ 1 * (unat (?b div 8) div 2 ^ 1 mod 2 ^ 21)" by (rule unat_high_mask) simp
    also have "\<dots> = 2 * (?B div 8 div 2 mod 2097152)" by (simp add: B)
    also have "\<dots> = 4 * wordN psm bp bw x y + 2 * (shiftN psm bp bw x y div 16)"
      by (simp only: byte_split_2 wordN_def shiftN_def) simp
    also have "2 * (shiftN psm bp bw x y div 16) = shiftN psm bp bw x y div 8"
      using shift_values(2) [OF v 2(2)] by simp
    finally show ?thesis .
  next
    case 3
    then have "byteAddress psm ?b = unat (?b div 8 AND push_bit 2 (mask 20))"
      by (simp only: byteAddress_def m)
    also have "\<dots> = 2 ^ 2 * (unat (?b div 8) div 2 ^ 2 mod 2 ^ 20)" by (rule unat_high_mask) simp
    also have "\<dots> = 4 * (?B div 8 div 4 mod 1048576)" by (simp add: B)
    finally show ?thesis using shift_values(1) [OF v 3(2)] 3(3) by (simp add: byte_split_4 wordN_def)
  qed
qed

text \<open>A pixel fits in its packed access, and the access in the storage word.\<close>

lemma width_kinds:
  assumes "IsValidPsm psm"
  obtains (word) "UnpackedBitWidth psm = 32" "unat (BitOffset psm) div 8 + packedBytes psm \<le> 4"
      "unat (BitOffset psm) mod 8 + unat (BitsPerPixel psm) \<le> 8 * packedBytes psm"
    | (half) "UnpackedBitWidth psm = 16" "packedBytes psm = 2" "unat (BitsPerPixel psm) = 16"
    | (byte) "UnpackedBitWidth psm = 8" "packedBytes psm = 1" "unat (BitsPerPixel psm) = 8"
    | (nibble) "UnpackedBitWidth psm = 4" "packedBytes psm = 1" "unat (BitsPerPixel psm) = 4"
  using assms by (cases psm) (simp_all add: packedBytes_def)

lemma pixel_fits:
  assumes "IsValidPsm psm"
  shows "shiftN psm bp bw x y div 8 + packedBytes psm \<le> 4"
    and "shiftN psm bp bw x y mod 8 + unat (BitsPerPixel psm) \<le> 8 * packedBytes psm"
proof -
  let ?p = "pixelN psm bp bw x y"
  have "shiftN psm bp bw x y div 8 + packedBytes psm \<le> 4 \<and> shiftN psm bp bw x y mod 8 + unat (BitsPerPixel psm) \<le> 8 * packedBytes psm"
    using assms
  proof (cases rule: width_kinds)
    case word
    then show ?thesis using shift_values(1) [OF assms word(1)] by simp
  next
    case half
    have "?p mod 2 < 2" by simp
    then show ?thesis using shift_values(2) [OF assms half(1)] half by (cases "?p mod 2 = 0") auto
  next
    case byte
    have "?p mod 4 < 4" by simp
    then show ?thesis using shift_values(3) [OF assms byte(1)] byte by simp
  next
    case nibble
    have "?p mod 8 = 2 * (?p mod 8 div 2) + ?p mod 8 mod 2" "?p mod 8 div 2 < 4" "?p mod 8 mod 2 < 2" by simp_all
    then obtain a b where "?p mod 8 = 2 * a + b" "a < 4" "b < 2" by blast
    then show ?thesis using shift_values(4) [OF assms nibble(1)] nibble by simp
  qed
  then show "shiftN psm bp bw x y div 8 + packedBytes psm \<le> 4"
    and "shiftN psm bp bw x y mod 8 + unat (BitsPerPixel psm) \<le> 8 * packedBytes psm"
    by simp_all
qed

lemma resolve_number:
  assumes v: "IsValidPsm psm"
  shows "snd (ResolvePixelAddress psm bp bw x y)"
    and "unat (pa_word_index (fst (ResolvePixelAddress psm bp bw x y))) = wordN psm bp bw x y"
    and "unat (pa_bit_shift (fst (ResolvePixelAddress psm bp bw x y))) = shiftN psm bp bw x y"
    and "pa_packed_bit_width (fst (ResolvePixelAddress psm bp bw x y)) = BitsPerPixel psm"
proof -
  have r: "ResolvePixelAddress psm bp bw x y
      = (ResolvePixelAddressImpl psm (blockTableOf psm) (columnTableOf psm) bp bw x y, True)"
    using v by (cases psm) (simp_all add: blockTableOf_def columnTableOf_def)
  let ?b = "pixelW psm bp bw x y * UnpackedBitWidth psm + BitOffset psm"
  have "MEMORY_SIZE div 4 - 1 = mask 20"
    by (simp add: MEMORY_SIZE_def mask_eq_exp_minus_1)
  then have i: "ResolvePixelAddressImpl psm (blockTableOf psm) (columnTableOf psm) bp bw x y
      = \<lparr>pa_word_index = (?b div 32) AND mask 20, pa_bit_shift = ?b mod 32, pa_packed_bit_width = BitsPerPixel psm\<rparr>"
    by (simp only: ResolvePixelAddressImpl_def Let_def pixelW_def)
  show "snd (ResolvePixelAddress psm bp bw x y)" "pa_packed_bit_width (fst (ResolvePixelAddress psm bp bw x y)) = BitsPerPixel psm"
    by (simp_all add: r i)
  show "unat (pa_word_index (fst (ResolvePixelAddress psm bp bw x y))) = wordN psm bp bw x y"
    using unat_high_mask [of 0 20 "?b div 32"] by (simp add: r i unat_div bit_address [OF v] wordN_def)
  show "unat (pa_bit_shift (fst (ResolvePixelAddress psm bp bw x y))) = shiftN psm bp bw x y"
    by (simp add: r i unat_mod bit_address [OF v] shiftN_def)
qed

section \<open>Packed accesses as storage-word accesses\<close>

lemma mask_constants: "(0x00FFFFFF :: u32) = mask 24" "(0xFF000000 :: u32) = NOT (mask 24)" "(0x0F :: u32) = mask 4"
  by (simp_all add: mask_eq_exp_minus_1)

text \<open>The modes that overwrite whole bytes, the 24-bit modes, and the nibble modes.\<close>

lemma mode_kinds:
  assumes "IsValidPsm psm"
  obtains (whole) "psm \<in> {C32, Z32, C16, C16S, Z16, Z16S, P8, P8H}" "unat (BitsPerPixel psm) = 8 * packedBytes psm"
      "unat (BitOffset psm) mod 8 = 0" "UnpackedBitWidth psm \<in> {32, 16, 8}"
    | (mask24) "psm \<in> {C24, Z24}" "unat (BitsPerPixel psm) = 24" "packedBytes psm = 4" "BitOffset psm = 0"
      "UnpackedBitWidth psm = 32"
    | (nibble) "psm \<in> {P4, P4HL, P4HH}" "unat (BitsPerPixel psm) = 4" "packedBytes psm = 1"
  using assms by (cases psm) (simp_all add: packedBytes_def)

lemma readPixel_packed:
  assumes v: "IsValidPsm psm"
  shows "readPixel psm data bp bw x y =
    (let a = 4 * wordN psm bp bw x y + shiftN psm bp bw x y div 8; v = loadLe (packedBytes psm) data a
     in if psm \<in> {C32, Z32, C16, C16S, Z16, Z16S, P8, P8H} then v
        else if psm \<in> {C24, Z24} then v AND 0x00FFFFFF
        else drop_bit (shiftN psm bp bw x y mod 8) v AND 0x0F)"
proof -
  have "unat ((pixelW psm bp bw x y * UnpackedBitWidth psm + BitOffset psm) mod 8) = shiftN psm bp bw x y mod 8"
    by (simp add: unat_mod bit_address [OF v] shiftN_def mod_mod_cancel)
  then show ?thesis
    using v unfolding readPixel_def gs_Read_def Let_def Address_pixel [OF v] byteAddress_number [OF v]
    by (cases psm) simp_all
qed

lemma writePixel_packed:
  assumes v: "IsValidPsm psm"
  shows "writePixel psm data bp bw x y value =
    (let a = 4 * wordN psm bp bw x y + shiftN psm bp bw x y div 8; n = packedBytes psm;
         packed = take_bit (8 * n) value; old = loadLe n data a
     in if psm \<in> {C32, Z32, C16, C16S, Z16, Z16S, P8, P8H} then storeLe n data a packed
        else if psm \<in> {C24, Z24} then storeLe n data a ((old AND 0xFF000000) OR (packed AND 0x00FFFFFF))
        else storeLe n data a ((old AND NOT (push_bit (shiftN psm bp bw x y mod 8) 0x0F))
               OR push_bit (shiftN psm bp bw x y mod 8) (packed AND 0x0F)))"
proof -
  have "unat ((pixelW psm bp bw x y * UnpackedBitWidth psm + BitOffset psm) mod 8) = shiftN psm bp bw x y mod 8"
    by (simp add: unat_mod bit_address [OF v] shiftN_def mod_mod_cancel)
  then show ?thesis
    using v unfolding writePixel_def gs_Write_def Let_def Address_pixel [OF v] byteAddress_number [OF v]
    by (cases psm) simp_all
qed

lemma whole_shift:
  assumes "IsValidPsm psm" "unat (BitOffset psm) mod 8 = 0" "UnpackedBitWidth psm \<in> {32, 16, 8}"
  shows "shiftN psm bp bw x y mod 8 = 0"
  using assms shift_values [OF assms(1), of bp bw x y] by auto

lemma readPixel_storage:
  assumes v: "IsValidPsm psm"
  shows "readPixel psm data bp bw x y
    = take_bit (unat (BitsPerPixel psm)) (drop_bit (shiftN psm bp bw x y) (storageWord data (wordN psm bp bw x y)))"
proof -
  let ?s = "shiftN psm bp bw x y" and ?w = "wordN psm bp bw x y"
  note fits = pixel_fits [OF v, of bp bw x y]
  have load: "loadLe (packedBytes psm) data (4 * ?w + ?s div 8)
      = take_bit (8 * packedBytes psm) (drop_bit (8 * (?s div 8)) (storageWord data ?w))"
    using fits(1) by (rule packed_load)
  show ?thesis
    using v
  proof (cases rule: mode_kinds)
    case whole
    have "8 * (?s div 8) = ?s" using whole_shift [OF v whole(3,4), of bp bw x y] by auto
    then show ?thesis using whole(1,2) by (simp only: readPixel_packed [OF v] Let_def load if_True)
  next
    case mask24
    then have "?s = 0" using shift_values(1) [OF v, of bp bw x y] by simp
    moreover have "psm \<notin> {C32, Z32, C16, C16S, Z16, Z16S, P8, P8H}" using mask24(1) by auto
    ultimately show ?thesis
      using mask24 unfolding readPixel_packed [OF v] Let_def load mask_constants
      by (simp flip: take_bit_eq_mask)
  next
    case nibble
    then have n: "psm \<notin> {C32, Z32, C16, C16S, Z16, Z16S, P8, P8H}" "psm \<notin> {C24, Z24}" by auto
    have s: "?s = 8 * (?s div 8) + ?s mod 8" by simp
    have "drop_bit (?s mod 8) (take_bit 8 (drop_bit (8 * (?s div 8)) (storageWord data ?w))) AND mask 4
        = take_bit 4 (drop_bit (8 * (?s div 8) + ?s mod 8) (storageWord data ?w))"
      using fits(2) nibble by (intro bit_word_eqI) (auto simp: bit_simps ac_simps)
    moreover have "readPixel psm data bp bw x y
        = drop_bit (?s mod 8) (take_bit (8 * packedBytes psm) (drop_bit (8 * (?s div 8)) (storageWord data ?w))) AND mask 4"
      unfolding readPixel_packed [OF v] Let_def load mask_constants by (simp only: n if_False)
    ultimately show ?thesis using nibble s by simp
  qed
qed

lemma writePixel_storage:
  assumes v: "IsValidPsm psm"
  shows "storageWord (writePixel psm data bp bw x y value) u
    = (let s = shiftN psm bp bw x y; field = mask (unat (BitsPerPixel psm))
       in if u = wordN psm bp bw x y
          then (storageWord data u AND NOT (push_bit s field)) OR push_bit s (value AND field) else storageWord data u)"
proof -
  let ?s = "shiftN psm bp bw x y" and ?w = "wordN psm bp bw x y" and ?n = "packedBytes psm"
  let ?a = "4 * ?w + ?s div 8" and ?f = "unat (BitsPerPixel psm)"
  note fits = pixel_fits [OF v, of bp bw x y]
  note packed = packed_store [OF fits, where v = "value" and data = data and w = ?w and u = u]
  show ?thesis
    using v
  proof (cases rule: mode_kinds)
    case whole
    have z: "?s mod 8 = 0" by (rule whole_shift [OF v whole(3,4)])
    have st: "writePixel psm data bp bw x y value = storeLe ?n data ?a (take_bit (8 * ?n) value)"
      using whole(1) by (simp only: writePixel_packed [OF v] Let_def if_True)
    have bits: "bit (take_bit (8 * ?n) value) j = (if ?s mod 8 \<le> j \<and> j < ?s mod 8 + ?f then bit value (j - ?s mod 8)
        else bit (loadLe ?n data ?a) j)" if "j < 8 * ?n" for j
      using that z whole(2) by (simp add: bit_take_bit_iff)
    show ?thesis unfolding Let_def st by (rule packed [OF bits])
  next
    case mask24
    then have z: "?s = 0" using shift_values(1) [OF v, of bp bw x y] by simp
    have "psm \<notin> {C32, Z32, C16, C16S, Z16, Z16S, P8, P8H}" using mask24(1) by auto
    then have st: "writePixel psm data bp bw x y value
        = storeLe ?n data ?a ((loadLe ?n data ?a AND NOT (mask 24)) OR (take_bit (8 * ?n) value AND mask 24))"
      using mask24(1) unfolding writePixel_packed [OF v] Let_def mask_constants by (simp only: if_True if_False)
    have bits: "bit ((loadLe ?n data ?a AND NOT (mask 24)) OR (take_bit (8 * ?n) value AND mask 24)) j
        = (if ?s mod 8 \<le> j \<and> j < ?s mod 8 + ?f then bit value (j - ?s mod 8) else bit (loadLe ?n data ?a) j)"
      if "j < 8 * ?n" for j
      using that z mask24(2,3) by (auto simp: bit_simps bit_loadLe)
    show ?thesis unfolding Let_def st by (rule packed [OF bits])
  next
    case nibble
    then have k: "psm \<notin> {C32, Z32, C16, C16S, Z16, Z16S, P8, P8H}" "psm \<notin> {C24, Z24}" by auto
    let ?p = "(loadLe ?n data ?a AND NOT (push_bit (?s mod 8) (mask 4)))
        OR push_bit (?s mod 8) (take_bit (8 * ?n) value AND mask 4)"
    have st: "writePixel psm data bp bw x y value = storeLe ?n data ?a ?p"
      unfolding writePixel_packed [OF v] Let_def mask_constants by (simp only: k if_False)
    have bits: "bit ?p j = (if ?s mod 8 \<le> j \<and> j < ?s mod 8 + ?f then bit value (j - ?s mod 8)
        else bit (loadLe ?n data ?a) j)" if "j < 8 * ?n" for j
      using that fits(2) nibble(2,3) by (auto simp: bit_simps bit_loadLe)
    show ?thesis unfolding Let_def st by (rule packed [OF bits])
  qed
qed

text \<open>Bytes above the 4 MiB are never touched.\<close>

lemma writePixel_bounds:
  assumes v: "IsValidPsm psm" and "4 * 2 ^ 20 \<le> a"
  shows "writePixel psm data bp bw x y value a = data a"
proof -
  have "wordN psm bp bw x y < 2 ^ 20" by (simp add: wordN_def)
  then have "4 * wordN psm bp bw x y + shiftN psm bp bw x y div 8 + packedBytes psm \<le> 4 * 2 ^ 20"
    using pixel_fits(1) [OF v, of bp bw x y] by linarith
  then show ?thesis
    using assms(2) unfolding writePixel_packed [OF v] Let_def by (simp add: storeLe_byte)
qed

end
