(* ===== verification/GsMemoryProps.thy ===== *)
theory GsMemoryProps
  imports GsMemoryFacts
begin

text \<open>
  What a pixel access of local memory does: it reads or replaces one field of one 32-bit storage word,
  the field the compact address names; and pixels of one buffer do not share storage.
\<close>

unbundle bit_operations_syntax

section \<open>Fields of storage words\<close>

lemma field_same:
  "s + n \<le> 32 \<Longrightarrow> take_bit n (drop_bit s ((w AND NOT (push_bit s (mask n))) OR push_bit s (v AND mask n))) = take_bit n v"
  for w v :: u32
  by (rule bit_word_eqI) (auto simp: bit_simps)

lemma field_apart:
  "s + n \<le> s' \<or> s' + n \<le> s \<Longrightarrow>
   take_bit n (drop_bit s' ((w AND NOT (push_bit s (mask n))) OR push_bit s (v AND mask n))) = take_bit n (drop_bit s' w)"
  for w v :: u32
  by (rule bit_word_eqI) (auto simp: bit_simps dest: bit_imp_le_length)

lemma field_inside:
  assumes "IsValidPsm psm"
  shows "shiftN psm bp bw x y + unat (BitsPerPixel psm) \<le> 32"
proof -
  have "8 * (shiftN psm bp bw x y div 8) + shiftN psm bp bw x y mod 8 = shiftN psm bp bw x y" by (rule mult_div_mod_eq)
  then show ?thesis using pixel_fits [OF assms, of bp bw x y] by linarith
qed

lemma shifts_apart:
  assumes v: "IsValidPsm psm" and d: "shiftN psm bp bw x y \<noteq> shiftN psm bp bw x' y'"
  shows "shiftN psm bp bw x y + unat (BitsPerPixel psm) \<le> shiftN psm bp bw x' y'
    \<or> shiftN psm bp bw x' y' + unat (BitsPerPixel psm) \<le> shiftN psm bp bw x y"
  using v
proof (cases rule: width_kinds)
  case word
  then show ?thesis using d shift_values(1) [OF v word(1)] by simp
next
  case half
  then show ?thesis using d unfolding shift_values(2) [OF v half(1)] by simp linarith
next
  case byte
  then show ?thesis using d unfolding shift_values(3) [OF v byte(1)] by simp linarith
next
  case nibble
  then show ?thesis using d unfolding shift_values(4) [OF v nibble(1)] by simp linarith
qed

text \<open>C23. The compact address of a pixel (\<open>ResolvePixelAddress\<close>, computed from the block and column
  tables) and the byte accesses (\<open>ReadCT32\<close> to \<open>WriteP4HH\<close>, computed from the page tables) agree in all
  storage modes: an address is found exactly for the modes that exist, its word lies in the memory and its
  field in the word, reading returns that field of that word, writing replaces that field by the low bits of
  the value and leaves all other storage words and everything beyond the memory as it was.\<close>

theorem storage_word_access:
  "let (address, found) = ResolvePixelAddress psm bp bw x y;
       w = unat (pa_word_index address); s = unat (pa_bit_shift address); n = unat (pa_packed_bit_width address);
       data' = writePixel psm data bp bw x y v
   in found = IsValidPsm psm
    \<and> (found \<longrightarrow> w < 2 ^ 20 \<and> s + n \<le> 32
        \<and> readPixel psm data bp bw x y = take_bit n (drop_bit s (storageWord data w))
        \<and> (\<forall>u. storageWord data' u =
             (if u = w then (storageWord data w AND NOT (push_bit s (mask n))) OR push_bit s (take_bit n v)
              else storageWord data u))
        \<and> (\<forall>a\<ge>0x400000. data' a = data a))"
proof (cases "IsValidPsm psm")
  case True
  have "wordN psm bp bw x y < 2 ^ 20" by (simp add: wordN_def)
  then show ?thesis
    using True resolve_number [OF True, of bp bw x y] field_inside [OF True, of bp bw x y]
    by (simp add: case_prod_beta Let_def readPixel_storage [OF True] writePixel_storage [OF True]
          writePixel_bounds [OF True] take_bit_eq_mask)
next
  case False
  then show ?thesis by (cases psm) simp_all
qed

theorem storage_word_access_witness:
  "let (address, found) = ResolvePixelAddress P4HH 0 1 1 0; w = unat (pa_word_index address)
   in found \<and> w = 1 \<and> unat (pa_bit_shift address) = 28
    \<and> (\<forall>u. u \<noteq> w \<longrightarrow> storageWord (writePixel P4HH (\<lambda>a. 7) 0 1 1 0 5) u = storageWord (\<lambda>a. 7) u)"
proof -
  have "pa_word_index (fst (ResolvePixelAddress P4HH 0 1 1 0)) = 1
      \<and> pa_bit_shift (fst (ResolvePixelAddress P4HH 0 1 1 0)) = 28" by code_simp
  then show ?thesis
    using storage_word_access [of P4HH 0 1 1 0 "\<lambda>a. 7" 5] by (simp add: case_prod_beta Let_def)
qed

section \<open>Pixels of a buffer\<close>

text \<open>The pixels inside the width of a buffer whose page lies within the 512 pages of the memory, counted
  from the buffer's own (the count wraps at the end of the memory).\<close>

definition withinBuffer :: "PixelStorageMode \<Rightarrow> u32 \<Rightarrow> u32 \<Rightarrow> u32 \<Rightarrow> bool" where
  "withinBuffer psm bw x y \<longleftrightarrow>
     unat x div pX psm < pagesPerRow psm bw
     \<and> unat y div pY psm * pagesPerRow psm bw + unat x div pX psm < 512"

definition relativeN :: "PixelStorageMode \<Rightarrow> u32 \<Rightarrow> u32 \<Rightarrow> u32 \<Rightarrow> nat" where
  "relativeN psm bw x y = (unat y div pY psm * pagesPerRow psm bw + unat x div pX psm) * (32 * ppb psm)
     + localN psm (unat x) (unat y)"

lemma pixelN_relative: "pixelN psm bp bw x y = unat bp * ppb psm + relativeN psm bw x y"
  by (simp add: pixelN_def relativeN_def algebra_simps)

lemma memory_ring: "IsValidPsm psm \<Longrightarrow> 512 * (32 * ppb psm) * unat (UnpackedBitWidth psm) = 2 ^ 25"
  by (cases psm) simp_all

lemma relativeN_bound:
  assumes "IsValidPsm psm" "withinBuffer psm bw x y"
  shows "relativeN psm bw x y * unat (UnpackedBitWidth psm) < 2 ^ 25"
proof -
  have "0 < unat (UnpackedBitWidth psm)" using assms(1) by (cases psm) simp_all
  moreover have "relativeN psm bw x y < 512 * (32 * ppb psm)"
  proof -
    have "p * q + l < 512 * q" if "p < 512" "l < q" for p q l :: nat
    proof -
      have "p * q + l < Suc p * q" using that(2) by simp
      also have "\<dots> \<le> 512 * q" using that(1) by (intro mult_le_mono1) simp
      finally show ?thesis .
    qed
    then show ?thesis
      using assms(2) localN_bound [OF assms(1)] unfolding relativeN_def withinBuffer_def by blast
  qed
  ultimately show ?thesis unfolding memory_ring [OF assms(1), symmetric] by simp
qed

lemma localN_page: "IsValidPsm psm \<Longrightarrow> localN psm x y = localN psm (x mod pX psm) (y mod pY psm)"
  unfolding localN_def by (simp only: shapes(1,2) mod_of_div)

lemma quotient_unique: "a * q + r = b * q + s \<Longrightarrow> r < q \<Longrightarrow> s < q \<Longrightarrow> a = b \<and> r = s" for a q :: nat
  by (metis add.commute div_mult_self3 div_less gr_implies_not0 mod_less mod_mult_self3 add_0)

lemma relativeN_injective:
  assumes v: "IsValidPsm psm" and w: "withinBuffer psm bw x y" "withinBuffer psm bw x' y'"
    and e: "relativeN psm bw x y = relativeN psm bw x' y'"
  shows "x = x' \<and> y = y'"
proof -
  have p: "0 < pX psm" "0 < pY psm" using v by (cases psm; simp)+
  have q: "unat y div pY psm * pagesPerRow psm bw + unat x div pX psm
        = unat y' div pY psm * pagesPerRow psm bw + unat x' div pX psm"
      "localN psm (unat x) (unat y) = localN psm (unat x') (unat y')"
    using quotient_unique [OF e [unfolded relativeN_def]] localN_bound [OF v] by simp_all
  have d: "unat y div pY psm = unat y' div pY psm" "unat x div pX psm = unat x' div pX psm"
    using quotient_unique [OF q(1)] w by (simp_all add: withinBuffer_def)
  have "unat x mod pX psm = unat x' mod pX psm \<and> unat y mod pY psm = unat y' mod pY psm"
    using q(2) unfolding localN_page [OF v, of "unat x"] localN_page [OF v, of "unat x'"]
    by (intro localN_injective [OF v]) (simp_all add: p)
  then show ?thesis using d by (metis div_mult_mod_eq word_unat_eq_iff)
qed

lemma ring_position:
  "bitN psm bp bw x y mod 2 ^ 25 = wordN psm bp bw x y * 32 + shiftN psm bp bw x y"
proof -
  have "2 ^ 25 = 32 * (2 ^ 20 :: nat)" by simp
  then show ?thesis unfolding wordN_def shiftN_def by (metis mod_mult2_eq mult.commute)
qed

lemma mod_add_cancel: "(k + a) mod m = (k + b) mod m \<Longrightarrow> a mod m = b mod m" for a b k m :: nat
proof -
  assume "(k + a) mod m = (k + b) mod m"
  then have "(int k + int a) mod int m = (int k + int b) mod int m" by (metis of_nat_add of_nat_mod)
  then have "int a mod int m = int b mod int m" by (simp add: mod_eq_dvd_iff)
  then show ?thesis by (metis of_nat_eq_iff of_nat_mod)
qed

lemma storage_injective:
  assumes v: "IsValidPsm psm" and w: "withinBuffer psm bw x y" "withinBuffer psm bw x' y'"
    and e: "wordN psm bp bw x y = wordN psm bp bw x' y'" "shiftN psm bp bw x y = shiftN psm bp bw x' y'"
  shows "x = x' \<and> y = y'"
proof -
  let ?U = "unat (UnpackedBitWidth psm)"
  let ?k = "unat bp * ppb psm * ?U + unat (BitOffset psm)"
  have "bitN psm bp bw x y mod 2 ^ 25 = bitN psm bp bw x' y' mod 2 ^ 25"
    by (simp only: ring_position e)
  moreover have "(2 ^ 25 :: nat) dvd 2 ^ 32" by (rule le_imp_power_dvd) simp
  ultimately have "(pixelN psm bp bw x y * ?U + unat (BitOffset psm)) mod 2 ^ 25
      = (pixelN psm bp bw x' y' * ?U + unat (BitOffset psm)) mod 2 ^ 25"
    unfolding bitN_def by (simp only: mod_mod_cancel)
  then have "(?k + relativeN psm bw x y * ?U) mod 2 ^ 25 = (?k + relativeN psm bw x' y' * ?U) mod 2 ^ 25"
    by (simp add: pixelN_relative algebra_simps)
  then have "relativeN psm bw x y * ?U mod 2 ^ 25 = relativeN psm bw x' y' * ?U mod 2 ^ 25"
    by (rule mod_add_cancel)
  then have "relativeN psm bw x y * ?U = relativeN psm bw x' y' * ?U"
    by (simp only: mod_less relativeN_bound [OF v] w)
  moreover have "0 < ?U" using v by (cases psm) simp_all
  ultimately show ?thesis using relativeN_injective [OF v w] by simp
qed

text \<open>C22. In every storage mode, after a pixel of a buffer is written, reading it returns the value cut to
  the width of the mode, and every other pixel of the buffer reads as before, wherever the buffer starts, also
  when it wraps at the end of the memory. The buffer is at most the 512 pages of the memory, and its pixels
  are those inside its width.\<close>

theorem pixel_write_read:
  assumes "IsValidPsm psm" and "withinBuffer psm bw x y" and "withinBuffer psm bw x' y'"
  shows "readPixel psm (writePixel psm data bp bw x y v) bp bw x' y'
    = (if x' = x \<and> y' = y then take_bit (unat (BitsPerPixel psm)) v else readPixel psm data bp bw x' y')"
proof -
  note parts = shifts_apart [OF assms(1), of bp bw x y x' y'] and inside = field_inside [OF assms(1)]
    and read = readPixel_storage [OF assms(1)] and written = writePixel_storage [OF assms(1)]
  have "x' = x \<and> y' = y" if "wordN psm bp bw x' y' = wordN psm bp bw x y"
      "shiftN psm bp bw x y = shiftN psm bp bw x' y'"
    using storage_injective [OF assms that(1) [symmetric] that(2)] by simp
  then consider (same) "x' = x" "y' = y"
    | (apart) "wordN psm bp bw x' y' = wordN psm bp bw x y" "shiftN psm bp bw x y \<noteq> shiftN psm bp bw x' y'"
    | (other) "wordN psm bp bw x' y' \<noteq> wordN psm bp bw x y" by blast
  then show ?thesis
  proof cases
    case same
    then show ?thesis unfolding read written Let_def by (simp only: field_same [OF inside] simp_thms if_True)
  next
    case apart
    then have n: "\<not> (x' = x \<and> y' = y)" by auto
    from apart(1) n show ?thesis unfolding read written Let_def by (simp only: field_apart [OF parts [OF apart(2)]] refl if_True if_False)
  next
    case other
    then have "\<not> (x' = x \<and> y' = y)" by auto
    with other show ?thesis unfolding read written Let_def by (simp only: if_False)
  qed
qed

text \<open>A 4-bit buffer that starts on the last block of the memory and goes on at its beginning.\<close>

theorem pixel_write_read_witness:
  "readPixel P4 (writePixel P4 (\<lambda>a. 0x77) 16383 2 3 9 0x1A) 16383 2 3 9 = 0xA
   \<and> readPixel P4 (writePixel P4 (\<lambda>a. 0x77) 16383 2 3 9 0x1A) 16383 2 127 127
     = readPixel P4 (\<lambda>a. 0x77) 16383 2 127 127"
proof -
  have "withinBuffer P4 2 3 9" "withinBuffer P4 2 127 127"
    by (simp_all add: withinBuffer_def pagesPerRow_def)
  then show ?thesis
    using pixel_write_read [where psm = P4 and bp = 16383 and bw = 2 and x = 3 and y = 9 and x' = 3 and y' = 9
        and data = "\<lambda>a. 0x77" and v = "0x1A"]
      pixel_write_read [where psm = P4 and bp = 16383 and bw = 2 and x = 3 and y = 9 and x' = 127 and y' = 127
        and data = "\<lambda>a. 0x77" and v = "0x1A"] by simp
qed

end
