(* ===== verification/EeAddress.thy ===== *)
theory EeAddress
  imports Prelude
begin

text \<open>
  The EE's address map: \<open>EeAddressTranslationContext\<close> and the region predicates of
  \<open>ps2xRuntime/include/runtime/ps2_memory.h\<close> and \<open>ps2_address.h\<close>. The difference of two addresses wraps
  at 32 bits, as in the code.
\<close>

unbundle bit_operations_syntax

section \<open>Regions\<close>

definition PS2_RAM_SIZE :: u32 where "PS2_RAM_SIZE = 0x2000000"
definition PS2_RAM_MASK :: u32 where "PS2_RAM_MASK = PS2_RAM_SIZE - 1"
definition PS2_EE_UNCACHED_RAM_MIRROR_BASE :: u32 where "PS2_EE_UNCACHED_RAM_MIRROR_BASE = 0x20000000"
definition PS2_EE_ACCELERATED_RAM_MIRROR_BASE :: u32 where "PS2_EE_ACCELERATED_RAM_MIRROR_BASE = 0x30100000"
definition PS2_SCRATCHPAD_BASE :: u32 where "PS2_SCRATCHPAD_BASE = 0x70000000"
definition PS2_SCRATCHPAD_SIZE :: u32 where "PS2_SCRATCHPAD_SIZE = 0x4000"
definition PS2_IO_BASE :: u32 where "PS2_IO_BASE = 0x10000000"
definition PS2_IO_SIZE :: u32 where "PS2_IO_SIZE = 0x10000"
definition PS2_BIOS_BASE :: u32 where "PS2_BIOS_BASE = 0x1FC00000"
definition PS2_BIOS_SIZE :: u32 where "PS2_BIOS_SIZE = 0x400000"
definition PS2_GS_PRIV_REG_BASE :: u32 where "PS2_GS_PRIV_REG_BASE = 0x12000000"
definition PS2_GS_PRIV_REG_SIZE :: u32 where "PS2_GS_PRIV_REG_SIZE = 0x2000"
definition PS2_VU0_DATA_BASE :: u32 where "PS2_VU0_DATA_BASE = 0x11004000"
definition PS2_VU1_CODE_BASE :: u32 where "PS2_VU1_CODE_BASE = 0x11008000"
definition PS2_VU1_CODE_SIZE :: u32 where "PS2_VU1_CODE_SIZE = 0x4000"

definition PS2_EE_UNCACHED_RAM_MIRROR_SIZE :: u32 where
  "PS2_EE_UNCACHED_RAM_MIRROR_SIZE = PS2_RAM_SIZE"
definition PS2_EE_ACCELERATED_RAM_MIRROR_SIZE :: u32 where
  "PS2_EE_ACCELERATED_RAM_MIRROR_SIZE = PS2_RAM_SIZE - 0x00100000"

definition Ps2AddressInRange :: "u32 \<Rightarrow> u32 \<Rightarrow> u32 \<Rightarrow> bool" where
  "Ps2AddressInRange v base sz \<longleftrightarrow> v - base < sz"

definition Ps2IsUncachedRamMirrorAddress :: "u32 \<Rightarrow> bool" where
  "Ps2IsUncachedRamMirrorAddress addr =
     Ps2AddressInRange addr PS2_EE_UNCACHED_RAM_MIRROR_BASE PS2_EE_UNCACHED_RAM_MIRROR_SIZE"

definition Ps2IsAcceleratedRamMirrorAddress :: "u32 \<Rightarrow> bool" where
  "Ps2IsAcceleratedRamMirrorAddress addr =
     Ps2AddressInRange addr PS2_EE_ACCELERATED_RAM_MIRROR_BASE PS2_EE_ACCELERATED_RAM_MIRROR_SIZE"

definition Ps2IsKseg01Address :: "u32 \<Rightarrow> bool" where
  "Ps2IsKseg01Address addr = Ps2AddressInRange addr 0x80000000 0x40000000"

definition Ps2IsKseg23Address :: "u32 \<Rightarrow> bool" where
  "Ps2IsKseg23Address addr \<longleftrightarrow> addr \<ge> 0xC0000000"

definition Ps2DirectMappedPhysicalAddress :: "u32 \<Rightarrow> u32" where
  "Ps2DirectMappedPhysicalAddress addr = addr AND 0x1FFFFFFF"

definition Ps2PhysicalAddress :: "u32 \<Rightarrow> u32" where
  "Ps2PhysicalAddress addr = (if addr \<ge> 0x80000000 then Ps2DirectMappedPhysicalAddress addr else addr)"

definition Ps2IsPhysicalSpecialAddress :: "u32 \<Rightarrow> bool" where
  "Ps2IsPhysicalSpecialAddress physAddr \<longleftrightarrow>
     Ps2AddressInRange physAddr PS2_BIOS_BASE PS2_BIOS_SIZE
     \<or> Ps2AddressInRange physAddr PS2_SCRATCHPAD_BASE PS2_SCRATCHPAD_SIZE
     \<or> Ps2AddressInRange physAddr PS2_IO_BASE PS2_IO_SIZE
     \<or> Ps2AddressInRange physAddr PS2_GS_PRIV_REG_BASE PS2_GS_PRIV_REG_SIZE
     \<or> physAddr \<ge> PS2_VU0_DATA_BASE \<and> physAddr < PS2_VU1_CODE_BASE + PS2_VU1_CODE_SIZE"

definition Ps2IsSpecialAddress :: "u32 \<Rightarrow> bool" where
  "Ps2IsSpecialAddress addr = (Ps2IsKseg23Address addr \<or> Ps2IsPhysicalSpecialAddress (Ps2PhysicalAddress addr))"

definition ps2IsScratchpadAddress :: "u32 \<Rightarrow> bool" where
  "ps2IsScratchpadAddress addr =
     (if addr \<ge> PS2_SCRATCHPAD_BASE \<and> addr < PS2_SCRATCHPAD_BASE + PS2_SCRATCHPAD_SIZE then True
      else if addr AND 0x80000000 \<noteq> 0 then
        (let lower = addr AND 0x7FFFFFFF
         in lower \<ge> PS2_SCRATCHPAD_BASE \<and> lower < PS2_SCRATCHPAD_BASE + PS2_SCRATCHPAD_SIZE)
      else False)"

definition ps2ScratchpadOffset :: "u32 \<Rightarrow> u32" where
  "ps2ScratchpadOffset addr =
     (if addr \<ge> PS2_SCRATCHPAD_BASE \<and> addr < PS2_SCRATCHPAD_BASE + PS2_SCRATCHPAD_SIZE
      then addr - PS2_SCRATCHPAD_BASE else (addr AND 0x7FFFFFFF) - PS2_SCRATCHPAD_BASE)"

text \<open>The boolean result and the reference \<open>offset\<close>.\<close>

definition ps2ResolveDirectRdramOffset :: "u32 \<Rightarrow> bool \<times> u32" where
  "ps2ResolveDirectRdramOffset addr =
     (let physical = addr < PS2_RAM_SIZE;
          uncached = addr - PS2_EE_UNCACHED_RAM_MIRROR_BASE < PS2_EE_UNCACHED_RAM_MIRROR_SIZE;
          accelerated = addr - PS2_EE_ACCELERATED_RAM_MIRROR_BASE < PS2_EE_ACCELERATED_RAM_MIRROR_SIZE;
          kseg01 = addr - 0x80000000 < 0x40000000
      in if physical \<or> uncached \<or> accelerated \<or> kseg01 \<and> addr AND 0x1FFFFFFF < PS2_RAM_SIZE
         then (True, addr AND PS2_RAM_MASK) else (False, 0))"

text \<open>The boolean result, the offset and \<open>scratch\<close>.\<close>

definition ps2ResolveGuestPointer :: "u32 \<Rightarrow> bool \<times> u32 \<times> bool" where
  "ps2ResolveGuestPointer addr =
     (if ps2IsScratchpadAddress addr then (True, ps2ScratchpadOffset addr, True)
      else case ps2ResolveDirectRdramOffset addr of (found, offset) \<Rightarrow> (found, offset, False))"

definition Ps2CanUseFastRdramAccess :: "u32 \<Rightarrow> u32 \<Rightarrow> bool" where
  "Ps2CanUseFastRdramAccess addr bytes =
     (if bytes = 0 \<or> bytes > PS2_RAM_SIZE \<or> addr mod bytes \<noteq> 0 then False
      else case ps2ResolveDirectRdramOffset addr of (found, offset) \<Rightarrow> found \<and> offset \<le> PS2_RAM_SIZE - bytes)"

definition Ps2IsEeBusErrorPhysicalAddress :: "u32 \<Rightarrow> bool" where
  "Ps2IsEeBusErrorPhysicalAddress physicalAddress \<longleftrightarrow>
     physicalAddress \<ge> 0x11010000 \<and> physicalAddress < 0x12000000
     \<or> physicalAddress \<ge> 0x12010000 \<and> physicalAddress < 0x14000000
     \<or> physicalAddress \<ge> 0x20000000 \<and> physicalAddress < 0x40000000
     \<or> physicalAddress \<ge> 0x80000000"

section \<open>Translation contexts\<close>

datatype EeAddressSpaceMode = Kernel | Supervisor | User | Reserved

record translation_context =
  tc_mode :: EeAddressSpaceMode
  tc_enforceOperatingMode :: bool
  tc_errorLevel :: bool
  tc_asid :: u8

definition unchecked_context :: translation_context where
  "unchecked_context = \<lparr>tc_mode = Kernel, tc_enforceOperatingMode = False, tc_errorLevel = False, tc_asid = 0\<rparr>"

definition fromCop0Status :: "u32 \<Rightarrow> u8 \<Rightarrow> translation_context" where
  "fromCop0Status status asid =
     (let errorLevelActive = (status AND 0x4 \<noteq> 0); ksu = status AND 0x18
      in if status AND (0x2 OR 0x4) \<noteq> 0 then \<lparr>tc_mode = Kernel, tc_enforceOperatingMode = True, tc_errorLevel = errorLevelActive, tc_asid = asid\<rparr>
         else \<lparr>tc_mode = (if ksu = 0 then Kernel else if ksu = 0x8 then Supervisor else if ksu = 0x10 then User else Reserved),
                tc_enforceOperatingMode = True, tc_errorLevel = False, tc_asid = asid\<rparr>)"

definition permits :: "translation_context \<Rightarrow> u32 \<Rightarrow> bool" where
  "permits c virtualAddress =
     (if \<not> tc_enforceOperatingMode c \<or> tc_mode c = Kernel then True
      else if virtualAddress < 0x80000000 then True
      else tc_mode c = Supervisor \<and> virtualAddress \<ge> 0xC0000000 \<and> virtualAddress < 0xE0000000)"

definition mapsKusegThroughTlb :: "translation_context \<Rightarrow> u32 \<Rightarrow> bool" where
  "mapsKusegThroughTlb c virtualAddress \<longleftrightarrow>
     tc_enforceOperatingMode c \<and> \<not> tc_errorLevel c \<and> virtualAddress < 0x80000000"

end
