(* ===== verification/EeTlb.thy ===== *)
theory EeTlb
  imports EeAddress
begin

text \<open>
  The EE's address translation in \<open>ps2xRuntime/src/lib/ps2_memory.cpp\<close> (declarations in
  \<open>ps2_memory.h\<close>): the 48 TLB entries, the four-way translation cache of 4 KiB pages behind
  them, the one-entry-per-set fast cache the generated code probes, the page a validated instruction
  fetch leaves behind, and the diagnostic counters. A C++ array is a function from its index; every index
  is masked to the array's length in the code. An exception is the left value of a sum.
\<close>

unbundle bit_operations_syntax

section \<open>State\<close>

record tlb_entry =
  te_pageMask :: u32
  te_entryHi :: u32
  te_entryLo0 :: u32
  te_entryLo1 :: u32

datatype PS2TlbFaultKind = Refill | Invalid | Modified

datatype translation_error =
    AddressError u32
  | TlbFault u32 PS2TlbFaultKind

record translated =
  ta_physicalAddress :: u32
  ta_scratchpad :: bool

record translation_line =
  tl_generation :: u64
  tl_virtualPageBase :: u32
  tl_physicalPageBase :: u32
  tl_tlbPageSize :: u32
  tl_asid :: u8
  tl_mode :: EeAddressSpaceMode
  tl_enforceOperatingMode :: bool
  tl_errorLevel :: bool
  tl_valid :: bool
  tl_global :: bool
  tl_writable :: bool
  tl_scratchpad :: bool

definition emptyLine :: translation_line where
  "emptyLine = \<lparr>tl_generation = 0, tl_virtualPageBase = 0, tl_physicalPageBase = 0, tl_tlbPageSize = 0, tl_asid = 0,
     tl_mode = Kernel, tl_enforceOperatingMode = False, tl_errorLevel = False, tl_valid = False, tl_global = False,
     tl_writable = False, tl_scratchpad = False\<rparr>"

record fast_line =
  fl_generation :: u64
  fl_key :: u64
  fl_matchMask :: u64
  fl_physicalPageBase :: u32

definition emptyFastLine :: fast_line where
  "emptyFastLine = \<lparr>fl_generation = 0, fl_key = 0, fl_matchMask = 0, fl_physicalPageBase = 0\<rparr>"

record tlb_stats =
  st_hits :: u64
  st_misses :: u64
  st_permissionMisses :: u64
  st_generationMisses :: u64
  st_intervalCrossings :: u64
  st_slowPathFaults :: u64
  st_fills :: u64
  st_replacements :: u64
  st_mappingChanges :: u64
  st_fastHits :: u64
  st_fastMisses :: u64
  st_backingHits :: u64
  st_backingMisses :: u64
  st_fastFills :: u64
  st_fastReplacements :: u64

definition emptyStats :: tlb_stats where
  "emptyStats = \<lparr>st_hits = 0, st_misses = 0, st_permissionMisses = 0, st_generationMisses = 0,
     st_intervalCrossings = 0, st_slowPathFaults = 0, st_fills = 0, st_replacements = 0, st_mappingChanges = 0,
     st_fastHits = 0, st_fastMisses = 0, st_backingHits = 0, st_backingMisses = 0, st_fastFills = 0,
     st_fastReplacements = 0\<rparr>"

record tlb_state =
  ts_entries :: "tlb_entry list"
  ts_postBiosConfigured :: bool
  ts_generation :: u64
  ts_cacheEnabled :: bool
  ts_diagnostics :: bool
  ts_fetchGeneration :: u64
  ts_fetchKey :: u32
  ts_stats :: tlb_stats
  ts_cache :: "nat \<Rightarrow> nat \<Rightarrow> translation_line"
  ts_nextWay :: "nat \<Rightarrow> u8"
  ts_fast :: "nat \<Rightarrow> fast_line"

definition tlb_new :: tlb_state where
  "tlb_new = \<lparr>ts_entries = [], ts_postBiosConfigured = False, ts_generation = 1, ts_cacheEnabled = True,
     ts_diagnostics = False, ts_fetchGeneration = 0, ts_fetchKey = 0, ts_stats = emptyStats,
     ts_cache = (\<lambda>_ _. emptyLine), ts_nextWay = (\<lambda>_. 0), ts_fast = (\<lambda>_. emptyFastLine)\<rparr>"

text \<open>Counting is guarded by the diagnostics flag wherever the code counts.\<close>

definition tally :: "(tlb_stats \<Rightarrow> tlb_stats) \<Rightarrow> tlb_state \<Rightarrow> tlb_state" where
  "tally f s = (if ts_diagnostics s then s\<lparr>ts_stats := f (ts_stats s)\<rparr> else s)"

section \<open>Generations\<close>

definition clearTlbTranslationCache :: "tlb_state \<Rightarrow> tlb_state" where
  "clearTlbTranslationCache s = s\<lparr>ts_cache := (\<lambda>_ _. emptyLine), ts_nextWay := (\<lambda>_. 0),
     ts_fast := (\<lambda>_. emptyFastLine), ts_fetchGeneration := 0, ts_fetchKey := 0\<rparr>"

definition advanceTlbMappingGeneration :: "tlb_state \<Rightarrow> tlb_state" where
  "advanceTlbMappingGeneration s =
     (let s1 = tally (\<lambda>x. x\<lparr>st_mappingChanges := st_mappingChanges x + 1\<rparr>) s
      in if ts_generation s1 = u64_max then (clearTlbTranslationCache s1)\<lparr>ts_generation := 1\<rparr>
         else s1\<lparr>ts_generation := ts_generation s1 + 1\<rparr>)"

definition recordTlbTranslationSlowPathFault :: "tlb_state \<Rightarrow> tlb_state" where
  "recordTlbTranslationSlowPathFault s =
     (if ts_cacheEnabled s then tally (\<lambda>x. x\<lparr>st_slowPathFaults := st_slowPathFaults x + 1\<rparr>) s else s)"

section \<open>The fast cache\<close>

definition kTlbTranslationCacheSetCount :: u32 where "kTlbTranslationCacheSetCount = 32"
definition kTlbTranslationCacheWayCount :: nat where "kTlbTranslationCacheWayCount = 4"
definition kTlbFastCacheSetCount :: u32 where "kTlbFastCacheSetCount = 512"
definition kTlbTranslationCachePageSize :: u32 where "kTlbTranslationCachePageSize = 0x1000"

definition fastSet :: "u32 \<Rightarrow> nat" where
  "fastSet virtualAddress = unat (drop_bit 12 virtualAddress AND (kTlbFastCacheSetCount - 1))"

definition cacheSet :: "u32 \<Rightarrow> nat" where
  "cacheSet virtualAddress = unat (drop_bit 12 virtualAddress AND (kTlbTranslationCacheSetCount - 1))"

definition pageBase :: "u32 \<Rightarrow> u32" where
  "pageBase virtualAddress = virtualAddress AND NOT (kTlbTranslationCachePageSize - 1)"

definition pageOffset :: "u32 \<Rightarrow> u32" where
  "pageOffset virtualAddress = virtualAddress AND (kTlbTranslationCachePageSize - 1)"

fun modeNumber :: "EeAddressSpaceMode \<Rightarrow> u64" where
  "modeNumber Kernel = 0"
| "modeNumber Supervisor = 1"
| "modeNumber User = 2"
| "modeNumber Reserved = 3"

definition makeTlbFastCacheKey :: "u32 \<Rightarrow> translation_context \<Rightarrow> bool \<Rightarrow> u64" where
  "makeTlbFastCacheKey virtualAddress c writeAccess =
     ucast (pageBase virtualAddress) OR ucast (tc_asid c) OR push_bit 8 (modeNumber (tc_mode c))
     OR push_bit 10 (of_bool (tc_enforceOperatingMode c)) OR push_bit 11 (of_bool (tc_errorLevel c))
     OR push_bit 32 (of_bool writeAccess)"

definition fillTlbFastCache ::
  "u32 \<Rightarrow> u32 \<Rightarrow> translation_context \<Rightarrow> bool \<Rightarrow> bool \<Rightarrow> tlb_state \<Rightarrow> tlb_state" where
  "fillTlbFastCache virtualPageBase physicalPageBase c global writable s =
     (let setIndex = fastSet virtualPageBase;
          entry = ts_fast s setIndex;
          key = makeTlbFastCacheKey virtualPageBase c False;
          m0 = (NOT 0 :: u64);
          m1 = (if global then m0 AND NOT 0xff else m0);
          matchMask = (if writable then m1 AND NOT (push_bit 32 1) else m1);
          sameLine = (fl_generation entry = ts_generation s \<and> fl_key entry = key
            \<and> fl_matchMask entry = matchMask \<and> fl_physicalPageBase entry = physicalPageBase)
      in if sameLine then s
         else let s1 = (if fl_generation entry = ts_generation s
                        then tally (\<lambda>x. x\<lparr>st_fastReplacements := st_fastReplacements x + 1\<rparr>) s else s);
                  s2 = s1\<lparr>ts_fast := (ts_fast s1)(setIndex := \<lparr>fl_generation = ts_generation s, fl_key = key,
                         fl_matchMask = matchMask, fl_physicalPageBase = physicalPageBase\<rparr>)\<rparr>
              in tally (\<lambda>x. x\<lparr>st_fastFills := st_fastFills x + 1\<rparr>) s2)"

definition recordTlbFastCacheRejectedAccess :: "bool \<Rightarrow> tlb_stats \<Rightarrow> tlb_stats" where
  "recordTlbFastCacheRejectedAccess intervalCrossing x =
     (let x1 = (if intervalCrossing then x\<lparr>st_intervalCrossings := st_intervalCrossings x + 1\<rparr> else x)
      in x1\<lparr>st_misses := st_misses x1 + 1\<rparr>)"

definition recordTlbFastCacheHit :: "tlb_stats \<Rightarrow> tlb_stats" where
  "recordTlbFastCacheHit x = x\<lparr>st_hits := st_hits x + 1, st_fastHits := st_fastHits x + 1\<rparr>"

definition recordTlbFastCacheMiss :: "u64 \<Rightarrow> fast_line \<Rightarrow> u64 \<Rightarrow> bool \<Rightarrow> tlb_stats \<Rightarrow> tlb_stats" where
  "recordTlbFastCacheMiss generation entry requestKey writeAccess x =
     (let x1 = x\<lparr>st_misses := st_misses x + 1, st_fastMisses := st_fastMisses x + 1\<rparr>;
          generationMatches = (fl_generation entry = generation);
          keyMatches = ((requestKey XOR fl_key entry) AND fl_matchMask entry = 0);
          x2 = (if \<not> generationMatches \<and> fl_generation entry \<noteq> 0 \<and> keyMatches
                then x1\<lparr>st_generationMisses := st_generationMisses x1 + 1\<rparr> else x1)
      in if generationMatches \<and> writeAccess \<and> \<not> keyMatches
            \<and> ((requestKey AND NOT (push_bit 32 1)) XOR fl_key entry) AND fl_matchMask entry = 0
         then x2\<lparr>st_permissionMisses := st_permissionMisses x2 + 1\<rparr> else x2)"

definition supportedAccessSize :: "u32 \<Rightarrow> bool" where
  "supportedAccessSize accessSize \<longleftrightarrow> accessSize \<noteq> 0 \<and> accessSize \<le> 16 \<and> accessSize AND (accessSize - 1) = 0"

text \<open>The boolean result is \<open>Some\<close>; a failed call leaves \<open>physicalOffset\<close> alone.\<close>

definition tryResolveCachedTlbRdramOffset ::
  "u32 \<Rightarrow> translation_context \<Rightarrow> bool \<Rightarrow> u32 \<Rightarrow> tlb_state \<Rightarrow> u32 option \<times> tlb_state" where
  "tryResolveCachedTlbRdramOffset virtualAddress c writeAccess accessSize s =
     (if \<not> ts_cacheEnabled s then (None, s)
      else if \<not> supportedAccessSize accessSize \<or> \<not> permits c virtualAddress then
        (None, tally (recordTlbFastCacheRejectedAccess False) s)
      else if accessSize > kTlbTranslationCachePageSize - pageOffset virtualAddress then
        (None, tally (recordTlbFastCacheRejectedAccess True) s)
      else if virtualAddress AND (accessSize - 1) \<noteq> 0 then
        (None, tally (recordTlbFastCacheRejectedAccess False) s)
      else let entry = ts_fast s (fastSet virtualAddress);
               requestKey = makeTlbFastCacheKey virtualAddress c writeAccess;
               resolved = fl_physicalPageBase entry + pageOffset virtualAddress
           in if fl_generation entry = ts_generation s
                 \<and> (requestKey XOR fl_key entry) AND fl_matchMask entry = 0
                 \<and> resolved \<le> PS2_RAM_SIZE - accessSize
              then (Some resolved, tally recordTlbFastCacheHit s)
              else (None, tally (recordTlbFastCacheMiss (ts_generation s) entry requestKey writeAccess) s))"

text \<open>The template for a fixed access size, which the generated code uses.\<close>

definition tryResolveCachedTlbRdramOffsetFixed ::
  "u32 \<Rightarrow> bool \<Rightarrow> u32 \<Rightarrow> translation_context \<Rightarrow> tlb_state \<Rightarrow> u32 option \<times> tlb_state" where
  "tryResolveCachedTlbRdramOffsetFixed accessSize writeAccess virtualAddress c s =
     (if \<not> ts_cacheEnabled s then (None, s)
      else if \<not> permits c virtualAddress then (None, tally (recordTlbFastCacheRejectedAccess False) s)
      else if pageOffset virtualAddress > kTlbTranslationCachePageSize - accessSize then
        (None, tally (recordTlbFastCacheRejectedAccess True) s)
      else if virtualAddress AND (accessSize - 1) \<noteq> 0 then
        (None, tally (recordTlbFastCacheRejectedAccess False) s)
      else let entry = ts_fast s (fastSet virtualAddress);
               requestKey = makeTlbFastCacheKey virtualAddress c writeAccess;
               resolved = fl_physicalPageBase entry + pageOffset virtualAddress
           in if fl_generation entry = ts_generation s
                 \<and> (requestKey XOR fl_key entry) AND fl_matchMask entry = 0
                 \<and> resolved \<le> PS2_RAM_SIZE - accessSize
              then (Some resolved, tally recordTlbFastCacheHit s)
              else (None, tally (recordTlbFastCacheMiss (ts_generation s) entry requestKey writeAccess) s))"

section \<open>The translation cache\<close>

text \<open>Does a line stand for the page in this address space, as \<open>lookupTlbTranslationCache\<close> compares them?\<close>

definition lineMatches :: "translation_line \<Rightarrow> u32 \<Rightarrow> translation_context \<Rightarrow> bool" where
  "lineMatches entry virtualPageBase c \<longleftrightarrow>
     \<not> (\<not> tl_valid entry \<or> tl_scratchpad entry \<or> tl_virtualPageBase entry \<noteq> virtualPageBase
        \<or> tl_mode entry \<noteq> tc_mode c \<or> tl_enforceOperatingMode entry \<noteq> tc_enforceOperatingMode c
        \<or> tl_errorLevel entry \<noteq> tc_errorLevel c \<or> \<not> tl_global entry \<and> tl_asid entry \<noteq> tc_asid c)"

text \<open>The loop over the ways, with \<open>generationMiss\<close> and \<open>permissionMiss\<close>.\<close>

primrec lookupWays ::
  "u32 \<Rightarrow> translation_context \<Rightarrow> bool \<Rightarrow> u32 \<Rightarrow> u64 \<Rightarrow> translation_line list \<Rightarrow> bool \<times> bool
   \<Rightarrow> translation_line option \<times> bool \<times> bool" where
  "lookupWays virtualAddress c writeAccess accessSize generation [] misses = (None, misses)"
| "lookupWays virtualAddress c writeAccess accessSize generation (entry # ways) misses =
     (if \<not> lineMatches entry (pageBase virtualAddress) c then
        lookupWays virtualAddress c writeAccess accessSize generation ways misses
      else if tl_generation entry \<noteq> generation then
        lookupWays virtualAddress c writeAccess accessSize generation ways (True, snd misses)
      else if writeAccess \<and> \<not> tl_writable entry then
        lookupWays virtualAddress c writeAccess accessSize generation ways (fst misses, True)
      else if tl_physicalPageBase entry + pageOffset virtualAddress > PS2_RAM_SIZE - accessSize then
        lookupWays virtualAddress c writeAccess accessSize generation ways misses
      else (Some entry, misses))"

definition backingMiss :: "tlb_stats \<Rightarrow> tlb_stats" where
  "backingMiss x = x\<lparr>st_misses := st_misses x + 1, st_backingMisses := st_backingMisses x + 1\<rparr>"

definition lookupTlbTranslationCache ::
  "u32 \<Rightarrow> translation_context \<Rightarrow> bool \<Rightarrow> u32 \<Rightarrow> tlb_state \<Rightarrow> translated option \<times> tlb_state" where
  "lookupTlbTranslationCache virtualAddress c writeAccess accessSize s =
     (if \<not> ts_cacheEnabled s then (None, s)
      else if \<not> supportedAccessSize accessSize \<or> \<not> permits c virtualAddress then (None, tally backingMiss s)
      else if accessSize > kTlbTranslationCachePageSize - pageOffset virtualAddress then
        (None, tally (\<lambda>x. backingMiss (x\<lparr>st_intervalCrossings := st_intervalCrossings x + 1\<rparr>)) s)
      else if virtualAddress AND (accessSize - 1) \<noteq> 0 then (None, tally backingMiss s)
      else case lookupWays virtualAddress c writeAccess accessSize (ts_generation s)
                  (map (ts_cache s (cacheSet virtualAddress)) [0..<kTlbTranslationCacheWayCount]) (False, False) of
        (Some entry, misses) \<Rightarrow>
          (let s1 = fillTlbFastCache (tl_virtualPageBase entry) (tl_physicalPageBase entry) c
                      (tl_global entry) (tl_writable entry) s
           in (Some \<lparr>ta_physicalAddress = tl_physicalPageBase entry + pageOffset virtualAddress, ta_scratchpad = False\<rparr>,
               tally (\<lambda>x. x\<lparr>st_hits := st_hits x + 1, st_backingHits := st_backingHits x + 1\<rparr>) s1))
      | (None, generationMiss, permissionMiss) \<Rightarrow>
          (None, tally (\<lambda>x. let x1 = backingMiss x;
                                x2 = (if generationMiss then x1\<lparr>st_generationMisses := st_generationMisses x1 + 1\<rparr> else x1)
                            in if permissionMiss then x2\<lparr>st_permissionMisses := st_permissionMisses x2 + 1\<rparr> else x2) s))"

definition sameAddressSpace :: "translation_line \<Rightarrow> u64 \<Rightarrow> u32 \<Rightarrow> translation_context \<Rightarrow> bool \<Rightarrow> bool" where
  "sameAddressSpace entry generation virtualPageBase c global \<longleftrightarrow>
     tl_valid entry \<and> tl_generation entry = generation \<and> tl_virtualPageBase entry = virtualPageBase
     \<and> tl_mode entry = tc_mode c \<and> tl_enforceOperatingMode entry = tc_enforceOperatingMode c
     \<and> tl_errorLevel entry = tc_errorLevel c \<and> tl_global entry = global
     \<and> (global \<or> tl_asid entry = tc_asid c)"

text \<open>The loop that picks the way: the line of the address space itself, else the first stale one.\<close>

primrec selectWay ::
  "u64 \<Rightarrow> u32 \<Rightarrow> translation_context \<Rightarrow> bool \<Rightarrow> (nat \<Rightarrow> translation_line) \<Rightarrow> nat list \<Rightarrow> nat \<Rightarrow> nat" where
  "selectWay generation virtualPageBase c global lines [] selectedWay = selectedWay"
| "selectWay generation virtualPageBase c global lines (way # ways) selectedWay =
     (if sameAddressSpace (lines way) generation virtualPageBase c global then way
      else selectWay generation virtualPageBase c global lines ways
             (if selectedWay = kTlbTranslationCacheWayCount \<and> tl_generation (lines way) \<noteq> generation
              then way else selectedWay))"

definition fillTlbTranslationCache ::
  "u32 \<Rightarrow> translated \<Rightarrow> translation_context \<Rightarrow> u32 \<Rightarrow> bool \<Rightarrow> bool \<Rightarrow> tlb_state \<Rightarrow> tlb_state" where
  "fillTlbTranslationCache virtualAddress t c tlbPageSize global writable s =
     (if \<not> ts_cacheEnabled s then s
      else if ta_scratchpad t then s
      else if pageOffset (ta_physicalAddress t) \<noteq> pageOffset virtualAddress then s
      else let physicalPageBase = ta_physicalAddress t - pageOffset virtualAddress
           in if physicalPageBase > PS2_RAM_SIZE - kTlbTranslationCachePageSize then s
           else let virtualPageBase = pageBase virtualAddress;
                    setIndex = cacheSet virtualAddress;
                    way0 = selectWay (ts_generation s) virtualPageBase c global (ts_cache s setIndex)
                             [0..<kTlbTranslationCacheWayCount] kTlbTranslationCacheWayCount;
                    (way, s1) =
                      (if way0 = kTlbTranslationCacheWayCount
                       then let selected = unat (ts_nextWay s setIndex)
                            in (selected, tally (\<lambda>x. x\<lparr>st_replacements := st_replacements x + 1\<rparr>)
                                  (s\<lparr>ts_nextWay := (ts_nextWay s)(setIndex :=
                                       of_nat ((selected + 1) mod kTlbTranslationCacheWayCount))\<rparr>))
                       else (way0, s));
                    line = \<lparr>tl_generation = ts_generation s, tl_virtualPageBase = virtualPageBase,
                       tl_physicalPageBase = physicalPageBase, tl_tlbPageSize = tlbPageSize, tl_asid = tc_asid c,
                       tl_mode = tc_mode c, tl_enforceOperatingMode = tc_enforceOperatingMode c,
                       tl_errorLevel = tc_errorLevel c, tl_valid = True, tl_global = global, tl_writable = writable,
                       tl_scratchpad = ta_scratchpad t\<rparr>;
                    s2 = s1\<lparr>ts_cache := (ts_cache s1)(setIndex := (ts_cache s1 setIndex)(way := line))\<rparr>;
                    s3 = fillTlbFastCache virtualPageBase physicalPageBase c global writable s2
                in tally (\<lambda>x. x\<lparr>st_fills := st_fills x + 1\<rparr>) s3)"

section \<open>Translation\<close>

definition entryPageMask :: "tlb_entry \<Rightarrow> u32" where
  "entryPageMask entry = te_pageMask entry AND 0x01ffe000"

definition entryScratchpad :: "tlb_entry \<Rightarrow> bool" where
  "entryScratchpad entry \<longleftrightarrow> te_entryLo0 entry AND 0x80000000 \<noteq> 0"

definition entryGlobal :: "tlb_entry \<Rightarrow> bool" where
  "entryGlobal entry \<longleftrightarrow> te_entryLo0 entry AND 0x1 \<noteq> 0"

definition compareMask :: "tlb_entry \<Rightarrow> u32" where
  "compareMask entry = NOT (if entryScratchpad entry then 0x00003fff else entryPageMask entry OR 0x00001fff)"

definition pageMatches :: "u32 \<Rightarrow> tlb_entry \<Rightarrow> bool" where
  "pageMatches virtualAddress entry \<longleftrightarrow>
     virtualAddress AND compareMask entry = te_entryHi entry AND 0xffffe000 AND compareMask entry"

definition entryMatches :: "u32 \<Rightarrow> u8 \<Rightarrow> tlb_entry \<Rightarrow> bool" where
  "entryMatches virtualAddress asid entry \<longleftrightarrow>
     pageMatches virtualAddress entry \<and> (entryGlobal entry \<or> te_entryHi entry AND 0xff = ucast asid)"

definition entryPageSize :: "tlb_entry \<Rightarrow> u32" where
  "entryPageSize entry = push_bit 12 (drop_bit 13 (entryPageMask entry) + 1)"

definition selectedLo :: "u32 \<Rightarrow> tlb_entry \<Rightarrow> u32" where
  "selectedLo virtualAddress entry =
     (if entryScratchpad entry \<or> virtualAddress AND entryPageSize entry = 0 then te_entryLo0 entry else te_entryLo1 entry)"

text \<open>What a matching entry makes of an address: the fault, or the address, the page size and whether
  the page may be written.\<close>

definition entryTranslation :: "u32 \<Rightarrow> bool \<Rightarrow> tlb_entry \<Rightarrow> translation_error + (translated \<times> u32 \<times> bool)" where
  "entryTranslation virtualAddress writeAccess entry =
     (let entryLo = selectedLo virtualAddress entry; dirty = (entryLo AND 0x4 \<noteq> 0)
      in if entryLo AND 0x2 = 0 then Inl (TlbFault virtualAddress Invalid)
         else if writeAccess \<and> \<not> dirty then Inl (TlbFault virtualAddress Modified)
         else if entryScratchpad entry then
           Inr (\<lparr>ta_physicalAddress = virtualAddress AND 0x00003fff, ta_scratchpad = True\<rparr>, 0x00004000, dirty)
         else let pageOffsetMask = entryPageSize entry - 1;
                  pfnMask = drop_bit 13 (entryPageMask entry);
                  pfn = drop_bit 6 (entryLo AND 0x03ffffc0) AND NOT pfnMask
              in Inr (\<lparr>ta_physicalAddress = push_bit 12 pfn OR (virtualAddress AND pageOffsetMask), ta_scratchpad = False\<rparr>,
                   entryPageSize entry, dirty))"

text \<open>The loop over the entries and what follows it.\<close>

definition translateThroughTlb ::
  "u32 \<Rightarrow> translation_context \<Rightarrow> bool \<Rightarrow> bool \<Rightarrow> tlb_state \<Rightarrow> (translation_error + translated) \<times> tlb_state" where
  "translateThroughTlb virtualAddress c writeAccess allowTlbCache s =
     (let faulted = (if allowTlbCache then recordTlbTranslationSlowPathFault s else s)
      in case find (entryMatches virtualAddress (tc_asid c)) (ts_entries s) of
        None \<Rightarrow> (Inl (TlbFault virtualAddress Refill), faulted)
      | Some entry \<Rightarrow>
          (case entryTranslation virtualAddress writeAccess entry of
             Inl e \<Rightarrow> (Inl e, faulted)
           | Inr (t, pageSize, dirty) \<Rightarrow>
               (Inr t, if allowTlbCache
                  then fillTlbTranslationCache virtualAddress t c pageSize (entryGlobal entry) dirty s else s)))"

definition translateAddressImpl ::
  "u32 \<Rightarrow> translation_context \<Rightarrow> bool \<Rightarrow> u32 \<Rightarrow> bool \<Rightarrow> tlb_state
   \<Rightarrow> (translation_error + translated) \<times> tlb_state" where
  "translateAddressImpl virtualAddress c writeAccess accessSize allowTlbCache s =
     (if \<not> permits c virtualAddress then (Inl (AddressError virtualAddress), s)
      else if ps2IsScratchpadAddress virtualAddress then
        (Inr \<lparr>ta_physicalAddress = ps2ScratchpadOffset virtualAddress, ta_scratchpad = True\<rparr>, s)
      else if virtualAddress < 0x80000000 \<and> Ps2IsPhysicalSpecialAddress virtualAddress then
        (Inr \<lparr>ta_physicalAddress = virtualAddress, ta_scratchpad = False\<rparr>, s)
      else if Ps2IsUncachedRamMirrorAddress virtualAddress then
        (Inr \<lparr>ta_physicalAddress = virtualAddress AND PS2_RAM_MASK, ta_scratchpad = False\<rparr>, s)
      else if Ps2IsAcceleratedRamMirrorAddress virtualAddress then
        (Inr \<lparr>ta_physicalAddress = virtualAddress AND PS2_RAM_MASK, ta_scratchpad = False\<rparr>, s)
      else if tc_errorLevel c \<and> virtualAddress < 0x80000000 then
        (Inr \<lparr>ta_physicalAddress = virtualAddress, ta_scratchpad = False\<rparr>, s)
      else if Ps2IsKseg01Address virtualAddress then
        (Inr \<lparr>ta_physicalAddress = Ps2DirectMappedPhysicalAddress virtualAddress, ta_scratchpad = False\<rparr>, s)
      else if mapsKusegThroughTlb c virtualAddress \<or> Ps2IsKseg23Address virtualAddress then
        (case (if allowTlbCache then lookupTlbTranslationCache virtualAddress c writeAccess accessSize s else (None, s)) of
           (Some cached, s1) \<Rightarrow> (Inr cached, s1)
         | (None, s1) \<Rightarrow> translateThroughTlb virtualAddress c writeAccess allowTlbCache s1)
      else (Inr \<lparr>ta_physicalAddress = virtualAddress, ta_scratchpad = False\<rparr>, s))"

definition resolveAddress ::
  "u32 \<Rightarrow> translation_context \<Rightarrow> bool \<Rightarrow> u32 \<Rightarrow> tlb_state \<Rightarrow> (translation_error + translated) \<times> tlb_state" where
  "resolveAddress virtualAddress c writeAccess accessSize s =
     translateAddressImpl virtualAddress c writeAccess accessSize True s"

definition resolveAddressUncached ::
  "u32 \<Rightarrow> translation_context \<Rightarrow> bool \<Rightarrow> u32 \<Rightarrow> tlb_state \<Rightarrow> (translation_error + translated) \<times> tlb_state" where
  "resolveAddressUncached virtualAddress c writeAccess accessSize s =
     translateAddressImpl virtualAddress c writeAccess accessSize False s"

definition translateAddress ::
  "u32 \<Rightarrow> translation_context \<Rightarrow> bool \<Rightarrow> u32 \<Rightarrow> tlb_state \<Rightarrow> (translation_error + u32) \<times> tlb_state" where
  "translateAddress virtualAddress c writeAccess accessSize s =
     apfst (map_sum id ta_physicalAddress) (resolveAddress virtualAddress c writeAccess accessSize s)"

definition translateAddressUncached ::
  "u32 \<Rightarrow> translation_context \<Rightarrow> bool \<Rightarrow> u32 \<Rightarrow> tlb_state \<Rightarrow> (translation_error + u32) \<times> tlb_state" where
  "translateAddressUncached virtualAddress c writeAccess accessSize s =
     apfst (map_sum id ta_physicalAddress) (resolveAddressUncached virtualAddress c writeAccess accessSize s)"

end
