(* ===== verification/EeTlbOps.thy ===== *)
theory EeTlbOps
  imports EeTlb
begin

text \<open>
  The operations on the TLB in \<open>ps2_memory.cpp\<close> and \<open>ps2_memory.h\<close> (TLBR, TLBW, TLBP, the post-BIOS
  mappings, the switches of the caches, the state a save brings in), the access test of the generated
  code in \<open>ps2_address.h\<close>, and the instruction-fetch check of \<open>ps2_runtime.cpp\<close>. Then all of them as the
  steps of one machine.
\<close>

unbundle bit_operations_syntax

section \<open>TLB instructions\<close>

definition tlbRead :: "u32 \<Rightarrow> tlb_state \<Rightarrow> tlb_entry option" where
  "tlbRead index s = (if unat index \<ge> length (ts_entries s) then None else Some (ts_entries s ! unat index))"

definition normalizeEntry :: "tlb_entry \<Rightarrow> tlb_entry" where
  "normalizeEntry entry =
     (let pageMask = te_pageMask entry AND 0x01ffe000;
          lo0 = te_entryLo0 entry AND 0x83ffffff;
          lo1 = te_entryLo1 entry AND 0x03ffffff;
          g = (if lo0 AND lo1 AND 0x1 \<noteq> 0 then 0x1 else 0);
          lo0 = (lo0 AND NOT 0x1) OR g;
          lo1 = (lo1 AND NOT 0x1) OR g;
          (pageMask, lo0, lo1) =
            (if lo0 AND 0x80000000 \<noteq> 0
             then (0, (lo0 AND NOT 0x38) OR push_bit 3 2, (lo1 AND NOT 0x38) OR push_bit 3 2)
             else (pageMask, lo0, lo1))
      in \<lparr>te_pageMask = pageMask, te_entryHi = (te_entryHi entry AND 0xffffe0ff) AND NOT pageMask,
          te_entryLo0 = lo0, te_entryLo1 = lo1\<rparr>)"

definition tlbWrite :: "u32 \<Rightarrow> tlb_entry \<Rightarrow> tlb_state \<Rightarrow> bool \<times> tlb_state" where
  "tlbWrite index entry s =
     (if unat index \<ge> length (ts_entries s) then (False, s)
      else (True, advanceTlbMappingGeneration
                    (s\<lparr>ts_entries := (ts_entries s)[unat index := normalizeEntry entry]\<rparr>)))"

definition probeMatches :: "u32 \<Rightarrow> tlb_entry \<Rightarrow> bool" where
  "probeMatches entryHi entry \<longleftrightarrow>
     (let probeVpn = entryHi AND 0xffffe000; probeAsid = entryHi AND 0xff
      in probeVpn AND NOT (entryPageMask entry) = te_entryHi entry AND 0xffffe000
         \<and> (entryGlobal entry \<or> probeAsid = te_entryHi entry AND 0xff))"

primrec probeFrom :: "u32 \<Rightarrow> int \<Rightarrow> tlb_entry list \<Rightarrow> int" where
  "probeFrom entryHi i [] = - 1"
| "probeFrom entryHi i (entry # entries) =
     (if probeMatches entryHi entry then i else probeFrom entryHi (i + 1) entries)"

definition tlbProbe :: "u32 \<Rightarrow> tlb_state \<Rightarrow> int" where
  "tlbProbe entryHi s = probeFrom entryHi 0 (ts_entries s)"

section \<open>Installed, reset and loaded states\<close>

definition postBiosEntries :: "tlb_entry list" where
  "postBiosEntries = map (\<lambda>(pageMask, entryHi, entryLo0, entryLo1).
       \<lparr>te_pageMask = pageMask, te_entryHi = entryHi, te_entryLo0 = entryLo0, te_entryLo1 = entryLo1\<rparr>)
     [(0x00000000, 0x70000000, 0x0000001f, 0x0000001f),
      (0x00006000, 0xffff8000, 0x00001e1f, 0x00001f1f),
      (0x00000000, 0x10000000, 0x00400017, 0x00400053),
      (0x00000000, 0x10002000, 0x00400097, 0x004000d7),
      (0x00000000, 0x10004000, 0x00400117, 0x00400157),
      (0x00000000, 0x10006000, 0x00400197, 0x004001d7),
      (0x00000000, 0x10008000, 0x00400217, 0x00400257),
      (0x00000000, 0x1000a000, 0x00400297, 0x004002d7),
      (0x00000000, 0x1000c000, 0x00400313, 0x00400357),
      (0x00000000, 0x1000e000, 0x00400397, 0x004003d7),
      (0x0001e000, 0x11000000, 0x00440017, 0x00440415),
      (0x0001e000, 0x12000000, 0x00480017, 0x00480415),
      (0x01ffe000, 0x1e000000, 0x00780017, 0x007c0017),
      (0x0007e000, 0x00080000, 0x0000201f, 0x0000301f),
      (0x0007e000, 0x00100000, 0x0000401f, 0x0000501f),
      (0x0007e000, 0x00180000, 0x0000601f, 0x0000701f),
      (0x001fe000, 0x00200000, 0x0000801f, 0x0000c01f),
      (0x001fe000, 0x00400000, 0x0001001f, 0x0001401f),
      (0x001fe000, 0x00600000, 0x0001801f, 0x0001c01f),
      (0x007fe000, 0x00800000, 0x0002001f, 0x0003001f),
      (0x007fe000, 0x01000000, 0x0004001f, 0x0005001f),
      (0x007fe000, 0x01800000, 0x0006001f, 0x0007001f),
      (0x0007e000, 0x20080000, 0x00002017, 0x00003017),
      (0x0007e000, 0x20100000, 0x00004017, 0x00005017),
      (0x0007e000, 0x20180000, 0x00006017, 0x00007017),
      (0x001fe000, 0x20200000, 0x00008017, 0x0000c017),
      (0x001fe000, 0x20400000, 0x00010017, 0x00014017),
      (0x001fe000, 0x20600000, 0x00018017, 0x0001c017),
      (0x007fe000, 0x20800000, 0x00020017, 0x00030017),
      (0x007fe000, 0x21000000, 0x00040017, 0x00050017),
      (0x007fe000, 0x21800000, 0x00060017, 0x00070017),
      (0x0007e000, 0x30100000, 0x0000403f, 0x0000503f),
      (0x0007e000, 0x30180000, 0x0000603f, 0x0000703f),
      (0x001fe000, 0x30200000, 0x0000803f, 0x0000c03f),
      (0x001fe000, 0x30400000, 0x0001003f, 0x0001403f),
      (0x001fe000, 0x30600000, 0x0001803f, 0x0001c03f),
      (0x007fe000, 0x30800000, 0x0002003f, 0x0003003f),
      (0x007fe000, 0x31000000, 0x0004003f, 0x0005003f),
      (0x007fe000, 0x31800000, 0x0006003f, 0x0007003f),
      (0x00000000, 0xe004c000, 0x00000010, 0x00000010),
      (0x00000000, 0xe004e000, 0x00000010, 0x00000010),
      (0x00000000, 0xe0050000, 0x00000010, 0x00000010),
      (0x00000000, 0xe0052000, 0x00000010, 0x00000010),
      (0x00000000, 0xe0054000, 0x00000010, 0x00000010),
      (0x00000000, 0xe0056000, 0x00000010, 0x00000010),
      (0x00000000, 0xe0058000, 0x00000010, 0x00000010),
      (0x00000000, 0xe005a000, 0x00000010, 0x00000010),
      (0x00000000, 0xe005c000, 0x00000010, 0x00000010)]"

definition installPostBiosTlbState :: "tlb_state \<Rightarrow> tlb_state" where
  "installPostBiosTlbState s =
     advanceTlbMappingGeneration (s\<lparr>ts_postBiosConfigured := True, ts_entries := postBiosEntries\<rparr>)"

definition zeroEntry :: tlb_entry where
  "zeroEntry = \<lparr>te_pageMask = 0, te_entryHi = 0, te_entryLo0 = 0, te_entryLo1 = 0\<rparr>"

text \<open>The part of \<open>PS2Memory::initialize\<close> about the TLB.\<close>

definition initializeTlb :: "tlb_state \<Rightarrow> tlb_state" where
  "initializeTlb s =
     (if ts_postBiosConfigured s then installPostBiosTlbState s
      else advanceTlbMappingGeneration (s\<lparr>ts_entries := replicate 48 zeroEntry\<rparr>))"

text \<open>The part of \<open>decodeSaveState\<close> about the TLB, for a payload that can be read to its end. A saved
  generation of 0 is refused, after the flag and the generation have been taken over.\<close>

definition loadTlbState :: "tlb_entry list \<Rightarrow> bool \<Rightarrow> u64 \<Rightarrow> tlb_state \<Rightarrow> bool \<times> tlb_state" where
  "loadTlbState entries postBios generation s =
     (let s1 = s\<lparr>ts_postBiosConfigured := postBios, ts_generation := generation\<rparr>
      in if generation = 0 then (False, s1)
         else (True, (clearTlbTranslationCache (s1\<lparr>ts_entries := entries\<rparr>))\<lparr>ts_stats := emptyStats\<rparr>))"

definition setTlbTranslationCacheEnabled :: "bool \<Rightarrow> tlb_state \<Rightarrow> tlb_state" where
  "setTlbTranslationCacheEnabled enabled s =
     (if ts_cacheEnabled s = enabled then s
      else s\<lparr>ts_cacheEnabled := enabled, ts_fetchGeneration := 0, ts_fetchKey := 0\<rparr>)"

definition setTlbTranslationCacheDiagnosticsEnabled :: "bool \<Rightarrow> tlb_state \<Rightarrow> tlb_state" where
  "setTlbTranslationCacheDiagnosticsEnabled enabled s =
     (if ts_diagnostics s = enabled then s
      else s\<lparr>ts_diagnostics := enabled, ts_fetchGeneration := 0, ts_fetchKey := 0\<rparr>)"

definition resetTlbTranslationCacheStats :: "tlb_state \<Rightarrow> tlb_state" where
  "resetTlbTranslationCacheStats s = s\<lparr>ts_stats := emptyStats\<rparr>"

section \<open>The access test of the generated code\<close>

definition directAddress :: "translation_context \<Rightarrow> u32 \<Rightarrow> bool" where
  "directAddress c address \<longleftrightarrow>
     \<not> mapsKusegThroughTlb c address \<or> Ps2IsUncachedRamMirrorAddress address
     \<or> Ps2IsAcceleratedRamMirrorAddress address"

definition Ps2ResolveFastGuestRdramOffset ::
  "translation_context \<Rightarrow> u32 \<Rightarrow> u32 \<Rightarrow> bool \<Rightarrow> tlb_state \<Rightarrow> u32 option \<times> tlb_state" where
  "Ps2ResolveFastGuestRdramOffset c address bytes writeAccess s =
     (if \<not> permits c address then (None, s)
      else if directAddress c address \<and> Ps2CanUseFastRdramAccess address bytes then
        (case ps2ResolveDirectRdramOffset address of (found, offset) \<Rightarrow> (if found then Some offset else None, s))
      else if \<not> supportedAccessSize bytes \<or> address AND (bytes - 1) \<noteq> 0
           \<or> \<not> mapsKusegThroughTlb c address \<and> address < 0xC0000000 then (None, s)
      else tryResolveCachedTlbRdramOffset address c writeAccess bytes s)"

text \<open>The template: its sizes are powers of two up to 16.\<close>

definition Ps2ResolveFastGuestRdramOffsetFixed ::
  "u32 \<Rightarrow> bool \<Rightarrow> translation_context \<Rightarrow> u32 \<Rightarrow> tlb_state \<Rightarrow> u32 option \<times> tlb_state" where
  "Ps2ResolveFastGuestRdramOffsetFixed bytes writeAccess c address s =
     (if \<not> permits c address then (None, s)
      else let (found, directOffset) = ps2ResolveDirectRdramOffset address
      in if directAddress c address \<and> address AND (bytes - 1) = 0 \<and> found \<and> directOffset \<le> PS2_RAM_SIZE - bytes
         then (Some directOffset, s)
         else if address AND (bytes - 1) \<noteq> 0 \<or> \<not> mapsKusegThroughTlb c address \<and> address < 0xC0000000
         then (None, s)
         else tryResolveCachedTlbRdramOffsetFixed bytes writeAccess address c s)"

section \<open>Instruction fetch\<close>

definition eeInstructionFetchPageKey :: "u32 \<Rightarrow> u8 \<Rightarrow> u32 \<Rightarrow> u32" where
  "eeInstructionFetchPageKey status asid virtualAddress =
     (virtualAddress AND 0xfffff000) OR push_bit 7 (status AND 0x1e) OR ucast asid"

definition tryReuseValidatedInstructionFetchRdramPage :: "u32 \<Rightarrow> tlb_state \<Rightarrow> bool" where
  "tryReuseValidatedInstructionFetchRdramPage translationPageKey s \<longleftrightarrow>
     ts_fetchGeneration s = ts_generation s \<and> ts_fetchKey s = translationPageKey"

definition rememberValidatedInstructionFetchRdramPage :: "u32 \<Rightarrow> tlb_state \<Rightarrow> tlb_state" where
  "rememberValidatedInstructionFetchRdramPage translationPageKey s =
     (if \<not> ts_cacheEnabled s \<or> ts_diagnostics s then s
      else s\<lparr>ts_fetchGeneration := ts_generation s, ts_fetchKey := translationPageKey\<rparr>)"

text \<open>\<open>ValidateInstructionFetchWithoutObservation\<close> on a context with the given Status and ASID: the
  exception it raises, or nothing.\<close>

definition validateInstructionFetchPageMiss :: "u32 \<Rightarrow> u8 \<Rightarrow> u32 \<Rightarrow> tlb_state \<Rightarrow> translation_error option \<times> tlb_state" where
  "validateInstructionFetchPageMiss status asid virtualAddress s =
     (if virtualAddress AND 3 \<noteq> 0 then (Some (AddressError virtualAddress), s)
      else let key = eeInstructionFetchPageKey status asid virtualAddress; c = fromCop0Status status asid
      in case Ps2ResolveFastGuestRdramOffset c virtualAddress 4 False s of
           (Some _, s1) \<Rightarrow> (None, rememberValidatedInstructionFetchRdramPage key s1)
         | (None, s1) \<Rightarrow>
             (case translateAddress virtualAddress c False 4 s1 of
                (Inl e, s2) \<Rightarrow> (Some e, s2)
              | (Inr physicalAddress, s2) \<Rightarrow>
                  (None, if physicalAddress \<le> PS2_RAM_SIZE - 4
                         then rememberValidatedInstructionFetchRdramPage key s2 else s2)))"

definition validateInstructionFetch :: "u32 \<Rightarrow> u8 \<Rightarrow> u32 \<Rightarrow> tlb_state \<Rightarrow> translation_error option \<times> tlb_state" where
  "validateInstructionFetch status asid virtualAddress s =
     (if virtualAddress AND 3 = 0
         \<and> tryReuseValidatedInstructionFetchRdramPage (eeInstructionFetchPageKey status asid virtualAddress) s
      then (None, s) else validateInstructionFetchPageMiss status asid virtualAddress s)"

section \<open>The machine\<close>

text \<open>The calls the runtime makes, in any order and with any arguments. A refused load ends the program
  (\<open>main.cpp\<close>), so it is no step.\<close>

datatype tlb_op =
    OpTlbWrite u32 tlb_entry
  | OpInitialize
  | OpInstallPostBios
  | OpLoad "tlb_entry list" bool u64
  | OpSetEnabled bool
  | OpSetDiagnostics bool
  | OpResetStats
  | OpTranslate u32 translation_context bool u32
  | OpTranslateUncached u32 translation_context bool u32
  | OpFastAccess translation_context u32 u32 bool
  | OpFastAccessFixed u32 bool translation_context u32
  | OpFetch u32 u8 u32

fun tlbStep :: "tlb_op \<Rightarrow> tlb_state \<Rightarrow> tlb_state" where
  "tlbStep (OpTlbWrite index entry) s = snd (tlbWrite index entry s)"
| "tlbStep OpInitialize s = initializeTlb s"
| "tlbStep OpInstallPostBios s = installPostBiosTlbState s"
| "tlbStep (OpLoad entries postBios generation) s =
     (case loadTlbState entries postBios generation s of (accepted, s') \<Rightarrow> if accepted then s' else s)"
| "tlbStep (OpSetEnabled enabled) s = setTlbTranslationCacheEnabled enabled s"
| "tlbStep (OpSetDiagnostics enabled) s = setTlbTranslationCacheDiagnosticsEnabled enabled s"
| "tlbStep OpResetStats s = resetTlbTranslationCacheStats s"
| "tlbStep (OpTranslate va c writeAccess accessSize) s = snd (translateAddress va c writeAccess accessSize s)"
| "tlbStep (OpTranslateUncached va c writeAccess accessSize) s =
     snd (translateAddressUncached va c writeAccess accessSize s)"
| "tlbStep (OpFastAccess c address bytes writeAccess) s =
     snd (Ps2ResolveFastGuestRdramOffset c address bytes writeAccess s)"
| "tlbStep (OpFastAccessFixed bytes writeAccess c address) s =
     snd (Ps2ResolveFastGuestRdramOffsetFixed bytes writeAccess c address s)"
| "tlbStep (OpFetch status asid va) s = snd (validateInstructionFetch status asid va s)"

end
