(* ===== verification/EeTlbPages.thy ===== *)
theory EeTlbPages
  imports EeTlbOps
begin

text \<open>
  Translation without the caches as a function of the entries, and its two regularities: it treats the
  addresses of a 4 KiB page alike, and the keys of the caches determine what it looks at.
\<close>

unbundle bit_operations_syntax

section \<open>Pages\<close>

lemma page_split: "unat (pageBase va) = unat va div 4096 * 4096" "unat (pageOffset va) = unat va mod 4096"
proof -
  have m: "kTlbTranslationCachePageSize - 1 = mask 12"
    by (simp add: kTlbTranslationCachePageSize_def mask_eq_exp_minus_1)
  show o: "unat (pageOffset va) = unat va mod 4096"
    by (simp add: pageOffset_def m unsigned_take_bit_eq take_bit_eq_mod unat_mod flip: take_bit_eq_mask)
  have "va = pageBase va OR pageOffset va" "pageBase va AND pageOffset va = 0"
    by (rule bit_word_eqI; auto simp: pageBase_def pageOffset_def bit_simps)+
  then have "va = pageBase va + pageOffset va" by (metis disjunctive_add_eq_or)
  moreover have "unat (pageBase va) \<le> unat va"
    by (metis pageBase_def word_and_le2 word_le_nat_alt)
  ultimately have "unat (pageBase va) = unat va - unat (pageOffset va)"
    by (metis add_diff_cancel_right' unat_sub_le diff_add_cancel word_and_le2 pageOffset_def word_le_nat_alt)
  then show "unat (pageBase va) = unat va div 4096 * 4096" by (simp add: o minus_mod_eq_div_mult)
qed

lemma page_compare:
  assumes "unat K mod 4096 = 0"
  shows "K \<le> pageBase va \<longleftrightarrow> K \<le> va" and "pageBase va < K \<longleftrightarrow> va < K"
proof -
  obtain k where k: "unat K = k * 4096" using assms by (metis mod_0_imp_dvd dvd_def mult.commute)
  have "k * 4096 \<le> unat va div 4096 * 4096 \<longleftrightarrow> k * 4096 \<le> unat va"
    by (simp add: less_eq_div_iff_mult_less_eq)
  then show "K \<le> pageBase va \<longleftrightarrow> K \<le> va" by (simp add: word_le_nat_alt page_split k)
  then show "pageBase va < K \<longleftrightarrow> va < K" by (simp add: not_le [symmetric])
qed

lemma masked_disjoint: "M AND m = 0 \<Longrightarrow> (va AND NOT m) AND M = va AND M" for M m va :: u32
proof -
  assume d: "M AND m = 0"
  have "\<not> bit m k" if "bit M k" for k
    using that d by (metis bit_and_iff bit_0_eq bot_apply bot_bool_def)
  then show ?thesis by (intro bit_word_eqI) (auto simp: bit_and_iff bit_not_iff)
qed

lemma page_and: "M AND 0xfff = 0 \<Longrightarrow> pageBase va AND M = va AND M"
  using masked_disjoint [of M "0xfff" va] by (simp add: pageBase_def kTlbTranslationCachePageSize_def)

lemma page_base_and: "pageBase (va AND M) = pageBase va AND M"
  by (simp add: pageBase_def ac_simps)

lemma page_idem [simp]: "pageBase (pageBase va) = pageBase va"
  by (simp add: pageBase_def and.assoc)

lemma range_bounds:
  assumes "unat base + unat sz < 2 ^ 32" "0 < sz"
  shows "v - base < sz \<longleftrightarrow> base \<le> v \<and> v < base + (sz :: u32)"
proof -
  have s: "unat (base + sz) = unat base + unat sz" using assms(1) by (simp add: unat_add_no_overflow)
  show ?thesis
  proof (cases "base \<le> v")
    case True
    then show ?thesis using s by (auto simp: word_less_nat_alt word_le_nat_alt unat_sub_le)
  next
    case False
    then have "unat (v - base) = 2 ^ 32 + unat v - unat base" by (simp add: unat_sub_if_size word_size not_le word_less_nat_alt)
    then have "\<not> v - base < sz" using assms(1) by (simp add: word_less_nat_alt not_less)
    then show ?thesis using False by simp
  qed
qed

lemmas region_defs = Ps2AddressInRange_def PS2_RAM_SIZE_def PS2_RAM_MASK_def PS2_EE_UNCACHED_RAM_MIRROR_BASE_def
  PS2_EE_ACCELERATED_RAM_MIRROR_BASE_def PS2_SCRATCHPAD_BASE_def PS2_SCRATCHPAD_SIZE_def PS2_IO_BASE_def PS2_IO_SIZE_def
  PS2_BIOS_BASE_def PS2_BIOS_SIZE_def PS2_GS_PRIV_REG_BASE_def PS2_GS_PRIV_REG_SIZE_def PS2_VU0_DATA_BASE_def
  PS2_VU1_CODE_BASE_def PS2_VU1_CODE_SIZE_def PS2_EE_UNCACHED_RAM_MIRROR_SIZE_def PS2_EE_ACCELERATED_RAM_MIRROR_SIZE_def

lemma regions:
  "Ps2IsUncachedRamMirrorAddress v \<longleftrightarrow> 0x20000000 \<le> v \<and> v < 0x22000000"
  "Ps2IsAcceleratedRamMirrorAddress v \<longleftrightarrow> 0x30100000 \<le> v \<and> v < 0x32000000"
  "Ps2IsKseg01Address v \<longleftrightarrow> 0x80000000 \<le> v \<and> v < 0xC0000000"
  "Ps2IsPhysicalSpecialAddress v \<longleftrightarrow> 0x1FC00000 \<le> v \<and> v < 0x20000000 \<or> 0x70000000 \<le> v \<and> v < 0x70004000
     \<or> 0x10000000 \<le> v \<and> v < 0x10010000 \<or> 0x12000000 \<le> v \<and> v < 0x12002000 \<or> 0x11004000 \<le> v \<and> v < 0x1100C000"
  by (simp_all add: Ps2IsUncachedRamMirrorAddress_def Ps2IsAcceleratedRamMirrorAddress_def Ps2IsKseg01Address_def
      Ps2IsPhysicalSpecialAddress_def region_defs range_bounds)

lemma scratchpad_region:
  "ps2IsScratchpadAddress v \<longleftrightarrow> 0x70000000 \<le> v \<and> v < 0x70004000
     \<or> v AND 0x80000000 \<noteq> 0 \<and> 0x70000000 \<le> v AND 0x7FFFFFFF \<and> v AND 0x7FFFFFFF < 0x70004000"
  by (auto simp: ps2IsScratchpadAddress_def region_defs Let_def)


section \<open>Translation without the caches\<close>

definition tlbMapped :: "u32 \<Rightarrow> translation_context \<Rightarrow> bool" where
  "tlbMapped va c \<longleftrightarrow>
     permits c va \<and> \<not> ps2IsScratchpadAddress va \<and> \<not> (va < 0x80000000 \<and> Ps2IsPhysicalSpecialAddress va)
     \<and> \<not> Ps2IsUncachedRamMirrorAddress va \<and> \<not> Ps2IsAcceleratedRamMirrorAddress va
     \<and> \<not> (tc_errorLevel c \<and> va < 0x80000000) \<and> \<not> Ps2IsKseg01Address va
     \<and> (mapsKusegThroughTlb c va \<or> Ps2IsKseg23Address va)"

definition unmapped :: "u32 \<Rightarrow> translation_context \<Rightarrow> translation_error + translated" where
  "unmapped va c = fst (translateAddressImpl va c False 1 False tlb_new)"

definition uncached :: "tlb_entry list \<Rightarrow> u32 \<Rightarrow> translation_context \<Rightarrow> bool \<Rightarrow> translation_error + translated" where
  "uncached entries va c w =
     (if tlbMapped va c then
        (case find (entryMatches va (tc_asid c)) entries of
           None \<Rightarrow> Inl (TlbFault va Refill) | Some entry \<Rightarrow> map_sum id fst (entryTranslation va w entry))
      else unmapped va c)"

lemma impl_unmapped:
  "\<not> tlbMapped va c \<Longrightarrow> translateAddressImpl va c w sz allow s = (unmapped va c, s)"
  unfolding tlbMapped_def unmapped_def translateAddressImpl_def
  by (cases "permits c va"; cases "ps2IsScratchpadAddress va"; cases "va < 0x80000000 \<and> Ps2IsPhysicalSpecialAddress va";
      cases "Ps2IsUncachedRamMirrorAddress va"; cases "Ps2IsAcceleratedRamMirrorAddress va";
      cases "tc_errorLevel c \<and> va < 0x80000000"; cases "Ps2IsKseg01Address va";
      simp only: if_True if_False simp_thms prod.sel)

lemma impl_mapped:
  "tlbMapped va c \<Longrightarrow> translateAddressImpl va c w sz allow s =
    (case (if allow then lookupTlbTranslationCache va c w sz s else (None, s)) of
       (Some cached, s1) \<Rightarrow> (Inr cached, s1) | (None, s1) \<Rightarrow> translateThroughTlb va c w allow s1)"
  unfolding tlbMapped_def translateAddressImpl_def by (elim conjE) (simp only: if_True if_False simp_thms)

lemma through_tlb: "tlbMapped va c \<Longrightarrow> fst (translateThroughTlb va c w allow s) = uncached (ts_entries s) va c w"
  by (auto simp: translateThroughTlb_def uncached_def Let_def split: option.splits sum.splits)

lemma impl_uncached: "translateAddressImpl va c w sz False s = (uncached (ts_entries s) va c w, s)"
proof (cases "tlbMapped va c")
  case True
  then have "fst (translateAddressImpl va c w sz False s) = uncached (ts_entries s) va c w"
    by (simp add: impl_mapped through_tlb)
  moreover have "snd (translateAddressImpl va c w sz False s) = s"
    using True by (simp add: impl_mapped translateThroughTlb_def split: option.splits sum.splits)
  ultimately show ?thesis by (metis prod.collapse)
next
  case False
  then show ?thesis by (simp add: impl_unmapped uncached_def)
qed

section \<open>A page is translated as one\<close>

lemma regions_page:
  assumes "pageBase va = pageBase va'"
  shows "ps2IsScratchpadAddress va = ps2IsScratchpadAddress va'"
    and "Ps2IsPhysicalSpecialAddress va = Ps2IsPhysicalSpecialAddress va'"
    and "Ps2IsUncachedRamMirrorAddress va = Ps2IsUncachedRamMirrorAddress va'"
    and "Ps2IsAcceleratedRamMirrorAddress va = Ps2IsAcceleratedRamMirrorAddress va'"
    and "Ps2IsKseg01Address va = Ps2IsKseg01Address va'" and "Ps2IsKseg23Address va = Ps2IsKseg23Address va'"
    and "va < 0x80000000 \<longleftrightarrow> va' < 0x80000000"
    and "permits c va = permits c va'" and "mapsKusegThroughTlb c va = mapsKusegThroughTlb c va'"
proof -
  have ge: "K \<le> va \<longleftrightarrow> K \<le> va'" and lt: "va < K \<longleftrightarrow> va' < K" if "unat K mod 4096 = 0" for K
    using page_compare [OF that, of va] page_compare [OF that, of va'] assms by simp_all
  have half: "K \<le> va AND 0x7FFFFFFF \<longleftrightarrow> K \<le> va' AND 0x7FFFFFFF" "va AND 0x7FFFFFFF < K \<longleftrightarrow> va' AND 0x7FFFFFFF < K"
    if "unat K mod 4096 = 0" for K
    using page_compare [OF that, of "va AND 0x7FFFFFFF"] page_compare [OF that, of "va' AND 0x7FFFFFFF"] assms
    by (simp_all only: page_base_and)
  have top: "va AND 0x80000000 = va' AND 0x80000000"
    using page_and [of "0x80000000" va] page_and [of "0x80000000" va'] assms by simp
  show "ps2IsScratchpadAddress va = ps2IsScratchpadAddress va'"
    by (simp add: scratchpad_region ge lt half top)
  show "Ps2IsPhysicalSpecialAddress va = Ps2IsPhysicalSpecialAddress va'"
    "Ps2IsUncachedRamMirrorAddress va = Ps2IsUncachedRamMirrorAddress va'"
    "Ps2IsAcceleratedRamMirrorAddress va = Ps2IsAcceleratedRamMirrorAddress va'"
    "Ps2IsKseg01Address va = Ps2IsKseg01Address va'" "va < 0x80000000 \<longleftrightarrow> va' < 0x80000000"
    by (simp_all add: regions ge lt)
  show "Ps2IsKseg23Address va = Ps2IsKseg23Address va'" by (simp add: Ps2IsKseg23Address_def ge)
  show "permits c va = permits c va'" by (simp add: permits_def ge lt)
  show "mapsKusegThroughTlb c va = mapsKusegThroughTlb c va'" by (simp add: mapsKusegThroughTlb_def lt)
qed

definition sameSpace :: "translation_context \<Rightarrow> translation_context \<Rightarrow> bool" where
  "sameSpace c c' \<longleftrightarrow> tc_mode c = tc_mode c' \<and> tc_enforceOperatingMode c = tc_enforceOperatingMode c'
     \<and> tc_errorLevel c = tc_errorLevel c'"

lemma mapped_page:
  assumes "pageBase va = pageBase va'" "sameSpace c c'"
  shows "tlbMapped va c = tlbMapped va' c'"
proof -
  have "tlbMapped va c = tlbMapped va' c" unfolding tlbMapped_def by (simp only: regions_page [OF assms(1)])
  also have "\<dots> = tlbMapped va' c'"
    using assms(2) by (simp add: tlbMapped_def sameSpace_def permits_def mapsKusegThroughTlb_def)
  finally show ?thesis .
qed

lemma page_mask_low: "(entryPageMask e OR 0x00001fff) AND M = M" if "0x1fff AND M = (M :: u32)"
  by (rule bit_word_eqI) (use that in \<open>auto simp: bit_simps bit_eq_iff\<close>)

lemma compare_low: "compareMask e AND 0xfff = 0"
proof -
  have "compareMask e AND 0xfff = NOT (if entryScratchpad e then 0x00003fff else entryPageMask e OR 0x00001fff) AND 0xfff"
    by (simp add: compareMask_def)
  moreover have "(entryPageMask e OR 0x00001fff) AND 0xfff = 0xfff" by (rule page_mask_low) simp
  then have "NOT (entryPageMask e OR 0x00001fff) AND 0xfff = 0"
    by (metis and.assoc and.commute bit.conj_cancel_right bit.conj_zero_right and.right_neutral)
  ultimately show ?thesis by simp
qed

lemma matches_page: "pageBase va = pageBase va' \<Longrightarrow> pageMatches va = pageMatches va'"
  unfolding pageMatches_def using page_and [OF compare_low] by (metis (mono_tags, lifting))

lemma find_page: "pageBase va = pageBase va' \<Longrightarrow> find (entryMatches va asid) es = find (entryMatches va' asid) es"
  using matches_page [of va va'] by (simp add: entryMatches_def [abs_def])


lemma page_size_low: "entryPageSize e AND 0xfff = 0" and page_size_mask: "0xfff AND (entryPageSize e - 1) = 0xfff"
proof -
  let ?x = "drop_bit 13 (entryPageMask e) + 1"
  have m: "(0xfff :: u32) = mask 12" by (simp add: mask_eq_exp_minus_1)
  show "entryPageSize e AND 0xfff = 0"
    unfolding m entryPageSize_def by (rule bit_word_eqI) (auto simp: bit_simps)
  have "push_bit 12 ?x - 1 = push_bit 12 (?x - 1) + mask 12"
    by (simp add: push_bit_eq_mult mask_eq_exp_minus_1 algebra_simps)
  also have "\<dots> = push_bit 12 (?x - 1) OR mask 12"
    by (rule disjunctive_add_eq_or, rule bit_word_eqI) (auto simp: bit_simps)
  finally show "0xfff AND (entryPageSize e - 1) = 0xfff"
    unfolding m entryPageSize_def by (intro bit_word_eqI) (auto simp: bit_simps)
qed

lemma selected_page: "pageBase va = pageBase va' \<Longrightarrow> selectedLo va e = selectedLo va' e"
  unfolding selectedLo_def using page_and [OF page_size_low, of va e] page_and [OF page_size_low, of va' e] by simp

lemma low_or: "B AND 0xfff = 0 \<Longrightarrow> B OR pageOffset va = B + pageOffset va"
proof -
  assume b: "B AND 0xfff = 0"
  have "B AND pageOffset va = (B AND 0xfff) AND va"
    by (simp add: pageOffset_def kTlbTranslationCachePageSize_def ac_simps)
  then show ?thesis using b by (simp add: disjunctive_add_eq_or)
qed

text \<open>The physical page of a page that maps to memory.\<close>

definition physicalPage :: "u32 \<Rightarrow> tlb_entry \<Rightarrow> u32" where
  "physicalPage va e =
     push_bit 12 (drop_bit 6 (selectedLo va e AND 0x03ffffc0) AND NOT (drop_bit 13 (entryPageMask e)))
     OR (pageBase va AND (entryPageSize e - 1))"

lemma physical_page:
  "push_bit 12 (drop_bit 6 (selectedLo va e AND 0x03ffffc0) AND NOT (drop_bit 13 (entryPageMask e)))
     OR (va AND (entryPageSize e - 1)) = physicalPage va e + pageOffset va"
proof -
  let ?M = "entryPageSize e - 1" and ?P = "drop_bit 6 (selectedLo va e AND 0x03ffffc0) AND NOT (drop_bit 13 (entryPageMask e))"
  have "va = pageBase va OR pageOffset va"
    by (rule bit_word_eqI; auto simp: pageBase_def pageOffset_def bit_simps)
  then have "va AND ?M = (pageBase va AND ?M) OR (pageOffset va AND ?M)" by (metis bit.conj_disj_distrib2)
  moreover have "pageOffset va AND ?M = pageOffset va"
    using page_size_mask [of e] by (simp add: pageOffset_def kTlbTranslationCachePageSize_def and.assoc)
  moreover have "(push_bit 12 ?P OR (pageBase va AND ?M)) OR pageOffset va = (push_bit 12 ?P OR (pageBase va AND ?M)) + pageOffset va"
  proof -
    have m: "(0xfff :: u32) = mask 12" by (simp add: mask_eq_exp_minus_1)
    have "pageBase va = va AND NOT (mask 12)"
      by (simp add: pageBase_def kTlbTranslationCachePageSize_def mask_eq_exp_minus_1)
    then show ?thesis by (intro low_or, unfold m) (rule bit_word_eqI, auto simp: bit_simps)
  qed
  ultimately show ?thesis unfolding physicalPage_def by (simp only: or.assoc)
qed

lemma physicalPage_page: "pageBase va = pageBase va' \<Longrightarrow> physicalPage va e = physicalPage va' e"
  using selected_page [of va va' e] by (simp add: physicalPage_def)

text \<open>The outcome for one address of a page gives the outcome for all of them.\<close>

lemma entryTranslation_page:
  assumes "entryTranslation va w e = Inr (t, sz, d)" "pageBase va' = pageBase va" "w' \<longrightarrow> d"
  shows "\<exists>t'. entryTranslation va' w' e = Inr (t', sz, d)
    \<and> (\<not> ta_scratchpad t \<longrightarrow> ta_physicalAddress t = physicalPage va e + pageOffset va
          \<and> t' = \<lparr>ta_physicalAddress = physicalPage va e + pageOffset va', ta_scratchpad = False\<rparr>)"
  using assms(1,3) unfolding entryTranslation_def Let_def physical_page
  unfolding selected_page [OF assms(2)] physicalPage_page [OF assms(2)]
  by (auto split: if_splits)

section \<open>Entries that shadow one another\<close>

text \<open>Two entries overlap if some address is in the pages of both. A private entry in front of a global
  one it overlaps hides it from one address space only.\<close>

definition overlap :: "tlb_entry \<Rightarrow> tlb_entry \<Rightarrow> bool" where
  "overlap e g \<longleftrightarrow> (te_entryHi e XOR te_entryHi g) AND 0xffffe000 AND compareMask e AND compareMask g = 0"

primrec unshadowed :: "tlb_entry list \<Rightarrow> bool" where
  "unshadowed [] = True"
| "unshadowed (e # es) \<longleftrightarrow>
     (entryGlobal e \<or> list_all (\<lambda>g. entryGlobal g \<longrightarrow> \<not> overlap e g) es) \<and> unshadowed es"

lemma both_match_overlap: "pageMatches va e \<Longrightarrow> pageMatches va g \<Longrightarrow> overlap e g"
  unfolding pageMatches_def overlap_def
  by (rule bit_word_eqI) (auto simp: bit_simps bit_eq_iff)

lemma find_global:
  assumes "unshadowed es" "find (entryMatches va a) es = Some e" "entryGlobal e"
  shows "find (entryMatches va a') es = Some e"
  using assms(1,2)
proof (induction es)
  case (Cons x es)
  show ?case
  proof (cases "entryMatches va a x")
    case True
    then show ?thesis using Cons.prems(2) assms(3) by (simp add: entryMatches_def)
  next
    case False
    then have f: "find (entryMatches va a) es = Some e" using Cons.prems(2) by simp
    then have "e \<in> set es" "entryMatches va a e" by (auto simp: find_Some_iff)
    moreover have "\<not> entryGlobal x" if "pageMatches va x" using that False by (auto simp: entryMatches_def)
    ultimately have "\<not> entryMatches va a' x"
      using Cons.prems(1) assms(3) both_match_overlap [of va x e]
      by (auto simp: entryMatches_def list_all_iff)
    then show ?thesis using Cons.IH [OF _ f] Cons.prems(1) by simp
  qed
qed simp

section \<open>What a filled line may say\<close>

lemma uncached_page:
  assumes "unshadowed entries" "tlbMapped va c" "find (entryMatches va (tc_asid c)) entries = Some e"
    and "entryTranslation va w e = Inr (t, sz, d)" "\<not> ta_scratchpad t"
    and "pageBase va' = pageBase va" "sameSpace c' c" "entryGlobal e \<or> tc_asid c' = tc_asid c" "w' \<longrightarrow> d"
  shows "uncached entries va' c' w' = Inr \<lparr>ta_physicalAddress = ta_physicalAddress t - pageOffset va + pageOffset va',
    ta_scratchpad = False\<rparr>"
proof -
  have "find (entryMatches va (tc_asid c')) entries = Some e"
    using find_global [OF assms(1,3)] assms(3,8) by auto
  then have "find (entryMatches va' (tc_asid c')) entries = Some e" using find_page [OF assms(6)] by simp
  moreover have "tlbMapped va' c'" using mapped_page [OF assms(6,7)] assms(2) by simp
  ultimately show ?thesis
    using entryTranslation_page [OF assms(4,6,9)] assms(5) by (auto simp: uncached_def)
qed

text \<open>Whether a read of an address succeeds is the same all over its page.\<close>

lemma unmapped_success: "\<not> tlbMapped va c \<Longrightarrow> isl (unmapped va c) \<longleftrightarrow> \<not> permits c va"
  unfolding tlbMapped_def unmapped_def translateAddressImpl_def
  by (cases "permits c va"; cases "ps2IsScratchpadAddress va"; cases "va < 0x80000000 \<and> Ps2IsPhysicalSpecialAddress va";
      cases "Ps2IsUncachedRamMirrorAddress va"; cases "Ps2IsAcceleratedRamMirrorAddress va";
      cases "tc_errorLevel c \<and> va < 0x80000000"; cases "Ps2IsKseg01Address va";
      simp only: if_True if_False simp_thms prod.sel sum.disc)

lemma success_page:
  assumes "\<not> isl (uncached entries va c w)" "pageBase va' = pageBase va"
  shows "\<not> isl (uncached entries va' c w)"
proof (cases "tlbMapped va c")
  case True
  with assms(1) obtain e where f: "find (entryMatches va (tc_asid c)) entries = Some e"
    by (cases "find (entryMatches va (tc_asid c)) entries") (simp_all add: uncached_def)
  then have "\<not> isl (entryTranslation va w e)"
    using assms(1) True by (cases "entryTranslation va w e") (simp_all add: uncached_def)
  then obtain t sz d where et: "entryTranslation va w e = Inr (t, sz, d)"
    by (cases "entryTranslation va w e") auto
  have "w \<longrightarrow> d" using et by (auto simp: entryTranslation_def Let_def split: if_splits)
  then obtain t' where "entryTranslation va' w e = Inr (t', sz, d)"
    using entryTranslation_page [OF et assms(2)] by blast
  moreover have "tlbMapped va' c" using True mapped_page [OF assms(2), of c c] by (simp add: sameSpace_def)
  moreover have "find (entryMatches va' (tc_asid c)) entries = Some e" using f find_page [OF assms(2)] by simp
  ultimately show ?thesis by (simp add: uncached_def)
next
  case False
  then have "\<not> tlbMapped va' c" using mapped_page [OF assms(2), of c c] by (simp add: sameSpace_def)
  then show ?thesis
    using False assms(1) regions_page(8) [OF assms(2)] by (simp add: uncached_def unmapped_success)
qed

end
