(* ===== verification/EeTlbCoherence.thy ===== *)
theory EeTlbCoherence
  imports EeTlbPages
begin

text \<open>
  The invariant of the translation caches: a line of the current generation says what the entries say.
  Every operation keeps it.
\<close>

unbundle bit_operations_syntax

section \<open>Keys\<close>

lemma modeNumber_bit: "bit (modeNumber m) k \<Longrightarrow> k < 2"
proof -
  have "modeNumber m = take_bit 2 (modeNumber m)" by (cases m) simp_all
  then show "bit (modeNumber m) k \<Longrightarrow> k < 2" by (metis bit_take_bit_iff)
qed

lemma bit_one_shifted: "j < 64 \<Longrightarrow> bit (push_bit j (of_bool b) :: u64) k \<longleftrightarrow> k = j \<and> b"
  by (auto simp: bit_push_bit_iff bit_of_bool_iff)

lemma key_bit:
  "bit (makeTlbFastCacheKey va c w) k \<longleftrightarrow>
     12 \<le> k \<and> k < 32 \<and> bit va k \<or> k < 8 \<and> bit (tc_asid c) k \<or> 8 \<le> k \<and> k < 10 \<and> bit (modeNumber (tc_mode c)) (k - 8)
     \<or> k = 10 \<and> tc_enforceOperatingMode c \<or> k = 11 \<and> tc_errorLevel c \<or> k = 32 \<and> w"
proof -
  have "pageBase va = va AND NOT (mask 12)"
    by (simp add: pageBase_def kTlbTranslationCachePageSize_def mask_eq_exp_minus_1)
  then have "bit (ucast (pageBase va) :: u64) k \<longleftrightarrow> 12 \<le> k \<and> k < 32 \<and> bit va k"
    by (auto simp: bit_unsigned_iff bit_and_iff bit_not_iff bit_mask_iff dest: bit_imp_le_length)
  moreover have "bit (ucast (tc_asid c) :: u64) k \<longleftrightarrow> k < 8 \<and> bit (tc_asid c) k"
    by (auto simp: bit_unsigned_iff dest: bit_imp_le_length)
  moreover have "bit (push_bit 8 (modeNumber (tc_mode c))) k \<longleftrightarrow> 8 \<le> k \<and> k < 10 \<and> bit (modeNumber (tc_mode c)) (k - 8)"
    using modeNumber_bit [of "tc_mode c" "k - 8"] by (auto simp: bit_push_bit_iff)
  ultimately show ?thesis
    unfolding makeTlbFastCacheKey_def by (simp only: bit_or_iff bit_one_shifted)
qed

lemma masked_bit: "(x XOR y) AND m = 0 \<Longrightarrow> bit m k \<Longrightarrow> bit x k \<longleftrightarrow> bit y k" for x y m :: u64
  by (metis bit_and_iff bit_xor_iff bit_0_eq bot_apply bot_bool_def)

definition fastMask :: "bool \<Rightarrow> bool \<Rightarrow> u64" where
  "fastMask global writable =
     (let m0 = (NOT 0 :: u64); m1 = (if global then m0 AND NOT 0xff else m0)
      in if writable then m1 AND NOT (push_bit 32 1) else m1)"

lemma fastMask_bit: "k < 64 \<Longrightarrow> bit (fastMask global writable) k \<longleftrightarrow> (global \<longrightarrow> 8 \<le> k) \<and> (writable \<longrightarrow> k \<noteq> 32)"
proof -
  have m: "(0xff :: u64) = mask 8" by (simp add: mask_eq_exp_minus_1)
  show "k < 64 \<Longrightarrow> ?thesis"
    unfolding fastMask_def Let_def m
    by (cases global; cases writable)
      (simp_all only: if_True if_False simp_thms bit_and_iff bit_not_iff bit_mask_iff bit_push_bit_iff bit_1_iff bit_0_eq
        bot_apply bot_bool_def possible_bit_word, auto)
qed

lemma modeNumber_eq: "modeNumber m = modeNumber m' \<Longrightarrow> m = m'"
  by (cases m; cases m') simp_all

text \<open>A matching key names the page, the mode bits, the address space if the line is private, and the
  kind of access if it is read-only.\<close>

lemma key_match:
  assumes "(makeTlbFastCacheKey va c w XOR makeTlbFastCacheKey vp c0 False) AND fastMask global writable = 0"
  shows "pageBase va = pageBase vp" "sameSpace c c0" "global \<or> tc_asid c = tc_asid c0" "w \<longrightarrow> writable"
proof -
  have b: "bit (makeTlbFastCacheKey va c w) k \<longleftrightarrow> bit (makeTlbFastCacheKey vp c0 False) k"
    if "k < 64" "global \<longrightarrow> 8 \<le> k" "writable \<longrightarrow> k \<noteq> 32" for k
    using masked_bit [OF assms] fastMask_bit that by blast
  have p: "pageBase v = v AND NOT (mask 12)" for v
    by (simp add: pageBase_def kTlbTranslationCachePageSize_def mask_eq_exp_minus_1)
  show "pageBase va = pageBase vp"
    unfolding p
  proof (rule bit_word_eqI)
    fix k assume "k < LENGTH(32)"
    then show "bit (va AND NOT (mask 12)) k = bit (vp AND NOT (mask 12)) k"
      using b [of k] by (auto simp: key_bit bit_simps)
  qed
  have "bit (modeNumber (tc_mode c)) k \<longleftrightarrow> bit (modeNumber (tc_mode c0)) k" for k
    using b [of "k + 8"] modeNumber_bit [of "tc_mode c" k] modeNumber_bit [of "tc_mode c0" k] by (auto simp: key_bit)
  then have "tc_mode c = tc_mode c0" by (intro modeNumber_eq bit_word_eqI)
  then show "sameSpace c c0" using b [of 10] b [of 11] by (simp add: key_bit sameSpace_def)
  show "w \<longrightarrow> writable" using b [of 32] by (auto simp: key_bit)
  show "global \<or> tc_asid c = tc_asid c0"
  proof (cases global)
    case False
    have "bit (tc_asid c) k = bit (tc_asid c0) k" if "k < LENGTH(8)" for k
      using b [of k] False that by (auto simp: key_bit)
    then show ?thesis by (intro disjI2 bit_word_eqI)
  qed simp
qed

lemma fetchKey_match:
  assumes "eeInstructionFetchPageKey status asid va = eeInstructionFetchPageKey status' asid' va'"
  shows "pageBase va = pageBase va'" "fromCop0Status status asid = fromCop0Status status' asid'"
proof -
  have "(0x1e :: u32) = mask 5 AND NOT (mask 1)" by (simp add: mask_eq_exp_minus_1)
  then have thirty: "bit (0x1e :: u32) k \<longleftrightarrow> 1 \<le> k \<and> k < 5" for k
    by (simp only: bit_and_iff bit_not_iff bit_mask_iff) auto
  have h: "(0xfffff000 :: u32) = NOT (mask 12)" by (simp add: mask_eq_exp_minus_1)
  have high: "pageBase v = v AND NOT (mask 12)" "v AND 0xfffff000 = v AND NOT (mask 12)" for v
    by (simp add: pageBase_def kTlbTranslationCachePageSize_def mask_eq_exp_minus_1) (simp only: h)
  have b: "bit (eeInstructionFetchPageKey s a v) k \<longleftrightarrow>
      12 \<le> k \<and> k < 32 \<and> bit v k \<or> 8 \<le> k \<and> k < 12 \<and> bit s (k - 7) \<or> k < 8 \<and> bit a k" for s a v k
    unfolding eeInstructionFetchPageKey_def high(2) bit_or_iff bit_push_bit_iff bit_and_iff bit_not_iff bit_mask_iff
      bit_unsigned_iff thirty by (auto dest: bit_imp_le_length)
  have e: "bit (eeInstructionFetchPageKey status asid va) k = bit (eeInstructionFetchPageKey status' asid' va') k" for k
    using assms by simp
  show "pageBase va = pageBase va'"
  proof (rule bit_word_eqI)
    fix k assume "k < LENGTH(32)"
    then show "bit (pageBase va) k = bit (pageBase va') k"
      using e [of k] by (auto simp: high(1) b bit_and_iff bit_not_iff bit_mask_iff)
  qed
  have "bit asid k = bit asid' k" if "k < LENGTH(8)" for k using e [of k] that by (auto simp: b)
  then have a: "asid = asid'" by (rule bit_word_eqI)
  have s: "bit status k = bit status' k" if "1 \<le> k" "k < 5" for k
    using e [of "k + 7"] that by (auto simp: b)
  have s2: "status AND M = status' AND M" if "M AND 0x1e = M" for M
  proof (rule bit_word_eqI)
    fix k assume "k < LENGTH(32)"
    have "bit M k \<Longrightarrow> 1 \<le> k \<and> k < 5" using that thirty by (metis bit_and_iff)
    then show "bit (status AND M) k = bit (status' AND M) k" using s [of k] by (auto simp: bit_and_iff)
  qed
  show "fromCop0Status status asid = fromCop0Status status' asid'"
    using s2 [of "0x2 OR 0x4"] s2 [of "0x4"] s2 [of "0x18"] by (simp add: fromCop0Status_def a)
qed

section \<open>The invariant\<close>

text \<open>What the lines of the current generation and the remembered fetch page promise about the entries.\<close>

definition lineCorrect :: "tlb_entry list \<Rightarrow> translation_line \<Rightarrow> bool" where
  "lineCorrect entries line \<longleftrightarrow>
     (\<forall>va c w. lineMatches line (pageBase va) c \<longrightarrow> (w \<longrightarrow> tl_writable line) \<longrightarrow>
        uncached entries va c w =
          Inr \<lparr>ta_physicalAddress = tl_physicalPageBase line + pageOffset va, ta_scratchpad = False\<rparr>)"

definition fastCorrect :: "tlb_entry list \<Rightarrow> fast_line \<Rightarrow> bool" where
  "fastCorrect entries line \<longleftrightarrow>
     (\<forall>va c w. (makeTlbFastCacheKey va c w XOR fl_key line) AND fl_matchMask line = 0 \<longrightarrow>
        uncached entries va c w =
          Inr \<lparr>ta_physicalAddress = fl_physicalPageBase line + pageOffset va, ta_scratchpad = False\<rparr>)"

definition fetchCorrect :: "tlb_entry list \<Rightarrow> u32 \<Rightarrow> bool" where
  "fetchCorrect entries key \<longleftrightarrow>
     (\<forall>status asid va. eeInstructionFetchPageKey status asid va = key \<longrightarrow>
        \<not> isl (uncached entries va (fromCop0Status status asid) False))"

definition coherent :: "tlb_state \<Rightarrow> bool" where
  "coherent s \<longleftrightarrow> (unshadowed (ts_entries s) \<longrightarrow>
     (\<forall>set way. tl_generation (ts_cache s set way) = ts_generation s \<longrightarrow> lineCorrect (ts_entries s) (ts_cache s set way))
     \<and> (\<forall>set. fl_generation (ts_fast s set) = ts_generation s \<longrightarrow> fastCorrect (ts_entries s) (ts_fast s set))
     \<and> (ts_fetchGeneration s = ts_generation s \<longrightarrow> fetchCorrect (ts_entries s) (ts_fetchKey s)))"

definition generationsBounded :: "tlb_state \<Rightarrow> bool" where
  "generationsBounded s \<longleftrightarrow> 0 < ts_generation s \<and> (\<forall>set way. tl_generation (ts_cache s set way) \<le> ts_generation s)
     \<and> (\<forall>set. fl_generation (ts_fast s set) \<le> ts_generation s) \<and> ts_fetchGeneration s \<le> ts_generation s"

definition tlb_inv :: "tlb_state \<Rightarrow> bool" where
  "tlb_inv s \<longleftrightarrow> generationsBounded s \<and> coherent s"

lemmas tlb_inv_defs = tlb_inv_def generationsBounded_def coherent_def

lemma tally_fields [simp]:
  "ts_entries (tally f s) = ts_entries s" "ts_generation (tally f s) = ts_generation s"
  "ts_cacheEnabled (tally f s) = ts_cacheEnabled s" "ts_diagnostics (tally f s) = ts_diagnostics s"
  "ts_fetchGeneration (tally f s) = ts_fetchGeneration s" "ts_fetchKey (tally f s) = ts_fetchKey s"
  "ts_cache (tally f s) = ts_cache s" "ts_fast (tally f s) = ts_fast s" "ts_nextWay (tally f s) = ts_nextWay s"
  "ts_postBiosConfigured (tally f s) = ts_postBiosConfigured s"
  by (simp_all add: tally_def)

lemma inv_tally [simp]: "tlb_inv (tally f s) = tlb_inv s"
  by (simp add: tlb_inv_defs)

lemma tlb_new_inv: "tlb_inv tlb_new"
  by (simp add: tlb_inv_defs tlb_new_def emptyLine_def emptyFastLine_def)

text \<open>A new generation starts with no line of its own.\<close>

lemma advance_inv:
  assumes "generationsBounded s"
  shows "tlb_inv (advanceTlbMappingGeneration s)"
proof (cases "ts_generation s = u64_max")
  case True
  then show ?thesis
    by (simp add: advanceTlbMappingGeneration_def clearTlbTranslationCache_def tlb_inv_defs emptyLine_def emptyFastLine_def)
next
  case False
  then have n: "unat (ts_generation s + 1) = Suc (unat (ts_generation s))" by (rule unat_succ_u64)
  then have step: "g \<le> ts_generation s \<Longrightarrow> g \<le> ts_generation s + 1"
      "g \<le> ts_generation s \<Longrightarrow> (g = ts_generation s + 1) = False" for g
    by (auto simp: word_le_nat_alt)
  have "0 < ts_generation s + 1" using n by (simp add: word_less_nat_alt)
  moreover have "ts_generation (advanceTlbMappingGeneration s) = ts_generation s + 1"
      "ts_entries (advanceTlbMappingGeneration s) = ts_entries s" "ts_cache (advanceTlbMappingGeneration s) = ts_cache s"
      "ts_fast (advanceTlbMappingGeneration s) = ts_fast s"
      "ts_fetchGeneration (advanceTlbMappingGeneration s) = ts_fetchGeneration s"
    using False by (simp_all add: advanceTlbMappingGeneration_def Let_def)
  ultimately show ?thesis
    using assms unfolding tlb_inv_defs by (simp add: step)
qed

lemma bounded_entries [simp]:
  "generationsBounded (s\<lparr>ts_entries := es\<rparr>) = generationsBounded s"
  "generationsBounded (s\<lparr>ts_postBiosConfigured := b\<rparr>) = generationsBounded s"
  by (simp_all add: generationsBounded_def)

section \<open>Filling\<close>

definition pagePromise :: "tlb_entry list \<Rightarrow> u32 \<Rightarrow> u32 \<Rightarrow> translation_context \<Rightarrow> bool \<Rightarrow> bool \<Rightarrow> bool" where
  "pagePromise entries vp pp c global writable \<longleftrightarrow>
     (\<forall>va c' w. pageBase va = pageBase vp \<longrightarrow> sameSpace c' c \<longrightarrow> global \<or> tc_asid c' = tc_asid c \<longrightarrow>
        (w \<longrightarrow> writable) \<longrightarrow>
        uncached entries va c' w = Inr \<lparr>ta_physicalAddress = pp + pageOffset va, ta_scratchpad = False\<rparr>)"

lemma promise_fast:
  "pagePromise entries vp pp c global writable \<Longrightarrow>
   fastCorrect entries \<lparr>fl_generation = g, fl_key = makeTlbFastCacheKey vp c False,
     fl_matchMask = fastMask global writable, fl_physicalPageBase = pp\<rparr>"
  unfolding fastCorrect_def pagePromise_def by (auto dest: key_match)

lemma fillFast_fields:
  "ts_entries (fillTlbFastCache vp pp c global writable s) = ts_entries s" "ts_generation (fillTlbFastCache vp pp c global writable s) = ts_generation s" "ts_cache (fillTlbFastCache vp pp c global writable s) = ts_cache s"
  "ts_fetchGeneration (fillTlbFastCache vp pp c global writable s) = ts_fetchGeneration s" "ts_fetchKey (fillTlbFastCache vp pp c global writable s) = ts_fetchKey s" "ts_cacheEnabled (fillTlbFastCache vp pp c global writable s) = ts_cacheEnabled s"
  "ts_diagnostics (fillTlbFastCache vp pp c global writable s) = ts_diagnostics s"
  "ts_fast (fillTlbFastCache vp pp c global writable s) = ts_fast s
   \<or> ts_fast (fillTlbFastCache vp pp c global writable s) = (ts_fast s)(fastSet vp := \<lparr>fl_generation = ts_generation s,
        fl_key = makeTlbFastCacheKey vp c False, fl_matchMask = fastMask global writable, fl_physicalPageBase = pp\<rparr>)"
  by (simp_all add: fillTlbFastCache_def Let_def fastMask_def)

lemma fillFast_inv:
  assumes "tlb_inv s" "unshadowed (ts_entries s) \<Longrightarrow> pagePromise (ts_entries s) vp pp c global writable"
  shows "tlb_inv (fillTlbFastCache vp pp c global writable s)"
  using fillFast_fields(8) [of vp pp c global writable s]
proof
  assume "ts_fast (fillTlbFastCache vp pp c global writable s) = ts_fast s"
  then show ?thesis using assms(1) by (simp add: tlb_inv_defs fillFast_fields)
next
  assume f: "ts_fast (fillTlbFastCache vp pp c global writable s) = (ts_fast s)(fastSet vp := \<lparr>fl_generation = ts_generation s,
      fl_key = makeTlbFastCacheKey vp c False, fl_matchMask = fastMask global writable, fl_physicalPageBase = pp\<rparr>)"
  then show ?thesis
    using assms(1) promise_fast [OF assms(2)] unfolding tlb_inv_defs by (simp add: fillFast_fields)
qed

end
