(* ===== verification/EeTlbProps.thy ===== *)
theory EeTlbProps
  imports EeTlbCoherence
begin

text \<open>
  What the translation caches promise: nothing but speed. Every operation keeps their invariant; a
  translation through them, an access the generated code is granted and a fetch that is let through
  agree with the translation that reads the entries alone.
\<close>

unbundle bit_operations_syntax

section \<open>Filling and looking up keep the invariant\<close>

lemma promise_line:
  "pagePromise entries va0 pp c global writable \<Longrightarrow>
   lineCorrect entries \<lparr>tl_generation = g, tl_virtualPageBase = pageBase va0, tl_physicalPageBase = pp,
     tl_tlbPageSize = sz, tl_asid = tc_asid c, tl_mode = tc_mode c, tl_enforceOperatingMode = tc_enforceOperatingMode c,
     tl_errorLevel = tc_errorLevel c, tl_valid = True, tl_global = global, tl_writable = writable, tl_scratchpad = sp\<rparr>"
  by (auto simp: lineCorrect_def pagePromise_def lineMatches_def sameSpace_def)

lemma line_promise:
  assumes "lineCorrect entries line" "lineMatches line (pageBase va) c"
  shows "pagePromise entries (tl_virtualPageBase line) (tl_physicalPageBase line) c (tl_global line) (tl_writable line)"
  using assms by (auto simp: lineCorrect_def pagePromise_def lineMatches_def sameSpace_def)

lemma promise_page: "pagePromise entries (pageBase va) pp c g w = pagePromise entries va pp c g w"
  by (simp add: pagePromise_def)

lemma cache_line_inv:
  assumes "tlb_inv s" "unshadowed (ts_entries s) \<Longrightarrow> lineCorrect (ts_entries s) line" "tl_generation line = ts_generation s"
  shows "tlb_inv (s\<lparr>ts_cache := (ts_cache s)(i := (ts_cache s i)(j := line))\<rparr>)"
  using assms by (auto simp: tlb_inv_defs)

lemma fillCache_inv:
  assumes inv: "tlb_inv s"
    and pr: "unshadowed (ts_entries s) \<Longrightarrow> \<not> ta_scratchpad t \<Longrightarrow>
      pagePromise (ts_entries s) va (ta_physicalAddress t - pageOffset va) c global writable"
  shows "tlb_inv (fillTlbTranslationCache va t c sz global writable s)"
proof (cases "\<not> ts_cacheEnabled s \<or> ta_scratchpad t \<or> pageOffset (ta_physicalAddress t) \<noteq> pageOffset va
    \<or> ta_physicalAddress t - pageOffset va > PS2_RAM_SIZE - kTlbTranslationCachePageSize")
  case True
  then have "fillTlbTranslationCache va t c sz global writable s = s"
    by (auto simp: fillTlbTranslationCache_def Let_def)
  then show ?thesis using inv by simp
next
  case False
  let ?pp = "ta_physicalAddress t - pageOffset va" and ?i = "cacheSet va"
  define line where "line = \<lparr>tl_generation = ts_generation s, tl_virtualPageBase = pageBase va,
     tl_physicalPageBase = ?pp, tl_tlbPageSize = sz, tl_asid = tc_asid c, tl_mode = tc_mode c,
     tl_enforceOperatingMode = tc_enforceOperatingMode c, tl_errorLevel = tc_errorLevel c, tl_valid = True,
     tl_global = global, tl_writable = writable, tl_scratchpad = ta_scratchpad t\<rparr>"
  obtain s1 way where s1: "tlb_inv s1" "ts_entries s1 = ts_entries s" "ts_generation s1 = ts_generation s"
      and fill: "fillTlbTranslationCache va t c sz global writable s
        = tally (\<lambda>x. x\<lparr>st_fills := st_fills x + 1\<rparr>) (fillTlbFastCache (pageBase va) ?pp c global writable
            (s1\<lparr>ts_cache := (ts_cache s1)(?i := (ts_cache s1 ?i)(way := line))\<rparr>))"
  proof -
    have nw: "tlb_inv (s\<lparr>ts_nextWay := f\<rparr>)" for f using inv by (simp add: tlb_inv_defs)
    let ?way = "selectWay (ts_generation s) (pageBase va) c global (ts_cache s ?i) [0..<kTlbTranslationCacheWayCount]
      kTlbTranslationCacheWayCount"
    let ?next = "unat (ts_nextWay s ?i)"
    let ?s1 = "tally (\<lambda>x. x\<lparr>st_replacements := st_replacements x + 1\<rparr>) (s\<lparr>ts_nextWay :=
      (ts_nextWay s)(?i := of_nat ((?next + 1) mod kTlbTranslationCacheWayCount))\<rparr>)"
    show thesis
    proof (cases "?way = kTlbTranslationCacheWayCount")
      case True
      with False show thesis
        by (intro that [of ?s1 ?next]) (simp_all add: fillTlbTranslationCache_def Let_def line_def nw)
    next
      case neq: False
      with False show thesis
        by (intro that [of s ?way]) (simp_all add: fillTlbTranslationCache_def Let_def line_def inv)
    qed
  qed
  have l: "unshadowed (ts_entries s1) \<Longrightarrow> lineCorrect (ts_entries s1) line"
    unfolding line_def s1(2) using False by (intro promise_line pr) simp_all
  have "tlb_inv (s1\<lparr>ts_cache := (ts_cache s1)(?i := (ts_cache s1 ?i)(way := line))\<rparr>)"
    by (rule cache_line_inv [OF s1(1) l]) (simp_all add: line_def s1)
  then show ?thesis
    unfolding fill inv_tally using pr False by (intro fillFast_inv) (simp_all add: s1 promise_page)
qed

lemma fillCache_fields:
  "ts_entries (fillTlbTranslationCache va t c sz global writable s) = ts_entries s"
  "ts_generation (fillTlbTranslationCache va t c sz global writable s) = ts_generation s"
  by (simp_all add: fillTlbTranslationCache_def Let_def fillFast_fields split: prod.splits)

lemma lookupWays_found:
  "lookupWays va c w sz g ways misses = (Some line, m) \<Longrightarrow>
   line \<in> set ways \<and> lineMatches line (pageBase va) c \<and> tl_generation line = g \<and> (w \<longrightarrow> tl_writable line)"
  by (induction ways arbitrary: misses) (auto split: if_splits)

lemma lookup_inv:
  assumes inv: "tlb_inv s"
  shows "tlb_inv (snd (lookupTlbTranslationCache va c w sz s))"
    and "ts_entries (snd (lookupTlbTranslationCache va c w sz s)) = ts_entries s"
    and "ts_generation (snd (lookupTlbTranslationCache va c w sz s)) = ts_generation s"
    and "unshadowed (ts_entries s) \<Longrightarrow> fst (lookupTlbTranslationCache va c w sz s) = Some t \<Longrightarrow>
      uncached (ts_entries s) va c w = Inr t"
proof -
  let ?l = "lookupWays va c w sz (ts_generation s) (map (ts_cache s (cacheSet va)) [0..<kTlbTranslationCacheWayCount]) (False, False)"
  have found: "lineMatches line (pageBase va) c \<and> (w \<longrightarrow> tl_writable line) \<and> (unshadowed (ts_entries s) \<longrightarrow> lineCorrect (ts_entries s) line)"
    if "?l = (Some line, m)" for line m
    using lookupWays_found [OF that] inv by (auto simp: tlb_inv_defs)
  have "tlb_inv (fillTlbFastCache (tl_virtualPageBase line) (tl_physicalPageBase line) c (tl_global line) (tl_writable line) s)"
    if "?l = (Some line, m)" for line m
    using found [OF that] line_promise by (intro fillFast_inv [OF inv]) blast
  then show "tlb_inv (snd (lookupTlbTranslationCache va c w sz s))"
    using inv by (auto simp: lookupTlbTranslationCache_def Let_def split: prod.splits option.splits)
  show "ts_entries (snd (lookupTlbTranslationCache va c w sz s)) = ts_entries s"
    "ts_generation (snd (lookupTlbTranslationCache va c w sz s)) = ts_generation s"
    by (auto simp: lookupTlbTranslationCache_def Let_def fillFast_fields split: prod.splits option.splits)
  assume "unshadowed (ts_entries s)" "fst (lookupTlbTranslationCache va c w sz s) = Some t"
  then show "uncached (ts_entries s) va c w = Inr t"
    using found
    by (auto simp: lookupTlbTranslationCache_def Let_def lineCorrect_def split: prod.splits option.splits if_splits)
qed

section \<open>Translation\<close>

lemma throughTlb_inv:
  assumes "tlb_inv s" "tlbMapped va c"
  shows "tlb_inv (snd (translateThroughTlb va c w allow s))"
proof -
  have "tlb_inv (recordTlbTranslationSlowPathFault s)"
    using assms(1) by (simp add: recordTlbTranslationSlowPathFault_def)
  moreover have "tlb_inv (fillTlbTranslationCache va t c sz (entryGlobal e) d s)"
    if "find (entryMatches va (tc_asid c)) (ts_entries s) = Some e" "entryTranslation va w e = Inr (t, sz, d)" for e t sz d
    using uncached_page [OF _ assms(2) that] by (intro fillCache_inv [OF assms(1)]) (auto simp: pagePromise_def)
  ultimately show ?thesis
    using assms(1) by (auto simp: translateThroughTlb_def Let_def split: option.splits sum.splits)
qed

lemma throughTlb_fields:
  "ts_entries (snd (translateThroughTlb va c w allow s)) = ts_entries s"
  "ts_generation (snd (translateThroughTlb va c w allow s)) = ts_generation s"
  by (auto simp: translateThroughTlb_def Let_def recordTlbTranslationSlowPathFault_def fillCache_fields
      split: option.splits sum.splits)

lemma impl_inv:
  assumes "tlb_inv s"
  shows "tlb_inv (snd (translateAddressImpl va c w sz allow s))"
    and "ts_entries (snd (translateAddressImpl va c w sz allow s)) = ts_entries s"
    and "ts_generation (snd (translateAddressImpl va c w sz allow s)) = ts_generation s"
    and "unshadowed (ts_entries s) \<Longrightarrow> fst (translateAddressImpl va c w sz allow s) = uncached (ts_entries s) va c w"
proof -
  note l = lookup_inv [OF assms, of va c w sz]
  have A: "tlb_inv (snd (translateAddressImpl va c w sz allow s))
    \<and> ts_entries (snd (translateAddressImpl va c w sz allow s)) = ts_entries s
    \<and> ts_generation (snd (translateAddressImpl va c w sz allow s)) = ts_generation s
    \<and> (unshadowed (ts_entries s) \<longrightarrow> fst (translateAddressImpl va c w sz allow s) = uncached (ts_entries s) va c w)"
  proof (cases "allow \<and> tlbMapped va c")
    case True
    then have m: "tlbMapped va c" by simp
    have r: "translateAddressImpl va c w sz allow s =
      (case lookupTlbTranslationCache va c w sz s of
       (Some cached, s1) \<Rightarrow> (Inr cached, s1) | (None, s1) \<Rightarrow> translateThroughTlb va c w allow s1)"
      unfolding impl_mapped [OF m] using True by simp
    show ?thesis
      unfolding r using l throughTlb_inv [OF l(1) m] throughTlb_fields through_tlb [OF m]
      by (auto split: prod.splits option.splits)
  next
    case False
    then show ?thesis
      using assms impl_uncached [of va c w sz s] impl_unmapped [of va c w sz allow s]
      by (cases allow) (auto simp: uncached_def)
  qed
  then show "tlb_inv (snd (translateAddressImpl va c w sz allow s))"
    "ts_entries (snd (translateAddressImpl va c w sz allow s)) = ts_entries s"
    "ts_generation (snd (translateAddressImpl va c w sz allow s)) = ts_generation s"
    "unshadowed (ts_entries s) \<Longrightarrow> fst (translateAddressImpl va c w sz allow s) = uncached (ts_entries s) va c w"
    by simp_all
qed


section \<open>The access test\<close>

lemma tryResolve_inv:
  assumes "tlb_inv s"
  shows "tlb_inv (snd (tryResolveCachedTlbRdramOffset va c w sz s))"
    and "ts_entries (snd (tryResolveCachedTlbRdramOffset va c w sz s)) = ts_entries s"
    and "unshadowed (ts_entries s) \<Longrightarrow> fst (tryResolveCachedTlbRdramOffset va c w sz s) = Some p \<Longrightarrow>
      uncached (ts_entries s) va c w = Inr \<lparr>ta_physicalAddress = p, ta_scratchpad = False\<rparr> \<and> p \<le> PS2_RAM_SIZE - sz"
proof -
  show "tlb_inv (snd (tryResolveCachedTlbRdramOffset va c w sz s))"
    "ts_entries (snd (tryResolveCachedTlbRdramOffset va c w sz s)) = ts_entries s"
    using assms by (auto simp: tryResolveCachedTlbRdramOffset_def Let_def)
  assume "unshadowed (ts_entries s)" "fst (tryResolveCachedTlbRdramOffset va c w sz s) = Some p"
  then show "uncached (ts_entries s) va c w = Inr \<lparr>ta_physicalAddress = p, ta_scratchpad = False\<rparr> \<and> p \<le> PS2_RAM_SIZE - sz"
    using assms by (auto simp: tryResolveCachedTlbRdramOffset_def Let_def tlb_inv_defs fastCorrect_def split: if_splits)
qed

text \<open>For the sizes the template admits, it is the general test; only the counters may differ.\<close>

lemma fixed_is_general:
  assumes "supportedAccessSize sz"
  shows "fst (tryResolveCachedTlbRdramOffsetFixed sz w va c s) = fst (tryResolveCachedTlbRdramOffset va c w sz s)"
proof -
  have "unat (pageOffset va) < 4096" by (simp add: page_split)
  moreover have "unat sz \<le> 16" using assms by (simp add: supportedAccessSize_def word_le_nat_alt)
  ultimately have "pageOffset va > kTlbTranslationCachePageSize - sz \<longleftrightarrow> sz > kTlbTranslationCachePageSize - pageOffset va"
    by (auto simp: kTlbTranslationCachePageSize_def word_less_nat_alt word_le_nat_alt unat_sub_le)
  then show ?thesis
    using assms by (simp add: tryResolveCachedTlbRdramOffsetFixed_def tryResolveCachedTlbRdramOffset_def Let_def)
qed

lemma tryResolveFixed_inv:
  assumes "tlb_inv s"
  shows "tlb_inv (snd (tryResolveCachedTlbRdramOffsetFixed sz w va c s))"
    and "ts_entries (snd (tryResolveCachedTlbRdramOffsetFixed sz w va c s)) = ts_entries s"
  using assms by (auto simp: tryResolveCachedTlbRdramOffsetFixed_def Let_def)

text \<open>An address the direct test accepts is not mapped, and translates to the same offset.\<close>

lemma not_scratchpad: "v < 0xC0000000 \<Longrightarrow> \<not> (0x70000000 \<le> v \<and> v < 0x70004000) \<Longrightarrow> \<not> ps2IsScratchpadAddress v"
proof -
  assume v: "v < 0xC0000000" "\<not> (0x70000000 \<le> v \<and> v < 0x70004000)"
  have "unat (v AND mask 31) = unat v mod 2 ^ 31"
    by (simp add: unsigned_take_bit_eq take_bit_eq_mod unat_mod flip: take_bit_eq_mask)
  then have l: "unat (v AND 0x7FFFFFFF) = unat v mod 2147483648" by (simp add: mask_eq_exp_minus_1)
  have "unat v mod 2147483648 = (if unat v < 2147483648 then unat v else unat v - 2147483648)"
    using v(1) by (auto simp: word_less_nat_alt le_mod_geq not_less)
  then show ?thesis
    using v l by (auto simp: scratchpad_region word_less_nat_alt word_le_nat_alt split: if_splits)
qed

lemma direct_offset:
  assumes "permits c va" "directAddress c va" "ps2ResolveDirectRdramOffset va = (True, p)"
  shows "uncached entries va c w = Inr \<lparr>ta_physicalAddress = p, ta_scratchpad = False\<rparr>"
proof -
  have p: "p = va AND PS2_RAM_MASK"
    and k: "va < 0x2000000 \<or> Ps2IsUncachedRamMirrorAddress va \<or> Ps2IsAcceleratedRamMirrorAddress va
      \<or> Ps2IsKseg01Address va \<and> va AND 0x1FFFFFFF < 0x2000000"
    using assms(3) by (auto simp: ps2ResolveDirectRdramOffset_def Let_def region_defs Ps2IsUncachedRamMirrorAddress_def
        Ps2IsAcceleratedRamMirrorAddress_def Ps2IsKseg01Address_def split: if_splits)
  have m: "PS2_RAM_MASK = mask 25" by (simp add: region_defs mask_eq_exp_minus_1)
  have low: "v AND mask 25 = v" if "v < 0x2000000" for v :: u32
    using that by (simp add: word_unat_eq_iff unsigned_take_bit_eq take_bit_eq_mod unat_mod word_less_nat_alt flip: take_bit_eq_mask)
  have unfolded: "unmapped va c = fst (translateAddressImpl va c False 1 False tlb_new)" by (simp add: unmapped_def)
  consider (physical) "va < 0x2000000" | (mirror) "0x20000000 \<le> va" "va < 0x32000000"
      "Ps2IsUncachedRamMirrorAddress va \<or> Ps2IsAcceleratedRamMirrorAddress va"
    | (kseg) "Ps2IsKseg01Address va" "va AND 0x1FFFFFFF < 0x2000000"
    using k by (auto simp: regions word_le_nat_alt word_less_nat_alt)
  then show ?thesis
  proof cases
    case physical
    then have s: "\<not> ps2IsScratchpadAddress va" "\<not> Ps2IsPhysicalSpecialAddress va" "\<not> Ps2IsUncachedRamMirrorAddress va"
        "\<not> Ps2IsAcceleratedRamMirrorAddress va" "\<not> Ps2IsKseg01Address va" "\<not> Ps2IsKseg23Address va" "va < 0x80000000"
      using not_scratchpad [of va] by (auto simp: regions Ps2IsKseg23Address_def word_less_nat_alt word_le_nat_alt)
    moreover from s assms(2) have "\<not> mapsKusegThroughTlb c va" by (simp add: directAddress_def)
    ultimately show ?thesis
      using assms(1) low [OF physical] by (simp add: uncached_def tlbMapped_def unfolded translateAddressImpl_def p m)
  next
    case mirror
    then have "\<not> ps2IsScratchpadAddress va" "\<not> Ps2IsPhysicalSpecialAddress va"
      using not_scratchpad [of va] by (auto simp: regions word_less_nat_alt word_le_nat_alt)
    then show ?thesis
      using assms(1) mirror(3) by (auto simp: uncached_def tlbMapped_def unfolded translateAddressImpl_def p)
  next
    case kseg
    then have "\<not> ps2IsScratchpadAddress va" "\<not> va < 0x80000000" "\<not> Ps2IsUncachedRamMirrorAddress va"
        "\<not> Ps2IsAcceleratedRamMirrorAddress va"
      using not_scratchpad [of va] by (auto simp: regions word_less_nat_alt word_le_nat_alt)
    moreover have "va AND 0x1FFFFFFF = va AND mask 25"
      using low [OF kseg(2)] by (simp add: and.assoc mask_eq_exp_minus_1)
    ultimately show ?thesis
      using assms(1) kseg(1)
      by (simp add: uncached_def tlbMapped_def unfolded translateAddressImpl_def p m Ps2DirectMappedPhysicalAddress_def)
  qed
qed

lemma fastAccess_inv:
  assumes "tlb_inv s"
  shows "tlb_inv (snd (Ps2ResolveFastGuestRdramOffset c va sz w s))"
    and "ts_entries (snd (Ps2ResolveFastGuestRdramOffset c va sz w s)) = ts_entries s"
    and "unshadowed (ts_entries s) \<Longrightarrow> fst (Ps2ResolveFastGuestRdramOffset c va sz w s) = Some p \<Longrightarrow>
      uncached (ts_entries s) va c w = Inr \<lparr>ta_physicalAddress = p, ta_scratchpad = False\<rparr> \<and> p \<le> PS2_RAM_SIZE - sz"
proof -
  show "tlb_inv (snd (Ps2ResolveFastGuestRdramOffset c va sz w s))"
    "ts_entries (snd (Ps2ResolveFastGuestRdramOffset c va sz w s)) = ts_entries s"
    using assms tryResolve_inv(1,2) [OF assms] by (auto simp: Ps2ResolveFastGuestRdramOffset_def split: prod.splits)
  assume "unshadowed (ts_entries s)" "fst (Ps2ResolveFastGuestRdramOffset c va sz w s) = Some p"
  then show "uncached (ts_entries s) va c w = Inr \<lparr>ta_physicalAddress = p, ta_scratchpad = False\<rparr> \<and> p \<le> PS2_RAM_SIZE - sz"
    using tryResolve_inv(3) [OF assms, of va c w sz p] direct_offset [of c va p "ts_entries s" w]
    by (auto simp: Ps2ResolveFastGuestRdramOffset_def Ps2CanUseFastRdramAccess_def split: prod.splits if_splits)
qed

lemma fastAccessFixed_inv:
  assumes "tlb_inv s"
  shows "tlb_inv (snd (Ps2ResolveFastGuestRdramOffsetFixed sz w c va s))"
    and "ts_entries (snd (Ps2ResolveFastGuestRdramOffsetFixed sz w c va s)) = ts_entries s"
    and "unshadowed (ts_entries s) \<Longrightarrow> supportedAccessSize sz \<Longrightarrow>
      fst (Ps2ResolveFastGuestRdramOffsetFixed sz w c va s) = Some p \<Longrightarrow>
      uncached (ts_entries s) va c w = Inr \<lparr>ta_physicalAddress = p, ta_scratchpad = False\<rparr> \<and> p \<le> PS2_RAM_SIZE - sz"
proof -
  show "tlb_inv (snd (Ps2ResolveFastGuestRdramOffsetFixed sz w c va s))"
    "ts_entries (snd (Ps2ResolveFastGuestRdramOffsetFixed sz w c va s)) = ts_entries s"
    using assms tryResolveFixed_inv [OF assms]
    by (auto simp: Ps2ResolveFastGuestRdramOffsetFixed_def Let_def split: prod.splits)
  assume "unshadowed (ts_entries s)" "supportedAccessSize sz" "fst (Ps2ResolveFastGuestRdramOffsetFixed sz w c va s) = Some p"
  then show "uncached (ts_entries s) va c w = Inr \<lparr>ta_physicalAddress = p, ta_scratchpad = False\<rparr> \<and> p \<le> PS2_RAM_SIZE - sz"
    using tryResolve_inv(3) [OF assms, of va c w sz p] direct_offset [of c va p "ts_entries s" w]
    by (auto simp: Ps2ResolveFastGuestRdramOffsetFixed_def Let_def fixed_is_general split: prod.splits if_splits)
qed

section \<open>Fetches\<close>

lemma remember_inv:
  assumes "tlb_inv s" "unshadowed (ts_entries s) \<Longrightarrow> \<not> isl (uncached (ts_entries s) va (fromCop0Status status asid) False)"
  shows "tlb_inv (rememberValidatedInstructionFetchRdramPage (eeInstructionFetchPageKey status asid va) s)"
proof -
  have "fetchCorrect (ts_entries s) (eeInstructionFetchPageKey status asid va)" if "unshadowed (ts_entries s)"
    using assms(2) [OF that] unfolding fetchCorrect_def by (metis fetchKey_match success_page)
  then show ?thesis
    using assms(1) by (auto simp: rememberValidatedInstructionFetchRdramPage_def tlb_inv_defs)
qed

lemma remember_entries [simp]:
  "ts_entries (rememberValidatedInstructionFetchRdramPage key s) = ts_entries s"
  by (simp add: rememberValidatedInstructionFetchRdramPage_def)

lemma translateAddress_inv:
  assumes "tlb_inv s"
  shows "tlb_inv (snd (translateAddress va c w sz s))" "ts_entries (snd (translateAddress va c w sz s)) = ts_entries s"
    and "unshadowed (ts_entries s) \<Longrightarrow>
      fst (translateAddress va c w sz s) = map_sum id ta_physicalAddress (uncached (ts_entries s) va c w)"
  using impl_inv [OF assms, of va c w sz True] by (simp_all add: translateAddress_def resolveAddress_def)

lemma fetchMiss_inv:
  assumes inv: "tlb_inv s"
  shows "tlb_inv (snd (validateInstructionFetchPageMiss status asid va s))"
    and "unshadowed (ts_entries s) \<Longrightarrow> va AND 3 = 0 \<Longrightarrow> fst (validateInstructionFetchPageMiss status asid va s)
      = (case uncached (ts_entries s) va (fromCop0Status status asid) False of Inl e \<Rightarrow> Some e | Inr _ \<Rightarrow> None)"
proof -
  let ?c = "fromCop0Status status asid"
  obtain f s1 where f: "Ps2ResolveFastGuestRdramOffset ?c va 4 False s = (f, s1)" by fastforce
  obtain r s2 where r: "translateAddress va ?c False 4 s1 = (r, s2)" by fastforce
  note F = fastAccess_inv [OF inv, of ?c va 4 False, unfolded f fst_conv snd_conv]
  note R = translateAddress_inv [OF F(1), of va ?c False 4, unfolded r fst_conv snd_conv F(2)]
  have "tlb_inv (snd (validateInstructionFetchPageMiss status asid va s))
    \<and> (unshadowed (ts_entries s) \<longrightarrow> va AND 3 = 0 \<longrightarrow> fst (validateInstructionFetchPageMiss status asid va s)
      = (case uncached (ts_entries s) va ?c False of Inl e \<Rightarrow> Some e | Inr _ \<Rightarrow> None))"
  proof (cases "va AND 3 = 0")
    case al: True
    show ?thesis
    proof (cases f)
      case (Some p)
      then show ?thesis
        using al f F remember_inv [OF F(1), of va status asid]
        by (auto simp: validateInstructionFetchPageMiss_def Let_def F(2))
    next
      case None
      have "tlb_inv (rememberValidatedInstructionFetchRdramPage (eeInstructionFetchPageKey status asid va) s2)" if "r = Inr p" for p
        using R that by (intro remember_inv) (auto simp: map_sum_def split: sum.splits)
      then show ?thesis
        using None al f r R
        by (cases "uncached (ts_entries s) va ?c False"; cases r) (auto simp: validateInstructionFetchPageMiss_def Let_def)
    qed
  qed (simp add: validateInstructionFetchPageMiss_def inv)
  then show "tlb_inv (snd (validateInstructionFetchPageMiss status asid va s))"
    "unshadowed (ts_entries s) \<Longrightarrow> va AND 3 = 0 \<Longrightarrow> fst (validateInstructionFetchPageMiss status asid va s)
      = (case uncached (ts_entries s) va ?c False of Inl e \<Rightarrow> Some e | Inr _ \<Rightarrow> None)"
    by simp_all
qed


lemma fetch_inv:
  assumes inv: "tlb_inv s"
  shows "tlb_inv (snd (validateInstructionFetch status asid va s))"
    and "unshadowed (ts_entries s) \<Longrightarrow> fst (validateInstructionFetch status asid va s) =
      (if va AND 3 \<noteq> 0 then Some (AddressError va)
       else case uncached (ts_entries s) va (fromCop0Status status asid) False of Inl e \<Rightarrow> Some e | Inr _ \<Rightarrow> None)"
proof -
  show "tlb_inv (snd (validateInstructionFetch status asid va s))"
    using inv fetchMiss_inv(1) [OF inv] by (simp add: validateInstructionFetch_def)
  assume u: "unshadowed (ts_entries s)"
  have "\<not> isl (uncached (ts_entries s) va (fromCop0Status status asid) False)"
    if "tryReuseValidatedInstructionFetchRdramPage (eeInstructionFetchPageKey status asid va) s"
    using that inv u by (auto simp: tryReuseValidatedInstructionFetchRdramPage_def tlb_inv_defs fetchCorrect_def)
  then show "fst (validateInstructionFetch status asid va s) =
      (if va AND 3 \<noteq> 0 then Some (AddressError va)
       else case uncached (ts_entries s) va (fromCop0Status status asid) False of Inl e \<Rightarrow> Some e | Inr _ \<Rightarrow> None)"
    using fetchMiss_inv(2) [OF inv u, of va status asid]
    by (auto simp: validateInstructionFetch_def validateInstructionFetchPageMiss_def split: sum.splits)
qed

section \<open>The machine\<close>

lemma tlb_step_inv:
  assumes "tlb_inv s"
  shows "tlb_inv (tlbStep op s)"
proof -
  have b: "generationsBounded s" using assms by (simp add: tlb_inv_def)
  show ?thesis
  proof (cases op)
    case (OpLoad entries postBios generation)
    then show ?thesis
      using assms
      by (auto simp: loadTlbState_def Let_def clearTlbTranslationCache_def tlb_inv_defs emptyLine_def emptyFastLine_def
          word_neq_0_conv)
  next
    case OpInitialize
    then show ?thesis
      using b by (simp add: initializeTlb_def installPostBiosTlbState_def advance_inv)
  next
    case OpInstallPostBios
    then show ?thesis using b by (simp add: installPostBiosTlbState_def advance_inv)
  next
    case (OpTlbWrite index entry)
    then show ?thesis using assms b by (simp add: tlbWrite_def advance_inv)
  next
    case (OpSetEnabled enabled)
    then show ?thesis using assms by (auto simp: setTlbTranslationCacheEnabled_def tlb_inv_defs)
  next
    case (OpSetDiagnostics enabled)
    then show ?thesis using assms by (auto simp: setTlbTranslationCacheDiagnosticsEnabled_def tlb_inv_defs)
  next
    case OpResetStats
    then show ?thesis using assms by (simp add: resetTlbTranslationCacheStats_def tlb_inv_defs)
  qed (simp_all add: assms translateAddress_inv translateAddressUncached_def resolveAddressUncached_def impl_uncached
      fastAccess_inv fastAccessFixed_inv fetch_inv)
qed

interpretation tlb_machine: invariant_machine tlb_new tlbStep tlb_inv "\<lambda>_. \<infinity>"
  by unfold_locales (simp_all add: tlb_new_inv tlb_step_inv)

lemma tlb_reached: "tlb_inv (fold tlbStep ops tlb_new)"
  by (rule tlb_machine.inv_run_init) simp

text \<open>C13. Whatever the runtime did to the TLB and its caches before, and whatever the caches hold, a
  translation through them returns the address, or raises the exception, that the entries alone give, and so
  for every access kind, size, operating mode and address space; provided that no private entry stands in front
  of a global entry whose pages it overlaps.\<close>

theorem tlb_cache_transparent:
  assumes "s = fold tlbStep ops tlb_new" and "unshadowed (ts_entries s)"
  shows "fst (translateAddress va c w sz s) = fst (translateAddressUncached va c w sz s)"
  using translateAddress_inv(3) [OF tlb_reached [of ops, folded assms(1)] assms(2)]
  by (simp add: translateAddressUncached_def resolveAddressUncached_def impl_uncached)

text \<open>The mappings the BIOS leaves, one page translated twice, the second time from the cache.\<close>

theorem tlb_cache_transparent_witness:
  "let s = fold tlbStep [OpInstallPostBios, OpTranslate 0x00081234 (fromCop0Status 0 7) False 4] tlb_new
   in fst (translateAddress 0x00081238 (fromCop0Status 0 9) True 4 s) = Inr 0x81238
    \<and> isl (fst (translateAddress 0xC0000000 (fromCop0Status 0 9) True 4 s))"
proof -
  let ?ops = "[OpInstallPostBios, OpTranslate 0x00081234 (fromCop0Status 0 7) False 4]"
  let ?s = "fold tlbStep ?ops tlb_new"
  have i: "tlb_inv (installPostBiosTlbState tlb_new)" using tlb_step_inv [OF tlb_new_inv, of OpInstallPostBios] by simp
  have e: "ts_entries ?s = postBiosEntries"
    by (simp add: translateAddress_inv(2) [OF i]) (simp add: installPostBiosTlbState_def advanceTlbMappingGeneration_def
        Let_def clearTlbTranslationCache_def)
  have u: "unshadowed (ts_entries ?s)" unfolding e by code_simp
  have r: "uncached postBiosEntries 0x00081238 (fromCop0Status 0 9) True = Inr \<lparr>ta_physicalAddress = 0x81238, ta_scratchpad = False\<rparr>"
    "isl (uncached postBiosEntries 0xC0000000 (fromCop0Status 0 9) True)" by code_simp+
  show ?thesis
    using tlb_cache_transparent [OF refl u, of "0x00081238" "fromCop0Status 0 9" True 4]
      tlb_cache_transparent [OF refl u, of "0xC0000000" "fromCop0Status 0 9" True 4] r
    by (simp add: translateAddressUncached_def resolveAddressUncached_def impl_uncached e [simplified]
        split: sum.splits) (auto simp: map_sum_def split: sum.splits)
qed





end
