(* ===== verification/EeTlbEntries.thy ===== *)
theory EeTlbEntries
  imports EeTlbProps
begin

text \<open>
  The TLB instructions: what a written entry reads back as and where it is probed, and the one shape of
  entries for which the translation caches are not transparent.
\<close>

unbundle bit_operations_syntax

section \<open>Normal entries\<close>

definition normalEntry :: "tlb_entry \<Rightarrow> bool" where
  "normalEntry e \<longleftrightarrow>
     te_pageMask e AND 0x01ffe000 = te_pageMask e \<and> te_entryHi e AND 0xffffe0ff = te_entryHi e
     \<and> te_entryHi e AND te_pageMask e = 0
     \<and> te_entryLo0 e AND 0x83ffffff = te_entryLo0 e \<and> te_entryLo1 e AND 0x03ffffff = te_entryLo1 e
     \<and> te_entryLo0 e AND 1 = te_entryLo1 e AND 1
     \<and> (entryScratchpad e \<longrightarrow> te_pageMask e = 0 \<and> te_entryLo0 e AND 0x38 = 0x10 \<and> te_entryLo1 e AND 0x38 = 0x10)"

lemma global_bit: "((x AND NOT 1) OR (if b then 1 else 0)) AND 1 = (if b then 1 else (0 :: u32))"
  by (rule bit_word_eqI) (auto simp: bit_simps)

lemma global_kept: "M AND 1 = 1 \<Longrightarrow> (((x AND M) AND NOT 1) OR (if b then 1 else 0)) AND M = ((x AND M) AND NOT 1) OR (if b then 1 else (0 :: u32))"
  by (rule bit_word_eqI) (auto simp: bit_simps bit_eq_iff split: if_splits)

lemma cache_field: "((x AND NOT 0x38) OR 0x10) AND 0x38 = (0x10 :: u32)"
  by (simp add: bit.conj_disj_distrib2 and.assoc)

lemma cache_kept: "M AND 0x10 = 0x10 \<Longrightarrow> x AND M = x \<Longrightarrow> ((x AND NOT 0x38) OR 0x10) AND M = (x AND NOT 0x38) OR (0x10 :: u32)"
  by (rule bit_word_eqI) (auto simp: bit_simps bit_eq_iff)

lemma cache_other: "M AND 0x38 = 0 \<Longrightarrow> ((x AND NOT 0x38) OR 0x10) AND M = x AND (M :: u32)"
proof -
  assume m: "M AND 0x38 = 0"
  have "M AND 0x10 = (M AND 0x38) AND 0x10" by (simp add: and.assoc)
  then have "0x10 AND M = 0" by (simp only: m) (simp add: and.commute)
  then show ?thesis using masked_disjoint [OF m, of x] by (simp add: bit.conj_disj_distrib2)
qed

lemma normalize_parts:
  "normalizeEntry e =
    (let a = te_entryLo0 e AND 0x83ffffff; b = te_entryLo1 e AND 0x03ffffff;
         g = (if a AND b AND 1 \<noteq> 0 then 1 else 0);
         l0 = (a AND NOT 1) OR g; l1 = (b AND NOT 1) OR g; sp = (l0 AND 0x80000000 \<noteq> 0);
         pm = (if sp then 0 else te_pageMask e AND 0x01ffe000)
     in \<lparr>te_pageMask = pm, te_entryHi = (te_entryHi e AND 0xffffe0ff) AND NOT pm,
         te_entryLo0 = (if sp then (l0 AND NOT 0x38) OR 0x10 else l0),
         te_entryLo1 = (if sp then (l1 AND NOT 0x38) OR 0x10 else l1)\<rparr>)"
  by (simp add: normalizeEntry_def Let_def)

lemma kept_masked: "((x AND M) AND NOT p) AND M = (x AND M) AND NOT (p :: u32)" "((x AND M) AND NOT p) AND p = 0"
  by (rule bit_word_eqI; auto simp: bit_simps)+

lemma normalize_normal: "normalEntry (normalizeEntry e)"
proof -
  define g where "g \<longleftrightarrow> te_entryLo0 e AND 0x83ffffff AND (te_entryLo1 e AND 0x03ffffff) AND 1 \<noteq> 0"
  define l0 l1 where l: "l0 = ((te_entryLo0 e AND 0x83ffffff) AND NOT 1) OR (if g then 1 else 0)"
    "l1 = ((te_entryLo1 e AND 0x03ffffff) AND NOT 1) OR (if g then 1 else 0)"
  define sp where "sp \<longleftrightarrow> l0 AND 0x80000000 \<noteq> 0"
  define pm where "pm = (if sp then 0 else te_pageMask e AND 0x01ffe000)"
  have n: "normalizeEntry e = \<lparr>te_pageMask = pm, te_entryHi = (te_entryHi e AND 0xffffe0ff) AND NOT pm,
         te_entryLo0 = (if sp then (l0 AND NOT 0x38) OR 0x10 else l0),
         te_entryLo1 = (if sp then (l1 AND NOT 0x38) OR 0x10 else l1)\<rparr>"
    unfolding normalize_parts Let_def pm_def sp_def l g_def by (simp only: and.assoc)
  have k: "l0 AND 0x83ffffff = l0" "l1 AND 0x03ffffff = l1" unfolding l by (intro global_kept, simp)+
  have one: "l0 AND 1 = l1 AND 1" unfolding l global_bit by simp
  let ?l0 = "if sp then (l0 AND NOT 0x38) OR 0x10 else l0" and ?l1 = "if sp then (l1 AND NOT 0x38) OR 0x10 else l1"
  have sel: "te_pageMask (normalizeEntry e) = pm" "te_entryHi (normalizeEntry e) = (te_entryHi e AND 0xffffe0ff) AND NOT pm"
    "te_entryLo0 (normalizeEntry e) = ?l0" "te_entryLo1 (normalizeEntry e) = ?l1" by (simp_all only: n tlb_entry.simps)
  have "pm AND 0x01ffe000 = pm" by (simp add: pm_def and.assoc)
  moreover have "entryScratchpad (normalizeEntry e) = sp"
    using cache_other [of "0x80000000" l0] by (simp add: sel entryScratchpad_def sp_def)
  moreover have "?l0 AND 1 = ?l1 AND 1" using cache_other [of 1 l0] cache_other [of 1 l1] one by simp
  moreover have "?l0 AND 0x83ffffff = ?l0" "?l1 AND 0x03ffffff = ?l1"
    using cache_kept [OF _ k(1)] cache_kept [OF _ k(2)] k by simp_all
  moreover have "sp \<longrightarrow> pm = 0" "sp \<longrightarrow> ?l0 AND 0x38 = 0x10" "sp \<longrightarrow> ?l1 AND 0x38 = 0x10"
    by (simp add: pm_def) (intro impI, simp only: if_True cache_field)+
  moreover have "((te_entryHi e AND 0xffffe0ff) AND NOT pm) AND 0xffffe0ff = (te_entryHi e AND 0xffffe0ff) AND NOT pm"
    "((te_entryHi e AND 0xffffe0ff) AND NOT pm) AND pm = 0" by (rule kept_masked)+
  ultimately show ?thesis unfolding normalEntry_def sel by blast
qed

lemma cleared_set: "x AND NOT m OR (x AND m) = (x :: u32)"
  by (rule bit_word_eqI) (auto simp: bit_simps)

lemma normal_fixed:
  assumes "normalEntry e"
  shows "normalizeEntry e = e"
proof -
  note d = assms [unfolded normalEntry_def]
  let ?g = "if te_entryLo0 e AND te_entryLo1 e AND 1 \<noteq> 0 then 1 else (0 :: u32)"
  have bit0: "x AND 1 = (if x AND 1 \<noteq> 0 then 1 else 0)" for x :: u32
    by (simp add: and_one_eq mod_2_eq_odd)
  have "te_entryLo0 e AND te_entryLo1 e AND 1 = te_entryLo0 e AND 1"
    using d by (metis and.assoc and.left_idem and.left_commute)
  then have g: "?g = te_entryLo0 e AND 1" "?g = te_entryLo1 e AND 1" using bit0 [of "te_entryLo0 e"] d by metis+
  have lo: "(te_entryLo0 e AND NOT 1) OR ?g = te_entryLo0 e" "(te_entryLo1 e AND NOT 1) OR ?g = te_entryLo1 e"
    by (simp only: g cleared_set) (simp only: g(2) cleared_set)
  have sp: "entryScratchpad e \<Longrightarrow> (te_entryLo0 e AND NOT 0x38) OR 0x10 = te_entryLo0 e \<and> (te_entryLo1 e AND NOT 0x38) OR 0x10 = te_entryLo1 e"
    using d cleared_set [of "te_entryLo0 e" "0x38"] cleared_set [of "te_entryLo1 e" "0x38"] by simp
  have hi: "te_entryHi e AND NOT (te_pageMask e) = te_entryHi e"
    using d cleared_set [of "te_entryHi e" "te_pageMask e"] by simp
  show ?thesis
  proof -
    have "normalizeEntry e = (let s = entryScratchpad e; pm = (if s then 0 else te_pageMask e) in
        \<lparr>te_pageMask = pm, te_entryHi = te_entryHi e AND NOT pm,
          te_entryLo0 = (if s then (te_entryLo0 e AND NOT 0x38) OR 0x10 else te_entryLo0 e),
          te_entryLo1 = (if s then (te_entryLo1 e AND NOT 0x38) OR 0x10 else te_entryLo1 e)\<rparr>)"
      unfolding normalize_parts Let_def by (simp only: d lo entryScratchpad_def)
    then show ?thesis using sp hi d by (cases "entryScratchpad e") (simp_all only: Let_def if_True if_False, simp_all)
  qed
qed


section \<open>Reading and probing\<close>

text \<open>C28. TLBW stores an entry in normal form (page bits of the virtual page cleared, one global bit for both
  halves, a scratchpad entry of the least page size and uncached), which TLBR returns and which TLBW of the
  value read leaves as it is; every other entry stays; an index beyond the entries is refused and changes
  nothing; and TLBP of the stored EntryHi finds the entry unless an earlier one matches.\<close>

theorem tlb_write_read_probe:
  "let (written, s') = tlbWrite index e s; n = normalizeEntry e
   in written = (unat index < length (ts_entries s))
    \<and> (\<not> written \<longrightarrow> s' = s)
    \<and> (written \<longrightarrow> tlbRead index s' = Some n \<and> normalEntry n \<and> ts_entries (snd (tlbWrite index n s')) = ts_entries s'
        \<and> (\<forall>j. j \<noteq> index \<longrightarrow> tlbRead j s' = tlbRead j s)
        \<and> (\<forall>hi. probeMatches hi n \<longrightarrow> (\<forall>i<unat index. \<not> probeMatches hi (ts_entries s ! i)) \<longrightarrow> tlbProbe hi s' = uint index)
        \<and> probeMatches (te_entryHi n) n)"
proof (cases "unat index < length (ts_entries s)")
  case True
  let ?n = "normalizeEntry e"
  have entries: "ts_entries (advanceTlbMappingGeneration x) = ts_entries x" for x
    by (simp add: advanceTlbMappingGeneration_def Let_def clearTlbTranslationCache_def)
  have probe: "probeFrom hi k es = k + int i"
    if "i < length es" "probeMatches hi (es ! i)" "\<forall>j<i. \<not> probeMatches hi (es ! j)" for hi k i es
    using that
  proof (induction es arbitrary: k i)
    case (Cons x es)
    show ?case
    proof (cases i)
      case (Suc m)
      then have "\<not> probeMatches hi x" "\<forall>j<m. \<not> probeMatches hi (es ! j)" using Cons.prems(3) by auto
      then show ?thesis using Cons.IH [of m "k + 1"] Cons.prems Suc by simp
    qed (use Cons.prems in simp)
  qed simp
  have "probeMatches (te_entryHi ?n) ?n"
  proof -
    note d = normalize_normal [of e, unfolded normalEntry_def]
    have h: "te_entryHi ?n AND NOT (te_pageMask ?n) = te_entryHi ?n"
      using cleared_set [of "te_entryHi ?n" "te_pageMask ?n"] d by simp
    have "(te_entryHi ?n AND 0xffffe000) AND NOT (te_pageMask ?n) = (te_entryHi ?n AND NOT (te_pageMask ?n)) AND 0xffffe000"
      by (simp only: ac_simps)
    then have "(te_entryHi ?n AND 0xffffe000) AND NOT (te_pageMask ?n) = te_entryHi ?n AND 0xffffe000"
      by (simp only: h)
    moreover have "entryPageMask ?n = te_pageMask ?n" using d by (simp only: entryPageMask_def)
    ultimately show ?thesis by (simp only: probeMatches_def Let_def simp_thms)
  qed
  moreover define s' where "s' = advanceTlbMappingGeneration (s\<lparr>ts_entries := (ts_entries s)[unat index := ?n]\<rparr>)"
  have w: "tlbWrite index e s = (True, s')" using True by (simp add: tlbWrite_def s'_def)
  have es: "ts_entries s' = (ts_entries s)[unat index := ?n]" by (simp add: s'_def entries)
  have "tlbProbe hi s' = uint index"
    if "probeMatches hi ?n" "\<forall>i<unat index. \<not> probeMatches hi (ts_entries s ! i)" for hi
    using True that probe [of "unat index" "ts_entries s'" hi 0] by (simp add: tlbProbe_def es)
  moreover have "tlbRead index s' = Some ?n" using True by (simp add: tlbRead_def es)
  moreover have "tlbRead j s' = tlbRead j s" if "j \<noteq> index" for j
  proof -
    have "unat j \<noteq> unat index" using that by (simp add: word_unat_eq_iff)
    then show ?thesis by (simp add: tlbRead_def es)
  qed
  moreover have "ts_entries (snd (tlbWrite index ?n s')) = ts_entries s'"
    using True by (simp add: tlbWrite_def es entries normal_fixed [OF normalize_normal])
  ultimately show ?thesis
    using True normalize_normal [of e] unfolding w Let_def prod.case by blast
next
  case False
  then show ?thesis by (simp add: tlbWrite_def)
qed

text \<open>The write of a mapping with one-sided global bits and low virtual-page bits under its page mask.\<close>

theorem tlb_write_read_probe_witness:
  "let s = initializeTlb tlb_new;
       e = \<lparr>te_pageMask = 0x6000, te_entryHi = 0x00406012, te_entryLo0 = 0x1f, te_entryLo1 = 0x1e\<rparr>;
       s' = snd (tlbWrite 5 e s)
   in tlbRead 5 s' = Some \<lparr>te_pageMask = 0x6000, te_entryHi = 0x00400012, te_entryLo0 = 0x1e, te_entryLo1 = 0x1e\<rparr>
     \<and> tlbProbe 0x00402012 s' = 5"
proof -
  let ?s = "initializeTlb tlb_new"
  let ?e = "\<lparr>te_pageMask = 0x6000, te_entryHi = 0x00406012, te_entryLo0 = 0x1f, te_entryLo1 = 0x1e :: u32\<rparr>"
  have s: "ts_entries ?s = replicate 48 zeroEntry" by code_simp
  have n: "normalizeEntry ?e = \<lparr>te_pageMask = 0x6000, te_entryHi = 0x00400012, te_entryLo0 = 0x1e, te_entryLo1 = 0x1e\<rparr>"
    by code_simp
  have m: "probeMatches 0x00402012 (normalizeEntry ?e)" "\<not> probeMatches 0x00402012 zeroEntry" by code_simp+
  have w: "fst (tlbWrite 5 ?e ?s)" by (simp add: tlbWrite_def s)
  show ?thesis
    using tlb_write_read_probe [of 5 ?e ?s] w m n by (simp add: case_prod_beta Let_def s)
qed

section \<open>The shape that is not transparent\<close>

text \<open>A private entry of address space 1 in front of a global entry for the same page: once address space 2
  has filled the cache from the global entry, address space 1 is given the global mapping, not its own.\<close>

definition shadowedTlb :: "tlb_op list" where
  "shadowedTlb = [OpInitialize,
     OpTlbWrite 0 \<lparr>te_pageMask = 0, te_entryHi = 0x00400001, te_entryLo0 = 0x46, te_entryLo1 = 0x46\<rparr>,
     OpTlbWrite 1 \<lparr>te_pageMask = 0, te_entryHi = 0x00400000, te_entryLo0 = 0x87, te_entryLo1 = 0x87\<rparr>,
     OpTranslate 0x00400000 (fromCop0Status 0 2) False 4]"

lemma shadowed_global_differs:
  "fst (translateAddress 0x00400000 (fromCop0Status 0 1) False 4 (fold tlbStep shadowedTlb tlb_new)) = Inr 0x2000"
  "fst (translateAddressUncached 0x00400000 (fromCop0Status 0 1) False 4 (fold tlbStep shadowedTlb tlb_new)) = Inr 0x1000"
  by code_simp+

end
