(* ===== verification/CodeRegions.thy ===== *)
theory CodeRegions
  imports EeAddress
begin

text \<open>
  The tracking of guest code in \<open>ps2xRuntime/src/lib/ps2_memory.cpp\<close> (declarations in \<open>ps2_memory.h\<close>): the
  registered code regions with a modified flag per word, the bitmap of the pages that may hold code, and the
  invalidation events. Sums the code computes in \<open>uint64_t\<close> or \<open>size_t\<close> are natural numbers; those it
  computes in \<open>uint32_t\<close> wrap. Log messages are left out. \<open>std::sort\<close> is the stable sort; which order it
  gives equal elements does not matter for what the events are merged to.
\<close>

unbundle bit_operations_syntax

section \<open>State\<close>

record code_region =
  rg_start :: u32
  rg_end :: u32
  rg_modified :: "bool list"

record code_event =
  iv_start :: u32
  iv_end :: u32
  iv_words :: u32
  iv_writerPc :: u32

record code_state =
  cd_regions :: "code_region list"
  cd_hasRegions :: bool
  cd_pages :: "nat \<Rightarrow> u64"
  cd_pending :: "code_event list"

definition code_new :: code_state where
  "code_new = \<lparr>cd_regions = [], cd_hasRegions = False, cd_pages = (\<lambda>_. 0), cd_pending = []\<rparr>"

definition kCodeRegionPageShift :: nat where "kCodeRegionPageShift = 12"

section \<open>Regions\<close>

definition pageMayContainCode :: "u32 \<Rightarrow> code_state \<Rightarrow> bool" where
  "pageMayContainCode page s \<longleftrightarrow>
     cd_pages s (unat (drop_bit 6 page)) AND push_bit (unat (page AND 63)) 1 \<noteq> 0"

definition setPage :: "nat \<Rightarrow> (nat \<Rightarrow> u64) \<Rightarrow> (nat \<Rightarrow> u64)" where
  "setPage page pages = pages(page div 64 := pages (page div 64) OR push_bit (page mod 64) 1)"

definition registerCodeRegion :: "u32 \<Rightarrow> u32 \<Rightarrow> code_state \<Rightarrow> code_state" where
  "registerCodeRegion first stop s =
     (if stop \<le> first then s
      else if stop - first > PS2_RAM_SIZE then s
      else if list_ex (\<lambda>r. rg_start r = first \<and> rg_end r = stop) (cd_regions s) then s
      else let region = \<lparr>rg_start = first, rg_end = stop,
                 rg_modified = replicate (unat ((stop - first + 3) div 4)) False\<rparr>;
               s1 = s\<lparr>cd_regions := cd_regions s @ [region], cd_hasRegions := True\<rparr>
           in if first < PS2_RAM_SIZE
              then let boundedEnd = min stop PS2_RAM_SIZE;
                       firstPage = unat (drop_bit kCodeRegionPageShift first);
                       lastPage = unat (drop_bit kCodeRegionPageShift (boundedEnd - 1))
                   in s1\<lparr>cd_pages := fold setPage [firstPage..<Suc lastPage] (cd_pages s1)\<rparr>
              else s1)"

definition isAddressInRegion :: "u32 \<Rightarrow> code_region \<Rightarrow> bool" where
  "isAddressInRegion address r \<longleftrightarrow> address \<ge> rg_start r \<and> address < rg_end r"

definition isCodeAddress :: "u32 \<Rightarrow> code_state \<Rightarrow> bool" where
  "isCodeAddress address s = list_ex (\<lambda>r. address \<ge> rg_start r \<and> address < rg_end r) (cd_regions s)"

text \<open>The part of a byte range inside a region, if they meet.\<close>

definition rangeOverlap :: "u32 \<Rightarrow> u32 \<Rightarrow> code_region \<Rightarrow> (nat \<times> nat) option" where
  "rangeOverlap address sz r =
     (let writeEnd = unat address + unat sz; regionStart = unat (rg_start r); regionEnd = unat (rg_end r)
      in if writeEnd \<le> regionStart \<or> unat address \<ge> regionEnd then None
         else Some (max (unat address) regionStart, min writeEnd regionEnd))"

section \<open>Writes\<close>

definition freshEvent :: "u32 \<Rightarrow> code_event" where
  "freshEvent writerPc = \<lparr>iv_start = 0, iv_end = 0, iv_words = 0, iv_writerPc = writerPc\<rparr>"

text \<open>A newly flagged word: the event being built and the events finished.\<close>

definition appendWord ::
  "u32 \<Rightarrow> u32 \<Rightarrow> u32 \<Rightarrow> code_event \<times> code_event list \<Rightarrow> code_event \<times> code_event list" where
  "appendWord wordStart wordEnd writerPc = (\<lambda>(pending, finished).
     let (p, f) = (if iv_words pending \<noteq> 0 \<and> wordStart \<noteq> iv_end pending
                   then (freshEvent writerPc, finished @ [pending]) else (pending, finished));
         p = (if iv_words p = 0 then p\<lparr>iv_start := wordStart, iv_end := wordEnd\<rparr> else p\<lparr>iv_end := wordEnd\<rparr>)
     in (p\<lparr>iv_words := iv_words p + 1\<rparr>, f))"

text \<open>The loop over the words of an overlap.\<close>

primrec markWords ::
  "u32 \<Rightarrow> u32 \<Rightarrow> u32 \<Rightarrow> nat list \<Rightarrow> bool list \<Rightarrow> code_event \<times> code_event list
   \<Rightarrow> bool list \<times> code_event \<times> code_event list" where
  "markWords first stop writerPc [] modified events = (modified, events)"
| "markWords first stop writerPc (bitIndex # bits) modified events =
     (if bitIndex \<ge> length modified \<or> modified ! bitIndex then markWords first stop writerPc bits modified events
      else let wordStart = first + of_nat (bitIndex * 4);
               wordEnd = min (wordStart + 4) stop
           in markWords first stop writerPc bits (modified[bitIndex := True]) (appendWord wordStart wordEnd writerPc events))"

text \<open>The event being built is published at the end, if it has a word.\<close>

definition published :: "code_event \<times> code_event list \<Rightarrow> code_event list" where
  "published = (\<lambda>(pending, finished). if iv_words pending \<noteq> 0 then finished @ [pending] else finished)"

definition markRegion :: "u32 \<Rightarrow> u32 \<Rightarrow> u32 \<Rightarrow> code_region \<Rightarrow> code_region \<times> code_event list" where
  "markRegion address sz writerPc r =
     (case rangeOverlap address sz r of
        None \<Rightarrow> (r, [])
      | Some (overlapStart, overlapEnd) \<Rightarrow>
          (let firstWord = (overlapStart - unat (rg_start r)) div 4;
               lastWord = (overlapEnd - unat (rg_start r) + 3) div 4;
               (modified, events) = markWords (rg_start r) (rg_end r) writerPc [firstWord..<lastWord]
                 (rg_modified r) (freshEvent writerPc, [])
           in (r\<lparr>rg_modified := modified\<rparr>, published events)))"

definition markModified :: "u32 \<Rightarrow> u32 \<Rightarrow> u32 \<Rightarrow> code_state \<Rightarrow> code_state" where
  "markModified address sz writerPc s =
     (if sz = 0 then s
      else let marked = map (markRegion address sz writerPc) (cd_regions s)
           in s\<lparr>cd_regions := map fst marked, cd_pending := cd_pending s @ concat (map snd marked)\<rparr>)"

definition observeRdramWriteSlow :: "u32 \<Rightarrow> u32 \<Rightarrow> u32 \<Rightarrow> code_state \<Rightarrow> code_state" where
  "observeRdramWriteSlow physicalAddress sz writerPc s =
     (if sz = 0 \<or> physicalAddress \<ge> PS2_RAM_SIZE \<or> sz > PS2_RAM_SIZE - physicalAddress then s
      else let firstPage = drop_bit kCodeRegionPageShift physicalAddress;
               lastPage = drop_bit kCodeRegionPageShift (physicalAddress + sz - 1)
           in if list_ex (\<lambda>page. pageMayContainCode (of_nat page) s) [unat firstPage..<Suc (unat lastPage)]
              then markModified physicalAddress sz writerPc s else s)"

definition observeRdramWrite :: "u32 \<Rightarrow> u32 \<Rightarrow> u32 \<Rightarrow> code_state \<Rightarrow> code_state" where
  "observeRdramWrite physicalAddress sz writerPc s =
     (if \<not> cd_hasRegions s then s else observeRdramWriteSlow physicalAddress sz writerPc s)"

definition observeRdramWriteFixed :: "u32 \<Rightarrow> u32 \<Rightarrow> u32 \<Rightarrow> code_state \<Rightarrow> code_state" where
  "observeRdramWriteFixed accessSize physicalAddress writerPc s =
     (if \<not> cd_hasRegions s \<or> physicalAddress > PS2_RAM_SIZE - accessSize then s
      else let firstPage = drop_bit kCodeRegionPageShift physicalAddress;
               lastPage = drop_bit kCodeRegionPageShift (physicalAddress + accessSize - 1)
           in if \<not> pageMayContainCode firstPage s \<and> (lastPage = firstPage \<or> \<not> pageMayContainCode lastPage s) then s
              else observeRdramWriteSlow physicalAddress accessSize writerPc s)"

section \<open>Events\<close>

definition eventKey :: "code_event \<Rightarrow> nat" where
  "eventKey e = unat (iv_writerPc e) * 2 ^ 32 + unat (iv_start e)"

text \<open>The merging loop, with the events so far in reverse.\<close>

fun mergeEvents :: "code_event list \<Rightarrow> code_event list \<Rightarrow> code_event list" where
  "mergeEvents [] merged = rev merged"
| "mergeEvents (event # events) [] = mergeEvents events [event]"
| "mergeEvents (event # events) (b # merged) =
     (if iv_writerPc b = iv_writerPc event \<and> iv_start event \<le> iv_end b
      then mergeEvents events (b\<lparr>iv_end := max (iv_end b) (iv_end event), iv_words := iv_words b + iv_words event\<rparr> # merged)
      else mergeEvents events (event # b # merged))"

definition takeCodeInvalidationEvents :: "code_state \<Rightarrow> code_event list \<times> code_state" where
  "takeCodeInvalidationEvents s = (mergeEvents (sort_key eventKey (cd_pending s)) [], s\<lparr>cd_pending := []\<rparr>)"

section \<open>Queries\<close>

text \<open>The loops \<open>for (addr = overlapStart; addr < overlapEnd; addr += 4)\<close>. The address wraps, so a loop
  over a region that ends above $2^{32} - 4$ need not end; not ending is \<open>None\<close>.\<close>

partial_function (option) modifiedLoop :: "u32 \<Rightarrow> u32 \<Rightarrow> code_region \<Rightarrow> bool option" where
  "modifiedLoop addr overlapEnd r =
     (if addr < overlapEnd then
        let bitIndex = unat ((addr - rg_start r) div 4)
        in if bitIndex < length (rg_modified r) \<and> rg_modified r ! bitIndex then Some True
           else modifiedLoop (addr + 4) overlapEnd r
      else Some False)"

primrec modifiedInRegions :: "u32 \<Rightarrow> u32 \<Rightarrow> code_region list \<Rightarrow> bool option" where
  "modifiedInRegions address sz [] = Some False"
| "modifiedInRegions address sz (r # rs) =
     (case rangeOverlap address sz r of
        None \<Rightarrow> modifiedInRegions address sz rs
      | Some (overlapStart, overlapEnd) \<Rightarrow>
          (case modifiedLoop (of_nat overlapStart) (of_nat overlapEnd) r of
             None \<Rightarrow> None
           | Some found \<Rightarrow> if found then Some True else modifiedInRegions address sz rs))"

definition isCodeModified :: "u32 \<Rightarrow> u32 \<Rightarrow> code_state \<Rightarrow> bool option" where
  "isCodeModified address sz s = (if sz = 0 then Some False else modifiedInRegions address sz (cd_regions s))"

partial_function (option) clearLoop :: "u32 \<Rightarrow> u32 \<Rightarrow> code_region \<Rightarrow> code_region option" where
  "clearLoop addr overlapEnd r =
     (if addr < overlapEnd then
        let bitIndex = unat ((addr - rg_start r) div 4)
        in clearLoop (addr + 4) overlapEnd
             (if bitIndex < length (rg_modified r) then r\<lparr>rg_modified := (rg_modified r)[bitIndex := False]\<rparr> else r)
      else Some r)"

definition clearRegion :: "u32 \<Rightarrow> u32 \<Rightarrow> code_region \<Rightarrow> code_region option" where
  "clearRegion address sz r =
     (case rangeOverlap address sz r of None \<Rightarrow> Some r
      | Some (overlapStart, overlapEnd) \<Rightarrow> clearLoop (of_nat overlapStart) (of_nat overlapEnd) r)"

definition clearModifiedFlag :: "u32 \<Rightarrow> u32 \<Rightarrow> code_state \<Rightarrow> code_state option" where
  "clearModifiedFlag address sz s =
     (if sz = 0 then Some s
      else map_option (\<lambda>rs. s\<lparr>cd_regions := rs\<rparr>) (those (map (clearRegion address sz) (cd_regions s))))"

section \<open>The machine\<close>

datatype code_op =
    OpRegister u32 u32
  | OpWrite u32 u32 u32
  | OpWriteFixed u32 u32 u32
  | OpTake
  | OpClear u32 u32

fun codeStep :: "code_op \<Rightarrow> code_state \<Rightarrow> code_state option" where
  "codeStep (OpRegister first stop) s = Some (registerCodeRegion first stop s)"
| "codeStep (OpWrite physicalAddress sz writerPc) s = Some (observeRdramWrite physicalAddress sz writerPc s)"
| "codeStep (OpWriteFixed accessSize physicalAddress writerPc) s = Some (observeRdramWriteFixed accessSize physicalAddress writerPc s)"
| "codeStep OpTake s = Some (snd (takeCodeInvalidationEvents s))"
| "codeStep (OpClear address sz) s = clearModifiedFlag address sz s"

text \<open>A call after a sequence of calls, one of which may not have returned.\<close>

definition codeCall :: "code_op \<Rightarrow> code_state option \<Rightarrow> code_state option" where
  "codeCall op s = Option.bind s (codeStep op)"

end
