(* ===== verification/CodeRegionFacts.thy ===== *)
theory CodeRegionFacts
  imports CodeRegions
begin

text \<open>
  The page bitmap never hides a write from a region, a write flags exactly the words it touches, and its
  events cover exactly the words newly flagged.
\<close>

unbundle bit_operations_syntax

section \<open>Flags\<close>

definition regionOk :: "code_region \<Rightarrow> bool" where
  "regionOk r \<longleftrightarrow> rg_start r < rg_end r \<and> unat (rg_end r) - unat (rg_start r) \<le> unat PS2_RAM_SIZE
     \<and> length (rg_modified r) = (unat (rg_end r) - unat (rg_start r) + 3) div 4"

text \<open>The bytes of a word of a region; the last word may be cut off by the end of the region.\<close>

definition wordBytes :: "code_region \<Rightarrow> nat \<Rightarrow> nat set" where
  "wordBytes r k = {unat (rg_start r) + 4 * k ..< min (unat (rg_start r) + 4 * k + 4) (unat (rg_end r))}"

definition accessBytes :: "u32 \<Rightarrow> u32 \<Rightarrow> nat set" where
  "accessBytes address sz = {unat address ..< unat address + unat sz}"

definition wordTouched :: "u32 \<Rightarrow> u32 \<Rightarrow> code_region \<Rightarrow> nat \<Rightarrow> bool" where
  "wordTouched address sz r k \<longleftrightarrow> accessBytes address sz \<inter> wordBytes r k \<noteq> {}"

lemma interval_meet: "{a..<b :: nat} \<inter> {c..<d} \<noteq> {} \<longleftrightarrow> max a c < min b d"
  by (auto simp: disjoint_iff intro: exI [of _ "max a c"])

lemma touched_words:
  assumes "rangeOverlap address sz r = Some (os, oe)" "sz \<noteq> 0" "rg_start r < rg_end r"
  shows "wordTouched address sz r k \<longleftrightarrow>
    (os - unat (rg_start r)) div 4 \<le> k \<and> k < (oe - unat (rg_start r) + 3) div 4"
proof -
  let ?s = "unat (rg_start r)" and ?e = "unat (rg_end r)" and ?a = "unat address" and ?w = "unat address + unat sz"
  have o: "os = max ?a ?s" "oe = min ?w ?e" "?s < ?w" "?a < ?e"
    using assms(1) by (auto simp: rangeOverlap_def Let_def split: if_splits)
  have n: "0 < unat sz" using assms(2) by (simp add: unat_gt_0)
  have se: "?s < ?e" using assms(3) by (simp add: word_less_nat_alt)
  have "wordTouched address sz r k \<longleftrightarrow> max ?a (?s + 4 * k) < min ?w (min (?s + 4 * k + 4) ?e)"
    unfolding wordTouched_def accessBytes_def wordBytes_def by (rule interval_meet)
  also have "\<dots> \<longleftrightarrow> os < ?s + 4 * k + 4 \<and> ?s + 4 * k < oe" using o n se by auto
  also have "\<dots> \<longleftrightarrow> (os - ?s) div 4 \<le> k \<and> k < (oe - ?s + 3) div 4" using o(1) by linarith
  finally show ?thesis .
qed

lemma untouched_range: "rangeOverlap address sz r = None \<Longrightarrow> \<not> wordTouched address sz r k"
  unfolding wordTouched_def accessBytes_def wordBytes_def interval_meet
  by (auto simp: rangeOverlap_def Let_def split: if_splits)

lemma markWords_flags:
  "markWords first stop pc bits m ev = (m', ev') \<Longrightarrow>
   length m' = length m \<and> (\<forall>k<length m. m' ! k = (m ! k \<or> k \<in> set bits))"
proof (induction bits arbitrary: m ev)
  case (Cons b bits)
  show ?case
  proof (cases "b \<ge> length m \<or> m ! b")
    case True
    then show ?thesis using Cons by (auto simp: nth_list_update)
  next
    case False
    then show ?thesis
      using Cons.prems
      by (auto simp: Let_def nth_list_update split: if_splits dest!: Cons.IH)
  qed
qed simp

lemma markRegion_flags:
  assumes "sz \<noteq> 0" "rg_start r < rg_end r"
  shows "rg_start (fst (markRegion address sz pc r)) = rg_start r" "rg_end (fst (markRegion address sz pc r)) = rg_end r"
    and "length (rg_modified (fst (markRegion address sz pc r))) = length (rg_modified r)"
    and "k < length (rg_modified r) \<Longrightarrow>
      rg_modified (fst (markRegion address sz pc r)) ! k = (rg_modified r ! k \<or> wordTouched address sz r k)"
proof -
  have A: "rg_start (fst (markRegion address sz pc r)) = rg_start r \<and> rg_end (fst (markRegion address sz pc r)) = rg_end r
    \<and> length (rg_modified (fst (markRegion address sz pc r))) = length (rg_modified r)
    \<and> (k < length (rg_modified r) \<longrightarrow>
      rg_modified (fst (markRegion address sz pc r)) ! k = (rg_modified r ! k \<or> wordTouched address sz r k))"
  proof (cases "rangeOverlap address sz r")
    case None
    then show ?thesis using untouched_range by (simp add: markRegion_def)
  next
    case (Some o')
    obtain os oe where o: "rangeOverlap address sz r = Some (os, oe)" using Some by (cases o') simp
    let ?fw = "(os - unat (rg_start r)) div 4" and ?lw = "(oe - unat (rg_start r) + 3) div 4"
    obtain m' ev' where m: "markWords (rg_start r) (rg_end r) pc [?fw..<?lw] (rg_modified r) (freshEvent pc, []) = (m', ev')"
      by (rule prod.exhaust)
    show ?thesis
      using markWords_flags [OF m] touched_words [OF o assms] by (simp add: markRegion_def o Let_def m)
  qed
  then show "rg_start (fst (markRegion address sz pc r)) = rg_start r" "rg_end (fst (markRegion address sz pc r)) = rg_end r"
    "length (rg_modified (fst (markRegion address sz pc r))) = length (rg_modified r)"
    "k < length (rg_modified r) \<Longrightarrow>
      rg_modified (fst (markRegion address sz pc r)) ! k = (rg_modified r ! k \<or> wordTouched address sz r k)"
    by simp_all
qed

section \<open>The page bitmap\<close>

definition pageSet :: "(nat \<Rightarrow> u64) \<Rightarrow> nat \<Rightarrow> bool" where
  "pageSet pages p \<longleftrightarrow> bit (pages (p div 64)) (p mod 64)"

lemma setPage_sets: "pageSet (setPage q pages) p \<longleftrightarrow> pageSet pages p \<or> p = q"
proof -
  have "bit (push_bit (q mod 64) 1 :: u64) (p mod 64) \<longleftrightarrow> q mod 64 = p mod 64"
    by (simp only: push_bit_of_1 bit_exp_iff) auto
  moreover have "p = q \<longleftrightarrow> p div 64 = q div 64 \<and> p mod 64 = q mod 64" by (metis div_mult_mod_eq)
  ultimately show ?thesis by (auto simp: pageSet_def setPage_def bit_or_iff)
qed

lemma setPages: "pageSet (fold setPage qs pages) p \<longleftrightarrow> pageSet pages p \<or> p \<in> set qs"
  by (induction qs arbitrary: pages) (auto simp: setPage_sets)

lemma page_test: "p < 2 ^ 32 \<Longrightarrow> pageMayContainCode (of_nat p) s = pageSet (cd_pages s) p"
proof -
  assume p: "p < 2 ^ 32"
  have u: "unat (of_nat p :: u32) = p" using p by (simp add: unsigned_of_nat take_bit_nat_eq_self_iff)
  have "unat (drop_bit 6 (of_nat p :: u32)) = p div 64"
    by (simp only: unat_drop_bit_eq u) (simp add: drop_bit_eq_div)
  moreover have "(63 :: u32) = mask 6" by (simp add: mask_eq_exp_minus_1)
  then have "(of_nat p :: u32) AND 63 = take_bit 6 (of_nat p)" by (simp only: take_bit_eq_mask)
  then have "unat ((of_nat p :: u32) AND 63) = p mod 64"
    by (simp only: unsigned_take_bit_eq u) (simp add: take_bit_eq_mod)
  moreover have "w AND push_bit i 1 \<noteq> 0 \<longleftrightarrow> bit w i" if "i < 64" for w :: u64 and i
    using that by (metis and_exp_eq_0_iff_not_bit push_bit_of_1)
  ultimately show ?thesis by (simp add: pageMayContainCode_def pageSet_def)
qed

text \<open>What holds between calls: regions are not empty and have a flag per word, and every page of the
  RDRAM that has a byte of a region is in the bitmap.\<close>

definition codeOk :: "code_state \<Rightarrow> bool" where
  "codeOk s \<longleftrightarrow> (\<forall>r\<in>set (cd_regions s). regionOk r)
     \<and> (\<forall>r\<in>set (cd_regions s). \<forall>b. unat (rg_start r) \<le> b \<and> b < unat (rg_end r) \<and> b < unat PS2_RAM_SIZE
          \<longrightarrow> pageSet (cd_pages s) (b div 4096))
     \<and> cd_hasRegions s = (cd_regions s \<noteq> [])"

lemma ram_size: "unat PS2_RAM_SIZE = 33554432" by (simp add: PS2_RAM_SIZE_def)

lemma page_of: "unat (drop_bit kCodeRegionPageShift a) = unat a div 4096" for a :: u32
  by (simp only: unat_drop_bit_eq kCodeRegionPageShift_def) (simp add: drop_bit_eq_div)

lemma codeOk_new: "codeOk code_new" by (simp add: codeOk_def code_new_def)

text \<open>An operation that keeps the bounds of the regions, their number of flags and the bitmap keeps the invariant.\<close>

definition shapeOf :: "code_region \<Rightarrow> u32 \<times> u32 \<times> nat" where
  "shapeOf r = (rg_start r, rg_end r, length (rg_modified r))"

lemma same_shape:
  assumes "codeOk s" "map shapeOf (cd_regions s') = map shapeOf (cd_regions s)"
    and "cd_pages s' = cd_pages s" "cd_hasRegions s' = cd_hasRegions s"
  shows "codeOk s'"
proof -
  have ex: "\<exists>r\<in>set (cd_regions s). shapeOf r = shapeOf r'" if "r' \<in> set (cd_regions s')" for r'
    using that assms(2) by (metis (no_types, lifting) image_iff image_set)
  have "(cd_regions s' \<noteq> []) = (cd_regions s \<noteq> [])" using assms(2) by (metis map_is_Nil_conv)
  then show ?thesis
    using assms(1,3,4) ex unfolding codeOk_def regionOk_def shapeOf_def by (fastforce split: prod.splits)
qed

lemma codeOk_register:
  assumes "codeOk s"
  shows "codeOk (registerCodeRegion first stop s)"
proof -
  have "regionOk \<lparr>rg_start = first, rg_end = stop, rg_modified = replicate (unat ((stop - first + 3) div 4)) False\<rparr>"
    if c: "first < stop" "stop - first \<le> PS2_RAM_SIZE"
  proof -
    have d: "unat (stop - first) = unat stop - unat first" using c(1) by (simp add: unat_sub)
    have "unat (stop - first) \<le> 33554432" using c(2) by (simp add: word_le_nat_alt ram_size)
    then have "unat ((stop - first + 3) div 4) = (unat stop - unat first + 3) div 4"
      by (simp add: unat_div unat_word_ariths d)
    then show ?thesis using c d by (simp add: regionOk_def word_less_nat_alt word_le_nat_alt)
  qed
  moreover have "b div 4096 \<in> {unat first div 4096 ..< Suc (unat (drop_bit kCodeRegionPageShift (min stop PS2_RAM_SIZE - 1)))}"
    if "unat first \<le> b" "b < unat stop" "b < unat PS2_RAM_SIZE" for b
  proof -
    have "b < unat (min stop PS2_RAM_SIZE)" using that by (simp add: min_def)
    moreover from this have "min stop PS2_RAM_SIZE \<noteq> 0" by (metis gr_implies_not0 unat_0)
    ultimately have "b \<le> unat (min stop PS2_RAM_SIZE - 1)" by (simp add: unat_minus_one)
    then show ?thesis using that(1) by (simp add: page_of div_le_mono less_Suc_eq_le)
  qed
  ultimately show ?thesis
    using assms unfolding codeOk_def registerCodeRegion_def
    by (auto simp: Let_def setPages page_of not_le not_less word_le_nat_alt word_less_nat_alt ball_Un simp del: upt_Suc)
qed

section \<open>Observed writes\<close>

lemma markRegion_untouched: "rangeOverlap address sz r = None \<Longrightarrow> markRegion address sz pc r = (r, [])"
  by (simp add: markRegion_def)

lemma markModified_shape:
  assumes "codeOk s"
  shows "codeOk (markModified address sz pc s)"
proof (cases "sz = 0")
  case False
  have "shapeOf (fst (markRegion address sz pc r)) = shapeOf r" if "r \<in> set (cd_regions s)" for r
  proof -
    have "rg_start r < rg_end r" using assms that by (simp add: codeOk_def regionOk_def)
    from markRegion_flags(1-3) [OF False this] show ?thesis by (simp add: shapeOf_def)
  qed
  then show ?thesis using False by (intro same_shape [OF assms]) (simp_all add: markModified_def Let_def)
qed (simp add: markModified_def assms)

text \<open>If no page of the access is in the bitmap, no region meets the access.\<close>

lemma filtered_untouched:
  assumes "codeOk s" "r \<in> set (cd_regions s)" "sz \<noteq> 0" "unat address + unat sz \<le> unat PS2_RAM_SIZE"
    and "\<forall>p\<in>{unat address div 4096 .. (unat address + unat sz - 1) div 4096}. \<not> pageSet (cd_pages s) p"
  shows "rangeOverlap address sz r = None"
proof (rule ccontr)
  assume "rangeOverlap address sz r \<noteq> None"
  then have o: "unat (rg_start r) < unat address + unat sz" "unat address < unat (rg_end r)"
    by (auto simp: rangeOverlap_def Let_def split: if_splits)
  let ?b = "max (unat address) (unat (rg_start r))"
  have n: "0 < unat sz" using assms(3) by (simp add: unat_gt_0)
  have ok: "unat (rg_start r) < unat (rg_end r)"
    using assms(1,2) by (simp add: codeOk_def regionOk_def word_less_nat_alt)
  have b: "unat (rg_start r) \<le> ?b" "?b < unat (rg_end r)" "?b < unat PS2_RAM_SIZE" "?b \<le> unat address + unat sz - 1"
    using o n ok assms(4) by auto
  then have "pageSet (cd_pages s) (?b div 4096)" using assms(1,2) unfolding codeOk_def by blast
  moreover have "?b div 4096 \<in> {unat address div 4096 .. (unat address + unat sz - 1) div 4096}"
    using div_le_mono [OF b(4)] by (simp add: div_le_mono)
  ultimately show False using assms(5) by blast
qed

lemma concat_map_nil: "concat (map (\<lambda>_. []) xs) = []" by (induction xs) simp_all

lemma filtered_unchanged:
  assumes "codeOk s" "sz \<noteq> 0" "unat address + unat sz \<le> unat PS2_RAM_SIZE"
    and "\<forall>p\<in>{unat address div 4096 .. (unat address + unat sz - 1) div 4096}. \<not> pageSet (cd_pages s) p"
  shows "markModified address sz pc s = s"
proof -
  have "map (markRegion address sz pc) (cd_regions s) = map (\<lambda>r. (r, [])) (cd_regions s)"
    using filtered_untouched [OF assms(1) _ assms(2-4)] by (simp add: markRegion_untouched)
  then show ?thesis using assms(2) by (simp only: markModified_def Let_def) (simp add: comp_def concat_map_nil)
qed

lemma last_page:
  fixes address sz :: u32
  assumes "sz \<noteq> 0" "unat address + unat sz \<le> unat PS2_RAM_SIZE"
  shows "unat (drop_bit kCodeRegionPageShift (address + sz - 1)) = (unat address + unat sz - 1) div 4096"
proof -
  have n: "0 < unat sz" using assms(1) by (simp add: unat_gt_0)
  have u: "unat (address + sz) = unat address + unat sz" using assms(2) by (intro unat_add_no_overflow) (simp add: ram_size)
  then have "address + sz \<noteq> 0" using n by (metis add_is_0 gr_implies_not0 unat_0)
  then show ?thesis by (simp add: page_of unat_minus_one u)
qed

lemma in_ram_checks:
  fixes address sz :: u32
  assumes "sz \<noteq> 0" "unat address + unat sz \<le> unat PS2_RAM_SIZE"
  shows "\<not> PS2_RAM_SIZE \<le> address" "\<not> PS2_RAM_SIZE - address < sz" "\<not> PS2_RAM_SIZE - sz < address"
proof -
  have n: "0 < unat sz" using assms(1) by (simp add: unat_gt_0)
  show "\<not> PS2_RAM_SIZE \<le> address" "\<not> PS2_RAM_SIZE - address < sz" "\<not> PS2_RAM_SIZE - sz < address"
    using n assms(2) by (auto simp: word_le_nat_alt word_less_nat_alt unat_sub_le)
qed

lemma slow_exact:
  assumes "codeOk s" "sz \<noteq> 0" "unat address + unat sz \<le> unat PS2_RAM_SIZE"
  shows "observeRdramWriteSlow address sz pc s = markModified address sz pc s"
proof (cases "\<exists>p\<in>{unat address div 4096 .. (unat address + unat sz - 1) div 4096}. pageSet (cd_pages s) p")
  case True
  then obtain p where p: "unat address div 4096 \<le> p" "p \<le> (unat address + unat sz - 1) div 4096" "pageSet (cd_pages s) p"
    by auto
  have "p < 2 ^ 32" using p(2) assms(3) by (simp add: ram_size)
  then have "pageMayContainCode (of_nat p) s" using p(3) by (simp add: page_test)
  moreover have l: "unat (address + sz - 1) div 4096 = (unat address + unat sz - 1) div 4096"
    using last_page [OF assms(2,3)] by (simp only: page_of)
  ultimately show ?thesis
    using in_ram_checks [OF assms(2,3)] assms(2) p(1,2)
    unfolding observeRdramWriteSlow_def Let_def page_of l list_ex_iff
    by (auto simp del: upt_Suc)
next
  case False
  then have "markModified address sz pc s = s" using filtered_unchanged [OF assms] by blast
  then show ?thesis by (simp add: observeRdramWriteSlow_def Let_def)
qed

lemma observe_exact:
  assumes "codeOk s" "sz \<noteq> 0" "unat address + unat sz \<le> unat PS2_RAM_SIZE"
  shows "observeRdramWrite address sz pc s = markModified address sz pc s"
proof (cases "cd_hasRegions s")
  case False
  then have "cd_regions s = []" using assms(1) by (simp add: codeOk_def)
  then show ?thesis using False by (simp add: observeRdramWrite_def markModified_def Let_def)
qed (simp add: observeRdramWrite_def slow_exact assms)

lemma observe_fixed_exact:
  assumes "codeOk s" "sz \<noteq> 0" "unat address + unat sz \<le> unat PS2_RAM_SIZE" "sz \<le> 16"
  shows "observeRdramWriteFixed sz address pc s = markModified address sz pc s"
proof -
  let ?f = "drop_bit kCodeRegionPageShift address" and ?l = "drop_bit kCodeRegionPageShift (address + sz - 1)"
  let ?p = "unat address div 4096" and ?q = "(unat address + unat sz - 1) div 4096"
  have "unat sz \<le> 16" using assms(4) by (simp add: word_le_nat_alt)
  then have two: "{?p..?q} \<subseteq> {?p, ?q}" by auto
  have f: "unat ?f = ?p" by (simp only: page_of)
  have l: "unat ?l = ?q" by (rule last_page [OF assms(2,3)])
  have t: "pageMayContainCode w s = pageSet (cd_pages s) (unat w)" for w
    using page_test [of "unat w" s] unsigned_less [of w] by simp
  consider (no) "\<not> cd_hasRegions s" | (filtered) "\<not> pageMayContainCode ?f s" "?l = ?f \<or> \<not> pageMayContainCode ?l s"
    | (slow) "cd_hasRegions s" "pageMayContainCode ?f s \<or> \<not> (?l = ?f \<or> \<not> pageMayContainCode ?l s)" by blast
  then show ?thesis
  proof cases
    case no
    then have "cd_regions s = []" using assms(1) by (simp add: codeOk_def)
    then show ?thesis using no by (simp add: observeRdramWriteFixed_def markModified_def Let_def)
  next
    case filtered
    then have "\<not> pageSet (cd_pages s) ?p" "\<not> pageSet (cd_pages s) ?q" using f l by (auto simp: t)
    then have "markModified address sz pc s = s" using filtered_unchanged [OF assms(1-3)] two by blast
    then show ?thesis using filtered by (simp add: observeRdramWriteFixed_def Let_def)
  next
    case slow
    then show ?thesis
      using in_ram_checks(3) [OF assms(2,3)] slow_exact [OF assms(1-3)]
      by (auto simp: observeRdramWriteFixed_def Let_def)
  qed
qed

end
