(* ===== verification/CodeRegionEvents.thy ===== *)
theory CodeRegionEvents
  imports CodeRegionFacts "HOL-Library.Multiset"
begin

text \<open>
  The invalidation events: those of a write cover exactly the bytes of the words it newly flagged, and merging
  the pending ones keeps the bytes of every writer and the number of words.
\<close>

unbundle bit_operations_syntax

section \<open>Events of a write\<close>

definition eventBytes :: "code_event \<Rightarrow> nat set" where
  "eventBytes e = {unat (iv_start e) ..< unat (iv_end e)}"

definition eventOk :: "code_event \<Rightarrow> bool" where
  "eventOk e \<longleftrightarrow> iv_start e < iv_end e \<and> iv_words e \<noteq> 0"

definition coveredBytes :: "code_event list \<Rightarrow> nat set" where
  "coveredBytes es = (\<Union>e\<in>set es. eventBytes e)"

definition wordCount :: "code_event list \<Rightarrow> nat" where
  "wordCount es = sum_list (map (\<lambda>e. unat (iv_words e)) es)"

lemma covered_append [simp]: "coveredBytes (xs @ ys) = coveredBytes xs \<union> coveredBytes ys"
  by (auto simp: coveredBytes_def)
lemma covered_simps [simp]: "coveredBytes [] = {}" "coveredBytes (e # es) = eventBytes e \<union> coveredBytes es"
  by (auto simp: coveredBytes_def)
lemma count_simps [simp]:
  "wordCount [] = 0" "wordCount (e # es) = unat (iv_words e) + wordCount es" "wordCount (xs @ ys) = wordCount xs + wordCount ys"
  by (simp_all add: wordCount_def)

text \<open>What holds of the event being built and the finished ones.\<close>

definition buildOk :: "u32 \<Rightarrow> nat \<Rightarrow> code_event \<times> code_event list \<Rightarrow> bool" where
  "buildOk pc room ev \<longleftrightarrow> iv_writerPc (fst ev) = pc \<and> (iv_words (fst ev) \<noteq> 0 \<longrightarrow> iv_start (fst ev) < iv_end (fst ev))
     \<and> unat (iv_words (fst ev)) + room < 2 ^ 32 \<and> (\<forall>e\<in>set (snd ev). eventOk e \<and> iv_writerPc e = pc)"

lemma published_ok: "buildOk pc room ev \<Longrightarrow> e \<in> set (published ev) \<Longrightarrow> eventOk e \<and> iv_writerPc e = pc"
  by (cases ev) (auto simp: buildOk_def published_def eventOk_def split: if_splits)

lemma appendWord_step:
  assumes "buildOk pc (Suc room) ev" "ws < we"
  shows "buildOk pc room (appendWord ws we pc ev)"
    and "coveredBytes (published (appendWord ws we pc ev)) = coveredBytes (published ev) \<union> {unat ws ..< unat we}"
    and "wordCount (published (appendWord ws we pc ev)) = Suc (wordCount (published ev))"
proof -
  obtain p f where ev: "ev = (p, f)" by (cases ev)
  have inc: "unat (iv_words p + 1) = Suc (unat (iv_words p))" "iv_words p + 1 \<noteq> 0"
  proof -
    have "unat (iv_words p) + 1 < 2 ^ 32" using assms(1) by (simp add: buildOk_def ev)
    then show "unat (iv_words p + 1) = Suc (unat (iv_words p))" by (simp add: unat_add_no_overflow)
    then show "iv_words p + 1 \<noteq> 0" by (metis nat.distinct(1) unat_0)
  qed
  have w: "unat ws < unat we" using assms(2) by (simp add: word_less_nat_alt)
  consider (first) "iv_words p = 0" | (more) "iv_words p \<noteq> 0" "ws = iv_end p" | (new) "iv_words p \<noteq> 0" "ws \<noteq> iv_end p"
    by blast
  note c = this
  have s: "unat (iv_start p) < unat (iv_end p)" if "iv_words p \<noteq> 0"
    using that assms(1) by (simp add: buildOk_def ev word_less_nat_alt)
  show "buildOk pc room (appendWord ws we pc ev)"
    using assms inc s w
    by (cases rule: c) (auto simp: buildOk_def ev appendWord_def freshEvent_def Let_def eventOk_def word_less_nat_alt)
  show "coveredBytes (published (appendWord ws we pc ev)) = coveredBytes (published ev) \<union> {unat ws ..< unat we}"
    using assms inc s w
    by (cases rule: c) (auto simp: ev appendWord_def freshEvent_def Let_def published_def eventBytes_def)
  show "wordCount (published (appendWord ws we pc ev)) = Suc (wordCount (published ev))"
    using assms inc
    by (cases rule: c) (auto simp: ev appendWord_def freshEvent_def Let_def published_def)
qed

definition newWords :: "bool list \<Rightarrow> nat set \<Rightarrow> nat set" where
  "newWords m K = {k \<in> K. k < length m \<and> \<not> m ! k}"

lemma newWords_cons:
  assumes "k \<notin> K"
  shows "newWords m (insert k K) = (if k < length m \<and> \<not> m ! k then insert k (newWords (m[k := True]) K) else newWords m K)"
  using assms by (auto simp: newWords_def nth_list_update split: if_splits)

lemma finite_newWords: "finite K \<Longrightarrow> finite (newWords m K)" by (simp add: newWords_def)

text \<open>The words of a region that ends below $2^{32} - 4$.\<close>

lemma word_bounds:
  assumes "unat (rg_end r) + 4 \<le> 2 ^ 32" "k < (unat (rg_end r) - unat (rg_start r) + 3) div 4" "rg_start r < rg_end r"
  shows "rg_start r + of_nat (k * 4) < min (rg_start r + of_nat (k * 4) + 4) (rg_end r)"
    and "{unat (rg_start r + of_nat (k * 4)) ..< unat (min (rg_start r + of_nat (k * 4) + 4) (rg_end r))} = wordBytes r k"
proof -
  have b: "unat (rg_start r) + k * 4 < unat (rg_end r)" using assms(2,3) by (simp add: word_less_nat_alt)
  then have u: "unat (rg_start r + of_nat (k * 4)) = unat (rg_start r) + k * 4"
    using assms(1) by (simp add: unat_word_ariths unsigned_of_nat take_bit_nat_eq_self)
  then have v: "unat (rg_start r + of_nat (k * 4) + 4) = unat (rg_start r) + k * 4 + 4"
    using assms(1) b by (subst unat_add_no_overflow) simp_all
  have m: "unat (min (rg_start r + of_nat (k * 4) + 4) (rg_end r)) = min (unat (rg_start r) + k * 4 + 4) (unat (rg_end r))"
    by (simp only: min_def word_le_nat_alt v split: if_split) simp
  show "rg_start r + of_nat (k * 4) < min (rg_start r + of_nat (k * 4) + 4) (rg_end r)"
    unfolding word_less_nat_alt m u using b by simp
  show "{unat (rg_start r + of_nat (k * 4)) ..< unat (min (rg_start r + of_nat (k * 4) + 4) (rg_end r))} = wordBytes r k"
    unfolding m u wordBytes_def by (simp add: mult.commute)
qed

lemma markWords_events:
  assumes "unat (rg_end r) + 4 \<le> 2 ^ 32" "rg_start r < rg_end r"
    and "length m = (unat (rg_end r) - unat (rg_start r) + 3) div 4"
    and "markWords (rg_start r) (rg_end r) pc bits m ev = (m', ev')" "distinct bits" "buildOk pc (length bits) ev"
  shows "buildOk pc 0 ev' \<and> coveredBytes (published ev') = coveredBytes (published ev) \<union> (\<Union>k\<in>newWords m (set bits). wordBytes r k)
    \<and> wordCount (published ev') = wordCount (published ev) + card (newWords m (set bits))"
  using assms(3-)
proof (induction bits arbitrary: m ev)
  case Nil
  then show ?case by (simp add: newWords_def)
next
  case (Cons b bits)
  have nb: "b \<notin> set bits" using Cons.prems(3) by simp
  show ?case
  proof (cases "b \<ge> length m \<or> m ! b")
    case True
    then have "buildOk pc (length bits) ev" using Cons.prems(4) by (auto simp: buildOk_def)
    then show ?thesis using Cons.IH [of m ev] Cons.prems True newWords_cons [OF nb, of m] by auto
  next
    case False
    let ?ev = "appendWord (rg_start r + of_nat (b * 4)) (min (rg_start r + of_nat (b * 4) + 4) (rg_end r)) pc ev"
    have "b < (unat (rg_end r) - unat (rg_start r) + 3) div 4" using False Cons.prems(1) by simp
    note w = word_bounds [OF assms(1) this assms(2)]
    have bo: "buildOk pc (Suc (length bits)) ev" using Cons.prems(4) by simp
    note st = appendWord_step [OF bo w(1)]
    have "markWords (rg_start r) (rg_end r) pc bits (m[b := True]) ?ev = (m', ev')"
      using Cons.prems(2) False by (simp add: Let_def)
    from Cons.IH [OF _ this _ st(1)] have
      "buildOk pc 0 ev' \<and> coveredBytes (published ev') = coveredBytes (published ?ev) \<union> (\<Union>k\<in>newWords (m[b := True]) (set bits). wordBytes r k)
       \<and> wordCount (published ev') = wordCount (published ?ev) + card (newWords (m[b := True]) (set bits))"
      using Cons.prems by simp
    moreover have "newWords m (set (b # bits)) = insert b (newWords (m[b := True]) (set bits))"
      using False newWords_cons [OF nb, of m] by simp
    moreover have "b \<notin> newWords (m[b := True]) (set bits)" using nb by (simp add: newWords_def)
    ultimately show ?thesis using st(2,3) w(2) by (simp add: finite_newWords Un_ac)
  qed
qed

lemma markRegion_events:
  fixes address sz pc :: u32
  assumes "regionOk r" "unat (rg_end r) + 4 \<le> 2 ^ 32" "sz \<noteq> 0"
  defines "new \<equiv> {k. k < length (rg_modified r) \<and> \<not> rg_modified r ! k \<and> wordTouched address sz r k}"
  shows "coveredBytes (snd (markRegion address sz pc r)) = (\<Union>k\<in>new. wordBytes r k)"
    and "wordCount (snd (markRegion address sz pc r)) = card new"
    and "\<forall>e\<in>set (snd (markRegion address sz pc r)). eventOk e \<and> iv_writerPc e = pc"
proof -
  have lt: "rg_start r < rg_end r" and len: "length (rg_modified r) = (unat (rg_end r) - unat (rg_start r) + 3) div 4"
    using assms(1) by (simp_all add: regionOk_def)
  have "coveredBytes (snd (markRegion address sz pc r)) = (\<Union>k\<in>new. wordBytes r k)
    \<and> wordCount (snd (markRegion address sz pc r)) = card new
    \<and> (\<forall>e\<in>set (snd (markRegion address sz pc r)). eventOk e \<and> iv_writerPc e = pc)"
  proof (cases "rangeOverlap address sz r")
    case None
    then have "new = {}" using untouched_range by (simp add: new_def)
    then show ?thesis using None by (simp add: markRegion_def)
  next
    case (Some o')
    obtain os oe where o: "rangeOverlap address sz r = Some (os, oe)" using Some by (cases o') simp
    let ?fw = "(os - unat (rg_start r)) div 4" and ?lw = "(oe - unat (rg_start r) + 3) div 4"
    have oe: "oe \<le> unat (rg_end r)" using o by (auto simp: rangeOverlap_def Let_def split: if_splits)
    have lw: "?lw < 2 ^ 32" using oe unsigned_less [of "rg_end r", where 'a = nat] by simp
    have n: "new = newWords (rg_modified r) (set [?fw..<?lw])"
      using touched_words [OF o assms(3) lt] by (auto simp: new_def newWords_def)
    obtain m' ev' where m: "markWords (rg_start r) (rg_end r) pc [?fw..<?lw] (rg_modified r) (freshEvent pc, []) = (m', ev')"
      by (rule prod.exhaust)
    have "buildOk pc (length [?fw..<?lw]) (freshEvent pc, [])" using lw by (simp add: buildOk_def freshEvent_def)
    note e = markWords_events [OF assms(2) lt len m _ this]
    have "published (freshEvent pc, []) = []" by (simp add: published_def freshEvent_def)
    then show ?thesis
      using e n published_ok [of pc 0 ev'] by (simp add: markRegion_def o Let_def m del: set_upt)
  qed
  then show "coveredBytes (snd (markRegion address sz pc r)) = (\<Union>k\<in>new. wordBytes r k)"
    "wordCount (snd (markRegion address sz pc r)) = card new"
    "\<forall>e\<in>set (snd (markRegion address sz pc r)). eventOk e \<and> iv_writerPc e = pc" by simp_all
qed

section \<open>Merging\<close>

definition writerBytes :: "u32 \<Rightarrow> code_event list \<Rightarrow> nat set" where
  "writerBytes pc es = coveredBytes (filter (\<lambda>e. iv_writerPc e = pc) es)"

definition wordSum :: "code_event list \<Rightarrow> u32" where
  "wordSum es = sum_list (map iv_words es)"

text \<open>The order of the merged events: by writer, and those of a writer apart.\<close>

definition apart :: "code_event \<Rightarrow> code_event \<Rightarrow> bool" where
  "apart x y \<longleftrightarrow> iv_writerPc x < iv_writerPc y \<or> iv_writerPc x = iv_writerPc y \<and> iv_end x < iv_start y"

lemma key_le: "eventKey x \<le> eventKey y \<longleftrightarrow>
    iv_writerPc x < iv_writerPc y \<or> iv_writerPc x = iv_writerPc y \<and> iv_start x \<le> iv_start y"
  using unsigned_less [of "iv_start x", where 'a = nat] unsigned_less [of "iv_start y", where 'a = nat]
  by (auto simp: eventKey_def word_less_nat_alt word_le_nat_alt word_eq_iff_unsigned [where 'a = nat])

lemma writerBytes_simps [simp]:
  "writerBytes pc [] = {}"
  "writerBytes pc (e # es) = (if iv_writerPc e = pc then eventBytes e else {}) \<union> writerBytes pc es"
  "writerBytes pc (xs @ ys) = writerBytes pc xs \<union> writerBytes pc ys"
  "writerBytes pc (rev xs) = writerBytes pc xs"
  by (auto simp: writerBytes_def coveredBytes_def)

definition combine :: "code_event \<Rightarrow> code_event \<Rightarrow> code_event" where
  "combine b e = b\<lparr>iv_end := max (iv_end b) (iv_end e), iv_words := iv_words b + iv_words e\<rparr>"

lemma combine_simps [simp]:
  "iv_start (combine b e) = iv_start b" "iv_writerPc (combine b e) = iv_writerPc b"
  "iv_end (combine b e) = max (iv_end b) (iv_end e)" "iv_words (combine b e) = iv_words b + iv_words e"
  by (simp_all add: combine_def)

lemma merge_cons:
  "mergeEvents (e # es) (b # acc) =
    (if iv_writerPc b = iv_writerPc e \<and> iv_start e \<le> iv_end b then mergeEvents es (combine b e # acc)
     else mergeEvents es (e # b # acc))"
  by (simp add: combine_def)

lemma combine_bytes:
  "iv_start b \<le> iv_start e \<Longrightarrow> iv_start e \<le> iv_end b \<Longrightarrow> iv_start e < iv_end e \<Longrightarrow> eventBytes (combine b e) = eventBytes b \<union> eventBytes e"
  by (auto simp: eventBytes_def word_le_nat_alt word_less_nat_alt max_def)

definition mergeOk :: "code_event list \<Rightarrow> code_event list \<Rightarrow> bool" where
  "mergeOk es acc \<longleftrightarrow> sorted (map eventKey es) \<and> (\<forall>e\<in>set es. iv_start e < iv_end e)
     \<and> (\<forall>b\<in>set acc. iv_start b < iv_end b)
     \<and> sorted_wrt (\<lambda>y x. apart x y) acc \<and> (acc \<noteq> [] \<longrightarrow> (\<forall>e\<in>set es. eventKey (hd acc) \<le> eventKey e))"

lemma mergeOk_combine:
  assumes "mergeOk (e # es) (b # acc)" "iv_writerPc b = iv_writerPc e" "iv_start e \<le> iv_end b"
  shows "mergeOk es (combine b e # acc)"
  using assms by (auto simp: mergeOk_def apart_def key_le less_max_iff_disj)

lemma mergeOk_push:
  assumes "mergeOk (e # es) (b # acc)" "\<not> (iv_writerPc b = iv_writerPc e \<and> iv_start e \<le> iv_end b)"
  shows "mergeOk es (e # b # acc)"
proof -
  have be: "apart b e" using assms by (auto simp: mergeOk_def apart_def key_le not_le)
  have "apart x e" if "x \<in> set acc" for x
  proof -
    have "apart x b" using assms(1) that by (simp add: mergeOk_def)
    moreover have "iv_start b < iv_end b" using assms(1) by (simp add: mergeOk_def)
    ultimately show ?thesis using be by (auto simp: apart_def)
  qed
  then show ?thesis using assms(1) be by (auto simp: mergeOk_def)
qed

lemma mergeEvents_spec:
  assumes "mergeOk es acc"
  shows "sorted_wrt apart (mergeEvents es acc) \<and> (\<forall>m\<in>set (mergeEvents es acc). iv_start m < iv_end m)
    \<and> writerBytes pc (mergeEvents es acc) = writerBytes pc acc \<union> writerBytes pc es
    \<and> wordSum (mergeEvents es acc) = wordSum acc + wordSum es"
  using assms
proof (induction es acc rule: mergeEvents.induct)
  case (1 acc)
  then have s: "sorted_wrt apart (rev acc)" "\<forall>b\<in>set acc. iv_start b < iv_end b" by (simp_all add: mergeOk_def sorted_wrt_rev)
  have "wordSum (rev acc) = wordSum acc" by (simp only: wordSum_def rev_map [symmetric] sum_list_rev)
  then show ?case using s by (simp add: wordSum_def)
next
  case (2 e es)
  have "mergeOk es [e]" using 2(2) by (simp add: mergeOk_def)
  from 2(1) [OF this] show ?case by (simp add: wordSum_def)
next
  case (3 e es b acc)
  show ?case
  proof (cases "iv_writerPc b = iv_writerPc e \<and> iv_start e \<le> iv_end b")
    case True
    have "iv_start b \<le> iv_start e" "iv_start e < iv_end e" using 3(3) True by (auto simp: mergeOk_def key_le)
    then have "eventBytes (combine b e) = eventBytes b \<union> eventBytes e" using True by (intro combine_bytes) auto
    then show ?thesis
      using 3(1) [OF True, folded combine_def] mergeOk_combine [OF 3(3)] True
      by (simp only: merge_cons if_True) (simp add: wordSum_def ac_simps Un_ac)
  next
    case False
    then show ?thesis
      using 3(2) [OF False] mergeOk_push [OF 3(3) False]
      by (simp only: merge_cons if_False) (simp add: wordSum_def ac_simps Un_ac)
  qed
qed

text \<open>Events with the same key may come in any order, so it does not matter that \<open>std::sort\<close> is not stable.\<close>

lemma merge_swap:
  assumes "eventKey x = eventKey y" "iv_start x < iv_end x" "iv_start y < iv_end y"
  shows "mergeEvents (x # y # es) acc = mergeEvents (y # x # es) acc"
proof -
  have k: "iv_writerPc x = iv_writerPc y" "iv_start x = iv_start y"
    using assms(1) key_le [of x y] key_le [of y x] by auto
  have b: "combine (combine b x) y = combine (combine b y) x" for b
    by (simp add: combine_def max.left_commute max.commute add.left_commute add.commute)
  have "combine x y = combine y x" using k
    by (cases x; cases y) (simp add: combine_def max.commute add.commute)
  moreover have "iv_start y \<le> iv_end x" "iv_start x \<le> iv_end y" using k assms by (simp_all add: less_imp_le)
  ultimately have direct: "mergeEvents (y # es) (x # zs) = mergeEvents (x # es) (y # zs)" for zs
    using k by (simp only: merge_cons) simp
  show ?thesis
  proof (cases acc)
    case Nil
    then show ?thesis using direct by simp
  next
    case (Cons z zs)
    then show ?thesis using direct b k by (simp only: merge_cons) (simp add: le_max_iff_disj)
  qed
qed

lemma merge_step: "\<exists>acc'. \<forall>zs. mergeEvents (u # zs) acc = mergeEvents zs acc'"
proof (cases acc)
  case Nil
  then show ?thesis by (intro exI [of _ "[u]"]) simp
next
  case (Cons b bs)
  show ?thesis unfolding Cons merge_cons
    by (cases "iv_writerPc b = iv_writerPc u \<and> iv_start u \<le> iv_end b") (auto intro: exI [of _ "combine b u # bs"] exI [of _ "u # b # bs"])
qed

lemma merge_move:
  assumes "\<forall>u\<in>set us. eventKey u = eventKey x \<and> iv_start u < iv_end u" "iv_start x < iv_end x"
  shows "mergeEvents (us @ x # vs) acc = mergeEvents (x # us @ vs) acc"
  using assms(1)
proof (induction us arbitrary: acc)
  case (Cons u us)
  obtain acc' where s: "\<And>zs. mergeEvents (u # zs) acc = mergeEvents zs acc'" using merge_step [of u acc] by blast
  have "mergeEvents ((u # us) @ x # vs) acc = mergeEvents (x # us @ vs) acc'" using Cons by (simp add: s)
  also have "\<dots> = mergeEvents (u # x # us @ vs) acc" by (simp add: s)
  also have "\<dots> = mergeEvents (x # u # us @ vs) acc" using Cons.prems assms(2) by (intro merge_swap) simp_all
  finally show ?case by simp
qed simp

lemma merge_order:
  assumes "mset xs = mset ys" "sorted (map eventKey xs)" "sorted (map eventKey ys)" "\<forall>e\<in>set xs. iv_start e < iv_end e"
  shows "mergeEvents xs acc = mergeEvents ys acc"
  using assms
proof (induction xs arbitrary: ys acc)
  case (Cons x xs)
  have "x \<in> set ys" using mset_eq_setD [OF Cons.prems(1)] by auto
  then obtain us vs where ys: "ys = us @ x # vs" by (metis split_list)
  have m: "mset xs = mset (us @ vs)" using Cons.prems(1) by (simp add: ys)
  then have s: "set xs = set us \<union> set vs" using mset_eq_setD [OF m] by auto
  have "eventKey u = eventKey x \<and> iv_start u < iv_end u" if "u \<in> set us" for u
  proof -
    have "eventKey u \<le> eventKey x" using Cons.prems(3) that by (simp add: ys sorted_append)
    moreover have "u \<in> set xs" using s that by blast
    then have "eventKey x \<le> eventKey u" "iv_start u < iv_end u" using Cons.prems(2,4) by simp_all
    ultimately show ?thesis by simp
  qed
  then have "mergeEvents ys acc = mergeEvents (x # us @ vs) acc" using merge_move Cons.prems(4) by (simp add: ys)
  moreover have "mergeEvents xs acc' = mergeEvents (us @ vs) acc'" for acc'
    using Cons.prems by (intro Cons.IH m) (auto simp: ys sorted_append)
  moreover obtain acc' where "\<And>zs. mergeEvents (x # zs) acc = mergeEvents zs acc'" using merge_step [of x acc] by blast
  ultimately show ?case by simp
qed simp

section \<open>The loops over an overlap\<close>

lemma step_count:
  fixes d :: nat
  assumes "0 < d"
  shows "(d + 3) div 4 = Suc ((d - 4 + 3) div 4)"
proof (cases "4 \<le> d")
  case True
  then obtain e where "d = 4 + e" using le_Suc_ex by blast
  then show ?thesis by simp
next
  case False
  with assms consider "d = 1" | "d = 2" | "d = 3" by linarith
  then show ?thesis by cases simp_all
qed

lemma flags_step:
  assumes "k < length m" "length m = length f" "\<forall>k<length m. m ! k = (f[i := False] ! k \<and> \<not> (Suc i \<le> k \<and> k < Suc i + n))"
  shows "m ! k = (f ! k \<and> \<not> (i \<le> k \<and> k < i + Suc n))"
  using assms by (cases "k = i") (auto simp: nth_list_update_neq)

lemma loop_step:
  fixes addr start stop :: u32
  assumes "addr < stop" "start \<le> addr" "unat stop + 4 \<le> 2 ^ 32"
  shows "unat (addr + 4) = unat addr + 4" "start \<le> addr + 4"
    and "(unat (addr + 4) - unat start) div 4 = Suc ((unat addr - unat start) div 4)"
    and "(unat stop - unat addr + 3) div 4 = Suc ((unat stop - unat (addr + 4) + 3) div 4)"
    and "unat ((addr - start) div 4) = (unat addr - unat start) div 4"
proof -
  have a: "unat addr < unat stop" "unat start \<le> unat addr" using assms(1,2) by (simp_all add: word_less_nat_alt word_le_nat_alt)
  show u: "unat (addr + 4) = unat addr + 4" using a assms(3) by (subst unat_add_no_overflow) simp_all
  show "start \<le> addr + 4" using a by (simp add: word_le_nat_alt u)
  show "(unat (addr + 4) - unat start) div 4 = Suc ((unat addr - unat start) div 4)" using a u by simp
  show "(unat stop - unat addr + 3) div 4 = Suc ((unat stop - unat (addr + 4) + 3) div 4)"
  proof -
    have "unat stop - unat (addr + 4) = unat stop - unat addr - 4" by (simp only: u)
    moreover have "0 < unat stop - unat addr" using a(1) by simp
    ultimately show ?thesis using step_count by (simp only:)
  qed
  show "unat ((addr - start) div 4) = (unat addr - unat start) div 4" using assms(2) by (simp add: unat_div unat_sub_le)
qed

lemma modifiedLoop_result:
  assumes "rg_start r \<le> addr" "unat stop + 4 \<le> 2 ^ 32"
  defines "i \<equiv> (unat addr - unat (rg_start r)) div 4"
  shows "modifiedLoop addr stop r =
    Some (\<exists>k<length (rg_modified r). rg_modified r ! k \<and> i \<le> k \<and> k < i + (unat stop - unat addr + 3) div 4)"
  using assms(1) unfolding i_def
proof (induction "unat stop - unat addr" arbitrary: addr rule: less_induct)
  case less
  show ?case
  proof (cases "addr < stop")
    case False
    then have "unat stop - unat addr = 0" by (simp add: not_less word_le_nat_alt)
    then show ?thesis using False by (subst modifiedLoop.simps) auto
  next
    case True
    note s = loop_step [OF True less.prems assms(2)]
    let ?i = "(unat addr - unat (rg_start r)) div 4" and ?n = "(unat stop - unat (addr + 4) + 3) div 4"
    have "unat stop - unat (addr + 4) < unat stop - unat addr" using True s(1) by (simp add: word_less_nat_alt)
    from less.hyps [OF this s(2)] have IH: "modifiedLoop (addr + 4) stop r =
        Some (\<exists>k<length (rg_modified r). rg_modified r ! k \<and> Suc ?i \<le> k \<and> k < Suc ?i + ?n)"
      unfolding s(3) .
    have split: "?i \<le> k \<and> k < ?i + Suc ?n \<longleftrightarrow> k = ?i \<or> Suc ?i \<le> k \<and> k < Suc ?i + ?n" for k by auto
    have "modifiedLoop addr stop r = (if ?i < length (rg_modified r) \<and> rg_modified r ! ?i then Some True
        else modifiedLoop (addr + 4) stop r)"
      using True by (subst modifiedLoop.simps) (simp add: s(5) Let_def)
    then show ?thesis unfolding s(4) split IH by auto
  qed
qed

lemma clearLoop_result:
  assumes "rg_start r \<le> addr" "unat stop + 4 \<le> 2 ^ 32"
  defines "i \<equiv> (unat addr - unat (rg_start r)) div 4"
  shows "\<exists>m. clearLoop addr stop r = Some (r\<lparr>rg_modified := m\<rparr>) \<and> length m = length (rg_modified r) \<and>
    (\<forall>k<length m. m ! k = (rg_modified r ! k \<and> \<not> (i \<le> k \<and> k < i + (unat stop - unat addr + 3) div 4)))"
  using assms(1) unfolding i_def
proof (induction "unat stop - unat addr" arbitrary: addr r rule: less_induct)
  case less
  show ?case
  proof (cases "addr < stop")
    case False
    then have "unat stop - unat addr = 0" by (simp add: not_less word_le_nat_alt)
    then show ?thesis using False by (subst clearLoop.simps) (auto intro: exI [of _ "rg_modified r"])
  next
    case True
    note s = loop_step [OF True less.prems assms(2)]
    let ?i = "(unat addr - unat (rg_start r)) div 4" and ?n = "(unat stop - unat (addr + 4) + 3) div 4"
    let ?r = "r\<lparr>rg_modified := (rg_modified r)[?i := False]\<rparr>"
    have lt: "unat stop - unat (addr + 4) < unat stop - unat addr" using True s(1) by (simp add: word_less_nat_alt)
    from less.hyps [OF lt, of ?r] s(2,3) obtain m where
      m: "clearLoop (addr + 4) stop ?r = Some (?r\<lparr>rg_modified := m\<rparr>)" "length m = length (rg_modified r)"
        "\<forall>k<length m. m ! k = ((rg_modified r)[?i := False] ! k \<and> \<not> (Suc ?i \<le> k \<and> k < Suc ?i + ?n))"
      by auto
    have "(if ?i < length (rg_modified r) then ?r else r) = ?r" by (simp add: list_update_beyond)
    then have "clearLoop addr stop r = clearLoop (addr + 4) stop ?r"
      using True by (subst clearLoop.simps) (simp add: s(5))
    moreover have "m ! k = (rg_modified r ! k \<and> \<not> (?i \<le> k \<and> k < ?i + Suc ?n))" if "k < length m" for k
      using flags_step [OF that m(2,3)] .
    ultimately show ?thesis unfolding s(4) using m(1,2) by (intro exI [of _ m]) simp
  qed
qed

end
