(* ===== verification/CodeRegionProps.thy ===== *)
theory CodeRegionProps
  imports CodeRegionEvents
begin

text \<open>
  Properties of the code tracking: no write to a registered region is missed, the events handed out are the
  bytes that changed, and what the queries and the clearing look at.
\<close>

section \<open>Queries and clearing\<close>

text \<open>The words a query or a clearing looks at: as many as the overlap has words, from the first one it meets.\<close>

definition wordVisited :: "u32 \<Rightarrow> u32 \<Rightarrow> code_region \<Rightarrow> nat \<Rightarrow> bool" where
  "wordVisited address sz r k \<longleftrightarrow> (case rangeOverlap address sz r of None \<Rightarrow> False
     | Some (os, oe) \<Rightarrow> let i = (os - unat (rg_start r)) div 4 in i \<le> k \<and> k < i + (oe - os + 3) div 4)"

lemma visited_touched:
  assumes "wordVisited address sz r k" "sz \<noteq> 0" "rg_start r < rg_end r"
  shows "wordTouched address sz r k"
proof -
  obtain os oe where o: "rangeOverlap address sz r = Some (os, oe)"
    using assms(1) by (auto simp: wordVisited_def split: option.splits)
  have le: "unat (rg_start r) \<le> os" using o by (auto simp: rangeOverlap_def Let_def split: if_splits)
  have v: "(os - unat (rg_start r)) div 4 \<le> k" "k < (os - unat (rg_start r)) div 4 + (oe - os + 3) div 4"
    using assms(1) o by (simp_all add: wordVisited_def Let_def)
  have "(os - unat (rg_start r)) div 4 + (oe - os + 3) div 4 \<le> (oe - unat (rg_start r) + 3) div 4 \<or> oe \<le> os"
    using le by linarith
  moreover have "os < oe" using o assms(2,3)
    by (auto simp: rangeOverlap_def Let_def unat_gt_0 word_less_nat_alt split: if_splits)
  ultimately show ?thesis using v unfolding touched_words [OF o assms(2,3)] by linarith
qed

definition wordAligned :: "u32 \<Rightarrow> code_region \<Rightarrow> bool" where
  "wordAligned address r \<longleftrightarrow> address \<le> rg_start r \<or> (unat address - unat (rg_start r)) mod 4 = 0"

lemma touched_visited:
  assumes "wordTouched address sz r k" "wordAligned address r" "sz \<noteq> 0" "rg_start r < rg_end r"
  shows "wordVisited address sz r k"
proof -
  obtain os oe where o: "rangeOverlap address sz r = Some (os, oe)"
    using assms(1) untouched_range by (cases "rangeOverlap address sz r") auto
  have os: "os = max (unat address) (unat (rg_start r))" using o by (auto simp: rangeOverlap_def Let_def split: if_splits)
  then have "(os - unat (rg_start r)) mod 4 = 0" using assms(2) by (auto simp: wordAligned_def word_le_nat_alt max_def)
  then obtain q where "os - unat (rg_start r) = 4 * q" by (metis dvd_def mod_0_imp_dvd)
  then have "os = unat (rg_start r) + 4 * q" using os by simp
  then show ?thesis
    using assms(1) unfolding touched_words [OF o assms(3,4)] wordVisited_def o by (auto simp: Let_def)
qed

text \<open>Every region ends at or below $2^{32} - 4$.\<close>

definition regionsLow :: "code_state \<Rightarrow> bool" where
  "regionsLow s \<longleftrightarrow> (\<forall>r\<in>set (cd_regions s). rg_end r \<le> 0xFFFFFFFC)"

lemma low_bound: "rg_end r \<le> 0xFFFFFFFC \<Longrightarrow> unat (rg_end r) + 4 \<le> 2 ^ 32"
  by (simp add: word_le_nat_alt)

text \<open>The overlap as the loops see it.\<close>

lemma overlap_loop:
  assumes "rangeOverlap address sz r = Some (os, oe)" "rg_end r \<le> 0xFFFFFFFC"
  shows "unat (of_nat os :: u32) = os" "unat (of_nat oe :: u32) = oe"
    and "rg_start r \<le> of_nat os" "unat (of_nat oe :: u32) + 4 \<le> 2 ^ 32"
proof -
  have o: "unat (rg_start r) \<le> os" "os < 2 ^ 32" "oe \<le> unat (rg_end r)"
    using assms(1) unsigned_less [of address, where 'a = nat] unsigned_less [of "rg_start r", where 'a = nat]
    by (auto simp: rangeOverlap_def Let_def split: if_splits)
  show a: "unat (of_nat os :: u32) = os" using o by (simp add: unsigned_of_nat take_bit_nat_eq_self)
  show b: "unat (of_nat oe :: u32) = oe" using o low_bound [OF assms(2)] by (simp add: unsigned_of_nat take_bit_nat_eq_self)
  show "rg_start r \<le> of_nat os" using o by (simp only: word_le_nat_alt a)
  show "unat (of_nat oe :: u32) + 4 \<le> 2 ^ 32" using o low_bound [OF assms(2)] by (simp only: b)
qed

definition flaggedVisited :: "u32 \<Rightarrow> u32 \<Rightarrow> code_region \<Rightarrow> bool" where
  "flaggedVisited address sz r \<longleftrightarrow> (\<exists>k<length (rg_modified r). rg_modified r ! k \<and> wordVisited address sz r k)"

lemma query_regions:
  assumes "\<forall>r\<in>set rs. rg_end r \<le> 0xFFFFFFFC"
  shows "modifiedInRegions address sz rs = Some (\<exists>r\<in>set rs. flaggedVisited address sz r)"
  using assms
proof (induction rs)
  case (Cons r rs)
  have low: "rg_end r \<le> 0xFFFFFFFC" using Cons.prems by simp
  show ?case
  proof (cases "rangeOverlap address sz r")
    case None
    then have "\<not> flaggedVisited address sz r" by (simp add: flaggedVisited_def wordVisited_def)
    then show ?thesis using Cons None by simp
  next
    case (Some o')
    obtain os oe where o: "rangeOverlap address sz r = Some (os, oe)" using Some by (cases o') simp
    note l = overlap_loop [OF o low]
    have "modifiedLoop (of_nat os) (of_nat oe) r = Some (flaggedVisited address sz r)"
      unfolding modifiedLoop_result [OF l(3,4)] l(1,2) by (simp add: flaggedVisited_def wordVisited_def o Let_def)
    then show ?thesis using Cons by (auto simp: o)
  qed
qed simp

lemma clear_region:
  assumes "rg_end r \<le> 0xFFFFFFFC"
  shows "\<exists>m. clearRegion address sz r = Some (r\<lparr>rg_modified := m\<rparr>) \<and> length m = length (rg_modified r)
    \<and> (\<forall>k<length m. m ! k = (rg_modified r ! k \<and> \<not> wordVisited address sz r k))"
proof (cases "rangeOverlap address sz r")
  case None
  then show ?thesis by (intro exI [of _ "rg_modified r"]) (simp add: clearRegion_def wordVisited_def)
next
  case (Some o')
  obtain os oe where o: "rangeOverlap address sz r = Some (os, oe)" using Some by (cases o') simp
  note l = overlap_loop [OF o assms]
  show ?thesis
    using clearLoop_result [OF l(3,4)] unfolding l(1,2) by (simp add: clearRegion_def o wordVisited_def Let_def)
qed

lemma visited_update: "wordVisited address sz (r\<lparr>rg_modified := m\<rparr>) = wordVisited address sz r"
  by (simp add: fun_eq_iff wordVisited_def rangeOverlap_def Let_def split: option.split)

definition cleared :: "u32 \<Rightarrow> u32 \<Rightarrow> code_region \<Rightarrow> code_region" where
  "cleared address sz r = r\<lparr>rg_modified :=
     map (\<lambda>k. rg_modified r ! k \<and> \<not> wordVisited address sz r k) [0..<length (rg_modified r)]\<rparr>"

lemma clear_region_eq:
  assumes "rg_end r \<le> 0xFFFFFFFC"
  shows "clearRegion address sz r = Some (cleared address sz r)"
proof -
  obtain m where m: "clearRegion address sz r = Some (r\<lparr>rg_modified := m\<rparr>)" "length m = length (rg_modified r)"
      "\<forall>k<length m. m ! k = (rg_modified r ! k \<and> \<not> wordVisited address sz r k)" using clear_region [OF assms] by blast
  have "m = map (\<lambda>k. rg_modified r ! k \<and> \<not> wordVisited address sz r k) [0..<length (rg_modified r)]"
    using m(2,3) by (intro nth_equalityI) simp_all
  then show ?thesis using m(1) by (simp add: cleared_def)
qed

lemma those_map_Some: "(\<And>x. x \<in> set xs \<Longrightarrow> f x = Some (g x)) \<Longrightarrow> those (map f xs) = Some (map g xs)"
  by (induction xs) simp_all

lemma clear_eq:
  assumes "regionsLow s"
  shows "clearModifiedFlag address sz s =
    Some (if sz = 0 then s else s\<lparr>cd_regions := map (cleared address sz) (cd_regions s)\<rparr>)"
  using assms those_map_Some [of "cd_regions s" "clearRegion address sz" "cleared address sz"]
  by (simp add: clearModifiedFlag_def regionsLow_def clear_region_eq)

section \<open>The invariant\<close>

definition codeInv :: "code_state \<Rightarrow> bool" where
  "codeInv s \<longleftrightarrow> codeOk s \<and> (\<forall>e\<in>set (cd_pending s). eventOk e)"

lemma clearLoop_shape:
  assumes "clearLoop addr stop r = Some r'"
  shows "shapeOf r' = shapeOf r"
proof (rule clearLoop.raw_induct [where P = "\<lambda>addr stop r r'. shapeOf r' = shapeOf r", OF _ assms])
  fix f addr stop and r r' :: code_region
  assume IH: "\<And>addr stop r r'. f addr stop r = Some r' \<Longrightarrow> shapeOf r' = shapeOf r"
    and eq: "(if addr < stop then let bitIndex = unat ((addr - rg_start r) div 4)
        in f (addr + 4) stop (if bitIndex < length (rg_modified r) then r\<lparr>rg_modified := (rg_modified r)[bitIndex := False]\<rparr> else r)
      else Some r) = Some r'"
  show "shapeOf r' = shapeOf r"
    using eq by (auto simp: Let_def shapeOf_def split: if_splits dest!: IH)
qed

lemma those_shape:
  "those (map (clearRegion address sz) rs) = Some rs' \<Longrightarrow> map shapeOf rs' = map shapeOf rs"
  by (induction rs arbitrary: rs')
    (auto simp: clearRegion_def split: option.splits prod.splits dest: clearLoop_shape)

lemma mark_events_ok:
  assumes "codeInv s" "sz \<noteq> 0" "unat address + unat sz \<le> unat PS2_RAM_SIZE" "r \<in> set (cd_regions s)"
  shows "rangeOverlap address sz r = None \<or> unat (rg_end r) + 4 \<le> 2 ^ 32" and "regionOk r"
proof -
  show ok: "regionOk r" using assms(1,4) by (simp add: codeInv_def codeOk_def)
  show "rangeOverlap address sz r = None \<or> unat (rg_end r) + 4 \<le> 2 ^ 32"
  proof (cases "unat (rg_start r) < unat PS2_RAM_SIZE")
    case True
    moreover have "unat (rg_end r) \<le> unat (rg_start r) + unat PS2_RAM_SIZE"
      using ok unfolding regionOk_def by linarith
    ultimately have "unat (rg_end r) + 4 \<le> 2 ^ 32" by (simp add: ram_size)
    then show ?thesis by simp
  next
    case False
    then show ?thesis using assms(3) by (simp add: rangeOverlap_def Let_def)
  qed
qed

lemma no_overlap_events:
  "rangeOverlap address sz r = None \<Longrightarrow> snd (markRegion address sz pc r) = []" by (simp add: markRegion_def)

lemma codeInv_mark:
  assumes "codeInv s" "sz \<noteq> 0 \<longrightarrow> unat address + unat sz \<le> unat PS2_RAM_SIZE"
  shows "codeInv (markModified address sz pc s)"
proof (cases "sz = 0")
  case False
  have "eventOk e" if "r \<in> set (cd_regions s)" "e \<in> set (snd (markRegion address sz pc r))" for r e
    using mark_events_ok [OF assms(1) False _ that(1), of address] that(2) assms(2) False
      markRegion_events(3) [of r sz address pc] no_overlap_events [of address sz r pc] by auto
  moreover have "codeOk (markModified address sz pc s)" using assms(1) by (simp add: codeInv_def markModified_shape)
  ultimately show ?thesis
    using assms(1) False by (auto simp: codeInv_def markModified_def Let_def)
qed (simp add: markModified_def assms)

lemma codeInv_slow: "codeInv s \<Longrightarrow> codeInv (observeRdramWriteSlow address sz pc s)"
proof (cases "sz = 0 \<or> PS2_RAM_SIZE \<le> address \<or> PS2_RAM_SIZE - address < sz")
  case True
  moreover assume "codeInv s"
  ultimately show ?thesis by (auto simp: observeRdramWriteSlow_def)
next
  case False
  moreover from False have "unat address + unat sz \<le> unat PS2_RAM_SIZE"
  proof -
    have "address \<le> PS2_RAM_SIZE" "sz \<le> PS2_RAM_SIZE - address" using False by auto
    then show ?thesis by (simp add: word_le_nat_alt unat_sub_le)
  qed
  moreover assume "codeInv s"
  ultimately show ?thesis by (auto simp: observeRdramWriteSlow_def Let_def codeInv_mark)
qed

lemma codeInv_step: "codeInv s \<Longrightarrow> codeStep op s = Some t \<Longrightarrow> codeInv t"
proof (cases op)
  case (OpRegister first stop)
  assume "codeInv s" "codeStep op s = Some t"
  then show ?thesis using OpRegister codeOk_register [of s first stop]
    by (auto simp: codeInv_def registerCodeRegion_def Let_def split: if_splits)
next
  case (OpClear address sz)
  assume i: "codeInv s" and t: "codeStep op s = Some t"
  then have "sz \<noteq> 0 \<Longrightarrow> \<exists>rs. those (map (clearRegion address sz) (cd_regions s)) = Some rs \<and> t = s\<lparr>cd_regions := rs\<rparr>"
    using OpClear by (auto simp: clearModifiedFlag_def)
  moreover have "sz = 0 \<Longrightarrow> t = s" using t OpClear by (simp add: clearModifiedFlag_def)
  ultimately have "map shapeOf (cd_regions t) = map shapeOf (cd_regions s) \<and> cd_pages t = cd_pages s
      \<and> cd_hasRegions t = cd_hasRegions s \<and> cd_pending t = cd_pending s"
    using those_shape by (cases "sz = 0") auto
  then show ?thesis using i same_shape [of s t] by (simp add: codeInv_def)
qed (auto simp: observeRdramWrite_def observeRdramWriteFixed_def Let_def codeInv_slow, auto simp: takeCodeInvalidationEvents_def codeInv_def codeOk_def)

interpretation code_machine:
  invariant_machine "Some code_new" codeCall "\<lambda>s. \<forall>t. s = Some t \<longrightarrow> codeInv t" "\<lambda>_. \<infinity>"
proof unfold_locales
  show "\<forall>t. Some code_new = Some t \<longrightarrow> codeInv t" using codeOk_new by (simp add: codeInv_def code_new_def)
next
  fix s op
  assume "\<forall>t. s = Some t \<longrightarrow> codeInv t"
  then show "\<forall>t. codeCall op s = Some t \<longrightarrow> codeInv t" by (cases s) (auto simp: codeCall_def dest: codeInv_step)
qed simp

lemma code_reachable: "fold codeCall ops (Some code_new) = Some s \<Longrightarrow> codeInv s"
  using code_machine.inv_run [of "Some code_new" ops] code_machine.inv_init by simp

section \<open>Properties\<close>

text \<open>What a write adds to the words of a region.\<close>

definition newlyFlagged :: "u32 \<Rightarrow> u32 \<Rightarrow> code_region \<Rightarrow> nat set" where
  "newlyFlagged address sz r = {k. k < length (rg_modified r) \<and> \<not> rg_modified r ! k \<and> wordTouched address sz r k}"

definition writtenRegion :: "u32 \<Rightarrow> u32 \<Rightarrow> code_region \<Rightarrow> code_region" where
  "writtenRegion address sz r = r\<lparr>rg_modified :=
     map (\<lambda>k. rg_modified r ! k \<or> wordTouched address sz r k) [0..<length (rg_modified r)]\<rparr>"

lemma region_eqI:
  "rg_start r' = rg_start r \<Longrightarrow> rg_end r' = rg_end r \<Longrightarrow> rg_modified r' = m \<Longrightarrow> r' = r\<lparr>rg_modified := m\<rparr>"
  for r :: code_region by simp

lemma written_region:
  assumes "sz \<noteq> 0" "rg_start r < rg_end r"
  shows "fst (markRegion address sz pc r) = writtenRegion address sz r"
  unfolding writtenRegion_def using markRegion_flags [OF assms]
  by (intro region_eqI nth_equalityI) simp_all

lemma concat_covered:
  assumes "\<And>r. r \<in> set rs \<Longrightarrow> coveredBytes (f r) = B r" "\<And>r. r \<in> set rs \<Longrightarrow> wordCount (f r) = N r"
  shows "coveredBytes (concat (map f rs)) = (\<Union>r\<in>set rs. B r)" "wordCount (concat (map f rs)) = sum_list (map N rs)"
  using assms by (induction rs) simp_all

text \<open>
  C18. After any sequence of calls a write inside the RDRAM, observed in either form, flags in every
  region exactly the words it touches, whatever the bitmap of pages says; the events it adds bear its writer,
  cover exactly the bytes of the newly flagged words and count them.
\<close>

theorem code_write_noticed:
  assumes "fold codeCall ops (Some code_new) = Some s"
    and "sz \<noteq> 0" "unat address + unat sz \<le> unat PS2_RAM_SIZE"
  shows "\<exists>events. observeRdramWrite address sz pc s
        = s\<lparr>cd_regions := map (writtenRegion address sz) (cd_regions s), cd_pending := cd_pending s @ events\<rparr>
      \<and> (sz \<le> 16 \<longrightarrow> observeRdramWriteFixed sz address pc s = observeRdramWrite address sz pc s)
      \<and> (\<forall>e\<in>set events. eventOk e \<and> iv_writerPc e = pc)
      \<and> coveredBytes events = (\<Union>r\<in>set (cd_regions s). \<Union>k\<in>newlyFlagged address sz r. wordBytes r k)
      \<and> wordCount events = sum_list (map (\<lambda>r. card (newlyFlagged address sz r)) (cd_regions s))"
proof -
  have inv: "codeInv s" by (rule code_reachable [OF assms(1)])
  then have ok: "codeOk s" by (simp add: codeInv_def)
  note mk = mark_events_ok [OF inv assms(2,3)]
  let ?f = "\<lambda>r. snd (markRegion address sz pc r)"
  have cover: "coveredBytes (?f r) = (\<Union>k\<in>newlyFlagged address sz r. wordBytes r k)"
    and count: "wordCount (?f r) = card (newlyFlagged address sz r)"
    and good: "\<forall>e\<in>set (?f r). eventOk e \<and> iv_writerPc e = pc" if "r \<in> set (cd_regions s)" for r
    using mk [OF that] markRegion_events [of r sz address pc] no_overlap_events [of address sz r pc] untouched_range [of address sz r] assms(2)
    by (auto simp: newlyFlagged_def)
  have "fst (markRegion address sz pc r) = writtenRegion address sz r" if "r \<in> set (cd_regions s)" for r
    using mk(2) [OF that] by (simp add: regionOk_def written_region assms(2))
  then have "markModified address sz pc s
      = s\<lparr>cd_regions := map (writtenRegion address sz) (cd_regions s), cd_pending := cd_pending s @ concat (map ?f (cd_regions s))\<rparr>"
    using assms(2) by (simp add: markModified_def Let_def comp_def)
  then show ?thesis
    using observe_exact [OF ok assms(2,3)] observe_fixed_exact [OF ok assms(2,3)] good
      concat_covered [of "cd_regions s" ?f, OF cover count]
    by (intro exI [of _ "concat (map ?f (cd_regions s))"]) auto
qed

text \<open>
  C19. Taking the events empties the list; what is handed out covers for every writer exactly the bytes of its
  pending events, in order and with a gap between two events of a writer, and counts the same words (modulo
  $2^{32}$). Any other order a sort may give events of the same writer and start leads to the same result.
\<close>

theorem invalidation_events_merged:
  assumes "fold codeCall ops (Some code_new) = Some s"
    and "mset other = mset (cd_pending s)" "sorted (map eventKey other)"
  defines "taken \<equiv> fst (takeCodeInvalidationEvents s)"
  shows "writerBytes pc taken = writerBytes pc (cd_pending s) \<and> sorted_wrt apart taken
      \<and> wordSum taken = wordSum (cd_pending s) \<and> (\<forall>e\<in>set taken. iv_start e < iv_end e)
      \<and> snd (takeCodeInvalidationEvents s) = s\<lparr>cd_pending := []\<rparr> \<and> mergeEvents other [] = taken"
proof -
  let ?sorted = "sort_key eventKey (cd_pending s)"
  have "codeInv s" by (rule code_reachable [OF assms(1)])
  then have good: "\<forall>e\<in>set (cd_pending s). iv_start e < iv_end e" by (simp add: codeInv_def eventOk_def)
  have "mergeOk ?sorted []" using good by (simp add: mergeOk_def)
  note m = mergeEvents_spec [OF this, of pc]
  have "mset ?sorted = mset (cd_pending s)" by simp
  then have "wordSum ?sorted = wordSum (cd_pending s)"
    unfolding wordSum_def by (metis mset_map sum_mset_sum_list)
  moreover have "writerBytes pc ?sorted = writerBytes pc (cd_pending s)"
    by (simp add: writerBytes_def coveredBytes_def)
  moreover have "set other = set (cd_pending s)" by (rule mset_eq_setD [OF assms(2)])
  then have "mergeEvents other [] = mergeEvents ?sorted []"
    using good assms(2,3) by (intro merge_order) simp_all
  ultimately show ?thesis using m by (simp add: taken_def takeCodeInvalidationEvents_def wordSum_def)
qed

text \<open>
  C33. A query returns, if all regions end at or below $2^{32} - 4$; it finds only flags of words the range touches, and
  all of them if the range starts before or at a word of each region. Clearing takes the flags of the words the
  same query looks at and no other, so the query then finds nothing.
\<close>

theorem code_query_and_clear:
  fixes address sz :: u32
  assumes "fold codeCall ops (Some code_new) = Some s" "regionsLow s" "sz \<noteq> 0"
  defines "touched \<equiv> (\<exists>r\<in>set (cd_regions s). \<exists>k<length (rg_modified r). rg_modified r ! k \<and> wordTouched address sz r k)"
  shows "(\<exists>found. isCodeModified address sz s = Some found \<and> (found \<longrightarrow> touched)
        \<and> ((\<forall>r\<in>set (cd_regions s). wordAligned address r) \<longrightarrow> found = touched))
    \<and> (\<exists>t. clearModifiedFlag address sz s = Some t \<and> isCodeModified address sz t = Some False
        \<and> t = s\<lparr>cd_regions := map (cleared address sz) (cd_regions s)\<rparr>)"
proof -
  have "codeInv s" by (rule code_reachable [OF assms(1)])
  then have lt: "rg_start r < rg_end r" if "r \<in> set (cd_regions s)" for r
    using that by (simp add: codeInv_def codeOk_def regionOk_def)
  have low: "\<forall>r\<in>set (cd_regions s). rg_end r \<le> 0xFFFFFFFC" using assms(2) by (simp add: regionsLow_def)
  have q: "isCodeModified address sz s = Some (\<exists>r\<in>set (cd_regions s). flaggedVisited address sz r)"
    using query_regions [OF low] assms(3) by (simp add: isCodeModified_def)
  have sound: "flaggedVisited address sz r \<Longrightarrow> r \<in> set (cd_regions s) \<Longrightarrow> touched" for r
    unfolding flaggedVisited_def touched_def using visited_touched [OF _ assms(3) lt] by blast
  have exact: "touched \<Longrightarrow> \<forall>r\<in>set (cd_regions s). wordAligned address r \<Longrightarrow> \<exists>r\<in>set (cd_regions s). flaggedVisited address sz r"
    unfolding flaggedVisited_def touched_def using touched_visited [OF _ _ assms(3) lt] by blast
  let ?t = "s\<lparr>cd_regions := map (cleared address sz) (cd_regions s)\<rparr>"
  have "\<forall>r\<in>set (cd_regions ?t). rg_end r \<le> 0xFFFFFFFC" using low by (simp add: cleared_def)
  from query_regions [OF this] have "isCodeModified address sz ?t = Some (\<exists>r\<in>set (cd_regions ?t). flaggedVisited address sz r)"
    using assms(3) by (simp add: isCodeModified_def)
  moreover have "\<not> flaggedVisited address sz (cleared address sz r)" for r
    by (auto simp: flaggedVisited_def cleared_def visited_update)
  ultimately have "isCodeModified address sz ?t = Some False" by simp
  then show ?thesis using q sound exact clear_eq [OF assms(2), of address sz] assms(3) by auto
qed

section \<open>Witnesses\<close>

definition demoRegions :: code_state where
  "demoRegions = registerCodeRegion 0x1000 0x1010 code_new"

lemma demo_reached: "fold codeCall [OpRegister 0x1000 0x1010] (Some code_new) = Some demoRegions"
  by (simp add: codeCall_def demoRegions_def)

lemma demo_regions:
  "cd_regions demoRegions = [\<lparr>rg_start = 0x1000, rg_end = 0x1010, rg_modified = [False, False, False, False]\<rparr>]"
  by code_simp

lemma code_write_noticed_witness:
  "observeRdramWriteFixed 4 0x1002 0x80 demoRegions = observeRdramWrite 0x1002 4 0x80 demoRegions
   \<and> cd_pending (observeRdramWrite 0x1002 4 0x80 demoRegions)
      = [\<lparr>iv_start = 0x1000, iv_end = 0x1008, iv_words = 2, iv_writerPc = 0x80\<rparr>]"
proof
  have "(4 :: u32) \<le> 16" "(4 :: u32) \<noteq> 0" "unat (0x1002 :: u32) + unat (4 :: u32) \<le> unat PS2_RAM_SIZE" by (simp_all add: ram_size)
  then show "observeRdramWriteFixed 4 0x1002 0x80 demoRegions = observeRdramWrite 0x1002 4 0x80 demoRegions"
    using code_write_noticed [OF demo_reached, of 4 "0x1002" "0x80"] by auto
  show "cd_pending (observeRdramWrite 0x1002 4 0x80 demoRegions)
      = [\<lparr>iv_start = 0x1000, iv_end = 0x1008, iv_words = 2, iv_writerPc = 0x80\<rparr>]" by code_simp
qed

definition demoOps :: "code_op list" where
  "demoOps = [OpRegister 0x1000 0x1010, OpWrite 0x1008 4 0x84, OpWrite 0x1000 8 0x80, OpWriteFixed 4 0x100c 0x80]"

definition demoWritten :: code_state where "demoWritten = the (fold codeCall demoOps (Some code_new))"

lemma demo_written: "fold codeCall demoOps (Some code_new) = Some demoWritten"
  by (simp add: demoWritten_def demoOps_def codeCall_def)

lemma invalidation_events_merged_witness:
  "writerBytes 0x80 (fst (takeCodeInvalidationEvents demoWritten)) = writerBytes 0x80 (cd_pending demoWritten)
   \<and> length (cd_pending demoWritten) = 3"
proof
  have "mset (sort_key eventKey (cd_pending demoWritten)) = mset (cd_pending demoWritten)" by simp
  then show "writerBytes 0x80 (fst (takeCodeInvalidationEvents demoWritten)) = writerBytes 0x80 (cd_pending demoWritten)"
    using invalidation_events_merged [OF demo_written, of "sort_key eventKey (cd_pending demoWritten)" "0x80"] by simp
  show "length (cd_pending demoWritten) = 3" by code_simp
qed

lemma code_query_and_clear_witness:
  "isCodeModified 0x1004 8 demoWritten = Some True
   \<and> (\<exists>t. clearModifiedFlag 0x1004 8 demoWritten = Some t \<and> isCodeModified 0x1004 8 t = Some False)"
proof -
  have r: "cd_regions demoWritten = [\<lparr>rg_start = 0x1000, rg_end = 0x1010, rg_modified = [True, True, True, True]\<rparr>]"
    by code_simp
  then have "regionsLow demoWritten" by (simp add: regionsLow_def)
  note q = code_query_and_clear [OF demo_written this, of 8 "0x1004"]
  have "flaggedVisited 0x1004 8 (hd (cd_regions demoWritten))" unfolding r
    by (auto simp: flaggedVisited_def wordVisited_def rangeOverlap_def Let_def intro!: exI [of _ 1])
  then have "isCodeModified 0x1004 8 demoWritten = Some True"
    using query_regions [of "cd_regions demoWritten" "0x1004" 8] by (simp add: r isCodeModified_def)
  then show ?thesis using q by auto
qed

section \<open>Where the queries are not exact\<close>

text \<open>A write of four bytes at \<open>0x1006\<close> flags the words at \<open>0x1004\<close> and \<open>0x1008\<close>; a query for four bytes at
  \<open>0x1002\<close>, which reach into the flagged word at \<open>0x1004\<close>, finds nothing, and a clearing leaves the flag.\<close>

lemma query_misses_last_word:
  "isCodeModified 0x1002 4 (observeRdramWrite 0x1006 4 0 demoRegions) = Some False
   \<and> wordTouched 0x1002 4 (hd (cd_regions (observeRdramWrite 0x1006 4 0 demoRegions))) 1"
proof
  let ?s = "observeRdramWrite 0x1006 4 0 demoRegions"
  have r: "cd_regions ?s = [\<lparr>rg_start = 0x1000, rg_end = 0x1010, rg_modified = [False, True, True, False]\<rparr>]" by code_simp
  show "isCodeModified 0x1002 4 ?s = Some False"
    using query_regions [of "cd_regions ?s" "0x1002" 4]
    by (auto simp: r isCodeModified_def flaggedVisited_def wordVisited_def rangeOverlap_def Let_def less_Suc_eq)
  show "wordTouched 0x1002 4 (hd (cd_regions ?s)) 1"
    unfolding r wordTouched_def accessBytes_def wordBytes_def interval_meet by simp
qed

text \<open>In a region that ends above $2^{32} - 4$ a query that finds nothing does not return.\<close>

lemma query_never_returns:
  assumes "0xFFFFFFFC < stop" "unat addr mod 4 = 0" "\<forall>k<length (rg_modified r). \<not> rg_modified r ! k"
  shows "modifiedLoop addr stop r = None"
proof (rule ccontr)
  assume "modifiedLoop addr stop r \<noteq> None"
  then obtain b where ret: "modifiedLoop addr stop r = Some b" by auto
  have "\<not> (0xFFFFFFFC < stop \<and> unat addr mod 4 = 0 \<and> (\<forall>k<length (rg_modified r). \<not> rg_modified r ! k))"
  proof (rule modifiedLoop.raw_induct [where P = "\<lambda>addr stop r b.
      \<not> (0xFFFFFFFC < stop \<and> unat addr mod 4 = 0 \<and> (\<forall>k<length (rg_modified r). \<not> rg_modified r ! k))", OF _ ret])
    fix f addr stop and r :: code_region and b
    assume IH: "\<And>addr stop r b. f addr stop r = Some b \<Longrightarrow>
        \<not> (0xFFFFFFFC < stop \<and> unat addr mod 4 = 0 \<and> (\<forall>k<length (rg_modified r). \<not> rg_modified r ! k))"
      and eq: "(if addr < stop then let bitIndex = unat ((addr - rg_start r) div 4)
          in if bitIndex < length (rg_modified r) \<and> rg_modified r ! bitIndex then Some True else f (addr + 4) stop r
        else Some False) = Some b"
    show "\<not> (0xFFFFFFFC < stop \<and> unat addr mod 4 = 0 \<and> (\<forall>k<length (rg_modified r). \<not> rg_modified r ! k))"
    proof
      assume c: "0xFFFFFFFC < stop \<and> unat addr mod 4 = 0 \<and> (\<forall>k<length (rg_modified r). \<not> rg_modified r ! k)"
      have m: "unat addr mod 4 = 0" using c by blast
      have "unat addr < 4294967296" using unsigned_less [of addr, where 'a = nat] by simp
      moreover obtain q where "unat addr = 4 * q" using m by (metis dvd_def mod_0_imp_dvd)
      ultimately have "addr \<le> 0xFFFFFFFC" by (simp add: word_le_nat_alt)
      then have fr: "f (addr + 4) stop r = Some b" using c eq by (auto simp: Let_def split: if_splits)
      have "unat (addr + 4) mod 4 = 0" using m by (simp add: unat_word_ariths mod_mod_cancel mod_add_left_eq)
      with IH [OF fr] c show False by simp
    qed
  qed
  then show False using assms by blast
qed

end
