(* ===== verification/EeCache.thy ===== *)
theory EeCache
  imports Prelude
begin

text \<open>
  \<open>ps2xRuntime/include/runtime/ee_cache.h\<close> and \<open>src/lib/ee_cache.cpp\<close>: the state the R5900 CACHE
  instruction touches (data lines, instruction lines, branch-target entries) and its twenty operations.
  The three calls it makes on \<open>PS2Memory\<close> are arguments: a memory state, its address translation, its word
  read and its word write, each of which may throw. An exception leaves the calls made before it done and
  the cache as it then is.
\<close>

unbundle bit_operations_syntax

section \<open>State\<close>

definition kLineSize :: u32 where "kLineSize = 64"
definition kDataSetCount :: u32 where "kDataSetCount = 64"
definition kInstructionSetCount :: u32 where "kInstructionSetCount = 128"
definition kBtacEntryCount :: u32 where "kBtacEntryCount = 64"

record data_line =
  dl_tag :: u32
  dl_data :: "u32 \<Rightarrow> u8"

record instruction_line =
  il_tag :: u32
  il_data :: "u32 \<Rightarrow> u8"
  il_metadata :: "u32 \<Rightarrow> u8"

record btac_entry =
  bt_tagLo :: u32
  bt_tagHi :: u32

record ee_cache =
  ec_data :: "u32 \<Rightarrow> u32 \<Rightarrow> data_line"
  ec_instruction :: "u32 \<Rightarrow> u32 \<Rightarrow> instruction_line"
  ec_btac :: "u32 \<Rightarrow> btac_entry"

definition cache_reset :: ee_cache where
  "cache_reset = \<lparr>ec_data = (\<lambda>_ _. \<lparr>dl_tag = 0, dl_data = (\<lambda>_. 0)\<rparr>),
     ec_instruction = (\<lambda>_ _. \<lparr>il_tag = 0, il_data = (\<lambda>_. 0), il_metadata = (\<lambda>_. 0)\<rparr>),
     ec_btac = (\<lambda>_. \<lparr>bt_tagLo = 0, bt_tagHi = 0\<rparr>)\<rparr>"

definition kTagPhysicalMask :: u32 where "kTagPhysicalMask = 0xFFFFF000"
definition kTagLock :: u32 where "kTagLock = 0x8"
definition kTagLrf :: u32 where "kTagLrf = 0x10"
definition kTagValid :: u32 where "kTagValid = 0x20"
definition kTagDirty :: u32 where "kTagDirty = 0x40"
definition kDataTagMask :: u32 where
  "kDataTagMask = kTagPhysicalMask OR kTagLock OR kTagLrf OR kTagValid OR kTagDirty"
definition kInstructionTagMask :: u32 where
  "kInstructionTagMask = kTagPhysicalMask OR kTagLrf OR kTagValid"
definition kDataInvalidateMask :: u32 where
  "kDataInvalidateMask = kTagLock OR kTagValid OR kTagDirty"

text \<open>The operation codes; a code that is not here is reserved.\<close>

datatype cache_operation =
    Ixltg | Ixldt | Bxlbt | Ixstg | Ixsdt | Bxsbt | Ixin | Bhinbt | Ihin | Bfh | Ifl
  | Dxltg | Dxldt | Dxstg | Dxsdt | Dxwbin | Dxin | Dhwbin | Dhin | Dhwoin

definition cacheOperation :: "u32 \<Rightarrow> cache_operation option" where
  "cacheOperation operation =
     map_of [(0x00, Ixltg), (0x01, Ixldt), (0x02, Bxlbt), (0x04, Ixstg), (0x05, Ixsdt), (0x06, Bxsbt), (0x07, Ixin),
             (0x0A, Bhinbt), (0x0B, Ihin), (0x0C, Bfh), (0x0E, Ifl), (0x10, Dxltg), (0x11, Dxldt), (0x12, Dxstg),
             (0x13, Dxsdt), (0x14, Dxwbin), (0x16, Dxin), (0x18, Dhwbin), (0x1A, Dhin), (0x1C, Dhwoin)]
       (operation AND 0x1F)"

section \<open>Lines\<close>

definition loadWord :: "(u32 \<Rightarrow> u8) \<Rightarrow> u32 \<Rightarrow> u32" where
  "loadWord data offset = ucast (data offset) OR push_bit 8 (ucast (data (offset + 1)))
     OR push_bit 16 (ucast (data (offset + 2))) OR push_bit 24 (ucast (data (offset + 3)))"

definition storeWord :: "(u32 \<Rightarrow> u8) \<Rightarrow> u32 \<Rightarrow> u32 \<Rightarrow> (u32 \<Rightarrow> u8)" where
  "storeWord data offset v = data(offset := ucast v, offset + 1 := ucast (drop_bit 8 v),
     offset + 2 := ucast (drop_bit 16 v), offset + 3 := ucast (drop_bit 24 v))"

definition refillWay :: "(u32 \<Rightarrow> instruction_line) \<Rightarrow> u32" where
  "refillWay lines =
     (if il_tag (lines 0) AND kTagValid = 0 then 0
      else if il_tag (lines 1) AND kTagValid = 0 then 1
      else if (il_tag (lines 0) XOR il_tag (lines 1)) AND kTagLrf \<noteq> 0 then 1 else 0)"

definition tagMatchesPhysical :: "u32 \<Rightarrow> u32 \<Rightarrow> bool" where
  "tagMatchesPhysical tag physicalAddress \<longleftrightarrow>
     tag AND kTagValid \<noteq> 0 \<and> tag AND kTagPhysicalMask = physicalAddress AND kTagPhysicalMask"

definition invalidateAllBtac :: "ee_cache \<Rightarrow> ee_cache" where
  "invalidateAllBtac cache = cache\<lparr>ec_btac :=
     (\<lambda>i. (ec_btac cache i)\<lparr>bt_tagLo := bt_tagLo (ec_btac cache i) AND NOT 1\<rparr>)\<rparr>"

text \<open>The loops that invalidate the valid entries whose address agrees under a mask.\<close>

definition invalidateBtacUnder :: "u32 \<Rightarrow> u32 \<Rightarrow> ee_cache \<Rightarrow> ee_cache" where
  "invalidateBtacUnder m virtualAddress cache = cache\<lparr>ec_btac :=
     (\<lambda>i. let entry = ec_btac cache i
          in if bt_tagLo entry AND 1 \<noteq> 0 \<and> bt_tagLo entry AND m = virtualAddress AND m
             then entry\<lparr>bt_tagLo := bt_tagLo entry AND NOT 1\<rparr> else entry)\<rparr>"

definition invalidateBtacFetchLine :: "u32 \<Rightarrow> ee_cache \<Rightarrow> ee_cache" where
  "invalidateBtacFetchLine virtualAddress cache = invalidateBtacUnder 0xFFFFFFC0 virtualAddress cache"

definition setData :: "u32 \<Rightarrow> u32 \<Rightarrow> data_line \<Rightarrow> ee_cache \<Rightarrow> ee_cache" where
  "setData index way line cache =
     cache\<lparr>ec_data := (ec_data cache)(index := (ec_data cache index)(way := line))\<rparr>"

definition setInstruction :: "u32 \<Rightarrow> u32 \<Rightarrow> instruction_line \<Rightarrow> ee_cache \<Rightarrow> ee_cache" where
  "setInstruction index way line cache =
     cache\<lparr>ec_instruction := (ec_instruction cache)(index := (ec_instruction cache index)(way := line))\<rparr>"

section \<open>Memory traffic\<close>

record ('m, 'e) memory_calls =
  mc_translateAddress :: "u32 \<Rightarrow> 'm \<Rightarrow> ('e + u32) \<times> 'm"
  mc_read32 :: "u32 \<Rightarrow> 'm \<Rightarrow> ('e + u32) \<times> 'm"
  mc_write32 :: "u32 \<Rightarrow> u32 \<Rightarrow> u32 \<Rightarrow> 'm \<Rightarrow> ('e + unit) \<times> 'm"

definition lineOffsets :: "u32 list" where
  "lineOffsets = map (\<lambda>i. of_nat (4 * i)) [0..<16]"

primrec writeWords ::
  "('m, 'e) memory_calls \<Rightarrow> u32 \<Rightarrow> (u32 \<Rightarrow> u8) \<Rightarrow> u32 \<Rightarrow> u32 list \<Rightarrow> 'm \<Rightarrow> ('e + unit) \<times> 'm" where
  "writeWords calls physicalBase data writerPc [] memory = (Inr (), memory)"
| "writeWords calls physicalBase data writerPc (offset # offsets) memory =
     (case mc_write32 calls (physicalBase + offset) (loadWord data offset) writerPc memory of
        (Inl e, memory1) \<Rightarrow> (Inl e, memory1)
      | (Inr _, memory1) \<Rightarrow> writeWords calls physicalBase data writerPc offsets memory1)"

definition lineBase :: "u32 \<Rightarrow> u32 \<Rightarrow> u32" where
  "lineBase index tag = (tag AND kTagPhysicalMask) OR push_bit 6 (index AND (kDataSetCount - 1))"

text \<open>The outcome, the line afterwards and the memory.\<close>

definition writeBackDataLine ::
  "('m, 'e) memory_calls \<Rightarrow> u32 \<Rightarrow> data_line \<Rightarrow> u32 \<Rightarrow> 'm \<Rightarrow> ('e + unit) \<times> data_line \<times> 'm" where
  "writeBackDataLine calls index line writerPc memory =
     (if dl_tag line AND (kTagValid OR kTagDirty) \<noteq> kTagValid OR kTagDirty then (Inr (), line, memory)
      else case writeWords calls (lineBase index (dl_tag line)) (dl_data line) writerPc lineOffsets memory of
        (Inl e, memory1) \<Rightarrow> (Inl e, line, memory1)
      | (Inr _, memory1) \<Rightarrow> (Inr (), line\<lparr>dl_tag := dl_tag line AND NOT kTagDirty\<rparr>, memory1))"

text \<open>The loop of the instruction-line fill.\<close>

primrec readWords ::
  "('m, 'e) memory_calls \<Rightarrow> u32 \<Rightarrow> u32 list \<Rightarrow> (u32 \<Rightarrow> u8) \<Rightarrow> 'm \<Rightarrow> ('e + (u32 \<Rightarrow> u8)) \<times> 'm" where
  "readWords calls physicalBase [] refill memory = (Inr refill, memory)"
| "readWords calls physicalBase (offset # offsets) refill memory =
     (case mc_read32 calls (physicalBase + offset) memory of
        (Inl e, memory1) \<Rightarrow> (Inl e, memory1)
      | (Inr v, memory1) \<Rightarrow> readWords calls physicalBase offsets (storeWord refill offset v) memory1)"

text \<open>The loop over the two ways of the hit operations: the first matching way, if any.\<close>

definition hitWay :: "ee_cache \<Rightarrow> u32 \<Rightarrow> u32 \<Rightarrow> u32 option" where
  "hitWay cache index physicalAddress =
     find (\<lambda>way. tagMatchesPhysical (dl_tag (ec_data cache index way)) physicalAddress) [0, 1]"


section \<open>The CACHE instruction\<close>

record ('m, 'e) cache_result =
  cr_outcome :: "'e + bool"
  cr_cache :: ee_cache
  cr_tagLo :: u32
  cr_tagHi :: u32
  cr_memory :: 'm

definition completed :: "ee_cache \<Rightarrow> u32 \<Rightarrow> u32 \<Rightarrow> 'm \<Rightarrow> ('m, 'e) cache_result" where
  "completed cache tagLo tagHi memory =
     \<lparr>cr_outcome = Inr True, cr_cache = cache, cr_tagLo = tagLo, cr_tagHi = tagHi, cr_memory = memory\<rparr>"

definition raised :: "'e \<Rightarrow> ee_cache \<Rightarrow> u32 \<Rightarrow> u32 \<Rightarrow> 'm \<Rightarrow> ('m, 'e) cache_result" where
  "raised e cache tagLo tagHi memory =
     \<lparr>cr_outcome = Inl e, cr_cache = cache, cr_tagLo = tagLo, cr_tagHi = tagHi, cr_memory = memory\<rparr>"

definition iIndex :: "u32 \<Rightarrow> u32" where
  "iIndex virtualAddress = drop_bit 6 virtualAddress AND (kInstructionSetCount - 1)"

definition dIndex :: "u32 \<Rightarrow> u32" where
  "dIndex virtualAddress = drop_bit 6 virtualAddress AND (kDataSetCount - 1)"

definition bIndex :: "u32 \<Rightarrow> u32" where
  "bIndex virtualAddress = virtualAddress AND (kBtacEntryCount - 1)"

text \<open>Fill an instruction line from memory.\<close>

definition fillInstructionLine ::
  "('m, 'e) memory_calls \<Rightarrow> ee_cache \<Rightarrow> u32 \<Rightarrow> u32 \<Rightarrow> u32 \<Rightarrow> 'm \<Rightarrow> ('m, 'e) cache_result" where
  "fillInstructionLine calls cache virtualAddress tagLo tagHi memory =
     (case mc_translateAddress calls virtualAddress memory of
        (Inl e, memory1) \<Rightarrow> raised e cache tagLo tagHi memory1
      | (Inr physicalAddress, memory1) \<Rightarrow>
          (case readWords calls (physicalAddress AND NOT (kLineSize - 1)) lineOffsets (\<lambda>_. 0) memory1 of
             (Inl e, memory2) \<Rightarrow> raised e cache tagLo tagHi memory2
           | (Inr refill, memory2) \<Rightarrow>
               (let lines = ec_instruction cache (iIndex virtualAddress);
                    way = refillWay lines;
                    nextLrf = (il_tag (lines way) XOR kTagLrf) AND kTagLrf
                in completed (setInstruction (iIndex virtualAddress) way
                     \<lparr>il_tag = (physicalAddress AND kTagPhysicalMask) OR kTagValid OR nextLrf, il_data = refill,
                      il_metadata = (\<lambda>_. 0)\<rparr> cache) tagLo tagHi memory2)))"

text \<open>The hit operations on data: write the line back, invalidate it, or only clean it.\<close>

definition hitDataLine ::
  "('m, 'e) memory_calls \<Rightarrow> ee_cache \<Rightarrow> bool \<Rightarrow> bool \<Rightarrow> u32 \<Rightarrow> u32 \<Rightarrow> u32 \<Rightarrow> u32 \<Rightarrow> 'm \<Rightarrow> ('m, 'e) cache_result" where
  "hitDataLine calls cache writesBack keepsLine virtualAddress tagLo tagHi writerPc memory =
     (case mc_translateAddress calls virtualAddress memory of
        (Inl e, memory1) \<Rightarrow> raised e cache tagLo tagHi memory1
      | (Inr physicalAddress, memory1) \<Rightarrow>
          (let index = dIndex virtualAddress
           in case hitWay cache index physicalAddress of
                None \<Rightarrow> completed cache tagLo tagHi memory1
              | Some way \<Rightarrow>
                  (let line = ec_data cache index way
                   in case (if writesBack then writeBackDataLine calls index line writerPc memory1
                            else (Inr (), line, memory1)) of
                        (Inl e, line1, memory2) \<Rightarrow> raised e (setData index way line1 cache) tagLo tagHi memory2
                      | (Inr _, line1, memory2) \<Rightarrow>
                          completed (setData index way (line1\<lparr>dl_tag := dl_tag line1
                              AND NOT (if keepsLine then kTagDirty else kDataInvalidateMask)\<rparr>) cache)
                            tagLo tagHi memory2)))"

definition cache_execute ::
  "('m, 'e) memory_calls \<Rightarrow> ee_cache \<Rightarrow> u32 \<Rightarrow> u32 \<Rightarrow> u32 \<Rightarrow> u32 \<Rightarrow> u32 \<Rightarrow> 'm \<Rightarrow> ('m, 'e) cache_result" where
  "cache_execute calls cache operation virtualAddress tagLo tagHi writerPc memory =
     (let way = virtualAddress AND 1; wordOffset = virtualAddress AND 0x3C;
          i = iIndex virtualAddress; d = dIndex virtualAddress; b = bIndex virtualAddress;
          iline = ec_instruction cache i way; dline = ec_data cache d way; entry = ec_btac cache b;
          finish = (\<lambda>cache'. completed cache' tagLo tagHi memory)
      in case cacheOperation operation of
           None \<Rightarrow> \<lparr>cr_outcome = Inr False, cr_cache = cache, cr_tagLo = tagLo, cr_tagHi = tagHi, cr_memory = memory\<rparr>
         | Some operation' \<Rightarrow>
             (case operation' of
                Ixltg \<Rightarrow> completed cache (il_tag iline AND kInstructionTagMask) tagHi memory
              | Ixldt \<Rightarrow> completed cache (loadWord (il_data iline) wordOffset)
                          (ucast (il_metadata iline (drop_bit 2 wordOffset)) AND 0x3F) memory
              | Bxlbt \<Rightarrow> completed cache (bt_tagLo entry) (bt_tagHi entry) memory
              | Ixstg \<Rightarrow> finish (setInstruction i way (iline\<lparr>il_tag := tagLo AND kInstructionTagMask\<rparr>) cache)
              | Ixsdt \<Rightarrow> finish (invalidateAllBtac (setInstruction i way
                          (iline\<lparr>il_data := storeWord (il_data iline) wordOffset tagLo,
                             il_metadata := (il_metadata iline)(drop_bit 2 wordOffset := ucast (tagHi AND 0x3F))\<rparr>) cache))
              | Bxsbt \<Rightarrow> finish (cache\<lparr>ec_btac := (ec_btac cache)(b :=
                          \<lparr>bt_tagLo = tagLo AND 0xFFFFFFF9, bt_tagHi = tagHi AND 0xFFFFFFFC\<rparr>)\<rparr>)
              | Ixin \<Rightarrow> finish (setInstruction i way (iline\<lparr>il_tag := il_tag iline AND NOT kTagValid\<rparr>) cache)
              | Bhinbt \<Rightarrow> finish (invalidateBtacUnder 0xFFFFFFF8 virtualAddress cache)
              | Ihin \<Rightarrow>
                  (case mc_translateAddress calls virtualAddress memory of
                     (Inl e, memory1) \<Rightarrow> raised e cache tagLo tagHi memory1
                   | (Inr physicalAddress, memory1) \<Rightarrow>
                       (let drop = (\<lambda>line. if tagMatchesPhysical (il_tag line) physicalAddress
                              then line\<lparr>il_tag := il_tag line AND NOT kTagValid\<rparr> else line)
                        in completed (invalidateBtacFetchLine virtualAddress
                             (setInstruction i 1 (drop (ec_instruction cache i 1))
                                (setInstruction i 0 (drop (ec_instruction cache i 0)) cache))) tagLo tagHi memory1))
              | Bfh \<Rightarrow> finish (invalidateAllBtac cache)
              | Ifl \<Rightarrow> fillInstructionLine calls cache virtualAddress tagLo tagHi memory
              | Dxltg \<Rightarrow> completed cache (dl_tag dline AND kDataTagMask) tagHi memory
              | Dxldt \<Rightarrow> completed cache (loadWord (dl_data dline) wordOffset) tagHi memory
              | Dxstg \<Rightarrow> finish (setData d way (dline\<lparr>dl_tag := tagLo AND kDataTagMask\<rparr>) cache)
              | Dxsdt \<Rightarrow> finish (setData d way (dline\<lparr>dl_data := storeWord (dl_data dline) wordOffset tagLo\<rparr>) cache)
              | Dxwbin \<Rightarrow>
                  (case writeBackDataLine calls d dline writerPc memory of
                     (Inl e, line1, memory1) \<Rightarrow> raised e (setData d way line1 cache) tagLo tagHi memory1
                   | (Inr _, line1, memory1) \<Rightarrow>
                       completed (setData d way (line1\<lparr>dl_tag := dl_tag line1 AND NOT kDataInvalidateMask\<rparr>) cache)
                         tagLo tagHi memory1)
              | Dxin \<Rightarrow> finish (setData d way (dline\<lparr>dl_tag := dl_tag dline AND NOT kDataInvalidateMask\<rparr>) cache)
              | Dhwbin \<Rightarrow> hitDataLine calls cache True False virtualAddress tagLo tagHi writerPc memory
              | Dhin \<Rightarrow> hitDataLine calls cache False False virtualAddress tagLo tagHi writerPc memory
              | Dhwoin \<Rightarrow> hitDataLine calls cache True True virtualAddress tagLo tagHi writerPc memory))"

end
