(* ===== verification/ByteOrder.thy ===== *)
theory ByteOrder
  imports Prelude
begin

text \<open>
  Little-endian bytes of a machine word, shared by the memory accesses and the save-state format: the bytes of a
  word, the word of some bytes, and that each undoes the other.
\<close>

unbundle bit_operations_syntax

text \<open>\<open>std::memcpy\<close> of an integer, least significant byte first.\<close>

primrec toBytes :: "nat \<Rightarrow> 'a::len word \<Rightarrow> u8 list" where
  "toBytes 0 v = []"
| "toBytes (Suc n) v = ucast v # toBytes n (drop_bit 8 v)"

primrec ofBytes :: "u8 list \<Rightarrow> 'a::len word" where
  "ofBytes [] = 0"
| "ofBytes (b # bs) = ucast b OR push_bit 8 (ofBytes bs)"

section \<open>Bytes of a word\<close>

lemma length_toBytes [simp]: "length (toBytes n v) = n" by (induction n arbitrary: v) simp_all

lemma of_toBytes: "ofBytes (toBytes n v) = take_bit (8 * n) (v :: 'a::len word)"
proof (induction n arbitrary: v)
  case (Suc n)
  show ?case
    by (rule bit_word_eqI) (auto simp: Suc bit_simps)
qed simp

lemma of_toBytes_full: "LENGTH('a) \<le> 8 * n \<Longrightarrow> ofBytes (toBytes n v) = (v :: 'a::len word)"
  by (simp add: of_toBytes take_bit_word_eq_self)

text \<open>The bytes of a narrower copy are the first bytes.\<close>

lemma toBytes_ucast: "8 * n \<le> LENGTH('b) \<Longrightarrow> toBytes n (ucast (v :: 'a::len word) :: 'b::len word) = toBytes n v"
proof (induction n arbitrary: v)
  case (Suc n)
  have u: "ucast (ucast v :: 'b word) = (ucast v :: u8)"
    using Suc.prems by (intro bit_word_eqI) (auto simp: bit_simps)
  have d: "8 * n \<le> LENGTH('b)" using Suc.prems by simp
  have "drop_bit 8 (ucast v :: 'b word) = ucast (take_bit (LENGTH('b) - 8) (drop_bit 8 v))"
    using Suc.prems by (intro bit_word_eqI) (auto simp: bit_simps)
  then have "toBytes n (drop_bit 8 (ucast v :: 'b word)) = toBytes n (take_bit (LENGTH('b) - 8) (drop_bit 8 v))"
    using Suc.IH [OF d, of "take_bit (LENGTH('b) - 8) (drop_bit 8 v)"] by simp
  also have "\<dots> = toBytes n (drop_bit 8 v)"
  proof -
    have "8 * k \<le> m \<Longrightarrow> toBytes k (take_bit m w) = toBytes k w" for k m and w :: "'a word"
    proof (induction k arbitrary: m w)
      case (Suc k)
      have "ucast (take_bit m w) = (ucast w :: u8)" using Suc.prems by (intro bit_word_eqI) (auto simp: bit_simps)
      moreover have "drop_bit 8 (take_bit m w) = take_bit (m - 8) (drop_bit 8 w)"
        using Suc.prems by (intro bit_word_eqI) (auto simp: bit_simps)
      ultimately show ?case using Suc by simp
    qed simp
    then show ?thesis using Suc.prems by simp
  qed
  finally show ?case by (simp add: u)
qed simp

lemma bit_ofBytes:
  "bit (ofBytes bs :: 'a::len word) k \<longleftrightarrow> k < LENGTH('a) \<and> k < 8 * length bs \<and> bit (bs ! (k div 8)) (k mod 8)"
proof (induction bs arbitrary: k)
  case (Cons b bs)
  show ?case
  proof (cases "k < 8")
    case True
    then show ?thesis by (auto simp: bit_simps dest: bit_imp_le_length)
  next
    case False
    then obtain j where j: "k = 8 + j" using le_Suc_ex by (metis not_less)
    have "\<not> bit b k" using False by (auto dest: bit_imp_le_length)
    then show ?thesis by (auto simp: bit_simps Cons j)
  qed
qed simp

lemma ofBytes_widen:
  assumes "8 * length bs \<le> LENGTH('a)" "LENGTH('a) \<le> LENGTH('b)"
  shows "ucast (ofBytes bs :: 'a::len word) = (ofBytes bs :: 'b::len word)"
  using assms by (intro bit_word_eqI) (auto simp: bit_simps bit_ofBytes)

lemma toBytes_nth: "i < n \<Longrightarrow> toBytes n v ! i = ucast (drop_bit (8 * i) v)"
proof (induction n arbitrary: i v)
  case (Suc n)
  then show ?case by (cases i) (simp_all add: drop_bit_drop_bit add.commute)
qed simp

lemma to_ofBytes:
  assumes "length bs = n" "8 * n \<le> LENGTH('a)"
  shows "toBytes n (ofBytes bs :: 'a::len word) = bs"
proof (rule nth_equalityI)
  fix i
  assume "i < length (toBytes n (ofBytes bs :: 'a word))"
  then have i: "i < n" by simp
  have "bit (ucast (drop_bit (8 * i) (ofBytes bs :: 'a word)) :: u8) k = bit (bs ! i) k" if "k < 8" for k
    using i that assms by (simp add: bit_simps bit_ofBytes)
  then show "toBytes n (ofBytes bs :: 'a word) ! i = bs ! i"
    unfolding toBytes_nth [OF i] by (intro bit_word_eqI) simp
qed (simp add: assms)

end
