(* ===== verification/EeMemoryState.thy ===== *)
theory EeMemoryState
  imports ByteOrder EeTlb CodeRegions EeCounterBank
begin

text \<open>
  What \<open>PS2Memory\<close> (\<open>ps2xRuntime/src/lib/ps2_memory.cpp\<close>, \<open>ps2_memory.h\<close>) reads and writes for the EE: RDRAM,
  scratchpad, the VU memories, the GS privileged registers, the map of I/O registers, the TLB and the tracking
  of code. An access is a function from the state to a value or an exception and the state left behind. The
  devices behind the I/O registers, the FIFO of the IPU and the callbacks the runtime installs are arguments:
  functions on the whole state, which may throw.
\<close>

unbundle bit_operations_syntax

section \<open>Bytes\<close>

primrec storeBytes :: "nat \<Rightarrow> u8 list \<Rightarrow> (nat \<Rightarrow> u8) \<Rightarrow> (nat \<Rightarrow> u8)" where
  "storeBytes offset [] memory = memory"
| "storeBytes offset (b # bs) memory = storeBytes (Suc offset) bs (memory(offset := b))"

definition loadBytes :: "nat \<Rightarrow> nat \<Rightarrow> (nat \<Rightarrow> u8) \<Rightarrow> u8 list" where
  "loadBytes offset n memory = map memory [offset..<offset + n]"

section \<open>Byte enables\<close>

record byte_span =
  bs_offset :: nat
  bs_size :: nat

text \<open>An invalid span is \<open>None\<close>.\<close>

definition Ps2DecodeByteEnableSpan :: "u8 \<Rightarrow> nat \<Rightarrow> byte_span option" where
  "Ps2DecodeByteEnableSpan byteEnable widthBytes =
     (if widthBytes = 0 \<or> widthBytes > 8 then None
      else let allowed = push_bit widthBytes 1 - 1 :: u32; enable = ucast byteEnable :: u32
        in if enable AND NOT allowed \<noteq> 0 then None
           else if byteEnable = 0 then Some \<lparr>bs_offset = 0, bs_size = 0\<rparr>
           else (case (find (\<lambda>i. enable AND push_bit i 1 \<noteq> 0) [0..<widthBytes],
                       find (\<lambda>i. enable AND push_bit i 1 \<noteq> 0) (rev [0..<widthBytes])) of
                   (Some lowest, Some highest) \<Rightarrow>
                     (let contiguous = push_bit lowest (push_bit (highest - lowest + 1) 1 - 1)
                      in if enable \<noteq> contiguous then None
                         else Some \<lparr>bs_offset = lowest, bs_size = highest - lowest + 1\<rparr>)
                 | _ \<Rightarrow> None))"

definition Ps2ExpandByteEnableMask :: "u8 \<Rightarrow> nat \<Rightarrow> u64" where
  "Ps2ExpandByteEnableMask byteEnable widthBytes =
     (if widthBytes > 8 then 0
      else fold (\<lambda>index m. if (ucast byteEnable :: u32) AND push_bit index 1 \<noteq> 0 then m OR push_bit (index * 8) 0xFF else m)
             [0..<widthBytes] 0)"

section \<open>Privileged registers of the GS\<close>

datatype gs_register =
    Pmode | Smode1 | Smode2 | Srfsh | Synch1 | Synch2 | Syncv | Dispfb1 | Display1 | Dispfb2 | Display2
  | Extbuf | Extdata | Extwrite | Bgcolor | Imr | Busdir | Siglblid

record gs_registers =
  gs_reg :: "gs_register \<Rightarrow> u64"
  gs_csr :: u64

definition isGsPrivReg :: "u32 \<Rightarrow> bool" where
  "isGsPrivReg addr = Ps2AddressInRange addr PS2_GS_PRIV_REG_BASE PS2_GS_PRIV_REG_SIZE"

definition isIoRegister :: "u32 \<Rightarrow> bool" where
  "isIoRegister addr = Ps2AddressInRange addr PS2_IO_BASE PS2_IO_SIZE"

definition gsRegOffset :: "u32 \<Rightarrow> u32" where
  "gsRegOffset addr = (addr - PS2_GS_PRIV_REG_BASE) AND NOT 7"

definition kGsCsrRegOffset :: u32 where "kGsCsrRegOffset = 0x1000"

text \<open>The register a pointer names.\<close>

definition gsRegPtr :: "u32 \<Rightarrow> gs_register option" where
  "gsRegPtr addr = map_of
     [(0x0000, Pmode), (0x0010, Smode1), (0x0020, Smode2), (0x0030, Srfsh), (0x0040, Synch1), (0x0050, Synch2),
      (0x0060, Syncv), (0x0070, Dispfb1), (0x0080, Display1), (0x0090, Dispfb2), (0x00A0, Display2), (0x00B0, Extbuf),
      (0x00C0, Extdata), (0x00D0, Extwrite), (0x00E0, Bgcolor), (0x1010, Imr), (0x1040, Busdir), (0x1080, Siglblid)]
     (gsRegOffset addr)"

definition writeCsrHalf :: "u32 \<Rightarrow> u32 \<Rightarrow> u32 \<Rightarrow> u64 \<Rightarrow> u64" where
  "writeCsrHalf off v writeMask csr =
     (if off = 0 then
        let oldLow = ucast csr :: u32; ordinaryMask = writeMask AND NOT 3;
            mergedLow = (oldLow AND NOT ordinaryMask) OR (v AND ordinaryMask)
        in ((csr AND 0xFFFFFFFF00000000) OR ucast mergedLow) AND NOT (ucast (v AND writeMask AND 3))
      else let m = push_bit (unat (off * 8)) (ucast writeMask) :: u64
        in (csr AND NOT m) OR (push_bit (unat (off * 8)) (ucast v) AND m))"

definition writeCsrFull :: "u64 \<Rightarrow> u64 \<Rightarrow> u64 \<Rightarrow> u64" where
  "writeCsrFull v writeMask csr =
     (let ordinaryMask = writeMask AND NOT 3
      in ((csr AND NOT ordinaryMask) OR (v AND ordinaryMask)) AND NOT (v AND writeMask AND 3))"

section \<open>State\<close>

datatype vu_memory = Vu0Code | Vu0Data | Vu1Code | Vu1Data

datatype memory_error =
    TranslationFault translation_error
  | BusError u32
  | Unaligned u32
  | OutOfBounds u32
  | InvalidByteEnables
  | DeviceFailure string

record ee_memory =
  em_rdram :: "nat \<Rightarrow> u8"
  em_scratchpad :: "nat \<Rightarrow> u8"
  em_vu :: "vu_memory \<Rightarrow> (nat \<Rightarrow> u8) option"
  em_gs :: gs_registers
  em_gsWriteCount :: u64
  em_vu0CodeGeneration :: u64
  em_vu1CodeGeneration :: u64
  em_ioRegisters :: "u32 \<rightharpoonup> u32"
  em_tlb :: tlb_state
  em_code :: code_state

type_synonym ('s, 'a) access = "'s \<Rightarrow> (memory_error + 'a) \<times> 's"

definition returning :: "'a \<Rightarrow> ('s, 'a) access" where "returning v s = (Inr v, s)"

definition throwing :: "memory_error \<Rightarrow> ('s, 'a) access" where "throwing e s = (Inl e, s)"

definition andThen :: "('s, 'a) access \<Rightarrow> ('a \<Rightarrow> ('s, 'b) access) \<Rightarrow> ('s, 'b) access" where
  "andThen first rest s = (case first s of (Inl e, s1) \<Rightarrow> (Inl e, s1) | (Inr v, s1) \<Rightarrow> rest v s1)"

text \<open>The arguments: observation of a privileged register and of the memories of VU1, the owner of VU1 (whether
  its callback is installed, and the commands that write its memories), I/O registers and the FIFO of the IPU.\<close>

record 's device_calls =
  dv_gsObservation :: "u32 \<Rightarrow> bool \<Rightarrow> ('s, unit) access"
  dv_observeVu1Memory :: "('s, unit) access"
  dv_vu1CommandCallback :: "'s \<Rightarrow> bool"
  dv_submitVu1Write :: "vu_memory \<Rightarrow> u32 \<Rightarrow> u8 list \<Rightarrow> bool \<Rightarrow> ('s, bool) access"
  dv_readIORegister :: "u32 \<Rightarrow> ('s, u32) access"
  dv_writeIORegisterMasked :: "u32 \<Rightarrow> u32 \<Rightarrow> u8 \<Rightarrow> ('s, unit) access"
  dv_readIpuOutputFifo :: "('s, u8 list) access"
  dv_writeIpuInputFifo :: "u8 list \<Rightarrow> ('s, unit) access"

section \<open>VU memories\<close>

definition PS2_VU0_CODE_BASE :: u32 where "PS2_VU0_CODE_BASE = 0x11000000"
definition PS2_VU0_CODE_SIZE :: u32 where "PS2_VU0_CODE_SIZE = 0x1000"
definition PS2_VU0_DATA_SIZE :: u32 where "PS2_VU0_DATA_SIZE = 0x1000"
definition PS2_VU1_DATA_BASE :: u32 where "PS2_VU1_DATA_BASE = 0x1100C000"
definition PS2_VU1_DATA_SIZE :: u32 where "PS2_VU1_DATA_SIZE = 0x4000"

definition mapRange ::
  "u32 \<Rightarrow> u32 \<Rightarrow> u32 \<Rightarrow> u32 \<Rightarrow> vu_memory \<Rightarrow> ee_memory \<Rightarrow> (vu_memory \<times> u32 \<times> u32) option" where
  "mapRange physAddr sz base rangeSize vu s =
     (if em_vu s vu = None \<or> physAddr < base then None
      else let local = physAddr - base
        in if local \<ge> rangeSize \<or> sz > rangeSize - local then None else Some (vu, local, rangeSize))"

definition mapVuMemory :: "u32 \<Rightarrow> u32 \<Rightarrow> ee_memory \<Rightarrow> (vu_memory \<times> u32 \<times> u32) option" where
  "mapVuMemory physAddr sz s =
     (case mapRange physAddr sz PS2_VU0_CODE_BASE PS2_VU0_CODE_SIZE Vu0Code s of
        Some found \<Rightarrow> Some found
      | None \<Rightarrow> (case mapRange physAddr sz PS2_VU0_DATA_BASE PS2_VU0_DATA_SIZE Vu0Data s of
        Some found \<Rightarrow> Some found
      | None \<Rightarrow> (case mapRange physAddr sz PS2_VU1_CODE_BASE PS2_VU1_CODE_SIZE Vu1Code s of
        Some found \<Rightarrow> Some found
      | None \<Rightarrow> mapRange physAddr sz PS2_VU1_DATA_BASE PS2_VU1_DATA_SIZE Vu1Data s)))"

definition vuBytes :: "vu_memory \<Rightarrow> ee_memory \<Rightarrow> nat \<Rightarrow> u8" where
  "vuBytes vu s = (case em_vu s vu of None \<Rightarrow> (\<lambda>_. 0) | Some bytes \<Rightarrow> bytes)"

definition storeVu :: "vu_memory \<Rightarrow> nat \<Rightarrow> u8 list \<Rightarrow> ee_memory \<Rightarrow> ee_memory" where
  "storeVu vu offset bytes s = s\<lparr>em_vu := (em_vu s)(vu := map_option (storeBytes offset bytes) (em_vu s vu))\<rparr>"

definition isVu1Memory :: "u32 \<Rightarrow> bool" where
  "isVu1Memory physAddr \<longleftrightarrow>
     (physAddr \<ge> PS2_VU1_CODE_BASE \<and> physAddr < PS2_VU1_CODE_BASE + PS2_VU1_CODE_SIZE)
     \<or> (physAddr \<ge> PS2_VU1_DATA_BASE \<and> physAddr < PS2_VU1_DATA_BASE + PS2_VU1_DATA_SIZE)"

text \<open>A write goes to the owner of VU1, if there is one, and to the mirror; \<open>False\<close> means it was not submitted.\<close>

definition writeVu1OwnerMemory ::
  "ee_memory device_calls \<Rightarrow> vu_memory \<Rightarrow> u32 \<Rightarrow> u8 list \<Rightarrow> bool \<Rightarrow> (ee_memory, bool) access" where
  "writeVu1OwnerMemory calls vu offset bytes wrap s =
     (if \<not> dv_vu1CommandCallback calls s \<or> bytes = [] then (Inr False, s)
      else if vu \<noteq> Vu1Code \<and> vu \<noteq> Vu1Data then (Inr False, s)
      else andThen (dv_submitVu1Write calls vu offset bytes wrap)
             (\<lambda>submitted s1.
               if \<not> submitted then (Inr False, s1)
               else if \<not> wrap then (Inr True, storeVu vu (unat offset) bytes s1)
               else let memorySize = (if vu = Vu1Code then PS2_VU1_CODE_SIZE else PS2_VU1_DATA_SIZE);
                        firstSize = min (length bytes) (unat (memorySize - offset))
                 in (Inr True, storeVu vu 0 (drop firstSize bytes) (storeVu vu (unat offset) (take firstSize bytes) s1))) s)"

definition markVU1CodeModified :: "ee_memory device_calls \<Rightarrow> (ee_memory, unit) access" where
  "markVU1CodeModified calls s =
     (let bump = (\<lambda>s. s\<lparr>em_vu1CodeGeneration := em_vu1CodeGeneration s + 1\<rparr>)
      in case em_vu s Vu1Code of
           Some bytes \<Rightarrow>
             if dv_vu1CommandCallback calls s
             then andThen (writeVu1OwnerMemory calls Vu1Code 0 (loadBytes 0 (unat PS2_VU1_CODE_SIZE) bytes) False)
                    (\<lambda>owned s1. (Inr (), if owned then s1 else bump s1)) s
             else (Inr (), bump s)
         | None \<Rightarrow> (Inr (), bump s))"

definition markVUCodeModified :: "ee_memory device_calls \<Rightarrow> vu_memory \<Rightarrow> (ee_memory, unit) access" where
  "markVUCodeModified calls vu s =
     (case vu of
        Vu0Code \<Rightarrow> (Inr (), s\<lparr>em_vu0CodeGeneration := em_vu0CodeGeneration s + 1\<rparr>)
      | Vu1Code \<Rightarrow> markVU1CodeModified calls s
      | _ \<Rightarrow> (Inr (), s))"

end
