(* ===== verification/EeMemory.thy ===== *)
theory EeMemory
  imports EeMemoryState
begin

text \<open>
  The accesses of \<open>PS2Memory\<close>: \<open>read8\<close> to \<open>read128\<close>, \<open>write8\<close> to \<open>write128\<close> and the masked writes, in
  \<open>ps2xRuntime/src/lib/ps2_memory.cpp\<close>. A 128-bit value (\<open>__m128i\<close>) is a word of 128 bits.
\<close>

unbundle bit_operations_syntax

section \<open>Shared steps\<close>

text \<open>Translate the address and check the physical one.\<close>

definition translateFor :: "u32 \<Rightarrow> translation_context \<Rightarrow> bool \<Rightarrow> u32 \<Rightarrow> (ee_memory, translated) access" where
  "translateFor address c writeAccess accessSize s =
     (case translateAddressImpl address c writeAccess accessSize True (em_tlb s) of
        (Inl e, tlb) \<Rightarrow> (Inl (TranslationFault e), s\<lparr>em_tlb := tlb\<rparr>)
      | (Inr ta, tlb) \<Rightarrow>
          (if Ps2IsEeBusErrorPhysicalAddress (ta_physicalAddress ta)
           then (Inl (BusError (ta_physicalAddress ta)), s\<lparr>em_tlb := tlb\<rparr>)
           else (Inr ta, s\<lparr>em_tlb := tlb\<rparr>)))"

definition inRange :: "u32 \<Rightarrow> nat \<Rightarrow> u32 \<Rightarrow> u32 \<Rightarrow> (ee_memory, unit) access" where
  "inRange offset bytes regionSize address =
     (if unat offset + bytes > unat regionSize then throwing (OutOfBounds address) else returning ())"

definition loadScalar :: "nat \<Rightarrow> (ee_memory \<Rightarrow> nat \<Rightarrow> u8) \<Rightarrow> u32 \<Rightarrow> u32 \<Rightarrow> u32 \<Rightarrow> (ee_memory, 'a::len word) access" where
  "loadScalar n base offset regionSize address =
     andThen (inRange offset n regionSize address)
       (\<lambda>_ s. (Inr (ofBytes (loadBytes (unat offset) n (base s))), s))"

definition storeScratchpad :: "u32 \<Rightarrow> u8 list \<Rightarrow> ee_memory \<Rightarrow> ee_memory" where
  "storeScratchpad offset bytes s = s\<lparr>em_scratchpad := storeBytes (unat offset) bytes (em_scratchpad s)\<rparr>"

definition storeRdram :: "u32 \<Rightarrow> u8 list \<Rightarrow> ee_memory \<Rightarrow> ee_memory" where
  "storeRdram offset bytes s = s\<lparr>em_rdram := storeBytes (unat offset) bytes (em_rdram s)\<rparr>"

definition storeScalar :: "(u32 \<Rightarrow> u8 list \<Rightarrow> ee_memory \<Rightarrow> ee_memory) \<Rightarrow> u32 \<Rightarrow> u32 \<Rightarrow> u8 list \<Rightarrow> u32 \<Rightarrow> (ee_memory, unit) access" where
  "storeScalar target offset regionSize bytes address =
     andThen (inRange offset (length bytes) regionSize address) (\<lambda>_ s. (Inr (), target offset bytes s))"

definition observed :: "u32 \<Rightarrow> u32 \<Rightarrow> u32 \<Rightarrow> ee_memory \<Rightarrow> ee_memory" where
  "observed physAddr sz writerPc s = s\<lparr>em_code := observeRdramWrite physAddr sz writerPc (em_code s)\<rparr>"

text \<open>What the reads share: scratchpad, RDRAM, the VU memories, then the rest. For one byte the range checks,
  which \<open>read8\<close> does not make, cannot fail.\<close>

definition readMapped ::
  "ee_memory device_calls \<Rightarrow> nat \<Rightarrow> translated \<Rightarrow> u32 \<Rightarrow> (ee_memory, 'a::len word) access \<Rightarrow> (ee_memory, 'a word) access" where
  "readMapped calls n ta address rest =
     (let physAddr = ta_physicalAddress ta
      in if ta_scratchpad ta then loadScalar n em_scratchpad physAddr PS2_SCRATCHPAD_SIZE address
         else if physAddr < PS2_RAM_SIZE then loadScalar n em_rdram physAddr PS2_RAM_SIZE address
         else andThen (if isVu1Memory physAddr then dv_observeVu1Memory calls else returning ())
           (\<lambda>_ s. case mapVuMemory physAddr (of_nat n) s of
              Some (vu, offset, limit) \<Rightarrow> loadScalar n (vuBytes vu) offset limit address s
            | None \<Rightarrow> rest s))"

text \<open>What the writes share; \<open>True\<close> if the write ended in a VU memory.\<close>

definition writeMapped ::
  "ee_memory device_calls \<Rightarrow> u8 list \<Rightarrow> translated \<Rightarrow> u32 \<Rightarrow> u32 \<Rightarrow> (ee_memory, bool) access" where
  "writeMapped calls bytes ta address writerPc =
     (let physAddr = ta_physicalAddress ta
      in if ta_scratchpad ta then
           andThen (storeScalar storeScratchpad physAddr PS2_SCRATCHPAD_SIZE bytes address) (\<lambda>_. returning False)
         else if physAddr < PS2_RAM_SIZE then
           (\<lambda>s. andThen (storeScalar storeRdram physAddr PS2_RAM_SIZE bytes address) (\<lambda>_. returning False)
                  (observed physAddr (of_nat (length bytes)) writerPc s))
         else (\<lambda>s. case mapVuMemory physAddr (of_nat (length bytes)) s of
             None \<Rightarrow> (Inr False, s)
           | Some (vu, offset, limit) \<Rightarrow>
               andThen (writeVu1OwnerMemory calls vu offset bytes False)
                 (\<lambda>owned. if owned then returning True
                    else andThen (storeScalar (\<lambda>offset. storeVu vu (unat offset)) offset limit bytes address)
                      (\<lambda>_. andThen (markVUCodeModified calls vu) (\<lambda>_. returning True))) s))"

section \<open>Reads\<close>

definition ioLane :: "ee_memory device_calls \<Rightarrow> u32 \<Rightarrow> u32 \<Rightarrow> (ee_memory, 'a::len word) access" where
  "ioLane calls physAddr laneMask =
     andThen (dv_readIORegister calls (physAddr AND NOT 3))
       (\<lambda>v. returning (ucast (drop_bit (unat ((physAddr AND laneMask) * 8)) v)))"

definition read8 :: "ee_memory device_calls \<Rightarrow> u32 \<Rightarrow> translation_context \<Rightarrow> (ee_memory, u8) access" where
  "read8 calls address c =
     andThen (translateFor address c False 1) (\<lambda>ta.
       readMapped calls 1 ta address
         (if isIoRegister (ta_physicalAddress ta) then ioLane calls (ta_physicalAddress ta) 3 else returning 0))"

definition read16 :: "ee_memory device_calls \<Rightarrow> u32 \<Rightarrow> translation_context \<Rightarrow> (ee_memory, u16) access" where
  "read16 calls address c =
     (if address AND 1 \<noteq> 0 then throwing (Unaligned address)
      else andThen (translateFor address c False 2) (\<lambda>ta.
        readMapped calls 2 ta address
          (if isIoRegister (ta_physicalAddress ta) then ioLane calls (ta_physicalAddress ta) 2 else returning 0)))"

text \<open>A privileged register of the GS, chosen by the virtual address.\<close>

definition gsValue :: "u32 \<Rightarrow> ee_memory \<Rightarrow> u64" where
  "gsValue address s =
     (if gsRegOffset address = kGsCsrRegOffset then gs_csr (em_gs s)
      else case gsRegPtr address of None \<Rightarrow> 0 | Some reg \<Rightarrow> gs_reg (em_gs s) reg)"

definition read32 :: "ee_memory device_calls \<Rightarrow> u32 \<Rightarrow> translation_context \<Rightarrow> (ee_memory, u32) access" where
  "read32 calls address c =
     (if address AND 3 \<noteq> 0 then throwing (Unaligned address)
      else if isGsPrivReg address then
        andThen (dv_gsObservation calls address False)
          (\<lambda>_ s. (Inr (ucast (drop_bit (unat ((address AND 7) * 8)) (gsValue address s))), s))
      else andThen (translateFor address c False 4) (\<lambda>ta.
        readMapped calls 4 ta address
          (if isIoRegister (ta_physicalAddress ta) then dv_readIORegister calls (ta_physicalAddress ta) else returning 0)))"

definition ioHalf :: "ee_memory device_calls \<Rightarrow> bool \<Rightarrow> u32 \<Rightarrow> (ee_memory, u32) access" where
  "ioHalf calls counterAccess address =
     (if counterAccess then dv_readIORegister calls address
      else (\<lambda>s. (Inr (case em_ioRegisters s address of None \<Rightarrow> 0 | Some v \<Rightarrow> v), s)))"

definition joinHalves :: "u32 \<Rightarrow> u32 \<Rightarrow> u64" where
  "joinHalves lo hi = ucast lo OR push_bit 32 (ucast hi)"

definition read64 :: "ee_memory device_calls \<Rightarrow> u32 \<Rightarrow> translation_context \<Rightarrow> (ee_memory, u64) access" where
  "read64 calls address c =
     (if address AND 7 \<noteq> 0 then throwing (Unaligned address)
      else if isGsPrivReg address then
        andThen (dv_gsObservation calls address False) (\<lambda>_ s. (Inr (gsValue address s), s))
      else andThen (translateFor address c False 8) (\<lambda>ta.
        readMapped calls 8 ta address
          (if isIoRegister address then
             let counterAccess = isRegisterAddress address \<or> isRegisterAddress (address + 4)
             in andThen (ioHalf calls counterAccess address) (\<lambda>lo.
                  andThen (ioHalf calls counterAccess (address + 4)) (\<lambda>hi. returning (joinHalves lo hi)))
           else andThen (read32 calls address c) (\<lambda>lo.
                  andThen (read32 calls (address + 4) c) (\<lambda>hi. returning (joinHalves lo hi))))))"

definition read128 :: "ee_memory device_calls \<Rightarrow> u32 \<Rightarrow> translation_context \<Rightarrow> (ee_memory, 128 word) access" where
  "read128 calls address c =
     (if address AND 15 \<noteq> 0 then throwing (Unaligned address)
      else andThen (translateFor address c False 16) (\<lambda>ta.
        if ta_physicalAddress ta = 0x10007000 then
          andThen (dv_readIpuOutputFifo calls) (\<lambda>payload. returning (ofBytes payload))
        else readMapped calls 16 ta address (returning 0)))"

section \<open>Masked writes\<close>

definition mergeGs :: "u64 \<Rightarrow> u64 \<Rightarrow> u64 \<Rightarrow> u64" where
  "mergeGs old m v = (old AND NOT m) OR (v AND m)"

definition updateGs :: "u32 \<Rightarrow> (u64 \<Rightarrow> u64) \<Rightarrow> (u64 \<Rightarrow> u64) \<Rightarrow> ee_memory \<Rightarrow> ee_memory" where
  "updateGs address csr plain s =
     (if gsRegOffset address = kGsCsrRegOffset then s\<lparr>em_gs := (em_gs s)\<lparr>gs_csr := csr (gs_csr (em_gs s))\<rparr>\<rparr>
      else case gsRegPtr address of None \<Rightarrow> s
        | Some reg \<Rightarrow> s\<lparr>em_gs := (em_gs s)\<lparr>gs_reg := (gs_reg (em_gs s))(reg := plain (gs_reg (em_gs s) reg))\<rparr>\<rparr>)"

text \<open>The bytes of the span, and where they go: scratchpad, RDRAM, a VU memory or the I/O registers.\<close>

definition writeMaskedMapped ::
  "ee_memory device_calls \<Rightarrow> nat \<Rightarrow> byte_span \<Rightarrow> u8 list \<Rightarrow> translated \<Rightarrow> u32 \<Rightarrow> u32 \<Rightarrow> (ee_memory, unit) access
   \<Rightarrow> (ee_memory, unit) access" where
  "writeMaskedMapped calls width byteSpan bytes ta address writerPc io =
     (let physAddr = ta_physicalAddress ta;
          spanBytes = take (bs_size byteSpan) (drop (bs_offset byteSpan) bytes);
          spanAt = (\<lambda>offset. offset + of_nat (bs_offset byteSpan))
      in if ta_scratchpad ta then
           andThen (inRange physAddr width PS2_SCRATCHPAD_SIZE address)
             (\<lambda>_ s. (Inr (), storeScratchpad (spanAt physAddr) spanBytes s))
         else if physAddr < PS2_RAM_SIZE then
           andThen (inRange physAddr width PS2_RAM_SIZE address)
             (\<lambda>_ s. (Inr (), storeRdram (spanAt physAddr) spanBytes
                       (observed (spanAt physAddr) (of_nat (bs_size byteSpan)) writerPc s)))
         else (\<lambda>s. case mapVuMemory physAddr (of_nat width) s of
             None \<Rightarrow> (if isIoRegister physAddr then io s else (Inr (), s))
           | Some (vu, offset, limit) \<Rightarrow>
               andThen (inRange offset width limit address)
                 (\<lambda>_. andThen (writeVu1OwnerMemory calls vu (spanAt offset) spanBytes False)
                    (\<lambda>owned. if owned then returning ()
                       else andThen (\<lambda>s. (Inr (), storeVu vu (unat (spanAt offset)) spanBytes s))
                              (\<lambda>_. markVUCodeModified calls vu))) s))"

definition writeMasked32 ::
  "ee_memory device_calls \<Rightarrow> u32 \<Rightarrow> u32 \<Rightarrow> u8 \<Rightarrow> u32 \<Rightarrow> translation_context \<Rightarrow> (ee_memory, unit) access" where
  "writeMasked32 calls address v byteEnable writerPc c =
     (if address AND 3 \<noteq> 0 then throwing (Unaligned address)
      else case Ps2DecodeByteEnableSpan byteEnable 4 of
        None \<Rightarrow> throwing InvalidByteEnables
      | Some byteSpan \<Rightarrow>
          if bs_size byteSpan = 0 then returning ()
          else let writeMask = ucast (Ps2ExpandByteEnableMask byteEnable 4) :: u32
            in if isGsPrivReg address then
                 andThen (dv_gsObservation calls address True) (\<lambda>_ s.
                   let off = address AND 7; up = (\<lambda>w. push_bit (unat (off * 8)) (ucast (w :: u32)) :: u64);
                       s1 = updateGs address (writeCsrHalf off v writeMask) (\<lambda>old. mergeGs old (up writeMask) (up v)) s
                   in (Inr (), s1\<lparr>em_gsWriteCount := em_gsWriteCount s1 + 1\<rparr>))
               else andThen (translateFor address c True 4) (\<lambda>ta.
                 writeMaskedMapped calls 4 byteSpan (toBytes 4 v) ta address writerPc
                   (dv_writeIORegisterMasked calls (ta_physicalAddress ta) v byteEnable)))"

definition writeMasked64 ::
  "ee_memory device_calls \<Rightarrow> u32 \<Rightarrow> u64 \<Rightarrow> u8 \<Rightarrow> u32 \<Rightarrow> translation_context \<Rightarrow> (ee_memory, unit) access" where
  "writeMasked64 calls address v byteEnable writerPc c =
     (if address AND 7 \<noteq> 0 then throwing (Unaligned address)
      else case Ps2DecodeByteEnableSpan byteEnable 8 of
        None \<Rightarrow> throwing InvalidByteEnables
      | Some byteSpan \<Rightarrow>
          if bs_size byteSpan = 0 then returning ()
          else let writeMask = Ps2ExpandByteEnableMask byteEnable 8
            in if isGsPrivReg address then
                 andThen (dv_gsObservation calls address True) (\<lambda>_ s.
                   let s1 = updateGs address (writeCsrFull v writeMask) (\<lambda>old. mergeGs old writeMask v) s
                   in (Inr (), s1\<lparr>em_gsWriteCount := em_gsWriteCount s1 + 1\<rparr>))
               else andThen (translateFor address c True 8) (\<lambda>ta.
                 writeMaskedMapped calls 8 byteSpan (toBytes 8 v) ta address writerPc
                   (let lowEnable = byteEnable AND 0xF; highEnable = drop_bit 4 byteEnable AND 0xF
                    in andThen (if lowEnable \<noteq> 0
                          then dv_writeIORegisterMasked calls (ta_physicalAddress ta) (ucast v) lowEnable else returning ())
                        (\<lambda>_. if highEnable \<noteq> 0
                          then dv_writeIORegisterMasked calls (ta_physicalAddress ta + 4) (ucast (drop_bit 32 v)) highEnable
                          else returning ()))))"

section \<open>Writes\<close>

definition write8 ::
  "ee_memory device_calls \<Rightarrow> u32 \<Rightarrow> u8 \<Rightarrow> u32 \<Rightarrow> translation_context \<Rightarrow> (ee_memory, unit) access" where
  "write8 calls address v writerPc c =
     andThen (translateFor address c True 1) (\<lambda>ta.
       let physAddr = ta_physicalAddress ta; lane = physAddr AND 3
       in if isGsPrivReg physAddr then
            writeMasked32 calls (physAddr AND NOT 3) (push_bit (unat (lane * 8)) (ucast v)) (push_bit (unat lane) 1)
              writerPc unchecked_context
          else andThen (writeMapped calls (toBytes 1 v) ta address writerPc) (\<lambda>stop.
            if stop then returning ()
            else if isIoRegister physAddr then
              dv_writeIORegisterMasked calls (physAddr AND NOT 3) (push_bit (unat (lane * 8)) (ucast v)) (push_bit (unat lane) 1)
            else returning ()))"

definition write16 ::
  "ee_memory device_calls \<Rightarrow> u32 \<Rightarrow> u16 \<Rightarrow> u32 \<Rightarrow> translation_context \<Rightarrow> (ee_memory, unit) access" where
  "write16 calls address v writerPc c =
     (if address AND 1 \<noteq> 0 then throwing (Unaligned address)
      else andThen (translateFor address c True 2) (\<lambda>ta.
        let physAddr = ta_physicalAddress ta; lane = physAddr AND 2
        in if isGsPrivReg physAddr then
             writeMasked32 calls (physAddr AND NOT 3) (push_bit (unat (lane * 8)) (ucast v)) (push_bit (unat lane) 3)
               writerPc unchecked_context
           else andThen (writeMapped calls (toBytes 2 v) ta address writerPc) (\<lambda>stop.
             if stop then returning ()
             else if isIoRegister physAddr then
               dv_writeIORegisterMasked calls (physAddr AND NOT 3) (push_bit (unat (lane * 8)) (ucast v)) (push_bit (unat lane) 3)
             else returning ())))"

definition write32 ::
  "ee_memory device_calls \<Rightarrow> u32 \<Rightarrow> u32 \<Rightarrow> u32 \<Rightarrow> translation_context \<Rightarrow> (ee_memory, unit) access" where
  "write32 calls address v writerPc c =
     (if address AND 3 \<noteq> 0 then throwing (Unaligned address)
      else if isGsPrivReg address then
        andThen (dv_gsObservation calls address True) (\<lambda>_ s.
          let off = address AND 7; up = (\<lambda>w. push_bit (unat (off * 8)) (ucast (w :: u32)) :: u64)
          in (Inr (), updateGs address (writeCsrHalf off v 0xFFFFFFFF)
                (\<lambda>old. (old AND NOT (up 0xFFFFFFFF)) OR up v) s))
      else andThen (translateFor address c True 4) (\<lambda>ta.
        andThen (writeMapped calls (toBytes 4 v) ta address writerPc) (\<lambda>stop.
          if stop then returning ()
          else if isIoRegister (ta_physicalAddress ta) then dv_writeIORegisterMasked calls (ta_physicalAddress ta) v 0xF
          else returning ())))"

definition write64 ::
  "ee_memory device_calls \<Rightarrow> u32 \<Rightarrow> u64 \<Rightarrow> u32 \<Rightarrow> translation_context \<Rightarrow> (ee_memory, unit) access" where
  "write64 calls address v writerPc c =
     (if address AND 7 \<noteq> 0 then throwing (Unaligned address)
      else if isGsPrivReg address then
        andThen (dv_gsObservation calls address True) (\<lambda>_ s.
          (Inr (), updateGs address (writeCsrFull v 0xFFFFFFFFFFFFFFFF) (\<lambda>_. v) s))
      else andThen (translateFor address c True 8) (\<lambda>ta.
        andThen (writeMapped calls (toBytes 8 v) ta address writerPc) (\<lambda>stop.
          if stop then returning ()
          else if isIoRegister (ta_physicalAddress ta) then
            andThen (write32 calls address (ucast v) writerPc c)
              (\<lambda>_. write32 calls (address + 4) (ucast (drop_bit 32 v)) writerPc c)
          else returning ())))"

text \<open>The 128-bit write to a VU memory checks the range before it asks the owner; the mapping already fits.\<close>

definition write128 ::
  "ee_memory device_calls \<Rightarrow> u32 \<Rightarrow> 128 word \<Rightarrow> u32 \<Rightarrow> translation_context \<Rightarrow> (ee_memory, unit) access" where
  "write128 calls address v writerPc c =
     (if address AND 15 \<noteq> 0 then throwing (Unaligned address)
      else andThen (translateFor address c True 16) (\<lambda>ta.
        if ta_physicalAddress ta = 0x10007010 then dv_writeIpuInputFifo calls (toBytes 16 v)
        else andThen (writeMapped calls (toBytes 16 v) ta address writerPc) (\<lambda>stop.
          if stop then returning ()
          else if isIoRegister (ta_physicalAddress ta) then
            andThen (write64 calls address (ucast v) writerPc c)
              (\<lambda>_. write64 calls (address + 8) (ucast (drop_bit 64 v)) writerPc c)
          else returning ())))"

end
