(* ===== verification/EeMemoryFacts.thy ===== *)
theory EeMemoryFacts
  imports EeMemory EeTlbProps
begin

text \<open>
  Bytes stored and loaded, and the accesses that reach the RDRAM or the scratchpad seen as accesses to a map from
  locations to bytes.
\<close>

unbundle bit_operations_syntax

section \<open>Bytes in memory\<close>

lemma storeBytes_at:
  "storeBytes offset bs m i = (if offset \<le> i \<and> i < offset + length bs then bs ! (i - offset) else m i)"
  by (induction bs arbitrary: offset m) (auto simp: nth_Cons')

lemma loadBytes_nth: "k < n \<Longrightarrow> loadBytes offset n m ! k = m (offset + k)" by (simp add: loadBytes_def)
lemma length_loadBytes [simp]: "length (loadBytes offset n m) = n" by (simp add: loadBytes_def)

section \<open>Locations\<close>

datatype location = Rdram nat | Scratchpad nat

definition byteAt :: "ee_memory \<Rightarrow> location \<Rightarrow> u8" where
  "byteAt s l = (case l of Rdram i \<Rightarrow> em_rdram s i | Scratchpad i \<Rightarrow> em_scratchpad s i)"

definition located :: "translated \<Rightarrow> nat \<Rightarrow> location" where
  "located ta i = (if ta_scratchpad ta then Scratchpad (unat (ta_physicalAddress ta) + i)
     else Rdram (unat (ta_physicalAddress ta) + i))"

text \<open>An access of \<open>n\<close> bytes that lies in one of the two.\<close>

definition inMemory :: "translated \<Rightarrow> nat \<Rightarrow> bool" where
  "inMemory ta n \<longleftrightarrow> 0 < n \<and> unat (ta_physicalAddress ta) + n \<le> unat (if ta_scratchpad ta then PS2_SCRATCHPAD_SIZE else PS2_RAM_SIZE)"

text \<open>The specification: bytes at locations.\<close>

definition storeAt :: "translated \<Rightarrow> u8 list \<Rightarrow> (location \<Rightarrow> u8) \<Rightarrow> location \<Rightarrow> u8" where
  "storeAt ta bs A l = fold (\<lambda>i B. B(located ta i := bs ! i)) [0..<length bs] A l"

definition fetchAt :: "translated \<Rightarrow> nat \<Rightarrow> (location \<Rightarrow> u8) \<Rightarrow> u8 list" where
  "fetchAt ta n A = map (\<lambda>i. A (located ta i)) [0..<n]"

lemma length_fetchAt [simp]: "length (fetchAt ta n A) = n" by (simp add: fetchAt_def)

lemma located_eq [simp]: "located ta i = located ta j \<longleftrightarrow> i = j" by (simp add: located_def)

lemma storeAt_nth: "i < length bs \<Longrightarrow> storeAt ta bs A (located ta i) = bs ! i"
proof -
  have "n \<le> length bs \<Longrightarrow> fold (\<lambda>i B. B(located ta i := bs ! i)) [0..<n] A (located ta i)
      = (if i < n then bs ! i else A (located ta i))" for n
    by (induction n) (auto simp: less_Suc_eq)
  then show "i < length bs \<Longrightarrow> ?thesis" by (simp add: storeAt_def)
qed

lemma storeAt_other: "(\<And>i. i < length bs \<Longrightarrow> l \<noteq> located ta i) \<Longrightarrow> storeAt ta bs A l = A l"
proof -
  assume o: "\<And>i. i < length bs \<Longrightarrow> l \<noteq> located ta i"
  have "n \<le> length bs \<Longrightarrow> fold (\<lambda>i B. B(located ta i := bs ! i)) [0..<n] A l = A l" for n
    by (induction n) (auto simp: o)
  then show ?thesis by (simp add: storeAt_def)
qed

lemma fetch_stored: "fetchAt ta (length bs) (storeAt ta bs A) = bs"
  by (rule nth_equalityI) (simp_all add: fetchAt_def storeAt_nth)

definition storeLocated :: "translated \<Rightarrow> u8 list \<Rightarrow> ee_memory \<Rightarrow> ee_memory" where
  "storeLocated ta bs = (if ta_scratchpad ta then storeScratchpad (ta_physicalAddress ta) bs
     else storeRdram (ta_physicalAddress ta) bs)"

lemma byteAt_store: "byteAt (storeLocated ta bs s) = storeAt ta bs (byteAt s)"
proof
  fix l
  show "byteAt (storeLocated ta bs s) l = storeAt ta bs (byteAt s) l"
  proof (cases "\<exists>i<length bs. l = located ta i")
    case True
    then obtain i where i: "i < length bs" "l = located ta i" by blast
    then show ?thesis
      by (simp only: i(2) storeAt_nth)
        (simp add: storeLocated_def located_def byteAt_def storeScratchpad_def storeRdram_def storeBytes_at)
  next
    case False
    let ?p = "unat (ta_physicalAddress ta)"
    have other: "storeAt ta bs (byteAt s) l = byteAt s l" using False by (intro storeAt_other) blast
    have "k \<notin> {?p..<?p + length bs}" if "l = (if ta_scratchpad ta then Scratchpad k else Rdram k)" for k
    proof
      assume "k \<in> {?p..<?p + length bs}"
      then have "k - ?p < length bs" "k = ?p + (k - ?p)" by auto
      then show False using False that by (metis located_def)
    qed
    then show ?thesis unfolding other
      by (auto simp: byteAt_def storeLocated_def storeScratchpad_def storeRdram_def storeBytes_at split: location.splits)
  qed
qed

section \<open>Accesses to memory\<close>

lemma device_regions:
  "isGsPrivReg v \<longleftrightarrow> 0x12000000 \<le> v \<and> v < 0x12002000" "isIoRegister v \<longleftrightarrow> 0x10000000 \<le> v \<and> v < 0x10010000"
  using range_bounds [of "0x12000000" "0x2000" v] range_bounds [of "0x10000000" "0x10000" v]
  by (simp_all add: isGsPrivReg_def isIoRegister_def region_defs)

lemma gs_is_special:
  assumes "isGsPrivReg address" "fst (translateAddressImpl address c w n allow s) = Inr ta"
  shows "\<not> inMemory ta m"
proof -
  have g: "0x12000000 \<le> address" "address < 0x12002000"
    using assms(1) by (simp_all add: device_regions)
  then have lt: "address < 0x80000000" by (simp add: word_less_nat_alt)
  have "\<not> (0x70000000 \<le> address \<and> address < 0x70004000)" using g by (simp add: word_le_nat_alt word_less_nat_alt)
  moreover have "address < 0xC0000000" using g(2) by (simp add: word_less_nat_alt)
  ultimately have "\<not> ps2IsScratchpadAddress address" by (intro not_scratchpad)
  moreover have "Ps2IsPhysicalSpecialAddress address" using g by (simp add: regions)
  ultimately have "ta = \<lparr>ta_physicalAddress = address, ta_scratchpad = False\<rparr>"
    using assms(2) lt by (simp add: translateAddressImpl_def split: if_splits)
  then show ?thesis using g(1) by (simp add: inMemory_def PS2_RAM_SIZE_def word_le_nat_alt)
qed

lemma translate_in_memory:
  assumes "translateAddressImpl address c w n True (em_tlb s) = (Inr ta, tlb)" "inMemory ta m"
  shows "translateFor address c w n s = (Inr ta, s\<lparr>em_tlb := tlb\<rparr>)"
proof -
  have "unat (ta_physicalAddress ta) < 33554432"
    using assms(2) by (auto simp: inMemory_def PS2_RAM_SIZE_def PS2_SCRATCHPAD_SIZE_def split: if_splits)
  then have "\<not> Ps2IsEeBusErrorPhysicalAddress (ta_physicalAddress ta)"
    by (simp add: Ps2IsEeBusErrorPhysicalAddress_def word_le_nat_alt word_less_nat_alt)
  then show ?thesis using assms(1) by (simp add: translateFor_def)
qed

lemma in_memory_rdram: "inMemory ta n \<Longrightarrow> \<not> ta_scratchpad ta \<Longrightarrow> ta_physicalAddress ta < PS2_RAM_SIZE"
  by (simp add: inMemory_def word_less_nat_alt)

lemma in_range:
  "inMemory ta n \<Longrightarrow> inRange (ta_physicalAddress ta) n (if ta_scratchpad ta then PS2_SCRATCHPAD_SIZE else PS2_RAM_SIZE) address
    = returning ()"
  by (simp add: inMemory_def inRange_def split: if_splits)

lemma load_is_fetch:
  "loadBytes (unat (ta_physicalAddress ta)) n (if ta_scratchpad ta then em_scratchpad s else em_rdram s) = fetchAt ta n (byteAt s)"
  by (rule nth_equalityI) (auto simp: loadBytes_nth fetchAt_def located_def byteAt_def)

lemma read_mapped:
  assumes "inMemory ta n"
  shows "readMapped calls n ta address rest s = (Inr (ofBytes (fetchAt ta n (byteAt s))), s)"
  using in_range [OF assms, of address] in_memory_rdram [OF assms] load_is_fetch [of ta n s]
  by (cases "ta_scratchpad ta") (simp_all add: readMapped_def Let_def loadScalar_def andThen_def returning_def)

definition watched :: "translated \<Rightarrow> nat \<Rightarrow> u32 \<Rightarrow> ee_memory \<Rightarrow> ee_memory" where
  "watched ta n writerPc s = (if ta_scratchpad ta then s else observed (ta_physicalAddress ta) (of_nat n) writerPc s)"

lemma write_mapped:
  assumes "inMemory ta (length bytes)"
  shows "writeMapped calls bytes ta address writerPc s
    = (Inr False, storeLocated ta bytes (watched ta (length bytes) writerPc s))"
  using in_range [OF assms, of address] in_memory_rdram [OF assms]
  by (cases "ta_scratchpad ta")
    (simp_all add: writeMapped_def Let_def storeScalar_def andThen_def returning_def storeLocated_def watched_def)

lemma in_memory_not_device:
  assumes "inMemory ta n"
  shows "\<not> isGsPrivReg (ta_physicalAddress ta)" "\<not> isIoRegister (ta_physicalAddress ta)"
    "ta_physicalAddress ta \<noteq> 0x10007000" "ta_physicalAddress ta \<noteq> 0x10007010"
proof -
  have b: "unat (ta_physicalAddress ta) < 33554432"
    using assms by (auto simp: inMemory_def PS2_RAM_SIZE_def PS2_SCRATCHPAD_SIZE_def split: if_splits)
  show "\<not> isGsPrivReg (ta_physicalAddress ta)" "\<not> isIoRegister (ta_physicalAddress ta)"
    using b by (simp_all add: device_regions word_le_nat_alt)
  show "ta_physicalAddress ta \<noteq> 0x10007000" "ta_physicalAddress ta \<noteq> 0x10007010" using b by auto
qed

section \<open>Accesses of every width\<close>

datatype access_width = W8 | W16 | W32 | W64 | W128

fun widthBytes :: "access_width \<Rightarrow> nat" where
  "widthBytes W8 = 1"
| "widthBytes W16 = 2"
| "widthBytes W32 = 4"
| "widthBytes W64 = 8"
| "widthBytes W128 = 16"

definition accessAligned :: "access_width \<Rightarrow> u32 \<Rightarrow> bool" where
  "accessAligned width address \<longleftrightarrow> address AND (of_nat (widthBytes width) - 1) = 0"

fun writeWidth ::
  "ee_memory device_calls \<Rightarrow> access_width \<Rightarrow> u32 \<Rightarrow> 128 word \<Rightarrow> u32 \<Rightarrow> translation_context \<Rightarrow> (ee_memory, unit) access" where
  "writeWidth calls W8 address v = write8 calls address (ucast v)"
| "writeWidth calls W16 address v = write16 calls address (ucast v)"
| "writeWidth calls W32 address v = write32 calls address (ucast v)"
| "writeWidth calls W64 address v = write64 calls address (ucast v)"
| "writeWidth calls W128 address v = write128 calls address v"

definition widened :: "(ee_memory, 'a::len word) access \<Rightarrow> (ee_memory, 128 word) access" where
  "widened access s = apfst (map_sum id ucast) (access s)"

fun readWidth ::
  "ee_memory device_calls \<Rightarrow> access_width \<Rightarrow> u32 \<Rightarrow> translation_context \<Rightarrow> (ee_memory, 128 word) access" where
  "readWidth calls W8 address c = widened (read8 calls address c)"
| "readWidth calls W16 address c = widened (read16 calls address c)"
| "readWidth calls W32 address c = widened (read32 calls address c)"
| "readWidth calls W64 address c = widened (read64 calls address c)"
| "readWidth calls W128 address c = read128 calls address c"

lemma write_located:
  assumes "translateAddressImpl address c True (of_nat (widthBytes width)) True (em_tlb s) = (Inr ta, tlb)"
    and "inMemory ta (widthBytes width)" "accessAligned width address"
  shows "writeWidth calls width address v writerPc c s
    = (Inr (), storeLocated ta (toBytes (widthBytes width) v) (watched ta (widthBytes width) writerPc (s\<lparr>em_tlb := tlb\<rparr>)))"
proof -
  note tr = translate_in_memory [OF assms(1,2)]
  have notgs: "\<not> isGsPrivReg address" using gs_is_special assms(1,2) by (metis fst_conv)
  note w = write_mapped [of ta "toBytes (widthBytes width) v" calls address writerPc "s\<lparr>em_tlb := tlb\<rparr>", simplified, OF assms(2)]
  show ?thesis
    using tr w notgs in_memory_not_device [OF assms(2)] assms(3)
    by (cases width) (simp_all add: write8_def write16_def write32_def write64_def write128_def andThen_def Let_def
        accessAligned_def returning_def toBytes_ucast del: toBytes.simps)
qed

lemma read_located:
  assumes "translateAddressImpl address c False (of_nat (widthBytes width)) True (em_tlb s) = (Inr ta, tlb)"
    and "inMemory ta (widthBytes width)" "accessAligned width address"
  shows "readWidth calls width address c s = (Inr (ofBytes (fetchAt ta (widthBytes width) (byteAt s))), s\<lparr>em_tlb := tlb\<rparr>)"
proof -
  note tr = translate_in_memory [OF assms(1,2)]
  have notgs: "\<not> isGsPrivReg address" using gs_is_special assms(1,2) by (metis fst_conv)
  have b: "byteAt (s\<lparr>em_tlb := tlb\<rparr>) = byteAt s" by (rule ext) (simp add: byteAt_def split: location.split)
  show ?thesis
    using tr notgs in_memory_not_device [OF assms(2)] assms(2,3)
    by (cases width) (simp_all add: read8_def read16_def read32_def read64_def read128_def andThen_def Let_def widened_def
        accessAligned_def returning_def b read_mapped ofBytes_widen)
qed

end
