(* ===== verification/EeCacheFacts.thy ===== *)
theory EeCacheFacts
  imports EeCache EeMemoryFacts
begin

text \<open>
  What the CACHE instruction does to memory, for every memory that keeps the promises of \<open>backing_memory\<close>: an
  aligned word written below \<open>limit\<close> is stored as its four bytes, an aligned word read is made of them, and a
  translation leaves the bytes alone.
\<close>

unbundle bit_operations_syntax

section \<open>Lines\<close>

lemma line_word_value: "loadWord data offset = ofBytes [data offset, data (offset + 1), data (offset + 2), data (offset + 3)]"
  by (rule bit_word_eqI) (auto simp: loadWord_def bit_simps)

lemma toBytes_loadWord: "toBytes 4 (loadWord data offset) = [data offset, data (offset + 1), data (offset + 2), data (offset + 3)]"
  unfolding line_word_value by (rule to_ofBytes) simp_all

lemma word_byte:
  assumes "j < 4"
  shows "toBytes 4 (loadWord data (of_nat (4 * k))) ! j = data (of_nat (4 * k + j))"
proof -
  consider "j = 0" | "j = 1" | "j = 2" | "j = 3" using assms by linarith
  then show ?thesis by cases (simp_all add: toBytes_loadWord add.commute)
qed

lemma line_offset: "i < 16 \<Longrightarrow> lineOffsets ! i = of_nat (4 * i)" "length lineOffsets = 16"
  by (simp_all add: lineOffsets_def)

text \<open>The bytes of a line from its first address on.\<close>

definition lineAt :: "nat \<Rightarrow> (u32 \<Rightarrow> u8) \<Rightarrow> (nat \<Rightarrow> u8) \<Rightarrow> (nat \<Rightarrow> u8)" where
  "lineAt base data memory = (\<lambda>i. if base \<le> i \<and> i < base + 64 then data (of_nat (i - base)) else memory i)"

lemma aligned_mod: "a AND 63 = 0 \<Longrightarrow> unat a mod 64 = 0" for a :: u32
proof -
  assume "a AND 63 = 0"
  then have "take_bit 6 a = 0" by (simp add: take_bit_eq_mask mask_eq_exp_minus_1)
  then have "unat (take_bit 6 a) = 0" by simp
  then show ?thesis by (simp only: unsigned_take_bit_eq) (simp add: take_bit_eq_mod)
qed

lemma masked_six: "bit (63 :: u32) k \<longleftrightarrow> k < 6"
proof -
  have "(63 :: u32) = mask 6" by (simp add: mask_eq_exp_minus_1)
  then show ?thesis by (simp only: bit_mask_iff) auto
qed

lemma lineBase_aligned: "unat (lineBase index tag) mod 64 = 0"
proof (rule aligned_mod)
  have m: "(0xFFFFF000 :: u32) = NOT (mask 12)" by (simp add: mask_eq_exp_minus_1)
  show "lineBase index tag AND 63 = 0"
    unfolding lineBase_def kTagPhysicalMask_def m
    by (intro bit_word_eqI)
      (simp only: bit_and_iff bit_or_iff bit_push_bit_iff bit_not_iff bit_mask_iff masked_six bit_0_eq bot_apply bot_bool_def, auto)
qed

lemma physical_aligned: "unat (a AND NOT (kLineSize - 1)) mod 64 = 0"
proof (rule aligned_mod)
  have k: "kLineSize - 1 = 63" by (simp add: kLineSize_def)
  show "(a AND NOT (kLineSize - 1)) AND 63 = 0"
    unfolding k by (intro bit_word_eqI) (simp only: bit_and_iff bit_not_iff masked_six bit_0_eq bot_apply bot_bool_def, blast)
qed

text \<open>A word stored into a line buffer at one of its sixteen offsets.\<close>

lemma storeWord_at:
  assumes "k < 16" "i < 64" "length bs = 4"
  shows "storeWord data (of_nat (4 * k)) (ofBytes bs) (of_nat i)
    = (if 4 * k \<le> i \<and> i < 4 * k + 4 then bs ! (i - 4 * k) else data (of_nat i))"
proof -
  obtain b0 b1 b2 b3 where bs: "bs = [b0, b1, b2, b3]"
    using assms(3) by (auto simp: eval_nat_numeral length_Suc_conv)
  have w: "toBytes 4 (ofBytes bs :: u32) = bs" by (rule to_ofBytes [OF assms(3)]) simp
  have v: "ucast (ofBytes bs :: u32) = b0" "ucast (drop_bit 8 (ofBytes bs :: u32)) = b1"
    "ucast (drop_bit 16 (ofBytes bs :: u32)) = b2" "ucast (drop_bit 24 (ofBytes bs :: u32)) = b3"
    using toBytes_nth [of 0 4 "ofBytes bs :: u32"] toBytes_nth [of 1 4 "ofBytes bs :: u32"]
      toBytes_nth [of 2 4 "ofBytes bs :: u32"] toBytes_nth [of 3 4 "ofBytes bs :: u32"]
    unfolding w by (simp_all add: bs)
  have eq: "(of_nat i :: u32) = of_nat j \<longleftrightarrow> i = j" if "j < 68" for j
    using assms(2) that by (simp add: word_of_nat_eq_iff take_bit_nat_eq_self)
  have off: "(of_nat (4 * k) + 1 :: u32) = of_nat (4 * k + 1)" "(of_nat (4 * k) + 2 :: u32) = of_nat (4 * k + 2)"
    "(of_nat (4 * k) + 3 :: u32) = of_nat (4 * k + 3)" by (simp_all add: add.commute)
  show ?thesis
    unfolding storeWord_def off v fun_upd_apply using assms(1)
    by (simp only: eq) (auto simp: bs nth_Cons' split: if_splits)
qed

section \<open>The interface\<close>

locale backing_memory =
  fixes calls :: "('m, 'e) memory_calls"
    and bytes :: "'m \<Rightarrow> nat \<Rightarrow> u8"
    and limit :: nat
  assumes write_word: "unat a mod 4 = 0 \<Longrightarrow> unat a + 4 \<le> limit \<Longrightarrow>
      \<exists>m'. mc_write32 calls a v pc m = (Inr (), m') \<and> bytes m' = storeBytes (unat a) (toBytes 4 v) (bytes m)"
    and read_word: "unat a mod 4 = 0 \<Longrightarrow> unat a + 4 \<le> limit \<Longrightarrow>
      \<exists>m'. mc_read32 calls a m = (Inr (ofBytes (loadBytes (unat a) 4 (bytes m))), m') \<and> bytes m' = bytes m"
    and translate_keeps: "bytes (snd (mc_translateAddress calls va m)) = bytes m"
    and limit_fits: "limit \<le> 2 ^ 31"
begin

lemma word_address:
  fixes base :: u32
  assumes "unat base mod 64 = 0" "unat base + 64 \<le> limit" "i < 16"
  shows "unat (base + of_nat (4 * i)) = unat base + 4 * i" "unat (base + of_nat (4 * i)) mod 4 = 0"
    "unat (base + of_nat (4 * i)) + 4 \<le> limit"
proof -
  show u: "unat (base + of_nat (4 * i)) = unat base + 4 * i"
  proof -
    have "unat (of_nat (4 * i) :: u32) = 4 * i" using assms(3) by (subst unsigned_of_nat) (simp add: take_bit_nat_eq_self)
    moreover have "unat base + 4 * i < 2 ^ 32" using assms limit_fits by simp
    ultimately show ?thesis by (subst unat_add_no_overflow) simp_all
  qed
  obtain q where "unat base = 64 * q" using assms(1) by (metis dvd_def mod_0_imp_dvd)
  then have "unat base + 4 * i = 4 * (16 * q + i)" by simp
  then show "unat (base + of_nat (4 * i)) mod 4 = 0" unfolding u by simp
  show "unat (base + of_nat (4 * i)) + 4 \<le> limit" unfolding u using assms(2,3) by simp
qed

text \<open>The loop of the write-back, from the word \<open>k\<close> on.\<close>

lemma write_words:
  assumes "unat base mod 64 = 0" "unat base + 64 \<le> limit" "k \<le> 16"
  shows "\<exists>m'. writeWords calls base data pc (drop k lineOffsets) m = (Inr (), m')
    \<and> bytes m' = (\<lambda>i. if unat base + 4 * k \<le> i \<and> i < unat base + 64 then data (of_nat (i - unat base)) else bytes m i)"
  using assms(3)
proof (induction "16 - k" arbitrary: k m)
  case 0
  then show ?case by (simp add: line_offset) (auto intro!: ext)
next
  case (Suc d)
  then have k: "k < 16" by simp
  have s: "drop k lineOffsets = of_nat (4 * k) # drop (Suc k) lineOffsets"
    using k Cons_nth_drop_Suc [of k lineOffsets] by (simp add: line_offset)
  have d: "d = 16 - Suc k" and sk: "Suc k \<le> 16" using Suc.hyps(2) k by simp_all
  note a = word_address [OF assms(1,2) k]
  let ?w = "loadWord data (of_nat (4 * k))"
  obtain m1 where m1: "mc_write32 calls (base + of_nat (4 * k)) ?w pc m = (Inr (), m1)"
      "bytes m1 = storeBytes (unat base + 4 * k) (toBytes 4 ?w) (bytes m)"
    using write_word [OF a(2,3), of ?w pc m] unfolding a(1) by blast
  obtain m' where m': "writeWords calls base data pc (drop (Suc k) lineOffsets) m1 = (Inr (), m')"
      "bytes m' = (\<lambda>i. if unat base + 4 * Suc k \<le> i \<and> i < unat base + 64 then data (of_nat (i - unat base)) else bytes m1 i)"
    using Suc.hyps(1) [OF d sk, of m1] by blast
  have "bytes m' i = (if unat base + 4 * k \<le> i \<and> i < unat base + 64 then data (of_nat (i - unat base)) else bytes m i)" for i
  proof (cases "unat base + 4 * k \<le> i \<and> i < unat base + 4 * Suc k")
    case True
    then obtain j where i: "i = unat base + 4 * k + j" using le_Suc_ex by blast
    then have j: "i = unat base + 4 * k + j" "j < 4" using True by simp_all
    have "bytes m' i = toBytes 4 ?w ! j" using j k by (simp add: m'(2) m1(2) storeBytes_at)
    also have "\<dots> = data (of_nat (4 * k + j))"
      by (rule word_byte [OF j(2)])
    finally show ?thesis using j k by (simp add: add.assoc)
  next
    case False
    then show ?thesis using k by (auto simp: m'(2) m1(2) storeBytes_at)
  qed
  then show ?case using m1(1) m'(1) by (intro exI [of _ m']) (simp add: s fun_eq_iff)
qed

lemma write_back_line:
  assumes "dl_tag line AND (kTagValid OR kTagDirty) = kTagValid OR kTagDirty"
    and "unat (lineBase index (dl_tag line)) + 64 \<le> limit"
  shows "\<exists>m'. writeBackDataLine calls index line pc m = (Inr (), line\<lparr>dl_tag := dl_tag line AND NOT kTagDirty\<rparr>, m')
    \<and> bytes m' = lineAt (unat (lineBase index (dl_tag line))) (dl_data line) (bytes m)"
  using write_words [OF lineBase_aligned assms(2), of 0 "dl_data line" pc m] assms(1)
  by (auto simp: writeBackDataLine_def lineAt_def)

lemma clean_line_stays:
  "dl_tag line AND (kTagValid OR kTagDirty) \<noteq> kTagValid OR kTagDirty \<Longrightarrow> writeBackDataLine calls index line pc m = (Inr (), line, m)"
  by (simp add: writeBackDataLine_def)

text \<open>The loop of the fill, from the word \<open>k\<close> on.\<close>

lemma read_words:
  assumes "unat base mod 64 = 0" "unat base + 64 \<le> limit" "k \<le> 16" "\<forall>i<4 * k. refill (of_nat i) = bytes m (unat base + i)"
  shows "\<exists>m' line. readWords calls base (drop k lineOffsets) refill m = (Inr line, m') \<and> bytes m' = bytes m
    \<and> (\<forall>i<64. line (of_nat i) = bytes m (unat base + i))"
  using assms(3,4)
proof (induction "16 - k" arbitrary: k m refill)
  case 0
  then show ?case by (simp add: line_offset)
next
  case (Suc d)
  then have k: "k < 16" by simp
  have d: "d = 16 - Suc k" and sk: "Suc k \<le> 16" using Suc.hyps(2) k by simp_all
  have s: "drop k lineOffsets = of_nat (4 * k) # drop (Suc k) lineOffsets"
    using k Cons_nth_drop_Suc [of k lineOffsets] by (simp add: line_offset)
  note a = word_address [OF assms(1,2) k]
  let ?bs = "loadBytes (unat base + 4 * k) 4 (bytes m)"
  let ?refill = "storeWord refill (of_nat (4 * k)) (ofBytes ?bs)"
  obtain m1 where m1: "mc_read32 calls (base + of_nat (4 * k)) m = (Inr (ofBytes ?bs), m1)" "bytes m1 = bytes m"
    using read_word [OF a(2,3), of m] unfolding a(1) by blast
  have r: "\<forall>i<4 * Suc k. ?refill (of_nat i) = bytes m1 (unat base + i)"
  proof (intro allI impI)
    fix i
    assume i: "i < 4 * Suc k"
    then have "i < 64" using k by simp
    then show "?refill (of_nat i) = bytes m1 (unat base + i)"
      using Suc.prems(2) i k by (subst storeWord_at) (auto simp: m1(2) loadBytes_nth)
  qed
  then show ?case using Suc.hyps(1) [OF d sk r] m1 by (simp add: s)
qed

end

end
