(* ===== verification/EeMemoryProps.thy ===== *)
theory EeMemoryProps
  imports EeMemoryFacts
begin

text \<open>
  Properties of the accesses: over RDRAM and scratchpad the reads and writes of every width are those of a map from
  locations to bytes, whatever virtual addresses name the locations; masked writes touch the enabled bytes only.
\<close>

unbundle bit_operations_syntax

section \<open>Frames\<close>

lemma stored_fields [simp]:
  "em_tlb (storeLocated ta bs s) = em_tlb s" "em_code (storeLocated ta bs s) = em_code s"
  "em_tlb (watched ta n pc s) = em_tlb s" "byteAt (watched ta n pc s) = byteAt s"
  "byteAt (s\<lparr>em_tlb := tlb\<rparr>) = byteAt s"
  by (auto simp: storeLocated_def storeScratchpad_def storeRdram_def watched_def observed_def byteAt_def fun_eq_iff
      split: location.split)

section \<open>The refinement\<close>

text \<open>
  C15. An aligned write whose translation ends in the RDRAM or the scratchpad succeeds, stores the bytes of its value
  at its locations and no others, shows an RDRAM write to the tracking of code, and changes nothing else but what the
  translation does to the TLB's caches. An aligned read after it, at whatever address of whatever width, returns
  the bytes at its locations and leaves all bytes; read back through any alias of the same location the value is
  the one written.
\<close>

theorem memory_refines_bytes:
  fixes v :: "128 word"
  assumes "accessAligned w1 a1" "inMemory t1 (widthBytes w1)"
    and "translateAddressImpl a1 c1 True (of_nat (widthBytes w1)) True (em_tlb s) = (Inr t1, tlb1)"
    and "accessAligned w2 a2" "inMemory t2 (widthBytes w2)"
    and "translateAddressImpl a2 c2 False (of_nat (widthBytes w2)) True tlb1 = (Inr t2, tlb2)"
  defines "written \<equiv> storeAt t1 (toBytes (widthBytes w1) v) (byteAt s)"
  shows "\<exists>s1 s2 result. writeWidth calls w1 a1 v writerPc c1 s = (Inr (), s1) \<and> byteAt s1 = written
      \<and> s1 = storeLocated t1 (toBytes (widthBytes w1) v)
          (s\<lparr>em_tlb := tlb1, em_code := (if ta_scratchpad t1 then em_code s
             else observeRdramWrite (ta_physicalAddress t1) (of_nat (widthBytes w1)) writerPc (em_code s))\<rparr>)
      \<and> readWidth calls w2 a2 c2 s1 = (Inr result, s2) \<and> result = ofBytes (fetchAt t2 (widthBytes w2) written)
      \<and> byteAt s2 = written
      \<and> (w2 = w1 \<and> t2 = t1 \<longrightarrow> result = take_bit (8 * widthBytes w1) v)"
proof -
  let ?bs = "toBytes (widthBytes w1) v"
  let ?s1 = "storeLocated t1 ?bs (watched t1 (widthBytes w1) writerPc (s\<lparr>em_tlb := tlb1\<rparr>))"
  have w: "writeWidth calls w1 a1 v writerPc c1 s = (Inr (), ?s1)" by (rule write_located [OF assms(3,2,1)])
  have b: "byteAt ?s1 = written" by (simp add: byteAt_store written_def)
  have "translateAddressImpl a2 c2 False (of_nat (widthBytes w2)) True (em_tlb ?s1) = (Inr t2, tlb2)"
    using assms(6) by simp
  from read_located [OF this assms(5,4), of calls] have
    r: "readWidth calls w2 a2 c2 ?s1 = (Inr (ofBytes (fetchAt t2 (widthBytes w2) written)), ?s1\<lparr>em_tlb := tlb2\<rparr>)"
    unfolding b .
  have "fetchAt t1 (widthBytes w1) written = ?bs" using fetch_stored [of t1 ?bs] by (simp add: written_def)
  then have same: "w2 = w1 \<and> t2 = t1 \<longrightarrow> ofBytes (fetchAt t2 (widthBytes w2) written) = take_bit (8 * widthBytes w1) v"
    by (simp add: of_toBytes)
  have "watched t1 (widthBytes w1) writerPc (s\<lparr>em_tlb := tlb1\<rparr>) = s\<lparr>em_tlb := tlb1, em_code := (if ta_scratchpad t1 then em_code s
      else observeRdramWrite (ta_physicalAddress t1) (of_nat (widthBytes w1)) writerPc (em_code s))\<rparr>"
    by (simp add: watched_def observed_def)
  moreover have "byteAt (?s1\<lparr>em_tlb := tlb2\<rparr>) = written" by (simp only: stored_fields(5) b)
  ultimately show ?thesis
    using w b r same
    by (intro exI [of _ ?s1] exI [of _ "?s1\<lparr>em_tlb := tlb2\<rparr>"] exI [of _ "ofBytes (fetchAt t2 (widthBytes w2) written)"] conjI)
      (simp_all only:)
qed

section \<open>Byte enables\<close>

definition contiguousEnables :: "u8 \<Rightarrow> nat \<Rightarrow> nat \<Rightarrow> bool" where
  "contiguousEnables e first n \<longleftrightarrow> (\<forall>i<8. bit e i \<longleftrightarrow> first \<le> i \<and> i < first + n)"

lemma enable_bit: "(ucast e :: u32) AND push_bit i 1 \<noteq> 0 \<longleftrightarrow> i < 8 \<and> bit (e :: u8) i"
proof -
  have "(ucast e :: u32) AND push_bit i 1 \<noteq> 0 \<longleftrightarrow> bit (ucast e :: u32) i"
    by (metis and_exp_eq_0_iff_not_bit push_bit_of_1)
  then show ?thesis by (auto simp: bit_simps dest: bit_imp_le_length)
qed

lemma run_bit: "bit (push_bit k (push_bit n 1 - 1) :: u32) i \<longleftrightarrow> k \<le> i \<and> i < k + n \<and> i < 32"
  by (auto simp: bit_simps push_bit_of_1 simp flip: mask_eq_exp_minus_1)

lemma span_sound:
  assumes "Ps2DecodeByteEnableSpan e width = Some sp"
  shows "contiguousEnables e (bs_offset sp) (bs_size sp)" "bs_offset sp + bs_size sp \<le> width"
proof -
  have "contiguousEnables e (bs_offset sp) (bs_size sp) \<and> bs_offset sp + bs_size sp \<le> width"
  proof (cases "e = 0")
    case True
    then show ?thesis using assms by (auto simp: Ps2DecodeByteEnableSpan_def Let_def contiguousEnables_def split: if_splits)
  next
    case False
    then obtain l h where f: "find (\<lambda>i. (ucast e :: u32) AND push_bit i 1 \<noteq> 0) [0..<width] = Some l"
        "find (\<lambda>i. (ucast e :: u32) AND push_bit i 1 \<noteq> 0) (rev [0..<width]) = Some h"
      and c: "ucast e = (push_bit l (push_bit (h - l + 1) 1 - 1) :: u32)"
      and sp: "sp = \<lparr>bs_offset = l, bs_size = h - l + 1\<rparr>"
      using assms by (auto simp: Ps2DecodeByteEnableSpan_def Let_def split: if_splits option.splits)
    have "l < width" "h < width" using f by (auto simp: find_Some_iff rev_nth)
    moreover have "bit e i \<longleftrightarrow> l \<le> i \<and> i < l + (h - l + 1)" if "i < 8" for i
    proof -
      have "bit e i \<longleftrightarrow> bit (ucast e :: u32) i" using that by (simp add: bit_simps)
      then show ?thesis using that unfolding c run_bit by simp
    qed
    ultimately show ?thesis by (auto simp: sp contiguousEnables_def)
  qed
  then show "contiguousEnables e (bs_offset sp) (bs_size sp)" "bs_offset sp + bs_size sp \<le> width" by simp_all
qed

lemma span_complete:
  assumes "contiguousEnables e first n" "first + n \<le> width" "0 < width" "width \<le> 8"
  shows "Ps2DecodeByteEnableSpan e width \<noteq> None"
proof (cases "n = 0")
  case True
  then have "e = 0" using assms(1) by (intro bit_word_eqI) (simp add: contiguousEnables_def)
  then show ?thesis using assms by (simp add: Ps2DecodeByteEnableSpan_def Let_def)
next
  case False
  let ?P = "\<lambda>i. (ucast e :: u32) AND push_bit i 1 \<noteq> 0"
  have P: "?P i \<longleftrightarrow> first \<le> i \<and> i < first + n" for i
    using assms unfolding enable_bit contiguousEnables_def by auto
  have l: "find ?P [0..<width] = Some first"
    using False assms(2) unfolding find_Some_iff P by (intro exI [of _ first]) simp
  have h: "find ?P (rev [0..<width]) = Some (first + n - 1)"
    using False assms(2) unfolding find_Some_iff P by (intro exI [of _ "width - (first + n)"]) (auto simp: rev_nth)
  have c: "ucast e = (push_bit first (push_bit n 1 - 1) :: u32)"
  proof (rule bit_word_eqI)
    fix i
    have "bit (ucast e :: u32) i \<longleftrightarrow> i < 8 \<and> bit e i" by (auto simp: bit_simps dest: bit_imp_le_length)
    then show "bit (ucast e :: u32) i = bit (push_bit first (push_bit n 1 - 1) :: u32) i"
      using assms unfolding run_bit contiguousEnables_def by auto
  qed
  have "(ucast e :: u32) AND NOT (push_bit width 1 - 1) = 0"
    unfolding c using assms(2)
    by (intro bit_word_eqI) (auto simp: bit_simps push_bit_of_1 simp flip: mask_eq_exp_minus_1)
  moreover have "first + n - 1 - first + 1 = n" using False by simp
  moreover have "e \<noteq> 0" using P [of first] False by (auto simp: enable_bit)
  ultimately show ?thesis using l h c assms(3,4) by (simp add: Ps2DecodeByteEnableSpan_def Let_def)
qed

section \<open>Masked writes\<close>

definition maskedAt :: "translated \<Rightarrow> u8 \<Rightarrow> u8 list \<Rightarrow> (location \<Rightarrow> u8) \<Rightarrow> location \<Rightarrow> u8" where
  "maskedAt ta e bs A l = (if \<exists>i<length bs. l = located ta i \<and> bit e i
     then bs ! (case l of Rdram k \<Rightarrow> k - unat (ta_physicalAddress ta) | Scratchpad k \<Rightarrow> k - unat (ta_physicalAddress ta)) else A l)"

lemma masked_located:
  "i < length bs \<Longrightarrow> maskedAt ta e bs A (located ta i) = (if bit e i then bs ! i else A (located ta i))"
  by (auto simp: maskedAt_def located_def)

text \<open>Writing the bytes of a span is writing the enabled bytes.\<close>

lemma span_store:
  assumes "Ps2DecodeByteEnableSpan e (length bs) = Some sp" "length bs \<le> 8" "inMemory ta (length bs)"
  shows "storeAt (ta\<lparr>ta_physicalAddress := ta_physicalAddress ta + of_nat (bs_offset sp)\<rparr>)
      (take (bs_size sp) (drop (bs_offset sp) bs)) A = maskedAt ta e bs A"
proof
  fix l
  let ?o = "bs_offset sp" and ?n = "bs_size sp"
  let ?t = "ta\<lparr>ta_physicalAddress := ta_physicalAddress ta + of_nat ?o\<rparr>" and ?b = "take ?n (drop ?o bs)"
  note c = span_sound [OF assms(1)]
  have "unat (ta_physicalAddress ta) + length bs < 2 ^ 32"
    using assms(3) by (auto simp: inMemory_def PS2_RAM_SIZE_def PS2_SCRATCHPAD_SIZE_def split: if_splits)
  then have u: "unat (ta_physicalAddress ta + of_nat ?o) = unat (ta_physicalAddress ta) + ?o"
    using c(2) by (simp add: unat_word_ariths unsigned_of_nat take_bit_nat_eq_self)
  have loc: "located ?t j = located ta (?o + j)" for j by (simp add: located_def u add.assoc)
  have len: "length ?b = ?n" using c(2) by simp
  have en: "bit e i \<longleftrightarrow> ?o \<le> i \<and> i < ?o + ?n" if "i < length bs" for i
    using c(1) that assms(2) by (simp add: contiguousEnables_def)
  show "storeAt ?t ?b A l = maskedAt ta e bs A l"
  proof (cases "\<exists>j<?n. l = located ?t j")
    case True
    then obtain j where j: "j < ?n" "l = located ?t j" by blast
    have "storeAt ?t ?b A l = ?b ! j" using storeAt_nth [of j ?b ?t A] j len by simp
    also have "\<dots> = bs ! (?o + j)" using j(1) c(2) by simp
    also have "\<dots> = maskedAt ta e bs A l"
      using masked_located [of "?o + j" bs ta e A] en [of "?o + j"] j c(2) by (simp add: loc)
    finally show ?thesis .
  next
    case False
    then have "storeAt ?t ?b A l = A l" using len by (intro storeAt_other) auto
    moreover have "\<not> (\<exists>i<length bs. l = located ta i \<and> bit e i)"
    proof
      assume "\<exists>i<length bs. l = located ta i \<and> bit e i"
      then obtain i where i: "i < length bs" "l = located ta i" "bit e i" by blast
      then have "?o \<le> i" "i < ?o + ?n" using en by simp_all
      then have "i - ?o < ?n" "l = located ?t (i - ?o)" using i(2) by (auto simp: loc)
      then show False using False by blast
    qed
    ultimately show ?thesis unfolding maskedAt_def by (simp only: if_False)
  qed
qed

lemma masked_mapped:
  assumes "Ps2DecodeByteEnableSpan e (length bs) = Some sp" "length bs \<le> 8" "inMemory ta (length bs)"
  shows "\<exists>s'. (\<forall>io. writeMaskedMapped calls (length bs) sp bs ta address writerPc io s = (Inr (), s'))
    \<and> byteAt s' = maskedAt ta e bs (byteAt s) \<and> em_tlb s' = em_tlb s
    \<and> em_code s' = (if ta_scratchpad ta then em_code s
         else observeRdramWrite (ta_physicalAddress ta + of_nat (bs_offset sp)) (of_nat (bs_size sp)) writerPc (em_code s))"
proof -
  let ?t = "ta\<lparr>ta_physicalAddress := ta_physicalAddress ta + of_nat (bs_offset sp)\<rparr>"
  let ?b = "take (bs_size sp) (drop (bs_offset sp) bs)"
  let ?s = "storeLocated ?t ?b (watched ?t (bs_size sp) writerPc s)"
  have "writeMaskedMapped calls (length bs) sp bs ta address writerPc io s = (Inr (), ?s)" for io
    using in_range [OF assms(3), of address] in_memory_rdram [OF assms(3)]
    by (cases "ta_scratchpad ta")
      (simp_all add: writeMaskedMapped_def Let_def andThen_def returning_def storeLocated_def watched_def)
  moreover have "byteAt ?s = maskedAt ta e bs (byteAt s)"
    using span_store [OF assms, of "byteAt s"] by (simp add: byteAt_store)
  ultimately show ?thesis by (intro exI [of _ ?s]) (simp add: watched_def observed_def)
qed

text \<open>
  C34. A masked 32-bit or 64-bit write is refused exactly when its byte enables are not one run of lanes; otherwise,
  if its translation ends in the RDRAM or the scratchpad, it stores exactly the enabled bytes and shows exactly
  their range to the tracking of code. With no lane enabled it does nothing at all.
\<close>

theorem masked_write_bytes:
  fixes calls :: "ee_memory device_calls" and e :: u8 and v :: u64 and address writerPc :: u32 and c :: translation_context
  defines "masked \<equiv> \<lambda>n. if n = 4 then writeMasked32 calls address (ucast v) e writerPc c else writeMasked64 calls address v e writerPc c"
  assumes "n = 4 \<or> n = 8" "address AND (of_nat n - 1) = 0" "inMemory ta n"
    and "translateAddressImpl address c True (of_nat n) True (em_tlb s) = (Inr ta, tlb)"
  shows "if \<nexists>first k. contiguousEnables e first k \<and> first + k \<le> n then masked n s = (Inl InvalidByteEnables, s)
    else if e = 0 then masked n s = (Inr (), s)
    else \<exists>s' first k. masked n s = (Inr (), s') \<and> contiguousEnables e first k
      \<and> byteAt s' = maskedAt ta e (toBytes n v) (byteAt s) \<and> em_tlb s' = tlb
      \<and> em_code s' = (if ta_scratchpad ta then em_code s
           else observeRdramWrite (ta_physicalAddress ta + of_nat first) (of_nat k) writerPc (em_code s))"
proof (cases "Ps2DecodeByteEnableSpan e n")
  case None
  then have no: "\<nexists>first k. contiguousEnables e first k \<and> first + k \<le> n" using span_complete assms(2) by fastforce
  have "masked n s = (Inl InvalidByteEnables, s)"
    using None assms(2,3) by (auto simp: masked_def writeMasked32_def writeMasked64_def throwing_def)
  then show ?thesis using no by simp
next
  case (Some sp)
  note c = span_sound [OF this]
  then have yes: "\<exists>first k. contiguousEnables e first k \<and> first + k \<le> n" by blast
  show ?thesis
  proof (cases "bs_size sp = 0")
    case True
    then have "e = 0" using c(1) by (intro bit_word_eqI) (simp add: contiguousEnables_def)
    moreover have "masked n s = (Inr (), s)"
      using Some True assms(2,3) by (auto simp: masked_def writeMasked32_def writeMasked64_def returning_def)
    ultimately show ?thesis using yes by simp
  next
    case False
    have nz: "e \<noteq> 0" using Some False assms(2) by (auto simp: Ps2DecodeByteEnableSpan_def Let_def)
    have notgs: "\<not> isGsPrivReg address" using gs_is_special assms(4,5) by (metis fst_conv)
    note tr = translate_in_memory [OF assms(5,4)]
    have len: "length (toBytes n v) = n" by simp
    have n8: "n \<le> 8" using assms(2) by auto
    obtain s' where s': "\<forall>io. writeMaskedMapped calls n sp (toBytes n v) ta address writerPc io (s\<lparr>em_tlb := tlb\<rparr>) = (Inr (), s')"
      "byteAt s' = maskedAt ta e (toBytes n v) (byteAt s)" "em_tlb s' = tlb"
      "em_code s' = (if ta_scratchpad ta then em_code s
         else observeRdramWrite (ta_physicalAddress ta + of_nat (bs_offset sp)) (of_nat (bs_size sp)) writerPc (em_code s))"
      using masked_mapped [of e "toBytes n v" sp ta calls address writerPc "s\<lparr>em_tlb := tlb\<rparr>", unfolded len, OF Some n8 assms(4)]
      by auto
    have "masked n s = (Inr (), s')"
    proof (cases "n = 4")
      case True
      then show ?thesis using Some False notgs tr s'(1) assms(3)
        by (simp add: masked_def writeMasked32_def andThen_def toBytes_ucast Let_def del: toBytes.simps)
    next
      case no4: False
      then have "n = 8" using assms(2) by simp
      then show ?thesis using Some False notgs tr s'(1) assms(3)
        by (simp add: masked_def writeMasked64_def andThen_def Let_def del: toBytes.simps)
    qed
    then show ?thesis using yes nz s'(2-4) c(1) by auto
  qed
qed

section \<open>Witnesses\<close>

definition demoCalls :: "ee_memory device_calls" where
  "demoCalls = \<lparr>dv_gsObservation = (\<lambda>_ _. returning ()), dv_observeVu1Memory = returning (), dv_vu1CommandCallback = (\<lambda>_. False),
     dv_submitVu1Write = (\<lambda>_ _ _ _. returning False), dv_readIORegister = (\<lambda>_. returning 0),
     dv_writeIORegisterMasked = (\<lambda>_ _ _. returning ()), dv_readIpuOutputFifo = returning [],
     dv_writeIpuInputFifo = (\<lambda>_. returning ())\<rparr>"

definition demoMemory :: ee_memory where
  "demoMemory = \<lparr>em_rdram = (\<lambda>_. 0), em_scratchpad = (\<lambda>_. 0), em_vu = (\<lambda>_. None),
     em_gs = \<lparr>gs_reg = (\<lambda>_. 0), gs_csr = 0\<rparr>, em_gsWriteCount = 0, em_vu0CodeGeneration = 0, em_vu1CodeGeneration = 0,
     em_ioRegisters = Map.empty, em_tlb = tlb_new, em_code = code_new\<rparr>"

lemma demo_aliases:
  "translateAddressImpl 0x20000010 unchecked_context w n True s = (Inr \<lparr>ta_physicalAddress = 0x10, ta_scratchpad = False\<rparr>, s)"
  "translateAddressImpl 0x80000010 unchecked_context w n True s = (Inr \<lparr>ta_physicalAddress = 0x10, ta_scratchpad = False\<rparr>, s)"
  by (simp_all add: translateAddressImpl_def permits_def unchecked_context_def scratchpad_region regions PS2_RAM_MASK_def
      PS2_RAM_SIZE_def mapsKusegThroughTlb_def Ps2DirectMappedPhysicalAddress_def)

text \<open>A word written through the uncached mirror and read back through the direct-mapped segment.\<close>

lemma memory_refines_bytes_witness:
  "\<exists>s1 s2. write32 demoCalls 0x20000010 0x12345678 0x80 unchecked_context demoMemory = (Inr (), s1)
     \<and> fst (readWidth demoCalls W32 0x80000010 unchecked_context s1) = Inr 0x12345678 \<and> s2 = s1"
proof -
  let ?t = "\<lparr>ta_physicalAddress = 0x10, ta_scratchpad = False\<rparr>"
  have al: "accessAligned W32 0x20000010" "accessAligned W32 0x80000010" by (simp_all add: accessAligned_def)
  have mem: "inMemory ?t (widthBytes W32)" by (simp add: inMemory_def PS2_RAM_SIZE_def)
  have v: "take_bit (8 * widthBytes W32) (0x12345678 :: 128 word) = 0x12345678" by simp
  show ?thesis
    using memory_refines_bytes [OF al(1) mem demo_aliases(1) al(2) mem demo_aliases(2), of demoCalls "0x12345678" "0x80" demoMemory]
    unfolding v by fastforce
qed

lemma masked_write_bytes_witness:
  "fst (writeMasked32 demoCalls 0x20000010 0x12345678 5 0x80 unchecked_context demoMemory) = Inl InvalidByteEnables
   \<and> (\<exists>s'. writeMasked32 demoCalls 0x20000010 0x12345678 6 0x80 unchecked_context demoMemory = (Inr (), s')
        \<and> byteAt s' (Rdram 0x11) = 0x56 \<and> byteAt s' (Rdram 0x10) = 0)"
proof -
  let ?t = "\<lparr>ta_physicalAddress = 0x10, ta_scratchpad = False\<rparr>"
  have mem: "inMemory ?t 4" by (simp add: inMemory_def PS2_RAM_SIZE_def)
  have al: "(0x20000010 :: u32) AND (of_nat 4 - 1) = 0" "(4::nat) = 4 \<or> (4::nat) = 8" by simp_all
  note m = masked_write_bytes [OF al(2,1) mem demo_aliases(1), where v = "0x12345678" and calls = demoCalls and writerPc = "0x80" and s = demoMemory]
  have "\<not> contiguousEnables 5 first k" for first k
  proof
    assume "contiguousEnables 5 first k"
    then have "bit (5 :: u8) i \<longleftrightarrow> first \<le> i \<and> i < first + k" if "i < 8" for i using that by (simp add: contiguousEnables_def)
    from this [of 0] this [of 1] this [of 2] show False by simp
  qed
  then have bad: "fst (writeMasked32 demoCalls 0x20000010 0x12345678 5 0x80 unchecked_context demoMemory) = Inl InvalidByteEnables"
    using m [where e = 5] by simp
  have "contiguousEnables 6 1 2" unfolding contiguousEnables_def
  proof (intro allI impI)
    fix i :: nat
    assume "i < 8"
    then consider "i = 0" | "i = 1" | "i = 2" | "i = 3" | "i = 4" | "i = 5" | "i = 6" | "i = 7" by linarith
    then show "bit (6 :: u8) i \<longleftrightarrow> 1 \<le> i \<and> i < 1 + 2" by cases simp_all
  qed
  then have "\<exists>first k. contiguousEnables 6 first k \<and> first + k \<le> 4" by (intro exI [of _ 1] exI [of _ 2]) simp
  then obtain s' where s': "writeMasked32 demoCalls 0x20000010 0x12345678 6 0x80 unchecked_context demoMemory = (Inr (), s')"
      "byteAt s' = maskedAt ?t 6 (toBytes 4 (0x12345678 :: u64)) (byteAt demoMemory)"
    using m [where e = 6] by auto
  have bs: "toBytes 4 (0x12345678 :: u64) = [0x78, 0x56, 0x34, 0x12]" by code_simp
  have loc: "Rdram 0x11 = located ?t 1" "Rdram 0x10 = located ?t 0" by (simp_all add: located_def)
  have "byteAt s' (Rdram 0x11) = 0x56" "byteAt s' (Rdram 0x10) = 0"
    using masked_located [of 1 "toBytes 4 (0x12345678 :: u64)" ?t 6 "byteAt demoMemory"]
      masked_located [of 0 "toBytes 4 (0x12345678 :: u64)" ?t 6 "byteAt demoMemory"]
    unfolding s'(2) loc bs by (simp_all add: byteAt_def located_def demoMemory_def)
  then show ?thesis using bad s'(1) by blast
qed

end
