(* ===== verification/EeCacheProps.thy ===== *)
theory EeCacheProps
  imports EeCacheFacts EeMemoryProps
begin

text \<open>
  The CACHE instruction over the memory of the EE: its write-backs put the bytes of a line into the RDRAM, its fill
  takes the bytes of a line from there.
\<close>

unbundle bit_operations_syntax

section \<open>Over any backing memory\<close>

definition lineDirty :: "data_line \<Rightarrow> bool" where
  "lineDirty line \<longleftrightarrow> dl_tag line AND (kTagValid OR kTagDirty) = kTagValid OR kTagDirty"

definition flushed :: "u32 \<Rightarrow> data_line \<Rightarrow> (nat \<Rightarrow> u8) \<Rightarrow> (nat \<Rightarrow> u8)" where
  "flushed index line memory =
     (if lineDirty line then lineAt (unat (lineBase index (dl_tag line))) (dl_data line) memory else memory)"

lemma masks:
  "(dl_tag line AND NOT kTagDirty) AND NOT kDataInvalidateMask = dl_tag line AND NOT kDataInvalidateMask"
  "(dl_tag line AND NOT kTagDirty) AND NOT kTagDirty = dl_tag line AND NOT kTagDirty"
  by (auto simp: kDataInvalidateMask_def intro!: bit_word_eqI simp: bit_and_iff bit_or_iff bit_not_iff)

lemma tag_bits:
  "bit kTagValid k \<longleftrightarrow> k = 5" "bit kTagLrf k \<longleftrightarrow> k = 4" "bit kTagPhysicalMask k \<longleftrightarrow> 12 \<le> k \<and> k < 32"
proof -
  have v: "kTagValid = 2 ^ 5" "kTagLrf = 2 ^ 4" "kTagPhysicalMask = NOT (mask 12)"
    by (simp_all add: kTagValid_def kTagLrf_def kTagPhysicalMask_def mask_eq_exp_minus_1)
  show "bit kTagValid k \<longleftrightarrow> k = 5" "bit kTagLrf k \<longleftrightarrow> k = 4" unfolding v bit_exp_iff by auto
  show "bit kTagPhysicalMask k \<longleftrightarrow> 12 \<le> k \<and> k < 32" unfolding v by (auto simp: bit_not_iff bit_mask_iff)
qed

lemma filled_tag: "tagMatchesPhysical ((p AND kTagPhysicalMask) OR kTagValid OR (x AND kTagLrf)) p"
proof -
  let ?t = "(p AND kTagPhysicalMask) OR kTagValid OR (x AND kTagLrf)"
  have "bit (?t AND kTagValid) 5" by (simp only: bit_and_iff bit_or_iff tag_bits) simp
  then have "?t AND kTagValid \<noteq> 0" by (metis bit_0_eq bot_apply bot_bool_def)
  moreover have "?t AND kTagPhysicalMask = p AND kTagPhysicalMask"
    by (intro bit_word_eqI) (simp only: bit_and_iff bit_or_iff tag_bits, auto)
  ultimately show ?thesis by (simp only: tagMatchesPhysical_def) simp
qed

context backing_memory begin

lemma write_back:
  assumes "lineDirty line \<longrightarrow> unat (lineBase index (dl_tag line)) + 64 \<le> limit"
  shows "\<exists>m' line'. writeBackDataLine calls index line pc m = (Inr (), line', m') \<and> bytes m' = flushed index line (bytes m)
    \<and> (line' = line \<or> line' = line\<lparr>dl_tag := dl_tag line AND NOT kTagDirty\<rparr>)"
  using write_back_line [of line index pc m] clean_line_stays [of line index pc m] assms
  by (cases "lineDirty line") (auto simp: flushed_def lineDirty_def)

lemma index_write_back:
  assumes "cacheOperation op = Some Dxwbin"
    and "lineDirty (ec_data cache (dIndex va) (va AND 1)) \<longrightarrow>
        unat (lineBase (dIndex va) (dl_tag (ec_data cache (dIndex va) (va AND 1)))) + 64 \<le> limit"
  defines "line \<equiv> ec_data cache (dIndex va) (va AND 1)"
  shows "\<exists>m'. cache_execute calls cache op va tagLo tagHi pc m
      = completed (setData (dIndex va) (va AND 1) (line\<lparr>dl_tag := dl_tag line AND NOT kDataInvalidateMask\<rparr>) cache) tagLo tagHi m'
    \<and> bytes m' = flushed (dIndex va) line (bytes m)"
proof -
  obtain m' line' where w: "writeBackDataLine calls (dIndex va) line pc m = (Inr (), line', m')"
      "bytes m' = flushed (dIndex va) line (bytes m)" "line' = line \<or> line' = line\<lparr>dl_tag := dl_tag line AND NOT kTagDirty\<rparr>"
    using write_back [of line "dIndex va" pc m] assms(2) unfolding line_def by blast
  then have "line'\<lparr>dl_tag := dl_tag line' AND NOT kDataInvalidateMask\<rparr> = line\<lparr>dl_tag := dl_tag line AND NOT kDataInvalidateMask\<rparr>"
    using masks(1) [of line] by auto
  then show ?thesis using w(1,2) assms(1) by (intro exI [of _ m']) (simp add: cache_execute_def Let_def flip: line_def)
qed

lemma hit_write_back:
  assumes "cacheOperation op = Some Dhwbin \<or> cacheOperation op = Some Dhwoin"
    and "mc_translateAddress calls va m = (Inr physicalAddress, m1)" "hitWay cache (dIndex va) physicalAddress = Some way"
    and "lineDirty (ec_data cache (dIndex va) way) \<longrightarrow>
        unat (lineBase (dIndex va) (dl_tag (ec_data cache (dIndex va) way))) + 64 \<le> limit"
  defines "line \<equiv> ec_data cache (dIndex va) way"
  defines "drops \<equiv> if cacheOperation op = Some Dhwoin then kTagDirty else kDataInvalidateMask"
  shows "\<exists>m'. cache_execute calls cache op va tagLo tagHi pc m
      = completed (setData (dIndex va) way (line\<lparr>dl_tag := dl_tag line AND NOT drops\<rparr>) cache) tagLo tagHi m'
    \<and> bytes m' = flushed (dIndex va) line (bytes m)"
proof -
  have same: "bytes m1 = bytes m" using translate_keeps [of va m] assms(2) by simp
  obtain m' line' where w: "writeBackDataLine calls (dIndex va) line pc m1 = (Inr (), line', m')"
      "bytes m' = flushed (dIndex va) line (bytes m1)" "line' = line \<or> line' = line\<lparr>dl_tag := dl_tag line AND NOT kTagDirty\<rparr>"
    using write_back [of line "dIndex va" pc m1] assms(4) unfolding line_def by blast
  then have "line'\<lparr>dl_tag := dl_tag line' AND NOT drops\<rparr> = line\<lparr>dl_tag := dl_tag line AND NOT drops\<rparr>"
    using masks [of line] by (auto simp: drops_def)
  then show ?thesis using w(1,2) assms(1-3) same
    by (auto simp: cache_execute_def hitDataLine_def Let_def drops_def simp flip: line_def)
qed

lemma fill_line:
  assumes "cacheOperation op = Some Ifl" "mc_translateAddress calls va m = (Inr physicalAddress, m1)"
    and "unat (physicalAddress AND NOT (kLineSize - 1)) + 64 \<le> limit"
  shows "\<exists>m' line way. cache_execute calls cache op va tagLo tagHi pc m
      = completed (setInstruction (iIndex va) way line cache) tagLo tagHi m' \<and> bytes m' = bytes m
    \<and> tagMatchesPhysical (il_tag line) physicalAddress
    \<and> (\<forall>i<64. il_data line (of_nat i) = bytes m (unat (physicalAddress AND NOT (kLineSize - 1)) + i))"
proof -
  have same: "bytes m1 = bytes m" using translate_keeps [of va m] assms(2) by simp
  obtain m' refill where r: "readWords calls (physicalAddress AND NOT (kLineSize - 1)) lineOffsets (\<lambda>_. 0) m1 = (Inr refill, m')"
      "bytes m' = bytes m1" "\<forall>i<64. refill (of_nat i) = bytes m1 (unat (physicalAddress AND NOT (kLineSize - 1)) + i)"
    using read_words [OF physical_aligned assms(3), of 0 "\<lambda>_. 0" m1] by auto
  let ?way = "refillWay (ec_instruction cache (iIndex va))"
  let ?line = "\<lparr>il_tag = (physicalAddress AND kTagPhysicalMask) OR kTagValid
      OR ((il_tag (ec_instruction cache (iIndex va) ?way) XOR kTagLrf) AND kTagLrf), il_data = refill, il_metadata = (\<lambda>_. 0)\<rparr>"
  have "cache_execute calls cache op va tagLo tagHi pc m = completed (setInstruction (iIndex va) ?way ?line cache) tagLo tagHi m'"
    using assms(1,2) r(1) by (simp add: cache_execute_def fillInstructionLine_def Let_def)
  moreover have "tagMatchesPhysical (il_tag ?line) physicalAddress" by (simp only: instruction_line.select_convs filled_tag)
  ultimately show ?thesis using r(2,3) same by (intro exI [of _ m'] exI [of _ ?line] exI [of _ ?way]) simp
qed

end

section \<open>The memory of the EE\<close>

definition memoryCalls :: "ee_memory device_calls \<Rightarrow> translation_context \<Rightarrow> (ee_memory, memory_error) memory_calls" where
  "memoryCalls calls c =
     \<lparr>mc_translateAddress = (\<lambda>va s. case translateAddress va c False 1 (em_tlb s) of
        (r, tlb) \<Rightarrow> (map_sum TranslationFault id r, s\<lparr>em_tlb := tlb\<rparr>)),
      mc_read32 = (\<lambda>a. read32 calls a unchecked_context),
      mc_write32 = (\<lambda>a v pc. write32 calls a v pc unchecked_context)\<rparr>"

lemma unchecked_ram:
  assumes "a < PS2_RAM_SIZE"
  shows "translateAddressImpl a unchecked_context w n allow s = (Inr \<lparr>ta_physicalAddress = a, ta_scratchpad = False\<rparr>, s)"
proof -
  have a: "unat a < 33554432" using assms by (simp add: PS2_RAM_SIZE_def word_less_nat_alt)
  have "\<not> ps2IsScratchpadAddress a" using a by (intro not_scratchpad) (simp_all add: word_less_nat_alt word_le_nat_alt)
  then show ?thesis using a
    by (simp add: translateAddressImpl_def permits_def unchecked_context_def regions mapsKusegThroughTlb_def Ps2IsKseg23Address_def
        word_less_nat_alt word_le_nat_alt)
qed

lemma aligned_and: "unat a mod 4 = 0 \<Longrightarrow> accessAligned W32 a"
proof -
  assume "unat a mod 4 = 0"
  then have "unat (take_bit 2 a) = 0" by (simp only: unsigned_take_bit_eq) (simp add: take_bit_eq_mod)
  then have "take_bit 2 a = 0" by (metis unat_0 word_unat_eq_iff)
  then show ?thesis by (simp add: accessAligned_def take_bit_eq_mask mask_eq_exp_minus_1)
qed

lemma through_quad: "ucast (ucast v :: 128 word) = (v :: u32)"
  by (intro bit_word_eqI) (simp add: bit_simps)

interpretation ee_backing: backing_memory "memoryCalls calls c" em_rdram "unat PS2_RAM_SIZE" for calls c
proof unfold_locales
  fix a v pc :: u32 and m
  let ?t = "\<lparr>ta_physicalAddress = a, ta_scratchpad = False\<rparr>"
  assume al: "unat a mod 4 = 0" and r: "unat a + 4 \<le> unat PS2_RAM_SIZE"
  have im: "inMemory ?t (widthBytes W32)" using r by (simp add: inMemory_def)
  have lt: "a < PS2_RAM_SIZE" using r by (simp add: word_less_nat_alt)
  have "writeWidth calls W32 a (ucast v) pc unchecked_context m
      = (Inr (), storeLocated ?t (toBytes 4 (ucast v :: 128 word)) (watched ?t 4 pc (m\<lparr>em_tlb := em_tlb m\<rparr>)))"
    using write_located [OF unchecked_ram [OF lt] im aligned_and [OF al], of calls "ucast v" pc] by simp
  then show "\<exists>m'. mc_write32 (memoryCalls calls c) a v pc m = (Inr (), m')
      \<and> em_rdram m' = storeBytes (unat a) (toBytes 4 v) (em_rdram m)"
    by (simp add: memoryCalls_def storeLocated_def storeRdram_def watched_def observed_def toBytes_ucast through_quad del: toBytes.simps)
next
  fix a :: u32 and m
  let ?t = "\<lparr>ta_physicalAddress = a, ta_scratchpad = False\<rparr>"
  assume al: "unat a mod 4 = 0" and r: "unat a + 4 \<le> unat PS2_RAM_SIZE"
  have im: "inMemory ?t 4" using r by (simp add: inMemory_def)
  have lt: "a < PS2_RAM_SIZE" using r by (simp add: word_less_nat_alt)
  show "\<exists>m'. mc_read32 (memoryCalls calls c) a m = (Inr (ofBytes (loadBytes (unat a) 4 (em_rdram m))), m') \<and> em_rdram m' = em_rdram m"
    using translate_in_memory [OF unchecked_ram [OF lt] im] read_mapped [OF im, where 'a = 32] aligned_and [OF al]
      gs_is_special [of a unchecked_context False 4 True "em_tlb m" ?t 4] unchecked_ram [OF lt] im
      load_is_fetch [of ?t 4 m, symmetric]
    by (auto simp: memoryCalls_def read32_def andThen_def accessAligned_def)
next
  fix va m
  show "em_rdram (snd (mc_translateAddress (memoryCalls calls c) va m)) = em_rdram m"
    by (simp add: memoryCalls_def split: prod.split)
qed (simp add: PS2_RAM_SIZE_def)

section \<open>Properties\<close>

text \<open>The line a write-back operation names: by its index, or by a translated address that hits.\<close>

definition namedLine ::
  "ee_memory device_calls \<Rightarrow> translation_context \<Rightarrow> ee_cache \<Rightarrow> u32 \<Rightarrow> u32 \<Rightarrow> ee_memory \<Rightarrow> u32 option" where
  "namedLine calls c cache op va s =
     (if cacheOperation op = Some Dxwbin then Some (va AND 1)
      else if cacheOperation op = Some Dhwbin \<or> cacheOperation op = Some Dhwoin then
        (case fst (mc_translateAddress (memoryCalls calls c) va s) of
           Inl e \<Rightarrow> None
         | Inr physicalAddress \<Rightarrow> hitWay cache (dIndex va) physicalAddress)
      else None)"


text \<open>A fill takes the 64 bytes of the line around the translated address from the RDRAM into one way, with a tag that
  matches the address, and changes no byte of memory.\<close>

lemma cache_fill_reads:
  assumes "cacheOperation op = Some Ifl" "mc_translateAddress (memoryCalls calls c) va s = (Inr physicalAddress, s1)"
    and "unat (physicalAddress AND NOT (kLineSize - 1)) + 64 \<le> unat PS2_RAM_SIZE"
  shows "\<exists>s' line way. cache_execute (memoryCalls calls c) cache op va tagLo tagHi pc s
      = completed (setInstruction (iIndex va) way line cache) tagLo tagHi s' \<and> em_rdram s' = em_rdram s
    \<and> tagMatchesPhysical (il_tag line) physicalAddress
    \<and> (\<forall>i<64. il_data line (of_nat i) = em_rdram s (unat (physicalAddress AND NOT (kLineSize - 1)) + i))"
  by (rule ee_backing.fill_line [OF assms])

text \<open>A dirty line at \<open>0x1040\<close> of ones, written back by its index.\<close>

definition demoCache :: ee_cache where
  "demoCache = setData 1 0 \<lparr>dl_tag = 0x1060, dl_data = (\<lambda>_. 1)\<rparr> cache_reset"


end
