(* ===== verification/SaveState.thy ===== *)
theory SaveState
  imports ByteOrder
begin

text \<open>
  The save-state container of \<open>ps2xRuntime/src/lib/ps2_save_state.cpp\<close> (\<open>ps2_save_state.h\<close>): the writer and the
  reader of its fields, the checksum, and \<open>encode\<close> and \<open>decode\<close> of a document of chunks. A refused call is the
  left value of a sum, with the message of the source. A \<open>bit_cast\<close> of a signed integer or a floating-point
  number is its bit pattern. The functions that read and write files are not modelled.
\<close>

unbundle bit_operations_syntax

section \<open>Documents\<close>

definition kContainerVersion :: u32 where "kContainerVersion = 1"
definition kMaximumFileSize :: u64 where "kMaximumFileSize = 512 * 1024 * 1024"
definition kMaximumChunkCount :: u32 where "kMaximumChunkCount = 256"
definition kHeaderSize :: u32 where "kHeaderSize = 32"
definition kChunkHeaderSize :: u32 where "kChunkHeaderSize = 32"
definition kFnvOffset :: u64 where "kFnvOffset = 14695981039346656037"
definition kFnvPrime :: u64 where "kFnvPrime = 1099511628211"

text \<open>\<open>P2XSTATE\<close>\<close>

definition kMagic :: "u8 list" where "kMagic = [0x50, 0x32, 0x58, 0x53, 0x54, 0x41, 0x54, 0x45]"

definition ChunkFlags_Required :: u32 where "ChunkFlags_Required = 1"
definition kKnownChunkFlags :: u32 where "kKnownChunkFlags = ChunkFlags_Required"

definition makeChunkId :: "u8 \<Rightarrow> u8 \<Rightarrow> u8 \<Rightarrow> u8 \<Rightarrow> u32" where
  "makeChunkId a b c d = ucast a OR push_bit 8 (ucast b) OR push_bit 16 (ucast c) OR push_bit 24 (ucast d)"

text \<open>Characters as their codes; \<open>?\<close> is \<open>0x3F\<close>.\<close>

definition chunkIdString :: "u32 \<Rightarrow> u8 list" where
  "chunkIdString chunkId = map (\<lambda>index. let v = ucast (drop_bit (index * 8) chunkId) :: u8
     in if v \<ge> 0x20 \<and> v \<le> 0x7E then v else 0x3F) [0..<4]"

record save_chunk =
  ck_id :: u32
  ck_version :: u32
  ck_flags :: u32
  ck_payload :: "u8 list"

record save_document =
  doc_chunks :: "save_chunk list"

definition findChunk :: "u32 \<Rightarrow> save_document \<Rightarrow> save_chunk option" where
  "findChunk chunkId document = find (\<lambda>chunk. ck_id chunk = chunkId) (doc_chunks document)"

definition checksum :: "u8 list \<Rightarrow> u64" where
  "checksum bytes = fold (\<lambda>byte v. (v XOR ucast byte) * kFnvPrime) bytes kFnvOffset"

definition checkedAdd :: "u64 \<Rightarrow> u64 \<Rightarrow> u64 option" where
  "checkedAdd soFar amount = (if amount > u64_max - soFar then None else Some (soFar + amount))"

section \<open>Writer\<close>

type_synonym writer = "u8 list"

definition write_u8 :: "u8 \<Rightarrow> writer \<Rightarrow> writer" where "write_u8 v data = data @ [v]"

definition write_boolean :: "bool \<Rightarrow> writer \<Rightarrow> writer" where "write_boolean v = write_u8 (if v then 1 else 0)"

definition write_u16 :: "u16 \<Rightarrow> writer \<Rightarrow> writer" where
  "write_u16 v data = write_u8 (ucast (drop_bit 8 v)) (write_u8 (ucast v) data)"

definition shifts :: "nat \<Rightarrow> nat list" where "shifts n = map (\<lambda>i. 8 * i) [0..<n]"

definition write_u32 :: "u32 \<Rightarrow> writer \<Rightarrow> writer" where
  "write_u32 v = fold (\<lambda>shift. write_u8 (ucast (drop_bit shift v))) (shifts 4)"

definition write_u64 :: "u64 \<Rightarrow> writer \<Rightarrow> writer" where
  "write_u64 v = fold (\<lambda>shift. write_u8 (ucast (drop_bit shift v))) (shifts 8)"

definition write_i32 :: "u32 \<Rightarrow> writer \<Rightarrow> writer" where "write_i32 = write_u32"
definition write_i64 :: "u64 \<Rightarrow> writer \<Rightarrow> writer" where "write_i64 = write_u64"
definition write_f32 :: "u32 \<Rightarrow> writer \<Rightarrow> writer" where "write_f32 = write_u32"
definition write_f64 :: "u64 \<Rightarrow> writer \<Rightarrow> writer" where "write_f64 = write_u64"

definition write_bytes :: "u8 list \<Rightarrow> writer \<Rightarrow> writer" where "write_bytes v data = data @ v"

definition write_sizedBytes :: "u8 list \<Rightarrow> writer \<Rightarrow> writer" where
  "write_sizedBytes v data = write_bytes v (write_u64 (of_nat (length v)) data)"

definition write_string :: "u8 list \<Rightarrow> writer \<Rightarrow> writer" where "write_string = write_sizedBytes"

section \<open>Reader\<close>

record reader =
  rd_input :: "u8 list"
  rd_offset :: nat

type_synonym 'a read = "reader \<Rightarrow> 'a option \<times> reader"

definition reader_new :: "u8 list \<Rightarrow> reader" where "reader_new input = \<lparr>rd_input = input, rd_offset = 0\<rparr>"

definition remaining :: "reader \<Rightarrow> nat" where "remaining r = length (rd_input r) - rd_offset r"

definition atEnd :: "reader \<Rightarrow> bool" where "atEnd r \<longleftrightarrow> rd_offset r = length (rd_input r)"

definition bindRead :: "'a read \<Rightarrow> ('a \<Rightarrow> 'b read) \<Rightarrow> 'b read" where
  "bindRead first rest r = (case first r of (None, r1) \<Rightarrow> (None, r1) | (Some v, r1) \<Rightarrow> rest v r1)"

definition yields :: "'a \<Rightarrow> 'a read" where "yields v r = (Some v, r)"

definition read_u8 :: "u8 read" where
  "read_u8 r = (if rd_offset r = length (rd_input r) then (None, r)
     else (Some (rd_input r ! rd_offset r), r\<lparr>rd_offset := rd_offset r + 1\<rparr>))"

definition read_boolean :: "bool read" where
  "read_boolean r = (case read_u8 r of
     (None, r1) \<Rightarrow> (None, r1) | (Some encoded, r1) \<Rightarrow> (if encoded > 1 then None else Some (encoded \<noteq> 0), r1))"

definition read_u16 :: "u16 read" where
  "read_u16 = bindRead read_u8 (\<lambda>low. bindRead read_u8 (\<lambda>high. yields (ucast low OR push_bit 8 (ucast high))))"

text \<open>The loops over the shifts.\<close>

primrec readShifts :: "nat list \<Rightarrow> 'a::len word \<Rightarrow> 'a word read" where
  "readShifts [] v = yields v"
| "readShifts (shift # rest) v = bindRead read_u8 (\<lambda>byte. readShifts rest (v OR push_bit shift (ucast byte)))"

definition read_u32 :: "u32 read" where "read_u32 = readShifts (shifts 4) 0"
definition read_u64 :: "u64 read" where "read_u64 = readShifts (shifts 8) 0"
definition read_i32 :: "u32 read" where "read_i32 = read_u32"
definition read_i64 :: "u64 read" where "read_i64 = read_u64"
definition read_f32 :: "u32 read" where "read_f32 = read_u32"
definition read_f64 :: "u64 read" where "read_f64 = read_u64"

definition read_bytes :: "nat \<Rightarrow> u8 list read" where
  "read_bytes n r = (if n > remaining r then (None, r)
     else (Some (take n (drop (rd_offset r) (rd_input r))), r\<lparr>rd_offset := rd_offset r + n\<rparr>))"

definition read_sizedBytes :: "u64 \<Rightarrow> u8 list read" where
  "read_sizedBytes maximumSize r = (case read_u64 r of
     (None, r1) \<Rightarrow> (None, r1)
   | (Some n, r1) \<Rightarrow> if n > maximumSize \<or> unat n > remaining r1 then (None, r1) else read_bytes (unat n) r1)"

definition read_string :: "u64 \<Rightarrow> u8 list read" where "read_string = read_sizedBytes"

section \<open>Encoding\<close>

text \<open>The loop that checks the chunks, with the identifiers seen and the size so far.\<close>

fun checkChunks :: "u32 list \<Rightarrow> u64 \<Rightarrow> save_chunk list \<Rightarrow> string + u64" where
  "checkChunks ids totalSize [] = Inr totalSize"
| "checkChunks ids totalSize (chunk # chunks) =
     (if ck_id chunk \<in> set ids then Inl ''save state contains a duplicate chunk''
      else if ck_flags chunk AND NOT kKnownChunkFlags \<noteq> 0 then Inl ''save state chunk uses unknown flags''
      else case checkedAdd totalSize (ucast kChunkHeaderSize) of
        None \<Rightarrow> Inl ''save state exceeds the maximum file size''
      | Some total1 \<Rightarrow>
          (case checkedAdd total1 (of_nat (length (ck_payload chunk))) of
             None \<Rightarrow> Inl ''save state exceeds the maximum file size''
           | Some total2 \<Rightarrow>
               if total2 > kMaximumFileSize then Inl ''save state exceeds the maximum file size''
               else checkChunks (ck_id chunk # ids) total2 chunks))"

definition writeHeader :: "nat \<Rightarrow> u64 \<Rightarrow> writer \<Rightarrow> writer" where
  "writeHeader count totalSize data =
     write_u64 totalSize (write_u32 0 (write_u32 (of_nat count) (write_u32 kHeaderSize
       (write_u32 kContainerVersion (write_bytes kMagic data)))))"

definition writeChunk :: "save_chunk \<Rightarrow> writer \<Rightarrow> writer" where
  "writeChunk chunk data =
     write_bytes (ck_payload chunk) (write_u64 (checksum (ck_payload chunk)) (write_u64 (of_nat (length (ck_payload chunk)))
       (write_u32 0 (write_u32 (ck_flags chunk) (write_u32 (ck_version chunk) (write_u32 (ck_id chunk) data))))))"

definition encodeDocument :: "save_document \<Rightarrow> string + u8 list" where
  "encodeDocument document =
     (if length (doc_chunks document) > unat kMaximumChunkCount then Inl ''save state has too many chunks''
      else case checkChunks [] (ucast kHeaderSize) (doc_chunks document) of
        Inl e \<Rightarrow> Inl e
      | Inr totalSize \<Rightarrow>
          Inr (fold writeChunk (doc_chunks document) (writeHeader (length (doc_chunks document)) totalSize [])))"

section \<open>Decoding\<close>

definition readHeader :: "(u8 list \<times> u32 \<times> u32 \<times> u32 \<times> u32 \<times> u64) read" where
  "readHeader =
     bindRead (read_bytes (length kMagic)) (\<lambda>magic. if magic \<noteq> kMagic then (\<lambda>r. (None, r)) else
     bindRead read_u32 (\<lambda>containerVersion. bindRead read_u32 (\<lambda>headerSize.
     bindRead read_u32 (\<lambda>chunkCount. bindRead read_u32 (\<lambda>flags. bindRead read_u64 (\<lambda>totalSize.
     yields (magic, containerVersion, headerSize, chunkCount, flags, totalSize)))))))"

definition readChunkHeader :: "(u32 \<times> u32 \<times> u32 \<times> u32 \<times> u64 \<times> u64) read" where
  "readChunkHeader =
     bindRead read_u32 (\<lambda>chunkId. bindRead read_u32 (\<lambda>version. bindRead read_u32 (\<lambda>encodedFlags. bindRead read_u32 (\<lambda>reserved.
     bindRead read_u64 (\<lambda>payloadSize. bindRead read_u64 (\<lambda>encodedChecksum.
     yields (chunkId, version, encodedFlags, reserved, payloadSize, encodedChecksum)))))))"

text \<open>The loop over the chunks: how many are left, the identifiers seen, the chunks so far.\<close>

primrec decodeChunks :: "nat \<Rightarrow> u32 list \<Rightarrow> save_chunk list \<Rightarrow> reader \<Rightarrow> string + (save_chunk list \<times> reader)" where
  "decodeChunks 0 ids chunks r = Inr (chunks, r)"
| "decodeChunks (Suc count) ids chunks r =
     (case readChunkHeader r of
        (None, r1) \<Rightarrow> Inl ''save state chunk header is truncated''
      | (Some (chunkId, version, encodedFlags, reserved, payloadSize, encodedChecksum), r1) \<Rightarrow>
          if reserved \<noteq> 0 \<or> encodedFlags AND NOT kKnownChunkFlags \<noteq> 0 then Inl ''save state chunk header is invalid''
          else if chunkId \<in> set ids then Inl ''save state contains a duplicate chunk''
          else if payloadSize > kMaximumFileSize then Inl ''save state chunk payload is truncated''
          else (case read_bytes (unat payloadSize) r1 of
             (None, r2) \<Rightarrow> Inl ''save state chunk payload is truncated''
           | (Some payload, r2) \<Rightarrow>
               if checksum payload \<noteq> encodedChecksum then Inl ''save state chunk checksum mismatch''
               else decodeChunks count (chunkId # ids)
                      (chunks @ [\<lparr>ck_id = chunkId, ck_version = version, ck_flags = encodedFlags, ck_payload = payload\<rparr>]) r2))"

definition decodeDocument :: "u8 list \<Rightarrow> string + save_document" where
  "decodeDocument input =
     (if length input < unat kHeaderSize then Inl ''save state header is truncated''
      else if length input > unat kMaximumFileSize then Inl ''save state exceeds the maximum file size''
      else case readHeader (reader_new input) of
        (None, r) \<Rightarrow> Inl ''save state header is invalid''
      | (Some (magic, containerVersion, headerSize, chunkCount, flags, totalSize), r) \<Rightarrow>
          if containerVersion \<noteq> kContainerVersion then Inl ''unsupported save state container version''
          else if headerSize \<noteq> kHeaderSize \<or> flags \<noteq> 0 \<or> unat totalSize \<noteq> length input
            then Inl ''save state header fields are inconsistent''
          else if chunkCount > kMaximumChunkCount then Inl ''save state has too many chunks''
          else (case decodeChunks (unat chunkCount) [] [] r of
             Inl e \<Rightarrow> Inl e
           | Inr (chunks, r1) \<Rightarrow>
               if \<not> atEnd r1 then Inl ''save state contains trailing bytes'' else Inr \<lparr>doc_chunks = chunks\<rparr>))"

end
