(* ===== verification/SaveStateFacts.thy ===== *)
theory SaveStateFacts
  imports SaveState
begin

text \<open>
  What the save-state reader and writer do, as bytes: the bytes of a chunk and of a document, a small theory of
  parsers (the values and the bytes a reader relates), the documents that \<open>encode\<close> and \<open>decode\<close> accept, and the
  checksum, whose steps are injective.
\<close>

unbundle bit_operations_syntax

section \<open>Writing\<close>

lemma shifts_simps: "shifts 4 = [0, 8, 16, 24]" "shifts 8 = [0, 8, 16, 24, 32, 40, 48, 56]"
  by (simp_all add: shifts_def upt_rec)

lemma fold_write: "fold (\<lambda>shift. write_u8 (f shift)) xs data = data @ map f xs"
  by (induction xs arbitrary: data) (simp_all add: write_u8_def)

lemma shifted_bytes: "map (\<lambda>shift. ucast (drop_bit shift v)) (shifts n) = toBytes n v"
  by (rule nth_equalityI) (simp_all add: shifts_def toBytes_nth)

lemma written_words: "write_u32 v data = data @ toBytes 4 v" "write_u64 w data = data @ toBytes 8 w"
  by (simp_all add: write_u32_def write_u64_def fold_write shifted_bytes)

definition headerBytes :: "nat \<Rightarrow> u64 \<Rightarrow> u8 list" where
  "headerBytes count totalSize = kMagic @ toBytes 4 kContainerVersion @ toBytes 4 kHeaderSize @ toBytes 4 (of_nat count :: u32)
     @ toBytes 4 (0 :: u32) @ toBytes 8 totalSize"

definition chunkBytes :: "save_chunk \<Rightarrow> u8 list" where
  "chunkBytes chunk = toBytes 4 (ck_id chunk) @ toBytes 4 (ck_version chunk) @ toBytes 4 (ck_flags chunk) @ toBytes 4 (0 :: u32)
     @ toBytes 8 (of_nat (length (ck_payload chunk)) :: u64) @ toBytes 8 (checksum (ck_payload chunk)) @ ck_payload chunk"

lemma writeHeader_bytes: "writeHeader count totalSize data = data @ headerBytes count totalSize"
  by (simp add: writeHeader_def headerBytes_def written_words write_bytes_def)

lemma writeChunk_bytes: "fold writeChunk chunks data = data @ concat (map chunkBytes chunks)"
  by (induction chunks arbitrary: data) (simp_all add: writeChunk_def chunkBytes_def written_words write_bytes_def)

lemma length_chunkBytes [simp]: "length (chunkBytes chunk) = 32 + length (ck_payload chunk)"
  by (simp add: chunkBytes_def)

lemma length_headerBytes [simp]: "length (headerBytes count totalSize) = 32"
  by (simp add: headerBytes_def kMagic_def)

section \<open>Reading\<close>

text \<open>A reader in front of what is left.\<close>

definition rest :: "reader \<Rightarrow> u8 list" where "rest r = drop (rd_offset r) (rd_input r)"

definition rd_ok :: "reader \<Rightarrow> bool" where "rd_ok r \<longleftrightarrow> rd_offset r \<le> length (rd_input r)"

definition advance :: "nat \<Rightarrow> reader \<Rightarrow> reader" where "advance n r = r\<lparr>rd_offset := rd_offset r + n\<rparr>"

lemma advance_simps [simp]:
  "rest (advance n r) = drop n (rest r)" "advance 0 r = r" "advance n (advance k r) = advance (k + n) r"
  by (simp_all add: rest_def advance_def add.commute)

lemma rd_ok_advance: "rd_ok r \<Longrightarrow> n \<le> length (rest r) \<Longrightarrow> rd_ok (advance n r)"
  by (simp add: rd_ok_def advance_def rest_def)

lemma read_u8_rest:
  assumes "rd_ok r"
  shows "read_u8 r = (case rest r of [] \<Rightarrow> (None, r) | b # bs \<Rightarrow> (Some b, advance 1 r))"
proof (cases "rd_offset r = length (rd_input r)")
  case True
  then show ?thesis by (simp add: read_u8_def rest_def)
next
  case False
  then have "rd_offset r < length (rd_input r)" using assms by (simp add: rd_ok_def)
  then show ?thesis using False by (simp add: read_u8_def rest_def advance_def Cons_nth_drop_Suc [symmetric])
qed

text \<open>A word: all its bytes, or a failure.\<close>

lemma readShifts_rest:
  fixes v :: "'a::len word"
  assumes "rd_ok r"
  shows "if k \<le> length (rest r)
    then readShifts (map (\<lambda>i. 8 * i) [j..<j + k]) v r = (Some (v OR push_bit (8 * j) (ofBytes (take k (rest r)))), advance k r)
    else \<exists>r'. readShifts (map (\<lambda>i. 8 * i) [j..<j + k]) v r = (None, r')"
  using assms
proof (induction k arbitrary: j v r)
  case 0
  then show ?case by (simp add: yields_def)
next
  case (Suc k)
  have l: "map (\<lambda>i. 8 * i) [j..<j + Suc k] = (8 * j) # map (\<lambda>i. 8 * i) [Suc j..<Suc j + k]"
    by (simp add: upt_conv_Cons del: upt_Suc)
  show ?case
  proof (cases "rest r")
    case Nil
    then show ?thesis unfolding l using Suc.prems by (simp add: bindRead_def read_u8_rest)
  next
    case (Cons b bs)
    have ok: "rd_ok (advance 1 r)" using Suc.prems Cons by (intro rd_ok_advance) simp_all
    have e: "(v OR push_bit (8 * j) (ucast b)) OR push_bit (8 * Suc j) (ofBytes (take k bs))
        = v OR push_bit (8 * j) (ucast b OR push_bit 8 (ofBytes (take k bs)))"
      by (rule bit_word_eqI) (auto simp: bit_simps add.commute)
    show ?thesis unfolding l
      using Suc.IH [OF ok, of "Suc j" "v OR push_bit (8 * j) (ucast b)"] Suc.prems Cons e
      by (auto simp: bindRead_def read_u8_rest split: if_splits)
  qed
qed

lemma read_word:
  assumes "rd_ok r"
  shows "4 \<le> length (rest r) \<Longrightarrow> read_u32 r = (Some (ofBytes (take 4 (rest r))), advance 4 r)"
    "length (rest r) < 4 \<Longrightarrow> fst (read_u32 r) = None"
    "8 \<le> length (rest r) \<Longrightarrow> read_u64 r = (Some (ofBytes (take 8 (rest r))), advance 8 r)"
    "length (rest r) < 8 \<Longrightarrow> fst (read_u64 r) = None"
  using readShifts_rest [OF assms, of 4 0 "0 :: u32"] readShifts_rest [OF assms, of 8 0 "0 :: u64"]
  by (auto simp: read_u32_def read_u64_def shifts_def split: if_splits)

lemma read_bytes_rest:
  "rd_ok r \<Longrightarrow> read_bytes n r = (if n \<le> length (rest r) then (Some (take n (rest r)), advance n r) else (None, r))"
  by (auto simp: read_bytes_def remaining_def rest_def advance_def)

lemma atEnd_rest: "rd_ok r \<Longrightarrow> atEnd r \<longleftrightarrow> rest r = []"
  by (auto simp: atEnd_def rest_def rd_ok_def)

text \<open>
  A reader parses a relation between values and bytes: it gives a value exactly when bytes of that value stand in
  front, and leaves what follows them.
\<close>

definition parses :: "'a read \<Rightarrow> ('a \<Rightarrow> u8 list \<Rightarrow> bool) \<Rightarrow> bool" where
  "parses p R \<longleftrightarrow> (\<forall>r v r'. rd_ok r \<longrightarrow> (p r = (Some v, r') \<longleftrightarrow>
     (\<exists>bs. R v bs \<and> rest r = bs @ rest r' \<and> r' = advance (length bs) r \<and> rd_ok r')))"

lemma parsesD:
  "parses p R \<Longrightarrow> rd_ok r \<Longrightarrow> p r = (Some v, r') \<longleftrightarrow> (\<exists>bs. R v bs \<and> rest r = bs @ rest r' \<and> r' = advance (length bs) r \<and> rd_ok r')"
  by (simp only: parses_def)

lemma word_prefix:
  fixes w :: "'a::len word"
  assumes "n \<le> length xs" "LENGTH('a) = 8 * n"
  shows "ofBytes (take n xs) = w \<longleftrightarrow> xs = toBytes n w @ drop n xs"
proof
  assume "ofBytes (take n xs) = w"
  then have "toBytes n w = take n xs" using to_ofBytes [of "take n xs", where 'a = 'a] assms by auto
  then show "xs = toBytes n w @ drop n xs" by simp
next
  assume "xs = toBytes n w @ drop n xs"
  then have "take n xs = toBytes n w" by (metis append_eq_conv_conj length_toBytes)
  then show "ofBytes (take n xs) = w" using assms by (simp add: of_toBytes_full)
qed

lemma no_word: "length xs < n \<Longrightarrow> xs \<noteq> toBytes n w @ ys"
  by (metis length_append length_toBytes not_add_less1)

lemma parses_total:
  assumes "\<And>r. rd_ok r \<Longrightarrow> if n \<le> length (rest r) then p r = (Some (f (take n (rest r))), advance n r) else fst (p r) = None"
    and "\<And>xs v. n \<le> length xs \<Longrightarrow> f (take n xs) = v \<longleftrightarrow> (\<exists>bs. R v bs \<and> xs = bs @ drop n xs)"
    and "\<And>v bs. R v bs \<Longrightarrow> length bs = n"
  shows "parses p R"
  unfolding parses_def
proof (intro allI impI)
  fix r v r' assume ok: "rd_ok r"
  show "p r = (Some v, r') \<longleftrightarrow> (\<exists>bs. R v bs \<and> rest r = bs @ rest r' \<and> r' = advance (length bs) r \<and> rd_ok r')"
  proof (cases "n \<le> length (rest r)")
    case True
    then have "p r = (Some v, r') \<longleftrightarrow> f (take n (rest r)) = v \<and> r' = advance n r" using assms(1) [OF ok] by auto
    also have "\<dots> \<longleftrightarrow> (\<exists>bs. R v bs \<and> rest r = bs @ rest (advance n r)) \<and> r' = advance n r"
      unfolding assms(2) [OF True] advance_simps(1) ..
    finally show ?thesis using assms(3) rd_ok_advance [OF ok True] by metis
  next
    case False
    then have "p r \<noteq> (Some v, r')" using assms(1) [OF ok] by auto
    moreover have "\<not> (R v bs \<and> rest r = bs @ rest r')" for bs
      using False assms(3) [of v bs] by (metis length_append le_add1)
    ultimately show ?thesis by blast
  qed
qed

lemma parses_u32: "parses read_u32 (\<lambda>v bs. bs = toBytes 4 v)"
  using read_word(1, 2) by (intro parses_total [where n = 4 and f = ofBytes]) (auto simp: word_prefix)

lemma parses_u64: "parses read_u64 (\<lambda>v bs. bs = toBytes 8 v)"
  using read_word(3, 4) by (intro parses_total [where n = 8 and f = ofBytes]) (auto simp: word_prefix)

lemma parses_bytes: "parses (read_bytes n) (\<lambda>v bs. bs = v \<and> length v = n)"
proof (rule parses_total [where n = n and f = "\<lambda>xs. xs"])
  show "take n xs = v \<longleftrightarrow> (\<exists>bs. (bs = v \<and> length v = n) \<and> xs = bs @ drop n xs)" if "n \<le> length xs" for xs v :: "u8 list"
    using that by (metis append_eq_conv_conj append_take_drop_id length_take min.absorb2)
qed (simp_all add: read_bytes_rest)

lemma parses_yields: "parses (yields c) (\<lambda>v bs. v = c \<and> bs = [])"
  by (auto simp: parses_def yields_def)

lemma parses_fails: "parses (\<lambda>r. (None, r)) (\<lambda>v bs. False)"
  by (simp add: parses_def)

lemma parses_bind:
  assumes p: "parses p R" and q: "\<And>x. parses (q x) (S x)"
  shows "parses (bindRead p q) (\<lambda>v bs. \<exists>x b1 b2. R x b1 \<and> S x v b2 \<and> bs = b1 @ b2)"
  unfolding parses_def
proof (intro allI impI)
  fix r v r' assume ok: "rd_ok r"
  have "bindRead p q r = (Some v, r') \<longleftrightarrow> (\<exists>x r1. p r = (Some x, r1) \<and> q x r1 = (Some v, r'))"
    by (cases "p r") (auto simp: bindRead_def split: option.splits)
  also have "\<dots> \<longleftrightarrow> (\<exists>x r1 b1. R x b1 \<and> rest r = b1 @ rest r1 \<and> r1 = advance (length b1) r \<and> rd_ok r1 \<and> q x r1 = (Some v, r'))"
    unfolding parsesD [OF p ok] by blast
  also have "\<dots> \<longleftrightarrow> (\<exists>x r1 b1. R x b1 \<and> rest r = b1 @ rest r1 \<and> r1 = advance (length b1) r \<and> rd_ok r1 \<and>
      (\<exists>b2. S x v b2 \<and> rest r1 = b2 @ rest r' \<and> r' = advance (length b2) r1 \<and> rd_ok r'))"
    by (intro arg_cong [where f = Ex] ext conj_cong refl parsesD [OF q])
  also have "\<dots> \<longleftrightarrow> (\<exists>bs. (\<exists>x b1 b2. R x b1 \<and> S x v b2 \<and> bs = b1 @ b2) \<and> rest r = bs @ rest r' \<and> r' = advance (length bs) r \<and> rd_ok r')"
    (is "?l \<longleftrightarrow> ?r")
  proof
    assume ?l
    then obtain x r1 b1 b2 where *: "R x b1" "rest r = b1 @ rest r1" "r1 = advance (length b1) r" "S x v b2"
      "rest r1 = b2 @ rest r'" "r' = advance (length b2) r1" "rd_ok r'" by blast
    have "r' = advance (length (b1 @ b2)) r" unfolding *(6) *(3) by simp
    then show ?r using *(1,2,4,5,7) by (metis append_assoc)
  next
    assume ?r
    then obtain x b1 b2 where *: "R x b1" "S x v b2" "rest r = (b1 @ b2) @ rest r'" "r' = advance (length (b1 @ b2)) r" "rd_ok r'"
      by blast
    have r1: "rest (advance (length b1) r) = b2 @ rest r'" unfolding advance_simps(1) *(3) by simp
    have ok1: "rd_ok (advance (length b1) r)" by (rule rd_ok_advance [OF ok]) (simp only: *(3) length_append)
    have e: "rest r = b1 @ rest (advance (length b1) r)" unfolding r1 using *(3) by (simp only: append_assoc)
    have "r' = advance (length b2) (advance (length b1) r)" using *(4) by (simp only: advance_simps(3) length_append)
    then show ?l using *(1,2,5) r1 ok1 e by blast
  qed
  finally show "bindRead p q r = (Some v, r') \<longleftrightarrow> (\<exists>bs. (\<exists>x b1 b2. R x b1 \<and> S x v b2 \<and> bs = b1 @ b2) \<and> rest r = bs @ rest r'
      \<and> r' = advance (length bs) r \<and> rd_ok r')" .
qed

lemma parses_mono: "parses p R \<Longrightarrow> (\<And>v bs. R v bs \<longleftrightarrow> S v bs) \<Longrightarrow> parses p S"
  by (simp only: parses_def)

section \<open>Headers\<close>

fun chunkHeaderBytes :: "u32 \<times> u32 \<times> u32 \<times> u32 \<times> u64 \<times> u64 \<Rightarrow> u8 list" where
  "chunkHeaderBytes (chunkId, version, fl, reserved, sz, ck) =
     toBytes 4 chunkId @ toBytes 4 version @ toBytes 4 fl @ toBytes 4 reserved @ toBytes 8 sz @ toBytes 8 ck"

lemma parses_readChunkHeader: "parses readChunkHeader (\<lambda>v bs. bs = chunkHeaderBytes v)"
  unfolding readChunkHeader_def
  by (rule parses_mono, (rule parses_bind parses_u32 parses_u64 parses_yields)+) auto

lemma readChunkHeader_iff:
  assumes "rd_ok r"
  shows "readChunkHeader r = (Some v, r') \<longleftrightarrow> rest r = chunkHeaderBytes v @ rest r' \<and> r' = advance 32 r \<and> rd_ok r'"
proof -
  have "length (chunkHeaderBytes v) = 32" by (cases v) simp
  then show ?thesis unfolding parsesD [OF parses_readChunkHeader assms] by metis
qed

lemma read_bytes_iff:
  assumes "rd_ok r"
  shows "read_bytes n r = (Some v, r') \<longleftrightarrow> rest r = v @ rest r' \<and> r' = advance n r \<and> length v = n \<and> rd_ok r'"
  unfolding parsesD [OF parses_bytes assms] by metis

lemma parses_guarded: "parses p R \<Longrightarrow> parses (if b then (\<lambda>r. (None, r)) else p) (\<lambda>v bs. \<not> b \<and> R v bs)"
  by (simp add: parses_def)

lemma parses_readHeader:
  "parses readHeader (\<lambda>(magic, version, sz, count, fl, totalSize) bs. magic = kMagic \<and>
     bs = kMagic @ toBytes 4 version @ toBytes 4 sz @ toBytes 4 count @ toBytes 4 fl @ toBytes 8 totalSize)"
  unfolding readHeader_def
  by (rule parses_mono, (rule parses_bind parses_guarded parses_bytes parses_u32 parses_u64 parses_yields)+) auto

section \<open>The chunks\<close>

text \<open>What both directions ask of the chunks, given the identifiers already seen.\<close>

fun chunksOk :: "u32 list \<Rightarrow> save_chunk list \<Rightarrow> bool" where
  "chunksOk ids [] \<longleftrightarrow> True"
| "chunksOk ids (chunk # chunks) \<longleftrightarrow> ck_id chunk \<notin> set ids \<and> ck_flags chunk AND NOT kKnownChunkFlags = 0
     \<and> length (ck_payload chunk) \<le> unat kMaximumFileSize \<and> chunksOk (ck_id chunk # ids) chunks"

definition chunksBytes :: "save_chunk list \<Rightarrow> u8 list" where "chunksBytes chunks = concat (map chunkBytes chunks)"

lemma chunksBytes_simps [simp]:
  "chunksBytes [] = []" "chunksBytes (chunk # chunks) = chunkBytes chunk @ chunksBytes chunks"
  by (simp_all add: chunksBytes_def)

lemma small_payload: "n \<le> unat kMaximumFileSize \<Longrightarrow> unat (of_nat n :: u64) = n"
  by (simp add: kMaximumFileSize_def unat_of_nat take_bit_nat_def)

text \<open>One turn of the loop over the chunks, on success.\<close>

lemma parses_chunk:
  assumes "rd_ok r"
  shows "(\<exists>chunkId version fl sz ck r1 payload. readChunkHeader r = (Some (chunkId, version, fl, 0, sz, ck), r1)
      \<and> sz \<le> kMaximumFileSize \<and> read_bytes (unat sz) r1 = (Some payload, r2) \<and> checksum payload = ck
      \<and> chunk = \<lparr>ck_id = chunkId, ck_version = version, ck_flags = fl, ck_payload = payload\<rparr>)
    \<longleftrightarrow> rest r = chunkBytes chunk @ rest r2 \<and> length (ck_payload chunk) \<le> unat kMaximumFileSize
      \<and> r2 = advance (length (chunkBytes chunk)) r \<and> rd_ok r2" (is "?l \<longleftrightarrow> ?r")
proof
  assume ?l
  then obtain chunkId version fl sz ck r1 payload where h: "readChunkHeader r = (Some (chunkId, version, fl, 0, sz, ck), r1)"
    and s: "sz \<le> kMaximumFileSize" and p: "read_bytes (unat sz) r1 = (Some payload, r2)" and c: "checksum payload = ck"
    and k: "chunk = \<lparr>ck_id = chunkId, ck_version = version, ck_flags = fl, ck_payload = payload\<rparr>" by blast
  have h': "rest r = chunkHeaderBytes (chunkId, version, fl, 0, sz, ck) @ rest r1" "r1 = advance 32 r" "rd_ok r1"
    using h unfolding readChunkHeader_iff [OF assms] by blast+
  have p': "rest r1 = payload @ rest r2" "r2 = advance (unat sz) r1" "length payload = unat sz" "rd_ok r2"
    using p unfolding read_bytes_iff [OF h'(3)] by blast+
  have n: "(of_nat (length payload) :: u64) = sz" unfolding p'(3) by simp
  have "rest r = chunkBytes chunk @ rest r2" unfolding h'(1) p'(1) by (simp add: chunkBytes_def k c n)
  moreover have "length (ck_payload chunk) \<le> unat kMaximumFileSize" using s by (simp add: k p'(3) word_le_nat_alt)
  moreover have "r2 = advance (length (chunkBytes chunk)) r" unfolding p'(2) h'(2) by (simp add: k p'(3))
  ultimately show ?r using p'(4) by blast
next
  assume ?r
  then have r: "rest r = chunkBytes chunk @ rest r2" and l: "length (ck_payload chunk) \<le> unat kMaximumFileSize"
    and a: "r2 = advance (length (chunkBytes chunk)) r" and ok2: "rd_ok r2" by blast+
  obtain chunkId version fl payload where
    k: "chunk = \<lparr>ck_id = chunkId, ck_version = version, ck_flags = fl, ck_payload = payload\<rparr>" by (cases chunk) auto
  let ?n = "of_nat (length payload) :: u64"
  have r': "rest r = chunkHeaderBytes (chunkId, version, fl, 0, ?n, checksum payload) @ payload @ rest r2"
    unfolding r by (simp add: chunkBytes_def k)
  define r1 where "r1 = advance 32 r"
  have ok1: "rd_ok r1" unfolding r1_def by (rule rd_ok_advance [OF assms]) (simp only: r length_append length_chunkBytes)
  have e1: "rest r1 = payload @ rest r2" unfolding r1_def advance_simps(1) unfolding r' by simp
  have e2: "r2 = advance (length payload) r1" unfolding a r1_def by (simp add: k)
  have n: "unat ?n = length payload" using l by (simp add: k small_payload)
  have "readChunkHeader r = (Some (chunkId, version, fl, 0, ?n, checksum payload), r1)"
    unfolding readChunkHeader_iff [OF assms] using r' e1 r1_def ok1 by metis
  moreover have "read_bytes (unat ?n) r1 = (Some payload, r2)"
    unfolding n read_bytes_iff [OF ok1] using e1 e2 ok2 by blast
  moreover have "?n \<le> kMaximumFileSize" using l by (simp add: word_le_nat_alt k small_payload)
  ultimately show ?l using k by blast
qed

lemma decodeChunks_step:
  "decodeChunks (Suc n) ids acc r = Inr (cs, r') \<longleftrightarrow> (\<exists>chunk r2.
     (\<exists>chunkId version fl sz ck r1 payload. readChunkHeader r = (Some (chunkId, version, fl, 0, sz, ck), r1)
      \<and> sz \<le> kMaximumFileSize \<and> read_bytes (unat sz) r1 = (Some payload, r2) \<and> checksum payload = ck
      \<and> chunk = \<lparr>ck_id = chunkId, ck_version = version, ck_flags = fl, ck_payload = payload\<rparr>)
     \<and> ck_flags chunk AND NOT kKnownChunkFlags = 0 \<and> ck_id chunk \<notin> set ids
     \<and> decodeChunks n (ck_id chunk # ids) (acc @ [chunk]) r2 = Inr (cs, r'))" (is "_ \<longleftrightarrow> ?r")
proof -
  obtain v r1 where h: "readChunkHeader r = (v, r1)" by fastforce
  show ?thesis
  proof (cases v)
    case None
    then show ?thesis by (simp add: h)
  next
    case (Some w)
    obtain chunkId version fl reserved sz ck where w: "w = (chunkId, version, fl, reserved, sz, ck)" by (cases w)
    obtain p r2 where b: "read_bytes (unat sz) r1 = (p, r2)" by fastforce
    show ?thesis by (cases p) (auto simp: h Some w b not_le)
  qed
qed

lemma decodeChunks_iff:
  "rd_ok r \<Longrightarrow> decodeChunks n ids acc r = Inr (cs, r') \<longleftrightarrow> (\<exists>new. length new = n \<and> cs = acc @ new \<and> chunksOk ids new
     \<and> rest r = chunksBytes new @ rest r' \<and> r' = advance (length (chunksBytes new)) r \<and> rd_ok r')"
proof (induction n arbitrary: ids acc r)
  case 0
  then show ?case by auto
next
  case (Suc n)
  let ?tail = "\<lambda>ids acc r new. length new = n \<and> cs = acc @ new \<and> chunksOk ids new
     \<and> rest r = chunksBytes new @ rest r' \<and> r' = advance (length (chunksBytes new)) r \<and> rd_ok r'"
  let ?head = "\<lambda>chunk r2. rest r = chunkBytes chunk @ rest r2 \<and> length (ck_payload chunk) \<le> unat kMaximumFileSize
     \<and> r2 = advance (length (chunkBytes chunk)) r \<and> rd_ok r2"
  have ih: "decodeChunks n (ck_id chunk # ids) (acc @ [chunk]) r2 = Inr (cs, r') \<longleftrightarrow> (\<exists>new. ?tail (ck_id chunk # ids) (acc @ [chunk]) r2 new)"
    if "rd_ok r2" for chunk r2 by (rule Suc.IH [OF that])
  have "decodeChunks (Suc n) ids acc r = Inr (cs, r') \<longleftrightarrow> (\<exists>chunk r2. ?head chunk r2 \<and> ck_flags chunk AND NOT kKnownChunkFlags = 0
      \<and> ck_id chunk \<notin> set ids \<and> (\<exists>new. ?tail (ck_id chunk # ids) (acc @ [chunk]) r2 new))"
    unfolding decodeChunks_step parses_chunk [OF Suc.prems] using ih by blast
  also have "\<dots> \<longleftrightarrow> (\<exists>new. length new = Suc n \<and> cs = acc @ new \<and> chunksOk ids new
     \<and> rest r = chunksBytes new @ rest r' \<and> r' = advance (length (chunksBytes new)) r \<and> rd_ok r')" (is "?l \<longleftrightarrow> ?r")
  proof
    assume ?l
    then obtain chunk r2 new where h: "rest r = chunkBytes chunk @ rest r2" "length (ck_payload chunk) \<le> unat kMaximumFileSize"
        "r2 = advance (length (chunkBytes chunk)) r" "ck_flags chunk AND NOT kKnownChunkFlags = 0" "ck_id chunk \<notin> set ids"
      and t: "length new = n" "cs = (acc @ [chunk]) @ new" "chunksOk (ck_id chunk # ids) new" "rest r2 = chunksBytes new @ rest r'"
        "r' = advance (length (chunksBytes new)) r2" "rd_ok r'" by blast
    have "rest r = chunksBytes (chunk # new) @ rest r'" unfolding h(1) t(4) by simp
    moreover have "r' = advance (length (chunksBytes (chunk # new))) r" unfolding t(5) h(3) by simp
    moreover have "length (chunk # new) = Suc n" "cs = acc @ chunk # new" "chunksOk ids (chunk # new)"
      using h(2,4,5) t(1,2,3) by simp_all
    ultimately show ?r using t(6) by blast
  next
    assume ?r
    then obtain new' where n: "length new' = Suc n" "cs = acc @ new'" "chunksOk ids new'" "rest r = chunksBytes new' @ rest r'"
      "r' = advance (length (chunksBytes new')) r" "rd_ok r'" by blast
    then obtain chunk new where c: "new' = chunk # new" by (cases new') auto
    define r2 where "r2 = advance (length (chunkBytes chunk)) r"
    have e: "rest r2 = chunksBytes new @ rest r'"
      unfolding r2_def advance_simps(1) unfolding n(4) c chunksBytes_simps append_assoc append_eq_conv_conj [symmetric] by simp
    have o: "rd_ok r2" unfolding r2_def
      by (rule rd_ok_advance [OF Suc.prems]) (simp only: n(4) c chunksBytes_simps length_append append_assoc)
    have f: "rest r = chunkBytes chunk @ rest r2" unfolding e n(4) c by simp
    have g: "r' = advance (length (chunksBytes new)) r2" unfolding n(5) r2_def c by simp
    have t: "length new = n" "cs = (acc @ [chunk]) @ new" "chunksOk (ck_id chunk # ids) new"
      "length (ck_payload chunk) \<le> unat kMaximumFileSize" "ck_flags chunk AND NOT kKnownChunkFlags = 0" "ck_id chunk \<notin> set ids"
      using n(1,2,3) c by simp_all
    show ?l using t e o f g r2_def n(6) by blast
  qed
  finally show ?case .
qed

section \<open>Documents\<close>

text \<open>What a \<open>std::vector\<close> can hold.\<close>

definition addressable :: "save_document \<Rightarrow> bool" where
  "addressable document \<longleftrightarrow> list_all (\<lambda>chunk. length (ck_payload chunk) < 2 ^ 64) (doc_chunks document)"

lemma checkedAdd_Some:
  "checkedAdd soFar amount = (if unat soFar + unat amount < 2 ^ 64 then Some (soFar + amount) else None)"
proof -
  have "unat (u64_max - soFar) = 2 ^ 64 - 1 - unat soFar" using unat_sub_le [of soFar u64_max] by simp
  then have "amount > u64_max - soFar \<longleftrightarrow> \<not> unat soFar + unat amount < 2 ^ 64"
    using u64_le_max [of soFar] unfolding word_le_nat_alt unat_u64_max by (auto simp: word_less_nat_alt)
  then show ?thesis by (simp add: checkedAdd_def)
qed

lemma checkChunks_iff:
  assumes "list_all (\<lambda>chunk. length (ck_payload chunk) < 2 ^ 64) cs" "unat soFar \<le> unat kMaximumFileSize"
  shows "checkChunks ids soFar cs = Inr t \<longleftrightarrow> chunksOk ids cs \<and> unat soFar + length (chunksBytes cs) \<le> unat kMaximumFileSize
    \<and> unat t = unat soFar + length (chunksBytes cs)"
  using assms
proof (induction cs arbitrary: ids soFar)
  case Nil
  then show ?case by (auto simp: word_unat_eq_iff)
next
  case (Cons chunk cs)
  let ?n = "length (ck_payload chunk)"
  have n: "unat (of_nat ?n :: u64) = ?n" using Cons.prems(1) by (simp add: unat_of_nat take_bit_nat_eq_self)
  have m: "unat kMaximumFileSize < 2 ^ 63" by (simp add: kMaximumFileSize_def)
  have k: "unat (ucast kChunkHeaderSize :: u64) = 32" by (simp add: kChunkHeaderSize_def)
  have s1: "checkedAdd soFar (ucast kChunkHeaderSize) = Some (soFar + ucast kChunkHeaderSize)"
    using Cons.prems(2) m by (simp add: checkedAdd_Some k)
  have u1: "unat (soFar + ucast kChunkHeaderSize) = unat soFar + 32"
    using Cons.prems(2) m by (subst unat_add_lem [THEN iffD1]) (simp_all add: k)
  show ?case
  proof (cases "unat soFar + 32 + ?n \<le> unat kMaximumFileSize")
    case True
    let ?t = "soFar + ucast kChunkHeaderSize + of_nat ?n"
    have s2: "checkedAdd (soFar + ucast kChunkHeaderSize) (of_nat ?n) = Some ?t" using True m by (simp add: checkedAdd_Some u1 n)
    have u2: "unat ?t = unat soFar + 32 + ?n" using True m by (subst unat_add_lem [THEN iffD1]) (simp_all add: u1 n)
    have c: "checkChunks ids soFar (chunk # cs) = Inr t \<longleftrightarrow> ck_id chunk \<notin> set ids \<and> ck_flags chunk AND NOT kKnownChunkFlags = 0
        \<and> checkChunks (ck_id chunk # ids) ?t cs = Inr t"
      using True by (simp add: s1 s2 word_less_nat_alt u2)
    show ?thesis unfolding c using Cons.IH [of ?t "ck_id chunk # ids"] Cons.prems(1) True by (auto simp: u2)
  next
    case False
    have "checkChunks ids soFar (chunk # cs) \<noteq> Inr t"
    proof (cases "unat soFar + 32 + ?n < 2 ^ 64")
      case True
      have "unat (soFar + ucast kChunkHeaderSize + of_nat ?n) = unat soFar + 32 + ?n"
        using True by (subst unat_add_lem [THEN iffD1]) (simp_all add: u1 n)
      then show ?thesis using True False by (simp add: s1 checkedAdd_Some u1 n word_less_nat_alt)
    next
      case over: False
      then show ?thesis by (simp add: s1 checkedAdd_Some u1 n)
    qed
    then show ?thesis using False by simp
  qed
qed

text \<open>The documents of the format, and their bytes.\<close>

definition documentOk :: "save_document \<Rightarrow> bool" where
  "documentOk document \<longleftrightarrow> length (doc_chunks document) \<le> 256 \<and> chunksOk [] (doc_chunks document)
     \<and> 32 + length (chunksBytes (doc_chunks document)) \<le> unat kMaximumFileSize"

definition documentBytes :: "save_document \<Rightarrow> u8 list" where
  "documentBytes document = headerBytes (length (doc_chunks document)) (of_nat (32 + length (chunksBytes (doc_chunks document))))
     @ chunksBytes (doc_chunks document)"

lemma encode_iff:
  assumes "addressable document"
  shows "encodeDocument document = Inr output \<longleftrightarrow> documentOk document \<and> output = documentBytes document"
proof -
  let ?cs = "doc_chunks document"
  have k: "unat (ucast kHeaderSize :: u64) = 32" by (simp add: kHeaderSize_def)
  have c: "checkChunks [] (ucast kHeaderSize) ?cs = Inr t \<longleftrightarrow> chunksOk [] ?cs \<and> 32 + length (chunksBytes ?cs) \<le> unat kMaximumFileSize
      \<and> unat t = 32 + length (chunksBytes ?cs)" for t
    using checkChunks_iff [of ?cs "ucast kHeaderSize" "[]" t] assms by (simp add: addressable_def k kMaximumFileSize_def)
  have u: "unat t = n \<longleftrightarrow> t = of_nat n" if "n \<le> unat kMaximumFileSize" for t :: u64 and n
    using that by (auto simp: small_payload)
  have e: "fold writeChunk ?cs (writeHeader (length ?cs) t []) = headerBytes (length ?cs) t @ chunksBytes ?cs" for t
    by (simp add: writeHeader_bytes writeChunk_bytes chunksBytes_def)
  show ?thesis
  proof (cases "checkChunks [] (ucast kHeaderSize) ?cs")
    case (Inl x)
    then have "\<not> documentOk document" using c [of "of_nat (32 + length (chunksBytes ?cs))"] u
      by (auto simp: documentOk_def)
    then show ?thesis by (simp add: encodeDocument_def Inl)
  next
    case (Inr t)
    then show ?thesis using c [of t] u by (auto simp: encodeDocument_def documentOk_def documentBytes_def e kMaximumChunkCount_def)
  qed
qed

lemma parsed_header:
  "readHeader (reader_new input) = (Some (magic, version, sz, count, fl, totalSize), r) \<longleftrightarrow>
     input = kMagic @ toBytes 4 version @ toBytes 4 sz @ toBytes 4 count @ toBytes 4 fl @ toBytes 8 totalSize @ rest r
     \<and> magic = kMagic \<and> r = advance 32 (reader_new input) \<and> rd_ok r"
proof -
  have ok: "rd_ok (reader_new input)" and i: "rest (reader_new input) = input" by (simp_all add: rd_ok_def reader_new_def rest_def)
  have l: "length (kMagic @ toBytes 4 version @ toBytes 4 sz @ toBytes 4 count @ toBytes 4 fl @ toBytes 8 totalSize) = 32"
    by (simp add: kMagic_def)
  show ?thesis unfolding parsesD [OF parses_readHeader ok] i prod.case using l by (metis append_assoc)
qed

lemma decode_success:
  "decodeDocument input = Inr document \<longleftrightarrow> length input \<ge> 32 \<and> length input \<le> unat kMaximumFileSize \<and>
      (\<exists>magic count totalSize r r1. readHeader (reader_new input) = (Some (magic, kContainerVersion, kHeaderSize, count, 0, totalSize), r)
        \<and> unat totalSize = length input \<and> unat count \<le> 256 \<and> decodeChunks (unat count) [] [] r = Inr (doc_chunks document, r1)
        \<and> atEnd r1)"
proof -
  obtain v r where h: "readHeader (reader_new input) = (v, r)" by fastforce
  have k: "unat kHeaderSize = 32" "unat kMaximumChunkCount = 256" by (simp_all add: kHeaderSize_def kMaximumChunkCount_def)
  show ?thesis
  proof (cases v)
    case None
    then show ?thesis by (simp add: decodeDocument_def h)
  next
    case (Some w)
    obtain magic version sz count fl totalSize where w: "w = (magic, version, sz, count, fl, totalSize)" by (cases w)
    show ?thesis
    proof (cases "decodeChunks (unat count) [] [] r")
      case (Inl e)
      then show ?thesis by (auto simp: decodeDocument_def h Some w)
    next
      case (Inr p)
      obtain cs r1 where p: "p = (cs, r1)" by (cases p)
      have d: "\<lparr>doc_chunks = cs\<rparr> = document \<longleftrightarrow> cs = doc_chunks document" by (cases document) auto
      show ?thesis by (auto simp: decodeDocument_def h Some w Inr p d k word_less_nat_alt not_less)
    qed
  qed
qed

lemma decode_iff: "decodeDocument input = Inr document \<longleftrightarrow> documentOk document \<and> input = documentBytes document"
proof -
  let ?cs = "doc_chunks document"
  have chunks: "decodeChunks (unat count) [] [] r = Inr (?cs, r1) \<and> atEnd r1 \<longleftrightarrow> length ?cs = unat count \<and> chunksOk [] ?cs
      \<and> rest r = chunksBytes ?cs \<and> r1 = advance (length (chunksBytes ?cs)) r \<and> rd_ok r1" if "rd_ok r" for count :: u32 and r r1
  proof -
    have "decodeChunks (unat count) [] [] r = Inr (?cs, r1) \<longleftrightarrow> length ?cs = unat count \<and> chunksOk [] ?cs
      \<and> rest r = chunksBytes ?cs @ rest r1 \<and> r1 = advance (length (chunksBytes ?cs)) r \<and> rd_ok r1"
      unfolding decodeChunks_iff [OF that] by (metis append_Nil)
    moreover have "rest (advance (length bs) r) = []" if "rest r = bs" for bs using that by simp
    ultimately show ?thesis using atEnd_rest [of r1] by (metis append_Nil2)
  qed
  have k: "unat kMaximumFileSize < 2 ^ 64" by (simp add: kMaximumFileSize_def)
  show ?thesis
  proof
    assume "decodeDocument input = Inr document"
    then obtain magic count totalSize r r1 where l: "length input \<le> unat kMaximumFileSize"
      and h: "readHeader (reader_new input) = (Some (magic, kContainerVersion, kHeaderSize, count, 0, totalSize), r)"
      and s: "unat totalSize = length input" and c: "unat count \<le> 256"
      and d: "decodeChunks (unat count) [] [] r = Inr (?cs, r1)" "atEnd r1" unfolding decode_success by blast
    from h [unfolded parsed_header]
    have i: "input = kMagic @ toBytes 4 kContainerVersion @ toBytes 4 kHeaderSize @ toBytes 4 count @ toBytes 4 (0 :: u32) @ toBytes 8 totalSize @ rest r"
      and ok: "rd_ok r" by blast+
    have e: "length ?cs = unat count" "chunksOk [] ?cs" "rest r = chunksBytes ?cs" using d chunks [OF ok] by blast+
    have cnt: "count = of_nat (length ?cs)" unfolding e(1) by simp
    have len: "length input = 32 + length (chunksBytes ?cs)" unfolding i e(3) by (simp add: kMagic_def)
    have tot: "totalSize = of_nat (32 + length (chunksBytes ?cs))" unfolding len [symmetric] s [symmetric] by simp
    have "input = documentBytes document" unfolding i e(3) documentBytes_def headerBytes_def tot cnt by simp
    then show "documentOk document \<and> input = documentBytes document" using e l c len by (simp add: documentOk_def)
  next
    assume "documentOk document \<and> input = documentBytes document"
    then have ok: "length ?cs \<le> 256" "chunksOk [] ?cs" "32 + length (chunksBytes ?cs) \<le> unat kMaximumFileSize"
      and i: "input = documentBytes document" by (simp_all add: documentOk_def)
    define r where "r = advance 32 (reader_new input)"
    define r1 where "r1 = advance (length (chunksBytes ?cs)) r"
    have len: "length input = 32 + length (chunksBytes ?cs)" unfolding i documentBytes_def by simp
    have rr: "rest r = chunksBytes ?cs" unfolding r_def advance_simps(1) by (simp add: rest_def reader_new_def i documentBytes_def)
    have okr: "rd_ok r" unfolding r_def by (rule rd_ok_advance) (simp_all add: rd_ok_def rest_def reader_new_def len)
    have ok1: "rd_ok r1" unfolding r1_def by (rule rd_ok_advance [OF okr]) (simp add: rr)
    have c: "unat (of_nat (length ?cs) :: u32) = length ?cs" using ok(1) by (simp add: unat_of_nat take_bit_nat_eq_self)
    have t: "unat (of_nat (length input) :: u64) = length input" using small_payload [of "length input"] ok(3) len by simp
    have h: "readHeader (reader_new input) = (Some (kMagic, kContainerVersion, kHeaderSize, of_nat (length ?cs), 0, of_nat (length input)), r)"
      unfolding parsed_header rr using okr r_def len i by (simp add: documentBytes_def headerBytes_def)
    have "decodeChunks (unat (of_nat (length ?cs) :: u32)) [] [] r = Inr (?cs, r1) \<and> atEnd r1"
      using chunks [OF okr, of "of_nat (length ?cs)" r1] ok(2) rr r1_def ok1 unfolding c by blast
    then show "decodeDocument input = Inr document"
      unfolding decode_success using h t c ok(1,3) len by (metis le_add1)
  qed
qed

section \<open>Corruption\<close>

text \<open>The multiplier of the checksum is odd, so a step of the hash is injective in the state and in the byte.\<close>

lemma prime_inverse: "kFnvPrime * 14886173955864302971 = 1"
  by (simp add: kFnvPrime_def)

lemma step_injective:
  fixes v w :: u64
  shows "v * kFnvPrime = w * kFnvPrime \<longleftrightarrow> v = w"
proof
  assume "v * kFnvPrime = w * kFnvPrime"
  then have "v * kFnvPrime * 14886173955864302971 = w * kFnvPrime * 14886173955864302971" by simp
  then show "v = w" by (simp only: mult.assoc prime_inverse mult_1_right)
qed simp

lemma xor_cancel: "(v :: 'a::len word) XOR b = w XOR b \<longleftrightarrow> v = w" "v XOR b = v XOR c \<longleftrightarrow> b = c"
  by (metis bit.xor_self xor.assoc xor.right_neutral xor.left_neutral)+

lemma hash_injective:
  "fold (\<lambda>byte v. (v XOR ucast byte) * kFnvPrime) bytes v = fold (\<lambda>byte v. (v XOR ucast byte) * kFnvPrime) bytes (w :: u64) \<longleftrightarrow> v = w"
  by (induction bytes arbitrary: v w) (simp_all add: step_injective xor_cancel)

lemma checksum_notices:
  assumes "i < length bytes"
  shows "checksum (bytes[i := b]) = checksum bytes \<longleftrightarrow> b = bytes ! i"
proof -
  obtain xs c ys where bytes: "bytes = xs @ c # ys" and i: "i = length xs"
    using id_take_nth_drop [OF assms] assms by (metis length_take min.absorb2 less_imp_le)
  have u: "(ucast b :: u64) = ucast c \<longleftrightarrow> b = c"
  proof -
    have "ucast (ucast a :: u64) = a" for a :: u8 by (rule bit_word_eqI) (simp add: bit_simps)
    then show ?thesis by metis
  qed
  have "checksum (xs @ b # ys) = checksum (xs @ c # ys) \<longleftrightarrow> b = c"
    by (simp only: checksum_def fold_append fold_simps comp_apply hash_injective step_injective xor_cancel u)
  then show ?thesis by (simp add: bytes i)
qed

lemma decodeChunks_add:
  "decodeChunks (n + m) (rev (map ck_id acc)) acc r = (case decodeChunks n (rev (map ck_id acc)) acc r of
     Inl e \<Rightarrow> Inl e | Inr (cs, r1) \<Rightarrow> decodeChunks m (rev (map ck_id cs)) cs r1)"
proof (induction n arbitrary: acc r)
  case (Suc n)
  obtain v r1 where h: "readChunkHeader r = (v, r1)" by fastforce
  show ?case
  proof (cases v)
    case None
    then show ?thesis by (simp add: h)
  next
    case (Some w)
    obtain chunkId version fl reserved sz ck where w: "w = (chunkId, version, fl, reserved, sz, ck)" by (cases w)
    obtain p r2 where b: "read_bytes (unat sz) r1 = (p, r2)" by fastforce
    show ?thesis
      using Suc.IH [of "acc @ [\<lparr>ck_id = chunkId, ck_version = version, ck_flags = fl, ck_payload = the p\<rparr>]" r2]
      by (cases p) (simp_all add: h Some w b)
  qed
qed simp

lemma chunksOk_append: "chunksOk ids (cs @ ds) \<longleftrightarrow> chunksOk ids cs \<and> chunksOk (rev (map ck_id cs) @ ids) ds"
  by (induction cs arbitrary: ids) auto

lemma chunkBytes_header:
  "chunkBytes chunk = chunkHeaderBytes (ck_id chunk, ck_version chunk, ck_flags chunk, 0, of_nat (length (ck_payload chunk)),
     checksum (ck_payload chunk)) @ ck_payload chunk"
  by (simp add: chunkBytes_def)

text \<open>The chunk whose payload differs from what its checksum was made of stops the reader.\<close>

lemma decode_bad_chunk:
  assumes r: "rd_ok r" and front: "rest r = chunkHeaderBytes (chunkId, version, fl, 0, of_nat (length payload), ck) @ payload @ tail"
    and n: "length payload \<le> unat kMaximumFileSize" and known: "fl AND NOT kKnownChunkFlags = 0" "chunkId \<notin> set ids"
    and bad: "checksum payload \<noteq> ck"
  shows "decodeChunks (Suc count) ids acc r = Inl ''save state chunk checksum mismatch''"
proof -
  define r1 where "r1 = advance 32 r"
  have l: "length (chunkHeaderBytes (chunkId, version, fl, 0, of_nat (length payload), ck)) = 32" by simp
  have ok1: "rd_ok r1" unfolding r1_def by (rule rd_ok_advance [OF r]) (simp only: front length_append l)
  have e1: "rest r1 = payload @ tail" unfolding r1_def advance_simps(1) unfolding front by simp
  have h: "readChunkHeader r = (Some (chunkId, version, fl, 0, of_nat (length payload), ck), r1)"
    unfolding readChunkHeader_iff [OF r] using front e1 r1_def ok1 by metis
  have u: "unat (of_nat (length payload) :: u64) = length payload" by (rule small_payload [OF n])
  have b: "read_bytes (length payload) r1 = (Some payload, advance (length payload) r1)"
    unfolding read_bytes_rest [OF ok1] e1 by simp
  have s: "\<not> (of_nat (length payload) :: u64) > kMaximumFileSize" using n by (simp add: word_less_nat_alt u)
  show ?thesis using known bad s by (simp add: h b u)
qed

lemma decode_corrupted:
  assumes ok: "documentOk document" and cs: "doc_chunks document = before @ chunk # after"
    and payload: "length payload = length (ck_payload chunk)" "checksum payload \<noteq> checksum (ck_payload chunk)"
    and input: "input = headerBytes (length (doc_chunks document)) (of_nat (32 + length (chunksBytes (doc_chunks document))))
      @ chunksBytes before @ chunkHeaderBytes (ck_id chunk, ck_version chunk, ck_flags chunk, 0, of_nat (length payload),
          checksum (ck_payload chunk)) @ payload @ chunksBytes after"
  shows "decodeDocument input = Inl ''save state chunk checksum mismatch''"
proof -
  let ?cs = "doc_chunks document" and ?n = "32 + length (chunksBytes (doc_chunks document))"
  let ?bad = "chunkHeaderBytes (ck_id chunk, ck_version chunk, ck_flags chunk, 0, of_nat (length payload), checksum (ck_payload chunk))
    @ payload @ chunksBytes after"
  define r where "r = advance 32 (reader_new input)"
  define r1 where "r1 = advance (length (chunksBytes before)) r"
  have bytes: "chunksBytes ?cs = chunksBytes before @ chunkBytes chunk @ chunksBytes after" by (simp add: cs chunksBytes_def)
  have len: "length input = ?n" unfolding input bytes by (simp add: chunkBytes_header payload)
  have max: "length ?cs \<le> 256" "chunksOk [] ?cs" "?n \<le> unat kMaximumFileSize" using ok by (simp_all add: documentOk_def)
  have rr: "rest r = chunksBytes before @ ?bad"
    unfolding r_def advance_simps(1) by (simp add: rest_def reader_new_def input)
  have okr: "rd_ok r" unfolding r_def by (rule rd_ok_advance) (simp_all add: rd_ok_def rest_def reader_new_def len)
  have r1: "rest r1 = ?bad" unfolding r1_def advance_simps(1) unfolding rr by (simp only: append_eq_conv_conj [THEN iffD1] drop_append) simp
  have ok1: "rd_ok r1" unfolding r1_def by (rule rd_ok_advance [OF okr]) (simp only: rr length_append)
  have c: "unat (of_nat (length ?cs) :: u32) = length ?cs" using max(1) by (simp add: unat_of_nat take_bit_nat_eq_self)
  have t: "unat (of_nat ?n :: u64) = length input" unfolding len by (rule small_payload [OF max(3)])
  have h: "readHeader (reader_new input) = (Some (kMagic, kContainerVersion, kHeaderSize, of_nat (length ?cs), 0, of_nat ?n), r)"
    unfolding parsed_header rr using okr r_def input by (simp add: headerBytes_def)
  have chunk: "chunksOk [] before" "ck_id chunk \<notin> set (rev (map ck_id before))" "ck_flags chunk AND NOT kKnownChunkFlags = 0"
    "length payload \<le> unat kMaximumFileSize"
    using max(2) by (simp_all add: cs chunksOk_append payload(1))
  have first: "decodeChunks (length before) [] [] r = Inr (before, r1)"
    unfolding decodeChunks_iff [OF okr] using chunk(1) rr r1 r1_def ok1 by (metis append_Nil)
  have "decodeChunks (length ?cs) [] [] r = decodeChunks (Suc (length after)) (rev (map ck_id before)) before r1"
    using decodeChunks_add [of "length before" "Suc (length after)" "[]" r] first by (simp add: cs del: decodeChunks.simps)
  also have "\<dots> = Inl ''save state chunk checksum mismatch''"
    by (rule decode_bad_chunk [OF ok1 r1 chunk(4,3,2) payload(2)])
  finally have d: "decodeChunks (length ?cs) [] [] r = Inl ''save state chunk checksum mismatch''" .
  have t': "unat (32 + of_nat (length (chunksBytes ?cs)) :: u64) = ?n" using t len by simp
  show ?thesis unfolding decodeDocument_def using len max(1,3)
    by (simp add: h c t' d kHeaderSize_def kMaximumChunkCount_def word_less_nat_alt not_less)
qed

end
