(* ===== verification/SaveStateProps.thy ===== *)
theory SaveStateProps
  imports SaveStateFacts
begin

text \<open>
  The properties of the save-state container: decoding accepts exactly what encoding produces and gives the document
  back, the documents that can be encoded, and a changed byte of a payload is always noticed.
\<close>

unbundle bit_operations_syntax

lemma documentOk_addressable: "documentOk document \<Longrightarrow> addressable document"
proof -
  have "chunksOk ids cs \<Longrightarrow> list_all (\<lambda>chunk. length (ck_payload chunk) < 2 ^ 64) cs" for ids cs
    by (induction cs arbitrary: ids) (auto simp: kMaximumFileSize_def)
  then show "documentOk document \<Longrightarrow> addressable document" unfolding documentOk_def addressable_def by blast
qed

text \<open>
  C16. The save-state format is exact: \<open>decode\<close> accepts a byte sequence and gives a document if and only if
  \<open>encode\<close> of that document gives exactly that byte sequence (for documents whose payloads a \<open>std::vector\<close> can
  hold). So every encoded document is read back unchanged, two byte sequences never decode to the same document, and
  no byte sequence outside the range of \<open>encode\<close> is accepted.
\<close>

theorem save_state_exact:
  "decodeDocument input = Inr document \<longleftrightarrow> encodeDocument document = Inr input \<and> addressable document"
  using decode_iff encode_iff documentOk_addressable by metis

lemma chunksOk_distinct:
  "chunksOk ids cs \<longleftrightarrow> distinct (map ck_id cs) \<and> set ids \<inter> ck_id ` set cs = {}
     \<and> (\<forall>chunk \<in> set cs. ck_flags chunk AND NOT kKnownChunkFlags = 0 \<and> length (ck_payload chunk) \<le> unat kMaximumFileSize)"
  by (induction cs arbitrary: ids) auto

lemma length_chunksBytes: "length (chunksBytes cs) = (\<Sum>chunk\<leftarrow>cs. 32 + length (ck_payload chunk))"
  by (induction cs) simp_all

text \<open>
  \<open>encode\<close> accepts a document exactly when it has at most 256 chunks, their identifiers are distinct, their
  flags are known, and the header, the chunk headers and the payloads together take at most 512 MiB; in particular no
  sum of sizes wraps.
\<close>

theorem encode_accepts:
  assumes "addressable document"
  shows "(\<exists>output. encodeDocument document = Inr output) \<longleftrightarrow>
    length (doc_chunks document) \<le> 256 \<and> distinct (map ck_id (doc_chunks document))
    \<and> list_all (\<lambda>chunk. ck_flags chunk AND NOT kKnownChunkFlags = 0) (doc_chunks document)
    \<and> 32 + (\<Sum>chunk\<leftarrow>doc_chunks document. 32 + length (ck_payload chunk)) \<le> 512 * 1024 * 1024"
proof -
  have m: "unat kMaximumFileSize = 512 * 1024 * 1024" by (simp add: kMaximumFileSize_def)
  have s: "length (ck_payload chunk) \<le> (\<Sum>chunk\<leftarrow>doc_chunks document. 32 + length (ck_payload chunk))"
    if "chunk \<in> set (doc_chunks document)" for chunk
    using member_le_sum_list [of "32 + length (ck_payload chunk)" "map (\<lambda>chunk. 32 + length (ck_payload chunk)) (doc_chunks document)"]
      that by simp
  show ?thesis
    unfolding encode_iff [OF assms] documentOk_def chunksOk_distinct length_chunksBytes m list_all_iff
    using s by fastforce
qed

definition sampleChunk :: save_chunk where
  "sampleChunk = \<lparr>ck_id = makeChunkId 0x43 0x50 0x55 0x53, ck_version = 3, ck_flags = ChunkFlags_Required, ck_payload = [1, 2, 3]\<rparr>"

definition sampleDocument :: save_document where
  "sampleDocument = \<lparr>doc_chunks = [sampleChunk\<lparr>ck_id := 7, ck_payload := []\<rparr>, sampleChunk]\<rparr>"

lemma sample_addressable: "addressable sampleDocument"
  by (simp add: addressable_def sampleDocument_def sampleChunk_def)

lemma sample_flags: "ChunkFlags_Required AND NOT kKnownChunkFlags = 0"
  by (simp add: kKnownChunkFlags_def)

theorem encode_accepts_witness: "\<exists>output. encodeDocument sampleDocument = Inr output"
  unfolding encode_accepts [OF sample_addressable]
  by (simp add: sampleDocument_def sampleChunk_def sample_flags makeChunkId_def)

text \<open>
  C25. Any change of one byte of a payload is noticed: if a document encodes to some bytes and the byte at offset
  \<open>i\<close> of the payload of one of its chunks is replaced by a different byte, \<open>decode\<close> refuses the result with the
  checksum message. (The multiplier of the hash is odd, so every step of it is injective modulo \<open>2^64\<close>.)
\<close>

theorem corruption_detected:
  assumes "encodeDocument document = Inr output" "addressable document"
    and "doc_chunks document = before @ chunk # after"
    and "i < length (ck_payload chunk)" "b \<noteq> ck_payload chunk ! i"
  shows "decodeDocument (output[32 + (\<Sum>c\<leftarrow>before. 32 + length (ck_payload c)) + 32 + i := b])
    = Inl ''save state chunk checksum mismatch''"
proof (rule decode_corrupted [OF _ assms(3), where payload = "(ck_payload chunk)[i := b]"])
  have o: "documentOk document" "output = documentBytes document" using assms(1) unfolding encode_iff [OF assms(2)] by blast+
  show "documentOk document" by (rule o(1))
  show "checksum ((ck_payload chunk)[i := b]) \<noteq> checksum (ck_payload chunk)"
    using checksum_notices [OF assms(4)] assms(5) by simp
  let ?hd = "headerBytes (length (doc_chunks document)) (of_nat (32 + length (chunksBytes (doc_chunks document))))"
  let ?ch = "chunkHeaderBytes (ck_id chunk, ck_version chunk, ck_flags chunk, 0, of_nat (length (ck_payload chunk)), checksum (ck_payload chunk))"
  have "output = (?hd @ chunksBytes before @ ?ch) @ ck_payload chunk @ chunksBytes after"
    unfolding o(2) documentBytes_def by (simp add: assms(3) chunksBytes_def chunkBytes_header)
  moreover have "length (?hd @ chunksBytes before @ ?ch) = 32 + (\<Sum>c\<leftarrow>before. 32 + length (ck_payload c)) + 32"
    by (simp add: length_chunksBytes)
  ultimately show "output[32 + (\<Sum>c\<leftarrow>before. 32 + length (ck_payload c)) + 32 + i := b] = ?hd @ chunksBytes before
    @ chunkHeaderBytes (ck_id chunk, ck_version chunk, ck_flags chunk, 0, of_nat (length ((ck_payload chunk)[i := b])),
        checksum (ck_payload chunk)) @ (ck_payload chunk)[i := b] @ chunksBytes after"
    using assms(4) by (simp only: list_update_append length_list_update length_append) simp
qed simp

theorem corruption_detected_witness:
  "\<exists>output. encodeDocument sampleDocument = Inr output
    \<and> decodeDocument (output[97 := 9]) = Inl ''save state chunk checksum mismatch''"
proof -
  have "documentOk sampleDocument"
    by (simp add: documentOk_def sampleDocument_def sampleChunk_def sample_flags makeChunkId_def kMaximumFileSize_def)
  then have e: "encodeDocument sampleDocument = Inr (documentBytes sampleDocument)"
    unfolding encode_iff [OF sample_addressable] by blast
  have "doc_chunks sampleDocument = [sampleChunk\<lparr>ck_id := 7, ck_payload := []\<rparr>] @ sampleChunk # []"
    by (simp add: sampleDocument_def)
  from corruption_detected [OF e sample_addressable this, of 1 9] e show ?thesis
    by (simp add: sampleChunk_def)
qed

end
