(* ===== verification/GsPages.thy ===== *)
theory GsPages
  imports Prelude
begin

text \<open>
  The sets of 8 KiB pages of GS memory a renderer tracks: \<open>GsVramPageMask\<close> (\<open>ps2_gs_backend.h\<close>) and the functions of
  \<open>ps2xRuntime/src/lib/ps2_gs_backend.cpp\<close> that fill a mask from a buffer's base, width and storage mode. A mask is
  the array of its eight 64-bit words, as a list. A value the code computes in \<open>size_t\<close> or \<open>uint64_t\<close> is a natural
  number: the arguments have 32 bits and no result here comes near \<open>2^64\<close>.
\<close>

unbundle bit_operations_syntax

section \<open>Masks\<close>

definition GS_VRAM_PAGE_SIZE :: nat where "GS_VRAM_PAGE_SIZE = 8 * 1024"
definition GS_VRAM_PAGE_COUNT :: nat where "GS_VRAM_PAGE_COUNT = 512"

definition kPageCount :: nat where "kPageCount = GS_VRAM_PAGE_COUNT"
definition kWordCount :: nat where "kWordCount = kPageCount div 64"

type_synonym page_mask = "u64 list"

definition mask_new :: page_mask where "mask_new = replicate kWordCount 0"

definition mask_clear :: "page_mask \<Rightarrow> page_mask" where "mask_clear m = replicate (length m) 0"

definition mask_set :: "nat \<Rightarrow> page_mask \<Rightarrow> page_mask" where
  "mask_set page m = (if page < kPageCount then m[page div 64 := m ! (page div 64) OR push_bit (page mod 64) 1] else m)"

definition mask_setAll :: "page_mask \<Rightarrow> page_mask" where "mask_setAll m = replicate (length m) u64_max"

text \<open>The loop of \<open>setRange\<close>: each turn fills the rest of one word.\<close>

definition rangeRun :: "nat \<Rightarrow> nat \<Rightarrow> nat" where "rangeRun firstPage pageCount = min pageCount (64 - firstPage mod 64)"

function setRangeLoop :: "nat \<Rightarrow> nat \<Rightarrow> page_mask \<Rightarrow> page_mask" where
  "setRangeLoop firstPage pageCount m =
     (if pageCount = 0 then m
      else let b = firstPage mod 64; run = rangeRun firstPage pageCount;
               bits = (if run = 64 then u64_max else push_bit b (push_bit run 1 - 1))
           in setRangeLoop ((firstPage + run) mod kPageCount) (pageCount - run)
                (m[firstPage div 64 := m ! (firstPage div 64) OR bits]))"
  by pat_completeness auto
termination by (relation "measure (\<lambda>(f, n, m). n)") (auto simp: rangeRun_def)

declare setRangeLoop.simps [simp del]

definition mask_setRange :: "nat \<Rightarrow> nat \<Rightarrow> page_mask \<Rightarrow> page_mask" where
  "mask_setRange firstPage pageCount m =
     (if pageCount = 0 then m else if pageCount \<ge> kPageCount then mask_setAll m
      else setRangeLoop (firstPage mod kPageCount) pageCount m)"

definition mask_unionWith :: "page_mask \<Rightarrow> page_mask \<Rightarrow> page_mask" where
  "mask_unionWith other m = map2 (\<lambda>v w. w OR v) other m"

definition mask_test :: "nat \<Rightarrow> page_mask \<Rightarrow> bool" where
  "mask_test page m \<longleftrightarrow> page < kPageCount \<and> m ! (page div 64) AND push_bit (page mod 64) 1 \<noteq> 0"

definition mask_any :: "page_mask \<Rightarrow> bool" where "mask_any m \<longleftrightarrow> list_ex (\<lambda>w. w \<noteq> 0) m"

definition mask_all :: "page_mask \<Rightarrow> bool" where "mask_all m \<longleftrightarrow> list_all (\<lambda>w. w = u64_max) m"

text \<open>\<open>std::popcount\<close>.\<close>

definition popcount :: "u64 \<Rightarrow> nat" where "popcount w = length (filter (bit w) [0..<64])"

definition mask_count :: "page_mask \<Rightarrow> nat" where "mask_count m = sum_list (map popcount m)"

definition mask_intersects :: "page_mask \<Rightarrow> page_mask \<Rightarrow> bool" where
  "mask_intersects other m \<longleftrightarrow> list_ex (\<lambda>(v, w). w AND v \<noteq> 0) (zip other m)"

section \<open>Buffers\<close>

definition GS_PSM_CT32 :: u8 where "GS_PSM_CT32 = 0"
definition GS_PSM_CT24 :: u8 where "GS_PSM_CT24 = 1"
definition GS_PSM_CT16 :: u8 where "GS_PSM_CT16 = 2"
definition GS_PSM_CT16S :: u8 where "GS_PSM_CT16S = 10"
definition GS_PSM_T8 :: u8 where "GS_PSM_T8 = 19"
definition GS_PSM_T4 :: u8 where "GS_PSM_T4 = 20"
definition GS_PSM_T8H :: u8 where "GS_PSM_T8H = 27"
definition GS_PSM_T4HL :: u8 where "GS_PSM_T4HL = 36"
definition GS_PSM_T4HH :: u8 where "GS_PSM_T4HH = 44"
definition GS_PSM_Z32 :: u8 where "GS_PSM_Z32 = 48"
definition GS_PSM_Z24 :: u8 where "GS_PSM_Z24 = 49"
definition GS_PSM_Z16 :: u8 where "GS_PSM_Z16 = 50"
definition GS_PSM_Z16S :: u8 where "GS_PSM_Z16S = 58"

lemmas gs_psm_defs = GS_PSM_CT32_def GS_PSM_CT24_def GS_PSM_CT16_def GS_PSM_CT16S_def GS_PSM_T8_def GS_PSM_T4_def
  GS_PSM_T8H_def GS_PSM_T4HL_def GS_PSM_T4HH_def GS_PSM_Z32_def GS_PSM_Z24_def GS_PSM_Z16_def GS_PSM_Z16S_def

definition kGsBlockCount :: nat where "kGsBlockCount = GS_VRAM_PAGE_COUNT * 32"

record page_geometry =
  pg_width :: nat
  pg_height :: nat

definition pageGeometry :: "u8 \<Rightarrow> page_geometry option" where
  "pageGeometry psm =
     (if psm \<in> {GS_PSM_CT32, GS_PSM_CT24, GS_PSM_Z32, GS_PSM_Z24, GS_PSM_T8H, GS_PSM_T4HL, GS_PSM_T4HH}
      then Some \<lparr>pg_width = 64, pg_height = 32\<rparr>
      else if psm \<in> {GS_PSM_CT16, GS_PSM_CT16S, GS_PSM_Z16, GS_PSM_Z16S} then Some \<lparr>pg_width = 64, pg_height = 64\<rparr>
      else if psm = GS_PSM_T8 then Some \<lparr>pg_width = 128, pg_height = 64\<rparr>
      else if psm = GS_PSM_T4 then Some \<lparr>pg_width = 128, pg_height = 128\<rparr>
      else None)"

definition addBlockRange :: "u32 \<Rightarrow> nat \<Rightarrow> page_mask \<Rightarrow> page_mask" where
  "addBlockRange startBlock blockCount m =
     (if blockCount = 0 then m
      else if blockCount \<ge> kGsBlockCount then mask_setAll m
      else let start = unat startBlock mod kGsBlockCount;
               firstPage = start div 32;
               lastBlock = start + blockCount - 1;
               pageCount = lastBlock div 32 - firstPage + 1
           in mask_setRange firstPage pageCount m)"

definition addSurfaceRange :: "u32 \<Rightarrow> u32 \<Rightarrow> u8 \<Rightarrow> u32 \<Rightarrow> u32 \<Rightarrow> page_mask \<Rightarrow> bool \<times> page_mask" where
  "addSurfaceRange baseBlock widthUnits psm maximumX maximumY m =
     (case pageGeometry psm of
        None \<Rightarrow> (False, mask_setAll m)
      | Some geometry \<Rightarrow>
          let bufferWidth = max (unat widthUnits) 1 * 64;
              pagesPerRow = max ((bufferWidth + pg_width geometry - 1) div pg_width geometry) 1;
              maximumPage = unat maximumY div pg_height geometry * pagesPerRow + unat maximumX div pg_width geometry;
              blockCount = min ((maximumPage + 1) * 32) kGsBlockCount
          in (True, addBlockRange baseBlock blockCount m))"

text \<open>One page of the double loop of \<open>gsVramPagesForSurfaceRect\<close>.\<close>

definition setPageOfRect :: "nat \<Rightarrow> nat \<Rightarrow> nat \<Rightarrow> nat \<Rightarrow> nat \<Rightarrow> page_mask \<Rightarrow> page_mask" where
  "setPageOfRect basePage baseBlockPhase rowStridePages pageY pageX pages =
     (let physicalPage = (basePage + (pageY mod GS_VRAM_PAGE_COUNT) * (rowStridePages mod GS_VRAM_PAGE_COUNT) + pageX)
            mod GS_VRAM_PAGE_COUNT;
          pages1 = mask_set physicalPage pages
      in if baseBlockPhase \<noteq> 0 then mask_set ((physicalPage + 1) mod GS_VRAM_PAGE_COUNT) pages1 else pages1)"

definition gsVramPagesForSurfaceRect :: "u32 \<Rightarrow> u32 \<Rightarrow> u8 \<Rightarrow> u32 \<Rightarrow> u32 \<Rightarrow> u32 \<Rightarrow> u32 \<Rightarrow> page_mask" where
  "gsVramPagesForSurfaceRect bp bw psm x y width height =
     (if width = 0 \<or> height = 0 then mask_new
      else case pageGeometry psm of
        None \<Rightarrow> mask_setAll mask_new
      | Some geometry \<Rightarrow>
          let lastX = unat x + unat width - 1; lastY = unat y + unat height - 1
          in if lastX > unat u32_max \<or> lastY > unat u32_max then mask_setAll mask_new
             else let firstPageX = unat x div pg_width geometry; lastPageX = lastX div pg_width geometry;
                      firstPageY = unat y div pg_height geometry; lastPageY = lastY div pg_height geometry;
                      pageColumns = lastPageX - firstPageX + 1; pageRows = lastPageY - firstPageY + 1
                  in if pageColumns > GS_VRAM_PAGE_COUNT \<or> pageRows > GS_VRAM_PAGE_COUNT
                        \<or> pageColumns * pageRows > GS_VRAM_PAGE_COUNT
                     then mask_setAll mask_new
                     else let block = unat bp mod kGsBlockCount; basePage = block div 32; baseBlockPhase = block mod 32;
                              rowStridePages = unat bw * 64 div pg_width geometry
                          in fold (\<lambda>pageY. fold (setPageOfRect basePage baseBlockPhase rowStridePages pageY)
                                 [firstPageX..<Suc lastPageX]) [firstPageY..<Suc lastPageY] mask_new)"

end
