(* ===== verification/GsCoherency.thy ===== *)
theory GsCoherency
  imports GsPages
begin

text \<open>
  \<open>ps2xRuntime/include/runtime/ps2_gs_coherency.h\<close> and \<open>src/lib/ps2_gs_coherency.cpp\<close>: which of the two copies of GS
  memory, the CPU's or the GPU's, holds the newest bytes of every 8 KiB page. An operation is a function from the
  state to an exception, if one is thrown, and the state it leaves. The array of pages is a list. The last section is
  what the Vulkan backend does around the operations (\<open>uploadCpuNewer\<close> and \<open>downloadGpuNewer\<close> of
  \<open>ps2_gs_vulkan_backend.cpp\<close>), with the two copies of a page as values.
\<close>

section \<open>State\<close>

datatype GsVramPageOwnership = Synchronized | CpuNewer | GpuNewer

record page_version =
  pv_cpuGeneration :: u64
  pv_gpuGeneration :: u64

definition ownership :: "page_version \<Rightarrow> GsVramPageOwnership" where
  "ownership v =
     (if pv_cpuGeneration v = pv_gpuGeneration v then Synchronized
      else if pv_cpuGeneration v > pv_gpuGeneration v then CpuNewer else GpuNewer)"

record coherency_summary =
  su_synchronizedPages :: nat
  su_cpuNewerPages :: nat
  su_gpuNewerPages :: nat

record coherency_statistics =
  cs_cpuWriteOperations :: u64
  cs_cpuWritePages :: u64
  cs_gpuWriteOperations :: u64
  cs_gpuWritePages :: u64
  cs_cpuToGpuOperations :: u64
  cs_cpuToGpuPages :: u64
  cs_gpuToCpuOperations :: u64
  cs_gpuToCpuPages :: u64
  cs_rejectedTransitions :: u64

definition statistics_new :: coherency_statistics where
  "statistics_new = \<lparr>cs_cpuWriteOperations = 0, cs_cpuWritePages = 0, cs_gpuWriteOperations = 0, cs_gpuWritePages = 0,
     cs_cpuToGpuOperations = 0, cs_cpuToGpuPages = 0, cs_gpuToCpuOperations = 0, cs_gpuToCpuPages = 0,
     cs_rejectedTransitions = 0\<rparr>"

record coherency =
  co_pages :: "page_version list"
  co_statistics :: coherency_statistics
  co_nextGeneration :: u64

datatype coherency_error = OutOfRange string | InvalidArgument string | OverflowError string | LogicError string

type_synonym coherency_op = "coherency \<Rightarrow> coherency_error option \<times> coherency"

definition coherency_new :: coherency where
  "coherency_new = \<lparr>co_pages = replicate GS_VRAM_PAGE_COUNT \<lparr>pv_cpuGeneration = 0, pv_gpuGeneration = 0\<rparr>,
     co_statistics = statistics_new, co_nextGeneration = 1\<rparr>"

section \<open>Queries\<close>

definition co_reset :: "coherency \<Rightarrow> coherency" where
  "co_reset c = c\<lparr>co_pages := replicate (length (co_pages c)) \<lparr>pv_cpuGeneration = 0, pv_gpuGeneration = 0\<rparr>,
     co_statistics := statistics_new, co_nextGeneration := 1\<rparr>"

definition resetStatistics :: "coherency \<Rightarrow> coherency" where
  "resetStatistics c = c\<lparr>co_statistics := statistics_new\<rparr>"

definition co_page :: "nat \<Rightarrow> coherency \<Rightarrow> coherency_error + page_version" where
  "co_page pageIndex c = (if pageIndex \<ge> length (co_pages c) then Inl (OutOfRange ''GS VRAM coherency page is out of range'')
     else Inr (co_pages c ! pageIndex))"

definition ownerAt :: "coherency \<Rightarrow> nat \<Rightarrow> GsVramPageOwnership" where
  "ownerAt c pageIndex = ownership (co_pages c ! pageIndex)"

definition newerPages :: "GsVramPageOwnership \<Rightarrow> page_mask \<Rightarrow> coherency \<Rightarrow> page_mask" where
  "newerPages owner inside c =
     fold (\<lambda>pageIndex result. if mask_test pageIndex inside \<and> ownerAt c pageIndex = owner then mask_set pageIndex result else result)
       [0..<length (co_pages c)] mask_new"

definition cpuNewerPages :: "page_mask \<Rightarrow> coherency \<Rightarrow> page_mask" where "cpuNewerPages = newerPages CpuNewer"
definition gpuNewerPages :: "page_mask \<Rightarrow> coherency \<Rightarrow> page_mask" where "gpuNewerPages = newerPages GpuNewer"

definition co_summary :: "coherency \<Rightarrow> coherency_summary" where
  "co_summary c =
     fold (\<lambda>pageVersion result. case ownership pageVersion of
         Synchronized \<Rightarrow> result\<lparr>su_synchronizedPages := su_synchronizedPages result + 1\<rparr>
       | CpuNewer \<Rightarrow> result\<lparr>su_cpuNewerPages := su_cpuNewerPages result + 1\<rparr>
       | GpuNewer \<Rightarrow> result\<lparr>su_gpuNewerPages := su_gpuNewerPages result + 1\<rparr>)
       (co_pages c) \<lparr>su_synchronizedPages = 0, su_cpuNewerPages = 0, su_gpuNewerPages = 0\<rparr>"

definition invariantHolds :: "coherency \<Rightarrow> bool" where
  "invariantHolds c \<longleftrightarrow> co_nextGeneration c \<noteq> 0 \<and>
     list_all (\<lambda>v. \<not> (pv_cpuGeneration v \<ge> co_nextGeneration c \<or> pv_gpuGeneration v \<ge> co_nextGeneration c)) (co_pages c)"

section \<open>Transitions\<close>

definition reject :: "string \<Rightarrow> coherency_op" where
  "reject message c = (Some (LogicError message),
     c\<lparr>co_statistics := (co_statistics c)\<lparr>cs_rejectedTransitions := cs_rejectedTransitions (co_statistics c) + 1\<rparr>\<rparr>)"

definition allocateGeneration :: "coherency \<Rightarrow> coherency_error + u64 \<times> coherency" where
  "allocateGeneration c =
     (if co_nextGeneration c = u64_max then Inl (OverflowError ''GS VRAM coherency generation exhausted'')
      else Inr (co_nextGeneration c, c\<lparr>co_nextGeneration := co_nextGeneration c + 1\<rparr>))"

text \<open>The check before every transition: a page of the mask whose newer copy is the other one.\<close>

definition overlaps :: "GsVramPageOwnership \<Rightarrow> page_mask \<Rightarrow> coherency \<Rightarrow> bool" where
  "overlaps owner pages c \<longleftrightarrow> list_ex (\<lambda>pageIndex. mask_test pageIndex pages \<and> ownerAt c pageIndex = owner) [0..<length (co_pages c)]"

text \<open>The loop that changes the versions of the pages of the mask.\<close>

definition forPages :: "page_mask \<Rightarrow> (page_version \<Rightarrow> page_version) \<Rightarrow> coherency \<Rightarrow> coherency" where
  "forPages pages change c =
     c\<lparr>co_pages := map (\<lambda>pageIndex. if mask_test pageIndex pages then change (co_pages c ! pageIndex) else co_pages c ! pageIndex)
        [0..<length (co_pages c)]\<rparr>"

definition noteCpuWrite :: "page_mask \<Rightarrow> coherency_op" where
  "noteCpuWrite pages c =
     (if overlaps GpuNewer pages c then reject ''CPU write overlaps a GPU-newer GS VRAM page'' c
      else if \<not> mask_any pages then (None, c)
      else case allocateGeneration c of
        Inl e \<Rightarrow> (Some e, c)
      | Inr (generation, c1) \<Rightarrow>
          let c2 = forPages pages (pv_cpuGeneration_update (\<lambda>g. generation)) c1; s = co_statistics c2
          in (None, c2\<lparr>co_statistics := s\<lparr>cs_cpuWriteOperations := cs_cpuWriteOperations s + 1,
               cs_cpuWritePages := cs_cpuWritePages s + of_nat (mask_count pages)\<rparr>\<rparr>))"

definition noteGpuWriteBatch :: "page_mask \<Rightarrow> u64 \<Rightarrow> u64 \<Rightarrow> coherency_op" where
  "noteGpuWriteBatch pages operationCount pageTouches c =
     (let uniquePages = mask_count pages
      in if uniquePages = 0 then (None, c)
         else if operationCount = 0 \<or> unat pageTouches < uniquePages
           then (Some (InvalidArgument ''GPU write batch diagnostics do not describe its page mask''), c)
         else if overlaps CpuNewer pages c then reject ''GPU write overlaps a CPU-newer GS VRAM page'' c
         else case allocateGeneration c of
           Inl e \<Rightarrow> (Some e, c)
         | Inr (generation, c1) \<Rightarrow>
             let c2 = forPages pages (pv_gpuGeneration_update (\<lambda>g. generation)) c1; s = co_statistics c2
             in (None, c2\<lparr>co_statistics := s\<lparr>cs_gpuWriteOperations := cs_gpuWriteOperations s + operationCount,
                  cs_gpuWritePages := cs_gpuWritePages s + pageTouches\<rparr>\<rparr>))"

definition noteGpuWrite :: "page_mask \<Rightarrow> coherency_op" where
  "noteGpuWrite pages = noteGpuWriteBatch pages 1 (of_nat (mask_count pages))"

definition copiedPages :: "page_mask \<Rightarrow> coherency \<Rightarrow> nat" where
  "copiedPages pages c = length (filter (\<lambda>pageIndex. \<not> (\<not> mask_test pageIndex pages
     \<or> pv_cpuGeneration (co_pages c ! pageIndex) = pv_gpuGeneration (co_pages c ! pageIndex))) [0..<length (co_pages c)])"

definition completeCpuToGpu :: "page_mask \<Rightarrow> coherency_op" where
  "completeCpuToGpu pages c =
     (if overlaps GpuNewer pages c then reject ''CPU-to-GPU copy would overwrite a GPU-newer GS VRAM page'' c
      else if \<not> mask_any pages then (None, c)
      else let c1 = forPages pages (\<lambda>v. v\<lparr>pv_gpuGeneration := pv_cpuGeneration v\<rparr>) c; s = co_statistics c
           in (None, c1\<lparr>co_statistics := s\<lparr>cs_cpuToGpuOperations := cs_cpuToGpuOperations s + 1,
                cs_cpuToGpuPages := cs_cpuToGpuPages s + of_nat (copiedPages pages c)\<rparr>\<rparr>))"

definition completeGpuToCpu :: "page_mask \<Rightarrow> coherency_op" where
  "completeGpuToCpu pages c =
     (if overlaps CpuNewer pages c then reject ''GPU-to-CPU copy would overwrite a CPU-newer GS VRAM page'' c
      else if \<not> mask_any pages then (None, c)
      else let c1 = forPages pages (\<lambda>v. v\<lparr>pv_cpuGeneration := pv_gpuGeneration v\<rparr>) c; s = co_statistics c
           in (None, c1\<lparr>co_statistics := s\<lparr>cs_gpuToCpuOperations := cs_gpuToCpuOperations s + 1,
                cs_gpuToCpuPages := cs_gpuToCpuPages s + of_nat (copiedPages pages c)\<rparr>\<rparr>))"

section \<open>The two copies\<close>

text \<open>
  The state of the backend the transitions are about: the versions and the contents of the pages in the CPU's and in
  the GPU's copy. A write to pages is a change of their contents in one copy. The executor of the backend, which runs
  the transfers on the device, is an argument: whether it succeeds; a failed transfer is one before any page of the
  copy it writes has changed. The statistics of the backend are left out.
\<close>

record 'v vram_pair =
  vp_coherency :: coherency
  vp_cpu :: "nat \<Rightarrow> 'v"
  vp_gpu :: "nat \<Rightarrow> 'v"

definition copyPages :: "page_mask \<Rightarrow> (nat \<Rightarrow> 'v) \<Rightarrow> (nat \<Rightarrow> 'v) \<Rightarrow> nat \<Rightarrow> 'v" where
  "copyPages pages source target = (\<lambda>p. if mask_test p pages then source p else target p)"

definition uploadCpuNewer :: "bool \<Rightarrow> page_mask \<Rightarrow> 'v vram_pair \<Rightarrow> bool \<times> 'v vram_pair" where
  "uploadCpuNewer executed inside s =
     (let pages = cpuNewerPages inside (vp_coherency s)
      in if \<not> mask_any pages then (True, s)
         else if \<not> executed then (False, s)
         else let s1 = s\<lparr>vp_gpu := copyPages pages (vp_cpu s) (vp_gpu s)\<rparr>;
                  (e, c) = completeCpuToGpu pages (vp_coherency s)
              in (e = None, s1\<lparr>vp_coherency := c\<rparr>))"

definition downloadGpuNewer :: "bool \<Rightarrow> page_mask \<Rightarrow> 'v vram_pair \<Rightarrow> bool \<times> 'v vram_pair" where
  "downloadGpuNewer executed inside s =
     (let pages = gpuNewerPages inside (vp_coherency s)
      in if \<not> mask_any pages then (True, s)
         else if \<not> executed then (False, s)
         else let s1 = s\<lparr>vp_cpu := copyPages pages (vp_gpu s) (vp_cpu s)\<rparr>;
                  (e, c) = completeGpuToCpu pages (vp_coherency s)
              in (e = None, s1\<lparr>vp_coherency := c\<rparr>))"

text \<open>A write to the pages of one copy, made when its note was accepted.\<close>

definition cpuWrite :: "page_mask \<Rightarrow> (nat \<Rightarrow> 'v \<Rightarrow> 'v) \<Rightarrow> 'v vram_pair \<Rightarrow> bool \<times> 'v vram_pair" where
  "cpuWrite pages change s =
     (case noteCpuWrite pages (vp_coherency s) of
        (Some e, c) \<Rightarrow> (False, s\<lparr>vp_coherency := c\<rparr>)
      | (None, c) \<Rightarrow> (True, s\<lparr>vp_coherency := c, vp_cpu := (\<lambda>p. if mask_test p pages then change p (vp_cpu s p) else vp_cpu s p)\<rparr>))"

definition gpuWrite :: "page_mask \<Rightarrow> u64 \<Rightarrow> u64 \<Rightarrow> (nat \<Rightarrow> 'v \<Rightarrow> 'v) \<Rightarrow> 'v vram_pair \<Rightarrow> bool \<times> 'v vram_pair" where
  "gpuWrite pages operationCount pageTouches change s =
     (case noteGpuWriteBatch pages operationCount pageTouches (vp_coherency s) of
        (Some e, c) \<Rightarrow> (False, s\<lparr>vp_coherency := c\<rparr>)
      | (None, c) \<Rightarrow> (True, s\<lparr>vp_coherency := c, vp_gpu := (\<lambda>p. if mask_test p pages then change p (vp_gpu s p) else vp_gpu s p)\<rparr>))"

end
