(* ===== verification/GsPagesProps.thy ===== *)
theory GsPagesProps
  imports GsPages GsMemoryFacts
begin

text \<open>
  What the page masks hold: the operations of a mask as operations of a set of pages, and the pages of a buffer's
  rectangle, which contain every page that an access to one of its pixels touches.
\<close>

unbundle bit_operations_syntax

section \<open>Masks as sets\<close>

definition mask_ok :: "page_mask \<Rightarrow> bool" where "mask_ok m \<longleftrightarrow> length m = 8"

lemmas page_counts = kPageCount_def GS_VRAM_PAGE_COUNT_def kWordCount_def

lemma mask_test_bit: "mask_test p m \<longleftrightarrow> p < 512 \<and> bit (m ! (p div 64)) (p mod 64)"
  by (auto simp: mask_test_def page_counts bit_iff_and_push_bit_not_eq_0)

lemma mask_ok_new [simp]: "mask_ok mask_new" by (simp add: mask_ok_def mask_new_def page_counts)
lemma mask_ok_set [simp]: "mask_ok m \<Longrightarrow> mask_ok (mask_set p m)" by (simp add: mask_ok_def mask_set_def)
lemma mask_ok_setAll [simp]: "mask_ok m \<Longrightarrow> mask_ok (mask_setAll m)" by (simp add: mask_ok_def mask_setAll_def)

lemma test_new [simp]: "\<not> mask_test p mask_new"
  by (auto simp: mask_test_bit mask_new_def page_counts)

lemma test_setAll [simp]: "mask_ok m \<Longrightarrow> mask_test p (mask_setAll m) \<longleftrightarrow> p < 512"
  by (auto simp: mask_test_bit mask_setAll_def mask_ok_def)

lemma page_halves: "p = q \<longleftrightarrow> p div 64 = q div 64 \<and> p mod 64 = q mod (64 :: nat)"
  by (metis div_mult_mod_eq)

lemma test_set [simp]:
  assumes "mask_ok m"
  shows "mask_test p (mask_set q m) \<longleftrightarrow> p < 512 \<and> p = q \<or> mask_test p m"
proof (cases "q < 512")
  case True
  then have "q div 64 < length m" using assms by (auto simp: mask_ok_def)
  moreover have "mask_set q m = m[q div 64 := m ! (q div 64) OR push_bit (q mod 64) 1]"
    using True by (simp add: mask_set_def page_counts)
  ultimately show ?thesis
    by (cases "p div 64 = q div 64") (auto simp: mask_test_bit nth_list_update bit_simps page_halves [of p q])
next
  case False
  then have "mask_set q m = m" by (simp add: mask_set_def page_counts)
  then show ?thesis using False by auto
qed

lemma bit_run: "n \<le> 64 \<Longrightarrow> bit (if n = 64 then u64_max else push_bit b (push_bit n 1 - 1)) k \<longleftrightarrow> b \<le> k \<and> k < b + n \<and> k < 64"
  if "b + n \<le> 64" for b n k :: nat
proof (cases "n = 64")
  case True
  then show ?thesis using that by auto
next
  case False
  have "push_bit n 1 - 1 = (mask n :: u64)" by (simp add: mask_eq_exp_minus_1 push_bit_eq_mult)
  then show ?thesis using False that by (auto simp: bit_simps)
qed

lemma mask_ok_setRangeLoop [simp]: "mask_ok m \<Longrightarrow> mask_ok (setRangeLoop f n m)"
proof (induction f n m rule: setRangeLoop.induct)
  case (1 f n m)
  then show ?case by (subst setRangeLoop.simps) (simp add: Let_def mask_ok_def)
qed

lemma test_filled:
  assumes "mask_ok m" "f < 512" "0 < r" "f mod 64 + r \<le> 64"
  shows "mask_test p (m[f div 64 := m ! (f div 64) OR (if r = 64 then u64_max else push_bit (f mod 64) (push_bit r 1 - 1))])
    \<longleftrightarrow> mask_test p m \<or> f \<le> p \<and> p < f + r"
proof -
  have r: "r \<le> 64" using assms(4) by simp
  have here: "p div 64 = f div 64 \<and> f mod 64 \<le> p mod 64 \<and> p mod 64 < f mod 64 + r \<longleftrightarrow> f \<le> p \<and> p < f + r"
  proof
    assume a: "p div 64 = f div 64 \<and> f mod 64 \<le> p mod 64 \<and> p mod 64 < f mod 64 + r"
    then show "f \<le> p \<and> p < f + r" using div_mult_mod_eq [of p 64] div_mult_mod_eq [of f 64] by linarith
  next
    assume a: "f \<le> p \<and> p < f + r"
    define q where "q = f div 64"
    have f: "f = q * 64 + f mod 64" by (simp add: q_def)
    then have "q * 64 \<le> p" "p < q * 64 + 64" using a assms(4) by linarith+
    then have d: "p div 64 = q" by (intro div_nat_eqI) (simp_all add: mult.commute)
    then have "p = q * 64 + p mod 64" by (metis div_mult_mod_eq)
    then show "p div 64 = f div 64 \<and> f mod 64 \<le> p mod 64 \<and> p mod 64 < f mod 64 + r" using a f d q_def by linarith
  qed
  have i: "f div 64 < 8" "f div 64 < length m" using assms(1,2) by (auto simp: mask_ok_def)
  have lt: "p < 512" if "f \<le> p \<and> p < f + r"
  proof -
    have "p div 64 < 8" using here i(1) that by linarith
    then show ?thesis using div_mult_mod_eq [of p 64] mod_less_divisor [of 64 p] by linarith
  qed
  let ?w = "if r = 64 then u64_max else push_bit (f mod 64) (push_bit r 1 - 1)"
  have w: "bit ?w (p mod 64) \<longleftrightarrow> f mod 64 \<le> p mod 64 \<and> p mod 64 < f mod 64 + r"
    unfolding bit_run [OF assms(4) r] by simp
  have u: "bit (m[f div 64 := m ! (f div 64) OR ?w] ! (p div 64)) (p mod 64)
      \<longleftrightarrow> bit (m ! (p div 64)) (p mod 64) \<or> p div 64 = f div 64 \<and> bit ?w (p mod 64)"
    using i(2) by (cases "p div 64 = f div 64") (simp_all add: bit_or_iff)
  show ?thesis unfolding mask_test_bit u w here using lt by blast
qed

lemma ring_range:
  assumes "f < 512" "r \<le> n" "f + r \<le> 512"
  shows "(\<exists>k<n. p = (f + k) mod 512) \<longleftrightarrow> (f \<le> p \<and> p < f + r) \<or> (\<exists>k<n - r. p = ((f + r) mod 512 + k) mod (512 :: nat))"
proof -
  have "(\<exists>k<n. p = (f + k) mod 512) \<longleftrightarrow> (\<exists>k<r. p = (f + k) mod 512) \<or> (\<exists>k<n - r. p = (f + (r + k)) mod 512)"
    (is "?l \<longleftrightarrow> ?a \<or> ?b")
  proof
    assume ?l
    then obtain k where k: "k < n" "p = (f + k) mod 512" by blast
    show "?a \<or> ?b"
    proof (cases "k < r")
      case True
      then show ?thesis using k by blast
    next
      case False
      then have "k - r < n - r" "p = (f + (r + (k - r))) mod 512" using k by simp_all
      then show ?thesis by blast
    qed
  next
    assume "?a \<or> ?b"
    then show ?l
    proof
      assume ?a
      then obtain k where "k < r" "p = (f + k) mod 512" by blast
      moreover from this have "k < n" using assms(2) by linarith
      ultimately show ?l by blast
    next
      assume ?b
      then obtain k where k: "k < n - r" "p = (f + (r + k)) mod 512" by blast
      then have "r + k < n" by linarith
      then show ?l using k(2) by blast
    qed
  qed
  moreover have "(\<exists>k<r. p = (f + k) mod 512) \<longleftrightarrow> f \<le> p \<and> p < f + r"
  proof
    assume "f \<le> p \<and> p < f + r"
    then have "p - f < r" "p = (f + (p - f)) mod 512" using assms(3) by linarith (use \<open>f \<le> p \<and> p < f + r\<close> assms(3) in simp)
    then show "\<exists>k<r. p = (f + k) mod 512" by blast
  qed (use assms(3) in auto)
  moreover have "(f + (r + k)) mod 512 = ((f + r) mod 512 + k) mod 512" for k by (simp add: mod_simps add.assoc)
  ultimately show ?thesis by simp
qed

lemma test_setRangeLoop:
  "mask_ok m \<Longrightarrow> f < 512 \<Longrightarrow> mask_test p (setRangeLoop f n m) \<longleftrightarrow> mask_test p m \<or> (\<exists>k<n. p = (f + k) mod 512)"
proof (induction f n m rule: setRangeLoop.induct)
  case (1 f n m)
  show ?case
  proof (cases "n = 0")
    case True
    then show ?thesis by (simp add: setRangeLoop.simps)
  next
    case False
    let ?r = "rangeRun f n"
    let ?m = "m[f div 64 := m ! (f div 64) OR (if ?r = 64 then u64_max else push_bit (f mod 64) (push_bit ?r 1 - 1))]"
    have l: "f mod 64 < 64" by simp
    have r: "0 < ?r" "?r \<le> n" "f mod 64 + ?r \<le> 64" using False l by (auto simp: rangeRun_def)
    have "f div 64 \<le> 7" using "1.prems"(2) by (simp add: less_mult_imp_div_less[of f 8 64] flip: less_Suc_eq_le)
    then have e: "f + ?r \<le> 512" using r(3) div_mult_mod_eq [of f 64] by linarith
    have s: "setRangeLoop f n m = setRangeLoop ((f + ?r) mod 512) (n - ?r) ?m"
      using False by (subst setRangeLoop.simps) (simp add: Let_def page_counts)
    have ok: "mask_ok ?m" using "1.prems"(1) by (simp add: mask_ok_def)
    have "mask_test p (setRangeLoop ((f + ?r) mod 512) (n - ?r) ?m)
        \<longleftrightarrow> mask_test p ?m \<or> (\<exists>k<n - ?r. p = ((f + ?r) mod 512 + k) mod 512)"
      using "1.IH" [OF False refl refl refl] ok by (simp add: page_counts)
    then show ?thesis unfolding s test_filled [OF "1.prems" r(1,3)] using ring_range [OF "1.prems"(2) r(2) e, of p] by blast
  qed
qed

lemma test_setRange:
  assumes "mask_ok m"
  shows "mask_test p (mask_setRange f n m) \<longleftrightarrow> mask_test p m \<or> (\<exists>k<n. p = (f + k) mod 512)"
proof -
  consider "n = 0" | "n \<ge> 512" | "0 < n" "n < 512" by linarith
  then show ?thesis
  proof cases
    case 2
    have "\<exists>k<n. p = (f + k) mod 512" if "p < 512"
    proof (intro exI conjI)
      show "(p + (512 - f mod 512)) mod 512 < n" using 2 by (meson less_le_trans mod_less_divisor zero_less_numeral)
      have "(f + (p + (512 - f mod 512)) mod 512) mod 512 = (f mod 512 + (p + (512 - f mod 512))) mod 512"
        by (simp only: mod_simps)
      also have "f mod 512 + (p + (512 - f mod 512)) = p + 512" using mod_less_divisor [of 512 f] by linarith
      finally show "p = (f + (p + (512 - f mod 512)) mod 512) mod 512" using that by simp
    qed
    then show ?thesis using assms 2 by (auto simp: mask_setRange_def page_counts) (auto simp: mask_test_bit)
  next
    case 3
    have "(f mod 512 + k) mod 512 = (f + k) mod 512" for k by (simp add: mod_simps)
    then show ?thesis using assms 3 by (simp add: mask_setRange_def page_counts test_setRangeLoop)
  qed (simp add: mask_setRange_def)
qed

section \<open>The page of a pixel\<close>

fun psmCode :: "PixelStorageMode \<Rightarrow> u8" where
  "psmCode C32 = GS_PSM_CT32"
| "psmCode C24 = GS_PSM_CT24"
| "psmCode C16 = GS_PSM_CT16"
| "psmCode C16S = GS_PSM_CT16S"
| "psmCode P8 = GS_PSM_T8"
| "psmCode P4 = GS_PSM_T4"
| "psmCode P8H = GS_PSM_T8H"
| "psmCode P4HL = GS_PSM_T4HL"
| "psmCode P4HH = GS_PSM_T4HH"
| "psmCode Z32 = GS_PSM_Z32"
| "psmCode Z24 = GS_PSM_Z24"
| "psmCode Z16 = GS_PSM_Z16"
| "psmCode Z16S = GS_PSM_Z16S"
| "psmCode PsmMax = 0xFF"

lemma geometry_of: "IsValidPsm psm \<Longrightarrow> pageGeometry (psmCode psm) = Some \<lparr>pg_width = pX psm, pg_height = pY psm\<rparr>"
  by (cases psm) (simp_all add: pageGeometry_def gs_psm_defs)

definition pageN :: "PixelStorageMode \<Rightarrow> u32 \<Rightarrow> u32 \<Rightarrow> u32 \<Rightarrow> u32 \<Rightarrow> nat" where
  "pageN psm bp bw x y = wordN psm bp bw x y div 2048"

lemma mod_product_div: "b mod (k * n) div k = b div k mod (n :: nat)"
  by (cases "k = 0") (simp_all add: mod_mult2_eq)

lemma pageN_pixel:
  assumes v: "IsValidPsm psm"
  shows "pageN psm bp bw x y = (unat bp div 32 + (unat y div pY psm * pagesPerRow psm bw + unat x div pX psm)
    + ((unat bp mod 32) * ppb psm + localN psm (unat x) (unat y)) div (32 * ppb psm)) mod 512"
proof -
  let ?U = "unat (UnpackedBitWidth psm)" and ?o = "unat (BitOffset psm)" and ?q = "ppb psm"
  let ?Q = "unat y div pY psm * pagesPerRow psm bw + unat x div pX psm" and ?l = "localN psm (unat x) (unat y)"
  have s: "32 * ?q * ?U = 2 ^ 16" "?o < ?U" "0 < ?q" using v by (cases psm; simp)+
  have "pageN psm bp bw x y = (bitN psm bp bw x y div 2 ^ 16) mod 512"
  proof -
    have "b div 32 mod 2 ^ 20 div 2048 = (b div 2 ^ 16) mod 512" for b :: nat
    proof -
      have "b div 32 mod (2048 * 512) div 2048 = b div 32 div 2048 mod 512" by (rule mod_product_div)
      then show ?thesis by (simp add: div_mult2_eq [symmetric])
    qed
    then show ?thesis by (simp add: pageN_def wordN_def)
  qed
  also have "\<dots> = ((pixelN psm bp bw x y * ?U + ?o) div 2 ^ 16) mod 512"
  proof -
    have b: "b mod 2 ^ 32 div 2 ^ 16 mod 512 = b div 2 ^ 16 mod 512" for b :: nat
    proof -
      have "(2 :: nat) ^ 32 = 2 ^ 16 * 2 ^ 16" by simp
      then have "b mod 2 ^ 32 div 2 ^ 16 = b div 2 ^ 16 mod 2 ^ 16" by (metis mod_product_div)
      moreover have "(512 :: nat) dvd 2 ^ 16" by simp
      ultimately show ?thesis by (metis mod_mod_cancel)
    qed
    show ?thesis unfolding bitN_def by (rule b)
  qed
  also have "(pixelN psm bp bw x y * ?U + ?o) div 2 ^ 16 = pixelN psm bp bw x y div (32 * ?q)"
  proof -
    have d: "(P * U + o') div U = P" if "o' < U" for P U o' :: nat using that by simp
    have "(pixelN psm bp bw x y * ?U + ?o) div (?U * (32 * ?q)) = pixelN psm bp bw x y div (32 * ?q)"
      unfolding div_mult2_eq d [OF s(2)] ..
    then show ?thesis using s(1) by (simp only: mult.commute [of ?U])
  qed
  also have "pixelN psm bp bw x y = (unat bp div 32 + ?Q) * (32 * ?q) + ((unat bp mod 32) * ?q + ?l)"
  proof -
    have g: "(B + 32 * Q) * q + l = (d + Q) * (32 * q) + (m * q + l)" if "B = d * 32 + m" for B Q q l d m :: nat
      using that by (simp add: algebra_simps)
    show ?thesis unfolding pixelN_def by (rule g) simp
  qed
  also have "\<dots> div (32 * ?q) = unat bp div 32 + ?Q + ((unat bp mod 32) * ?q + ?l) div (32 * ?q)"
    using s(3) by simp
  finally show ?thesis .
qed

text \<open>The carry into the next page.\<close>

lemma page_carry:
  assumes v: "IsValidPsm psm"
  shows "((unat bp mod 32) * ppb psm + localN psm (unat x) (unat y)) div (32 * ppb psm) \<le> (if unat bp mod 32 = 0 then 0 else 1)"
proof -
  have l: "localN psm (unat x) (unat y) < 32 * ppb psm" by (rule localN_bound [OF v])
  show ?thesis
  proof (cases "unat bp mod 32 = 0")
    case True
    then show ?thesis using l by simp
  next
    case False
    have "(unat bp mod 32) * ppb psm \<le> 32 * ppb psm" by (intro mult_le_mono1) simp
    then have "(unat bp mod 32) * ppb psm + localN psm (unat x) (unat y) < 2 * (32 * ppb psm)" using l by linarith
    then have "((unat bp mod 32) * ppb psm + localN psm (unat x) (unat y)) div (32 * ppb psm) < 2" by (rule less_mult_imp_div_less)
    then show ?thesis using False by simp
  qed
qed

section \<open>The pages of a rectangle\<close>

lemma mask_ok_page [simp]: "mask_ok m \<Longrightarrow> mask_ok (setPageOfRect bp ph rs py px m)"
  by (simp add: setPageOfRect_def Let_def)

definition rectPage :: "nat \<Rightarrow> nat \<Rightarrow> nat \<Rightarrow> nat \<Rightarrow> nat" where
  "rectPage basePage rowStride py px = (basePage + (py mod 512) * (rowStride mod 512) + px) mod 512"

lemma test_page: "mask_ok m \<Longrightarrow> mask_test p (setPageOfRect bp ph rs py px m) \<longleftrightarrow>
    mask_test p m \<or> p = rectPage bp rs py px \<or> ph \<noteq> 0 \<and> p = (rectPage bp rs py px + 1) mod 512"
  by (auto simp: setPageOfRect_def Let_def rectPage_def GS_VRAM_PAGE_COUNT_def)

lemma fold_pages:
  assumes "mask_ok m"
  shows "mask_ok (fold (setPageOfRect bp ph rs py) pxs m) \<and> (mask_test p (fold (setPageOfRect bp ph rs py) pxs m) \<longleftrightarrow>
    mask_test p m \<or> (\<exists>px\<in>set pxs. p = rectPage bp rs py px \<or> ph \<noteq> 0 \<and> p = (rectPage bp rs py px + 1) mod 512))"
  using assms by (induction pxs arbitrary: m) (simp_all add: test_page disj_assoc)

lemma fold_rows:
  assumes "mask_ok m"
  shows "mask_ok (fold (\<lambda>py. fold (setPageOfRect bp ph rs py) pxs) pys m) \<and>
    (mask_test p (fold (\<lambda>py. fold (setPageOfRect bp ph rs py) pxs) pys m) \<longleftrightarrow>
    mask_test p m \<or> (\<exists>py\<in>set pys. \<exists>px\<in>set pxs. p = rectPage bp rs py px \<or> ph \<noteq> 0 \<and> p = (rectPage bp rs py px + 1) mod 512))"
  using assms by (induction pys arbitrary: m) (simp_all add: fold_pages disj_assoc)

lemma rectPage_number: "rectPage (unat bp mod 16384 div 32) rs py px = (unat bp div 32 + (py * rs + px)) mod 512"
proof -
  have "unat bp mod (32 * 512) div 32 = unat bp div 32 mod 512" by (rule mod_product_div)
  moreover have "(a mod 512 + b mod 512 * (c mod 512) + d) mod 512 = (a + (b * c + d)) mod 512" for a b c d :: nat
  proof -
    have "(b mod 512 * (c mod 512) + e) mod 512 = (b * c + e) mod 512" for e by (metis mod_mult_eq mod_add_left_eq)
    from this [of "a mod 512 + d"] have "(a mod 512 + b mod 512 * (c mod 512) + d) mod 512 = (a mod 512 + (b * c + d)) mod 512"
      by (simp only: ac_simps)
    then show ?thesis by (simp only: mod_add_left_eq)
  qed
  ultimately show ?thesis unfolding rectPage_def by simp
qed

definition touchedBy :: "nat \<Rightarrow> nat \<Rightarrow> nat \<Rightarrow> bool" where
  "touchedBy p first phase \<longleftrightarrow> p = first mod 512 \<or> phase \<noteq> 0 \<and> p = (first + 1) mod 512"

lemma pixel_page:
  assumes "IsValidPsm psm"
  shows "touchedBy (pageN psm bp bw x y) (unat bp div 32 + (unat y div pY psm * pagesPerRow psm bw + unat x div pX psm)) (unat bp mod 32)"
  using page_carry [OF assms, of bp x y] unfolding touchedBy_def pageN_pixel [OF assms]
  by (cases "((unat bp mod 32) * ppb psm + localN psm (unat x) (unat y)) div (32 * ppb psm)") (auto split: if_splits)

lemma rect_covers:
  assumes v: "IsValidPsm psm" and bw: "unat bw < 2 ^ 26"
    and x: "unat x \<le> unat x'" "unat x' < unat x + unat width" and y: "unat y \<le> unat y'" "unat y' < unat y + unat height"
  shows "mask_test (pageN psm bp bw x' y') (gsVramPagesForSurfaceRect bp bw (psmCode psm) x y width height)"
proof -
  let ?p = "pageN psm bp bw x' y'"
  have p: "?p < 512" by (simp add: pageN_pixel [OF v])
  have "0 < unat width" "0 < unat height" using x y by linarith+
  then have w: "width \<noteq> 0" "height \<noteq> 0" by auto
  have stride: "unat bw * 64 div pX psm = pagesPerRow psm bw"
    using bw by (simp add: pagesPerRow_def unat_word_ariths)
  let ?fx = "unat x div pX psm" and ?lx = "(unat x + unat width - 1) div pX psm"
  let ?fy = "unat y div pY psm" and ?ly = "(unat y + unat height - 1) div pY psm"
  have "unat x' div pX psm \<le> ?lx" by (rule div_le_mono) (use x in linarith)
  then have inx: "unat x' div pX psm \<in> set [?fx..<Suc ?lx]" using div_le_mono [OF x(1), of "pX psm"]
    unfolding set_upt atLeastLessThan_iff less_Suc_eq_le by blast
  have "unat y' div pY psm \<le> ?ly" by (rule div_le_mono) (use y in linarith)
  then have iny: "unat y' div pY psm \<in> set [?fy..<Suc ?ly]" using div_le_mono [OF y(1), of "pY psm"]
    unfolding set_upt atLeastLessThan_iff less_Suc_eq_le by blast
  have all: "mask_test ?p (mask_setAll mask_new)" using p by simp
  have m16: "unat bp mod 16384 mod 32 = unat bp mod 32" by (rule mod_mod_cancel) simp
  have rows: "mask_test ?p (fold (\<lambda>pageY. fold (setPageOfRect (unat bp mod 16384 div 32) (unat bp mod 16384 mod 32)
      (unat bw * 64 div pX psm) pageY) [?fx..<Suc ?lx]) [?fy..<Suc ?ly] mask_new)"
  proof -
    let ?n = "unat y' div pY psm * pagesPerRow psm bw + unat x' div pX psm"
    have r: "rectPage (unat bp mod 16384 div 32) (unat bw * 64 div pX psm) (unat y' div pY psm) (unat x' div pX psm)
        = (unat bp div 32 + ?n) mod 512" unfolding rectPage_number stride ..
    have "?p = (unat bp div 32 + ?n) mod 512 \<or> unat bp mod 32 \<noteq> 0 \<and> ?p = ((unat bp div 32 + ?n) mod 512 + 1) mod 512"
      using pixel_page [OF v, of bp bw x' y'] unfolding touchedBy_def by (simp add: mod_simps)
    then show ?thesis unfolding conjunct2 [OF fold_rows [OF mask_ok_new]] m16 using inx iny unfolding r [symmetric] by blast
  qed
  show ?thesis unfolding gsVramPagesForSurfaceRect_def geometry_of [OF v] option.case page_geometry.simps Let_def
      kGsBlockCount_def GS_VRAM_PAGE_COUNT_def
    using w all rows by simp
qed

lemma surface_range_covers:
  assumes v: "IsValidPsm psm" and bw: "unat bw < 2 ^ 26" and x: "x \<le> maximumX" and y: "y \<le> maximumY" and ok: "mask_ok m"
  shows "mask_test (pageN psm bp bw x y) (snd (addSurfaceRange bp bw (psmCode psm) maximumX maximumY m))"
proof -
  let ?p = "pageN psm bp bw x y"
  have p: "?p < 512" by (simp add: pageN_pixel [OF v])
  define ppr where "ppr = max ((max (unat bw) 1 * 64 + pX psm - 1) div pX psm) 1"
  define maxp where "maxp = unat maximumY div pY psm * ppr + unat maximumX div pX psm"
  define n where "n = unat y div pY psm * pagesPerRow psm bw + unat x div pX psm"
  have pos: "0 < pX psm" using v by (cases psm) simp_all
  have stride: "pagesPerRow psm bw \<le> ppr"
  proof -
    have "unat (bw * 64) = unat bw * 64" using bw by (simp add: unat_word_ariths)
    then have "pagesPerRow psm bw = unat bw * 64 div pX psm" by (simp add: pagesPerRow_def)
    also have "\<dots> \<le> (max (unat bw) 1 * 64 + pX psm - 1) div pX psm" using pos by (intro div_le_mono) linarith
    finally show ?thesis by (simp add: ppr_def)
  qed
  have n: "n \<le> maxp" unfolding n_def maxp_def
    using x y stride by (intro add_mono mult_le_mono div_le_mono) (simp_all add: word_le_nat_alt)
  have s: "snd (addSurfaceRange bp bw (psmCode psm) maximumX maximumY m) = addBlockRange bp (min ((maxp + 1) * 32) 16384) m"
    unfolding addSurfaceRange_def geometry_of [OF v] option.case page_geometry.simps Let_def maxp_def ppr_def
      kGsBlockCount_def GS_VRAM_PAGE_COUNT_def snd_conv by simp
  show ?thesis
  proof (cases "(maxp + 1) * 32 \<ge> 16384")
    case True
    then show ?thesis unfolding s using ok p by (simp add: addBlockRange_def kGsBlockCount_def GS_VRAM_PAGE_COUNT_def)
  next
    case False
    define start where "start = unat bp mod 16384"
    define count where "count = (start + (maxp + 1) * 32 - 1) div 32 - start div 32 + 1"
    have r: "addBlockRange bp (min ((maxp + 1) * 32) 16384) m = mask_setRange (start div 32) count m"
      using False unfolding addBlockRange_def kGsBlockCount_def GS_VRAM_PAGE_COUNT_def Let_def start_def count_def by simp
    have base: "start div 32 = unat bp div 32 mod 512"
    proof -
      have "unat bp mod (32 * 512) div 32 = unat bp div 32 mod 512" by (rule mod_product_div)
      then show ?thesis by (simp add: start_def)
    qed
    have m16: "start mod 32 = unat bp mod 32" unfolding start_def by (rule mod_mod_cancel) simp
    have cnt: "count = (if start mod 32 = 0 then maxp + 1 else maxp + 2)"
    proof -
      have "(q * 32 + t + (k + 1) * 32 - 1) div 32 - q + 1 = (if t = 0 then k + 1 else k + 2)" if "t < 32" for q t k :: nat
        using that by auto
      from this [of "start mod 32" "start div 32" maxp] show ?thesis unfolding count_def by simp
    qed
    have "\<exists>k<count. ?p = (start div 32 + k) mod 512"
    proof -
      have "?p = (unat bp div 32 + n) mod 512 \<or> unat bp mod 32 \<noteq> 0 \<and> ?p = (unat bp div 32 + n + 1) mod 512"
        using pixel_page [OF v, of bp bw x y] unfolding touchedBy_def n_def .
      then consider "?p = (start div 32 + n) mod 512" | "start mod 32 \<noteq> 0" "?p = (start div 32 + (n + 1)) mod 512"
        unfolding base m16 mod_add_left_eq add.assoc by blast
      then show ?thesis
      proof cases
        case 1
        moreover have "n < count" using n by (simp add: cnt)
        ultimately show ?thesis by blast
      next
        case 2
        moreover from this have "n + 1 < count" using n by (simp add: cnt)
        ultimately show ?thesis by blast
      qed
    qed
    then show ?thesis unfolding s r test_setRange [OF ok] by blast
  qed
qed

section \<open>What the pages are for\<close>

text \<open>The pages contain all that an access to the pixel touches.\<close>

definition coversPixel :: "page_mask \<Rightarrow> PixelStorageMode \<Rightarrow> u32 \<Rightarrow> u32 \<Rightarrow> u32 \<Rightarrow> u32 \<Rightarrow> bool" where
  "coversPixel pages psm bp bw x y \<longleftrightarrow>
     (\<forall>data v a. writePixel psm data bp bw x y v a \<noteq> data a \<longrightarrow> mask_test (a div GS_VRAM_PAGE_SIZE) pages)
     \<and> (\<forall>data data'. (\<forall>a. mask_test (a div GS_VRAM_PAGE_SIZE) pages \<longrightarrow> data a = data' a)
          \<longrightarrow> readPixel psm data bp bw x y = readPixel psm data' bp bw x y)"

lemma byte_of_word: "storageWord data (a div 4) = storageWord data' (a div 4) \<Longrightarrow> data a = data' a"
proof -
  assume e: "storageWord data (a div 4) = storageWord data' (a div 4)"
  have "bit (data a) k = bit (data' a) k" if "k < 8" for k
  proof -
    have i: "4 * (a div 4) + (8 * (a mod 4) + k) div 8 = a" "(8 * (a mod 4) + k) mod 8 = k" "8 * (a mod 4) + k < 32"
      using that mod_less_divisor [of 4 a] by simp_all
    show ?thesis
      using bit_storageWord [of data "a div 4" "8 * (a mod 4) + k"] bit_storageWord [of data' "a div 4" "8 * (a mod 4) + k"] e
      unfolding i(1,2) using i(3) by metis
  qed
  then show "data a = data' a" by (intro bit_word_eqI) simp
qed

lemma page_covers:
  assumes v: "IsValidPsm psm" and p: "mask_test (pageN psm bp bw x y) pages"
  shows "coversPixel pages psm bp bw x y"
proof -
  let ?w = "wordN psm bp bw x y"
  have inside: "mask_test (a div GS_VRAM_PAGE_SIZE) pages" if "a div 4 = ?w" for a
  proof -
    have "a div (4 * 2048) = ?w div 2048" unfolding div_mult2_eq that ..
    then show ?thesis using p by (simp add: pageN_def GS_VRAM_PAGE_SIZE_def)
  qed
  have "mask_test (a div GS_VRAM_PAGE_SIZE) pages" if d: "writePixel psm data bp bw x y c a \<noteq> data a" for data c a
  proof (rule inside)
    show "a div 4 = ?w"
    proof (rule ccontr)
      assume "a div 4 \<noteq> ?w"
      then have "storageWord (writePixel psm data bp bw x y c) (a div 4) = storageWord data (a div 4)"
        unfolding writePixel_storage [OF v] Let_def by simp
      then show False using d byte_of_word by blast
    qed
  qed
  moreover have "readPixel psm data bp bw x y = readPixel psm data' bp bw x y"
    if e: "\<forall>a. mask_test (a div GS_VRAM_PAGE_SIZE) pages \<longrightarrow> data a = data' a" for data data'
  proof -
    have "storageWord data ?w = storageWord data' ?w"
    proof (rule bit_word_eqI)
      fix k
      assume "k < LENGTH(32)"
      then have "k div 8 < 4" by (simp add: less_mult_imp_div_less)
      then have "(4 * ?w + k div 8) div 4 = ?w" by simp
      then have "data (4 * ?w + k div 8) = data' (4 * ?w + k div 8)" using inside e by blast
      then show "bit (storageWord data ?w) k = bit (storageWord data' ?w) k" by (simp add: bit_storageWord)
    qed
    then show ?thesis unfolding readPixel_storage [OF v] by simp
  qed
  ultimately show ?thesis unfolding coversPixel_def by blast
qed

text \<open>
  C21. The pages a renderer computes for a rectangle of a buffer are enough. In all thirteen storage modes, for every
  base block (aligned to a page or not, also where the buffer wraps at the end of the 4 MiB) and every width that fits
  the registers: writing a pixel of the rectangle changes bytes of the pages of \<open>gsVramPagesForSurfaceRect\<close> only, and
  reading it gives the same value from any two memories that agree on these pages. The same holds of the pages that
  \<open>addSurfaceRange\<close> adds to a mask, for every pixel up to its corner.
\<close>

theorem surface_pages_cover:
  assumes "IsValidPsm psm" and "unat bw < 2 ^ 26"
  shows "(unat x \<le> unat x' \<and> unat x' < unat x + unat width \<and> unat y \<le> unat y' \<and> unat y' < unat y + unat height
      \<longrightarrow> coversPixel (gsVramPagesForSurfaceRect bp bw (psmCode psm) x y width height) psm bp bw x' y')
    \<and> (x' \<le> maximumX \<and> y' \<le> maximumY
      \<longrightarrow> coversPixel (snd (addSurfaceRange bp bw (psmCode psm) maximumX maximumY mask_new)) psm bp bw x' y')"
  using assms by (simp add: page_covers rect_covers surface_range_covers)

theorem surface_pages_cover_witness:
  "coversPixel (gsVramPagesForSurfaceRect 16370 10 GS_PSM_T8 100 60 200 10) P8 16370 10 299 69
   \<and> coversPixel (snd (addSurfaceRange 16370 10 GS_PSM_T8 639 447 mask_new)) P8 16370 10 639 447"
proof -
  have "psmCode P8 = GS_PSM_T8" by simp
  then show ?thesis
    using surface_pages_cover [of P8 10 100 299 200 60 69 10 16370 0 0]
      surface_pages_cover [where psm = P8 and bw = 10 and x' = 639 and y' = 447 and maximumX = 639 and maximumY = 447 and bp = 16370]
    by simp
qed

end
