(* ===== verification/GsCoherencyProps.thy ===== *)
theory GsCoherencyProps
  imports GsCoherency GsPagesProps
begin

text \<open>
  The page versions keep track of the newest bytes: over every run of writes and transfers, a page whose copy is not
  marked older holds the bytes last written, and a transfer makes a copy current.
\<close>

unbundle bit_operations_syntax

section \<open>Masks\<close>

lemma mask_any_test: "mask_ok m \<Longrightarrow> mask_any m \<longleftrightarrow> (\<exists>p. mask_test p m)"
proof
  assume ok: "mask_ok m" and "mask_any m"
  then obtain i where i: "i < 8" "m ! i \<noteq> 0" by (auto simp: mask_any_def list_ex_iff in_set_conv_nth mask_ok_def)
  then obtain k where "bit (m ! i) k" by (metis bit_0_eq bit_eqI bot_apply bot_bool_def)
  moreover from this have "k < 64" using bit_imp_le_length by fastforce
  ultimately have "mask_test (i * 64 + k) m" using i(1) by (simp add: mask_test_bit)
  then show "\<exists>p. mask_test p m" by blast
next
  assume ok: "mask_ok m" and "\<exists>p. mask_test p m"
  then obtain p where p: "p < 512" "bit (m ! (p div 64)) (p mod 64)" by (auto simp: mask_test_bit)
  then have "p div 64 < length m" using ok by (auto simp: mask_ok_def)
  moreover have "m ! (p div 64) \<noteq> 0" using p(2) by auto
  ultimately show "mask_any m" unfolding mask_any_def list_ex_iff by (meson nth_mem)
qed

lemma popcount_0: "popcount w = 0 \<longleftrightarrow> w = 0"
proof -
  have "popcount w = 0 \<longleftrightarrow> (\<forall>k<64. \<not> bit w k)" by (auto simp: popcount_def filter_empty_conv)
  also have "\<dots> \<longleftrightarrow> w = 0" by (auto intro: bit_word_eqI)
  finally show ?thesis .
qed

lemma mask_count_any: "mask_count m = 0 \<longleftrightarrow> \<not> mask_any m"
  by (induction m) (simp_all add: mask_count_def mask_any_def popcount_0)

section \<open>Pages\<close>

lemma length_forPages [simp]: "length (co_pages (forPages pages change c)) = length (co_pages c)"
  and next_forPages [simp]: "co_nextGeneration (forPages pages change c) = co_nextGeneration c"
  by (simp_all add: forPages_def)

lemma forPages_nth: "p < length (co_pages c) \<Longrightarrow>
    co_pages (forPages pages change c) ! p = (if mask_test p pages then change (co_pages c ! p) else co_pages c ! p)"
  by (simp add: forPages_def)

lemma newer_fold:
  assumes "mask_ok m"
  shows "mask_ok (fold (\<lambda>i r. if P i then mask_set i r else r) is m) \<and>
    (mask_test p (fold (\<lambda>i r. if P i then mask_set i r else r) is m) \<longleftrightarrow> mask_test p m \<or> p < 512 \<and> p \<in> set is \<and> P p)"
  using assms by (induction "is" arbitrary: m) auto

lemma test_newerPages:
  "mask_ok (newerPages owner pages c)"
  "length (co_pages c) = 512 \<Longrightarrow> mask_test p (newerPages owner pages c) \<longleftrightarrow> p < 512 \<and> mask_test p pages \<and> ownerAt c p = owner"
  using newer_fold [OF mask_ok_new, of "\<lambda>i. mask_test i pages \<and> ownerAt c i = owner" "[0..<length (co_pages c)]" p]
  by (auto simp: newerPages_def)

lemma overlaps_iff: "length (co_pages c) = 512 \<Longrightarrow> overlaps owner pages c \<longleftrightarrow> (\<exists>p. mask_test p pages \<and> ownerAt c p = owner)"
  by (auto simp: overlaps_def list_ex_iff mask_test_bit)

section \<open>The invariant\<close>

definition coherent :: "'v vram_pair \<Rightarrow> (nat \<Rightarrow> 'v) \<Rightarrow> bool" where
  "coherent s newest \<longleftrightarrow> length (co_pages (vp_coherency s)) = 512 \<and> invariantHolds (vp_coherency s) \<and>
     (\<forall>p<512. (ownerAt (vp_coherency s) p \<noteq> GpuNewer \<longrightarrow> vp_cpu s p = newest p) \<and>
              (ownerAt (vp_coherency s) p \<noteq> CpuNewer \<longrightarrow> vp_gpu s p = newest p))"

lemma invariantHolds_nth: "length (co_pages c) = 512 \<Longrightarrow> invariantHolds c \<longleftrightarrow> co_nextGeneration c \<noteq> 0 \<and>
    (\<forall>p<512. pv_cpuGeneration (co_pages c ! p) < co_nextGeneration c \<and> pv_gpuGeneration (co_pages c ! p) < co_nextGeneration c)"
  by (auto simp: invariantHolds_def list_all_length not_le)

lemma next_generation: "n \<noteq> u64_max \<Longrightarrow> g \<le> n \<Longrightarrow> g < n + 1 \<and> n + 1 \<noteq> 0" for g n :: u64
  by (simp add: word_less_nat_alt word_le_nat_alt unat_succ_u64) (metis add.commute unat_succ_u64 unat_0 nat.simps(3))

lemma note_generation:
  assumes "length (co_pages c) = 512" "invariantHolds c" "co_nextGeneration c \<noteq> u64_max"
    and "c' = forPages pages change (c\<lparr>co_nextGeneration := co_nextGeneration c + 1\<rparr>)\<lparr>co_statistics := st\<rparr>"
    and "\<And>v. pv_cpuGeneration (change v) \<in> {co_nextGeneration c, pv_cpuGeneration v}"
    and "\<And>v. pv_gpuGeneration (change v) \<in> {co_nextGeneration c, pv_gpuGeneration v}"
  shows "length (co_pages c') = 512 \<and> invariantHolds c'"
proof -
  have l: "length (co_pages c') = 512" using assms(1,4) by simp
  have "g < co_nextGeneration c + 1" if "g \<le> co_nextGeneration c" for g using next_generation [OF assms(3) that] by blast
  moreover have "pv_cpuGeneration (co_pages c' ! p) \<le> co_nextGeneration c \<and> pv_gpuGeneration (co_pages c' ! p) \<le> co_nextGeneration c"
    if "p < 512" for p
    using assms(2) that assms(5) [of "co_pages c ! p"] assms(6) [of "co_pages c ! p"] unfolding invariantHolds_nth [OF assms(1)]
    by (auto simp: assms(4) forPages_nth assms(1) less_imp_le)
  moreover have "co_nextGeneration c + 1 \<noteq> 0" using next_generation [OF assms(3) order_refl] by blast
  moreover have "co_nextGeneration c' = co_nextGeneration c + 1" by (simp add: assms(4))
  ultimately show ?thesis unfolding invariantHolds_nth [OF l] using l by auto
qed

lemma coherent_reject: "coherent s newest \<Longrightarrow> coherent (s\<lparr>vp_coherency := snd (reject message (vp_coherency s))\<rparr>) newest"
  by (simp add: coherent_def ownerAt_def invariantHolds_def reject_def)

lemma owner_fresh:
  "g > pv_gpuGeneration v \<Longrightarrow> ownership (v\<lparr>pv_cpuGeneration := g\<rparr>) = CpuNewer"
  "g > pv_cpuGeneration v \<Longrightarrow> ownership (v\<lparr>pv_gpuGeneration := g\<rparr>) = GpuNewer"
  "ownership (v\<lparr>pv_gpuGeneration := pv_cpuGeneration v\<rparr>) = Synchronized"
  "ownership (v\<lparr>pv_cpuGeneration := pv_gpuGeneration v\<rparr>) = Synchronized"
  by (auto simp: ownership_def)

lemma cpuWrite_coherent:
  assumes c: "coherent s newest" and m: "mask_ok pages"
  shows "coherent (snd (cpuWrite pages change s))
    (if fst (cpuWrite pages change s) then (\<lambda>p. if mask_test p pages then change p (newest p) else newest p) else newest)"
proof -
  let ?c = "vp_coherency s"
  have l: "length (co_pages ?c) = 512" and inv: "invariantHolds ?c"
    and cur: "\<And>p. p < 512 \<Longrightarrow> ownerAt ?c p \<noteq> GpuNewer \<Longrightarrow> vp_cpu s p = newest p"
      "\<And>p. p < 512 \<Longrightarrow> ownerAt ?c p \<noteq> CpuNewer \<Longrightarrow> vp_gpu s p = newest p"
    using c by (auto simp: coherent_def)
  consider (reject) "overlaps GpuNewer pages ?c" | (none) "\<not> overlaps GpuNewer pages ?c" "\<not> mask_any pages"
    | (full) "\<not> overlaps GpuNewer pages ?c" "mask_any pages" "co_nextGeneration ?c = u64_max"
    | (noted) "\<not> overlaps GpuNewer pages ?c" "mask_any pages" "co_nextGeneration ?c \<noteq> u64_max" by blast
  then show ?thesis
  proof cases
    case reject
    then have "cpuWrite pages change s = (False, s\<lparr>vp_coherency := snd (reject ''CPU write overlaps a GPU-newer GS VRAM page'' ?c)\<rparr>)"
      by (simp add: cpuWrite_def noteCpuWrite_def reject_def)
    then show ?thesis using coherent_reject [OF c] by simp
  next
    case none
    then have "\<not> mask_test p pages" for p using mask_any_test [OF m] by blast
    then show ?thesis using c none by (simp add: cpuWrite_def noteCpuWrite_def)
  next
    case full
    then show ?thesis using c by (simp add: cpuWrite_def noteCpuWrite_def allocateGeneration_def)
  next
    case noted
    define st where "st = (co_statistics ?c)\<lparr>cs_cpuWriteOperations := cs_cpuWriteOperations (co_statistics ?c) + 1,
      cs_cpuWritePages := cs_cpuWritePages (co_statistics ?c) + of_nat (mask_count pages)\<rparr>"
    define c' where "c' = forPages pages (pv_cpuGeneration_update (\<lambda>g. co_nextGeneration ?c))
      (?c\<lparr>co_nextGeneration := co_nextGeneration ?c + 1\<rparr>)\<lparr>co_statistics := st\<rparr>"
    have w: "cpuWrite pages change s = (True, s\<lparr>vp_coherency := c', vp_cpu := (\<lambda>p. if mask_test p pages then change p (vp_cpu s p) else vp_cpu s p)\<rparr>)"
      using noted by (simp add: cpuWrite_def noteCpuWrite_def allocateGeneration_def Let_def c'_def st_def forPages_def)
    have k: "length (co_pages c') = 512 \<and> invariantHolds c'"
      by (rule note_generation [OF l inv noted(3) c'_def]) simp_all
    have o: "ownerAt c' p = (if mask_test p pages then CpuNewer else ownerAt ?c p)" if "p < 512" for p
      using that inv unfolding invariantHolds_nth [OF l] by (simp add: ownerAt_def c'_def forPages_nth l owner_fresh)
    have n: "mask_test p pages \<Longrightarrow> ownerAt ?c p \<noteq> GpuNewer" for p using noted(1) overlaps_iff [OF l] by blast
    show ?thesis unfolding w coherent_def using k by (auto simp: o cur n split: if_splits)
  qed
qed

lemma gpuWrite_coherent:
  assumes c: "coherent s newest" and m: "mask_ok pages"
  shows "coherent (snd (gpuWrite pages n k change s))
    (if fst (gpuWrite pages n k change s) then (\<lambda>p. if mask_test p pages then change p (newest p) else newest p) else newest)"
proof -
  let ?c = "vp_coherency s"
  have l: "length (co_pages ?c) = 512" and inv: "invariantHolds ?c"
    and cur: "\<And>p. p < 512 \<Longrightarrow> ownerAt ?c p \<noteq> GpuNewer \<Longrightarrow> vp_cpu s p = newest p"
      "\<And>p. p < 512 \<Longrightarrow> ownerAt ?c p \<noteq> CpuNewer \<Longrightarrow> vp_gpu s p = newest p"
    using c by (auto simp: coherent_def)
  let ?bad = "n = 0 \<or> unat k < mask_count pages"
  consider (none) "mask_count pages = 0" | (arguments) "mask_count pages \<noteq> 0" ?bad
    | (reject) "mask_count pages \<noteq> 0" "\<not> ?bad" "overlaps CpuNewer pages ?c"
    | (full) "mask_count pages \<noteq> 0" "\<not> ?bad" "\<not> overlaps CpuNewer pages ?c" "co_nextGeneration ?c = u64_max"
    | (noted) "mask_count pages \<noteq> 0" "\<not> ?bad" "\<not> overlaps CpuNewer pages ?c" "co_nextGeneration ?c \<noteq> u64_max" by blast
  then show ?thesis
  proof cases
    case none
    then have "\<not> mask_test p pages" for p using mask_any_test [OF m] mask_count_any by blast
    then show ?thesis using c none by (simp add: gpuWrite_def noteGpuWriteBatch_def)
  next
    case arguments
    then show ?thesis using c by (auto simp: gpuWrite_def noteGpuWriteBatch_def)
  next
    case reject
    then have "gpuWrite pages n k change s = (False, s\<lparr>vp_coherency := snd (reject ''GPU write overlaps a CPU-newer GS VRAM page'' ?c)\<rparr>)"
      by (auto simp: gpuWrite_def noteGpuWriteBatch_def reject_def)
    then show ?thesis using coherent_reject [OF c] by simp
  next
    case full
    then show ?thesis using c by (auto simp: gpuWrite_def noteGpuWriteBatch_def allocateGeneration_def)
  next
    case noted
    define st where "st = (co_statistics ?c)\<lparr>cs_gpuWriteOperations := cs_gpuWriteOperations (co_statistics ?c) + n,
      cs_gpuWritePages := cs_gpuWritePages (co_statistics ?c) + k\<rparr>"
    define c' where "c' = forPages pages (pv_gpuGeneration_update (\<lambda>g. co_nextGeneration ?c))
      (?c\<lparr>co_nextGeneration := co_nextGeneration ?c + 1\<rparr>)\<lparr>co_statistics := st\<rparr>"
    have w: "gpuWrite pages n k change s = (True, s\<lparr>vp_coherency := c', vp_gpu := (\<lambda>p. if mask_test p pages then change p (vp_gpu s p) else vp_gpu s p)\<rparr>)"
      using noted by (auto simp: gpuWrite_def noteGpuWriteBatch_def allocateGeneration_def Let_def c'_def st_def forPages_def)
    have i: "length (co_pages c') = 512 \<and> invariantHolds c'"
      by (rule note_generation [OF l inv noted(4) c'_def]) simp_all
    have o: "ownerAt c' p = (if mask_test p pages then GpuNewer else ownerAt ?c p)" if "p < 512" for p
      using that inv unfolding invariantHolds_nth [OF l] by (simp add: ownerAt_def c'_def forPages_nth l owner_fresh)
    have e: "mask_test p pages \<Longrightarrow> ownerAt ?c p \<noteq> CpuNewer" for p using noted(3) overlaps_iff [OF l] by blast
    show ?thesis unfolding w coherent_def using i by (auto simp: o cur e split: if_splits)
  qed
qed

text \<open>Transfers.\<close>

lemma copied_invariant:
  assumes "length (co_pages c) = 512" "invariantHolds c" and "co_pages c' = co_pages (forPages pages change c)"
    and "co_nextGeneration c' = co_nextGeneration c"
    and "\<And>v. pv_cpuGeneration (change v) \<in> {pv_cpuGeneration v, pv_gpuGeneration v}"
    and "\<And>v. pv_gpuGeneration (change v) \<in> {pv_cpuGeneration v, pv_gpuGeneration v}"
  shows "length (co_pages c') = 512 \<and> invariantHolds c'"
proof -
  have l: "length (co_pages c') = 512" using assms(1,3) by simp
  have "pv_cpuGeneration (co_pages c' ! p) < co_nextGeneration c \<and> pv_gpuGeneration (co_pages c' ! p) < co_nextGeneration c"
    if "p < 512" for p
    using assms(2) that assms(5) [of "co_pages c ! p"] assms(6) [of "co_pages c ! p"] unfolding invariantHolds_nth [OF assms(1)]
    by (auto simp: assms(3) forPages_nth assms(1))
  then show ?thesis using assms(2,4) l unfolding invariantHolds_nth [OF l] invariantHolds_nth [OF assms(1)] by simp
qed

lemma upload_coherent:
  assumes c: "coherent s newest"
  shows "coherent (snd (uploadCpuNewer executed pages s)) newest
    \<and> (executed \<longrightarrow> fst (uploadCpuNewer executed pages s) \<and> (\<forall>p. mask_test p pages \<longrightarrow>
         ownerAt (vp_coherency (snd (uploadCpuNewer executed pages s))) p \<noteq> CpuNewer))
    \<and> co_nextGeneration (vp_coherency (snd (uploadCpuNewer executed pages s))) = co_nextGeneration (vp_coherency s)"
proof -
  let ?c = "vp_coherency s" and ?m = "cpuNewerPages pages (vp_coherency s)"
  have l: "length (co_pages ?c) = 512" and inv: "invariantHolds ?c" using c by (auto simp: coherent_def)
  have t: "mask_test p ?m \<longleftrightarrow> p < 512 \<and> mask_test p pages \<and> ownerAt ?c p = CpuNewer" for p
    unfolding cpuNewerPages_def by (rule test_newerPages(2) [OF l])
  have p512: "mask_test p pages \<Longrightarrow> p < 512" for p by (simp add: mask_test_bit)
  have any: "mask_any ?m \<longleftrightarrow> (\<exists>p. mask_test p ?m)" unfolding cpuNewerPages_def by (rule mask_any_test [OF test_newerPages(1)])
  have free: "\<not> overlaps GpuNewer ?m ?c" unfolding overlaps_iff [OF l] t by auto
  show ?thesis
  proof (cases "mask_any ?m \<and> executed")
    case False
    then have "uploadCpuNewer executed pages s = (\<not> mask_any ?m, s)" by (auto simp: uploadCpuNewer_def Let_def)
    then show ?thesis using c any False p512 by (auto simp: t)
  next
    case True
    define c' where "c' = snd (completeCpuToGpu ?m ?c)"
    have e: "completeCpuToGpu ?m ?c = (None, c')" using True free by (simp add: c'_def completeCpuToGpu_def Let_def)
    have pg: "co_pages c' = co_pages (forPages ?m (\<lambda>v. v\<lparr>pv_gpuGeneration := pv_cpuGeneration v\<rparr>) ?c)"
      and nx: "co_nextGeneration c' = co_nextGeneration ?c"
      using True free by (simp_all add: c'_def completeCpuToGpu_def Let_def)
    have i: "length (co_pages c') = 512 \<and> invariantHolds c'" by (rule copied_invariant [OF l inv pg nx]) simp_all
    have o: "ownerAt c' p = (if mask_test p ?m then Synchronized else ownerAt ?c p)" if "p < 512" for p
      using that by (simp add: ownerAt_def pg forPages_nth l owner_fresh)
    have u: "uploadCpuNewer executed pages s = (True, s\<lparr>vp_gpu := copyPages ?m (vp_cpu s) (vp_gpu s), vp_coherency := c'\<rparr>)"
      using True by (simp add: uploadCpuNewer_def Let_def e)
    have "coherent (snd (uploadCpuNewer executed pages s)) newest"
      using c i unfolding u coherent_def by (auto simp: o copyPages_def t)
    then show ?thesis using p512 nx unfolding u by (auto simp: o t)
  qed
qed

lemma download_coherent:
  assumes c: "coherent s newest"
  shows "coherent (snd (downloadGpuNewer executed pages s)) newest
    \<and> (executed \<longrightarrow> fst (downloadGpuNewer executed pages s) \<and> (\<forall>p. mask_test p pages \<longrightarrow>
         ownerAt (vp_coherency (snd (downloadGpuNewer executed pages s))) p \<noteq> GpuNewer))
    \<and> co_nextGeneration (vp_coherency (snd (downloadGpuNewer executed pages s))) = co_nextGeneration (vp_coherency s)"
proof -
  let ?c = "vp_coherency s" and ?m = "gpuNewerPages pages (vp_coherency s)"
  have l: "length (co_pages ?c) = 512" and inv: "invariantHolds ?c" using c by (auto simp: coherent_def)
  have t: "mask_test p ?m \<longleftrightarrow> p < 512 \<and> mask_test p pages \<and> ownerAt ?c p = GpuNewer" for p
    unfolding gpuNewerPages_def by (rule test_newerPages(2) [OF l])
  have p512: "mask_test p pages \<Longrightarrow> p < 512" for p by (simp add: mask_test_bit)
  have any: "mask_any ?m \<longleftrightarrow> (\<exists>p. mask_test p ?m)" unfolding gpuNewerPages_def by (rule mask_any_test [OF test_newerPages(1)])
  have free: "\<not> overlaps CpuNewer ?m ?c" unfolding overlaps_iff [OF l] t by auto
  show ?thesis
  proof (cases "mask_any ?m \<and> executed")
    case False
    then have "downloadGpuNewer executed pages s = (\<not> mask_any ?m, s)" by (auto simp: downloadGpuNewer_def Let_def)
    then show ?thesis using c any False p512 by (auto simp: t)
  next
    case True
    define c' where "c' = snd (completeGpuToCpu ?m ?c)"
    have e: "completeGpuToCpu ?m ?c = (None, c')" using True free by (simp add: c'_def completeGpuToCpu_def Let_def)
    have pg: "co_pages c' = co_pages (forPages ?m (\<lambda>v. v\<lparr>pv_cpuGeneration := pv_gpuGeneration v\<rparr>) ?c)"
      and nx: "co_nextGeneration c' = co_nextGeneration ?c"
      using True free by (simp_all add: c'_def completeGpuToCpu_def Let_def)
    have i: "length (co_pages c') = 512 \<and> invariantHolds c'" by (rule copied_invariant [OF l inv pg nx]) simp_all
    have o: "ownerAt c' p = (if mask_test p ?m then Synchronized else ownerAt ?c p)" if "p < 512" for p
      using that by (simp add: ownerAt_def pg forPages_nth l owner_fresh)
    have u: "downloadGpuNewer executed pages s = (True, s\<lparr>vp_cpu := copyPages ?m (vp_gpu s) (vp_cpu s), vp_coherency := c'\<rparr>)"
      using True by (simp add: downloadGpuNewer_def Let_def e)
    have "coherent (snd (downloadGpuNewer executed pages s)) newest"
      using c i unfolding u coherent_def by (auto simp: o copyPages_def t)
    then show ?thesis using p512 nx unfolding u by (auto simp: o t)
  qed
qed

section \<open>Runs\<close>

text \<open>
  The backend's steps, with the bytes last written to every page beside its state. A mask is eight words. A refused
  write changes no bytes; the caller that loads new contents into both copies resets the versions.
\<close>

inductive vram_run :: "'v vram_pair \<Rightarrow> (nat \<Rightarrow> 'v) \<Rightarrow> bool" where
  start: "vram_run \<lparr>vp_coherency = coherency_new, vp_cpu = contents, vp_gpu = contents\<rparr> contents"
| reset: "vram_run s newest \<Longrightarrow>
    vram_run \<lparr>vp_coherency = co_reset (vp_coherency s), vp_cpu = contents, vp_gpu = contents\<rparr> contents"
| resetStatistics: "vram_run s newest \<Longrightarrow> vram_run (s\<lparr>vp_coherency := resetStatistics (vp_coherency s)\<rparr>) newest"
| cpu_write: "vram_run s newest \<Longrightarrow> mask_ok pages \<Longrightarrow> vram_run (snd (cpuWrite pages change s))
    (if fst (cpuWrite pages change s) then (\<lambda>p. if mask_test p pages then change p (newest p) else newest p) else newest)"
| gpu_write: "vram_run s newest \<Longrightarrow> mask_ok pages \<Longrightarrow> vram_run (snd (gpuWrite pages n k change s))
    (if fst (gpuWrite pages n k change s) then (\<lambda>p. if mask_test p pages then change p (newest p) else newest p) else newest)"
| upload: "vram_run s newest \<Longrightarrow> mask_ok pages \<Longrightarrow> vram_run (snd (uploadCpuNewer executed pages s)) newest"
| download: "vram_run s newest \<Longrightarrow> mask_ok pages \<Longrightarrow> vram_run (snd (downloadGpuNewer executed pages s)) newest"

lemma fresh_coherent: "length (co_pages c) = 512 \<Longrightarrow> \<forall>p<512. ownerAt c p = Synchronized \<Longrightarrow> invariantHolds c
    \<Longrightarrow> coherent \<lparr>vp_coherency = c, vp_cpu = contents, vp_gpu = contents\<rparr> contents"
  by (simp add: coherent_def)

lemma vram_run_coherent: "vram_run s newest \<Longrightarrow> coherent s newest"
proof (induction rule: vram_run.induct)
  case (start contents)
  show ?case
    by (rule fresh_coherent)
      (simp_all add: coherency_new_def GS_VRAM_PAGE_COUNT_def ownerAt_def ownership_def invariantHolds_def list_all_length)
next
  case (reset s newest contents)
  then show ?case
    by (intro fresh_coherent)
      (simp_all add: co_reset_def coherent_def ownerAt_def ownership_def invariantHolds_def list_all_length)
next
  case (resetStatistics s newest)
  then show ?case by (simp add: coherent_def resetStatistics_def ownerAt_def invariantHolds_def)
qed (simp_all only: cpuWrite_coherent gpuWrite_coherent upload_coherent download_coherent)

lemma download_reads:
  assumes "coherent s newest"
  shows "fst (downloadGpuNewer True pages s) \<and> (\<forall>p. mask_test p pages \<longrightarrow> vp_cpu (snd (downloadGpuNewer True pages s)) p = newest p)
    \<and> (co_nextGeneration (vp_coherency s) \<noteq> u64_max \<longrightarrow> fst (cpuWrite pages change (snd (downloadGpuNewer True pages s))))"
proof -
  let ?s = "snd (downloadGpuNewer True pages s)"
  have d: "coherent ?s newest" "fst (downloadGpuNewer True pages s)" "\<And>p. mask_test p pages \<Longrightarrow> ownerAt (vp_coherency ?s) p \<noteq> GpuNewer"
    "co_nextGeneration (vp_coherency ?s) = co_nextGeneration (vp_coherency s)"
    using download_coherent [OF assms, of True pages] by blast+
  have "length (co_pages (vp_coherency ?s)) = 512" using d(1) by (simp add: coherent_def)
  then have "\<not> overlaps GpuNewer pages (vp_coherency ?s)" using d(3) overlaps_iff by blast
  then have "co_nextGeneration (vp_coherency s) \<noteq> u64_max \<longrightarrow> fst (cpuWrite pages change ?s)"
    by (simp add: cpuWrite_def noteCpuWrite_def allocateGeneration_def d(4) Let_def)
  moreover have "vp_cpu ?s p = newest p" if "mask_test p pages" for p
    using d(1,3) that unfolding coherent_def by (simp add: mask_test_bit)
  ultimately show ?thesis using d(2) by blast
qed

lemma upload_reads:
  assumes "coherent s newest"
  shows "fst (uploadCpuNewer True pages s) \<and> (\<forall>p. mask_test p pages \<longrightarrow> vp_gpu (snd (uploadCpuNewer True pages s)) p = newest p)
    \<and> (co_nextGeneration (vp_coherency s) \<noteq> u64_max \<and> n \<noteq> 0 \<and> mask_count pages \<le> unat k
        \<longrightarrow> fst (gpuWrite pages n k change (snd (uploadCpuNewer True pages s))))"
proof -
  let ?s = "snd (uploadCpuNewer True pages s)"
  have d: "coherent ?s newest" "fst (uploadCpuNewer True pages s)" "\<And>p. mask_test p pages \<Longrightarrow> ownerAt (vp_coherency ?s) p \<noteq> CpuNewer"
    "co_nextGeneration (vp_coherency ?s) = co_nextGeneration (vp_coherency s)"
    using upload_coherent [OF assms, of True pages] by blast+
  have "length (co_pages (vp_coherency ?s)) = 512" using d(1) by (simp add: coherent_def)
  then have "\<not> overlaps CpuNewer pages (vp_coherency ?s)" using d(3) overlaps_iff by blast
  then have "co_nextGeneration (vp_coherency s) \<noteq> u64_max \<and> n \<noteq> 0 \<and> mask_count pages \<le> unat k \<longrightarrow> fst (gpuWrite pages n k change ?s)"
    by (simp add: gpuWrite_def noteGpuWriteBatch_def allocateGeneration_def d(4) Let_def)
  moreover have "vp_gpu ?s p = newest p" if "mask_test p pages" for p
    using d(1,3) that unfolding coherent_def by (simp add: mask_test_bit)
  ultimately show ?thesis using d(2) by blast
qed



end
