(* ===== verification/Spec2Isabelle.thy ===== *)
theory Spec2Isabelle
  imports EeEventTokens Cop0Perf EeThreadSnapshot EeThreadHandles EeCounterRegisters SpscQueueProps GifArbiterProps EeExecutorProps R5900Props Vu0SyncProps GsMemoryProps EeTlbEntries CodeRegionProps EeCacheProps SaveStateProps GsCoherencyProps
begin

text \<open>
  A verification development for PS2Recomp, a static recompiler for PlayStation 2 programs and the runtime its output
  runs on. The theories model the parts of the two programs that are exact, integer-valued and self-contained, and
  prove what the rest of the code relies on them for. Everything is a definition over machine words, naturals, lists
  and maps; every definition computes. A C++ exception, a refused call or a failed check is a value of an option or a
  sum type. Paths below are under \<open>src/\<close>; \<open>runtime/\<close> is \<open>ps2xRuntime/include/runtime/\<close>, \<open>lib/\<close> is
  \<open>ps2xRuntime/src/lib/\<close>, \<open>recomp/\<close> is \<open>ps2xRecomp/src/lib/\<close>.

  \<^bold>\<open>The program.\<close> The recompiler decodes the R5900 instructions of an ELF file and writes one C++ function per guest
  function. At run time a guest thread runs such functions until a boundary. There the scheduler executor advances
  the timeline, lets pending external consequences happen one at a time and asks the thread scheduler which guest
  thread goes on. Events of devices are slots of the event scheduler; the COP0 timer, the performance counters and the
  four EE counters are caught up lazily and announce the cycle of their next event. Guest accesses go through the TLB
  and its caches to RDRAM, scratchpad, the GS registers and the vector units; writes to registered code regions are
  noticed. Packets to the graphics synthesizer (GS) pass the GIF arbiter. The GS memory is held twice, by the CPU and
  by the GPU, and page versions say which copy is newer. The whole state is saved as a document of chunks.

  \<^bold>\<open>Theories.\<close>

  \<^item> \<^bold>\<open>Shared.\<close> \<open>Prelude\<close>: word types, saturating arithmetic, queues sorted by a key, and the interfaces
    \<open>invariant_machine\<close> (operations that keep an invariant while a counter of fixed width lasts) and \<open>snapshot_store\<close>
    (save and restore). \<open>DeadlineDevice\<close>: the interface of a device that is caught up to a cycle and announces its next
    one. \<open>ByteOrder\<close>: the little-endian bytes of a word.

  \<^item> \<^bold>\<open>Timeline and events.\<close> \<open>EeTiming\<close> (\<open>runtime/ee_timing.h\<close>), \<open>EeEventScheduler\<close> (\<open>ee_event_scheduler\<close>). The
    \<open>Facts\<close>, \<open>Service\<close> and \<open>Tokens\<close> theories show that the cached deadline is the least pending one, that a
    service pass delivers exactly the due events in order, that a token cancels only the event it was issued for, and
    that a snapshot restores.

  \<^item> \<^bold>\<open>Timers.\<close> \<open>Cop0Timing\<close> with \<open>Cop0Facts\<close> and \<open>Cop0Perf\<close> (\<open>cop0_timing\<close>); \<open>EeCounterBank\<close> with \<open>EeCounterTicks\<close>,
    \<open>Batch\<close>, \<open>Run\<close>, \<open>Advance\<close>, \<open>Props\<close> and \<open>Registers\<close> (\<open>ee_counters\<close>). Catching up at once equals counting cycle by
    cycle, announced cycles are exact, every call returns; one configuration in which counting in bulk loses an
    interrupt is exhibited.

  \<^item> \<^bold>\<open>Guest threads.\<close> \<open>EeThreadScheduler\<close> (\<open>ee_thread_scheduler\<close>) with its invariant (\<open>Inv\<close>), the preservation by every
    operation (\<open>Ops\<close>, \<open>Steps\<close>, \<open>Steps2\<close>), the machine (\<open>Machine\<close>) and the properties (\<open>Props\<close>, \<open>Waits\<close>, \<open>Handles\<close>,
    \<open>Snapshot\<close>). \<open>EeSchedulerExecutor\<close> with \<open>EeExecutorFacts\<close> and \<open>Props\<close> (\<open>ee_scheduler_executor\<close>): a boundary with the
    runtime's hooks as a parameter that may call the thread scheduler and may throw.

  \<^item> \<^bold>\<open>Queues between components.\<close> \<open>SpscQueue\<close> and \<open>Props\<close> (\<open>runtime/ps2_spsc_queue.h\<close>): two threads interleaved at
    every access to a cursor or slot refine a bounded list. \<open>GifArbiter\<close>, \<open>Facts\<close>, \<open>Props\<close> (\<open>ps2_gif_arbiter\<close>): packets
    tile the stream of each path, nothing is lost or duplicated, framing ignores how submissions are cut.

  \<^item> \<^bold>\<open>Memory.\<close> \<open>EeAddress\<close>, \<open>EeTlb\<close> and \<open>EeTlbOps\<close> (translation, its two caches, the TLB instructions, the access
    test of generated code, the fetch check) with \<open>EeTlbPages\<close>, \<open>Coherence\<close>, \<open>Props\<close>, \<open>Entries\<close>: the caches are
    transparent. \<open>CodeRegions\<close> with \<open>Facts\<close>, \<open>Events\<close>, \<open>Props\<close>: no write to registered code is missed. \<open>EeMemoryState\<close>,
    \<open>EeMemory\<close>, \<open>Facts\<close>, \<open>Props\<close>: accesses of every width refine a map from locations to bytes. All of these are
    \<open>runtime/ps2_memory.h\<close>, \<open>runtime/ps2_address.h\<close> and \<open>lib/ps2_memory.cpp\<close>. \<open>EeCache\<close>, \<open>Facts\<close>, \<open>Props\<close>
    (\<open>ee_cache\<close>): the CACHE instruction over any memory that keeps the promises of the locale \<open>backing_memory\<close>,
    interpreted by the memory model.

  \<^item> \<^bold>\<open>Graphics memory.\<close> \<open>GsMemory\<close>, \<open>Facts\<close>, \<open>Props\<close> (\<open>ps2_gs_memory\<close>): addresses and pixel accesses of the thirteen
    storage modes. \<open>GsPages\<close>, \<open>Props\<close> (page masks and surface footprints of \<open>ps2_gs_backend\<close>): the pages computed for a
    rectangle contain everything an access to it touches. \<open>GsCoherency\<close>, \<open>Props\<close> (\<open>ps2_gs_coherency\<close>, and the transfers
    of \<open>lib/ps2_gs_vulkan_backend.cpp\<close>): a copy that is not marked older holds the bytes last written.

  \<^item> \<^bold>\<open>Saving.\<close> \<open>SaveState\<close>, \<open>Facts\<close>, \<open>Props\<close> (\<open>ps2_save_state\<close>): \<open>decode\<close> accepts exactly the bytes \<open>encode\<close> produces,
    and any changed byte of a payload is refused.

  \<^item> \<^bold>\<open>Recompiler.\<close> \<open>R5900Opcodes\<close> and \<open>R5900Decoder\<close> (\<open>instructions.h\<close>, \<open>recomp/r5900_decoder.cpp\<close>), \<open>EeInstructionModels\<close>
    (cycle, retirement and performance models), \<open>R5900Props\<close>; \<open>Vu0SyncAnalyzer\<close> and \<open>Vu0SyncProps\<close>
    (\<open>recomp/vu0_sync_analyzer.cpp\<close>): a VU0 access emitted without synchronisation is backed by an earlier one. The
    instruction-description library is a parameter of the decoder.

  \<^bold>\<open>How components meet.\<close> The executor is proved over the operations of the thread scheduler and of the timeline
  (\<open>EeExecutorProps\<close>). The memory model uses the TLB, the code tracking and the counter bank's register type; the
  CACHE instruction uses the memory model through a locale. The surface footprints are proved against the address
  computation of \<open>GsMemory\<close>, and the coherency of the two copies uses the masks. The event scheduler, thread scheduler,
  counter bank, TLB, code tracking and GIF arbiter are interpretations of \<open>invariant_machine\<close>; the event scheduler,
  thread scheduler and counter bank of \<open>snapshot_store\<close>; the timers of \<open>deadline_device\<close>; the queue of
  \<open>bounded_fifo\<close>.

  \<^bold>\<open>Bounds.\<close> A service pass makes at most 1,024 callbacks and a boundary handles at most 1,024 consequences; reaching
  the limit is a result that names the source or stage. Sequence numbers and generations have 64 bits: statements over
  runs assume fewer than \<open>2^64 - 1\<close> operations where a counter would otherwise repeat, and the page coherency refuses
  further writes when its generations are used up. A GIF stream has at most 64 MiB and a save state at most 512 MiB and
  256 chunks, so sums of sizes are naturals or are checked as the code does. Loops are structural recursions or have a
  termination proof; the two that need not end are partial functions: \<open>advanceTo\<close> of the counter bank, which is proved
  to return, and the queries of the code tracking, which return unless a region ends above \<open>2^32 - 4\<close> (a finding).

  \<^bold>\<open>Conventions.\<close> A \<open>std::array\<close> is a list or a function of its masked index; an unordered map is a mapping whose keys
  are enumerated in order where the code sorts them. Values computed in \<open>size_t\<close> or \<open>uint64_t\<close> from 32-bit arguments
  are naturals where they cannot wrap. Atomics are interleaved single accesses. Log output, statistics that only feed
  displays and spare capacity of vectors are left out; each theory says what it leaves out. Callbacks and device
  handlers are arguments, functions on the whole state that may throw where the code lets them.

  \<^bold>\<open>Not modelled.\<close> Drawing (rasterizer, Vulkan renderer, shaders) and the vector units compute in host floating point or
  on the device. The DMA controller, VIF and I/O registers call back into all consumers. The runtime object, syscalls,
  stubs, IOP services, audio, debug server, panels, database and platform code are glue over host libraries, sockets,
  fibers and files. The code generator's result is C++ text whose meaning is that of a C++ compiler; its front end reads
  ELF and TOML through third-party libraries. Tests, tools, generated and vendored code are no part of the program.
\<close>

end
